(* ===== verification/Yah_Prelude.thy ===== *)
theory Yah_Prelude
  imports Main "HOL-Library.Word" "HOL-Library.Sublist"
begin

text \<open>
  Shared vocabulary of the development: machine integers of the Rust sources (as natural
  numbers with the wrap-around written out), Rust strings (their UTF-8 bytes), the ordered map
  \<open>BTreeMap\<close> and set \<open>BTreeSet\<close> of the standard library, and two interfaces stated as locales:
  a finite table, and a machine whose steps keep an invariant.
\<close>

section \<open>Proof collections\<close>

named_theorems table_simps \<open>rewriting of table lookups, domains and sizes\<close>
named_theorems table_wf \<open>every table operation keeps the table ordered\<close>

section \<open>Machine integers\<close>

text \<open>
  A value of Rust type \<open>u32\<close>, \<open>u64\<close> or \<open>usize\<close> (on a 64-bit target) is a natural number
  below \<open>2^32\<close> or \<open>2^64\<close>. Arithmetic that the sources leave unchecked wraps, as it does in a
  release build; \<open>checked_add\<close> and \<open>saturating_add\<close> are written out.
\<close>

type_synonym u32 = nat
type_synonym u64 = nat
type_synonym usize = nat
type_synonym byte = "8 word"

definition U32_MODULUS :: nat where "U32_MODULUS = 2 ^ 32"
definition U64_MODULUS :: nat where "U64_MODULUS = 2 ^ 64"

lemma U32_MODULUS_eq [simp]: "U32_MODULUS = 4294967296"
  by (simp add: U32_MODULUS_def)

lemma U64_MODULUS_eq [simp]: "U64_MODULUS = 18446744073709551616"
  by (simp add: U64_MODULUS_def)

definition wrap32 :: "nat \<Rightarrow> u32" where "wrap32 n = n mod U32_MODULUS"
definition wrap64 :: "nat \<Rightarrow> u64" where "wrap64 n = n mod U64_MODULUS"

definition u32_pred :: "u32 \<Rightarrow> u32" where
  "u32_pred n = wrap32 (n + (U32_MODULUS - 1))"

definition u32_checked_add :: "u32 \<Rightarrow> u32 \<Rightarrow> u32 option" where
  "u32_checked_add a b = (if a + b < U32_MODULUS then Some (a + b) else None)"

definition u64_saturating_add :: "u64 \<Rightarrow> u64 \<Rightarrow> u64" where
  "u64_saturating_add a b = min (a + b) (U64_MODULUS - 1)"

definition usize_checked_add :: "usize \<Rightarrow> usize \<Rightarrow> usize option" where
  "usize_checked_add a b = (if a + b < U64_MODULUS then Some (a + b) else None)"

definition USIZE_MAX :: usize where "USIZE_MAX = U64_MODULUS - 1"

lemma wrap32_small [simp]: "n < U32_MODULUS \<Longrightarrow> wrap32 n = n"
  by (simp add: wrap32_def)

lemma wrap64_small [simp]: "n < U64_MODULUS \<Longrightarrow> wrap64 n = n"
  by (simp add: wrap64_def)

lemma wrap32_le: "wrap32 n \<le> n"
  by (simp add: wrap32_def)

lemma wrap64_le: "wrap64 n \<le> n"
  by (simp add: wrap64_def)

lemma u32_pred_Suc [simp]: "Suc n < U32_MODULUS \<Longrightarrow> u32_pred (Suc n) = n"
  by (simp add: u32_pred_def wrap32_def)

lemma u32_checked_add_Some [simp]:
  "u32_checked_add a b = Some c \<longleftrightarrow> c = a + b \<and> a + b < U32_MODULUS"
  by (auto simp: u32_checked_add_def)

section \<open>Rust strings\<close>

text \<open>
  A Rust \<open>String\<close> is the list of its UTF-8 bytes (a HOL \<open>string\<close>). \<open>s.len()\<close> is the length of
  that list; \<open>s.chars().count()\<close> counts the scalar values, that is the bytes that are not UTF-8
  continuation bytes (\<open>10xxxxxx\<close>); \<open>s.chars().take(n).collect()\<close> keeps whole scalar values.
\<close>

definition is_continuation :: "char \<Rightarrow> bool" where
  "is_continuation c \<longleftrightarrow> (let n = of_char c :: nat in 128 \<le> n \<and> n < 192)"

definition chars_count :: "string \<Rightarrow> nat" where
  "chars_count s = length (filter (\<lambda>c. \<not> is_continuation c) s)"

fun take_chars :: "nat \<Rightarrow> string \<Rightarrow> string" where
  "take_chars n [] = []"
| "take_chars n (c # cs) =
     (if is_continuation c then c # take_chars n cs
      else if n = 0 then [] else c # take_chars (n - 1) cs)"

lemma chars_count_simps [simp]:
  "chars_count [] = 0"
  "chars_count (c # cs) = (if is_continuation c then chars_count cs else Suc (chars_count cs))"
  by (simp_all add: chars_count_def)

lemma chars_count_take_chars: "chars_count (take_chars n s) \<le> n"
  by (induction n s rule: take_chars.induct) auto

lemma take_chars_prefix: "prefix (take_chars n s) s"
  by (induction n s rule: take_chars.induct) auto

lemma take_chars_id: "chars_count s \<le> n \<Longrightarrow> take_chars n s = s"
  by (induction n s rule: take_chars.induct) (auto split: if_splits)

text \<open>Decimal rendering of an unsigned integer, as \<open>{}\<close> and \<open>{:?}\<close> print it.\<close>

fun show_nat :: "nat \<Rightarrow> string" where
  "show_nat n = (if n < 10 then [char_of (48 + n)]
                 else show_nat (n div 10) @ [char_of (48 + n mod 10)])"

declare show_nat.simps [simp del]

fun comma_separated :: "string list \<Rightarrow> string" where
  "comma_separated [] = []"
| "comma_separated [s] = s"
| "comma_separated (s # t # ss) = s @ '', '' @ comma_separated (t # ss)"

definition show_list :: "string list \<Rightarrow> string" where
  "show_list ss = ''['' @ comma_separated ss @ '']''"

section \<open>Ordered maps and sets\<close>

text \<open>
  \<open>BTreeMap<K, V>\<close> is modelled by the list of its entries in ascending key order, which is the
  order in which \<open>iter\<close>, \<open>keys\<close> and \<open>values\<close> visit them; \<open>BTreeSet<K>\<close> is a map to the unit
  type, as it is in the standard library.
\<close>

type_synonym ('k, 'v) btree = "('k \<times> 'v) list"
type_synonym 'k btree_set = "('k, unit) btree"

definition bt_wf :: "('k::linorder, 'v) btree \<Rightarrow> bool" where
  "bt_wf m \<longleftrightarrow> sorted_wrt (<) (map fst m)"

definition bt_get :: "('k, 'v) btree \<Rightarrow> 'k \<Rightarrow> 'v option" where
  "bt_get m k = map_of m k"

definition bt_contains :: "('k, 'v) btree \<Rightarrow> 'k \<Rightarrow> bool" where
  "bt_contains m k \<longleftrightarrow> k \<in> fst ` set m"

fun bt_insert :: "'k::linorder \<Rightarrow> 'v \<Rightarrow> ('k, 'v) btree \<Rightarrow> ('k, 'v) btree" where
  "bt_insert k v [] = [(k, v)]"
| "bt_insert k v (e # m) =
     (if fst e < k then e # bt_insert k v m
      else if fst e = k then (k, v) # m
      else (k, v) # e # m)"

definition bt_remove :: "'k \<Rightarrow> ('k, 'v) btree \<Rightarrow> ('k, 'v) btree" where
  "bt_remove k m = filter (\<lambda>e. fst e \<noteq> k) m"

definition bt_modify :: "'k \<Rightarrow> ('v \<Rightarrow> 'v) \<Rightarrow> ('k, 'v) btree \<Rightarrow> ('k, 'v) btree" where
  "bt_modify k f m = map (\<lambda>e. if fst e = k then (fst e, f (snd e)) else e) m"

definition bt_keys :: "('k, 'v) btree \<Rightarrow> 'k list" where
  "bt_keys m = map fst m"

abbreviation bt_dom :: "('k, 'v) btree \<Rightarrow> 'k set" where
  "bt_dom m \<equiv> fst ` set m"

definition bs_insert :: "'k::linorder \<Rightarrow> 'k btree_set \<Rightarrow> 'k btree_set" where
  "bs_insert k s = bt_insert k () s"

subsection \<open>Lookups and domains\<close>

lemma bt_get_Nil [table_simps, simp]: "bt_get [] k = None"
  by (simp add: bt_get_def)

lemma bt_contains_Nil [simp]: "\<not> bt_contains [] k"
  by (simp add: bt_contains_def)

lemma bt_get_insert [table_simps]:
  "bt_get (bt_insert k v m) k' = (if k' = k then Some v else bt_get m k')"
  by (induction m) (auto simp: bt_get_def split: prod.splits)

lemma bt_get_remove [table_simps]:
  "bt_get (bt_remove k m) k' = (if k' = k then None else bt_get m k')"
  by (induction m) (auto simp: bt_get_def bt_remove_def)

lemma bt_get_modify [table_simps]:
  "bt_get (bt_modify k f m) k' = (if k' = k then map_option f (bt_get m k) else bt_get m k')"
  by (induction m) (auto simp: bt_get_def bt_modify_def)

lemma bt_contains_iff: "bt_contains m k \<longleftrightarrow> k \<in> bt_dom m"
  by (simp add: bt_contains_def)

lemma bt_get_None_iff: "bt_get m k = None \<longleftrightarrow> k \<notin> bt_dom m"
  by (simp add: bt_get_def map_of_eq_None_iff)

lemma bt_get_Some_dom: "bt_get m k = Some v \<Longrightarrow> k \<in> bt_dom m"
  by (metis bt_get_None_iff option.distinct(1))

lemma bt_dom_get: "k \<in> bt_dom m \<Longrightarrow> \<exists>v. bt_get m k = Some v"
  using bt_get_None_iff by fastforce

lemma bt_dom_insert [table_simps, simp]: "bt_dom (bt_insert k v m) = insert k (bt_dom m)"
  by (induction m) auto

lemma bt_dom_remove [table_simps, simp]: "bt_dom (bt_remove k m) = bt_dom m - {k}"
  by (auto simp: bt_remove_def)

lemma bt_keys_modify [simp]: "map fst (bt_modify k f m) = map fst m"
  by (auto simp: bt_modify_def)

lemma bt_dom_modify [table_simps, simp]: "bt_dom (bt_modify k f m) = bt_dom m"
  by (metis bt_keys_modify list.set_map)

lemma bt_dom_bs_insert [table_simps, simp]: "bt_dom (bs_insert k s) = insert k (bt_dom s)"
  by (simp add: bs_insert_def)

lemma bt_keys_set [simp]: "set (bt_keys m) = bt_dom m"
  by (simp add: bt_keys_def)

subsection \<open>Order\<close>

lemma bt_wf_Nil [table_wf, simp]: "bt_wf []"
  by (simp add: bt_wf_def)

lemma bt_wf_insert [table_wf]: "bt_wf m \<Longrightarrow> bt_wf (bt_insert k v m)"
  unfolding bt_wf_def
proof (induction m)
  case (Cons e m)
  then show ?case
    by (auto simp: less_le_trans dest: order.strict_trans)
qed simp

lemma bt_wf_remove [table_wf]: "bt_wf m \<Longrightarrow> bt_wf (bt_remove k m)"
  unfolding bt_wf_def bt_remove_def by (induction m) auto

lemma bt_wf_modify [table_wf]: "bt_wf m \<Longrightarrow> bt_wf (bt_modify k f m)"
  by (simp add: bt_wf_def)

lemma bt_wf_bs_insert [table_wf]: "bt_wf s \<Longrightarrow> bt_wf (bs_insert k s)"
  by (simp add: bs_insert_def bt_wf_insert)

lemma bt_wf_distinct: "bt_wf m \<Longrightarrow> distinct (map fst m)"
  unfolding bt_wf_def by (simp add: strict_sorted_iff)

subsection \<open>Sizes\<close>

lemma bt_len_insert_fresh [table_simps]:
  "k \<notin> bt_dom m \<Longrightarrow> length (bt_insert k v m) = Suc (length m)"
  by (induction m) auto

lemma bt_len_insert_present [table_simps]:
  "bt_wf m \<Longrightarrow> k \<in> bt_dom m \<Longrightarrow> length (bt_insert k v m) = length m"
  unfolding bt_wf_def by (induction m) auto

lemma bt_len_insert_le: "length (bt_insert k v m) \<le> Suc (length m)"
  by (induction m) auto

lemma bt_len_remove:
  assumes "bt_wf m" and "k \<in> bt_dom m"
  shows "Suc (length (bt_remove k m)) = length m"
  using assms unfolding bt_wf_def
proof (induction m)
  case (Cons e m)
  show ?case
  proof (cases "fst e = k")
    case True
    with Cons.prems(1) have "k \<notin> bt_dom m" by auto
    then have "filter (\<lambda>e. fst e \<noteq> k) m = m" by (intro filter_True) auto
    with True show ?thesis by (simp add: bt_remove_def)
  next
    case False
    with Cons show ?thesis by (auto simp: bt_remove_def)
  qed
qed simp

lemma bt_remove_absent [table_simps]: "k \<notin> bt_dom m \<Longrightarrow> bt_remove k m = m"
  by (auto simp: bt_remove_def intro!: filter_True)

lemma bt_len_modify [table_simps, simp]: "length (bt_modify k f m) = length m"
  by (simp add: bt_modify_def)

lemma bt_insert_set: "set (bt_insert k v m) \<subseteq> insert (k, v) (set m)"
  by (induction m) auto

section \<open>JSON values\<close>

text \<open>
  \<open>serde_json::Value\<close>; a float is kept as its bits, an object as its entries.
\<close>

datatype json_number = PosInt u64 | NegInt int | Float_bits u64

datatype json =
    JNull
  | JBool bool
  | JNumber json_number
  | JString string
  | JArray "json list"
  | JObject "(string \<times> json) list"

section \<open>Results\<close>

text \<open>\<open>Result<T, E>\<close> is a sum with the error on the left; \<open>and_then\<close> is the \<open>?\<close> operator,
  \<open>map_err\<close> and \<open>ok_or\<close> are the methods of that name.\<close>

definition and_then :: "'e + 'a \<Rightarrow> ('a \<Rightarrow> 'e + 'b) \<Rightarrow> 'e + 'b" where
  "and_then r f = (case r of Inl e \<Rightarrow> Inl e | Inr x \<Rightarrow> f x)"

definition ok_or :: "'e \<Rightarrow> 'a option \<Rightarrow> 'e + 'a" where
  "ok_or e x = (case x of None \<Rightarrow> Inl e | Some y \<Rightarrow> Inr y)"

definition map_err :: "('e \<Rightarrow> 'd) \<Rightarrow> 'e + 'a \<Rightarrow> 'd + 'a" where
  "map_err f r = (case r of Inl e \<Rightarrow> Inl (f e) | Inr x \<Rightarrow> Inr x)"

lemma map_err_simps [simp]: "map_err f (Inl e) = Inl (f e)" "map_err f (Inr x) = Inr x"
  by (simp_all add: map_err_def)

lemma map_err_Inr: "map_err f r = Inr x \<longleftrightarrow> r = Inr x"
  by (cases r) simp_all

lemma map_err_Inl: "map_err f r = Inl d \<longleftrightarrow> (\<exists>e. r = Inl e \<and> d = f e)"
  by (cases r) auto

lemma and_then_simps [simp]: "and_then (Inl e) f = Inl e" "and_then (Inr x) f = f x"
  by (simp_all add: and_then_def)

lemma and_then_Inr: "and_then r f = Inr y \<longleftrightarrow> (\<exists>x. r = Inr x \<and> f x = Inr y)"
  by (cases r) simp_all

lemma and_then_Inl: "and_then r f = Inl e \<longleftrightarrow> r = Inl e \<or> (\<exists>x. r = Inr x \<and> f x = Inl e)"
  by (cases r) simp_all

lemma ok_or_simps [simp]: "ok_or e None = Inl e" "ok_or e (Some x) = Inr x"
  by (simp_all add: ok_or_def)

lemma ok_or_Inr: "ok_or e x = Inr y \<longleftrightarrow> x = Some y"
  by (cases x) simp_all

lemma ok_or_Inl: "ok_or e x = Inl d \<longleftrightarrow> x = None \<and> d = e"
  by (cases x) auto

lemmas result_simps = and_then_Inr and_then_Inl ok_or_Inr ok_or_Inl map_err_Inr map_err_Inl

section \<open>The table interface\<close>

text \<open>
  What the rest of the development relies on of an ordered map: how lookups and the number of
  entries change. The session's accounting (which entry moves from which table to which) rests on
  \<open>size_take_out\<close> and \<open>size_put_in\<close>.
\<close>

locale table =
  fixes lookup :: "'m \<Rightarrow> 'k \<Rightarrow> 'v option"
    and put :: "'k \<Rightarrow> 'v \<Rightarrow> 'm \<Rightarrow> 'm"
    and take_out :: "'k \<Rightarrow> 'm \<Rightarrow> 'm"
    and count :: "'m \<Rightarrow> nat"
    and ordered :: "'m \<Rightarrow> bool"
  assumes lookup_put: "lookup (put k v m) k' = (if k' = k then Some v else lookup m k')"
    and lookup_take_out: "lookup (take_out k m) k' = (if k' = k then None else lookup m k')"
    and count_put_fresh: "lookup m k = None \<Longrightarrow> count (put k v m) = Suc (count m)"
    and count_put_present: "ordered m \<Longrightarrow> lookup m k \<noteq> None \<Longrightarrow> count (put k v m) = count m"
    and count_take_out: "ordered m \<Longrightarrow> lookup m k \<noteq> None \<Longrightarrow> Suc (count (take_out k m)) = count m"
    and ordered_put: "ordered m \<Longrightarrow> ordered (put k v m)"
    and ordered_take_out: "ordered m \<Longrightarrow> ordered (take_out k m)"
begin

lemma put_take_out_lookup: "lookup (take_out k (put k v m)) k' = lookup (take_out k m) k'"
  by (simp add: lookup_put lookup_take_out)

lemma count_put_le: "ordered m \<Longrightarrow> count (put k v m) \<le> Suc (count m)"
  by (cases "lookup m k = None") (simp_all add: count_put_fresh count_put_present)

lemma count_put_then_take_out:
  assumes "ordered m" and "lookup m k = None"
  shows "count (take_out k (put k v m)) = count m"
proof -
  have "Suc (count (take_out k (put k v m))) = count (put k v m)"
    using assms(1) by (intro count_take_out ordered_put) (simp_all add: lookup_put)
  with assms show ?thesis by (simp add: count_put_fresh)
qed

lemma fill_within:
  assumes "ordered m" and "count m < ceiling"
  shows "count (put k v m) \<le> ceiling"
  using count_put_le [OF assms(1), of k v] assms(2) by simp

end

interpretation bt: table bt_get bt_insert bt_remove length bt_wf
proof unfold_locales
qed (auto simp: table_simps bt_get_None_iff bt_len_remove table_wf)

section \<open>Machines with an invariant\<close>

text \<open>
  A component of the program is a state type and a total step function over its inputs. If every
  step keeps an invariant, so does every finite run; if every step moves a counter by at most one,
  a run moves it by at most its length.
\<close>

locale invariant_machine =
  fixes step :: "'i \<Rightarrow> 's \<Rightarrow> 's"
    and invariant :: "'s \<Rightarrow> bool"
  assumes step_invariant: "invariant s \<Longrightarrow> invariant (step i s)"
begin

lemma run_invariant: "invariant s \<Longrightarrow> invariant (fold step is s)"
  by (induction "is" arbitrary: s) (simp_all add: step_invariant)

lemma run_preserves:
  assumes "\<And>i s. invariant s \<Longrightarrow> P s \<Longrightarrow> P (step i s)" and "invariant s" and "P s"
  shows "P (fold step is s)"
  using assms(2,3)
  by (induction "is" arbitrary: s) (simp_all add: step_invariant assms(1))

lemma run_relates:
  assumes refl: "\<And>s. R s s" and trans: "\<And>s t u. R s t \<Longrightarrow> R t u \<Longrightarrow> R s u"
    and step_rel: "\<And>i s. invariant s \<Longrightarrow> R s (step i s)" and "invariant s"
  shows "R s (fold step is s)"
  using assms(4)
proof (induction "is" arbitrary: s)
  case (Cons i "is")
  have "R s (step i s)" using Cons.prems by (rule step_rel)
  moreover have "R (step i s) (fold step is (step i s))"
    using Cons.prems by (intro Cons.IH step_invariant)
  ultimately show ?case using trans by simp
qed (simp add: refl)

end

text \<open>
  When a counter of the state may wrap, the invariant is only kept while the counter is below a
  limit. \<open>counted_machine\<close> is the interface of such a component: it yields the invariant for runs
  that are short enough.
\<close>

locale counted_machine =
  fixes step :: "'i \<Rightarrow> 's \<Rightarrow> 's"
    and invariant :: "'s \<Rightarrow> bool"
    and counter :: "'s \<Rightarrow> nat"
    and weight :: "'i \<Rightarrow> nat"
    and limit :: nat
  assumes guarded_step: "invariant s \<Longrightarrow> counter s + weight i < limit \<Longrightarrow> invariant (step i s)"
    and counter_step:
      "invariant s \<Longrightarrow> counter s + weight i < limit \<Longrightarrow> counter (step i s) \<le> counter s + weight i"
begin

lemma counted_run:
  "invariant s \<Longrightarrow> counter s + sum_list (map weight is) < limit \<Longrightarrow>
     invariant (fold step is s) \<and> counter (fold step is s) \<le> counter s + sum_list (map weight is)"
proof (induction "is" arbitrary: s)
  case (Cons i "is")
  have 1: "invariant (step i s)" and 2: "counter (step i s) \<le> counter s + weight i"
    using guarded_step [OF Cons.prems(1)] counter_step [OF Cons.prems(1)] Cons.prems(2) by auto
  have "counter (step i s) + sum_list (map weight is) < limit"
    using 2 Cons.prems(2) by simp
  from Cons.IH [OF 1 this] 2 show ?case by auto
qed simp

lemmas counted_run_invariant = counted_run [THEN conjunct1]
lemmas counted_run_counter = counted_run [THEN conjunct2]

end

end
