(* ===== verification/Wire_Types.thy ===== *)
theory Wire_Types
  imports Yah_Prelude
begin

text \<open>
  The vocabulary of the worker protocol (crate \<open>yah-plugin-ipc\<close>): the protocol constants of
  \<open>lib.rs\<close> and the wire types of \<open>types.rs\<close>. Structs are records, enums are datatypes with the
  source's constructors; \<open>CallId\<close> and \<open>HandleId\<close> are distinct types, ordered by their number, so
  that they can key the ordered tables of a session. \<open>serde_json::Value\<close> is the datatype \<open>json\<close>
  (integers split as \<open>serde_json::Number\<close> splits them; a float is kept as its bit pattern, which
  no definition inspects; an object's members are in key order).
\<close>

section \<open>Protocol constants\<close>

definition PROTOCOL_VERSION :: u32 where "PROTOCOL_VERSION = 1"
definition MAX_FRAME_BYTES :: usize where "MAX_FRAME_BYTES = 1024 * 1024 + 4096"
definition MAX_CONTROL_FRAME_BYTES :: usize where "MAX_CONTROL_FRAME_BYTES = 16 * 1024"
definition MAX_CALL_PAYLOAD_BYTES :: usize where "MAX_CALL_PAYLOAD_BYTES = 256 * 1024"
definition MAX_INLINE_RESULT_BYTES :: usize where "MAX_INLINE_RESULT_BYTES = 64 * 1024"
definition MAX_STREAM_DATA_BYTES :: usize where "MAX_STREAM_DATA_BYTES = 64 * 1024"
definition MAX_ARTIFACT_READ_BYTES :: usize where "MAX_ARTIFACT_READ_BYTES = 24 * 1024"
definition MAX_ERROR_DETAIL_CHARS :: usize where "MAX_ERROR_DETAIL_CHARS = 512"
definition MAX_METHOD_CHARS :: usize where "MAX_METHOD_CHARS = 128"
definition MAX_MEDIA_TYPE_CHARS :: usize where "MAX_MEDIA_TYPE_CHARS = 128"
definition MAX_SDK_IDENTITY_CHARS :: usize where "MAX_SDK_IDENTITY_CHARS = 64"
definition MAX_GOODBYE_REASON_CHARS :: usize where "MAX_GOODBYE_REASON_CHARS = 256"
definition INITIAL_STREAM_CREDIT :: u32 where "INITIAL_STREAM_CREDIT = 16"
definition MAX_STREAM_CREDIT :: u32 where "MAX_STREAM_CREDIT = 1024"
definition DEFAULT_HOST_CALLS_IN_FLIGHT :: u32 where "DEFAULT_HOST_CALLS_IN_FLIGHT = 16"
definition DEFAULT_WORKER_CALLS_IN_FLIGHT :: u32 where "DEFAULT_WORKER_CALLS_IN_FLIGHT = 32"
definition DEFAULT_LIVE_HANDLES :: u32 where "DEFAULT_LIVE_HANDLES = 16"
definition MAX_WIRE_ID :: u64 where "MAX_WIRE_ID = 2 ^ 53 - 1"

lemma MAX_WIRE_ID_eq: "MAX_WIRE_ID = 9007199254740991"
  by (simp add: MAX_WIRE_ID_def)

lemmas frame_limit_defs =
  MAX_FRAME_BYTES_def MAX_CONTROL_FRAME_BYTES_def MAX_CALL_PAYLOAD_BYTES_def
  MAX_INLINE_RESULT_BYTES_def MAX_STREAM_DATA_BYTES_def MAX_ARTIFACT_READ_BYTES_def

section \<open>Identifiers\<close>

datatype call_id = CallId (call_no: u64)

instantiation call_id :: linorder
begin
definition less_eq_call_id :: "call_id \<Rightarrow> call_id \<Rightarrow> bool" where
  "less_eq_call_id a b \<longleftrightarrow> call_no a \<le> call_no b"
definition less_call_id :: "call_id \<Rightarrow> call_id \<Rightarrow> bool" where
  "less_call_id a b \<longleftrightarrow> call_no a < call_no b"
instance
  by standard (auto simp: less_eq_call_id_def less_call_id_def call_id.expand)
end

datatype handle_id = HandleId (handle_no: u64)

instantiation handle_id :: linorder
begin
definition less_eq_handle_id :: "handle_id \<Rightarrow> handle_id \<Rightarrow> bool" where
  "less_eq_handle_id a b \<longleftrightarrow> handle_no a \<le> handle_no b"
definition less_handle_id :: "handle_id \<Rightarrow> handle_id \<Rightarrow> bool" where
  "less_handle_id a b \<longleftrightarrow> handle_no a < handle_no b"
instance
  by standard (auto simp: less_eq_handle_id_def less_handle_id_def handle_id.expand)
end

lemma id_less_simps [simp]:
  "CallId a < CallId b \<longleftrightarrow> a < b" "CallId a \<le> CallId b \<longleftrightarrow> a \<le> b"
  "HandleId c < HandleId d \<longleftrightarrow> c < d" "HandleId c \<le> HandleId d \<longleftrightarrow> c \<le> d"
  by (simp_all add: less_call_id_def less_eq_call_id_def less_handle_id_def less_eq_handle_id_def)

section \<open>Enumerations\<close>

datatype wire_error_kind =
    UnsupportedVersion | UnknownRequiredFeature | NegotiationRequired | InvalidFrame
  | FrameTooLarge | PayloadTooLarge | UnknownCall | DuplicateCall | UnknownMethod
  | ResourceExhausted | DeadlineExceeded | Cancelled | UnknownHandle | InvalidRead
  | OutcomeUnknown | Internal

datatype cancel_reason = Requested | Enforced

datatype stream_class = Lossless | Lossy

datatype cancel_target = CancelCall | CancelStream

datatype handle_kind = Capability | Artifact

section \<open>Frame bodies\<close>

record hello =
  protocol_versions :: "u32 list"
  sdk_name :: string
  sdk_version :: string
  hello_features :: "string list"
  required_features :: "string list"

record wire_limits =
  max_frame_bytes :: u64
  max_control_frame_bytes :: u64
  max_call_payload_bytes :: u64
  max_inline_result_bytes :: u64
  max_stream_data_bytes :: u64
  max_artifact_read_bytes :: u64

record ceilings =
  host_calls_in_flight :: u32
  worker_calls_in_flight :: u32
  live_handles_ceiling :: u32
  initial_stream_credit :: u32
  max_stream_credit :: u32

record wire_error =
  error_kind :: wire_error_kind
  error_message :: string
  error_retryable :: bool
  error_reconcile_required :: bool

record accept =
  accept_protocol_version :: u32
  accept_features :: "string list"
  accept_limits :: wire_limits
  accept_ceilings :: ceilings

record refuse =
  refuse_error :: wire_error
  supported_versions :: "u32 list"

record call =
  call_call_id :: call_id
  call_method :: string
  call_deadline_ms :: "u32 option"
  call_stream :: bool
  call_payload :: json

record artifact_offer =
  offer_handle :: handle_id
  offer_bytes :: u64
  offer_media_type :: string
  offer_digest_blake3 :: string

datatype outcome =
    Outcome_Ok json
  | Outcome_Spilled artifact_offer
  | Outcome_Err wire_error
  | Outcome_Cancelled cancel_reason

record reply =
  reply_call_id :: call_id
  reply_outcome :: outcome

record stream_open =
  open_call_id :: call_id
  open_credit :: u32

record stream_data =
  data_call_id :: call_id
  data_seq :: u64
  data_more :: bool
  data_class :: stream_class
  data_dropped :: u64
  data_payload :: json

record credit =
  credit_call_id :: call_id
  credit_additional :: u32

record cancel =
  cancel_call_id :: call_id
  cancel_to :: cancel_target

record release =
  release_handle :: handle_id
  release_kind :: handle_kind

record release_ack =
  ack_handle :: handle_id
  ack_kind :: handle_kind

record goodbye =
  goodbye_reason :: string

datatype worker_message =
    W_Hello hello
  | W_Call call
  | W_Reply reply
  | W_StreamOpen stream_open
  | W_StreamData stream_data
  | W_Credit credit
  | W_Cancel cancel
  | W_Release release
  | W_ReleaseAck release_ack
  | W_Goodbye goodbye

datatype host_message =
    H_Accept accept
  | H_Refuse refuse
  | H_Call call
  | H_Reply reply
  | H_StreamOpen stream_open
  | H_StreamData stream_data
  | H_Credit credit
  | H_Cancel cancel
  | H_Release release
  | H_ReleaseAck release_ack
  | H_Goodbye goodbye

end
