(* ===== verification/Frame_Codec.thy ===== *)
theory Frame_Codec
  imports Wire_Types
begin

text \<open>
  The length-prefixed framing of \<open>frame.rs\<close>: \<open>encode\<close>, and the incremental \<open>FrameDecoder\<close> with its
  buffer and poison. \<open>encode\<close> panics on an oversize frame, which is \<open>None\<close> here. The allocation
  capacity that \<open>buffered_capacity\<close> reports is a property of the allocator and is not modelled.
\<close>

section \<open>The codec\<close>

definition to_be_bytes :: "u32 \<Rightarrow> byte list" where
  "to_be_bytes n =
     [word_of_nat (n div 2 ^ 24), word_of_nat (n div 2 ^ 16),
      word_of_nat (n div 2 ^ 8), word_of_nat n]"

definition from_be_bytes :: "byte \<Rightarrow> byte \<Rightarrow> byte \<Rightarrow> byte \<Rightarrow> u32" where
  "from_be_bytes b0 b1 b2 b3 =
     unat b0 * 2 ^ 24 + unat b1 * 2 ^ 16 + unat b2 * 2 ^ 8 + unat b3"

definition encode :: "byte list \<Rightarrow> byte list option" where
  "encode frame =
     (if length frame \<le> MAX_FRAME_BYTES
      then Some (to_be_bytes (length frame) @ frame)
      else None)"

datatype frame_stream_error =
    FrameTooLarge_error u64
  | EmptyFrame

datatype end_of_input_kind =
    Clean
  | TruncatedPrefix usize
  | TruncatedFrame usize usize

record frame_decoder =
  buffer :: "byte list"
  poisoned :: "frame_stream_error option"

definition new_decoder :: frame_decoder where
  "new_decoder = \<lparr>buffer = [], poisoned = None\<rparr>"

definition decoder_feed :: "byte list \<Rightarrow> frame_decoder \<Rightarrow> frame_decoder" where
  "decoder_feed bytes d =
     (if poisoned d = None then d\<lparr>buffer := buffer d @ bytes\<rparr> else d)"

definition poison :: "frame_stream_error \<Rightarrow> frame_decoder \<Rightarrow> frame_decoder" where
  "poison error d = d\<lparr>buffer := [], poisoned := Some error\<rparr>"

definition declared_size :: "byte list \<Rightarrow> usize" where
  "declared_size bs = from_be_bytes (bs ! 0) (bs ! 1) (bs ! 2) (bs ! 3)"

definition next_frame ::
  "frame_decoder \<Rightarrow> (frame_stream_error + byte list option) \<times> frame_decoder" where
  "next_frame d =
     (case poisoned d of
        Some error \<Rightarrow> (Inl error, d)
      | None \<Rightarrow>
          if length (buffer d) < 4 then (Inr None, d)
          else
            let declared = declared_size (buffer d) in
            if declared = 0 then (Inl EmptyFrame, poison EmptyFrame d)
            else if declared > MAX_FRAME_BYTES
            then (Inl (FrameTooLarge_error declared), poison (FrameTooLarge_error declared) d)
            else if length (buffer d) < 4 + declared then (Inr None, d)
            else (Inr (Some (take declared (drop 4 (buffer d)))),
                  d\<lparr>buffer := drop (4 + declared) (buffer d)\<rparr>))"

definition buffered_len :: "frame_decoder \<Rightarrow> usize" where
  "buffered_len d = length (buffer d)"

definition decoder_finish :: "frame_decoder \<Rightarrow> end_of_input_kind" where
  "decoder_finish d =
     (if buffer d = [] then Clean
      else if length (buffer d) < 4 then TruncatedPrefix (length (buffer d))
      else TruncatedFrame (declared_size (buffer d)) (length (buffer d) - 4))"

text \<open>
  Draining to exhaustion, the loop every user of the decoder runs: frames come out until none is
  complete or the stream is violated.
\<close>

function drain_frames :: "frame_decoder \<Rightarrow> byte list list \<times> frame_stream_error option \<times> frame_decoder"
  where
  "drain_frames d =
     (case next_frame d of
        (Inr (Some frame), d') \<Rightarrow>
          (let (frames, e, d'') = drain_frames d' in (frame # frames, e, d''))
      | (Inr None, d') \<Rightarrow> ([], None, d')
      | (Inl error, d') \<Rightarrow> ([], Some error, d'))"
  by pat_completeness auto

section \<open>Termination and memory\<close>

lemma next_frame_shrinks:
  "next_frame d = (Inr (Some frame), d') \<Longrightarrow> length (buffer d') + 4 < length (buffer d)"
  by (auto simp: next_frame_def Let_def split: option.splits if_splits)

termination drain_frames
  by (relation "measure (\<lambda>d. length (buffer d))")
    (auto dest: sym [THEN next_frame_shrinks])

declare drain_frames.simps [simp del]

text \<open>
  A chunk at a time, drained after each, as a transport delivers bytes and as
  \<open>HostSession::feed\<close> consumes them.
\<close>

definition pump_chunk :: "byte list \<Rightarrow> frame_decoder \<Rightarrow> frame_decoder" where
  "pump_chunk bytes d = snd (snd (drain_frames (decoder_feed bytes d)))"

fun feed_chunks ::
  "byte list list \<Rightarrow> frame_decoder \<Rightarrow> byte list list \<times> frame_stream_error option \<times> frame_decoder"
  where
  "feed_chunks [] d = drain_frames d"
| "feed_chunks (c # cs) d =
     (let (frames, _, d') = drain_frames (decoder_feed c d);
          (frames', e, d'') = feed_chunks cs d'
      in (frames @ frames', e, d''))"

definition decoder_drained :: "frame_decoder \<Rightarrow> bool" where
  "decoder_drained d \<longleftrightarrow>
     buffered_len d < 4 + MAX_FRAME_BYTES \<and> (poisoned d \<noteq> None \<longrightarrow> buffer d = [])"

lemma next_frame_Inr_None:
  "next_frame d = (Inr None, d') \<Longrightarrow>
     d' = d \<and> poisoned d = None \<and> length (buffer d) < 4 + MAX_FRAME_BYTES"
  by (auto simp: next_frame_def Let_def split: option.splits if_splits)

lemma next_frame_Inl:
  "next_frame d = (Inl e, d') \<Longrightarrow>
     poisoned d' = Some e \<and> (poisoned d = None \<longrightarrow> buffer d' = []) \<and> (poisoned d \<noteq> None \<longrightarrow> d' = d)"
  by (auto simp: next_frame_def Let_def poison_def split: option.splits if_splits)

lemma next_frame_Some_poisoned:
  "next_frame d = (Inr (Some f), d') \<Longrightarrow> poisoned d = None \<and> poisoned d' = None"
  by (auto simp: next_frame_def Let_def split: option.splits if_splits)

text \<open>What a complete drain leaves behind.\<close>

lemma drain_frames_result:
  "drain_frames d = (fs, e, d') \<Longrightarrow>
     e = poisoned d' \<and> next_frame d' = (case e of None \<Rightarrow> Inr None | Some x \<Rightarrow> Inl x, d') \<and>
     (e = None \<longrightarrow> length (buffer d') < 4 + MAX_FRAME_BYTES) \<and>
     (e \<noteq> None \<longrightarrow> poisoned d = None \<longrightarrow> buffer d' = []) \<and>
     (poisoned d \<noteq> None \<longrightarrow> d' = d)"
proof (induction "length (buffer d)" arbitrary: d fs e d' rule: less_induct)
  case (less d)
  show ?case
  proof (cases "next_frame d")
    case (Pair r d1)
    show ?thesis
    proof (cases r)
      case (Inl x)
      with Pair less.prems have "fs = []" "e = Some x" "d' = d1"
        by (auto simp: drain_frames.simps [of d])
      with next_frame_Inl [of d x d1] Pair Inl show ?thesis
        by (auto simp: next_frame_def)
    next
      case (Inr o1)
      show ?thesis
      proof (cases o1)
        case None
        with Inr Pair less.prems have "fs = []" "e = None" "d' = d1"
          by (auto simp: drain_frames.simps [of d])
        with next_frame_Inr_None [of d d1] Pair Inr None show ?thesis by auto
      next
        case (Some f)
        obtain fs1 e1 d2 where rec: "drain_frames d1 = (fs1, e1, d2)"
          by (cases "drain_frames d1") auto
        with Some Inr Pair less.prems have "e = e1" "d' = d2"
          by (auto simp: drain_frames.simps [of d])
        moreover have "poisoned d = None" "poisoned d1 = None"
          using next_frame_Some_poisoned [of d f d1] Pair Inr Some by auto
        ultimately show ?thesis
          using less.hyps [OF _ rec] next_frame_shrinks [of d f d1] Pair Inr Some by auto
      qed
    qed
  qed
qed

lemma drain_frames_idem:
  assumes "drain_frames d = (fs, e, d')"
  shows "drain_frames d' = ([], e, d')"
  using drain_frames_result [OF assms]
  by (auto simp: drain_frames.simps [of d'] split: option.splits)

lemma drained_after_drain:
  assumes "drain_frames d = (fs, e, d')" and "poisoned d \<noteq> None \<longrightarrow> buffer d = []"
  shows "decoder_drained d'"
  using drain_frames_result [OF assms(1)] assms(2)
  by (cases "poisoned d"; cases e) (auto simp: decoder_drained_def buffered_len_def frame_limit_defs)

lemma decoder_feed_poison_empty:
  "(poisoned d \<noteq> None \<longrightarrow> buffer d = []) \<Longrightarrow>
     poisoned (decoder_feed b d) \<noteq> None \<longrightarrow> buffer (decoder_feed b d) = []"
  by (simp add: decoder_feed_def)

lemma pump_chunk_drained: "decoder_drained d \<Longrightarrow> decoder_drained (pump_chunk b d)"
proof -
  assume d: "decoder_drained d"
  obtain fs e d' where r: "drain_frames (decoder_feed b d) = (fs, e, d')"
    by (cases "drain_frames (decoder_feed b d)") auto
  have "poisoned (decoder_feed b d) \<noteq> None \<longrightarrow> buffer (decoder_feed b d) = []"
    using d by (intro decoder_feed_poison_empty) (auto simp: decoder_drained_def)
  from drained_after_drain [OF r this] r show ?thesis by (simp add: pump_chunk_def)
qed

interpretation fd: invariant_machine pump_chunk decoder_drained
  by unfold_locales (rule pump_chunk_drained)

section \<open>Chunk boundaries are meaningless\<close>

lemma decoder_feed_append [simp]:
  "decoder_feed b (decoder_feed a d) = decoder_feed (a @ b) d"
  by (simp add: decoder_feed_def)

lemma decoder_feed_Nil [simp]: "decoder_feed [] d = d"
  by (cases d) (simp add: decoder_feed_def)

lemma declared_size_append:
  assumes "4 \<le> length bs"
  shows "declared_size (bs @ cs) = declared_size bs"
proof -
  have "(bs @ cs) ! i = bs ! i" if "i < 4" for i
    using assms that by (intro nth_append_left) simp
  then show ?thesis by (simp add: declared_size_def)
qed

lemma next_frame_feed_Some:
  assumes "next_frame d = (Inr (Some f), d')"
  shows "next_frame (decoder_feed b d) = (Inr (Some f), decoder_feed b d')"
proof -
  have h: "poisoned d = None" "4 \<le> length (buffer d)" "declared_size (buffer d) \<noteq> 0"
    "\<not> declared_size (buffer d) > MAX_FRAME_BYTES"
    "\<not> length (buffer d) < 4 + declared_size (buffer d)"
    "f = take (declared_size (buffer d)) (drop 4 (buffer d))"
    "d' = d\<lparr>buffer := drop (4 + declared_size (buffer d)) (buffer d)\<rparr>"
    using assms by (auto simp: next_frame_def Let_def split: option.splits if_splits)
  then show ?thesis
    by (simp add: next_frame_def Let_def decoder_feed_def declared_size_append)
qed

lemma next_frame_feed_Inl:
  assumes "next_frame d = (Inl e, d')"
  shows "next_frame (decoder_feed b d) = (Inl e, d')" and "decoder_feed b d' = d'"
proof -
  from assms show "decoder_feed b d' = d'"
    using next_frame_Inl [OF assms] by (auto simp: decoder_feed_def)
  show "next_frame (decoder_feed b d) = (Inl e, d')"
  proof (cases "poisoned d")
    case None
    have "4 \<le> length (buffer d)"
      using assms None by (auto simp: next_frame_def Let_def split: if_splits)
    with None assms show ?thesis
      by (auto simp: next_frame_def Let_def decoder_feed_def declared_size_append poison_def
          split: if_splits)
  next
    case (Some x)
    with assms show ?thesis by (simp add: next_frame_def decoder_feed_def)
  qed
qed

text \<open>Draining early and feeding the rest later is the same as feeding everything first.\<close>

lemma drain_frames_feed:
  "drain_frames d = (fs, e, d') \<Longrightarrow>
     drain_frames (decoder_feed b d) =
       (let (fs', e', d'') = drain_frames (decoder_feed b d') in (fs @ fs', e', d''))"
proof (induction "length (buffer d)" arbitrary: d fs e d' rule: less_induct)
  case (less d)
  obtain r d1 where nf: "next_frame d = (r, d1)" by (cases "next_frame d")
  show ?case
  proof (cases r)
    case (Inl x)
    with nf less.prems have r: "fs = []" "e = Some x" "d' = d1"
      by (auto simp: drain_frames.simps [of d])
    have "next_frame (decoder_feed b d) = (Inl x, d1)" "decoder_feed b d1 = d1"
      using next_frame_feed_Inl [of d x d1 b] nf Inl by auto
    moreover have "next_frame d1 = (Inl x, d1)"
      using next_frame_Inl [of d x d1] nf Inl by (simp add: next_frame_def)
    ultimately show ?thesis
      using r by (simp add: drain_frames.simps [of "decoder_feed b d"] drain_frames.simps [of d1])
  next
    case (Inr o1)
    show ?thesis
    proof (cases o1)
      case None
      with Inr nf less.prems have "fs = []" "d' = d1" by (auto simp: drain_frames.simps [of d])
      moreover have "d1 = d" using next_frame_Inr_None [of d d1] nf Inr None by simp
      ultimately show ?thesis by (simp split: prod.splits)
    next
      case (Some f)
      obtain fs1 e1 d2 where rec: "drain_frames d1 = (fs1, e1, d2)"
        by (cases "drain_frames d1") auto
      with Some Inr nf less.prems have r: "fs = f # fs1" "e = e1" "d' = d2"
        by (auto simp: drain_frames.simps [of d])
      have "next_frame (decoder_feed b d) = (Inr (Some f), decoder_feed b d1)"
        using next_frame_feed_Some [of d f d1 b] nf Inr Some by simp
      then have "drain_frames (decoder_feed b d) =
          (let (fs', e', d'') = drain_frames (decoder_feed b d1) in (f # fs', e', d''))"
        by (subst drain_frames.simps) simp
      also have "drain_frames (decoder_feed b d1) =
          (let (fs', e', d'') = drain_frames (decoder_feed b d2) in (fs1 @ fs', e', d''))"
        using less.hyps [OF _ rec] next_frame_shrinks [of d f d1] nf Inr Some by simp
      finally show ?thesis using r by (simp split: prod.splits)
    qed
  qed
qed

lemma feed_chunks_drain: "feed_chunks cs d = drain_frames (decoder_feed (concat cs) d)"
proof (induction cs arbitrary: d)
  case (Cons c cs)
  obtain fs e d' where r: "drain_frames (decoder_feed c d) = (fs, e, d')"
    by (cases "drain_frames (decoder_feed c d)") auto
  show ?case
    using drain_frames_feed [OF r, of "concat cs"] r Cons.IH [of d']
    by (simp split: prod.splits)
qed simp

section \<open>Round trip\<close>

lemma unat_byte_of_nat: "unat (word_of_nat n :: byte) = n mod 256"
  by (simp add: unat_of_nat)

lemma four_base_256_digits:
  "n = 256 * q1 + r0 \<Longrightarrow> q1 = 256 * q2 + r1 \<Longrightarrow> q2 = 256 * q3 + r2 \<Longrightarrow>
     q3 * 16777216 + r2 * 65536 + r1 * 256 + r0 = (n::nat)"
  by simp

lemma from_to_be_bytes:
  assumes "n < U32_MODULUS"
  shows "from_be_bytes (to_be_bytes n ! 0) (to_be_bytes n ! 1) (to_be_bytes n ! 2)
           (to_be_bytes n ! 3) = n"
proof -
  have "n div 65536 = n div 256 div 256" "n div 16777216 = n div 256 div 256 div 256"
    by (simp_all add: div_mult2_eq [symmetric])
  then have "n div 16777216 * 16777216 + n div 65536 mod 256 * 65536 +
      n div 256 mod 256 * 256 + n mod 256 = n"
    by (simp add: four_base_256_digits [of n "n div 256" "n mod 256" "n div 256 div 256"
          "n div 256 mod 256" "n div 256 div 256 div 256" "n div 256 div 256 mod 256"])
  moreover have "n div 16777216 mod 256 = n div 16777216"
    using assms by (simp add: less_mult_imp_div_less)
  ultimately show ?thesis
    by (simp add: from_be_bytes_def to_be_bytes_def unat_byte_of_nat)
qed

lemma length_to_be_bytes [simp]: "length (to_be_bytes n) = 4"
  by (simp add: to_be_bytes_def)

lemma next_frame_encoded:
  assumes "encode f = Some w" and "f \<noteq> []" and "poisoned d = None" and "buffer d = w @ rest"
  shows "next_frame d = (Inr (Some f), d\<lparr>buffer := rest\<rparr>)"
proof -
  have len: "length f \<le> MAX_FRAME_BYTES" and w: "w = to_be_bytes (length f) @ f"
    using assms(1) by (auto simp: encode_def split: if_splits)
  have "declared_size (buffer d) = length f"
    using len from_to_be_bytes [of "length f"] assms(4) w
    by (simp add: declared_size_def nth_append frame_limit_defs)
  with assms len w show ?thesis
    by (simp add: next_frame_def Let_def)
qed

lemma drain_encoded:
  assumes "list_all2 (\<lambda>f w. encode f = Some w \<and> f \<noteq> []) fs ws"
    and "poisoned d = None" and "buffer d = concat ws"
  shows "drain_frames d = (fs, None, d\<lparr>buffer := []\<rparr>)"
  using assms
proof (induction fs ws arbitrary: d rule: list_all2_induct)
  case Nil
  then have "next_frame d = (Inr None, d)" and "d\<lparr>buffer := []\<rparr> = d" by (simp_all add: next_frame_def)
  then show ?case by (simp add: drain_frames.simps [of d])
next
  case (Cons f fs w ws)
  have "next_frame d = (Inr (Some f), d\<lparr>buffer := concat ws\<rparr>)"
    using Cons by (intro next_frame_encoded [of f w]) auto
  moreover have "drain_frames (d\<lparr>buffer := concat ws\<rparr>) = (fs, None, d\<lparr>buffer := []\<rparr>)"
    using Cons.IH [of "d\<lparr>buffer := concat ws\<rparr>"] Cons.prems by simp
  ultimately show ?case by (simp add: drain_frames.simps [of d])
qed

end
