(* ===== verification/Strict_Json.thy ===== *)
theory Strict_Json
  imports Wire_Types "HOL-Library.List_Lexorder" "HOL-Library.Char_ord"
begin

text \<open>
  Strict JSON admission (\<open>strict.rs\<close>): the token scan that refuses integer literals wider than 64
  bits, the visitor that refuses duplicate member names and integers outside the I-JSON safe range,
  and the classification of the error texts. The JSON parser itself is \<open>serde_json\<close>, which is not
  part of the repository: it is the record \<open>serde\<close> of functions that \<open>parse\<close> takes. \<open>from_slice\<close> is the
  sequence of visitor calls the parser would make, as a tree in which \<open>RSyntax\<close> marks the place
  where the parser stops with an error; \<open>location\<close> is the position text it appends to an error
  raised by the visitor, and \<open>trailing\<close> the error \<open>Deserializer::end\<close> reports. The outbound mirror
  of the integer rule, \<open>value_within_ijson\<close> of \<open>session/mod.rs\<close>, is here as well.
\<close>

section \<open>Errors and limits\<close>

datatype strict_json_error =
    Syntax string
  | DuplicateMember string
  | UnsafeInteger string

definition SAFE_MAX :: u64 where "SAFE_MAX = 2 ^ 53 - 1"
definition SAFE_MIN :: int where "SAFE_MIN = - (2 ^ 53 - 1)"

definition show_int :: "int \<Rightarrow> string" where
  "show_int i = (if i < 0 then CHR ''-'' # show_nat (nat (- i)) else show_nat (nat i))"

section \<open>The token scan\<close>

definition is_ascii_digit :: "byte \<Rightarrow> bool" where
  "is_ascii_digit b \<longleftrightarrow> 48 \<le> b \<and> b \<le> 57"

definition float_byte :: "byte \<Rightarrow> bool" where
  "float_byte b \<longleftrightarrow> b \<in> {46, 101, 69, 43, 45} \<or> is_ascii_digit b"

fun skip_string :: "byte list \<Rightarrow> byte list" where
  "skip_string [] = []"
| "skip_string (b # bs) =
     (if b = 92 then skip_string (drop 1 bs)
      else if b = 34 then bs
      else skip_string bs)"

definition digits_value :: "byte list \<Rightarrow> nat" where
  "digits_value ds = foldl (\<lambda>n d. 10 * n + (unat d - 48)) 0 ds"

definition ascii_text :: "byte list \<Rightarrow> string" where
  "ascii_text bs = map (\<lambda>b. char_of (unat b)) bs"

definition integer_token_fits :: "bool \<Rightarrow> byte list \<Rightarrow> bool" where
  "integer_token_fits negative digits \<longleftrightarrow>
     (if negative then digits = [] \<or> digits_value digits \<le> 2 ^ 63
      else digits_value digits < 2 ^ 64)"

lemma skip_string_length: "length (skip_string bs) \<le> length bs"
  by (induction bs rule: skip_string.induct) auto

function refuse_overflowing_integers :: "byte list \<Rightarrow> strict_json_error + unit" where
  "refuse_overflowing_integers [] = Inr ()"
| "refuse_overflowing_integers (b # bs) =
     (if b = 34 then refuse_overflowing_integers (skip_string bs)
      else if b = 45 \<or> is_ascii_digit b then
        (let body = (if b = 45 then bs else b # bs);
             digits = takeWhile is_ascii_digit body;
             rest = dropWhile is_ascii_digit body
         in if rest \<noteq> [] \<and> hd rest \<in> {46, 101, 69}
            then refuse_overflowing_integers (dropWhile float_byte rest)
            else if integer_token_fits (b = 45) digits then refuse_overflowing_integers rest
            else Inl (UnsafeInteger (ascii_text ((if b = 45 then [45] else []) @ digits))))
      else refuse_overflowing_integers bs)"
  by pat_completeness auto

lemma number_token_shrinks:
  assumes "b = 45 \<or> is_ascii_digit b"
  shows "length (dropWhile is_ascii_digit (if b = 45 then bs else b # bs)) \<le> length bs"
  using assms by (auto intro: length_dropWhile_le simp: is_ascii_digit_def)

termination refuse_overflowing_integers
proof (relation "measure length", goal_cases)
  case (3 b bs body digits rest)
  have "length (dropWhile float_byte rest) \<le> length rest" by (rule length_dropWhile_le)
  with 3 number_token_shrinks [of b bs] show ?case by simp
next
  case (4 b bs body digits rest)
  with number_token_shrinks [of b bs] show ?case by simp
qed (auto simp: le_imp_less_Suc skip_string_length)

declare refuse_overflowing_integers.simps [simp del]

section \<open>The visitor\<close>

datatype raw_json =
    RNull
  | RBool bool
  | RU64 u64
  | RI64 int
  | RF64 u64
  | RString string
  | RArray "raw_json list"
  | RObject "(string \<times> raw_json) list"
  | RSyntax string

datatype de_error = De_custom string | De_syntax string

definition DUPLICATE_PREFIX :: string where "DUPLICATE_PREFIX = ''strict-duplicate-member:''"
definition UNSAFE_PREFIX :: string where "UNSAFE_PREFIX = ''strict-unsafe-integer:''"

fun strict_visit :: "raw_json \<Rightarrow> de_error + json"
  and visit_seq :: "raw_json list \<Rightarrow> json list \<Rightarrow> de_error + json list"
  and visit_map :: "(string \<times> raw_json) list \<Rightarrow> (string, json) btree \<Rightarrow>
                      de_error + (string, json) btree"
  where
  "strict_visit RNull = Inr JNull"
| "strict_visit (RBool b) = Inr (JBool b)"
| "strict_visit (RU64 n) =
     (if n > SAFE_MAX then Inl (De_custom (UNSAFE_PREFIX @ show_nat n))
      else Inr (JNumber (PosInt n)))"
| "strict_visit (RI64 i) =
     (if i < SAFE_MIN then Inl (De_custom (UNSAFE_PREFIX @ show_int i))
      else Inr (JNumber (if i < 0 then NegInt i else PosInt (nat i))))"
| "strict_visit (RF64 bits) = Inr (JNumber (Float_bits bits))"
| "strict_visit (RString s) = Inr (JString s)"
| "strict_visit (RArray items) =
     (case visit_seq items [] of Inl e \<Rightarrow> Inl e | Inr vs \<Rightarrow> Inr (JArray vs))"
| "strict_visit (RObject members) =
     (case visit_map members [] of Inl e \<Rightarrow> Inl e | Inr m \<Rightarrow> Inr (JObject m))"
| "strict_visit (RSyntax text) = Inl (De_syntax text)"
| "visit_seq [] acc = Inr acc"
| "visit_seq (r # rs) acc =
     (case strict_visit r of Inl e \<Rightarrow> Inl e | Inr v \<Rightarrow> visit_seq rs (acc @ [v]))"
| "visit_map [] object = Inr object"
| "visit_map ((key, r) # rs) object =
     (case strict_visit r of
        Inl e \<Rightarrow> Inl e
      | Inr v \<Rightarrow>
          if bt_contains object key then Inl (De_custom (DUPLICATE_PREFIX @ key))
          else visit_map rs (bt_insert key v object))"

section \<open>Classification and parsing\<close>

definition strip_prefix :: "string \<Rightarrow> string \<Rightarrow> string option" where
  "strip_prefix p s = (if take (length p) s = p then Some (drop (length p) s) else None)"

text \<open>\<open>text.split(" at line").next()\<close>: everything before the first occurrence.\<close>

fun before_at_line :: "string \<Rightarrow> string" where
  "before_at_line [] = []"
| "before_at_line (c # cs) =
     (if strip_prefix '' at line'' (c # cs) \<noteq> None then [] else c # before_at_line cs)"

definition classify :: "string \<Rightarrow> strict_json_error" where
  "classify text =
     (case strip_prefix DUPLICATE_PREFIX text of
        Some name \<Rightarrow> DuplicateMember (before_at_line name)
      | None \<Rightarrow>
          (case strip_prefix UNSAFE_PREFIX text of
             Some v \<Rightarrow> UnsafeInteger (before_at_line v)
           | None \<Rightarrow> Syntax text))"

record serde =
  from_slice :: "byte list \<Rightarrow> raw_json"
  location :: "byte list \<Rightarrow> string"
  trailing :: "byte list \<Rightarrow> string option"

definition error_text :: "string \<Rightarrow> de_error \<Rightarrow> string" where
  "error_text loc e = (case e of De_custom m \<Rightarrow> m @ loc | De_syntax t \<Rightarrow> t)"

definition parse :: "serde \<Rightarrow> byte list \<Rightarrow> strict_json_error + json" where
  "parse sd bytes =
     (case refuse_overflowing_integers bytes of
        Inl e \<Rightarrow> Inl e
      | Inr _ \<Rightarrow>
          (case strict_visit (from_slice sd bytes) of
             Inl e \<Rightarrow> Inl (classify (error_text (location sd bytes) e))
           | Inr v \<Rightarrow>
               (case trailing sd bytes of
                  Some text \<Rightarrow> Inl (Syntax text)
                | None \<Rightarrow> Inr v)))"

text \<open>\<open>StrictJsonError\<close>'s \<open>Display\<close>; \<open>dbg\<close> is \<open>{:?}\<close> of a string, which escapes by Unicode tables.\<close>

fun strict_error_text :: "(string \<Rightarrow> string) \<Rightarrow> strict_json_error \<Rightarrow> string" where
  "strict_error_text dbg (Syntax detail) = ''not strict JSON: '' @ detail"
| "strict_error_text dbg (DuplicateMember name) = ''duplicate member name '' @ dbg name"
| "strict_error_text dbg (UnsafeInteger v) =
     ''integer '' @ v @ '' outside the I-JSON safe range''"

section \<open>The outbound mirror\<close>

fun number_within_ijson :: "json_number \<Rightarrow> bool" where
  "number_within_ijson (PosInt n) \<longleftrightarrow> n \<le> SAFE_MAX"
| "number_within_ijson (NegInt i) \<longleftrightarrow> i \<ge> SAFE_MIN"
| "number_within_ijson (Float_bits _) \<longleftrightarrow> True"

fun value_within_ijson :: "json \<Rightarrow> bool" where
  "value_within_ijson (JNumber n) \<longleftrightarrow> number_within_ijson n"
| "value_within_ijson (JArray items) \<longleftrightarrow> (\<forall>v \<in> set items. value_within_ijson v)"
| "value_within_ijson (JObject members) \<longleftrightarrow> (\<forall>e \<in> set members. value_within_ijson (snd e))"
| "value_within_ijson _ \<longleftrightarrow> True"

section \<open>What the visitor admits\<close>

text \<open>A JSON value as \<open>serde_json\<close> builds it: members in key order, \<open>NegInt\<close> only below zero.\<close>

fun json_wf :: "json \<Rightarrow> bool" where
  "json_wf (JNumber n) \<longleftrightarrow> (case n of NegInt i \<Rightarrow> i < 0 | _ \<Rightarrow> True)"
| "json_wf (JArray items) \<longleftrightarrow> (\<forall>v \<in> set items. json_wf v)"
| "json_wf (JObject members) \<longleftrightarrow> bt_wf members \<and> (\<forall>e \<in> set members. json_wf (snd e))"
| "json_wf _ \<longleftrightarrow> True"

text \<open>The visitor calls a parser makes on the serialisation of a value.\<close>

fun raw_of :: "json \<Rightarrow> raw_json" where
  "raw_of JNull = RNull"
| "raw_of (JBool b) = RBool b"
| "raw_of (JNumber (PosInt n)) = RU64 n"
| "raw_of (JNumber (NegInt i)) = RI64 i"
| "raw_of (JNumber (Float_bits b)) = RF64 b"
| "raw_of (JString s) = RString s"
| "raw_of (JArray items) = RArray (map raw_of items)"
| "raw_of (JObject members) = RObject (map (\<lambda>e. (fst e, raw_of (snd e))) members)"

text \<open>The specification of strictness: no parser error, safe integers, distinct member names.\<close>

fun raw_admissible :: "raw_json \<Rightarrow> bool" where
  "raw_admissible (RU64 n) \<longleftrightarrow> n \<le> SAFE_MAX"
| "raw_admissible (RI64 i) \<longleftrightarrow> SAFE_MIN \<le> i"
| "raw_admissible (RArray items) \<longleftrightarrow> (\<forall>r \<in> set items. raw_admissible r)"
| "raw_admissible (RObject members) \<longleftrightarrow>
     distinct (map fst members) \<and> (\<forall>e \<in> set members. raw_admissible (snd e))"
| "raw_admissible (RSyntax _) \<longleftrightarrow> False"
| "raw_admissible _ \<longleftrightarrow> True"

text \<open>
  What is documented of the parser: it calls \<open>visit_i64\<close> for negative literals only, a
  non-negative integer goes to \<open>visit_u64\<close>. The visitor relies on it: it checks a signed value
  against the lower limit alone.
\<close>

fun parser_shaped :: "raw_json \<Rightarrow> bool" where
  "parser_shaped (RI64 i) \<longleftrightarrow> i < 0"
| "parser_shaped (RArray items) \<longleftrightarrow> (\<forall>r \<in> set items. parser_shaped r)"
| "parser_shaped (RObject members) \<longleftrightarrow> (\<forall>e \<in> set members. parser_shaped (snd e))"
| "parser_shaped _ \<longleftrightarrow> True"

lemma strict_visit_sound:
  shows "strict_visit r = Inr v \<Longrightarrow> parser_shaped r \<Longrightarrow> value_within_ijson v \<and> json_wf v"
    and "visit_seq rs acc = Inr vs \<Longrightarrow> \<forall>r \<in> set rs. parser_shaped r \<Longrightarrow> \<forall>v \<in> set acc. value_within_ijson v \<and> json_wf v \<Longrightarrow>
           \<forall>v \<in> set vs. value_within_ijson v \<and> json_wf v"
    and "visit_map ms obj = Inr m \<Longrightarrow> \<forall>e \<in> set ms. parser_shaped (snd e) \<Longrightarrow>
           bt_wf obj \<and> (\<forall>e \<in> set obj. value_within_ijson (snd e) \<and> json_wf (snd e)) \<Longrightarrow>
           bt_wf m \<and> (\<forall>e \<in> set m. value_within_ijson (snd e) \<and> json_wf (snd e))"
proof (induction r and rs acc and ms obj arbitrary: v and vs and m
    rule: strict_visit_visit_seq_visit_map.induct)
  case (11 r rs acc)
  then show ?case by (fastforce split: sum.splits)
next
  case (13 key r rs object)
  from "13.prems"(1) obtain w where w: "strict_visit r = Inr w" "\<not> bt_contains object key"
    "visit_map rs (bt_insert key w object) = Inr m"
    by (auto split: sum.splits if_splits)
  have "value_within_ijson w \<and> json_wf w" using "13.IH"(1) w(1) "13.prems"(2) by simp
  then have "bt_wf (bt_insert key w object) \<and>
      (\<forall>e \<in> set (bt_insert key w object). value_within_ijson (snd e) \<and> json_wf (snd e))"
    using "13.prems"(3) bt_insert_set [of key w object] by (auto simp: table_wf)
  with "13.IH"(2) [OF w(1,2) w(3)] "13.prems"(2) show ?case by simp
qed (auto split: sum.splits if_splits)

lemma strict_visit_admissible:
  shows "(\<exists>v. strict_visit r = Inr v) \<longleftrightarrow> raw_admissible r"
    and "(\<exists>vs. visit_seq rs acc = Inr vs) \<longleftrightarrow> (\<forall>r \<in> set rs. raw_admissible r)"
    and "(\<exists>m. visit_map ms obj = Inr m) \<longleftrightarrow>
           distinct (map fst ms) \<and> fst ` set ms \<inter> bt_dom obj = {} \<and>
           (\<forall>e \<in> set ms. raw_admissible (snd e))"
proof (induction r and rs acc and ms obj rule: strict_visit_visit_seq_visit_map.induct)
  case (11 r rs acc)
  then show ?case by (cases "strict_visit r") auto
next
  case (13 key r rs object)
  show ?case
  proof (cases "strict_visit r")
    case (Inl e)
    with "13.IH"(1) show ?thesis by auto
  next
    case (Inr w)
    with "13.IH" show ?thesis by (auto simp: bt_contains_iff)
  qed
qed (auto split: sum.splits)

section \<open>The mirror of admission\<close>

lemma visit_seq_map:
  assumes "\<forall>v \<in> set vs. strict_visit (raw_of v) = Inr v"
  shows "visit_seq (map raw_of vs) acc = Inr (acc @ vs)"
  using assms by (induction vs arbitrary: acc) auto

lemma bt_insert_last:
  "\<forall>e \<in> set m. fst e < k \<Longrightarrow> bt_insert k v m = m @ [(k, v)]"
  by (induction m) auto

lemma visit_map_map:
  assumes "\<forall>e \<in> set ms. strict_visit (raw_of (snd e)) = Inr (snd e)"
    and "sorted_wrt (<) (map fst (obj @ ms))"
  shows "visit_map (map (\<lambda>e. (fst e, raw_of (snd e))) ms) obj = Inr (obj @ ms)"
  using assms
proof (induction ms arbitrary: obj)
  case (Cons e ms)
  have below: "\<forall>x \<in> set obj. fst x < fst e"
    using Cons.prems(2) by (auto simp: sorted_wrt_append)
  then have "\<not> bt_contains obj (fst e)" by (auto simp: bt_contains_iff)
  moreover have "bt_insert (fst e) (snd e) obj = obj @ [e]"
    using below by (simp add: bt_insert_last)
  moreover have "visit_map (map (\<lambda>e. (fst e, raw_of (snd e))) ms) (obj @ [e]) = Inr ((obj @ [e]) @ ms)"
    using Cons.prems by (intro Cons.IH) simp_all
  ultimately show ?case using Cons.prems(1) by simp
qed simp

lemma strict_visit_raw_of:
  "json_wf v \<Longrightarrow> value_within_ijson v \<Longrightarrow> strict_visit (raw_of v) = Inr v"
proof (induction v)
  case (JNumber n)
  then show ?case by (cases n) (auto simp: SAFE_MIN_def)
next
  case (JArray items)
  then have "visit_seq (map raw_of items) [] = Inr ([] @ items)"
    by (intro visit_seq_map) simp
  then show ?case by simp
next
  case (JObject members)
  have "strict_visit (raw_of (snd e)) = Inr (snd e)" if "e \<in> set members" for e
    using JObject.IH [of e "snd e"] JObject.prems that
    by (cases e) (metis json_wf.simps(3) snd_conv snds.intros value_within_ijson.simps(3))
  then have "visit_map (map (\<lambda>e. (fst e, raw_of (snd e))) members) [] = Inr ([] @ members)"
    using JObject.prems by (intro visit_map_map) (auto simp: bt_wf_def)
  then show ?case by simp
qed simp_all

lemma raw_of_admissible: "raw_admissible (raw_of v) \<Longrightarrow> value_within_ijson v"
proof (induction v)
  case (JNumber n)
  then show ?case by (cases n) auto
next
  case (JObject members)
  then show ?case by fastforce
qed auto

end
