(* ===== verification/Codec_Properties.thy ===== *)
theory Codec_Properties
  imports Frame_Codec Strict_Json
begin

text \<open>
  The properties of the frame codec and of strict JSON admission.
\<close>

section \<open>Frames\<close>

lemma drain_partial:
  assumes "encode f = Some w" and "f \<noteq> []" and "k < length w"
  shows "drain_frames \<lparr>buffer = take k w, poisoned = None\<rparr> =
    ([], None, \<lparr>buffer = take k w, poisoned = None\<rparr>)"
    and "4 \<le> k \<Longrightarrow> declared_size (take k w) = length f"
proof -
  have len: "length f \<le> MAX_FRAME_BYTES" and w: "w = to_be_bytes (length f) @ f"
    using assms(1) by (auto simp: encode_def split: if_splits)
  show size: "declared_size (take k w) = length f" if "4 \<le> k"
    using that len from_to_be_bytes [of "length f"]
    by (simp add: w declared_size_def nth_append frame_limit_defs)
  have "next_frame \<lparr>buffer = take k w, poisoned = None\<rparr> =
      (Inr None, \<lparr>buffer = take k w, poisoned = None\<rparr>)"
    using size len assms(2,3) w by (cases "4 \<le> k") (auto simp: next_frame_def Let_def)
  then show "drain_frames \<lparr>buffer = take k w, poisoned = None\<rparr> =
      ([], None, \<lparr>buffer = take k w, poisoned = None\<rparr>)"
    by (simp add: drain_frames.simps)
qed

lemma feed_encoded:
  assumes "list_all2 (\<lambda>f w. encode f = Some w \<and> f \<noteq> []) fs ws" and "concat cs = concat ws @ rest"
    and "drain_frames \<lparr>buffer = rest, poisoned = None\<rparr> = ([], None, \<lparr>buffer = rest, poisoned = None\<rparr>)"
  shows "feed_chunks cs new_decoder = (fs, None, \<lparr>buffer = rest, poisoned = None\<rparr>)"
proof -
  have d: "drain_frames \<lparr>buffer = concat ws, poisoned = None\<rparr> = (fs, None, \<lparr>buffer = [], poisoned = None\<rparr>)"
    using drain_encoded [OF assms(1)] by simp
  have "feed_chunks cs new_decoder = drain_frames (decoder_feed rest \<lparr>buffer = concat ws, poisoned = None\<rparr>)"
    by (simp add: feed_chunks_drain assms(2) decoder_feed_def new_decoder_def)
  also have "\<dots> = (fs, None, \<lparr>buffer = rest, poisoned = None\<rparr>)"
    using drain_frames_feed [OF d, of rest] assms(3) by (simp add: decoder_feed_def)
  finally show ?thesis .
qed

text \<open>
  C28. Frames survive the transport: whatever non-empty frames are encoded, and however the resulting
  byte stream is cut into chunks, the decoder yields exactly those frames in order, reports no
  error, and is left empty.
\<close>

theorem frames_survive_transport:
  assumes "list_all2 (\<lambda>f w. encode f = Some w \<and> f \<noteq> []) fs ws" and "concat cs = concat ws"
  shows "feed_chunks cs new_decoder = (fs, None, new_decoder)"
  using feed_encoded [OF assms(1), of cs "[]"] assms(2)
  by (simp add: drain_frames.simps next_frame_def new_decoder_def)

theorem frames_survive_transport_witness:
  "list_all2 (\<lambda>f w. encode f = Some w \<and> f \<noteq> []) [[7], [8, 9]] [to_be_bytes 1 @ [7], to_be_bytes 2 @ [8, 9]] \<and>
   feed_chunks [take 6 (to_be_bytes 1 @ [7] @ to_be_bytes 2 @ [8, 9]),
                drop 6 (to_be_bytes 1 @ [7] @ to_be_bytes 2 @ [8, 9])] new_decoder
     = ([[7], [8, 9]], None, new_decoder)"
proof -
  have e: "list_all2 (\<lambda>f w. encode f = Some w \<and> f \<noteq> []) [[7], [8, 9]]
      [to_be_bytes 1 @ [7], to_be_bytes 2 @ [8, 9]]"
    by (simp add: encode_def MAX_FRAME_BYTES_def numeral_2_eq_2)
  have "concat [take 6 (to_be_bytes 1 @ [7] @ to_be_bytes 2 @ [8, 9]),
      drop 6 (to_be_bytes 1 @ [7] @ to_be_bytes 2 @ [8, 9])]
    = concat [to_be_bytes 1 @ [7], to_be_bytes 2 @ [8, 9]]"
    by (simp only: concat.simps append_take_drop_id append_Nil2 append_assoc)
  from frames_survive_transport [OF e this] e show ?thesis by simp
qed

text \<open>
  A stream cut off inside a frame is recognised and measured: after complete frames and a proper
  prefix of one more, the complete frames come out, and end of input reports how much of the length
  prefix arrived, or the declared size and how much of the body arrived.
\<close>

theorem truncation_is_measured:
  assumes "list_all2 (\<lambda>f w. encode f = Some w \<and> f \<noteq> []) fs ws"
    and "encode f = Some w" and "f \<noteq> []" and "0 < k" and "k < length w"
    and "concat cs = concat ws @ take k w" and "feed_chunks cs new_decoder = (out, e, d)"
  shows "out = fs \<and> e = None \<and>
    decoder_finish d = (if k < 4 then TruncatedPrefix k else TruncatedFrame (length f) (k - 4))"
proof -
  have "feed_chunks cs new_decoder = (fs, None, \<lparr>buffer = take k w, poisoned = None\<rparr>)"
    using feed_encoded [OF assms(1,6) drain_partial(1) [OF assms(2,3,5)]] .
  moreover have "take k w \<noteq> []" using assms(4,5) by auto
  ultimately show ?thesis
    using assms(4,5,7) drain_partial(2) [OF assms(2,3,5)]
    by (auto simp: decoder_finish_def)
qed

theorem truncation_is_measured_witness:
  "decoder_finish (snd (snd (feed_chunks [to_be_bytes 2 @ [8]] new_decoder))) = TruncatedFrame 2 1"
proof -
  obtain out e d where r: "feed_chunks [to_be_bytes 2 @ [8]] new_decoder = (out, e, d)"
    by (cases "feed_chunks [to_be_bytes 2 @ [8]] new_decoder")
  have enc: "encode [8, 9] = Some (to_be_bytes 2 @ [8, 9])"
    by (simp add: encode_def MAX_FRAME_BYTES_def numeral_2_eq_2)
  have "concat [to_be_bytes 2 @ [8]] = concat [] @ take 5 (to_be_bytes 2 @ [8, 9])" by simp
  from truncation_is_measured [OF list_all2_Nil [THEN iffD2] enc _ _ _ this r] r show ?thesis by simp
qed

text \<open>
  Receiving costs bounded memory: however many chunks arrive, after each of them is drained the
  decoder holds less than one maximal frame with its prefix, and nothing at all once the stream has
  been refused.
\<close>

theorem decoder_memory_is_bounded:
  "buffered_len (fold pump_chunk chunks new_decoder) < 4 + MAX_FRAME_BYTES \<and>
   (poisoned (fold pump_chunk chunks new_decoder) = None \<or> buffer (fold pump_chunk chunks new_decoder) = [])"
proof -
  have "decoder_drained new_decoder"
    by (simp add: decoder_drained_def new_decoder_def buffered_len_def)
  from fd.run_invariant [OF this, of chunks] show ?thesis by (auto simp: decoder_drained_def)
qed

text \<open>
  A framing violation is final: once the decoder has reported one, feeding it anything yields no
  frame, the same error again, and no buffered bytes.
\<close>

theorem frame_violation_is_final:
  assumes "next_frame d = (Inl e, d')" and "poisoned d = None"
  shows "drain_frames (decoder_feed bytes d') = ([], Some e, d') \<and> buffered_len d' = 0"
proof -
  have p: "poisoned d' = Some e" and b: "buffer d' = []" using next_frame_Inl [OF assms(1)] assms(2) by auto
  then show ?thesis
    by (simp add: decoder_feed_def drain_frames.simps [of d'] next_frame_def buffered_len_def)
qed

theorem frame_violation_is_final_witness:
  "next_frame \<lparr>buffer = [0, 0, 0, 0], poisoned = None\<rparr> = (Inl EmptyFrame, \<lparr>buffer = [], poisoned = Some EmptyFrame\<rparr>) \<and>
   drain_frames (decoder_feed [1, 2] \<lparr>buffer = [], poisoned = Some EmptyFrame\<rparr>)
     = ([], Some EmptyFrame, \<lparr>buffer = [], poisoned = Some EmptyFrame\<rparr>)"
proof -
  have n: "next_frame \<lparr>buffer = [0, 0, 0, 0], poisoned = None\<rparr> =
      (Inl EmptyFrame, \<lparr>buffer = [], poisoned = Some EmptyFrame\<rparr>)"
    by (simp add: next_frame_def declared_size_def from_be_bytes_def poison_def)
  show ?thesis using frame_violation_is_final [OF n] n by simp
qed

section \<open>Strict JSON\<close>

text \<open>
  Admission is exactly strictness: a document is admitted if and only if no integer literal
  overflows 64 bits, the parser finds no syntax error and no trailing text, every integer is in the
  I-JSON safe range and no object repeats a member name at any depth.
\<close>

theorem parse_admits_iff_strict:
  "(\<exists>v. parse sd bytes = Inr v) \<longleftrightarrow>
     refuse_overflowing_integers bytes = Inr () \<and> raw_admissible (from_slice sd bytes) \<and>
     trailing sd bytes = None"
proof (cases "strict_visit (from_slice sd bytes)")
  case (Inl e)
  with strict_visit_admissible(1) [of "from_slice sd bytes"] show ?thesis
    by (auto simp: parse_def split: sum.splits)
next
  case (Inr v)
  with strict_visit_admissible(1) [of "from_slice sd bytes"] show ?thesis
    by (auto simp: parse_def split: sum.splits option.splits)
qed

text \<open>
  C40. What is admitted is safe to use: given a parser that reports only negative literals as signed,
  every integer of an admitted value, at any depth, is in the I-JSON safe range, and its objects
  have distinct member names in key order.
\<close>

theorem parse_yields_safe_value:
  assumes "parse sd bytes = Inr v" and "parser_shaped (from_slice sd bytes)"
  shows "value_within_ijson v \<and> json_wf v"
  using assms strict_visit_sound(1) [of "from_slice sd bytes" v]
  by (auto simp: parse_def split: sum.splits option.splits)

theorem parse_yields_safe_value_witness:
  "parse \<lparr>from_slice = (\<lambda>_. RArray [RI64 (-3), RU64 5]), location = (\<lambda>_. []), trailing = (\<lambda>_. None)\<rparr> []
     = Inr (JArray [JNumber (NegInt (-3)), JNumber (PosInt 5)]) \<and>
   value_within_ijson (JArray [JNumber (NegInt (-3)), JNumber (PosInt 5)])"
proof -
  let ?sd = "\<lparr>from_slice = (\<lambda>_. RArray [RI64 (-3), RU64 5]), location = (\<lambda>_. []), trailing = (\<lambda>_. None)\<rparr>"
  have p: "parse ?sd [] = Inr (JArray [JNumber (NegInt (-3)), JNumber (PosInt 5)])"
    by (simp add: parse_def refuse_overflowing_integers.simps SAFE_MIN_def SAFE_MAX_def)
  show ?thesis using parse_yields_safe_value [OF p] p by simp
qed

text \<open>
  Outbound and inbound rules mirror each other: a well-formed value passes the outbound integer
  check if and only if the strict visitor accepts what a parser makes of it, and then it is read
  back unchanged.
\<close>

theorem outbound_check_mirrors_admission:
  assumes "json_wf v"
  shows "(value_within_ijson v \<longleftrightarrow> raw_admissible (raw_of v)) \<and>
    (value_within_ijson v \<longrightarrow> strict_visit (raw_of v) = Inr v)"
proof -
  have "value_within_ijson v \<Longrightarrow> raw_admissible (raw_of v)"
    using strict_visit_raw_of [OF assms] strict_visit_admissible(1) [of "raw_of v"] by blast
  with raw_of_admissible strict_visit_raw_of [OF assms] show ?thesis by blast
qed

theorem outbound_check_mirrors_admission_witness:
  "json_wf (JObject [(''a'', JNumber (PosInt 3)), (''b'', JNull)]) \<and>
   strict_visit (raw_of (JObject [(''a'', JNumber (PosInt 3)), (''b'', JNull)]))
     = Inr (JObject [(''a'', JNumber (PosInt 3)), (''b'', JNull)])"
proof -
  have w: "json_wf (JObject [(''a'', JNumber (PosInt 3)), (''b'', JNull)])"
    by (simp add: bt_wf_def less_char_def)
  show ?thesis using outbound_check_mirrors_admission [OF w] w by (simp add: SAFE_MAX_def)
qed

lemma skip_plain_string:
  "34 \<notin> set body \<Longrightarrow> 92 \<notin> set body \<Longrightarrow> skip_string (body @ 34 # rest) = rest"
  by (induction body) auto

lemma digit_not_special: "is_ascii_digit b \<Longrightarrow> b \<noteq> 34 \<and> b \<noteq> 45"
  by (auto simp: is_ascii_digit_def)

text \<open>
  The token scan refuses exactly the literals that lose precision silently: an integer literal
  is refused if and only if it does not fit in 64 unsigned bits, and digits inside a string are not
  mistaken for a literal.
\<close>

theorem overflowing_integer_refused:
  assumes "digits \<noteq> []" and "list_all is_ascii_digit digits" and "34 \<notin> set body" and "92 \<notin> set body"
  shows "refuse_overflowing_integers (34 # body @ 34 # digits) =
    (if digits_value digits < 2 ^ 64 then Inr () else Inl (UnsafeInteger (ascii_text digits)))"
proof -
  obtain b bs where ds: "digits = b # bs" using assms(1) by (cases digits) auto
  have b: "is_ascii_digit b" "b \<noteq> 34" "b \<noteq> 45" using assms(2) ds digit_not_special [of b] by auto
  have all: "takeWhile is_ascii_digit bs = bs" "dropWhile is_ascii_digit bs = []"
    using assms(2) ds by (auto simp: list_all_iff)
  have "refuse_overflowing_integers digits =
      (if digits_value digits < 2 ^ 64 then Inr () else Inl (UnsafeInteger (ascii_text digits)))"
    using b assms(2) unfolding ds list_all_iff
    by (simp add: all refuse_overflowing_integers.simps integer_token_fits_def Let_def)
  then show ?thesis
    using assms(3,4) by (simp add: refuse_overflowing_integers.simps(2) [of 34] skip_plain_string)
qed

theorem overflowing_integer_refused_witness:
  "refuse_overflowing_integers (34 # [57] @ 34 # [57, 57, 57, 57, 57, 57, 57, 57, 57, 57, 57, 57, 57, 57, 57,
      57, 57, 57, 57, 57])
   = Inl (UnsafeInteger (ascii_text [57, 57, 57, 57, 57, 57, 57, 57, 57, 57, 57, 57, 57, 57, 57, 57, 57, 57, 57,
      57]))"
  using overflowing_integer_refused [of "[57, 57, 57, 57, 57, 57, 57, 57, 57, 57, 57, 57, 57, 57, 57, 57, 57, 57,
      57, 57]" "[57]"]
  by (simp add: is_ascii_digit_def digits_value_def)

end
