(* ===== verification/Session_State.thy ===== *)
theory Session_State
  imports Frame_Codec Strict_Json
begin

text \<open>
  The state of the host side of one worker session (\<open>session/mod.rs\<close>) and the steps every handler
  shares: local settlement of a host call, reclaiming handles, refusing a worker call, and the fatal
  fault that closes the session. Third-party code the session calls is the record \<open>wire_env\<close>:
  \<open>serde_json\<close> (parsing, the length of a serialised value, the derived decoders of
  \<open>WorkerMessage\<close> and \<open>ArtifactRead\<close>), \<open>blake3::hash\<close>, and the \<open>{:?}\<close> rendering of a string.
\<close>

section \<open>Code outside the repository\<close>

record artifact_read =
  read_handle :: handle_id
  read_offset :: u64
  read_len :: u64

record wire_env =
  serde_json :: serde
  to_vec_len :: "json \<Rightarrow> usize option"
  decode_message :: "json \<Rightarrow> string + worker_message"
  decode_artifact_read :: "json \<Rightarrow> artifact_read option"
  blake3_hash :: "byte list \<Rightarrow> byte list"
  debug_str :: "string \<Rightarrow> string"

text \<open>\<open>serde_json::to_vec(v).map(|b| b.len()).unwrap_or(usize::MAX)\<close> and \<open>.unwrap_or(0)\<close>.\<close>

definition len_or_max :: "wire_env \<Rightarrow> json \<Rightarrow> usize" where
  "len_or_max env v = (case to_vec_len env v of Some n \<Rightarrow> n | None \<Rightarrow> USIZE_MAX)"

definition len_or_zero :: "wire_env \<Rightarrow> json \<Rightarrow> usize" where
  "len_or_zero env v = (case to_vec_len env v of Some n \<Rightarrow> n | None \<Rightarrow> 0)"

section \<open>State\<close>

record session_config =
  features :: "string list"
  ceilings_of :: ceilings
  retired_operation_budget :: "u64 option"

definition default_config :: session_config where
  "default_config =
     \<lparr>features = [],
      ceilings_of =
        \<lparr>host_calls_in_flight = DEFAULT_HOST_CALLS_IN_FLIGHT,
         worker_calls_in_flight = DEFAULT_WORKER_CALLS_IN_FLIGHT,
         live_handles_ceiling = DEFAULT_LIVE_HANDLES,
         initial_stream_credit = INITIAL_STREAM_CREDIT,
         max_stream_credit = MAX_STREAM_CREDIT\<rparr>,
      retired_operation_budget = None\<rparr>"

definition wire_limits_of_build :: wire_limits where
  "wire_limits_of_build =
     \<lparr>max_frame_bytes = MAX_FRAME_BYTES,
      max_control_frame_bytes = MAX_CONTROL_FRAME_BYTES,
      max_call_payload_bytes = MAX_CALL_PAYLOAD_BYTES,
      max_inline_result_bytes = MAX_INLINE_RESULT_BYTES,
      max_stream_data_bytes = MAX_STREAM_DATA_BYTES,
      max_artifact_read_bytes = MAX_ARTIFACT_READ_BYTES\<rparr>"

datatype session_event =
    Negotiated string string
  | CallDelivered call_id string json bool "u32 option"
  | HostCallSettled call_id outcome
  | HostCallLost call_id wire_error_kind bool
  | StreamOpened call_id u32
  | StreamItem call_id u64 bool stream_class u64 json
  | CreditGranted call_id u32
  | CancelRequested call_id cancel_target
  | HandleReleased handle_id handle_kind
  | WorkerHandleReleased handle_id handle_kind
  | HandlesReclaimed "handle_id list"
  | WorkerGoodbye string
  | CallRefused call_id wire_error_kind
  | Fatal wire_error_kind string

datatype phase = AwaitingHello | Active | Closed

record worker_call =
  wc_stream :: bool
  wc_stream_credit :: "u32 option"
  wc_next_seq :: u64
  wc_lossy_dropped :: u64
  wc_last_item_sent :: bool
  wc_minted :: "handle_id list"

record host_call =
  hc_stream :: bool
  hc_stream_open :: bool
  hc_credit_left :: u32
  hc_highest_seq :: "u64 option"
  hc_lossy_dropped :: u64
  hc_last_item_seen :: bool
  hc_deadline_at :: "u64 option"
  hc_stream_muted :: bool

record artifact_bytes =
  art_bytes :: "byte list"
  art_media_type :: string
  art_digest_blake3 :: string

record live_handle =
  lh_kind :: handle_kind
  lh_artifact :: "artifact_bytes option"

datatype app_error =
    App_NotActive
  | App_UnknownCall
  | App_HandleCeiling
  | App_CallCeiling
  | App_SpillRequired usize
  | App_PayloadTooLarge usize
  | App_InvalidField string
  | App_ReleasePending
  | App_AlreadyReleased
  | App_UnknownWorkerHandle
  | App_StreamViolation string
  | App_AlreadySettled
  | App_SessionRetired

record host_session =
  config :: session_config
  session_phase :: phase
  decoder :: frame_decoder
  now_ms :: u64
  worker_calls :: "(call_id, worker_call) btree"
  host_calls :: "(call_id, host_call) btree"
  retired_worker_calls :: "call_id btree_set"
  retired_host_calls :: "call_id btree_set"
  next_host_call :: u64
  handles :: "(handle_id, live_handle) btree"
  retired_handles :: "handle_id btree_set"
  reclaimed_handles :: "(handle_id, handle_kind) btree"
  next_handle :: u64
  live_handle_count :: u32
  pending_worker_releases :: "(handle_id, handle_kind) btree"
  retired_worker_handles :: "handle_id btree_set"
  offered_worker_handles :: "(handle_id, handle_kind) btree"
  outbox :: "host_message list"
  events :: "session_event list"

definition new_session :: "session_config \<Rightarrow> host_session" where
  "new_session cfg =
     \<lparr>config = cfg, session_phase = AwaitingHello, decoder = new_decoder, now_ms = 0,
      worker_calls = [], host_calls = [], retired_worker_calls = [], retired_host_calls = [],
      next_host_call = 1, handles = [], retired_handles = [], reclaimed_handles = [],
      next_handle = 1, live_handle_count = 0, pending_worker_releases = [],
      retired_worker_handles = [], offered_worker_handles = [], outbox = [], events = []\<rparr>"

section \<open>Observers\<close>

definition drain_outbox :: "host_session \<Rightarrow> host_message list \<times> host_session" where
  "drain_outbox s = (outbox s, s\<lparr>outbox := []\<rparr>)"

definition drain_events :: "host_session \<Rightarrow> session_event list \<times> host_session" where
  "drain_events s = (events s, s\<lparr>events := []\<rparr>)"

definition live_handles :: "host_session \<Rightarrow> u32" where
  "live_handles s = live_handle_count s"

definition in_flight_calls :: "host_session \<Rightarrow> u32 \<times> u32" where
  "in_flight_calls s = (wrap32 (length (host_calls s)), wrap32 (length (worker_calls s)))"

definition pending_releases :: "host_session \<Rightarrow> u32" where
  "pending_releases s = wrap32 (length (pending_worker_releases s))"

definition retired_operations :: "host_session \<Rightarrow> u64" where
  "retired_operations s =
     length (retired_worker_calls s) + length (retired_host_calls s) + length (retired_handles s)
     + length (reclaimed_handles s) + length (retired_worker_handles s)
     + length (offered_worker_handles s)"

definition budget_full :: "host_session \<Rightarrow> bool" where
  "budget_full s =
     (case retired_operation_budget (config s) of
        None \<Rightarrow> False
      | Some budget \<Rightarrow> retired_operations s \<ge> budget)"

definition is_closed :: "host_session \<Rightarrow> bool" where
  "is_closed s \<longleftrightarrow> session_phase s = Closed"

section \<open>Texts\<close>

fun kind_name :: "wire_error_kind \<Rightarrow> string" where
  "kind_name UnsupportedVersion = ''unsupported-version''"
| "kind_name UnknownRequiredFeature = ''unknown-required-feature''"
| "kind_name NegotiationRequired = ''negotiation-required''"
| "kind_name InvalidFrame = ''invalid-frame''"
| "kind_name FrameTooLarge = ''frame-too-large''"
| "kind_name PayloadTooLarge = ''payload-too-large''"
| "kind_name UnknownCall = ''unknown-call''"
| "kind_name DuplicateCall = ''duplicate-call''"
| "kind_name UnknownMethod = ''unknown-method''"
| "kind_name ResourceExhausted = ''resource-exhausted''"
| "kind_name DeadlineExceeded = ''deadline-exceeded''"
| "kind_name UnknownHandle = ''unknown-handle''"
| "kind_name InvalidRead = ''invalid-read''"
| "kind_name OutcomeUnknown = ''outcome-unknown''"
| "kind_name Internal = ''internal''"
| "kind_name Cancelled = ''cancelled''"

definition bounded_reason :: "wire_error_kind \<Rightarrow> string" where
  "bounded_reason kind = ''protocol fault: '' @ kind_name kind"

definition clip_detail :: "string \<Rightarrow> string" where
  "clip_detail detail = take_chars MAX_ERROR_DETAIL_CHARS detail"

section \<open>Shared steps\<close>

definition push_out :: "host_message \<Rightarrow> host_session \<Rightarrow> host_session" where
  "push_out m s = s\<lparr>outbox := outbox s @ [m]\<rparr>"

definition push_event :: "session_event \<Rightarrow> host_session \<Rightarrow> host_session" where
  "push_event e s = s\<lparr>events := events s @ [e]\<rparr>"

definition settle_host_call_locally ::
  "wire_error_kind \<Rightarrow> bool \<Rightarrow> call_id \<Rightarrow> host_session \<Rightarrow> host_session" where
  "settle_host_call_locally error reconcile cid s =
     (if \<not> bt_contains (host_calls s) cid then s
      else push_event (HostCallLost cid error reconcile)
             (s\<lparr>host_calls := bt_remove cid (host_calls s),
                retired_host_calls := bs_insert cid (retired_host_calls s)\<rparr>))"

definition drop_handle :: "bool \<Rightarrow> handle_id \<Rightarrow> host_session \<Rightarrow> host_session" where
  "drop_handle released h s =
     (case bt_get (handles s) h of
        None \<Rightarrow> s
      | Some entry \<Rightarrow>
          (let s = s\<lparr>handles := bt_remove h (handles s),
                     live_handle_count := u32_pred (live_handle_count s)\<rparr>
           in if released
              then s\<lparr>retired_handles := bs_insert h (retired_handles s)\<rparr>
              else s\<lparr>reclaimed_handles := bt_insert h (lh_kind entry) (reclaimed_handles s)\<rparr>))"

fun reclaim_loop :: "handle_id list \<Rightarrow> handle_id list \<Rightarrow> host_session \<Rightarrow> handle_id list \<times> host_session"
  where
  "reclaim_loop [] reclaimed s = (reclaimed, s)"
| "reclaim_loop (h # hs) reclaimed s =
     (if bt_contains (handles s) h
      then reclaim_loop hs (reclaimed @ [h]) (drop_handle False h s)
      else reclaim_loop hs reclaimed s)"

definition reclaim_handles :: "handle_id list \<Rightarrow> host_session \<Rightarrow> host_session" where
  "reclaim_handles hs s =
     (let (reclaimed, s) = reclaim_loop hs [] s
      in if reclaimed = [] then s else push_event (HandlesReclaimed reclaimed) s)"

definition reclaim_all_handles :: "host_session \<Rightarrow> host_session" where
  "reclaim_all_handles s = reclaim_handles (bt_keys (handles s)) s"

text \<open>The body \<open>on_goodbye\<close> and \<open>fatal\<close> share: settle every host call, reclaim, void the rest.\<close>

definition wind_up :: "wire_error_kind \<Rightarrow> bool \<Rightarrow> host_session \<Rightarrow> host_session" where
  "wind_up error reconcile s =
     (let s = fold (settle_host_call_locally error reconcile) (bt_keys (host_calls s)) s;
          s = reclaim_all_handles s
      in s\<lparr>pending_worker_releases := [], reclaimed_handles := [], worker_calls := []\<rparr>)"

definition fatal :: "wire_error_kind \<Rightarrow> string \<Rightarrow> host_session \<Rightarrow> host_session" where
  "fatal kind detail s =
     (if session_phase s = Closed then s
      else
        let s = wind_up OutcomeUnknown True s;
            s = (if session_phase s = Active
                 then push_out (H_Goodbye \<lparr>goodbye_reason = bounded_reason kind\<rparr>) s
                 else s)
        in push_event (Fatal kind (clip_detail detail)) (s\<lparr>session_phase := Closed\<rparr>))"

definition on_goodbye :: "goodbye \<Rightarrow> host_session \<Rightarrow> host_session" where
  "on_goodbye g s =
     (let s = push_event (WorkerGoodbye (goodbye_reason g)) s;
          s = wind_up Cancelled False s
      in s\<lparr>session_phase := Closed\<rparr>)"

definition push_call_refusal ::
  "call_id \<Rightarrow> wire_error_kind \<Rightarrow> bool \<Rightarrow> host_session \<Rightarrow> host_session" where
  "push_call_refusal cid kind retryable s =
     push_event (CallRefused cid kind)
       (push_out (H_Reply \<lparr>reply_call_id = cid,
                           reply_outcome = Outcome_Err
                             \<lparr>error_kind = kind, error_message = kind_name kind,
                              error_retryable = retryable, error_reconcile_required = False\<rparr>\<rparr>) s)"

definition refuse_worker_call :: "call_id \<Rightarrow> wire_error_kind \<Rightarrow> host_session \<Rightarrow> host_session" where
  "refuse_worker_call cid kind s =
     push_call_refusal cid kind (kind = ResourceExhausted)
       (s\<lparr>retired_worker_calls := bs_insert cid (retired_worker_calls s)\<rparr>)"

definition refuse_worker_call_unspent :: "call_id \<Rightarrow> host_session \<Rightarrow> host_session" where
  "refuse_worker_call_unspent cid s = push_call_refusal cid ResourceExhausted False s"

section \<open>Field bounds\<close>

definition id_ok :: "u64 \<Rightarrow> bool" where
  "id_ok n \<longleftrightarrow> 1 \<le> n \<and> n \<le> MAX_WIRE_ID"

definition name_ok :: "string \<Rightarrow> bool" where
  "name_ok s \<longleftrightarrow> 1 \<le> chars_count s \<and> chars_count s \<le> MAX_SDK_IDENTITY_CHARS"

definition lower_hex_char :: "char \<Rightarrow> bool" where
  "lower_hex_char c \<longleftrightarrow>
     (let n = of_char c :: nat in (48 \<le> n \<and> n \<le> 57) \<or> (97 \<le> n \<and> n \<le> 102))"

definition digest_ok :: "string \<Rightarrow> bool" where
  "digest_ok d \<longleftrightarrow> length d = 64 \<and> list_all lower_hex_char d"

fun validate_bounds :: "worker_message \<Rightarrow> string + unit" where
  "validate_bounds (W_Hello h) =
     (if \<not> name_ok (sdk_name h) \<or> \<not> name_ok (sdk_version h)
      then Inl ''sdk identity outside its length bound'' else Inr ())"
| "validate_bounds (W_Call c) =
     (if \<not> id_ok (call_no (call_call_id c)) then Inl ''call id outside wire range''
      else if chars_count (call_method c) = 0 \<or> chars_count (call_method c) > MAX_METHOD_CHARS
      then Inl ''method name outside its length bound'' else Inr ())"
| "validate_bounds (W_Reply r) =
     (if \<not> id_ok (call_no (reply_call_id r)) then Inl ''call id outside wire range''
      else case reply_outcome r of
             Outcome_Err e \<Rightarrow>
               if chars_count (error_message e) > MAX_ERROR_DETAIL_CHARS
               then Inl ''error message outside its length bound'' else Inr ()
           | Outcome_Spilled a \<Rightarrow>
               if \<not> id_ok (handle_no (offer_handle a)) then Inl ''handle id outside wire range''
               else if chars_count (offer_media_type a) = 0
                       \<or> chars_count (offer_media_type a) > MAX_MEDIA_TYPE_CHARS
               then Inl ''media type outside its length bound''
               else if \<not> digest_ok (offer_digest_blake3 a)
               then Inl ''digest is not 64 lowercase hex characters'' else Inr ()
           | _ \<Rightarrow> Inr ())"
| "validate_bounds (W_StreamOpen m) =
     (if \<not> id_ok (call_no (open_call_id m)) then Inl ''call id outside wire range'' else Inr ())"
| "validate_bounds (W_StreamData m) =
     (if \<not> id_ok (call_no (data_call_id m)) then Inl ''call id outside wire range'' else Inr ())"
| "validate_bounds (W_Credit m) =
     (if \<not> id_ok (call_no (credit_call_id m)) then Inl ''call id outside wire range'' else Inr ())"
| "validate_bounds (W_Cancel m) =
     (if \<not> id_ok (call_no (cancel_call_id m)) then Inl ''call id outside wire range'' else Inr ())"
| "validate_bounds (W_Release m) =
     (if \<not> id_ok (handle_no (release_handle m)) then Inl ''handle id outside wire range'' else Inr ())"
| "validate_bounds (W_ReleaseAck m) =
     (if \<not> id_ok (handle_no (ack_handle m)) then Inl ''handle id outside wire range'' else Inr ())"
| "validate_bounds (W_Goodbye g) =
     (if chars_count (goodbye_reason g) > MAX_GOODBYE_REASON_CHARS
      then Inl ''goodbye reason outside its length bound'' else Inr ())"

fun is_control :: "worker_message \<Rightarrow> bool" where
  "is_control (W_Call _) = False"
| "is_control (W_Reply _) = False"
| "is_control (W_StreamData _) = False"
| "is_control _ = True"

end
