(* ===== verification/Session_Handles.thy ===== *)
theory Session_Handles
  imports Session_State
begin

text \<open>
  Handle lifetime (\<open>session/handles.rs\<close>): minting capability and artifact handles against the live
  ceiling, the pull-read the session serves itself, release in both directions. An operation the
  application calls returns a \<open>Result\<close>; it is modelled by a pair of the result (\<open>Inl\<close> the
  \<open>AppError\<close>) and the state it leaves behind.
\<close>

type_synonym 'a app_result = "(app_error + 'a) \<times> host_session"

definition ARTIFACT_READ_METHOD :: string where "ARTIFACT_READ_METHOD = ''artifact.read''"

definition hex_digit :: "nat \<Rightarrow> char" where
  "hex_digit n = char_of (if n < 10 then 48 + n else 87 + n)"

definition hex :: "byte list \<Rightarrow> string" where
  "hex bytes = concat (map (\<lambda>b. [hex_digit (unat b div 16), hex_digit (unat b mod 16)]) bytes)"

definition next_handle_id :: "host_session \<Rightarrow> handle_id \<times> host_session" where
  "next_handle_id s =
     (HandleId (next_handle s), s\<lparr>next_handle := wrap64 (next_handle s + 1)\<rparr>)"

definition insert_handle ::
  "handle_kind \<Rightarrow> artifact_bytes option \<Rightarrow> host_session \<Rightarrow> handle_id app_result" where
  "insert_handle kind artifact s =
     (if live_handle_count s \<ge> live_handles_ceiling (ceilings_of (config s))
      then (Inl App_HandleCeiling, s)
      else
        let (h, s) = next_handle_id s
        in (Inr h,
            s\<lparr>handles := bt_insert h \<lparr>lh_kind = kind, lh_artifact = artifact\<rparr> (handles s),
              live_handle_count := wrap32 (live_handle_count s + 1)\<rparr>))"

definition note_minted :: "call_id \<Rightarrow> handle_id \<Rightarrow> host_session \<Rightarrow> host_session" where
  "note_minted cid h s =
     s\<lparr>worker_calls := bt_modify cid (\<lambda>c. c\<lparr>wc_minted := wc_minted c @ [h]\<rparr>) (worker_calls s)\<rparr>"

definition mint_capability_handle :: "call_id \<Rightarrow> host_session \<Rightarrow> handle_id app_result" where
  "mint_capability_handle minted_for s =
     (if session_phase s \<noteq> Active then (Inl App_NotActive, s)
      else if \<not> bt_contains (worker_calls s) minted_for then (Inl App_UnknownCall, s)
      else if budget_full s then (Inl App_SessionRetired, s)
      else case insert_handle Capability None s of
             (Inl e, s) \<Rightarrow> (Inl e, s)
           | (Inr h, s) \<Rightarrow> (Inr h, note_minted minted_for h s))"

definition offer_artifact ::
  "wire_env \<Rightarrow> call_id \<Rightarrow> byte list \<Rightarrow> string \<Rightarrow> host_session \<Rightarrow> artifact_offer app_result" where
  "offer_artifact env minted_for bytes media_type s =
     (if session_phase s \<noteq> Active then (Inl App_NotActive, s)
      else if \<not> bt_contains (worker_calls s) minted_for then (Inl App_UnknownCall, s)
      else if bytes = [] then (Inl (App_InvalidField ''spilled artifact of zero bytes''), s)
      else if chars_count media_type = 0 \<or> chars_count media_type > MAX_MEDIA_TYPE_CHARS
      then (Inl (App_InvalidField ''media type outside its length bound''), s)
      else if budget_full s then (Inl App_SessionRetired, s)
      else
        let digest = hex (blake3_hash env bytes)
        in case insert_handle Artifact
                  (Some \<lparr>art_bytes = bytes, art_media_type = media_type,
                         art_digest_blake3 = digest\<rparr>) s of
             (Inl e, s) \<Rightarrow> (Inl e, s)
           | (Inr h, s) \<Rightarrow>
               (Inr \<lparr>offer_handle = h, offer_bytes = length bytes,
                     offer_media_type = media_type, offer_digest_blake3 = digest\<rparr>,
                note_minted minted_for h s))"

definition artifact_chunk :: "artifact_read \<Rightarrow> artifact_bytes \<Rightarrow> (byte list) option" where
  "artifact_chunk read artifact =
     (let len = read_len read; offset = read_offset read; size = length (art_bytes artifact)
      in if len = 0 \<or> len > MAX_ARTIFACT_READ_BYTES \<or> offset \<ge> size
            \<or> (case usize_checked_add offset len of None \<Rightarrow> True | Some stop \<Rightarrow> stop > size)
         then None
         else Some (take len (drop offset (art_bytes artifact))))"

definition serve_artifact_read :: "wire_env \<Rightarrow> call \<Rightarrow> host_session \<Rightarrow> host_session" where
  "serve_artifact_read env c s =
     (let cid = call_call_id c in
      case decode_artifact_read env (call_payload c) of
        None \<Rightarrow> refuse_worker_call cid InvalidFrame s
      | Some read \<Rightarrow>
          (case bt_get (handles s) (read_handle read) of
             None \<Rightarrow> refuse_worker_call cid UnknownHandle s
           | Some entry \<Rightarrow>
               (case lh_artifact entry of
                  None \<Rightarrow> refuse_worker_call cid UnknownHandle s
                | Some artifact \<Rightarrow>
                    (case artifact_chunk read artifact of
                       None \<Rightarrow> refuse_worker_call cid InvalidRead s
                     | Some chunk \<Rightarrow>
                         push_out (H_Reply \<lparr>reply_call_id = cid,
                            reply_outcome = Outcome_Ok (JObject
                              [(''bytes_hex'', JString (hex chunk)),
                               (''media_type'', JString (art_media_type artifact))])\<rparr>)
                          (s\<lparr>retired_worker_calls := bs_insert cid (retired_worker_calls s)\<rparr>)))))"

definition on_release :: "release \<Rightarrow> host_session \<Rightarrow> host_session" where
  "on_release r s =
     (let h = release_handle r in
      case bt_get (handles s) h of
        None \<Rightarrow>
          (case bt_get (reclaimed_handles s) h of
             Some kind \<Rightarrow>
               if kind \<noteq> release_kind r
               then fatal UnknownHandle ''release with the wrong kind'' s
               else push_out (H_ReleaseAck \<lparr>ack_handle = h, ack_kind = kind\<rparr>)
                      (s\<lparr>reclaimed_handles := bt_remove h (reclaimed_handles s),
                         retired_handles := bs_insert h (retired_handles s)\<rparr>)
           | None \<Rightarrow>
               fatal UnknownHandle
                 (if bt_contains (retired_handles s) h
                  then ''release of a handle already released''
                  else ''release of a handle never held'') s)
      | Some entry \<Rightarrow>
          if lh_kind entry \<noteq> release_kind r
          then fatal UnknownHandle ''release with the wrong kind'' s
          else
            push_event (HandleReleased h (lh_kind entry))
              (push_out (H_ReleaseAck \<lparr>ack_handle = h, ack_kind = lh_kind entry\<rparr>)
                (drop_handle True h s)))"

definition release_worker_handle :: "handle_id \<Rightarrow> handle_kind \<Rightarrow> host_session \<Rightarrow> unit app_result"
  where
  "release_worker_handle h kind s =
     (if session_phase s \<noteq> Active then (Inl App_NotActive, s)
      else if \<not> id_ok (handle_no h) then (Inl (App_InvalidField ''handle id outside wire range''), s)
      else case bt_get (offered_worker_handles s) h of
             None \<Rightarrow> (Inl App_UnknownWorkerHandle, s)
           | Some offered \<Rightarrow>
               if offered \<noteq> kind then (Inl (App_InvalidField ''release with the wrong kind''), s)
               else if bt_contains (retired_worker_handles s) h then (Inl App_AlreadyReleased, s)
               else if bt_contains (pending_worker_releases s) h then (Inl App_ReleasePending, s)
               else if budget_full s then (Inl App_SessionRetired, s)
               else if wrap32 (length (pending_worker_releases s))
                       \<ge> live_handles_ceiling (ceilings_of (config s))
               then (Inl App_HandleCeiling, s)
               else
                 (Inr (),
                  push_out (H_Release \<lparr>release_handle = h, release_kind = kind\<rparr>)
                    (s\<lparr>pending_worker_releases := bt_insert h kind (pending_worker_releases s)\<rparr>)))"

definition on_release_ack :: "release_ack \<Rightarrow> host_session \<Rightarrow> host_session" where
  "on_release_ack a s =
     (let h = ack_handle a in
      case bt_get (pending_worker_releases s) h of
        None \<Rightarrow> fatal UnknownHandle ''unsolicited release-ack'' s
      | Some kind \<Rightarrow>
          if kind \<noteq> ack_kind a
          then fatal UnknownHandle ''release-ack with the wrong kind'' s
          else
            push_event (WorkerHandleReleased h kind)
              (s\<lparr>pending_worker_releases := bt_remove h (pending_worker_releases s),
                 retired_worker_handles := bs_insert h (retired_worker_handles s)\<rparr>))"

end
