(* ===== verification/Session_Calls.thy ===== *)
theory Session_Calls
  imports Session_Handles
begin

text \<open>
  Calls in both directions and their one terminal frame each (\<open>session/calls.rs\<close>).
\<close>

definition fresh_worker_call :: "bool \<Rightarrow> worker_call" where
  "fresh_worker_call stream =
     \<lparr>wc_stream = stream, wc_stream_credit = None, wc_next_seq = 0, wc_lossy_dropped = 0,
      wc_last_item_sent = False, wc_minted = []\<rparr>"

definition on_worker_call :: "wire_env \<Rightarrow> call \<Rightarrow> host_session \<Rightarrow> host_session" where
  "on_worker_call env c s =
     (let cid = call_call_id c in
      if bt_contains (worker_calls s) cid \<or> bt_contains (retired_worker_calls s) cid
      then fatal DuplicateCall ''worker call id reused'' s
      else if budget_full s then refuse_worker_call_unspent cid s
      else if len_or_max env (call_payload c) > MAX_CALL_PAYLOAD_BYTES
      then refuse_worker_call cid PayloadTooLarge s
      else if wrap32 (length (worker_calls s)) \<ge> worker_calls_in_flight (ceilings_of (config s))
      then refuse_worker_call cid ResourceExhausted s
      else if call_method c = ARTIFACT_READ_METHOD then serve_artifact_read env c s
      else
        push_event (CallDelivered cid (call_method c) (call_payload c) (call_stream c)
                      (call_deadline_ms c))
          (s\<lparr>worker_calls := bt_insert cid (fresh_worker_call (call_stream c)) (worker_calls s)\<rparr>))"

definition validate_outbound_offer :: "artifact_offer \<Rightarrow> host_session \<Rightarrow> app_error + unit" where
  "validate_outbound_offer a s =
     (if \<not> id_ok (handle_no (offer_handle a))
      then Inl (App_InvalidField ''handle id outside wire range'')
      else if offer_bytes a = 0 then Inl (App_InvalidField ''spilled artifact of zero bytes'')
      else if offer_bytes a > MAX_WIRE_ID
      then Inl (App_InvalidField ''offer bytes outside wire range'')
      else if chars_count (offer_media_type a) = 0
              \<or> chars_count (offer_media_type a) > MAX_MEDIA_TYPE_CHARS
      then Inl (App_InvalidField ''media type outside its length bound'')
      else if \<not> digest_ok (offer_digest_blake3 a)
      then Inl (App_InvalidField ''digest is not 64 lowercase hex characters'')
      else case bt_get (handles s) (offer_handle a) of
             None \<Rightarrow>
               Inl (App_InvalidField ''spilled offer for a handle the session does not hold'')
           | Some entry \<Rightarrow>
               (case lh_artifact entry of
                  None \<Rightarrow> Inl (App_InvalidField ''spilled offer names a capability handle'')
                | Some held \<Rightarrow>
                    if length (art_bytes held) \<noteq> offer_bytes a
                       \<or> art_media_type held \<noteq> offer_media_type a
                       \<or> art_digest_blake3 held \<noteq> offer_digest_blake3 a
                    then Inl (App_InvalidField ''spilled offer does not match the held artifact'')
                    else Inr ()))"

text \<open>The admission of an outcome: its error, or the outcome as it goes out.\<close>

fun admit_outcome ::
  "wire_env \<Rightarrow> worker_call \<Rightarrow> host_session \<Rightarrow> outcome \<Rightarrow> app_error + outcome" where
  "admit_outcome env st s (Outcome_Ok result) =
     (if \<not> value_within_ijson result
      then Inl (App_InvalidField ''integer outside the I-JSON safe range'')
      else if len_or_zero env result > MAX_INLINE_RESULT_BYTES
      then Inl (App_SpillRequired (len_or_zero env result))
      else Inr (Outcome_Ok result))"
| "admit_outcome env st s (Outcome_Spilled a) =
     (case validate_outbound_offer a s of
        Inl e \<Rightarrow> Inl e
      | Inr _ \<Rightarrow>
          if offer_handle a \<notin> set (wc_minted st)
          then Inl (App_InvalidField ''spilled offer minted for a different call'')
          else Inr (Outcome_Spilled a))"
| "admit_outcome env st s (Outcome_Err e) =
     Inr (Outcome_Err (e\<lparr>error_message := clip_detail (error_message e)\<rparr>))"
| "admit_outcome env st s (Outcome_Cancelled r) = Inr (Outcome_Cancelled r)"

fun outcome_reclaims :: "outcome \<Rightarrow> bool" where
  "outcome_reclaims (Outcome_Ok _) = False"
| "outcome_reclaims (Outcome_Spilled _) = False"
| "outcome_reclaims _ = True"

definition reply_to_worker :: "wire_env \<Rightarrow> call_id \<Rightarrow> outcome \<Rightarrow> host_session \<Rightarrow> unit app_result"
  where
  "reply_to_worker env cid outcome s =
     (if session_phase s \<noteq> Active then (Inl App_NotActive, s)
      else case bt_get (worker_calls s) cid of
             None \<Rightarrow>
               (Inl (if bt_contains (retired_worker_calls s) cid then App_AlreadySettled
                     else App_UnknownCall), s)
           | Some st \<Rightarrow>
               (case admit_outcome env st s outcome of
                  Inl e \<Rightarrow> (Inl e, s)
                | Inr out \<Rightarrow>
                    let s = s\<lparr>worker_calls := bt_remove cid (worker_calls s),
                              retired_worker_calls := bs_insert cid (retired_worker_calls s)\<rparr>;
                        s = (if outcome_reclaims out then reclaim_handles (wc_minted st) s else s)
                    in (Inr (), push_out (H_Reply \<lparr>reply_call_id = cid, reply_outcome = out\<rparr>) s)))"

definition call_worker ::
  "wire_env \<Rightarrow> string \<Rightarrow> json \<Rightarrow> u32 option \<Rightarrow> bool \<Rightarrow> host_session \<Rightarrow> call_id app_result" where
  "call_worker env method payload deadline stream s =
     (if session_phase s \<noteq> Active then (Inl App_NotActive, s)
      else if chars_count method = 0 \<or> chars_count method > MAX_METHOD_CHARS
      then (Inl (App_InvalidField ''method name outside its length bound''), s)
      else if \<not> value_within_ijson payload
      then (Inl (App_InvalidField ''integer outside the I-JSON safe range''), s)
      else if len_or_max env payload > MAX_CALL_PAYLOAD_BYTES
      then (Inl (App_PayloadTooLarge (len_or_max env payload)), s)
      else if budget_full s then (Inl App_SessionRetired, s)
      else if wrap32 (length (host_calls s)) \<ge> host_calls_in_flight (ceilings_of (config s))
      then (Inl App_CallCeiling, s)
      else
        let cid = CallId (next_host_call s);
            hc = \<lparr>hc_stream = stream, hc_stream_open = False, hc_credit_left = 0,
                  hc_highest_seq = None, hc_lossy_dropped = 0, hc_last_item_seen = False,
                  hc_deadline_at = map_option (\<lambda>budget. wrap64 (now_ms s + budget)) deadline,
                  hc_stream_muted = False\<rparr>
        in (Inr cid,
            push_out (H_Call \<lparr>call_call_id = cid, call_method = method,
                              call_deadline_ms = deadline, call_stream = stream,
                              call_payload = payload\<rparr>)
              (s\<lparr>next_host_call := wrap64 (next_host_call s + 1),
                 host_calls := bt_insert cid hc (host_calls s)\<rparr>)))"

definition cancel_host_call :: "call_id \<Rightarrow> cancel_target \<Rightarrow> host_session \<Rightarrow> unit app_result" where
  "cancel_host_call cid target s =
     (if session_phase s \<noteq> Active then (Inl App_NotActive, s)
      else if \<not> bt_contains (host_calls s) cid then (Inl App_UnknownCall, s)
      else
        let s = (if target = CancelStream
                 then s\<lparr>host_calls := bt_modify cid (\<lambda>c. c\<lparr>hc_stream_muted := True\<rparr>) (host_calls s)\<rparr>
                 else s)
        in (Inr (), push_out (H_Cancel \<lparr>cancel_call_id = cid, cancel_to = target\<rparr>) s))"

text \<open>The late terminal of a call the host already settled.\<close>

fun on_late_reply :: "outcome \<Rightarrow> host_session \<Rightarrow> host_session" where
  "on_late_reply (Outcome_Spilled a) s =
     (if bt_contains (offered_worker_handles s) (offer_handle a)
      then fatal UnknownHandle ''spilled offer reuses a worker handle id'' s
      else if \<not> budget_full s
      then s\<lparr>offered_worker_handles :=
               bt_insert (offer_handle a) Artifact (offered_worker_handles s)\<rparr>
      else s)"
| "on_late_reply _ s = s"

definition settle_by_reply :: "reply \<Rightarrow> host_session \<Rightarrow> host_session" where
  "settle_by_reply r s =
     push_event (HostCallSettled (reply_call_id r) (reply_outcome r))
       (s\<lparr>host_calls := bt_remove (reply_call_id r) (host_calls s),
          retired_host_calls := bs_insert (reply_call_id r) (retired_host_calls s)\<rparr>)"

definition on_worker_reply :: "wire_env \<Rightarrow> reply \<Rightarrow> host_session \<Rightarrow> host_session" where
  "on_worker_reply env r s =
     (if \<not> bt_contains (host_calls s) (reply_call_id r) then
        (if bt_contains (retired_host_calls s) (reply_call_id r)
         then on_late_reply (reply_outcome r) s
         else fatal UnknownCall ''reply to unknown host call'' s)
      else case reply_outcome r of
             Outcome_Ok result \<Rightarrow>
               if len_or_zero env result > MAX_INLINE_RESULT_BYTES
               then fatal PayloadTooLarge ''inline result over bound'' s
               else settle_by_reply r s
           | Outcome_Spilled a \<Rightarrow>
               if offer_bytes a = 0 then fatal InvalidFrame ''spilled artifact of zero bytes'' s
               else
                 let reused = bt_contains (offered_worker_handles s) (offer_handle a);
                     s = s\<lparr>offered_worker_handles :=
                             bt_insert (offer_handle a) Artifact (offered_worker_handles s)\<rparr>
                 in if reused then fatal UnknownHandle ''spilled offer reuses a worker handle id'' s
                    else settle_by_reply r s
           | _ \<Rightarrow> settle_by_reply r s)"

definition on_worker_cancel :: "cancel \<Rightarrow> host_session \<Rightarrow> host_session" where
  "on_worker_cancel c s =
     (if bt_contains (worker_calls s) (cancel_call_id c)
      then push_event (CancelRequested (cancel_call_id c) (cancel_to c)) s else s)"

definition expired :: "u64 \<Rightarrow> host_call \<Rightarrow> bool" where
  "expired now st = (case hc_deadline_at st of None \<Rightarrow> False | Some at \<Rightarrow> now \<ge> at)"

definition expire_one :: "call_id \<Rightarrow> host_session \<Rightarrow> host_session" where
  "expire_one cid s =
     settle_host_call_locally DeadlineExceeded True cid
       (push_out (H_Cancel \<lparr>cancel_call_id = cid, cancel_to = CancelCall\<rparr>) s)"

definition expire_deadlines :: "host_session \<Rightarrow> host_session" where
  "expire_deadlines s =
     fold expire_one (map fst (filter (\<lambda>e. expired (now_ms s) (snd e)) (host_calls s))) s"

end
