(* ===== verification/Session_Streams.thy ===== *)
theory Session_Streams
  imports Session_Calls
begin

text \<open>
  Streams and their credit windows (\<open>session/streams.rs\<close>): the call id is the stream id, an open
  precedes data, lossless items spend credit, and sequence numbers have no gaps.
\<close>

definition modify_host_call :: "call_id \<Rightarrow> (host_call \<Rightarrow> host_call) \<Rightarrow> host_session \<Rightarrow> host_session"
  where "modify_host_call cid f s = s\<lparr>host_calls := bt_modify cid f (host_calls s)\<rparr>"

definition modify_worker_call ::
  "call_id \<Rightarrow> (worker_call \<Rightarrow> worker_call) \<Rightarrow> host_session \<Rightarrow> host_session"
  where "modify_worker_call cid f s = s\<lparr>worker_calls := bt_modify cid f (worker_calls s)\<rparr>"

definition max_credit :: "host_session \<Rightarrow> u32" where
  "max_credit s = max_stream_credit (ceilings_of (config s))"

definition on_stream_open :: "stream_open \<Rightarrow> host_session \<Rightarrow> host_session" where
  "on_stream_open m s =
     (let cid = open_call_id m in
      case bt_get (host_calls s) cid of
        None \<Rightarrow>
          if bt_contains (retired_host_calls s) cid then s
          else fatal UnknownCall ''stream open for unknown call'' s
      | Some st \<Rightarrow>
          if \<not> hc_stream st then fatal InvalidFrame ''stream open on a plain call'' s
          else if hc_stream_open st then fatal InvalidFrame ''second stream open'' s
          else if open_credit m = 0 \<or> open_credit m > max_credit s
          then fatal InvalidFrame ''stream credit outside bounds'' s
          else push_event (StreamOpened cid (open_credit m))
                 (modify_host_call cid
                    (\<lambda>c. c\<lparr>hc_stream_open := True, hc_credit_left := open_credit m\<rparr>) s))"

definition expected_seq :: "host_call \<Rightarrow> u64" where
  "expected_seq st = (case hc_highest_seq st of None \<Rightarrow> 0 | Some q \<Rightarrow> wrap64 (q + 1))"

definition accept_item :: "stream_data \<Rightarrow> host_call \<Rightarrow> host_call" where
  "accept_item d c =
     c\<lparr>hc_credit_left := (if data_class d = Lossless then hc_credit_left c - 1 else hc_credit_left c),
       hc_highest_seq := Some (data_seq d),
       hc_lossy_dropped := data_dropped d,
       hc_last_item_seen := (if \<not> data_more d then True else hc_last_item_seen c)\<rparr>"

definition on_stream_data :: "wire_env \<Rightarrow> stream_data \<Rightarrow> host_session \<Rightarrow> host_session" where
  "on_stream_data env d s =
     (let cid = data_call_id d in
      if len_or_max env (data_payload d) > MAX_STREAM_DATA_BYTES
      then fatal PayloadTooLarge ''stream item over bound'' s
      else case bt_get (host_calls s) cid of
             None \<Rightarrow>
               if bt_contains (retired_host_calls s) cid then s
               else fatal UnknownCall ''stream data for unknown call'' s
           | Some st \<Rightarrow>
               if \<not> hc_stream st \<or> \<not> hc_stream_open st
               then fatal InvalidFrame ''stream data before open'' s
               else if hc_last_item_seen st
               then fatal InvalidFrame ''stream data after last item'' s
               else if data_seq d \<noteq> expected_seq st
               then fatal InvalidFrame ''stream sequence not monotonic'' s
               else if data_dropped d < hc_lossy_dropped st
               then fatal InvalidFrame ''drop count went backwards'' s
               else if data_class d = Lossless \<and> hc_credit_left st = 0
               then fatal ResourceExhausted ''stream credit overdrawn'' s
               else
                 let s = modify_host_call cid (accept_item d) s
                 in if hc_stream_muted st then s
                    else push_event (StreamItem cid (data_seq d) (data_more d) (data_class d)
                                       (data_dropped d) (data_payload d)) s)"

definition on_credit :: "credit \<Rightarrow> host_session \<Rightarrow> host_session" where
  "on_credit m s =
     (let cid = credit_call_id m in
      case bt_get (worker_calls s) cid of
        None \<Rightarrow> s
      | Some st \<Rightarrow>
          (case wc_stream_credit st of
             None \<Rightarrow> fatal InvalidFrame ''credit before stream open'' s
           | Some window \<Rightarrow>
               (case u32_checked_add window (credit_additional m) of
                  None \<Rightarrow> fatal InvalidFrame ''credit overflow'' s
                | Some next \<Rightarrow>
                    if credit_additional m = 0 \<or> next > max_credit s
                    then fatal InvalidFrame ''credit outside bounds'' s
                    else push_event (CreditGranted cid (credit_additional m))
                           (modify_worker_call cid (\<lambda>c. c\<lparr>wc_stream_credit := Some next\<rparr>) s))))"

definition grant_credit :: "call_id \<Rightarrow> u32 \<Rightarrow> host_session \<Rightarrow> unit app_result" where
  "grant_credit cid additional s =
     (if session_phase s \<noteq> Active then (Inl App_NotActive, s)
      else case bt_get (host_calls s) cid of
             None \<Rightarrow> (Inl App_UnknownCall, s)
           | Some st \<Rightarrow>
               if \<not> hc_stream_open st then (Inl (App_StreamViolation ''stream not open''), s)
               else (case u32_checked_add (hc_credit_left st) additional of
                       None \<Rightarrow> (Inl (App_StreamViolation ''credit overflow''), s)
                     | Some next \<Rightarrow>
                         if additional = 0 \<or> next > max_credit s
                         then (Inl (App_StreamViolation ''credit outside bounds''), s)
                         else
                           (Inr (),
                            push_out (H_Credit \<lparr>credit_call_id = cid,
                                                credit_additional = additional\<rparr>)
                              (modify_host_call cid (\<lambda>c. c\<lparr>hc_credit_left := next\<rparr>) s))))"

definition note_lossy_drops :: "call_id \<Rightarrow> u64 \<Rightarrow> host_session \<Rightarrow> unit app_result" where
  "note_lossy_drops cid dropped s =
     (if session_phase s \<noteq> Active then (Inl App_NotActive, s)
      else case bt_get (worker_calls s) cid of
             None \<Rightarrow> (Inl App_UnknownCall, s)
           | Some st \<Rightarrow>
               if wc_stream_credit st = None
               then (Inl (App_StreamViolation ''stream not open''), s)
               else if wc_last_item_sent st
               then (Inl (App_StreamViolation ''drops after the last item''), s)
               else
                 let next = u64_saturating_add (wc_lossy_dropped st) dropped
                 in if next > MAX_WIRE_ID
                    then (Inl (App_InvalidField ''drop count outside wire range''), s)
                    else (Inr (), modify_worker_call cid (\<lambda>c. c\<lparr>wc_lossy_dropped := next\<rparr>) s))"

definition open_stream :: "call_id \<Rightarrow> u32 \<Rightarrow> host_session \<Rightarrow> unit app_result" where
  "open_stream cid credit s =
     (if session_phase s \<noteq> Active then (Inl App_NotActive, s)
      else case bt_get (worker_calls s) cid of
             None \<Rightarrow> (Inl App_UnknownCall, s)
           | Some st \<Rightarrow>
               if \<not> wc_stream st
               then (Inl (App_StreamViolation ''call did not ask to stream''), s)
               else if wc_stream_credit st \<noteq> None
               then (Inl (App_StreamViolation ''stream already open''), s)
               else if credit = 0 \<or> credit > max_credit s
               then (Inl (App_StreamViolation ''credit outside bounds''), s)
               else
                 (Inr (),
                  push_out (H_StreamOpen \<lparr>open_call_id = cid, open_credit = credit\<rparr>)
                    (modify_worker_call cid (\<lambda>c. c\<lparr>wc_stream_credit := Some credit\<rparr>) s)))"

definition send_item :: "stream_class \<Rightarrow> bool \<Rightarrow> u32 \<Rightarrow> worker_call \<Rightarrow> worker_call" where
  "send_item class has_more window c =
     c\<lparr>wc_stream_credit := (if class = Lossless then Some (window - 1) else wc_stream_credit c),
       wc_next_seq := wrap64 (wc_next_seq c + 1),
       wc_last_item_sent := (if \<not> has_more then True else wc_last_item_sent c)\<rparr>"

definition stream_item ::
  "wire_env \<Rightarrow> call_id \<Rightarrow> stream_class \<Rightarrow> bool \<Rightarrow> json \<Rightarrow> host_session \<Rightarrow> unit app_result" where
  "stream_item env cid class has_more payload s =
     (if session_phase s \<noteq> Active then (Inl App_NotActive, s)
      else case bt_get (worker_calls s) cid of
             None \<Rightarrow> (Inl App_UnknownCall, s)
           | Some st \<Rightarrow>
               (case wc_stream_credit st of
                  None \<Rightarrow> (Inl (App_StreamViolation ''stream not open''), s)
                | Some window \<Rightarrow>
                    if wc_last_item_sent st
                    then (Inl (App_StreamViolation ''item after the last one''), s)
                    else if \<not> value_within_ijson payload
                    then (Inl (App_InvalidField ''integer outside the I-JSON safe range''), s)
                    else if len_or_max env payload > MAX_STREAM_DATA_BYTES
                    then (Inl (App_PayloadTooLarge (len_or_max env payload)), s)
                    else if class = Lossless \<and> window = 0
                    then (Inl (App_StreamViolation ''no credit left''), s)
                    else
                      (Inr (),
                       push_out (H_StreamData \<lparr>data_call_id = cid, data_seq = wc_next_seq st,
                                   data_more = has_more, data_class = class,
                                   data_dropped = wc_lossy_dropped st, data_payload = payload\<rparr>)
                         (modify_worker_call cid (send_item class has_more window) s))))"

end
