(* ===== verification/Session_Machine.thy ===== *)
theory Session_Machine
  imports Session_Streams
begin

text \<open>
  Negotiation (\<open>session/negotiate.rs\<close>) and the session's entry points (\<open>session/mod.rs\<close>): one
  decoded frame, the bytes of the transport, end of input, time. \<open>session_input\<close> collects every
  way the embedding host can drive a session; \<open>session_step\<close> is one such call.
\<close>

section \<open>Negotiation\<close>

definition refusal :: "wire_error_kind \<Rightarrow> string \<Rightarrow> wire_error" where
  "refusal kind message =
     \<lparr>error_kind = kind, error_message = message, error_retryable = False,
      error_reconcile_required = False\<rparr>"

definition refuse_negotiation ::
  "wire_error_kind \<Rightarrow> string \<Rightarrow> string \<Rightarrow> host_session \<Rightarrow> host_session" where
  "refuse_negotiation kind message detail s =
     push_event (Fatal kind detail)
       ((push_out (H_Refuse \<lparr>refuse_error = refusal kind message,
                             supported_versions = [PROTOCOL_VERSION]\<rparr>) s)\<lparr>session_phase := Closed\<rparr>)"

definition accept_hello :: "hello \<Rightarrow> host_session \<Rightarrow> host_session" where
  "accept_hello h s =
     push_event (Negotiated (sdk_name h) (sdk_version h))
       ((push_out (H_Accept
           \<lparr>accept_protocol_version = PROTOCOL_VERSION,
            accept_features = filter (\<lambda>f. f \<in> set (hello_features h) \<or> f \<in> set (required_features h))
                                (features (config s)),
            accept_limits = wire_limits_of_build,
            accept_ceilings = ceilings_of (config s)\<rparr>) s)\<lparr>session_phase := Active\<rparr>)"

fun on_pre_negotiation :: "wire_env \<Rightarrow> worker_message \<Rightarrow> host_session \<Rightarrow> host_session" where
  "on_pre_negotiation env (W_Hello h) s =
     (if \<not> name_ok (sdk_name h) \<or> \<not> name_ok (sdk_version h)
      then refuse_negotiation InvalidFrame ''sdk identity outside its length bound''
             ''sdk identity outside its length bound'' s
      else if PROTOCOL_VERSION \<notin> set (protocol_versions h)
      then refuse_negotiation UnsupportedVersion ''no offered protocol version is supported''
             (clip_detail (''worker offered '' @ show_list (map show_nat (protocol_versions h)))) s
      else
        let unknown = filter (\<lambda>f. f \<notin> set (features (config s))) (required_features h)
        in if unknown \<noteq> []
           then refuse_negotiation UnknownRequiredFeature
                  ''a required feature is not offered by this host''
                  (clip_detail (''unknown required features: ''
                                  @ show_list (map (debug_str env) unknown))) s
           else accept_hello h s)"
| "on_pre_negotiation env _ s =
     refuse_negotiation NegotiationRequired ''the first frame must be a hello''
       ''first frame was not a hello'' s"

section \<open>Frames\<close>

fun dispatch :: "wire_env \<Rightarrow> worker_message \<Rightarrow> host_session \<Rightarrow> host_session" where
  "dispatch env (W_Hello _) s = fatal NegotiationRequired ''second hello'' s"
| "dispatch env (W_Call c) s = on_worker_call env c s"
| "dispatch env (W_Reply r) s = on_worker_reply env r s"
| "dispatch env (W_StreamOpen m) s = on_stream_open m s"
| "dispatch env (W_StreamData d) s = on_stream_data env d s"
| "dispatch env (W_Credit c) s = on_credit c s"
| "dispatch env (W_Cancel c) s = on_worker_cancel c s"
| "dispatch env (W_Release r) s = on_release r s"
| "dispatch env (W_ReleaseAck a) s = on_release_ack a s"
| "dispatch env (W_Goodbye g) s = on_goodbye g s"

definition on_active :: "wire_env \<Rightarrow> worker_message \<Rightarrow> host_session \<Rightarrow> host_session" where
  "on_active env m s =
     (case validate_bounds m of
        Inl reason \<Rightarrow> fatal InvalidFrame reason s
      | Inr _ \<Rightarrow> dispatch env m s)"

definition on_frame :: "wire_env \<Rightarrow> byte list \<Rightarrow> host_session \<Rightarrow> host_session" where
  "on_frame env raw s =
     (case parse (serde_json env) raw of
        Inl e \<Rightarrow> fatal InvalidFrame (strict_error_text (debug_str env) e) s
      | Inr v \<Rightarrow>
          (case decode_message env v of
             Inl text \<Rightarrow> fatal InvalidFrame text s
           | Inr m \<Rightarrow>
               if is_control m \<and> length raw > MAX_CONTROL_FRAME_BYTES
               then fatal FrameTooLarge ''control frame over bound'' s
               else (case session_phase s of
                       AwaitingHello \<Rightarrow> on_pre_negotiation env m s
                     | Active \<Rightarrow> on_active env m s
                     | Closed \<Rightarrow> s)))"

section \<open>Bytes, end of input, time\<close>

text \<open>
  The loop of \<open>feed\<close>. \<open>decoder\<close> is only touched here, so the recursion is on the decoder and each
  frame shortens its buffer.
\<close>

fun stream_error_kind :: "frame_stream_error \<Rightarrow> wire_error_kind" where
  "stream_error_kind (FrameTooLarge_error _) = FrameTooLarge"
| "stream_error_kind EmptyFrame = InvalidFrame"

function feed_loop :: "wire_env \<Rightarrow> frame_decoder \<Rightarrow> host_session \<Rightarrow> host_session" where
  "feed_loop env d s =
     (case next_frame d of
        (Inr (Some frame), d') \<Rightarrow>
          (let s' = on_frame env frame (s\<lparr>decoder := d'\<rparr>)
           in if session_phase s' = Closed then s' else feed_loop env d' s')
      | (Inr None, d') \<Rightarrow> s\<lparr>decoder := d'\<rparr>
      | (Inl error, d') \<Rightarrow>
          fatal (stream_error_kind error) ''frame stream violation'' (s\<lparr>decoder := d'\<rparr>))"
  by pat_completeness auto
termination feed_loop
  by (relation "measure (\<lambda>(env, d, s). length (buffer d))")
    (auto dest: sym [THEN next_frame_shrinks])

declare feed_loop.simps [simp del]

definition feed :: "wire_env \<Rightarrow> byte list \<Rightarrow> host_session \<Rightarrow> host_session" where
  "feed env bytes s =
     (if session_phase s = Closed then s
      else feed_loop env (decoder_feed bytes (decoder s)) s)"

definition end_of_input :: "host_session \<Rightarrow> host_session" where
  "end_of_input s =
     (if session_phase s = Closed then s
      else if decoder_finish (decoder s) \<noteq> Clean
      then fatal InvalidFrame ''worker disconnected mid-frame'' s
      else fatal OutcomeUnknown ''worker disconnected'' s)"

definition tick :: "u64 \<Rightarrow> host_session \<Rightarrow> host_session" where
  "tick now s =
     (let s = s\<lparr>now_ms := max (now_ms s) now\<rparr>
      in if session_phase s \<noteq> Active then s else expire_deadlines s)"

section \<open>Every way to drive a session\<close>

datatype session_input =
    In_feed "byte list"
  | In_end_of_input
  | In_tick u64
  | In_reply_to_worker call_id outcome
  | In_call_worker string json "u32 option" bool
  | In_cancel call_id cancel_target
  | In_grant_credit call_id u32
  | In_note_lossy_drops call_id u64
  | In_open_stream call_id u32
  | In_stream_item call_id stream_class bool json
  | In_mint_capability_handle call_id
  | In_offer_artifact call_id "byte list" string
  | In_release_worker_handle handle_id handle_kind
  | In_drain_outbox
  | In_drain_events

fun session_step :: "wire_env \<Rightarrow> session_input \<Rightarrow> host_session \<Rightarrow> host_session" where
  "session_step env (In_feed bytes) s = feed env bytes s"
| "session_step env In_end_of_input s = end_of_input s"
| "session_step env (In_tick now) s = tick now s"
| "session_step env (In_reply_to_worker cid out) s = snd (reply_to_worker env cid out s)"
| "session_step env (In_call_worker method payload deadline stream) s =
     snd (call_worker env method payload deadline stream s)"
| "session_step env (In_cancel cid target) s = snd (cancel_host_call cid target s)"
| "session_step env (In_grant_credit cid n) s = snd (grant_credit cid n s)"
| "session_step env (In_note_lossy_drops cid n) s = snd (note_lossy_drops cid n s)"
| "session_step env (In_open_stream cid n) s = snd (open_stream cid n s)"
| "session_step env (In_stream_item cid class has_more payload) s =
     snd (stream_item env cid class has_more payload s)"
| "session_step env (In_mint_capability_handle cid) s = snd (mint_capability_handle cid s)"
| "session_step env (In_offer_artifact cid bytes media) s =
     snd (offer_artifact env cid bytes media s)"
| "session_step env (In_release_worker_handle h kind) s = snd (release_worker_handle h kind s)"
| "session_step env In_drain_outbox s = snd (drain_outbox s)"
| "session_step env In_drain_events s = snd (drain_events s)"

end
