(* ===== verification/Session_Invariant.thy ===== *)
theory Session_Invariant
  imports Session_Machine
begin

text \<open>
  The invariant of a session and its preservation by every entry point. The invariant is a
  conjunction of seven groups of facts about the tables; one lemma per kind of table update carries
  the groups, and each handler is then a case analysis over those updates.
\<close>

section \<open>The invariant\<close>

definition config_ok :: "session_config \<Rightarrow> bool" where
  "config_ok c \<longleftrightarrow>
     host_calls_in_flight (ceilings_of c) < U32_MODULUS \<and>
     worker_calls_in_flight (ceilings_of c) < U32_MODULUS \<and>
     live_handles_ceiling (ceilings_of c) < U32_MODULUS \<and>
     max_stream_credit (ceilings_of c) < U32_MODULUS"

definition tables_ordered :: "host_session \<Rightarrow> bool" where
  "tables_ordered s \<longleftrightarrow>
     bt_wf (worker_calls s) \<and> bt_wf (host_calls s) \<and> bt_wf (retired_worker_calls s) \<and>
     bt_wf (retired_host_calls s) \<and> bt_wf (handles s) \<and> bt_wf (retired_handles s) \<and>
     bt_wf (reclaimed_handles s) \<and> bt_wf (pending_worker_releases s) \<and>
     bt_wf (retired_worker_handles s) \<and> bt_wf (offered_worker_handles s)"

text \<open>A call id is in flight or spent, never both; host ids come from the counter.\<close>

definition call_ids_ok :: "host_session \<Rightarrow> bool" where
  "call_ids_ok s \<longleftrightarrow>
     bt_dom (worker_calls s) \<inter> bt_dom (retired_worker_calls s) = {} \<and>
     bt_dom (host_calls s) \<inter> bt_dom (retired_host_calls s) = {} \<and>
     1 \<le> next_host_call s \<and> next_host_call s < U64_MODULUS \<and>
     (\<forall>k \<in> bt_dom (host_calls s) \<union> bt_dom (retired_host_calls s).
        1 \<le> call_no k \<and> call_no k < next_host_call s)"

text \<open>A minted handle is live, released or reclaimed, exactly one; the gauge counts the live ones.\<close>

definition handle_ids_ok :: "host_session \<Rightarrow> bool" where
  "handle_ids_ok s \<longleftrightarrow>
     bt_dom (handles s) \<inter> bt_dom (retired_handles s) = {} \<and>
     bt_dom (handles s) \<inter> bt_dom (reclaimed_handles s) = {} \<and>
     bt_dom (reclaimed_handles s) \<inter> bt_dom (retired_handles s) = {} \<and>
     1 \<le> next_handle s \<and> next_handle s < U64_MODULUS \<and>
     (\<forall>h \<in> bt_dom (handles s) \<union> bt_dom (retired_handles s) \<union> bt_dom (reclaimed_handles s).
        1 \<le> handle_no h \<and> handle_no h < next_handle s) \<and>
     (\<forall>h e. bt_get (handles s) h = Some e \<longrightarrow> (lh_kind e = Artifact \<longleftrightarrow> lh_artifact e \<noteq> None)) \<and>
     live_handle_count s = length (handles s)"

text \<open>A release is pending only for an offered handle, under its kind, and only until its ack.\<close>

definition releases_ok :: "host_session \<Rightarrow> bool" where
  "releases_ok s \<longleftrightarrow>
     (\<forall>h k. bt_get (pending_worker_releases s) h = Some k \<longrightarrow>
        bt_get (offered_worker_handles s) h = Some k) \<and>
     (\<forall>h k. bt_get (offered_worker_handles s) h = Some k \<longrightarrow> k = Artifact) \<and>
     bt_dom (retired_worker_handles s) \<subseteq> bt_dom (offered_worker_handles s) \<and>
     bt_dom (pending_worker_releases s) \<inter> bt_dom (retired_worker_handles s) = {}"

definition ceilings_ok :: "host_session \<Rightarrow> bool" where
  "ceilings_ok s \<longleftrightarrow>
     config_ok (config s) \<and>
     length (worker_calls s) \<le> worker_calls_in_flight (ceilings_of (config s)) \<and>
     length (host_calls s) \<le> host_calls_in_flight (ceilings_of (config s)) \<and>
     length (handles s) \<le> live_handles_ceiling (ceilings_of (config s)) \<and>
     length (pending_worker_releases s) \<le> live_handles_ceiling (ceilings_of (config s))"

definition host_call_ok :: "u32 \<Rightarrow> host_call \<Rightarrow> bool" where
  "host_call_ok limit c \<longleftrightarrow>
     hc_credit_left c \<le> limit \<and> (hc_stream_open c \<longrightarrow> hc_stream c) \<and>
     (\<not> hc_stream_open c \<longrightarrow> hc_highest_seq c = None \<and> \<not> hc_last_item_seen c)"

definition worker_call_ok :: "u32 \<Rightarrow> worker_call \<Rightarrow> bool" where
  "worker_call_ok limit c \<longleftrightarrow>
     (wc_stream_credit c = None \<longrightarrow> wc_next_seq c = 0 \<and> \<not> wc_last_item_sent c) \<and>
     (\<forall>w. wc_stream_credit c = Some w \<longrightarrow> w \<le> limit \<and> wc_stream c) \<and>
     wc_lossy_dropped c \<le> MAX_WIRE_ID"

definition streams_ok :: "host_session \<Rightarrow> bool" where
  "streams_ok s \<longleftrightarrow>
     (\<forall>k c. bt_get (host_calls s) k = Some c \<longrightarrow> host_call_ok (max_credit s) c) \<and>
     (\<forall>k c. bt_get (worker_calls s) k = Some c \<longrightarrow> worker_call_ok (max_credit s) c)"

text \<open>Nothing is in flight before negotiation or after the close; a poisoned decoder means closed.\<close>

definition phase_ok :: "host_session \<Rightarrow> bool" where
  "phase_ok s \<longleftrightarrow>
     (session_phase s \<noteq> Active \<longrightarrow>
        worker_calls s = [] \<and> host_calls s = [] \<and> handles s = [] \<and> pending_worker_releases s = [])"

definition decoder_ok :: "host_session \<Rightarrow> bool" where
  "decoder_ok s \<longleftrightarrow>
     (session_phase s \<noteq> Closed \<longrightarrow> decoder_drained (decoder s) \<and> poisoned (decoder s) = None)"

text \<open>
  The correlation budget. Each table entry is weighed by what it may still retire: a worker call
  its id, a host call its id and one offered handle, a live handle and a pending release one each.
\<close>

definition liability :: "host_session \<Rightarrow> nat" where
  "liability s =
     retired_operations s + length (worker_calls s) + 2 * length (host_calls s)
     + length (handles s) + length (pending_worker_releases s)"

definition overshoot :: "session_config \<Rightarrow> nat" where
  "overshoot c =
     worker_calls_in_flight (ceilings_of c) + 2 * host_calls_in_flight (ceilings_of c)
     + 2 * live_handles_ceiling (ceilings_of c)"

definition budget_ok :: "host_session \<Rightarrow> bool" where
  "budget_ok s \<longleftrightarrow>
     (\<forall>budget. retired_operation_budget (config s) = Some budget \<longrightarrow>
        liability s \<le> budget + overshoot (config s))"

definition session_core :: "host_session \<Rightarrow> bool" where
  "session_core s \<longleftrightarrow>
     tables_ordered s \<and> call_ids_ok s \<and> handle_ids_ok s \<and> releases_ok s \<and> ceilings_ok s \<and>
     streams_ok s \<and> budget_ok s"

definition session_inv :: "host_session \<Rightarrow> bool" where
  "session_inv s \<longleftrightarrow> session_core s \<and> phase_ok s \<and> decoder_ok s"

lemmas group_defs =
  tables_ordered_def call_ids_ok_def handle_ids_ok_def releases_ok_def ceilings_ok_def
  streams_ok_def max_credit_def

lemmas budget_defs = budget_ok_def liability_def retired_operations_def

named_theorems core_intros \<open>table updates that keep the session invariant\<close>

section \<open>Updates that keep the core\<close>

lemma core_push [simp]:
  "session_core (push_out m s) = session_core s"
  "session_core (push_event e s) = session_core s"
  "session_core (s\<lparr>session_phase := p\<rparr>) = session_core s"
  "session_core (s\<lparr>decoder := d\<rparr>) = session_core s"
  "session_core (s\<lparr>now_ms := t\<rparr>) = session_core s"
  "session_core (s\<lparr>outbox := ms\<rparr>) = session_core s"
  "session_core (s\<lparr>events := es\<rparr>) = session_core s"
  by (simp_all add: session_core_def group_defs budget_defs push_out_def push_event_def)

lemma budget_by_admission:
  assumes "ceilings_ok s'" and "config s' = config s" and "\<not> budget_full s"
    and "retired_operations s' \<le> Suc (retired_operations s)"
  shows "budget_ok s'"
  using assms
  by (auto simp: budget_ok_def budget_full_def ceilings_ok_def liability_def overshoot_def
      split: option.splits)

lemma budget_by_conservation:
  assumes "budget_ok s" and "config s' = config s" and "liability s' \<le> liability s"
  shows "budget_ok s'"
  using assms by (auto simp: budget_ok_def split: option.splits)

lemma core_groups:
  assumes "session_core s"
  shows "tables_ordered s" "call_ids_ok s" "handle_ids_ok s" "releases_ok s" "ceilings_ok s"
    "streams_ok s" "budget_ok s"
  using assms by (simp_all add: session_core_def)

lemma core_wf:
  assumes "session_core s"
  shows "bt_wf (worker_calls s)" "bt_wf (host_calls s)" "bt_wf (handles s)"
    "bt_wf (pending_worker_releases s)" "bt_wf (offered_worker_handles s)"
    "bt_wf (reclaimed_handles s)"
  using core_groups(1) [OF assms] by (simp_all add: tables_ordered_def)

lemma core_settle [core_intros]:
  assumes "session_core s" and "cid \<in> bt_dom (host_calls s)"
  shows "session_core (s\<lparr>host_calls := bt_remove cid (host_calls s),
                         retired_host_calls := bs_insert cid (retired_host_calls s)\<rparr>)"
    (is "session_core ?t")
proof -
  note g = core_groups [OF assms(1)]
  have rm: "Suc (length (bt_remove cid (host_calls s))) = length (host_calls s)"
    by (rule bt_len_remove [OF core_wf(2) [OF assms(1)] assms(2)])
  have fresh: "cid \<notin> bt_dom (retired_host_calls s)"
    using g(2) assms(2) unfolding call_ids_ok_def by blast
  have ins: "length (bs_insert cid (retired_host_calls s)) = Suc (length (retired_host_calls s))"
    unfolding bs_insert_def by (rule bt_len_insert_fresh [OF fresh])
  have "liability ?t \<le> liability s"
    using rm ins by (simp add: liability_def retired_operations_def)
  then have "budget_ok ?t"
    by (intro budget_by_conservation [OF g(7)]) simp_all
  moreover have "streams_ok ?t"
    using g(6) by (simp add: streams_ok_def max_credit_def table_simps)
  moreover have "ceilings_ok ?t"
    using g(5) rm by (simp add: ceilings_ok_def)
  moreover have "call_ids_ok ?t"
    using g(2) assms(2) unfolding call_ids_ok_def by auto
  moreover have "tables_ordered ?t"
    using g(1) by (simp add: tables_ordered_def table_wf)
  ultimately show ?thesis
    using g by (simp add: session_core_def handle_ids_ok_def releases_ok_def)
qed

lemma core_modify_host_call [core_intros]:
  assumes "session_core s"
    and "\<And>c. bt_get (host_calls s) cid = Some c \<Longrightarrow> host_call_ok (max_credit s) (f c)"
  shows "session_core (modify_host_call cid f s)"
proof -
  note g = core_groups [OF assms(1)]
  have "streams_ok (modify_host_call cid f s)"
    using g(6) assms(2)
    by (auto simp: streams_ok_def modify_host_call_def max_credit_def table_simps)
  moreover have "budget_ok (modify_host_call cid f s)"
    by (rule budget_by_conservation [OF g(7)])
      (simp_all add: modify_host_call_def liability_def retired_operations_def)
  ultimately show ?thesis
    using g by (simp add: session_core_def modify_host_call_def tables_ordered_def call_ids_ok_def
        handle_ids_ok_def releases_ok_def ceilings_ok_def table_wf)
qed

lemma core_modify_worker_call [core_intros]:
  assumes "session_core s"
    and "\<And>c. bt_get (worker_calls s) cid = Some c \<Longrightarrow> worker_call_ok (max_credit s) (f c)"
  shows "session_core (modify_worker_call cid f s)"
proof -
  note g = core_groups [OF assms(1)]
  have "streams_ok (modify_worker_call cid f s)"
    using g(6) assms(2)
    by (auto simp: streams_ok_def modify_worker_call_def max_credit_def table_simps)
  moreover have "budget_ok (modify_worker_call cid f s)"
    by (rule budget_by_conservation [OF g(7)])
      (simp_all add: modify_worker_call_def liability_def retired_operations_def)
  ultimately show ?thesis
    using g by (simp add: session_core_def modify_worker_call_def tables_ordered_def call_ids_ok_def
        handle_ids_ok_def releases_ok_def ceilings_ok_def table_wf)
qed

lemma core_insert_worker_call [core_intros]:
  assumes "session_core s" and "cid \<notin> bt_dom (worker_calls s)"
    and "cid \<notin> bt_dom (retired_worker_calls s)" and "\<not> budget_full s"
    and "length (worker_calls s) < worker_calls_in_flight (ceilings_of (config s))"
  shows "session_core
           (s\<lparr>worker_calls := bt_insert cid (fresh_worker_call b) (worker_calls s)\<rparr>)"
    (is "session_core ?t")
proof -
  note g = core_groups [OF assms(1)]
  have c: "ceilings_ok ?t"
    using g(5) assms(5) by (simp add: ceilings_ok_def bt_len_insert_fresh [OF assms(2)])
  have "budget_ok ?t"
    by (rule budget_by_admission [OF c _ assms(4)]) (simp_all add: retired_operations_def)
  moreover have "streams_ok ?t"
    using g(6) by (simp add: streams_ok_def max_credit_def table_simps fresh_worker_call_def
        worker_call_ok_def)
  ultimately show ?thesis
    using g c assms(3) by (simp add: session_core_def tables_ordered_def call_ids_ok_def
        handle_ids_ok_def releases_ok_def table_wf)
qed

lemma core_retire_worker_call [core_intros]:
  assumes "session_core s" and "cid \<notin> bt_dom (worker_calls s)" and "\<not> budget_full s"
  shows "session_core (s\<lparr>retired_worker_calls := bs_insert cid (retired_worker_calls s)\<rparr>)"
    (is "session_core ?t")
proof -
  note g = core_groups [OF assms(1)]
  have c: "ceilings_ok ?t"
    using g(5) by (simp add: ceilings_ok_def)
  have "budget_ok ?t"
    using bt_len_insert_le [of cid "()" "retired_worker_calls s"]
    by (intro budget_by_admission [OF c _ assms(3)])
      (simp_all add: retired_operations_def bs_insert_def)
  then show ?thesis
    using g c assms(2) by (simp add: session_core_def tables_ordered_def call_ids_ok_def
        handle_ids_ok_def releases_ok_def streams_ok_def max_credit_def table_wf)
qed

lemma core_finish_worker_call [core_intros]:
  assumes "session_core s" and "cid \<in> bt_dom (worker_calls s)"
  shows "session_core (s\<lparr>worker_calls := bt_remove cid (worker_calls s),
                         retired_worker_calls := bs_insert cid (retired_worker_calls s)\<rparr>)"
    (is "session_core ?t")
proof -
  note g = core_groups [OF assms(1)]
  have rm: "Suc (length (bt_remove cid (worker_calls s))) = length (worker_calls s)"
    by (rule bt_len_remove [OF core_wf(1) [OF assms(1)] assms(2)])
  have "length (bs_insert cid (retired_worker_calls s)) \<le> Suc (length (retired_worker_calls s))"
    unfolding bs_insert_def by (rule bt_len_insert_le)
  with rm have "liability ?t \<le> liability s"
    by (simp add: liability_def retired_operations_def)
  then have "budget_ok ?t"
    by (intro budget_by_conservation [OF g(7)]) simp_all
  moreover have "call_ids_ok ?t"
    using g(2) unfolding call_ids_ok_def by auto
  ultimately show ?thesis
    using g rm by (simp add: session_core_def tables_ordered_def ceilings_ok_def streams_ok_def
        max_credit_def handle_ids_ok_def releases_ok_def table_wf table_simps)
qed

lemma core_insert_host_call [core_intros]:
  assumes "session_core s" and "\<not> budget_full s"
    and "length (host_calls s) < host_calls_in_flight (ceilings_of (config s))"
    and "next_host_call s + 1 < U64_MODULUS" and "host_call_ok (max_credit s) hc"
  shows "session_core (s\<lparr>next_host_call := wrap64 (next_host_call s + 1),
                         host_calls := bt_insert (CallId (next_host_call s)) hc (host_calls s)\<rparr>)"
    (is "session_core ?t")
proof -
  note g = core_groups [OF assms(1)]
  have fresh: "CallId (next_host_call s) \<notin> bt_dom (host_calls s) \<union> bt_dom (retired_host_calls s)"
    using g(2) unfolding call_ids_ok_def by (metis call_id.sel less_irrefl)
  then have c: "ceilings_ok ?t"
    using g(5) assms(3) by (simp add: ceilings_ok_def bt_len_insert_fresh)
  have "budget_ok ?t"
    by (rule budget_by_admission [OF c _ assms(2)]) (simp_all add: retired_operations_def)
  moreover have "streams_ok ?t"
    using g(6) assms(5) by (simp add: streams_ok_def max_credit_def table_simps)
  moreover have "call_ids_ok ?t"
    using g(2) fresh assms(4) unfolding call_ids_ok_def by (simp add: ball_Un less_SucI)
  ultimately show ?thesis
    using g c by (simp add: session_core_def tables_ordered_def
        handle_ids_ok_def releases_ok_def table_wf)
qed

lemma core_clear [core_intros]:
  assumes "session_core s"
  shows "session_core (s\<lparr>pending_worker_releases := [], reclaimed_handles := [], worker_calls := []\<rparr>)"
    (is "session_core ?t")
proof -
  note g = core_groups [OF assms(1)]
  have "budget_ok ?t"
    by (rule budget_by_conservation [OF g(7)]) (simp_all add: liability_def retired_operations_def)
  then show ?thesis
    using g by (simp add: session_core_def tables_ordered_def ceilings_ok_def streams_ok_def
        max_credit_def handle_ids_ok_def releases_ok_def call_ids_ok_def)
qed

lemma drop_handle_Some:
  assumes "bt_get (handles s) h = Some e"
  shows "drop_handle True h s =
           s\<lparr>handles := bt_remove h (handles s),
             live_handle_count := u32_pred (live_handle_count s),
             retired_handles := bs_insert h (retired_handles s)\<rparr>"
    and "drop_handle False h s =
           s\<lparr>handles := bt_remove h (handles s),
             live_handle_count := u32_pred (live_handle_count s),
             reclaimed_handles := bt_insert h (lh_kind e) (reclaimed_handles s)\<rparr>"
  using assms by (simp_all add: drop_handle_def)

lemma drop_handle_None: "bt_get (handles s) h = None \<Longrightarrow> drop_handle b h s = s"
  by (simp add: drop_handle_def)

lemma gauge_pred:
  assumes "session_core s" and "h \<in> bt_dom (handles s)"
  shows "u32_pred (live_handle_count s) = length (bt_remove h (handles s))"
proof -
  note g = core_groups [OF assms(1)]
  have rm: "Suc (length (bt_remove h (handles s))) = length (handles s)"
    by (rule bt_len_remove [OF core_wf(3) [OF assms(1)] assms(2)])
  have "length (handles s) < U32_MODULUS"
    using g(5) unfolding ceilings_ok_def config_ok_def by linarith
  moreover have "live_handle_count s = Suc (length (bt_remove h (handles s)))"
    using g(3) rm unfolding handle_ids_ok_def by simp
  ultimately show ?thesis
    using rm u32_pred_Suc [of "length (bt_remove h (handles s))"] by simp
qed

lemma core_drop_handle [core_intros]:
  assumes "session_core s"
  shows "session_core (drop_handle b h s)"
proof (cases "bt_get (handles s) h")
  case None
  with assms show ?thesis by (simp add: drop_handle_None)
next
  case (Some e)
  note g = core_groups [OF assms(1)]
  have dom: "h \<in> bt_dom (handles s)" using Some by (rule bt_get_Some_dom)
  have rm: "Suc (length (bt_remove h (handles s))) = length (handles s)"
    by (rule bt_len_remove [OF core_wf(3) [OF assms(1)] dom])
  note pred = gauge_pred [OF assms dom]
  show ?thesis
  proof (cases b)
    case True
    let ?t = "drop_handle True h s"
    note t = drop_handle_Some(1) [OF Some]
    have "length (bs_insert h (retired_handles s)) \<le> Suc (length (retired_handles s))"
      unfolding bs_insert_def by (rule bt_len_insert_le)
    with rm have "liability ?t \<le> liability s"
      by (simp add: t liability_def retired_operations_def)
    then have "budget_ok ?t"
      by (intro budget_by_conservation [OF g(7)]) (simp_all add: t)
    moreover have "handle_ids_ok ?t"
      using g(3) dom pred unfolding handle_ids_ok_def by (auto simp: t table_simps)
    ultimately show ?thesis
      using g rm True by (simp add: t session_core_def tables_ordered_def ceilings_ok_def
          streams_ok_def max_credit_def call_ids_ok_def releases_ok_def table_wf)
  next
    case False
    let ?t = "drop_handle False h s"
    note t = drop_handle_Some(2) [OF Some]
    have "length (bt_insert h (lh_kind e) (reclaimed_handles s)) \<le> Suc (length (reclaimed_handles s))"
      by (rule bt_len_insert_le)
    with rm have "liability ?t \<le> liability s"
      by (simp add: t liability_def retired_operations_def)
    then have "budget_ok ?t"
      by (intro budget_by_conservation [OF g(7)]) (simp_all add: t)
    moreover have "handle_ids_ok ?t"
      using g(3) dom pred unfolding handle_ids_ok_def by (auto simp: t table_simps)
    ultimately show ?thesis
      using g rm False by (simp add: t session_core_def tables_ordered_def ceilings_ok_def
          streams_ok_def max_credit_def call_ids_ok_def releases_ok_def table_wf)
  qed
qed

lemma core_insert_handle:
  assumes "session_core s" and "\<not> budget_full s"
    and "live_handle_count s < live_handles_ceiling (ceilings_of (config s))"
    and "next_handle s + 1 < U64_MODULUS"
    and "kind = Artifact \<longleftrightarrow> artifact \<noteq> None"
  shows "session_core (snd (insert_handle kind artifact s))" (is "session_core ?t")
proof -
  note g = core_groups [OF assms(1)]
  have t: "?t = s\<lparr>next_handle := wrap64 (next_handle s + 1),
      handles := bt_insert (HandleId (next_handle s)) \<lparr>lh_kind = kind, lh_artifact = artifact\<rparr>
        (handles s),
      live_handle_count := wrap32 (live_handle_count s + 1)\<rparr>"
    using assms(3) by (simp add: insert_handle_def next_handle_id_def)
  have fresh: "HandleId (next_handle s)
      \<notin> bt_dom (handles s) \<union> bt_dom (retired_handles s) \<union> bt_dom (reclaimed_handles s)"
    using g(3) unfolding handle_ids_ok_def by (metis handle_id.sel less_irrefl)
  have count: "live_handle_count s = length (handles s)"
    using g(3) unfolding handle_ids_ok_def by blast
  have small: "live_handle_count s + 1 < U32_MODULUS"
    using g(5) assms(3) unfolding ceilings_ok_def config_ok_def by linarith
  have c: "ceilings_ok ?t"
    using g(5) assms(3) fresh count by (simp add: t ceilings_ok_def bt_len_insert_fresh)
  have "budget_ok ?t"
    by (rule budget_by_admission [OF c _ assms(2)]) (simp_all add: t retired_operations_def)
  moreover have "handle_ids_ok ?t"
    using g(3) fresh assms(4,5) count small unfolding handle_ids_ok_def t
    by (simp add: ball_Un less_SucI bt_len_insert_fresh table_simps)
  ultimately show ?thesis
    using g c by (simp add: t session_core_def tables_ordered_def call_ids_ok_def releases_ok_def
        streams_ok_def max_credit_def table_wf)
qed

lemma core_reclaimed_release [core_intros]:
  assumes "session_core s" and "h \<in> bt_dom (reclaimed_handles s)"
  shows "session_core (s\<lparr>reclaimed_handles := bt_remove h (reclaimed_handles s),
                         retired_handles := bs_insert h (retired_handles s)\<rparr>)"
    (is "session_core ?t")
proof -
  note g = core_groups [OF assms(1)]
  have rm: "Suc (length (bt_remove h (reclaimed_handles s))) = length (reclaimed_handles s)"
    by (rule bt_len_remove [OF core_wf(6) [OF assms(1)] assms(2)])
  have "length (bs_insert h (retired_handles s)) \<le> Suc (length (retired_handles s))"
    unfolding bs_insert_def by (rule bt_len_insert_le)
  with rm have "liability ?t \<le> liability s"
    by (simp add: liability_def retired_operations_def)
  then have "budget_ok ?t"
    by (intro budget_by_conservation [OF g(7)]) simp_all
  moreover have "handle_ids_ok ?t"
    using g(3) assms(2) unfolding handle_ids_ok_def by auto
  ultimately show ?thesis
    using g by (simp add: session_core_def tables_ordered_def ceilings_ok_def
        streams_ok_def max_credit_def call_ids_ok_def releases_ok_def table_wf)
qed

lemma core_pending_release [core_intros]:
  assumes "session_core s" and "bt_get (offered_worker_handles s) h = Some kind"
    and "h \<notin> bt_dom (retired_worker_handles s)" and "h \<notin> bt_dom (pending_worker_releases s)"
    and "\<not> budget_full s"
    and "length (pending_worker_releases s) < live_handles_ceiling (ceilings_of (config s))"
  shows "session_core
           (s\<lparr>pending_worker_releases := bt_insert h kind (pending_worker_releases s)\<rparr>)"
    (is "session_core ?t")
proof -
  note g = core_groups [OF assms(1)]
  have c: "ceilings_ok ?t"
    using g(5) assms(4,6) by (simp add: ceilings_ok_def bt_len_insert_fresh)
  have "budget_ok ?t"
    by (rule budget_by_admission [OF c _ assms(5)]) (simp_all add: retired_operations_def)
  moreover have "releases_ok ?t"
    using g(4) assms(2,3) by (simp add: releases_ok_def table_simps)
  ultimately show ?thesis
    using g c by (simp add: session_core_def tables_ordered_def call_ids_ok_def handle_ids_ok_def
        streams_ok_def max_credit_def table_wf)
qed

lemma core_release_ack [core_intros]:
  assumes "session_core s" and "h \<in> bt_dom (pending_worker_releases s)"
  shows "session_core (s\<lparr>pending_worker_releases := bt_remove h (pending_worker_releases s),
                         retired_worker_handles := bs_insert h (retired_worker_handles s)\<rparr>)"
    (is "session_core ?t")
proof -
  note g = core_groups [OF assms(1)]
  have rm: "Suc (length (bt_remove h (pending_worker_releases s))) =
      length (pending_worker_releases s)"
    by (rule bt_len_remove [OF core_wf(4) [OF assms(1)] assms(2)])
  have "length (bs_insert h (retired_worker_handles s)) \<le> Suc (length (retired_worker_handles s))"
    unfolding bs_insert_def by (rule bt_len_insert_le)
  with rm have "liability ?t \<le> liability s"
    by (simp add: liability_def retired_operations_def)
  then have "budget_ok ?t"
    by (intro budget_by_conservation [OF g(7)]) simp_all
  moreover have "h \<in> bt_dom (offered_worker_handles s)"
    using g(4) bt_dom_get [OF assms(2)] bt_get_Some_dom unfolding releases_ok_def by metis
  then have "releases_ok ?t"
    using g(4) by (auto simp: releases_ok_def table_simps)
  ultimately show ?thesis
    using g rm by (simp add: session_core_def tables_ordered_def ceilings_ok_def
        streams_ok_def max_credit_def call_ids_ok_def handle_ids_ok_def table_wf)
qed

lemma core_late_offer [core_intros]:
  assumes "session_core s" and "h \<notin> bt_dom (offered_worker_handles s)" and "\<not> budget_full s"
  shows "session_core
           (s\<lparr>offered_worker_handles := bt_insert h Artifact (offered_worker_handles s)\<rparr>)"
    (is "session_core ?t")
proof -
  note g = core_groups [OF assms(1)]
  have c: "ceilings_ok ?t"
    using g(5) by (simp add: ceilings_ok_def)
  have "budget_ok ?t"
    by (rule budget_by_admission [OF c _ assms(3)])
      (simp_all add: retired_operations_def bt_len_insert_fresh [OF assms(2)])
  moreover have "bt_get (pending_worker_releases s) h = None"
    using g(4) assms(2) by (metis bt_get_None_iff bt_get_Some_dom not_Some_eq releases_ok_def)
  then have "releases_ok ?t"
    using g(4) by (auto simp: releases_ok_def table_simps)
  ultimately show ?thesis
    using g c by (simp add: session_core_def tables_ordered_def call_ids_ok_def handle_ids_ok_def
        streams_ok_def max_credit_def table_wf)
qed

lemma core_reused_offer [core_intros]:
  assumes "session_core s" and "h \<in> bt_dom (offered_worker_handles s)"
  shows "session_core
           (s\<lparr>offered_worker_handles := bt_insert h Artifact (offered_worker_handles s)\<rparr>)"
    (is "session_core ?t")
proof -
  note g = core_groups [OF assms(1)]
  have "length (bt_insert h Artifact (offered_worker_handles s)) = length (offered_worker_handles s)"
    by (rule bt_len_insert_present [OF core_wf(5) [OF assms(1)] assms(2)])
  then have "budget_ok ?t"
    by (intro budget_by_conservation [OF g(7)]) (simp_all add: liability_def retired_operations_def)
  moreover have "releases_ok ?t"
    using g(4) assms(2) by (auto simp: releases_ok_def table_simps)
  ultimately show ?thesis
    using g by (simp add: session_core_def tables_ordered_def ceilings_ok_def call_ids_ok_def
        handle_ids_ok_def streams_ok_def max_credit_def table_wf)
qed

lemma core_settle_spilled [core_intros]:
  assumes "session_core s" and "cid \<in> bt_dom (host_calls s)"
    and "h \<notin> bt_dom (offered_worker_handles s)"
  shows "session_core (s\<lparr>offered_worker_handles := bt_insert h Artifact (offered_worker_handles s),
                         host_calls := bt_remove cid (host_calls s),
                         retired_host_calls := bs_insert cid (retired_host_calls s)\<rparr>)"
    (is "session_core ?t")
proof -
  let ?m = "s\<lparr>host_calls := bt_remove cid (host_calls s),
              retired_host_calls := bs_insert cid (retired_host_calls s)\<rparr>"
  note m = core_groups [OF core_settle [OF assms(1,2)]]
  note g = core_groups [OF assms(1)]
  have rm: "Suc (length (bt_remove cid (host_calls s))) = length (host_calls s)"
    by (rule bt_len_remove [OF core_wf(2) [OF assms(1)] assms(2)])
  have "length (bs_insert cid (retired_host_calls s)) \<le> Suc (length (retired_host_calls s))"
    unfolding bs_insert_def by (rule bt_len_insert_le)
  with rm have "liability ?t \<le> liability s"
    by (simp add: liability_def retired_operations_def bt_len_insert_fresh [OF assms(3)])
  then have "budget_ok ?t"
    by (intro budget_by_conservation [OF g(7)]) simp_all
  moreover have "bt_get (pending_worker_releases s) h = None"
    using g(4) assms(3) by (metis bt_get_None_iff bt_get_Some_dom not_Some_eq releases_ok_def)
  then have "releases_ok ?t"
    using g(4) by (auto simp: releases_ok_def table_simps)
  ultimately show ?thesis
    using m by (simp add: session_core_def tables_ordered_def ceilings_ok_def call_ids_ok_def
        handle_ids_ok_def streams_ok_def max_credit_def table_wf)
qed

section \<open>Settling, reclaiming and closing\<close>

lemma settle_locally_cases:
  "settle_host_call_locally e r cid s =
     (if cid \<in> bt_dom (host_calls s)
      then push_event (HostCallLost cid e r)
             (s\<lparr>host_calls := bt_remove cid (host_calls s),
                retired_host_calls := bs_insert cid (retired_host_calls s)\<rparr>)
      else s)"
  by (simp add: settle_host_call_locally_def bt_contains_iff)

lemma core_settle_locally [core_intros]:
  "session_core s \<Longrightarrow> session_core (settle_host_call_locally e r cid s)"
  by (simp add: settle_locally_cases core_settle)

lemma settle_locally_frame [simp]:
  "config (settle_host_call_locally e r cid s) = config s"
  "session_phase (settle_host_call_locally e r cid s) = session_phase s"
  "decoder (settle_host_call_locally e r cid s) = decoder s"
  "now_ms (settle_host_call_locally e r cid s) = now_ms s"
  "worker_calls (settle_host_call_locally e r cid s) = worker_calls s"
  "retired_worker_calls (settle_host_call_locally e r cid s) = retired_worker_calls s"
  "next_host_call (settle_host_call_locally e r cid s) = next_host_call s"
  "handles (settle_host_call_locally e r cid s) = handles s"
  "retired_handles (settle_host_call_locally e r cid s) = retired_handles s"
  "reclaimed_handles (settle_host_call_locally e r cid s) = reclaimed_handles s"
  "next_handle (settle_host_call_locally e r cid s) = next_handle s"
  "live_handle_count (settle_host_call_locally e r cid s) = live_handle_count s"
  "pending_worker_releases (settle_host_call_locally e r cid s) = pending_worker_releases s"
  "retired_worker_handles (settle_host_call_locally e r cid s) = retired_worker_handles s"
  "offered_worker_handles (settle_host_call_locally e r cid s) = offered_worker_handles s"
  "outbox (settle_host_call_locally e r cid s) = outbox s"
  by (simp_all add: settle_locally_cases push_event_def)

lemma settle_locally_dom:
  "bt_dom (host_calls (settle_host_call_locally e r cid s)) = bt_dom (host_calls s) - {cid}"
  "bt_dom (retired_host_calls (settle_host_call_locally e r cid s)) =
     bt_dom (retired_host_calls s) \<union> ({cid} \<inter> bt_dom (host_calls s))"
  by (auto simp: settle_locally_cases push_event_def)

text \<open>A field no step of a loop touches is the same after the loop.\<close>

lemma fold_field:
  assumes "\<And>x s. f (g x s) = f s"
  shows "f (fold g xs s) = f s"
  by (induction xs arbitrary: s) (simp_all add: assms)

lemma fold_settle_frame [simp]:
  "config (fold (settle_host_call_locally e r) cids s) = config s"
  "session_phase (fold (settle_host_call_locally e r) cids s) = session_phase s"
  "decoder (fold (settle_host_call_locally e r) cids s) = decoder s"
  "now_ms (fold (settle_host_call_locally e r) cids s) = now_ms s"
  "worker_calls (fold (settle_host_call_locally e r) cids s) = worker_calls s"
  "retired_worker_calls (fold (settle_host_call_locally e r) cids s) = retired_worker_calls s"
  "next_host_call (fold (settle_host_call_locally e r) cids s) = next_host_call s"
  "handles (fold (settle_host_call_locally e r) cids s) = handles s"
  "retired_handles (fold (settle_host_call_locally e r) cids s) = retired_handles s"
  "reclaimed_handles (fold (settle_host_call_locally e r) cids s) = reclaimed_handles s"
  "next_handle (fold (settle_host_call_locally e r) cids s) = next_handle s"
  "live_handle_count (fold (settle_host_call_locally e r) cids s) = live_handle_count s"
  "pending_worker_releases (fold (settle_host_call_locally e r) cids s) = pending_worker_releases s"
  "retired_worker_handles (fold (settle_host_call_locally e r) cids s) = retired_worker_handles s"
  "offered_worker_handles (fold (settle_host_call_locally e r) cids s) = offered_worker_handles s"
  "outbox (fold (settle_host_call_locally e r) cids s) = outbox s"
  by (rule fold_field; simp)+

lemma core_fold_settle [core_intros]:
  "session_core s \<Longrightarrow> session_core (fold (settle_host_call_locally e r) cids s)"
  by (induction cids arbitrary: s) (simp_all add: core_settle_locally)

lemma fold_settle_dom:
  "bt_dom (host_calls (fold (settle_host_call_locally e r) cids s)) =
     bt_dom (host_calls s) - set cids"
  "bt_dom (retired_host_calls (fold (settle_host_call_locally e r) cids s)) =
     bt_dom (retired_host_calls s) \<union> (set cids \<inter> bt_dom (host_calls s))"
  by (induction cids arbitrary: s) (auto simp: settle_locally_dom)

lemma drop_handle_frame [simp]:
  "config (drop_handle b h s) = config s"
  "session_phase (drop_handle b h s) = session_phase s"
  "decoder (drop_handle b h s) = decoder s"
  "now_ms (drop_handle b h s) = now_ms s"
  "worker_calls (drop_handle b h s) = worker_calls s"
  "host_calls (drop_handle b h s) = host_calls s"
  "retired_worker_calls (drop_handle b h s) = retired_worker_calls s"
  "retired_host_calls (drop_handle b h s) = retired_host_calls s"
  "next_host_call (drop_handle b h s) = next_host_call s"
  "next_handle (drop_handle b h s) = next_handle s"
  "pending_worker_releases (drop_handle b h s) = pending_worker_releases s"
  "retired_worker_handles (drop_handle b h s) = retired_worker_handles s"
  "offered_worker_handles (drop_handle b h s) = offered_worker_handles s"
  "outbox (drop_handle b h s) = outbox s"
  "events (drop_handle b h s) = events s"
  by (simp_all add: drop_handle_def Let_def split: option.splits)

lemma drop_handle_handles: "handles (drop_handle b h s) = bt_remove h (handles s)"
  by (auto simp: drop_handle_def Let_def bt_get_None_iff bt_remove_absent split: option.splits)

lemma reclaim_loop_frame:
  assumes "\<And>h s. f (drop_handle False h s) = f s"
  shows "f (snd (reclaim_loop hs acc s)) = f s"
  using assms by (induction hs acc s rule: reclaim_loop.induct) simp_all

lemma reclaim_frame:
  assumes "\<And>h s. f (drop_handle False h s) = f s" and "\<And>e s. f (push_event e s) = f s"
  shows "f (reclaim_handles hs s) = f s"
  by (simp add: reclaim_handles_def Let_def assms(2) reclaim_loop_frame [OF assms(1)] split_beta)

lemma push_event_frame [simp]:
  "config (push_event e s) = config s" "session_phase (push_event e s) = session_phase s"
  "decoder (push_event e s) = decoder s" "now_ms (push_event e s) = now_ms s"
  "worker_calls (push_event e s) = worker_calls s" "host_calls (push_event e s) = host_calls s"
  "retired_worker_calls (push_event e s) = retired_worker_calls s"
  "retired_host_calls (push_event e s) = retired_host_calls s"
  "next_host_call (push_event e s) = next_host_call s" "handles (push_event e s) = handles s"
  "retired_handles (push_event e s) = retired_handles s"
  "reclaimed_handles (push_event e s) = reclaimed_handles s"
  "next_handle (push_event e s) = next_handle s"
  "live_handle_count (push_event e s) = live_handle_count s"
  "pending_worker_releases (push_event e s) = pending_worker_releases s"
  "retired_worker_handles (push_event e s) = retired_worker_handles s"
  "offered_worker_handles (push_event e s) = offered_worker_handles s"
  "outbox (push_event e s) = outbox s" "events (push_event e s) = events s @ [e]"
  by (simp_all add: push_event_def)

lemma push_out_frame [simp]:
  "config (push_out m s) = config s" "session_phase (push_out m s) = session_phase s"
  "decoder (push_out m s) = decoder s" "now_ms (push_out m s) = now_ms s"
  "worker_calls (push_out m s) = worker_calls s" "host_calls (push_out m s) = host_calls s"
  "retired_worker_calls (push_out m s) = retired_worker_calls s"
  "retired_host_calls (push_out m s) = retired_host_calls s"
  "next_host_call (push_out m s) = next_host_call s" "handles (push_out m s) = handles s"
  "retired_handles (push_out m s) = retired_handles s"
  "reclaimed_handles (push_out m s) = reclaimed_handles s"
  "next_handle (push_out m s) = next_handle s"
  "live_handle_count (push_out m s) = live_handle_count s"
  "pending_worker_releases (push_out m s) = pending_worker_releases s"
  "retired_worker_handles (push_out m s) = retired_worker_handles s"
  "offered_worker_handles (push_out m s) = offered_worker_handles s"
  "outbox (push_out m s) = outbox s @ [m]" "events (push_out m s) = events s"
  by (simp_all add: push_out_def)

lemma reclaim_handles_frame [simp]:
  "config (reclaim_handles hs s) = config s"
  "session_phase (reclaim_handles hs s) = session_phase s"
  "decoder (reclaim_handles hs s) = decoder s"
  "now_ms (reclaim_handles hs s) = now_ms s"
  "worker_calls (reclaim_handles hs s) = worker_calls s"
  "host_calls (reclaim_handles hs s) = host_calls s"
  "retired_worker_calls (reclaim_handles hs s) = retired_worker_calls s"
  "retired_host_calls (reclaim_handles hs s) = retired_host_calls s"
  "next_host_call (reclaim_handles hs s) = next_host_call s"
  "next_handle (reclaim_handles hs s) = next_handle s"
  "pending_worker_releases (reclaim_handles hs s) = pending_worker_releases s"
  "retired_worker_handles (reclaim_handles hs s) = retired_worker_handles s"
  "offered_worker_handles (reclaim_handles hs s) = offered_worker_handles s"
  "outbox (reclaim_handles hs s) = outbox s"
  by (rule reclaim_frame; simp)+

lemma core_reclaim_loop:
  "session_core s \<Longrightarrow> session_core (snd (reclaim_loop hs acc s))"
  by (induction hs acc s rule: reclaim_loop.induct) (simp_all add: core_drop_handle)

lemma core_reclaim [core_intros]:
  "session_core s \<Longrightarrow> session_core (reclaim_handles hs s)"
  by (simp add: reclaim_handles_def Let_def split_beta core_reclaim_loop)

lemma reclaim_loop_dom:
  "bt_dom (handles (snd (reclaim_loop hs acc s))) = bt_dom (handles s) - set hs"
  by (induction hs acc s rule: reclaim_loop.induct)
    (auto simp: drop_handle_handles bt_contains_iff)

lemma reclaim_handles_dom: "bt_dom (handles (reclaim_handles hs s)) = bt_dom (handles s) - set hs"
  by (simp add: reclaim_handles_def Let_def split_beta reclaim_loop_dom)

lemma empty_dom: "bt_dom m = {} \<longleftrightarrow> m = []"
  by simp

lemma wind_up_frame [simp]:
  "config (wind_up e r s) = config s" "session_phase (wind_up e r s) = session_phase s"
  "decoder (wind_up e r s) = decoder s" "now_ms (wind_up e r s) = now_ms s"
  "retired_worker_calls (wind_up e r s) = retired_worker_calls s"
  "next_host_call (wind_up e r s) = next_host_call s" "next_handle (wind_up e r s) = next_handle s"
  "retired_worker_handles (wind_up e r s) = retired_worker_handles s"
  "offered_worker_handles (wind_up e r s) = offered_worker_handles s"
  "outbox (wind_up e r s) = outbox s"
  "worker_calls (wind_up e r s) = []" "pending_worker_releases (wind_up e r s) = []"
  "reclaimed_handles (wind_up e r s) = []"
  by (simp_all add: wind_up_def Let_def reclaim_all_handles_def)

lemma wind_up_empties [simp]:
  "host_calls (wind_up e r s) = []" "handles (wind_up e r s) = []"
proof -
  have "bt_dom (host_calls (wind_up e r s)) = {}"
    by (simp add: wind_up_def Let_def reclaim_all_handles_def fold_settle_dom)
  then show "host_calls (wind_up e r s) = []" by simp
  have "bt_dom (handles (wind_up e r s)) = {}"
    by (simp add: wind_up_def Let_def reclaim_all_handles_def reclaim_handles_dom)
  then show "handles (wind_up e r s) = []" by simp
qed

lemma wind_up_retires:
  "bt_dom (retired_host_calls (wind_up e r s)) =
     bt_dom (retired_host_calls s) \<union> bt_dom (host_calls s)"
  by (simp add: wind_up_def Let_def reclaim_all_handles_def fold_settle_dom)

lemma core_wind_up [core_intros]: "session_core s \<Longrightarrow> session_core (wind_up e r s)"
  by (simp add: wind_up_def Let_def reclaim_all_handles_def core_clear core_reclaim core_fold_settle)

section \<open>Handlers\<close>

text \<open>
  What a frame handler may do to an active session: keep the core, the decoder, the configuration
  and the id counters, and either stay in its phase or close with nothing in flight.
\<close>

definition keeps :: "host_session \<Rightarrow> host_session \<Rightarrow> bool" where
  "keeps s t \<longleftrightarrow>
     session_core t \<and> config t = config s \<and> decoder t = decoder s \<and>
     next_host_call t = next_host_call s \<and> next_handle t = next_handle s \<and>
     now_ms t = now_ms s \<and>
     (session_phase t = session_phase s \<or> session_phase t = Closed \<and> phase_ok t)"

lemma keeps_refl: "session_core s \<Longrightarrow> keeps s s"
  by (simp add: keeps_def)

lemma keeps_fatal:
  assumes "session_core s'" and "session_phase s' \<noteq> Closed" and "config s' = config s"
    and "decoder s' = decoder s" and "next_host_call s' = next_host_call s"
    and "next_handle s' = next_handle s" and "now_ms s' = now_ms s"
  shows "keeps s (fatal k d s')"
  using assms
  by (simp add: keeps_def fatal_def Let_def core_wind_up phase_ok_def)

lemma keeps_goodbye: "session_core s \<Longrightarrow> keeps s (on_goodbye g s)"
  by (simp add: keeps_def on_goodbye_def Let_def core_wind_up phase_ok_def)

lemma keeps_refuse:
  assumes "session_core s" and "cid \<notin> bt_dom (worker_calls s)" and "\<not> budget_full s"
  shows "keeps s (refuse_worker_call cid kind s)"
  using core_retire_worker_call [OF assms]
  by (simp add: keeps_def refuse_worker_call_def push_call_refusal_def)

lemma keeps_refuse_unspent: "session_core s \<Longrightarrow> keeps s (refuse_worker_call_unspent cid s)"
  by (simp add: keeps_def refuse_worker_call_unspent_def push_call_refusal_def)

lemma keeps_serve_artifact_read:
  assumes "session_core s" and "call_call_id c \<notin> bt_dom (worker_calls s)" and "\<not> budget_full s"
  shows "keeps s (serve_artifact_read env c s)"
  using keeps_refuse [OF assms] core_retire_worker_call [OF assms]
  by (simp add: serve_artifact_read_def Let_def keeps_def split: option.splits)

lemma in_flight_no_wrap:
  assumes "session_core s"
  shows "wrap32 (length (worker_calls s)) = length (worker_calls s)"
    "wrap32 (length (host_calls s)) = length (host_calls s)"
    "wrap32 (length (pending_worker_releases s)) = length (pending_worker_releases s)"
proof -
  have "ceilings_ok s" by (rule core_groups(5) [OF assms])
  then show "wrap32 (length (worker_calls s)) = length (worker_calls s)"
    "wrap32 (length (host_calls s)) = length (host_calls s)"
    "wrap32 (length (pending_worker_releases s)) = length (pending_worker_releases s)"
    unfolding ceilings_ok_def config_ok_def by (intro wrap32_small; linarith)+
qed

lemma keeps_worker_call:
  assumes "session_core s" and "session_phase s = Active"
  shows "keeps s (on_worker_call env c s)"
proof -
  have f: "keeps s (fatal k d s)" for k d
    using assms by (intro keeps_fatal) simp_all
  have ins: "keeps s (push_event e (s\<lparr>worker_calls :=
      bt_insert (call_call_id c) (fresh_worker_call b) (worker_calls s)\<rparr>))"
    if "call_call_id c \<notin> bt_dom (worker_calls s)" "call_call_id c \<notin> bt_dom (retired_worker_calls s)"
      "\<not> budget_full s"
      "length (worker_calls s) < worker_calls_in_flight (ceilings_of (config s))" for e b
    using core_insert_worker_call [OF assms(1) that] by (simp add: keeps_def)
  show ?thesis
    unfolding on_worker_call_def Let_def bt_contains_iff in_flight_no_wrap [OF assms(1)]
    using assms(1)
    by (auto intro!: f ins keeps_refuse keeps_refuse_unspent keeps_serve_artifact_read)
qed

lemma keeps_settle_by_reply:
  assumes "session_core s" and "reply_call_id r \<in> bt_dom (host_calls s)"
  shows "keeps s (settle_by_reply r s)"
  using core_settle [OF assms] by (simp add: keeps_def settle_by_reply_def)

lemma keeps_late_reply:
  assumes "session_core s" and "session_phase s = Active"
  shows "keeps s (on_late_reply out s)"
proof (cases out)
  case (Outcome_Spilled a)
  have "keeps s (fatal k d s)" for k d
    using assms by (intro keeps_fatal) simp_all
  then show ?thesis
    using Outcome_Spilled assms(1) core_late_offer [OF assms(1), of "offer_handle a"]
    by (simp add: keeps_refl bt_contains_iff) (simp add: keeps_def)
qed (simp_all add: keeps_refl assms)

lemma keeps_worker_reply:
  assumes "session_core s" and "session_phase s = Active"
  shows "keeps s (on_worker_reply env r s)"
proof -
  have f: "keeps s (fatal k d s)" for k d
    using assms by (intro keeps_fatal) simp_all
  have reused: "keeps s (fatal k d (s\<lparr>offered_worker_handles :=
      bt_insert h Artifact (offered_worker_handles s)\<rparr>))"
    if "h \<in> bt_dom (offered_worker_handles s)" for h k d
    using core_reused_offer [OF assms(1) that] assms by (intro keeps_fatal) simp_all
  have spilled: "keeps s (settle_by_reply r (s\<lparr>offered_worker_handles :=
      bt_insert h Artifact (offered_worker_handles s)\<rparr>))"
    if "reply_call_id r \<in> bt_dom (host_calls s)" "h \<notin> bt_dom (offered_worker_handles s)" for h
    using core_settle_spilled [OF assms(1) that]
    by (simp add: keeps_def settle_by_reply_def)
  show ?thesis
  proof (cases "reply_call_id r \<in> bt_dom (host_calls s)")
    case True
    with keeps_settle_by_reply [OF assms(1) True] show ?thesis
      by (simp add: on_worker_reply_def Let_def bt_contains_iff f reused spilled split: outcome.split)
  next
    case False
    then show ?thesis
      by (simp add: on_worker_reply_def bt_contains_iff f keeps_late_reply assms)
  qed
qed

lemma keeps_worker_cancel: "session_core s \<Longrightarrow> keeps s (on_worker_cancel c s)"
  by (simp add: on_worker_cancel_def keeps_def)

lemma modify_frame [simp]:
  "config (modify_host_call cid f s) = config s" "decoder (modify_host_call cid f s) = decoder s"
  "next_host_call (modify_host_call cid f s) = next_host_call s"
  "next_handle (modify_host_call cid f s) = next_handle s"
  "now_ms (modify_host_call cid f s) = now_ms s"
  "session_phase (modify_host_call cid f s) = session_phase s"
  "config (modify_worker_call cid g s) = config s"
  "decoder (modify_worker_call cid g s) = decoder s"
  "next_host_call (modify_worker_call cid g s) = next_host_call s"
  "next_handle (modify_worker_call cid g s) = next_handle s"
  "now_ms (modify_worker_call cid g s) = now_ms s"
  "session_phase (modify_worker_call cid g s) = session_phase s"
  by (simp_all add: modify_host_call_def modify_worker_call_def)

lemma stream_call_ok:
  assumes "session_core s"
  shows "bt_get (host_calls s) cid = Some c \<Longrightarrow> host_call_ok (max_credit s) c"
    and "bt_get (worker_calls s) cid = Some w \<Longrightarrow> worker_call_ok (max_credit s) w"
  using core_groups(6) [OF assms] unfolding streams_ok_def by blast+

lemma keeps_stream_open:
  assumes "session_core s" and "session_phase s = Active"
  shows "keeps s (on_stream_open m s)"
proof -
  have f: "keeps s (fatal k d s)" for k d
    using assms by (intro keeps_fatal) simp_all
  have upd: "keeps s (push_event e (modify_host_call (open_call_id m)
      (\<lambda>c. c\<lparr>hc_stream_open := True, hc_credit_left := n\<rparr>) s))"
    if "bt_get (host_calls s) (open_call_id m) = Some st" "hc_stream st" "n \<le> max_credit s" for e n st
  proof -
    have "session_core (modify_host_call (open_call_id m)
        (\<lambda>c. c\<lparr>hc_stream_open := True, hc_credit_left := n\<rparr>) s)"
      using that by (intro core_modify_host_call assms) (simp add: host_call_ok_def)
    then show ?thesis by (simp add: keeps_def)
  qed
  show ?thesis
    using assms
    by (auto simp: on_stream_open_def Let_def split: option.splits intro!: f upd keeps_refl)
qed

lemma keeps_stream_data:
  assumes "session_core s" and "session_phase s = Active"
  shows "keeps s (on_stream_data env d s)"
proof -
  have f: "keeps s (fatal k x s)" for k x
    using assms by (intro keeps_fatal) simp_all
  have core: "session_core (modify_host_call (data_call_id d) (accept_item d) s)"
    if "bt_get (host_calls s) (data_call_id d) = Some st" "hc_stream_open st" for st
    using stream_call_ok(1) [OF assms(1) that(1)] that
    by (intro core_modify_host_call assms) (auto simp: accept_item_def host_call_ok_def)
  show ?thesis
    using assms
    by (auto simp: on_stream_data_def Let_def split: option.splits intro!: f keeps_refl)
      (auto simp: keeps_def dest: core)
qed

lemma keeps_credit:
  assumes "session_core s" and "session_phase s = Active"
  shows "keeps s (on_credit m s)"
proof -
  have f: "keeps s (fatal k d s)" for k d
    using assms by (intro keeps_fatal) simp_all
  have upd: "keeps s (push_event e (modify_worker_call (credit_call_id m)
      (\<lambda>c. c\<lparr>wc_stream_credit := Some n\<rparr>) s))"
    if "bt_get (worker_calls s) (credit_call_id m) = Some st" "wc_stream_credit st = Some w"
      "n \<le> max_credit s" for e n st w
  proof -
    have "session_core (modify_worker_call (credit_call_id m)
        (\<lambda>c. c\<lparr>wc_stream_credit := Some n\<rparr>) s)"
      using stream_call_ok(2) [OF assms(1) that(1)] that
      by (intro core_modify_worker_call assms) (simp add: worker_call_ok_def)
    then show ?thesis by (simp add: keeps_def)
  qed
  show ?thesis
    using assms
    by (auto simp: on_credit_def Let_def simp del: u32_checked_add_Some
        split: option.splits intro!: f upd keeps_refl)
qed

lemma keeps_release:
  assumes "session_core s" and "session_phase s = Active"
  shows "keeps s (on_release r s)"
proof -
  have f: "keeps s (fatal k d s)" for k d
    using assms by (intro keeps_fatal) simp_all
  have late: "keeps s (push_out m (s\<lparr>reclaimed_handles := bt_remove h (reclaimed_handles s),
      retired_handles := bs_insert h (retired_handles s)\<rparr>))"
    if "bt_get (reclaimed_handles s) h = Some k" for h m k
    using core_reclaimed_release [OF assms(1) bt_get_Some_dom [OF that]] by (simp add: keeps_def)
  have live: "keeps s (push_event e (push_out m (drop_handle True h s)))" for e m h
    using core_drop_handle [OF assms(1)] by (simp add: keeps_def)
  show ?thesis
    by (auto simp: on_release_def Let_def split: option.splits intro!: f late live)
qed

lemma keeps_release_ack:
  assumes "session_core s" and "session_phase s = Active"
  shows "keeps s (on_release_ack a s)"
proof -
  have f: "keeps s (fatal k d s)" for k d
    using assms by (intro keeps_fatal) simp_all
  have ack: "keeps s (push_event e
      (s\<lparr>pending_worker_releases := bt_remove h (pending_worker_releases s),
         retired_worker_handles := bs_insert h (retired_worker_handles s)\<rparr>))"
    if "bt_get (pending_worker_releases s) h = Some k" for e h k
    using core_release_ack [OF assms(1) bt_get_Some_dom [OF that]] by (simp add: keeps_def)
  show ?thesis
    by (auto simp: on_release_ack_def Let_def split: option.splits intro!: f ack)
qed

lemma keeps_on_active:
  assumes "session_core s" and "session_phase s = Active"
  shows "keeps s (on_active env m s)"
proof -
  have "keeps s (fatal k d s)" for k d
    using assms by (intro keeps_fatal) simp_all
  then show ?thesis
    unfolding on_active_def
    by (cases m)
      (auto split: sum.split intro!: keeps_worker_call keeps_worker_reply keeps_stream_open
        keeps_stream_data keeps_credit keeps_worker_cancel keeps_release keeps_release_ack
        keeps_goodbye assms)
qed

section \<open>Entry points\<close>

lemma keeps_inv:
  assumes "session_inv s" and "session_phase s = Active" and "keeps s t"
  shows "session_inv t"
  using assms by (auto simp: session_inv_def keeps_def phase_ok_def decoder_ok_def)

lemma inv_core: "session_inv s \<Longrightarrow> session_core s"
  by (simp add: session_inv_def)

lemma pre_negotiation_shape:
  "(\<exists>k m d. on_pre_negotiation env msg s = refuse_negotiation k m d s) \<or>
   (\<exists>h. on_pre_negotiation env msg s = accept_hello h s)"
  by (cases msg) (auto simp: Let_def)

lemma negotiation_frame [simp]:
  "config (on_pre_negotiation env msg s) = config s"
  "decoder (on_pre_negotiation env msg s) = decoder s"
  "next_host_call (on_pre_negotiation env msg s) = next_host_call s"
  "next_handle (on_pre_negotiation env msg s) = next_handle s"
  "session_core (on_pre_negotiation env msg s) = session_core s"
  "session_phase (on_pre_negotiation env msg s) \<noteq> AwaitingHello"
  "worker_calls (on_pre_negotiation env msg s) = worker_calls s"
  "host_calls (on_pre_negotiation env msg s) = host_calls s"
  "handles (on_pre_negotiation env msg s) = handles s"
  "pending_worker_releases (on_pre_negotiation env msg s) = pending_worker_releases s"
  using pre_negotiation_shape [of env msg s]
  by (auto simp: refuse_negotiation_def accept_hello_def)

text \<open>One frame, seen from the loop of \<open>feed\<close>, which has already advanced the decoder.\<close>

definition loop_inv :: "host_session \<Rightarrow> bool" where
  "loop_inv s \<longleftrightarrow> session_core s \<and> phase_ok s"

lemma loop_inv_decoder [simp]: "loop_inv (s\<lparr>decoder := d\<rparr>) = loop_inv s"
  by (simp add: loop_inv_def phase_ok_def)

lemma fatal_loop_inv: "loop_inv s \<Longrightarrow> loop_inv (fatal k d s)"
  using keeps_fatal [of s s k d]
  by (cases "session_phase s = Closed")
    (auto simp: loop_inv_def keeps_def fatal_def Let_def phase_ok_def)

lemma fatal_frame [simp]:
  "config (fatal k d s) = config s" "decoder (fatal k d s) = decoder s"
  "next_host_call (fatal k d s) = next_host_call s" "next_handle (fatal k d s) = next_handle s"
  "session_phase (fatal k d s) = Closed"
  by (auto simp: fatal_def Let_def)

lemma on_active_loop:
  assumes "loop_inv s" and "session_phase s = Active"
  shows "loop_inv (on_active env m s)" "decoder (on_active env m s) = decoder s"
    "next_host_call (on_active env m s) = next_host_call s"
    "next_handle (on_active env m s) = next_handle s" "config (on_active env m s) = config s"
    "session_phase (on_active env m s) \<noteq> AwaitingHello"
proof -
  have "keeps s (on_active env m s)"
    using assms by (intro keeps_on_active) (simp_all add: loop_inv_def)
  with assms show "loop_inv (on_active env m s)" "decoder (on_active env m s) = decoder s"
    "next_host_call (on_active env m s) = next_host_call s"
    "next_handle (on_active env m s) = next_handle s" "config (on_active env m s) = config s"
    "session_phase (on_active env m s) \<noteq> AwaitingHello"
    by (auto simp: keeps_def loop_inv_def phase_ok_def)
qed

lemma on_frame_loop:
  assumes "loop_inv s"
  shows "loop_inv (on_frame env raw s) \<and> decoder (on_frame env raw s) = decoder s \<and>
    next_host_call (on_frame env raw s) = next_host_call s \<and>
    next_handle (on_frame env raw s) = next_handle s \<and> config (on_frame env raw s) = config s"
proof (cases "session_phase s")
  case AwaitingHello
  have "loop_inv (on_pre_negotiation env m s)" for m
    using assms AwaitingHello by (simp add: loop_inv_def phase_ok_def)
  with AwaitingHello show ?thesis
    by (simp add: on_frame_def fatal_loop_inv assms split: sum.split)
next
  case Active
  with assms show ?thesis
    by (simp add: on_frame_def fatal_loop_inv on_active_loop split: sum.split)
next
  case Closed
  with assms show ?thesis
    by (simp add: on_frame_def fatal_loop_inv split: sum.split)
qed

lemma feed_loop_inv:
  "loop_inv s \<Longrightarrow> poisoned d = None \<Longrightarrow>
     session_inv (feed_loop env d s) \<and>
     next_host_call (feed_loop env d s) = next_host_call s \<and>
     next_handle (feed_loop env d s) = next_handle s \<and> config (feed_loop env d s) = config s"
proof (induction "length (buffer d)" arbitrary: d s rule: less_induct)
  case (less d s)
  obtain r d' where nf: "next_frame d = (r, d')" by (cases "next_frame d")
  show ?case
  proof (cases r)
    case (Inl e)
    have "loop_inv (fatal (stream_error_kind e) ''frame stream violation'' (s\<lparr>decoder := d'\<rparr>))"
      using less.prems(1) by (intro fatal_loop_inv) simp
    with nf Inl show ?thesis
      by (simp add: feed_loop.simps [of env d s] session_inv_def loop_inv_def decoder_ok_def)
  next
    case (Inr o1)
    show ?thesis
    proof (cases o1)
      case None
      with nf Inr next_frame_Inr_None [of d d'] less.prems show ?thesis
        by (simp add: feed_loop.simps [of env d s] session_inv_def loop_inv_def decoder_ok_def
            phase_ok_def decoder_drained_def buffered_len_def)
    next
      case (Some frame)
      let ?t = "on_frame env frame (s\<lparr>decoder := d'\<rparr>)"
      have t: "loop_inv ?t \<and> decoder ?t = d' \<and> next_host_call ?t = next_host_call s \<and>
          next_handle ?t = next_handle s \<and> config ?t = config s"
        using on_frame_loop [of "s\<lparr>decoder := d'\<rparr>" env frame] less.prems(1) by simp
      have eq: "feed_loop env d s =
          (if session_phase ?t = Closed then ?t else feed_loop env d' ?t)"
        using nf Inr Some by (simp add: feed_loop.simps [of env d s] Let_def)
      have "session_inv (feed_loop env d' ?t) \<and> next_host_call (feed_loop env d' ?t) = next_host_call ?t
          \<and> next_handle (feed_loop env d' ?t) = next_handle ?t \<and> config (feed_loop env d' ?t) = config ?t"
        using next_frame_shrinks [of d frame d'] next_frame_Some_poisoned [of d frame d'] nf Inr Some t
        by (intro less.hyps) simp_all
      with t eq show ?thesis
        by (auto simp: session_inv_def loop_inv_def decoder_ok_def)
    qed
  qed
qed

lemma feed_inv:
  assumes "session_inv s"
  shows "session_inv (feed env bytes s) \<and> next_host_call (feed env bytes s) = next_host_call s \<and>
    next_handle (feed env bytes s) = next_handle s \<and> config (feed env bytes s) = config s"
proof (cases "session_phase s = Closed")
  case True
  with assms show ?thesis by (simp add: feed_def)
next
  case False
  with assms have "loop_inv s" "poisoned (decoder_feed bytes (decoder s)) = None"
    by (simp_all add: session_inv_def loop_inv_def decoder_ok_def decoder_feed_def)
  with False feed_loop_inv [of s "decoder_feed bytes (decoder s)" env] show ?thesis
    by (simp add: feed_def)
qed

lemma fatal_inv: "session_inv s \<Longrightarrow> session_inv (fatal k d s)"
  using fatal_loop_inv [of s k d] by (auto simp: session_inv_def loop_inv_def decoder_ok_def)

lemma end_of_input_inv: "session_inv s \<Longrightarrow> session_inv (end_of_input s)"
  by (simp add: end_of_input_def fatal_inv)

lemma expire_one_core: "session_core s \<Longrightarrow> session_core (expire_one cid s)"
  by (simp add: expire_one_def core_settle_locally)

lemma expire_one_frame [simp]:
  "config (expire_one cid s) = config s" "decoder (expire_one cid s) = decoder s"
  "next_host_call (expire_one cid s) = next_host_call s"
  "next_handle (expire_one cid s) = next_handle s"
  "session_phase (expire_one cid s) = session_phase s"
  by (simp_all add: expire_one_def)

lemma expire_deadlines_frame [simp]:
  "config (expire_deadlines s) = config s" "decoder (expire_deadlines s) = decoder s"
  "next_host_call (expire_deadlines s) = next_host_call s"
  "next_handle (expire_deadlines s) = next_handle s"
  "session_phase (expire_deadlines s) = session_phase s"
  unfolding expire_deadlines_def by (rule fold_field; simp)+

lemma expire_deadlines_core: "session_core s \<Longrightarrow> session_core (expire_deadlines s)"
proof -
  have "session_core s \<Longrightarrow> session_core (fold expire_one cids s)" for cids
    by (induction cids arbitrary: s) (simp_all add: expire_one_core)
  then show "session_core s \<Longrightarrow> session_core (expire_deadlines s)"
    by (simp add: expire_deadlines_def)
qed

lemma tick_inv: "session_inv s \<Longrightarrow> session_inv (tick now s)"
  by (simp add: tick_def Let_def session_inv_def phase_ok_def decoder_ok_def expire_deadlines_core)

section \<open>The application's calls\<close>

text \<open>An operation of an active session that keeps the core, the phase and the decoder.\<close>

lemma app_inv:
  assumes "session_inv s" and "session_core t" and "session_phase t = session_phase s"
    and "decoder t = decoder s" and "session_phase s = Active"
  shows "session_inv t"
  using assms by (simp add: session_inv_def phase_ok_def decoder_ok_def)

lemma reply_to_worker_inv:
  assumes "session_inv s"
  shows "session_inv (snd (reply_to_worker env cid out s))"
proof -
  have fin: "session_inv (push_out m
      (if b then reclaim_handles hs (s\<lparr>worker_calls := bt_remove cid (worker_calls s),
           retired_worker_calls := bs_insert cid (retired_worker_calls s)\<rparr>)
       else s\<lparr>worker_calls := bt_remove cid (worker_calls s),
           retired_worker_calls := bs_insert cid (retired_worker_calls s)\<rparr>))"
    if "bt_get (worker_calls s) cid = Some st" "session_phase s = Active" for m b hs st
    using core_finish_worker_call [OF inv_core [OF assms] bt_get_Some_dom [OF that(1)]] that(2)
    by (intro app_inv [OF assms]) (simp_all add: core_reclaim)
  show ?thesis
    using assms
    by (simp add: reply_to_worker_def Let_def fin split: option.split sum.split)
qed

lemma call_worker_inv:
  assumes "session_inv s" and "next_host_call s + 1 < U64_MODULUS"
  shows "session_inv (snd (call_worker env method payload deadline stream s))"
proof -
  note core = inv_core [OF assms(1)]
  note ins = core_insert_host_call [OF core _ _ assms(2), unfolded Suc_eq_plus1 [symmetric]]
  show ?thesis
    unfolding call_worker_def Let_def in_flight_no_wrap [OF core]
    using assms(1)
    by (auto intro!: app_inv [OF assms(1)] ins simp: host_call_ok_def)
qed

lemma cancel_host_call_inv:
  assumes "session_inv s"
  shows "session_inv (snd (cancel_host_call cid target s))"
proof -
  have "session_core (modify_host_call cid (\<lambda>c. c\<lparr>hc_stream_muted := True\<rparr>) s)"
    using stream_call_ok(1) [OF inv_core [OF assms]]
    by (intro core_modify_host_call inv_core assms) (simp add: host_call_ok_def)
  then have "session_core (s\<lparr>host_calls := bt_modify cid (\<lambda>c. c\<lparr>hc_stream_muted := True\<rparr>)
      (host_calls s)\<rparr>)"
    by (simp add: modify_host_call_def)
  then show ?thesis
    using assms inv_core [OF assms]
    by (auto simp: cancel_host_call_def Let_def intro!: app_inv [OF assms])
qed

lemma grant_credit_inv:
  assumes "session_inv s"
  shows "session_inv (snd (grant_credit cid n s))"
proof -
  have upd: "session_core (modify_host_call cid (\<lambda>c. c\<lparr>hc_credit_left := next\<rparr>) s)"
    if "next \<le> max_credit s" for "next"
    using stream_call_ok(1) [OF inv_core [OF assms]] that
    by (intro core_modify_host_call inv_core assms) (simp add: host_call_ok_def)
  show ?thesis
    using assms
    by (auto simp: grant_credit_def simp del: u32_checked_add_Some split: option.split
        intro!: app_inv [OF assms] upd)
qed

lemma note_lossy_drops_inv:
  assumes "session_inv s"
  shows "session_inv (snd (note_lossy_drops cid n s))"
proof -
  have upd: "session_core (modify_worker_call cid (\<lambda>c. c\<lparr>wc_lossy_dropped := next\<rparr>) s)"
    if "next \<le> MAX_WIRE_ID" for "next"
    using stream_call_ok(2) [OF inv_core [OF assms]] that
    by (intro core_modify_worker_call inv_core assms) (simp add: worker_call_ok_def)
  show ?thesis
    using assms
    by (auto simp: note_lossy_drops_def Let_def split: option.split intro!: app_inv [OF assms] upd)
qed

lemma open_stream_inv:
  assumes "session_inv s"
  shows "session_inv (snd (open_stream cid n s))"
proof -
  have upd: "session_core (modify_worker_call cid (\<lambda>c. c\<lparr>wc_stream_credit := Some n\<rparr>) s)"
    if "bt_get (worker_calls s) cid = Some st" "wc_stream st" "n \<le> max_credit s" for st
    using stream_call_ok(2) [OF inv_core [OF assms] that(1)] that
    by (intro core_modify_worker_call inv_core assms) (simp add: worker_call_ok_def)
  show ?thesis
    using assms
    by (auto simp: open_stream_def split: option.split intro!: app_inv [OF assms] upd)
qed

lemma stream_item_inv:
  assumes "session_inv s"
  shows "session_inv (snd (stream_item env cid class has_more payload s))"
proof -
  have upd: "session_core (modify_worker_call cid (send_item class has_more w) s)"
    if "bt_get (worker_calls s) cid = Some st" "wc_stream_credit st = Some w" for st w
    using stream_call_ok(2) [OF inv_core [OF assms] that(1)] that
    by (intro core_modify_worker_call inv_core assms) (auto simp: worker_call_ok_def send_item_def)
  show ?thesis
    using assms
    by (auto simp: stream_item_def split: option.split intro!: app_inv [OF assms] upd)
qed

lemma note_minted_core: "session_core s \<Longrightarrow> session_core (note_minted cid h s)"
proof -
  assume c: "session_core s"
  have "session_core (modify_worker_call cid (\<lambda>c. c\<lparr>wc_minted := wc_minted c @ [h]\<rparr>) s)"
    using stream_call_ok(2) [OF c]
    by (intro core_modify_worker_call c) (simp add: worker_call_ok_def)
  then show ?thesis by (simp add: note_minted_def modify_worker_call_def)
qed

lemma note_minted_frame [simp]:
  "config (note_minted cid h s) = config s" "decoder (note_minted cid h s) = decoder s"
  "session_phase (note_minted cid h s) = session_phase s"
  "next_handle (note_minted cid h s) = next_handle s"
  "next_host_call (note_minted cid h s) = next_host_call s"
  by (simp_all add: note_minted_def)

lemma insert_handle_frame [simp]:
  "config (snd (insert_handle kind artifact s)) = config s"
  "decoder (snd (insert_handle kind artifact s)) = decoder s"
  "session_phase (snd (insert_handle kind artifact s)) = session_phase s"
  "next_host_call (snd (insert_handle kind artifact s)) = next_host_call s"
  "worker_calls (snd (insert_handle kind artifact s)) = worker_calls s"
  by (simp_all add: insert_handle_def next_handle_id_def)

lemma insert_handle_inv:
  assumes "session_inv s" and "next_handle s + 1 < U64_MODULUS" and "\<not> budget_full s"
    and "session_phase s = Active" and "kind = Artifact \<longleftrightarrow> artifact \<noteq> None"
    and "insert_handle kind artifact s = (Inr h, t)"
  shows "session_inv (note_minted cid h' t)"
proof -
  have below: "live_handle_count s < live_handles_ceiling (ceilings_of (config s))"
    using assms(6) by (simp add: insert_handle_def split: if_splits)
  have t: "t = snd (insert_handle kind artifact s)"
    using assms(6) by simp
  have "session_core t"
    unfolding t by (rule core_insert_handle [OF inv_core [OF assms(1)] assms(3) below assms(2,5)])
  then show ?thesis
    using assms(4) by (intro app_inv [OF assms(1)] note_minted_core) (simp_all add: t)
qed

lemma insert_handle_error: "insert_handle kind artifact s = (Inl e, t) \<Longrightarrow> t = s"
  by (simp add: insert_handle_def Let_def split_beta split: if_splits)

lemma mint_capability_handle_inv:
  assumes "session_inv s" and "next_handle s + 1 < U64_MODULUS"
  shows "session_inv (snd (mint_capability_handle cid s))"
  using assms(1) insert_handle_inv [OF assms, of Capability None]
  by (auto simp: mint_capability_handle_def split: prod.split sum.split dest: insert_handle_error)

lemma offer_artifact_inv:
  assumes "session_inv s" and "next_handle s + 1 < U64_MODULUS"
  shows "session_inv (snd (offer_artifact env cid bytes media s))"
  using assms(1) insert_handle_inv [OF assms, of Artifact "Some a" for a]
  by (auto simp: offer_artifact_def Let_def split: prod.split sum.split dest: insert_handle_error)

lemma release_worker_handle_inv:
  assumes "session_inv s"
  shows "session_inv (snd (release_worker_handle h kind s))"
proof -
  note core = inv_core [OF assms]
  show ?thesis
    unfolding release_worker_handle_def bt_contains_iff in_flight_no_wrap [OF core]
    using assms
    by (auto split: option.split intro!: app_inv [OF assms] core_pending_release core)
qed

section \<open>Runs\<close>

text \<open>
  A run is a list of inputs applied to a fresh session. The two id counters are 64-bit and each
  input moves them by at most one in total, so the invariant holds for runs of fewer than
  \<open>2^64 - 2\<close> inputs.
\<close>

definition run :: "wire_env \<Rightarrow> session_config \<Rightarrow> session_input list \<Rightarrow> host_session" where
  "run env cfg inputs = fold (session_step env) inputs (new_session cfg)"

definition id_counter :: "host_session \<Rightarrow> nat" where
  "id_counter s = next_host_call s + next_handle s"

lemma counter_guards:
  assumes "session_inv s" and "id_counter s + 1 < U64_MODULUS"
  shows "next_host_call s + 1 < U64_MODULUS" "next_handle s + 1 < U64_MODULUS"
  using assms(2) by (simp_all add: id_counter_def)

lemma drain_inv:
  "session_inv s \<Longrightarrow> session_inv (snd (drain_outbox s))"
  "session_inv s \<Longrightarrow> session_inv (snd (drain_events s))"
  by (simp_all add: drain_outbox_def drain_events_def session_inv_def phase_ok_def decoder_ok_def)

lemma session_step_inv:
  assumes "session_inv s" and "id_counter s + 1 < U64_MODULUS"
  shows "session_inv (session_step env i s)"
  using assms counter_guards [OF assms]
  by (cases i)
    (simp_all add: feed_inv end_of_input_inv tick_inv reply_to_worker_inv call_worker_inv
      cancel_host_call_inv grant_credit_inv note_lossy_drops_inv open_stream_inv stream_item_inv
      mint_capability_handle_inv offer_artifact_inv release_worker_handle_inv drain_inv)

lemma app_counter:
  "id_counter (snd (reply_to_worker env cid out s)) = id_counter s"
  "id_counter (snd (cancel_host_call cid target s)) = id_counter s"
  "id_counter (snd (grant_credit cid n s)) = id_counter s"
  "id_counter (snd (note_lossy_drops cid n s)) = id_counter s"
  "id_counter (snd (open_stream cid n s)) = id_counter s"
  "id_counter (snd (stream_item env cid class has_more payload s)) = id_counter s"
  "id_counter (snd (release_worker_handle h kind s)) = id_counter s"
  "id_counter (snd (drain_outbox s)) = id_counter s"
  "id_counter (snd (drain_events s)) = id_counter s"
  by (simp_all add: id_counter_def drain_outbox_def drain_events_def reply_to_worker_def cancel_host_call_def grant_credit_def
      note_lossy_drops_def open_stream_def stream_item_def release_worker_handle_def Let_def
      split: option.split sum.split)

lemma insert_handle_counter:
  "insert_handle kind artifact s = (Inr h, t) \<Longrightarrow>
     h = HandleId (next_handle s) \<and> next_handle t = wrap64 (next_handle s + 1) \<and>
     next_host_call t = next_host_call s"
  by (auto simp: insert_handle_def next_handle_id_def split: if_splits)

lemma minting_counter:
  "id_counter (snd (call_worker env method payload deadline stream s)) \<le> id_counter s + 1"
  "id_counter (snd (mint_capability_handle cid s)) \<le> id_counter s + 1"
  "id_counter (snd (offer_artifact env cid bytes media s)) \<le> id_counter s + 1"
  using wrap64_le [of "next_host_call s + 1"] wrap64_le [of "next_handle s + 1"]
  by (auto simp: id_counter_def call_worker_def mint_capability_handle_def offer_artifact_def Let_def
      split: prod.split sum.split dest!: insert_handle_counter insert_handle_error)

lemma session_step_counter:
  assumes "session_inv s"
  shows "id_counter (session_step env i s) \<le> id_counter s + 1"
proof (cases i)
  case (In_feed bytes)
  with feed_inv [OF assms, of env bytes] show ?thesis by (simp add: id_counter_def)
next
  case In_end_of_input
  then show ?thesis by (simp add: id_counter_def end_of_input_def)
next
  case (In_tick now)
  then show ?thesis by (simp add: id_counter_def tick_def Let_def)
qed (use minting_counter in \<open>simp_all add: app_counter\<close>)

interpretation sm: counted_machine "session_step env" session_inv id_counter "\<lambda>_. 1" U64_MODULUS
  for env
  by unfold_locales (assumption | rule session_step_inv session_step_counter)+

lemma new_session_inv: "config_ok cfg \<Longrightarrow> session_inv (new_session cfg)"
  by (simp add: new_session_def session_inv_def session_core_def group_defs phase_ok_def
      decoder_ok_def decoder_drained_def new_decoder_def buffered_len_def budget_defs
      frame_limit_defs)

lemma run_inv:
  assumes "config_ok cfg" and "length inputs + 2 < U64_MODULUS"
  shows "session_inv (run env cfg inputs)"
proof -
  have "id_counter (new_session cfg) + sum_list (map (\<lambda>_. 1) inputs) < U64_MODULUS"
    using assms(2) by (simp add: id_counter_def new_session_def sum_list_triv)
  then show ?thesis
    unfolding run_def by (rule sm.counted_run_invariant [OF new_session_inv [OF assms(1)]])
qed

end
