(* ===== verification/Session_Protocol.thy ===== *)
theory Session_Protocol
  imports Session_Invariant
begin

text \<open>
  The law of the protocol, as an abstract machine, and the proof that every entry point of a
  session is a sequence of lawful steps. The abstract state keeps, per host call in flight, only
  the next sequence number and whether its stream is muted; the sets of spent ids; the live
  handles; and the frames and facts still in the two queues. \<open>law\<close> has one rule per kind of step,
  with the law itself as its guard: an id is answered or settled only while it is in flight, a
  stream item carries the next number, an id comes from its counter.
\<close>

section \<open>The abstract machine\<close>

record protocol =
  p_phase :: phase
  p_host :: "call_id \<Rightarrow> (u64 \<times> bool) option"
  p_host_spent :: "call_id set"
  p_next_call :: u64
  p_worker :: "call_id set"
  p_worker_spent :: "call_id set"
  p_live :: "handle_id set"
  p_next_handle :: u64
  p_bounded :: bool
  p_out :: "host_message list"
  p_facts :: "session_event list"

fun is_reply_to :: "call_id \<Rightarrow> host_message \<Rightarrow> bool" where
  "is_reply_to cid (H_Reply r) \<longleftrightarrow> reply_call_id r = cid"
| "is_reply_to cid _ \<longleftrightarrow> False"

fun is_call_frame :: "call_id \<Rightarrow> host_message \<Rightarrow> bool" where
  "is_call_frame cid (H_Call c) \<longleftrightarrow> call_call_id c = cid"
| "is_call_frame cid _ \<longleftrightarrow> False"

fun settles :: "call_id \<Rightarrow> session_event \<Rightarrow> bool" where
  "settles cid (HostCallSettled k _) \<longleftrightarrow> k = cid"
| "settles cid (HostCallLost k _ _) \<longleftrightarrow> k = cid"
| "settles cid _ \<longleftrightarrow> False"

fun item_seq :: "call_id \<Rightarrow> session_event \<Rightarrow> u64 list" where
  "item_seq cid (StreamItem k q _ _ _ _) = (if k = cid then [q] else [])"
| "item_seq cid _ = []"

definition plain_message :: "host_message \<Rightarrow> bool" where
  "plain_message m \<longleftrightarrow> (\<forall>cid. \<not> is_reply_to cid m \<and> \<not> is_call_frame cid m)"

definition plain_fact :: "session_event \<Rightarrow> bool" where
  "plain_fact e \<longleftrightarrow> (\<forall>cid. \<not> settles cid e \<and> item_seq cid e = [])"

inductive law :: "protocol \<Rightarrow> protocol \<Rightarrow> bool" where
  law_emit: "plain_message m \<Longrightarrow> law a (a\<lparr>p_out := p_out a @ [m]\<rparr>)"
| law_note: "plain_fact e \<Longrightarrow> law a (a\<lparr>p_facts := p_facts a @ [e]\<rparr>)"
| law_call: "call_call_id c = CallId (p_next_call a) \<Longrightarrow> p_next_call a + 1 < U64_MODULUS \<Longrightarrow>
     law a (a\<lparr>p_host := (p_host a)(CallId (p_next_call a) \<mapsto> (0, False)),
              p_next_call := p_next_call a + 1, p_out := p_out a @ [H_Call c]\<rparr>)"
| law_settle: "p_host a cid \<noteq> None \<Longrightarrow> settles cid e \<Longrightarrow>
     law a (a\<lparr>p_host := (p_host a)(cid := None), p_host_spent := insert cid (p_host_spent a),
              p_facts := p_facts a @ [e]\<rparr>)"
| law_item: "p_host a cid = Some (q, muted) \<Longrightarrow>
     law a (a\<lparr>p_host := (p_host a)(cid \<mapsto> (wrap64 (q + 1), muted)),
              p_facts := (if muted then p_facts a
                          else p_facts a @ [StreamItem cid q has_more class dropped payload])\<rparr>)"
| law_mute: "p_host a cid = Some (q, muted) \<Longrightarrow>
     law a (a\<lparr>p_host := (p_host a)(cid \<mapsto> (q, True))\<rparr>)"
| law_deliver: "cid \<notin> p_worker a \<Longrightarrow> cid \<notin> p_worker_spent a \<Longrightarrow>
     law a (a\<lparr>p_worker := insert cid (p_worker a)\<rparr>)"
| law_answer: "reply_call_id r = cid \<Longrightarrow> cid \<notin> p_worker_spent a \<Longrightarrow>
     law a (a\<lparr>p_worker := p_worker a - {cid}, p_worker_spent := insert cid (p_worker_spent a),
              p_out := p_out a @ [H_Reply r]\<rparr>)"
| law_unspent: "p_bounded a \<Longrightarrow> law a (a\<lparr>p_out := p_out a @ [H_Reply r]\<rparr>)"
| law_mint: "p_next_handle a + 1 < U64_MODULUS \<Longrightarrow>
     law a (a\<lparr>p_live := insert (HandleId (p_next_handle a)) (p_live a),
              p_next_handle := p_next_handle a + 1\<rparr>)"
| law_drop: "law a (a\<lparr>p_live := p_live a - {h}\<rparr>)"
| law_abandon: "law a (a\<lparr>p_worker := {}\<rparr>)"
| law_phase: "p_phase a \<noteq> Closed \<Longrightarrow> p \<noteq> AwaitingHello \<Longrightarrow> law a (a\<lparr>p_phase := p\<rparr>)"

abbreviation lawful :: "protocol \<Rightarrow> protocol \<Rightarrow> bool" where
  "lawful \<equiv> rtranclp law"

inductive_cases law_from: "law a b"

section \<open>The abstraction\<close>

definition host_view :: "(call_id, host_call) btree \<Rightarrow> call_id \<Rightarrow> (u64 \<times> bool) option" where
  "host_view m cid = map_option (\<lambda>c. (expected_seq c, hc_stream_muted c)) (bt_get m cid)"

definition protocol_of :: "host_session \<Rightarrow> protocol" where
  "protocol_of s =
     \<lparr>p_phase = session_phase s, p_host = host_view (host_calls s),
      p_host_spent = bt_dom (retired_host_calls s), p_next_call = next_host_call s,
      p_worker = bt_dom (worker_calls s), p_worker_spent = bt_dom (retired_worker_calls s),
      p_live = bt_dom (handles s), p_next_handle = next_handle s,
      p_bounded = (retired_operation_budget (config s) \<noteq> None),
      p_out = outbox s, p_facts = events s\<rparr>"

lemma host_view_insert: "host_view (bt_insert k c m) =
    (host_view m)(k \<mapsto> (expected_seq c, hc_stream_muted c))"
  by (rule ext) (simp add: host_view_def bt_get_insert)

lemma host_view_remove: "host_view (bt_remove k m) = (host_view m)(k := None)"
  by (rule ext) (simp add: host_view_def bt_get_remove)

lemma host_view_modify:
  assumes "bt_get m k = Some c"
  shows "host_view (bt_modify k f m) = (host_view m)(k \<mapsto> (expected_seq (f c), hc_stream_muted (f c)))"
  using assms by (intro ext) (simp add: host_view_def bt_get_modify)

lemma host_view_modify_same:
  assumes "\<And>c. bt_get m k = Some c \<Longrightarrow>
    expected_seq (f c) = expected_seq c \<and> hc_stream_muted (f c) = hc_stream_muted c"
  shows "host_view (bt_modify k f m) = host_view m"
proof
  fix k'
  show "host_view (bt_modify k f m) k' = host_view m k'"
    using assms by (cases "bt_get m k") (auto simp: host_view_def bt_get_modify)
qed

lemma host_view_dom: "cid \<in> bt_dom m \<Longrightarrow> host_view m cid \<noteq> None"
  by (auto dest!: bt_dom_get simp: host_view_def)

lemma protocol_of_frame [simp]:
  "protocol_of (s\<lparr>decoder := d\<rparr>) = protocol_of s"
  "protocol_of (s\<lparr>now_ms := t\<rparr>) = protocol_of s"
  "protocol_of (s\<lparr>offered_worker_handles := x\<rparr>) = protocol_of s"
  "protocol_of (s\<lparr>pending_worker_releases := y\<rparr>) = protocol_of s"
  "protocol_of (s\<lparr>retired_worker_handles := z\<rparr>) = protocol_of s"
  "protocol_of (s\<lparr>retired_handles := u\<rparr>) = protocol_of s"
  "protocol_of (s\<lparr>reclaimed_handles := v\<rparr>) = protocol_of s"
  "protocol_of (s\<lparr>live_handle_count := w\<rparr>) = protocol_of s"
  by (simp_all add: protocol_of_def)

lemma protocol_of_push [simp]:
  "protocol_of (push_out m s) = (protocol_of s)\<lparr>p_out := outbox s @ [m]\<rparr>"
  "protocol_of (push_event e s) = (protocol_of s)\<lparr>p_facts := events s @ [e]\<rparr>"
  by (simp_all add: protocol_of_def push_out_def push_event_def)

lemma protocol_of_sel [simp]:
  "p_out (protocol_of s) = outbox s" "p_facts (protocol_of s) = events s"
  "p_phase (protocol_of s) = session_phase s" "p_host (protocol_of s) = host_view (host_calls s)"
  "p_worker (protocol_of s) = bt_dom (worker_calls s)"
  "p_worker_spent (protocol_of s) = bt_dom (retired_worker_calls s)"
  "p_host_spent (protocol_of s) = bt_dom (retired_host_calls s)"
  "p_live (protocol_of s) = bt_dom (handles s)" "p_next_handle (protocol_of s) = next_handle s"
  "p_next_call (protocol_of s) = next_host_call s"
  "p_bounded (protocol_of s) \<longleftrightarrow> retired_operation_budget (config s) \<noteq> None"
  by (simp_all add: protocol_of_def)

section \<open>Each update is lawful\<close>

lemma lawful_step: "law a b \<Longrightarrow> lawful a b"
  by (rule r_into_rtranclp)

lemma lawful_emit:
  "lawful (protocol_of s) (protocol_of t) \<Longrightarrow> plain_message m \<Longrightarrow>
     lawful (protocol_of s) (protocol_of (push_out m t))"
  using law_emit [of m "protocol_of t"] by (simp add: rtranclp.rtrancl_into_rtrancl)

lemma lawful_note:
  "lawful (protocol_of s) (protocol_of t) \<Longrightarrow> plain_fact e \<Longrightarrow>
     lawful (protocol_of s) (protocol_of (push_event e t))"
  using law_note [of e "protocol_of t"] by (simp add: rtranclp.rtrancl_into_rtrancl)

lemma lawful_settle:
  assumes "cid \<in> bt_dom (host_calls s)" and "settles cid e"
  shows "lawful (protocol_of s)
           (protocol_of (push_event e
              (s\<lparr>host_calls := bt_remove cid (host_calls s),
                 retired_host_calls := bs_insert cid (retired_host_calls s)\<rparr>)))"
proof -
  have "law (protocol_of s) ((protocol_of s)\<lparr>p_host := (host_view (host_calls s))(cid := None),
      p_host_spent := insert cid (bt_dom (retired_host_calls s)), p_facts := events s @ [e]\<rparr>)"
    using law_settle [of "protocol_of s" cid e] host_view_dom [OF assms(1)] assms(2) by simp
  then show ?thesis
    by (intro lawful_step) (simp add: protocol_of_def host_view_remove push_event_def)
qed

lemma lawful_settle_locally:
  "lawful (protocol_of s) (protocol_of (settle_host_call_locally e r cid s))"
proof (cases "cid \<in> bt_dom (host_calls s)")
  case True
  from lawful_settle [OF this, of "HostCallLost cid e r"] show ?thesis
    by (simp add: settle_locally_cases True)
qed (simp add: settle_locally_cases)

lemma lawful_fold:
  assumes "\<And>x s. lawful (protocol_of s) (protocol_of (f x s))"
  shows "lawful (protocol_of s) (protocol_of (fold f xs s))"
proof (induction xs arbitrary: s)
  case (Cons x xs)
  have "lawful (protocol_of s) (protocol_of (f x s))" by (rule assms)
  moreover have "lawful (protocol_of (f x s)) (protocol_of (fold f xs (f x s)))" by (rule Cons.IH)
  ultimately show ?case by simp
qed simp

lemma lawful_drop: "lawful (protocol_of s) (protocol_of (drop_handle b h s))"
proof -
  have "protocol_of (drop_handle b h s) = (protocol_of s)\<lparr>p_live := bt_dom (handles s) - {h}\<rparr>"
    by (simp add: protocol_of_def drop_handle_handles)
  with law_drop [of "protocol_of s" h] show ?thesis by (simp add: lawful_step)
qed

lemma lawful_reclaim_loop: "lawful (protocol_of s) (protocol_of (snd (reclaim_loop hs acc s)))"
proof (induction hs acc s rule: reclaim_loop.induct)
  case (2 h hs acc s)
  have "lawful (protocol_of s) (protocol_of (drop_handle False h s))" by (rule lawful_drop)
  with 2 show ?case by (auto intro: rtranclp_trans)
qed simp

lemma lawful_reclaim: "lawful (protocol_of s) (protocol_of (reclaim_handles hs s))"
  using lawful_reclaim_loop [of s hs "[]"]
  by (cases "reclaim_loop hs [] s")
    (auto simp: reclaim_handles_def plain_fact_def simp del: protocol_of_push intro!: lawful_note)

lemma lawful_abandon:
  "lawful (protocol_of s) (protocol_of
     (s\<lparr>pending_worker_releases := [], reclaimed_handles := [], worker_calls := []\<rparr>))"
proof -
  have eq: "protocol_of (s\<lparr>pending_worker_releases := [], reclaimed_handles := [], worker_calls := []\<rparr>) =
      (protocol_of s)\<lparr>p_worker := {}\<rparr>"
    by (simp add: protocol_of_def)
  show ?thesis unfolding eq by (rule lawful_step [OF law_abandon])
qed

lemma lawful_wind_up: "lawful (protocol_of s) (protocol_of (wind_up e r s))"
  unfolding wind_up_def Let_def reclaim_all_handles_def
  by (rule rtranclp_trans [OF rtranclp_trans [OF lawful_fold lawful_reclaim] lawful_abandon])
    (rule lawful_settle_locally)

lemma lawful_phase:
  assumes "lawful (protocol_of s) (protocol_of t)" and "session_phase t \<noteq> Closed"
    and "p \<noteq> AwaitingHello"
  shows "lawful (protocol_of s) (protocol_of (t\<lparr>session_phase := p\<rparr>))"
proof -
  have "law (protocol_of t) ((protocol_of t)\<lparr>p_phase := p\<rparr>)"
    using assms(2,3) by (intro law_phase) simp_all
  moreover have "(protocol_of t)\<lparr>p_phase := p\<rparr> = protocol_of (t\<lparr>session_phase := p\<rparr>)"
    by (simp add: protocol_of_def)
  ultimately show ?thesis using assms(1) by (simp add: rtranclp.rtrancl_into_rtrancl)
qed

lemma lawful_fatal: "lawful (protocol_of s) (protocol_of (fatal k d s))"
proof (cases "session_phase s = Closed")
  case False
  let ?w = "wind_up OutcomeUnknown True s"
  have w: "lawful (protocol_of s) (protocol_of ?w)" by (rule lawful_wind_up)
  have "lawful (protocol_of s) (protocol_of
      (if session_phase ?w = Active
       then push_out (H_Goodbye \<lparr>goodbye_reason = bounded_reason k\<rparr>) ?w else ?w))" (is "lawful _ (protocol_of ?g)")
    using lawful_emit [OF w, of "H_Goodbye \<lparr>goodbye_reason = bounded_reason k\<rparr>"] w
    by (simp add: plain_message_def del: protocol_of_push)
  then have "lawful (protocol_of s) (protocol_of (?g\<lparr>session_phase := Closed\<rparr>))"
    using False by (intro lawful_phase) auto
  with False show ?thesis
    unfolding fatal_def Let_def
    by (simp add: lawful_note plain_fact_def del: protocol_of_push)
qed (simp add: fatal_def)

lemma lawful_goodbye:
  assumes "session_phase s \<noteq> Closed"
  shows "lawful (protocol_of s) (protocol_of (on_goodbye g s))"
proof -
  have "lawful (protocol_of s) (protocol_of (push_event (WorkerGoodbye (goodbye_reason g)) s))"
    by (rule lawful_note) (simp_all add: plain_fact_def)
  then have "lawful (protocol_of s)
      (protocol_of (wind_up Cancelled False (push_event (WorkerGoodbye (goodbye_reason g)) s)))"
    by (rule rtranclp_trans [OF _ lawful_wind_up])
  then show ?thesis
    unfolding on_goodbye_def Let_def by (rule lawful_phase) (simp_all add: assms)
qed

section \<open>The worker's calls\<close>

lemma lawful_answer:
  assumes "cid \<notin> bt_dom (retired_worker_calls s)"
  shows "lawful (protocol_of s)
    (protocol_of (push_out (H_Reply \<lparr>reply_call_id = cid, reply_outcome = out\<rparr>)
       (s\<lparr>worker_calls := bt_remove cid (worker_calls s),
          retired_worker_calls := bs_insert cid (retired_worker_calls s)\<rparr>)))"
proof -
  have "law (protocol_of s) ((protocol_of s)\<lparr>p_worker := bt_dom (worker_calls s) - {cid},
      p_worker_spent := insert cid (bt_dom (retired_worker_calls s)),
      p_out := outbox s @ [H_Reply \<lparr>reply_call_id = cid, reply_outcome = out\<rparr>]\<rparr>)"
    using law_answer [of "\<lparr>reply_call_id = cid, reply_outcome = out\<rparr>" cid "protocol_of s"] assms
    by simp
  then show ?thesis
    by (intro lawful_step) (simp add: protocol_of_def push_out_def)
qed

lemma lawful_answer_undelivered:
  assumes "cid \<notin> bt_dom (retired_worker_calls s)" and "cid \<notin> bt_dom (worker_calls s)"
  shows "lawful (protocol_of s)
    (protocol_of (push_out (H_Reply \<lparr>reply_call_id = cid, reply_outcome = out\<rparr>)
       (s\<lparr>retired_worker_calls := bs_insert cid (retired_worker_calls s)\<rparr>)))"
  using lawful_answer [OF assms(1), of out] assms(2) by (simp add: bt_remove_absent)

lemma lawful_refuse:
  assumes "cid \<notin> bt_dom (retired_worker_calls s)" and "cid \<notin> bt_dom (worker_calls s)"
  shows "lawful (protocol_of s) (protocol_of (refuse_worker_call cid kind s))"
  unfolding refuse_worker_call_def push_call_refusal_def
  by (rule lawful_note [OF lawful_answer_undelivered [OF assms]]) (simp add: plain_fact_def)

lemma lawful_refuse_unspent:
  assumes "budget_full s"
  shows "lawful (protocol_of s) (protocol_of (refuse_worker_call_unspent cid s))"
proof -
  have "p_bounded (protocol_of s)"
    using assms by (auto simp: budget_full_def split: option.splits)
  from lawful_step [OF law_unspent [OF this]]
  have "lawful (protocol_of s) (protocol_of (push_out (H_Reply r) s))" for r by simp
  then show ?thesis
    unfolding refuse_worker_call_unspent_def push_call_refusal_def
    by (rule lawful_note) (simp add: plain_fact_def)
qed

lemma lawful_serve:
  assumes "call_call_id c \<notin> bt_dom (retired_worker_calls s)"
    and "call_call_id c \<notin> bt_dom (worker_calls s)"
  shows "lawful (protocol_of s) (protocol_of (serve_artifact_read env c s))"
  using lawful_refuse [OF assms] lawful_answer_undelivered [OF assms]
  by (simp add: serve_artifact_read_def Let_def del: protocol_of_push split: option.splits)

lemma lawful_deliver:
  assumes "cid \<notin> bt_dom (retired_worker_calls s)" and "cid \<notin> bt_dom (worker_calls s)"
  shows "lawful (protocol_of s) (protocol_of (s\<lparr>worker_calls := bt_insert cid wc (worker_calls s)\<rparr>))"
proof -
  have "law (protocol_of s) ((protocol_of s)\<lparr>p_worker := insert cid (bt_dom (worker_calls s))\<rparr>)"
    using law_deliver [of cid "protocol_of s"] assms by simp
  then show ?thesis by (intro lawful_step) (simp add: protocol_of_def)
qed

lemma lawful_worker_call: "lawful (protocol_of s) (protocol_of (on_worker_call env c s))"
  by (auto simp: on_worker_call_def Let_def bt_contains_iff plain_fact_def simp del: protocol_of_push
      intro!: lawful_fatal lawful_refuse_unspent lawful_refuse lawful_serve lawful_note lawful_deliver)

section \<open>The host's calls and their streams\<close>

lemma lawful_late_reply: "lawful (protocol_of s) (protocol_of (on_late_reply out s))"
  by (cases out) (simp_all add: lawful_fatal)

lemma lawful_settle_by_reply:
  assumes "reply_call_id r \<in> bt_dom (host_calls s)"
  shows "lawful (protocol_of s) (protocol_of (settle_by_reply r s))"
  unfolding settle_by_reply_def by (rule lawful_settle [OF assms]) simp

lemma lawful_worker_reply: "lawful (protocol_of s) (protocol_of (on_worker_reply env r s))"
proof -
  let ?offer = "\<lambda>h. s\<lparr>offered_worker_handles := bt_insert h Artifact (offered_worker_handles s)\<rparr>"
  have "lawful (protocol_of s) (protocol_of (fatal k d (?offer h)))" for k d h
    using lawful_fatal [of "?offer h" k d] by simp
  moreover have "reply_call_id r \<in> bt_dom (host_calls s) \<Longrightarrow>
      lawful (protocol_of s) (protocol_of (settle_by_reply r (?offer h)))" for h
    using lawful_settle_by_reply [of r "?offer h"] by simp
  ultimately show ?thesis
    by (simp add: on_worker_reply_def Let_def bt_contains_iff lawful_fatal lawful_late_reply
        lawful_settle_by_reply split: outcome.split)
qed

lemma lawful_same_view:
  assumes "\<And>c. bt_get (host_calls s) cid = Some c \<Longrightarrow>
    expected_seq (f c) = expected_seq c \<and> hc_stream_muted (f c) = hc_stream_muted c"
  shows "protocol_of (modify_host_call cid f s) = protocol_of s"
  using host_view_modify_same [OF assms] by (simp add: protocol_of_def modify_host_call_def)

lemma protocol_of_modify_worker [simp]:
  "protocol_of (modify_worker_call cid f s) = protocol_of s"
  by (simp add: protocol_of_def modify_worker_call_def)

lemma lawful_stream_open: "lawful (protocol_of s) (protocol_of (on_stream_open m s))"
proof -
  let ?open = "modify_host_call (open_call_id m)
    (\<lambda>c. c\<lparr>hc_stream_open := True, hc_credit_left := open_credit m\<rparr>) s"
  have "protocol_of ?open = protocol_of s"
    by (rule lawful_same_view) (simp add: expected_seq_def)
  then have "lawful (protocol_of s) (protocol_of ?open)" by simp
  from lawful_note [OF this, of "StreamOpened (open_call_id m) (open_credit m)"] show ?thesis
    by (simp add: on_stream_open_def Let_def lawful_fatal plain_fact_def del: protocol_of_push
        split: option.split)
qed

lemma lawful_accept_item:
  assumes "bt_get (host_calls s) (data_call_id d) = Some st" and "data_seq d = expected_seq st"
  shows "lawful (protocol_of s) (protocol_of
    (let s = modify_host_call (data_call_id d) (accept_item d) s
     in if hc_stream_muted st then s
        else push_event (StreamItem (data_call_id d) (data_seq d) (data_more d) (data_class d)
               (data_dropped d) (data_payload d)) s))"
proof -
  have "host_view (host_calls s) (data_call_id d) = Some (data_seq d, hc_stream_muted st)"
    using assms by (simp add: host_view_def)
  then have "law (protocol_of s) ((protocol_of s)
      \<lparr>p_host := (host_view (host_calls s))
         (data_call_id d \<mapsto> (wrap64 (data_seq d + 1), hc_stream_muted st)),
       p_facts := (if hc_stream_muted st then events s
         else events s @ [StreamItem (data_call_id d) (data_seq d) (data_more d) (data_class d)
               (data_dropped d) (data_payload d)])\<rparr>)"
    using law_item [of "protocol_of s" "data_call_id d" "data_seq d" "hc_stream_muted st"
        "data_more d" "data_class d" "data_dropped d" "data_payload d"]
    by (cases "hc_stream_muted st") simp_all
  moreover have "host_view (bt_modify (data_call_id d) (accept_item d) (host_calls s)) =
      (host_view (host_calls s))(data_call_id d \<mapsto> (wrap64 (data_seq d + 1), hc_stream_muted st))"
    using host_view_modify [OF assms(1)] by (simp add: accept_item_def expected_seq_def)
  ultimately show ?thesis
    by (intro lawful_step)
      (simp add: protocol_of_def modify_host_call_def push_event_def Let_def split: if_splits)
qed

lemma lawful_stream_data: "lawful (protocol_of s) (protocol_of (on_stream_data env d s))"
  using lawful_accept_item [of s d]
  by (simp add: on_stream_data_def Let_def lawful_fatal del: protocol_of_push split: option.split)

lemma lawful_credit: "lawful (protocol_of s) (protocol_of (on_credit m s))"
proof -
  have "lawful (protocol_of s) (protocol_of (push_event (CreditGranted cid n)
      (modify_worker_call cid f s)))" for cid n f
    by (rule lawful_note) (simp_all add: plain_fact_def)
  then show ?thesis
    by (simp add: on_credit_def Let_def lawful_fatal del: protocol_of_push split: option.split)
qed

section \<open>Handles\<close>

lemma lawful_release: "lawful (protocol_of s) (protocol_of (on_release r s))"
proof -
  have "lawful (protocol_of s) (protocol_of (push_event (HandleReleased h k)
      (push_out (H_ReleaseAck a) (drop_handle True h s))))" for h k a
    by (intro lawful_note lawful_emit lawful_drop) (simp_all add: plain_fact_def plain_message_def)
  moreover have "lawful (protocol_of s) (protocol_of (push_out (H_ReleaseAck a)
      (s\<lparr>reclaimed_handles := x, retired_handles := y\<rparr>)))" for a x y
    by (intro lawful_emit) (simp_all add: plain_message_def)
  ultimately show ?thesis
    by (simp add: on_release_def Let_def lawful_fatal del: protocol_of_push split: option.split)
qed

lemma lawful_release_ack: "lawful (protocol_of s) (protocol_of (on_release_ack a s))"
proof -
  have "lawful (protocol_of s) (protocol_of (push_event (WorkerHandleReleased h k)
      (s\<lparr>pending_worker_releases := x, retired_worker_handles := y\<rparr>)))" for h k x y
    by (intro lawful_note) (simp_all add: plain_fact_def)
  then show ?thesis
    by (simp add: on_release_ack_def Let_def lawful_fatal del: protocol_of_push split: option.split)
qed

section \<open>Frames and bytes\<close>

lemma lawful_on_active:
  assumes "session_phase s = Active"
  shows "lawful (protocol_of s) (protocol_of (on_active env m s))"
proof -
  have "lawful (protocol_of s) (protocol_of (on_worker_cancel c s))" for c
    by (auto simp: on_worker_cancel_def plain_fact_def simp del: protocol_of_push intro!: lawful_note)
  with assms have "lawful (protocol_of s) (protocol_of (dispatch env m s))"
    by (cases m) (simp_all add: lawful_fatal lawful_worker_call lawful_worker_reply
        lawful_stream_open lawful_stream_data lawful_credit lawful_release lawful_release_ack
        lawful_goodbye)
  then show ?thesis
    by (simp add: on_active_def lawful_fatal split: sum.split)
qed

lemma lawful_phase_note:
  assumes "session_phase s \<noteq> Closed" and "plain_message m" and "plain_fact e" and "p \<noteq> AwaitingHello"
  shows "lawful (protocol_of s) (protocol_of (push_event e ((push_out m s)\<lparr>session_phase := p\<rparr>)))"
  using assms by (intro lawful_note lawful_phase lawful_emit) simp_all

lemma lawful_pre_negotiation:
  assumes "session_phase s = AwaitingHello"
  shows "lawful (protocol_of s) (protocol_of (on_pre_negotiation env m s))"
  using pre_negotiation_shape [of env m s] assms
  by (auto simp: refuse_negotiation_def accept_hello_def plain_fact_def plain_message_def
      simp del: protocol_of_push intro!: lawful_phase_note)

lemma lawful_on_frame: "lawful (protocol_of s) (protocol_of (on_frame env raw s))"
  by (simp add: on_frame_def lawful_fatal lawful_on_active lawful_pre_negotiation
      split: sum.split phase.split)

lemma lawful_feed_loop: "lawful (protocol_of s) (protocol_of (feed_loop env d s))"
proof (induction env d s rule: feed_loop.induct)
  case (1 env d s)
  obtain res d' where nf: "next_frame d = (res, d')" by fastforce
  show ?case
  proof (cases res)
    case (Inl e)
    with nf lawful_fatal [of "s\<lparr>decoder := d'\<rparr>"] show ?thesis
      by (simp add: feed_loop.simps [of env d])
  next
    case (Inr opt)
    show ?thesis
    proof (cases opt)
      case None
      with nf Inr show ?thesis by (simp add: feed_loop.simps [of env d])
    next
      case (Some frame)
      let ?s = "on_frame env frame (s\<lparr>decoder := d'\<rparr>)"
      have f: "lawful (protocol_of s) (protocol_of ?s)"
        using lawful_on_frame [of "s\<lparr>decoder := d'\<rparr>" env frame] by simp
      have "session_phase ?s \<noteq> Closed \<Longrightarrow>
          lawful (protocol_of ?s) (protocol_of (feed_loop env d' ?s))"
        using 1 nf Inr Some by simp
      with f nf Inr Some show ?thesis
        by (auto simp: feed_loop.simps [of env d] Let_def intro: rtranclp_trans)
    qed
  qed
qed

lemma lawful_tick: "lawful (protocol_of s) (protocol_of (tick now s))"
proof -
  have "lawful (protocol_of s) (protocol_of (expire_one cid s))" for cid s
    unfolding expire_one_def
    by (rule rtranclp_trans [OF lawful_emit lawful_settle_locally]) (simp_all add: plain_message_def)
  then have "lawful (protocol_of s) (protocol_of (expire_deadlines s))" for s
    unfolding expire_deadlines_def by (rule lawful_fold)
  from this [of "s\<lparr>now_ms := max (now_ms s) now\<rparr>"] show ?thesis
    by (simp add: tick_def Let_def)
qed

section \<open>The application's operations\<close>

lemma reclaim_commutes:
  "reclaim_handles hs (s\<lparr>worker_calls := w, retired_worker_calls := r\<rparr>) =
     (reclaim_handles hs s)\<lparr>worker_calls := w, retired_worker_calls := r\<rparr>"
proof -
  let ?u = "\<lambda>s :: host_session. s\<lparr>worker_calls := w, retired_worker_calls := r\<rparr>"
  have drop: "drop_handle b h (?u s) = ?u (drop_handle b h s)" for b h s
    by (simp add: drop_handle_def Let_def split: option.split)
  have "reclaim_loop hs acc (?u s) = map_prod id ?u (reclaim_loop hs acc s)" for acc
    by (induction hs acc s rule: reclaim_loop.induct) (simp_all add: drop)
  then show ?thesis
    by (cases "reclaim_loop hs [] s") (simp add: reclaim_handles_def push_event_def)
qed

lemma lawful_reply_to_worker:
  assumes "session_inv s"
  shows "lawful (protocol_of s) (protocol_of (snd (reply_to_worker env cid out s)))"
proof -
  have fresh: "bt_get (worker_calls s) cid = Some st \<Longrightarrow> cid \<notin> bt_dom (retired_worker_calls s)" for st
    using core_groups(2) [OF inv_core [OF assms]] bt_get_Some_dom [of "worker_calls s" cid st]
    unfolding call_ids_ok_def by blast
  have plain: "bt_get (worker_calls s) cid = Some st \<Longrightarrow> lawful (protocol_of s)
      (protocol_of (push_out (H_Reply \<lparr>reply_call_id = cid, reply_outcome = o'\<rparr>)
        (s\<lparr>worker_calls := bt_remove cid (worker_calls s),
           retired_worker_calls := bs_insert cid (retired_worker_calls s)\<rparr>)))" for st o'
    by (rule lawful_answer [OF fresh])
  have "bt_get (worker_calls s) cid = Some st \<Longrightarrow> lawful (protocol_of s)
      (protocol_of (push_out (H_Reply \<lparr>reply_call_id = cid, reply_outcome = o'\<rparr>)
        (reclaim_handles hs (s\<lparr>worker_calls := bt_remove cid (worker_calls s),
           retired_worker_calls := bs_insert cid (retired_worker_calls s)\<rparr>))))" for st o' hs
    using rtranclp_trans [OF lawful_reclaim lawful_answer [of cid "reclaim_handles hs s"]] fresh
    by (simp add: reclaim_commutes del: protocol_of_push)
  with plain show ?thesis
    by (simp add: reply_to_worker_def Let_def del: protocol_of_push split: option.split sum.split)
qed

lemma lawful_call_worker:
  assumes "next_host_call s + 1 < U64_MODULUS"
  shows "lawful (protocol_of s) (protocol_of (snd (call_worker env method payload deadline stream s)))"
proof -
  have "lawful (protocol_of s) (protocol_of (push_out (H_Call c)
      (s\<lparr>next_host_call := wrap64 (next_host_call s + 1),
         host_calls := bt_insert (CallId (next_host_call s)) hc (host_calls s)\<rparr>)))"
    if "call_call_id c = CallId (next_host_call s)" and "hc_highest_seq hc = None"
      and "\<not> hc_stream_muted hc" for c hc
  proof -
    have "law (protocol_of s) ((protocol_of s)
        \<lparr>p_host := (host_view (host_calls s))(CallId (next_host_call s) \<mapsto> (0, False)),
         p_next_call := next_host_call s + 1, p_out := outbox s @ [H_Call c]\<rparr>)"
      using law_call [of c "protocol_of s"] that(1) assms by simp
    then show ?thesis using that assms
      by (intro lawful_step)
        (simp add: protocol_of_def push_out_def host_view_insert expected_seq_def)
  qed
  then show ?thesis
    by (simp add: call_worker_def Let_def del: protocol_of_push)
qed

lemma lawful_cancel: "lawful (protocol_of s) (protocol_of (snd (cancel_host_call cid target s)))"
proof -
  let ?mute = "s\<lparr>host_calls := bt_modify cid (\<lambda>c. c\<lparr>hc_stream_muted := True\<rparr>) (host_calls s)\<rparr>"
  have "lawful (protocol_of s) (protocol_of ?mute)" if dom: "cid \<in> bt_dom (host_calls s)"
  proof -
    obtain c where c: "bt_get (host_calls s) cid = Some c" using bt_dom_get [OF dom] by blast
    then have "law (protocol_of s) ((protocol_of s)\<lparr>p_host := (host_view (host_calls s))
        (cid \<mapsto> (expected_seq c, True))\<rparr>)"
      using law_mute [of "protocol_of s" cid "expected_seq c"] by (simp add: host_view_def)
    then show ?thesis using host_view_modify [OF c]
      by (intro lawful_step) (simp add: protocol_of_def expected_seq_def)
  qed
  then show ?thesis
    by (simp add: cancel_host_call_def Let_def bt_contains_iff lawful_emit plain_message_def
        del: protocol_of_push)
qed

lemma lawful_emit_same:
  "protocol_of t = protocol_of s \<Longrightarrow> plain_message m \<Longrightarrow>
     lawful (protocol_of s) (protocol_of (push_out m t))"
  using lawful_emit [of s t m] by simp

lemma lawful_stream_operations:
  "lawful (protocol_of s) (protocol_of (snd (grant_credit cid n s)))"
  "lawful (protocol_of s) (protocol_of (snd (note_lossy_drops cid k s)))"
  "lawful (protocol_of s) (protocol_of (snd (open_stream cid n s)))"
  "lawful (protocol_of s) (protocol_of (snd (stream_item env cid class has_more payload s)))"
proof -
  have "protocol_of (modify_host_call cid (\<lambda>c. c\<lparr>hc_credit_left := next\<rparr>) s) = protocol_of s" for "next"
    by (rule lawful_same_view) (simp add: expected_seq_def)
  then show "lawful (protocol_of s) (protocol_of (snd (grant_credit cid n s)))"
    by (simp add: grant_credit_def lawful_emit_same plain_message_def del: protocol_of_push
        split: option.split)
  show "lawful (protocol_of s) (protocol_of (snd (note_lossy_drops cid k s)))"
    by (simp add: note_lossy_drops_def Let_def split: option.split)
  show "lawful (protocol_of s) (protocol_of (snd (open_stream cid n s)))"
    by (simp add: open_stream_def lawful_emit_same plain_message_def del: protocol_of_push
        split: option.split)
  show "lawful (protocol_of s) (protocol_of (snd (stream_item env cid class has_more payload s)))"
    by (simp add: stream_item_def lawful_emit_same plain_message_def del: protocol_of_push
        split: option.split)
qed

lemma lawful_insert_handle:
  assumes "insert_handle kind artifact s = (Inr h, t)" and "next_handle s + 1 < U64_MODULUS"
  shows "lawful (protocol_of s) (protocol_of (note_minted cid h t))"
proof -
  have "law (protocol_of s) ((protocol_of s)
      \<lparr>p_live := insert (HandleId (next_handle s)) (bt_dom (handles s)),
       p_next_handle := next_handle s + 1\<rparr>)"
    using law_mint [of "protocol_of s"] assms(2) by simp
  moreover have "t = s\<lparr>next_handle := next_handle s + 1,
      handles := bt_insert (HandleId (next_handle s)) \<lparr>lh_kind = kind, lh_artifact = artifact\<rparr> (handles s),
      live_handle_count := wrap32 (live_handle_count s + 1)\<rparr>"
    using assms by (auto simp: insert_handle_def next_handle_id_def split: if_splits)
  then have "protocol_of (note_minted cid h t) = (protocol_of s)
      \<lparr>p_live := insert (HandleId (next_handle s)) (bt_dom (handles s)),
       p_next_handle := next_handle s + 1\<rparr>"
    by (simp add: note_minted_def protocol_of_def)
  ultimately show ?thesis by (simp add: lawful_step)
qed

lemma lawful_minting:
  assumes "next_handle s + 1 < U64_MODULUS"
  shows "lawful (protocol_of s) (protocol_of (snd (mint_capability_handle cid s)))"
    and "lawful (protocol_of s) (protocol_of (snd (offer_artifact env cid bytes media s)))"
  using lawful_insert_handle [OF _ assms]
  by (auto simp: mint_capability_handle_def offer_artifact_def Let_def dest!: insert_handle_error
      split: prod.split sum.split)

lemma lawful_release_worker_handle:
  "lawful (protocol_of s) (protocol_of (snd (release_worker_handle h kind s)))"
  by (simp add: release_worker_handle_def lawful_emit_same plain_message_def del: protocol_of_push
      split: option.split)

section \<open>The refinement\<close>

fun is_drain :: "session_input \<Rightarrow> bool" where
  "is_drain In_drain_outbox = True"
| "is_drain In_drain_events = True"
| "is_drain _ = False"

lemma lawful_session_step:
  assumes "session_inv s" and "id_counter s + 1 < U64_MODULUS" and "\<not> is_drain i"
  shows "lawful (protocol_of s) (protocol_of (session_step env i s))"
proof (cases i)
  case (In_feed bytes)
  then show ?thesis by (simp add: feed_def lawful_feed_loop)
next
  case In_end_of_input
  then show ?thesis by (simp add: end_of_input_def lawful_fatal)
qed (use assms counter_guards [OF assms(1,2)] in \<open>simp_all add: lawful_tick lawful_reply_to_worker
    lawful_call_worker lawful_cancel lawful_stream_operations lawful_minting
    lawful_release_worker_handle\<close>)

end
