(* ===== verification/Session_Ledger.thy ===== *)
theory Session_Ledger
  imports Session_Protocol
begin

text \<open>
  What the outside world sees of a session: every frame it ever queued and every fact it ever
  reported, across the drains of the two queues. The ledger facts (each call settles once, each
  worker call is answered once, stream items arrive in order) are invariants of the abstract
  \<open>law\<close> and reach the session through the refinement of \<open>Session_Protocol\<close>.
\<close>

section \<open>The whole history of a run\<close>

fun observe :: "wire_env \<Rightarrow> session_input \<Rightarrow> host_message list \<times> session_event list \<times> host_session
    \<Rightarrow> host_message list \<times> session_event list \<times> host_session" where
  "observe env i (sent, told, s) =
     ((if i = In_drain_outbox then sent @ outbox s else sent),
      (if i = In_drain_events then told @ events s else told),
      session_step env i s)"

definition history :: "wire_env \<Rightarrow> session_config \<Rightarrow> session_input list \<Rightarrow>
    host_message list \<times> session_event list \<times> host_session" where
  "history env cfg inputs = fold (observe env) inputs ([], [], new_session cfg)"

definition frames_sent :: "wire_env \<Rightarrow> session_config \<Rightarrow> session_input list \<Rightarrow> host_message list" where
  "frames_sent env cfg inputs = (case history env cfg inputs of (sent, _, s) \<Rightarrow> sent @ outbox s)"

definition facts_told :: "wire_env \<Rightarrow> session_config \<Rightarrow> session_input list \<Rightarrow> session_event list" where
  "facts_told env cfg inputs = (case history env cfg inputs of (_, told, s) \<Rightarrow> told @ events s)"

definition with_past :: "host_message list \<Rightarrow> session_event list \<Rightarrow> protocol \<Rightarrow> protocol" where
  "with_past ms es a = a\<lparr>p_out := ms @ p_out a, p_facts := es @ p_facts a\<rparr>"

lemma with_past_Nil [simp]: "with_past [] [] a = a"
  by (cases a) (simp add: with_past_def)

fun ledger :: "host_message list \<times> session_event list \<times> host_session \<Rightarrow> protocol" where
  "ledger (sent, told, s) = with_past sent told (protocol_of s)"

lemma history_state: "snd (snd (fold (observe env) inputs (ms, es, s))) = fold (session_step env) inputs s"
  by (induction inputs arbitrary: ms es s) simp_all

lemma law_with_past: "law a b \<Longrightarrow> law (with_past ms es a) (with_past ms es b)"
proof (induction rule: law.induct)
  case (law_emit m a)
  from law.law_emit [OF this, of "with_past ms es a"] show ?case by (cases a) (simp add: with_past_def)
next
  case (law_note e a)
  from law.law_note [OF this, of "with_past ms es a"] show ?case by (cases a) (simp add: with_past_def)
next
  case (law_call c a)
  with law.law_call [of c "with_past ms es a"] show ?case by (cases a) (simp add: with_past_def)
next
  case (law_settle a cid e)
  with law.law_settle [of "with_past ms es a" cid e] show ?case by (cases a) (simp add: with_past_def)
next
  case (law_item a cid q muted has_more cls dropped payload)
  with law.law_item [of "with_past ms es a" cid q muted has_more cls dropped payload] show ?case
    by (cases a, cases muted) (simp_all add: with_past_def)
next
  case (law_mute a cid q muted)
  with law.law_mute [of "with_past ms es a" cid q muted] show ?case by (cases a) (simp add: with_past_def)
next
  case (law_deliver cid a)
  with law.law_deliver [of cid "with_past ms es a"] show ?case by (cases a) (simp add: with_past_def)
next
  case (law_answer r cid a)
  with law.law_answer [of r cid "with_past ms es a"] show ?case by (cases a) (simp add: with_past_def)
next
  case (law_unspent a r)
  with law.law_unspent [of "with_past ms es a" r] show ?case by (cases a) (simp add: with_past_def)
next
  case (law_mint a)
  with law.law_mint [of "with_past ms es a"] show ?case by (cases a) (simp add: with_past_def)
next
  case (law_drop a h)
  from law.law_drop [of "with_past ms es a" h] show ?case by (cases a) (simp add: with_past_def)
next
  case (law_abandon a)
  from law.law_abandon [of "with_past ms es a"] show ?case by (cases a) (simp add: with_past_def)
next
  case (law_phase a p)
  with law.law_phase [of "with_past ms es a" p] show ?case by (cases a) (simp add: with_past_def)
qed

lemma lawful_with_past: "lawful a b \<Longrightarrow> lawful (with_past ms es a) (with_past ms es b)"
  by (induction rule: rtranclp_induct) (auto intro: rtranclp.rtrancl_into_rtrancl law_with_past)

lemma lawful_observe:
  assumes "session_inv s" and "id_counter s + 1 < U64_MODULUS"
  shows "lawful (ledger (ms, es, s)) (ledger (observe env i (ms, es, s)))"
proof (cases "is_drain i")
  case True
  then show ?thesis
    by (cases i) (simp_all add: drain_outbox_def drain_events_def with_past_def protocol_of_def)
next
  case False
  then have "i \<noteq> In_drain_outbox" "i \<noteq> In_drain_events" by auto
  with lawful_with_past [OF lawful_session_step [OF assms False]] show ?thesis by simp
qed

lemma lawful_history:
  assumes "session_inv s" and "id_counter s + length inputs < U64_MODULUS"
  shows "lawful (ledger (ms, es, s)) (ledger (fold (observe env) inputs (ms, es, s)))"
  using assms
proof (induction inputs arbitrary: ms es s)
  case (Cons i inputs)
  let ?t = "session_step env i s"
  have guard: "id_counter s + 1 < U64_MODULUS" using Cons.prems(2) by simp
  have "session_inv ?t" using Cons.prems(1) guard by (rule session_step_inv)
  moreover have "id_counter ?t + length inputs < U64_MODULUS"
    using session_step_counter [OF Cons.prems(1), of env i] Cons.prems(2) by simp
  ultimately have "lawful (ledger (observe env i (ms, es, s)))
      (ledger (fold (observe env) inputs (observe env i (ms, es, s))))"
    using Cons.IH [of ?t] by simp
  with lawful_observe [OF Cons.prems(1) guard] show ?case
    by (metis fold_Cons comp_apply rtranclp_trans)
qed simp

section \<open>The ledger of the law\<close>

definition calls_made :: "call_id \<Rightarrow> host_message list \<Rightarrow> nat" where
  "calls_made cid ms = length (filter (is_call_frame cid) ms)"

definition answers :: "call_id \<Rightarrow> host_message list \<Rightarrow> nat" where
  "answers cid ms = length (filter (is_reply_to cid) ms)"

definition settlements :: "call_id \<Rightarrow> session_event list \<Rightarrow> nat" where
  "settlements cid es = length (filter (settles cid) es)"

definition items_of :: "call_id \<Rightarrow> session_event list \<Rightarrow> u64 list" where
  "items_of cid es = concat (map (item_seq cid) es)"

lemma tally_Nil [simp]:
  "calls_made cid [] = 0" "answers cid [] = 0" "settlements cid [] = 0" "items_of cid [] = []"
  by (simp_all add: calls_made_def answers_def settlements_def items_of_def)

lemma tally_append [simp]:
  "calls_made cid (ms @ ns) = calls_made cid ms + calls_made cid ns"
  "answers cid (ms @ ns) = answers cid ms + answers cid ns"
  "settlements cid (es @ fs) = settlements cid es + settlements cid fs"
  "items_of cid (es @ fs) = items_of cid es @ items_of cid fs"
  by (simp_all add: calls_made_def answers_def settlements_def items_of_def)

lemma tally_Cons [simp]:
  "calls_made cid (m # ms) = (if is_call_frame cid m then 1 else 0) + calls_made cid ms"
  "answers cid (m # ms) = (if is_reply_to cid m then 1 else 0) + answers cid ms"
  "settlements cid (e # es) = (if settles cid e then 1 else 0) + settlements cid es"
  "items_of cid (e # es) = item_seq cid e @ items_of cid es"
  by (simp_all add: calls_made_def answers_def settlements_def items_of_def)

lemma plain_tally [simp]:
  "plain_message m \<Longrightarrow> \<not> is_call_frame cid m" "plain_message m \<Longrightarrow> \<not> is_reply_to cid m"
  "plain_fact e \<Longrightarrow> \<not> settles cid e" "plain_fact e \<Longrightarrow> item_seq cid e = []"
  by (simp_all add: plain_message_def plain_fact_def)

lemma settles_no_item: "settles cid e \<Longrightarrow> item_seq k e = []"
  by (cases e) simp_all

lemma settles_unique: "settles cid e \<Longrightarrow> settles k e \<longleftrightarrow> k = cid"
  by (cases e) auto

definition issued :: "u64 \<Rightarrow> call_id \<Rightarrow> bool" where
  "issued counter cid \<longleftrightarrow> 1 \<le> call_no cid \<and> call_no cid < counter"

lemma issued_next: "1 \<le> n \<Longrightarrow> issued (Suc n) cid \<longleftrightarrow> issued n cid \<or> cid = CallId n"
  by (cases cid) (auto simp: issued_def)

lemma not_issued_next [simp]: "\<not> issued n (CallId n)"
  by (simp add: issued_def)

text \<open>Host calls: issued once, then in flight until the one settlement.\<close>

definition host_ledger :: "protocol \<Rightarrow> bool" where
  "host_ledger a \<longleftrightarrow>
     1 \<le> p_next_call a \<and>
     (\<forall>cid. issued (p_next_call a) cid \<longleftrightarrow> p_host a cid \<noteq> None \<or> cid \<in> p_host_spent a) \<and>
     (\<forall>cid. p_host a cid \<noteq> None \<longrightarrow> cid \<notin> p_host_spent a) \<and>
     (\<forall>cid. calls_made cid (p_out a) = (if issued (p_next_call a) cid then 1 else 0)) \<and>
     (\<forall>cid. settlements cid (p_facts a) = (if cid \<in> p_host_spent a then 1 else 0))"

text \<open>
  Stream items of one host call: consecutive numbers from zero, none before the call is issued, and
  none once it has settled; an unmuted stream has reported every item it accepted.
\<close>

definition stream_ledger :: "protocol \<Rightarrow> bool" where
  "stream_ledger a \<longleftrightarrow>
     (\<forall>cid. \<exists>n. items_of cid (p_facts a) = map wrap64 [0..<n] \<and>
        (\<not> issued (p_next_call a) cid \<longrightarrow> n = 0) \<and>
        (\<forall>q. p_host a cid = Some (q, False) \<longrightarrow> q = wrap64 n)) \<and>
     (\<forall>cid before e after. p_facts a = before @ e # after \<longrightarrow> settles cid e \<longrightarrow> items_of cid after = [])"

text \<open>Worker calls: delivered while fresh, answered once.\<close>

definition worker_ledger :: "protocol \<Rightarrow> bool" where
  "worker_ledger a \<longleftrightarrow>
     p_worker a \<inter> p_worker_spent a = {} \<and>
     (\<not> p_bounded a \<longrightarrow>
        (\<forall>cid. answers cid (p_out a) = (if cid \<in> p_worker_spent a then 1 else 0)))"

lemma host_ledger_law:
  assumes "law a b" and "host_ledger a"
  shows "host_ledger b"
  using assms
proof (induction rule: law.induct)
  case (law_call c a)
  let ?n = "CallId (p_next_call a)"
  have call: "is_call_frame cid (H_Call c) \<longleftrightarrow> cid = ?n" for cid
    using law_call(1) by auto
  have first: "1 \<le> p_next_call a" and "p_host a ?n = None" and "?n \<notin> p_host_spent a"
    using law_call(3) not_issued_next [of "p_next_call a"] unfolding host_ledger_def by blast+
  with law_call(3) show ?case
    unfolding host_ledger_def by (auto simp: call issued_next [OF first] simp del: is_call_frame.simps)
next
  case (law_settle a cid e)
  have "cid \<notin> p_host_spent a" using law_settle unfolding host_ledger_def by blast
  with law_settle show ?case
    unfolding host_ledger_def by (auto simp: settles_unique)
next
  case (law_item a cid q muted has_more cls dropped payload)
  then show ?case
    unfolding host_ledger_def by (cases muted) auto
next
  case (law_mute a cid q muted)
  then show ?case
    unfolding host_ledger_def by auto
qed (simp_all add: host_ledger_def)

lemma worker_ledger_law:
  assumes "law a b" and "worker_ledger a"
  shows "worker_ledger b"
  using assms by (induction rule: law.induct) (auto simp: worker_ledger_def)

lemma no_settlement_no_split:
  "settlements cid es = 0 \<Longrightarrow> es = before @ e # after \<Longrightarrow> \<not> settles cid e"
  by (simp split: if_splits)

lemma quiet_extends:
  assumes "\<And>before e after. es = before @ e # after \<Longrightarrow> settles cid e \<Longrightarrow> items_of cid after = []"
    and "item_seq cid f = [] \<or> settlements cid es = 0"
    and "es @ [f] = before @ e # after" and "settles cid e"
  shows "items_of cid after = []"
proof (cases after rule: rev_cases)
  case (snoc after' g)
  with assms(3) have "es = before @ e # after'" and "g = f" by simp_all
  with assms(1) [OF _ assms(4)] assms(2,4) snoc show ?thesis
    by (auto dest: no_settlement_no_split)
qed simp

lemma stream_ledger_quiet:
  assumes "stream_ledger a" and "\<And>cid. item_seq cid e = []"
  shows "stream_ledger (a\<lparr>p_facts := p_facts a @ [e]\<rparr>)"
proof -
  have "items_of cid after = []"
    if "p_facts a @ [e] = before @ f # after" "settles cid f" for cid before f after
    using quiet_extends [OF _ _ that] assms unfolding stream_ledger_def by blast
  with assms show ?thesis unfolding stream_ledger_def by simp
qed

lemma stream_ledger_fewer:
  assumes "stream_ledger a" and "\<And>cid q. h cid = Some (q, False) \<Longrightarrow> p_host a cid = Some (q, False)"
  shows "stream_ledger (a\<lparr>p_host := h\<rparr>)"
proof -
  have "\<exists>n. items_of cid (p_facts a) = map wrap64 [0..<n] \<and> (\<not> issued (p_next_call a) cid \<longrightarrow> n = 0) \<and>
      (\<forall>q. h cid = Some (q, False) \<longrightarrow> q = wrap64 n)" for cid
    using assms unfolding stream_ledger_def by metis
  with assms(1) show ?thesis unfolding stream_ledger_def by simp
qed

lemma stream_ledger_spent: "stream_ledger (a\<lparr>p_host_spent := hs\<rparr>) = stream_ledger a"
  by (simp add: stream_ledger_def)

lemma stream_ledger_item:
  assumes "stream_ledger a" and "host_ledger a" and "p_host a cid = Some (q, False)"
    and "item_seq cid e = [q]" and "\<And>k. k \<noteq> cid \<Longrightarrow> item_seq k e = []" and "\<not> settles cid e"
  shows "stream_ledger (a\<lparr>p_host := (p_host a)(cid \<mapsto> (wrap64 (q + 1), False)),
                          p_facts := p_facts a @ [e]\<rparr>)"
proof -
  have iss: "issued (p_next_call a) cid" and "cid \<notin> p_host_spent a"
    using assms(2,3) unfolding host_ledger_def by blast+
  then have none: "settlements cid (p_facts a) = 0"
    using assms(2) unfolding host_ledger_def by simp
  have items: "\<exists>n. items_of k (p_facts a @ [e]) = map wrap64 [0..<n] \<and> (\<not> issued (p_next_call a) k \<longrightarrow> n = 0) \<and>
      (\<forall>q'. ((p_host a)(cid \<mapsto> (wrap64 (q + 1), False))) k = Some (q', False) \<longrightarrow> q' = wrap64 n)" for k
  proof (cases "k = cid")
    case True
    obtain n where n: "items_of cid (p_facts a) = map wrap64 [0..<n]" "q = wrap64 n"
      using assms(1,3) unfolding stream_ledger_def by blast
    have "wrap64 (q + 1) = wrap64 (Suc n)"
      using n(2) by (simp add: wrap64_def mod_Suc_eq)
    with n iss True assms(4) show ?thesis by (intro exI [of _ "Suc n"]) simp
  next
    case False
    with assms(1,5) show ?thesis unfolding stream_ledger_def by auto
  qed
  have "items_of k after = []"
    if "p_facts a @ [e] = before @ f # after" "settles k f" for k before f after
    using quiet_extends [of "p_facts a" k e before f after] assms(1,5) none that
    unfolding stream_ledger_def by (cases "k = cid") auto
  with items show ?thesis unfolding stream_ledger_def by simp
qed

lemma stream_ledger_law:
  assumes "law a b" and "host_ledger a" and "stream_ledger a"
  shows "stream_ledger b"
  using assms
proof (induction rule: law.induct)
  case (law_note e a)
  then show ?case by (intro stream_ledger_quiet) simp_all
next
  case (law_call c a)
  let ?n = "CallId (p_next_call a)"
  have first: "1 \<le> p_next_call a" using law_call(3) unfolding host_ledger_def by blast
  have "\<exists>n. items_of k (p_facts a) = map wrap64 [0..<n] \<and> (\<not> issued (Suc (p_next_call a)) k \<longrightarrow> n = 0) \<and>
      (\<forall>q. ((p_host a)(?n \<mapsto> (0, False))) k = Some (q, False) \<longrightarrow> q = wrap64 n)" for k
  proof -
    obtain n where n: "items_of k (p_facts a) = map wrap64 [0..<n]"
        "\<not> issued (p_next_call a) k \<longrightarrow> n = 0"
        "\<forall>q. p_host a k = Some (q, False) \<longrightarrow> q = wrap64 n"
      using law_call(4) unfolding stream_ledger_def by blast
    moreover have "k = ?n \<Longrightarrow> n = 0" using n(2) by simp
    ultimately show ?thesis
      by (intro exI [of _ n]) (simp add: issued_next [OF first] wrap64_def)
  qed
  with law_call(4) show ?case unfolding stream_ledger_def by simp
next
  case (law_settle a cid e)
  let ?h = "a\<lparr>p_host := (p_host a)(cid := None), p_host_spent := insert cid (p_host_spent a)\<rparr>"
  have "stream_ledger (a\<lparr>p_host := (p_host a)(cid := None)\<rparr>)"
    using law_settle(4) by (rule stream_ledger_fewer) (simp split: if_splits)
  then have "stream_ledger ?h" by (simp only: stream_ledger_spent)
  from stream_ledger_quiet [OF this settles_no_item [OF law_settle(2)]] show ?case by simp
next
  case (law_item a cid q muted has_more cls dropped payload)
  show ?case
  proof (cases muted)
    case True
    have "stream_ledger (a\<lparr>p_host := (p_host a)(cid \<mapsto> (wrap64 (q + 1), True))\<rparr>)"
      using law_item(3) by (rule stream_ledger_fewer) (simp split: if_splits)
    with True show ?thesis by simp
  next
    case False
    with stream_ledger_item [OF law_item(3,2)] law_item(1) show ?thesis by simp
  qed
next
  case (law_mute a cid q muted)
  from law_mute(3) show ?case by (rule stream_ledger_fewer) (simp split: if_splits)
qed (simp_all add: stream_ledger_def)

lemma ledger_of_law:
  assumes "lawful a b" and "host_ledger a" and "stream_ledger a" and "worker_ledger a"
  shows "host_ledger b \<and> stream_ledger b \<and> worker_ledger b"
  using assms
  by (induction rule: rtranclp_induct)
    (auto intro: host_ledger_law stream_ledger_law worker_ledger_law)

section \<open>The ledger of a run\<close>

lemma ledger_of_run:
  assumes "config_ok cfg" and "length inputs + 2 < U64_MODULUS"
  shows "host_ledger (ledger (history env cfg inputs))"
    and "stream_ledger (ledger (history env cfg inputs))"
    and "worker_ledger (ledger (history env cfg inputs))"
proof -
  let ?a = "ledger ([], [], new_session cfg)"
  have "lawful ?a (ledger (history env cfg inputs))"
    unfolding history_def using assms new_session_inv
    by (intro lawful_history) (simp_all add: id_counter_def new_session_def)
  moreover have "host_ledger ?a" "stream_ledger ?a" "worker_ledger ?a"
    by (auto simp: host_ledger_def stream_ledger_def worker_ledger_def issued_def with_past_def
        protocol_of_def new_session_def host_view_def)
  ultimately show "host_ledger (ledger (history env cfg inputs))"
    and "stream_ledger (ledger (history env cfg inputs))"
    and "worker_ledger (ledger (history env cfg inputs))"
    using ledger_of_law by blast+
qed

lemma ledger_history:
  "ledger (history env cfg inputs) =
     (protocol_of (run env cfg inputs))\<lparr>p_out := frames_sent env cfg inputs,
                                        p_facts := facts_told env cfg inputs\<rparr>"
  using history_state [of env inputs "[]" "[]" "new_session cfg"]
  by (cases "history env cfg inputs")
    (simp add: with_past_def frames_sent_def facts_told_def run_def history_def)

lemma host_call_ledger:
  assumes "config_ok cfg" and "length inputs + 2 < U64_MODULUS" and "s = run env cfg inputs"
  shows "calls_made cid (frames_sent env cfg inputs) = (if issued (next_host_call s) cid then 1 else 0)"
    and "settlements cid (facts_told env cfg inputs) = (if cid \<in> bt_dom (retired_host_calls s) then 1 else 0)"
    and "issued (next_host_call s) cid \<longleftrightarrow>
           cid \<in> bt_dom (host_calls s) \<or> cid \<in> bt_dom (retired_host_calls s)"
    and "cid \<in> bt_dom (host_calls s) \<Longrightarrow> cid \<notin> bt_dom (retired_host_calls s)"
proof -
  let ?a = "(protocol_of s)\<lparr>p_out := frames_sent env cfg inputs, p_facts := facts_told env cfg inputs\<rparr>"
  have h: "host_ledger ?a"
    using ledger_of_run(1) [OF assms(1,2), of env] unfolding ledger_history assms(3) .
  have v: "host_view (host_calls s) cid \<noteq> None \<longleftrightarrow> cid \<in> bt_dom (host_calls s)"
    unfolding host_view_def by (simp add: bt_get_None_iff)
  have sel: "p_out ?a = frames_sent env cfg inputs" "p_facts ?a = facts_told env cfg inputs"
    "p_next_call ?a = next_host_call s" "p_host ?a = host_view (host_calls s)"
    "p_host_spent ?a = bt_dom (retired_host_calls s)"
    by simp_all
  note h' = h [unfolded host_ledger_def sel]
  show "calls_made cid (frames_sent env cfg inputs) = (if issued (next_host_call s) cid then 1 else 0)"
    and "settlements cid (facts_told env cfg inputs) = (if cid \<in> bt_dom (retired_host_calls s) then 1 else 0)"
    using h' by blast+
  show "issued (next_host_call s) cid \<longleftrightarrow>
      cid \<in> bt_dom (host_calls s) \<or> cid \<in> bt_dom (retired_host_calls s)"
    and "cid \<in> bt_dom (host_calls s) \<Longrightarrow> cid \<notin> bt_dom (retired_host_calls s)"
    using h' v by blast+
qed

end
