(* ===== verification/Session_Feed.thy ===== *)
theory Session_Feed
  imports Session_Protocol
begin

text \<open>
  The transport may cut the byte stream anywhere. No handler reads the frame decoder, so feeding two
  chunks is feeding their concatenation: the sessions are equal while open, and equal up to the
  bytes a closed session no longer reads.
\<close>

named_theorems decoder_blind \<open>operations that neither read nor write the frame decoder\<close>

abbreviation put_decoder :: "frame_decoder \<Rightarrow> host_session \<Rightarrow> host_session" where
  "put_decoder d s \<equiv> s\<lparr>decoder := d\<rparr>"

lemma push_blind [decoder_blind]:
  "push_out m (put_decoder d s) = put_decoder d (push_out m s)"
  "push_event e (put_decoder d s) = put_decoder d (push_event e s)"
  by (simp_all add: push_out_def push_event_def)

lemma settle_blind [decoder_blind]:
  "settle_host_call_locally e r cid (put_decoder d s) = put_decoder d (settle_host_call_locally e r cid s)"
  by (simp add: settle_host_call_locally_def push_event_def)

lemma fold_blind:
  assumes "\<And>x s. f x (put_decoder d s) = put_decoder d (f x s)"
  shows "fold f xs (put_decoder d s) = put_decoder d (fold f xs s)"
  by (induction xs arbitrary: s) (simp_all add: assms)

lemma drop_blind [decoder_blind]: "drop_handle b h (put_decoder d s) = put_decoder d (drop_handle b h s)"
  by (simp add: drop_handle_def Let_def split: option.split)

lemma reclaim_loop_blind:
  "reclaim_loop hs acc (put_decoder d s) = map_prod id (put_decoder d) (reclaim_loop hs acc s)"
  by (induction hs acc s rule: reclaim_loop.induct) (simp_all add: drop_blind)

lemma reclaim_blind [decoder_blind]:
  "reclaim_handles hs (put_decoder d s) = put_decoder d (reclaim_handles hs s)"
  by (cases "reclaim_loop hs [] s") (simp add: reclaim_handles_def reclaim_loop_blind push_blind)

lemma wind_up_blind [decoder_blind]: "wind_up e r (put_decoder d s) = put_decoder d (wind_up e r s)"
  by (simp add: wind_up_def Let_def reclaim_all_handles_def fold_blind decoder_blind)

lemma fatal_blind [decoder_blind]: "fatal k t (put_decoder d s) = put_decoder d (fatal k t s)"
proof -
  have ph: "(put_decoder d x)\<lparr>session_phase := Closed\<rparr> = put_decoder d (x\<lparr>session_phase := Closed\<rparr>)" for x
    by simp
  show ?thesis
    unfolding fatal_def Let_def wind_up_blind
    by (simp add: push_blind del: push_out_frame push_event_frame)
      (simp add: push_out_def push_event_def)
qed

lemma goodbye_blind [decoder_blind]: "on_goodbye g (put_decoder d s) = put_decoder d (on_goodbye g s)"
  unfolding on_goodbye_def Let_def push_blind wind_up_blind by simp

lemma refusal_blind [decoder_blind]:
  "push_call_refusal cid k b (put_decoder d s) = put_decoder d (push_call_refusal cid k b s)"
  "refuse_worker_call cid k (put_decoder d s) = put_decoder d (refuse_worker_call cid k s)"
  "refuse_worker_call_unspent cid (put_decoder d s) = put_decoder d (refuse_worker_call_unspent cid s)"
  by (simp_all add: push_call_refusal_def refuse_worker_call_def refuse_worker_call_unspent_def
      push_out_def push_event_def)

lemma budget_blind [decoder_blind]:
  "budget_full (put_decoder d s) = budget_full s" "max_credit (put_decoder d s) = max_credit s"
  by (simp_all add: budget_full_def retired_operations_def max_credit_def cong: option.case_cong)

lemma modify_blind [decoder_blind]:
  "modify_host_call cid f (put_decoder d s) = put_decoder d (modify_host_call cid f s)"
  "modify_worker_call cid g (put_decoder d s) = put_decoder d (modify_worker_call cid g s)"
  by (simp_all add: modify_host_call_def modify_worker_call_def)

lemma serve_blind [decoder_blind]:
  "serve_artifact_read env c (put_decoder d s) = put_decoder d (serve_artifact_read env c s)"
  by (simp add: serve_artifact_read_def Let_def refusal_blind push_out_def split: option.split)

lemma worker_call_blind [decoder_blind]:
  "on_worker_call env c (put_decoder d s) = put_decoder d (on_worker_call env c s)"
proof -
  have "push_event e ((put_decoder d s)\<lparr>worker_calls := w\<rparr>) =
      put_decoder d (push_event e (s\<lparr>worker_calls := w\<rparr>))" for e w
    by (simp add: push_event_def)
  then show ?thesis
    by (simp add: on_worker_call_def Let_def fatal_blind refusal_blind budget_blind serve_blind)
qed

lemma worker_reply_blind [decoder_blind]:
  "on_worker_reply env r (put_decoder d s) = put_decoder d (on_worker_reply env r s)"
proof -
  have offer: "(put_decoder d s)\<lparr>offered_worker_handles := x\<rparr> =
      put_decoder d (s\<lparr>offered_worker_handles := x\<rparr>)" for x
    by simp
  have settle: "settle_by_reply r (put_decoder d t) = put_decoder d (settle_by_reply r t)" for t
    by (simp add: settle_by_reply_def push_event_def)
  have "on_late_reply out (put_decoder d s) = put_decoder d (on_late_reply out s)" for out
    by (cases out) (simp_all add: fatal_blind budget_blind)
  then show ?thesis
    unfolding on_worker_reply_def Let_def offer
    by (simp add: fatal_blind settle split: outcome.split)
qed

lemma stream_blind [decoder_blind]:
  "on_stream_open m (put_decoder d s) = put_decoder d (on_stream_open m s)"
  "on_stream_data env x (put_decoder d s) = put_decoder d (on_stream_data env x s)"
  "on_credit c (put_decoder d s) = put_decoder d (on_credit c s)"
proof -
  show "on_credit c (put_decoder d s) = put_decoder d (on_credit c s)"
    by (simp add: on_credit_def Let_def u32_checked_add_def decoder_blind
        del: u32_checked_add_Some split: option.split)
qed (simp_all add: on_stream_open_def on_stream_data_def Let_def decoder_blind split: option.split)

lemma release_blind [decoder_blind]:
  "on_release r (put_decoder d s) = put_decoder d (on_release r s)"
  "on_release_ack a (put_decoder d s) = put_decoder d (on_release_ack a s)"
proof -
  show "on_release r (put_decoder d s) = put_decoder d (on_release r s)"
    by (simp add: on_release_def Let_def fatal_blind drop_blind push_blind push_out_def
        split: option.split)
  show "on_release_ack a (put_decoder d s) = put_decoder d (on_release_ack a s)"
    by (simp add: on_release_ack_def Let_def fatal_blind push_event_def split: option.split)
qed

lemma dispatch_blind [decoder_blind]:
  "dispatch env m (put_decoder d s) = put_decoder d (dispatch env m s)"
  by (cases m) (simp_all add: decoder_blind on_worker_cancel_def)

lemma negotiation_blind [decoder_blind]:
  "on_pre_negotiation env m (put_decoder d s) = put_decoder d (on_pre_negotiation env m s)"
proof -
  have "refuse_negotiation k t u (put_decoder d s) = put_decoder d (refuse_negotiation k t u s)" for k t u
    by (simp add: refuse_negotiation_def push_out_def push_event_def)
  moreover have "accept_hello h (put_decoder d s) = put_decoder d (accept_hello h s)" for h
    by (simp add: accept_hello_def push_out_def push_event_def)
  ultimately show ?thesis by (cases m) (simp_all add: Let_def)
qed

lemma on_frame_blind: "on_frame env raw (put_decoder d s) = put_decoder d (on_frame env raw s)"
  by (simp add: on_frame_def on_active_def decoder_blind split: sum.split phase.split)

section \<open>Chunks\<close>

text \<open>Equal as far as any caller can tell: a closed session never reads its decoder again.\<close>

definition same_session :: "host_session \<Rightarrow> host_session \<Rightarrow> bool" where
  "same_session s t \<longleftrightarrow>
     put_decoder new_decoder s = put_decoder new_decoder t \<and> (session_phase s \<noteq> Closed \<longrightarrow> s = t)"

lemma same_session_refl [simp]: "same_session s s"
  by (simp add: same_session_def)

lemma feed_loop_ignores_decoder: "feed_loop env d (put_decoder x s) = feed_loop env d s"
  by (simp add: feed_loop.simps split: prod.split sum.split option.split)

lemma feed_loop_more:
  "same_session (feed_loop env (decoder_feed b d) s)
     (let t = feed_loop env d s
      in if session_phase t = Closed then t else feed_loop env (decoder_feed b (decoder t)) t)"
  if "session_phase s \<noteq> Closed"
  using that
proof (induction "length (buffer d)" arbitrary: d s rule: less_induct)
  case (less d s)
  obtain r d' where nf: "next_frame d = (r, d')" by (cases "next_frame d")
  show ?case
  proof (cases r)
    case (Inl e)
    with next_frame_feed_Inl(1) [of d e d' b] nf show ?thesis
      by (simp add: feed_loop.simps [of env d] feed_loop.simps [of env "decoder_feed b d"] Let_def)
  next
    case (Inr o1)
    show ?thesis
    proof (cases o1)
      case None
      with nf Inr next_frame_Inr_None [of d d'] less.prems show ?thesis
        by (simp add: feed_loop.simps [of env d] feed_loop_ignores_decoder)
    next
      case (Some f)
      let ?t = "on_frame env f s"
      have 1: "feed_loop env d s =
          (if session_phase ?t = Closed then put_decoder d' ?t else feed_loop env d' ?t)"
        using nf Inr Some
        by (simp add: feed_loop.simps [of env d] on_frame_blind feed_loop_ignores_decoder Let_def)
      have 2: "feed_loop env (decoder_feed b d) s =
          (if session_phase ?t = Closed then put_decoder (decoder_feed b d') ?t
           else feed_loop env (decoder_feed b d') ?t)"
        using nf Inr Some next_frame_feed_Some [of d f d' b]
        by (simp add: feed_loop.simps [of env "decoder_feed b d"] on_frame_blind
            feed_loop_ignores_decoder Let_def)
      have "length (buffer d') < length (buffer d)"
        using next_frame_shrinks [of d f d'] nf Inr Some by simp
      with less.hyps [of d' ?t] show ?thesis
        by (auto simp: 1 2 same_session_def Let_def)
    qed
  qed
qed

lemma feed_append: "same_session (feed env (a @ b) s) (feed env b (feed env a s))"
proof (cases "session_phase s = Closed")
  case False
  let ?t = "feed env a s"
  have "feed env b ?t =
      (if session_phase ?t = Closed then ?t else feed_loop env (decoder_feed b (decoder ?t)) ?t)"
    by (simp add: feed_def)
  with False feed_loop_more [OF False, of env b "decoder_feed a (decoder s)"] show ?thesis
    by (simp add: feed_def Let_def)
qed (simp add: feed_def)

lemma session_phase_put_decoder: "session_phase (put_decoder d s) = session_phase s"
  by simp

lemma same_session_trans: "same_session s t \<Longrightarrow> same_session t u \<Longrightarrow> same_session s u"
  unfolding same_session_def by (metis session_phase_put_decoder)

lemma same_session_feed:
  "same_session s t \<Longrightarrow> same_session (feed env b s) (feed env b t)"
proof -
  assume st: "same_session s t"
  then have "session_phase s = session_phase t"
    unfolding same_session_def by (metis session_phase_put_decoder)
  with st show ?thesis by (cases "session_phase s = Closed") (auto simp: same_session_def feed_def)
qed

lemma feed_concat:
  "same_session (feed env (concat (c # cs)) s) (fold (feed env) (c # cs) s)"
proof (induction cs arbitrary: c s)
  case (Cons c' cs)
  have "same_session (feed env (c @ concat (c' # cs)) s) (feed env (concat (c' # cs)) (feed env c s))"
    by (rule feed_append)
  with Cons.IH [of c' "feed env c s"] show ?case by (simp add: same_session_trans)
qed simp

end
