(* ===== verification/Session_Demo.thy ===== *)
theory Session_Demo
  imports Session_Ledger Session_Feed
begin

text \<open>
  A concrete environment to run sessions in: every frame is one letter, which the parser returns as
  a JSON string and the decoder maps to a message. The runs below are the inputs at which the
  properties of a session are exercised.
\<close>

definition demo_hello :: hello where
  "demo_hello = \<lparr>protocol_versions = [1, 2], sdk_name = ''sdk'', sdk_version = ''0.1'',
                 hello_features = [''trace''], required_features = []\<rparr>"

definition demo_offer :: artifact_offer where
  "demo_offer = \<lparr>offer_handle = HandleId 7, offer_bytes = 3, offer_media_type = ''text/plain'',
                 offer_digest_blake3 = replicate 64 (CHR ''0'')\<rparr>"

definition demo_call :: "u64 \<Rightarrow> string \<Rightarrow> call" where
  "demo_call n method = \<lparr>call_call_id = CallId n, call_method = method, call_deadline_ms = None,
                         call_stream = True, call_payload = JNull\<rparr>"

definition demo_item :: "u64 \<Rightarrow> bool \<Rightarrow> stream_data" where
  "demo_item q has_more = \<lparr>data_call_id = CallId 1, data_seq = q, data_more = has_more,
                           data_class = Lossless, data_dropped = 0, data_payload = JNull\<rparr>"

definition demo_messages :: "(string \<times> worker_message) list" where
  "demo_messages =
     [(''H'', W_Hello demo_hello),
      (''C'', W_Call (demo_call 1 ''echo'')),
      (''B'', W_Call (demo_call 2 ''echo'')),
      (''A'', W_Call (demo_call 3 ARTIFACT_READ_METHOD)),
      (''R'', W_Reply \<lparr>reply_call_id = CallId 1, reply_outcome = Outcome_Ok JNull\<rparr>),
      (''P'', W_Reply \<lparr>reply_call_id = CallId 1, reply_outcome = Outcome_Spilled demo_offer\<rparr>),
      (''S'', W_StreamOpen \<lparr>open_call_id = CallId 1, open_credit = 4\<rparr>),
      (''D'', W_StreamData (demo_item 0 True)),
      (''E'', W_StreamData (demo_item 1 True)),
      (''L'', W_Release \<lparr>release_handle = HandleId 1, release_kind = Artifact\<rparr>),
      (''K'', W_ReleaseAck \<lparr>ack_handle = HandleId 7, ack_kind = Artifact\<rparr>),
      (''G'', W_Goodbye \<lparr>goodbye_reason = ''bye''\<rparr>)]"

definition demo_serde :: serde where
  "demo_serde = \<lparr>from_slice = (\<lambda>bs. RString (ascii_text bs)), location = (\<lambda>_. '' at line 1''),
                 trailing = (\<lambda>_. None)\<rparr>"

fun demo_decode :: "json \<Rightarrow> string + worker_message" where
  "demo_decode (JString s) =
     (case map_of demo_messages s of Some m \<Rightarrow> Inr m | None \<Rightarrow> Inl ''unknown message'')"
| "demo_decode _ = Inl ''unknown message''"

definition demo_env :: wire_env where
  "demo_env =
     \<lparr>serde_json = demo_serde, to_vec_len = (\<lambda>_. Some 4), decode_message = demo_decode,
      decode_artifact_read =
        (\<lambda>_. Some \<lparr>read_handle = HandleId 1, read_offset = 0, read_len = 2\<rparr>),
      blake3_hash = (\<lambda>_. replicate 32 0), debug_str = (\<lambda>s. s)\<rparr>"

definition demo_config :: session_config where
  "demo_config = default_config\<lparr>features := [''trace''], retired_operation_budget := None\<rparr>"

text \<open>The frame of one letter, and the feeding of a word, one frame per letter.\<close>

definition letter_byte :: "char \<Rightarrow> byte" where
  "letter_byte c = word_of_nat (of_char c)"

definition letter :: "char \<Rightarrow> byte list" where
  "letter c = to_be_bytes 1 @ [letter_byte c]"

definition say :: "string \<Rightarrow> session_input" where
  "say w = In_feed (concat (map letter w))"

text \<open>A call whose stream delivers two items and then settles, with both queues drained between.\<close>

definition demo_stream_run :: "session_input list" where
  "demo_stream_run =
     [say ''H'', In_call_worker ''count'' JNull (Some 50) True, say ''SD'', In_drain_events,
      In_drain_outbox, say ''ER'']"

definition demo_fault_run :: "session_input list" where
  "demo_fault_run =
     [say ''HC'', In_call_worker ''count'' JNull (Some 50) True,
      In_offer_artifact (CallId 1) [1, 2, 3] ''text/plain'', In_end_of_input]"

definition demo_reply_run :: "session_input list" where
  "demo_reply_run =
     [say ''HC'', In_open_stream (CallId 1) 2, In_stream_item (CallId 1) Lossless True JNull,
      In_reply_to_worker (CallId 1) (Outcome_Ok JNull), In_drain_outbox,
      In_reply_to_worker (CallId 1) (Outcome_Ok JNull)]"

lemma demo_config_ok: "config_ok demo_config"
  by (simp add: config_ok_def demo_config_def default_config_def DEFAULT_HOST_CALLS_IN_FLIGHT_def
      DEFAULT_WORKER_CALLS_IN_FLIGHT_def DEFAULT_LIVE_HANDLES_def MAX_STREAM_CREDIT_def)

lemma demo_lengths:
  "length demo_stream_run + 2 < U64_MODULUS" "length demo_fault_run + 2 < U64_MODULUS"
  "length demo_reply_run + 2 < U64_MODULUS"
  by (simp_all add: demo_stream_run_def demo_fault_run_def demo_reply_run_def)

section \<open>Running a word\<close>

fun hear :: "wire_env \<Rightarrow> string \<Rightarrow> host_session \<Rightarrow> host_session" where
  "hear env [] s = put_decoder new_decoder s"
| "hear env (c # cs) s =
     (let s' = on_frame env [letter_byte c] s
      in if session_phase s' = Closed
         then put_decoder \<lparr>buffer = concat (map letter cs), poisoned = None\<rparr> s'
         else hear env cs s')"

lemma hear_feed_loop: "feed_loop env \<lparr>buffer = concat (map letter cs), poisoned = None\<rparr> s = hear env cs s"
proof (induction cs arbitrary: s)
  case Nil
  show ?case by (simp add: feed_loop.simps next_frame_def new_decoder_def)
next
  case (Cons c cs)
  have "next_frame \<lparr>buffer = concat (map letter (c # cs)), poisoned = None\<rparr> =
      (Inr (Some [letter_byte c]), \<lparr>buffer = concat (map letter cs), poisoned = None\<rparr>)"
    using next_frame_encoded [of "[letter_byte c]" "letter c" "\<lparr>buffer = concat (map letter (c # cs)), poisoned = None\<rparr>"
        "concat (map letter cs)"]
    by (simp add: letter_def encode_def MAX_FRAME_BYTES_def)
  then show ?case
    using Cons.IH by (simp add: feed_loop.simps [of env] on_frame_blind feed_loop_ignores_decoder Let_def)
qed

lemma demo_env_sel [simp]:
  "serde_json demo_env = demo_serde" "to_vec_len demo_env v = Some 4"
  "decode_message demo_env = demo_decode" "blake3_hash demo_env bs = replicate 32 0"
  "decode_artifact_read demo_env v = Some \<lparr>read_handle = HandleId 1, read_offset = 0, read_len = 2\<rparr>"
  by (simp_all add: demo_env_def)

lemma say_step:
  assumes "session_phase s \<noteq> Closed" and "decoder s = new_decoder"
  shows "session_step env (say w) s = hear env w s"
  using assms hear_feed_loop [of env w s]
  by (simp add: say_def feed_def decoder_feed_def new_decoder_def)

lemma say_not_drain [simp]: "say w \<noteq> In_drain_outbox" "say w \<noteq> In_drain_events"
  by (simp_all add: say_def)

lemma demo_frame:
  assumes "map_of demo_messages [c] = Some m" and "letter_byte c \<notin> {34, 45}"
    and "\<not> is_ascii_digit (letter_byte c)"
  shows "on_frame demo_env [letter_byte c] s =
    (case session_phase s of AwaitingHello \<Rightarrow> on_pre_negotiation demo_env m s
     | Active \<Rightarrow> on_active demo_env m s | Closed \<Rightarrow> s)"
proof -
  have "refuse_overflowing_integers [letter_byte c] = Inr ()"
    using assms(2,3) by (simp add: refuse_overflowing_integers.simps)
  moreover have "char_of (unat (letter_byte c)) = c"
    by (simp add: letter_byte_def unat_byte_of_nat)
  ultimately show ?thesis
    using assms(1) by (simp add: on_frame_def parse_def demo_serde_def ascii_text_def
        MAX_CONTROL_FRAME_BYTES_def)
qed

lemma demo_letters:
  assumes "c \<in> {CHR ''H'', CHR ''C'', CHR ''B'', CHR ''A'', CHR ''R'', CHR ''P'', CHR ''S'', CHR ''D'',
                 CHR ''E'', CHR ''L'', CHR ''K'', CHR ''G''}"
  shows "letter_byte c \<notin> {34, 45}" and "\<not> is_ascii_digit (letter_byte c)"
  using assms by (auto simp: letter_byte_def is_ascii_digit_def)

lemmas demo_hear = demo_frame [OF _ demo_letters]

lemmas config_eval =
  demo_config_def default_config_def DEFAULT_HOST_CALLS_IN_FLIGHT_def
  DEFAULT_WORKER_CALLS_IN_FLIGHT_def DEFAULT_LIVE_HANDLES_def MAX_STREAM_CREDIT_def
  INITIAL_STREAM_CREDIT_def frame_limit_defs MAX_WIRE_ID_eq MAX_METHOD_CHARS_def
  MAX_SDK_IDENTITY_CHARS_def MAX_MEDIA_TYPE_CHARS_def PROTOCOL_VERSION_def

lemmas env_eval =
  demo_messages_def demo_hello_def demo_call_def demo_item_def
  demo_offer_def len_or_max_def len_or_zero_def ARTIFACT_READ_METHOD_def

lemmas handler_eval =
  Let_def end_of_input_def decoder_finish_def buffered_len_def new_decoder_def fatal_def wind_up_def
  settle_host_call_locally_def reclaim_all_handles_def reclaim_handles_def drop_handle_def bt_keys_def
  bounded_reason_def clip_detail_def is_closed_def note_minted_def offer_artifact_def
  insert_handle_def next_handle_id_def open_stream_def stream_item_def send_item_def
  modify_worker_call_def reply_to_worker_def u32_pred_def wrap32_def
  on_active_def accept_hello_def push_out_def push_event_def on_worker_call_def
  fresh_worker_call_def budget_full_def on_stream_open_def on_stream_data_def modify_host_call_def
  accept_item_def expected_seq_def max_credit_def on_worker_reply_def settle_by_reply_def
  call_worker_def new_session_def drain_events_def drain_outbox_def name_ok_def id_ok_def
  bt_get_def bt_contains_def bt_remove_def bt_modify_def bs_insert_def
  chars_count_def is_continuation_def

lemmas demo_eval = facts_told_def frames_sent_def history_def run_def say_step demo_hear
  config_eval env_eval handler_eval

lemma demo_stream_outcome:
  "items_of (CallId 1) (facts_told demo_env demo_config demo_stream_run) = [0, 1]"
  "settlements (CallId 1) (facts_told demo_env demo_config demo_stream_run) = 1"
  by (simp_all add: demo_stream_run_def demo_eval)

lemma demo_fault_outcome:
  "is_closed (run demo_env demo_config demo_fault_run)"
  "calls_made (CallId 1) (frames_sent demo_env demo_config demo_fault_run) = 1"
  by (simp_all add: demo_fault_run_def demo_eval)

lemma demo_reply_outcome:
  "answers (CallId 1) (frames_sent demo_env demo_config demo_reply_run) = 1"
  by (simp_all add: demo_reply_run_def demo_eval)

end
