(* ===== verification/Session_Effects.thy ===== *)
theory Session_Effects
  imports Session_Protocol
begin

text \<open>
  The exact effect of the operations that end things: the fatal fault, the worker's goodbye, the
  deadline sweep, and what the application's operations leave behind when they refuse.
\<close>

section \<open>Winding up\<close>

lemma fold_settle_events:
  assumes "distinct cids" and "set cids \<subseteq> bt_dom (host_calls s)"
  shows "events (fold (settle_host_call_locally e r) cids s) =
    events s @ map (\<lambda>cid. HostCallLost cid e r) cids"
  using assms
proof (induction cids arbitrary: s)
  case (Cons cid cids)
  let ?t = "settle_host_call_locally e r cid s"
  have "events ?t = events s @ [HostCallLost cid e r]"
    using Cons.prems(2) by (simp add: settle_locally_cases)
  moreover have "set cids \<subseteq> bt_dom (host_calls ?t)"
    using Cons.prems by (auto simp: settle_locally_dom simp del: bt_dom_remove)
  ultimately show ?case using Cons.IH [of ?t] Cons.prems(1) by simp
qed simp

lemma reclaim_loop_result:
  assumes "distinct hs" and "set hs \<subseteq> bt_dom (handles s)"
  shows "fst (reclaim_loop hs acc s) = acc @ hs"
  using assms
proof (induction hs acc s rule: reclaim_loop.induct)
  case (2 h hs acc s)
  have "h \<in> bt_dom (handles s)" using 2(4) by simp
  moreover have "set hs \<subseteq> bt_dom (handles (drop_handle False h s))"
    using 2(3,4) unfolding drop_handle_handles bt_dom_remove by auto
  ultimately show ?case using 2(1,3) by (simp add: bt_contains_iff)
qed simp

lemma reclaim_events:
  assumes "distinct hs" and "set hs \<subseteq> bt_dom (handles s)"
  shows "events (reclaim_handles hs s) = events s @ (if hs = [] then [] else [HandlesReclaimed hs])"
proof -
  have "events (snd (reclaim_loop hs [] s)) = events s"
    by (rule reclaim_loop_frame) simp
  with reclaim_loop_result [OF assms, of "[]"] show ?thesis
    by (cases "reclaim_loop hs [] s") (simp add: reclaim_handles_def)
qed

definition reclaim_notice :: "host_session \<Rightarrow> session_event list" where
  "reclaim_notice s = (if handles s = [] then [] else [HandlesReclaimed (bt_keys (handles s))])"

lemma wind_up_events:
  assumes "session_core s"
  shows "events (wind_up e r s) =
    events s @ map (\<lambda>cid. HostCallLost cid e r) (bt_keys (host_calls s)) @ reclaim_notice s"
proof -
  note wf = core_wf [OF assms]
  let ?t = "fold (settle_host_call_locally e r) (bt_keys (host_calls s)) s"
  have "events ?t = events s @ map (\<lambda>cid. HostCallLost cid e r) (bt_keys (host_calls s))"
    by (rule fold_settle_events) (simp_all add: bt_keys_def bt_wf_distinct wf)
  moreover have "events (reclaim_handles (bt_keys (handles s)) ?t) = events ?t @ reclaim_notice s"
    using reclaim_events [of "bt_keys (handles s)" ?t]
    by (auto simp: bt_keys_def bt_wf_distinct wf reclaim_notice_def)
  ultimately show ?thesis
    by (simp add: wind_up_def Let_def reclaim_all_handles_def)
qed

lemma wind_up_gauge:
  assumes "session_core s"
  shows "live_handle_count (wind_up e r s) = 0"
  using core_groups(3) [OF core_wind_up [OF assms]] by (simp add: handle_ids_ok_def)

lemmas observers = in_flight_calls_def live_handles_def pending_releases_def is_closed_def

lemma fatal_open:
  assumes "session_phase s \<noteq> Closed"
  shows "outbox (fatal k d s) = outbox s @
      (if session_phase s = Active then [H_Goodbye \<lparr>goodbye_reason = bounded_reason k\<rparr>] else [])"
    and "events (fatal k d s) = events (wind_up OutcomeUnknown True s) @ [Fatal k (clip_detail d)]"
    and "worker_calls (fatal k d s) = []" "host_calls (fatal k d s) = []" "handles (fatal k d s) = []"
    and "pending_worker_releases (fatal k d s) = []"
    and "live_handle_count (fatal k d s) = live_handle_count (wind_up OutcomeUnknown True s)"
    and "retired_host_calls (fatal k d s) = retired_host_calls (wind_up OutcomeUnknown True s)"
  using assms by (simp_all add: fatal_def Let_def)

section \<open>The deadline sweep\<close>

lemma expire_one_effect:
  assumes "cid \<in> bt_dom (host_calls s)"
  shows "expire_one cid s =
    s\<lparr>outbox := outbox s @ [H_Cancel \<lparr>cancel_call_id = cid, cancel_to = CancelCall\<rparr>],
      host_calls := bt_remove cid (host_calls s),
      retired_host_calls := bs_insert cid (retired_host_calls s),
      events := events s @ [HostCallLost cid DeadlineExceeded True]\<rparr>"
  using assms by (simp add: expire_one_def settle_locally_cases push_out_def push_event_def)

lemma fold_expire_effect:
  assumes "distinct cids" and "set cids \<subseteq> bt_dom (host_calls s)"
  shows "events (fold expire_one cids s) =
      events s @ map (\<lambda>cid. HostCallLost cid DeadlineExceeded True) cids \<and>
    outbox (fold expire_one cids s) =
      outbox s @ map (\<lambda>cid. H_Cancel \<lparr>cancel_call_id = cid, cancel_to = CancelCall\<rparr>) cids \<and>
    host_calls (fold expire_one cids s) = filter (\<lambda>e. fst e \<notin> set cids) (host_calls s)"
  using assms
proof (induction cids arbitrary: s)
  case (Cons cid cids)
  let ?t = "expire_one cid s"
  have t: "cid \<in> bt_dom (host_calls s)" using Cons.prems by simp
  have hc: "host_calls ?t = bt_remove cid (host_calls s)" by (simp add: expire_one_effect [OF t])
  have "set cids \<subseteq> bt_dom (host_calls ?t)"
    using Cons.prems unfolding hc bt_dom_remove by auto
  from Cons.IH [OF _ this] Cons.prems(1) show ?case
    by (simp add: expire_one_effect [OF t] bt_remove_def conj_commute)
qed simp

definition expired_calls :: "u64 \<Rightarrow> host_session \<Rightarrow> call_id list" where
  "expired_calls now s = map fst (filter (\<lambda>e. expired now (snd e)) (host_calls s))"

lemma expire_deadlines_effect:
  assumes "session_core s"
  shows "events (expire_deadlines s) =
      events s @ map (\<lambda>cid. HostCallLost cid DeadlineExceeded True) (expired_calls (now_ms s) s)"
    and "outbox (expire_deadlines s) = outbox s @
      map (\<lambda>cid. H_Cancel \<lparr>cancel_call_id = cid, cancel_to = CancelCall\<rparr>) (expired_calls (now_ms s) s)"
    and "host_calls (expire_deadlines s) = filter (\<lambda>e. \<not> expired (now_ms s) (snd e)) (host_calls s)"
proof -
  have dist: "distinct (map fst (host_calls s))"
    using core_wf(2) [OF assms] by (rule bt_wf_distinct)
  let ?x = "expired_calls (now_ms s) s"
  have d: "distinct ?x" and sub: "set ?x \<subseteq> bt_dom (host_calls s)"
    using dist by (auto simp: expired_calls_def distinct_map_filter)
  have ed: "expire_deadlines s = fold expire_one ?x s"
    by (simp add: expire_deadlines_def expired_calls_def)
  have "fst e \<in> set ?x \<longleftrightarrow> expired (now_ms s) (snd e)" if e: "e \<in> set (host_calls s)" for e
    using e dist by (auto simp: expired_calls_def) (metis eq_key_imp_eq_value prod.collapse)
  then have "filter (\<lambda>e. fst e \<notin> set ?x) (host_calls s) =
      filter (\<lambda>e. \<not> expired (now_ms s) (snd e)) (host_calls s)"
    by (auto intro: filter_cong)
  with fold_expire_effect [OF d sub] show "events (expire_deadlines s) =
      events s @ map (\<lambda>cid. HostCallLost cid DeadlineExceeded True) ?x"
    and "outbox (expire_deadlines s) = outbox s @
      map (\<lambda>cid. H_Cancel \<lparr>cancel_call_id = cid, cancel_to = CancelCall\<rparr>) ?x"
    and "host_calls (expire_deadlines s) = filter (\<lambda>e. \<not> expired (now_ms s) (snd e)) (host_calls s)"
    by (simp_all add: ed)
qed

section \<open>Refusals\<close>

text \<open>The \<open>AppError\<close> an application operation returns, if it returns one.\<close>

definition refusal_of :: "(app_error + 'a) \<times> host_session \<Rightarrow> app_error option" where
  "refusal_of r = (case fst r of Inl e \<Rightarrow> Some e | Inr _ \<Rightarrow> None)"

fun app_refusal :: "wire_env \<Rightarrow> session_input \<Rightarrow> host_session \<Rightarrow> app_error option" where
  "app_refusal env (In_reply_to_worker cid out) s = refusal_of (reply_to_worker env cid out s)"
| "app_refusal env (In_call_worker method payload deadline stream) s =
     refusal_of (call_worker env method payload deadline stream s)"
| "app_refusal env (In_cancel cid target) s = refusal_of (cancel_host_call cid target s)"
| "app_refusal env (In_grant_credit cid n) s = refusal_of (grant_credit cid n s)"
| "app_refusal env (In_note_lossy_drops cid n) s = refusal_of (note_lossy_drops cid n s)"
| "app_refusal env (In_open_stream cid n) s = refusal_of (open_stream cid n s)"
| "app_refusal env (In_stream_item cid class has_more payload) s =
     refusal_of (stream_item env cid class has_more payload s)"
| "app_refusal env (In_mint_capability_handle cid) s = refusal_of (mint_capability_handle cid s)"
| "app_refusal env (In_offer_artifact cid bytes media) s =
     refusal_of (offer_artifact env cid bytes media s)"
| "app_refusal env (In_release_worker_handle h kind) s = refusal_of (release_worker_handle h kind s)"
| "app_refusal env _ s = None"

fun is_app_call :: "session_input \<Rightarrow> bool" where
  "is_app_call (In_feed _) = False"
| "is_app_call In_end_of_input = False"
| "is_app_call (In_tick _) = False"
| "is_app_call In_drain_outbox = False"
| "is_app_call In_drain_events = False"
| "is_app_call _ = True"

lemma refused_or_done:
  "refusal_of (reply_to_worker env cid out s) = None \<or> snd (reply_to_worker env cid out s) = s"
  "refusal_of (call_worker env method payload deadline stream s) = None \<or>
     snd (call_worker env method payload deadline stream s) = s"
  "refusal_of (cancel_host_call cid target s) = None \<or> snd (cancel_host_call cid target s) = s"
  "refusal_of (grant_credit cid n s) = None \<or> snd (grant_credit cid n s) = s"
  "refusal_of (note_lossy_drops cid k s) = None \<or> snd (note_lossy_drops cid k s) = s"
  "refusal_of (open_stream cid n s) = None \<or> snd (open_stream cid n s) = s"
  "refusal_of (stream_item env cid cls has_more payload s) = None \<or>
     snd (stream_item env cid cls has_more payload s) = s"
  "refusal_of (release_worker_handle h kind s) = None \<or> snd (release_worker_handle h kind s) = s"
  by (simp_all add: refusal_of_def reply_to_worker_def call_worker_def cancel_host_call_def
      grant_credit_def note_lossy_drops_def open_stream_def stream_item_def
      release_worker_handle_def Let_def split: option.split sum.split)

lemma insert_refused_or_done:
  "refusal_of (case insert_handle k a s of (Inl e, s) \<Rightarrow> (Inl e, s) | (Inr h, s) \<Rightarrow> (Inr (f h), g h s)) = None
   \<or> snd (case insert_handle k a s of (Inl e, s) \<Rightarrow> (Inl e, s) | (Inr h, s) \<Rightarrow> (Inr (f h), g h s)) = s"
  using insert_handle_error [of k a s]
  by (simp add: refusal_of_def split: prod.split sum.split)

lemma minting_refused_or_done:
  "refusal_of (mint_capability_handle cid s) = None \<or> snd (mint_capability_handle cid s) = s"
  "refusal_of (offer_artifact env cid bytes media s) = None \<or> snd (offer_artifact env cid bytes media s) = s"
  using insert_refused_or_done [where k = Capability and a = None and s = s and f = "\<lambda>h. h"
      and g = "note_minted cid"]
    insert_refused_or_done [where k = Artifact and s = s and g = "note_minted cid"
      and a = "Some \<lparr>art_bytes = bytes, art_media_type = media,
                     art_digest_blake3 = hex (blake3_hash env bytes)\<rparr>"
      and f = "\<lambda>h. \<lparr>offer_handle = h, offer_bytes = length bytes, offer_media_type = media,
                    offer_digest_blake3 = hex (blake3_hash env bytes)\<rparr>"]
  by (simp_all add: mint_capability_handle_def offer_artifact_def refusal_of_def Let_def)

lemma refused_snd: "refusal_of r = None \<or> snd r = s \<Longrightarrow> refusal_of r = Some e \<Longrightarrow> snd r = s"
  by auto

lemmas refused_state = refused_or_done [THEN refused_snd] minting_refused_or_done [THEN refused_snd]

lemma refusal_leaves_state:
  assumes "app_refusal env i s = Some e"
  shows "session_step env i s = s"
  using assms by (cases i; simp; elim refused_state)

lemma inactive_refuses:
  assumes "session_phase s \<noteq> Active" and "is_app_call i"
  shows "app_refusal env i s = Some App_NotActive"
  using assms
  by (cases i) (simp_all add: refusal_of_def reply_to_worker_def call_worker_def cancel_host_call_def
      grant_credit_def note_lossy_drops_def open_stream_def stream_item_def
      mint_capability_handle_def offer_artifact_def release_worker_handle_def)

end
