(* ===== verification/Session_Properties.thy ===== *)
theory Session_Properties
  imports Session_Demo Session_Effects
begin

text \<open>
  The properties of a session, stated over whole runs or over one entry point, each with a run of
  the concrete environment at which its hypotheses hold.
\<close>

section \<open>Whole runs\<close>

text \<open>
  C8. Every run of a session keeps its invariant: tables ordered, call ids in flight or spent but
  never both, handles live, released or reclaimed but never two of them, streams within their
  windows, nothing in flight outside the active phase, the decoder drained. The run is any sequence
  of entry points whose length cannot wrap the 64-bit id counters.
\<close>

theorem run_keeps_invariant:
  assumes "config_ok cfg" and "length inputs + 2 < U64_MODULUS"
  shows "session_inv (run env cfg inputs)"
  using assms by (rule run_inv)

theorem run_keeps_invariant_witness:
  "config_ok demo_config \<and> length demo_stream_run + 2 < U64_MODULUS \<and>
   session_inv (run demo_env demo_config demo_stream_run)"
  using run_keeps_invariant [OF demo_config_ok demo_lengths(1), of demo_env] demo_config_ok
    demo_lengths(1) by simp

text \<open>
  The gauges the host exports are exact and never exceed the negotiated ceilings: the 32-bit
  casts of the in-flight counts lose nothing, and the live-handle gauge is the number of handles.
\<close>

theorem gauges_within_ceilings:
  assumes "config_ok cfg" and "length inputs + 2 < U64_MODULUS" and "s = run env cfg inputs"
  shows "in_flight_calls s = (length (host_calls s), length (worker_calls s)) \<and>
    live_handles s = length (handles s) \<and> pending_releases s = length (pending_worker_releases s) \<and>
    length (host_calls s) \<le> host_calls_in_flight (ceilings_of (config s)) \<and>
    length (worker_calls s) \<le> worker_calls_in_flight (ceilings_of (config s)) \<and>
    live_handles s \<le> live_handles_ceiling (ceilings_of (config s)) \<and>
    pending_releases s \<le> live_handles_ceiling (ceilings_of (config s))"
proof -
  have core: "session_core s" using run_inv [OF assms(1,2)] assms(3) inv_core by blast
  note g = core_groups [OF core]
  show ?thesis
    using g(3,5) in_flight_no_wrap [OF core] unfolding handle_ids_ok_def ceilings_ok_def
    by (simp add: in_flight_calls_def live_handles_def pending_releases_def)
qed

theorem gauges_within_ceilings_witness:
  "in_flight_calls (run demo_env demo_config demo_fault_run) = (0, 0) \<and>
   live_handles (run demo_env demo_config demo_fault_run) = 0"
  using gauges_within_ceilings [OF demo_config_ok demo_lengths(2) refl, of demo_env]
    run_inv [OF demo_config_ok demo_lengths(2), of demo_env] demo_fault_outcome(1)
  by (simp add: session_inv_def phase_ok_def is_closed_def)

text \<open>
  C26. The correlation state a peer can make the host retain is bounded: under a budget of retired
  operations, the retired tables together never exceed the budget by more than what the ceilings
  allow to be in flight.
\<close>

theorem retained_state_bounded:
  assumes "config_ok cfg" and "length inputs + 2 < U64_MODULUS"
    and "retired_operation_budget (config (run env cfg inputs)) = Some budget"
  shows "retired_operations (run env cfg inputs) \<le> budget + overshoot (config (run env cfg inputs))"
  using core_groups(7) [OF inv_core [OF run_inv [OF assms(1,2)]], of env] assms(3)
  by (auto simp: budget_ok_def liability_def)

theorem retained_state_bounded_witness:
  "retired_operation_budget (config (run demo_env (demo_config\<lparr>retired_operation_budget := Some 3\<rparr>)
     [In_tick 5])) = Some 3 \<and>
   retired_operations (run demo_env (demo_config\<lparr>retired_operation_budget := Some 3\<rparr>) [In_tick 5])
     \<le> 3 + overshoot (config (run demo_env (demo_config\<lparr>retired_operation_budget := Some 3\<rparr>) [In_tick 5]))"
proof -
  let ?c = "demo_config\<lparr>retired_operation_budget := Some 3\<rparr>"
  have ok: "config_ok ?c" using demo_config_ok by (simp add: config_ok_def)
  have b: "retired_operation_budget (config (run demo_env ?c [In_tick 5])) = Some 3"
    by (simp add: run_def tick_def new_session_def)
  show ?thesis using retained_state_bounded [OF ok _ b] b by simp
qed

text \<open>
  C1. The session refines the law of the protocol: whatever the worker sends and the application
  asks, the frames sent and the facts reported, over the whole run and across drains, are those of
  a sequence of lawful steps of the abstract machine from its initial state.
\<close>

theorem session_refines_law:
  assumes "config_ok cfg" and "length inputs + 2 < U64_MODULUS"
  shows "lawful (protocol_of (new_session cfg))
    ((protocol_of (run env cfg inputs))\<lparr>p_out := frames_sent env cfg inputs,
                                        p_facts := facts_told env cfg inputs\<rparr>)"
proof -
  have "lawful (ledger ([], [], new_session cfg)) (ledger (history env cfg inputs))"
    unfolding history_def using assms new_session_inv
    by (intro lawful_history) (simp_all add: id_counter_def new_session_def)
  then show ?thesis by (simp only: ledger_history ledger.simps with_past_Nil)
qed

theorem session_refines_law_witness:
  "lawful (protocol_of (new_session demo_config))
    ((protocol_of (run demo_env demo_config demo_stream_run))
       \<lparr>p_out := frames_sent demo_env demo_config demo_stream_run,
        p_facts := facts_told demo_env demo_config demo_stream_run\<rparr>)"
  by (rule session_refines_law [OF demo_config_ok demo_lengths(1)])

text \<open>
  C6. A call the host makes is sent under an id of its own and settled exactly once: its id is on at
  most one call frame, it has one settlement fact as soon as it is no longer in flight, and no
  settlement is ever reported for a call that was not made.
\<close>

theorem host_call_settles_once:
  assumes "config_ok cfg" and "length inputs + 2 < U64_MODULUS"
  shows "calls_made cid (frames_sent env cfg inputs) \<le> 1 \<and>
    settlements cid (facts_told env cfg inputs) =
      (if calls_made cid (frames_sent env cfg inputs) = 1 \<and>
          cid \<notin> bt_dom (host_calls (run env cfg inputs)) then 1 else 0)"
proof -
  note l = host_call_ledger [OF assms refl, where env = env and cid = cid]
  have count: "(if made then 1 else 0) \<le> (1::nat) \<and>
      (if spent then 1 else 0) = (if (if made then 1 else 0) = (1::nat) \<and> \<not> flying then 1 else (0::nat))"
    if "made \<longleftrightarrow> flying \<or> spent" and "flying \<Longrightarrow> \<not> spent" for made flying spent
    using that by auto
  show ?thesis unfolding l(1) l(2) by (rule count [OF l(3,4)])
qed

theorem host_call_settles_once_witness:
  "calls_made (CallId 1) (frames_sent demo_env demo_config demo_fault_run) = 1 \<and>
   settlements (CallId 1) (facts_told demo_env demo_config demo_fault_run) = 1"
  using host_call_settles_once [OF demo_config_ok demo_lengths(2), of "CallId 1" demo_env]
    demo_fault_outcome run_inv [OF demo_config_ok demo_lengths(2), of demo_env]
  by (simp add: session_inv_def phase_ok_def is_closed_def)

text \<open>
  C7. Nothing is lost when a session ends: once it is closed, by whatever cause, every call the host
  sent has its settlement reported.
\<close>

theorem closed_session_settled_everything:
  assumes "config_ok cfg" and "length inputs + 2 < U64_MODULUS" and "is_closed (run env cfg inputs)"
  shows "settlements cid (facts_told env cfg inputs) = calls_made cid (frames_sent env cfg inputs)"
proof -
  have "host_calls (run env cfg inputs) = []"
    using run_inv [OF assms(1,2), of env] assms(3) by (simp add: session_inv_def phase_ok_def is_closed_def)
  with host_call_ledger [OF assms(1,2) refl, where env = env and cid = cid] show ?thesis by simp
qed

theorem closed_session_settled_everything_witness:
  "is_closed (run demo_env demo_config demo_fault_run) \<and>
   settlements (CallId 1) (facts_told demo_env demo_config demo_fault_run) = 1"
  using closed_session_settled_everything [OF demo_config_ok demo_lengths(2) demo_fault_outcome(1),
      of "CallId 1"] demo_fault_outcome by simp

text \<open>
  A worker call gets one terminal reply and no more: without a retirement budget, the number of
  reply frames for an id is one if the id is spent and zero otherwise, and an id in flight is not
  spent.
\<close>

theorem worker_call_answered_once:
  assumes "config_ok cfg" and "length inputs + 2 < U64_MODULUS"
    and "retired_operation_budget (config (run env cfg inputs)) = None"
  shows "answers cid (frames_sent env cfg inputs) =
      (if cid \<in> bt_dom (retired_worker_calls (run env cfg inputs)) then 1 else 0) \<and>
    (cid \<in> bt_dom (worker_calls (run env cfg inputs)) \<longrightarrow> answers cid (frames_sent env cfg inputs) = 0)"
  using ledger_of_run(3) [OF assms(1,2), of env] assms(3)
  unfolding worker_ledger_def ledger_history by auto

theorem worker_call_answered_once_witness:
  "CallId 1 \<in> bt_dom (retired_worker_calls (run demo_env demo_config demo_reply_run)) \<and>
   answers (CallId 1) (frames_sent demo_env demo_config demo_reply_run) = 1"
proof -
  have n: "retired_operation_budget (config (run demo_env demo_config demo_reply_run)) = None"
    by (simp add: demo_reply_run_def demo_eval)
  from worker_call_answered_once [OF demo_config_ok demo_lengths(3) n, of "CallId 1"] demo_reply_outcome
  show ?thesis by (metis zero_neq_one)
qed

text \<open>
  The items of a stream reach the application in order and without gaps: the sequence numbers
  reported for a call are 0, 1, 2 and so on, and none is reported after the call's settlement.
\<close>

theorem stream_items_in_order:
  assumes "config_ok cfg" and "length inputs + 2 < U64_MODULUS"
  shows "(\<exists>n. items_of cid (facts_told env cfg inputs) = map wrap64 [0..<n]) \<and>
    (\<forall>before e after. facts_told env cfg inputs = before @ e # after \<and> settles cid e \<longrightarrow>
       items_of cid after = [])"
  using ledger_of_run(2) [OF assms, of env] unfolding stream_ledger_def ledger_history by auto

theorem stream_items_in_order_witness:
  "items_of (CallId 1) (facts_told demo_env demo_config demo_stream_run) = [0, 1] \<and>
   (\<exists>n. items_of (CallId 1) (facts_told demo_env demo_config demo_stream_run) = map wrap64 [0..<n])"
  using stream_items_in_order [OF demo_config_ok demo_lengths(1), of "CallId 1" demo_env]
    demo_stream_outcome(1) by blast

section \<open>Transport\<close>

text \<open>
  C27. Where the transport cuts the byte stream does not matter: feeding the chunks one by one leaves
  the session in the state that feeding their concatenation does (up to the unread bytes of a
  session that has closed), so the same frames are sent and the same facts reported.
\<close>

theorem chunking_is_irrelevant:
  "same_session (feed env (concat (c # cs)) s) (fold (feed env) (c # cs) s)"
  by (rule feed_concat)

section \<open>Endings\<close>

text \<open>
  A fatal fault ends an open session completely: it is closed with nothing in flight and every
  gauge at zero; each host call in flight is reported lost with an unknown outcome that must be
  reconciled, in id order; the live handles are reported reclaimed; the fault is reported last; and
  the worker is told goodbye exactly when it had been accepted.
\<close>

theorem fatal_winds_up:
  assumes "session_inv s" and "session_phase s \<noteq> Closed" and "t = fatal kind detail s"
  shows "is_closed t \<and> in_flight_calls t = (0, 0) \<and> live_handles t = 0 \<and> pending_releases t = 0 \<and>
    events t = events s @ map (\<lambda>cid. HostCallLost cid OutcomeUnknown True) (bt_keys (host_calls s)) @
      reclaim_notice s @ [Fatal kind (clip_detail detail)] \<and>
    outbox t = outbox s @ (if session_phase s = Active
      then [H_Goodbye \<lparr>goodbye_reason = bounded_reason kind\<rparr>] else [])"
  using fatal_open [OF assms(2), of kind detail] assms(3) wind_up_events [OF inv_core [OF assms(1)]]
    wind_up_gauge [OF inv_core [OF assms(1)], of OutcomeUnknown True]
  by (simp add: in_flight_calls_def live_handles_def pending_releases_def is_closed_def wrap32_def)

theorem fatal_winds_up_witness:
  "session_inv (new_session demo_config) \<and>
   events (fatal InvalidFrame ''bad'' (new_session demo_config)) =
     [Fatal InvalidFrame (clip_detail ''bad'')]"
  using fatal_winds_up [OF new_session_inv [OF demo_config_ok] _ refl, of InvalidFrame "''bad''"]
    new_session_inv [OF demo_config_ok]
  by (simp add: new_session_def reclaim_notice_def bt_keys_def)

text \<open>
  A goodbye ends the session with known outcomes: every host call in flight is reported
  cancelled and needs no reconciliation, and the host sends nothing more.
\<close>

theorem goodbye_cancels:
  assumes "session_inv s" and "session_phase s = Active" and "t = on_goodbye g s"
  shows "is_closed t \<and> in_flight_calls t = (0, 0) \<and> live_handles t = 0 \<and> pending_releases t = 0 \<and>
    outbox t = outbox s \<and>
    events t = events s @ [WorkerGoodbye (goodbye_reason g)] @
      map (\<lambda>cid. HostCallLost cid Cancelled False) (bt_keys (host_calls s)) @ reclaim_notice s"
proof -
  let ?s = "push_event (WorkerGoodbye (goodbye_reason g)) s"
  have core: "session_core ?s" using inv_core [OF assms(1)] by simp
  show ?thesis
    using wind_up_events [OF core, of Cancelled False] wind_up_gauge [OF core, of Cancelled False] assms(3)
    by (simp add: on_goodbye_def Let_def in_flight_calls_def live_handles_def pending_releases_def
        is_closed_def wrap32_def reclaim_notice_def)
qed

theorem goodbye_cancels_witness:
  "session_phase (run demo_env demo_config [say ''HC'']) = Active \<and>
   is_closed (on_goodbye \<lparr>goodbye_reason = ''bye''\<rparr> (run demo_env demo_config [say ''HC'']))"
proof -
  have a: "session_phase (run demo_env demo_config [say ''HC'']) = Active"
    by (simp add: demo_eval)
  have "session_inv (run demo_env demo_config [say ''HC''])"
    using demo_config_ok by (rule run_inv) simp
  from goodbye_cancels [OF this a refl, of "\<lparr>goodbye_reason = ''bye''\<rparr>"] a show ?thesis by simp
qed

text \<open>
  Time expires exactly the calls whose deadline has passed: a tick of an active session cancels
  each of them towards the worker, reports each lost to its deadline and in need of reconciliation,
  and leaves every other call in flight. The clock never goes back.
\<close>

theorem tick_expires_deadlines:
  assumes "session_inv s" and "session_phase s = Active" and "n = max (now_ms s) now"
  shows "now_ms (tick now s) = n \<and>
    host_calls (tick now s) = filter (\<lambda>e. \<not> expired n (snd e)) (host_calls s) \<and>
    events (tick now s) =
      events s @ map (\<lambda>cid. HostCallLost cid DeadlineExceeded True) (expired_calls n s) \<and>
    outbox (tick now s) = outbox s @
      map (\<lambda>cid. H_Cancel \<lparr>cancel_call_id = cid, cancel_to = CancelCall\<rparr>) (expired_calls n s)"
proof -
  let ?s = "s\<lparr>now_ms := n\<rparr>"
  have t: "tick now s = expire_deadlines ?s" using assms by (simp add: tick_def Let_def)
  have core: "session_core ?s" using inv_core [OF assms(1)] by simp
  have "now_ms (expire_one cid u) = now_ms u" for cid u
    by (simp add: expire_one_def)
  then have "now_ms (expire_deadlines ?s) = n"
    by (simp add: expire_deadlines_def fold_field [of now_ms])
  moreover have "expired_calls n ?s = expired_calls n s" by (simp add: expired_calls_def)
  ultimately show ?thesis using expire_deadlines_effect [OF core] by (simp add: t)
qed

theorem tick_expires_deadlines_witness:
  "expired_calls 60 (run demo_env demo_config [say ''H'', In_call_worker ''count'' JNull (Some 50) True])
     = [CallId 1] \<and>
   host_calls (tick 60 (run demo_env demo_config
     [say ''H'', In_call_worker ''count'' JNull (Some 50) True])) = []"
proof -
  let ?r = "run demo_env demo_config [say ''H'', In_call_worker ''count'' JNull (Some 50) True]"
  have "session_inv ?r" using demo_config_ok by (rule run_inv) simp
  moreover have "session_phase ?r = Active" by (simp add: demo_eval)
  moreover have "60 = max (now_ms ?r) 60" by (simp add: demo_eval)
  ultimately have "host_calls (tick 60 ?r) = filter (\<lambda>e. \<not> expired 60 (snd e)) (host_calls ?r)"
    using tick_expires_deadlines by blast
  then show ?thesis by (simp add: demo_eval expired_calls_def expired_def)
qed

section \<open>Refusals\<close>

text \<open>
  A refused operation changes nothing: whenever an application operation returns an error, the
  session is exactly as it was, so no id is consumed and no frame or fact is queued.
\<close>

theorem refused_operation_is_atomic:
  assumes "app_refusal env i s = Some e"
  shows "session_step env i s = s"
  using assms by (rule refusal_leaves_state)

theorem refused_operation_is_atomic_witness:
  "app_refusal demo_env (In_grant_credit (CallId 9) 1) (new_session demo_config) = Some App_NotActive \<and>
   session_step demo_env (In_grant_credit (CallId 9) 1) (new_session demo_config) = new_session demo_config"
proof -
  have r: "app_refusal demo_env (In_grant_credit (CallId 9) 1) (new_session demo_config) = Some App_NotActive"
    by (simp add: refusal_of_def grant_credit_def new_session_def)
  show ?thesis using refused_operation_is_atomic [OF r] r by simp
qed

text \<open>
  A closed session is inert: bytes, end of input and time change nothing but the clock, every
  application operation is refused as not active, and only draining the queues still has an effect.
\<close>

theorem closed_session_is_inert:
  assumes "is_closed s" and "\<not> is_drain i"
  shows "(session_step env i s)\<lparr>now_ms := now_ms s\<rparr> = s \<and>
    (is_app_call i \<longrightarrow> app_refusal env i s = Some App_NotActive)"
proof -
  have c: "session_phase s = Closed" using assms(1) by (simp add: is_closed_def)
  have "session_step env i s = s" if "is_app_call i"
    using refusal_leaves_state [OF inactive_refuses [OF _ that]] c by simp
  moreover have "(session_step env i s)\<lparr>now_ms := now_ms s\<rparr> = s" if "\<not> is_app_call i"
    using assms(2) c that
    by (cases i) (simp_all add: feed_def end_of_input_def tick_def)
  ultimately show ?thesis using inactive_refuses [of s i env] c by (cases "is_app_call i") simp_all
qed

theorem closed_session_is_inert_witness:
  "is_closed (run demo_env demo_config demo_fault_run) \<and>
   app_refusal demo_env (In_grant_credit (CallId 1) 1) (run demo_env demo_config demo_fault_run)
     = Some App_NotActive"
  using closed_session_is_inert [OF demo_fault_outcome(1), of "In_grant_credit (CallId 1) 1" demo_env]
    demo_fault_outcome(1) by simp

end
