(* ===== verification/Exchange_Properties.thy ===== *)
theory Exchange_Properties
  imports Session_Demo Session_Effects
begin

text \<open>
  Properties of the single exchanges of a session: negotiation, handles and the artifacts behind
  them, releases, streams, and frames that arrive too late.
\<close>

section \<open>Negotiation\<close>

definition acceptable :: "host_session \<Rightarrow> hello \<Rightarrow> bool" where
  "acceptable s h \<longleftrightarrow>
     name_ok (sdk_name h) \<and> name_ok (sdk_version h) \<and> PROTOCOL_VERSION \<in> set (protocol_versions h) \<and>
     set (required_features h) \<subseteq> set (features (config s))"

lemma on_hello:
  "acceptable s h \<Longrightarrow> on_pre_negotiation env (W_Hello h) s = accept_hello h s"
  "\<not> acceptable s h \<Longrightarrow>
     \<exists>k m d. on_pre_negotiation env (W_Hello h) s = refuse_negotiation k m d s"
  by (auto simp: acceptable_def Let_def filter_empty_conv)

text \<open>
  The first frame decides: a hello is accepted if and only if its identity is within bounds, it
  offers the protocol version of this build, and the host has every feature it requires. The accept
  then carries the host's features the worker offered or required, which include all required ones,
  and the ceilings in force; anything else is refused with the supported version and closes the
  session.
\<close>

theorem hello_decides:
  "(acceptable s h \<longrightarrow>
      session_phase (on_pre_negotiation env (W_Hello h) s) = Active \<and>
      (\<exists>a. outbox (on_pre_negotiation env (W_Hello h) s) = outbox s @ [H_Accept a] \<and>
         set (accept_features a) =
           set (features (config s)) \<inter> (set (hello_features h) \<union> set (required_features h)) \<and>
         set (required_features h) \<subseteq> set (accept_features a) \<and>
         accept_ceilings a = ceilings_of (config s))) \<and>
   (\<not> acceptable s h \<longrightarrow>
      session_phase (on_pre_negotiation env (W_Hello h) s) = Closed \<and>
      (\<exists>r. outbox (on_pre_negotiation env (W_Hello h) s) = outbox s @ [H_Refuse r] \<and>
         supported_versions r = [PROTOCOL_VERSION]))"
proof (cases "acceptable s h")
  case True
  then have "set (required_features h) \<subseteq> set (features (config s))" by (simp add: acceptable_def)
  with True show ?thesis
    unfolding on_hello(1) [OF True] by (auto simp: accept_hello_def)
next
  case False
  then obtain k m d where "on_pre_negotiation env (W_Hello h) s = refuse_negotiation k m d s"
    using on_hello(2) by blast
  then show ?thesis using False by (simp add: refuse_negotiation_def del: on_pre_negotiation.simps)
qed

theorem hello_decides_witness:
  "acceptable (new_session demo_config) demo_hello \<and>
   session_phase (on_pre_negotiation demo_env (W_Hello demo_hello) (new_session demo_config)) = Active"
proof -
  have "acceptable (new_session demo_config) demo_hello"
    by (simp add: acceptable_def new_session_def demo_hello_def config_eval name_ok_def
        chars_count_def is_continuation_def)
  with hello_decides [of "new_session demo_config" demo_hello demo_env] show ?thesis by simp
qed

section \<open>Handles\<close>

lemma insert_handle_Inr:
  assumes "insert_handle kind artifact s = (Inr h, t)"
  shows "h = HandleId (next_handle s)"
    and "t = s\<lparr>next_handle := wrap64 (next_handle s + 1),
           handles := bt_insert h \<lparr>lh_kind = kind, lh_artifact = artifact\<rparr> (handles s),
           live_handle_count := wrap32 (live_handle_count s + 1)\<rparr>"
    and "live_handle_count s < live_handles_ceiling (ceilings_of (config s))"
  using assms by (auto simp: insert_handle_def next_handle_id_def not_le split: if_splits)

lemma fresh_handle:
  assumes "session_core s"
  shows "HandleId (next_handle s)
    \<notin> bt_dom (handles s) \<union> bt_dom (retired_handles s) \<union> bt_dom (reclaimed_handles s)"
  using core_groups(3) [OF assms] unfolding handle_ids_ok_def by (metis handle_id.sel less_irrefl)

lemma gauge_next:
  assumes "session_core s" and "live_handle_count s < live_handles_ceiling (ceilings_of (config s))"
  shows "wrap32 (live_handle_count s + 1) = live_handle_count s + 1"
  using core_groups(5) [OF assms(1)] assms(2)
  unfolding ceilings_ok_def config_ok_def by (intro wrap32_small) linarith

text \<open>
  A minted capability handle is new, live and accounted for: its id was never live, released or
  reclaimed before, the gauge goes up by one and stays within the ceiling, and the handle is
  recorded against the call it was minted for.
\<close>

theorem minted_handle_is_fresh:
  assumes "session_inv s" and "mint_capability_handle cid s = (Inr h, t)"
  shows "h \<notin> bt_dom (handles s) \<union> bt_dom (retired_handles s) \<union> bt_dom (reclaimed_handles s) \<and>
    bt_get (handles t) h = Some \<lparr>lh_kind = Capability, lh_artifact = None\<rparr> \<and>
    live_handles t = live_handles s + 1 \<and>
    live_handles t \<le> live_handles_ceiling (ceilings_of (config t)) \<and>
    (\<exists>st. bt_get (worker_calls t) cid = Some st \<and> h \<in> set (wc_minted st))"
proof -
  obtain u where ins: "insert_handle Capability None s = (Inr h, u)" and t: "t = note_minted cid h u"
    and dom: "cid \<in> bt_dom (worker_calls s)"
    using assms(2) by (auto simp: mint_capability_handle_def bt_contains_iff
        split: if_splits prod.splits sum.splits)
  obtain st where "bt_get (worker_calls s) cid = Some st" using bt_dom_get [OF dom] by blast
  then show ?thesis
    using insert_handle_Inr [OF ins] fresh_handle [OF inv_core [OF assms(1)]]
      gauge_next [OF inv_core [OF assms(1)]]
    by (auto simp: t note_minted_def live_handles_def table_simps)
qed

definition demo_minting :: host_session where
  "demo_minting = run demo_env demo_config [say ''HC'']"

lemma demo_minting_inv: "session_inv demo_minting"
  unfolding demo_minting_def using demo_config_ok by (rule run_inv) simp

theorem minted_handle_is_fresh_witness:
  "fst (mint_capability_handle (CallId 1) demo_minting) = Inr (HandleId 1) \<and>
   live_handles (snd (mint_capability_handle (CallId 1) demo_minting)) = live_handles demo_minting + 1"
proof -
  have f: "fst (mint_capability_handle (CallId 1) demo_minting) = Inr (HandleId 1)"
    by (simp add: demo_minting_def mint_capability_handle_def demo_eval)
  then have "mint_capability_handle (CallId 1) demo_minting =
      (Inr (HandleId 1), snd (mint_capability_handle (CallId 1) demo_minting))"
    by (simp add: prod_eq_iff)
  from minted_handle_is_fresh [OF demo_minting_inv this] f show ?thesis by simp
qed

section \<open>Artifacts\<close>

lemma hex_length: "length (hex bs) = 2 * length bs"
  by (induction bs) (simp_all add: hex_def)

lemma hex_digit_lower: "n < 16 \<Longrightarrow> lower_hex_char (hex_digit n)"
  by (auto simp: lower_hex_char_def hex_digit_def Let_def)

lemma byte_nibbles: "unat (b :: byte) div 16 < 16" "unat (b :: byte) mod 16 < 16"
  using unsigned_less [of b, where 'a = nat] by simp_all

lemma hex_lower: "list_all lower_hex_char (hex bs)"
  by (induction bs) (simp_all add: hex_def hex_digit_lower byte_nibbles)

lemma hex_digest_ok: "length bs = 32 \<Longrightarrow> digest_ok (hex bs)"
  by (simp add: digest_ok_def hex_length hex_lower)

fun hex_value :: "char \<Rightarrow> nat" where
  "hex_value c = (let n = of_char c in if n < 58 then n - 48 else n - 87)"

fun unhex :: "string \<Rightarrow> byte list" where
  "unhex (a # b # cs) = word_of_nat (16 * hex_value a + hex_value b) # unhex cs"
| "unhex _ = []"

lemma hex_value_digit: "n < 16 \<Longrightarrow> hex_value (hex_digit n) = n"
  by (auto simp: hex_digit_def Let_def)

lemma unhex_hex: "unhex (hex bs) = bs"
proof (induction bs)
  case (Cons b bs)
  have "16 * (unat b div 16) + unat b mod 16 = unat b" by simp
  with Cons show ?case
    by (simp add: hex_def hex_value_digit byte_nibbles del: hex_value.simps)
qed (simp add: hex_def)

text \<open>The reads of a client that fetches an artifact of \<open>extent\<close> bytes in blocks of \<open>block\<close>.\<close>

definition read_plan :: "handle_id \<Rightarrow> nat \<Rightarrow> nat \<Rightarrow> artifact_read list" where
  "read_plan h block extent =
     map (\<lambda>i. \<lparr>read_handle = h, read_offset = i * block, read_len = min block (extent - i * block)\<rparr>)
       [0..<(extent + block - 1) div block]"

lemma concat_blocks: "concat (map (\<lambda>i. take b (drop (i * b) xs)) [0..<n]) = take (n * b) xs"
proof (induction n)
  case (Suc n)
  have "take (n * b + b) xs = take (n * b) xs @ take b (drop (n * b) xs)" by (rule take_add)
  with Suc show ?case by (simp add: add.commute)
qed simp

lemma block_inside:
  fixes block extent :: nat
  assumes "0 < block" and "i < (extent + block - 1) div block"
  shows "i * block < extent"
proof -
  have "Suc i * block \<le> extent + block - 1"
    using assms by (metis Suc_leI less_eq_div_iff_mult_less_eq)
  with assms(1) show ?thesis by simp
qed

lemma blocks_cover:
  fixes block extent :: nat
  assumes "0 < block"
  shows "extent \<le> (extent + block - 1) div block * block"
proof -
  have "extent + block - 1 < Suc ((extent + block - 1) div block) * block"
    using assms by (metis dividend_less_div_times mult_Suc add.commute)
  with assms show ?thesis by simp
qed

text \<open>
  An artifact can be read back whole: fetching a held artifact block by block, with any block
  size up to the read limit, is served for every block, and the decoded hex chunks concatenate to
  the bytes that were offered.
\<close>

theorem artifact_reads_reassemble:
  assumes "0 < block" and "block \<le> MAX_ARTIFACT_READ_BYTES" and "length (art_bytes a) < U64_MODULUS"
  shows "\<exists>chunks. map (\<lambda>r. artifact_chunk r a) (read_plan h block (length (art_bytes a))) = map Some chunks \<and>
    concat (map (\<lambda>c. unhex (hex c)) chunks) = art_bytes a"
proof -
  let ?n = "(length (art_bytes a) + block - 1) div block"
  let ?chunks = "map (\<lambda>i. take block (drop (i * block) (art_bytes a))) [0..<?n]"
  have "artifact_chunk \<lparr>read_handle = h, read_offset = i * block,
      read_len = min block (length (art_bytes a) - i * block)\<rparr> a
      = Some (take block (drop (i * block) (art_bytes a)))" if "i < ?n" for i
    using block_inside [OF assms(1) that] assms
    by (auto simp: artifact_chunk_def Let_def usize_checked_add_def min_def)
  then have "map (\<lambda>r. artifact_chunk r a) (read_plan h block (length (art_bytes a))) = map Some ?chunks"
    by (simp add: read_plan_def)
  moreover have "concat (map (\<lambda>c. unhex (hex c)) ?chunks) = art_bytes a"
    using blocks_cover [OF assms(1), of "length (art_bytes a)"]
    by (simp add: unhex_hex concat_blocks comp_def)
  ultimately show ?thesis by blast
qed

theorem artifact_reads_reassemble_witness:
  "\<exists>chunks. map (\<lambda>r. artifact_chunk r \<lparr>art_bytes = [1, 2, 3], art_media_type = ''x'', art_digest_blake3 = []\<rparr>)
       (read_plan (HandleId 1) 2 3) = map Some chunks \<and>
     concat (map (\<lambda>c. unhex (hex c)) chunks) = [1, 2, 3]"
  using artifact_reads_reassemble [of 2 "\<lparr>art_bytes = [1, 2, 3], art_media_type = ''x'', art_digest_blake3 = []\<rparr>"
      "HandleId 1"]
  by (simp add: MAX_ARTIFACT_READ_BYTES_def numeral_3_eq_3)

text \<open>
  What \<open>offer_artifact\<close> hands out, \<open>reply_to_worker\<close> accepts: a reply that spills to the offer
  just minted for the call passes every outbound check and is sent, given that the digest is the 32
  bytes BLAKE3 documents and that the id and the size are in the wire range.
\<close>

theorem offered_artifact_can_be_spilled:
  assumes "offer_artifact env cid bytes media s = (Inr a, t)" and "session_inv s"
    and "length (blake3_hash env bytes) = 32" and "length bytes \<le> MAX_WIRE_ID"
    and "next_handle s \<le> MAX_WIRE_ID"
  shows "fst (reply_to_worker env cid (Outcome_Spilled a) t) = Inr () \<and>
    outbox (snd (reply_to_worker env cid (Outcome_Spilled a) t)) =
      outbox t @ [H_Reply \<lparr>reply_call_id = cid, reply_outcome = Outcome_Spilled a\<rparr>]"
proof -
  let ?art = "\<lparr>art_bytes = bytes, art_media_type = media, art_digest_blake3 = hex (blake3_hash env bytes)\<rparr>"
  obtain h u where ins: "insert_handle Artifact (Some ?art) s = (Inr h, u)"
    and a: "a = \<lparr>offer_handle = h, offer_bytes = length bytes, offer_media_type = media,
                offer_digest_blake3 = hex (blake3_hash env bytes)\<rparr>"
    and t: "t = note_minted cid h u" and dom: "cid \<in> bt_dom (worker_calls s)"
    and active: "session_phase s = Active" and ne: "bytes \<noteq> []"
    and media: "chars_count media \<noteq> 0" "chars_count media \<le> MAX_MEDIA_TYPE_CHARS"
    using assms(1) by (auto simp: offer_artifact_def Let_def bt_contains_iff not_less
        split: if_splits prod.splits sum.splits)
  note i = insert_handle_Inr [OF ins]
  obtain st where st: "bt_get (worker_calls s) cid = Some st" using bt_dom_get [OF dom] by blast
  have "1 \<le> next_handle s"
    using core_groups(3) [OF inv_core [OF assms(2)]] by (simp add: handle_ids_ok_def)
  then have "validate_outbound_offer a t = Inr ()"
    using assms(3-5) i ne media
    by (simp add: a t note_minted_def validate_outbound_offer_def id_ok_def hex_digest_ok table_simps)
  moreover have "bt_get (worker_calls t) cid = Some (st\<lparr>wc_minted := wc_minted st @ [h]\<rparr>)"
    using st i by (simp add: t note_minted_def table_simps)
  moreover have "session_phase t = Active" using active i by (simp add: t)
  ultimately show ?thesis
    by (simp add: reply_to_worker_def Let_def a)
qed

theorem offered_artifact_can_be_spilled_witness:
  "\<exists>a t. offer_artifact demo_env (CallId 1) [1, 2, 3] ''text/plain'' demo_minting = (Inr a, t) \<and>
     fst (reply_to_worker demo_env (CallId 1) (Outcome_Spilled a) t) = Inr ()"
proof -
  obtain r t where r: "offer_artifact demo_env (CallId 1) [1, 2, 3] ''text/plain'' demo_minting = (r, t)"
    by (cases "offer_artifact demo_env (CallId 1) [1, 2, 3] ''text/plain'' demo_minting")
  moreover have "\<exists>a. fst (offer_artifact demo_env (CallId 1) [1, 2, 3] ''text/plain'' demo_minting) = Inr a"
    by (simp add: demo_minting_def demo_eval)
  ultimately obtain a where a: "r = Inr a" by auto
  have "next_handle demo_minting \<le> MAX_WIRE_ID" by (simp add: demo_minting_def demo_eval)
  with offered_artifact_can_be_spilled [OF r [unfolded a] demo_minting_inv] r a show ?thesis
    by (simp add: MAX_WIRE_ID_eq)
qed

section \<open>Releases\<close>

lemma release_live:
  assumes "bt_get (handles s) h = Some e"
  shows "on_release \<lparr>release_handle = h, release_kind = lh_kind e\<rparr> s =
    push_event (HandleReleased h (lh_kind e))
      (push_out (H_ReleaseAck \<lparr>ack_handle = h, ack_kind = lh_kind e\<rparr>) (drop_handle True h s))"
  using assms by (simp add: on_release_def)

lemma release_spent:
  assumes "h \<notin> bt_dom (handles s)" and "h \<notin> bt_dom (reclaimed_handles s)" and "h \<in> bt_dom (retired_handles s)"
  shows "on_release \<lparr>release_handle = h, release_kind = k\<rparr> s =
    fatal UnknownHandle ''release of a handle already released'' s"
  using assms by (simp add: on_release_def bt_get_None_iff [THEN iffD2] bt_contains_iff)

text \<open>
  A live handle is released once: the worker's release of a handle under its own kind is
  acknowledged and reported, takes one off the gauge, and leaves the session active; the same
  release again is a fatal fault.
\<close>

theorem handle_released_once:
  assumes "session_inv s" and "bt_get (handles s) h = Some e"
    and "r = \<lparr>release_handle = h, release_kind = lh_kind e\<rparr>" and "t = on_release r s"
  shows "outbox t = outbox s @ [H_ReleaseAck \<lparr>ack_handle = h, ack_kind = lh_kind e\<rparr>] \<and>
    events t = events s @ [HandleReleased h (lh_kind e)] \<and>
    live_handles t + 1 = live_handles s \<and> session_phase t = session_phase s \<and>
    on_release r t = fatal UnknownHandle ''release of a handle already released'' t"
proof -
  note core = inv_core [OF assms(1)]
  have dom: "h \<in> bt_dom (handles s)" using assms(2) by (rule bt_get_Some_dom)
  have t: "t = push_event (HandleReleased h (lh_kind e))
      (push_out (H_ReleaseAck \<lparr>ack_handle = h, ack_kind = lh_kind e\<rparr>) (drop_handle True h s))"
    using assms(2-4) release_live by simp
  note d = drop_handle_Some(1) [OF assms(2)]
  have "Suc (length (bt_remove h (handles s))) = length (handles s)"
    by (rule bt_len_remove [OF core_wf(3) [OF core] dom])
  moreover have "live_handle_count s = length (handles s)"
    using core_groups(3) [OF core] by (simp add: handle_ids_ok_def)
  moreover have "h \<notin> bt_dom (reclaimed_handles s)"
    using core_groups(3) [OF core] dom unfolding handle_ids_ok_def by blast
  ultimately show ?thesis
    using release_spent [of h t "lh_kind e"] gauge_pred [OF core dom] assms(3)
    by (simp add: t d live_handles_def)
qed

definition demo_holding :: host_session where
  "demo_holding = run demo_env demo_config
     [say ''HC'', In_offer_artifact (CallId 1) [1, 2, 3] ''text/plain'']"

lemma demo_holding_inv: "session_inv demo_holding"
  unfolding demo_holding_def using demo_config_ok by (rule run_inv) simp

theorem handle_released_once_witness:
  "\<exists>e. bt_get (handles demo_holding) (HandleId 1) = Some e \<and>
     live_handles (on_release \<lparr>release_handle = HandleId 1, release_kind = lh_kind e\<rparr> demo_holding) + 1
       = live_handles demo_holding"
proof -
  have "bt_get (handles demo_holding) (HandleId 1) \<noteq> None"
    by (simp add: demo_holding_def demo_eval)
  then obtain e where e: "bt_get (handles demo_holding) (HandleId 1) = Some e" by auto
  from handle_released_once [OF demo_holding_inv e refl refl] e show ?thesis by blast
qed

text \<open>
  A release that races a reclaim is harmless: the worker's release of a handle the host has
  already reclaimed is acknowledged without touching the gauge, no fact is reported, and it is
  acknowledged once: the same release again is a fatal fault.
\<close>

theorem reclaimed_handle_acked_once:
  assumes "session_inv s" and "bt_get (reclaimed_handles s) h = Some k"
    and "r = \<lparr>release_handle = h, release_kind = k\<rparr>" and "t = on_release r s"
  shows "outbox t = outbox s @ [H_ReleaseAck \<lparr>ack_handle = h, ack_kind = k\<rparr>] \<and>
    events t = events s \<and> live_handles t = live_handles s \<and>
    retired_operations t = retired_operations s \<and>
    on_release r t = fatal UnknownHandle ''release of a handle already released'' t"
proof -
  note core = inv_core [OF assms(1)]
  note g = core_groups(3) [OF core]
  have dom: "h \<in> bt_dom (reclaimed_handles s)" using assms(2) by (rule bt_get_Some_dom)
  have live: "h \<notin> bt_dom (handles s)" and spent: "h \<notin> bt_dom (retired_handles s)"
    using g dom unfolding handle_ids_ok_def by blast+
  have t: "t = push_out (H_ReleaseAck \<lparr>ack_handle = h, ack_kind = k\<rparr>)
      (s\<lparr>reclaimed_handles := bt_remove h (reclaimed_handles s),
         retired_handles := bs_insert h (retired_handles s)\<rparr>)"
    using assms(2-4) live by (simp add: on_release_def bt_get_None_iff [THEN iffD2])
  have "Suc (length (bt_remove h (reclaimed_handles s))) = length (reclaimed_handles s)"
    by (rule bt_len_remove [OF core_wf(6) [OF core] dom])
  moreover have "length (bs_insert h (retired_handles s)) = Suc (length (retired_handles s))"
    unfolding bs_insert_def by (rule bt_len_insert_fresh [OF spent])
  ultimately show ?thesis
    using release_spent [of h t k] live assms(3)
    by (simp add: t live_handles_def retired_operations_def)
qed

definition demo_reclaimed :: host_session where
  "demo_reclaimed = run demo_env demo_config
     [say ''HC'', In_offer_artifact (CallId 1) [1, 2, 3] ''text/plain'',
      In_reply_to_worker (CallId 1) (Outcome_Cancelled Requested)]"

theorem reclaimed_handle_acked_once_witness:
  "bt_get (reclaimed_handles demo_reclaimed) (HandleId 1) = Some Artifact \<and>
   events (on_release \<lparr>release_handle = HandleId 1, release_kind = Artifact\<rparr> demo_reclaimed)
     = events demo_reclaimed"
proof -
  have inv: "session_inv demo_reclaimed"
    unfolding demo_reclaimed_def using demo_config_ok by (rule run_inv) simp
  have r: "bt_get (reclaimed_handles demo_reclaimed) (HandleId 1) = Some Artifact"
    by (simp add: demo_reclaimed_def demo_eval)
  from reclaimed_handle_acked_once [OF inv r refl refl] r show ?thesis by blast
qed

text \<open>
  A worker's handle is released once: after the release is sent and acknowledged the handle is
  reported released and is neither pending nor releasable again, and a second acknowledgement is a
  fatal fault.
\<close>

theorem worker_handle_released_once:
  assumes "session_inv s" and "release_worker_handle h kind s = (Inr (), t)"
    and "a = \<lparr>ack_handle = h, ack_kind = kind\<rparr>" and "u = on_release_ack a t"
  shows "outbox t = outbox s @ [H_Release \<lparr>release_handle = h, release_kind = kind\<rparr>] \<and>
    events u = events s @ [WorkerHandleReleased h kind] \<and> session_phase u = Active \<and>
    release_worker_handle h kind u = (Inl App_AlreadyReleased, u) \<and>
    on_release_ack a u = fatal UnknownHandle ''unsolicited release-ack'' u"
proof -
  have t: "t = push_out (H_Release \<lparr>release_handle = h, release_kind = kind\<rparr>)
      (s\<lparr>pending_worker_releases := bt_insert h kind (pending_worker_releases s)\<rparr>)"
    and o1: "bt_get (offered_worker_handles s) h = Some kind" and ok: "id_ok (handle_no h)"
    and act: "session_phase s = Active"
    using assms(2) by (auto simp: release_worker_handle_def split: if_splits option.splits)
  have u: "u = push_event (WorkerHandleReleased h kind)
      (t\<lparr>pending_worker_releases := bt_remove h (pending_worker_releases t),
         retired_worker_handles := bs_insert h (retired_worker_handles t)\<rparr>)"
    using assms(3,4) by (simp add: t on_release_ack_def table_simps)
  show ?thesis
    using o1 ok act assms(3)
    by (simp add: u t release_worker_handle_def on_release_ack_def bt_contains_iff table_simps)
qed

theorem worker_handle_released_once_witness:
  "fst (release_worker_handle (HandleId 7) Artifact
     (run demo_env demo_config [say ''H'', In_call_worker ''get'' JNull None False, say ''P''])) = Inr () \<and>
   fst (release_worker_handle (HandleId 7) Artifact
     (on_release_ack \<lparr>ack_handle = HandleId 7, ack_kind = Artifact\<rparr>
       (snd (release_worker_handle (HandleId 7) Artifact
         (run demo_env demo_config [say ''H'', In_call_worker ''get'' JNull None False, say ''P''])))))
     = Inl App_AlreadyReleased"
proof -
  let ?s = "run demo_env demo_config [say ''H'', In_call_worker ''get'' JNull None False, say ''P'']"
  have inv: "session_inv ?s" using demo_config_ok by (rule run_inv) simp
  have f: "fst (release_worker_handle (HandleId 7) Artifact ?s) = Inr ()"
    by (simp add: demo_eval release_worker_handle_def digest_ok_def lower_hex_char_def list_all_iff)
  then have "release_worker_handle (HandleId 7) Artifact ?s =
      (Inr (), snd (release_worker_handle (HandleId 7) Artifact ?s))"
    by (simp add: prod_eq_iff)
  from worker_handle_released_once [OF inv this refl refl] f show ?thesis by simp
qed

section \<open>Streams\<close>

text \<open>
  The host never overdraws the worker's window: on an open stream of an active session, a
  lossless item that is otherwise valid is sent if and only if a credit is left; sending it spends
  one credit and uses the next sequence number, which then advances by one.
\<close>

theorem lossless_item_needs_credit:
  assumes "session_phase s = Active" and "bt_get (worker_calls s) cid = Some st"
    and "wc_stream_credit st = Some w" and "\<not> wc_last_item_sent st" and "value_within_ijson payload"
    and "len_or_max env payload \<le> MAX_STREAM_DATA_BYTES"
    and "stream_item env cid Lossless has_more payload s = (r, t)"
  shows "(r = Inr () \<longleftrightarrow> 0 < w) \<and> (w = 0 \<longrightarrow> t = s) \<and>
    (0 < w \<longrightarrow>
       outbox t = outbox s @ [H_StreamData \<lparr>data_call_id = cid, data_seq = wc_next_seq st,
         data_more = has_more, data_class = Lossless, data_dropped = wc_lossy_dropped st,
         data_payload = payload\<rparr>] \<and>
       (\<exists>st'. bt_get (worker_calls t) cid = Some st' \<and> wc_stream_credit st' = Some (w - 1) \<and>
          wc_next_seq st' = wrap64 (wc_next_seq st + 1)))"
proof (cases "w = 0")
  case True
  with assms show ?thesis by (auto simp: stream_item_def)
next
  case False
  with assms have "r = Inr ()" and "t = push_out (H_StreamData \<lparr>data_call_id = cid, data_seq = wc_next_seq st,
      data_more = has_more, data_class = Lossless, data_dropped = wc_lossy_dropped st,
      data_payload = payload\<rparr>) (modify_worker_call cid (send_item Lossless has_more w) s)"
    by (auto simp: stream_item_def)
  with False assms(2) show ?thesis
    by (simp add: modify_worker_call_def send_item_def table_simps)
qed

theorem lossless_item_needs_credit_witness:
  "fst (stream_item demo_env (CallId 1) Lossless True JNull
     (run demo_env demo_config [say ''HC'', In_open_stream (CallId 1) 2])) = Inr ()"
proof -
  let ?s = "run demo_env demo_config [say ''HC'', In_open_stream (CallId 1) 2]"
  obtain r t where r: "stream_item demo_env (CallId 1) Lossless True JNull ?s = (r, t)"
    by (cases "stream_item demo_env (CallId 1) Lossless True JNull ?s")
  have a: "session_phase ?s = Active" by (simp add: demo_eval)
  have g: "bt_get (worker_calls ?s) (CallId 1) =
      Some ((fresh_worker_call True)\<lparr>wc_stream_credit := Some 2\<rparr>)"
    by (simp add: demo_eval)
  have l: "len_or_max demo_env JNull \<le> MAX_STREAM_DATA_BYTES"
    by (simp add: len_or_max_def MAX_STREAM_DATA_BYTES_def)
  from lossless_item_needs_credit [OF a g _ _ _ l r] r show ?thesis
    by (simp add: fresh_worker_call_def)
qed

text \<open>
  Frames that cross a settlement on the wire are harmless: once a host call is settled, a stream
  open or an item within the size bound for it, and any late reply that is not a spill, leave the
  session exactly as it was.
\<close>

theorem late_frames_are_ignored:
  assumes "session_inv s" and "cid \<in> bt_dom (retired_host_calls s)"
    and "open_call_id m = cid" and "data_call_id d = cid"
    and "len_or_max env (data_payload d) \<le> MAX_STREAM_DATA_BYTES"
    and "reply_call_id r = cid" and "\<And>a. reply_outcome r \<noteq> Outcome_Spilled a"
  shows "on_stream_open m s = s \<and> on_stream_data env d s = s \<and> on_worker_reply env r s = s"
proof -
  have "cid \<notin> bt_dom (host_calls s)"
    using core_groups(2) [OF inv_core [OF assms(1)]] assms(2) unfolding call_ids_ok_def by blast
  then have "bt_get (host_calls s) cid = None" by (simp add: bt_get_None_iff)
  moreover have "on_late_reply (reply_outcome r) s = s" using assms(7) by (cases "reply_outcome r") auto
  ultimately show ?thesis
    using assms \<open>cid \<notin> bt_dom (host_calls s)\<close>
    by (simp add: on_stream_open_def on_stream_data_def on_worker_reply_def bt_contains_iff)
qed

theorem late_frames_are_ignored_witness:
  "on_stream_data demo_env (demo_item 2 True) (run demo_env demo_config demo_stream_run)
     = run demo_env demo_config demo_stream_run"
proof -
  let ?s = "run demo_env demo_config demo_stream_run"
  have inv: "session_inv ?s" using demo_config_ok demo_lengths(1) by (rule run_inv)
  have dom: "CallId 1 \<in> bt_dom (retired_host_calls ?s)" by (simp add: demo_stream_run_def demo_eval)
  from late_frames_are_ignored [OF inv dom, of "\<lparr>open_call_id = CallId 1, open_credit = 1\<rparr>"
      "demo_item 2 True" demo_env "\<lparr>reply_call_id = CallId 1, reply_outcome = Outcome_Ok JNull\<rparr>"]
  show ?thesis by (simp add: demo_item_def len_or_max_def MAX_STREAM_DATA_BYTES_def)
qed

end
