(* ===== verification/Kernel_Ids.thy ===== *)
theory Kernel_Ids
  imports Yah_Prelude "HOL-Library.Char_ord" "HOL-Library.List_Lexorder"
begin

text \<open>
  Identifiers, fencing counters and error kinds of the kernel (\<open>yah-kernel/src/ids.rs\<close>, \<open>error.rs\<close>):
  digests in wire form, time-ordered UUIDs minted from an injected clock and entropy, and the grammar of
  wire identifiers.
\<close>

unbundle bit_operations_syntax

section \<open>Characters\<close>

abbreviation code :: "char \<Rightarrow> nat" where "code c \<equiv> of_char c"

definition ascii_digit :: "char \<Rightarrow> bool" where
  "ascii_digit c \<longleftrightarrow> 48 \<le> code c \<and> code c \<le> 57"

definition is_ascii_uppercase :: "char \<Rightarrow> bool" where
  "is_ascii_uppercase c \<longleftrightarrow> 65 \<le> code c \<and> code c \<le> 90"

definition is_ascii_lowercase :: "char \<Rightarrow> bool" where
  "is_ascii_lowercase c \<longleftrightarrow> 97 \<le> code c \<and> code c \<le> 122"

definition is_ascii_hexdigit :: "char \<Rightarrow> bool" where
  "is_ascii_hexdigit c \<longleftrightarrow>
     ascii_digit c \<or> 65 \<le> code c \<and> code c \<le> 70 \<or> 97 \<le> code c \<and> code c \<le> 102"

definition is_ascii_alphanumeric :: "char \<Rightarrow> bool" where
  "is_ascii_alphanumeric c \<longleftrightarrow> ascii_digit c \<or> is_ascii_uppercase c \<or> is_ascii_lowercase c"

text \<open>Decimal numerals: the digits that \<open>show_nat\<close> prints, and their value.\<close>

lemma show_nat_digits: "list_all ascii_digit (show_nat n) \<and> show_nat n \<noteq> []"
proof (induction n rule: show_nat.induct)
  case (1 n)
  show ?case
  proof (cases "n < 10")
    case True
    then show ?thesis by (simp add: show_nat.simps [of n] ascii_digit_def)
  next
    case False
    have "n mod 10 < 10" by simp
    then have "ascii_digit (char_of (48 + n mod 10))" by (simp add: ascii_digit_def)
    with 1 False show ?thesis by (simp add: show_nat.simps [of n])
  qed
qed

lemma show_nat_value: "foldl (\<lambda>a c. a * 10 + (code c - 48)) 0 (show_nat n) = n"
proof (induction n rule: show_nat.induct)
  case (1 n)
  show ?case
  proof (cases "n < 10")
    case True
    then show ?thesis by (simp add: show_nat.simps [of n])
  next
    case False
    have "n mod 10 < 10" by simp
    then have "code (char_of (48 + n mod 10)) = 48 + n mod 10" by (simp only: of_char_of) simp
    with 1 False show ?thesis by (simp add: show_nat.simps [of n])
  qed
qed

lemma show_nat_inject [simp]: "show_nat m = show_nat n \<longleftrightarrow> m = n"
  by (metis show_nat_value)

section \<open>Digests\<close>

datatype digest = Digest (digest_text: string)

datatype digest_error = DigestPrefix string | DigestHex string

text \<open>\<open>blake3\<close> is a parameter: \<open>hash_hex\<close> maps bytes to the hexadecimal text of their hash.\<close>

definition digest_of_bytes :: "(string \<Rightarrow> string) \<Rightarrow> string \<Rightarrow> digest" where
  "digest_of_bytes hash_hex bytes = Digest (''blake3:'' @ hash_hex bytes)"

definition strip_prefix_of :: "string \<Rightarrow> string \<Rightarrow> string option" where
  "strip_prefix_of p s = (if take (length p) s = p then Some (drop (length p) s) else None)"

definition is_hash_hex :: "string \<Rightarrow> bool" where
  "is_hash_hex h \<longleftrightarrow> length h = 64 \<and> list_all (\<lambda>b. is_ascii_hexdigit b \<and> \<not> is_ascii_uppercase b) h"

definition digest_try_from :: "string \<Rightarrow> digest_error + digest" where
  "digest_try_from s =
     (case strip_prefix_of ''blake3:'' s of
        None \<Rightarrow> Inl (DigestPrefix s)
      | Some h \<Rightarrow> if \<not> is_hash_hex h then Inl (DigestHex s) else Inr (Digest s))"

section \<open>UUIDs\<close>

type_synonym u128 = nat

datatype uuid7 = Uuid7 (uuid_value: u128)

definition uuid_mint :: "u64 \<Rightarrow> u128 \<Rightarrow> uuid7" where
  "uuid_mint unix_ms entropy =
     (let ts = push_bit 80 (unix_ms AND 0xFFFFFFFFFFFF);
          rand_a = drop_bit 64 entropy AND 0x0FFF;
          rand_b = entropy AND 0x3FFFFFFFFFFFFFFF
      in Uuid7 (ts OR push_bit 76 7 OR push_bit 64 rand_a OR push_bit 62 2 OR rand_b))"

text \<open>\<open>u128::to_be_bytes\<close>: the sixteen digits to base 256, most significant first.\<close>

definition be_bytes :: "nat \<Rightarrow> u128 \<Rightarrow> nat list" where
  "be_bytes n v = map (\<lambda>i. (v div 256 ^ (n - 1 - i)) mod 256) [0..<n]"

definition nibble :: "nat \<Rightarrow> char" where
  "nibble n = char_of (if n < 10 then 48 + n else 87 + n)"

definition byte_hex :: "nat \<Rightarrow> string" where
  "byte_hex b = [nibble (b div 16), nibble (b mod 16)]"

definition uuid_text :: "uuid7 \<Rightarrow> string" where
  "uuid_text u =
     (let b = map byte_hex (be_bytes 16 (uuid_value u))
      in concat (take 4 b) @ ''-'' @ concat (take 2 (drop 4 b)) @ ''-'' @ concat (take 2 (drop 6 b)) @ ''-''
           @ concat (take 2 (drop 8 b)) @ ''-'' @ concat (drop 10 b))"

definition hex_value_of :: "char \<Rightarrow> nat option" where
  "hex_value_of c =
     (if ascii_digit c then Some (code c - 48)
      else if 97 \<le> code c \<and> code c \<le> 102 then Some (code c - 87)
      else if 65 \<le> code c \<and> code c \<le> 70 then Some (code c - 55)
      else None)"

text \<open>\<open>u128::from_str_radix\<close> to base 16: an optional plus sign, then one digit or more, of either case.\<close>

fun radix_digits :: "nat \<Rightarrow> string \<Rightarrow> u128 option" where
  "radix_digits acc [] = Some acc"
| "radix_digits acc (c # cs) =
     (case hex_value_of c of
        None \<Rightarrow> None
      | Some d \<Rightarrow> if acc * 16 + d < 2 ^ 128 then radix_digits (acc * 16 + d) cs else None)"

definition from_str_radix_16 :: "string \<Rightarrow> u128 option" where
  "from_str_radix_16 s =
     (case s of
        [] \<Rightarrow> None
      | c # cs \<Rightarrow>
          if c = CHR ''+'' then (if cs = [] then None else radix_digits 0 cs)
          else radix_digits 0 s)"

datatype uuid_error = NotHyphenated string | BadUuid string

definition uuid_try_from :: "string \<Rightarrow> uuid_error + uuid7" where
  "uuid_try_from s =
     (let hex = filter (\<lambda>c. c \<noteq> CHR ''-'') s
      in if length s \<noteq> 36 \<or> length hex \<noteq> 32 then Inl (NotHyphenated s)
         else case from_str_radix_16 hex of
                None \<Rightarrow> Inl (BadUuid s)
              | Some v \<Rightarrow> Inr (Uuid7 v))"

section \<open>Wire identifiers\<close>

definition valid_wire_identifier :: "string \<Rightarrow> bool" where
  "valid_wire_identifier s \<longleftrightarrow>
     s \<noteq> [] \<and> length s \<le> 64 \<and> list_all (\<lambda>b. is_ascii_alphanumeric b \<or> b \<in> set ''_.:-'') s"

section \<open>Error kinds\<close>

datatype error_kind =
    InvalidRequest | Unauthenticated | Unauthorized | NotFound | VersionConflict | IdempotencyConflict
  | FenceRejected | JournalImmutable | PolicyDenied | CapabilityUnsupported | ApprovalRequired
  | ResourceExhausted | PayloadTooLarge | CursorExpired | SlowConsumer | Err_Cancelled | DeadlineExceeded
  | Unavailable | OutcomeUnknown | Internal

definition retryable :: "error_kind \<Rightarrow> bool" where
  "retryable k \<longleftrightarrow>
     k \<in> {VersionConflict, ApprovalRequired, ResourceExhausted, DeadlineExceeded, Unavailable}"

definition reconcile_required :: "error_kind \<Rightarrow> bool" where
  "reconcile_required k \<longleftrightarrow> k = OutcomeUnknown"

datatype provider_error_kind =
  RateLimit | Provider_InvalidRequest | ContextLengthExceeded | ServerError | UnsupportedCapability

definition transient :: "provider_error_kind \<Rightarrow> bool" where
  "transient k \<longleftrightarrow> k \<in> {RateLimit, ServerError}"

section \<open>Minting\<close>

lemma or_disjoint_plus:
  "a < 2 ^ n \<Longrightarrow> push_bit n b OR a = b * 2 ^ n + (a :: nat)"
proof -
  assume "a < 2 ^ n"
  then have "take_bit n a = a" by (simp add: take_bit_nat_eq_self)
  then have "\<not> bit (push_bit n b) k \<or> \<not> bit a k" for k by (metis bit_push_bit_iff bit_take_bit_iff not_le)
  then have "push_bit n b + a = push_bit n b OR a" by (intro disjunctive_add)
  then show ?thesis by (simp add: push_bit_eq_mult)
qed
text \<open>The fields of a minted identifier do not overlap: its value is the sum of their contributions.\<close>

lemma uuid_mint_value:
  "uuid_value (uuid_mint ms entropy) =
     (ms mod 2 ^ 48) * 2 ^ 80 + 7 * 2 ^ 76 + ((entropy div 2 ^ 64) mod 2 ^ 12) * 2 ^ 64 + 2 * 2 ^ 62 + entropy mod 2 ^ 62"
proof -
  define ra where "ra = (entropy div 2 ^ 64) mod 2 ^ 12"
  define rb where "rb = entropy mod 2 ^ 62"
  have and_eq: "x AND 0xFFFFFFFFFFFF = x mod 2 ^ 48" "x AND 0x0FFF = x mod 2 ^ 12"
    "x AND 0x3FFFFFFFFFFFFFFF = x mod 2 ^ 62" for x :: nat
    using and_nat_numerals mask_nat_def [of 48] mask_nat_def [of 12] mask_nat_def [of 62]
      take_bit_eq_mask [of 48 x] take_bit_eq_mask [of 12 x] take_bit_eq_mask [of 62 x]
    by (simp_all add: take_bit_nat_def)
  have bounds: "ra < 2 ^ 12" "rb < 2 ^ 62" by (simp_all add: ra_def rb_def)
  have 1: "push_bit 62 2 OR rb = 2 * 2 ^ 62 + rb" by (rule or_disjoint_plus [OF bounds(2)])
  have 2: "push_bit 64 ra OR (2 * 2 ^ 62 + rb) = ra * 2 ^ 64 + (2 * 2 ^ 62 + rb)"
    by (rule or_disjoint_plus) (use bounds in simp)
  have 3: "push_bit 76 7 OR (ra * 2 ^ 64 + (2 * 2 ^ 62 + rb)) = 7 * 2 ^ 76 + (ra * 2 ^ 64 + (2 * 2 ^ 62 + rb))"
    by (rule or_disjoint_plus) (use bounds in simp)
  have 4: "push_bit 80 t OR (7 * 2 ^ 76 + (ra * 2 ^ 64 + (2 * 2 ^ 62 + rb))) =
      t * 2 ^ 80 + (7 * 2 ^ 76 + (ra * 2 ^ 64 + (2 * 2 ^ 62 + rb)))" for t
    by (rule or_disjoint_plus) (use bounds in simp)
  have "uuid_value (uuid_mint ms entropy) =
      push_bit 80 (ms mod 2 ^ 48) OR (push_bit 76 7 OR (push_bit 64 ra OR (push_bit 62 2 OR rb)))"
    by (simp only: uuid_mint_def Let_def uuid7.sel and_eq or.assoc ra_def rb_def drop_bit_nat_def)
  then show ?thesis by (simp only: 1 2 3 4) (simp only: ra_def rb_def add.assoc)
qed

lemma uuid_mint_bound: "uuid_value (uuid_mint ms entropy) < 2 ^ 128"
proof -
  have "ms mod 2 ^ 48 < 2 ^ 48" "(entropy div 2 ^ 64) mod 2 ^ 12 < 2 ^ 12" "entropy mod 2 ^ 62 < 2 ^ 62" by simp_all
  then show ?thesis unfolding uuid_mint_value by simp
qed

section \<open>Text and back\<close>

lemma be_bytes_Suc: "be_bytes (Suc n) v = (v div 256 ^ n) mod 256 # be_bytes n v"
  by (simp add: be_bytes_def upt_conv_Cons map_Suc_upt [symmetric] comp_def del: upt_Suc)

lemma be_bytes_less: "b \<in> set (be_bytes n v) \<Longrightarrow> b < 256"
  by (auto simp: be_bytes_def)

lemma length_be_bytes [simp]: "length (be_bytes n v) = n"
  by (simp add: be_bytes_def)

lemma be_bytes_value: "foldl (\<lambda>a b. a * 256 + b) acc (be_bytes n v) = acc * 256 ^ n + v mod 256 ^ n"
proof (induction n arbitrary: acc)
  case (Suc n)
  have "v mod 256 ^ Suc n = 256 ^ n * (v div 256 ^ n mod 256) + v mod 256 ^ n"
    by (metis mod_mult2_eq power_Suc2)
  with Suc show ?case by (simp add: be_bytes_Suc algebra_simps)
qed (simp add: be_bytes_def)

lemma nibble_code: "n < 16 \<Longrightarrow> code (nibble n) = (if n < 10 then 48 + n else 87 + n)"
  by (simp add: nibble_def)

lemma nibble_value: "n < 16 \<Longrightarrow> hex_value_of (nibble n) = Some n"
  by (auto simp: hex_value_of_def nibble_code ascii_digit_def)

lemma nibble_not_special: "n < 16 \<Longrightarrow> nibble n \<noteq> CHR ''-'' \<and> nibble n \<noteq> CHR ''+''"
  using nibble_code [of n] by (auto split: if_splits)

lemma radix_bytes:
  assumes "\<forall>b \<in> set bs. b < 256" and "acc < 2 ^ 128" and "foldl (\<lambda>a b. a * 256 + b) acc bs < 2 ^ 128"
  shows "radix_digits acc (concat (map byte_hex bs)) = Some (foldl (\<lambda>a b. a * 256 + b) acc bs)"
  using assms
proof (induction bs arbitrary: acc)
  case (Cons b bs)
  have grow: "x \<le> foldl (\<lambda>a b. a * 256 + b) x bs" for x :: nat
  proof (induction bs arbitrary: x)
    case (Cons b bs)
    have "x \<le> x * 256 + b" by simp
    also have "\<dots> \<le> foldl (\<lambda>a b. a * 256 + b) (x * 256 + b) bs" by (rule Cons.IH)
    finally show ?case by simp
  qed simp
  have total: "acc * 256 + b < 2 ^ 128" using Cons.prems(3) grow [of "acc * 256 + b"] by simp
  have "acc * 16 + b div 16 < 2 ^ 128" using total by simp
  moreover have "(acc * 16 + b div 16) * 16 + b mod 16 = acc * 256 + b" by simp
  moreover have "b div 16 < 16" "b mod 16 < 16" using Cons.prems(1) by auto
  ultimately show ?case using total Cons.IH [of "acc * 256 + b"] Cons.prems
    by (simp add: byte_hex_def nibble_value add.commute mult.commute)
qed simp

lemma filter_nibbles:
  "\<forall>b \<in> set bs. b < 256 \<Longrightarrow> filter (\<lambda>c. c \<noteq> CHR ''-'') (concat (map byte_hex bs)) = concat (map byte_hex bs)"
proof (induction bs)
  case (Cons b bs)
  have "b div 16 < 16" "b mod 16 < 16" using Cons.prems by auto
  with Cons nibble_not_special show ?case by (simp add: byte_hex_def)
qed simp

lemma length_byte_hexes: "length (concat (map byte_hex bs)) = 2 * length bs"
  by (induction bs) (simp_all add: byte_hex_def)

lemma uuid_text_digits:
  fixes u :: uuid7
  defines "bs \<equiv> be_bytes 16 (uuid_value u)"
  shows "filter (\<lambda>c. c \<noteq> CHR ''-'') (uuid_text u) = concat (map byte_hex bs)" and "length (uuid_text u) = 36"
proof -
  have split: "bs = take 4 bs @ take 2 (drop 4 bs) @ take 2 (drop 6 bs) @ take 2 (drop 8 bs) @ drop 10 bs"
    using append_take_drop_id [of 2 "drop 4 bs"] append_take_drop_id [of 2 "drop 6 bs"]
      append_take_drop_id [of 2 "drop 8 bs"] append_take_drop_id [of 4 bs]
    by (simp del: append_take_drop_id)
  have bytes: "\<forall>b \<in> set bs. b < 256" using be_bytes_less by (auto simp: bs_def)
  then have f: "filter (\<lambda>c. c \<noteq> CHR ''-'') (concat (map byte_hex (take n bs))) = concat (map byte_hex (take n bs))"
    "filter (\<lambda>c. c \<noteq> CHR ''-'') (concat (map byte_hex (take n (drop m bs)))) = concat (map byte_hex (take n (drop m bs)))"
    "filter (\<lambda>c. c \<noteq> CHR ''-'') (concat (map byte_hex (drop m bs))) = concat (map byte_hex (drop m bs))" for n m
    by (intro filter_nibbles; auto dest: in_set_takeD in_set_dropD)+
  have shape: "uuid_text u = concat (map byte_hex (take 4 bs)) @ ''-'' @ concat (map byte_hex (take 2 (drop 4 bs))) @ ''-''
      @ concat (map byte_hex (take 2 (drop 6 bs))) @ ''-'' @ concat (map byte_hex (take 2 (drop 8 bs))) @ ''-''
      @ concat (map byte_hex (drop 10 bs))"
    by (simp add: uuid_text_def Let_def bs_def take_map drop_map)
  have "filter (\<lambda>c. c \<noteq> CHR ''-'') (uuid_text u) =
      concat (map byte_hex (take 4 bs @ take 2 (drop 4 bs) @ take 2 (drop 6 bs) @ take 2 (drop 8 bs) @ drop 10 bs))"
    unfolding shape by (simp add: f)
  then show "filter (\<lambda>c. c \<noteq> CHR ''-'') (uuid_text u) = concat (map byte_hex bs)" using split by metis
  show "length (uuid_text u) = 36" unfolding shape by (simp add: length_byte_hexes bs_def)
qed
section \<open>Properties\<close>

lemma digits_unique:
  fixes a b c d m :: nat
  assumes "c < m" and "d < m"
  shows "a * m + c = b * m + d \<longleftrightarrow> a = b \<and> c = d"
proof
  assume eq: "a * m + c = b * m + d"
  have "c = (a * m + c) mod m" using assms by simp
  also have "\<dots> = d" using assms by (simp add: eq)
  finally show "a = b \<and> c = d" using eq assms by simp
qed simp

text \<open>
  The text of an identifier is read back as that identifier; identifiers minted at different
  milliseconds of the 48-bit clock are ordered by time whatever the entropy; and at the same millisecond
  they agree exactly when the 74 bits of entropy that are kept agree.
\<close>

theorem uuid_identity:
  assumes "v < 2 ^ 128" and "s < 2 ^ 48" and "t < 2 ^ 48"
  shows "uuid_try_from (uuid_text (Uuid7 v)) = Inr (Uuid7 v) \<and>
    (s < t \<longrightarrow> uuid_value (uuid_mint s e) < uuid_value (uuid_mint t f)) \<and>
    (uuid_mint s e = uuid_mint s f \<longleftrightarrow> e mod 2 ^ 62 = f mod 2 ^ 62 \<and> (e div 2 ^ 64) mod 2 ^ 12 = (f div 2 ^ 64) mod 2 ^ 12)"
proof (intro conjI)
  define bs where "bs = be_bytes 16 v"
  have bytes: "\<forall>b \<in> set bs. b < 256" using be_bytes_less by (auto simp: bs_def)
  have val: "foldl (\<lambda>a b. a * 256 + b) 0 bs = v" using be_bytes_value [of 0 16 v] assms(1) by (simp add: bs_def)
  have "radix_digits 0 (concat (map byte_hex bs)) = Some v"
    using radix_bytes [OF bytes, of 0] val assms(1) by simp
  moreover obtain b bs' where "bs = b # bs'" by (cases bs) (auto dest: arg_cong [of _ _ length] simp: bs_def)
  moreover have "nibble (b div 16) \<noteq> CHR ''+''"
  proof -
    have "b < 256" using bytes calculation(2) by simp
    then have "b div 16 < 16" by simp
    then show ?thesis using nibble_not_special by blast
  qed
  ultimately have "from_str_radix_16 (concat (map byte_hex bs)) = Some v"
    by (simp add: from_str_radix_16_def byte_hex_def)
  then show "uuid_try_from (uuid_text (Uuid7 v)) = Inr (Uuid7 v)"
    using uuid_text_digits [of "Uuid7 v"] by (simp add: uuid_try_from_def Let_def length_byte_hexes bs_def)
next
  have order: "x * 2 ^ 80 + 7 * 2 ^ 76 + a * 2 ^ 64 + 2 * 2 ^ 62 + c < y * 2 ^ 80 + 7 * 2 ^ 76 + b * 2 ^ 64 + 2 * 2 ^ 62 + d"
    if "a < 2 ^ 12" "c < 2 ^ 62" "x < y" for a b c d x y :: nat
    using that by simp
  have "uuid_value (uuid_mint s e) < uuid_value (uuid_mint t f)" if "s < t"
    unfolding uuid_mint_value by (rule order) (use that assms(2,3) in simp_all)
  then show "s < t \<longrightarrow> uuid_value (uuid_mint s e) < uuid_value (uuid_mint t f)" by blast
next
  have "uuid_mint s e = uuid_mint s f \<longleftrightarrow>
      ((e div 2 ^ 64) mod 2 ^ 12) * 2 ^ 64 + e mod 2 ^ 62 = ((f div 2 ^ 64) mod 2 ^ 12) * 2 ^ 64 + f mod 2 ^ 62"
  proof -
    have sums: "x + p + a + q + c = x + p + b + q + d \<longleftrightarrow> a + c = b + d" for x p q a b c d :: nat by linarith
    have "uuid_mint s e = uuid_mint s f \<longleftrightarrow> uuid_value (uuid_mint s e) = uuid_value (uuid_mint s f)"
      by (auto intro: uuid7.expand)
    then show ?thesis by (simp only: uuid_mint_value sums)
  qed
  also have "\<dots> \<longleftrightarrow> e mod 2 ^ 62 = f mod 2 ^ 62 \<and> (e div 2 ^ 64) mod 2 ^ 12 = (f div 2 ^ 64) mod 2 ^ 12"
  proof -
    have small: "x mod 2 ^ 62 < (2 :: nat) ^ 64" for x by (rule less_trans [of _ "2 ^ 62"]) simp_all
    from digits_unique [OF small small] show ?thesis by blast
  qed
  finally show "uuid_mint s e = uuid_mint s f \<longleftrightarrow>
      e mod 2 ^ 62 = f mod 2 ^ 62 \<and> (e div 2 ^ 64) mod 2 ^ 12 = (f div 2 ^ 64) mod 2 ^ 12" .
qed

theorem uuid_identity_witness:
  "uuid_try_from (uuid_text (Uuid7 258)) = Inr (Uuid7 258) \<and> uuid_value (uuid_mint 1 42) < uuid_value (uuid_mint 2 0)"
  using uuid_identity [of 258 1 2 42 0] by simp

lemma strip_prefix_Some: "strip_prefix_of p s = Some h \<longleftrightarrow> s = p @ h"
  by (auto simp: strip_prefix_of_def) (metis append_take_drop_id)

lemma digest_wire_form:
  "digest_try_from s = Inr d \<longleftrightarrow> (\<exists>h. s = ''blake3:'' @ h \<and> is_hash_hex h \<and> d = Digest s)"
proof (cases "strip_prefix_of ''blake3:'' s")
  case None
  then have "s \<noteq> ''blake3:'' @ h" for h using strip_prefix_Some [of "''blake3:''" s h] by simp
  with None show ?thesis by (simp add: digest_try_from_def)
next
  case (Some h)
  then have "s = ''blake3:'' @ h" by (simp only: strip_prefix_Some)
  with Some show ?thesis by (auto simp: digest_try_from_def)
qed

lemma wire_identifier_chars:
  "valid_wire_identifier s \<Longrightarrow> c \<in> set s \<Longrightarrow> c \<noteq> CHR ''/''"
  by (auto simp: valid_wire_identifier_def list_all_iff is_ascii_alphanumeric_def ascii_digit_def
      is_ascii_uppercase_def is_ascii_lowercase_def)

end
