(* ===== verification/Kernel_Cancel.thy ===== *)
theory Kernel_Cancel
  imports Kernel_Ids "HOL-Library.Product_Lexorder" "HOL-Library.Multiset"
begin

text \<open>
  Cancellation records (\<open>yah-kernel/src/cancel.rs\<close>) and the advance of a request's status
  (\<open>funnel/cancel_rules.rs\<close>): the frozen scope of a cancellation, its leaf-first order, the lookup of a
  member by binary search, and when a request is settled.
\<close>

section \<open>Kinds and outcomes\<close>

definition MAX_SCOPE_MEMBERS :: usize where "MAX_SCOPE_MEMBERS = 4096"

datatype cancel_kind = Kind_Run | Kind_ExecutionUnit | Kind_Attempt | Kind_EffectIntent

fun depth :: "cancel_kind \<Rightarrow> nat" where
  "depth Kind_Run = 0"
| "depth Kind_ExecutionUnit = 1"
| "depth Kind_Attempt = 2"
| "depth Kind_EffectIntent = 3"

definition kind_contains :: "cancel_kind \<Rightarrow> cancel_kind \<Rightarrow> bool" where
  "kind_contains a b \<longleftrightarrow> depth a < depth b"

fun cancel_kind_wire :: "cancel_kind \<Rightarrow> string" where
  "cancel_kind_wire Kind_Run = ''run''"
| "cancel_kind_wire Kind_ExecutionUnit = ''execution_unit''"
| "cancel_kind_wire Kind_Attempt = ''attempt''"
| "cancel_kind_wire Kind_EffectIntent = ''effect_intent''"

datatype kernel_cancel_reason =
  OwnerRequest | BudgetExhausted | PolicyViolation | SupersededByEpoch | DependencyFailed | ShutdownDrain

datatype cancel_policy = AttachedCascade | RootOnly
datatype attachment = Attached | Detached
datatype cancel_status = Status_Requested | Status_Delivering | Status_ObservedPartial | Status_Settled
datatype delivery_outcome = ObservedStopped | Unresponsive | AlreadyTerminal | DetachedDeclined

fun is_discharged :: "delivery_outcome \<Rightarrow> bool" where
  "is_discharged ObservedStopped = True"
| "is_discharged AlreadyTerminal = True"
| "is_discharged DetachedDeclined = True"
| "is_discharged Unresponsive = False"

fun delivery_outcome_wire :: "delivery_outcome \<Rightarrow> string" where
  "delivery_outcome_wire ObservedStopped = ''observed_stopped''"
| "delivery_outcome_wire Unresponsive = ''unresponsive''"
| "delivery_outcome_wire AlreadyTerminal = ''already_terminal''"
| "delivery_outcome_wire DetachedDeclined = ''detached_declined''"

section \<open>The frozen scope\<close>

record member_input =
  input_kind :: cancel_kind
  input_id :: string
  input_attachment :: attachment

record scope_member =
  member_kind :: cancel_kind
  member_id :: string
  member_attachment :: attachment
  order_index :: u32

datatype freeze_error =
    TooLarge usize
  | DuplicateMember string
  | NotUnderRoot cancel_kind string

record cancel_scope =
  root_kind :: cancel_kind
  root_id :: string
  scope_members :: "scope_member list"

definition covered_by_root :: "cancel_kind \<Rightarrow> string \<Rightarrow> cancel_kind \<Rightarrow> string \<Rightarrow> bool" where
  "covered_by_root rk rid mk mid \<longleftrightarrow> mid = rid \<and> mk = rk \<or> kind_contains rk mk"

text \<open>The two loops of \<open>freeze\<close>: the first member that the root cannot own, and the first repeated one.\<close>

fun first_duplicate :: "string set \<Rightarrow> member_input list \<Rightarrow> string option" where
  "first_duplicate seen [] = None"
| "first_duplicate seen (m # ms) =
     (if input_id m \<in> seen then Some (input_id m) else first_duplicate (insert (input_id m) seen) ms)"

definition delivery_key :: "member_input \<Rightarrow> nat \<times> string" where
  "delivery_key m = (3 - depth (input_kind m), input_id m)"

definition as_member :: "nat \<Rightarrow> member_input \<Rightarrow> scope_member" where
  "as_member i m = \<lparr>member_kind = input_kind m, member_id = input_id m,
     member_attachment = input_attachment m, order_index = wrap32 i\<rparr>"

definition freeze_scope :: "cancel_kind \<Rightarrow> string \<Rightarrow> member_input list \<Rightarrow> freeze_error + cancel_scope" where
  "freeze_scope rk rid proposed =
     (if length proposed > MAX_SCOPE_MEMBERS then Inl (TooLarge (length proposed))
      else case find (\<lambda>m. \<not> covered_by_root rk rid (input_kind m) (input_id m)) proposed of
        Some m \<Rightarrow> Inl (NotUnderRoot (input_kind m) (input_id m))
      | None \<Rightarrow>
          (case first_duplicate {} proposed of
             Some i \<Rightarrow> Inl (DuplicateMember i)
           | None \<Rightarrow>
               Inr \<lparr>root_kind = rk, root_id = rid,
                    scope_members = map (\<lambda>(i, m). as_member i m) (enumerate 0 (sort_key delivery_key proposed))\<rparr>))"

text \<open>The loop of \<open>validate\<close>, and the comparison of neighbours after it.\<close>

fun valid_members :: "cancel_scope \<Rightarrow> nat \<Rightarrow> string set \<Rightarrow> scope_member list \<Rightarrow> bool" where
  "valid_members sc i seen [] \<longleftrightarrow> True"
| "valid_members sc i seen (m # ms) \<longleftrightarrow>
     covered_by_root (root_kind sc) (root_id sc) (member_kind m) (member_id m) \<and>
     valid_wire_identifier (member_id m) \<and> order_index m = wrap32 i \<and> member_id m \<notin> seen \<and>
     valid_members sc (Suc i) (insert (member_id m) seen) ms"

definition in_order :: "scope_member \<Rightarrow> scope_member \<Rightarrow> bool" where
  "in_order a b \<longleftrightarrow>
     depth (member_kind a) > depth (member_kind b) \<or> member_kind a = member_kind b \<and> member_id a < member_id b"

definition validate_scope :: "cancel_scope \<Rightarrow> bool" where
  "validate_scope sc \<longleftrightarrow>
     length (scope_members sc) \<le> MAX_SCOPE_MEMBERS \<and> valid_wire_identifier (root_id sc) \<and>
     valid_members sc 0 {} (scope_members sc) \<and>
     (\<forall>i < length (scope_members sc) - 1. in_order (scope_members sc ! i) (scope_members sc ! Suc i))"

section \<open>Lookup\<close>

datatype ordering = Less | Equal | Greater

definition compare :: "'a::linorder \<Rightarrow> 'a \<Rightarrow> ordering" where
  "compare a b = (if a < b then Less else if a = b then Equal else Greater)"

fun or_then :: "ordering \<Rightarrow> ordering \<Rightarrow> ordering" where
  "or_then Equal o2 = o2"
| "or_then o1 _ = o1"

text \<open>\<open>slice::binary_search_by\<close>: halve the window from its base, then compare the one element left.\<close>

function search_loop :: "(nat \<Rightarrow> ordering) \<Rightarrow> nat \<Rightarrow> nat \<Rightarrow> nat" where
  "search_loop f base n =
     (if n \<le> 1 then base
      else let half = n div 2; mid = base + half
           in search_loop f (if f mid = Greater then base else mid) (n - half))"
  by pat_completeness auto
termination by (relation "measure (\<lambda>(f, base, n). n)") auto

declare search_loop.simps [simp del]

definition binary_search_by :: "('a \<Rightarrow> ordering) \<Rightarrow> 'a list \<Rightarrow> nat option" where
  "binary_search_by f xs =
     (if xs = [] then None
      else let base = search_loop (\<lambda>i. f (xs ! i)) 0 (length xs)
           in if f (xs ! base) = Equal then Some base else None)"

definition member_order :: "cancel_kind \<Rightarrow> string \<Rightarrow> scope_member \<Rightarrow> ordering" where
  "member_order kind mid m = or_then (compare (depth kind) (depth (member_kind m))) (compare (member_id m) mid)"

fun find_map :: "('a \<Rightarrow> 'b option) \<Rightarrow> 'a list \<Rightarrow> 'b option" where
  "find_map f [] = None"
| "find_map f (x # xs) = (case f x of Some y \<Rightarrow> Some y | None \<Rightarrow> find_map f xs)"

definition scope_member_of :: "cancel_scope \<Rightarrow> string \<Rightarrow> scope_member option" where
  "scope_member_of sc mid =
     find_map (\<lambda>kind. map_option (\<lambda>i. scope_members sc ! i)
                (binary_search_by (member_order kind mid) (scope_members sc)))
       [Kind_EffectIntent, Kind_Attempt, Kind_ExecutionUnit, Kind_Run]"

section \<open>Requests and deliveries\<close>

record cancel_request_record =
  cr_id :: uuid7
  cr_reason :: kernel_cancel_reason
  cr_policy :: cancel_policy
  cr_scope :: cancel_scope
  cr_status :: cancel_status
  cr_requested_at :: u64
  cr_requested_by_kind :: string

definition governs :: "cancel_request_record \<Rightarrow> string \<Rightarrow> bool" where
  "governs r mid =
     (case cr_policy r of
        RootOnly \<Rightarrow> root_id (cr_scope r) = mid
      | AttachedCascade \<Rightarrow>
          (case scope_member_of (cr_scope r) mid of
             None \<Rightarrow> False
           | Some m \<Rightarrow> member_attachment m = Attached))"

record cancel_delivery_record =
  cd_request_id :: uuid7
  cd_member_id :: string
  cd_member_kind :: cancel_kind
  cd_delivered_at :: u64
  cd_observed_at :: "u64 option"
  cd_outcome :: delivery_outcome

record delivery_summary =
  ds_member :: string
  ds_outcome :: delivery_outcome

text \<open>The map collected from the deliveries: a later row replaces an earlier one.\<close>

definition outcomes_of :: "delivery_summary list \<Rightarrow> string \<rightharpoonup> delivery_outcome" where
  "outcomes_of ds = fold (\<lambda>d m. m(ds_member d \<mapsto> ds_outcome d)) ds Map.empty"

definition request_status_after :: "cancel_scope \<Rightarrow> delivery_summary list \<Rightarrow> cancel_status" where
  "request_status_after sc ds =
     (if scope_members sc = [] then Status_Settled
      else if ds = [] then Status_Requested
      else
        let outcomes = outcomes_of ds
        in if list_all (\<lambda>m. case outcomes (member_id m) of None \<Rightarrow> False | Some x \<Rightarrow> is_discharged x)
                (scope_members sc) then Status_Settled
           else if list_all (\<lambda>m. outcomes (member_id m) \<noteq> None) (scope_members sc) then Status_ObservedPartial
           else Status_Delivering)"
section \<open>Freezing\<close>

lemma first_duplicate_None:
  "first_duplicate seen ms = None \<longleftrightarrow> distinct (map input_id ms) \<and> input_id ` set ms \<inter> seen = {}"
  by (induction ms arbitrary: seen) auto

lemma find_None: "find P xs = None \<longleftrightarrow> (\<forall>x \<in> set xs. \<not> P x)"
  by (induction xs) auto

definition freezable :: "cancel_kind \<Rightarrow> string \<Rightarrow> member_input list \<Rightarrow> bool" where
  "freezable rk rid ms \<longleftrightarrow>
     length ms \<le> MAX_SCOPE_MEMBERS \<and> distinct (map input_id ms) \<and>
     (\<forall>m \<in> set ms. input_id m = rid \<and> input_kind m = rk \<or> depth rk < depth (input_kind m))"

lemma freeze_scope_iff:
  "(\<exists>sc. freeze_scope rk rid ms = Inr sc) \<longleftrightarrow> freezable rk rid ms"
proof (cases "find (\<lambda>m. \<not> covered_by_root rk rid (input_kind m) (input_id m)) ms")
  case None
  then have "\<forall>m \<in> set ms. covered_by_root rk rid (input_kind m) (input_id m)" by (simp add: find_None)
  with None show ?thesis
    using first_duplicate_None [of "{}" ms]
    by (cases "first_duplicate {} ms")
      (auto simp: freeze_scope_def freezable_def covered_by_root_def kind_contains_def)
next
  case (Some m)
  then have "m \<in> set ms \<and> \<not> covered_by_root rk rid (input_kind m) (input_id m)"
    by (auto simp: find_Some_iff)
  with Some show ?thesis
    by (auto simp: freeze_scope_def freezable_def covered_by_root_def kind_contains_def)
qed

lemma freeze_scope_members:
  assumes "freeze_scope rk rid ms = Inr sc"
  shows "root_kind sc = rk" and "root_id sc = rid"
    and "scope_members sc = map (\<lambda>(i, m). as_member i m) (enumerate 0 (sort_key delivery_key ms))"
  using assms by (auto simp: freeze_scope_def split: if_splits option.splits)

lemma depth_inject [simp]: "depth a = depth b \<longleftrightarrow> a = b"
  by (cases a; cases b) simp_all

lemma depth_le: "depth k \<le> 3"
  by (cases k) simp_all

lemma delivery_key_less:
  "delivery_key a < delivery_key b \<longleftrightarrow>
     depth (input_kind b) < depth (input_kind a) \<or> input_kind a = input_kind b \<and> input_id a < input_id b"
proof -
  have "3 - depth (input_kind a) < 3 - depth (input_kind b) \<longleftrightarrow> depth (input_kind b) < depth (input_kind a)"
    using depth_le [of "input_kind a"] depth_le [of "input_kind b"] by linarith
  moreover have "3 - depth (input_kind a) \<le> 3 - depth (input_kind b) \<longleftrightarrow> depth (input_kind b) \<le> depth (input_kind a)"
    using depth_le [of "input_kind a"] depth_le [of "input_kind b"] by linarith
  ultimately show ?thesis
    by (auto simp: delivery_key_def less_prod_def less_le_not_le)
qed

lemma delivery_key_inj: "distinct (map input_id ms) \<Longrightarrow> inj_on delivery_key (set ms)"
  by (auto simp: inj_on_def delivery_key_def distinct_map)

lemma sorted_members:
  assumes "distinct (map input_id ms)"
  shows "sorted_wrt (\<lambda>a b. delivery_key a < delivery_key b) (sort_key delivery_key ms)"
proof -
  have "sorted (map delivery_key (sort_key delivery_key ms))" by simp
  moreover have "distinct (map delivery_key (sort_key delivery_key ms))"
    using delivery_key_inj [OF assms] assms by (simp add: distinct_map)
  ultimately have "sorted_wrt (<) (map delivery_key (sort_key delivery_key ms))" by (simp add: strict_sorted_iff)
  then show ?thesis by (simp add: sorted_wrt_map)
qed

lemma nth_frozen:
  assumes "freeze_scope rk rid ms = Inr sc" and "i < length ms"
  shows "scope_members sc ! i = as_member i (sort_key delivery_key ms ! i)" and "length (scope_members sc) = length ms"
  using assms freeze_scope_members(3) [OF assms(1)] by (simp_all add: nth_enumerate_eq length_enumerate)

lemma in_order_as_member:
  "in_order (as_member i a) (as_member j b) \<longleftrightarrow> delivery_key a < delivery_key b"
  by (auto simp: in_order_def as_member_def delivery_key_less)

lemma frozen_in_order:
  assumes "freeze_scope rk rid ms = Inr sc" and "i < j" and "j < length ms"
  shows "in_order (scope_members sc ! i) (scope_members sc ! j)"
proof -
  have "distinct (map input_id ms)" using freeze_scope_iff assms(1) by (auto simp: freezable_def)
  from sorted_wrt_nth_less [OF sorted_members [OF this] assms(2)] assms
  show ?thesis by (simp add: nth_frozen(1) [OF assms(1)] in_order_as_member)
qed
section \<open>Searching\<close>

lemma search_loop_range: "0 < n \<Longrightarrow> base \<le> search_loop f base n \<and> search_loop f base n < base + n"
proof (induction f base n rule: search_loop.induct)
  case (1 f base n)
  show ?case
  proof (cases "n \<le> 1")
    case True
    with 1 show ?thesis by (simp add: search_loop.simps [of f base n])
  next
    case False
    with 1 show ?thesis by (subst (1 2) search_loop.simps) (fastforce simp: Let_def)
  qed
qed

text \<open>One element equals the key; what is before it is less and what is behind it is greater.\<close>

lemma search_loop_finds:
  assumes "\<And>i. i < k \<Longrightarrow> f i = Less" and "f k = Equal" and "\<And>i. k < i \<Longrightarrow> i < base + n \<Longrightarrow> f i = Greater"
    and "base \<le> k" and "k < base + n"
  shows "search_loop f base n = k"
  using assms
proof (induction f base n rule: search_loop.induct)
  case (1 f base n)
  show ?case
  proof (cases "n \<le> 1")
    case True
    with 1(5,6) show ?thesis by (simp add: search_loop.simps [of f base n])
  next
    case False
    define mid where "mid = base + n div 2"
    have half: "0 < n div 2" "n div 2 < n" using False by auto
    have "f mid = Greater \<longleftrightarrow> k < mid"
      using 1(2-6) half by (cases "mid < k"; cases "mid = k") (auto simp: mid_def)
    with 1 half show ?thesis
      by (subst search_loop.simps) (auto simp: Let_def mid_def False)
  qed
qed

lemma binary_search_finds:
  assumes "k < length xs" and "f (xs ! k) = Equal" and "\<And>i. i < k \<Longrightarrow> f (xs ! i) = Less"
    and "\<And>i. k < i \<Longrightarrow> i < length xs \<Longrightarrow> f (xs ! i) = Greater"
  shows "binary_search_by f xs = Some k"
proof -
  have "search_loop (\<lambda>i. f (xs ! i)) 0 (length xs) = k"
    by (rule search_loop_finds) (use assms in auto)
  with assms(1,2) show ?thesis by (auto simp: binary_search_by_def)
qed

lemma binary_search_sound:
  "binary_search_by f xs = Some i \<Longrightarrow> i < length xs \<and> f (xs ! i) = Equal"
  using search_loop_range [of "length xs" 0 "\<lambda>i. f (xs ! i)"]
  by (auto simp: binary_search_by_def Let_def split: if_splits)

lemma compare_simps [simp]:
  "compare a b = Less \<longleftrightarrow> a < b" "compare a b = Equal \<longleftrightarrow> a = b" "compare a b = Greater \<longleftrightarrow> b < a"
  by (auto simp: compare_def)

lemma or_then_simps [simp]:
  "or_then a b = Less \<longleftrightarrow> a = Less \<or> a = Equal \<and> b = Less"
  "or_then a b = Equal \<longleftrightarrow> a = Equal \<and> b = Equal"
  "or_then a b = Greater \<longleftrightarrow> a = Greater \<or> a = Equal \<and> b = Greater"
  by (cases a; simp)+

lemma in_order_search:
  "in_order a b \<Longrightarrow> member_order (member_kind b) (member_id b) a = Less"
  "in_order b a \<Longrightarrow> member_order (member_kind b) (member_id b) a = Greater"
  by (auto simp: in_order_def member_order_def)

lemma in_order_trans: "in_order a b \<Longrightarrow> in_order b c \<Longrightarrow> in_order a c"
  by (auto simp: in_order_def)

text \<open>A well-formed scope is ordered throughout, and its members have identities of their own.\<close>

lemma neighbours_ordered:
  assumes "\<forall>i < length xs - 1. R (xs ! i) (xs ! Suc i)" and "\<And>a b c. R a b \<Longrightarrow> R b c \<Longrightarrow> R a c"
    and "i < j" and "j < length xs"
  shows "R (xs ! i) (xs ! j)"
  using assms(3,4)
proof (induction j)
  case (Suc j)
  with assms(1,2) show ?case by (cases "i = j") (auto simp: less_Suc_eq)
qed simp

lemma valid_members_iff:
  "valid_members sc n seen ms \<longleftrightarrow>
     (\<forall>i < length ms. covered_by_root (root_kind sc) (root_id sc) (member_kind (ms ! i)) (member_id (ms ! i)) \<and>
        valid_wire_identifier (member_id (ms ! i)) \<and> order_index (ms ! i) = wrap32 (n + i)) \<and>
     distinct (map member_id ms) \<and> member_id ` set ms \<inter> seen = {}"
  by (induction ms arbitrary: n seen) (auto simp: All_less_Suc2 nth_Cons')

lemma validate_ordered:
  "validate_scope sc \<Longrightarrow> i < j \<Longrightarrow> j < length (scope_members sc) \<Longrightarrow> in_order (scope_members sc ! i) (scope_members sc ! j)"
  by (rule neighbours_ordered [of "scope_members sc" in_order, OF _ in_order_trans]) (auto simp: validate_scope_def)

lemma find_map_unique:
  assumes "k \<in> set ks" and "f k = Some y" and "\<And>k'. k' \<noteq> k \<Longrightarrow> f k' = None"
  shows "find_map f ks = Some y"
  using assms(1)
proof (induction ks)
  case (Cons x ks)
  with assms(2,3) show ?case by (cases "x = k") auto
qed simp

lemma find_map_None: "(\<And>k. f k = None) \<Longrightarrow> find_map f ks = None"
  by (induction ks) auto

lemma all_kinds: "k \<in> set [Kind_EffectIntent, Kind_Attempt, Kind_ExecutionUnit, Kind_Run]"
  by (cases k) simp_all
lemma scope_member_of_find:
  assumes "validate_scope sc"
  shows "scope_member_of sc mid = find (\<lambda>m. member_id m = mid) (scope_members sc)"
proof -
  define ms where "ms = scope_members sc"
  define look where "look = (\<lambda>kind. map_option (\<lambda>i. ms ! i) (binary_search_by (member_order kind mid) ms))"
  have ids: "distinct (map member_id ms)"
    using assms by (simp add: validate_scope_def valid_members_iff ms_def)
  have sound: "\<exists>i < length ms. ms ! i = m \<and> member_kind m = kind \<and> member_id m = mid" if "look kind = Some m" for kind m
    using that binary_search_sound [of "member_order kind mid" ms] by (auto simp: look_def member_order_def)
  show ?thesis
  proof (cases "find (\<lambda>m. member_id m = mid) ms")
    case None
    then have "look kind = None" for kind using sound [of kind] by (cases "look kind") (auto simp: find_None)
    with None show ?thesis using find_map_None [of look] by (simp add: scope_member_of_def look_def ms_def)
  next
    case (Some m)
    then obtain k where k: "k < length ms" "ms ! k = m" "member_id m = mid" by (auto simp: find_Some_iff)
    have "binary_search_by (member_order (member_kind m) mid) ms = Some k"
    proof (rule binary_search_finds)
      show "member_order (member_kind m) mid (ms ! k) = Equal" using k by (simp add: member_order_def)
      show "member_order (member_kind m) mid (ms ! i) = Less" if "i < k" for i
        using in_order_search(1) [OF validate_ordered [OF assms that]] k by (simp add: ms_def)
      show "member_order (member_kind m) mid (ms ! i) = Greater" if "k < i" "i < length ms" for i
        using in_order_search(2) [OF validate_ordered [OF assms that(1)]] that(2) k by (simp add: ms_def)
    qed (rule k(1))
    then have hit: "look (member_kind m) = Some m" using k by (simp add: look_def)
    have "look kind = None" if "kind \<noteq> member_kind m" for kind
    proof (rule ccontr)
      assume "look kind \<noteq> None"
      then obtain m' where "look kind = Some m'" by auto
      from sound [OF this] obtain i where i: "i < length ms" "ms ! i = m'" "member_kind m' = kind" "member_id m' = mid" by auto
      then have "i = k" using ids k nth_eq_iff_index_eq [of "map member_id ms" i k] by simp
      with i k that show False by simp
    qed
    then have "find_map look [Kind_EffectIntent, Kind_Attempt, Kind_ExecutionUnit, Kind_Run] = Some m"
      using find_map_unique [of "member_kind m" _ look m] all_kinds hit by blast
    with Some show ?thesis by (simp add: scope_member_of_def look_def ms_def)
  qed
qed

lemma frozen_triples:
  assumes "freeze_scope rk rid ms = Inr sc"
  shows "map (\<lambda>m. (member_kind m, member_id m, member_attachment m)) (scope_members sc) =
    map (\<lambda>m. (input_kind m, input_id m, input_attachment m)) (sort_key delivery_key ms)"
    and "length (scope_members sc) = length ms" and "freezable rk rid ms"
proof -
  show len: "length (scope_members sc) = length ms"
    using freeze_scope_members(3) [OF assms] by (simp add: length_enumerate)
  show "map (\<lambda>m. (member_kind m, member_id m, member_attachment m)) (scope_members sc) =
      map (\<lambda>m. (input_kind m, input_id m, input_attachment m)) (sort_key delivery_key ms)"
    by (rule nth_equalityI) (use len in \<open>auto simp: nth_frozen(1) [OF assms] as_member_def\<close>)
  show "freezable rk rid ms" using freeze_scope_iff assms by blast
qed

lemma frozen_index:
  assumes "freeze_scope rk rid ms = Inr sc" and "i < length ms"
  shows "order_index (scope_members sc ! i) = i" and "wrap32 i = i"
  using assms frozen_triples(3) [OF assms(1)]
  by (simp_all add: nth_frozen(1) as_member_def freezable_def MAX_SCOPE_MEMBERS_def)

lemma freeze_permuted:
  assumes "freeze_scope rk rid ms = Inr sc" and "mset ms' = mset ms"
  shows "freeze_scope rk rid ms' = Inr sc"
proof -
  note ok = frozen_triples(3) [OF assms(1)]
  have "mset (map input_id ms') = mset (map input_id ms)" using assms(2) by simp
  from mset_eq_imp_distinct_iff [OF this] have dist: "distinct (map input_id ms')" using ok by (simp add: freezable_def)
  have "sorted (map delivery_key (sort_key delivery_key ms))" "mset ms' = mset (sort_key delivery_key ms)"
    using assms(2) by simp_all
  then have same: "sort_key delivery_key ms' = sort_key delivery_key ms"
    using sort_key_inj_key_eq [OF _ delivery_key_inj [OF dist]] by metis
  have "freezable rk rid ms'"
    using ok dist mset_eq_length [OF assms(2)] mset_eq_setD [OF assms(2)] by (simp add: freezable_def)
  then obtain sc' where fr': "freeze_scope rk rid ms' = Inr sc'" using freeze_scope_iff by blast
  from freeze_scope_members [OF fr'] freeze_scope_members [OF assms(1)] same have "sc' = sc"
    by (intro cancel_scope.equality) auto
  with fr' show ?thesis by simp
qed

lemma freeze_validates:
  assumes "freeze_scope rk rid ms = Inr sc"
  shows "validate_scope sc \<longleftrightarrow> valid_wire_identifier rid \<and> (\<forall>m \<in> set ms. valid_wire_identifier (input_id m))"
proof -
  let ?s = "sort_key delivery_key ms" and ?m = "scope_members sc"
  note fz = frozen_triples [OF assms] and sc = freeze_scope_members [OF assms]
  have ids: "map member_id ?m = map input_id ?s"
    by (rule nth_equalityI) (use fz(2) in \<open>auto simp: nth_frozen(1) [OF assms] as_member_def\<close>)
  have "mset (map member_id ?m) = mset (map input_id ms)" unfolding ids by simp
  from mset_eq_imp_distinct_iff [OF this] have dist: "distinct (map member_id ?m)"
    using fz(3) by (simp add: freezable_def)
  have order: "in_order (?m ! i) (?m ! Suc i)" if "i < length ?m - 1" for i
    using frozen_in_order [OF assms, of i "Suc i"] that fz(2) by simp
  have root: "covered_by_root rk rid (member_kind (?m ! i)) (member_id (?m ! i)) \<and> order_index (?m ! i) = wrap32 i"
    if "i < length ms" for i
  proof -
    have "?s ! i \<in> set ?s" using that by (intro nth_mem) simp
    then have "?s ! i \<in> set ms" by simp
    with fz(3) that frozen_index [OF assms that] show ?thesis
      by (auto simp: nth_frozen(1) [OF assms] as_member_def freezable_def covered_by_root_def kind_contains_def)
  qed
  have wire: "(\<forall>i < length ms. valid_wire_identifier (member_id (?m ! i))) \<longleftrightarrow>
      (\<forall>m \<in> set ms. valid_wire_identifier (input_id m))"
    using all_set_conv_all_nth [of ?s "\<lambda>m. valid_wire_identifier (input_id m)"]
    by (simp add: nth_frozen(1) [OF assms] as_member_def)
  have "validate_scope sc \<longleftrightarrow> valid_wire_identifier rid \<and> (\<forall>i < length ms. valid_wire_identifier (member_id (?m ! i)))"
    unfolding validate_scope_def valid_members_iff
    using fz(2,3) sc(1,2) dist order root by (auto simp: freezable_def)
  with wire show ?thesis by simp
qed

section \<open>Properties\<close>

text \<open>
  C15. A scope freezes exactly when it has at most 4096 members, each of them the root itself or of a kind
  below the root's, and none twice. The frozen scope holds those members and no others, every leaf before
  whatever may own it, numbered densely in that order; the order of the proposal does not matter; and
  the scope passes its own validation exactly when its identifiers are wire identifiers.
\<close>

theorem freeze_is_leaf_first:
  "case freeze_scope rk rid ms of
     Inl e \<Rightarrow> \<not> freezable rk rid ms
   | Inr sc \<Rightarrow>
       freezable rk rid ms \<and> root_kind sc = rk \<and> root_id sc = rid \<and>
       mset (map (\<lambda>m. (member_kind m, member_id m, member_attachment m)) (scope_members sc)) =
         mset (map (\<lambda>m. (input_kind m, input_id m, input_attachment m)) ms) \<and>
       sorted_wrt (\<lambda>a b. \<not> kind_contains (member_kind a) (member_kind b)) (scope_members sc) \<and>
       map order_index (scope_members sc) = [0..<length ms] \<and>
       (mset ms' = mset ms \<longrightarrow> freeze_scope rk rid ms' = Inr sc) \<and>
       (validate_scope sc \<longleftrightarrow> valid_wire_identifier rid \<and> (\<forall>m \<in> set ms. valid_wire_identifier (input_id m)))"
proof (cases "freeze_scope rk rid ms")
  case (Inl e)
  then have "\<nexists>sc. freeze_scope rk rid ms = Inr sc" by simp
  then have "\<not> freezable rk rid ms" using freeze_scope_iff by blast
  with Inl show ?thesis by simp
next
  case (Inr sc)
  note fz = frozen_triples [OF Inr]
  have "mset (map (\<lambda>m. (member_kind m, member_id m, member_attachment m)) (scope_members sc)) =
      mset (map (\<lambda>m. (input_kind m, input_id m, input_attachment m)) ms)" unfolding fz(1) by simp
  moreover have "sorted_wrt (\<lambda>a b. \<not> kind_contains (member_kind a) (member_kind b)) (scope_members sc)"
    unfolding sorted_wrt_iff_nth_less
    using frozen_in_order [OF Inr] fz(2) by (fastforce simp: in_order_def kind_contains_def)
  moreover have "map order_index (scope_members sc) = [0..<length ms]"
    by (rule nth_equalityI) (use fz(2) frozen_index(1) [OF Inr] in auto)
  ultimately show ?thesis
    using Inr fz(3) freeze_scope_members(1,2) [OF Inr] freeze_permuted [OF Inr] freeze_validates [OF Inr] by simp
qed

definition demo_members :: "member_input list" where
  "demo_members = [\<lparr>input_kind = Kind_Run, input_id = ''run-1'', input_attachment = Attached\<rparr>,
     \<lparr>input_kind = Kind_EffectIntent, input_id = ''effect-2'', input_attachment = Attached\<rparr>,
     \<lparr>input_kind = Kind_ExecutionUnit, input_id = ''unit-1'', input_attachment = Detached\<rparr>]"

definition demo_frozen :: cancel_scope where
  "demo_frozen = \<lparr>root_kind = Kind_Run, root_id = ''run-1'', scope_members =
     [\<lparr>member_kind = Kind_EffectIntent, member_id = ''effect-2'', member_attachment = Attached, order_index = 0\<rparr>,
      \<lparr>member_kind = Kind_ExecutionUnit, member_id = ''unit-1'', member_attachment = Detached, order_index = 1\<rparr>,
      \<lparr>member_kind = Kind_Run, member_id = ''run-1'', member_attachment = Attached, order_index = 2\<rparr>]\<rparr>"

lemma demo_freezes: "freeze_scope Kind_Run ''run-1'' demo_members = Inr demo_frozen"
  by (simp add: freeze_scope_def demo_members_def demo_frozen_def MAX_SCOPE_MEMBERS_def covered_by_root_def
      kind_contains_def as_member_def delivery_key_def enumerate_Suc_eq less_prod_def)

theorem freeze_is_leaf_first_witness:
  "freezable Kind_Run ''run-1'' demo_members \<and> validate_scope demo_frozen \<and>
   freeze_scope Kind_Run ''run-1'' (rev demo_members) = Inr demo_frozen"
proof -
  have "valid_wire_identifier ''run-1''" "\<forall>m \<in> set demo_members. valid_wire_identifier (input_id m)"
    by (simp_all add: demo_members_def valid_wire_identifier_def is_ascii_alphanumeric_def ascii_digit_def
        is_ascii_uppercase_def is_ascii_lowercase_def)
  then show ?thesis
    using freeze_is_leaf_first [of Kind_Run "''run-1''" demo_members "rev demo_members"] by (simp add: demo_freezes)
qed

lemma find_attached:
  "distinct (map member_id ms) \<Longrightarrow>
     (case find (\<lambda>m. member_id m = mid) ms of None \<Rightarrow> False | Some m \<Rightarrow> member_attachment m = Attached) \<longleftrightarrow>
     (\<exists>m \<in> set ms. member_id m = mid \<and> member_attachment m = Attached)"
proof (induction ms)
  case (Cons a ms)
  show ?case
  proof (cases "member_id a = mid")
    case True
    with Cons.prems have "\<forall>m \<in> set ms. member_id m \<noteq> mid" by (auto simp: image_iff)
    with True show ?thesis by auto
  next
    case False
    with Cons show ?thesis by simp
  qed
qed simp

text \<open>
  The binary search of a validated scope is a lookup by identity: it finds a member exactly when the
  scope has one of that identity, of whatever kind. So a cascading request governs exactly its attached
  members, and a request for the root alone only the root.
\<close>

theorem lookup_finds_members:
  assumes "validate_scope (cr_scope r)"
  shows "scope_member_of (cr_scope r) mid = find (\<lambda>m. member_id m = mid) (scope_members (cr_scope r)) \<and>
    (governs r mid \<longleftrightarrow>
       (if cr_policy r = RootOnly then mid = root_id (cr_scope r)
        else \<exists>m \<in> set (scope_members (cr_scope r)). member_id m = mid \<and> member_attachment m = Attached))"
proof -
  have dist: "distinct (map member_id (scope_members (cr_scope r)))"
    using assms by (simp add: validate_scope_def valid_members_iff)
  note look = scope_member_of_find [OF assms, of mid]
  note find_attached [OF dist, of mid]
  with look show ?thesis by (cases "cr_policy r") (auto simp: governs_def)
qed

definition demo_request :: cancel_request_record where
  "demo_request = \<lparr>cr_id = Uuid7 1, cr_reason = OwnerRequest, cr_policy = AttachedCascade, cr_scope = demo_frozen,
     cr_status = Status_Requested, cr_requested_at = 0, cr_requested_by_kind = ''owner''\<rparr>"

lemma demo_frozen_valid: "validate_scope demo_frozen"
  by (simp add: freeze_validates [OF demo_freezes] demo_members_def valid_wire_identifier_def
      is_ascii_alphanumeric_def ascii_digit_def is_ascii_uppercase_def is_ascii_lowercase_def)

theorem lookup_finds_members_witness:
  "\<not> governs demo_request ''unit-1'' \<and> governs demo_request ''effect-2''"
  using lookup_finds_members [of demo_request "''unit-1''"] lookup_finds_members [of demo_request "''effect-2''"]
    demo_frozen_valid by (simp add: demo_request_def demo_frozen_def)

section \<open>The status of a request\<close>

lemma outcomes_of_snoc: "outcomes_of (ds @ [d]) = (outcomes_of ds)(ds_member d \<mapsto> ds_outcome d)"
  by (simp add: outcomes_of_def)

lemma outcomes_of_dom: "dom (outcomes_of ds) = ds_member ` set ds"
proof (induction ds rule: rev_induct)
  case Nil
  show ?case by (simp add: outcomes_of_def)
next
  case (snoc d ds)
  then show ?case by (simp only: outcomes_of_snoc dom_fun_upd) simp
qed

fun status_rank :: "cancel_status \<Rightarrow> nat" where
  "status_rank Status_Requested = 0"
| "status_rank Status_Delivering = 1"
| "status_rank Status_ObservedPartial = 2"
| "status_rank Status_Settled = 3"

text \<open>
  A request is settled exactly when every member of its frozen scope has a delivery whose recorded
  outcome discharges it; an unresponsive member never does. Recording the delivery of a member that had
  none never takes the status back, and a settled request stays settled.
\<close>

theorem status_only_advances:
  assumes "ds_member d \<notin> ds_member ` set ds"
  shows "(request_status_after sc ds = Status_Settled \<longleftrightarrow>
      (\<forall>m \<in> set (scope_members sc). \<exists>x. outcomes_of ds (member_id m) = Some x \<and> x \<noteq> Unresponsive)) \<and>
    status_rank (request_status_after sc ds) \<le> status_rank (request_status_after sc (ds @ [d]))"
proof -
  have discharged: "is_discharged x \<longleftrightarrow> x \<noteq> Unresponsive" for x by (cases x) simp_all
  have fresh: "outcomes_of ds (ds_member d) = None" using assms by (simp add: outcomes_of_dom [symmetric] domIff)
  then have keep: "outcomes_of ds i = Some x \<Longrightarrow> outcomes_of (ds @ [d]) i = Some x" for i x
    by (auto simp: outcomes_of_snoc)
  have settled: "request_status_after sc ds = Status_Settled \<longleftrightarrow>
      (\<forall>m \<in> set (scope_members sc). \<exists>x. outcomes_of ds (member_id m) = Some x \<and> x \<noteq> Unresponsive)" for ds
    using outcomes_of_dom [of ds]
    by (cases "scope_members sc"; cases "ds = []")
      (auto simp: request_status_after_def list_all_iff discharged Let_def split: option.splits)
  have "status_rank (request_status_after sc ds) \<le> status_rank (request_status_after sc (ds @ [d]))"
  proof (cases "request_status_after sc ds")
    case Status_Settled
    then have "request_status_after sc (ds @ [d]) = Status_Settled" using keep unfolding settled by blast
    with Status_Settled show ?thesis by simp
  next
    case Status_ObservedPartial
    then have all: "\<forall>m \<in> set (scope_members sc). outcomes_of ds (member_id m) \<noteq> None" "scope_members sc \<noteq> []"
      by (auto simp: request_status_after_def list_all_iff Let_def split: if_splits)
    then have "\<forall>m \<in> set (scope_members sc). outcomes_of (ds @ [d]) (member_id m) \<noteq> None" using keep by fastforce
    with all(2) Status_ObservedPartial show ?thesis
      by (auto simp: request_status_after_def list_all_iff Let_def)
  next
    case Status_Delivering
    then have "request_status_after sc (ds @ [d]) \<noteq> Status_Requested"
      by (auto simp: request_status_after_def Let_def split: if_splits)
    with Status_Delivering show ?thesis by (cases "request_status_after sc (ds @ [d])") auto
  qed simp
  with settled show ?thesis by blast
qed

theorem status_only_advances_witness:
  "status_rank (request_status_after demo_frozen []) \<le>
     status_rank (request_status_after demo_frozen [\<lparr>ds_member = ''effect-2'', ds_outcome = Unresponsive\<rparr>]) \<and>
   request_status_after demo_frozen [] \<noteq> Status_Settled"
proof -
  have "request_status_after demo_frozen [] \<noteq> Status_Settled"
    by (simp add: request_status_after_def demo_frozen_def)
  then show ?thesis
    using status_only_advances [of "\<lparr>ds_member = ''effect-2'', ds_outcome = Unresponsive\<rparr>" "[]" demo_frozen]
    by simp
qed

end
