(* ===== verification/Kernel_Effect.thy ===== *)
theory Kernel_Effect
  imports Kernel_Cancel
begin

text \<open>
  The ledger of external effects (\<open>yah-kernel/src/effect/mod.rs\<close>) and the pure rules of its settlement
  (\<open>funnel/effect_rules.rs\<close>): targets and how observations classify them, the write-once terminal, and
  which state may settle which terminal on which evidence. Theorems: the terminal and the targets of a
  settlement agree, and a success rests on an observation of every declared target.
\<close>

section \<open>The ledger's records\<close>

datatype effect_terminal =
  Term_Succeeded | Term_Failed | Term_Cancelled | Term_Compensated | Term_Unknown

datatype effect_state =
    Effect_Prepared | Effect_Dispatching | Effect_Dispatched | Effect_Observing | Effect_Reconciling
  | Effect_Compensating | Effect_Settled

datatype retry_class = SafeIdempotent | SafeWithOperationKey | QueryThenRetry | NoRetry
datatype reversibility_class = Bufferable | ReversibleExternal | Irreversible
datatype target_enumeration = Enum_Declared | Enum_PostHoc
datatype observed_target_state = Target_NotApplied | Target_Applied | Target_PartiallyApplied | Target_Unknown

record target_observation =
  target_id :: string
  expected_digest :: "digest option"
  pre_digest :: "digest option"
  observed_digest :: "digest option"
  target_state_of :: observed_target_state
  observed_at :: "u64 option"

record effect_intent =
  effect_intent_id :: uuid7
  ei_version :: u64
  ei_unit_id :: string
  ei_attempt_epoch :: u64
  ei_stamp :: u64
  ei_authority_epoch :: u64
  adapter_id :: string
  adapter_version :: string
  operation_key :: string
  logical_operation_id :: uuid7
  ei_request_digest :: digest
  ei_retry_class :: retry_class
  ei_reversibility_class :: reversibility_class
  approval_ref :: "uuid7 option"
  policy_snapshot_digest :: digest
  ei_state :: effect_state
  ei_terminal :: "effect_terminal option"
  ei_target_enumeration :: target_enumeration
  ei_targets :: "target_observation list"
  decomposable :: bool
  parent_effect_intent_id :: "uuid7 option"
  compensation_intent_id :: "uuid7 option"
  dispatched_at :: "u64 option"
  settled_at :: "u64 option"
  next_reconcile_at :: "u64 option"

datatype effect_error =
    TerminalAlreadySet effect_terminal
  | SucceededWithUnappliedTarget string
  | FailedWithUnknownTarget string

section \<open>Operations of the ledger\<close>

definition classify_declared :: "target_observation \<Rightarrow> target_observation" where
  "classify_declared t = t\<lparr>target_state_of :=
     (case observed_digest t of
        None \<Rightarrow> Target_Unknown
      | Some obs \<Rightarrow>
          if expected_digest t = Some obs then Target_Applied
          else if pre_digest t = Some obs then Target_NotApplied
          else Target_PartiallyApplied)\<rparr>"

text \<open>\<open>blake3\<close> is the parameter \<open>hash_hex\<close>, as for a digest.\<close>

definition derive_operation_key :: "(string \<Rightarrow> string) \<Rightarrow> string \<Rightarrow> uuid7 \<Rightarrow> digest \<Rightarrow> string" where
  "derive_operation_key hash_hex work_item_id operation_id request_digest =
     ''blake3:'' @ hash_hex (work_item_id @ uuid_text operation_id @ digest_text request_digest)"

definition settle_intent :: "effect_terminal \<Rightarrow> effect_intent \<Rightarrow> effect_error + effect_intent" where
  "settle_intent terminal i =
     (case ei_terminal i of
        Some existing \<Rightarrow> Inl (TerminalAlreadySet existing)
      | None \<Rightarrow>
          (case if terminal = Term_Succeeded
                then find (\<lambda>t. target_state_of t \<noteq> Target_Applied) (ei_targets i) else None of
             Some t \<Rightarrow> Inl (SucceededWithUnappliedTarget (target_id t))
           | None \<Rightarrow>
               (case if terminal = Term_Failed
                     then find (\<lambda>t. target_state_of t = Target_Unknown) (ei_targets i) else None of
                  Some t \<Rightarrow> Inl (FailedWithUnknownTarget (target_id t))
                | None \<Rightarrow> Inr (i\<lparr>ei_terminal := Some terminal, ei_state := Effect_Settled\<rparr>))))"

definition classify_targets :: "effect_intent \<Rightarrow> effect_terminal" where
  "classify_targets i =
     (if ei_targets i = [] \<or> list_ex (\<lambda>t. target_state_of t = Target_Unknown) (ei_targets i) then Term_Unknown
      else if list_all (\<lambda>t. target_state_of t = Target_Applied) (ei_targets i) then Term_Succeeded
      else Term_Failed)"

section \<open>Rejections\<close>

text \<open>
  A rejection has a kind, a detail and whether its receipt is kept. \<open>Panics\<close> is a panic of the thread:
  an \<open>expect\<close> that does not hold ends the call as an error does, but no receipt is written.
\<close>

datatype rejection = Reject error_kind string bool | Panics string

text \<open>The section sign and the dash of the messages, in UTF-8.\<close>

definition sect :: string where "sect = [CHR 0xC2, CHR 0xA7]"
definition dash :: string where "dash = [CHR 0xE2, CHR 0x80, CHR 0x94]"

fun terminal_debug :: "effect_terminal \<Rightarrow> string" where
  "terminal_debug Term_Succeeded = ''Succeeded''"
| "terminal_debug Term_Failed = ''Failed''"
| "terminal_debug Term_Cancelled = ''Cancelled''"
| "terminal_debug Term_Compensated = ''Compensated''"
| "terminal_debug Term_Unknown = ''Unknown''"

fun effect_state_debug :: "effect_state \<Rightarrow> string" where
  "effect_state_debug Effect_Prepared = ''Prepared''"
| "effect_state_debug Effect_Dispatching = ''Dispatching''"
| "effect_state_debug Effect_Dispatched = ''Dispatched''"
| "effect_state_debug Effect_Observing = ''Observing''"
| "effect_state_debug Effect_Reconciling = ''Reconciling''"
| "effect_state_debug Effect_Compensating = ''Compensating''"
| "effect_state_debug Effect_Settled = ''Settled''"

section \<open>The rules of settlement\<close>

record settle_evidence =
  clean_wait_status :: bool
  target_reported_cancellation :: bool

fun check_targets :: "string set \<Rightarrow> target_observation list \<Rightarrow> rejection + unit" where
  "check_targets seen [] = Inr ()"
| "check_targets seen (t # ts) =
     (if length (target_id t) > 256 then
        Inl (Reject InvalidRequest
               (''target_id of '' @ show_nat (length (target_id t)) @ '' bytes exceeds the 256 cap'') True)
      else if target_id t \<in> seen then
        Inl (Reject InvalidRequest (''duplicate target_id '' @ target_id t) True)
      else check_targets (insert (target_id t) seen) ts)"

definition check_target_list :: "target_observation list \<Rightarrow> rejection + unit" where
  "check_target_list ts =
     (if length ts > 1024 then
        Inl (Reject InvalidRequest (show_nat (length ts) @ '' target rows exceed the 1024 cap'') True)
      else check_targets {} ts)"

definition sorted_by_target_id :: "target_observation list \<Rightarrow> target_observation list" where
  "sorted_by_target_id ts = sort_key target_id ts"

definition declared_at_prepare :: "target_observation list \<Rightarrow> target_observation list" where
  "declared_at_prepare ts =
     sorted_by_target_id
       (map (\<lambda>t. t\<lparr>observed_digest := None, observed_at := None, target_state_of := Target_Unknown\<rparr>) ts)"

text \<open>The map collected from the submitted rows: a later row replaces an earlier one.\<close>

definition rows_by_id :: "target_observation list \<Rightarrow> string \<rightharpoonup> target_observation" where
  "rows_by_id ts = fold (\<lambda>t m. m(target_id t \<mapsto> t)) ts Map.empty"

definition merge_row :: "(string \<rightharpoonup> target_observation) \<Rightarrow> target_observation \<Rightarrow> target_observation" where
  "merge_row by_id d = classify_declared
     (case by_id (target_id d) of
        Some obs \<Rightarrow> d\<lparr>observed_digest := observed_digest obs, observed_at := observed_at obs\<rparr>
      | None \<Rightarrow> d\<lparr>observed_digest := None, observed_at := None\<rparr>)"

definition merge_declared ::
    "target_observation list \<Rightarrow> target_observation list \<Rightarrow> rejection + target_observation list" where
  "merge_declared declared submitted =
     (case find (\<lambda>t. \<not> list_ex (\<lambda>d. target_id d = target_id t) declared) submitted of
        Some t \<Rightarrow> Inl (Reject InvalidRequest (''settle names undeclared target '' @ target_id t) True)
      | None \<Rightarrow> Inr (map (merge_row (rows_by_id submitted)) declared))"

definition classify_post_hoc ::
    "target_observation list \<Rightarrow> settle_evidence \<Rightarrow> target_observation list" where
  "classify_post_hoc submitted evidence =
     sorted_by_target_id
       (map (\<lambda>t. t\<lparr>expected_digest := None,
                   target_state_of := (if clean_wait_status evidence \<and> observed_digest t \<noteq> None
                                       then Target_Applied else Target_Unknown)\<rparr>) submitted)"

definition has_dispatch_evidence :: "effect_state \<Rightarrow> bool" where
  "has_dispatch_evidence s \<longleftrightarrow>
     s \<in> {Effect_Dispatching, Effect_Dispatched, Effect_Observing, Effect_Reconciling, Effect_Compensating}"

text \<open>Why a settlement is unlawful; \<open>None\<close> when it is permitted.\<close>

definition settle_legality :: "effect_intent \<Rightarrow> effect_terminal \<Rightarrow> settle_evidence \<Rightarrow> string option" where
  "settle_legality i terminal evidence =
     (let state = ei_state i; evident = has_dispatch_evidence state in
      case terminal of
        Term_Cancelled \<Rightarrow>
          if state = Effect_Prepared then None
          else if evident \<and> target_reported_cancellation evidence then None
          else Some (''cancelled from '' @ effect_state_debug state
                 @ '' requires an authoritative target-reported cancellation ('' @ sect
                 @ ''5.3); a cancel request MUST NOT convert an uncertain effect into cancelled (I7)'')
      | Term_Compensated \<Rightarrow>
          if \<not> evident then
            Some (''compensated from '' @ effect_state_debug state @ '': nothing was dispatched to compensate'')
          else if ei_reversibility_class i = Irreversible then
            Some (''compensated is unavailable for an irreversible effect ('' @ sect
                 @ ''5.3 R20); an unproven outcome surfaces to the owner for accept-unknown'')
          else if compensation_intent_id i = None then
            Some (''compensated requires a registered compensation intent ('' @ sect @ ''4.2 step 5)'')
          else None
      | Term_Unknown \<Rightarrow>
          if evident then None
          else Some (''unknown from '' @ effect_state_debug state
                 @ '': I8 proves no adapter acted, so the outcome is not uncertain'')
      | _ \<Rightarrow>
          if evident then None
          else Some (terminal_debug terminal @ '' needs dispatch evidence; state is '' @ effect_state_debug state
                 @ '' ('' @ sect @ ''9 step 6 forbids synthetic outcomes)''))"

definition classify_settle_targets ::
    "effect_intent \<Rightarrow> target_observation list \<Rightarrow> settle_evidence \<Rightarrow> rejection + target_observation list" where
  "classify_settle_targets i submitted evidence =
     (case ei_target_enumeration i of
        Enum_Declared \<Rightarrow> merge_declared (ei_targets i) submitted
      | Enum_PostHoc \<Rightarrow> Inr (classify_post_hoc submitted evidence))"

fun terminal_wire :: "effect_terminal \<Rightarrow> string" where
  "terminal_wire Term_Succeeded = ''succeeded''"
| "terminal_wire Term_Failed = ''failed''"
| "terminal_wire Term_Cancelled = ''cancelled''"
| "terminal_wire Term_Compensated = ''compensated''"
| "terminal_wire Term_Unknown = ''unknown''"

fun effect_state_wire :: "effect_state \<Rightarrow> string" where
  "effect_state_wire Effect_Prepared = ''prepared''"
| "effect_state_wire Effect_Dispatching = ''dispatching''"
| "effect_state_wire Effect_Dispatched = ''dispatched''"
| "effect_state_wire Effect_Observing = ''observing''"
| "effect_state_wire Effect_Reconciling = ''reconciling''"
| "effect_state_wire Effect_Compensating = ''compensating''"
| "effect_state_wire Effect_Settled = ''settled''"

section \<open>The write-once terminal\<close>

lemma settle_intent_Inr:
  "settle_intent terminal i = Inr j \<longleftrightarrow>
     ei_terminal i = None \<and> j = i\<lparr>ei_terminal := Some terminal, ei_state := Effect_Settled\<rparr> \<and>
     (terminal = Term_Succeeded \<longrightarrow> (\<forall>t \<in> set (ei_targets i). target_state_of t = Target_Applied)) \<and>
     (terminal = Term_Failed \<longrightarrow> (\<forall>t \<in> set (ei_targets i). target_state_of t \<noteq> Target_Unknown))"
  unfolding settle_intent_def
  using find_None [of "\<lambda>t. target_state_of t \<noteq> Target_Applied" "ei_targets i"]
    find_None [of "\<lambda>t. target_state_of t = Target_Unknown" "ei_targets i"]
  by (cases terminal) (auto split: option.splits)

lemma settle_intent_settled: "ei_terminal j = Some t \<Longrightarrow> settle_intent u j = Inl (TerminalAlreadySet t)"
  by (simp add: settle_intent_def)

text \<open>
  What the targets of an unsettled intent classify as can always be settled; a success can be settled
  exactly when every target is applied and a failure exactly when none is unknown; no targets at all
  classify as unknown, never as success; and after any settlement every other one is refused with the
  terminal that stands.
\<close>

theorem settlement_agrees_with_targets:
  assumes "ei_terminal i = None"
  shows "settle_intent (classify_targets i) i =
      Inr (i\<lparr>ei_terminal := Some (classify_targets i), ei_state := Effect_Settled\<rparr>) \<and>
    (isl (settle_intent Term_Succeeded i) \<longleftrightarrow> (\<exists>t \<in> set (ei_targets i). target_state_of t \<noteq> Target_Applied)) \<and>
    (isl (settle_intent Term_Failed i) \<longleftrightarrow> (\<exists>t \<in> set (ei_targets i). target_state_of t = Target_Unknown)) \<and>
    (classify_targets i = Term_Succeeded \<longrightarrow> ei_targets i \<noteq> []) \<and>
    (\<forall>j t u. settle_intent t i = Inr j \<longrightarrow> settle_intent u j = Inl (TerminalAlreadySet t))"
proof (intro conjI allI impI)
  show "settle_intent (classify_targets i) i =
      Inr (i\<lparr>ei_terminal := Some (classify_targets i), ei_state := Effect_Settled\<rparr>)"
    using assms by (auto simp: settle_intent_Inr classify_targets_def list_ex_iff list_all_iff split: if_splits)
  have isl_iff: "isl r \<longleftrightarrow> (\<forall>j. r \<noteq> Inr j)" for r :: "effect_error + effect_intent" by (cases r) simp_all
  show "isl (settle_intent Term_Succeeded i) \<longleftrightarrow> (\<exists>t \<in> set (ei_targets i). target_state_of t \<noteq> Target_Applied)"
    "isl (settle_intent Term_Failed i) \<longleftrightarrow> (\<exists>t \<in> set (ei_targets i). target_state_of t = Target_Unknown)"
    using assms by (auto simp: isl_iff settle_intent_Inr)
qed (auto simp: classify_targets_def settle_intent_Inr settle_intent_settled split: if_splits)

section \<open>Declared targets\<close>

lemma classify_declared_simps [simp]:
  "target_id (classify_declared t) = target_id t" "expected_digest (classify_declared t) = expected_digest t"
  "pre_digest (classify_declared t) = pre_digest t" "observed_digest (classify_declared t) = observed_digest t"
  by (simp_all add: classify_declared_def)

lemma classify_declared_applied:
  "target_state_of (classify_declared t) = Target_Applied \<longleftrightarrow>
     observed_digest t \<noteq> None \<and> observed_digest t = expected_digest t"
  by (auto simp: classify_declared_def split: option.splits)

lemma rows_by_id_Some: "rows_by_id ts k = Some t \<Longrightarrow> t \<in> set ts \<and> target_id t = k"
proof (induction ts rule: rev_induct)
  case (snoc x ts)
  then show ?case by (auto simp: rows_by_id_def split: if_splits)
qed (simp add: rows_by_id_def)

lemma merge_row_simps [simp]:
  "target_id (merge_row m d) = target_id d" "expected_digest (merge_row m d) = expected_digest d"
  "pre_digest (merge_row m d) = pre_digest d"
  by (simp_all add: merge_row_def split: option.splits)

lemma merge_row_applied:
  "target_state_of (merge_row m d) = Target_Applied \<longleftrightarrow>
     (\<exists>obs. m (target_id d) = Some obs \<and> observed_digest obs \<noteq> None \<and> observed_digest obs = expected_digest d)"
  by (auto simp: merge_row_def classify_declared_applied split: option.splits)

lemma merge_declared_Inr:
  "merge_declared ds ts = Inr rows \<longleftrightarrow>
     rows = map (merge_row (rows_by_id ts)) ds \<and> target_id ` set ts \<subseteq> target_id ` set ds"
proof (cases "find (\<lambda>t. \<not> list_ex (\<lambda>d. target_id d = target_id t) ds) ts")
  case None
  then have "target_id t \<in> target_id ` set ds" if "t \<in> set ts" for t
    using that unfolding find_None list_ex_iff by (metis imageI)
  with None show ?thesis by (auto simp: merge_declared_def)
next
  case (Some t)
  then have "t \<in> set ts \<and> target_id t \<notin> target_id ` set ds" by (auto simp: find_Some_iff list_ex_iff)
  with Some show ?thesis by (auto simp: merge_declared_def)
qed

text \<open>
  Settling an intent whose targets were declared at prepare keeps their identities, order and declared
  digests whatever rows are submitted; and when it settles as a success, every declared target has a
  submitted row whose observed digest is the digest declared for it. Rows left out cannot make a success.
\<close>

theorem declared_success_is_observed:
  assumes "ei_target_enumeration i = Enum_Declared"
    and "classify_settle_targets i submitted evidence = Inr rows"
  shows "map target_id rows = map target_id (ei_targets i) \<and>
    map expected_digest rows = map expected_digest (ei_targets i) \<and>
    (\<forall>j. settle_intent Term_Succeeded (i\<lparr>ei_targets := rows\<rparr>) = Inr j \<longrightarrow>
       (\<forall>d \<in> set (ei_targets i). \<exists>t \<in> set submitted.
          target_id t = target_id d \<and> observed_digest t \<noteq> None \<and> observed_digest t = expected_digest d))"
proof -
  have rows: "rows = map (merge_row (rows_by_id submitted)) (ei_targets i)"
    using assms by (simp add: classify_settle_targets_def merge_declared_Inr)
  moreover have "\<exists>t \<in> set submitted.
      target_id t = target_id d \<and> observed_digest t \<noteq> None \<and> observed_digest t = expected_digest d"
    if "settle_intent Term_Succeeded (i\<lparr>ei_targets := rows\<rparr>) = Inr j" and "d \<in> set (ei_targets i)" for j d
  proof -
    have "target_state_of (merge_row (rows_by_id submitted) d) = Target_Applied"
      using that by (simp add: settle_intent_Inr rows)
    then show ?thesis using rows_by_id_Some unfolding merge_row_applied by blast
  qed
  ultimately show ?thesis by simp
qed

definition demo_target :: "digest option \<Rightarrow> target_observation" where
  "demo_target obs = \<lparr>target_id = ''src/lib.rs'', expected_digest = Some (Digest ''new''),
     pre_digest = Some (Digest ''old''), observed_digest = obs, target_state_of = Target_Unknown,
     observed_at = None\<rparr>"

definition demo_intent :: effect_intent where
  "demo_intent = \<lparr>effect_intent_id = Uuid7 7, ei_version = 1, ei_unit_id = ''unit-1'', ei_attempt_epoch = 1,
     ei_stamp = 0, ei_authority_epoch = 1, adapter_id = ''git'', adapter_version = ''1'',
     operation_key = ''op-1'', logical_operation_id = Uuid7 8, ei_request_digest = Digest ''req'',
     ei_retry_class = QueryThenRetry, ei_reversibility_class = Bufferable, approval_ref = None,
     policy_snapshot_digest = Digest ''policy'', ei_state = Effect_Dispatched, ei_terminal = None,
     ei_target_enumeration = Enum_Declared, ei_targets = [demo_target None], decomposable = False,
     parent_effect_intent_id = None, compensation_intent_id = None, dispatched_at = Some 10,
     settled_at = None, next_reconcile_at = None\<rparr>"

theorem settlement_agrees_with_targets_witness:
  "classify_targets demo_intent = Term_Unknown \<and> isl (settle_intent Term_Failed demo_intent) \<and>
   settle_intent Term_Unknown demo_intent =
     Inr (demo_intent\<lparr>ei_terminal := Some Term_Unknown, ei_state := Effect_Settled\<rparr>)"
proof -
  have "ei_terminal demo_intent = None" "classify_targets demo_intent = Term_Unknown"
    by (simp_all add: demo_intent_def classify_targets_def demo_target_def)
  moreover have "\<exists>t \<in> set (ei_targets demo_intent). target_state_of t = Target_Unknown"
    by (simp add: demo_intent_def demo_target_def)
  ultimately show ?thesis using settlement_agrees_with_targets [of demo_intent] by simp
qed

theorem declared_success_is_observed_witness:
  "classify_settle_targets demo_intent [demo_target (Some (Digest ''new''))]
     \<lparr>clean_wait_status = True, target_reported_cancellation = False\<rparr> =
       Inr [(demo_target (Some (Digest ''new'')))\<lparr>target_state_of := Target_Applied\<rparr>] \<and>
   (\<exists>t \<in> set [demo_target (Some (Digest ''new''))].
      target_id t = ''src/lib.rs'' \<and> observed_digest t = Some (Digest ''new''))"
proof -
  have "classify_settle_targets demo_intent [demo_target (Some (Digest ''new''))]
     \<lparr>clean_wait_status = True, target_reported_cancellation = False\<rparr> =
       Inr [(demo_target (Some (Digest ''new'')))\<lparr>target_state_of := Target_Applied\<rparr>]" (is "?c = Inr ?rows")
    by (simp add: classify_settle_targets_def merge_declared_def rows_by_id_def merge_row_def
        classify_declared_def demo_intent_def demo_target_def)
  moreover from declared_success_is_observed [OF _ this]
  have "\<exists>t \<in> set [demo_target (Some (Digest ''new''))].
      target_id t = ''src/lib.rs'' \<and> observed_digest t = Some (Digest ''new'')"
    by (simp add: demo_intent_def demo_target_def settle_intent_Inr)
  ultimately show ?thesis by simp
qed

section \<open>Lawful settlements\<close>

lemma settle_legality_None:
  "settle_legality i terminal evidence = None \<longleftrightarrow>
     (case terminal of
        Term_Cancelled \<Rightarrow> ei_state i = Effect_Prepared \<or>
          has_dispatch_evidence (ei_state i) \<and> target_reported_cancellation evidence
      | Term_Compensated \<Rightarrow> has_dispatch_evidence (ei_state i) \<and> ei_reversibility_class i \<noteq> Irreversible \<and>
          compensation_intent_id i \<noteq> None
      | _ \<Rightarrow> has_dispatch_evidence (ei_state i))"
  by (cases terminal) (simp_all add: settle_legality_def Let_def)

lemma check_targets_Inr:
  "check_targets seen ts = Inr () \<longleftrightarrow>
     (\<forall>t \<in> set ts. length (target_id t) \<le> 256) \<and> distinct (map target_id ts) \<and> target_id ` set ts \<inter> seen = {}"
  by (induction ts arbitrary: seen) auto

lemma check_target_list_Inr:
  "check_target_list ts = Inr () \<longleftrightarrow>
     length ts \<le> 1024 \<and> (\<forall>t \<in> set ts. length (target_id t) \<le> 256) \<and> distinct (map target_id ts)"
  by (simp add: check_target_list_def check_targets_Inr)

lemma declared_at_prepare_unknown:
  "t \<in> set (declared_at_prepare ts) \<Longrightarrow> target_state_of t = Target_Unknown \<and> observed_digest t = None"
  by (auto simp: declared_at_prepare_def sorted_by_target_id_def)

end
