(* ===== verification/Kernel_Store.thy ===== *)
theory Kernel_Store
  imports Kernel_Effect
begin

text \<open>
  The control-graph store of the kernel (\<open>yah-kernel/src/store/mod.rs\<close>, \<open>schema.rs\<close>, parts of \<open>read.rs\<close> and
  \<open>recovery.rs\<close>): properties of a node, the address books from identities to nodes, the cursor allocator,
  the five-axis fence of a holder's token, and the classification of a commit error. The graph engine and
  the serialisation of records are parameters, gathered in \<open>kernel_env\<close>.
\<close>

section \<open>Values and properties\<close>

text \<open>
  A property is an integer, a string, or a document: text that only the serialisation library writes and
  reads, of the abstract type \<open>'x\<close>. \<open>VOther\<close> is any other value of the engine.
\<close>

datatype 'x prop_value = VUint u64 | VInt int | VString string | VText 'x | VOther

type_synonym 'x props = "string \<rightharpoonup> 'x prop_value"
type_synonym node_id = nat

fun value_u64 :: "'x prop_value \<Rightarrow> u64 option" where
  "value_u64 (VUint u) = Some u"
| "value_u64 (VInt i) = (if 0 \<le> i then Some (nat i) else None)"
| "value_u64 _ = None"

fun value_str :: "'x prop_value \<Rightarrow> string option" where
  "value_str (VString s) = Some s"
| "value_str _ = None"

fun value_text :: "'x prop_value \<Rightarrow> 'x option" where
  "value_text (VText x) = Some x"
| "value_text _ = None"

definition prop_u64 :: "'x props \<Rightarrow> string \<Rightarrow> u64 option" where
  "prop_u64 p k = Option.bind (p k) value_u64"

definition prop_str :: "'x props \<Rightarrow> string \<Rightarrow> string option" where
  "prop_str p k = Option.bind (p k) value_str"

definition prop_text :: "'x props \<Rightarrow> string \<Rightarrow> 'x option" where
  "prop_text p k = Option.bind (p k) value_text"

definition or_zero :: "u64 option \<Rightarrow> u64" where "or_zero x = (case x of None \<Rightarrow> 0 | Some n \<Rightarrow> n)"
definition or_empty :: "string option \<Rightarrow> string" where "or_empty x = (case x of None \<Rightarrow> [] | Some s \<Rightarrow> s)"

section \<open>Code outside the repository\<close>

text \<open>
  \<open>selene\<close> is the graph engine: it reads the properties and the label of a node, creates one under a label, and sets
  properties of an existing one. \<open>serde\<close> writes records as documents and reads them back; the lengths of
  serialised values are those it and the canonicaliser give, and \<open>chrono\<close> says which milliseconds are a date.
\<close>

datatype graph_error =
  Graph_Durable string | Graph_TypeViolation string | Graph_Core string | Graph_Cancelled | Graph_Other string

record ('g, 'x) kernel_env =
  hash_hex :: "string \<Rightarrow> string"
  node_properties :: "'g \<Rightarrow> node_id \<Rightarrow> 'x props option"
  node_label :: "'g \<Rightarrow> node_id \<Rightarrow> string option"
  create_node :: "'g \<Rightarrow> string \<Rightarrow> 'x props \<Rightarrow> graph_error + (node_id \<times> 'g)"
  update_node :: "'g \<Rightarrow> node_id \<Rightarrow> 'x props \<Rightarrow> graph_error + 'g"
  graph_error_debug :: "graph_error \<Rightarrow> string"
  enc_intent :: "effect_intent \<Rightarrow> 'x"
  dec_intent :: "'x \<Rightarrow> string + effect_intent"
  enc_request :: "cancel_request_record \<Rightarrow> 'x"
  dec_request :: "'x \<Rightarrow> string + cancel_request_record"
  enc_scope :: "cancel_scope \<Rightarrow> 'x"
  enc_delivery :: "cancel_delivery_record \<Rightarrow> 'x"
  enc_strings :: "string list \<Rightarrow> 'x"
  enc_json :: "json \<Rightarrow> 'x"
  dec_json :: "'x \<Rightarrow> string + json"
  json_len :: "json \<Rightarrow> usize"
  canonical_len :: "json \<Rightarrow> usize option"
  timestamp_millis_ok :: "u64 \<Rightarrow> bool"

text \<open>
  What is relied on: a created node is new and carries the label and the properties given, an update sets the
  properties given on a node that exists and keeps its label, both leave every other node alone; and a document read back is the value
  written.
\<close>

definition kernel_env_ok :: "('g, 'x) kernel_env \<Rightarrow> bool" where
  "kernel_env_ok K \<longleftrightarrow>
     (\<forall>g l p n g'. create_node K g l p = Inr (n, g') \<longrightarrow>
        node_properties K g n = None \<and> node_properties K g' = (node_properties K g)(n \<mapsto> p) \<and>
        node_label K g' = (node_label K g)(n \<mapsto> l)) \<and>
     (\<forall>g n d g'. update_node K g n d = Inr g' \<longrightarrow>
        (\<exists>p. node_properties K g n = Some p \<and> node_properties K g' = (node_properties K g)(n \<mapsto> p ++ d)) \<and>
        node_label K g' = node_label K g) \<and>
     (\<forall>i. dec_intent K (enc_intent K i) = Inr i) \<and>
     (\<forall>r. dec_request K (enc_request K r) = Inr r) \<and>
     (\<forall>j. dec_json K (enc_json K j) = Inr j)"

section \<open>Address books\<close>

record books =
  bk_authority :: "node_id option"
  bk_units :: "(string, node_id) btree"
  bk_attempts :: "(string, node_id) btree"
  bk_attempt_ids :: "(string, node_id) btree"
  bk_leases :: "(string, node_id) btree"
  bk_work_items :: "(string, node_id) btree"
  bk_receipts :: "(string, node_id) btree"
  bk_effects :: "(string, node_id) btree"
  bk_effect_intent_ids :: "(string, node_id) btree"
  bk_events :: "(u64, node_id) btree"
  bk_evidence :: "(string, node_id) btree"
  bk_runs :: "(string, node_id) btree"
  bk_cancel_requests :: "(string, node_id) btree"
  bk_cancel_roots :: "(string, node_id) btree"
  bk_cancel_deliveries :: "(string, node_id) btree"
  bk_cancel_deliveries_by_request :: "(string, node_id list) btree"

datatype book_kind =
    Book_Unit | Book_Attempt string | Book_Lease | Book_WorkItem | Book_Receipt | Book_Effect string
  | Book_Event | Book_Evidence | Book_Run | Book_CancelRequest string | Book_CancelDelivery string

text \<open>\<open>str::parse::<u64>\<close> on a decimal numeral.\<close>

definition parse_u64 :: "string \<Rightarrow> u64 option" where
  "parse_u64 s =
     (let v = foldl (\<lambda>a c. a * 10 + (code c - 48)) 0 s
      in if s \<noteq> [] \<and> list_all ascii_digit s \<and> v < U64_MODULUS then Some v else None)"

text \<open>The key of an event is the decimal text of its cursor, so that the \<open>expect\<close> on parsing it holds.\<close>

fun book_insert :: "book_kind \<Rightarrow> string \<Rightarrow> node_id \<Rightarrow> books \<Rightarrow> books" where
  "book_insert Book_Unit k n b = b\<lparr>bk_units := bt_insert k n (bk_units b)\<rparr>"
| "book_insert (Book_Attempt attempt_id) k n b =
     b\<lparr>bk_attempt_ids := bt_insert attempt_id n (bk_attempt_ids b), bk_attempts := bt_insert k n (bk_attempts b)\<rparr>"
| "book_insert Book_Lease k n b = b\<lparr>bk_leases := bt_insert k n (bk_leases b)\<rparr>"
| "book_insert Book_WorkItem k n b = b\<lparr>bk_work_items := bt_insert k n (bk_work_items b)\<rparr>"
| "book_insert Book_Receipt k n b = b\<lparr>bk_receipts := bt_insert k n (bk_receipts b)\<rparr>"
| "book_insert (Book_Effect intent_id) k n b =
     b\<lparr>bk_effect_intent_ids := bt_insert intent_id n (bk_effect_intent_ids b),
       bk_effects := bt_insert k n (bk_effects b)\<rparr>"
| "book_insert Book_Event k n b =
     (case parse_u64 k of
        Some c \<Rightarrow> b\<lparr>bk_events := bt_insert c n (bk_events b)\<rparr>
      | None \<Rightarrow> b)"
| "book_insert Book_Evidence k n b = b\<lparr>bk_evidence := bt_insert k n (bk_evidence b)\<rparr>"
| "book_insert Book_Run k n b = b\<lparr>bk_runs := bt_insert k n (bk_runs b)\<rparr>"
| "book_insert (Book_CancelRequest root_key) k n b =
     b\<lparr>bk_cancel_roots := bt_insert root_key n (bk_cancel_roots b),
       bk_cancel_requests := bt_insert k n (bk_cancel_requests b)\<rparr>"
| "book_insert (Book_CancelDelivery request_id) k n b =
     b\<lparr>bk_cancel_deliveries_by_request :=
         bt_insert request_id
           ((case bt_get (bk_cancel_deliveries_by_request b) request_id of None \<Rightarrow> [] | Some ns \<Rightarrow> ns) @ [n])
           (bk_cancel_deliveries_by_request b),
       bk_cancel_deliveries := bt_insert k n (bk_cancel_deliveries b)\<rparr>"

section \<open>The store\<close>

record 'g store =
  st_graph :: 'g
  st_books :: books
  st_next_cursor :: u64
  st_authority_epoch :: u64
  st_project_id :: string
  st_min_retained_cursor :: u64
  st_token_key :: "byte list"

datatype store_rejection =
    Store_InvalidRequest string
  | Store_FenceRejected string
  | Store_VersionConflict string u64 u64
  | Store_JournalImmutable string
  | Store_NotFound string
  | Store_TerminalAlreadySet string

datatype store_error =
  Store_Rejected store_rejection | Store_Graph graph_error | CommitUnknown string | Store_Internal string

definition commit_error :: "('g, 'x) kernel_env \<Rightarrow> graph_error \<Rightarrow> store_error" where
  "commit_error K e =
     (case e of
        Graph_Durable reason \<Rightarrow> CommitUnknown reason
      | Graph_Other _ \<Rightarrow> CommitUnknown (''unclassified Selene commit outcome: '' @ graph_error_debug K e)
      | _ \<Rightarrow> Store_Graph e)"

definition u64_checked_add :: "u64 \<Rightarrow> u64 \<Rightarrow> u64 option" where
  "u64_checked_add a b = (if a + b < U64_MODULUS then Some (a + b) else None)"

text \<open>The allocator gives the cursor and the value after it; at the end of its range it refuses.\<close>

definition allocate_cursor :: "u64 \<Rightarrow> store_error + (u64 \<times> u64)" where
  "allocate_cursor c =
     (case u64_checked_add c 1 of
        None \<Rightarrow> Inl (Store_Internal ''event cursor space exhausted'')
      | Some next \<Rightarrow> Inr (c, next))"

abbreviation unit_node :: "'g store \<Rightarrow> string \<Rightarrow> node_id option" where
  "unit_node st k \<equiv> bt_get (bk_units (st_books st)) k"
abbreviation lease_node :: "'g store \<Rightarrow> string \<Rightarrow> node_id option" where
  "lease_node st k \<equiv> bt_get (bk_leases (st_books st)) k"
abbreviation work_item_node :: "'g store \<Rightarrow> string \<Rightarrow> node_id option" where
  "work_item_node st k \<equiv> bt_get (bk_work_items (st_books st)) k"
abbreviation receipt_node :: "'g store \<Rightarrow> string \<Rightarrow> node_id option" where
  "receipt_node st k \<equiv> bt_get (bk_receipts (st_books st)) k"
abbreviation attempt_node :: "'g store \<Rightarrow> string \<Rightarrow> node_id option" where
  "attempt_node st k \<equiv> bt_get (bk_attempts (st_books st)) k"
abbreviation effect_node :: "'g store \<Rightarrow> string \<Rightarrow> node_id option" where
  "effect_node st k \<equiv> bt_get (bk_effects (st_books st)) k"
abbreviation run_node :: "'g store \<Rightarrow> string \<Rightarrow> node_id option" where
  "run_node st k \<equiv> bt_get (bk_runs (st_books st)) k"
abbreviation cancel_request_node :: "'g store \<Rightarrow> string \<Rightarrow> node_id option" where
  "cancel_request_node st k \<equiv> bt_get (bk_cancel_requests (st_books st)) k"
abbreviation cancel_delivery_node :: "'g store \<Rightarrow> string \<Rightarrow> node_id option" where
  "cancel_delivery_node st k \<equiv> bt_get (bk_cancel_deliveries (st_books st)) k"
abbreviation attempt_id_node :: "'g store \<Rightarrow> string \<Rightarrow> node_id option" where
  "attempt_id_node st k \<equiv> bt_get (bk_attempt_ids (st_books st)) k"
abbreviation effect_intent_id_node :: "'g store \<Rightarrow> string \<Rightarrow> node_id option" where
  "effect_intent_id_node st k \<equiv> bt_get (bk_effect_intent_ids (st_books st)) k"

definition cancel_delivery_nodes :: "'g store \<Rightarrow> string \<Rightarrow> node_id list" where
  "cancel_delivery_nodes st request_id =
     (case bt_get (bk_cancel_deliveries_by_request (st_books st)) request_id of None \<Rightarrow> [] | Some ns \<Rightarrow> ns)"

definition cancel_root_node :: "'g store \<Rightarrow> string \<Rightarrow> string \<Rightarrow> node_id option" where
  "cancel_root_node st kind rid = bt_get (bk_cancel_roots (st_books st)) (kind @ ''/'' @ rid)"

definition cancel_request_nodes :: "'g store \<Rightarrow> node_id list" where
  "cancel_request_nodes st = map snd (bk_cancel_requests (st_books st))"

abbreviation node_of :: "('g, 'x) kernel_env \<Rightarrow> 'g store \<Rightarrow> node_id \<Rightarrow> 'x props option" where
  "node_of K st n \<equiv> node_properties K (st_graph st) n"

definition node_str :: "('g, 'x) kernel_env \<Rightarrow> 'g store \<Rightarrow> node_id \<Rightarrow> string \<Rightarrow> string option" where
  "node_str K st n k = Option.bind (node_of K st n) (\<lambda>p. prop_str p k)"

definition node_u64 :: "('g, 'x) kernel_env \<Rightarrow> 'g store \<Rightarrow> node_id \<Rightarrow> string \<Rightarrow> u64 option" where
  "node_u64 K st n k = Option.bind (node_of K st n) (\<lambda>p. prop_u64 p k)"

section \<open>The fence of a holder\<close>

record attempt_token_claims =
  tk_unit_id :: string
  tk_attempt_epoch :: u64
  tk_stamp :: u64
  tk_authority_epoch :: u64
  tk_holder_id :: string
  tk_nonce :: string

record unit_fence =
  uf_attempt_epoch :: u64
  uf_stamp :: u64

record lease_fence =
  lf_holder_id :: string
  lf_status :: string

definition check_holder_fence ::
    "u64 \<Rightarrow> (string \<Rightarrow> unit_fence option) \<Rightarrow> (string \<Rightarrow> lease_fence option) \<Rightarrow> attempt_token_claims \<Rightarrow>
     store_rejection + unit" where
  "check_holder_fence current unit_fence_of lease_fence_of claims =
     (if tk_authority_epoch claims \<noteq> current then
        Inl (Store_FenceRejected (''authority epoch '' @ show_nat (tk_authority_epoch claims)
               @ '' behind current '' @ show_nat current))
      else case unit_fence_of (tk_unit_id claims) of
        None \<Rightarrow> Inl (Store_NotFound (''unit '' @ tk_unit_id claims))
      | Some u \<Rightarrow>
          if tk_attempt_epoch claims \<noteq> uf_attempt_epoch u then
            Inl (Store_FenceRejected (''attempt epoch '' @ show_nat (tk_attempt_epoch claims)
                   @ '' vs current '' @ show_nat (uf_attempt_epoch u)))
          else if tk_stamp claims \<noteq> uf_stamp u then
            Inl (Store_FenceRejected (''stamp '' @ show_nat (tk_stamp claims)
                   @ '' vs current '' @ show_nat (uf_stamp u)))
          else (case lease_fence_of (tk_unit_id claims) of
                  None \<Rightarrow> Inl (Store_NotFound (''lease for unit '' @ tk_unit_id claims))
                | Some l \<Rightarrow>
                    if lf_status l \<noteq> ''active'' then
                      Inl (Store_FenceRejected (''lease status '' @ lf_status l))
                    else if lf_holder_id l \<noteq> tk_holder_id claims then
                      Inl (Store_FenceRejected (''holder '' @ tk_holder_id claims
                             @ '' vs lease holder '' @ lf_holder_id l))
                    else Inr ()))"

section \<open>The state of a cancellation root\<close>

definition cancel_root_terminal ::
    "('g, 'x) kernel_env \<Rightarrow> 'g store \<Rightarrow> cancel_kind \<Rightarrow> string \<Rightarrow> bool option" where
  "cancel_root_terminal K st kind rid =
     (case kind of
        Kind_Run \<Rightarrow>
          Option.bind (run_node st rid) (\<lambda>n. Option.bind (node_str K st n ''status'') (\<lambda>s.
            if s \<in> {''open'', ''active'', ''reconciling''} then Some False
            else if s \<in> {''closed_success'', ''closed_failure'', ''cancelled''} then Some True
            else None))
      | Kind_ExecutionUnit \<Rightarrow>
          Option.bind (unit_node st rid) (\<lambda>n. Option.bind (node_str K st n ''status'') (\<lambda>s.
            if s \<in> {''admitted'', ''dispatched'', ''running'', ''awaiting_review'', ''awaiting_integration'',
                     ''settled_accepted'', ''settled_rejected'', ''cancelled'', ''failed'', ''abandoned''}
            then Some False else None))
      | Kind_Attempt \<Rightarrow>
          Option.bind (attempt_id_node st rid) (\<lambda>n. Option.bind (node_str K st n ''status'') (\<lambda>s.
            if s = ''superseded'' then Some True
            else if s \<in> {''active'', ''completed'', ''cancelled'', ''failed'', ''unknown''} then Some False
            else None))
      | Kind_EffectIntent \<Rightarrow>
          Option.bind (effect_intent_id_node st rid) (\<lambda>n.
            Option.bind (node_of K st n) (\<lambda>p. Option.bind (prop_text p ''record'') (\<lambda>x.
              case dec_intent K x of
                Inl _ \<Rightarrow> None
              | Inr i \<Rightarrow> Some (ei_state i = Effect_Settled \<and> ei_terminal i \<noteq> None)))))"

end
