(* ===== verification/Kernel_Command.thy ===== *)
theory Kernel_Command
  imports Kernel_Store
begin

text \<open>
  The commands of the mutation funnel (\<open>yah-kernel/src/funnel/command.rs\<close>), the plan an accepted command
  stages (\<open>plan.rs\<close>), the address and the properties of a receipt (\<open>receipt.rs\<close>), the answer to a repeated
  command (\<open>replay.rs\<close>), and the bounds of what is journalled (\<open>wire.rs\<close>).
\<close>

section \<open>JSON objects\<close>

definition json_object :: "(string \<times> json) list \<Rightarrow> json" where
  "json_object kvs = JObject (fold (\<lambda>(k, v) m. bt_insert k v m) kvs [])"

fun json_get :: "json \<Rightarrow> string \<Rightarrow> json option" where
  "json_get (JObject m) k = bt_get m k"
| "json_get _ k = None"

fun json_as_str :: "json \<Rightarrow> string option" where
  "json_as_str (JString s) = Some s"
| "json_as_str _ = None"

fun json_as_u64 :: "json \<Rightarrow> u64 option" where
  "json_as_u64 (JNumber (PosInt n)) = Some n"
| "json_as_u64 _ = None"

abbreviation json_u64 :: "u64 \<Rightarrow> json" where "json_u64 n \<equiv> JNumber (PosInt n)"

definition json_opt :: "u64 option \<Rightarrow> json" where
  "json_opt x = (case x of None \<Rightarrow> JNull | Some n \<Rightarrow> json_u64 n)"

section \<open>Bounds of the wire\<close>

definition RECEIPT_VERSION :: u64 where "RECEIPT_VERSION = 1"
definition MAX_RESULT_BYTES :: usize where "MAX_RESULT_BYTES = 4096"
definition KERNEL_ERROR_DETAIL_CHARS :: usize where "KERNEL_ERROR_DETAIL_CHARS = 512"
definition MAX_EVENT_PAYLOAD_BYTES :: usize where "MAX_EVENT_PAYLOAD_BYTES = 16 * 1024"
definition MAX_WIRE_TIMESTAMP_MS :: u64 where "MAX_WIRE_TIMESTAMP_MS = 253402300799999"

definition validate_timestamp :: "('g, 'x) kernel_env \<Rightarrow> u64 \<Rightarrow> string + unit" where
  "validate_timestamp K ms =
     (if ms \<le> MAX_WIRE_TIMESTAMP_MS \<and> timestamp_millis_ok K ms then Inr ()
      else Inl ''logical clock exceeds RFC 3339 timestamp range'')"

definition show_signed :: "int \<Rightarrow> string" where
  "show_signed i = (if i < 0 then ''-'' @ show_nat (nat (- i)) else show_nat (nat i))"

fun stringify_integers :: "json \<Rightarrow> json" where
  "stringify_integers (JNumber (PosInt n)) = JString (show_nat n)"
| "stringify_integers (JNumber (NegInt i)) = JString (show_signed i)"
| "stringify_integers (JArray vs) = JArray (map stringify_integers vs)"
| "stringify_integers (JObject kvs) = JObject (map (\<lambda>(k, v). (k, stringify_integers v)) kvs)"
| "stringify_integers v = v"

definition wire_json_len :: "('g, 'x) kernel_env \<Rightarrow> json \<Rightarrow> usize" where
  "wire_json_len K v = json_len K (stringify_integers v)"

definition bounded_detail :: "string \<Rightarrow> string" where
  "bounded_detail detail = take_chars KERNEL_ERROR_DETAIL_CHARS detail"

section \<open>Wire names\<close>

fun error_kind_wire :: "error_kind \<Rightarrow> string" where
  "error_kind_wire InvalidRequest = ''invalid_request''"
| "error_kind_wire Unauthenticated = ''unauthenticated''"
| "error_kind_wire Unauthorized = ''unauthorized''"
| "error_kind_wire NotFound = ''not_found''"
| "error_kind_wire VersionConflict = ''version_conflict''"
| "error_kind_wire IdempotencyConflict = ''idempotency_conflict''"
| "error_kind_wire FenceRejected = ''fence_rejected''"
| "error_kind_wire JournalImmutable = ''journal_immutable''"
| "error_kind_wire PolicyDenied = ''policy_denied''"
| "error_kind_wire CapabilityUnsupported = ''capability_unsupported''"
| "error_kind_wire ApprovalRequired = ''approval_required''"
| "error_kind_wire ResourceExhausted = ''resource_exhausted''"
| "error_kind_wire PayloadTooLarge = ''payload_too_large''"
| "error_kind_wire CursorExpired = ''cursor_expired''"
| "error_kind_wire SlowConsumer = ''slow_consumer''"
| "error_kind_wire Err_Cancelled = ''cancelled''"
| "error_kind_wire DeadlineExceeded = ''deadline_exceeded''"
| "error_kind_wire Unavailable = ''unavailable''"
| "error_kind_wire OutcomeUnknown = ''outcome_unknown''"
| "error_kind_wire Internal = ''internal''"

definition error_kinds :: "error_kind list" where
  "error_kinds = [InvalidRequest, Unauthenticated, Unauthorized, NotFound, VersionConflict,
     IdempotencyConflict, FenceRejected, JournalImmutable, PolicyDenied, CapabilityUnsupported,
     ApprovalRequired, ResourceExhausted, PayloadTooLarge, CursorExpired, SlowConsumer, Err_Cancelled,
     DeadlineExceeded, Unavailable, OutcomeUnknown, Internal]"

definition error_kind_of_wire :: "string \<Rightarrow> error_kind option" where
  "error_kind_of_wire s = find (\<lambda>k. error_kind_wire k = s) error_kinds"

datatype principal_kind = Principal_Owner | Principal_DelegateHuman | Principal_Agent | Principal_Daemon

fun principal_wire :: "principal_kind \<Rightarrow> string" where
  "principal_wire Principal_Owner = ''owner''"
| "principal_wire Principal_DelegateHuman = ''delegate_human''"
| "principal_wire Principal_Agent = ''agent''"
| "principal_wire Principal_Daemon = ''daemon''"

fun principal_debug :: "principal_kind \<Rightarrow> string" where
  "principal_debug Principal_Owner = ''Owner''"
| "principal_debug Principal_DelegateHuman = ''DelegateHuman''"
| "principal_debug Principal_Agent = ''Agent''"
| "principal_debug Principal_Daemon = ''Daemon''"

datatype run_outcome = ClosedSuccess | ClosedFailure | Run_Cancelled

fun run_outcome_wire :: "run_outcome \<Rightarrow> string" where
  "run_outcome_wire ClosedSuccess = ''closed_success''"
| "run_outcome_wire ClosedFailure = ''closed_failure''"
| "run_outcome_wire Run_Cancelled = ''cancelled''"

datatype scope_kind = Scope_Global | Scope_Project | Scope_Run | Scope_Unit

fun scope_kind_wire :: "scope_kind \<Rightarrow> string" where
  "scope_kind_wire Scope_Global = ''global''"
| "scope_kind_wire Scope_Project = ''project''"
| "scope_kind_wire Scope_Run = ''run''"
| "scope_kind_wire Scope_Unit = ''unit''"

fun retry_class_wire :: "retry_class \<Rightarrow> string" where
  "retry_class_wire SafeIdempotent = ''safe_idempotent''"
| "retry_class_wire SafeWithOperationKey = ''safe_with_operation_key''"
| "retry_class_wire QueryThenRetry = ''query_then_retry''"
| "retry_class_wire NoRetry = ''no_retry''"

fun reversibility_wire :: "reversibility_class \<Rightarrow> string" where
  "reversibility_wire Bufferable = ''bufferable''"
| "reversibility_wire ReversibleExternal = ''reversible_external''"
| "reversibility_wire Irreversible = ''irreversible''"

fun enumeration_wire :: "target_enumeration \<Rightarrow> string" where
  "enumeration_wire Enum_Declared = ''declared''"
| "enumeration_wire Enum_PostHoc = ''post_hoc''"

section \<open>Commands\<close>

record effect_spec =
  es_logical_operation_id :: uuid7
  es_request_digest :: digest
  es_adapter_id :: string
  es_adapter_version :: string
  es_retry_class :: retry_class
  es_reversibility_class :: reversibility_class
  es_target_enumeration :: target_enumeration
  es_approval_ref :: "uuid7 option"
  es_policy_snapshot_digest :: digest
  es_declared_targets :: "target_observation list"
  es_decomposable :: bool
  es_compensation_intent_id :: "uuid7 option"

datatype kernel_method =
    RunOpen (m_run_id: string) (m_goal: string)
  | RunClose (m_run_id: string) (m_outcome: run_outcome)
  | WorkItemCreate string digest "string list"
  | UnitAdmit string string string
  | UnitDispatch string string
  | ProgressReport string
  | StampBump string
  | TokenReissue string
  | EffectPrepare string effect_spec
  | EffectDispatch string string
  | EffectRecordDispatched string string u64
  | EffectSettle string string effect_terminal "target_observation list" settle_evidence u64
  | EffectParkReconciling string string u64
  | CancelRequest cancel_kind string kernel_cancel_reason cancel_policy "member_input list"
  | CancelRecordDelivery string string u64 "u64 option" delivery_outcome

record kernel_command =
  command_id :: string
  scope_kind_of :: scope_kind
  scope_id_of :: string
  request_digest :: digest
  expected_version :: "u64 option"
  principal_kind_of :: principal_kind
  principal_id :: string
  authority_epoch_of :: "u64 option"
  attempt_token :: "attempt_token_claims option"
  causation_id :: "string option"
  correlation_id :: "string option"
  cmd_method :: kernel_method

fun method_wire :: "kernel_method \<Rightarrow> string" where
  "method_wire (RunOpen _ _) = ''run.open''"
| "method_wire (RunClose _ _) = ''run.close''"
| "method_wire (WorkItemCreate _ _ _) = ''work_item.create''"
| "method_wire (UnitAdmit _ _ _) = ''unit.admit''"
| "method_wire (UnitDispatch _ _) = ''unit.dispatch''"
| "method_wire (ProgressReport _) = ''unit.progress_report''"
| "method_wire (StampBump _) = ''unit.stamp_bump''"
| "method_wire (TokenReissue _) = ''token.reissue''"
| "method_wire (EffectPrepare _ _) = ''effect.prepare''"
| "method_wire (EffectDispatch _ _) = ''effect.dispatch''"
| "method_wire (EffectRecordDispatched _ _ _) = ''effect.record_dispatched''"
| "method_wire (EffectSettle _ _ _ _ _ _) = ''effect.settle''"
| "method_wire (EffectParkReconciling _ _ _) = ''effect.park_reconciling''"
| "method_wire (CancelRequest _ _ _ _ _) = ''cancel.request''"
| "method_wire (CancelRecordDelivery _ _ _ _ _) = ''cancel.record_delivery''"

fun method_unit_id :: "kernel_method \<Rightarrow> string option" where
  "method_unit_id (UnitAdmit u _ _) = Some u"
| "method_unit_id (UnitDispatch u _) = Some u"
| "method_unit_id (ProgressReport u) = Some u"
| "method_unit_id (StampBump u) = Some u"
| "method_unit_id (TokenReissue u) = Some u"
| "method_unit_id (EffectPrepare u _) = Some u"
| "method_unit_id (EffectDispatch u _) = Some u"
| "method_unit_id (EffectRecordDispatched u _ _) = Some u"
| "method_unit_id (EffectSettle u _ _ _ _ _) = Some u"
| "method_unit_id (EffectParkReconciling u _ _) = Some u"
| "method_unit_id _ = None"

fun method_operation_key :: "kernel_method \<Rightarrow> string option" where
  "method_operation_key (EffectDispatch _ k) = Some k"
| "method_operation_key (EffectRecordDispatched _ k _) = Some k"
| "method_operation_key (EffectSettle _ k _ _ _ _) = Some k"
| "method_operation_key (EffectParkReconciling _ k _) = Some k"
| "method_operation_key _ = None"

datatype submission =
    Completed json
  | Replayed json
  | Rejected error_kind string bool
  | Panicked string

section \<open>Plans\<close>

record 'x cancel_request_plan =
  crp_request_id :: string
  crp_root_kind :: string
  crp_root_id :: string
  crp_policy :: string
  crp_reason :: string
  crp_status :: string
  crp_scope :: 'x
  crp_record :: 'x

record 'x effect_park_plan =
  epp_node :: node_id
  epp_version :: u64
  epp_record :: 'x

record 'x cancel_delivery_plan =
  cdp_delivery_key :: string
  cdp_request_id :: string
  cdp_request_node :: node_id
  cdp_request_version_after :: u64
  cdp_request_status_after :: string
  cdp_request_record_after :: 'x
  cdp_member_id :: string
  cdp_member_kind :: string
  cdp_order_index :: u32
  cdp_outcome :: string
  cdp_delivery_record :: 'x
  cdp_park_effect :: "'x effect_park_plan option"

record dispatch_plan =
  dp_unit_node :: node_id
  dp_unit_id :: string
  dp_new_version :: u64
  dp_new_epoch :: u64
  dp_stamp :: u64
  dp_authority_epoch :: u64
  dp_holder_id :: string
  dp_attempt_id :: string
  dp_token_nonce :: string
  dp_existing_lease :: "(node_id \<times> u64) option"
  dp_prior_attempt :: "node_id option"

datatype 'x plan =
    Plan_CreateRun string string
  | Plan_CloseRun node_id u64 string
  | Plan_CreateWorkItem string string 'x
  | Plan_CreateUnit string string string
  | Plan_Dispatch dispatch_plan
  | Plan_BumpUnit node_id u64 "u64 option"
  | Plan_CreateEffect string string string u64 'x
  | Plan_UpdateEffect node_id u64 string "string option" 'x
  | Plan_CreateCancelRequest "'x cancel_request_plan"
  | Plan_CancelRecordDelivery "'x cancel_delivery_plan"
  | Plan_Nothing

record event_draft =
  aggregate_kind :: string
  aggregate_id :: string
  aggregate_version :: u64
  event_kind :: string
  event_payload :: json

record 'x accepted =
  acc_plan :: "'x plan"
  acc_events :: "event_draft list"
  acc_result :: json

section \<open>Addresses of receipts\<close>

fun method_identifiers_are_valid :: "kernel_method \<Rightarrow> bool" where
  "method_identifiers_are_valid (RunOpen r g) \<longleftrightarrow> valid_wire_identifier r \<and> valid_wire_identifier g"
| "method_identifiers_are_valid (RunClose r _) \<longleftrightarrow> valid_wire_identifier r"
| "method_identifiers_are_valid (WorkItemCreate w _ _) \<longleftrightarrow> valid_wire_identifier w"
| "method_identifiers_are_valid (UnitAdmit u w r) \<longleftrightarrow>
     valid_wire_identifier u \<and> valid_wire_identifier w \<and> valid_wire_identifier r"
| "method_identifiers_are_valid (UnitDispatch u h) \<longleftrightarrow> valid_wire_identifier u \<and> valid_wire_identifier h"
| "method_identifiers_are_valid (ProgressReport u) \<longleftrightarrow> valid_wire_identifier u"
| "method_identifiers_are_valid (StampBump u) \<longleftrightarrow> valid_wire_identifier u"
| "method_identifiers_are_valid (TokenReissue u) \<longleftrightarrow> valid_wire_identifier u"
| "method_identifiers_are_valid (EffectPrepare u spec) \<longleftrightarrow>
     valid_wire_identifier u \<and> valid_wire_identifier (es_adapter_id spec)"
| "method_identifiers_are_valid (EffectDispatch u k) \<longleftrightarrow>
     valid_wire_identifier u \<and> \<not> isl (digest_try_from k)"
| "method_identifiers_are_valid (EffectRecordDispatched u k _) \<longleftrightarrow>
     valid_wire_identifier u \<and> \<not> isl (digest_try_from k)"
| "method_identifiers_are_valid (EffectSettle u k _ _ _ _) \<longleftrightarrow>
     valid_wire_identifier u \<and> \<not> isl (digest_try_from k)"
| "method_identifiers_are_valid (EffectParkReconciling u k _) \<longleftrightarrow>
     valid_wire_identifier u \<and> \<not> isl (digest_try_from k)"
| "method_identifiers_are_valid (CancelRequest _ rid _ _ proposed) \<longleftrightarrow>
     valid_wire_identifier rid \<and> list_all (\<lambda>m. valid_wire_identifier (input_id m)) proposed"
| "method_identifiers_are_valid (CancelRecordDelivery c m _ _ _) \<longleftrightarrow>
     valid_wire_identifier c \<and> valid_wire_identifier m"

definition opt_valid :: "string option \<Rightarrow> bool" where
  "opt_valid x = (case x of None \<Rightarrow> True | Some s \<Rightarrow> valid_wire_identifier s)"

definition identifiers_are_valid :: "kernel_command \<Rightarrow> bool" where
  "identifiers_are_valid cmd \<longleftrightarrow>
     valid_wire_identifier (scope_id_of cmd) \<and> valid_wire_identifier (command_id cmd) \<and>
     valid_wire_identifier (principal_id cmd) \<and> opt_valid (causation_id cmd) \<and> opt_valid (correlation_id cmd) \<and>
     method_identifiers_are_valid (cmd_method cmd)"

definition project_scope_is_valid :: "kernel_command \<Rightarrow> string \<Rightarrow> bool" where
  "project_scope_is_valid cmd project_id \<longleftrightarrow>
     scope_kind_of cmd \<noteq> Scope_Project \<or> scope_id_of cmd = project_id"

definition in_unit_scope :: "kernel_command \<Rightarrow> string \<Rightarrow> bool" where
  "in_unit_scope cmd u \<longleftrightarrow> scope_kind_of cmd = Scope_Unit \<and> scope_id_of cmd = u"

fun method_address_is_valid :: "kernel_command \<Rightarrow> kernel_method \<Rightarrow> bool" where
  "method_address_is_valid cmd (RunOpen r _) \<longleftrightarrow>
     scope_kind_of cmd = Scope_Global \<or> scope_kind_of cmd = Scope_Run \<and> scope_id_of cmd = r"
| "method_address_is_valid cmd (RunClose r _) \<longleftrightarrow>
     scope_kind_of cmd = Scope_Global \<or> scope_kind_of cmd = Scope_Run \<and> scope_id_of cmd = r"
| "method_address_is_valid cmd (WorkItemCreate _ _ _) \<longleftrightarrow> scope_kind_of cmd \<in> {Scope_Global, Scope_Project}"
| "method_address_is_valid cmd (ProgressReport u) \<longleftrightarrow> in_unit_scope cmd u"
| "method_address_is_valid cmd (TokenReissue u) \<longleftrightarrow> in_unit_scope cmd u"
| "method_address_is_valid cmd (EffectPrepare u _) \<longleftrightarrow> in_unit_scope cmd u"
| "method_address_is_valid cmd (EffectDispatch u _) \<longleftrightarrow> in_unit_scope cmd u"
| "method_address_is_valid cmd (EffectRecordDispatched u _ _) \<longleftrightarrow> in_unit_scope cmd u"
| "method_address_is_valid cmd (UnitAdmit u _ _) \<longleftrightarrow> scope_kind_of cmd = Scope_Global \<or> in_unit_scope cmd u"
| "method_address_is_valid cmd (UnitDispatch u _) \<longleftrightarrow> scope_kind_of cmd = Scope_Global \<or> in_unit_scope cmd u"
| "method_address_is_valid cmd (StampBump u) \<longleftrightarrow> scope_kind_of cmd = Scope_Global \<or> in_unit_scope cmd u"
| "method_address_is_valid cmd (EffectSettle u _ _ _ _ _) \<longleftrightarrow>
     scope_kind_of cmd = Scope_Global \<or> in_unit_scope cmd u"
| "method_address_is_valid cmd (EffectParkReconciling u _ _) \<longleftrightarrow>
     scope_kind_of cmd = Scope_Global \<or> in_unit_scope cmd u"
| "method_address_is_valid cmd (CancelRequest _ _ _ _ _) \<longleftrightarrow> scope_kind_of cmd = Scope_Global"
| "method_address_is_valid cmd (CancelRecordDelivery _ _ _ _ _) \<longleftrightarrow> scope_kind_of cmd = Scope_Global"

definition address_is_valid :: "kernel_command \<Rightarrow> string \<Rightarrow> bool" where
  "address_is_valid cmd project_id \<longleftrightarrow>
     identifiers_are_valid cmd \<and> project_scope_is_valid cmd project_id \<and>
     method_address_is_valid cmd (cmd_method cmd)"

definition receipt_key :: "kernel_command \<Rightarrow> string" where
  "receipt_key cmd = scope_kind_wire (scope_kind_of cmd) @ ''/'' @ scope_id_of cmd @ ''/'' @ command_id cmd"

definition receipt_properties ::
    "('g, 'x) kernel_env \<Rightarrow> kernel_command \<Rightarrow> string \<Rightarrow> string \<Rightarrow> json \<Rightarrow> (u64 \<times> u64) option \<Rightarrow> 'x props" where
  "receipt_properties K cmd command_type status result cursors =
     map_of
       ([(''receipt_key'', VString (receipt_key cmd)),
         (''command_type'', VString command_type),
         (''receipt_version'', VUint RECEIPT_VERSION),
         (''request_digest'', VString (digest_text (request_digest cmd))),
         (''principal_kind'', VString (principal_wire (principal_kind_of cmd))),
         (''principal_id'', VString (principal_id cmd)),
         (''status'', VString status),
         (''result'', VText (enc_json K result))]
        @ (case cursors of
             None \<Rightarrow> []
           | Some (c0, c1) \<Rightarrow> [(''first_cursor'', VUint c0), (''last_cursor'', VUint c1)]))"

section \<open>Replay\<close>

definition replay_result :: "string \<Rightarrow> json \<Rightarrow> submission" where
  "replay_result status result =
     (if status = ''completed'' then Replayed result
      else Rejected
        (case Option.bind (Option.bind (json_get result ''error_kind'') json_as_str) error_kind_of_wire of
           None \<Rightarrow> Internal | Some k \<Rightarrow> k)
        (or_empty (Option.bind (json_get result ''detail'') json_as_str)) True)"

definition replay_stored ::
    "('g, 'x) kernel_env \<Rightarrow> kernel_command \<Rightarrow> string \<Rightarrow> 'x props option \<Rightarrow> submission" where
  "replay_stored K cmd command_type stored =
     (case Option.bind stored (\<lambda>p.
        Option.bind (prop_str p ''command_type'') (\<lambda>ct.
        Option.bind (prop_u64 p ''receipt_version'') (\<lambda>rv.
        Option.bind (prop_str p ''request_digest'') (\<lambda>d.
        Option.bind (prop_str p ''principal_kind'') (\<lambda>pk.
        Option.bind (prop_str p ''principal_id'') (\<lambda>pid.
        Option.bind (prop_str p ''status'') (\<lambda>s.
        Option.bind (prop_text p ''result'') (\<lambda>r. Some (ct, rv, d, pk, pid, s, r))))))))) of
        None \<Rightarrow> Rejected Internal ''receipt row unreadable'' False
      | Some (ct, rv, d, pk, pid, s, r) \<Rightarrow>
          if d \<noteq> digest_text (request_digest cmd) then
            Rejected IdempotencyConflict ''same command_id, different request digest'' False
          else if ct \<noteq> command_type then
            Rejected IdempotencyConflict ''same command_id, different command type'' False
          else if rv \<noteq> RECEIPT_VERSION then
            Rejected Internal ''stored receipt has an unsupported version'' False
          else if pk \<noteq> principal_wire (principal_kind_of cmd) \<or> pid \<noteq> principal_id cmd then
            Rejected Unauthorized ''receipt belongs to a different principal'' False
          else case dec_json K r of
                 Inl e \<Rightarrow> Rejected Internal (''receipt result is invalid JSON: '' @ e) False
               | Inr result \<Rightarrow> replay_result s result)"

definition token_from_result :: "json \<Rightarrow> attempt_token_claims option" where
  "token_from_result r =
     Option.bind (Option.bind (json_get r ''unit_id'') json_as_str) (\<lambda>u.
     Option.bind (Option.bind (json_get r ''attempt_epoch'') json_as_u64) (\<lambda>e.
     Option.bind (Option.bind (json_get r ''stamp'') json_as_u64) (\<lambda>s.
     Option.bind (Option.bind (json_get r ''authority_epoch'') json_as_u64) (\<lambda>a.
     Option.bind (Option.bind (json_get r ''holder_id'') json_as_str) (\<lambda>h.
     Option.bind (Option.bind (json_get r ''token_nonce'') json_as_str) (\<lambda>n.
       Some \<lparr>tk_unit_id = u, tk_attempt_epoch = e, tk_stamp = s, tk_authority_epoch = a,
             tk_holder_id = h, tk_nonce = n\<rparr>))))))"

section \<open>The funnel's state\<close>

record 'g funnel =
  fn_store :: "'g store"
  fn_gate :: "string option"
  fn_gate_broken :: bool
  fn_clock_ms :: u64
  fn_mint_seq :: u64

text \<open>An identifier minted from the clock, the authority epoch and the next number of the sequence.\<close>

definition mint_id :: "u64 \<Rightarrow> u64 \<Rightarrow> u64 \<Rightarrow> rejection + (uuid7 \<times> u64)" where
  "mint_id clock_ms epoch seq =
     (case u64_checked_add seq 1 of
        None \<Rightarrow> Inl (Panics ''mint sequence exhausted'')
      | Some seq' \<Rightarrow> Inr (uuid_mint clock_ms (push_bit 64 epoch OR seq'), seq'))"

end
