(* ===== verification/Kernel_Validate.thy ===== *)
theory Kernel_Validate
  imports Kernel_Command
begin

text \<open>
  What the funnel decides before it writes: the pre-read of a command (\<open>funnel/mod.rs\<close>), the lineage a
  cancellation bars (\<open>cancel_resolution.rs\<close>, \<open>cancel_rules.rs\<close>), what forbids a run to close as a success
  (\<open>run_rules.rs\<close>), the authority and holder gates, and the validation of every method (\<open>validate.rs\<close>,
  \<open>effects.rs\<close>, \<open>cancel.rs\<close>).
\<close>

section \<open>Rows\<close>

record unit_row =
  ur_node :: node_id
  ur_version :: u64
  ur_epoch :: u64
  ur_stamp :: u64
  ur_work_item_id :: string

record 'x effect_row =
  er_node :: node_id
  er_version :: u64
  er_record :: 'x

record lease_row =
  lr_node :: node_id
  lr_holder_id :: string
  lr_status :: string
  lr_version :: u64

record run_row =
  rr_node :: node_id
  rr_version :: u64
  rr_status :: string

record blocker =
  bl_member :: string
  bl_reason :: string

record member_link =
  ml_parent_unit :: "string option"
  ml_run_id :: "string option"
  ml_attempt_epoch :: "u64 option"

record request_data =
  rd_node :: node_id
  rd_version :: u64
  rd_record :: cancel_request_record

record 'x cancel_pre =
  cp_admission_blockers :: "blocker list"
  cp_member_links :: "string \<rightharpoonup> member_link"
  cp_request :: "request_data option"
  cp_deliveries :: "delivery_summary list"
  cp_delivery_exists :: bool
  cp_effect_row :: "'x effect_row option"
  cp_root_attempt :: "(string \<times> u64) option"
  cp_root_terminal :: "bool option"

record 'x pre_read =
  pr_for_unit :: "string option"
  pr_unit :: "unit_row option"
  pr_lease :: "lease_row option"
  pr_effect_key :: "string option"
  pr_effect :: "'x effect_row option"
  pr_run :: "run_row option"
  pr_run_blockers :: "blocker list"
  pr_cancel :: "'x cancel_pre option"

definition unit_fence_of :: "'x pre_read \<Rightarrow> string \<Rightarrow> unit_fence option" where
  "unit_fence_of pre u =
     (if pr_for_unit pre \<noteq> Some u then None
      else map_option (\<lambda>r. \<lparr>uf_attempt_epoch = ur_epoch r, uf_stamp = ur_stamp r\<rparr>) (pr_unit pre))"

definition lease_fence_of :: "'x pre_read \<Rightarrow> string \<Rightarrow> lease_fence option" where
  "lease_fence_of pre u =
     (if pr_for_unit pre \<noteq> Some u then None
      else map_option (\<lambda>r. \<lparr>lf_holder_id = lr_holder_id r, lf_status = lr_status r\<rparr>) (pr_lease pre))"

section \<open>What forbids a run to close as a success\<close>

definition effect_blocks :: "string option \<Rightarrow> string option \<Rightarrow> string option" where
  "effect_blocks state terminal =
     (case state of
        Some s \<Rightarrow>
          if s = effect_state_wire Effect_Settled then
            (case terminal of
               Some t \<Rightarrow>
                 if t = terminal_wire Term_Unknown then
                   Some (''settled with terminal `unknown` '' @ dash @ '' needs an explicit accept-unknown'')
                 else None
             | None \<Rightarrow> Some ''settled with no terminal recorded'')
          else Some (''state `'' @ s @ ''` is not settled'')
      | None \<Rightarrow> Some ''state unreadable'')"

definition kind_from_wire :: "string \<Rightarrow> cancel_kind option" where
  "kind_from_wire s =
     (if s = ''run'' then Some Kind_Run
      else if s = ''execution_unit'' then Some Kind_ExecutionUnit
      else if s = ''attempt'' then Some Kind_Attempt
      else if s = ''effect_intent'' then Some Kind_EffectIntent
      else None)"

definition unit_run_id :: "('g, 'x) kernel_env \<Rightarrow> 'g store \<Rightarrow> string \<Rightarrow> string option" where
  "unit_run_id K st u = Option.bind (unit_node st u) (\<lambda>n. node_str K st n ''run_id'')"

definition root_run ::
    "('g, 'x) kernel_env \<Rightarrow> 'g store \<Rightarrow> cancel_kind \<Rightarrow> string \<Rightarrow> string option" where
  "root_run K st kind rid =
     (case kind of
        Kind_Run \<Rightarrow> Some rid
      | Kind_ExecutionUnit \<Rightarrow> unit_run_id K st rid
      | Kind_Attempt \<Rightarrow>
          Option.bind (attempt_id_node st rid) (\<lambda>n.
            Option.bind (node_str K st n ''unit_id'') (unit_run_id K st))
      | Kind_EffectIntent \<Rightarrow>
          Option.bind (effect_intent_id_node st rid) (\<lambda>n.
            Option.bind (node_str K st n ''unit_id'') (unit_run_id K st)))"

definition cancel_blocker ::
    "('g, 'x) kernel_env \<Rightarrow> 'g store \<Rightarrow> string \<Rightarrow> node_id \<Rightarrow> blocker option" where
  "cancel_blocker K st run_id n =
     Option.bind (node_str K st n ''cancel_request_id'') (\<lambda>request_id.
     Option.bind (node_str K st n ''root_kind'') (\<lambda>kind.
     Option.bind (node_str K st n ''root_id'') (\<lambda>rid.
     Option.bind (node_str K st n ''status'') (\<lambda>status.
       if status = ''settled'' then None
       else Option.bind (kind_from_wire kind) (\<lambda>root.
            Option.bind (root_run K st root rid) (\<lambda>my_run.
              if my_run \<noteq> run_id then None
              else Some \<lparr>bl_member = ''cancel_request '' @ request_id @ '' root '' @ kind @ '':'' @ rid,
                         bl_reason = ''committed cancellation of '' @ kind @ '':'' @ rid
                           @ '' not settled (status '' @ status @ '')''\<rparr>))))))"

definition cancel_blocks :: "('g, 'x) kernel_env \<Rightarrow> 'g store \<Rightarrow> string \<Rightarrow> blocker list" where
  "cancel_blocks K st run_id = List.map_filter (cancel_blocker K st run_id) (cancel_request_nodes st)"

definition run_units :: "('g, 'x) kernel_env \<Rightarrow> 'g store \<Rightarrow> string \<Rightarrow> string list" where
  "run_units K st run_id =
     map fst (filter (\<lambda>(u, n). node_str K st n ''run_id'' = Some run_id) (bk_units (st_books st)))"

definition effect_blocker ::
    "('g, 'x) kernel_env \<Rightarrow> 'g store \<Rightarrow> string list \<Rightarrow> string \<times> node_id \<Rightarrow> blocker option" where
  "effect_blocker K st units kn =
     (case kn of (key, n) \<Rightarrow>
        Option.bind (node_of K st n) (\<lambda>p.
          if (case prop_str p ''unit_id'' of None \<Rightarrow> False | Some u \<Rightarrow> u \<in> set units)
          then map_option (\<lambda>reason. \<lparr>bl_member = key, bl_reason = reason\<rparr>)
                 (effect_blocks (prop_str p ''state'') (prop_str p ''terminal''))
          else None))"

definition success_blockers :: "('g, 'x) kernel_env \<Rightarrow> 'g store \<Rightarrow> string \<Rightarrow> blocker list" where
  "success_blockers K st run_id =
     List.map_filter (effect_blocker K st (run_units K st run_id)) (bk_effects (st_books st))
     @ cancel_blocks K st run_id"

section \<open>Lineages\<close>

definition attempt_to_unit :: "('g, 'x) kernel_env \<Rightarrow> 'g store \<Rightarrow> string \<Rightarrow> (string \<times> string) option" where
  "attempt_to_unit K st attempt_id =
     Option.bind (attempt_id_node st attempt_id) (\<lambda>n.
     Option.bind (node_str K st n ''unit_id'') (\<lambda>u.
     Option.bind (unit_run_id K st u) (\<lambda>r. Some (u, r))))"

definition effect_to_unit ::
    "('g, 'x) kernel_env \<Rightarrow> 'g store \<Rightarrow> string \<Rightarrow> (string \<times> string \<times> u64 option) option" where
  "effect_to_unit K st intent_id =
     Option.bind (effect_intent_id_node st intent_id) (\<lambda>n.
     Option.bind (node_str K st n ''unit_id'') (\<lambda>u.
     Option.bind (unit_run_id K st u) (\<lambda>r. Some (u, r, node_u64 K st n ''attempt_epoch''))))"

definition attempt_key :: "string \<Rightarrow> u64 \<Rightarrow> string" where
  "attempt_key u e = u @ ''/'' @ show_nat e"

definition attempt_id_for_epoch :: "('g, 'x) kernel_env \<Rightarrow> 'g store \<Rightarrow> string \<Rightarrow> u64 \<Rightarrow> string option" where
  "attempt_id_for_epoch K st u e =
     Option.bind (attempt_node st (attempt_key u e)) (\<lambda>n. node_str K st n ''attempt_id'')"

definition member_link_of :: "('g, 'x) kernel_env \<Rightarrow> 'g store \<Rightarrow> member_input \<Rightarrow> member_link" where
  "member_link_of K st m =
     (case input_kind m of
        Kind_Run \<Rightarrow> \<lparr>ml_parent_unit = None, ml_run_id = Some (input_id m), ml_attempt_epoch = None\<rparr>
      | Kind_ExecutionUnit \<Rightarrow>
          \<lparr>ml_parent_unit = None, ml_run_id = unit_run_id K st (input_id m), ml_attempt_epoch = None\<rparr>
      | Kind_Attempt \<Rightarrow>
          (case attempt_to_unit K st (input_id m) of
             None \<Rightarrow> \<lparr>ml_parent_unit = Some [], ml_run_id = Some [], ml_attempt_epoch = None\<rparr>
           | Some (u, r) \<Rightarrow> \<lparr>ml_parent_unit = Some u, ml_run_id = Some r, ml_attempt_epoch = None\<rparr>)
      | Kind_EffectIntent \<Rightarrow>
          (case effect_to_unit K st (input_id m) of
             None \<Rightarrow> \<lparr>ml_parent_unit = Some [], ml_run_id = Some [], ml_attempt_epoch = None\<rparr>
           | Some (u, r, e) \<Rightarrow> \<lparr>ml_parent_unit = Some u, ml_run_id = Some r, ml_attempt_epoch = e\<rparr>))"

definition unit_lineage ::
    "('g, 'x) kernel_env \<Rightarrow> 'g store \<Rightarrow> string \<Rightarrow> bool \<Rightarrow> (cancel_kind \<times> string) list option" where
  "unit_lineage K st u include_attempt =
     Option.bind (unit_node st u) (\<lambda>n.
     Option.bind (node_str K st n ''run_id'') (\<lambda>run_id.
     Option.bind (node_u64 K st n ''current_attempt_epoch'') (\<lambda>epoch.
       let current = (if 0 < epoch then attempt_id_for_epoch K st u epoch else None) in
       Some ([(Kind_Run, run_id), (Kind_ExecutionUnit, u)]
             @ (case current of
                  Some a \<Rightarrow> if include_attempt then [(Kind_Attempt, a)] else []
                | None \<Rightarrow> [])))))"

text \<open>The attempt an effect was prepared under, when it is not in the lineage already.\<close>

definition effect_attempt ::
    "('g, 'x) kernel_env \<Rightarrow> 'g store \<Rightarrow> string \<Rightarrow> 'x effect_row \<Rightarrow> (cancel_kind \<times> string) list \<Rightarrow>
     (cancel_kind \<times> string) list" where
  "effect_attempt K st u row lineage =
     (if node_str K st (er_node row) ''unit_id'' = Some u
      then case Option.bind (node_u64 K st (er_node row) ''attempt_epoch'') (attempt_id_for_epoch K st u) of
             None \<Rightarrow> []
           | Some a \<Rightarrow> if (Kind_Attempt, a) \<in> set lineage then [] else [(Kind_Attempt, a)]
      else [])"

definition effect_self ::
    "('g, 'x) kernel_env \<Rightarrow> 'g store \<Rightarrow> 'x effect_row \<Rightarrow> (cancel_kind \<times> string) list" where
  "effect_self K st row =
     (case node_str K st (er_node row) ''effect_intent_id'' of None \<Rightarrow> [] | Some i \<Rightarrow> [(Kind_EffectIntent, i)])"

definition adoption_lineage ::
    "('g, 'x) kernel_env \<Rightarrow> 'g store \<Rightarrow> kernel_method \<Rightarrow> 'x effect_row option \<Rightarrow>
     (cancel_kind \<times> string) list option" where
  "adoption_lineage K st method effect =
     (case method of
        UnitAdmit _ _ run_id \<Rightarrow> Some [(Kind_Run, run_id)]
      | UnitDispatch u _ \<Rightarrow> unit_lineage K st u False
      | EffectPrepare u _ \<Rightarrow> unit_lineage K st u True
      | EffectDispatch u _ \<Rightarrow>
          map_option (\<lambda>lineage.
              case effect of
                None \<Rightarrow> lineage
              | Some row \<Rightarrow> lineage @ effect_attempt K st u row lineage @ effect_self K st row)
            (unit_lineage K st u True)
      | _ \<Rightarrow> None)"

fun kind_debug :: "cancel_kind \<Rightarrow> string" where
  "kind_debug Kind_Run = ''Run''"
| "kind_debug Kind_ExecutionUnit = ''ExecutionUnit''"
| "kind_debug Kind_Attempt = ''Attempt''"
| "kind_debug Kind_EffectIntent = ''EffectIntent''"

definition admission_blocker ::
    "('g, 'x) kernel_env \<Rightarrow> 'g store \<Rightarrow> cancel_kind \<Rightarrow> cancel_kind \<times> string \<Rightarrow> blocker option" where
  "admission_blocker K st child kr =
     (case kr of (kind, rid) \<Rightarrow>
        let rk = cancel_kind_wire kind in
        Option.bind (cancel_root_node st rk rid) (\<lambda>n.
        Option.bind (node_str K st n ''root_kind'') (\<lambda>stored_kind.
        Option.bind (node_str K st n ''root_id'') (\<lambda>stored_id.
          if stored_kind = rk \<and> stored_id = rid
          then Some \<lparr>bl_member = rk @ '':'' @ rid,
                     bl_reason = ''rule-4: committed cancellation of '' @ rk @ '':'' @ rid
                       @ '' bars admitting '' @ kind_debug child @ '' below it''\<rparr>
          else None))))"

definition admission_blockers ::
    "('g, 'x) kernel_env \<Rightarrow> 'g store \<Rightarrow> cancel_kind \<Rightarrow> (cancel_kind \<times> string) list \<Rightarrow> blocker list" where
  "admission_blockers K st child lineage = List.map_filter (admission_blocker K st child) lineage"

section \<open>The pre-read of a command\<close>

definition read_unit :: "('g, 'x) kernel_env \<Rightarrow> 'g store \<Rightarrow> string \<Rightarrow> unit_row option" where
  "read_unit K st u =
     Option.bind (unit_node st u) (\<lambda>n.
     map_option (\<lambda>p. \<lparr>ur_node = n, ur_version = or_zero (prop_u64 p ''version''),
         ur_epoch = or_zero (prop_u64 p ''current_attempt_epoch''), ur_stamp = or_zero (prop_u64 p ''stamp''),
         ur_work_item_id = or_empty (prop_str p ''work_item_id'')\<rparr>)
       (node_of K st n))"

definition read_lease :: "('g, 'x) kernel_env \<Rightarrow> 'g store \<Rightarrow> string \<Rightarrow> lease_row option" where
  "read_lease K st u =
     Option.bind (lease_node st u) (\<lambda>n.
     Option.bind (node_of K st n) (\<lambda>p.
     Option.bind (prop_str p ''holder_id'') (\<lambda>h.
     Option.bind (prop_str p ''status'') (\<lambda>s.
       Some \<lparr>lr_node = n, lr_holder_id = h, lr_status = s, lr_version = or_zero (prop_u64 p ''version'')\<rparr>))))"

definition read_effect :: "('g, 'x) kernel_env \<Rightarrow> 'g store \<Rightarrow> string \<Rightarrow> 'x effect_row option" where
  "read_effect K st key =
     Option.bind (effect_node st key) (\<lambda>n.
     Option.bind (node_of K st n) (\<lambda>p.
     Option.bind (prop_text p ''record'') (\<lambda>r.
       Some \<lparr>er_node = n, er_version = or_zero (prop_u64 p ''version''), er_record = r\<rparr>)))"

definition read_run :: "('g, 'x) kernel_env \<Rightarrow> 'g store \<Rightarrow> string \<Rightarrow> run_row option" where
  "read_run K st run_id =
     Option.bind (run_node st run_id) (\<lambda>n.
     Option.bind (node_of K st n) (\<lambda>p.
     Option.bind (prop_str p ''status'') (\<lambda>s.
       Some \<lparr>rr_node = n, rr_version = or_zero (prop_u64 p ''version''), rr_status = s\<rparr>)))"

definition request_data_of :: "('g, 'x) kernel_env \<Rightarrow> 'g store \<Rightarrow> string \<Rightarrow> request_data option" where
  "request_data_of K st request_id =
     Option.bind (cancel_request_node st request_id) (\<lambda>n.
     Option.bind (node_of K st n) (\<lambda>p.
     Option.bind (prop_u64 p ''version'') (\<lambda>v.
     Option.bind (prop_text p ''record'') (\<lambda>x.
       case dec_request K x of
         Inl _ \<Rightarrow> None
       | Inr r \<Rightarrow> Some \<lparr>rd_node = n, rd_version = v, rd_record = r\<rparr>))))"

definition outcome_from_wire :: "string \<Rightarrow> delivery_outcome option" where
  "outcome_from_wire w =
     (if w = ''observed_stopped'' then Some ObservedStopped
      else if w = ''unresponsive'' then Some Unresponsive
      else if w = ''already_terminal'' then Some AlreadyTerminal
      else if w = ''detached_declined'' then Some DetachedDeclined
      else None)"

definition delivery_summaries :: "('g, 'x) kernel_env \<Rightarrow> 'g store \<Rightarrow> string \<Rightarrow> delivery_summary list" where
  "delivery_summaries K st request_id =
     List.map_filter (\<lambda>n.
         if node_str K st n ''cancel_request_id'' \<noteq> Some request_id then None
         else Option.bind (node_str K st n ''member_id'') (\<lambda>m.
              Option.bind (node_str K st n ''outcome'') (\<lambda>w.
              map_option (\<lambda>x. \<lparr>ds_member = m, ds_outcome = x\<rparr>) (outcome_from_wire w))))
       (cancel_delivery_nodes st request_id)"

definition effect_for_intent :: "('g, 'x) kernel_env \<Rightarrow> 'g store \<Rightarrow> string \<Rightarrow> 'x effect_row option" where
  "effect_for_intent K st intent_id =
     Option.bind (effect_intent_id_node st intent_id) (\<lambda>n.
     Option.bind (node_of K st n) (\<lambda>p.
     Option.bind (prop_u64 p ''version'') (\<lambda>v.
     Option.bind (prop_text p ''record'') (\<lambda>r.
       Some \<lparr>er_node = n, er_version = v, er_record = r\<rparr>))))"

definition no_cancel_pre_read :: "'x cancel_pre" where
  "no_cancel_pre_read = \<lparr>cp_admission_blockers = [], cp_member_links = Map.empty, cp_request = None,
     cp_deliveries = [], cp_delivery_exists = False, cp_effect_row = None, cp_root_attempt = None,
     cp_root_terminal = None\<rparr>"

definition is_final_member :: "cancel_scope \<Rightarrow> scope_member \<Rightarrow> bool" where
  "is_final_member sc m \<longleftrightarrow> order_index m + 1 = length (scope_members sc)"

definition delivery_row_key :: "string \<Rightarrow> string \<Rightarrow> string" where
  "delivery_row_key request_id mid = request_id @ ''|'' @ mid"

definition gate_pre_read ::
    "('g, 'x) kernel_env \<Rightarrow> 'g store \<Rightarrow> kernel_method \<Rightarrow> 'x effect_row option \<Rightarrow> cancel_kind \<Rightarrow>
     'x cancel_pre option" where
  "gate_pre_read K st method effect child =
     map_option (\<lambda>lineage. no_cancel_pre_read\<lparr>cp_admission_blockers := admission_blockers K st child lineage\<rparr>)
       (adoption_lineage K st method effect)"

definition cancel_pre_read ::
    "('g, 'x) kernel_env \<Rightarrow> 'g store \<Rightarrow> kernel_method \<Rightarrow> 'x effect_row option \<Rightarrow> 'x cancel_pre option" where
  "cancel_pre_read K st method effect =
     (case method of
        UnitAdmit _ _ _ \<Rightarrow> gate_pre_read K st method effect Kind_ExecutionUnit
      | UnitDispatch _ _ \<Rightarrow> gate_pre_read K st method effect Kind_Attempt
      | EffectPrepare _ _ \<Rightarrow> gate_pre_read K st method effect Kind_EffectIntent
      | EffectDispatch _ _ \<Rightarrow> gate_pre_read K st method effect Kind_EffectIntent
      | CancelRequest rk rid _ _ proposed \<Rightarrow>
          Some (no_cancel_pre_read\<lparr>
            cp_member_links := fold (\<lambda>m t. t(input_id m \<mapsto> member_link_of K st m)) proposed Map.empty,
            cp_root_attempt :=
              (if rk = Kind_Attempt
               then Option.bind (attempt_id_node st rid) (\<lambda>n.
                    Option.bind (node_str K st n ''unit_id'') (\<lambda>u.
                    map_option (\<lambda>e. (u, e)) (node_u64 K st n ''attempt_epoch'')))
               else None),
            cp_root_terminal := cancel_root_terminal K st rk rid\<rparr>)
      | CancelRecordDelivery request_id mid _ _ _ \<Rightarrow>
          let request = request_data_of K st request_id;
              found = Option.bind request (\<lambda>r. scope_member_of (cr_scope (rd_record r)) mid);
              final = (case (found, request) of
                         (Some m, Some r) \<Rightarrow> is_final_member (cr_scope (rd_record r)) m
                       | _ \<Rightarrow> False)
          in Some (no_cancel_pre_read\<lparr>
               cp_request := request,
               cp_deliveries := (if final then delivery_summaries K st request_id else []),
               cp_delivery_exists := (cancel_delivery_node st (delivery_row_key request_id mid) \<noteq> None),
               cp_effect_row :=
                 (case found of
                    Some m \<Rightarrow> if member_kind m = Kind_EffectIntent then effect_for_intent K st (member_id m) else None
                  | None \<Rightarrow> None)\<rparr>)
      | _ \<Rightarrow> None)"

definition effect_key_of :: "('g, 'x) kernel_env \<Rightarrow> unit_row option \<Rightarrow> kernel_method \<Rightarrow> string option" where
  "effect_key_of K unit method =
     (case method of
        EffectPrepare _ spec \<Rightarrow>
          map_option (\<lambda>u. derive_operation_key (hash_hex K) (ur_work_item_id u)
                            (es_logical_operation_id spec) (es_request_digest spec)) unit
      | _ \<Rightarrow> method_operation_key method)"

definition pre_read_of :: "('g, 'x) kernel_env \<Rightarrow> 'g store \<Rightarrow> kernel_command \<Rightarrow> 'x pre_read" where
  "pre_read_of K st cmd =
     (let method = cmd_method cmd;
          unit = Option.bind (method_unit_id method) (read_unit K st);
          key = effect_key_of K unit method;
          effect = Option.bind key (read_effect K st)
      in \<lparr>pr_for_unit = method_unit_id method,
          pr_unit = unit,
          pr_lease = Option.bind (method_unit_id method) (read_lease K st),
          pr_effect_key = key,
          pr_effect = effect,
          pr_run = (case method of
                      RunOpen run_id _ \<Rightarrow> read_run K st run_id
                    | RunClose run_id _ \<Rightarrow> read_run K st run_id
                    | _ \<Rightarrow> None),
          pr_run_blockers = (case method of
                               RunClose run_id ClosedSuccess \<Rightarrow> success_blockers K st run_id
                             | _ \<Rightarrow> []),
          pr_cancel = cancel_pre_read K st method effect\<rparr>)"

section \<open>Gates\<close>

definition epoch_mismatch :: "u64 \<Rightarrow> u64 \<Rightarrow> rejection" where
  "epoch_mismatch e current =
     (if e < current
      then Reject FenceRejected (''authority epoch '' @ show_nat e @ '' behind current '' @ show_nat current) False
      else Reject FenceRejected (''authority epoch '' @ show_nat e @ '' ahead of current '' @ show_nat current
             @ '' (split-brain suspect)'') False)"

definition authority_gate :: "u64 \<Rightarrow> kernel_command \<Rightarrow> rejection + unit" where
  "authority_gate current cmd =
     (if principal_kind_of cmd \<noteq> Principal_Daemon then
        Inl (Reject InvalidRequest (''authority method requires principal_kind daemon, got ''
               @ principal_debug (principal_kind_of cmd)) True)
      else if attempt_token cmd \<noteq> None then
        Inl (Reject InvalidRequest ''authority method must not carry an attempt token'' True)
      else case authority_epoch_of cmd of
             Some e \<Rightarrow> if e = current then Inr () else Inl (epoch_mismatch e current)
           | None \<Rightarrow> Inl (Reject InvalidRequest ''authority method requires authority_epoch'' True))"

definition token_binds :: "attempt_token_claims \<Rightarrow> string \<Rightarrow> rejection + unit" where
  "token_binds token u =
     (if tk_unit_id token \<noteq> u then
        Inl (Reject FenceRejected (''token sealed for unit '' @ tk_unit_id token @ '', method targets '' @ u) False)
      else Inr ())"

definition quoted :: "string \<Rightarrow> string" where "quoted s = [CHR 0x22] @ s @ [CHR 0x22]"

fun store_rejection_debug :: "store_rejection \<Rightarrow> string" where
  "store_rejection_debug (Store_InvalidRequest d) = ''InvalidRequest { detail: '' @ quoted d @ '' }''"
| "store_rejection_debug (Store_FenceRejected d) = ''FenceRejected { detail: '' @ quoted d @ '' }''"
| "store_rejection_debug (Store_VersionConflict a e v) =
     ''VersionConflict { aggregate: '' @ quoted a @ '', expected: '' @ show_nat e @ '', actual: '' @ show_nat v @ '' }''"
| "store_rejection_debug (Store_JournalImmutable d) = ''JournalImmutable { detail: '' @ quoted d @ '' }''"
| "store_rejection_debug (Store_NotFound a) = ''NotFound { aggregate: '' @ quoted a @ '' }''"
| "store_rejection_debug (Store_TerminalAlreadySet k) = ''TerminalAlreadySet { operation_key: '' @ quoted k @ '' }''"

definition fence_rejection :: "store_rejection \<Rightarrow> rejection" where
  "fence_rejection r =
     (case r of
        Store_FenceRejected detail \<Rightarrow> Reject FenceRejected detail True
      | Store_NotFound aggregate \<Rightarrow> Reject NotFound aggregate False
      | other \<Rightarrow> Reject Internal (store_rejection_debug other) False)"

definition holder_gate ::
    "u64 \<Rightarrow> kernel_command \<Rightarrow> 'x pre_read \<Rightarrow> string \<Rightarrow> rejection + attempt_token_claims" where
  "holder_gate current cmd pre u =
     (if principal_kind_of cmd \<noteq> Principal_Agent then
        Inl (Reject InvalidRequest (''holder method requires principal_kind agent, got ''
               @ principal_debug (principal_kind_of cmd)) True)
      else case attempt_token cmd of
        None \<Rightarrow> Inl (Reject InvalidRequest ''holder method requires an attempt token'' True)
      | Some token \<Rightarrow>
          and_then (case authority_epoch_of cmd of
                      Some e \<Rightarrow> if e \<noteq> current then Inl (epoch_mismatch e current) else Inr ()
                    | None \<Rightarrow> Inr ()) (\<lambda>_.
          and_then (token_binds token u) (\<lambda>_.
          if principal_id cmd \<noteq> tk_holder_id token then
            Inl (Reject Unauthorized ''holder principal does not match the sealed token'' True)
          else
            and_then (map_err fence_rejection
                        (check_holder_fence current (unit_fence_of pre) (lease_fence_of pre) token)) (\<lambda>_.
            Inr token))))"

definition increment :: "u64 \<Rightarrow> string \<Rightarrow> rejection + u64" where
  "increment v axis = ok_or (Reject ResourceExhausted (axis @ '' space exhausted'') True) (u64_checked_add v 1)"

definition expected_version_ok :: "kernel_command \<Rightarrow> u64 \<Rightarrow> rejection + unit" where
  "expected_version_ok cmd actual =
     (case expected_version cmd of
        Some e \<Rightarrow>
          if e \<noteq> actual then
            Inl (Reject VersionConflict (''expected version '' @ show_nat e @ '', actual '' @ show_nat actual) False)
          else Inr ()
      | None \<Rightarrow> Inl (Reject InvalidRequest ''mutating method requires expected_version'' True))"

fun join_semicolon :: "string list \<Rightarrow> string" where
  "join_semicolon [] = []"
| "join_semicolon [s] = s"
| "join_semicolon (s # t # ss) = s @ ''; '' @ join_semicolon (t # ss)"

definition named_blockers :: "blocker list \<Rightarrow> string" where
  "named_blockers bs = join_semicolon (map (\<lambda>b. bl_member b @ '' ('' @ bl_reason b @ '')'') bs)"

definition blockers_of :: "'x pre_read \<Rightarrow> blocker list" where
  "blockers_of pre = (case pr_cancel pre of None \<Rightarrow> [] | Some c \<Rightarrow> cp_admission_blockers c)"

definition admission_gate :: "'x pre_read \<Rightarrow> rejection + unit" where
  "admission_gate pre =
     (if blockers_of pre = [] then Inr ()
      else Inl (Reject InvalidRequest
             (''admission barred by committed cancellation: '' @ named_blockers (blockers_of pre)) True))"

end
