(* ===== verification/Kernel_Methods.thy ===== *)
theory Kernel_Methods
  imports Kernel_Validate
begin

text \<open>
  The validation of every method of the funnel: runs, work items, units and attempts
  (\<open>yah-kernel/src/funnel/validate.rs\<close>), effects (\<open>effects.rs\<close>) and cancellations (\<open>cancel.rs\<close>). A validation
  is a function of the pre-read and yields a rejection or what the command will do. The last argument and
  the second part of the result are the counter of minted identifiers.
\<close>

section \<open>Runs, work items, units\<close>

definition event ::
    "string \<Rightarrow> string \<Rightarrow> u64 \<Rightarrow> string \<Rightarrow> (string \<times> json) list \<Rightarrow> event_draft" where
  "event ak ai av ek payload = \<lparr>aggregate_kind = ak, aggregate_id = ai, aggregate_version = av,
     event_kind = ek, event_payload = json_object payload\<rparr>"

definition accepting ::
    "'x plan \<Rightarrow> event_draft list \<Rightarrow> (string \<times> json) list \<Rightarrow> u64 \<Rightarrow> rejection + ('x accepted \<times> u64)" where
  "accepting plan events result seq =
     Inr (\<lparr>acc_plan = plan, acc_events = events, acc_result = json_object result\<rparr>, seq)"

definition validate_run_open ::
    "u64 \<Rightarrow> kernel_command \<Rightarrow> 'x pre_read \<Rightarrow> string \<Rightarrow> string \<Rightarrow> u64 \<Rightarrow> rejection + ('x accepted \<times> u64)" where
  "validate_run_open current cmd pre run_id goal seq =
     and_then (authority_gate current cmd) (\<lambda>_.
     if pr_run pre \<noteq> None then
       Inl (Reject InvalidRequest (''run '' @ run_id @ '' already exists'') True)
     else accepting (Plan_CreateRun run_id goal)
            [event ''run'' run_id 1 ''run.opened'' [(''goal_work_item_id'', JString goal)]]
            [(''run_id'', JString run_id), (''version'', json_u64 1)] seq)"

definition validate_run_close ::
    "u64 \<Rightarrow> kernel_command \<Rightarrow> 'x pre_read \<Rightarrow> string \<Rightarrow> run_outcome \<Rightarrow> u64 \<Rightarrow> rejection + ('x accepted \<times> u64)" where
  "validate_run_close current cmd pre run_id outcome seq =
     and_then (authority_gate current cmd) (\<lambda>_.
     and_then (ok_or (Reject NotFound (''run '' @ run_id) False) (pr_run pre)) (\<lambda>run.
     and_then (expected_version_ok cmd (rr_version run)) (\<lambda>_.
     if rr_status run \<noteq> ''open'' \<and> rr_status run \<noteq> ''active'' then
       Inl (Reject InvalidRequest (''run '' @ run_id @ '' is already '' @ rr_status run) True)
     else if pr_run_blockers pre \<noteq> [] then
       Inl (Reject InvalidRequest (''run '' @ run_id @ '' cannot close success while members are unresolved: ''
              @ named_blockers (pr_run_blockers pre)) True)
     else
       and_then (increment (rr_version run) ''run version'') (\<lambda>new_version.
       accepting (Plan_CloseRun (rr_node run) new_version (run_outcome_wire outcome))
         [event ''run'' run_id new_version ''run.closed'' [(''outcome'', JString (run_outcome_wire outcome))]]
         [(''run_id'', JString run_id), (''version'', json_u64 new_version),
          (''status'', JString (run_outcome_wire outcome))] seq))))"

definition validate_work_item_create ::
    "('g, 'x) kernel_env \<Rightarrow> 'g store \<Rightarrow> kernel_command \<Rightarrow> string \<Rightarrow> digest \<Rightarrow> string list \<Rightarrow> u64 \<Rightarrow>
     rejection + ('x accepted \<times> u64)" where
  "validate_work_item_create K st cmd work_item_id contract_digest scopes seq =
     and_then (authority_gate (st_authority_epoch st) cmd) (\<lambda>_.
     if work_item_node st work_item_id \<noteq> None then
       Inl (Reject InvalidRequest (''work item '' @ work_item_id @ '' already exists'') True)
     else accepting (Plan_CreateWorkItem work_item_id (digest_text contract_digest) (enc_strings K scopes))
            [event ''work_item'' work_item_id 1 ''work_item.created''
               [(''acceptance_contract_digest'', JString (digest_text contract_digest)),
                (''declared_write_scope'', JArray (map JString scopes))]]
            [(''work_item_id'', JString work_item_id), (''version'', json_u64 1)] seq)"

definition validate_unit_admit ::
    "'g store \<Rightarrow> kernel_command \<Rightarrow> 'x pre_read \<Rightarrow> string \<Rightarrow> string \<Rightarrow> string \<Rightarrow> u64 \<Rightarrow>
     rejection + ('x accepted \<times> u64)" where
  "validate_unit_admit st cmd pre unit_id work_item_id run_id seq =
     and_then (authority_gate (st_authority_epoch st) cmd) (\<lambda>_.
     if run_node st run_id = None then Inl (Reject NotFound (''run '' @ run_id) False)
     else if work_item_node st work_item_id = None then
       Inl (Reject NotFound (''work item '' @ work_item_id) False)
     else if pr_unit pre \<noteq> None then
       Inl (Reject InvalidRequest (''unit '' @ unit_id @ '' already exists'') True)
     else
       and_then (admission_gate pre) (\<lambda>_.
       accepting (Plan_CreateUnit unit_id work_item_id run_id)
         [event ''unit'' unit_id 1 ''unit.admitted''
            [(''work_item_id'', JString work_item_id), (''run_id'', JString run_id)]]
         [(''unit_id'', JString unit_id), (''version'', json_u64 1)] seq))"

definition prior_attempt_of :: "'g store \<Rightarrow> string \<Rightarrow> unit_row \<Rightarrow> rejection + node_id option" where
  "prior_attempt_of st unit_id unit =
     (if 0 < ur_epoch unit then
        let key = attempt_key unit_id (ur_epoch unit) in
        (case attempt_node st key of
           Some n \<Rightarrow> Inr (Some n)
         | None \<Rightarrow> Inl (Reject Internal (''attempt row '' @ key @ '' missing for current epoch'') False))
      else Inr None)"

definition validate_unit_dispatch ::
    "'g funnel \<Rightarrow> kernel_command \<Rightarrow> 'x pre_read \<Rightarrow> string \<Rightarrow> string \<Rightarrow> u64 \<Rightarrow>
     rejection + ('x accepted \<times> u64)" where
  "validate_unit_dispatch f cmd pre unit_id holder_id seq =
     (let st = fn_store f; current = st_authority_epoch st in
     and_then (authority_gate current cmd) (\<lambda>_.
     and_then (ok_or (Reject NotFound (''unit '' @ unit_id) False) (pr_unit pre)) (\<lambda>unit.
     and_then (expected_version_ok cmd (ur_version unit)) (\<lambda>_.
     and_then (admission_gate pre) (\<lambda>_.
     and_then (prior_attempt_of st unit_id unit) (\<lambda>prior.
     and_then (increment (ur_epoch unit) ''attempt epoch'') (\<lambda>new_epoch.
     and_then (increment (ur_version unit) ''unit version'') (\<lambda>new_version.
     and_then (mint_id (fn_clock_ms f) current seq) (\<lambda>(attempt_uuid, seq1).
     and_then (mint_id (fn_clock_ms f) current seq1) (\<lambda>(nonce_uuid, seq2).
       let attempt_id = uuid_text attempt_uuid; token_nonce = uuid_text nonce_uuid in
       accepting (Plan_Dispatch \<lparr>dp_unit_node = ur_node unit, dp_unit_id = unit_id, dp_new_version = new_version,
            dp_new_epoch = new_epoch, dp_stamp = ur_stamp unit, dp_authority_epoch = current,
            dp_holder_id = holder_id, dp_attempt_id = attempt_id, dp_token_nonce = token_nonce,
            dp_existing_lease = map_option (\<lambda>l. (lr_node l, lr_version l)) (pr_lease pre),
            dp_prior_attempt = prior\<rparr>)
         [event ''unit'' unit_id new_version ''unit.dispatched''
            [(''attempt_epoch'', json_u64 new_epoch), (''attempt_id'', JString attempt_id),
             (''holder_id'', JString holder_id)]]
         [(''unit_id'', JString unit_id), (''version'', json_u64 new_version),
          (''attempt_epoch'', json_u64 new_epoch), (''attempt_id'', JString attempt_id),
          (''stamp'', json_u64 (ur_stamp unit)), (''authority_epoch'', json_u64 current),
          (''holder_id'', JString holder_id), (''token_nonce'', JString token_nonce)] seq2))))))))))"

definition validate_progress_report ::
    "u64 \<Rightarrow> kernel_command \<Rightarrow> 'x pre_read \<Rightarrow> string \<Rightarrow> u64 \<Rightarrow> rejection + ('x accepted \<times> u64)" where
  "validate_progress_report current cmd pre unit_id seq =
     and_then (holder_gate current cmd pre unit_id) (\<lambda>_.
     and_then (ok_or (Panics ''fence passed implies unit'') (pr_unit pre)) (\<lambda>unit.
     and_then (expected_version_ok cmd (ur_version unit)) (\<lambda>_.
       accepting Plan_Nothing [] [(''unit_id'', JString unit_id), (''version'', json_u64 (ur_version unit))] seq)))"

definition validate_stamp_bump ::
    "u64 \<Rightarrow> kernel_command \<Rightarrow> 'x pre_read \<Rightarrow> string \<Rightarrow> u64 \<Rightarrow> rejection + ('x accepted \<times> u64)" where
  "validate_stamp_bump current cmd pre unit_id seq =
     and_then (authority_gate current cmd) (\<lambda>_.
     and_then (ok_or (Reject NotFound (''unit '' @ unit_id) False) (pr_unit pre)) (\<lambda>unit.
     and_then (expected_version_ok cmd (ur_version unit)) (\<lambda>_.
     and_then (increment (ur_version unit) ''unit version'') (\<lambda>new_version.
     and_then (increment (ur_stamp unit) ''unit stamp'') (\<lambda>new_stamp.
       accepting (Plan_BumpUnit (ur_node unit) new_version (Some new_stamp))
         [event ''unit'' unit_id new_version ''unit.stamp_bumped'' [(''stamp'', json_u64 new_stamp)]]
         [(''unit_id'', JString unit_id), (''version'', json_u64 new_version),
          (''stamp'', json_u64 new_stamp)] seq)))))"

definition validate_token_reissue :: "string \<Rightarrow> rejection + ('x accepted \<times> u64)" where
  "validate_token_reissue unit_id =
     Inl (Reject CapabilityUnsupported
       (''token reauthorization for unit '' @ unit_id @ '' requires the policy and approval gate'') False)"

section \<open>Effects\<close>

definition require_effect :: "'x pre_read \<Rightarrow> string \<Rightarrow> rejection + 'x effect_row" where
  "require_effect pre key = ok_or (Reject NotFound (''effect '' @ key) False) (pr_effect pre)"

definition parse_record :: "('g, 'x) kernel_env \<Rightarrow> 'x effect_row \<Rightarrow> rejection + effect_intent" where
  "parse_record K row =
     map_err (\<lambda>e. Reject Internal (''effect record unreadable: '' @ e) False) (dec_intent K (er_record row))"

definition intent_binds :: "effect_intent \<Rightarrow> string \<Rightarrow> rejection + unit" where
  "intent_binds i u =
     (if ei_unit_id i \<noteq> u then
        Inl (Reject InvalidRequest (''effect belongs to unit '' @ ei_unit_id i @ '', method targets '' @ u) True)
      else Inr ())"

definition expected_effect_version :: "kernel_command \<Rightarrow> 'x effect_row \<Rightarrow> rejection + unit" where
  "expected_effect_version cmd row =
     (case expected_version cmd of
        Some e \<Rightarrow>
          if e \<noteq> er_version row then
            Inl (Reject VersionConflict (''expected effect version '' @ show_nat e @ '', actual ''
                   @ show_nat (er_version row)) False)
          else Inr ()
      | None \<Rightarrow> Inl (Reject InvalidRequest ''effect mutation requires expected_version'' True))"

definition already_settled :: "effect_intent \<Rightarrow> string \<Rightarrow> rejection + unit" where
  "already_settled i key =
     (if ei_terminal i \<noteq> None then Inl (Reject InvalidRequest (''effect '' @ key @ '' already settled'') True)
      else Inr ())"

definition next_version :: "u64 \<Rightarrow> rejection + u64" where
  "next_version v = ok_or (Reject ResourceExhausted ''effect version space exhausted'' True) (u64_checked_add v 1)"

definition update_accepted ::
    "('g, 'x) kernel_env \<Rightarrow> 'x effect_row \<Rightarrow> effect_intent \<Rightarrow> string option \<Rightarrow> string \<Rightarrow> (string \<times> json) list \<Rightarrow>
     u64 \<Rightarrow> rejection + ('x accepted \<times> u64)" where
  "update_accepted K row i terminal ek payload seq =
     (let state = effect_state_wire (ei_state i) in
      accepting (Plan_UpdateEffect (er_node row) (ei_version i) state terminal (enc_intent K i))
        [event ''effect'' (uuid_text (effect_intent_id i)) (ei_version i) ek payload]
        [(''operation_key'', JString (operation_key i)), (''version'', json_u64 (ei_version i)),
         (''state'', JString state)] seq)"

definition resolve_bound ::
    "('g, 'x) kernel_env \<Rightarrow> kernel_command \<Rightarrow> 'x pre_read \<Rightarrow> string \<Rightarrow> string \<Rightarrow>
     rejection + ('x effect_row \<times> effect_intent)" where
  "resolve_bound K cmd pre unit_id key =
     and_then (require_effect pre key) (\<lambda>row.
     and_then (parse_record K row) (\<lambda>i.
     and_then (intent_binds i unit_id) (\<lambda>_.
     and_then (expected_effect_version cmd row) (\<lambda>_. Inr (row, i)))))"

definition validate_record_dispatched ::
    "('g, 'x) kernel_env \<Rightarrow> u64 \<Rightarrow> kernel_command \<Rightarrow> 'x pre_read \<Rightarrow> string \<Rightarrow> string \<Rightarrow> u64 \<Rightarrow> u64 \<Rightarrow>
     rejection + ('x accepted \<times> u64)" where
  "validate_record_dispatched K current cmd pre unit_id key at seq =
     and_then (holder_gate current cmd pre unit_id) (\<lambda>_.
     and_then (resolve_bound K cmd pre unit_id key) (\<lambda>(row, i).
     and_then (already_settled i key) (\<lambda>_.
     if ei_state i \<noteq> Effect_Dispatching then
       Inl (Reject InvalidRequest (''record_dispatched needs state dispatching, found ''
              @ effect_state_debug (ei_state i)) False)
     else
       and_then (next_version (er_version row)) (\<lambda>v.
       update_accepted K row
         (i\<lparr>ei_state := Effect_Dispatched, dispatched_at := Some at, ei_version := v\<rparr>) None
         ''effect.dispatched'' [(''dispatched_at'', json_u64 at)] seq))))"

definition settle_error_detail :: "effect_error \<Rightarrow> string" where
  "settle_error_detail e =
     (case e of
        TerminalAlreadySet existing \<Rightarrow> ''terminal already set to '' @ terminal_debug existing
      | SucceededWithUnappliedTarget t \<Rightarrow> ''succeeded with unapplied target '' @ t
      | FailedWithUnknownTarget t \<Rightarrow> ''failed would mask unknown target '' @ t)"

definition validate_settle ::
    "('g, 'x) kernel_env \<Rightarrow> u64 \<Rightarrow> kernel_command \<Rightarrow> 'x pre_read \<Rightarrow> string \<Rightarrow> string \<Rightarrow> effect_terminal \<Rightarrow>
     target_observation list \<Rightarrow> settle_evidence \<Rightarrow> u64 \<Rightarrow> u64 \<Rightarrow> rejection + ('x accepted \<times> u64)" where
  "validate_settle K current cmd pre unit_id key terminal targets evidence at seq =
     and_then (authority_gate current cmd) (\<lambda>_.
     and_then (resolve_bound K cmd pre unit_id key) (\<lambda>(row, i).
     and_then (already_settled i key) (\<lambda>_.
     and_then (check_target_list targets) (\<lambda>_.
     case settle_legality i terminal evidence of
       Some reason \<Rightarrow> Inl (Reject InvalidRequest reason False)
     | None \<Rightarrow>
         and_then (classify_settle_targets i targets evidence) (\<lambda>rows.
         and_then (map_err (\<lambda>e. Reject InvalidRequest (settle_error_detail e) True)
                     (settle_intent terminal (i\<lparr>ei_targets := rows\<rparr>))) (\<lambda>j.
         and_then (next_version (er_version row)) (\<lambda>v.
           update_accepted K row
             (j\<lparr>ei_state := Effect_Settled, settled_at := Some at, ei_version := v\<rparr>)
             (Some (terminal_wire terminal)) ''effect.settled''
             [(''terminal'', JString (terminal_wire terminal)), (''targets'', json_u64 (length targets))] seq)))))))"

definition validate_park ::
    "('g, 'x) kernel_env \<Rightarrow> u64 \<Rightarrow> kernel_command \<Rightarrow> 'x pre_read \<Rightarrow> string \<Rightarrow> string \<Rightarrow> u64 \<Rightarrow> u64 \<Rightarrow>
     rejection + ('x accepted \<times> u64)" where
  "validate_park K current cmd pre unit_id key at seq =
     and_then (authority_gate current cmd) (\<lambda>_.
     and_then (resolve_bound K cmd pre unit_id key) (\<lambda>(row, i).
     and_then (already_settled i key) (\<lambda>_.
     if ei_state i \<notin> {Effect_Dispatching, Effect_Dispatched, Effect_Observing, Effect_Reconciling} then
       Inl (Reject InvalidRequest (''cannot park state '' @ effect_state_debug (ei_state i)
              @ '' at reconciling'') False)
     else
       and_then (next_version (er_version row)) (\<lambda>v.
       update_accepted K row
         (i\<lparr>ei_state := Effect_Reconciling, next_reconcile_at := Some at, ei_version := v\<rparr>) None
         ''effect.reconciling'' [(''next_reconcile_at'', json_u64 at)] seq))))"

definition dispatchable :: "effect_intent \<Rightarrow> string \<Rightarrow> rejection + unit" where
  "dispatchable i key =
     (if ei_state i = Effect_Prepared then Inr ()
      else if ei_retry_class i = NoRetry then
        Inl (Reject InvalidRequest (''retry_class no_retry refuses re-dispatch of '' @ key) True)
      else if ei_state i \<notin> {Effect_Dispatched, Effect_Reconciling} then
        Inl (Reject InvalidRequest (''cannot dispatch from state '' @ effect_state_debug (ei_state i)) False)
      else Inr ())"

definition validate_effect_dispatch ::
    "('g, 'x) kernel_env \<Rightarrow> u64 \<Rightarrow> u64 \<Rightarrow> kernel_command \<Rightarrow> 'x pre_read \<Rightarrow> string \<Rightarrow> string \<Rightarrow> u64 \<Rightarrow>
     rejection + ('x accepted \<times> u64)" where
  "validate_effect_dispatch K current clock_ms cmd pre unit_id key seq =
     and_then (holder_gate current cmd pre unit_id) (\<lambda>_.
     and_then (resolve_bound K cmd pre unit_id key) (\<lambda>(row, i).
     and_then (already_settled i key) (\<lambda>_.
     and_then (dispatchable i key) (\<lambda>_.
     if ei_state i = Effect_Prepared \<and> blockers_of pre \<noteq> [] then
       and_then (map_err (\<lambda>_. Panics ''prepared settles cancelled'') (settle_intent Term_Cancelled i)) (\<lambda>j.
       and_then (next_version (er_version row)) (\<lambda>v.
         update_accepted K row (j\<lparr>settled_at := Some clock_ms, ei_version := v\<rparr>)
           (Some (terminal_wire Term_Cancelled)) ''effect.settled''
           [(''terminal'', JString ''cancelled''), (''settled_at'', json_u64 clock_ms),
            (''rule_4'', JBool True)] seq))
     else if ei_reversibility_class i = Irreversible \<and> approval_ref i = None then
       Inl (Reject ApprovalRequired (''irreversible effect '' @ key @ '' has no committed approval_ref'') False)
     else
       and_then (next_version (er_version row)) (\<lambda>v.
       update_accepted K row (i\<lparr>ei_state := Effect_Dispatching, ei_version := v\<rparr>) None
         ''effect.dispatching'' [(''operation_key'', JString key)] seq)))))"

definition same_declaration :: "target_observation \<times> target_observation \<Rightarrow> bool" where
  "same_declaration ab = (case ab of (a, b) \<Rightarrow>
     target_id a = target_id b \<and> expected_digest a = expected_digest b \<and> pre_digest a = pre_digest b)"

definition declared_same :: "effect_intent \<Rightarrow> effect_spec \<Rightarrow> bool" where
  "declared_same i spec \<longleftrightarrow>
     ei_target_enumeration i = es_target_enumeration spec \<and>
     length (ei_targets i) = length (es_declared_targets spec) \<and>
     list_all same_declaration (zip (ei_targets i) (declared_at_prepare (es_declared_targets spec)))"

definition divergent :: "effect_intent \<Rightarrow> effect_spec \<Rightarrow> bool" where
  "divergent i spec \<longleftrightarrow>
     adapter_id i \<noteq> es_adapter_id spec \<or> adapter_version i \<noteq> es_adapter_version spec \<or>
     ei_retry_class i \<noteq> es_retry_class spec \<or> ei_reversibility_class i \<noteq> es_reversibility_class spec \<or>
     policy_snapshot_digest i \<noteq> es_policy_snapshot_digest spec \<or> decomposable i \<noteq> es_decomposable spec \<or>
     compensation_intent_id i \<noteq> es_compensation_intent_id spec \<or> approval_ref i \<noteq> es_approval_ref spec \<or>
     \<not> declared_same i spec"

definition check_enumeration :: "effect_spec \<Rightarrow> rejection + unit" where
  "check_enumeration spec =
     (case es_target_enumeration spec of
        Enum_Declared \<Rightarrow>
          if es_declared_targets spec = [] then
            Inl (Reject InvalidRequest
                   ''target_enumeration=declared requires a non-empty declared_targets'' True)
          else Inr ()
      | Enum_PostHoc \<Rightarrow>
          if es_declared_targets spec \<noteq> [] then
            Inl (Reject InvalidRequest ''target_enumeration=post_hoc must not declare targets'' True)
          else Inr ())"

definition prepared_intent ::
    "attempt_token_claims \<Rightarrow> string \<Rightarrow> string \<Rightarrow> effect_spec \<Rightarrow> uuid7 \<Rightarrow> effect_intent" where
  "prepared_intent token unit_id key spec intent_id =
     \<lparr>effect_intent_id = intent_id, ei_version = 1, ei_unit_id = unit_id,
      ei_attempt_epoch = tk_attempt_epoch token, ei_stamp = tk_stamp token,
      ei_authority_epoch = tk_authority_epoch token, adapter_id = es_adapter_id spec,
      adapter_version = es_adapter_version spec, operation_key = key,
      logical_operation_id = es_logical_operation_id spec, ei_request_digest = es_request_digest spec,
      ei_retry_class = es_retry_class spec, ei_reversibility_class = es_reversibility_class spec,
      approval_ref = es_approval_ref spec, policy_snapshot_digest = es_policy_snapshot_digest spec,
      ei_state = Effect_Prepared, ei_terminal = None, ei_target_enumeration = es_target_enumeration spec,
      ei_targets = declared_at_prepare (es_declared_targets spec), decomposable = es_decomposable spec,
      parent_effect_intent_id = None, compensation_intent_id = es_compensation_intent_id spec,
      dispatched_at = None, settled_at = None, next_reconcile_at = None\<rparr>"

definition validate_prepare ::
    "('g, 'x) kernel_env \<Rightarrow> u64 \<Rightarrow> u64 \<Rightarrow> kernel_command \<Rightarrow> 'x pre_read \<Rightarrow> string \<Rightarrow> effect_spec \<Rightarrow> u64 \<Rightarrow>
     rejection + ('x accepted \<times> u64)" where
  "validate_prepare K current clock_ms cmd pre unit_id spec seq =
     and_then (holder_gate current cmd pre unit_id) (\<lambda>token.
     if blockers_of pre \<noteq> [] then
       Inl (Reject InvalidRequest
              (''prepare barred by committed cancellation: '' @ named_blockers (blockers_of pre)) True)
     else
       and_then (check_target_list (es_declared_targets spec)) (\<lambda>_.
       and_then (check_enumeration spec) (\<lambda>_.
       and_then (ok_or (Panics ''prepare derives the key'') (pr_effect_key pre)) (\<lambda>key.
       case pr_effect pre of
         Some existing \<Rightarrow>
           and_then (parse_record K existing) (\<lambda>i.
           and_then (intent_binds i unit_id) (\<lambda>_.
           if divergent i spec then
             Inl (Reject InvalidRequest (''divergent re-prepare of existing intent '' @ key) True)
           else accepting Plan_Nothing []
                  [(''operation_key'', JString key),
                   (''effect_intent_id'', JString (uuid_text (effect_intent_id i))),
                   (''version'', json_u64 (ei_version i)), (''existing'', JBool True)] seq))
       | None \<Rightarrow>
           and_then (mint_id clock_ms current seq) (\<lambda>(intent_uuid, seq1).
             let i = prepared_intent token unit_id key spec intent_uuid; intent_id = uuid_text intent_uuid in
             accepting (Plan_CreateEffect key intent_id unit_id (tk_attempt_epoch token) (enc_intent K i))
               [event ''effect'' intent_id 1 ''effect.prepared''
                  [(''effect_intent_id'', JString intent_id), (''adapter_id'', JString (es_adapter_id spec)),
                   (''retry_class'', JString (retry_class_wire (es_retry_class spec))),
                   (''reversibility_class'', JString (reversibility_wire (es_reversibility_class spec))),
                   (''target_enumeration'', JString (enumeration_wire (es_target_enumeration spec)))]]
               [(''operation_key'', JString key), (''effect_intent_id'', JString intent_id),
                (''version'', json_u64 1), (''existing'', JBool False)] seq1)))))"

section \<open>Cancellations\<close>

fun policy_wire :: "cancel_policy \<Rightarrow> string" where
  "policy_wire AttachedCascade = ''attached_cascade''"
| "policy_wire RootOnly = ''root_only''"

fun reason_wire :: "kernel_cancel_reason \<Rightarrow> string" where
  "reason_wire OwnerRequest = ''owner_request''"
| "reason_wire BudgetExhausted = ''budget_exhausted''"
| "reason_wire PolicyViolation = ''policy_violation''"
| "reason_wire SupersededByEpoch = ''superseded_by_epoch''"
| "reason_wire DependencyFailed = ''dependency_failed''"
| "reason_wire ShutdownDrain = ''shutdown_drain''"

fun status_wire :: "cancel_status \<Rightarrow> string" where
  "status_wire Status_Requested = ''requested''"
| "status_wire Status_Delivering = ''delivering''"
| "status_wire Status_ObservedPartial = ''observed_partial''"
| "status_wire Status_Settled = ''settled''"

definition scope_rejection :: "freeze_error \<Rightarrow> rejection" where
  "scope_rejection e = Reject InvalidRequest
     (case e of
        TooLarge n \<Rightarrow> ''scope of '' @ show_nat n @ '' members exceeds the cap''
      | DuplicateMember m \<Rightarrow> ''duplicate scope member '' @ m
      | NotUnderRoot k m \<Rightarrow> ''member '' @ kind_debug k @ '':'' @ m @ '' is not under the root'') True"

definition not_under_root :: "cancel_kind \<Rightarrow> string \<Rightarrow> cancel_kind \<Rightarrow> string \<Rightarrow> rejection" where
  "not_under_root rk rid mk mid = Reject InvalidRequest
     (''member '' @ kind_debug mk @ '':'' @ mid @ '' does not live under root '' @ kind_debug rk @ '':'' @ rid
        @ '' (own-tree check)'') True"

definition link_under_root ::
    "cancel_kind \<Rightarrow> string \<Rightarrow> (string \<times> u64) option \<Rightarrow> cancel_kind \<Rightarrow> member_link \<Rightarrow> bool" where
  "link_under_root rk rid root_attempt mk link =
     (case rk of
        Kind_Run \<Rightarrow> ml_run_id link = Some rid
      | Kind_ExecutionUnit \<Rightarrow> mk \<in> {Kind_Attempt, Kind_EffectIntent} \<and> ml_parent_unit link = Some rid
      | Kind_Attempt \<Rightarrow>
          mk = Kind_EffectIntent \<and>
          (case root_attempt of
             Some (u, e) \<Rightarrow> ml_parent_unit link = Some u \<and> ml_attempt_epoch link = Some e
           | None \<Rightarrow> False)
      | Kind_EffectIntent \<Rightarrow> False)"

text \<open>The walk of the members: the first that is neither the root nor resolves to live under it.\<close>

fun check_members ::
    "cancel_kind \<Rightarrow> string \<Rightarrow> 'x cancel_pre \<Rightarrow> scope_member list \<Rightarrow> rejection + unit" where
  "check_members rk rid cpre [] = Inr ()"
| "check_members rk rid cpre (m # ms) =
     (if member_kind m = rk \<and> member_id m = rid then check_members rk rid cpre ms
      else case cp_member_links cpre (member_id m) of
             None \<Rightarrow> Inl (not_under_root rk rid (member_kind m) (member_id m))
           | Some link \<Rightarrow>
               if link_under_root rk rid (cp_root_attempt cpre) (member_kind m) link
               then check_members rk rid cpre ms
               else Inl (not_under_root rk rid (member_kind m) (member_id m)))"

definition freeze_checked ::
    "'x cancel_pre \<Rightarrow> cancel_kind \<Rightarrow> string \<Rightarrow> cancel_policy \<Rightarrow> member_input list \<Rightarrow> rejection + cancel_scope" where
  "freeze_checked cpre rk rid policy proposed =
     and_then (map_err scope_rejection (freeze_scope rk rid proposed)) (\<lambda>scope.
     and_then (ok_or (Reject NotFound (''cancellation root '' @ cancel_kind_wire rk @ '':'' @ rid) False)
                 (cp_root_terminal cpre)) (\<lambda>root_terminal.
     if scope_members scope = [] \<and> (policy \<noteq> RootOnly \<or> \<not> root_terminal) then
       Inl (Reject InvalidRequest
              (''empty cancellation scope requires root_only policy and a terminal root; ''
                 @ cancel_kind_wire rk @ '':'' @ rid @ '' is not eligible'') False)
     else and_then (check_members rk rid cpre (scope_members scope)) (\<lambda>_. Inr scope)))"

definition validate_cancel_commit ::
    "('g, 'x) kernel_env \<Rightarrow> u64 \<Rightarrow> u64 \<Rightarrow> kernel_command \<Rightarrow> 'x pre_read \<Rightarrow> cancel_kind \<Rightarrow> string \<Rightarrow>
     kernel_cancel_reason \<Rightarrow> cancel_policy \<Rightarrow> member_input list \<Rightarrow> u64 \<Rightarrow> rejection + ('x accepted \<times> u64)" where
  "validate_cancel_commit K current clock_ms cmd pre rk rid reason policy proposed seq =
     and_then (authority_gate current cmd) (\<lambda>_.
     and_then (ok_or (Panics ''cancel pre present'') (pr_cancel pre)) (\<lambda>cpre.
     and_then (freeze_checked cpre rk rid policy proposed) (\<lambda>scope.
     and_then (mint_id clock_ms current seq) (\<lambda>(request_uuid, seq1).
       let status = request_status_after scope [];
           request = \<lparr>cr_id = request_uuid, cr_reason = reason, cr_policy = policy, cr_scope = scope,
                      cr_status = status, cr_requested_at = clock_ms, cr_requested_by_kind = ''daemon''\<rparr>;
           request_id = uuid_text request_uuid
       in accepting (Plan_CreateCancelRequest \<lparr>crp_request_id = request_id, crp_root_kind = cancel_kind_wire rk,
              crp_root_id = rid, crp_policy = policy_wire policy, crp_reason = reason_wire reason,
              crp_status = status_wire status, crp_scope = enc_scope K scope, crp_record = enc_request K request\<rparr>)
            [event ''cancel_request'' request_id 1 ''cancel_request.requested''
               [(''root_kind'', JString (cancel_kind_wire rk)), (''root_id'', JString rid),
                (''reason'', JString (reason_wire reason)), (''policy'', JString (policy_wire policy)),
                (''status'', JString (status_wire status)),
                (''members'', json_u64 (length (scope_members scope)))]]
            [(''cancel_request_id'', JString request_id), (''version'', json_u64 1),
             (''status'', JString (status_wire status)), (''root_kind'', JString (cancel_kind_wire rk)),
             (''root_id'', JString rid)] seq1))))"

definition observation_is_valid :: "delivery_outcome \<Rightarrow> u64 \<Rightarrow> u64 option \<Rightarrow> bool" where
  "observation_is_valid outcome delivered observed =
     (case (outcome, observed) of
        (Unresponsive, None) \<Rightarrow> True
      | (Unresponsive, Some _) \<Rightarrow> False
      | (_, None) \<Rightarrow> False
      | (_, Some at) \<Rightarrow> delivered \<le> at)"

text \<open>A delivered effect that was dispatched and has no outcome is parked for reconciliation.\<close>

definition park_effect ::
    "('g, 'x) kernel_env \<Rightarrow> 'x effect_row option \<Rightarrow> rejection + 'x effect_park_plan option" where
  "park_effect K row =
     (case row of
        None \<Rightarrow> Inr None
      | Some row \<Rightarrow>
          and_then (parse_record K row) (\<lambda>i.
          if ei_state i \<notin> {Effect_Dispatching, Effect_Dispatched, Effect_Observing} \<or> ei_terminal i \<noteq> None
          then Inr None
          else
            and_then (next_version (er_version row)) (\<lambda>v.
            Inr (Some \<lparr>epp_node = er_node row, epp_version = v,
                       epp_record = enc_intent K (i\<lparr>ei_state := Effect_Reconciling, ei_version := v\<rparr>)\<rparr>))))"

definition request_status_next ::
    "'x cancel_pre \<Rightarrow> cancel_scope \<Rightarrow> scope_member \<Rightarrow> string \<Rightarrow> delivery_outcome \<Rightarrow> cancel_status" where
  "request_status_next cpre scope m mid outcome =
     (if is_final_member scope m
      then request_status_after scope (cp_deliveries cpre @ [\<lparr>ds_member = mid, ds_outcome = outcome\<rparr>])
      else Status_Delivering)"

definition delivery_events ::
    "string \<Rightarrow> u64 \<Rightarrow> string \<Rightarrow> u64 \<Rightarrow> u64 option \<Rightarrow> delivery_outcome \<Rightarrow> string \<Rightarrow> 'x effect_park_plan option \<Rightarrow>
     event_draft list" where
  "delivery_events request_id version mid delivered observed outcome status park =
     event ''cancel_request'' request_id version ''cancel_request.delivered''
       [(''member_id'', JString mid), (''delivered_at'', json_u64 delivered),
        (''observed_at'', json_opt observed), (''outcome'', JString (delivery_outcome_wire outcome)),
        (''status'', JString status)]
     # (case park of
          None \<Rightarrow> []
        | Some p \<Rightarrow> [event ''effect'' mid (epp_version p) ''effect.reconciling''
                      [(''next_reconcile_at'', JNull), (''source'', JString ''cancel_delivery'')]])"

definition next_undelivered :: "request_data \<Rightarrow> scope_member \<Rightarrow> string \<Rightarrow> string \<Rightarrow> rejection + unit" where
  "next_undelivered request m mid request_id =
     (if rd_version request = 0 then Inl (Reject Internal ''cancel request version is zero'' False)
      else if order_index m \<noteq> rd_version request - 1 then
        Inl (Reject InvalidRequest (''member '' @ mid @ '' is not the next undelivered member of ''
               @ request_id @ '' ('' @ sect @ ''5.2 rule 3, leaf-first)'') False)
      else Inr ())"

definition validate_record_delivery ::
    "('g, 'x) kernel_env \<Rightarrow> u64 \<Rightarrow> kernel_command \<Rightarrow> 'x pre_read \<Rightarrow> string \<Rightarrow> string \<Rightarrow> u64 \<Rightarrow> u64 option \<Rightarrow>
     delivery_outcome \<Rightarrow> u64 \<Rightarrow> rejection + ('x accepted \<times> u64)" where
  "validate_record_delivery K current cmd pre request_id mid delivered observed outcome seq =
     and_then (authority_gate current cmd) (\<lambda>_.
     and_then (ok_or (Panics ''cancel pre present'') (pr_cancel pre)) (\<lambda>cpre.
     and_then (ok_or (Reject NotFound (''cancel_request '' @ request_id) False) (cp_request cpre)) (\<lambda>request.
     let scope = cr_scope (rd_record request) in
     and_then (ok_or (Reject InvalidRequest (''member '' @ mid @ '' is not in the frozen scope of '' @ request_id) True)
                 (scope_member_of scope mid)) (\<lambda>m.
     if cp_delivery_exists cpre then
       Inl (Reject InvalidRequest (''delivery already recorded for member '' @ mid @ '' ('' @ sect
              @ ''5.1 write-once)'') True)
     else if \<not> observation_is_valid outcome delivered observed then
       Inl (Reject InvalidRequest (''observed_at must be absent only for an unresponsive delivery ''
              @ ''and must not predate delivery'') True)
     else
       and_then (next_undelivered request m mid request_id) (\<lambda>_.
       let status = request_status_next cpre scope m mid outcome in
       and_then (park_effect K (cp_effect_row cpre)) (\<lambda>park.
       and_then (ok_or (Reject ResourceExhausted ''cancel request version space exhausted'' True)
                   (u64_checked_add (rd_version request) 1)) (\<lambda>version_after.
       and_then (map_err (\<lambda>_. Reject Internal ''cancel_request_id is not a minted uuid'' False)
                   (uuid_try_from request_id)) (\<lambda>request_uuid.
         accepting (Plan_CancelRecordDelivery \<lparr>cdp_delivery_key = delivery_row_key request_id mid,
              cdp_request_id = request_id, cdp_request_node = rd_node request,
              cdp_request_version_after = version_after, cdp_request_status_after = status_wire status,
              cdp_request_record_after = enc_request K ((rd_record request)\<lparr>cr_status := status\<rparr>),
              cdp_member_id = mid, cdp_member_kind = cancel_kind_wire (member_kind m),
              cdp_order_index = order_index m, cdp_outcome = delivery_outcome_wire outcome,
              cdp_delivery_record = enc_delivery K \<lparr>cd_request_id = request_uuid, cd_member_id = mid,
                cd_member_kind = member_kind m, cd_delivered_at = delivered, cd_observed_at = observed,
                cd_outcome = outcome\<rparr>,
              cdp_park_effect = park\<rparr>)
           (delivery_events request_id version_after mid delivered observed outcome (status_wire status) park)
           [(''cancel_request_id'', JString request_id), (''version'', json_u64 version_after),
            (''member_id'', JString mid), (''outcome'', JString (delivery_outcome_wire outcome)),
            (''status'', JString (status_wire status))] seq))))))))"

section \<open>The dispatch on the method\<close>

definition validate ::
    "('g, 'x) kernel_env \<Rightarrow> 'g funnel \<Rightarrow> kernel_command \<Rightarrow> 'x pre_read \<Rightarrow> rejection + ('x accepted \<times> u64)" where
  "validate K f cmd pre =
     (let st = fn_store f; current = st_authority_epoch st; clock_ms = fn_clock_ms f; seq = fn_mint_seq f in
      case cmd_method cmd of
        RunOpen run_id goal \<Rightarrow> validate_run_open current cmd pre run_id goal seq
      | RunClose run_id outcome \<Rightarrow> validate_run_close current cmd pre run_id outcome seq
      | WorkItemCreate w d scopes \<Rightarrow> validate_work_item_create K st cmd w d scopes seq
      | UnitAdmit u w r \<Rightarrow> validate_unit_admit st cmd pre u w r seq
      | UnitDispatch u h \<Rightarrow> validate_unit_dispatch f cmd pre u h seq
      | ProgressReport u \<Rightarrow> validate_progress_report current cmd pre u seq
      | StampBump u \<Rightarrow> validate_stamp_bump current cmd pre u seq
      | TokenReissue u \<Rightarrow> validate_token_reissue u
      | EffectPrepare u spec \<Rightarrow> validate_prepare K current clock_ms cmd pre u spec seq
      | EffectDispatch u k \<Rightarrow> validate_effect_dispatch K current clock_ms cmd pre u k seq
      | EffectRecordDispatched u k at \<Rightarrow> validate_record_dispatched K current cmd pre u k at seq
      | EffectSettle u k t targets ev at \<Rightarrow> validate_settle K current cmd pre u k t targets ev at seq
      | EffectParkReconciling u k at \<Rightarrow> validate_park K current cmd pre u k at seq
      | CancelRequest rk rid reason policy proposed \<Rightarrow>
          validate_cancel_commit K current clock_ms cmd pre rk rid reason policy proposed seq
      | CancelRecordDelivery c m d ob out \<Rightarrow> validate_record_delivery K current cmd pre c m d ob out seq)"

end
