(* ===== verification/Kernel_Funnel.thy ===== *)
theory Kernel_Funnel
  imports Kernel_Methods
begin

text \<open>
  The mutation funnel of the kernel (\<open>yah-kernel/src/funnel/mod.rs\<close>, \<open>reject.rs\<close>, \<open>lifecycle.rs\<close>): a command
  is one transaction that resolves or claims its receipt, validates, applies its plan, appends its events
  and completes the receipt, or changes nothing. The result of the engine's commit is an argument of a
  submission: \<open>None\<close> is success. A transaction works on a copy of the graph, so a rollback keeps the old one.
\<close>

section \<open>Applying a plan\<close>

text \<open>The staged transaction: the working graph, the allocators, and the entries to add to the books.\<close>

record 'g stage =
  sg_graph :: 'g
  sg_cursor :: u64
  sg_seq :: u64
  sg_books :: "(book_kind \<times> string \<times> node_id) list"
  sg_cursors :: "u64 list"

definition engine_failure :: "('g, 'x) kernel_env \<Rightarrow> graph_error \<Rightarrow> rejection" where
  "engine_failure K e = Reject Internal (graph_error_debug K e) False"

definition create_row ::
    "('g, 'x) kernel_env \<Rightarrow> string \<Rightarrow> (string \<times> 'x prop_value) list \<Rightarrow> book_kind \<Rightarrow> string \<Rightarrow> 'g stage \<Rightarrow>
     rejection + 'g stage" where
  "create_row K label pairs kind key s =
     (case create_node K (sg_graph s) label (map_of pairs) of
        Inl e \<Rightarrow> Inl (engine_failure K e)
      | Inr (n, g) \<Rightarrow> Inr (s\<lparr>sg_graph := g, sg_books := sg_books s @ [(kind, key, n)]\<rparr>))"

definition update_row ::
    "('g, 'x) kernel_env \<Rightarrow> node_id \<Rightarrow> (string \<times> 'x prop_value) list \<Rightarrow> 'g stage \<Rightarrow> rejection + 'g stage" where
  "update_row K n pairs s =
     (case update_node K (sg_graph s) n (map_of pairs) of
        Inl e \<Rightarrow> Inl (engine_failure K e)
      | Inr g \<Rightarrow> Inr (s\<lparr>sg_graph := g\<rparr>))"

definition supersede_attempt ::
    "('g, 'x) kernel_env \<Rightarrow> node_id option \<Rightarrow> 'g stage \<Rightarrow> rejection + 'g stage" where
  "supersede_attempt K prior s =
     (case prior of
        Some n \<Rightarrow> update_row K n [(''status'', VString ''superseded'')] s
      | None \<Rightarrow> Inr s)"

definition upsert_lease :: "('g, 'x) kernel_env \<Rightarrow> dispatch_plan \<Rightarrow> 'g stage \<Rightarrow> rejection + 'g stage" where
  "upsert_lease K d s =
     (case dp_existing_lease d of
        Some (n, version) \<Rightarrow>
          and_then (ok_or (Reject Internal ''lease version space exhausted'' False) (u64_checked_add version 1)) (\<lambda>v.
          update_row K n
            [(''attempt_epoch'', VUint (dp_new_epoch d)), (''holder_id'', VString (dp_holder_id d)),
             (''status'', VString ''active''), (''version'', VUint v)] s)
      | None \<Rightarrow>
          create_row K ''Lease''
            [(''unit_id'', VString (dp_unit_id d)), (''attempt_epoch'', VUint (dp_new_epoch d)),
             (''holder_id'', VString (dp_holder_id d)), (''status'', VString ''active''), (''version'', VUint 1)]
            Book_Lease (dp_unit_id d) s)"

definition apply_dispatch :: "('g, 'x) kernel_env \<Rightarrow> dispatch_plan \<Rightarrow> 'g stage \<Rightarrow> rejection + 'g stage" where
  "apply_dispatch K d s =
     (let key = attempt_key (dp_unit_id d) (dp_new_epoch d) in
     and_then (update_row K (dp_unit_node d)
         [(''version'', VUint (dp_new_version d)), (''current_attempt_epoch'', VUint (dp_new_epoch d)),
          (''status'', VString ''dispatched'')] s) (\<lambda>s.
     and_then (supersede_attempt K (dp_prior_attempt d) s) (\<lambda>s.
     and_then (create_row K ''Attempt''
         [(''attempt_key'', VString key), (''attempt_id'', VString (dp_attempt_id d)),
          (''unit_id'', VString (dp_unit_id d)), (''attempt_epoch'', VUint (dp_new_epoch d)),
          (''stamp'', VUint (dp_stamp d)), (''authority_epoch'', VUint (dp_authority_epoch d)),
          (''holder_id'', VString (dp_holder_id d)), (''token_nonce'', VString (dp_token_nonce d)),
          (''status'', VString ''active'')]
         (Book_Attempt (dp_attempt_id d)) key s) (\<lambda>s.
     upsert_lease K d s))))"

definition park_row ::
    "('g, 'x) kernel_env \<Rightarrow> 'x effect_park_plan option \<Rightarrow> 'g stage \<Rightarrow> rejection + 'g stage" where
  "park_row K park s =
     (case park of
        None \<Rightarrow> Inr s
      | Some p \<Rightarrow>
          update_row K (epp_node p)
            [(''version'', VUint (epp_version p)), (''state'', VString ''reconciling''),
             (''record'', VText (epp_record p))] s)"

definition apply_create_request ::
    "('g, 'x) kernel_env \<Rightarrow> 'x cancel_request_plan \<Rightarrow> 'g stage \<Rightarrow> rejection + 'g stage" where
  "apply_create_request K p s =
     create_row K ''CancelRequest''
       [(''cancel_request_id'', VString (crp_request_id p)), (''version'', VUint 1),
        (''root_kind'', VString (crp_root_kind p)), (''root_id'', VString (crp_root_id p)),
        (''policy'', VString (crp_policy p)), (''reason'', VString (crp_reason p)),
        (''scope'', VText (crp_scope p)), (''status'', VString (crp_status p)), (''record'', VText (crp_record p))]
       (Book_CancelRequest (crp_root_kind p @ ''/'' @ crp_root_id p)) (crp_request_id p) s"

definition apply_record_delivery ::
    "('g, 'x) kernel_env \<Rightarrow> 'x cancel_delivery_plan \<Rightarrow> 'g stage \<Rightarrow> rejection + 'g stage" where
  "apply_record_delivery K p s =
     and_then (create_row K ''CancelDelivery''
         [(''delivery_key'', VString (cdp_delivery_key p)), (''cancel_request_id'', VString (cdp_request_id p)),
          (''member_id'', VString (cdp_member_id p)), (''member_kind'', VString (cdp_member_kind p)),
          (''order_index'', VUint (cdp_order_index p)), (''outcome'', VString (cdp_outcome p)),
          (''record'', VText (cdp_delivery_record p))]
         (Book_CancelDelivery (cdp_request_id p)) (cdp_delivery_key p) s) (\<lambda>s.
     and_then (update_row K (cdp_request_node p)
         [(''version'', VUint (cdp_request_version_after p)), (''status'', VString (cdp_request_status_after p)),
          (''record'', VText (cdp_request_record_after p))] s) (\<lambda>s.
     park_row K (cdp_park_effect p) s))"

fun apply_plan :: "('g, 'x) kernel_env \<Rightarrow> 'x plan \<Rightarrow> 'g stage \<Rightarrow> rejection + 'g stage" where
  "apply_plan K (Plan_CreateWorkItem w contract scopes) s =
     create_row K ''WorkItem''
       [(''work_item_id'', VString w), (''version'', VUint 1), (''status'', VString ''ready''),
        (''acceptance_contract_digest'', VString contract), (''declared_write_scope'', VText scopes),
        (''record'', VString ''{}'')] Book_WorkItem w s"
| "apply_plan K (Plan_CreateRun run_id goal) s =
     create_row K ''Run''
       [(''run_id'', VString run_id), (''version'', VUint 1), (''status'', VString ''open''),
        (''goal_work_item_id'', VString goal), (''record'', VString ''{}'')] Book_Run run_id s"
| "apply_plan K (Plan_CloseRun n v status) s =
     update_row K n [(''version'', VUint v), (''status'', VString status)] s"
| "apply_plan K (Plan_CreateUnit u w r) s =
     create_row K ''Unit''
       [(''unit_id'', VString u), (''version'', VUint 1), (''current_attempt_epoch'', VUint 0),
        (''stamp'', VUint 0), (''status'', VString ''admitted''), (''work_item_id'', VString w),
        (''run_id'', VString r), (''record'', VString ''{}'')] Book_Unit u s"
| "apply_plan K (Plan_Dispatch d) s = apply_dispatch K d s"
| "apply_plan K (Plan_BumpUnit n v new_stamp) s =
     update_row K n ((''version'', VUint v)
       # (case new_stamp of None \<Rightarrow> [] | Some x \<Rightarrow> [(''stamp'', VUint x)])) s"
| "apply_plan K (Plan_CreateEffect key intent_id u e rec) s =
     create_row K ''Effect''
       [(''operation_key'', VString key), (''effect_intent_id'', VString intent_id), (''unit_id'', VString u),
        (''attempt_epoch'', VUint e), (''version'', VUint 1), (''state'', VString ''prepared''),
        (''record'', VText rec)] (Book_Effect intent_id) key s"
| "apply_plan K (Plan_UpdateEffect n v state terminal rec) s =
     update_row K n ([(''version'', VUint v), (''state'', VString state), (''record'', VText rec)]
       @ (case terminal of None \<Rightarrow> [] | Some t \<Rightarrow> [(''terminal'', VString t)])) s"
| "apply_plan K (Plan_CreateCancelRequest p) s = apply_create_request K p s"
| "apply_plan K (Plan_CancelRecordDelivery p) s = apply_record_delivery K p s"
| "apply_plan K Plan_Nothing s = Inr s"

section \<open>Appending events\<close>

text \<open>
  Cursors and identifiers are taken from allocators that are not rolled back: a failing append still
  yields the stage it reached.
\<close>

definition event_properties ::
    "('g, 'x) kernel_env \<Rightarrow> kernel_command \<Rightarrow> u64 \<Rightarrow> event_draft \<Rightarrow> u64 \<Rightarrow> u64 \<Rightarrow> uuid7 \<Rightarrow>
     (string \<times> 'x prop_value) list" where
  "event_properties K cmd clock_ms d ordinal cursor eid =
     [(''event_id'', VString (uuid_text eid)), (''cursor'', VUint cursor),
      (''agg_ver_ord'', VString (aggregate_kind d @ ''/'' @ aggregate_id d @ ''/''
          @ show_nat (aggregate_version d) @ ''/'' @ show_nat ordinal)),
      (''aggregate_kind'', VString (aggregate_kind d)), (''aggregate_id'', VString (aggregate_id d)),
      (''aggregate_version'', VUint (aggregate_version d)), (''ordinal'', VUint ordinal),
      (''event_kind'', VString (event_kind d)), (''payload'', VText (enc_json K (event_payload d))),
      (''receipt_key'', VString (receipt_key cmd)), (''command_id'', VString (command_id cmd)),
      (''actor_kind'', VString (principal_wire (principal_kind_of cmd))), (''actor_id'', VString (principal_id cmd)),
      (''occurred_at_ms'', VUint clock_ms)]"

definition optional_update ::
    "('g, 'x) kernel_env \<Rightarrow> node_id \<Rightarrow> string \<Rightarrow> string option \<Rightarrow> 'g \<Rightarrow> graph_error + 'g" where
  "optional_update K n key x g =
     (case x of None \<Rightarrow> Inr g | Some v \<Rightarrow> update_node K g n (map_of [(key, VString v)]))"

definition write_event ::
    "('g, 'x) kernel_env \<Rightarrow> kernel_command \<Rightarrow> u64 \<Rightarrow> event_draft \<Rightarrow> u64 \<Rightarrow> u64 \<Rightarrow> uuid7 \<Rightarrow> 'g \<Rightarrow>
     graph_error + (node_id \<times> 'g)" where
  "write_event K cmd clock_ms d ordinal cursor eid g =
     and_then (create_node K g ''Event'' (map_of (event_properties K cmd clock_ms d ordinal cursor eid))) (\<lambda>(n, g).
     and_then (optional_update K n ''causation_id'' (causation_id cmd) g) (\<lambda>g.
     and_then (optional_update K n ''correlation_id'' (correlation_id cmd) g) (\<lambda>g. Inr (n, g))))"

fun append_events ::
    "('g, 'x) kernel_env \<Rightarrow> kernel_command \<Rightarrow> u64 \<Rightarrow> u64 \<Rightarrow> u64 \<Rightarrow> event_draft list \<Rightarrow> 'g stage \<Rightarrow>
     'g stage \<times> (rejection + unit)" where
  "append_events K cmd clock_ms epoch ordinal [] s = (s, Inr ())"
| "append_events K cmd clock_ms epoch ordinal (d # ds) s =
     (case allocate_cursor (sg_cursor s) of
        Inl e \<Rightarrow> (s, Inl (Reject Internal (''Internal('' @ quoted ''event cursor space exhausted'' @ '')'') False))
      | Inr (cursor, next) \<Rightarrow>
          let s1 = s\<lparr>sg_cursor := next\<rparr> in
          (case mint_id clock_ms epoch (sg_seq s1) of
             Inl r \<Rightarrow> (s1, Inl r)
           | Inr (eid, seq) \<Rightarrow>
               let s2 = s1\<lparr>sg_seq := seq\<rparr> in
               (case write_event K cmd clock_ms d ordinal cursor eid (sg_graph s2) of
                  Inl e \<Rightarrow> (s2, Inl (engine_failure K e))
                | Inr (n, g) \<Rightarrow>
                    append_events K cmd clock_ms epoch (ordinal + 1) ds
                      (s2\<lparr>sg_graph := g, sg_books := sg_books s2 @ [(Book_Event, show_nat cursor, n)],
                          sg_cursors := sg_cursors s2 @ [cursor]\<rparr>))))"

definition cursor_range :: "u64 list \<Rightarrow> (u64 \<times> u64) option" where
  "cursor_range cs = (if cs = [] then None else Some (hd cs, last cs))"

text \<open>The plan, then the events, then the completed receipt.\<close>

definition stage_accepted ::
    "('g, 'x) kernel_env \<Rightarrow> kernel_command \<Rightarrow> u64 \<Rightarrow> u64 \<Rightarrow> 'x accepted \<Rightarrow> 'g stage \<Rightarrow>
     'g stage \<times> (rejection + unit)" where
  "stage_accepted K cmd clock_ms epoch a s =
     (case apply_plan K (acc_plan a) s of
        Inl r \<Rightarrow> (s, Inl r)
      | Inr s1 \<Rightarrow>
          (case append_events K cmd clock_ms epoch 0 (acc_events a) s1 of
             (s2, Inl r) \<Rightarrow> (s2, Inl r)
           | (s2, Inr _) \<Rightarrow>
               (case create_node K (sg_graph s2) ''Receipt''
                       (receipt_properties K cmd (method_wire (cmd_method cmd)) ''completed'' (acc_result a)
                          (cursor_range (sg_cursors s2))) of
                  Inl e \<Rightarrow> (s2, Inl (engine_failure K e))
                | Inr (n, g) \<Rightarrow>
                    (s2\<lparr>sg_graph := g, sg_books := sg_books s2 @ [(Book_Receipt, receipt_key cmd, n)]\<rparr>, Inr ()))))"

section \<open>Submission\<close>

definition persist_rejection ::
    "('g, 'x) kernel_env \<Rightarrow> graph_error option \<Rightarrow> 'g funnel \<Rightarrow> kernel_command \<Rightarrow> string \<Rightarrow> error_kind \<Rightarrow> string \<Rightarrow>
     string \<Rightarrow> string \<Rightarrow> submission \<times> 'g funnel" where
  "persist_rejection K commit f cmd command_type kind detail commit_failed stage_failed =
     (let st = fn_store f;
          result = json_object [(''error_kind'', JString (error_kind_wire kind)), (''detail'', JString detail)]
      in case create_node K (st_graph st) ''Receipt''
                (receipt_properties K cmd command_type ''rejected'' result None) of
           Inl e \<Rightarrow> (Rejected Internal (stage_failed @ graph_error_debug K e) False, f)
         | Inr (n, g) \<Rightarrow>
             (case commit of
                None \<Rightarrow>
                  (Rejected kind detail False,
                   f\<lparr>fn_store := st\<lparr>st_graph := g,
                     st_books := book_insert Book_Receipt (receipt_key cmd) n (st_books st)\<rparr>\<rparr>)
              | Some e \<Rightarrow>
                  (case commit_error K e of
                     CommitUnknown d \<Rightarrow> (Rejected kind detail False, f\<lparr>fn_gate := Some d\<rparr>)
                   | _ \<Rightarrow> (Rejected Internal commit_failed False, f))))"

definition over_limit :: "('g, 'x) kernel_env \<Rightarrow> 'x accepted \<Rightarrow> bool" where
  "over_limit K a \<longleftrightarrow>
     list_ex (\<lambda>d. wire_json_len K (event_payload d) > MAX_EVENT_PAYLOAD_BYTES) (acc_events a) \<or>
     (case canonical_len K (acc_result a) of None \<Rightarrow> True | Some n \<Rightarrow> n > MAX_RESULT_BYTES)"

fun store_error_debug :: "('g, 'x) kernel_env \<Rightarrow> store_error \<Rightarrow> string" where
  "store_error_debug K (Store_Rejected r) = ''Rejected('' @ store_rejection_debug r @ '')''"
| "store_error_debug K (Store_Graph e) = ''Graph('' @ graph_error_debug K e @ '')''"
| "store_error_debug K (CommitUnknown d) = ''CommitUnknown('' @ quoted d @ '')''"
| "store_error_debug K (Store_Internal d) = ''Internal('' @ quoted d @ '')''"

definition stage_of :: "'g funnel \<Rightarrow> 'g stage" where
  "stage_of f = \<lparr>sg_graph = st_graph (fn_store f), sg_cursor = st_next_cursor (fn_store f),
     sg_seq = fn_mint_seq f, sg_books = [], sg_cursors = []\<rparr>"

text \<open>The allocators advance whether or not the transaction commits.\<close>

definition burn :: "'g stage \<Rightarrow> 'g funnel \<Rightarrow> 'g funnel" where
  "burn s f = f\<lparr>fn_store := (fn_store f)\<lparr>st_next_cursor := sg_cursor s\<rparr>, fn_mint_seq := sg_seq s\<rparr>"

definition publish_stage :: "'g stage \<Rightarrow> 'g funnel \<Rightarrow> 'g funnel" where
  "publish_stage s f = (burn s f)\<lparr>fn_store := (fn_store (burn s f))\<lparr>st_graph := sg_graph s,
     st_books := fold (\<lambda>(kind, key, n). book_insert kind key n) (sg_books s) (st_books (fn_store f))\<rparr>\<rparr>"

definition commit_stage ::
    "('g, 'x) kernel_env \<Rightarrow> graph_error option \<Rightarrow> 'g funnel \<Rightarrow> json \<Rightarrow> 'g stage \<Rightarrow> submission \<times> 'g funnel" where
  "commit_stage K commit f result s =
     (case commit of
        None \<Rightarrow> (Completed result, publish_stage s f)
      | Some e \<Rightarrow>
          (case commit_error K e of
             CommitUnknown d \<Rightarrow>
               (Rejected OutcomeUnknown (''commit outcome uncertain: '' @ d) False, (burn s f)\<lparr>fn_gate := Some d\<rparr>)
           | other \<Rightarrow>
               (Rejected Internal (''commit rejected before durability: '' @ store_error_debug K other) False,
                burn s f)))"

text \<open>A panic while the gate is held leaves its lock broken: every later call panics as well.\<close>

definition panicked :: "string \<Rightarrow> 'g funnel \<Rightarrow> submission \<times> 'g funnel" where
  "panicked message f = (Panicked message, f\<lparr>fn_gate_broken := True\<rparr>)"

definition run_accepted ::
    "('g, 'x) kernel_env \<Rightarrow> graph_error option \<Rightarrow> 'g funnel \<Rightarrow> kernel_command \<Rightarrow> 'x accepted \<Rightarrow>
     submission \<times> 'g funnel" where
  "run_accepted K commit f cmd a =
     (if over_limit K a then
        persist_rejection K commit f cmd (method_wire (cmd_method cmd)) PayloadTooLarge
          (''inline result or semantic event payload exceeds its protocol limit; ''
             @ ''use an artifact reference'')
          ''oversize rejection commit failed before durability'' ''cannot stage oversize rejection: ''
      else
        (case stage_accepted K cmd (fn_clock_ms f) (st_authority_epoch (fn_store f)) a (stage_of f) of
           (s, Inl (Reject kind detail _)) \<Rightarrow> (Rejected kind detail False, burn s f)
         | (s, Inl (Panics message)) \<Rightarrow> panicked message (burn s f)
         | (s, Inr _) \<Rightarrow> commit_stage K commit f (acc_result a) s))"

definition poisoned :: "string \<Rightarrow> submission" where
  "poisoned detail = Rejected Unavailable (''funnel poisoned by uncertain commit: '' @ detail) False"

definition bad_address :: submission where
  "bad_address = Rejected InvalidRequest
     ''receipt scope and command identifiers must use the wire identifier grammar'' False"

definition submit ::
    "('g, 'x) kernel_env \<Rightarrow> graph_error option \<Rightarrow> kernel_command \<Rightarrow> 'g funnel \<Rightarrow> submission \<times> 'g funnel" where
  "submit K commit cmd f =
     (let st = fn_store f in
      if fn_gate_broken f then (Panicked ''funnel gate'', f)
      else case fn_gate f of
        Some detail \<Rightarrow> (poisoned detail, f)
      | None \<Rightarrow>
          if \<not> address_is_valid cmd (st_project_id st) then (bad_address, f)
          else case receipt_node st (receipt_key cmd) of
            Some n \<Rightarrow> (replay_stored K cmd (method_wire (cmd_method cmd)) (node_of K st n), f)
          | None \<Rightarrow>
              (case validate K f cmd (pre_read_of K st cmd) of
                 Inl (Panics message) \<Rightarrow> panicked message f
               | Inl (Reject kind detail persist) \<Rightarrow>
                   if \<not> persist then (Rejected kind detail False, f)
                   else persist_rejection K commit f cmd (method_wire (cmd_method cmd)) kind
                          (bounded_detail detail)
                          ''rejection receipt commit failed before durability''
                          ''cannot stage rejection receipt: ''
               | Inr (a, seq) \<Rightarrow> run_accepted K commit (f\<lparr>fn_mint_seq := seq\<rparr>) cmd a))"

text \<open>A rejection decided outside the funnel that still claims the command's receipt.\<close>

definition reject_keyed ::
    "('g, 'x) kernel_env \<Rightarrow> graph_error option \<Rightarrow> kernel_command \<Rightarrow> string \<Rightarrow> error_kind \<Rightarrow> string \<Rightarrow> 'g funnel \<Rightarrow>
     submission \<times> 'g funnel" where
  "reject_keyed K commit cmd command_type kind detail f =
     (let st = fn_store f in
      if fn_gate_broken f then (Panicked ''funnel gate'', f)
      else case fn_gate f of
        Some reason \<Rightarrow> (poisoned reason, f)
      | None \<Rightarrow>
          if \<not> identifiers_are_valid cmd \<or> \<not> project_scope_is_valid cmd (st_project_id st) then (bad_address, f)
          else case receipt_node st (receipt_key cmd) of
            Some n \<Rightarrow> (replay_stored K cmd command_type (node_of K st n), f)
          | None \<Rightarrow>
              persist_rejection K commit f cmd command_type kind (bounded_detail detail)
                ''protocol rejection commit failed before durability'' ''cannot stage protocol rejection: '')"

section \<open>Clock and latch\<close>

definition new_funnel :: "('g, 'x) kernel_env \<Rightarrow> 'g store \<Rightarrow> u64 \<Rightarrow> string + 'g funnel" where
  "new_funnel K st clock_ms =
     and_then (validate_timestamp K clock_ms) (\<lambda>_.
       Inr \<lparr>fn_store = st, fn_gate = None, fn_gate_broken = False, fn_clock_ms = clock_ms, fn_mint_seq = 0\<rparr>)"

definition tick_clock :: "('g, 'x) kernel_env \<Rightarrow> u64 \<Rightarrow> 'g funnel \<Rightarrow> (string + unit) \<times> 'g funnel" where
  "tick_clock K to_ms f =
     (case validate_timestamp K to_ms of
        Inl e \<Rightarrow> (Inl e, f)
      | Inr _ \<Rightarrow> (Inr (), f\<lparr>fn_clock_ms := max (fn_clock_ms f) to_ms\<rparr>))"

definition latch_poison :: "string \<Rightarrow> 'g funnel \<Rightarrow> 'g funnel" where
  "latch_poison detail f = (if fn_gate f = None then f\<lparr>fn_gate := Some detail\<rparr> else f)"

definition poison_detail :: "'g funnel \<Rightarrow> string option" where
  "poison_detail f = map_option (\<lambda>d. ''funnel poisoned by uncertain commit: '' @ d) (fn_gate f)"

section \<open>Runs of the funnel\<close>

datatype funnel_input =
    In_Submit kernel_command "graph_error option"
  | In_Reject kernel_command string error_kind string "graph_error option"
  | In_Tick u64
  | In_Poison string

fun funnel_step :: "('g, 'x) kernel_env \<Rightarrow> funnel_input \<Rightarrow> 'g funnel \<Rightarrow> 'g funnel" where
  "funnel_step K (In_Submit cmd commit) f = snd (submit K commit cmd f)"
| "funnel_step K (In_Reject cmd ct kind detail commit) f = snd (reject_keyed K commit cmd ct kind detail f)"
| "funnel_step K (In_Tick ms) f = snd (tick_clock K ms f)"
| "funnel_step K (In_Poison detail) f = latch_poison detail f"

end
