(* ===== verification/Kernel_Transition.thy ===== *)
theory Kernel_Transition
  imports Kernel_Funnel
begin

text \<open>
  What a transaction of the funnel does to the graph and the books, once for every plan: the rows that
  exist change exactly as the plan's difference says and keep their label, and the rows that are new are
  labelled as the book they are entered in. All later properties of the funnel rest on these facts.
\<close>

section \<open>The engine\<close>

lemma create_node_ok:
  assumes "kernel_env_ok K" and "create_node K g l p = Inr (n, g')"
  shows "node_properties K g n = None" and "node_properties K g' = (node_properties K g)(n \<mapsto> p)"
    and "node_label K g' = (node_label K g)(n \<mapsto> l)"
  using assms unfolding kernel_env_ok_def by blast+

lemma update_node_ok:
  assumes "kernel_env_ok K" and "update_node K g n d = Inr g'"
  obtains p where "node_properties K g n = Some p" and "node_properties K g' = (node_properties K g)(n \<mapsto> p ++ d)"
    and "node_label K g' = node_label K g"
  using assms unfolding kernel_env_ok_def by blast

lemma codec_ok:
  assumes "kernel_env_ok K"
  shows "dec_intent K (enc_intent K i) = Inr i" and "dec_request K (enc_request K r) = Inr r"
    and "dec_json K (enc_json K j) = Inr j"
  using assms unfolding kernel_env_ok_def by blast+

section \<open>Differences\<close>

text \<open>The difference a plan makes to a row that exists.\<close>

definition at_node :: "node_id \<Rightarrow> (string \<times> 'x prop_value) list \<Rightarrow> node_id \<Rightarrow> 'x props" where
  "at_node n pairs m = (if m = n then map_of pairs else Map.empty)"

definition supersede_diff :: "node_id option \<Rightarrow> node_id \<Rightarrow> 'x props" where
  "supersede_diff prior m =
     (case prior of None \<Rightarrow> Map.empty | Some a \<Rightarrow> at_node a [(''status'', VString ''superseded'')] m)"

definition lease_diff :: "dispatch_plan \<Rightarrow> node_id \<Rightarrow> 'x props" where
  "lease_diff d m =
     (case dp_existing_lease d of
        None \<Rightarrow> Map.empty
      | Some (l, v) \<Rightarrow> at_node l
          [(''attempt_epoch'', VUint (dp_new_epoch d)), (''holder_id'', VString (dp_holder_id d)),
           (''status'', VString ''active''), (''version'', VUint (v + 1))] m)"

definition park_diff :: "'x effect_park_plan option \<Rightarrow> node_id \<Rightarrow> 'x props" where
  "park_diff park m =
     (case park of
        None \<Rightarrow> Map.empty
      | Some p \<Rightarrow> at_node (epp_node p)
          [(''version'', VUint (epp_version p)), (''state'', VString ''reconciling''),
           (''record'', VText (epp_record p))] m)"

fun plan_diff :: "'x plan \<Rightarrow> node_id \<Rightarrow> 'x props" where
  "plan_diff (Plan_CloseRun n v status) m = at_node n [(''version'', VUint v), (''status'', VString status)] m"
| "plan_diff (Plan_Dispatch d) m =
     at_node (dp_unit_node d)
       [(''version'', VUint (dp_new_version d)), (''current_attempt_epoch'', VUint (dp_new_epoch d)),
        (''status'', VString ''dispatched'')] m
     ++ supersede_diff (dp_prior_attempt d) m ++ lease_diff d m"
| "plan_diff (Plan_BumpUnit n v new_stamp) m =
     at_node n ((''version'', VUint v) # (case new_stamp of None \<Rightarrow> [] | Some x \<Rightarrow> [(''stamp'', VUint x)])) m"
| "plan_diff (Plan_UpdateEffect n v state terminal rec) m =
     at_node n ([(''version'', VUint v), (''state'', VString state), (''record'', VText rec)]
       @ (case terminal of None \<Rightarrow> [] | Some t \<Rightarrow> [(''terminal'', VString t)])) m"
| "plan_diff (Plan_CancelRecordDelivery p) m =
     at_node (cdp_request_node p)
       [(''version'', VUint (cdp_request_version_after p)), (''status'', VString (cdp_request_status_after p)),
        (''record'', VText (cdp_request_record_after p))] m
     ++ park_diff (cdp_park_effect p) m"
| "plan_diff _ m = Map.empty"

text \<open>The entries a plan adds to the books.\<close>

fun plan_books :: "'x plan \<Rightarrow> (book_kind \<times> string) list" where
  "plan_books (Plan_CreateWorkItem w _ _) = [(Book_WorkItem, w)]"
| "plan_books (Plan_CreateRun r _) = [(Book_Run, r)]"
| "plan_books (Plan_CreateUnit u _ _) = [(Book_Unit, u)]"
| "plan_books (Plan_Dispatch d) =
     (Book_Attempt (dp_attempt_id d), attempt_key (dp_unit_id d) (dp_new_epoch d))
     # (if dp_existing_lease d = None then [(Book_Lease, dp_unit_id d)] else [])"
| "plan_books (Plan_CreateEffect key intent_id _ _ _) = [(Book_Effect intent_id, key)]"
| "plan_books (Plan_CreateCancelRequest p) =
     [(Book_CancelRequest (crp_root_kind p @ ''/'' @ crp_root_id p), crp_request_id p)]"
| "plan_books (Plan_CancelRecordDelivery p) = [(Book_CancelDelivery (cdp_request_id p), cdp_delivery_key p)]"
| "plan_books _ = []"

fun book_label :: "book_kind \<Rightarrow> string" where
  "book_label Book_Unit = ''Unit''"
| "book_label (Book_Attempt _) = ''Attempt''"
| "book_label Book_Lease = ''Lease''"
| "book_label Book_WorkItem = ''WorkItem''"
| "book_label Book_Receipt = ''Receipt''"
| "book_label (Book_Effect _) = ''Effect''"
| "book_label Book_Event = ''Event''"
| "book_label Book_Evidence = ''Evidence''"
| "book_label Book_Run = ''Run''"
| "book_label (Book_CancelRequest _) = ''CancelRequest''"
| "book_label (Book_CancelDelivery _) = ''CancelDelivery''"

definition tagged :: "('g, 'x) kernel_env \<Rightarrow> 'g \<Rightarrow> string \<Rightarrow> node_id \<Rightarrow> bool" where
  "tagged K g l n \<longleftrightarrow> node_label K g n = Some l \<and> node_properties K g n \<noteq> None"

section \<open>How a stage evolves\<close>

definition evolves ::
    "('g, 'x) kernel_env \<Rightarrow> (node_id \<Rightarrow> 'x props) \<Rightarrow> 'g stage \<Rightarrow> 'g stage \<Rightarrow> bool" where
  "evolves K D s s' \<longleftrightarrow>
     (\<forall>n p. node_properties K (sg_graph s) n = Some p \<longrightarrow>
        node_properties K (sg_graph s') n = Some (p ++ D n) \<and>
        node_label K (sg_graph s') n = node_label K (sg_graph s) n) \<and>
     (\<exists>new. sg_books s' = sg_books s @ new \<and>
        (\<forall>(kind, key, n) \<in> set new. node_properties K (sg_graph s) n = None \<and>
           tagged K (sg_graph s') (book_label kind) n))"

abbreviation no_diff :: "node_id \<Rightarrow> 'x props" where "no_diff \<equiv> \<lambda>n. Map.empty"

lemma evolves_refl: "evolves K no_diff s s"
  by (auto simp: evolves_def)

lemma evolves_trans:
  assumes "evolves K D s t" and "evolves K E t u"
  shows "evolves K (\<lambda>n. D n ++ E n) s u"
proof -
  obtain b where b: "sg_books t = sg_books s @ b"
    "\<forall>(kind, key, n) \<in> set b. node_properties K (sg_graph s) n = None \<and> tagged K (sg_graph t) (book_label kind) n"
    using assms(1) by (auto simp: evolves_def)
  obtain c where c: "sg_books u = sg_books t @ c"
    "\<forall>(kind, key, n) \<in> set c. node_properties K (sg_graph t) n = None \<and> tagged K (sg_graph u) (book_label kind) n"
    using assms(2) by (auto simp: evolves_def)
  have kept: "tagged K (sg_graph u) l n" if "tagged K (sg_graph t) l n" for l n
    using assms(2) that by (fastforce simp: evolves_def tagged_def)
  have fresh: "node_properties K (sg_graph s) n = None" if "node_properties K (sg_graph t) n = None" for n
    using assms(1) that by (cases "node_properties K (sg_graph s) n") (auto simp: evolves_def)
  have "\<forall>(kind, key, n) \<in> set (b @ c). node_properties K (sg_graph s) n = None \<and> tagged K (sg_graph u) (book_label kind) n"
    using b(2) c(2) kept fresh by fastforce
  moreover have "sg_books u = sg_books s @ b @ c" using b(1) c(1) by simp
  moreover have "node_properties K (sg_graph u) n = Some (p ++ (D n ++ E n)) \<and>
      node_label K (sg_graph u) n = node_label K (sg_graph s) n"
    if "node_properties K (sg_graph s) n = Some p" for n p
    using assms that by (auto simp: evolves_def)
  ultimately show ?thesis unfolding evolves_def by blast
qed

lemma evolves_cong: "evolves K D s s' \<Longrightarrow> (\<And>n. D n = E n) \<Longrightarrow> evolves K E s s'"
  by (simp add: evolves_def)

lemma create_row_evolves:
  assumes "kernel_env_ok K" and "create_row K (book_label kind) pairs kind key s = Inr s'"
  shows "evolves K no_diff s s' \<and> sg_cursor s' = sg_cursor s \<and> sg_seq s' = sg_seq s \<and> sg_cursors s' = sg_cursors s \<and>
    (\<exists>n. sg_books s' = sg_books s @ [(kind, key, n)] \<and> node_properties K (sg_graph s') n = Some (map_of pairs))"
proof -
  obtain n g where g: "create_node K (sg_graph s) (book_label kind) (map_of pairs) = Inr (n, g)"
    and s': "s' = s\<lparr>sg_graph := g, sg_books := sg_books s @ [(kind, key, n)]\<rparr>"
    using assms(2) by (auto simp: create_row_def split: sum.splits)
  note facts = create_node_ok [OF assms(1) g]
  have "node_properties K (sg_graph s) m = Some p \<Longrightarrow> m \<noteq> n" for m p using facts(1) by auto
  with facts show ?thesis by (auto simp: evolves_def tagged_def s')
qed

lemma update_row_evolves:
  assumes "kernel_env_ok K" and "update_row K n pairs s = Inr s'"
  shows "evolves K (at_node n pairs) s s' \<and> sg_cursor s' = sg_cursor s \<and> sg_seq s' = sg_seq s \<and>
    sg_cursors s' = sg_cursors s \<and> sg_books s' = sg_books s \<and> node_properties K (sg_graph s) n \<noteq> None"
proof -
  obtain g where g: "update_node K (sg_graph s) n (map_of pairs) = Inr g" and s': "s' = s\<lparr>sg_graph := g\<rparr>"
    using assms(2) by (auto simp: update_row_def split: sum.splits)
  obtain p where "node_properties K (sg_graph s) n = Some p"
    "node_properties K g = (node_properties K (sg_graph s))(n \<mapsto> p ++ map_of pairs)"
    "node_label K g = node_label K (sg_graph s)"
    using update_node_ok [OF assms(1) g] by blast
  then show ?thesis by (auto simp: evolves_def at_node_def s')
qed

text \<open>What a plan stages: its difference, its book entries, and nothing of the allocators.\<close>

definition staged ::
    "('g, 'x) kernel_env \<Rightarrow> (node_id \<Rightarrow> 'x props) \<Rightarrow> (book_kind \<times> string) list \<Rightarrow> 'g stage \<Rightarrow> 'g stage \<Rightarrow> bool" where
  "staged K D entries s s' \<longleftrightarrow>
     evolves K D s s' \<and> sg_cursor s' = sg_cursor s \<and> sg_seq s' = sg_seq s \<and> sg_cursors s' = sg_cursors s \<and>
     map (\<lambda>(k, key, _). (k, key)) (sg_books s') = map (\<lambda>(k, key, _). (k, key)) (sg_books s) @ entries"

lemma staged_trans:
  assumes "staged K D es s t" and "staged K E fs t u"
  shows "staged K (\<lambda>n. D n ++ E n) (es @ fs) s u"
  using assms evolves_trans [of K D s t E u] by (auto simp: staged_def)

lemma staged_refl: "staged K no_diff [] s s"
  by (simp add: staged_def evolves_refl)

lemma staged_create:
  assumes "kernel_env_ok K" and "create_row K (book_label kind) pairs kind key s = Inr s'"
  shows "staged K no_diff [(kind, key)] s s'"
  using create_row_evolves [OF assms] by (auto simp: staged_def)

lemma staged_update:
  assumes "kernel_env_ok K" and "update_row K n pairs s = Inr s'"
  shows "staged K (at_node n pairs) [] s s'"
  using update_row_evolves [OF assms] by (simp add: staged_def)

lemma staged_cong: "staged K D es s s' \<Longrightarrow> (\<And>n. D n = E n) \<Longrightarrow> es = fs \<Longrightarrow> staged K E fs s s'"
  using evolves_cong by (fastforce simp: staged_def)

lemma supersede_attempt_staged:
  assumes "kernel_env_ok K" and "supersede_attempt K prior s = Inr s'"
  shows "staged K (supersede_diff prior) [] s s'"
proof (cases prior)
  case None
  with assms(2) show ?thesis by (auto simp: supersede_attempt_def supersede_diff_def intro: staged_cong [OF staged_refl])
next
  case (Some n)
  with assms(2) have "update_row K n [(''status'', VString ''superseded'')] s = Inr s'"
    by (simp add: supersede_attempt_def)
  from staged_update [OF assms(1) this] show ?thesis
    by (rule staged_cong) (simp_all add: Some supersede_diff_def)
qed

lemma upsert_lease_staged:
  assumes "kernel_env_ok K" and "upsert_lease K d s = Inr s'"
  shows "staged K (lease_diff d) (if dp_existing_lease d = None then [(Book_Lease, dp_unit_id d)] else []) s s'"
proof (cases "dp_existing_lease d")
  case None
  with assms(2) have "\<exists>pairs. create_row K (book_label Book_Lease) pairs Book_Lease (dp_unit_id d) s = Inr s'"
    by (auto simp: upsert_lease_def)
  with staged_create [OF assms(1)] have "staged K no_diff [(Book_Lease, dp_unit_id d)] s s'" by blast
  then show ?thesis by (rule staged_cong) (simp_all add: None lease_diff_def)
next
  case (Some lv)
  obtain n v where [simp]: "lv = (n, v)" by (cases lv)
  have "update_row K n [(''attempt_epoch'', VUint (dp_new_epoch d)), (''holder_id'', VString (dp_holder_id d)),
      (''status'', VString ''active''), (''version'', VUint (v + 1))] s = Inr s'"
    using assms(2) Some
    by (auto simp: upsert_lease_def and_then_Inr ok_or_Inr u64_checked_add_def split: if_splits)
  from staged_update [OF assms(1) this] show ?thesis
    by (rule staged_cong) (simp_all add: Some lease_diff_def)
qed

lemma park_row_staged:
  assumes "kernel_env_ok K" and "park_row K park s = Inr s'"
  shows "staged K (park_diff park) [] s s'"
proof (cases park)
  case None
  with assms(2) show ?thesis by (auto simp: park_row_def park_diff_def intro: staged_cong [OF staged_refl])
next
  case (Some p)
  with assms(2) have "update_row K (epp_node p)
      [(''version'', VUint (epp_version p)), (''state'', VString ''reconciling''), (''record'', VText (epp_record p))] s
      = Inr s'" by (simp add: park_row_def)
  from staged_update [OF assms(1) this] show ?thesis by (rule staged_cong) (simp_all add: Some park_diff_def)
qed

lemma apply_dispatch_staged:
  assumes ok: "kernel_env_ok K" and run: "apply_dispatch K d s = Inr s'"
  shows "staged K (plan_diff (Plan_Dispatch d)) (plan_books (Plan_Dispatch d)) s s'"
proof -
  let ?key = "attempt_key (dp_unit_id d) (dp_new_epoch d)"
  obtain s1 s2 s3 where
    1: "update_row K (dp_unit_node d)
         [(''version'', VUint (dp_new_version d)), (''current_attempt_epoch'', VUint (dp_new_epoch d)),
          (''status'', VString ''dispatched'')] s = Inr s1" and
    2: "supersede_attempt K (dp_prior_attempt d) s1 = Inr s2" and
    3: "\<exists>pairs. create_row K (book_label (Book_Attempt (dp_attempt_id d))) pairs (Book_Attempt (dp_attempt_id d)) ?key s2 = Inr s3" and
    4: "upsert_lease K d s3 = Inr s'"
    using run by (auto simp: apply_dispatch_def Let_def and_then_Inr)
  have "staged K no_diff [(Book_Attempt (dp_attempt_id d), ?key)] s2 s3" using 3 staged_create [OF ok] by blast
  from staged_trans [OF staged_update [OF ok 1] staged_trans [OF supersede_attempt_staged [OF ok 2]
      staged_trans [OF this upsert_lease_staged [OF ok 4]]]]
  show ?thesis by (rule staged_cong) simp_all
qed

lemma apply_record_delivery_staged:
  assumes ok: "kernel_env_ok K" and run: "apply_record_delivery K p s = Inr s'"
  shows "staged K (plan_diff (Plan_CancelRecordDelivery p)) (plan_books (Plan_CancelRecordDelivery p)) s s'"
proof -
  obtain s1 s2 where
    1: "\<exists>pairs. create_row K (book_label (Book_CancelDelivery (cdp_request_id p))) pairs
         (Book_CancelDelivery (cdp_request_id p)) (cdp_delivery_key p) s = Inr s1" and
    2: "update_row K (cdp_request_node p)
         [(''version'', VUint (cdp_request_version_after p)), (''status'', VString (cdp_request_status_after p)),
          (''record'', VText (cdp_request_record_after p))] s1 = Inr s2" and
    3: "park_row K (cdp_park_effect p) s2 = Inr s'"
    using run by (auto simp: apply_record_delivery_def and_then_Inr)
  have "staged K no_diff [(Book_CancelDelivery (cdp_request_id p), cdp_delivery_key p)] s s1"
    using 1 staged_create [OF ok] by blast
  from staged_trans [OF this staged_trans [OF staged_update [OF ok 2] park_row_staged [OF ok 3]]]
  show ?thesis by (rule staged_cong) simp_all
qed

lemma apply_plan_staged:
  assumes ok: "kernel_env_ok K" and run: "apply_plan K plan s = Inr s'"
  shows "staged K (plan_diff plan) (plan_books plan) s s'"
proof (cases plan)
  case (Plan_CreateRun a b)
  with staged_create [OF ok, where kind = Book_Run] run show ?thesis by (fastforce intro: staged_cong)
next
  case (Plan_CreateWorkItem a b c)
  with staged_create [OF ok, where kind = Book_WorkItem] run show ?thesis by (fastforce intro: staged_cong)
next
  case (Plan_CreateUnit a b c)
  with staged_create [OF ok, where kind = Book_Unit] run show ?thesis by (fastforce intro: staged_cong)
next
  case (Plan_CreateEffect a b c d e)
  with staged_create [OF ok, where kind = "Book_Effect b"] run show ?thesis by (fastforce intro: staged_cong)
next
  case (Plan_CreateCancelRequest p)
  with staged_create [OF ok, where kind = "Book_CancelRequest (crp_root_kind p @ ''/'' @ crp_root_id p)"] run
  show ?thesis by (fastforce simp: apply_create_request_def intro: staged_cong)
next
  case (Plan_CloseRun a b c)
  with staged_update [OF ok] run show ?thesis by (fastforce intro: staged_cong)
next
  case (Plan_BumpUnit a b c)
  with staged_update [OF ok] run show ?thesis by (fastforce intro: staged_cong)
next
  case (Plan_UpdateEffect a b c d e)
  with staged_update [OF ok] run show ?thesis by (fastforce intro: staged_cong)
next
  case (Plan_Dispatch d)
  with apply_dispatch_staged [OF ok] run show ?thesis by simp
next
  case (Plan_CancelRecordDelivery p)
  with apply_record_delivery_staged [OF ok] run show ?thesis by simp
next
  case Plan_Nothing
  with run show ?thesis by (auto intro: staged_cong [OF staged_refl])
qed

section \<open>Events and the receipt\<close>

lemma optional_update_ok:
  assumes "kernel_env_ok K" and "optional_update K n key x g = Inr g'" and "node_properties K g n = Some p"
  shows "node_properties K g' = (node_properties K g)(n \<mapsto> p ++ map_of (case x of None \<Rightarrow> [] | Some v \<Rightarrow> [(key, VString v)]))"
    and "node_label K g' = node_label K g"
  using assms update_node_ok [OF assms(1)]
  by (cases x; fastforce simp: optional_update_def)+

text \<open>An event's row has the properties of its draft, and at most the two identifiers of its cause.\<close>

definition event_row ::
    "('g, 'x) kernel_env \<Rightarrow> kernel_command \<Rightarrow> u64 \<Rightarrow> event_draft \<Rightarrow> u64 \<Rightarrow> u64 \<Rightarrow> 'x props \<Rightarrow> bool" where
  "event_row K cmd clock_ms d ordinal cursor p \<longleftrightarrow>
     (\<exists>eid. \<forall>k. k \<noteq> ''causation_id'' \<longrightarrow> k \<noteq> ''correlation_id'' \<longrightarrow>
        p k = map_of (event_properties K cmd clock_ms d ordinal cursor eid) k)"

lemma write_event_ok:
  assumes ok: "kernel_env_ok K" and w: "write_event K cmd clock_ms d ordinal cursor eid g = Inr (n, g')"
  shows "node_properties K g n = None"
    and "\<exists>p. node_properties K g' = (node_properties K g)(n \<mapsto> p) \<and> event_row K cmd clock_ms d ordinal cursor p"
    and "node_label K g' = (node_label K g)(n \<mapsto> ''Event'')"
proof -
  define p0 where "p0 = map_of (event_properties K cmd clock_ms d ordinal cursor eid)"
  obtain g1 g2 where
    1: "create_node K g ''Event'' p0 = Inr (n, g1)" and
    2: "optional_update K n ''causation_id'' (causation_id cmd) g1 = Inr g2" and
    3: "optional_update K n ''correlation_id'' (correlation_id cmd) g2 = Inr g'"
    using w by (auto simp: write_event_def and_then_Inr p0_def split: prod.splits)
  note c = create_node_ok [OF ok 1]
  have p1: "node_properties K g1 n = Some p0" using c(2) by simp
  note u = optional_update_ok [OF ok 2 p1]
  define p2 where "p2 = p0 ++ map_of (case causation_id cmd of None \<Rightarrow> [] | Some v \<Rightarrow> [(''causation_id'', VString v)])"
  have "node_properties K g2 n = Some p2" using u(1) by (simp add: p2_def)
  note v = optional_update_ok [OF ok 3 this]
  define p3 where "p3 = p2 ++ map_of (case correlation_id cmd of None \<Rightarrow> [] | Some v \<Rightarrow> [(''correlation_id'', VString v)])"
  have "event_row K cmd clock_ms d ordinal cursor p3"
    unfolding event_row_def p3_def p2_def p0_def by (intro exI [of _ eid]) (auto simp: map_add_def split: option.splits)
  moreover have "node_properties K g' = (node_properties K g)(n \<mapsto> p3)" using c(2) u(1) v(1) by (simp add: p3_def)
  ultimately show "\<exists>p. node_properties K g' = (node_properties K g)(n \<mapsto> p) \<and> event_row K cmd clock_ms d ordinal cursor p"
    by blast
  show "node_properties K g n = None" by (rule c(1))
  show "node_label K g' = (node_label K g)(n \<mapsto> ''Event'')" using c(3) u(2) v(2) by simp
qed

lemma append_events_allocates:
  "append_events K cmd clock_ms epoch ordinal ds s = (s', r) \<Longrightarrow>
     sg_cursor s \<le> sg_cursor s' \<and> sg_seq s \<le> sg_seq s' \<and> (sg_cursor s < U64_MODULUS \<longrightarrow> sg_cursor s' < U64_MODULUS)"
proof (induction ds arbitrary: ordinal s)
  case (Cons d ds)
  then show ?case
    by (fastforce simp: allocate_cursor_def mint_id_def u64_checked_add_def Let_def
        split: option.splits if_splits sum.splits prod.splits)
qed simp

lemma append_events_staged:
  assumes ok: "kernel_env_ok K" and "append_events K cmd clock_ms epoch ordinal ds s = (s', Inr u)"
  shows "evolves K no_diff s s' \<and> sg_cursor s' = sg_cursor s + length ds \<and>
    (ds \<noteq> [] \<longrightarrow> sg_cursor s' < U64_MODULUS) \<and>
    sg_cursors s' = sg_cursors s @ [sg_cursor s..<sg_cursor s'] \<and>
    map (\<lambda>(k, key, _). (k, key)) (sg_books s') =
      map (\<lambda>(k, key, _). (k, key)) (sg_books s) @ map (\<lambda>c. (Book_Event, show_nat c)) [sg_cursor s..<sg_cursor s'] \<and>
    (\<forall>(kind, key, n) \<in> set (drop (length (sg_books s)) (sg_books s')). \<exists>i < length ds. \<exists>p.
       key = show_nat (sg_cursor s + i) \<and> node_properties K (sg_graph s') n = Some p \<and>
       event_row K cmd clock_ms (ds ! i) (ordinal + i) (sg_cursor s + i) p)"
  using assms(2)
proof (induction ds arbitrary: ordinal s)
  case Nil
  then show ?case by (simp add: evolves_refl)
next
  case (Cons d ds)
  have lim: "sg_cursor s + 1 < U64_MODULUS"
    using Cons.prems by (auto simp: allocate_cursor_def u64_checked_add_def split: option.splits if_splits)
  obtain eid seq where m: "mint_id clock_ms epoch (sg_seq s) = Inr (eid, seq)"
    using Cons.prems lim by (auto simp: allocate_cursor_def u64_checked_add_def Let_def split: sum.splits)
  obtain n g where w: "write_event K cmd clock_ms d ordinal (sg_cursor s) eid (sg_graph s) = Inr (n, g)"
    using Cons.prems lim m by (auto simp: allocate_cursor_def u64_checked_add_def Let_def split: sum.splits)
  define t where "t = s\<lparr>sg_cursor := sg_cursor s + 1, sg_seq := seq, sg_graph := g,
    sg_books := sg_books s @ [(Book_Event, show_nat (sg_cursor s), n)], sg_cursors := sg_cursors s @ [sg_cursor s]\<rparr>"
  have rest: "append_events K cmd clock_ms epoch (ordinal + 1) ds t = (s', Inr u)"
    using Cons.prems lim m w by (simp add: allocate_cursor_def u64_checked_add_def Let_def t_def)
  note IH = Cons.IH [OF rest]
  obtain p where p: "node_properties K g = (node_properties K (sg_graph s))(n \<mapsto> p)"
    "event_row K cmd clock_ms d ordinal (sg_cursor s) p" using write_event_ok(2) [OF ok w] by blast
  have fresh: "node_properties K (sg_graph s) n = None" by (rule write_event_ok(1) [OF ok w])
  have lab: "node_label K g = (node_label K (sg_graph s))(n \<mapsto> ''Event'')" by (rule write_event_ok(3) [OF ok w])
  have st: "evolves K no_diff s t"
    using p(1) lab fresh by (auto simp: evolves_def t_def tagged_def)
  have ev: "evolves K no_diff s s'" using evolves_trans [OF st, of no_diff s'] IH by simp
  have row: "node_properties K (sg_graph s') n = Some p" using IH p(1) by (auto simp: evolves_def t_def)
  have cur: "sg_cursor s' = sg_cursor s + length (d # ds)" using IH by (simp add: t_def)
  have upto: "[sg_cursor s..<sg_cursor s'] = sg_cursor s # [sg_cursor t..<sg_cursor s']"
    using cur upt_conv_Cons [of "sg_cursor s" "sg_cursor s'"] by (simp add: t_def del: upt_Suc)
  obtain new where new: "sg_books s' = sg_books t @ new" using IH by (auto simp: evolves_def)
  have d1: "drop (length (sg_books s)) (sg_books s') = (Book_Event, show_nat (sg_cursor s), n) # new"
    "drop (length (sg_books t)) (sg_books s') = new" using new by (simp_all add: t_def)
  have rows: "\<exists>i < length (d # ds). \<exists>p. key = show_nat (sg_cursor s + i) \<and> node_properties K (sg_graph s') n' = Some p \<and>
       event_row K cmd clock_ms ((d # ds) ! i) (ordinal + i) (sg_cursor s + i) p"
    if "(kind, key, n') \<in> set (drop (length (sg_books s)) (sg_books s'))" for kind key n'
  proof (cases "(kind, key, n') \<in> set new")
    case True
    with IH d1(2) obtain i q where i: "i < length ds" "key = show_nat (sg_cursor t + i)"
      "node_properties K (sg_graph s') n' = Some q" "event_row K cmd clock_ms (ds ! i) (ordinal + 1 + i) (sg_cursor t + i) q"
      by fastforce
    then show ?thesis by (intro exI [of _ "Suc i"] conjI exI [of _ q]) (simp_all add: t_def)
  next
    case False
    then have "key = show_nat (sg_cursor s)" "n' = n" using that d1(1) by auto
    then show ?thesis using row p(2) by (intro exI [of _ 0]) auto
  qed
  have "sg_cursor s' < U64_MODULUS"
    using IH lim by (cases ds) (simp_all add: t_def)
  then show ?case using ev cur IH upto rows by (auto simp: t_def)
qed

abbreviation entry_keys :: "(book_kind \<times> string \<times> node_id) list \<Rightarrow> (book_kind \<times> string) list" where
  "entry_keys es \<equiv> map (\<lambda>(k, key, _). (k, key)) es"

lemma stage_accepted_allocates:
  assumes "kernel_env_ok K" and "stage_accepted K cmd clock_ms epoch a s = (s', r)"
  shows "sg_cursor s \<le> sg_cursor s' \<and> sg_seq s \<le> sg_seq s' \<and> (sg_cursor s < U64_MODULUS \<longrightarrow> sg_cursor s' < U64_MODULUS)"
proof (cases "apply_plan K (acc_plan a) s")
  case (Inl e)
  with assms(2) show ?thesis by (simp add: stage_accepted_def)
next
  case (Inr s1)
  then have "sg_cursor s1 = sg_cursor s \<and> sg_seq s1 = sg_seq s"
    using apply_plan_staged [OF assms(1)] by (auto simp: staged_def)
  moreover obtain s2 q where "append_events K cmd clock_ms epoch 0 (acc_events a) s1 = (s2, q)" by (rule prod.exhaust)
  moreover from this have "sg_cursor s2 = sg_cursor s' \<and> sg_seq s2 = sg_seq s'"
    using assms(2) Inr by (auto simp: stage_accepted_def split: sum.splits prod.splits)
  ultimately show ?thesis using append_events_allocates by metis
qed

lemma stage_accepted_ok:
  assumes ok: "kernel_env_ok K" and run: "stage_accepted K cmd clock_ms epoch a s = (s', Inr u)"
    and none: "sg_cursors s = []"
  shows "evolves K (plan_diff (acc_plan a)) s s'"
    and "sg_cursor s' = sg_cursor s + length (acc_events a)"
    and "entry_keys (sg_books s') = entry_keys (sg_books s) @ plan_books (acc_plan a)
      @ map (\<lambda>c. (Book_Event, show_nat c)) [sg_cursor s..<sg_cursor s'] @ [(Book_Receipt, receipt_key cmd)]"
    and "\<exists>n. (Book_Receipt, receipt_key cmd, n) \<in> set (sg_books s') \<and>
      node_properties K (sg_graph s') n = Some (receipt_properties K cmd (method_wire (cmd_method cmd)) ''completed''
        (acc_result a) (cursor_range [sg_cursor s..<sg_cursor s']))"
    and "\<forall>(kind, key, n) \<in> set (sg_books s'). kind = Book_Event \<longrightarrow> (kind, key, n) \<notin> set (sg_books s) \<longrightarrow>
      (\<exists>i < length (acc_events a). \<exists>p. key = show_nat (sg_cursor s + i) \<and> node_properties K (sg_graph s') n = Some p \<and>
       event_row K cmd clock_ms (acc_events a ! i) i (sg_cursor s + i) p)"
proof -
  obtain s1 where 1: "apply_plan K (acc_plan a) s = Inr s1"
    using run by (auto simp: stage_accepted_def split: sum.splits)
  obtain s2 v where 2: "append_events K cmd clock_ms epoch 0 (acc_events a) s1 = (s2, Inr v)"
    using run 1 by (auto simp: stage_accepted_def split: sum.splits prod.splits)
  define q where "q = receipt_properties K cmd (method_wire (cmd_method cmd)) ''completed'' (acc_result a)
    (cursor_range (sg_cursors s2))"
  obtain n g where 3: "create_node K (sg_graph s2) ''Receipt'' q = Inr (n, g)"
    and s': "s' = s2\<lparr>sg_graph := g, sg_books := sg_books s2 @ [(Book_Receipt, receipt_key cmd, n)]\<rparr>"
    using run 1 2 by (auto simp: stage_accepted_def q_def split: sum.splits)
  note plan = apply_plan_staged [OF ok 1]
  note events = append_events_staged [OF ok 2]
  note c = create_node_ok [OF ok 3]
  have ev: "evolves K no_diff s2 s'" using c by (auto simp: evolves_def tagged_def s')
  have "evolves K (plan_diff (acc_plan a)) s s1" using plan by (simp add: staged_def)
  moreover have "evolves K no_diff s1 s2" using events by blast
  ultimately show "evolves K (plan_diff (acc_plan a)) s s'"
    using evolves_trans [OF _ evolves_trans [OF _ ev], of "plan_diff (acc_plan a)" s s1 no_diff] by simp
  show "sg_cursor s' = sg_cursor s + length (acc_events a)" using plan events by (simp add: staged_def s')
  show "entry_keys (sg_books s') = entry_keys (sg_books s) @ plan_books (acc_plan a)
      @ map (\<lambda>c. (Book_Event, show_nat c)) [sg_cursor s..<sg_cursor s'] @ [(Book_Receipt, receipt_key cmd)]"
    using plan events by (simp add: staged_def s')
  have "q = receipt_properties K cmd (method_wire (cmd_method cmd)) ''completed''
        (acc_result a) (cursor_range [sg_cursor s..<sg_cursor s'])"
    using plan events none by (simp add: staged_def s' q_def)
  then show "\<exists>n. (Book_Receipt, receipt_key cmd, n) \<in> set (sg_books s') \<and>
      node_properties K (sg_graph s') n = Some (receipt_properties K cmd (method_wire (cmd_method cmd)) ''completed''
        (acc_result a) (cursor_range [sg_cursor s..<sg_cursor s']))"
    using c(2) by (intro exI [of _ n]) (simp add: s')
  have no_events: "(Book_Event, key) \<notin> set (plan_books (acc_plan a))" for key
    by (cases "acc_plan a") auto
  obtain new where new: "sg_books s1 = sg_books s @ new" using plan by (auto simp: staged_def evolves_def)
  have new_kinds: "entry_keys new = plan_books (acc_plan a)" using plan new by (simp add: staged_def)
  obtain new2 where new2: "sg_books s2 = sg_books s1 @ new2" using events by (auto simp: evolves_def)
  have "\<exists>i < length (acc_events a). \<exists>p. key = show_nat (sg_cursor s + i) \<and> node_properties K (sg_graph s') m = Some p \<and>
       event_row K cmd clock_ms (acc_events a ! i) i (sg_cursor s + i) p"
    if m: "(Book_Event, key, m) \<in> set (sg_books s')" "(Book_Event, key, m) \<notin> set (sg_books s)" for key m
  proof -
    have "(Book_Event, key, m) \<notin> set new"
    proof
      assume "(Book_Event, key, m) \<in> set new"
      then have "(Book_Event, key) \<in> set (entry_keys new)" by force
      then show False using new_kinds no_events by simp
    qed
    then have "(Book_Event, key, m) \<in> set (drop (length (sg_books s1)) (sg_books s2))"
      using m new new2 by (auto simp: s')
    then obtain i p where "i < length (acc_events a)" "key = show_nat (sg_cursor s1 + i)"
      "node_properties K (sg_graph s2) m = Some p" "event_row K cmd clock_ms (acc_events a ! i) i (sg_cursor s1 + i) p"
      using events by fastforce
    moreover have "node_properties K (sg_graph s') m = Some p" using calculation(3) c by (auto simp: s')
    ultimately show ?thesis using plan by (auto simp: staged_def)
  qed
  then show "\<forall>(kind, key, n) \<in> set (sg_books s'). kind = Book_Event \<longrightarrow> (kind, key, n) \<notin> set (sg_books s) \<longrightarrow>
      (\<exists>i < length (acc_events a). \<exists>p. key = show_nat (sg_cursor s + i) \<and> node_properties K (sg_graph s') n = Some p \<and>
       event_row K cmd clock_ms (acc_events a ! i) i (sg_cursor s + i) p)"
    by blast
qed

section \<open>The outcomes of a submission\<close>

text \<open>Nothing but the allocators, the latch and the lock changes.\<close>

definition kept :: "'g funnel \<Rightarrow> 'g funnel \<Rightarrow> bool" where
  "kept f f' \<longleftrightarrow>
     (\<exists>c. fn_store f' = (fn_store f)\<lparr>st_next_cursor := c\<rparr> \<and> st_next_cursor (fn_store f) \<le> c \<and>
        (st_next_cursor (fn_store f) < U64_MODULUS \<longrightarrow> c < U64_MODULUS)) \<and>
     fn_mint_seq f \<le> fn_mint_seq f' \<and> fn_clock_ms f \<le> fn_clock_ms f'"

text \<open>A rejection is kept: one receipt is added, under a key that had none.\<close>

definition rejects ::
    "('g, 'x) kernel_env \<Rightarrow> kernel_command \<Rightarrow> string \<Rightarrow> error_kind \<Rightarrow> string \<Rightarrow> 'g funnel \<Rightarrow> 'g funnel \<Rightarrow> bool" where
  "rejects K cmd command_type kind detail f f' \<longleftrightarrow>
     receipt_node (fn_store f) (receipt_key cmd) = None \<and>
     (\<exists>n g seq. fn_mint_seq f \<le> seq \<and>
        create_node K (st_graph (fn_store f)) ''Receipt''
          (receipt_properties K cmd command_type ''rejected''
             (json_object [(''error_kind'', JString (error_kind_wire kind)), (''detail'', JString detail)]) None) = Inr (n, g) \<and>
        f' = f\<lparr>fn_mint_seq := seq, fn_store := (fn_store f)\<lparr>st_graph := g,
               st_books := book_insert Book_Receipt (receipt_key cmd) n (st_books (fn_store f))\<rparr>\<rparr>)"

text \<open>A command completes: its validation is accepted and its stage is published.\<close>

definition completes ::
    "('g, 'x) kernel_env \<Rightarrow> kernel_command \<Rightarrow> 'x accepted \<Rightarrow> 'g stage \<Rightarrow> 'g funnel \<Rightarrow> 'g funnel \<Rightarrow> bool" where
  "completes K cmd a s f f' \<longleftrightarrow>
     receipt_node (fn_store f) (receipt_key cmd) = None \<and>
     address_is_valid cmd (st_project_id (fn_store f)) \<and>
     (\<exists>seq. validate K f cmd (pre_read_of K (fn_store f) cmd) = Inr (a, seq) \<and>
        stage_accepted K cmd (fn_clock_ms f) (st_authority_epoch (fn_store f)) a (stage_of (f\<lparr>fn_mint_seq := seq\<rparr>)) =
          (s, Inr ()) \<and>
        f' = publish_stage s (f\<lparr>fn_mint_seq := seq\<rparr>))"

lemma mint_id_Inr: "mint_id ms e seq = Inr (u, seq') \<Longrightarrow> seq' = seq + 1 \<and> seq' < U64_MODULUS \<and> u = uuid_mint ms (push_bit 64 e OR seq')"
  by (auto simp: mint_id_def u64_checked_add_def split: if_splits)

lemma accepting_Inr [simp]:
  "accepting plan events result seq = Inr (a, seq') \<longleftrightarrow>
     a = \<lparr>acc_plan = plan, acc_events = events, acc_result = json_object result\<rparr> \<and> seq' = seq"
  "accepting plan events result seq = Inl e \<longleftrightarrow> False"
  by (auto simp: accepting_def)

lemmas method_defs =
  validate_run_open_def validate_run_close_def validate_work_item_create_def validate_unit_admit_def
  validate_unit_dispatch_def validate_progress_report_def validate_stamp_bump_def validate_token_reissue_def
  validate_prepare_def validate_effect_dispatch_def validate_record_dispatched_def validate_settle_def
  validate_park_def validate_cancel_commit_def validate_record_delivery_def

lemma validate_seq:
  assumes "validate K f cmd pre = Inr (a, seq)"
  shows "fn_mint_seq f \<le> seq"
  using assms
  by (cases "cmd_method cmd")
    (auto simp: validate_def method_defs Let_def and_then_Inr map_err_Inr update_accepted_def
      dest!: mint_id_Inr split: if_splits option.splits sum.splits prod.splits)

lemma kept_if:
  "fn_store f' = fn_store f \<Longrightarrow> fn_mint_seq f \<le> fn_mint_seq f' \<Longrightarrow> fn_clock_ms f \<le> fn_clock_ms f' \<Longrightarrow> kept f f'"
  by (auto simp: kept_def intro: exI [of _ "st_next_cursor (fn_store f)"])

lemma persist_rejection_outcome:
  assumes "persist_rejection K commit (f\<lparr>fn_mint_seq := seq\<rparr>) cmd ct kind detail e1 e2 = (r, f')"
    and "receipt_node (fn_store f) (receipt_key cmd) = None" and "fn_mint_seq f \<le> seq"
  shows "kept f f' \<and> (\<exists>k d. r = Rejected k d False) \<or> rejects K cmd ct kind detail f f' \<and> r = Rejected kind detail False"
proof (cases "create_node K (st_graph (fn_store f)) ''Receipt''
    (receipt_properties K cmd ct ''rejected''
       (json_object [(''error_kind'', JString (error_kind_wire kind)), (''detail'', JString detail)]) None)")
  case (Inl e)
  with assms have "f' = f\<lparr>fn_mint_seq := seq\<rparr>" "\<exists>k d. r = Rejected k d False"
    by (auto simp: persist_rejection_def Let_def)
  with assms(3) show ?thesis by (simp add: kept_if)
next
  case (Inr ng)
  obtain n g where [simp]: "ng = (n, g)" by (cases ng)
  show ?thesis
  proof (cases commit)
    case None
    have "r = Rejected kind detail False"
      "f' = f\<lparr>fn_mint_seq := seq, fn_store := (fn_store f)\<lparr>st_graph := g,
         st_books := book_insert Book_Receipt (receipt_key cmd) n (st_books (fn_store f))\<rparr>\<rparr>"
      using assms(1) Inr None by (auto simp: persist_rejection_def Let_def)
    moreover have "rejects K cmd ct kind detail f f'"
      unfolding rejects_def using Inr assms(2,3) calculation(2)
      by (intro conjI exI [of _ n] exI [of _ g] exI [of _ seq]) simp_all
    ultimately show ?thesis by blast
  next
    case (Some e)
    have "kept f (f\<lparr>fn_mint_seq := seq, fn_gate := d\<rparr>)" "kept f (f\<lparr>fn_mint_seq := seq\<rparr>)" for d
      using assms(3) by (simp_all add: kept_if)
    moreover have "(\<exists>k d. r = Rejected k d False) \<and> (f' = f\<lparr>fn_mint_seq := seq\<rparr> \<or> (\<exists>d. f' = f\<lparr>fn_mint_seq := seq, fn_gate := d\<rparr>))"
      using assms(1) Inr Some by (auto simp: persist_rejection_def Let_def split: store_error.splits)
    ultimately show ?thesis by blast
  qed
qed

lemma run_accepted_outcome:
  assumes ok: "kernel_env_ok K" and run: "run_accepted K commit (f\<lparr>fn_mint_seq := seq\<rparr>) cmd a = (r, f')"
    and none: "receipt_node (fn_store f) (receipt_key cmd) = None" and seq: "fn_mint_seq f \<le> seq"
  shows "kept f f' \<and> (\<forall>x. r \<noteq> Completed x) \<or>
    (\<exists>kind detail. rejects K cmd (method_wire (cmd_method cmd)) kind detail f f' \<and> r = Rejected kind detail False) \<or>
    (\<exists>s. stage_accepted K cmd (fn_clock_ms f) (st_authority_epoch (fn_store f)) a (stage_of (f\<lparr>fn_mint_seq := seq\<rparr>)) = (s, Inr ())
       \<and> f' = publish_stage s (f\<lparr>fn_mint_seq := seq\<rparr>) \<and> r = Completed (acc_result a))"
proof (cases "over_limit K a")
  case True
  with run persist_rejection_outcome [OF _ none seq] show ?thesis unfolding run_accepted_def by fastforce
next
  case False
  define f1 where "f1 = f\<lparr>fn_mint_seq := seq\<rparr>"
  obtain s q where sq: "stage_accepted K cmd (fn_clock_ms f) (st_authority_epoch (fn_store f)) a (stage_of f1) = (s, q)"
    by (rule prod.exhaust)
  have alloc: "st_next_cursor (fn_store f) \<le> sg_cursor s" "seq \<le> sg_seq s"
    "st_next_cursor (fn_store f) < U64_MODULUS \<longrightarrow> sg_cursor s < U64_MODULUS"
    using stage_accepted_allocates [OF ok sq] by (simp_all add: stage_of_def f1_def)
  have burnt: "kept f (burn s f1)" "kept f ((burn s f1)\<lparr>fn_gate_broken := True\<rparr>)" "kept f ((burn s f1)\<lparr>fn_gate := d\<rparr>)" for d
    using alloc seq by (auto simp: kept_def burn_def f1_def)
  show ?thesis
  proof (cases q)
    case (Inl e)
    with run False sq burnt show ?thesis
      by (cases e) (auto simp: run_accepted_def f1_def panicked_def)
  next
    case (Inr u)
    have "(r, f') = commit_stage K commit f1 (acc_result a) s"
      using run False sq Inr by (simp add: run_accepted_def f1_def)
    with sq Inr burnt show ?thesis
      by (cases commit) (auto simp: commit_stage_def f1_def split: store_error.splits)
  qed
qed

lemma submit_outcome:
  assumes ok: "kernel_env_ok K" and run: "submit K commit cmd f = (r, f')"
  shows "kept f f' \<and> (\<forall>x. r \<noteq> Completed x) \<or>
    (\<exists>kind detail. rejects K cmd (method_wire (cmd_method cmd)) kind detail f f' \<and> r = Rejected kind detail False) \<or>
    (\<exists>a s. completes K cmd a s f f' \<and> r = Completed (acc_result a))"
proof (cases "fn_gate_broken f \<or> fn_gate f \<noteq> None \<or> \<not> address_is_valid cmd (st_project_id (fn_store f)) \<or>
    receipt_node (fn_store f) (receipt_key cmd) \<noteq> None")
  case True
  have "f' = f" using run True by (auto simp: submit_def Let_def split: if_splits option.splits)
  moreover have "r \<noteq> Completed x" for x
    using run True
    by (auto simp: submit_def Let_def poisoned_def bad_address_def replay_stored_def replay_result_def
        split: if_splits option.splits prod.splits sum.splits)
  ultimately show ?thesis by (simp add: kept_if)
next
  case False
  have run': "(case validate K f cmd (pre_read_of K (fn_store f) cmd) of
      Inl (Panics message) \<Rightarrow> panicked message f
    | Inl (Reject kind detail persist) \<Rightarrow>
        if \<not> persist then (Rejected kind detail False, f)
        else persist_rejection K commit f cmd (method_wire (cmd_method cmd)) kind (bounded_detail detail)
               ''rejection receipt commit failed before durability'' ''cannot stage rejection receipt: ''
    | Inr (a, seq) \<Rightarrow> run_accepted K commit (f\<lparr>fn_mint_seq := seq\<rparr>) cmd a) = (r, f')"
    using run False by (simp add: submit_def Let_def)
  have none: "receipt_node (fn_store f) (receipt_key cmd) = None" using False by blast
  show ?thesis
  proof (cases "validate K f cmd (pre_read_of K (fn_store f) cmd)")
    case (Inl e)
    note V = Inl
    show ?thesis
    proof (cases e)
      case (Panics m)
      with run' V show ?thesis by (auto simp: panicked_def kept_if)
    next
      case (Reject kind detail persist)
      show ?thesis
      proof (cases persist)
        case True
        have "persist_rejection K commit (f\<lparr>fn_mint_seq := fn_mint_seq f\<rparr>) cmd (method_wire (cmd_method cmd)) kind (bounded_detail detail)
               ''rejection receipt commit failed before durability'' ''cannot stage rejection receipt: '' = (r, f')"
          using run' V Reject True by simp
        from persist_rejection_outcome [OF this none] show ?thesis by fastforce
      next
        case False
        with run' V Reject show ?thesis by (auto simp: kept_if)
      qed
    qed
  next
    case (Inr as)
    obtain a seq where [simp]: "as = (a, seq)" by (cases as)
    have "fn_mint_seq f \<le> seq" using validate_seq Inr by simp
    moreover have "run_accepted K commit (f\<lparr>fn_mint_seq := seq\<rparr>) cmd a = (r, f')" using run' Inr by simp
    ultimately have "kept f f' \<and> (\<forall>x. r \<noteq> Completed x) \<or>
        (\<exists>kind detail. rejects K cmd (method_wire (cmd_method cmd)) kind detail f f' \<and> r = Rejected kind detail False) \<or>
        (\<exists>s. stage_accepted K cmd (fn_clock_ms f) (st_authority_epoch (fn_store f)) a (stage_of (f\<lparr>fn_mint_seq := seq\<rparr>)) = (s, Inr ())
           \<and> f' = publish_stage s (f\<lparr>fn_mint_seq := seq\<rparr>) \<and> r = Completed (acc_result a))"
      by (intro run_accepted_outcome [OF ok _ none])
    then show ?thesis using Inr False unfolding completes_def by force
  qed
qed

text \<open>Every step of the funnel does one of three things.\<close>

lemma step_outcome:
  assumes ok: "kernel_env_ok K"
  obtains "kept f (funnel_step K i f)"
  | cmd ct kind detail where "rejects K cmd ct kind detail f (funnel_step K i f)"
  | cmd commit a s where "i = In_Submit cmd commit" and "completes K cmd a s f (funnel_step K i f)"
proof (cases i)
  case (In_Submit cmd commit)
  obtain r where "submit K commit cmd f = (r, funnel_step K i f)" using In_Submit by (metis funnel_step.simps(1) prod.collapse)
  from submit_outcome [OF ok this] that(1,2) that(3) [OF In_Submit] show ?thesis by blast
next
  case (In_Reject cmd ct kind detail commit)
  have "kept f (funnel_step K i f) \<or> (\<exists>d. rejects K cmd ct kind d f (funnel_step K i f))"
  proof (cases "fn_gate_broken f \<or> fn_gate f \<noteq> None \<or> \<not> identifiers_are_valid cmd \<or>
      \<not> project_scope_is_valid cmd (st_project_id (fn_store f)) \<or> receipt_node (fn_store f) (receipt_key cmd) \<noteq> None")
    case True
    then have "funnel_step K i f = f"
      unfolding In_Reject by (auto simp: reject_keyed_def Let_def split: option.splits)
    then show ?thesis by (simp add: kept_if)
  next
    case False
    then obtain r where "persist_rejection K commit (f\<lparr>fn_mint_seq := fn_mint_seq f\<rparr>) cmd ct kind (bounded_detail detail)
        ''protocol rejection commit failed before durability'' ''cannot stage protocol rejection: '' = (r, funnel_step K i f)"
      unfolding In_Reject by (auto simp: reject_keyed_def Let_def intro: prod.collapse [symmetric])
    from persist_rejection_outcome [OF this] False show ?thesis by blast
  qed
  with that show ?thesis by blast
next
  case (In_Tick ms)
  then have "kept f (funnel_step K i f)" by (auto simp: tick_clock_def kept_if split: sum.splits)
  with that show ?thesis by blast
next
  case (In_Poison d)
  then have "kept f (funnel_step K i f)" by (auto simp: latch_poison_def kept_if)
  with that show ?thesis by blast
qed

end
