(* ===== verification/Kernel_Invariant.thy ===== *)
theory Kernel_Invariant
  imports Kernel_Transition
begin

text \<open>
  The invariant of the kernel's store: every entry of an address book names a node of that book's label,
  and every journalled cursor is below the allocator. It holds in every run of the funnel; with it, the
  plan of an accepted command only touches rows of the kind it means to.
\<close>

section \<open>The books\<close>

definition all_vals :: "('v \<Rightarrow> bool) \<Rightarrow> ('k, 'v) btree \<Rightarrow> bool" where
  "all_vals P m \<longleftrightarrow> (\<forall>v \<in> snd ` set m. P v)"

lemma all_vals_insert: "all_vals P m \<Longrightarrow> P v \<Longrightarrow> all_vals P (bt_insert k v m)"
  using bt_insert_set [of k v m] by (auto simp: all_vals_def)

lemma bt_get_set: "bt_get m k = Some v \<Longrightarrow> (k, v) \<in> set m"
  by (simp add: bt_get_def map_of_SomeD)

lemma all_vals_get: "all_vals P m \<Longrightarrow> bt_get m k = Some v \<Longrightarrow> P v"
  by (auto simp: all_vals_def dest!: bt_get_set)

lemma all_vals_mono: "all_vals P m \<Longrightarrow> (\<And>v. P v \<Longrightarrow> Q v) \<Longrightarrow> all_vals Q m"
  by (auto simp: all_vals_def)

definition books_all :: "(string \<Rightarrow> node_id \<Rightarrow> bool) \<Rightarrow> books \<Rightarrow> bool" where
  "books_all Q b \<longleftrightarrow>
     all_vals (Q ''Unit'') (bk_units b) \<and> all_vals (Q ''Attempt'') (bk_attempts b) \<and>
     all_vals (Q ''Attempt'') (bk_attempt_ids b) \<and> all_vals (Q ''Lease'') (bk_leases b) \<and>
     all_vals (Q ''WorkItem'') (bk_work_items b) \<and> all_vals (Q ''Receipt'') (bk_receipts b) \<and>
     all_vals (Q ''Effect'') (bk_effects b) \<and> all_vals (Q ''Effect'') (bk_effect_intent_ids b) \<and>
     all_vals (Q ''Event'') (bk_events b) \<and> all_vals (Q ''Evidence'') (bk_evidence b) \<and>
     all_vals (Q ''Run'') (bk_runs b) \<and> all_vals (Q ''CancelRequest'') (bk_cancel_requests b) \<and>
     all_vals (Q ''CancelRequest'') (bk_cancel_roots b) \<and> all_vals (Q ''CancelDelivery'') (bk_cancel_deliveries b) \<and>
     all_vals (\<lambda>ns. \<forall>n \<in> set ns. Q ''CancelDelivery'' n) (bk_cancel_deliveries_by_request b)"

lemma books_all_mono: "books_all Q b \<Longrightarrow> (\<And>l n. Q l n \<Longrightarrow> R l n) \<Longrightarrow> books_all R b"
  by (simp add: books_all_def all_vals_def)

lemma books_all_insert:
  assumes "books_all Q b" and "Q (book_label kind) n"
  shows "books_all Q (book_insert kind key n b)"
proof (cases kind)
  case (Book_CancelDelivery r)
  let ?old = "case bt_get (bk_cancel_deliveries_by_request b) r of None \<Rightarrow> [] | Some ns \<Rightarrow> ns"
  have "\<forall>m \<in> set (?old @ [n]). Q ''CancelDelivery'' m"
  proof (cases "bt_get (bk_cancel_deliveries_by_request b) r")
    case (Some ns)
    have "all_vals (\<lambda>ns. \<forall>m \<in> set ns. Q ''CancelDelivery'' m) (bk_cancel_deliveries_by_request b)"
      using assms(1) by (simp add: books_all_def)
    from all_vals_get [OF this Some] Some assms(2) Book_CancelDelivery show ?thesis by simp
  qed (use assms(2) Book_CancelDelivery in simp)
  with assms Book_CancelDelivery show ?thesis by (simp add: books_all_def all_vals_insert)
qed (use assms in \<open>simp_all add: books_all_def all_vals_insert split: option.splits\<close>)

lemma books_all_fold:
  "books_all Q b \<Longrightarrow> \<forall>(kind, key, n) \<in> set es. Q (book_label kind) n \<Longrightarrow>
     books_all Q (fold (\<lambda>(kind, key, n). book_insert kind key n) es b)"
  by (induction es arbitrary: b) (auto simp: books_all_insert)

definition labels_ok :: "('g, 'x) kernel_env \<Rightarrow> 'g store \<Rightarrow> bool" where
  "labels_ok K st \<longleftrightarrow> books_all (tagged K (st_graph st)) (st_books st)"

lemma labels_okD:
  assumes "labels_ok K st"
  shows "unit_node st k = Some n \<Longrightarrow> tagged K (st_graph st) ''Unit'' n"
    and "lease_node st k = Some n \<Longrightarrow> tagged K (st_graph st) ''Lease'' n"
    and "attempt_node st k = Some n \<Longrightarrow> tagged K (st_graph st) ''Attempt'' n"
    and "attempt_id_node st k = Some n \<Longrightarrow> tagged K (st_graph st) ''Attempt'' n"
    and "run_node st k = Some n \<Longrightarrow> tagged K (st_graph st) ''Run'' n"
    and "effect_node st k = Some n \<Longrightarrow> tagged K (st_graph st) ''Effect'' n"
    and "effect_intent_id_node st k = Some n \<Longrightarrow> tagged K (st_graph st) ''Effect'' n"
    and "receipt_node st k = Some n \<Longrightarrow> tagged K (st_graph st) ''Receipt'' n"
    and "cancel_request_node st k = Some n \<Longrightarrow> tagged K (st_graph st) ''CancelRequest'' n"
    and "bt_get (bk_cancel_roots (st_books st)) k = Some n \<Longrightarrow> tagged K (st_graph st) ''CancelRequest'' n"
    and "cancel_delivery_node st k = Some n \<Longrightarrow> tagged K (st_graph st) ''CancelDelivery'' n"
    and "bt_get (bk_events (st_books st)) c = Some n \<Longrightarrow> tagged K (st_graph st) ''Event'' n"
  using assms unfolding labels_ok_def books_all_def by (blast intro: all_vals_get)+

section \<open>Cursors\<close>

lemma parse_show [simp]: "n < U64_MODULUS \<Longrightarrow> parse_u64 (show_nat n) = Some n"
  using show_nat_digits [of n] show_nat_value [of n] by (simp add: parse_u64_def Let_def)

definition cursors_ok :: "'g store \<Rightarrow> bool" where
  "cursors_ok st \<longleftrightarrow> st_next_cursor st < U64_MODULUS \<and> (\<forall>c \<in> bt_dom (bk_events (st_books st)). c < st_next_cursor st)"

definition funnel_ok :: "('g, 'x) kernel_env \<Rightarrow> 'g funnel \<Rightarrow> bool" where
  "funnel_ok K f \<longleftrightarrow> kernel_env_ok K \<and> labels_ok K (fn_store f) \<and> cursors_ok (fn_store f)"

section \<open>The invariant is kept\<close>

text \<open>The graph before and after: rows that exist change by a difference and keep their label.\<close>

definition advances :: "('g, 'x) kernel_env \<Rightarrow> (node_id \<Rightarrow> 'x props) \<Rightarrow> 'g \<Rightarrow> 'g \<Rightarrow> bool" where
  "advances K D g g' \<longleftrightarrow>
     (\<forall>n p. node_properties K g n = Some p \<longrightarrow>
        node_properties K g' n = Some (p ++ D n) \<and> node_label K g' n = node_label K g n)"

lemma advances_tagged: "advances K D g g' \<Longrightarrow> tagged K g l n \<Longrightarrow> tagged K g' l n"
  by (auto simp: advances_def tagged_def)

lemma evolves_advances: "evolves K D s s' \<Longrightarrow> advances K D (sg_graph s) (sg_graph s')"
  by (auto simp: evolves_def advances_def)

lemma create_advances:
  "kernel_env_ok K \<Longrightarrow> create_node K g l p = Inr (n, g') \<Longrightarrow> advances K no_diff g g'"
  using create_node_ok [of K g l p n g'] by (auto simp: advances_def)

lemma fold_book_events:
  "bt_dom (bk_events (fold (\<lambda>(kind, key, n). book_insert kind key n) es b)) \<subseteq>
     bt_dom (bk_events b) \<union> {c. \<exists>key. (Book_Event, key) \<in> set (entry_keys es) \<and> parse_u64 key = Some c}"
proof (induction es arbitrary: b)
  case (Cons e es)
  obtain kind key n where [simp]: "e = (kind, key, n)" by (cases e)
  have "bt_dom (bk_events (book_insert kind key n b)) \<subseteq>
      bt_dom (bk_events b) \<union> {c. kind = Book_Event \<and> parse_u64 key = Some c}"
    by (cases kind) (auto split: option.splits)
  with Cons.IH [of "book_insert kind key n b"] show ?case by simp blast
qed simp

lemma publish_stage_simps [simp]:
  "st_graph (fn_store (publish_stage s f)) = sg_graph s"
  "st_books (fn_store (publish_stage s f)) = fold (\<lambda>(kind, key, n). book_insert kind key n) (sg_books s) (st_books (fn_store f))"
  "st_next_cursor (fn_store (publish_stage s f)) = sg_cursor s"
  "st_authority_epoch (fn_store (publish_stage s f)) = st_authority_epoch (fn_store f)"
  "st_project_id (fn_store (publish_stage s f)) = st_project_id (fn_store f)"
  "fn_gate (publish_stage s f) = fn_gate f" "fn_clock_ms (publish_stage s f) = fn_clock_ms f"
  by (simp_all add: publish_stage_def burn_def)

lemma completesE:
  assumes ok: "kernel_env_ok K" and "completes K cmd a s f f'"
  obtains seq where "validate K f cmd (pre_read_of K (fn_store f) cmd) = Inr (a, seq)"
    and "advances K (plan_diff (acc_plan a)) (st_graph (fn_store f)) (st_graph (fn_store f'))"
    and "st_books (fn_store f') = fold (\<lambda>(kind, key, n). book_insert kind key n) (sg_books s) (st_books (fn_store f))"
    and "entry_keys (sg_books s) = plan_books (acc_plan a)
      @ map (\<lambda>c. (Book_Event, show_nat c)) [st_next_cursor (fn_store f)..<st_next_cursor (fn_store f')]
      @ [(Book_Receipt, receipt_key cmd)]"
    and "\<forall>(kind, key, n) \<in> set (sg_books s). node_properties K (st_graph (fn_store f)) n = None \<and>
      tagged K (st_graph (fn_store f')) (book_label kind) n"
    and "st_next_cursor (fn_store f') = st_next_cursor (fn_store f) + length (acc_events a)"
    and "st_next_cursor (fn_store f) < U64_MODULUS \<Longrightarrow> st_next_cursor (fn_store f') < U64_MODULUS"
    and "st_authority_epoch (fn_store f') = st_authority_epoch (fn_store f)"
proof -
  obtain seq where v: "validate K f cmd (pre_read_of K (fn_store f) cmd) = Inr (a, seq)"
    and st: "stage_accepted K cmd (fn_clock_ms f) (st_authority_epoch (fn_store f)) a (stage_of (f\<lparr>fn_mint_seq := seq\<rparr>)) = (s, Inr ())"
    and f': "f' = publish_stage s (f\<lparr>fn_mint_seq := seq\<rparr>)"
    using assms(2) by (auto simp: completes_def)
  have none: "sg_cursors (stage_of (f\<lparr>fn_mint_seq := seq\<rparr>)) = []" by (simp add: stage_of_def)
  note facts = stage_accepted_ok [OF ok st none] stage_accepted_allocates [OF ok st]
  show thesis
  proof (rule that [OF v])
    show "advances K (plan_diff (acc_plan a)) (st_graph (fn_store f)) (st_graph (fn_store f'))"
      using evolves_advances [OF facts(1)] by (simp add: f' stage_of_def)
    show "\<forall>(kind, key, n) \<in> set (sg_books s). node_properties K (st_graph (fn_store f)) n = None \<and>
      tagged K (st_graph (fn_store f')) (book_label kind) n"
      using facts(1) by (auto simp: evolves_def f' stage_of_def)
  qed (use facts in \<open>simp_all add: f' stage_of_def\<close>)
qed

lemma rejectsE:
  assumes ok: "kernel_env_ok K" and "rejects K cmd ct kind detail f f'"
  obtains n where "advances K no_diff (st_graph (fn_store f)) (st_graph (fn_store f'))"
    and "st_books (fn_store f') = book_insert Book_Receipt (receipt_key cmd) n (st_books (fn_store f))"
    and "node_properties K (st_graph (fn_store f)) n = None"
    and "tagged K (st_graph (fn_store f')) ''Receipt'' n"
    and "node_properties K (st_graph (fn_store f')) n = Some (receipt_properties K cmd ct ''rejected''
      (json_object [(''error_kind'', JString (error_kind_wire kind)), (''detail'', JString detail)]) None)"
    and "st_next_cursor (fn_store f') = st_next_cursor (fn_store f)"
    and "st_authority_epoch (fn_store f') = st_authority_epoch (fn_store f)"
proof -
  from assms(2) obtain n g seq where g: "create_node K (st_graph (fn_store f)) ''Receipt''
      (receipt_properties K cmd ct ''rejected''
        (json_object [(''error_kind'', JString (error_kind_wire kind)), (''detail'', JString detail)]) None) = Inr (n, g)"
    and f': "f' = f\<lparr>fn_mint_seq := seq, fn_store := (fn_store f)\<lparr>st_graph := g,
               st_books := book_insert Book_Receipt (receipt_key cmd) n (st_books (fn_store f))\<rparr>\<rparr>"
    by (auto simp: rejects_def)
  show thesis
    by (rule that [of n])
      (use create_node_ok [OF ok g] create_advances [OF ok g] in \<open>simp_all add: f' tagged_def\<close>)
qed

lemma labels_ok_step:
  assumes "labels_ok K st" and "advances K D (st_graph st) (st_graph st')"
    and "st_books st' = fold (\<lambda>(kind, key, n). book_insert kind key n) es (st_books st)"
    and "\<forall>(kind, key, n) \<in> set es. tagged K (st_graph st') (book_label kind) n"
  shows "labels_ok K st'"
  using books_all_fold [of "tagged K (st_graph st')" "st_books st" es] assms
    books_all_mono [of "tagged K (st_graph st)" "st_books st" "tagged K (st_graph st')"] advances_tagged [OF assms(2)]
  by (simp add: labels_ok_def)

lemma funnel_ok_step:
  assumes "funnel_ok K f"
  shows "funnel_ok K (funnel_step K i f)"
proof -
  let ?f' = "funnel_step K i f"
  have ok: "kernel_env_ok K" and labels: "labels_ok K (fn_store f)" and cursors: "cursors_ok (fn_store f)"
    using assms by (simp_all add: funnel_ok_def)
  show ?thesis
  proof (cases rule: step_outcome [OF ok, of f i])
    case 1
    with labels cursors show ?thesis
      by (fastforce simp: funnel_ok_def ok kept_def labels_ok_def cursors_ok_def)
  next
    case (2 cmd ct kind detail)
    obtain n where n: "advances K no_diff (st_graph (fn_store f)) (st_graph (fn_store ?f'))"
      "st_books (fn_store ?f') = book_insert Book_Receipt (receipt_key cmd) n (st_books (fn_store f))"
      "tagged K (st_graph (fn_store ?f')) ''Receipt'' n" "st_next_cursor (fn_store ?f') = st_next_cursor (fn_store f)"
      using rejectsE [OF ok 2] by metis
    have "labels_ok K (fn_store ?f')"
      using labels_ok_step [OF labels n(1), of "[(Book_Receipt, receipt_key cmd, n)]"] n(2,3) by simp
    with cursors n show ?thesis by (simp add: funnel_ok_def ok cursors_ok_def)
  next
    case (3 cmd commit a s)
    from 3(2) show ?thesis
    proof (rule completesE [OF ok])
      assume c: "advances K (plan_diff (acc_plan a)) (st_graph (fn_store f)) (st_graph (fn_store ?f'))"
        "st_books (fn_store ?f') = fold (\<lambda>(kind, key, n). book_insert kind key n) (sg_books s) (st_books (fn_store f))"
        "entry_keys (sg_books s) = plan_books (acc_plan a)
          @ map (\<lambda>c. (Book_Event, show_nat c)) [st_next_cursor (fn_store f)..<st_next_cursor (fn_store ?f')]
          @ [(Book_Receipt, receipt_key cmd)]"
        "\<forall>(kind, key, n) \<in> set (sg_books s). node_properties K (st_graph (fn_store f)) n = None \<and>
          tagged K (st_graph (fn_store ?f')) (book_label kind) n"
        "st_next_cursor (fn_store ?f') = st_next_cursor (fn_store f) + length (acc_events a)"
        "st_next_cursor (fn_store f) < U64_MODULUS \<Longrightarrow> st_next_cursor (fn_store ?f') < U64_MODULUS"
      have "labels_ok K (fn_store ?f')" using labels_ok_step [OF labels c(1,2)] c(4) by fastforce
      moreover have "c < st_next_cursor (fn_store ?f')" if "c \<in> bt_dom (bk_events (st_books (fn_store ?f')))" for c
      proof -
        have plan: "(Book_Event, key) \<notin> set (plan_books (acc_plan a))" for key by (cases "acc_plan a") auto
        have "c \<in> bt_dom (bk_events (st_books (fn_store f))) \<or>
            (\<exists>d \<in> {st_next_cursor (fn_store f)..<st_next_cursor (fn_store ?f')}. parse_u64 (show_nat d) = Some c)"
          using that fold_book_events [of "sg_books s" "st_books (fn_store f)"] plan unfolding c(2) c(3) by auto
        then show ?thesis using cursors c(5,6) by (auto simp: cursors_ok_def)
      qed
      ultimately show ?thesis using cursors c(6) by (simp add: funnel_ok_def ok cursors_ok_def)
    qed
  qed
qed

interpretation fn: invariant_machine "funnel_step K" "funnel_ok K" for K
  by unfold_locales (rule funnel_ok_step)

end
