(* ===== verification/Kernel_Plans.thy ===== *)
theory Kernel_Plans
  imports Kernel_Invariant
begin

text \<open>
  The abstract life of an effect, and what the plan of an accepted command is allowed to do: which rows it
  touches and how. The funnel's validation is shown to accept only such plans.
\<close>

section \<open>The life of an effect\<close>

text \<open>
  The lifecycle that the ledger promises, written without the code's own checks. An effect is in flight once
  it may have reached the world. What a settlement records about the targets: declared targets keep their
  identities and digests, take the digest of the submitted row of their identity or none, and are applied
  exactly when that is the expected digest; targets found after the fact are the submitted ones, applied only
  with an observed digest and a clean wait status.
\<close>

definition in_flight :: "effect_intent \<Rightarrow> bool" where
  "in_flight i \<longleftrightarrow>
     ei_state i = Effect_Dispatching \<or> ei_state i = Effect_Dispatched \<or> ei_state i = Effect_Observing \<or>
     ei_state i = Effect_Reconciling \<or> ei_state i = Effect_Compensating"

definition observed_in :: "target_observation list \<Rightarrow> target_observation \<Rightarrow> bool" where
  "observed_in submitted r \<longleftrightarrow>
     (\<forall>t \<in> set submitted. target_id t = target_id r \<longrightarrow> observed_digest r = observed_digest t) \<and>
     (target_id r \<notin> target_id ` set submitted \<longrightarrow> observed_digest r = None)"

definition settled_rows ::
    "effect_intent \<Rightarrow> target_observation list \<Rightarrow> settle_evidence \<Rightarrow> target_observation list \<Rightarrow> bool" where
  "settled_rows i submitted ev rows \<longleftrightarrow>
     (case ei_target_enumeration i of
        Enum_Declared \<Rightarrow>
          map (\<lambda>r. (target_id r, expected_digest r, pre_digest r)) rows =
            map (\<lambda>r. (target_id r, expected_digest r, pre_digest r)) (ei_targets i) \<and>
          target_id ` set submitted \<subseteq> target_id ` set (ei_targets i) \<and>
          (\<forall>r \<in> set rows. observed_in submitted r \<and>
             (target_state_of r = Target_Applied \<longleftrightarrow> observed_digest r \<noteq> None \<and> observed_digest r = expected_digest r) \<and>
             (target_state_of r = Target_Unknown \<longleftrightarrow> observed_digest r = None) \<and>
             (target_state_of r = Target_NotApplied \<longrightarrow> observed_digest r = pre_digest r))
      | Enum_PostHoc \<Rightarrow>
          length rows = length submitted \<and> target_id ` set rows = target_id ` set submitted \<and>
          (\<forall>r \<in> set rows. observed_in submitted r \<and>
             target_state_of r = (if clean_wait_status ev \<and> observed_digest r \<noteq> None then Target_Applied else Target_Unknown)))"

text \<open>
  Which terminal an effect may take: nothing but a cancellation settles an effect that was never dispatched; a
  cancellation of one in flight needs the target's own report; a success needs every target applied, a failure
  none in doubt; a compensation needs a registered one and a reversible effect.
\<close>

fun permitted :: "effect_intent \<Rightarrow> target_observation list \<Rightarrow> settle_evidence \<Rightarrow> effect_terminal \<Rightarrow> bool" where
  "permitted i rows ev Term_Succeeded \<longleftrightarrow> in_flight i \<and> (\<forall>r \<in> set rows. target_state_of r = Target_Applied)"
| "permitted i rows ev Term_Failed \<longleftrightarrow> in_flight i \<and> (\<forall>r \<in> set rows. target_state_of r \<noteq> Target_Unknown)"
| "permitted i rows ev Term_Cancelled \<longleftrightarrow>
     ei_state i = Effect_Prepared \<or> in_flight i \<and> target_reported_cancellation ev"
| "permitted i rows ev Term_Compensated \<longleftrightarrow>
     in_flight i \<and> ei_reversibility_class i \<noteq> Irreversible \<and> compensation_intent_id i \<noteq> None"
| "permitted i rows ev Term_Unknown \<longleftrightarrow> in_flight i"

text \<open>
  The steps, each under the command that causes it: an intent of the unit the command names is dispatched, and
  dispatched again only if its adapter allows a retry; an irreversible one only with an approval; a prepared one
  may be cancelled instead; it is parked only after it may have reached the world; and it is settled once, on
  the terminal and the evidence that the command submits, where these permit it.
\<close>

inductive effect_step :: "kernel_method \<Rightarrow> effect_intent \<Rightarrow> effect_intent \<Rightarrow> bool" where
  dispatch_step:
    "ei_terminal i = None \<Longrightarrow> ei_unit_id i = u \<Longrightarrow>
     ei_state i \<in> {Effect_Prepared, Effect_Dispatched, Effect_Reconciling} \<Longrightarrow>
     (ei_state i \<noteq> Effect_Prepared \<longrightarrow> ei_retry_class i \<noteq> NoRetry) \<Longrightarrow>
     (ei_reversibility_class i = Irreversible \<longrightarrow> approval_ref i \<noteq> None) \<Longrightarrow>
     effect_step (EffectDispatch u key) i (i\<lparr>ei_state := Effect_Dispatching, ei_version := v\<rparr>)"
| barred_step:
    "ei_terminal i = None \<Longrightarrow> ei_unit_id i = u \<Longrightarrow> ei_state i = Effect_Prepared \<Longrightarrow>
     effect_step (EffectDispatch u key) i
       (i\<lparr>ei_terminal := Some Term_Cancelled, ei_state := Effect_Settled, settled_at := Some at, ei_version := v\<rparr>)"
| record_step:
    "ei_terminal i = None \<Longrightarrow> ei_unit_id i = u \<Longrightarrow> ei_state i = Effect_Dispatching \<Longrightarrow>
     effect_step (EffectRecordDispatched u key at) i
       (i\<lparr>ei_state := Effect_Dispatched, dispatched_at := Some at, ei_version := v\<rparr>)"
| park_step:
    "ei_terminal i = None \<Longrightarrow> ei_unit_id i = u \<Longrightarrow>
     ei_state i \<in> {Effect_Dispatching, Effect_Dispatched, Effect_Observing, Effect_Reconciling} \<Longrightarrow>
     effect_step (EffectParkReconciling u key at) i
       (i\<lparr>ei_state := Effect_Reconciling, next_reconcile_at := Some at, ei_version := v\<rparr>)"
| delivery_step:
    "ei_terminal i = None \<Longrightarrow>
     ei_state i \<in> {Effect_Dispatching, Effect_Dispatched, Effect_Observing, Effect_Reconciling} \<Longrightarrow>
     effect_step (CancelRecordDelivery c member dl ob out) i (i\<lparr>ei_state := Effect_Reconciling, ei_version := v\<rparr>)"
| settle_step:
    "ei_terminal i = None \<Longrightarrow> ei_unit_id i = u \<Longrightarrow> settled_rows i submitted ev rows \<Longrightarrow> permitted i rows ev t \<Longrightarrow>
     effect_step (EffectSettle u key t submitted ev at) i
       (i\<lparr>ei_targets := rows, ei_terminal := Some t, ei_state := Effect_Settled, settled_at := Some at, ei_version := v\<rparr>)"

lemma effect_step_open: "effect_step meth i j \<Longrightarrow> ei_terminal i = None"
  by (induction rule: effect_step.induct) auto

lemma effect_step_settled:
  "effect_step meth i j \<Longrightarrow> ei_state i \<noteq> Effect_Settled \<Longrightarrow> (ei_terminal j \<noteq> None \<longleftrightarrow> ei_state j = Effect_Settled)"
  by (induction rule: effect_step.induct) auto

lemma effect_step_identity:
  "effect_step meth i j \<Longrightarrow>
     effect_intent_id j = effect_intent_id i \<and> ei_unit_id j = ei_unit_id i \<and> operation_key j = operation_key i \<and>
     ei_reversibility_class j = ei_reversibility_class i \<and> approval_ref j = approval_ref i \<and>
     ei_retry_class j = ei_retry_class i \<and> ei_target_enumeration j = ei_target_enumeration i"
  by (induction rule: effect_step.induct) auto

section \<open>The checks of a settlement\<close>

lemma rows_by_id_distinct:
  "distinct (map target_id ts) \<Longrightarrow> t \<in> set ts \<Longrightarrow> rows_by_id ts (target_id t) = Some t"
proof (induction ts rule: rev_induct)
  case (snoc x ts)
  show ?case
  proof (cases "t = x")
    case False
    then have "t \<in> set ts" "target_id t \<noteq> target_id x" using snoc.prems by (auto simp: image_iff)
    with snoc show ?thesis by (simp add: rows_by_id_def)
  qed (simp add: rows_by_id_def)
qed simp

lemma rows_by_id_None: "target_id r \<notin> target_id ` set ts \<Longrightarrow> rows_by_id ts (target_id r) = None"
  using rows_by_id_Some [of ts "target_id r"] by (cases "rows_by_id ts (target_id r)") force+

lemma merge_row_observed:
  "observed_digest (merge_row m d) = Option.bind (m (target_id d)) observed_digest"
  by (simp add: merge_row_def split: option.splits)

lemma merge_row_state:
  "target_state_of (merge_row m d) = Target_Unknown \<longleftrightarrow> observed_digest (merge_row m d) = None"
  "target_state_of (merge_row m d) = Target_NotApplied \<Longrightarrow> observed_digest (merge_row m d) = pre_digest (merge_row m d)"
  by (auto simp: merge_row_def classify_declared_def split: option.splits if_splits)

lemma merged_observed_in:
  assumes "distinct (map target_id ts)"
  shows "observed_in ts (merge_row (rows_by_id ts) d)"
  using rows_by_id_distinct [OF assms] rows_by_id_None [of d ts]
  by (auto simp: observed_in_def merge_row_observed) (metis bind.bind_lunit)

lemma classified_rows:
  assumes "classify_settle_targets i submitted ev = Inr rows" and "check_target_list submitted = Inr ()"
  shows "settled_rows i submitted ev rows"
proof -
  have dist: "distinct (map target_id submitted)" using assms(2) by (simp add: check_target_list_Inr)
  show ?thesis
  proof (cases "ei_target_enumeration i")
    case Enum_Declared
    then have rows: "rows = map (merge_row (rows_by_id submitted)) (ei_targets i)"
      "target_id ` set submitted \<subseteq> target_id ` set (ei_targets i)"
      using assms(1) by (auto simp: classify_settle_targets_def merge_declared_Inr)
    have applied: "target_state_of (merge_row (rows_by_id submitted) d) = Target_Applied \<longleftrightarrow>
        observed_digest (merge_row (rows_by_id submitted) d) \<noteq> None \<and>
        observed_digest (merge_row (rows_by_id submitted) d) = expected_digest (merge_row (rows_by_id submitted) d)" for d
      by (auto simp: merge_row_def classify_declared_applied split: option.splits)
    show ?thesis
      unfolding settled_rows_def using Enum_Declared rows merged_observed_in [OF dist] applied merge_row_state
      by (auto simp: comp_def)
  next
    case Enum_PostHoc
    then have rows: "rows = classify_post_hoc submitted ev" using assms(1) by (simp add: classify_settle_targets_def)
    have obs: "observed_in submitted (t\<lparr>expected_digest := None, target_state_of := s\<rparr>)" if "t \<in> set submitted" for t s
      using dist that by (auto simp: observed_in_def distinct_map inj_on_def)
    show ?thesis
      unfolding settled_rows_def rows using Enum_PostHoc obs
      by (auto simp: classify_post_hoc_def sorted_by_target_id_def image_image)
  qed
qed

lemma legal_settlement:
  assumes "settle_legality i t ev = None" and "settle_intent t (i\<lparr>ei_targets := rows\<rparr>) = Inr j"
  shows "ei_terminal i = None" and "permitted i rows ev t"
    and "j = i\<lparr>ei_targets := rows, ei_terminal := Some t, ei_state := Effect_Settled\<rparr>"
  using assms
  by (cases t; auto simp: settle_legality_None settle_intent_Inr has_dispatch_evidence_def in_flight_def)+

section \<open>Lawful plans\<close>

definition changes_effect ::
    "('g, 'x) kernel_env \<Rightarrow> kernel_method \<Rightarrow> 'g store \<Rightarrow> node_id \<Rightarrow> u64 \<Rightarrow> 'x \<Rightarrow> effect_intent \<Rightarrow> bool" where
  "changes_effect K meth st n v rec j \<longleftrightarrow>
     (\<exists>p x i. node_of K st n = Some p \<and> prop_text p ''record'' = Some x \<and> dec_intent K x = Inr i \<and>
        effect_step meth i j \<and> rec = enc_intent K j \<and> ei_version j = v \<and> v = or_zero (prop_u64 p ''version'') + 1)"

definition lawful_plan :: "('g, 'x) kernel_env \<Rightarrow> kernel_method \<Rightarrow> 'g store \<Rightarrow> 'x plan \<Rightarrow> bool" where
  "lawful_plan K meth st plan =
     (case plan of
        Plan_CloseRun n v s \<Rightarrow> \<exists>r. run_node st r = Some n
      | Plan_Dispatch d \<Rightarrow>
          (\<exists>row. read_unit K st (dp_unit_id d) = Some row \<and> dp_unit_node d = ur_node row \<and>
             dp_new_epoch d = ur_epoch row + 1 \<and> dp_stamp d = ur_stamp row \<and> dp_new_version d = ur_version row + 1) \<and>
          (\<forall>n. dp_prior_attempt d = Some n \<longrightarrow> (\<exists>k. attempt_node st k = Some n)) \<and>
          (\<forall>n v. dp_existing_lease d = Some (n, v) \<longrightarrow> lease_node st (dp_unit_id d) = Some n) \<and>
          (dp_existing_lease d = None \<longrightarrow> read_lease K st (dp_unit_id d) = None) \<and>
          dp_authority_epoch d = st_authority_epoch st
      | Plan_BumpUnit n v s \<Rightarrow>
          \<exists>u row. read_unit K st u = Some row \<and> n = ur_node row \<and> v = ur_version row + 1 \<and> s = Some (ur_stamp row + 1)
      | Plan_UpdateEffect n v state t rec \<Rightarrow>
          (\<exists>key. effect_node st key = Some n) \<and>
          (\<exists>j. changes_effect K meth st n v rec j \<and> state = effect_state_wire (ei_state j) \<and>
             t = map_option terminal_wire (ei_terminal j))
      | Plan_CancelRecordDelivery p \<Rightarrow>
          (\<exists>c row. request_data_of K st c = Some row \<and> cdp_request_node p = rd_node row) \<and>
          cancel_delivery_node st (cdp_delivery_key p) = None \<and>
          (\<forall>park. cdp_park_effect p = Some park \<longrightarrow>
             (\<exists>k. effect_intent_id_node st k = Some (epp_node park)) \<and>
             (\<exists>j. changes_effect K meth st (epp_node park) (epp_version park) (epp_record park) j \<and>
                ei_state j = Effect_Reconciling \<and> ei_terminal j = None))
      | Plan_CreateUnit u w r \<Rightarrow> read_unit K st u = None
      | Plan_CreateRun r g \<Rightarrow> read_run K st r = None
      | Plan_CreateWorkItem w d s \<Rightarrow> work_item_node st w = None
      | Plan_CreateEffect key intent_id u e rec \<Rightarrow>
          read_effect K st key = None \<and>
          (\<exists>i. rec = enc_intent K i \<and> ei_state i = Effect_Prepared \<and> ei_terminal i = None \<and> ei_version i = 1 \<and>
             ei_unit_id i = u \<and> operation_key i = key)
      | Plan_CreateCancelRequest p \<Rightarrow> \<exists>kind. crp_root_kind p = cancel_kind_wire kind
      | Plan_Nothing \<Rightarrow> True)"

lemma pre_read_simps [simp]:
  "pr_unit (pre_read_of K st cmd) = Option.bind (method_unit_id (cmd_method cmd)) (read_unit K st)"
  "pr_lease (pre_read_of K st cmd) = Option.bind (method_unit_id (cmd_method cmd)) (read_lease K st)"
  "pr_for_unit (pre_read_of K st cmd) = method_unit_id (cmd_method cmd)"
  "pr_effect (pre_read_of K st cmd) =
     Option.bind (effect_key_of K (Option.bind (method_unit_id (cmd_method cmd)) (read_unit K st)) (cmd_method cmd))
       (read_effect K st)"
  "pr_effect_key (pre_read_of K st cmd) =
     effect_key_of K (Option.bind (method_unit_id (cmd_method cmd)) (read_unit K st)) (cmd_method cmd)"
  by (simp_all add: pre_read_of_def Let_def)

lemma read_effect_Some:
  "read_effect K st key = Some row \<longleftrightarrow>
     effect_node st key = Some (er_node row) \<and>
     (\<exists>p. node_of K st (er_node row) = Some p \<and> prop_text p ''record'' = Some (er_record row) \<and>
        er_version row = or_zero (prop_u64 p ''version''))"
  by (cases row) (auto simp: read_effect_def Option.bind_eq_Some_conv)

lemma next_version_Inr: "next_version v = Inr w \<longleftrightarrow> w = v + 1 \<and> v + 1 < U64_MODULUS"
  by (auto simp: next_version_def ok_or_Inr u64_checked_add_def)

lemma increment_Inr: "increment v axis = Inr w \<longleftrightarrow> w = v + 1 \<and> v + 1 < U64_MODULUS"
  by (auto simp: increment_def ok_or_Inr u64_checked_add_def)

lemma resolve_bound_Inr:
  "resolve_bound K cmd pre u key = Inr (row, i) \<longleftrightarrow>
     pr_effect pre = Some row \<and> dec_intent K (er_record row) = Inr i \<and> ei_unit_id i = u \<and>
     expected_version cmd = Some (er_version row)"
  by (auto simp: resolve_bound_def require_effect_def parse_record_def intent_binds_def
      expected_effect_version_def result_simps split: option.splits if_splits)

lemma already_settled_Inr: "already_settled i key = Inr x \<longleftrightarrow> ei_terminal i = None"
  by (auto simp: already_settled_def)

lemma update_accepted_Inr:
  "update_accepted K row i t ek payload seq = Inr (a, seq') \<longleftrightarrow>
     seq' = seq \<and> acc_plan a = Plan_UpdateEffect (er_node row) (ei_version i) (effect_state_wire (ei_state i)) t (enc_intent K i) \<and>
     acc_events a = [event ''effect'' (uuid_text (effect_intent_id i)) (ei_version i) ek payload] \<and>
     acc_result a = json_object [(''operation_key'', JString (operation_key i)), (''version'', json_u64 (ei_version i)),
         (''state'', JString (effect_state_wire (ei_state i)))]"
  by (cases a) (auto simp: update_accepted_def Let_def)

lemmas effect_method_simps =
  result_simps resolve_bound_Inr already_settled_Inr update_accepted_Inr next_version_Inr read_effect_Some

lemma changes_effectI:
  assumes "read_effect K st key = Some row" and "dec_intent K (er_record row) = Inr i" and "effect_step meth i j"
    and "ei_version j = er_version row + 1"
  shows "changes_effect K meth st (er_node row) (ei_version j) (enc_intent K j) j \<and> (\<exists>key. effect_node st key = Some (er_node row))"
  using assms by (auto simp: changes_effect_def read_effect_Some)

lemma effect_key_simps [simp]:
  "effect_key_of K u (EffectDispatch a k) = Some k" "effect_key_of K u (EffectRecordDispatched a k at) = Some k"
  "effect_key_of K u (EffectSettle a k t ts ev at) = Some k" "effect_key_of K u (EffectParkReconciling a k at) = Some k"
  by (simp_all add: effect_key_of_def)

lemma lawful_update:
  assumes "read_effect K st key = Some row" and "dec_intent K (er_record row) = Inr i" and "effect_step meth i j"
    and "ei_version j = er_version row + 1"
    and "acc_plan a = Plan_UpdateEffect (er_node row) (ei_version j) (effect_state_wire (ei_state j))
      (map_option terminal_wire (ei_terminal j)) (enc_intent K j)"
  shows "lawful_plan K meth st (acc_plan a)"
  using changes_effectI [OF assms(1-4)] assms(5) by (auto simp: lawful_plan_def)

lemma dispatchable_Inr:
  "dispatchable i key = Inr x \<longleftrightarrow>
     ei_state i = Effect_Prepared \<or> ei_retry_class i \<noteq> NoRetry \<and> ei_state i \<in> {Effect_Dispatched, Effect_Reconciling}"
  by (auto simp: dispatchable_def)

lemma lawful_effect_dispatch:
  assumes "validate_effect_dispatch K current ms cmd (pre_read_of K st cmd) u key seq = Inr (a, seq')"
    and "cmd_method cmd = EffectDispatch u key"
  shows "lawful_plan K (cmd_method cmd) st (acc_plan a)"
proof -
  let ?pre = "pre_read_of K st cmd"
  obtain row i where row: "read_effect K st key = Some row" "dec_intent K (er_record row) = Inr i" "ei_terminal i = None"
    "ei_unit_id i = u"
    and d: "dispatchable i key = Inr ()"
    and body: "(if ei_state i = Effect_Prepared \<and> blockers_of ?pre \<noteq> [] then
       and_then (map_err (\<lambda>_. Panics ''prepared settles cancelled'') (settle_intent Term_Cancelled i)) (\<lambda>j.
       and_then (next_version (er_version row)) (\<lambda>v.
         update_accepted K row (j\<lparr>settled_at := Some ms, ei_version := v\<rparr>)
           (Some (terminal_wire Term_Cancelled)) ''effect.settled''
           [(''terminal'', JString ''cancelled''), (''settled_at'', json_u64 ms), (''rule_4'', JBool True)] seq))
     else if ei_reversibility_class i = Irreversible \<and> approval_ref i = None then
       Inl (Reject ApprovalRequired (''irreversible effect '' @ key @ '' has no committed approval_ref'') False)
     else
       and_then (next_version (er_version row)) (\<lambda>v.
       update_accepted K row (i\<lparr>ei_state := Effect_Dispatching, ei_version := v\<rparr>) None
         ''effect.dispatching'' [(''operation_key'', JString key)] seq)) = Inr (a, seq')"
    using assms
    by (auto simp: validate_effect_dispatch_def and_then_Inr resolve_bound_Inr already_settled_Inr split: prod.splits)
  show ?thesis
  proof (cases "ei_state i = Effect_Prepared \<and> blockers_of ?pre \<noteq> []")
    case True
    then obtain j where j: "settle_intent Term_Cancelled i = Inr j"
      and a: "acc_plan a = Plan_UpdateEffect (er_node row) (er_version row + 1) (effect_state_wire (ei_state j))
        (Some (terminal_wire Term_Cancelled)) (enc_intent K (j\<lparr>settled_at := Some ms, ei_version := er_version row + 1\<rparr>))"
      using body by (auto simp: effect_method_simps)
    have "effect_step (cmd_method cmd) i (j\<lparr>settled_at := Some ms, ei_version := er_version row + 1\<rparr>)"
      using True j row(3,4) barred_step [of i u key, where at = ms and v = "er_version row + 1"] assms(2) by (simp add: settle_intent_Inr)
    then show ?thesis
      by (rule lawful_update [OF row(1,2)]) (use a j in \<open>auto simp: settle_intent_Inr\<close>)
  next
    case False
    with body have a: "\<not> (ei_reversibility_class i = Irreversible \<and> approval_ref i = None)"
      "acc_plan a = Plan_UpdateEffect (er_node row) (er_version row + 1) (effect_state_wire Effect_Dispatching)
        None (enc_intent K (i\<lparr>ei_state := Effect_Dispatching, ei_version := er_version row + 1\<rparr>))"
      by (auto simp: effect_method_simps split: if_splits)
    have "effect_step (cmd_method cmd) i (i\<lparr>ei_state := Effect_Dispatching, ei_version := er_version row + 1\<rparr>)"
      unfolding assms(2) using row(3,4) d a(1) by (intro dispatch_step) (auto simp: dispatchable_Inr)
    then show ?thesis by (rule lawful_update [OF row(1,2)]) (use a(2) row(3) in auto)
  qed
qed

lemma lawful_record_dispatched:
  assumes "validate_record_dispatched K current cmd (pre_read_of K st cmd) u key at seq = Inr (a, seq')"
    and "cmd_method cmd = EffectRecordDispatched u key at"
  shows "lawful_plan K (cmd_method cmd) st (acc_plan a)"
proof -
  obtain row i where row: "read_effect K st key = Some row" "dec_intent K (er_record row) = Inr i" "ei_terminal i = None"
    "ei_unit_id i = u"
    and s: "ei_state i = Effect_Dispatching"
    and a: "acc_plan a = Plan_UpdateEffect (er_node row) (er_version row + 1) (effect_state_wire Effect_Dispatched) None
      (enc_intent K (i\<lparr>ei_state := Effect_Dispatched, dispatched_at := Some at, ei_version := er_version row + 1\<rparr>))"
    using assms
    by (auto simp: validate_record_dispatched_def and_then_Inr resolve_bound_Inr already_settled_Inr
        update_accepted_Inr next_version_Inr split: prod.splits if_splits)
  show ?thesis
    unfolding assms(2)
    by (rule lawful_update [OF row(1,2) record_step [OF row(3,4) s, where at = at and v = "er_version row + 1"]]) (use a row(3) in auto)
qed

lemma lawful_park:
  assumes "validate_park K current cmd (pre_read_of K st cmd) u key at seq = Inr (a, seq')"
    and "cmd_method cmd = EffectParkReconciling u key at"
  shows "lawful_plan K (cmd_method cmd) st (acc_plan a)"
proof -
  obtain row i where row: "read_effect K st key = Some row" "dec_intent K (er_record row) = Inr i" "ei_terminal i = None"
    "ei_unit_id i = u"
    and s: "ei_state i \<in> {Effect_Dispatching, Effect_Dispatched, Effect_Observing, Effect_Reconciling}"
    and a: "acc_plan a = Plan_UpdateEffect (er_node row) (er_version row + 1) (effect_state_wire Effect_Reconciling) None
      (enc_intent K (i\<lparr>ei_state := Effect_Reconciling, next_reconcile_at := Some at, ei_version := er_version row + 1\<rparr>))"
    using assms
    by (auto simp: validate_park_def and_then_Inr resolve_bound_Inr already_settled_Inr
        update_accepted_Inr next_version_Inr split: prod.splits if_splits)
  show ?thesis
    unfolding assms(2)
    by (rule lawful_update [OF row(1,2) park_step [OF row(3,4) s, where at = at and v = "er_version row + 1"]]) (use a row(3) in auto)
qed

lemma lawful_effect_settle:
  assumes "validate_settle K current cmd (pre_read_of K st cmd) u key t targets ev at seq = Inr (a, seq')"
    and "cmd_method cmd = EffectSettle u key t targets ev at"
  shows "lawful_plan K (cmd_method cmd) st (acc_plan a)"
proof -
  obtain row i rows j where row: "read_effect K st key = Some row" "dec_intent K (er_record row) = Inr i" "ei_unit_id i = u"
    and legal: "settle_legality i t ev = None" and rows: "classify_settle_targets i targets ev = Inr rows"
    and list: "check_target_list targets = Inr ()" and j: "settle_intent t (i\<lparr>ei_targets := rows\<rparr>) = Inr j"
    and a: "acc_plan a = Plan_UpdateEffect (er_node row) (er_version row + 1) (effect_state_wire Effect_Settled)
      (Some (terminal_wire t)) (enc_intent K (j\<lparr>ei_state := Effect_Settled, settled_at := Some at, ei_version := er_version row + 1\<rparr>))"
    using assms
    by (auto simp: validate_settle_def and_then_Inr map_err_Inr resolve_bound_Inr already_settled_Inr
        update_accepted_Inr next_version_Inr split: prod.splits option.splits)
  note l = legal_settlement [OF legal j]
  show ?thesis
    unfolding assms(2)
    by (rule lawful_update [OF row(1,2) settle_step [OF l(1) row(3) classified_rows [OF rows list] l(2),
        where at = at and v = "er_version row + 1"]]) (use a l(3) in auto)
qed

lemma lawful_prepare:
  assumes "validate_prepare K current ms cmd (pre_read_of K st cmd) u spec seq = Inr (a, seq')"
    and "cmd_method cmd = EffectPrepare u spec"
  shows "lawful_plan K (cmd_method cmd) st (acc_plan a)"
proof -
  obtain token where t: "holder_gate current cmd (pre_read_of K st cmd) u = Inr token"
    using assms(1) by (auto simp: validate_prepare_def and_then_Inr)
  show ?thesis
  proof (cases "pr_effect (pre_read_of K st cmd)")
    case None
    then obtain key uu seq1 where key: "pr_effect_key (pre_read_of K st cmd) = Some key"
      and m: "mint_id ms current seq = Inr (uu, seq1)"
      and a: "acc_plan a = Plan_CreateEffect key (uuid_text uu) u (tk_attempt_epoch token)
        (enc_intent K (prepared_intent token u key spec uu))"
      using assms(1) t
      by (auto simp: validate_prepare_def and_then_Inr ok_or_Inr Let_def split: if_splits prod.splits)
    moreover have "read_effect K st key = None" using None key by simp
    ultimately show ?thesis by (auto simp: lawful_plan_def prepared_intent_def)
  next
    case (Some row)
    then have "acc_plan a = Plan_Nothing"
      using assms(1) t by (auto simp: validate_prepare_def and_then_Inr ok_or_Inr split: if_splits)
    then show ?thesis by (simp add: lawful_plan_def)
  qed
qed

lemma lawful_unit_dispatch:
  assumes "validate_unit_dispatch f cmd (pre_read_of K (fn_store f) cmd) u h seq = Inr (a, seq')"
    and "cmd_method cmd = UnitDispatch u h"
  obtains d row where "acc_plan a = Plan_Dispatch d" and "read_unit K (fn_store f) u = Some row"
    and "dp_unit_id d = u" and "dp_holder_id d = h" and "dp_unit_node d = ur_node row"
    and "dp_new_epoch d = ur_epoch row + 1" and "dp_stamp d = ur_stamp row" and "dp_new_version d = ur_version row + 1"
    and "dp_authority_epoch d = st_authority_epoch (fn_store f)"
    and "dp_existing_lease d = map_option (\<lambda>l. (lr_node l, lr_version l)) (read_lease K (fn_store f) u)"
    and "\<forall>n. dp_prior_attempt d = Some n \<longrightarrow> (\<exists>k. attempt_node (fn_store f) k = Some n)"
    and "expected_version cmd = Some (ur_version row)" and "blockers_of (pre_read_of K (fn_store f) cmd) = []"
    and "acc_result a = json_object [(''unit_id'', JString u), (''version'', json_u64 (dp_new_version d)),
          (''attempt_epoch'', json_u64 (dp_new_epoch d)), (''attempt_id'', JString (dp_attempt_id d)),
          (''stamp'', json_u64 (dp_stamp d)), (''authority_epoch'', json_u64 (dp_authority_epoch d)),
          (''holder_id'', JString h), (''token_nonce'', JString (dp_token_nonce d))]"
proof -
  let ?st = "fn_store f"
  obtain row prior u1 s1 u2 where row: "read_unit K ?st u = Some row"
    and v: "expected_version_ok cmd (ur_version row) = Inr ()" and g: "admission_gate (pre_read_of K ?st cmd) = Inr ()"
    and p: "prior_attempt_of ?st u row = Inr prior"
    and a: "acc_plan a = Plan_Dispatch \<lparr>dp_unit_node = ur_node row, dp_unit_id = u, dp_new_version = ur_version row + 1,
            dp_new_epoch = ur_epoch row + 1, dp_stamp = ur_stamp row, dp_authority_epoch = st_authority_epoch ?st,
            dp_holder_id = h, dp_attempt_id = uuid_text u1, dp_token_nonce = uuid_text u2,
            dp_existing_lease = map_option (\<lambda>l. (lr_node l, lr_version l)) (read_lease K ?st u),
            dp_prior_attempt = prior\<rparr>"
      "acc_result a = json_object [(''unit_id'', JString u), (''version'', json_u64 (ur_version row + 1)),
          (''attempt_epoch'', json_u64 (ur_epoch row + 1)), (''attempt_id'', JString (uuid_text u1)),
          (''stamp'', json_u64 (ur_stamp row)), (''authority_epoch'', json_u64 (st_authority_epoch ?st)),
          (''holder_id'', JString h), (''token_nonce'', JString (uuid_text u2))]"
    using assms
    by (auto simp: validate_unit_dispatch_def Let_def and_then_Inr ok_or_Inr increment_Inr split: prod.splits)
  have "\<forall>n. prior = Some n \<longrightarrow> (\<exists>k. attempt_node ?st k = Some n)"
    using p by (auto simp: prior_attempt_of_def Let_def split: if_splits option.splits)
  moreover have "expected_version cmd = Some (ur_version row)"
    using v by (auto simp: expected_version_ok_def split: option.splits if_splits)
  moreover have "blockers_of (pre_read_of K ?st cmd) = []"
    using g by (simp add: admission_gate_def split: if_splits)
  ultimately show thesis using that a row by auto
qed

lemma park_effect_Some:
  assumes "meth = CancelRecordDelivery c member dl ob out"
    and "park_effect K row = Inr (Some park)" and "row = None \<or> (\<exists>k r. row = Some r \<and> effect_for_intent K st k = Some r)"
  shows "(\<exists>k. effect_intent_id_node st k = Some (epp_node park)) \<and>
    (\<exists>j. changes_effect K meth st (epp_node park) (epp_version park) (epp_record park) j \<and>
       ei_state j = Effect_Reconciling \<and> ei_terminal j = None)"
proof -
  obtain r i where r: "row = Some r" "dec_intent K (er_record r) = Inr i" "ei_terminal i = None"
    "ei_state i \<in> {Effect_Dispatching, Effect_Dispatched, Effect_Observing, Effect_Reconciling}"
    and p: "park = \<lparr>epp_node = er_node r, epp_version = er_version r + 1,
      epp_record = enc_intent K (i\<lparr>ei_state := Effect_Reconciling, ei_version := er_version r + 1\<rparr>)\<rparr>"
    using assms(2)
    by (auto simp: park_effect_def parse_record_def result_simps next_version_Inr split: option.splits if_splits)
  obtain k where k: "effect_for_intent K st k = Some r" using assms(3) r(1) by auto
  then have "effect_intent_id_node st k = Some (er_node r)"
    "\<exists>p. node_of K st (er_node r) = Some p \<and> prop_text p ''record'' = Some (er_record r) \<and> prop_u64 p ''version'' = Some (er_version r)"
    by (auto simp: effect_for_intent_def Option.bind_eq_Some_conv)
  moreover define j where "j = i\<lparr>ei_state := Effect_Reconciling, ei_version := er_version r + 1\<rparr>"
  moreover have "effect_step meth i j"
    using delivery_step [OF r(3,4), where v = "er_version r + 1"] assms(1) by (simp add: j_def)
  ultimately have "changes_effect K meth st (epp_node park) (epp_version park) (epp_record park) j"
    "ei_state j = Effect_Reconciling" "ei_terminal j = None"
    using r p by (auto simp: changes_effect_def or_zero_def)
  with \<open>effect_intent_id_node st k = Some (er_node r)\<close> p show ?thesis by auto
qed

lemma lawful_delivery:
  assumes "validate_record_delivery K current cmd (pre_read_of K st cmd) c m dl ob out seq = Inr (a, seq')"
    and "cmd_method cmd = CancelRecordDelivery c m dl ob out"
  shows "lawful_plan K (cmd_method cmd) st (acc_plan a)"
proof -
  define cpre where "cpre = the (cancel_pre_read K st (cmd_method cmd) (pr_effect (pre_read_of K st cmd)))"
  have cpre: "pr_cancel (pre_read_of K st cmd) = Some cpre"
    using assms(2) by (simp add: pre_read_of_def Let_def cpre_def cancel_pre_read_def)
  have req: "cp_request cpre = request_data_of K st c"
    using assms(2) by (simp add: cpre_def cancel_pre_read_def Let_def no_cancel_pre_read_def)
  have del: "cp_delivery_exists cpre \<longleftrightarrow> cancel_delivery_node st (delivery_row_key c m) \<noteq> None"
    using assms(2) by (simp add: cpre_def cancel_pre_read_def Let_def no_cancel_pre_read_def)
  have eff: "cp_effect_row cpre = None \<or> (\<exists>k r. cp_effect_row cpre = Some r \<and> effect_for_intent K st k = Some r)"
    using assms(2)
    by (cases "cp_effect_row cpre") (auto simp: cpre_def cancel_pre_read_def Let_def no_cancel_pre_read_def split: option.splits if_splits)
  obtain request park p where "cp_request cpre = Some request" "park_effect K (cp_effect_row cpre) = Inr park"
    "acc_plan a = Plan_CancelRecordDelivery p" "cdp_request_node p = rd_node request" "cdp_park_effect p = park"
    "cdp_delivery_key p = delivery_row_key c m" "\<not> cp_delivery_exists cpre"
    using assms(1) cpre
    by (auto simp: validate_record_delivery_def Let_def and_then_Inr ok_or_Inr map_err_Inr split: if_splits)
  moreover from this req have "\<exists>c row. request_data_of K st c = Some row \<and> cdp_request_node p = rd_node row" by metis
  ultimately show ?thesis using park_effect_Some [OF assms(2) _ eff] del by (simp add: lawful_plan_def)
qed

lemma validate_lawful:
  assumes v: "validate K f cmd (pre_read_of K (fn_store f) cmd) = Inr (a, seq)"
  shows "lawful_plan K (cmd_method cmd) (fn_store f) (acc_plan a)"
proof (cases "cmd_method cmd")
  case (UnitDispatch u h)
  with v have "validate_unit_dispatch f cmd (pre_read_of K (fn_store f) cmd) u h (fn_mint_seq f) = Inr (a, seq)"
    by (simp add: validate_def Let_def)
  then show ?thesis
  proof (rule lawful_unit_dispatch [OF _ UnitDispatch])
    fix d row
    assume d: "acc_plan a = Plan_Dispatch d" "read_unit K (fn_store f) u = Some row" "dp_unit_id d = u"
      "dp_unit_node d = ur_node row" "dp_new_epoch d = ur_epoch row + 1" "dp_stamp d = ur_stamp row"
      "dp_new_version d = ur_version row + 1" "dp_authority_epoch d = st_authority_epoch (fn_store f)"
      "dp_existing_lease d = map_option (\<lambda>l. (lr_node l, lr_version l)) (read_lease K (fn_store f) u)"
      "\<forall>n. dp_prior_attempt d = Some n \<longrightarrow> (\<exists>k. attempt_node (fn_store f) k = Some n)"
    have "lease_node (fn_store f) u = Some (lr_node l)" if "read_lease K (fn_store f) u = Some l" for l
      using that by (auto simp: read_lease_def Option.bind_eq_Some_conv)
    with d show ?thesis by (auto simp: lawful_plan_def)
  qed
next
  case (RunClose r outcome)
  with v obtain run where "read_run K (fn_store f) r = Some run" "\<exists>x y. acc_plan a = Plan_CloseRun (rr_node run) x y"
    by (auto simp: validate_def Let_def validate_run_close_def pre_read_of_def and_then_Inr ok_or_Inr split: if_splits)
  then show ?thesis by (auto simp: lawful_plan_def read_run_def Option.bind_eq_Some_conv)
next
  case (StampBump u)
  with v obtain row where "read_unit K (fn_store f) u = Some row"
    "acc_plan a = Plan_BumpUnit (ur_node row) (ur_version row + 1) (Some (ur_stamp row + 1))"
    by (auto simp: validate_def Let_def validate_stamp_bump_def and_then_Inr ok_or_Inr increment_Inr)
  then show ?thesis unfolding lawful_plan_def by (simp del: One_nat_def) blast
qed (use v lawful_prepare lawful_effect_dispatch lawful_record_dispatched lawful_effect_settle lawful_park lawful_delivery
  in \<open>auto simp: validate_def Let_def validate_run_open_def validate_work_item_create_def validate_unit_admit_def
    validate_progress_report_def validate_token_reissue_def validate_cancel_commit_def
    and_then_Inr lawful_plan_def pre_read_of_def split: if_splits prod.splits\<close>)

end
