(* ===== verification/Kernel_Journal.thy ===== *)
theory Kernel_Journal
  imports Kernel_Plans
begin

text \<open>
  Receipts, events and deliveries of the kernel are kept: no run of the funnel changes or loses one, cursors
  only grow, and a command that was answered is answered the same way again.
\<close>

section \<open>Which rows a plan touches\<close>

definition mutable_label :: "string \<Rightarrow> bool" where
  "mutable_label l \<longleftrightarrow> l \<in> {''Run'', ''Unit'', ''Attempt'', ''Lease'', ''Effect'', ''CancelRequest''}"

lemma at_node_other: "m \<noteq> n \<Longrightarrow> at_node n pairs m = Map.empty"
  by (simp add: at_node_def)

lemma read_unit_node:
  "read_unit K st u = Some row \<longleftrightarrow>
     unit_node st u = Some (ur_node row) \<and>
     (\<exists>p. node_of K st (ur_node row) = Some p \<and> ur_version row = or_zero (prop_u64 p ''version'') \<and>
        ur_epoch row = or_zero (prop_u64 p ''current_attempt_epoch'') \<and> ur_stamp row = or_zero (prop_u64 p ''stamp'') \<and>
        ur_work_item_id row = or_empty (prop_str p ''work_item_id''))"
  by (cases row) (auto simp: read_unit_def Option.bind_eq_Some_conv)

lemma request_data_node:
  assumes "request_data_of K st c = Some row"
  shows "cancel_request_node st c = Some (rd_node row)"
proof -
  obtain n p v x where n: "cancel_request_node st c = Some n"
    and r: "(case dec_request K x of Inl _ \<Rightarrow> None | Inr r \<Rightarrow> Some \<lparr>rd_node = n, rd_version = v, rd_record = r\<rparr>) = Some row"
    using assms unfolding request_data_of_def Option.bind_eq_Some_conv by blast
  then show ?thesis by (cases "dec_request K x") auto
qed

fun plan_labels :: "'x plan \<Rightarrow> string set" where
  "plan_labels (Plan_CloseRun _ _ _) = {''Run''}"
| "plan_labels (Plan_Dispatch _) = {''Unit'', ''Attempt'', ''Lease''}"
| "plan_labels (Plan_BumpUnit _ _ _) = {''Unit''}"
| "plan_labels (Plan_UpdateEffect _ _ _ _ _) = {''Effect''}"
| "plan_labels (Plan_CancelRecordDelivery _) = {''CancelRequest'', ''Effect''}"
| "plan_labels _ = {}"

lemma other_labels:
  assumes lab: "labels_ok K st" and law: "lawful_plan K meth st plan" and n: "node_label K (st_graph st) n = Some l"
    and l: "l \<notin> plan_labels plan"
  shows "plan_diff plan n = Map.empty"
proof -
  note tags = labels_okD(1-3,5-7,9) [OF lab, of _ n]
  show ?thesis
  proof (cases plan)
    case (Plan_Dispatch d)
    with law n l tags have "dp_unit_node d \<noteq> n" "dp_prior_attempt d \<noteq> Some n" "\<forall>l v. dp_existing_lease d = Some (l, v) \<longrightarrow> l \<noteq> n"
      by (auto simp: lawful_plan_def read_unit_node tagged_def)
    with Plan_Dispatch show ?thesis
      by (auto simp: at_node_other supersede_diff_def lease_diff_def split: option.splits)
  next
    case (Plan_CancelRecordDelivery p)
    with law n l tags have "cdp_request_node p \<noteq> n" "\<forall>park. cdp_park_effect p = Some park \<longrightarrow> epp_node park \<noteq> n"
      by (auto simp: lawful_plan_def tagged_def dest!: request_data_node)
    with Plan_CancelRecordDelivery show ?thesis by (auto simp: at_node_other park_diff_def split: option.splits)
  qed (use law n l tags in \<open>auto simp: lawful_plan_def read_unit_node tagged_def intro!: at_node_other\<close>)
qed

lemma untouched_rows:
  assumes "labels_ok K st" and "lawful_plan K meth st plan" and "node_label K (st_graph st) n = Some l" and l: "\<not> mutable_label l"
  shows "plan_diff plan n = Map.empty"
proof (rule other_labels [OF assms(1-3)])
  show "l \<notin> plan_labels plan" using l by (cases plan) (auto simp: mutable_label_def)
qed

section \<open>Books only grow\<close>

lemma fold_books_same:
  assumes "\<And>kind key n b. (kind, key) \<notin> bad \<Longrightarrow> P (book_insert kind key n b) = P b"
    and "set (entry_keys es) \<inter> bad = {}"
  shows "P (fold (\<lambda>(kind, key, n). book_insert kind key n) es b) = P b"
  using assms(2)
proof (induction es arbitrary: b)
  case (Cons e es)
  obtain kind key n where [simp]: "e = (kind, key, n)" by (cases e)
  show ?case using Cons assms(1) [of kind key n b] by simp
qed simp

lemma fold_books_put:
  assumes skip: "\<And>kd ky n b. (kd, ky) \<noteq> (kind, key) \<Longrightarrow> P (book_insert kd ky n b) = P b"
    and put: "\<And>n b. P (book_insert kind key n b) = Some n"
    and "entry_keys es = before @ (kind, key) # after" and "(kind, key) \<notin> set after" and "(kind, key) \<notin> set before"
    and "(kind, key, n) \<in> set es"
  shows "P (fold (\<lambda>(kind, key, n). book_insert kind key n) es b) = Some n"
proof -
  obtain es1 e es2 where es: "es = es1 @ e # es2" "entry_keys es1 = before" "(case e of (k, y, _) \<Rightarrow> (k, y)) = (kind, key)"
    "entry_keys es2 = after"
    using assms(3) by (auto simp: map_eq_append_conv map_eq_Cons_conv)
  obtain m where e: "e = (kind, key, m)" using es(3) by (cases e) auto
  have "(kind, key, n) \<notin> set es1" "(kind, key, n) \<notin> set es2" using es(2,4) assms(4,5) by force+
  then have [simp]: "m = n" using assms(6) es(1) e by auto
  have "P (fold (\<lambda>(kind, key, n). book_insert kind key n) es2 b') = P b'" for b'
    by (rule fold_books_same [where bad = "{(kind, key)}"]) (use skip es(4) assms(4) in auto)
  then show ?thesis using put by (simp add: es(1) e)
qed

lemma book_insert_lookup:
  "(kind, key) \<noteq> (Book_Receipt, k) \<Longrightarrow> bt_get (bk_receipts (book_insert kind key n b)) k = bt_get (bk_receipts b) k"
  "(kind, key) \<noteq> (Book_Unit, k) \<Longrightarrow> bt_get (bk_units (book_insert kind key n b)) k = bt_get (bk_units b) k"
  "(kind, key) \<noteq> (Book_Lease, k) \<Longrightarrow> bt_get (bk_leases (book_insert kind key n b)) k = bt_get (bk_leases b) k"
  "(\<forall>r. (kind, key) \<noteq> (Book_CancelDelivery r, k)) \<Longrightarrow>
     bt_get (bk_cancel_deliveries (book_insert kind key n b)) k = bt_get (bk_cancel_deliveries b) k"
  "(kind = Book_Event \<longrightarrow> parse_u64 key \<noteq> Some c) \<Longrightarrow>
     bt_get (bk_events (book_insert kind key n b)) c = bt_get (bk_events b) c"
  "(\<forall>i. (kind, key) \<noteq> (Book_Effect i, k)) \<Longrightarrow> bt_get (bk_effects (book_insert kind key n b)) k = bt_get (bk_effects b) k"
  "(\<forall>i. (kind, key) \<noteq> (Book_CancelRequest k, i)) \<Longrightarrow>
     bt_get (bk_cancel_roots (book_insert kind key n b)) k = bt_get (bk_cancel_roots b) k"
  by (cases kind; auto simp: table_simps split: option.splits)+

lemma book_insert_put:
  "bt_get (bk_receipts (book_insert Book_Receipt k n b)) k = Some n"
  "bt_get (bk_leases (book_insert Book_Lease k n b)) k = Some n"
  by (simp_all add: table_simps)

lemma plan_books_kinds:
  "(Book_Receipt, k) \<notin> set (plan_books plan)" "(Book_Event, k) \<notin> set (plan_books plan)"
  by (cases plan; auto)+

section \<open>One step of the store\<close>

text \<open>
  What a step of the funnel does to the store: a lawful plan is applied to the graph, the rest only adds
  rows, and the new rows are entered in the books: those of the plan, one event for each cursor taken, and a
  receipt under a key that had none.
\<close>

definition moves ::
    "('g, 'x) kernel_env \<Rightarrow> kernel_method \<Rightarrow> 'g store \<Rightarrow> 'g store \<Rightarrow> 'x plan \<Rightarrow> (book_kind \<times> string \<times> node_id) list \<Rightarrow>
     u64 list \<Rightarrow> string list \<Rightarrow> bool" where
  "moves K meth st st' plan es cursors receipts \<longleftrightarrow>
     lawful_plan K meth st plan \<and>
     (\<exists>s0 s1 rest. sg_graph s0 = st_graph st \<and> sg_books s0 = [] \<and> apply_plan K plan s0 = Inr s1 \<and>
        advances K no_diff (sg_graph s1) (st_graph st') \<and> es = sg_books s1 @ rest) \<and>
     st_books st' = fold (\<lambda>(kind, key, n). book_insert kind key n) es (st_books st) \<and>
     (\<forall>(kind, key, n) \<in> set es. node_of K st n = None \<and> tagged K (st_graph st') (book_label kind) n) \<and>
     entry_keys es = plan_books plan @ map (\<lambda>c. (Book_Event, show_nat c)) cursors @ map (Pair Book_Receipt) receipts \<and>
     (\<forall>c \<in> set cursors. st_next_cursor st \<le> c \<and> c < st_next_cursor st') \<and>
     (\<forall>k \<in> set receipts. receipt_node st k = None) \<and> distinct receipts \<and>
     st_next_cursor st \<le> st_next_cursor st' \<and> st_next_cursor st' < U64_MODULUS \<and>
     st_authority_epoch st' = st_authority_epoch st \<and> st_project_id st' = st_project_id st"

lemma stage_accepted_plan:
  assumes ok: "kernel_env_ok K" and run: "stage_accepted K cmd clock_ms epoch a s = (s', Inr u)"
  shows "\<exists>s1. apply_plan K (acc_plan a) s = Inr s1 \<and> evolves K no_diff s1 s'"
proof -
  obtain s1 where 1: "apply_plan K (acc_plan a) s = Inr s1"
    using run by (auto simp: stage_accepted_def split: sum.splits)
  obtain s2 v where 2: "append_events K cmd clock_ms epoch 0 (acc_events a) s1 = (s2, Inr v)"
    using run 1 by (auto simp: stage_accepted_def split: sum.splits prod.splits)
  obtain q n g where 3: "create_node K (sg_graph s2) ''Receipt'' q = Inr (n, g)"
    and s': "s' = s2\<lparr>sg_graph := g, sg_books := sg_books s2 @ [(Book_Receipt, receipt_key cmd, n)]\<rparr>"
    using run 1 2 by (auto simp: stage_accepted_def split: sum.splits)
  have "evolves K no_diff s2 s'" using create_node_ok [OF ok 3] by (auto simp: evolves_def tagged_def s')
  moreover have "evolves K no_diff s1 s2" using append_events_staged [OF ok 2] by blast
  ultimately have "evolves K no_diff s1 s'" using evolves_trans [of K no_diff s1 s2 no_diff s'] by simp
  with 1 show ?thesis by blast
qed

lemma completes_moves:
  assumes ok: "kernel_env_ok K" and run: "completes K cmd a s f f'" and lim: "st_next_cursor (fn_store f) < U64_MODULUS"
  shows "moves K (cmd_method cmd) (fn_store f) (fn_store f') (acc_plan a) (sg_books s)
    [st_next_cursor (fn_store f)..<st_next_cursor (fn_store f')] [receipt_key cmd]"
proof -
  obtain seq where v: "validate K f cmd (pre_read_of K (fn_store f) cmd) = Inr (a, seq)"
    and st: "stage_accepted K cmd (fn_clock_ms f) (st_authority_epoch (fn_store f)) a (stage_of (f\<lparr>fn_mint_seq := seq\<rparr>)) = (s, Inr ())"
    and f': "f' = publish_stage s (f\<lparr>fn_mint_seq := seq\<rparr>)" and key: "receipt_node (fn_store f) (receipt_key cmd) = None"
    using run by (auto simp: completes_def)
  obtain s1 where s1: "apply_plan K (acc_plan a) (stage_of (f\<lparr>fn_mint_seq := seq\<rparr>)) = Inr s1" "evolves K no_diff s1 s"
    using stage_accepted_plan [OF ok st] by blast
  then obtain rest where rest: "sg_books s = sg_books s1 @ rest" by (auto simp: evolves_def)
  have start: "sg_graph (stage_of (f\<lparr>fn_mint_seq := seq\<rparr>)) = st_graph (fn_store f)"
    "sg_books (stage_of (f\<lparr>fn_mint_seq := seq\<rparr>)) = []" by (simp_all add: stage_of_def)
  have adv: "advances K no_diff (sg_graph s1) (st_graph (fn_store f'))"
    using evolves_advances [OF s1(2)] by (simp add: f')
  show ?thesis
  proof (rule completesE [OF ok run])
    assume c: "st_books (fn_store f') = fold (\<lambda>(kind, key, n). book_insert kind key n) (sg_books s) (st_books (fn_store f))"
      "entry_keys (sg_books s) = plan_books (acc_plan a)
        @ map (\<lambda>c. (Book_Event, show_nat c)) [st_next_cursor (fn_store f)..<st_next_cursor (fn_store f')]
        @ [(Book_Receipt, receipt_key cmd)]"
      "\<forall>(kind, key, n) \<in> set (sg_books s). node_properties K (st_graph (fn_store f)) n = None \<and>
        tagged K (st_graph (fn_store f')) (book_label kind) n"
      "st_next_cursor (fn_store f') = st_next_cursor (fn_store f) + length (acc_events a)"
      "st_next_cursor (fn_store f) < U64_MODULUS \<Longrightarrow> st_next_cursor (fn_store f') < U64_MODULUS"
      "st_authority_epoch (fn_store f') = st_authority_epoch (fn_store f)"
    have pid: "st_project_id (fn_store f') = st_project_id (fn_store f)" by (simp add: f')
    have app: "\<exists>s0 s1 rest. sg_graph s0 = st_graph (fn_store f) \<and> sg_books s0 = [] \<and> apply_plan K (acc_plan a) s0 = Inr s1 \<and>
        advances K no_diff (sg_graph s1) (st_graph (fn_store f')) \<and> sg_books s = sg_books s1 @ rest"
      using s1(1) start adv rest by blast
    show ?thesis
      unfolding moves_def using validate_lawful [OF v] app c(1,2,3) c(4) c(5) [OF lim] c(6) pid key
      by simp
  qed
qed

lemma step_moves:
  assumes "funnel_ok K f"
  obtains meth plan es cursors receipts
  where "moves K meth (fn_store f) (fn_store (funnel_step K i f)) plan es cursors receipts"
    and "plan = Plan_Nothing \<or> (\<exists>cmd commit. i = In_Submit cmd commit \<and> meth = cmd_method cmd)"
proof -
  let ?f' = "funnel_step K i f"
  have ok: "kernel_env_ok K" and lim: "st_next_cursor (fn_store f) < U64_MODULUS"
    using assms by (simp_all add: funnel_ok_def cursors_ok_def)
  define s0 where "s0 = \<lparr>sg_graph = st_graph (fn_store f), sg_cursor = 0, sg_seq = 0, sg_books = [], sg_cursors = []\<rparr>"
  have s0: "sg_graph s0 = st_graph (fn_store f)" "sg_books s0 = []" by (simp_all add: s0_def)
  show thesis
  proof (cases rule: step_outcome [OF ok, of f i])
    case 1
    then obtain c where c: "fn_store ?f' = (fn_store f)\<lparr>st_next_cursor := c\<rparr>" "st_next_cursor (fn_store f) \<le> c" "c < U64_MODULUS"
      using lim by (auto simp: kept_def)
    have "moves K (RunOpen [] []) (fn_store f) (fn_store ?f') Plan_Nothing [] [] []"
      unfolding moves_def using s0 c
      by (auto simp: lawful_plan_def advances_def intro!: exI [of _ s0])
    then show thesis by (rule that) simp
  next
    case (2 cmd ct kind detail)
    obtain n where n: "advances K no_diff (st_graph (fn_store f)) (st_graph (fn_store ?f'))"
      "st_books (fn_store ?f') = book_insert Book_Receipt (receipt_key cmd) n (st_books (fn_store f))"
      "node_of K (fn_store f) n = None"
      "tagged K (st_graph (fn_store ?f')) ''Receipt'' n" "st_next_cursor (fn_store ?f') = st_next_cursor (fn_store f)"
      "st_authority_epoch (fn_store ?f') = st_authority_epoch (fn_store f)"
      using rejectsE [OF ok 2] by metis
    have "receipt_node (fn_store f) (receipt_key cmd) = None" "st_project_id (fn_store ?f') = st_project_id (fn_store f)"
      using 2 by (auto simp: rejects_def)
    with n s0 lim have "moves K (RunOpen [] []) (fn_store f) (fn_store ?f') Plan_Nothing [(Book_Receipt, receipt_key cmd, n)] [] [receipt_key cmd]"
      unfolding moves_def by (auto simp: lawful_plan_def intro!: exI [of _ s0])
    then show thesis by (rule that) simp
  next
    case (3 cmd commit a s)
    from completes_moves [OF ok 3(2) lim] 3(1) show thesis by (intro that) blast+
  qed
qed

lemma moves_advances:
  assumes "kernel_env_ok K" and "moves K meth st st' plan es cursors receipts"
  shows "advances K (plan_diff plan) (st_graph st) (st_graph st')"
proof -
  obtain s0 s1 where s: "sg_graph s0 = st_graph st" "apply_plan K plan s0 = Inr s1"
    "advances K no_diff (sg_graph s1) (st_graph st')"
    using assms(2) by (auto simp: moves_def)
  have "advances K (plan_diff plan) (sg_graph s0) (sg_graph s1)"
    using apply_plan_staged [OF assms(1) s(2)] evolves_advances by (auto simp: staged_def)
  with s(1,3) show ?thesis by (auto simp: advances_def)
qed

section \<open>What a step keeps\<close>

lemma moves_row:
  assumes "kernel_env_ok K" and "labels_ok K st" and mv: "moves K meth st st' plan es cursors receipts"
    and "tagged K (st_graph st) l n" and "\<not> mutable_label l"
  shows "node_of K st' n = node_of K st n"
proof -
  have "plan_diff plan n = Map.empty"
    using mv assms by (intro untouched_rows [OF assms(2)]) (auto simp: moves_def tagged_def)
  moreover obtain p where "node_of K st n = Some p" using assms(4) by (auto simp: tagged_def)
  ultimately show ?thesis using moves_advances [OF assms(1) mv] by (simp add: advances_def)
qed

text \<open>A lookup that no entry of a step touches is kept.\<close>

lemma moves_lookup:
  assumes mv: "moves K meth st st' plan es cursors receipts"
    and skip: "\<And>kind key n b. (kind, key) \<notin> bad \<Longrightarrow> P (book_insert kind key n b) = P b"
    and "set (plan_books plan) \<inter> bad = {}" and "\<And>c. c \<in> set cursors \<Longrightarrow> (Book_Event, show_nat c) \<notin> bad"
    and "\<And>k. k \<in> set receipts \<Longrightarrow> (Book_Receipt, k) \<notin> bad"
  shows "P (st_books st') = P (st_books st)"
proof -
  have b: "st_books st' = fold (\<lambda>(kind, key, n). book_insert kind key n) es (st_books st)"
    and e: "entry_keys es = plan_books plan @ map (\<lambda>c. (Book_Event, show_nat c)) cursors @ map (Pair Book_Receipt) receipts"
    using mv by (simp_all add: moves_def)
  have "set (entry_keys es) \<inter> bad = {}" unfolding e using assms(3-5) by auto
  then show ?thesis unfolding b by (intro fold_books_same [where bad = bad] skip)
qed

lemma moves_receipt:
  assumes mv: "moves K meth st st' plan es cursors receipts" and k: "receipt_node st k = Some n"
  shows "receipt_node st' k = Some n"
proof -
  have "\<forall>k \<in> set receipts. receipt_node st k = None" using mv by (simp add: moves_def)
  then have "k \<notin> set receipts" using k by auto
  then have "receipt_node st' k = receipt_node st k"
    by (intro moves_lookup [OF mv, where bad = "{(Book_Receipt, k)}"])
      (auto simp: book_insert_lookup plan_books_kinds)
  with k show ?thesis by simp
qed

lemma moves_event:
  assumes mv: "moves K meth st st' plan es cursors receipts" and c: "c < st_next_cursor st \<or> st_next_cursor st' \<le> c"
  shows "bt_get (bk_events (st_books st')) c = bt_get (bk_events (st_books st)) c"
proof -
  have cur: "\<forall>d \<in> set cursors. st_next_cursor st \<le> d \<and> d < st_next_cursor st'" "st_next_cursor st' < U64_MODULUS"
    using mv by (simp_all add: moves_def)
  have "parse_u64 (show_nat d) \<noteq> Some c" if "d \<in> set cursors" for d
    using cur that c by fastforce
  then show ?thesis
    by (intro moves_lookup [OF mv, where bad = "{(Book_Event, key) | key. parse_u64 key = Some c}"])
      (auto simp: book_insert_lookup plan_books_kinds)
qed

lemma moves_delivery:
  assumes mv: "moves K meth st st' plan es cursors receipts" and k: "cancel_delivery_node st k = Some n"
  shows "cancel_delivery_node st' k = Some n"
proof -
  have "lawful_plan K meth st plan" using mv by (simp add: moves_def)
  then have "(Book_CancelDelivery r, k) \<notin> set (plan_books plan)" for r
    using k by (cases plan) (auto simp: lawful_plan_def)
  then have "cancel_delivery_node st' k = cancel_delivery_node st k"
    by (intro moves_lookup [OF mv, where bad = "{(Book_CancelDelivery r, k) | r. True}"])
      (auto simp: book_insert_lookup)
  with k show ?thesis by simp
qed

section \<open>The journal along a run\<close>

definition rows_kept ::
    "('g, 'x) kernel_env \<Rightarrow> ('g store \<Rightarrow> 'k \<Rightarrow> node_id option) \<Rightarrow> 'g store \<Rightarrow> 'g store \<Rightarrow> bool" where
  "rows_kept K lookup st st' \<longleftrightarrow>
     (\<forall>k n. lookup st k = Some n \<longrightarrow> lookup st' k = Some n \<and> node_of K st' n = node_of K st n)"

lemma rows_keptD:
  "rows_kept K lookup st st' \<Longrightarrow> lookup st k = Some n \<Longrightarrow> lookup st' k = Some n \<and> node_of K st' n = node_of K st n"
  by (simp add: rows_kept_def)

lemma rows_kept_refl: "rows_kept K lookup st st"
  by (simp add: rows_kept_def)

lemma rows_kept_trans: "rows_kept K lookup s t \<Longrightarrow> rows_kept K lookup t u \<Longrightarrow> rows_kept K lookup s u"
  unfolding rows_kept_def by metis

abbreviation event_node :: "'g store \<Rightarrow> u64 \<Rightarrow> node_id option" where
  "event_node st c \<equiv> bt_get (bk_events (st_books st)) c"

definition journal_extends :: "('g, 'x) kernel_env \<Rightarrow> 'g store \<Rightarrow> 'g store \<Rightarrow> bool" where
  "journal_extends K st st' \<longleftrightarrow>
     rows_kept K receipt_node st st' \<and> rows_kept K event_node st st' \<and> rows_kept K cancel_delivery_node st st' \<and>
     (\<forall>c. event_node st' c \<noteq> event_node st c \<longrightarrow> st_next_cursor st \<le> c \<and> c < st_next_cursor st') \<and>
     st_next_cursor st \<le> st_next_cursor st' \<and>
     st_authority_epoch st' = st_authority_epoch st \<and> st_project_id st' = st_project_id st"

lemma journal_extends_refl: "journal_extends K st st"
  by (simp add: journal_extends_def rows_kept_refl)

lemma journal_extends_trans:
  assumes "journal_extends K s t" and "journal_extends K t u"
  shows "journal_extends K s u"
proof -
  have "st_next_cursor s \<le> c \<and> c < st_next_cursor u"
    if "bt_get (bk_events (st_books u)) c \<noteq> bt_get (bk_events (st_books s)) c" for c
  proof (cases "bt_get (bk_events (st_books t)) c = bt_get (bk_events (st_books s)) c")
    case True
    with that have "st_next_cursor t \<le> c \<and> c < st_next_cursor u" using assms(2) by (simp add: journal_extends_def)
    moreover have "st_next_cursor s \<le> st_next_cursor t" using assms(1) by (simp add: journal_extends_def)
    ultimately show ?thesis by simp
  next
    case False
    then have "st_next_cursor s \<le> c \<and> c < st_next_cursor t" using assms(1) by (simp add: journal_extends_def)
    moreover have "st_next_cursor t \<le> st_next_cursor u" using assms(2) by (simp add: journal_extends_def)
    ultimately show ?thesis by simp
  qed
  moreover have "rows_kept K receipt_node s u" "rows_kept K event_node s u" "rows_kept K cancel_delivery_node s u"
    using assms by (auto simp: journal_extends_def intro: rows_kept_trans [of K _ s t u])
  ultimately show ?thesis using assms by (simp add: journal_extends_def)
qed

lemma moves_journal:
  assumes ok: "kernel_env_ok K" and lab: "labels_ok K st" and cur: "cursors_ok st"
    and mv: "moves K meth st st' plan es cursors receipts"
  shows "journal_extends K st st'"
proof -
  note row = moves_row [OF ok lab mv]
  have old: "c < st_next_cursor st" if "bt_get (bk_events (st_books st)) c = Some n" for c n
    using cur bt_get_Some_dom [OF that] unfolding cursors_ok_def by blast
  have ev: "st_next_cursor st \<le> c \<and> c < st_next_cursor st'"
    if "bt_get (bk_events (st_books st')) c \<noteq> bt_get (bk_events (st_books st)) c" for c
    using moves_event [OF mv, of c] that by (meson not_le)
  have rest: "st_next_cursor st \<le> st_next_cursor st'" "st_authority_epoch st' = st_authority_epoch st"
    "st_project_id st' = st_project_id st" using mv by (simp_all add: moves_def)
  have im: "\<not> mutable_label ''Receipt''" "\<not> mutable_label ''Event''" "\<not> mutable_label ''CancelDelivery''"
    by (simp_all add: mutable_label_def)
  have r: "receipt_node st' k = Some n \<and> node_of K st' n = node_of K st n" if "receipt_node st k = Some n" for k n
    using moves_receipt [OF mv that] row [OF labels_okD(8) [OF lab that] im(1)] by simp
  have e: "bt_get (bk_events (st_books st')) c = Some n \<and> node_of K st' n = node_of K st n"
    if "bt_get (bk_events (st_books st)) c = Some n" for c n
    using moves_event [OF mv, of c] old [OF that] that row [OF labels_okD(12) [OF lab that] im(2)] by simp
  have d: "cancel_delivery_node st' k = Some n \<and> node_of K st' n = node_of K st n"
    if "cancel_delivery_node st k = Some n" for k n
    using moves_delivery [OF mv that] row [OF labels_okD(11) [OF lab that] im(3)] by simp
  show ?thesis unfolding journal_extends_def rows_kept_def using r e d ev rest by blast
qed

lemma run_journal:
  assumes "funnel_ok K f"
  shows "journal_extends K (fn_store f) (fn_store (fold (funnel_step K) inputs f))"
proof (rule fn.run_relates [where R = "\<lambda>f g. journal_extends K (fn_store f) (fn_store g)", OF _ _ _ assms])
  fix i f
  assume f: "funnel_ok K f"
  then show "journal_extends K (fn_store f) (fn_store (funnel_step K i f))"
    by (rule step_moves [of K f i]) (use f in \<open>auto simp: funnel_ok_def intro: moves_journal\<close>)
qed (auto intro: journal_extends_refl journal_extends_trans)

section \<open>Answers are kept\<close>

lemma error_kind_roundtrip [simp]: "error_kind_of_wire (error_kind_wire k) = Some k"
  by (cases k) (simp_all add: error_kind_of_wire_def error_kinds_def)

lemma replay_of_receipt:
  assumes "kernel_env_ok K"
  shows "replay_stored K cmd ct (Some (receipt_properties K cmd ct status result cursors)) = replay_result status result"
  by (simp add: replay_stored_def receipt_properties_def prop_str_def prop_u64_def prop_text_def codec_ok [OF assms]
      split: option.splits prod.splits)

lemma replay_of_rejection:
  "replay_result ''rejected'' (json_object [(''error_kind'', JString (error_kind_wire k)), (''detail'', JString d)]) =
     Rejected k d True"
  by (simp add: replay_result_def json_object_def bt_get_def or_empty_def)

lemma replay_of_completion: "replay_result ''completed'' r = Replayed r"
  by (simp add: replay_result_def)

lemma submit_replays:
  assumes "fn_gate f = None" and "\<not> fn_gate_broken f" and "address_is_valid cmd (st_project_id (fn_store f))"
    and "receipt_node (fn_store f) (receipt_key cmd) = Some n"
  shows "submit K commit cmd f = (replay_stored K cmd (method_wire (cmd_method cmd)) (node_of K (fn_store f) n), f)"
  using assms by (simp add: submit_def Let_def)

lemma completes_receipt:
  assumes ok: "kernel_env_ok K" and run: "completes K cmd a s f f'"
  obtains n cs where "receipt_node (fn_store f') (receipt_key cmd) = Some n"
    and "node_of K (fn_store f') n =
      Some (receipt_properties K cmd (method_wire (cmd_method cmd)) ''completed'' (acc_result a) cs)"
proof -
  obtain seq where st: "stage_accepted K cmd (fn_clock_ms f) (st_authority_epoch (fn_store f)) a (stage_of (f\<lparr>fn_mint_seq := seq\<rparr>)) = (s, Inr ())"
    and f': "f' = publish_stage s (f\<lparr>fn_mint_seq := seq\<rparr>)"
    using run by (auto simp: completes_def)
  have none: "sg_cursors (stage_of (f\<lparr>fn_mint_seq := seq\<rparr>)) = []" "sg_books (stage_of (f\<lparr>fn_mint_seq := seq\<rparr>)) = []"
    by (simp_all add: stage_of_def)
  note facts = stage_accepted_ok [OF ok st none(1)]
  obtain n cs where n: "(Book_Receipt, receipt_key cmd, n) \<in> set (sg_books s)"
    "node_properties K (sg_graph s) n = Some (receipt_properties K cmd (method_wire (cmd_method cmd)) ''completed'' (acc_result a) cs)"
    using facts(4) by blast
  have keys: "entry_keys (sg_books s) = (plan_books (acc_plan a) @ map (\<lambda>c. (Book_Event, show_nat c))
      [sg_cursor (stage_of (f\<lparr>fn_mint_seq := seq\<rparr>))..<sg_cursor s]) @ (Book_Receipt, receipt_key cmd) # []"
    using facts(3) none(2) by simp
  have "receipt_node (fn_store f') (receipt_key cmd) = Some n"
    unfolding f' publish_stage_simps
    by (rule fold_books_put [where P = "\<lambda>b. bt_get (bk_receipts b) (receipt_key cmd)", OF _ _ keys _ _ n(1)])
      (auto simp: book_insert_lookup table_simps plan_books_kinds)
  with n(2) show thesis by (intro that) (simp_all add: f')
qed

lemma submitted_address:
  assumes "submit K commit cmd f = (Completed r, f') \<or>
      submit K commit cmd f = (Rejected kind detail b, f') \<and> fn_store f' \<noteq> fn_store f"
  shows "address_is_valid cmd (st_project_id (fn_store f))"
  using assms by (auto simp: submit_def Let_def bad_address_def poisoned_def split: if_splits option.splits)

lemma replay_after:
  assumes f1: "funnel_ok K f1" and addr: "address_is_valid cmd (st_project_id (fn_store f1))"
    and n: "receipt_node (fn_store f1) (receipt_key cmd) = Some n"
    and f2: "f2 = fold (funnel_step K) inputs f1" and up: "fn_gate f2 = None" "\<not> fn_gate_broken f2"
  shows "submit K commit cmd f2 =
    (replay_stored K cmd (method_wire (cmd_method cmd)) (node_of K (fn_store f1) n), f2)"
proof -
  have j: "journal_extends K (fn_store f1) (fn_store f2)" unfolding f2 by (rule run_journal [OF f1])
  then have k: "receipt_node (fn_store f2) (receipt_key cmd) = Some n" "node_of K (fn_store f2) n = node_of K (fn_store f1) n"
    using n by (auto simp: journal_extends_def dest!: rows_keptD)
  have "address_is_valid cmd (st_project_id (fn_store f2))" using j addr by (simp add: journal_extends_def)
  from submit_replays [OF up this k(1), of K commit] k(2) show ?thesis by simp
qed

lemma submit_ok: "funnel_ok K f \<Longrightarrow> submit K commit cmd f = (r, f') \<Longrightarrow> funnel_ok K f'"
  using funnel_ok_step [of K f "In_Submit cmd commit"] by simp

lemma submit_project:
  assumes "funnel_ok K f" and "submit K commit cmd f = (r, f')"
  shows "st_project_id (fn_store f') = st_project_id (fn_store f)"
  using run_journal [OF assms(1), of "[In_Submit cmd commit]"] assms(2) by (simp add: journal_extends_def)

end
