(* ===== verification/Kernel_Ledger.thy ===== *)
theory Kernel_Ledger
  imports Kernel_Journal
begin

text \<open>
  The effect ledger inside the funnel: every row of an effect agrees with the intent it records, and along
  any run of the funnel an intent changes only by the steps of its lifecycle.
\<close>

section \<open>The intents of the ledger\<close>

definition intent_of :: "('g, 'x) kernel_env \<Rightarrow> 'g store \<Rightarrow> string \<Rightarrow> effect_intent option" where
  "intent_of K st key =
     Option.bind (read_effect K st key) (\<lambda>row. case dec_intent K (er_record row) of Inl _ \<Rightarrow> None | Inr i \<Rightarrow> Some i)"

lemma intent_of_Some:
  "intent_of K st key = Some i \<longleftrightarrow>
     (\<exists>n p x. effect_node st key = Some n \<and> node_of K st n = Some p \<and> prop_text p ''record'' = Some x \<and>
        dec_intent K x = Inr i)"
proof -
  have "(case dec_intent K x of Inl _ \<Rightarrow> None | Inr i \<Rightarrow> Some i) = Some i \<longleftrightarrow> dec_intent K x = Inr i" for x
    by (cases "dec_intent K x") auto
  then show ?thesis by (auto simp: intent_of_def read_effect_def Option.bind_eq_Some_conv)
qed

text \<open>The columns of an effect's row repeat what its record says, and its record has a lawful history.\<close>

definition lawful_history :: "effect_intent \<Rightarrow> bool" where
  "lawful_history i \<longleftrightarrow>
     (\<exists>i0. ei_state i0 = Effect_Prepared \<and> ei_terminal i0 = None \<and> (\<lambda>i j. \<exists>meth. effect_step meth i j)\<^sup>*\<^sup>* i0 i)"

definition effect_row_ok :: "('g, 'x) kernel_env \<Rightarrow> 'g store \<Rightarrow> node_id \<Rightarrow> bool" where
  "effect_row_ok K st n \<longleftrightarrow>
     (\<exists>p x i. node_of K st n = Some p \<and> prop_text p ''record'' = Some x \<and> dec_intent K x = Inr i \<and>
        prop_str p ''state'' = Some (effect_state_wire (ei_state i)) \<and>
        prop_str p ''terminal'' = map_option terminal_wire (ei_terminal i) \<and>
        prop_u64 p ''version'' = Some (ei_version i) \<and> prop_str p ''unit_id'' = Some (ei_unit_id i) \<and>
        lawful_history i)"

definition effects_ok :: "('g, 'x) kernel_env \<Rightarrow> 'g store \<Rightarrow> bool" where
  "effects_ok K st \<longleftrightarrow> all_vals (effect_row_ok K st) (bk_effects (st_books st))"

lemma history_settled: "lawful_history i \<Longrightarrow> ei_terminal i \<noteq> None \<longleftrightarrow> ei_state i = Effect_Settled"
proof -
  assume "lawful_history i"
  then obtain i0 where i0: "ei_state i0 = Effect_Prepared" "ei_terminal i0 = None" and "(\<lambda>i j. \<exists>meth. effect_step meth i j)\<^sup>*\<^sup>* i0 i"
    by (auto simp: lawful_history_def)
  from this(3) show ?thesis
  proof (induction rule: rtranclp_induct)
    case base
    with i0 show ?case by simp
  next
    case (step j k)
    then obtain meth where "effect_step meth j k" by blast
    with step(3) show ?case using effect_step_open [of meth j k] effect_step_settled [of meth j k] by auto
  qed
qed

text \<open>What an update writes in the row of an effect that becomes the intent \<open>j\<close>.\<close>

definition effect_columns :: "('g, 'x) kernel_env \<Rightarrow> effect_intent \<Rightarrow> 'x props" where
  "effect_columns K j =
     map_of ([(''version'', VUint (ei_version j)), (''state'', VString (effect_state_wire (ei_state j))),
       (''record'', VText (enc_intent K j))]
       @ (case map_option terminal_wire (ei_terminal j) of None \<Rightarrow> [] | Some t \<Rightarrow> [(''terminal'', VString t)]))"

section \<open>What a plan does to the row of an effect\<close>

lemma effect_diff:
  assumes lab: "labels_ok K st" and law: "lawful_plan K meth st plan" and n: "node_label K (st_graph st) n = Some ''Effect''"
  obtains "plan_diff plan n = Map.empty"
  | v rec j where "changes_effect K meth st n v rec j" and "plan_diff plan n = effect_columns K j" and "plan \<noteq> Plan_Nothing"
proof (cases "''Effect'' \<in> plan_labels plan")
  case False
  from other_labels [OF lab law n False] show thesis by (rule that)
next
  case True
  then consider p where "plan = Plan_CancelRecordDelivery p" | m v state t rec where "plan = Plan_UpdateEffect m v state t rec"
    by (cases plan) auto
  then show thesis
  proof cases
    case (1 p)
    with law n labels_okD(9) [OF lab] have req: "cdp_request_node p \<noteq> n"
      by (fastforce simp: lawful_plan_def tagged_def dest!: request_data_node)
    show thesis
    proof (cases "\<exists>park. cdp_park_effect p = Some park \<and> epp_node park = n")
      case True
      then obtain park where park: "cdp_park_effect p = Some park" "epp_node park = n" by blast
      with law 1 obtain j where j: "changes_effect K meth st n (epp_version park) (epp_record park) j"
        "ei_state j = Effect_Reconciling" "ei_terminal j = None" by (auto simp: lawful_plan_def)
      show thesis
        by (rule that(2) [OF j(1)])
          (use j park req 1 in \<open>auto simp: at_node_def park_diff_def effect_columns_def changes_effect_def\<close>)
    next
      case False
      with req 1 have "plan_diff plan n = Map.empty"
        by (auto simp: at_node_other park_diff_def split: option.splits)
      then show thesis by (rule that)
    qed
  next
    case (2 m v state t rec)
    with law obtain j where j: "changes_effect K meth st m v rec j" "state = effect_state_wire (ei_state j)"
      "t = map_option terminal_wire (ei_terminal j)" by (auto simp: lawful_plan_def)
    show thesis
    proof (cases "m = n")
      case True
      with j show thesis
        by (intro that(2)) (auto simp: 2 at_node_def effect_columns_def changes_effect_def)
    next
      case False
      with 2 show thesis by (intro that(1)) (simp add: at_node_other)
    qed
  qed
qed

text \<open>A step of the store leaves the row of an effect alone or takes one step of its lifecycle.\<close>

lemma moves_effect_row:
  assumes ok: "kernel_env_ok K" and lab: "labels_ok K st" and mv: "moves K meth st st' plan es cursors receipts"
    and n: "tagged K (st_graph st) ''Effect'' n"
  obtains "node_of K st' n = node_of K st n"
  | p x i j where "node_of K st n = Some p" and "prop_text p ''record'' = Some x" and "dec_intent K x = Inr i"
    and "effect_step meth i j" and "node_of K st' n = Some (p ++ effect_columns K j)" and "plan \<noteq> Plan_Nothing"
proof -
  obtain p where p: "node_of K st n = Some p" using n by (auto simp: tagged_def)
  then have p': "node_of K st' n = Some (p ++ plan_diff plan n)"
    using moves_advances [OF ok mv] by (simp add: advances_def)
  have law: "lawful_plan K meth st plan" using mv by (simp add: moves_def)
  have l: "node_label K (st_graph st) n = Some ''Effect''" using n by (simp add: tagged_def)
  show thesis
  proof (rule effect_diff [OF lab law l])
    assume "plan_diff plan n = Map.empty"
    with p p' show thesis by (intro that(1)) simp
  next
    fix v rec j
    assume j: "changes_effect K meth st n v rec j" and d: "plan_diff plan n = effect_columns K j" "plan \<noteq> Plan_Nothing"
    then obtain x i where "prop_text p ''record'' = Some x" "dec_intent K x = Inr i" "effect_step meth i j"
      using p by (auto simp: changes_effect_def)
    with p p' d show thesis by (intro that(2)) simp_all
  qed
qed

lemma effect_columns_read:
  assumes "kernel_env_ok K"
  shows "\<exists>x. prop_text (p ++ effect_columns K j) ''record'' = Some x \<and> dec_intent K x = Inr j"
    and "prop_str (p ++ effect_columns K j) ''state'' = Some (effect_state_wire (ei_state j))"
    and "prop_u64 (p ++ effect_columns K j) ''version'' = Some (ei_version j)"
    and "prop_str (p ++ effect_columns K j) ''unit_id'' = prop_str p ''unit_id''"
    and "prop_str (p ++ effect_columns K j) ''terminal'' =
      (case ei_terminal j of None \<Rightarrow> prop_str p ''terminal'' | Some t \<Rightarrow> Some (terminal_wire t))"
  using codec_ok(1) [OF assms]
  by (auto simp: effect_columns_def prop_text_def prop_str_def prop_u64_def map_add_def split: option.splits)

lemma effect_row_step:
  assumes ok: "kernel_env_ok K" and row: "effect_row_ok K st n" and p: "node_of K st n = Some p"
    and x: "prop_text p ''record'' = Some x" "dec_intent K x = Inr i"
    and step: "effect_step meth i j" and p': "node_of K st' n = Some (p ++ effect_columns K j)"
  shows "effect_row_ok K st' n"
proof -
  have cols: "prop_str p ''terminal'' = map_option terminal_wire (ei_terminal i)" "prop_str p ''unit_id'' = Some (ei_unit_id i)"
    and hist: "lawful_history i"
    using row p x by (auto simp: effect_row_ok_def)
  note rd = effect_columns_read [OF ok, of p j]
  have "lawful_history j" using hist step by (auto simp: lawful_history_def intro: rtranclp.rtrancl_into_rtrancl)
  moreover have "ei_unit_id j = ei_unit_id i" using effect_step_identity [OF step] by simp
  moreover have "prop_str (p ++ effect_columns K j) ''terminal'' = map_option terminal_wire (ei_terminal j)"
    using rd(5) cols(1) effect_step_open [OF step] by (cases "ei_terminal j") simp_all
  ultimately show ?thesis using rd(1-4) cols(2) p' unfolding effect_row_ok_def by auto
qed

section \<open>New effects\<close>

lemma created_effect:
  assumes ok: "kernel_env_ok K" and mv: "moves K meth st st' plan es cursors receipts"
    and e: "(Book_Effect intent_id, key, n) \<in> set es"
  obtains u ep i where "plan = Plan_CreateEffect key intent_id u ep (enc_intent K i)"
    and "ei_state i = Effect_Prepared" and "ei_terminal i = None" and "ei_version i = 1" and "ei_unit_id i = u"
    and "node_of K st' n = Some (map_of [(''operation_key'', VString key), (''effect_intent_id'', VString intent_id),
      (''unit_id'', VString u), (''attempt_epoch'', VUint ep), (''version'', VUint 1), (''state'', VString ''prepared''),
      (''record'', VText (enc_intent K i))])"
proof -
  have keys: "entry_keys es = plan_books plan @ map (\<lambda>c. (Book_Event, show_nat c)) cursors @ map (Pair Book_Receipt) receipts"
    and law: "lawful_plan K meth st plan" using mv by (simp_all add: moves_def)
  have "(Book_Effect intent_id, key) \<in> set (entry_keys es)" using e by force
  then have "(Book_Effect intent_id, key) \<in> set (plan_books plan)" unfolding keys by auto
  then obtain u ep rec where plan: "plan = Plan_CreateEffect key intent_id u ep rec"
    by (cases plan) (auto split: if_splits)
  with law obtain i where i: "rec = enc_intent K i" "ei_state i = Effect_Prepared" "ei_terminal i = None" "ei_version i = 1"
    "ei_unit_id i = u" by (auto simp: lawful_plan_def)
  define q where "q = map_of [(''operation_key'', VString key), (''effect_intent_id'', VString intent_id), (''unit_id'', VString u),
    (''attempt_epoch'', VUint ep), (''version'', VUint 1), (''state'', VString ''prepared''), (''record'', VText rec)]"
  obtain s0 s1 rest where s: "sg_books s0 = []" "apply_plan K plan s0 = Inr s1"
    "advances K no_diff (sg_graph s1) (st_graph st')" "es = sg_books s1 @ rest"
    using mv by (auto simp: moves_def)
  obtain m where m: "sg_books s1 = [(Book_Effect intent_id, key, m)]" "node_properties K (sg_graph s1) m = Some q"
    using create_row_evolves [OF ok, of "Book_Effect intent_id"] s(1,2) unfolding plan q_def by fastforce
  have "entry_keys rest = map (\<lambda>c. (Book_Event, show_nat c)) cursors @ map (Pair Book_Receipt) receipts"
    using keys s(4) m(1) plan by simp
  then have "(Book_Effect intent_id, key) \<notin> set (entry_keys rest)" by auto
  then have "(Book_Effect intent_id, key, n) \<notin> set rest" by force
  then have "n = m" using e s(4) m(1) by auto
  then have "node_of K st' n = Some q" using m(2) s(3) by (simp add: advances_def)
  with plan i show thesis by (intro that) (simp_all add: q_def)
qed

lemma created_effect_ok:
  assumes "kernel_env_ok K" and "moves K meth st st' plan es cursors receipts" and "(Book_Effect intent_id, key, n) \<in> set es"
  shows "effect_row_ok K st' n"
proof (rule created_effect [OF assms])
  fix u ep i
  assume "ei_state i = Effect_Prepared" "ei_terminal i = None" "ei_version i = 1" "ei_unit_id i = u"
    "node_of K st' n = Some (map_of [(''operation_key'', VString key), (''effect_intent_id'', VString intent_id),
      (''unit_id'', VString u), (''attempt_epoch'', VUint ep), (''version'', VUint 1), (''state'', VString ''prepared''),
      (''record'', VText (enc_intent K i))])"
  then show ?thesis using codec_ok(1) [OF assms(1)]
    by (auto simp: effect_row_ok_def prop_text_def prop_str_def prop_u64_def lawful_history_def)
qed

lemma fold_book_effects:
  "all_vals Q (bk_effects b) \<Longrightarrow> (\<And>i key n. (Book_Effect i, key, n) \<in> set es \<Longrightarrow> Q n) \<Longrightarrow>
     all_vals Q (bk_effects (fold (\<lambda>(kind, key, n). book_insert kind key n) es b))"
proof (induction es arbitrary: b)
  case (Cons e es)
  obtain kind key n where e: "e = (kind, key, n)" by (cases e)
  have "all_vals Q (bk_effects (book_insert kind key n b))"
  proof (cases kind)
    case (Book_Effect i)
    then show ?thesis using Cons.prems(1) Cons.prems(2) [of i key n] by (simp add: e all_vals_insert)
  qed (use Cons.prems(1) in \<open>simp_all split: option.splits\<close>)
  from Cons.IH [OF this] Cons.prems(2) show ?case by (auto simp: e)
qed simp

lemma effects_ok_step:
  assumes ok: "kernel_env_ok K" and lab: "labels_ok K st" and eff: "effects_ok K st"
    and mv: "moves K meth st st' plan es cursors receipts"
  shows "effects_ok K st'"
proof -
  have old: "effect_row_ok K st' n" if tag: "tagged K (st_graph st) ''Effect'' n" and row: "effect_row_ok K st n" for n
  proof (rule moves_effect_row [OF ok lab mv tag])
    assume "node_of K st' n = node_of K st n"
    with row show ?thesis by (simp add: effect_row_ok_def)
  next
    fix p x i j
    assume "node_of K st n = Some p" "prop_text p ''record'' = Some x" "dec_intent K x = Inr i" "effect_step meth i j"
      "node_of K st' n = Some (p ++ effect_columns K j)"
    then show ?thesis by (rule effect_row_step [OF ok row])
  qed
  have "all_vals (tagged K (st_graph st) ''Effect'') (bk_effects (st_books st))"
    using lab by (simp add: labels_ok_def books_all_def)
  then have "all_vals (effect_row_ok K st') (bk_effects (st_books st))"
    using eff old unfolding effects_ok_def all_vals_def by blast
  moreover have "st_books st' = fold (\<lambda>(kind, key, n). book_insert kind key n) es (st_books st)"
    using mv by (simp add: moves_def)
  ultimately show ?thesis
    unfolding effects_ok_def using fold_book_effects [of "effect_row_ok K st'"] created_effect_ok [OF ok mv] by simp
qed

section \<open>The lifecycle along a run\<close>

lemma moves_intent:
  assumes ok: "kernel_env_ok K" and lab: "labels_ok K st" and mv: "moves K meth st st' plan es cursors receipts"
    and i: "intent_of K st key = Some i"
  shows "\<exists>j. intent_of K st' key = Some j \<and> (j = i \<or> plan \<noteq> Plan_Nothing \<and> effect_step meth i j)"
proof -
  obtain n p x where n: "effect_node st key = Some n" and p: "node_of K st n = Some p"
    and x: "prop_text p ''record'' = Some x" "dec_intent K x = Inr i"
    using i by (auto simp: intent_of_Some)
  have law: "lawful_plan K meth st plan" using mv by (simp add: moves_def)
  have "read_effect K st key \<noteq> None" using i by (cases "read_effect K st key") (simp_all add: intent_of_def)
  then have "(Book_Effect a, key) \<notin> set (plan_books plan)" for a
    using law by (cases plan) (auto simp: lawful_plan_def)
  then have "effect_node st' key = effect_node st key"
    by (intro moves_lookup [OF mv, where bad = "{(Book_Effect a, key) | a. True}"]) (auto simp: book_insert_lookup)
  then have n': "effect_node st' key = Some n" using n by simp
  show ?thesis
  proof (rule moves_effect_row [OF ok lab mv labels_okD(6) [OF lab n]])
    assume "node_of K st' n = node_of K st n"
    with n' p x have "intent_of K st' key = Some i" by (auto simp: intent_of_Some)
    then show ?thesis by blast
  next
    fix p' x' i' j
    assume j: "node_of K st n = Some p'" "prop_text p' ''record'' = Some x'" "dec_intent K x' = Inr i'" "effect_step meth i' j"
      "node_of K st' n = Some (p' ++ effect_columns K j)" "plan \<noteq> Plan_Nothing"
    with p x have "i' = i" by simp
    moreover have "intent_of K st' key = Some j"
      using n' j(5) effect_columns_read(1) [OF ok, of p' j] by (auto simp: intent_of_Some)
    ultimately show ?thesis using j(4,6) by blast
  qed
qed

lemma step_intent:
  assumes f: "funnel_ok K f" and i: "intent_of K (fn_store f) key = Some i"
  shows "\<exists>j. intent_of K (fn_store (funnel_step K c f)) key = Some j \<and>
    (j = i \<or> (\<exists>cmd commit. c = In_Submit cmd commit \<and> effect_step (cmd_method cmd) i j))"
proof (rule step_moves [OF f, of c])
  fix meth plan es cursors receipts
  assume mv: "moves K meth (fn_store f) (fn_store (funnel_step K c f)) plan es cursors receipts"
    and m: "plan = Plan_Nothing \<or> (\<exists>cmd commit. c = In_Submit cmd commit \<and> meth = cmd_method cmd)"
  have "kernel_env_ok K" "labels_ok K (fn_store f)" using f by (simp_all add: funnel_ok_def)
  from moves_intent [OF this mv i] m show ?thesis by blast
qed

text \<open>
  A life of an effect along a sequence of inputs: each input leaves the intent as it is, or is a command that
  takes one step of its lifecycle.
\<close>

fun lifecycle_run :: "funnel_input list \<Rightarrow> effect_intent \<Rightarrow> effect_intent \<Rightarrow> bool" where
  "lifecycle_run [] i j \<longleftrightarrow> j = i"
| "lifecycle_run (c # cs) i j \<longleftrightarrow>
     lifecycle_run cs i j \<or>
     (\<exists>cmd commit k. c = In_Submit cmd commit \<and> effect_step (cmd_method cmd) i k \<and> lifecycle_run cs k j)"

lemma run_intent:
  assumes "funnel_ok K f" and "intent_of K (fn_store f) key = Some i"
  shows "\<exists>j. intent_of K (fn_store (fold (funnel_step K) inputs f)) key = Some j \<and> lifecycle_run inputs i j"
  using assms
proof (induction inputs arbitrary: f i)
  case (Cons c inputs)
  obtain k where k: "intent_of K (fn_store (funnel_step K c f)) key = Some k"
    "k = i \<or> (\<exists>cmd commit. c = In_Submit cmd commit \<and> effect_step (cmd_method cmd) i k)"
    using step_intent [OF Cons.prems] by blast
  from Cons.IH [OF funnel_ok_step [OF Cons.prems(1)] k(1)] k(2) show ?case by auto
qed simp

lemma lifecycle_settled: "lifecycle_run inputs i j \<Longrightarrow> ei_terminal i \<noteq> None \<Longrightarrow> j = i"
  by (induction inputs arbitrary: i) (auto dest: effect_step_open)

lemma step_effects_ok:
  assumes f: "funnel_ok K f" and "effects_ok K (fn_store f)"
  shows "effects_ok K (fn_store (funnel_step K c f))"
  by (rule step_moves [OF f, of c], rule effects_ok_step [OF _ _ assms(2)]) (use f in \<open>auto simp: funnel_ok_def\<close>)

end
