(* ===== verification/Kernel_Fence.thy ===== *)
theory Kernel_Fence
  imports Kernel_Journal
begin

text \<open>
  Fencing: the attempt epoch and the stamp of a unit never go back, so that a token they have overtaken is
  refused for ever, while the token of the latest dispatch passes the gate of its holder.
\<close>

section \<open>The fence of a unit\<close>

definition unit_columns :: "'x props \<Rightarrow> 'x props \<Rightarrow> bool" where
  "unit_columns p q \<longleftrightarrow>
     or_zero (prop_u64 p ''current_attempt_epoch'') \<le> or_zero (prop_u64 q ''current_attempt_epoch'') \<and>
     or_zero (prop_u64 p ''stamp'') \<le> or_zero (prop_u64 q ''stamp'') \<and>
     prop_str q ''run_id'' = prop_str p ''run_id'' \<and> prop_str q ''work_item_id'' = prop_str p ''work_item_id''"

text \<open>The three parts of a dispatch touch rows of different labels.\<close>

lemma dispatch_diff:
  fixes K :: "('g, 'x) kernel_env"
  assumes lab: "labels_ok K st" and law: "lawful_plan K meth st (Plan_Dispatch d)"
  shows "node_label K (st_graph st) n = Some ''Unit'' \<Longrightarrow> (plan_diff (Plan_Dispatch d) n :: 'x props) =
      at_node (dp_unit_node d) [(''version'', VUint (dp_new_version d)), (''current_attempt_epoch'', VUint (dp_new_epoch d)),
        (''status'', VString ''dispatched'')] n"
    and "node_label K (st_graph st) n = Some ''Lease'' \<Longrightarrow> (plan_diff (Plan_Dispatch d) n :: 'x props) = lease_diff d n"
proof -
  have no: "node_label K (st_graph st) n \<noteq> Some ''Attempt'' \<Longrightarrow> (supersede_diff (dp_prior_attempt d) n :: 'x props) = Map.empty"
    "node_label K (st_graph st) n \<noteq> Some ''Lease'' \<Longrightarrow> (lease_diff d n :: 'x props) = Map.empty"
    "node_label K (st_graph st) n \<noteq> Some ''Unit'' \<Longrightarrow> (at_node (dp_unit_node d) pairs n :: 'x props) = Map.empty" for pairs
    using law labels_okD(1-3) [OF lab]
    by (fastforce simp: lawful_plan_def read_unit_node supersede_diff_def lease_diff_def at_node_def tagged_def split: option.splits)+
  show "node_label K (st_graph st) n = Some ''Unit'' \<Longrightarrow> (plan_diff (Plan_Dispatch d) n :: 'x props) =
      at_node (dp_unit_node d) [(''version'', VUint (dp_new_version d)), (''current_attempt_epoch'', VUint (dp_new_epoch d)),
        (''status'', VString ''dispatched'')] n"
    using no(1,2) by simp
  show "node_label K (st_graph st) n = Some ''Lease'' \<Longrightarrow> (plan_diff (Plan_Dispatch d) n :: 'x props) = lease_diff d n"
    using no(1,3) by simp
qed

lemma unit_diff:
  assumes lab: "labels_ok K st" and law: "lawful_plan K meth st plan" and n: "node_label K (st_graph st) n = Some ''Unit''"
    and p: "node_of K st n = Some p"
  shows "unit_columns p (p ++ plan_diff plan n)"
proof (cases "''Unit'' \<in> plan_labels plan")
  case False
  from other_labels [OF lab law n False] show ?thesis by (simp add: unit_columns_def)
next
  case True
  then consider d where "plan = Plan_Dispatch d" | m v s where "plan = Plan_BumpUnit m v s" by (cases plan) auto
  then show ?thesis
  proof cases
    case (1 d)
    then obtain row where "ur_node row = dp_unit_node d" "dp_new_epoch d = ur_epoch row + 1"
      "read_unit K st (dp_unit_id d) = Some row" using law by (auto simp: lawful_plan_def)
    with p dispatch_diff(1) [OF lab law [unfolded 1] n] show ?thesis unfolding 1
      by (auto simp del: plan_diff.simps
          simp: unit_columns_def at_node_def read_unit_node prop_u64_def prop_str_def or_zero_def)
  next
    case (2 m v s)
    with law obtain u row where "read_unit K st u = Some row" "m = ur_node row" "s = Some (ur_stamp row + 1)"
      by (auto simp: lawful_plan_def)
    with p show ?thesis
      by (auto simp: 2 unit_columns_def at_node_def read_unit_node prop_u64_def prop_str_def or_zero_def)
  qed
qed

lemma moves_unit_node:
  assumes mv: "moves K meth st st' plan es cursors receipts" and u: "read_unit K st u \<noteq> None"
  shows "unit_node st' u = unit_node st u"
proof -
  have "lawful_plan K meth st plan" using mv by (simp add: moves_def)
  then have "(Book_Unit, u) \<notin> set (plan_books plan)" using u by (cases plan) (auto simp: lawful_plan_def split: if_splits)
  then show ?thesis
    by (intro moves_lookup [OF mv, where bad = "{(Book_Unit, u)}"]) (auto simp: book_insert_lookup)
qed

definition unit_advances :: "unit_row \<Rightarrow> unit_row \<Rightarrow> bool" where
  "unit_advances row row' \<longleftrightarrow> ur_node row' = ur_node row \<and> ur_epoch row \<le> ur_epoch row' \<and> ur_stamp row \<le> ur_stamp row'"

lemma moves_unit:
  assumes ok: "kernel_env_ok K" and lab: "labels_ok K st" and mv: "moves K meth st st' plan es cursors receipts"
    and u: "read_unit K st u = Some row"
  shows "\<exists>row'. read_unit K st' u = Some row' \<and> unit_advances row row'"
proof -
  obtain p where n: "unit_node st u = Some (ur_node row)" and p: "node_of K st (ur_node row) = Some p"
    and cols: "ur_epoch row = or_zero (prop_u64 p ''current_attempt_epoch'')" "ur_stamp row = or_zero (prop_u64 p ''stamp'')"
    using u by (auto simp: read_unit_node)
  have n': "unit_node st' u = Some (ur_node row)" using moves_unit_node [OF mv] u n by simp
  have p': "node_of K st' (ur_node row) = Some (p ++ plan_diff plan (ur_node row))"
    using moves_advances [OF ok mv] p by (simp add: advances_def)
  have "unit_columns p (p ++ plan_diff plan (ur_node row))"
    using unit_diff [OF lab _ _ p, of meth plan] mv labels_okD(1) [OF lab n] by (simp add: moves_def tagged_def)
  then show ?thesis using n' p' cols by (auto simp: read_unit_def unit_advances_def unit_columns_def)
qed

lemma run_unit:
  assumes "funnel_ok K f" and "read_unit K (fn_store f) u = Some row"
  shows "\<exists>row'. read_unit K (fn_store (fold (funnel_step K) inputs f)) u = Some row' \<and> unit_advances row row'"
  using assms
proof (induction inputs arbitrary: f row)
  case (Cons c inputs)
  have "\<exists>row1. read_unit K (fn_store (funnel_step K c f)) u = Some row1 \<and> unit_advances row row1"
    by (rule step_moves [OF Cons.prems(1), of c], rule moves_unit [OF _ _ _ Cons.prems(2)])
      (use Cons.prems(1) in \<open>auto simp: funnel_ok_def\<close>)
  then obtain row1 where r: "read_unit K (fn_store (funnel_step K c f)) u = Some row1" "unit_advances row row1" by blast
  from Cons.IH [OF funnel_ok_step [OF Cons.prems(1)] r(1)] r(2) show ?case
    by (auto simp: unit_advances_def intro: order_trans)
qed (simp add: unit_advances_def)

section \<open>The gates\<close>

lemma holder_gate_fence:
  assumes "holder_gate current cmd (pre_read_of K st cmd) u = Inr token"
  shows "attempt_token cmd = Some token \<and> tk_unit_id token = u \<and>
    (\<exists>row. read_unit K st u = Some row \<and> tk_attempt_epoch token = ur_epoch row \<and> tk_stamp token = ur_stamp row)"
  using assms
  by (auto simp: holder_gate_def and_then_Inr map_err_Inr token_binds_def check_holder_fence_def unit_fence_of_def
      split: option.splits if_splits)

lemma authority_gate_token: "authority_gate current cmd = Inr x \<Longrightarrow> attempt_token cmd = None"
  by (auto simp: authority_gate_def split: option.splits if_splits)

text \<open>No method is accepted with a token that the fence of its unit does not match.\<close>

lemma validate_token:
  assumes v: "validate K f cmd (pre_read_of K (fn_store f) cmd) = Inr (a, seq)" and t: "attempt_token cmd = Some token"
  shows "\<exists>row. read_unit K (fn_store f) (tk_unit_id token) = Some row \<and> tk_attempt_epoch token = ur_epoch row \<and>
    tk_stamp token = ur_stamp row"
proof -
  have gate: "(\<exists>x. authority_gate (st_authority_epoch (fn_store f)) cmd = Inr x) \<or>
      (\<exists>u x. holder_gate (st_authority_epoch (fn_store f)) cmd (pre_read_of K (fn_store f) cmd) u = Inr x)"
    using v by (cases "cmd_method cmd") (auto simp: validate_def Let_def method_defs and_then_Inr)
  show ?thesis
  proof (cases "\<exists>x. authority_gate (st_authority_epoch (fn_store f)) cmd = Inr x")
    case True
    then show ?thesis using authority_gate_token t by fastforce
  next
    case False
    with gate obtain u x where "holder_gate (st_authority_epoch (fn_store f)) cmd (pre_read_of K (fn_store f) cmd) u = Inr x"
      by blast
    from holder_gate_fence [OF this] t show ?thesis by auto
  qed
qed

section \<open>The token of a dispatch\<close>

lemma created_lease:
  fixes K :: "('g, 'x) kernel_env"
  assumes ok: "kernel_env_ok K" and mv: "moves K meth st st' (Plan_Dispatch d) es cursors receipts"
    and none: "dp_existing_lease d = None"
  obtains n where "lease_node st' (dp_unit_id d) = Some n"
    and "node_of K st' n = Some (map_of [(''unit_id'', VString (dp_unit_id d)), (''attempt_epoch'', VUint (dp_new_epoch d)),
      (''holder_id'', VString (dp_holder_id d)), (''status'', VString ''active''), (''version'', VUint 1)])"
proof -
  let ?u = "dp_unit_id d"
  define q :: "'x props" where "q = map_of [(''unit_id'', VString ?u), (''attempt_epoch'', VUint (dp_new_epoch d)),
      (''holder_id'', VString (dp_holder_id d)), (''status'', VString ''active''), (''version'', VUint 1)]"
  obtain s0 s1 rest where s: "apply_plan K (Plan_Dispatch d) s0 = Inr s1"
    "advances K no_diff (sg_graph s1) (st_graph st')" "es = sg_books s1 @ rest"
    using mv unfolding moves_def by blast
  have b: "st_books st' = fold (\<lambda>(kind, key, n). book_insert kind key n) es (st_books st)"
    and keys: "entry_keys es = (Book_Attempt (dp_attempt_id d), attempt_key ?u (dp_new_epoch d)) # (Book_Lease, ?u)
      # map (\<lambda>c. (Book_Event, show_nat c)) cursors @ map (Pair Book_Receipt) receipts"
    using mv none by (simp_all add: moves_def)
  obtain s3 where s3: "upsert_lease K d s3 = Inr s1"
    using s(1) by (auto simp: apply_dispatch_def Let_def and_then_Inr)
  obtain n where n: "sg_books s1 = sg_books s3 @ [(Book_Lease, ?u, n)]" "node_properties K (sg_graph s1) n = Some q"
  proof -
    have "create_row K (book_label Book_Lease) [(''unit_id'', VString ?u), (''attempt_epoch'', VUint (dp_new_epoch d)),
      (''holder_id'', VString (dp_holder_id d)), (''status'', VString ''active''), (''version'', VUint 1)] Book_Lease ?u s3 = Inr s1"
      using s3 none by (simp add: upsert_lease_def)
    from create_row_evolves [OF ok this] show thesis by (auto simp: q_def intro: that)
  qed
  have "bt_get (bk_leases (st_books st')) ?u = Some n"
    unfolding b
    by (rule fold_books_put [where P = "\<lambda>b. bt_get (bk_leases b) ?u" and kind = Book_Lease and key = ?u
          and before = "[(Book_Attempt (dp_attempt_id d), attempt_key ?u (dp_new_epoch d))]"
          and after = "map (\<lambda>c. (Book_Event, show_nat c)) cursors @ map (Pair Book_Receipt) receipts"])
      (use keys none n(1) s(3) in \<open>auto simp: book_insert_lookup table_simps\<close>)
  moreover have "node_of K st' n = Some q" using n(2) s(2) by (simp add: advances_def)
  ultimately show thesis by (intro that) (simp_all add: q_def)
qed

lemma updated_lease:
  fixes K :: "('g, 'x) kernel_env"
  assumes ok: "kernel_env_ok K" and lab: "labels_ok K st" and mv: "moves K meth st st' (Plan_Dispatch d) es cursors receipts"
    and lease: "dp_existing_lease d = Some (n, v)"
  shows "lease_node st' (dp_unit_id d) = Some n"
    and "\<exists>p. node_of K st' n = Some (p ++ map_of [(''attempt_epoch'', VUint (dp_new_epoch d)), (''holder_id'', VString (dp_holder_id d)),
           (''status'', VString ''active''), (''version'', VUint (v + 1))])"
proof -
  have law: "lawful_plan K meth st (Plan_Dispatch d)" using mv by (simp add: moves_def)
  then have n: "lease_node st (dp_unit_id d) = Some n" using lease by (simp add: lawful_plan_def)
  have "lease_node st' (dp_unit_id d) = lease_node st (dp_unit_id d)"
    by (intro moves_lookup [OF mv, where bad = "{(Book_Lease, dp_unit_id d)}"]) (use lease in \<open>auto simp: book_insert_lookup\<close>)
  with n show "lease_node st' (dp_unit_id d) = Some n" by simp
  obtain p where p: "node_of K st n = Some p" and t: "node_label K (st_graph st) n = Some ''Lease''"
    using labels_okD(2) [OF lab n] by (auto simp: tagged_def)
  have "(plan_diff (Plan_Dispatch d) n :: 'x props) = map_of [(''attempt_epoch'', VUint (dp_new_epoch d)),
      (''holder_id'', VString (dp_holder_id d)), (''status'', VString ''active''), (''version'', VUint (v + 1))]"
    unfolding dispatch_diff(2) [OF lab law t] using lease by (simp add: at_node_def lease_diff_def)
  then show "\<exists>p. node_of K st' n = Some (p ++ map_of [(''attempt_epoch'', VUint (dp_new_epoch d)), (''holder_id'', VString (dp_holder_id d)),
           (''status'', VString ''active''), (''version'', VUint (v + 1))])"
    using moves_advances [OF ok mv] p unfolding advances_def by metis
qed

lemma dispatched_lease:
  assumes "kernel_env_ok K" and "labels_ok K st" and "moves K meth st st' (Plan_Dispatch d) es cursors receipts"
  shows "\<exists>l. read_lease K st' (dp_unit_id d) = Some l \<and> lr_holder_id l = dp_holder_id d \<and> lr_status l = ''active''"
proof (cases "dp_existing_lease d")
  case None
  show ?thesis
    by (rule created_lease [OF assms(1,3) None]) (simp add: read_lease_def prop_str_def)
next
  case (Some lv)
  obtain n v where [simp]: "lv = (n, v)" by (cases lv)
  from updated_lease [OF assms, of n v] Some show ?thesis by (auto simp: read_lease_def prop_str_def)
qed

lemma dispatched_unit:
  fixes K :: "('g, 'x) kernel_env"
  assumes ok: "kernel_env_ok K" and lab: "labels_ok K st" and mv: "moves K meth st st' (Plan_Dispatch d) es cursors receipts"
  shows "\<exists>row. read_unit K st' (dp_unit_id d) = Some row \<and> ur_epoch row = dp_new_epoch d \<and> ur_stamp row = dp_stamp d"
proof -
  have law: "lawful_plan K meth st (Plan_Dispatch d)" using mv by (simp add: moves_def)
  then obtain row where row: "read_unit K st (dp_unit_id d) = Some row" "dp_unit_node d = ur_node row" "dp_stamp d = ur_stamp row"
    by (auto simp: lawful_plan_def)
  obtain p where n: "unit_node st (dp_unit_id d) = Some (ur_node row)" and p: "node_of K st (ur_node row) = Some p"
    "ur_stamp row = or_zero (prop_u64 p ''stamp'')"
    using row(1) by (auto simp: read_unit_node)
  have t: "node_label K (st_graph st) (ur_node row) = Some ''Unit''" using labels_okD(1) [OF lab n] by (simp add: tagged_def)
  have "(plan_diff (Plan_Dispatch d) (ur_node row) :: 'x props) = map_of [(''version'', VUint (dp_new_version d)),
      (''current_attempt_epoch'', VUint (dp_new_epoch d)), (''status'', VString ''dispatched'')]"
    unfolding dispatch_diff(1) [OF lab law t] using row(2) by (simp add: at_node_def)
  then have "node_of K st' (ur_node row) = Some (p ++ map_of [(''version'', VUint (dp_new_version d)),
      (''current_attempt_epoch'', VUint (dp_new_epoch d)), (''status'', VString ''dispatched'')])"
    using moves_advances [OF ok mv] p(1) unfolding advances_def by metis
  moreover have "unit_node st' (dp_unit_id d) = Some (ur_node row)" using moves_unit_node [OF mv] row(1) n by simp
  ultimately show ?thesis using p(2) row(3) by (simp add: read_unit_def prop_u64_def or_zero_def)
qed

lemma token_of_dispatch:
  "token_from_result (json_object [(''unit_id'', JString u), (''version'', json_u64 v),
     (''attempt_epoch'', json_u64 e), (''attempt_id'', JString a), (''stamp'', json_u64 s),
     (''authority_epoch'', json_u64 c), (''holder_id'', JString h), (''token_nonce'', JString n)]) =
   Some \<lparr>tk_unit_id = u, tk_attempt_epoch = e, tk_stamp = s, tk_authority_epoch = c, tk_holder_id = h, tk_nonce = n\<rparr>"
  by (simp add: token_from_result_def json_object_def bt_get_def)

lemma holder_gate_passes:
  assumes "principal_kind_of cmd = Principal_Agent" and "attempt_token cmd = Some token"
    and "authority_epoch_of cmd = None \<or> authority_epoch_of cmd = Some current"
    and "method_unit_id (cmd_method cmd) = Some u" and "tk_unit_id token = u" and "principal_id cmd = tk_holder_id token"
    and "tk_authority_epoch token = current"
    and "read_unit K st u = Some row" and "tk_attempt_epoch token = ur_epoch row" and "tk_stamp token = ur_stamp row"
    and "read_lease K st u = Some l" and "lr_status l = ''active''" and "lr_holder_id l = tk_holder_id token"
  shows "holder_gate current cmd (pre_read_of K st cmd) u = Inr token"
  using assms
  by (auto simp: holder_gate_def and_then_def map_err_def token_binds_def check_holder_fence_def unit_fence_of_def lease_fence_of_def)

end
