(* ===== verification/Kernel_Bars.thy ===== *)
theory Kernel_Bars
  imports Kernel_Ledger Kernel_Fence
begin

text \<open>
  What a committed cancellation bars, and what a run needs to close as a success: the root of a cancellation
  stays barred in every later state of the funnel, and nothing is admitted below it.
\<close>

section \<open>Barred roots\<close>

definition barred :: "('g, 'x) kernel_env \<Rightarrow> 'g store \<Rightarrow> cancel_kind \<Rightarrow> string \<Rightarrow> bool" where
  "barred K st kind rid \<longleftrightarrow>
     (\<exists>n. cancel_root_node st (cancel_kind_wire kind) rid = Some n \<and>
        node_str K st n ''root_kind'' = Some (cancel_kind_wire kind) \<and> node_str K st n ''root_id'' = Some rid)"

lemma root_key_inject:
  "cancel_kind_wire k @ ''/'' @ r = cancel_kind_wire k' @ ''/'' @ r' \<longleftrightarrow> k = k' \<and> r = r'"
  by (cases k; cases k') auto

lemma plan_diff_root: "plan_diff plan n ''root_kind'' = None" "plan_diff plan n ''root_id'' = None"
  by (cases plan; auto simp: at_node_def supersede_diff_def lease_diff_def park_diff_def map_add_def split: option.splits)+

lemma created_request:
  fixes K :: "('g, 'x) kernel_env"
  assumes ok: "kernel_env_ok K" and mv: "moves K meth st st' (Plan_CreateCancelRequest p) es cursors receipts"
    and kind: "crp_root_kind p = cancel_kind_wire kind"
  shows "barred K st' kind (crp_root_id p)"
proof -
  let ?root = "crp_root_kind p @ ''/'' @ crp_root_id p"
  obtain s0 s1 rest where s: "sg_books s0 = []" "apply_plan K (Plan_CreateCancelRequest p) s0 = Inr s1"
    "advances K no_diff (sg_graph s1) (st_graph st')" "es = sg_books s1 @ rest"
    using mv unfolding moves_def by blast
  have b: "st_books st' = fold (\<lambda>(kind, key, n). book_insert kind key n) es (st_books st)"
    and keys: "entry_keys es = (Book_CancelRequest ?root, crp_request_id p)
      # map (\<lambda>c. (Book_Event, show_nat c)) cursors @ map (Pair Book_Receipt) receipts"
    using mv by (simp_all add: moves_def)
  obtain pairs where row: "create_row K (book_label (Book_CancelRequest ?root)) pairs (Book_CancelRequest ?root) (crp_request_id p) s0 = Inr s1"
    and pairs: "map_of pairs ''root_kind'' = Some (VString (crp_root_kind p))" "map_of pairs ''root_id'' = Some (VString (crp_root_id p))"
    using s(2) by (simp add: apply_create_request_def)
  obtain n where n: "sg_books s1 = [(Book_CancelRequest ?root, crp_request_id p, n)]"
    "node_properties K (sg_graph s1) n = Some (map_of pairs)"
    using create_row_evolves [OF ok row] s(1) by auto
  have "entry_keys rest = map (\<lambda>c. (Book_Event, show_nat c)) cursors @ map (Pair Book_Receipt) receipts"
    using keys s(4) n(1) by simp
  then have "set (entry_keys rest) \<inter> {(Book_CancelRequest ?root, i) | i. True} = {}" by auto
  then have "bt_get (bk_cancel_roots (fold (\<lambda>(kind, key, n). book_insert kind key n) rest b)) ?root = bt_get (bk_cancel_roots b) ?root" for b
    by (intro fold_books_same [where P = "\<lambda>b. bt_get (bk_cancel_roots b) ?root"
          and bad = "{(Book_CancelRequest ?root, i) | i. True}"]) (auto simp: book_insert_lookup)
  then have "bt_get (bk_cancel_roots (st_books st')) ?root = Some n"
    unfolding b s(4) n(1) by (simp add: table_simps)
  moreover have "node_of K st' n = Some (map_of pairs)" using n(2) s(3) by (simp add: advances_def)
  ultimately show ?thesis using pairs kind
    by (simp add: barred_def cancel_root_node_def node_str_def prop_str_def)
qed

lemma moves_barred:
  assumes ok: "kernel_env_ok K" and lab: "labels_ok K st" and mv: "moves K meth st st' plan es cursors receipts"
    and bar: "barred K st kind rid"
  shows "barred K st' kind rid"
proof (cases "\<exists>p. plan = Plan_CreateCancelRequest p \<and> crp_root_kind p @ ''/'' @ crp_root_id p = cancel_kind_wire kind @ ''/'' @ rid")
  case True
  then obtain p where p: "plan = Plan_CreateCancelRequest p"
    "crp_root_kind p @ ''/'' @ crp_root_id p = cancel_kind_wire kind @ ''/'' @ rid" by blast
  obtain k where k: "crp_root_kind p = cancel_kind_wire k" using mv p(1) by (auto simp: moves_def lawful_plan_def)
  then have "k = kind" "crp_root_id p = rid" using p(2) root_key_inject by auto
  with created_request [OF ok mv [unfolded p(1)] k] show ?thesis by simp
next
  case False
  let ?root = "cancel_kind_wire kind @ ''/'' @ rid"
  have "(Book_CancelRequest ?root, i) \<notin> set (plan_books plan)" for i using False by (cases plan) auto
  then have "bt_get (bk_cancel_roots (st_books st')) ?root = bt_get (bk_cancel_roots (st_books st)) ?root"
    by (intro moves_lookup [OF mv, where bad = "{(Book_CancelRequest ?root, i) | i. True}"]) (auto simp: book_insert_lookup)
  moreover obtain n where n: "bt_get (bk_cancel_roots (st_books st)) ?root = Some n"
    "node_str K st n ''root_kind'' = Some (cancel_kind_wire kind)" "node_str K st n ''root_id'' = Some rid"
    using bar by (auto simp: barred_def cancel_root_node_def)
  moreover obtain p where p: "node_of K st n = Some p" using n(2) by (auto simp: node_str_def Option.bind_eq_Some_conv)
  moreover have "node_of K st' n = Some (p ++ plan_diff plan n)"
    using moves_advances [OF ok mv] p by (simp add: advances_def)
  ultimately show ?thesis
    by (simp add: barred_def cancel_root_node_def node_str_def prop_str_def map_add_def plan_diff_root)
qed

lemma run_barred:
  assumes f: "funnel_ok K f" and bar: "barred K (fn_store f) kind rid"
  shows "barred K (fn_store (fold (funnel_step K) inputs f)) kind rid"
proof (rule fn.run_preserves [where P = "\<lambda>f. barred K (fn_store f) kind rid", OF _ f bar])
  fix i f
  assume f: "funnel_ok K f" and bar: "barred K (fn_store f) kind rid"
  show "barred K (fn_store (funnel_step K i f)) kind rid"
    by (rule step_moves [OF f, of i], rule moves_barred [OF _ _ _ bar]) (use f in \<open>auto simp: funnel_ok_def\<close>)
qed

lemma barred_blocks:
  assumes "barred K st kind rid" and "(kind, rid) \<in> set lineage"
  shows "admission_blockers K st child lineage \<noteq> []"
proof -
  obtain b where "admission_blocker K st child (kind, rid) = Some b"
    using assms(1) by (auto simp: barred_def admission_blocker_def Let_def)
  with assms(2) show ?thesis unfolding admission_blockers_def List.map_filter_def by (force simp: filter_empty_conv)
qed

section \<open>Rows of units\<close>

text \<open>Every unit names its run and counts its attempts, so that its lineage can be read.\<close>

definition unit_row_ok :: "('g, 'x) kernel_env \<Rightarrow> 'g store \<Rightarrow> node_id \<Rightarrow> bool" where
  "unit_row_ok K st n \<longleftrightarrow>
     (\<exists>p. node_of K st n = Some p \<and> prop_str p ''run_id'' \<noteq> None \<and> prop_u64 p ''current_attempt_epoch'' \<noteq> None)"

definition units_ok :: "('g, 'x) kernel_env \<Rightarrow> 'g store \<Rightarrow> bool" where
  "units_ok K st \<longleftrightarrow> all_vals (unit_row_ok K st) (bk_units (st_books st))"

lemma plan_diff_unit:
  "plan_diff plan n ''run_id'' = None"
  "plan_diff plan n ''current_attempt_epoch'' = None \<or> (\<exists>e. plan_diff plan n ''current_attempt_epoch'' = Some (VUint e))"
  by (cases plan; auto simp: at_node_def supersede_diff_def lease_diff_def park_diff_def map_add_def split: option.splits)+

lemma fold_book_units:
  "all_vals Q (bk_units b) \<Longrightarrow> (\<And>key n. (Book_Unit, key, n) \<in> set es \<Longrightarrow> Q n) \<Longrightarrow>
     all_vals Q (bk_units (fold (\<lambda>(kind, key, n). book_insert kind key n) es b))"
proof (induction es arbitrary: b)
  case (Cons e es)
  obtain kind key n where e: "e = (kind, key, n)" by (cases e)
  have "all_vals Q (bk_units (book_insert kind key n b))"
  proof (cases kind)
    case Book_Unit
    then show ?thesis using Cons.prems(1) Cons.prems(2) [of key n] by (simp add: e all_vals_insert)
  qed (use Cons.prems(1) in \<open>simp_all split: option.splits\<close>)
  from Cons.IH [OF this] Cons.prems(2) show ?case by (auto simp: e)
qed simp

lemma created_unit_ok:
  assumes ok: "kernel_env_ok K" and mv: "moves K meth st st' plan es cursors receipts" and e: "(Book_Unit, u, n) \<in> set es"
  shows "unit_row_ok K st' n"
proof -
  have keys: "entry_keys es = plan_books plan @ map (\<lambda>c. (Book_Event, show_nat c)) cursors @ map (Pair Book_Receipt) receipts"
    using mv by (simp add: moves_def)
  have "(Book_Unit, u) \<in> set (entry_keys es)" using e by force
  then have "(Book_Unit, u) \<in> set (plan_books plan)" unfolding keys by auto
  then obtain w r where plan: "plan = Plan_CreateUnit u w r" by (cases plan) (auto split: if_splits)
  obtain s0 s1 rest where s: "sg_books s0 = []" "apply_plan K plan s0 = Inr s1"
    "advances K no_diff (sg_graph s1) (st_graph st')" "es = sg_books s1 @ rest"
    using mv unfolding moves_def by blast
  obtain pairs where row: "create_row K (book_label Book_Unit) pairs Book_Unit u s0 = Inr s1"
    and pairs: "map_of pairs ''run_id'' = Some (VString r)" "map_of pairs ''current_attempt_epoch'' = Some (VUint 0)"
    using s(2) by (simp add: plan)
  obtain m where m: "sg_books s1 = [(Book_Unit, u, m)]" "node_properties K (sg_graph s1) m = Some (map_of pairs)"
    using create_row_evolves [OF ok row] s(1) by auto
  have "entry_keys rest = map (\<lambda>c. (Book_Event, show_nat c)) cursors @ map (Pair Book_Receipt) receipts"
    using keys s(4) m(1) plan by simp
  then have "(Book_Unit, u) \<notin> set (entry_keys rest)" by auto
  then have "(Book_Unit, u, n) \<notin> set rest" by force
  then have "n = m" using e s(4) m(1) by auto
  then have "node_of K st' n = Some (map_of pairs)" using m(2) s(3) by (simp add: advances_def)
  with pairs show ?thesis by (simp add: unit_row_ok_def prop_str_def prop_u64_def)
qed

lemma units_ok_step:
  assumes ok: "kernel_env_ok K" and un: "units_ok K st" and mv: "moves K meth st st' plan es cursors receipts"
  shows "units_ok K st'"
proof -
  have "unit_row_ok K st' n" if row: "unit_row_ok K st n" for n
  proof -
    obtain p where p: "node_of K st n = Some p" "prop_str p ''run_id'' \<noteq> None" "prop_u64 p ''current_attempt_epoch'' \<noteq> None"
      using row by (auto simp: unit_row_ok_def)
    have "node_of K st' n = Some (p ++ plan_diff plan n)"
      using moves_advances [OF ok mv] p(1) by (simp add: advances_def)
    with p(2,3) plan_diff_unit [of plan n] show ?thesis
      by (auto simp: unit_row_ok_def prop_str_def prop_u64_def map_add_def)
  qed
  then have "all_vals (unit_row_ok K st') (bk_units (st_books st))"
    using un unfolding units_ok_def all_vals_def by blast
  moreover have "st_books st' = fold (\<lambda>(kind, key, n). book_insert kind key n) es (st_books st)"
    using mv by (simp add: moves_def)
  ultimately show ?thesis
    unfolding units_ok_def using fold_book_units [of "unit_row_ok K st'"] created_unit_ok [OF ok mv] by simp
qed

definition kernel_ok :: "('g, 'x) kernel_env \<Rightarrow> 'g funnel \<Rightarrow> bool" where
  "kernel_ok K f \<longleftrightarrow> funnel_ok K f \<and> effects_ok K (fn_store f) \<and> units_ok K (fn_store f)"

lemma kernel_ok_step: "kernel_ok K f \<Longrightarrow> kernel_ok K (funnel_step K i f)"
proof -
  assume "kernel_ok K f"
  then have f: "funnel_ok K f" and e: "effects_ok K (fn_store f)" and u: "units_ok K (fn_store f)"
    by (simp_all add: kernel_ok_def)
  have "units_ok K (fn_store (funnel_step K i f))"
    by (rule step_moves [OF f, of i], rule units_ok_step [OF _ u]) (use f in \<open>auto simp: funnel_ok_def\<close>)
  then show ?thesis using funnel_ok_step [OF f] step_effects_ok [OF f e] by (simp add: kernel_ok_def)
qed

interpretation kernel: invariant_machine "funnel_step K" "kernel_ok K" for K
  by unfold_locales (rule kernel_ok_step)

section \<open>What stands below a root\<close>

text \<open>A command that would add a unit, an attempt or an effect below the root \<open>(kind, rid)\<close>.\<close>

fun unit_below :: "('g, 'x) kernel_env \<Rightarrow> 'g store \<Rightarrow> string \<Rightarrow> cancel_kind \<Rightarrow> string \<Rightarrow> bool" where
  "unit_below K st u Kind_Run rid \<longleftrightarrow> unit_run_id K st u = Some rid"
| "unit_below K st u Kind_ExecutionUnit rid \<longleftrightarrow> rid = u \<and> unit_node st u \<noteq> None"
| "unit_below K st u _ rid \<longleftrightarrow> False"

fun admits_below :: "('g, 'x) kernel_env \<Rightarrow> 'g store \<Rightarrow> kernel_method \<Rightarrow> cancel_kind \<Rightarrow> string \<Rightarrow> bool" where
  "admits_below K st (UnitAdmit u w r) kind rid \<longleftrightarrow> kind = Kind_Run \<and> rid = r"
| "admits_below K st (UnitDispatch u h) kind rid \<longleftrightarrow> unit_below K st u kind rid"
| "admits_below K st (EffectPrepare u spec) kind rid \<longleftrightarrow> unit_below K st u kind rid"
| "admits_below K st _ kind rid \<longleftrightarrow> False"

lemma unit_lineage_below:
  assumes un: "units_ok K st" and b: "unit_below K st u kind rid"
  shows "\<exists>l. unit_lineage K st u x = Some l \<and> (kind, rid) \<in> set l"
proof -
  obtain n where n: "unit_node st u = Some n"
    using b by (cases kind) (auto simp: unit_run_id_def Option.bind_eq_Some_conv)
  have "unit_row_ok K st n" using un all_vals_get [OF _ n] by (simp add: units_ok_def)
  then show ?thesis using n b
    by (cases kind) (auto simp: unit_row_ok_def unit_lineage_def unit_run_id_def node_str_def node_u64_def Let_def)
qed

lemma admits_below_blocked:
  assumes "units_ok K st" and bar: "barred K st kind rid" and below: "admits_below K st (cmd_method cmd) kind rid"
  shows "blockers_of (pre_read_of K st cmd) \<noteq> []"
proof -
  obtain child lineage where "cancel_pre_read K st (cmd_method cmd) e =
      Some (no_cancel_pre_read\<lparr>cp_admission_blockers := admission_blockers K st child lineage\<rparr>)" "(kind, rid) \<in> set lineage" for e
  proof (cases "cmd_method cmd")
    case (UnitAdmit u w r)
    with below that [of Kind_ExecutionUnit "[(Kind_Run, r)]"] show thesis
      by (simp add: cancel_pre_read_def gate_pre_read_def adoption_lineage_def)
  next
    case (UnitDispatch u h)
    with below unit_lineage_below [OF assms(1), of u kind rid False] obtain l where
      "unit_lineage K st u False = Some l" "(kind, rid) \<in> set l" by auto
    with UnitDispatch that [of Kind_Attempt l] show thesis
      by (simp add: cancel_pre_read_def gate_pre_read_def adoption_lineage_def)
  next
    case (EffectPrepare u spec)
    with below unit_lineage_below [OF assms(1), of u kind rid True] obtain l where
      "unit_lineage K st u True = Some l" "(kind, rid) \<in> set l" by auto
    with EffectPrepare that [of Kind_EffectIntent l] show thesis
      by (simp add: cancel_pre_read_def gate_pre_read_def adoption_lineage_def)
  qed (use below in simp_all)
  with barred_blocks [OF bar] show ?thesis by (simp add: blockers_of_def pre_read_of_def Let_def)
qed

lemma blocked_not_accepted:
  assumes "blockers_of (pre_read_of K (fn_store f) cmd) \<noteq> []" and "admits_below K (fn_store f) (cmd_method cmd) kind rid"
  shows "validate K f cmd (pre_read_of K (fn_store f) cmd) \<noteq> Inr x"
  using assms
  by (cases "cmd_method cmd"; cases x)
    (auto simp: validate_def Let_def validate_unit_admit_def validate_unit_dispatch_def validate_prepare_def
      and_then_Inr admission_gate_def)

text \<open>
  An effect of the unit \<open>u\<close> stands below the run of its unit, below its unit, below the attempt it was
  prepared under and the current attempt of its unit, and below itself.
\<close>

definition attempt_named :: "('g, 'x) kernel_env \<Rightarrow> 'g store \<Rightarrow> string \<Rightarrow> u64 \<Rightarrow> string \<Rightarrow> bool" where
  "attempt_named K st u e rid \<longleftrightarrow>
     (\<exists>m. attempt_node st (attempt_key u e) = Some m \<and> node_str K st m ''attempt_id'' = Some rid)"

fun effect_below ::
    "('g, 'x) kernel_env \<Rightarrow> 'g store \<Rightarrow> string \<Rightarrow> string \<Rightarrow> cancel_kind \<Rightarrow> string \<Rightarrow> bool" where
  "effect_below K st u key Kind_Run rid \<longleftrightarrow> unit_below K st u Kind_Run rid"
| "effect_below K st u key Kind_ExecutionUnit rid \<longleftrightarrow> unit_below K st u Kind_ExecutionUnit rid"
| "effect_below K st u key Kind_Attempt rid \<longleftrightarrow>
     (\<exists>n e. attempt_named K st u e rid \<and>
        (effect_node st key = Some n \<and> node_u64 K st n ''attempt_epoch'' = Some e \<or>
         unit_node st u = Some n \<and> node_u64 K st n ''current_attempt_epoch'' = Some e \<and> 0 < e))"
| "effect_below K st u key Kind_EffectIntent rid \<longleftrightarrow>
     (\<exists>n. effect_node st key = Some n \<and> node_str K st n ''effect_intent_id'' = Some rid)"

lemma attempt_named_iff: "attempt_named K st u e rid \<longleftrightarrow> attempt_id_for_epoch K st u e = Some rid"
  by (auto simp: attempt_named_def attempt_id_for_epoch_def Option.bind_eq_Some_conv)

lemma unit_lineage_known:
  assumes un: "units_ok K st" and n: "unit_node st u = Some n"
  shows "\<exists>l. unit_lineage K st u x = Some l"
proof -
  have "unit_row_ok K st n" using un all_vals_get [OF _ n] by (simp add: units_ok_def)
  then show ?thesis using n by (auto simp: unit_row_ok_def unit_lineage_def node_str_def node_u64_def Let_def)
qed

lemma effect_lineage_below:
  assumes un: "units_ok K st" and u: "unit_node st u = Some m" and n: "effect_node st key = Some n" "er_node row = n"
    and mine: "node_str K st n ''unit_id'' = Some u" and b: "effect_below K st u key kind rid"
  shows "\<exists>l. adoption_lineage K st (EffectDispatch u key) (Some row) = Some l \<and> (kind, rid) \<in> set l"
proof -
  obtain l where l: "unit_lineage K st u True = Some l" using unit_lineage_known [OF un u] by blast
  have "(kind, rid) \<in> set (l @ effect_attempt K st u row l @ effect_self K st row)"
  proof (cases kind)
    case Kind_Attempt
    then obtain e n' where e: "attempt_id_for_epoch K st u e = Some rid"
      "effect_node st key = Some n' \<and> node_u64 K st n' ''attempt_epoch'' = Some e \<or>
       unit_node st u = Some n' \<and> node_u64 K st n' ''current_attempt_epoch'' = Some e \<and> 0 < e"
      using b by (simp add: attempt_named_iff) blast
    from e(2) show ?thesis
    proof
      assume "effect_node st key = Some n' \<and> node_u64 K st n' ''attempt_epoch'' = Some e"
      then show ?thesis using e(1) n mine Kind_Attempt by (simp add: effect_attempt_def)
    next
      assume "unit_node st u = Some n' \<and> node_u64 K st n' ''current_attempt_epoch'' = Some e \<and> 0 < e"
      then show ?thesis using e(1) l Kind_Attempt by (auto simp: unit_lineage_def Option.bind_eq_Some_conv)
    qed
  next
    case Kind_EffectIntent
    then show ?thesis using b n by (auto simp: effect_self_def)
  qed (use b unit_lineage_below [OF un, of u kind rid True] l in auto)
  with l show ?thesis by (simp add: adoption_lineage_def)
qed

lemma effect_below_blocked:
  assumes k: "units_ok K st" "effects_ok K st" and bar: "barred K st kind rid" and m: "cmd_method cmd = EffectDispatch u key"
    and i: "intent_of K st key = Some i" "ei_unit_id i = u" and u: "read_unit K st u = Some unit_row"
    and below: "effect_below K st u key kind rid"
  shows "blockers_of (pre_read_of K st cmd) \<noteq> []"
proof -
  obtain n p r where n: "effect_node st key = Some n" "node_of K st n = Some p" "prop_text p ''record'' = Some r" "dec_intent K r = Inr i"
    using i(1) by (auto simp: intent_of_Some)
  have "effect_row_ok K st n" using k(2) all_vals_get [OF _ n(1)] by (simp add: effects_ok_def)
  then have "node_str K st n ''unit_id'' = Some u" using n i(2) by (auto simp: effect_row_ok_def node_str_def)
  moreover obtain row where row: "read_effect K st key = Some row" "er_node row = n"
    using n by (auto simp: read_effect_def)
  moreover obtain w where "unit_node st u = Some w" using u by (auto simp: read_unit_def Option.bind_eq_Some_conv)
  ultimately obtain l where "adoption_lineage K st (EffectDispatch u key) (Some row) = Some l" "(kind, rid) \<in> set l"
    using effect_lineage_below [OF k(1) _ n(1) _ _ below] by blast
  with barred_blocks [OF bar] row(1) m show ?thesis
    by (simp add: blockers_of_def pre_read_of_def Let_def cancel_pre_read_def gate_pre_read_def effect_key_of_def)
qed

text \<open>A completed request bars its root, in every state that follows.\<close>

lemma cancelled_barred:
  assumes f: "kernel_ok K f" and sub: "submit K commit c f = (Completed x, f1)"
    and m: "cmd_method c = CancelRequest kind rid reason policy proposed"
  shows "kernel_ok K (fold (funnel_step K) inputs f1)" and "barred K (fn_store (fold (funnel_step K) inputs f1)) kind rid"
proof -
  have ok: "kernel_env_ok K" and lim: "st_next_cursor (fn_store f) < U64_MODULUS" and fk: "funnel_ok K f"
    using f by (simp_all add: kernel_ok_def funnel_ok_def cursors_ok_def)
  obtain a s where run: "completes K c a s f f1" using submit_outcome [OF ok sub] by auto
  then obtain seq where v: "validate K f c (pre_read_of K (fn_store f) c) = Inr (a, seq)" by (auto simp: completes_def)
  obtain p where p: "acc_plan a = Plan_CreateCancelRequest p" "crp_root_kind p = cancel_kind_wire kind" "crp_root_id p = rid"
    using v m by (auto simp: validate_def Let_def validate_cancel_commit_def and_then_Inr)
  have "barred K (fn_store f1) kind rid"
    using created_request [OF ok completes_moves [OF ok run lim, unfolded p(1)] p(2)] p(3) by simp
  then show "barred K (fn_store (fold (funnel_step K) inputs f1)) kind rid" by (rule run_barred [OF submit_ok [OF fk sub]])
  have "kernel_ok K f1" using kernel_ok_step [OF f, of "In_Submit c commit"] sub by simp
  then show "kernel_ok K (fold (funnel_step K) inputs f1)" by (rule kernel.run_invariant)
qed

text \<open>With a blocker in sight, a dispatch of a prepared effect that is completed settles it as cancelled.\<close>

lemma blocked_dispatch_settles:
  assumes "funnel_ok K f" and "submit K commit cmd f = (Completed x, f')" and m: "cmd_method cmd = EffectDispatch u key"
    and "intent_of K (fn_store f) key = Some i" and "ei_state i = Effect_Prepared"
    and below: "\<And>row. ei_unit_id i = u \<Longrightarrow> read_unit K (fn_store f) u = Some row \<Longrightarrow>
      blockers_of (pre_read_of K (fn_store f) cmd) \<noteq> []"
  shows "\<exists>v. intent_of K (fn_store f') key = Some (i\<lparr>ei_terminal := Some Term_Cancelled, ei_state := Effect_Settled,
    settled_at := Some (fn_clock_ms f), ei_version := v\<rparr>)"
proof -
  have ok: "kernel_env_ok K" and lab: "labels_ok K (fn_store f)" and lim: "st_next_cursor (fn_store f) < U64_MODULUS"
    using assms(1) by (simp_all add: funnel_ok_def cursors_ok_def)
  obtain a s where run: "completes K cmd a s f f'" using submit_outcome [OF ok assms(2)] by auto
  then obtain seq where v: "validate K f cmd (pre_read_of K (fn_store f) cmd) = Inr (a, seq)" by (auto simp: completes_def)
  obtain n p r where n: "effect_node (fn_store f) key = Some n" "node_of K (fn_store f) n = Some p"
    "prop_text p ''record'' = Some r" "dec_intent K r = Inr i" using assms(4) by (auto simp: intent_of_Some)
  obtain token where "holder_gate (st_authority_epoch (fn_store f)) cmd (pre_read_of K (fn_store f) cmd) u = Inr token"
    using v m by (auto simp: validate_def Let_def validate_effect_dispatch_def and_then_Inr)
  then obtain row where row: "read_unit K (fn_store f) u = Some row" using holder_gate_fence by blast
  have "ei_unit_id i = u" using v m n
    by (auto simp: validate_def Let_def validate_effect_dispatch_def and_then_Inr resolve_bound_Inr read_effect_def
        split: prod.splits)
  with below row have blk: "blockers_of (pre_read_of K (fn_store f) cmd) \<noteq> []" by blast
  obtain j ver where j: "settle_intent Term_Cancelled i = Inr j"
    and plan: "acc_plan a = Plan_UpdateEffect n ver (effect_state_wire (ei_state j))
      (Some (terminal_wire Term_Cancelled)) (enc_intent K (j\<lparr>settled_at := Some (fn_clock_ms f), ei_version := ver\<rparr>))"
    using v n m assms(5) blk
    by (auto simp: validate_def Let_def validate_effect_dispatch_def and_then_Inr map_err_Inr resolve_bound_Inr already_settled_Inr
        update_accepted_Inr next_version_Inr read_effect_def Option.bind_eq_Some_conv split: prod.splits if_splits)
  note mv = completes_moves [OF ok run lim, unfolded plan]
  let ?j = "j\<lparr>settled_at := Some (fn_clock_ms f), ei_version := ver\<rparr>"
  have "effect_node (fn_store f') key = effect_node (fn_store f) key"
    by (intro moves_lookup [OF mv, where bad = "{(Book_Effect b, key) | b. True}"]) (auto simp: book_insert_lookup)
  then have "effect_node (fn_store f') key = Some n" using n(1) by simp
  moreover have "node_of K (fn_store f') n = Some (p ++ map_of [(''version'', VUint ver), (''state'', VString (effect_state_wire (ei_state j))),
      (''record'', VText (enc_intent K ?j)), (''terminal'', VString (terminal_wire Term_Cancelled))])"
    using moves_advances [OF ok mv] n(2) by (simp add: advances_def at_node_def)
  ultimately have "intent_of K (fn_store f') key = Some ?j"
    using codec_ok(1) [OF ok] by (auto simp: intent_of_Some prop_text_def)
  then show ?thesis using j by (auto simp: settle_intent_Inr)
qed

section \<open>Closing a run as a success\<close>

lemma map_filter_empty: "List.map_filter f xs = [] \<longleftrightarrow> (\<forall>x \<in> set xs. f x = None)"
  by (induction xs) (auto simp: List.map_filter_def split: option.splits)

lemma effect_unblocked:
  assumes "effect_blocker K st units (key, n) = None" and "effect_row_ok K st n"
    and "node_of K st n = Some p" and "prop_text p ''record'' = Some x" and "dec_intent K x = Inr i"
    and "ei_unit_id i \<in> set units"
  shows "ei_state i = Effect_Settled \<and> (\<exists>t. ei_terminal i = Some t \<and> t \<noteq> Term_Unknown)"
proof -
  have cols: "prop_str p ''state'' = Some (effect_state_wire (ei_state i))"
    "prop_str p ''terminal'' = map_option terminal_wire (ei_terminal i)" "prop_str p ''unit_id'' = Some (ei_unit_id i)"
    using assms(2-5) by (auto simp: effect_row_ok_def)
  have "effect_blocks (Some (effect_state_wire (ei_state i))) (map_option terminal_wire (ei_terminal i)) = None"
    using assms(1,3,6) cols by (simp add: effect_blocker_def)
  moreover have "effect_state_wire (ei_state i) = effect_state_wire Effect_Settled \<Longrightarrow> ei_state i = Effect_Settled"
    by (cases "ei_state i") simp_all
  ultimately show ?thesis by (auto simp: effect_blocks_def split: if_splits option.splits)
qed

lemma run_unit_listed:
  assumes "unit_run_id K st u = Some r"
  shows "u \<in> set (run_units K st r)"
  using assms by (force simp: unit_run_id_def run_units_def Option.bind_eq_Some_conv dest!: bt_get_set)

lemma success_needs:
  assumes none: "success_blockers K st r = []" and eff: "effects_ok K st"
  shows "\<And>key i. intent_of K st key = Some i \<Longrightarrow> unit_run_id K st (ei_unit_id i) = Some r \<Longrightarrow>
      ei_state i = Effect_Settled \<and> (\<exists>t. ei_terminal i = Some t \<and> t \<noteq> Term_Unknown)"
    and "\<And>n. n \<in> set (cancel_request_nodes st) \<Longrightarrow> cancel_blocker K st r n = None"
proof -
  have e: "\<forall>kn \<in> set (bk_effects (st_books st)). effect_blocker K st (run_units K st r) kn = None"
    and c: "\<forall>n \<in> set (cancel_request_nodes st). cancel_blocker K st r n = None"
    using none by (simp_all add: success_blockers_def cancel_blocks_def map_filter_empty)
  show "cancel_blocker K st r n = None" if "n \<in> set (cancel_request_nodes st)" for n using c that by blast
  show "ei_state i = Effect_Settled \<and> (\<exists>t. ei_terminal i = Some t \<and> t \<noteq> Term_Unknown)"
    if i: "intent_of K st key = Some i" and u: "unit_run_id K st (ei_unit_id i) = Some r" for key i
  proof -
    obtain n p x where n: "effect_node st key = Some n" and p: "node_of K st n = Some p"
      "prop_text p ''record'' = Some x" "dec_intent K x = Inr i"
      using i by (auto simp: intent_of_Some)
    have "effect_row_ok K st n" using eff all_vals_get [OF _ n] by (simp add: effects_ok_def)
    then show ?thesis using effect_unblocked [OF _ _ p run_unit_listed [OF u]] e bt_get_set [OF n] by blast
  qed
qed

lemma close_success_unblocked:
  assumes "validate K f cmd (pre_read_of K (fn_store f) cmd) = Inr x" and "cmd_method cmd = RunClose r ClosedSuccess"
  shows "success_blockers K (fn_store f) r = []"
  using assms
  by (cases x) (auto simp: validate_def Let_def validate_run_close_def and_then_Inr pre_read_of_def split: if_splits)

end
