(* ===== verification/Kernel_Demo.thy ===== *)
theory Kernel_Demo
  imports Kernel_Bars
begin

text \<open>
  A concrete environment of the kernel, in which its laws hold: the graph is a list of labelled rows and a
  document is the value it was written from. With it, a small store on which the properties are exercised:
  two open runs with a unit each, a settled effect of the first and a prepared one of the second.
\<close>

section \<open>The environment\<close>

datatype doc = Doc_Intent effect_intent | Doc_Request cancel_request_record | Doc_Json json | Doc_Other

type_synonym rows = "(string \<times> doc props) list"

definition demo_kernel :: "(rows, doc) kernel_env" where
  "demo_kernel = \<lparr>hash_hex = (\<lambda>_. replicate 64 CHR ''0''),
     node_properties = (\<lambda>g n. if n < length g then Some (snd (g ! n)) else None),
     node_label = (\<lambda>g n. if n < length g then Some (fst (g ! n)) else None),
     create_node = (\<lambda>g l p. Inr (length g, g @ [(l, p)])),
     update_node = (\<lambda>g n d. if n < length g then Inr (g[n := (fst (g ! n), snd (g ! n) ++ d)])
                            else Inl (Graph_Other ''no such node'')),
     graph_error_debug = (\<lambda>_. ''graph error''),
     enc_intent = Doc_Intent,
     dec_intent = (\<lambda>x. case x of Doc_Intent i \<Rightarrow> Inr i | _ \<Rightarrow> Inl ''not an intent''),
     enc_request = Doc_Request,
     dec_request = (\<lambda>x. case x of Doc_Request r \<Rightarrow> Inr r | _ \<Rightarrow> Inl ''not a request''),
     enc_scope = (\<lambda>_. Doc_Other), enc_delivery = (\<lambda>_. Doc_Other), enc_strings = (\<lambda>_. Doc_Other),
     enc_json = Doc_Json,
     dec_json = (\<lambda>x. case x of Doc_Json j \<Rightarrow> Inr j | _ \<Rightarrow> Inl ''not json''),
     json_len = (\<lambda>_. 0), canonical_len = (\<lambda>_. Some 0), timestamp_millis_ok = (\<lambda>_. True)\<rparr>"

lemma demo_kernel_simps [simp]:
  "hash_hex demo_kernel s = replicate 64 CHR ''0''"
  "node_properties demo_kernel g n = (if n < length g then Some (snd (g ! n)) else None)"
  "node_label demo_kernel g n = (if n < length g then Some (fst (g ! n)) else None)"
  "create_node demo_kernel g l p = Inr (length g, g @ [(l, p)])"
  "update_node demo_kernel g n d = (if n < length g then Inr (g[n := (fst (g ! n), snd (g ! n) ++ d)])
                            else Inl (Graph_Other ''no such node''))"
  "enc_intent demo_kernel i = Doc_Intent i" "dec_intent demo_kernel (Doc_Intent i) = Inr i"
  "enc_request demo_kernel r = Doc_Request r" "dec_request demo_kernel (Doc_Request r) = Inr r"
  "enc_json demo_kernel j = Doc_Json j" "dec_json demo_kernel (Doc_Json j) = Inr j"
  "enc_scope demo_kernel x = Doc_Other" "enc_delivery demo_kernel dl = Doc_Other" "enc_strings demo_kernel ss = Doc_Other"
  "json_len demo_kernel j = 0" "canonical_len demo_kernel j = Some 0" "timestamp_millis_ok demo_kernel ms"
  by (simp_all add: demo_kernel_def)

lemma demo_kernel_ok: "kernel_env_ok demo_kernel"
  unfolding kernel_env_ok_def
proof (intro conjI allI impI)
  fix g l p n g'
  assume "create_node demo_kernel g l p = Inr (n, g')"
  then have g': "n = length g" "g' = g @ [(l, p)]" by auto
  show "node_properties demo_kernel g n = None" by (simp add: g')
  show "node_properties demo_kernel g' = (node_properties demo_kernel g)(n \<mapsto> p)"
    by (rule ext) (auto simp: g' nth_append less_Suc_eq)
  show "node_label demo_kernel g' = (node_label demo_kernel g)(n \<mapsto> l)"
    by (rule ext) (auto simp: g' nth_append less_Suc_eq)
next
  fix g n d g'
  assume "update_node demo_kernel g n d = Inr g'"
  then have g': "n < length g" "g' = g[n := (fst (g ! n), snd (g ! n) ++ d)]" by (auto split: if_splits)
  show "\<exists>p. node_properties demo_kernel g n = Some p \<and> node_properties demo_kernel g' = (node_properties demo_kernel g)(n \<mapsto> p ++ d)"
    using g'(1) by (intro exI [of _ "snd (g ! n)"]) (auto simp: g'(2) nth_list_update fun_eq_iff)
  show "node_label demo_kernel g' = node_label demo_kernel g"
    using g'(1) by (auto simp: g'(2) nth_list_update fun_eq_iff)
qed simp_all

section \<open>A store\<close>

definition demo_uuid :: uuid7 where "demo_uuid = Uuid7 0"
definition demo_digest :: digest where "demo_digest = Digest (''blake3:'' @ replicate 64 CHR ''0'')"

definition demo_prepared :: "string \<Rightarrow> string \<Rightarrow> effect_intent" where
  "demo_prepared u key =
     \<lparr>effect_intent_id = demo_uuid, ei_version = 1, ei_unit_id = u, ei_attempt_epoch = 1, ei_stamp = 0,
      ei_authority_epoch = 1, adapter_id = ''a'', adapter_version = ''1'', operation_key = key,
      logical_operation_id = demo_uuid, ei_request_digest = demo_digest, ei_retry_class = SafeIdempotent,
      ei_reversibility_class = Bufferable, approval_ref = None, policy_snapshot_digest = demo_digest,
      ei_state = Effect_Prepared, ei_terminal = None, ei_target_enumeration = Enum_PostHoc, ei_targets = [],
      decomposable = False, parent_effect_intent_id = None, compensation_intent_id = None, dispatched_at = None,
      settled_at = None, next_reconcile_at = None\<rparr>"

definition demo_settled :: effect_intent where
  "demo_settled = (demo_prepared ''u1'' ''e1'')\<lparr>ei_state := Effect_Settled, ei_terminal := Some Term_Cancelled,
     settled_at := Some 3, ei_version := 2\<rparr>"

definition demo_graph :: rows where
  "demo_graph =
     [(''Run'', map_of [(''run_id'', VString ''r1''), (''version'', VUint 1), (''status'', VString ''open'')]),
      (''Run'', map_of [(''run_id'', VString ''r2''), (''version'', VUint 1), (''status'', VString ''open'')]),
      (''WorkItem'', map_of [(''work_item_id'', VString ''w1''), (''version'', VUint 1)]),
      (''Unit'', map_of [(''unit_id'', VString ''u1''), (''version'', VUint 3), (''current_attempt_epoch'', VUint 2),
         (''stamp'', VUint 1), (''work_item_id'', VString ''w1''), (''run_id'', VString ''r1'')]),
      (''Unit'', map_of [(''unit_id'', VString ''u2''), (''version'', VUint 1), (''current_attempt_epoch'', VUint 0),
         (''stamp'', VUint 0), (''work_item_id'', VString ''w1''), (''run_id'', VString ''r2'')]),
      (''Effect'', map_of [(''operation_key'', VString ''e1''), (''unit_id'', VString ''u1''), (''version'', VUint 2),
         (''state'', VString ''settled''), (''terminal'', VString ''cancelled''), (''record'', VText (Doc_Intent demo_settled))]),
      (''Effect'', map_of [(''operation_key'', VString ''e2''), (''unit_id'', VString ''u2''), (''version'', VUint 1),
         (''state'', VString ''prepared''), (''record'', VText (Doc_Intent (demo_prepared ''u2'' ''e2'')))])]"

definition demo_books :: books where
  "demo_books = \<lparr>bk_authority = None, bk_units = [(''u1'', 3), (''u2'', 4)], bk_attempts = [], bk_attempt_ids = [],
     bk_leases = [], bk_work_items = [(''w1'', 2)], bk_receipts = [], bk_effects = [(''e1'', 5), (''e2'', 6)],
     bk_effect_intent_ids = [], bk_events = [], bk_evidence = [], bk_runs = [(''r1'', 0), (''r2'', 1)],
     bk_cancel_requests = [], bk_cancel_roots = [], bk_cancel_deliveries = [], bk_cancel_deliveries_by_request = []\<rparr>"

definition demo_funnel :: "rows funnel" where
  "demo_funnel = \<lparr>fn_store = \<lparr>st_graph = demo_graph, st_books = demo_books, st_next_cursor = 1, st_authority_epoch = 1,
       st_project_id = ''p1'', st_min_retained_cursor = 0, st_token_key = []\<rparr>,
     fn_gate = None, fn_gate_broken = False, fn_clock_ms = 7, fn_mint_seq = 0\<rparr>"

lemmas demo_defs = demo_funnel_def demo_graph_def demo_books_def

lemma demo_intent_simps [simp]:
  "ei_state (demo_prepared u k) = Effect_Prepared" "ei_terminal (demo_prepared u k) = None"
  "ei_version (demo_prepared u k) = 1" "ei_unit_id (demo_prepared u k) = u"
  "ei_state demo_settled = Effect_Settled" "ei_terminal demo_settled = Some Term_Cancelled"
  "ei_version demo_settled = 2" "ei_unit_id demo_settled = ''u1''"
  by (simp_all add: demo_settled_def demo_prepared_def)

lemma demo_prepared_history [simp]: "lawful_history (demo_prepared u k)"
  unfolding lawful_history_def by (intro exI [of _ "demo_prepared u k"]) simp

lemma demo_settled_history [simp]: "lawful_history demo_settled"
proof -
  let ?i = "demo_prepared ''u1'' ''e1''"
  have "effect_step (EffectDispatch ''u1'' ''e1'') ?i
      (?i\<lparr>ei_terminal := Some Term_Cancelled, ei_state := Effect_Settled, settled_at := Some 3, ei_version := 2\<rparr>)"
    by (rule barred_step) simp_all
  then show ?thesis
    unfolding lawful_history_def
    by (intro exI [of _ ?i]) (auto simp: demo_settled_def demo_prepared_def)
qed

lemma demo_ok: "kernel_ok demo_kernel demo_funnel"
proof -
  have "labels_ok demo_kernel (fn_store demo_funnel)"
    by (simp add: labels_ok_def books_all_def all_vals_def demo_defs tagged_def)
  moreover have "cursors_ok (fn_store demo_funnel)" by (simp add: cursors_ok_def demo_defs)
  moreover have "effects_ok demo_kernel (fn_store demo_funnel)"
    by (simp add: effects_ok_def all_vals_def demo_defs effect_row_ok_def prop_text_def prop_str_def prop_u64_def)
  moreover have "units_ok demo_kernel (fn_store demo_funnel)"
    by (simp add: units_ok_def all_vals_def demo_defs unit_row_ok_def prop_str_def prop_u64_def)
  ultimately show ?thesis by (simp add: kernel_ok_def funnel_ok_def demo_kernel_ok)
qed

section \<open>Commands\<close>

definition demo_command :: "string \<Rightarrow> scope_kind \<Rightarrow> string \<Rightarrow> u64 option \<Rightarrow> kernel_method \<Rightarrow> kernel_command" where
  "demo_command c sk sid v m =
     \<lparr>command_id = c, scope_kind_of = sk, scope_id_of = sid, request_digest = demo_digest, expected_version = v,
      principal_kind_of = Principal_Daemon, principal_id = ''d'', authority_epoch_of = Some 1, attempt_token = None,
      causation_id = None, correlation_id = None, cmd_method = m\<rparr>"

definition demo_open :: kernel_command where
  "demo_open = demo_command ''c1'' Scope_Global ''g'' None (RunOpen ''r3'' ''w1'')"

definition demo_close :: kernel_command where
  "demo_close = demo_command ''c2'' Scope_Global ''g'' (Some 1) (RunClose ''r1'' ClosedSuccess)"

definition demo_dispatch :: kernel_command where
  "demo_dispatch = demo_command ''c3'' Scope_Global ''g'' (Some 1) (UnitDispatch ''u2'' ''h'')"

definition demo_cancel :: kernel_command where
  "demo_cancel = demo_command ''c4'' Scope_Global ''g'' None
     (CancelRequest Kind_Run ''r2'' OwnerRequest RootOnly [\<lparr>input_kind = Kind_Run, input_id = ''r2'', input_attachment = Attached\<rparr>])"

definition demo_admit :: kernel_command where
  "demo_admit = demo_command ''c5'' Scope_Global ''g'' None (UnitAdmit ''u9'' ''w1'' ''r2'')"

definition demo_denied :: kernel_command where
  "demo_denied = (demo_command ''c6'' Scope_Global ''g'' None (RunOpen ''r4'' ''w1''))\<lparr>principal_kind_of := Principal_Agent\<rparr>"

lemmas demo_command_defs =
  demo_open_def demo_close_def demo_dispatch_def demo_cancel_def demo_admit_def demo_denied_def demo_command_def

section \<open>Submissions\<close>

lemma demo_append:
  assumes "causation_id cmd = None" and "correlation_id cmd = None"
  shows "sg_cursor s + length ds < U64_MODULUS \<Longrightarrow> sg_seq s + length ds < U64_MODULUS \<Longrightarrow>
    \<exists>s'. append_events demo_kernel cmd clock_ms epoch ordinal ds s = (s', Inr ())"
proof (induction ds arbitrary: ordinal s)
  case (Cons d ds)
  then show ?case
    by (simp add: allocate_cursor_def u64_checked_add_def mint_id_def Let_def write_event_def optional_update_def
        and_then_def assms)
qed simp

lemma append_events_seq: "append_events K cmd clock_ms epoch ordinal ds s = (s', Inr u) \<Longrightarrow> sg_seq s' = sg_seq s + length ds"
proof (induction ds arbitrary: ordinal s)
  case (Cons d ds)
  then show ?case
    by (fastforce simp: allocate_cursor_def mint_id_def u64_checked_add_def Let_def
        split: option.splits if_splits sum.splits prod.splits)
qed simp

text \<open>In this environment a command that is validated and whose plan applies is completed.\<close>

lemma demo_completes:
  assumes gate: "fn_gate f = None" "\<not> fn_gate_broken f" and addr: "address_is_valid cmd (st_project_id (fn_store f))"
    and new: "receipt_node (fn_store f) (receipt_key cmd) = None"
    and cause: "causation_id cmd = None" "correlation_id cmd = None"
    and valid: "validate demo_kernel f cmd (pre_read_of demo_kernel (fn_store f) cmd) = Inr (a, seq)"
    and plan: "apply_plan demo_kernel (acc_plan a) (stage_of (f\<lparr>fn_mint_seq := seq\<rparr>)) = Inr s1"
    and room: "st_next_cursor (fn_store f) + length (acc_events a) < U64_MODULUS" "seq + length (acc_events a) < U64_MODULUS"
  obtains f' where "submit demo_kernel None cmd f = (Completed (acc_result a), f')" and "fn_gate f' = None" and "\<not> fn_gate_broken f'"
    and "st_next_cursor (fn_store f') = st_next_cursor (fn_store f) + length (acc_events a)"
    and "fn_mint_seq f' = seq + length (acc_events a)"
proof -
  have s1: "sg_cursor s1 = st_next_cursor (fn_store f)" "sg_seq s1 = seq"
    using apply_plan_staged [OF demo_kernel_ok plan] by (simp_all add: staged_def stage_of_def)
  obtain s2 where s2: "append_events demo_kernel cmd (fn_clock_ms f) (st_authority_epoch (fn_store f)) 0 (acc_events a) s1 = (s2, Inr ())"
    using demo_append [OF cause] room s1 by metis
  have n2: "sg_cursor s2 = st_next_cursor (fn_store f) + length (acc_events a)" "sg_seq s2 = seq + length (acc_events a)"
    using append_events_staged [OF demo_kernel_ok s2] append_events_seq [OF s2] s1 by simp_all
  obtain s where s: "stage_accepted demo_kernel cmd (fn_clock_ms f) (st_authority_epoch (fn_store f)) a
      (stage_of (f\<lparr>fn_mint_seq := seq\<rparr>)) = (s, Inr ())" "sg_cursor s = sg_cursor s2" "sg_seq s = sg_seq s2"
    using plan s2 by (simp add: stage_accepted_def)
  have "\<not> over_limit demo_kernel a" by (simp add: over_limit_def wire_json_len_def list_ex_iff)
  then have "submit demo_kernel None cmd f = (Completed (acc_result a), publish_stage s (f\<lparr>fn_mint_seq := seq\<rparr>))"
    using gate addr new valid s by (simp add: submit_def Let_def run_accepted_def commit_stage_def)
  then show thesis by (rule that) (use gate s(2,3) n2 in \<open>simp_all add: publish_stage_def burn_def\<close>)
qed

lemmas demo_address = address_is_valid_def identifiers_are_valid_def valid_wire_identifier_def is_ascii_alphanumeric_def
  ascii_digit_def is_ascii_uppercase_def is_ascii_lowercase_def opt_valid_def project_scope_is_valid_def

lemmas demo_reads = pre_read_of_def Let_def read_unit_def read_lease_def read_effect_def read_run_def effect_key_of_def
  cancel_pre_read_def gate_pre_read_def adoption_lineage_def no_cancel_pre_read_def blockers_of_def
  prop_u64_def prop_str_def prop_text_def bt_get_def

lemma demo_open_completes:
  obtains f' where "submit demo_kernel None demo_open demo_funnel =
      (Completed (json_object [(''run_id'', JString ''r3''), (''version'', json_u64 1)]), f')"
    and "fn_gate f' = None" and "\<not> fn_gate_broken f'"
proof -
  have v: "validate demo_kernel demo_funnel demo_open (pre_read_of demo_kernel (fn_store demo_funnel) demo_open) =
      Inr (\<lparr>acc_plan = Plan_CreateRun ''r3'' ''w1'',
        acc_events = [event ''run'' ''r3'' 1 ''run.opened'' [(''goal_work_item_id'', JString ''w1'')]],
        acc_result = json_object [(''run_id'', JString ''r3''), (''version'', json_u64 1)]\<rparr>, 0)"
    by (simp add: validate_def Let_def validate_run_open_def authority_gate_def accepting_def and_then_def
        demo_command_defs demo_defs demo_reads)
  show thesis
    by (rule demo_completes [of demo_funnel demo_open, OF _ _ _ _ _ _ v])
      (auto simp: demo_command_defs demo_defs demo_address bt_get_def create_row_def intro: that)
qed

lemma demo_close_completes:
  obtains r f' where "submit demo_kernel None demo_close demo_funnel = (Completed r, f')"
proof -
  have none: "success_blockers demo_kernel (fn_store demo_funnel) ''r1'' = []"
    by (simp add: success_blockers_def cancel_blocks_def run_units_def effect_blocker_def effect_blocks_def
        cancel_request_nodes_def map_filter_empty node_str_def prop_str_def demo_defs)
  have v: "validate demo_kernel demo_funnel demo_close (pre_read_of demo_kernel (fn_store demo_funnel) demo_close) =
      Inr (\<lparr>acc_plan = Plan_CloseRun 0 2 ''closed_success'',
        acc_events = [event ''run'' ''r1'' 2 ''run.closed'' [(''outcome'', JString ''closed_success'')]],
        acc_result = json_object [(''run_id'', JString ''r1''), (''version'', json_u64 2),
          (''status'', JString ''closed_success'')]\<rparr>, 0)"
    using none
    by (simp add: validate_def Let_def validate_run_close_def authority_gate_def accepting_def and_then_def ok_or_def
        expected_version_ok_def increment_def u64_checked_add_def or_zero_def numeral_2_eq_2
        demo_command_defs demo_defs demo_reads)
  show thesis
    by (rule demo_completes [of demo_funnel demo_close, OF _ _ _ _ _ _ v])
      (auto simp: demo_command_defs demo_defs demo_address bt_get_def update_row_def stage_of_def intro: that)
qed

lemma demo_dispatch_completes:
  obtains r f' where "submit demo_kernel None demo_dispatch demo_funnel = (Completed r, f')"
proof -
  have none: "blockers_of (pre_read_of demo_kernel (fn_store demo_funnel) demo_dispatch) = []"
    by (simp add: demo_command_defs demo_defs demo_reads unit_lineage_def node_str_def node_u64_def
        admission_blockers_def map_filter_empty admission_blocker_def cancel_root_node_def)
  have v: "\<exists>d ev r seq. validate demo_kernel demo_funnel demo_dispatch (pre_read_of demo_kernel (fn_store demo_funnel) demo_dispatch) =
      Inr (\<lparr>acc_plan = Plan_Dispatch d, acc_events = [ev], acc_result = r\<rparr>, seq) \<and> seq = 2 \<and>
      dp_unit_node d = 4 \<and> dp_existing_lease d = None \<and> dp_prior_attempt d = None"
    using none
    by (simp add: validate_def Let_def validate_unit_dispatch_def authority_gate_def accepting_def and_then_def ok_or_def
        expected_version_ok_def increment_def u64_checked_add_def or_zero_def admission_gate_def prior_attempt_of_def mint_id_def
        demo_command_defs demo_defs pre_read_of_def read_unit_def read_lease_def prop_u64_def prop_str_def bt_get_def)
  then obtain d ev r seq where v: "validate demo_kernel demo_funnel demo_dispatch (pre_read_of demo_kernel (fn_store demo_funnel) demo_dispatch) =
      Inr (\<lparr>acc_plan = Plan_Dispatch d, acc_events = [ev], acc_result = r\<rparr>, seq)" and
    d: "seq = 2" "dp_unit_node d = 4" "dp_existing_lease d = None" "dp_prior_attempt d = None" by blast
  show thesis
    by (rule demo_completes [of demo_funnel demo_dispatch, OF _ _ _ _ _ _ v])
      (use d in \<open>auto simp: demo_command_defs demo_defs demo_address bt_get_def apply_dispatch_def Let_def update_row_def create_row_def
        supersede_attempt_def upsert_lease_def and_then_def stage_of_def intro: that\<close>)
qed

lemma demo_cancel_completes:
  obtains r f' where "submit demo_kernel None demo_cancel demo_funnel = (Completed r, f')"
    and "fn_gate f' = None" and "\<not> fn_gate_broken f'"
proof -
  have "\<exists>p ev r seq. validate demo_kernel demo_funnel demo_cancel (pre_read_of demo_kernel (fn_store demo_funnel) demo_cancel) =
      Inr (\<lparr>acc_plan = Plan_CreateCancelRequest p, acc_events = [ev], acc_result = r\<rparr>, seq) \<and> seq = 1"
    by (simp add: validate_def Let_def validate_cancel_commit_def authority_gate_def accepting_def and_then_def ok_or_def
        freeze_checked_def freeze_scope_def covered_by_root_def map_err_def cancel_root_terminal_def mint_id_def u64_checked_add_def
        MAX_SCOPE_MEMBERS_def node_str_def as_member_def
        demo_command_defs demo_defs demo_reads)
  then obtain p ev r seq where v: "validate demo_kernel demo_funnel demo_cancel (pre_read_of demo_kernel (fn_store demo_funnel) demo_cancel) =
      Inr (\<lparr>acc_plan = Plan_CreateCancelRequest p, acc_events = [ev], acc_result = r\<rparr>, seq)" and d: "seq = 1" by blast
  show thesis
    by (rule demo_completes [of demo_funnel demo_cancel, OF _ _ _ _ _ _ v])
      (use d in \<open>auto simp: demo_command_defs demo_defs demo_address bt_get_def apply_create_request_def create_row_def intro: that\<close>)
qed

section \<open>A barred effect\<close>

text \<open>
  A held unit with a prepared effect, the request of the owner to cancel that effect, and the command of the
  holder to dispatch it.
\<close>

definition held_key :: string where "held_key = digest_text demo_digest"
definition held_id :: string where "held_id = ''i1''"

definition held_graph :: rows where
  "held_graph =
     [(''Unit'', map_of [(''unit_id'', VString ''u1''), (''version'', VUint 2), (''current_attempt_epoch'', VUint 1),
         (''stamp'', VUint 0), (''work_item_id'', VString ''w1''), (''run_id'', VString ''r1'')]),
      (''Lease'', map_of [(''unit_id'', VString ''u1''), (''holder_id'', VString ''h''), (''status'', VString ''active''), (''version'', VUint 1)]),
      (''Effect'', map_of [(''operation_key'', VString held_key), (''unit_id'', VString ''u1''), (''version'', VUint 1),
         (''effect_intent_id'', VString held_id), (''attempt_epoch'', VUint 1), (''state'', VString ''prepared''),
         (''record'', VText (Doc_Intent (demo_prepared ''u1'' held_key)))])]"

definition held_funnel :: "rows funnel" where
  "held_funnel = demo_funnel\<lparr>fn_store := (fn_store demo_funnel)\<lparr>st_graph := held_graph,
     st_books := demo_books\<lparr>bk_units := [(''u1'', 0)], bk_leases := [(''u1'', 1)], bk_effects := [(held_key, 2)],
       bk_effect_intent_ids := [(held_id, 2)], bk_work_items := [], bk_runs := []\<rparr>\<rparr>\<rparr>"

lemmas held_defs = held_funnel_def held_graph_def demo_funnel_def demo_books_def

definition held_token :: attempt_token_claims where
  "held_token = \<lparr>tk_unit_id = ''u1'', tk_attempt_epoch = 1, tk_stamp = 0, tk_authority_epoch = 1, tk_holder_id = ''h'', tk_nonce = ''n''\<rparr>"

definition held_cancel :: kernel_command where
  "held_cancel = demo_command ''c7'' Scope_Global ''g'' None (CancelRequest Kind_EffectIntent held_id OwnerRequest RootOnly
     [\<lparr>input_kind = Kind_EffectIntent, input_id = held_id, input_attachment = Attached\<rparr>])"

definition held_dispatch :: kernel_command where
  "held_dispatch = (demo_command ''c8'' Scope_Unit ''u1'' (Some 1) (EffectDispatch ''u1'' held_key))
     \<lparr>principal_kind_of := Principal_Agent, principal_id := ''h'', authority_epoch_of := None, attempt_token := Some held_token\<rparr>"

lemmas held_command_defs = held_cancel_def held_dispatch_def demo_command_def

lemma held_ok: "kernel_ok demo_kernel held_funnel"
proof -
  have "labels_ok demo_kernel (fn_store held_funnel)"
    by (simp add: labels_ok_def books_all_def all_vals_def held_defs tagged_def)
  moreover have "cursors_ok (fn_store held_funnel)" by (simp add: cursors_ok_def held_defs)
  moreover have "effects_ok demo_kernel (fn_store held_funnel)"
    by (simp add: effects_ok_def all_vals_def held_defs effect_row_ok_def prop_text_def prop_str_def prop_u64_def)
  moreover have "units_ok demo_kernel (fn_store held_funnel)"
    by (simp add: units_ok_def all_vals_def held_defs unit_row_ok_def prop_str_def prop_u64_def)
  ultimately show ?thesis by (simp add: kernel_ok_def funnel_ok_def demo_kernel_ok)
qed

lemma held_key_valid: "\<not> isl (digest_try_from held_key)"
  by (simp add: held_key_def demo_digest_def digest_try_from_def strip_prefix_of_def is_hash_hex_def is_ascii_hexdigit_def
      ascii_digit_def is_ascii_uppercase_def list_all_iff)

lemma held_id_valid: "valid_wire_identifier held_id"
  by (simp add: held_id_def demo_address)

lemma held_cancel_completes:
  obtains r f' where "submit demo_kernel None held_cancel held_funnel = (Completed r, f')"
    and "fn_gate f' = None" and "\<not> fn_gate_broken f'" and "st_next_cursor (fn_store f') = 2" and "fn_mint_seq f' = 2"
proof -
  have "\<exists>p ev r seq. validate demo_kernel held_funnel held_cancel (pre_read_of demo_kernel (fn_store held_funnel) held_cancel) =
      Inr (\<lparr>acc_plan = Plan_CreateCancelRequest p, acc_events = [ev], acc_result = r\<rparr>, seq) \<and> seq = 1"
    by (simp add: validate_def Let_def validate_cancel_commit_def authority_gate_def accepting_def and_then_def ok_or_def
        freeze_checked_def freeze_scope_def covered_by_root_def map_err_def cancel_root_terminal_def mint_id_def u64_checked_add_def
        MAX_SCOPE_MEMBERS_def node_str_def as_member_def member_link_of_def effect_to_unit_def
        held_command_defs held_defs demo_reads)
  then obtain p ev r seq where v: "validate demo_kernel held_funnel held_cancel (pre_read_of demo_kernel (fn_store held_funnel) held_cancel) =
      Inr (\<lparr>acc_plan = Plan_CreateCancelRequest p, acc_events = [ev], acc_result = r\<rparr>, seq)" and d: "seq = 1" by blast
  show thesis
    by (rule demo_completes [of held_funnel held_cancel, OF _ _ _ _ _ _ v])
      (use d held_id_valid [unfolded demo_address] in \<open>auto simp: held_command_defs held_defs demo_address bt_get_def apply_create_request_def create_row_def intro: that\<close>)
qed

text \<open>The request adds rows of its own and leaves the others as they are, so the holder is still heard.\<close>

lemma held_after:
  assumes "submit demo_kernel None held_cancel held_funnel = (Completed x, f)"
  shows "read_unit demo_kernel (fn_store f) ''u1'' = read_unit demo_kernel (fn_store held_funnel) ''u1''"
    and "read_lease demo_kernel (fn_store f) ''u1'' = read_lease demo_kernel (fn_store held_funnel) ''u1''"
    and "read_effect demo_kernel (fn_store f) held_key = read_effect demo_kernel (fn_store held_funnel) held_key"
    and "effect_node (fn_store f) held_key = Some 2" and "node_str demo_kernel (fn_store f) 2 ''effect_intent_id'' = Some held_id"
    and "receipt_node (fn_store f) (receipt_key held_dispatch) = None"
    and "st_authority_epoch (fn_store f) = 1" and "st_project_id (fn_store f) = ''p1''"
proof -
  let ?s = "fn_store held_funnel"
  have lim: "st_next_cursor ?s < U64_MODULUS" by (simp add: held_defs)
  obtain a s where run: "completes demo_kernel held_cancel a s held_funnel f"
    using submit_outcome [OF demo_kernel_ok assms] by auto
  then obtain p where p: "acc_plan a = Plan_CreateCancelRequest p"
    by (auto simp: completes_def validate_def Let_def validate_cancel_commit_def and_then_Inr held_command_defs)
  note mv = completes_moves [OF demo_kernel_ok run lim, unfolded p]
  have kept: "node_of demo_kernel (fn_store f) n = node_of demo_kernel ?s n" if "n < 3" for n
    using moves_advances [OF demo_kernel_ok mv] that by (auto simp: advances_def held_defs less_Suc_eq numeral_3_eq_3)
  have u: "unit_node (fn_store f) ''u1'' = unit_node ?s ''u1''"
    by (rule moves_lookup [OF mv, where bad = "{(Book_Unit, ''u1'')}"]) (auto simp: book_insert_lookup)
  have l: "lease_node (fn_store f) ''u1'' = lease_node ?s ''u1''"
    by (rule moves_lookup [OF mv, where bad = "{(Book_Lease, ''u1'')}"]) (auto simp: book_insert_lookup)
  have e: "effect_node (fn_store f) held_key = effect_node ?s held_key"
    by (rule moves_lookup [OF mv, where bad = "{(Book_Effect b, held_key) | b. True}"]) (auto simp: book_insert_lookup)
  have r: "receipt_node (fn_store f) (receipt_key held_dispatch) = receipt_node ?s (receipt_key held_dispatch)"
    by (rule moves_lookup [OF mv, where bad = "{(Book_Receipt, receipt_key held_dispatch)}"])
      (auto simp: book_insert_lookup receipt_key_def held_command_defs)
  have at: "unit_node ?s ''u1'' = Some 0" "lease_node ?s ''u1'' = Some 1" "effect_node ?s held_key = Some 2"
    by (simp_all add: bt_get_def held_defs)
  show "read_unit demo_kernel (fn_store f) ''u1'' = read_unit demo_kernel ?s ''u1''"
    "read_lease demo_kernel (fn_store f) ''u1'' = read_lease demo_kernel ?s ''u1''"
    "read_effect demo_kernel (fn_store f) held_key = read_effect demo_kernel ?s held_key"
    using kept [of 0] kept [of 1] kept [of 2] u l e at by (simp_all add: read_unit_def read_lease_def read_effect_def)
  show "effect_node (fn_store f) held_key = Some 2" using e at by simp
  show "node_str demo_kernel (fn_store f) 2 ''effect_intent_id'' = Some held_id"
    using kept [of 2] by (simp add: node_str_def prop_str_def held_defs)
  show "receipt_node (fn_store f) (receipt_key held_dispatch) = None" using r by (simp add: bt_get_def held_defs)
  show "st_authority_epoch (fn_store f) = 1" "st_project_id (fn_store f) = ''p1''"
    using mv by (simp_all add: moves_def held_defs)
qed

lemma held_reads:
  "read_unit demo_kernel (fn_store held_funnel) ''u1'' =
     Some \<lparr>ur_node = 0, ur_version = 2, ur_epoch = 1, ur_stamp = 0, ur_work_item_id = ''w1''\<rparr>"
  "read_lease demo_kernel (fn_store held_funnel) ''u1'' =
     Some \<lparr>lr_node = 1, lr_holder_id = ''h'', lr_status = ''active'', lr_version = 1\<rparr>"
  "read_effect demo_kernel (fn_store held_funnel) held_key =
     Some \<lparr>er_node = 2, er_version = 1, er_record = Doc_Intent (demo_prepared ''u1'' held_key)\<rparr>"
  by (simp_all add: read_unit_def read_lease_def read_effect_def bt_get_def held_defs
      prop_u64_def prop_str_def prop_text_def or_zero_def or_empty_def)

lemma held_intent:
  assumes "submit demo_kernel None held_cancel held_funnel = (Completed x, f)"
  shows "intent_of demo_kernel (fn_store f) held_key = Some (demo_prepared ''u1'' held_key)"
    and "effect_below demo_kernel (fn_store f) ''u1'' held_key Kind_EffectIntent held_id"
  using held_after [OF assms] held_reads by (simp_all add: intent_of_def)

lemma held_dispatch_completes:
  assumes sub: "submit demo_kernel None held_cancel held_funnel = (Completed x, f)"
    and gates: "fn_gate f = None" "\<not> fn_gate_broken f" and room: "st_next_cursor (fn_store f) = 2" "fn_mint_seq f = 2"
  obtains y f' where "submit demo_kernel None held_dispatch f = (Completed y, f')"
proof -
  let ?pre = "pre_read_of demo_kernel (fn_store f) held_dispatch"
  let ?row = "\<lparr>er_node = 2, er_version = 1, er_record = Doc_Intent (demo_prepared ''u1'' held_key)\<rparr>"
  note after = held_after [OF sub] held_intent [OF sub]
  have m: "cmd_method held_dispatch = EffectDispatch ''u1'' held_key" by (simp add: held_command_defs)
  have bar: "kernel_ok demo_kernel f" "barred demo_kernel (fn_store f) Kind_EffectIntent held_id"
    using cancelled_barred [OF held_ok sub, where inputs = "[]"] by (simp_all add: held_command_defs)
  have blk: "blockers_of ?pre \<noteq> []"
    using effect_below_blocked [OF _ _ bar(2) m after(9) _ after(1) [unfolded held_reads] after(10)] bar(1) by (simp add: kernel_ok_def)
  have gate: "holder_gate 1 held_dispatch ?pre ''u1'' = Inr held_token"
    by (rule holder_gate_passes [OF _ _ _ _ _ _ _ after(1) [unfolded held_reads] _ _ after(2) [unfolded held_reads]])
      (simp_all add: held_command_defs held_token_def)
  have "pr_effect ?pre = Some ?row"
    using after(3) held_reads(3) by (simp add: pre_read_of_def Let_def effect_key_of_def m)
  then have res: "resolve_bound demo_kernel held_dispatch ?pre ''u1'' held_key = Inr (?row, demo_prepared ''u1'' held_key)"
    unfolding resolve_bound_Inr by (simp add: held_command_defs)
  have "settle_intent Term_Cancelled (demo_prepared ''u1'' held_key) =
      Inr ((demo_prepared ''u1'' held_key)\<lparr>ei_state := Effect_Settled, ei_terminal := Some Term_Cancelled\<rparr>)"
    by (simp add: settle_intent_Inr demo_prepared_def)
  then have "\<exists>v state t z ev r. validate demo_kernel f held_dispatch ?pre =
      Inr (\<lparr>acc_plan = Plan_UpdateEffect 2 v state t z, acc_events = [ev], acc_result = r\<rparr>, 2)"
    using gate res blk after(7) room(2)
    by (simp add: validate_def Let_def validate_effect_dispatch_def m and_then_def
        already_settled_def dispatchable_def next_version_def ok_or_def u64_checked_add_def update_accepted_def accepting_def
        map_err_def)
  then obtain v state t z ev r where v: "validate demo_kernel f held_dispatch ?pre =
      Inr (\<lparr>acc_plan = Plan_UpdateEffect 2 v state t z, acc_events = [ev], acc_result = r\<rparr>, 2)" by blast
  have "2 < length (st_graph (fn_store f))" using after(5) by (auto simp: node_str_def split: if_splits)
  then obtain s1 where plan: "apply_plan demo_kernel (Plan_UpdateEffect 2 v state t z) (stage_of (f\<lparr>fn_mint_seq := 2\<rparr>)) = Inr s1"
    by (simp add: update_row_def stage_of_def)
  have addr: "address_is_valid held_dispatch (st_project_id (fn_store f))"
    using held_key_valid by (simp add: after(8) held_command_defs demo_address in_unit_scope_def)
  show thesis
    by (rule demo_completes [OF gates addr after(6) _ _ v, of s1]) (use plan in \<open>simp_all add: room held_command_defs that\<close>)
qed

end
