(* ===== verification/Kernel_Properties.thy ===== *)
theory Kernel_Properties
  imports Kernel_Demo
begin

text \<open>
  The properties of the kernel's mutation funnel, over every run of it: commands are answered once and for
  all, the journal only grows, overtaken holders are fenced off, effects follow their lifecycle, and a
  committed cancellation bars whatever stands below it. Each is exercised on the small store of
  \<open>Kernel_Demo\<close>.
\<close>

section \<open>Answers and the journal\<close>

text \<open>
  C2. Exactly once: a command that was completed is answered with the same result, marked as replayed, and
  changes nothing, whenever it is submitted again while the funnel is open, whatever was submitted, ticked or
  rejected in between and whatever the commit would have returned.
\<close>

theorem completed_commands_are_replayed:
  assumes "funnel_ok K f" and "submit K commit cmd f = (Completed r, f1)" and "f2 = fold (funnel_step K) inputs f1"
    and "fn_gate f2 = None" and "\<not> fn_gate_broken f2"
  shows "submit K commit' cmd f2 = (Replayed r, f2)"
proof -
  have ok: "kernel_env_ok K" using assms(1) by (simp add: funnel_ok_def)
  obtain a s where run: "completes K cmd a s f f1" and r: "r = acc_result a"
    using submit_outcome [OF ok assms(2)] by auto
  obtain n cs where n: "receipt_node (fn_store f1) (receipt_key cmd) = Some n"
    "node_of K (fn_store f1) n = Some (receipt_properties K cmd (method_wire (cmd_method cmd)) ''completed'' (acc_result a) cs)"
    using completes_receipt [OF ok run] .
  have "address_is_valid cmd (st_project_id (fn_store f1))"
    using submitted_address [of K commit cmd f r f1] assms(2) submit_project [OF assms(1,2)] by simp
  from replay_after [OF submit_ok [OF assms(1,2)] this n(1) assms(3-5)] show ?thesis
    by (simp add: n(2) replay_of_receipt [OF ok] replay_of_completion r)
qed

theorem completed_commands_are_replayed_witness:
  "\<exists>f1. submit demo_kernel None demo_open demo_funnel =
      (Completed (json_object [(''run_id'', JString ''r3''), (''version'', json_u64 1)]), f1) \<and>
    submit demo_kernel None demo_open f1 =
      (Replayed (json_object [(''run_id'', JString ''r3''), (''version'', json_u64 1)]), f1)"
proof (rule demo_open_completes)
  fix f1
  assume f1: "submit demo_kernel None demo_open demo_funnel =
      (Completed (json_object [(''run_id'', JString ''r3''), (''version'', json_u64 1)]), f1)"
    and up: "fn_gate f1 = None" "\<not> fn_gate_broken f1"
  have "funnel_ok demo_kernel demo_funnel" using demo_ok by (simp add: kernel_ok_def)
  from completed_commands_are_replayed [OF this f1, of f1 "[]", OF _ up] f1 show ?thesis by auto
qed

text \<open>
  C11. A rejection that was recorded is final: if a command without a receipt was rejected and left one, then
  every later submission of it while the funnel is open is rejected with the same kind and the same detail,
  marked as replayed, and changes nothing.
\<close>

theorem recorded_rejections_are_final:
  assumes "funnel_ok K f" and "receipt_node (fn_store f) (receipt_key cmd) = None"
    and "submit K commit cmd f = (Rejected kind detail replayed, f1)"
    and "receipt_node (fn_store f1) (receipt_key cmd) \<noteq> None" and "f2 = fold (funnel_step K) inputs f1"
    and "fn_gate f2 = None" and "\<not> fn_gate_broken f2"
  shows "submit K commit' cmd f2 = (Rejected kind detail True, f2)"
proof -
  have ok: "kernel_env_ok K" using assms(1) by (simp add: funnel_ok_def)
  have "\<not> kept f f1" using assms(2,4) by (auto simp: kept_def)
  then have rej: "rejects K cmd (method_wire (cmd_method cmd)) kind detail f f1"
    using submit_outcome [OF ok assms(3)] by auto
  have "fn_store f1 \<noteq> fn_store f" using assms(2,4) by auto
  then have addr: "address_is_valid cmd (st_project_id (fn_store f1))"
    using submitted_address [of K commit cmd f _ f1 kind detail replayed] assms(3) submit_project [OF assms(1,3)] by simp
  show ?thesis
  proof (rule rejectsE [OF ok rej])
    fix n
    assume n: "st_books (fn_store f1) = book_insert Book_Receipt (receipt_key cmd) n (st_books (fn_store f))"
      "node_properties K (st_graph (fn_store f1)) n = Some (receipt_properties K cmd (method_wire (cmd_method cmd)) ''rejected''
      (json_object [(''error_kind'', JString (error_kind_wire kind)), (''detail'', JString detail)]) None)"
    have "receipt_node (fn_store f1) (receipt_key cmd) = Some n" using n(1) by (simp add: table_simps)
    from replay_after [OF submit_ok [OF assms(1,3)] addr this assms(5-7)] show ?thesis
      by (simp add: n(2) replay_of_receipt [OF ok] replay_of_rejection)
  qed
qed

lemma demo_denied_rejected:
  obtains d f1 where "submit demo_kernel None demo_denied demo_funnel = (Rejected InvalidRequest d False, f1)"
    and "receipt_node (fn_store f1) (receipt_key demo_denied) \<noteq> None" and "fn_gate f1 = None" and "\<not> fn_gate_broken f1"
proof -
  have v: "\<exists>d. validate demo_kernel demo_funnel demo_denied (pre_read_of demo_kernel (fn_store demo_funnel) demo_denied) =
      Inl (Reject InvalidRequest d True)"
    by (simp add: validate_def Let_def validate_run_open_def authority_gate_def and_then_def demo_command_defs)
  have a: "address_is_valid demo_denied (st_project_id (fn_store demo_funnel))"
    by (simp add: demo_command_defs demo_defs demo_address)
  have g: "fn_gate demo_funnel = None" "\<not> fn_gate_broken demo_funnel" "receipt_node (fn_store demo_funnel) k = None" for k
    by (simp_all add: demo_defs)
  from v a g that show thesis
    by (auto simp: submit_def Let_def persist_rejection_def table_simps)
qed

theorem recorded_rejections_are_final_witness:
  "\<exists>d f1. submit demo_kernel None demo_denied demo_funnel = (Rejected InvalidRequest d False, f1) \<and>
     submit demo_kernel None demo_denied f1 = (Rejected InvalidRequest d True, f1)"
proof (rule demo_denied_rejected)
  fix d f1
  assume f1: "submit demo_kernel None demo_denied demo_funnel = (Rejected InvalidRequest d False, f1)"
    "receipt_node (fn_store f1) (receipt_key demo_denied) \<noteq> None" "fn_gate f1 = None" "\<not> fn_gate_broken f1"
  have "funnel_ok demo_kernel demo_funnel" using demo_ok by (simp add: kernel_ok_def)
  moreover have "receipt_node (fn_store demo_funnel) (receipt_key demo_denied) = None" by (simp add: demo_defs)
  ultimately show ?thesis
    using recorded_rejections_are_final [OF _ _ f1(1,2), of f1 "[]" None] f1 by auto
qed

text \<open>
  C10. The journal only grows: along any run of the funnel no receipt, event or delivery is lost, moved or
  changed, every event that is new has a cursor between the allocator's value before and after, and neither
  the authority epoch nor the project changes.
\<close>

theorem journal_only_grows:
  assumes "funnel_ok K f" and "f' = fold (funnel_step K) inputs f"
  shows "rows_kept K receipt_node (fn_store f) (fn_store f') \<and> rows_kept K event_node (fn_store f) (fn_store f') \<and>
    rows_kept K cancel_delivery_node (fn_store f) (fn_store f') \<and>
    (\<forall>c. event_node (fn_store f') c \<noteq> event_node (fn_store f) c \<longrightarrow>
       st_next_cursor (fn_store f) \<le> c \<and> c < st_next_cursor (fn_store f')) \<and>
    st_authority_epoch (fn_store f') = st_authority_epoch (fn_store f) \<and>
    st_project_id (fn_store f') = st_project_id (fn_store f)"
  using run_journal [OF assms(1), of inputs] by (simp add: assms(2) journal_extends_def)

theorem journal_only_grows_witness:
  "rows_kept demo_kernel receipt_node (fn_store demo_funnel)
     (fn_store (fold (funnel_step demo_kernel) [In_Submit demo_open None, In_Submit demo_close None, In_Tick 9] demo_funnel))"
  using journal_only_grows [of demo_kernel demo_funnel, OF _ refl] demo_ok unfolding kernel_ok_def by blast

section \<open>Fencing\<close>

text \<open>
  C3. A superseded holder is fenced off for ever: once the attempt epoch or the stamp of a unit has passed the
  one a token was sealed with, no command that carries the token is completed in any later state.
\<close>

theorem superseded_tokens_are_refused:
  assumes "funnel_ok K f" and "read_unit K (fn_store f) (tk_unit_id token) = Some row"
    and "tk_attempt_epoch token < ur_epoch row \<or> tk_stamp token < ur_stamp row" and "attempt_token cmd = Some token"
  shows "fst (submit K commit cmd (fold (funnel_step K) inputs f)) \<noteq> Completed r"
proof
  let ?f = "fold (funnel_step K) inputs f"
  assume "fst (submit K commit cmd ?f) = Completed r"
  then obtain f' where "submit K commit cmd ?f = (Completed r, f')" by (metis prod.collapse)
  moreover have "kernel_env_ok K" using assms(1) by (simp add: funnel_ok_def)
  ultimately obtain a s where "completes K cmd a s ?f f'" using submit_outcome by fast
  then obtain seq where "validate K ?f cmd (pre_read_of K (fn_store ?f) cmd) = Inr (a, seq)"
    by (auto simp: completes_def)
  from validate_token [OF this assms(4)] obtain row' where "read_unit K (fn_store ?f) (tk_unit_id token) = Some row'"
    "tk_attempt_epoch token = ur_epoch row'" "tk_stamp token = ur_stamp row'" by blast
  with run_unit [OF assms(1,2), of inputs] assms(3) show False by (auto simp: unit_advances_def)
qed

definition demo_token :: attempt_token_claims where
  "demo_token = \<lparr>tk_unit_id = ''u1'', tk_attempt_epoch = 1, tk_stamp = 1, tk_authority_epoch = 1, tk_holder_id = ''h'', tk_nonce = ''n''\<rparr>"

definition demo_report :: kernel_command where
  "demo_report = (demo_command ''c7'' Scope_Unit ''u1'' (Some 3) (ProgressReport ''u1''))
     \<lparr>principal_kind_of := Principal_Agent, principal_id := ''h'', attempt_token := Some demo_token\<rparr>"

theorem superseded_tokens_are_refused_witness:
  "fst (submit demo_kernel None demo_report (fold (funnel_step demo_kernel) [In_Submit demo_dispatch None] demo_funnel)) \<noteq>
     Completed JNull"
  by (rule superseded_tokens_are_refused [where token = demo_token and row = "\<lparr>ur_node = 3, ur_version = 3, ur_epoch = 2,
        ur_stamp = 1, ur_work_item_id = ''w1''\<rparr>"])
    (use demo_ok in \<open>simp_all add: kernel_ok_def demo_token_def demo_report_def demo_command_def read_unit_def bt_get_def
      demo_defs prop_u64_def prop_str_def or_zero_def or_empty_def\<close>)

text \<open>
  C13. The token of a dispatch is good: the result of a completed dispatch yields a token for the unit and the
  holder it names, and in the state it leaves, a command of that holder with the token passes the gate of its
  unit.
\<close>

theorem dispatch_yields_a_valid_token:
  assumes "funnel_ok K f" and "submit K commit cmd f = (Completed r, f')" and "cmd_method cmd = UnitDispatch u h"
  shows "\<exists>token. token_from_result r = Some token \<and> tk_unit_id token = u \<and> tk_holder_id token = h \<and>
    (\<forall>c. principal_kind_of c = Principal_Agent \<longrightarrow> principal_id c = h \<longrightarrow> attempt_token c = Some token \<longrightarrow>
       authority_epoch_of c = None \<longrightarrow> method_unit_id (cmd_method c) = Some u \<longrightarrow>
       holder_gate (st_authority_epoch (fn_store f')) c (pre_read_of K (fn_store f') c) u = Inr token)"
proof -
  have ok: "kernel_env_ok K" and lab: "labels_ok K (fn_store f)" and lim: "st_next_cursor (fn_store f) < U64_MODULUS"
    using assms(1) by (simp_all add: funnel_ok_def cursors_ok_def)
  obtain a s where run: "completes K cmd a s f f'" and r: "r = acc_result a" using submit_outcome [OF ok assms(2)] by auto
  then obtain seq where "validate K f cmd (pre_read_of K (fn_store f) cmd) = Inr (a, seq)" by (auto simp: completes_def)
  then have "validate_unit_dispatch f cmd (pre_read_of K (fn_store f) cmd) u h (fn_mint_seq f) = Inr (a, seq)"
    using assms(3) by (simp add: validate_def Let_def)
  then show ?thesis
  proof (rule lawful_unit_dispatch [OF _ assms(3)])
    fix d row
    assume d: "acc_plan a = Plan_Dispatch d" "dp_unit_id d = u" "dp_holder_id d = h"
      "dp_authority_epoch d = st_authority_epoch (fn_store f)"
      "acc_result a = json_object [(''unit_id'', JString u), (''version'', json_u64 (dp_new_version d)),
          (''attempt_epoch'', json_u64 (dp_new_epoch d)), (''attempt_id'', JString (dp_attempt_id d)),
          (''stamp'', json_u64 (dp_stamp d)), (''authority_epoch'', json_u64 (dp_authority_epoch d)),
          (''holder_id'', JString h), (''token_nonce'', JString (dp_token_nonce d))]"
    note mv = completes_moves [OF ok run lim, unfolded d(1)]
    obtain row' where "read_unit K (fn_store f') u = Some row'" "ur_epoch row' = dp_new_epoch d" "ur_stamp row' = dp_stamp d"
      using dispatched_unit [OF ok lab mv] d(2) by auto
    moreover obtain l where "read_lease K (fn_store f') u = Some l" "lr_holder_id l = h" "lr_status l = ''active''"
      using dispatched_lease [OF ok lab mv] d(2,3) by auto
    moreover have "st_authority_epoch (fn_store f') = dp_authority_epoch d" using mv d(4) by (simp add: moves_def)
    ultimately show ?thesis
      by (intro exI conjI allI impI)
        (simp add: r d(5) token_of_dispatch | rule refl | rule holder_gate_passes; simp)+
  qed
qed

theorem dispatch_yields_a_valid_token_witness:
  "\<exists>r f'. submit demo_kernel None demo_dispatch demo_funnel = (Completed r, f') \<and> token_from_result r \<noteq> None"
proof (rule demo_dispatch_completes)
  fix r f'
  assume f': "submit demo_kernel None demo_dispatch demo_funnel = (Completed r, f')"
  have "cmd_method demo_dispatch = UnitDispatch ''u2'' ''h''" by (simp add: demo_command_defs)
  from dispatch_yields_a_valid_token [OF _ f' this] demo_ok f' show ?thesis by (fastforce simp: kernel_ok_def)
qed

section \<open>Effects\<close>

text \<open>
  C5. The ledger refines the lifecycle of an effect: along any run of the funnel, the intent recorded under an
  operation key changes only by steps of the lifecycle, each taken by a submitted command and permitted by what
  that command says: dispatched with the approval an irreversible effect needs and again only where a retry is
  allowed, or cancelled while still prepared; recorded as dispatched after dispatching; parked only once it may
  have reached the world; settled once, on the terminal and the evidence of the command, where a cancellation
  of an effect in flight needs the target's own report, a success every target applied, a failure no target in
  doubt, a compensation a registered one and a reversible effect, and a target counts as applied only when
  the submitted row observed the digest that was expected of it.
\<close>

theorem effects_follow_the_lifecycle:
  assumes "funnel_ok K f" and "intent_of K (fn_store f) key = Some i"
  shows "\<exists>j. intent_of K (fn_store (fold (funnel_step K) inputs f)) key = Some j \<and> lifecycle_run inputs i j"
  using run_intent [OF assms] .

lemma demo_intents:
  "intent_of demo_kernel (fn_store demo_funnel) ''e1'' = Some demo_settled"
  "intent_of demo_kernel (fn_store demo_funnel) ''e2'' = Some (demo_prepared ''u2'' ''e2'')"
  by (simp_all add: intent_of_def read_effect_def bt_get_def demo_defs prop_text_def)

theorem effects_follow_the_lifecycle_witness:
  "\<exists>j. intent_of demo_kernel (fn_store (fold (funnel_step demo_kernel) [In_Submit held_cancel None, In_Submit held_dispatch None] held_funnel)) held_key = Some j \<and>
     lifecycle_run [In_Submit held_cancel None, In_Submit held_dispatch None] (demo_prepared ''u1'' held_key) j"
  by (rule effects_follow_the_lifecycle) (use held_ok held_reads(3) in \<open>simp_all add: kernel_ok_def intent_of_def\<close>)

text \<open>
  A terminal outcome is written once: an effect that has one keeps its whole intent in every later state.
\<close>

theorem settled_effects_are_final:
  assumes "funnel_ok K f" and "intent_of K (fn_store f) key = Some i" and "ei_terminal i \<noteq> None"
  shows "intent_of K (fn_store (fold (funnel_step K) inputs f)) key = Some i"
proof -
  obtain j where j: "intent_of K (fn_store (fold (funnel_step K) inputs f)) key = Some j" "lifecycle_run inputs i j"
    using run_intent [OF assms(1,2)] by blast
  with lifecycle_settled [OF j(2) assms(3)] show ?thesis by simp
qed

theorem settled_effects_are_final_witness:
  "intent_of demo_kernel (fn_store (fold (funnel_step demo_kernel) [In_Submit demo_close None, In_Submit demo_cancel None] demo_funnel)) ''e1'' =
     Some demo_settled"
  by (rule settled_effects_are_final) (use demo_ok demo_intents in \<open>simp_all add: kernel_ok_def\<close>)

text \<open>
  C12. The rows of the kernel stay consistent: every entry of an address book names a row of its kind, every
  cursor is below the allocator, every unit can be read, and the columns of every effect (state, terminal,
  version and unit) agree with the intent in its record, whose history starts from a prepared intent.
\<close>

theorem kernel_rows_stay_consistent:
  assumes "kernel_ok K f"
  shows "kernel_ok K (fold (funnel_step K) inputs f)"
  using assms by (rule kernel.run_invariant)

theorem kernel_rows_stay_consistent_witness:
  "kernel_ok demo_kernel (fold (funnel_step demo_kernel) [In_Submit demo_open None, In_Submit demo_dispatch None] demo_funnel)"
  by (rule kernel_rows_stay_consistent [OF demo_ok])

section \<open>Cancellation and closing\<close>

text \<open>
  C4. A committed cancellation bars what stands below it: once the cancellation of a run or of a unit was
  completed, no unit is admitted into that run and no unit below it is dispatched or prepares an effect, in
  any later state of the funnel.
\<close>

theorem cancellation_bars_admission:
  assumes "kernel_ok K f" and "submit K commit c f = (Completed x, f1)"
    and "cmd_method c = CancelRequest kind rid reason policy proposed"
    and "f2 = fold (funnel_step K) inputs f1" and "admits_below K (fn_store f2) (cmd_method cmd) kind rid"
  shows "fst (submit K commit' cmd f2) \<noteq> Completed y"
proof
  have ok: "kernel_env_ok K" using assms(1) by (simp add: kernel_ok_def funnel_ok_def)
  have bar: "barred K (fn_store f2) kind rid" and un: "units_ok K (fn_store f2)"
    using cancelled_barred [OF assms(1-3), of inputs] by (simp_all add: assms(4) kernel_ok_def)
  assume "fst (submit K commit' cmd f2) = Completed y"
  then obtain f3 where "submit K commit' cmd f2 = (Completed y, f3)" by (metis prod.collapse)
  then obtain b s' where "completes K cmd b s' f2 f3" using submit_outcome [OF ok] by fast
  then obtain seq' where "validate K f2 cmd (pre_read_of K (fn_store f2) cmd) = Inr (b, seq')" by (auto simp: completes_def)
  with blocked_not_accepted [OF admits_below_blocked [OF un bar assms(5)] assms(5)] show False by blast
qed

theorem cancellation_bars_admission_witness:
  "\<exists>x f1. submit demo_kernel None demo_cancel demo_funnel = (Completed x, f1) \<and>
     (\<forall>y. fst (submit demo_kernel None demo_admit f1) \<noteq> Completed y)"
proof (rule demo_cancel_completes)
  fix x f1
  assume f1: "submit demo_kernel None demo_cancel demo_funnel = (Completed x, f1)"
  have m: "cmd_method demo_cancel =
      CancelRequest Kind_Run ''r2'' OwnerRequest RootOnly [\<lparr>input_kind = Kind_Run, input_id = ''r2'', input_attachment = Attached\<rparr>]"
    by (simp add: demo_command_defs)
  have "admits_below demo_kernel (fn_store f1) (cmd_method demo_admit) Kind_Run ''r2''" by (simp add: demo_command_defs)
  then have "fst (submit demo_kernel None demo_admit f1) \<noteq> Completed y" for y
    using cancellation_bars_admission [OF demo_ok f1 m, of f1 "[]"] by simp
  with f1 show ?thesis by blast
qed

text \<open>
  C14. A prepared effect below a committed cancellation never reaches the world. Whatever happens after the
  request, if the effect is still prepared and stands below the cancelled root (its run, its unit, its attempt or
  the effect itself), then a dispatch of it that is completed records nothing but that the effect is settled as
  cancelled, and that is what the ledger says of it in every later state.
\<close>

theorem barred_dispatch_settles_cancelled:
  assumes "kernel_ok K f" and "submit K commit c f = (Completed x, f1)"
    and "cmd_method c = CancelRequest kind rid reason policy proposed" and "f2 = fold (funnel_step K) inputs f1"
    and "intent_of K (fn_store f2) key = Some i" and "ei_state i = Effect_Prepared"
    and "effect_below K (fn_store f2) u key kind rid"
    and "submit K commit' cmd f2 = (Completed y, f3)" and "cmd_method cmd = EffectDispatch u key"
  shows "\<exists>v. \<forall>later. intent_of K (fn_store (fold (funnel_step K) later f3)) key =
    Some (i\<lparr>ei_terminal := Some Term_Cancelled, ei_state := Effect_Settled, settled_at := Some (fn_clock_ms f2), ei_version := v\<rparr>)"
proof -
  have k: "kernel_ok K f2" and bar: "barred K (fn_store f2) kind rid"
    unfolding assms(4) by (rule cancelled_barred [OF assms(1-3)])+
  have fk: "funnel_ok K f2" using k by (simp add: kernel_ok_def)
  have "blockers_of (pre_read_of K (fn_store f2) cmd) \<noteq> []"
    if "ei_unit_id i = u" "read_unit K (fn_store f2) u = Some row" for row
    by (rule effect_below_blocked [OF _ _ bar assms(9,5) that]) (use k that assms(7) in \<open>simp_all add: kernel_ok_def\<close>)
  with blocked_dispatch_settles [OF fk assms(8,9,5,6)] obtain v where
    "intent_of K (fn_store f3) key = Some (i\<lparr>ei_terminal := Some Term_Cancelled, ei_state := Effect_Settled,
       settled_at := Some (fn_clock_ms f2), ei_version := v\<rparr>)" (is "_ = Some ?j") by blast
  then have "intent_of K (fn_store (fold (funnel_step K) later f3)) key = Some ?j" for later
    using run_intent [OF submit_ok [OF fk assms(8)], of key ?j later] lifecycle_settled [of later ?j] by auto
  then show ?thesis by blast
qed

theorem barred_dispatch_settles_cancelled_witness:
  "\<exists>x f1 y f3 j. submit demo_kernel None held_cancel held_funnel = (Completed x, f1) \<and>
     submit demo_kernel None held_dispatch f1 = (Completed y, f3) \<and>
     intent_of demo_kernel (fn_store f3) held_key = Some j \<and> ei_terminal j = Some Term_Cancelled"
proof (rule held_cancel_completes)
  fix x f1
  assume f1: "submit demo_kernel None held_cancel held_funnel = (Completed x, f1)"
    and after: "fn_gate f1 = None" "\<not> fn_gate_broken f1" "st_next_cursor (fn_store f1) = 2" "fn_mint_seq f1 = 2"
  obtain y f3 where f3: "submit demo_kernel None held_dispatch f1 = (Completed y, f3)"
    using held_dispatch_completes [OF f1 after] .
  have m: "cmd_method held_cancel = CancelRequest Kind_EffectIntent held_id OwnerRequest RootOnly
      [\<lparr>input_kind = Kind_EffectIntent, input_id = held_id, input_attachment = Attached\<rparr>]"
    "cmd_method held_dispatch = EffectDispatch ''u1'' held_key" by (simp_all add: held_command_defs)
  obtain v where "\<forall>later. intent_of demo_kernel (fn_store (fold (funnel_step demo_kernel) later f3)) held_key =
      Some ((demo_prepared ''u1'' held_key)\<lparr>ei_terminal := Some Term_Cancelled, ei_state := Effect_Settled,
        settled_at := Some (fn_clock_ms f1), ei_version := v\<rparr>)"
    using barred_dispatch_settles_cancelled [OF held_ok f1 m(1), of f1 "[]", OF _ held_intent(1) [OF f1] _ held_intent(2) [OF f1] f3 m(2)]
    by auto
  from spec [OF this, of "[]"] f1 f3 show ?thesis by auto
qed

text \<open>
  C9. A run closes as a success only when nothing of it is open: if the closing is completed, then every effect
  of a unit of the run is settled with a known outcome, and every cancellation whose root lies in the run is
  settled.
\<close>

theorem success_needs_settled_effects:
  assumes "kernel_ok K f" and "submit K commit cmd f = (Completed x, f')" and "cmd_method cmd = RunClose r ClosedSuccess"
  shows "(\<forall>key i. intent_of K (fn_store f) key = Some i \<longrightarrow> unit_run_id K (fn_store f) (ei_unit_id i) = Some r \<longrightarrow>
       ei_state i = Effect_Settled \<and> (\<exists>t. ei_terminal i = Some t \<and> t \<noteq> Term_Unknown)) \<and>
    (\<forall>n \<in> set (cancel_request_nodes (fn_store f)). \<forall>id kind rid root status.
       node_str K (fn_store f) n ''cancel_request_id'' = Some id \<longrightarrow> node_str K (fn_store f) n ''root_kind'' = Some kind \<longrightarrow>
       node_str K (fn_store f) n ''root_id'' = Some rid \<longrightarrow> node_str K (fn_store f) n ''status'' = Some status \<longrightarrow>
       kind_from_wire kind = Some root \<longrightarrow> root_run K (fn_store f) root rid = Some r \<longrightarrow> status = ''settled'')"
proof -
  have ok: "kernel_env_ok K" and eff: "effects_ok K (fn_store f)" using assms(1) by (simp_all add: kernel_ok_def funnel_ok_def)
  obtain a s where "completes K cmd a s f f'" using submit_outcome [OF ok assms(2)] by auto
  then obtain seq where "validate K f cmd (pre_read_of K (fn_store f) cmd) = Inr (a, seq)" by (auto simp: completes_def)
  note needs = success_needs [OF close_success_unblocked [OF this assms(3)] eff]
  have "status = ''settled''"
    if n: "n \<in> set (cancel_request_nodes (fn_store f))" and row: "node_str K (fn_store f) n ''cancel_request_id'' = Some id"
      "node_str K (fn_store f) n ''root_kind'' = Some kind" "node_str K (fn_store f) n ''root_id'' = Some rid"
      "node_str K (fn_store f) n ''status'' = Some status" "kind_from_wire kind = Some root" "root_run K (fn_store f) root rid = Some r"
    for n id kind rid root status
    using needs(2) [OF n] row by (auto simp: cancel_blocker_def split: if_splits)
  with needs(1) show ?thesis by blast
qed

theorem success_needs_settled_effects_witness:
  "\<exists>r f'. submit demo_kernel None demo_close demo_funnel = (Completed r, f') \<and>
     (\<forall>i. intent_of demo_kernel (fn_store demo_funnel) ''e1'' = Some i \<longrightarrow> ei_state i = Effect_Settled)"
proof (rule demo_close_completes)
  fix r f'
  assume f': "submit demo_kernel None demo_close demo_funnel = (Completed r, f')"
  have "cmd_method demo_close = RunClose ''r1'' ClosedSuccess" by (simp add: demo_command_defs)
  from success_needs_settled_effects [OF demo_ok f' this]
  have "unit_run_id demo_kernel (fn_store demo_funnel) (ei_unit_id i) = Some ''r1'' \<Longrightarrow> ei_state i = Effect_Settled"
    if "intent_of demo_kernel (fn_store demo_funnel) ''e1'' = Some i" for i using that by blast
  moreover have "unit_run_id demo_kernel (fn_store demo_funnel) ''u1'' = Some ''r1''"
    by (simp add: unit_run_id_def node_str_def bt_get_def demo_defs prop_str_def)
  ultimately show ?thesis using f' demo_intents(1) by auto
qed

end
