(* ===== verification/Plugin_Identity.thy ===== *)
theory Plugin_Identity
  imports Kernel_Ids
begin

text \<open>
  Identities of the plugin contract (\<open>yah-plugin-host/src/identity.rs\<close>): qualified names, versioned
  identities, versions, package paths and digests. A string is the list of its UTF-8 bytes. The \<open>semver\<close>
  crate is the parameter \<open>semver_api\<close>. Theorems: the loops accept exactly the grammar their errors describe,
  a versioned identity is its name and its major, and an admitted path cannot leave its package.
\<close>

section \<open>Cutting strings\<close>

text \<open>\<open>str::split\<close> on a character, and \<open>str::split_once\<close> on a string.\<close>

fun split_on :: "char \<Rightarrow> string \<Rightarrow> string list" where
  "split_on c [] = [[]]"
| "split_on c (x # xs) = (if x = c then [] # split_on c xs
                          else (x # hd (split_on c xs)) # tl (split_on c xs))"

fun split_once :: "string \<Rightarrow> string \<Rightarrow> (string \<times> string) option" where
  "split_once p [] = (if p = [] then Some ([], []) else None)"
| "split_once p (x # xs) =
     (case strip_prefix_of p (x # xs) of
        Some rest \<Rightarrow> Some ([], rest)
      | None \<Rightarrow> map_option (\<lambda>(a, b). (x # a, b)) (split_once p xs))"

fun join_with :: "char \<Rightarrow> string list \<Rightarrow> string" where
  "join_with c [] = []"
| "join_with c [s] = s"
| "join_with c (s # t # ss) = s @ c # join_with c (t # ss)"

text \<open>\<open>str::parse::<u32>\<close>: an optional plus sign, then one digit or more.\<close>

definition parse_u32 :: "string \<Rightarrow> u32 option" where
  "parse_u32 s =
     (let ds = (case s of c # cs \<Rightarrow> if c = CHR ''+'' then cs else s | [] \<Rightarrow> []);
          v = foldl (\<lambda>a c. a * 10 + (code c - 48)) 0 ds
      in if ds \<noteq> [] \<and> list_all ascii_digit ds \<and> v < U32_MODULUS then Some v else None)"

section \<open>Errors and bounds\<close>

definition MAX_QUALIFIED_ID_BYTES :: usize where "MAX_QUALIFIED_ID_BYTES = 128"
definition MAX_ID_SEGMENT_BYTES :: usize where "MAX_ID_SEGMENT_BYTES = 63"
definition MAX_SERVICE_ID_BYTES :: usize where "MAX_SERVICE_ID_BYTES = 160"
definition MAX_VERSION_BYTES :: usize where "MAX_VERSION_BYTES = 128"
definition MAX_PACKAGE_PATH_BYTES :: usize where "MAX_PACKAGE_PATH_BYTES = 256"

record identity_error =
  ie_kind :: string
  ie_value :: string
  ie_expected :: string

text \<open>The \<open>Debug\<close> rendering of a string is an argument.\<close>

definition identity_error_text :: "(string \<Rightarrow> string) \<Rightarrow> identity_error \<Rightarrow> string" where
  "identity_error_text debug e =
     ''invalid '' @ ie_kind e @ '' '' @ debug (ie_value e) @ ''; expected '' @ ie_expected e"

definition qualified_name_error :: "string \<Rightarrow> string \<Rightarrow> identity_error" where
  "qualified_name_error kind v = \<lparr>ie_kind = kind, ie_value = v, ie_expected =
     ''a lowercase ASCII dotted name with at least two segments; each segment starts with a letter and contains letters, digits, or single interior hyphens''\<rparr>"

definition versioned_id_error :: "string \<Rightarrow> string \<Rightarrow> identity_error" where
  "versioned_id_error kind v = \<lparr>ie_kind = kind, ie_value = v, ie_expected =
     ''a lowercase qualified name followed by '/v' and a positive u32 major without leading zeroes''\<rparr>"

definition version_error :: "string \<Rightarrow> string \<Rightarrow> identity_error" where
  "version_error kind v = \<lparr>ie_kind = kind, ie_value = v, ie_expected =
     ''canonical SemVer syntax; SDK requirements must be explicit and non-wildcard''\<rparr>"

definition digest_error_of :: "string \<Rightarrow> identity_error" where
  "digest_error_of v = \<lparr>ie_kind = ''package digest'', ie_value = v, ie_expected =
     [CHR 0x27] @ ''blake3:' followed by exactly 64 lowercase hexadecimal characters''\<rparr>"

section \<open>Qualified names\<close>

fun segment_loop :: "bool \<Rightarrow> string \<Rightarrow> bool" where
  "segment_loop previous_hyphen [] = (\<not> previous_hyphen)"
| "segment_loop previous_hyphen (b # bs) =
     (if is_ascii_lowercase b \<or> ascii_digit b then segment_loop False bs
      else if b = CHR ''-'' \<and> \<not> previous_hyphen then segment_loop True bs
      else False)"

definition valid_qualified_segment :: "string \<Rightarrow> bool" where
  "valid_qualified_segment segment =
     (case segment of
        [] \<Rightarrow> False
      | b # bs \<Rightarrow> if \<not> is_ascii_lowercase b then False else segment_loop False bs)"

definition is_ascii :: "string \<Rightarrow> bool" where "is_ascii = list_all (\<lambda>c. code c < 128)"

definition validate_qualified_name :: "string \<Rightarrow> string \<Rightarrow> identity_error + unit" where
  "validate_qualified_name v kind =
     (if v \<noteq> [] \<and> length v \<le> MAX_QUALIFIED_ID_BYTES \<and> is_ascii v
         \<and> 2 \<le> length (split_on (CHR ''.'') v)
         \<and> list_all (\<lambda>s. length s \<le> MAX_ID_SEGMENT_BYTES \<and> valid_qualified_segment s) (split_on (CHR ''.'') v)
      then Inr () else Inl (qualified_name_error kind v))"

datatype plugin_package_id = PluginPackageId (package_id_text: string)

definition plugin_package_id_new :: "string \<Rightarrow> identity_error + plugin_package_id" where
  "plugin_package_id_new v =
     and_then (validate_qualified_name v ''plugin package ID'') (\<lambda>_. Inr (PluginPackageId v))"

section \<open>Versioned identities\<close>

record versioned_identity =
  vi_canonical :: string
  vi_name :: string
  vi_major :: u32

definition versioned_identity_new :: "string \<Rightarrow> string \<Rightarrow> identity_error + versioned_identity" where
  "versioned_identity_new v kind =
     (if length v > MAX_SERVICE_ID_BYTES then Inl (versioned_id_error kind v)
      else case split_once ''/v'' v of
        None \<Rightarrow> Inl (versioned_id_error kind v)
      | Some (name, major) \<Rightarrow>
          if CHR ''/'' \<in> set name \<or> major = [] \<or> take 1 major = ''0'' then Inl (versioned_id_error kind v)
          else and_then (map_err (\<lambda>_. versioned_id_error kind v) (validate_qualified_name name kind)) (\<lambda>_.
            case parse_u32 major of
              None \<Rightarrow> Inl (versioned_id_error kind v)
            | Some parsed \<Rightarrow>
                if parsed = 0 \<or> show_nat parsed \<noteq> major then Inl (versioned_id_error kind v)
                else Inr \<lparr>vi_canonical = v, vi_name = name, vi_major = parsed\<rparr>))"

datatype service_contract_id = ServiceContractId (service_contract_identity: versioned_identity)
datatype capability_id = CapabilityId (capability_identity: versioned_identity)

definition service_contract_id_new :: "string \<Rightarrow> identity_error + service_contract_id" where
  "service_contract_id_new v =
     and_then (versioned_identity_new v ''service contract ID'') (\<lambda>i. Inr (ServiceContractId i))"

definition capability_id_new :: "string \<Rightarrow> identity_error + capability_id" where
  "capability_id_new v = and_then (versioned_identity_new v ''capability ID'') (\<lambda>i. Inr (CapabilityId i))"

definition service_contract_text :: "service_contract_id \<Rightarrow> string" where
  "service_contract_text s = vi_canonical (service_contract_identity s)"

definition capability_text :: "capability_id \<Rightarrow> string" where
  "capability_text c = vi_canonical (capability_identity c)"

section \<open>Versions\<close>

text \<open>\<open>semver::Version\<close> and \<open>semver::VersionReq\<close>: parsing, printing, the operators of a requirement, matching.\<close>

record ('v, 'q) semver_api =
  version_parse :: "string \<Rightarrow> 'v option"
  version_text :: "'v \<Rightarrow> string"
  req_parse :: "string \<Rightarrow> 'q option"
  req_text :: "'q \<Rightarrow> string"
  req_wildcards :: "'q \<Rightarrow> bool list"
  req_matches :: "'q \<Rightarrow> 'v \<Rightarrow> bool"

record 'v plugin_version =
  pv_canonical :: string
  pv_parsed :: 'v

record 'q sdk_version_requirement =
  sr_canonical :: string
  sr_parsed :: 'q

definition exact_version_new :: "string \<Rightarrow> ('v, 'q) semver_api \<Rightarrow> string \<Rightarrow> identity_error + 'v plugin_version" where
  "exact_version_new kind sv v =
     (if v = [] \<or> length v > MAX_VERSION_BYTES then Inl (version_error kind v)
      else case version_parse sv v of
        None \<Rightarrow> Inl (version_error kind v)
      | Some parsed \<Rightarrow>
          if version_text sv parsed \<noteq> v then Inl (version_error kind v)
          else Inr \<lparr>pv_canonical = v, pv_parsed = parsed\<rparr>)"

definition plugin_version_new :: "('v, 'q) semver_api \<Rightarrow> string \<Rightarrow> identity_error + 'v plugin_version" where
  "plugin_version_new = exact_version_new ''plugin version''"

definition sdk_version_new :: "('v, 'q) semver_api \<Rightarrow> string \<Rightarrow> identity_error + 'v plugin_version" where
  "sdk_version_new = exact_version_new ''SDK version''"

definition sdk_requirement_new :: "('v, 'q) semver_api \<Rightarrow> string \<Rightarrow> identity_error + 'q sdk_version_requirement" where
  "sdk_requirement_new sv v =
     (if v = [] \<or> length v > MAX_VERSION_BYTES then Inl (version_error ''SDK version requirement'' v)
      else case req_parse sv v of
        None \<Rightarrow> Inl (version_error ''SDK version requirement'' v)
      | Some parsed \<Rightarrow>
          if req_wildcards sv parsed = [] \<or> list_ex (\<lambda>w. w) (req_wildcards sv parsed) \<or> req_text sv parsed \<noteq> v
          then Inl (version_error ''SDK version requirement'' v)
          else Inr \<lparr>sr_canonical = v, sr_parsed = parsed\<rparr>)"

definition requirement_matches :: "('v, 'q) semver_api \<Rightarrow> 'q sdk_version_requirement \<Rightarrow> 'v plugin_version \<Rightarrow> bool" where
  "requirement_matches sv r v = req_matches sv (sr_parsed r) (pv_parsed v)"

section \<open>Package paths and digests\<close>

datatype package_relative_path = PackageRelativePath (package_path_text: string)

definition package_path_byte :: "char \<Rightarrow> bool" where
  "package_path_byte b \<longleftrightarrow> is_ascii_alphanumeric b \<or> b \<in> set ''/._-''"

definition package_relative_path_new :: "string \<Rightarrow> identity_error + package_relative_path" where
  "package_relative_path_new v =
     (let valid = v \<noteq> [] \<and> length v \<le> MAX_PACKAGE_PATH_BYTES \<and> take 1 v \<noteq> ''/'' \<and> take 1 v \<noteq> ''-''
            \<and> last v \<noteq> CHR ''/'' \<and> list_all package_path_byte v
            \<and> list_all (\<lambda>s. s \<noteq> [] \<and> s \<noteq> ''.'' \<and> s \<noteq> ''..'') (split_on (CHR ''/'') v)
      in if valid then Inr (PackageRelativePath v)
         else Inl \<lparr>ie_kind = ''package-relative path'', ie_value = v, ie_expected =
           ''1..=256 ASCII bytes in nonempty '/'-separated segments using letters, digits, '.', '_', or '-', without an option-like leading '-', absolute paths, '.', or '..' segments''\<rparr>)"

datatype package_digest = PackageDigest (package_digest_text: string)

definition package_digest_new :: "string \<Rightarrow> identity_error + package_digest" where
  "package_digest_new v =
     (case strip_prefix_of ''blake3:'' v of
        None \<Rightarrow> Inl (digest_error_of v)
      | Some hex \<Rightarrow>
          if length hex \<noteq> 64 \<or> \<not> list_all (\<lambda>b. ascii_digit b \<or> 97 \<le> code b \<and> code b \<le> 102) hex
          then Inl (digest_error_of v) else Inr (PackageDigest v))"

section \<open>Splitting and joining\<close>

lemma split_on_nonempty [simp]: "split_on c s \<noteq> []"
  by (cases s) simp_all

lemma join_Cons: "ss \<noteq> [] \<Longrightarrow> join_with c (s # ss) = s @ c # join_with c ss"
  by (cases ss) simp_all

lemma join_split: "join_with c (split_on c s) = s"
proof (induction s)
  case (Cons x xs)
  obtain t ts where t: "split_on c xs = t # ts" using split_on_nonempty [of c xs] by (cases "split_on c xs") blast+
  with Cons show ?case by (cases ts) auto
qed simp

lemma split_clean: "seg \<in> set (split_on c s) \<Longrightarrow> c \<notin> set seg"
proof (induction s arbitrary: seg)
  case (Cons x xs)
  obtain t ts where t: "split_on c xs = t # ts" using split_on_nonempty [of c xs] by (cases "split_on c xs") blast+
  with Cons show ?case by (auto split: if_splits)
qed simp

lemma split_on_word: "c \<notin> set s \<Longrightarrow> split_on c s = [s]"
  by (induction s) auto

lemma split_on_append: "c \<notin> set s \<Longrightarrow> split_on c (s @ c # rest) = s # split_on c rest"
  by (induction s) auto

lemma split_join: "ss \<noteq> [] \<Longrightarrow> \<forall>s \<in> set ss. c \<notin> set s \<Longrightarrow> split_on c (join_with c ss) = ss"
  by (induction c ss rule: join_with.induct) (simp_all add: split_on_word split_on_append)

lemma split_on_iff:
  "split_on c s = ss \<longleftrightarrow> ss \<noteq> [] \<and> s = join_with c ss \<and> (\<forall>seg \<in> set ss. c \<notin> set seg)"
  using join_split [of c s] split_clean [of _ c s] split_join [of ss c] by auto

lemma split_once_prefix:
  assumes "p \<noteq> []" and "hd p \<notin> set a"
  shows "split_once p (a @ p @ b) = Some (a, b)"
  using assms(2)
proof (induction a)
  case Nil
  then show ?case using assms(1) by (cases p) (auto simp: strip_prefix_of_def)
next
  case (Cons x a)
  then have "strip_prefix_of p ((x # a) @ p @ b) = None"
    using assms(1) by (cases p) (auto simp: strip_prefix_of_def)
  with Cons show ?case by simp
qed

lemma split_once_Some: "split_once p s = Some (a, b) \<Longrightarrow> s = a @ p @ b"
proof (induction p s arbitrary: a rule: split_once.induct)
  case (2 p x xs)
  show ?case
  proof (cases "strip_prefix_of p (x # xs)")
    case None
    with 2 show ?thesis by auto
  next
    case (Some rest)
    then have "take (length p) (x # xs) = p" "rest = drop (length p) (x # xs)"
      by (simp_all add: strip_prefix_of_def split: if_splits)
    then have "p @ rest = x # xs" by (metis append_take_drop_id)
    with Some 2(2) show ?thesis by simp
  qed
qed (simp split: if_splits)

section \<open>The grammar of names\<close>

text \<open>
  The reference: a word is one or more lowercase letters and digits; a segment is one or more words joined by
  single hyphens, beginning with a letter; a qualified name is two or more segments joined by dots.
\<close>

definition name_word :: "string \<Rightarrow> bool" where
  "name_word w \<longleftrightarrow> w \<noteq> [] \<and> (\<forall>c \<in> set w. is_ascii_lowercase c \<or> ascii_digit c)"

definition name_segment :: "string \<Rightarrow> bool" where
  "name_segment s \<longleftrightarrow> (\<exists>ws. ws \<noteq> [] \<and> (\<forall>w \<in> set ws. name_word w) \<and> s = join_with (CHR ''-'') ws \<and> is_ascii_lowercase (hd s))"

definition qualified_name :: "string \<Rightarrow> bool" where
  "qualified_name s \<longleftrightarrow>
     (\<exists>segs. 2 \<le> length segs \<and> (\<forall>seg \<in> set segs. name_segment seg \<and> length seg \<le> 63) \<and>
        s = join_with (CHR ''.'') segs \<and> length s \<le> 128)"

lemma name_word_clean: "name_word w \<Longrightarrow> CHR ''-'' \<notin> set w \<and> CHR ''.'' \<notin> set w \<and> CHR ''/'' \<notin> set w"
  by (force simp: name_word_def is_ascii_lowercase_def ascii_digit_def)

lemma set_join: "set (join_with c ss) \<subseteq> insert c (\<Union>s \<in> set ss. set s)"
  by (induction c ss rule: join_with.induct) auto

lemma segment_loop_words:
  "segment_loop p s \<longleftrightarrow>
     (\<forall>w \<in> set (split_on (CHR ''-'') s). \<forall>c \<in> set w. is_ascii_lowercase c \<or> ascii_digit c) \<and>
     (\<forall>w \<in> set (tl (split_on (CHR ''-'') s)). w \<noteq> []) \<and> (p \<longrightarrow> hd (split_on (CHR ''-'') s) \<noteq> [])"
proof (induction p s rule: segment_loop.induct)
  case (2 p b bs)
  obtain t ts where t: "split_on (CHR ''-'') bs = t # ts"
    using split_on_nonempty [of "CHR ''-''" bs] by (cases "split_on (CHR ''-'') bs") blast+
  have hy: "\<not> is_ascii_lowercase (CHR ''-'')" "\<not> ascii_digit (CHR ''-'')"
    by (simp_all add: is_ascii_lowercase_def ascii_digit_def)
  from 2 t hy show ?case by auto
qed auto

lemma valid_segment_iff: "valid_qualified_segment s \<longleftrightarrow> name_segment s"
proof
  assume v: "valid_qualified_segment s"
  then obtain b bs where s: "s = b # bs" "is_ascii_lowercase b" "segment_loop False bs"
    by (auto simp: valid_qualified_segment_def split: list.splits if_splits)
  then have "segment_loop True s" by simp
  then have "\<forall>w \<in> set (split_on (CHR ''-'') s). name_word w"
    using segment_loop_words [of True s] by (cases "split_on (CHR ''-'') s") (auto simp: name_word_def)
  with s(1,2) show "name_segment s"
    unfolding name_segment_def by (intro exI [of _ "split_on (CHR ''-'') s"]) (simp add: join_split del: split_on.simps)
next
  assume "name_segment s"
  then obtain ws where ws: "ws \<noteq> []" "\<forall>w \<in> set ws. name_word w" "s = join_with (CHR ''-'') ws" "is_ascii_lowercase (hd s)"
    by (auto simp: name_segment_def)
  then have sp: "split_on (CHR ''-'') s = ws" by (simp add: split_join name_word_clean)
  have "segment_loop True s"
    unfolding segment_loop_words sp using ws(1,2) by (cases ws) (auto simp: name_word_def)
  moreover have "s \<noteq> []" using ws sp by (cases s) (auto simp: name_word_def)
  ultimately show "valid_qualified_segment s"
    using ws(4) by (cases s) (simp_all add: valid_qualified_segment_def)
qed

lemma name_segment_chars:
  assumes "name_segment s"
  shows "set s \<subseteq> {c. is_ascii_lowercase c \<or> ascii_digit c \<or> c = CHR ''-''}"
proof -
  obtain ws where ws: "\<forall>w \<in> set ws. name_word w" "s = join_with (CHR ''-'') ws"
    using assms by (auto simp: name_segment_def)
  then show ?thesis using set_join [of "CHR ''-''" ws] by (fastforce simp: name_word_def)
qed

lemma name_segment_clean: "name_segment s \<Longrightarrow> CHR ''.'' \<notin> set s \<and> CHR ''/'' \<notin> set s"
  using name_segment_chars [of s] by (auto simp: is_ascii_lowercase_def ascii_digit_def)

lemma qualified_chars:
  assumes "qualified_name s"
  shows "set s \<subseteq> {c. is_ascii_lowercase c \<or> ascii_digit c \<or> c \<in> {CHR ''-'', CHR ''.''}}"
proof -
  obtain segs where "\<forall>seg \<in> set segs. name_segment seg" "s = join_with (CHR ''.'') segs"
    using assms by (auto simp: qualified_name_def)
  then show ?thesis using set_join [of "CHR ''.''" segs] name_segment_chars by fastforce
qed

lemma qualified_no_slash: "qualified_name s \<Longrightarrow> CHR ''/'' \<notin> set s"
  using qualified_chars [of s] by (auto simp: is_ascii_lowercase_def ascii_digit_def)

lemma validate_name_iff: "validate_qualified_name v kind = Inr () \<longleftrightarrow> qualified_name v"
proof
  assume "validate_qualified_name v kind = Inr ()"
  then show "qualified_name v"
    unfolding qualified_name_def
    by (intro exI [of _ "split_on (CHR ''.'') v"])
      (auto simp: validate_qualified_name_def valid_segment_iff list_all_iff join_split MAX_QUALIFIED_ID_BYTES_def
        MAX_ID_SEGMENT_BYTES_def split: if_splits)
next
  assume q: "qualified_name v"
  then obtain segs where segs: "2 \<le> length segs" "\<forall>seg \<in> set segs. name_segment seg \<and> length seg \<le> 63"
    "v = join_with (CHR ''.'') segs" "length v \<le> 128" by (auto simp: qualified_name_def)
  then have sp: "split_on (CHR ''.'') v = segs" using name_segment_clean by (subst segs(3), intro split_join) auto
  moreover have "v \<noteq> []" using sp segs(1) by auto
  moreover have "is_ascii v" using qualified_chars [OF q]
    by (auto simp: is_ascii_def list_all_iff is_ascii_lowercase_def ascii_digit_def)
  ultimately show "validate_qualified_name v kind = Inr ()"
    using segs by (simp add: validate_qualified_name_def valid_segment_iff list_all_iff MAX_QUALIFIED_ID_BYTES_def
        MAX_ID_SEGMENT_BYTES_def)
qed

section \<open>Properties\<close>

lemma show_nat_starts:
  assumes "0 < n"
  shows "take 1 (show_nat n) \<noteq> ''0''"
  using assms
proof (induction n rule: show_nat.induct)
  case (1 n)
  show ?case
  proof (cases "n < 10")
    case True
    have "char_of (48 + n) \<noteq> CHR ''0''"
    proof
      assume "char_of (48 + n) = CHR ''0''"
      then have "of_char (char_of (48 + n) :: char) = (of_char (CHR ''0'') :: nat)" by simp
      with True 1(2) show False by (simp add: of_char_of)
    qed
    with True show ?thesis by (simp add: show_nat.simps [of n])
  next
    case False
    then have "take 1 (show_nat (n div 10)) \<noteq> ''0''" using 1 by simp
    with False show_nat_digits [of "n div 10"] show ?thesis
      by (cases "show_nat (n div 10)") (auto simp: show_nat.simps [of n])
  qed
qed

lemma parse_show_u32: "parse_u32 (show_nat n) = (if n < U32_MODULUS then Some n else None)"
proof -
  obtain c cs where s: "show_nat n = c # cs" using show_nat_digits [of n] by (cases "show_nat n") auto
  then have "c \<noteq> CHR ''+''" using show_nat_digits [of n] by (auto simp: ascii_digit_def)
  with s show ?thesis using show_nat_digits [of n] show_nat_value [of n] by (simp add: parse_u32_def Let_def)
qed

lemma parse_u32_less: "parse_u32 s = Some n \<Longrightarrow> n < U32_MODULUS"
  by (simp add: parse_u32_def Let_def split: if_splits)

text \<open>The grammar of a versioned identity: a qualified name, the separator, and a positive 32-bit major in decimal.\<close>

definition versioned_name :: "versioned_identity \<Rightarrow> bool" where
  "versioned_name i \<longleftrightarrow>
     qualified_name (vi_name i) \<and> 0 < vi_major i \<and> vi_major i < 2 ^ 32 \<and>
     vi_canonical i = vi_name i @ ''/v'' @ show_nat (vi_major i) \<and> length (vi_canonical i) \<le> 160"

lemma versioned_identity_grammar:
  assumes "versioned_identity_new v kind = Inr i"
  shows "vi_canonical i = v" and "versioned_name i"
proof -
  obtain name major where s: "split_once ''/v'' v = Some (name, major)"
    and n: "validate_qualified_name name kind = Inr ()" "parse_u32 major = Some (vi_major i)" "0 < vi_major i"
      "show_nat (vi_major i) = major" "vi_canonical i = v" "vi_name i = name" "length v \<le> 160"
    using assms
    by (auto simp: versioned_identity_new_def and_then_Inr map_err_Inr MAX_SERVICE_ID_BYTES_def
        split: if_splits option.splits prod.splits)
  show "vi_canonical i = v" by (rule n(5))
  from n split_once_Some [OF s] parse_u32_less [OF n(2)] show "versioned_name i"
    by (simp add: versioned_name_def validate_name_iff U32_MODULUS_def)
qed

text \<open>
  C23. Identities follow their grammar: a package identity is accepted exactly when its text is a qualified
  name, and a versioned identity exactly when its text is a qualified name, the separator, and the decimal
  text of a positive 32-bit major, within 160 bytes. So a versioned identity is determined by its name and its
  major, and an identity is read back from its text.
\<close>

theorem identities_follow_grammar:
  "(plugin_package_id_new v = Inr p \<longleftrightarrow> p = PluginPackageId v \<and> qualified_name v) \<and>
   (versioned_identity_new v kind = Inr i \<longleftrightarrow>
      qualified_name (vi_name i) \<and> 0 < vi_major i \<and> vi_major i < 2 ^ 32 \<and>
      v = vi_name i @ ''/v'' @ show_nat (vi_major i) \<and> vi_canonical i = v \<and> length v \<le> 160)"
proof (intro conjI iffI)
  assume "plugin_package_id_new v = Inr p"
  then show "p = PluginPackageId v" "qualified_name v"
    using validate_name_iff [of v] by (auto simp: plugin_package_id_new_def and_then_Inr)
next
  assume "p = PluginPackageId v \<and> qualified_name v"
  then show "plugin_package_id_new v = Inr p"
    using validate_name_iff [of v] by (simp add: plugin_package_id_new_def and_then_def)
next
  assume i: "versioned_identity_new v kind = Inr i"
  from versioned_identity_grammar [OF i] show "qualified_name (vi_name i)" "0 < vi_major i" "vi_major i < 2 ^ 32"
    "v = vi_name i @ ''/v'' @ show_nat (vi_major i)" "vi_canonical i = v" "length v \<le> 160"
    unfolding versioned_name_def by blast+
next
  assume i: "qualified_name (vi_name i) \<and> 0 < vi_major i \<and> vi_major i < 2 ^ 32 \<and>
    v = vi_name i @ ''/v'' @ show_nat (vi_major i) \<and> vi_canonical i = v \<and> length v \<le> 160"
  then have "split_once ''/v'' v = Some (vi_name i, show_nat (vi_major i))"
    using split_once_prefix [of "''/v''" "vi_name i"] qualified_no_slash by simp
  with i show "versioned_identity_new v kind = Inr i"
    using validate_name_iff [of "vi_name i" kind] show_nat_starts show_nat_digits
    by (auto simp: versioned_identity_new_def MAX_SERVICE_ID_BYTES_def qualified_no_slash and_then_def map_err_def
        parse_show_u32 U32_MODULUS_def)
qed

text \<open>How a loader walks a path from a directory: an absolute path starts at the root, and a double dot goes up.\<close>

definition walk_segment :: "string \<Rightarrow> string list \<Rightarrow> string list" where
  "walk_segment seg dir =
     (if seg = [] \<or> seg = ''.'' then dir else if seg = ''..'' then butlast dir else dir @ [seg])"

definition walk_path :: "string \<Rightarrow> string list \<Rightarrow> string list" where
  "walk_path p dir = fold walk_segment (split_on (CHR ''/'') p) (if take 1 p = ''/'' then [] else dir)"

lemma walk_plain:
  "list_all (\<lambda>s. s \<noteq> [] \<and> s \<noteq> ''.'' \<and> s \<noteq> ''..'') segs \<Longrightarrow> fold walk_segment segs dir = dir @ segs"
  by (induction segs arbitrary: dir) (simp_all add: walk_segment_def)

text \<open>
  A path that stays inside its package: walked from any directory it ends strictly below it, at its own
  segments, one by one; it is not read as an option, and its bytes are letters, digits, dots, underscores,
  hyphens and slashes, 256 of them at most.
\<close>

definition path_inside :: "string \<Rightarrow> bool" where
  "path_inside v \<longleftrightarrow>
     (\<forall>dir. walk_path v dir = dir @ split_on (CHR ''/'') v) \<and> v \<noteq> [] \<and> length v \<le> 256 \<and> hd v \<noteq> CHR ''-'' \<and>
     (\<forall>c \<in> set v. is_ascii_alphanumeric c \<or> c \<in> {CHR ''/'', CHR ''.'', CHR ''_'', CHR ''-''})"

lemma package_path_inside:
  assumes "package_relative_path_new v = Inr p"
  shows "package_path_text p = v" and "path_inside v"
proof -
  have v: "v \<noteq> []" "length v \<le> 256" "take 1 v \<noteq> ''/''" "take 1 v \<noteq> ''-''" "\<forall>c \<in> set v. package_path_byte c"
    "list_all (\<lambda>s. s \<noteq> [] \<and> s \<noteq> ''.'' \<and> s \<noteq> ''..'') (split_on (CHR ''/'') v)"
    and p: "p = PackageRelativePath v"
    using assms by (auto simp: package_relative_path_new_def Let_def list_all_iff MAX_PACKAGE_PATH_BYTES_def split: if_splits)
  show "package_path_text p = v" using p by simp
  from v show "path_inside v"
    by (cases v) (auto simp: path_inside_def walk_path_def walk_plain package_path_byte_def simp del: split_on.simps)
qed

text \<open>An admitted path is the text it was made from, and stays inside its package.\<close>

theorem package_paths_stay_inside:
  assumes "package_relative_path_new v = Inr p"
  shows "package_path_text p = v \<and> path_inside (package_path_text p)"
  using package_path_inside [OF assms] by simp

theorem package_paths_stay_inside_witness:
  "walk_path ''bin/p.js'' [''packages'', ''demo''] = [''packages'', ''demo'', ''bin'', ''p.js''] \<and>
   path_inside ''bin/p.js''"
proof -
  have "package_relative_path_new ''bin/p.js'' = Inr (PackageRelativePath ''bin/p.js'')" by code_simp
  from package_paths_stay_inside [OF this] show ?thesis by (simp add: path_inside_def)
qed

end
