(* ===== verification/Plugin_Manifest.thy ===== *)
theory Plugin_Manifest
  imports Plugin_Identity
begin

text \<open>
  Plugin manifests and revisions (\<open>yah-plugin-host/src/manifest.rs\<close>, \<open>revision.rs\<close>). The \<open>toml\<close> crate with the
  derived decoders is a parameter: it maps text to a document of the manifest's fields, unknown fields
  refused, and a document to text. Theorems: whatever is parsed is a valid manifest, and a valid manifest is
  read back from its text.
\<close>

section \<open>UTF-8\<close>

text \<open>\<open>std::str::from_utf8\<close>: where the first ill-formed sequence starts and how long it is; no length if the input ends in it.\<close>

record utf8_error =
  valid_up_to :: usize
  error_len :: "usize option"

definition utf8_width :: "nat \<Rightarrow> nat" where
  "utf8_width b =
     (if b < 0x80 then 1 else if b < 0xC2 then 0 else if b < 0xE0 then 2 else if b < 0xF0 then 3
      else if b < 0xF5 then 4 else 0)"

definition utf8_continuation :: "nat \<Rightarrow> bool" where
  "utf8_continuation b \<longleftrightarrow> 0x80 \<le> b \<and> b \<le> 0xBF"

definition utf8_second :: "nat \<Rightarrow> nat \<Rightarrow> bool" where
  "utf8_second first b \<longleftrightarrow>
     (if first = 0xE0 then 0xA0 \<le> b \<and> b \<le> 0xBF
      else if first = 0xED then 0x80 \<le> b \<and> b \<le> 0x9F
      else if first = 0xF0 then 0x90 \<le> b \<and> b \<le> 0xBF
      else if first = 0xF4 then 0x80 \<le> b \<and> b \<le> 0x8F
      else utf8_continuation b)"

fun tail_fault :: "(nat \<Rightarrow> bool) \<Rightarrow> usize \<Rightarrow> nat \<Rightarrow> string \<Rightarrow> usize option option" where
  "tail_fault ok i 0 bs = None"
| "tail_fault ok i (Suc k) [] = Some None"
| "tail_fault ok i (Suc k) (b # bs) =
     (if ok (code b) then tail_fault utf8_continuation (i + 1) k bs else Some (Some i))"

function utf8_scan :: "usize \<Rightarrow> string \<Rightarrow> utf8_error option" where
  "utf8_scan n [] = None"
| "utf8_scan n (b # bs) =
     (let w = utf8_width (code b) in
      if w = 0 then Some \<lparr>valid_up_to = n, error_len = Some 1\<rparr>
      else case tail_fault (utf8_second (code b)) 1 (w - 1) bs of
             Some len \<Rightarrow> Some \<lparr>valid_up_to = n, error_len = len\<rparr>
           | None \<Rightarrow> utf8_scan (n + w) (drop (w - 1) bs))"
  by pat_completeness auto
termination by (relation "measure (\<lambda>(n, bs). length bs)") auto

definition from_utf8 :: "string \<Rightarrow> utf8_error + string" where
  "from_utf8 bs = (case utf8_scan 0 bs of Some e \<Rightarrow> Inl e | None \<Rightarrow> Inr bs)"

definition utf8_error_text :: "utf8_error \<Rightarrow> string" where
  "utf8_error_text e =
     (case error_len e of
        Some n \<Rightarrow> ''invalid utf-8 sequence of '' @ show_nat n @ '' bytes from index '' @ show_nat (valid_up_to e)
      | None \<Rightarrow> ''incomplete utf-8 byte sequence from index '' @ show_nat (valid_up_to e))"

section \<open>The manifest\<close>

definition MANIFEST_SCHEMA_VERSION :: u32 where "MANIFEST_SCHEMA_VERSION = 1"
definition MAX_MANIFEST_BYTES :: usize where "MAX_MANIFEST_BYTES = 64 * 1024"
definition MAX_SERVICE_DECLARATIONS :: usize where "MAX_SERVICE_DECLARATIONS = 256"
definition MAX_CAPABILITY_REQUESTS :: usize where "MAX_CAPABILITY_REQUESTS = 256"

datatype driver_kind = BuiltinRust | WasmComponent | NodeProcess | PythonProcess

datatype plugin_entrypoint =
    Entry_BuiltinRust
  | Entry_WasmComponent package_relative_path
  | Entry_NodeProcess package_relative_path
  | Entry_PythonProcess package_relative_path

fun entrypoint_driver :: "plugin_entrypoint \<Rightarrow> driver_kind" where
  "entrypoint_driver Entry_BuiltinRust = BuiltinRust"
| "entrypoint_driver (Entry_WasmComponent _) = WasmComponent"
| "entrypoint_driver (Entry_NodeProcess _) = NodeProcess"
| "entrypoint_driver (Entry_PythonProcess _) = PythonProcess"

fun entrypoint_path :: "plugin_entrypoint \<Rightarrow> package_relative_path option" where
  "entrypoint_path Entry_BuiltinRust = None"
| "entrypoint_path (Entry_WasmComponent p) = Some p"
| "entrypoint_path (Entry_NodeProcess p) = Some p"
| "entrypoint_path (Entry_PythonProcess p) = Some p"

datatype capability_request = CapabilityRequest (request_capability: capability_id)

record ('v, 'q) plugin_manifest =
  pm_package_id :: plugin_package_id
  pm_version :: "'v plugin_version"
  pm_sdk :: "'q sdk_version_requirement"
  pm_entrypoint :: plugin_entrypoint
  pm_required :: "service_contract_id list"
  pm_provided :: "service_contract_id list"
  pm_requested :: "capability_request list"

datatype declaration_kind = RequiredService | ProvidedService | CapabilityRequested

fun declaration_kind_text :: "declaration_kind \<Rightarrow> string" where
  "declaration_kind_text RequiredService = ''required service''"
| "declaration_kind_text ProvidedService = ''provided service''"
| "declaration_kind_text CapabilityRequested = ''capability request''"

datatype manifest_error =
    Manifest_TooLarge usize usize
  | Manifest_InvalidUtf8 utf8_error
  | Manifest_Decode string
  | Manifest_Encode string
  | UnsupportedSchemaVersion u32 u32
  | TooManyDeclarations declaration_kind usize usize
  | DuplicateDeclaration declaration_kind string

fun manifest_error_text :: "(string \<Rightarrow> string) \<Rightarrow> manifest_error \<Rightarrow> string" where
  "manifest_error_text debug (Manifest_TooLarge actual maximum) =
     ''plugin manifest is '' @ show_nat actual @ '' bytes; maximum is '' @ show_nat maximum"
| "manifest_error_text debug (Manifest_InvalidUtf8 e) = ''plugin manifest is not UTF-8: '' @ utf8_error_text e"
| "manifest_error_text debug (Manifest_Decode e) = ''invalid plugin manifest: '' @ e"
| "manifest_error_text debug (Manifest_Encode e) = ''plugin manifest cannot be serialized: '' @ e"
| "manifest_error_text debug (UnsupportedSchemaVersion found supported) =
     ''unsupported manifest schema version '' @ show_nat found @ ''; this host accepts '' @ show_nat supported"
| "manifest_error_text debug (TooManyDeclarations kind actual maximum) =
     ''manifest has '' @ show_nat actual @ '' '' @ declaration_kind_text kind @ '' declarations; maximum is '' @ show_nat maximum"
| "manifest_error_text debug (DuplicateDeclaration kind identity) =
     ''duplicate '' @ declaration_kind_text kind @ '' declaration '' @ debug identity"

definition validate_count :: "declaration_kind \<Rightarrow> usize \<Rightarrow> usize \<Rightarrow> manifest_error + unit" where
  "validate_count kind actual maximum =
     (if actual \<le> maximum then Inr () else Inl (TooManyDeclarations kind actual maximum))"

fun reject_seen :: "declaration_kind \<Rightarrow> string set \<Rightarrow> string list \<Rightarrow> manifest_error + unit" where
  "reject_seen kind seen [] = Inr ()"
| "reject_seen kind seen (x # xs) =
     (if x \<in> seen then Inl (DuplicateDeclaration kind x) else reject_seen kind (insert x seen) xs)"

definition reject_duplicate :: "declaration_kind \<Rightarrow> string list \<Rightarrow> manifest_error + unit" where
  "reject_duplicate kind xs = reject_seen kind {} xs"

section \<open>Text\<close>

text \<open>
  A document is what the derived decoder reads from the text and the serialiser writes: the fields by name,
  identities as their texts, absent lists empty.
\<close>

datatype toml_entrypoint = Toml_BuiltinRust | Toml_WasmComponent string | Toml_NodeProcess string | Toml_PythonProcess string

record toml_document =
  td_manifest_version :: u32
  td_id :: string
  td_version :: string
  td_sdk :: string
  td_entrypoint :: toml_entrypoint
  td_required :: "string list"
  td_provided :: "string list"
  td_requested :: "string list"

text \<open>
  \<open>toml_probe\<close> decodes a \<open>ManifestVersionProbe\<close>, \<open>toml_decode\<close> the document; \<open>toml_field_error\<close> is the text of the
  decoding error when an identity of the document is refused; \<open>toml_encode\<close> is \<open>to_string_pretty\<close>.
\<close>

record ('v, 'q) manifest_env =
  me_semver :: "('v, 'q) semver_api"
  toml_probe :: "string \<Rightarrow> string + u32"
  toml_decode :: "string \<Rightarrow> string + toml_document"
  toml_field_error :: "string \<Rightarrow> string"
  toml_encode :: "toml_document \<Rightarrow> string + string"

definition manifest_wire :: "('v, 'q) plugin_manifest \<Rightarrow> toml_document" where
  "manifest_wire m =
     \<lparr>td_manifest_version = MANIFEST_SCHEMA_VERSION, td_id = package_id_text (pm_package_id m),
      td_version = pv_canonical (pm_version m), td_sdk = sr_canonical (pm_sdk m),
      td_entrypoint = (case pm_entrypoint m of
          Entry_BuiltinRust \<Rightarrow> Toml_BuiltinRust
        | Entry_WasmComponent p \<Rightarrow> Toml_WasmComponent (package_path_text p)
        | Entry_NodeProcess p \<Rightarrow> Toml_NodeProcess (package_path_text p)
        | Entry_PythonProcess p \<Rightarrow> Toml_PythonProcess (package_path_text p)),
      td_required = map service_contract_text (pm_required m),
      td_provided = map service_contract_text (pm_provided m),
      td_requested = map (\<lambda>r. capability_text (request_capability r)) (pm_requested m)\<rparr>"

definition to_toml :: "('v, 'q) manifest_env \<Rightarrow> ('v, 'q) plugin_manifest \<Rightarrow> string + string" where
  "to_toml E m = toml_encode E (manifest_wire m)"

definition plugin_manifest_new ::
    "('v, 'q) manifest_env \<Rightarrow> ('v, 'q) plugin_manifest \<Rightarrow> manifest_error + ('v, 'q) plugin_manifest" where
  "plugin_manifest_new E m =
     and_then (validate_count RequiredService (length (pm_required m)) MAX_SERVICE_DECLARATIONS) (\<lambda>_.
     and_then (validate_count ProvidedService (length (pm_provided m)) MAX_SERVICE_DECLARATIONS) (\<lambda>_.
     and_then (validate_count CapabilityRequested (length (pm_requested m)) MAX_CAPABILITY_REQUESTS) (\<lambda>_.
     and_then (reject_duplicate RequiredService (map service_contract_text (pm_required m))) (\<lambda>_.
     and_then (reject_duplicate ProvidedService (map service_contract_text (pm_provided m))) (\<lambda>_.
     and_then (reject_duplicate CapabilityRequested
                 (map (\<lambda>r. capability_text (request_capability r)) (pm_requested m))) (\<lambda>_.
     and_then (map_err Manifest_Encode (to_toml E m)) (\<lambda>serialized.
       if length serialized > MAX_MANIFEST_BYTES
       then Inl (Manifest_TooLarge (length serialized) MAX_MANIFEST_BYTES)
       else Inr m)))))))"

text \<open>The derived decoder of \<open>RawManifest\<close> on a document: each identity is built by its own constructor.\<close>

fun decode_list :: "(string \<Rightarrow> 'e + 'a) \<Rightarrow> string list \<Rightarrow> 'e + 'a list" where
  "decode_list f [] = Inr []"
| "decode_list f (x # xs) = and_then (f x) (\<lambda>y. and_then (decode_list f xs) (\<lambda>ys. Inr (y # ys)))"

fun decode_entrypoint :: "toml_entrypoint \<Rightarrow> identity_error + plugin_entrypoint" where
  "decode_entrypoint Toml_BuiltinRust = Inr Entry_BuiltinRust"
| "decode_entrypoint (Toml_WasmComponent p) = and_then (package_relative_path_new p) (\<lambda>q. Inr (Entry_WasmComponent q))"
| "decode_entrypoint (Toml_NodeProcess p) = and_then (package_relative_path_new p) (\<lambda>q. Inr (Entry_NodeProcess q))"
| "decode_entrypoint (Toml_PythonProcess p) = and_then (package_relative_path_new p) (\<lambda>q. Inr (Entry_PythonProcess q))"

definition raw_manifest :: "('v, 'q) semver_api \<Rightarrow> toml_document \<Rightarrow> identity_error + ('v, 'q) plugin_manifest" where
  "raw_manifest sv d =
     and_then (plugin_package_id_new (td_id d)) (\<lambda>package_id.
     and_then (plugin_version_new sv (td_version d)) (\<lambda>version.
     and_then (sdk_requirement_new sv (td_sdk d)) (\<lambda>sdk.
     and_then (decode_entrypoint (td_entrypoint d)) (\<lambda>entrypoint.
     and_then (decode_list service_contract_id_new (td_required d)) (\<lambda>required.
     and_then (decode_list service_contract_id_new (td_provided d)) (\<lambda>provided.
     and_then (decode_list capability_id_new (td_requested d)) (\<lambda>requested.
       Inr \<lparr>pm_package_id = package_id, pm_version = version, pm_sdk = sdk, pm_entrypoint = entrypoint,
            pm_required = required, pm_provided = provided, pm_requested = map CapabilityRequest requested\<rparr>)))))))"

definition parse_bounded_toml ::
    "('v, 'q) manifest_env \<Rightarrow> string \<Rightarrow> manifest_error + ('v, 'q) plugin_manifest" where
  "parse_bounded_toml E source =
     and_then (map_err Manifest_Decode (toml_probe E source)) (\<lambda>found.
       if found \<noteq> MANIFEST_SCHEMA_VERSION then Inl (UnsupportedSchemaVersion found MANIFEST_SCHEMA_VERSION)
       else and_then (map_err Manifest_Decode (toml_decode E source)) (\<lambda>d.
            and_then (map_err (\<lambda>_. Manifest_Decode (toml_field_error E source)) (raw_manifest (me_semver E) d))
              (plugin_manifest_new E)))"

definition parse_toml_bytes ::
    "('v, 'q) manifest_env \<Rightarrow> string \<Rightarrow> manifest_error + ('v, 'q) plugin_manifest" where
  "parse_toml_bytes E input =
     (if length input > MAX_MANIFEST_BYTES then Inl (Manifest_TooLarge (length input) MAX_MANIFEST_BYTES)
      else and_then (map_err Manifest_InvalidUtf8 (from_utf8 input)) (parse_bounded_toml E))"

definition parse_toml :: "('v, 'q) manifest_env \<Rightarrow> string \<Rightarrow> manifest_error + ('v, 'q) plugin_manifest" where
  "parse_toml E source = parse_toml_bytes E source"

section \<open>Revisions\<close>

record 'v plugin_revision_id =
  ri_package_id :: plugin_package_id
  ri_version :: "'v plugin_version"
  ri_digest :: package_digest

definition plugin_revision_id_text :: "'v plugin_revision_id \<Rightarrow> string" where
  "plugin_revision_id_text r =
     package_id_text (ri_package_id r) @ ''@'' @ pv_canonical (ri_version r) @ ''#'' @ package_digest_text (ri_digest r)"

record ('v, 'q) plugin_revision =
  revision_identity :: "'v plugin_revision_id"
  revision_manifest :: "('v, 'q) plugin_manifest"

definition plugin_revision_new :: "('v, 'q) plugin_manifest \<Rightarrow> package_digest \<Rightarrow> ('v, 'q) plugin_revision" where
  "plugin_revision_new m digest =
     \<lparr>revision_identity = \<lparr>ri_package_id = pm_package_id m, ri_version = pm_version m, ri_digest = digest\<rparr>, revision_manifest = m\<rparr>"

section \<open>Valid manifests\<close>

text \<open>A manifest as its types promise: every identity was built by its constructor, and the counts, uniqueness and size hold.\<close>

definition services_valid :: "service_contract_id list \<Rightarrow> bool" where
  "services_valid ss \<longleftrightarrow>
     length ss \<le> 256 \<and> distinct ss \<and> (\<forall>s \<in> set ss. service_contract_id_new (service_contract_text s) = Inr s)"

definition manifest_valid :: "('v, 'q) manifest_env \<Rightarrow> ('v, 'q) plugin_manifest \<Rightarrow> bool" where
  "manifest_valid E m \<longleftrightarrow>
     plugin_package_id_new (package_id_text (pm_package_id m)) = Inr (pm_package_id m) \<and>
     plugin_version_new (me_semver E) (pv_canonical (pm_version m)) = Inr (pm_version m) \<and>
     sdk_requirement_new (me_semver E) (sr_canonical (pm_sdk m)) = Inr (pm_sdk m) \<and>
     (\<forall>p. entrypoint_path (pm_entrypoint m) = Some p \<longrightarrow> package_relative_path_new (package_path_text p) = Inr p) \<and>
     services_valid (pm_required m) \<and> services_valid (pm_provided m) \<and>
     length (pm_requested m) \<le> 256 \<and> distinct (pm_requested m) \<and>
     (\<forall>r \<in> set (pm_requested m). capability_id_new (capability_text (request_capability r)) = Inr (request_capability r)) \<and>
     (\<exists>s. to_toml E m = Inr s \<and> length s \<le> 65536)"

lemma identity_reads_back:
  "plugin_package_id_new v = Inr p \<Longrightarrow> package_id_text p = v"
  "service_contract_id_new v = Inr s \<Longrightarrow> service_contract_text s = v"
  "capability_id_new v = Inr c \<Longrightarrow> capability_text c = v"
  "plugin_version_new sv v = Inr x \<Longrightarrow> pv_canonical x = v"
  "sdk_requirement_new sv v = Inr r \<Longrightarrow> sr_canonical r = v"
  "package_relative_path_new v = Inr q \<Longrightarrow> package_path_text q = v"
  by (auto simp: plugin_package_id_new_def service_contract_id_new_def capability_id_new_def service_contract_text_def
      capability_text_def plugin_version_new_def exact_version_new_def sdk_requirement_new_def package_relative_path_new_def
      and_then_Inr Let_def dest: versioned_identity_grammar(1) split: if_splits option.splits)

lemma decode_list_Inr: "decode_list f xs = Inr ys \<longleftrightarrow> list_all2 (\<lambda>x y. f x = Inr y) xs ys"
proof (induction xs arbitrary: ys)
  case (Cons x xs)
  then show ?case by (cases ys) (auto simp: and_then_Inr)
qed (auto simp: list_all2_Nil)

lemma decode_list_reads_back:
  assumes "decode_list f xs = Inr ys" and "\<And>x y. f x = Inr y \<Longrightarrow> text_of y = x"
  shows "\<forall>y \<in> set ys. f (text_of y) = Inr y"
proof
  fix y
  assume "y \<in> set ys"
  then obtain x where "f x = Inr y" using assms(1) unfolding decode_list_Inr by (auto simp: list_all2_conv_all_nth in_set_conv_nth)
  with assms(2) [of x y] show "f (text_of y) = Inr y" by simp
qed

lemma decode_list_map: "\<forall>y \<in> set ys. f (text_of y) = Inr y \<Longrightarrow> decode_list f (map text_of ys) = Inr ys"
  by (induction ys) (simp_all add: and_then_def)

lemma decode_entrypoint_reads_back:
  "decode_entrypoint d = Inr e \<Longrightarrow> entrypoint_path e = Some p \<Longrightarrow> package_relative_path_new (package_path_text p) = Inr p"
  by (cases d) (auto simp: and_then_Inr identity_reads_back(6))

lemma reject_seen_Inr: "reject_seen kind seen xs = Inr () \<longleftrightarrow> distinct xs \<and> set xs \<inter> seen = {}"
  by (induction xs arbitrary: seen) auto

lemma reject_duplicate_Inr: "reject_duplicate kind xs = Inr () \<longleftrightarrow> distinct xs"
  by (simp add: reject_duplicate_def reject_seen_Inr)

lemma manifest_new_Inr:
  "plugin_manifest_new E m = Inr m' \<longleftrightarrow>
     m' = m \<and> length (pm_required m) \<le> 256 \<and> length (pm_provided m) \<le> 256 \<and> length (pm_requested m) \<le> 256 \<and>
     distinct (map service_contract_text (pm_required m)) \<and> distinct (map service_contract_text (pm_provided m)) \<and>
     distinct (map (\<lambda>r. capability_text (request_capability r)) (pm_requested m)) \<and>
     (\<exists>s. to_toml E m = Inr s \<and> length s \<le> 65536)"
proof -
  have large: "(if k < length s then Inl e else Inr m) = Inr m' \<longleftrightarrow> m' = m \<and> length s \<le> k"
    for k and s :: string and e :: manifest_error by auto
  show ?thesis
    unfolding plugin_manifest_new_def and_then_Inr map_err_Inr validate_count_def large
    by (auto simp: reject_duplicate_Inr MAX_MANIFEST_BYTES_def MAX_SERVICE_DECLARATIONS_def MAX_CAPABILITY_REQUESTS_def)
qed

lemma raw_manifest_Inr:
  assumes "raw_manifest sv d = Inr m"
  shows "plugin_package_id_new (td_id d) = Inr (pm_package_id m)"
    and "plugin_version_new sv (td_version d) = Inr (pm_version m)"
    and "sdk_requirement_new sv (td_sdk d) = Inr (pm_sdk m)"
    and "decode_entrypoint (td_entrypoint d) = Inr (pm_entrypoint m)"
    and "decode_list service_contract_id_new (td_required d) = Inr (pm_required m)"
    and "decode_list service_contract_id_new (td_provided d) = Inr (pm_provided m)"
    and "\<exists>cs. decode_list capability_id_new (td_requested d) = Inr cs \<and> pm_requested m = map CapabilityRequest cs"
  using assms by (auto simp: raw_manifest_def and_then_Inr)

lemma raw_manifest_wire:
  assumes "manifest_valid E m"
  shows "raw_manifest (me_semver E) (manifest_wire m) = Inr m"
proof -
  have e: "decode_entrypoint (td_entrypoint (manifest_wire m)) = Inr (pm_entrypoint m)"
    using assms by (cases "pm_entrypoint m") (simp_all add: manifest_wire_def manifest_valid_def and_then_def)
  have s: "decode_list service_contract_id_new (map service_contract_text (pm_required m)) = Inr (pm_required m)"
    "decode_list service_contract_id_new (map service_contract_text (pm_provided m)) = Inr (pm_provided m)"
    using assms by (auto simp: manifest_valid_def services_valid_def intro!: decode_list_map)
  have c: "decode_list capability_id_new (map (\<lambda>r. capability_text (request_capability r)) (pm_requested m)) =
      Inr (map request_capability (pm_requested m))"
    using decode_list_map [of "map request_capability (pm_requested m)" capability_id_new capability_text] assms
    by (simp add: manifest_valid_def comp_def)
  have "map (\<lambda>r. CapabilityRequest (request_capability r)) (pm_requested m) = pm_requested m" by (simp add: map_idI)
  with e s c assms show ?thesis
    by (simp add: raw_manifest_def manifest_valid_def manifest_wire_def and_then_def comp_def)
qed

lemma parsed_manifest_valid:
  assumes "parse_bounded_toml E source = Inr m"
  shows "manifest_valid E m"
proof -
  obtain d where d: "raw_manifest (me_semver E) d = Inr m" and n: "plugin_manifest_new E m = Inr m"
    using assms by (auto simp: parse_bounded_toml_def and_then_Inr map_err_Inr manifest_new_Inr split: if_splits)
  note r = raw_manifest_Inr [OF d]
  have "distinct xs" if "distinct (map f xs)" for f :: "'z \<Rightarrow> string" and xs using that by (simp add: distinct_map)
  then have dist: "distinct (pm_required m)" "distinct (pm_provided m)" "distinct (pm_requested m)"
    using n unfolding manifest_new_Inr by blast+
  have s: "\<forall>s \<in> set (pm_required m). service_contract_id_new (service_contract_text s) = Inr s"
    "\<forall>s \<in> set (pm_provided m). service_contract_id_new (service_contract_text s) = Inr s"
    using decode_list_reads_back [OF r(5)] decode_list_reads_back [OF r(6)] identity_reads_back(2) by blast+
  obtain cs where cs: "decode_list capability_id_new (td_requested d) = Inr cs" "pm_requested m = map CapabilityRequest cs"
    using r(7) by blast
  have c: "\<forall>r \<in> set (pm_requested m). capability_id_new (capability_text (request_capability r)) = Inr (request_capability r)"
    using decode_list_reads_back [OF cs(1)] identity_reads_back(3) cs(2) by auto
  show ?thesis
    using r(1-3) identity_reads_back(1) [OF r(1)] identity_reads_back(4) [OF r(2)] identity_reads_back(5) [OF r(3)]
      decode_entrypoint_reads_back [OF r(4)] dist s c n
    by (simp add: manifest_valid_def services_valid_def manifest_new_Inr)
qed

section \<open>Properties\<close>

text \<open>
  What is relied on of the \<open>toml\<close> crate: text that it wrote is well-formed UTF-8, and it reads it back as the
  document it was written from.
\<close>

definition toml_reads_back :: "('v, 'q) manifest_env \<Rightarrow> bool" where
  "toml_reads_back E \<longleftrightarrow>
     (\<forall>d s. toml_encode E d = Inr s \<longrightarrow>
        from_utf8 s = Inr s \<and> toml_probe E s = Inr (td_manifest_version d) \<and> toml_decode E s = Inr d)"

text \<open>A concrete crate, which knows one document, and semantic versions with two texts.\<close>

definition demo_document :: toml_document where
  "demo_document =
     \<lparr>td_manifest_version = 1, td_id = ''a.b'', td_version = ''1.0.0'', td_sdk = ''^1'',
      td_entrypoint = Toml_WasmComponent ''p.wasm'', td_required = [''a.b/v1''], td_provided = [],
      td_requested = [''h.t/v2'']\<rparr>"

definition demo_manifest_env :: "(nat, nat) manifest_env" where
  "demo_manifest_env =
     \<lparr>me_semver =
        \<lparr>version_parse = (\<lambda>s. if s = ''1.0.0'' then Some 1 else None), version_text = (\<lambda>_. ''1.0.0''),
         req_parse = (\<lambda>s. if s = ''^1'' then Some 1 else None), req_text = (\<lambda>_. ''^1''),
         req_wildcards = (\<lambda>_. [False]), req_matches = (\<lambda>q v. q = v)\<rparr>,
      toml_probe = (\<lambda>s. if s = ''doc'' then Inr 1 else Inl ''unreadable''),
      toml_decode = (\<lambda>s. if s = ''doc'' then Inr demo_document else Inl ''unreadable''),
      toml_field_error = (\<lambda>_. ''invalid value''),
      toml_encode = (\<lambda>d. if d = demo_document then Inr ''doc'' else Inl ''unsupported'')\<rparr>"

definition demo_manifest :: "(nat, nat) plugin_manifest" where
  "demo_manifest =
     \<lparr>pm_package_id = PluginPackageId ''a.b'', pm_version = \<lparr>pv_canonical = ''1.0.0'', pv_parsed = 1\<rparr>,
      pm_sdk = \<lparr>sr_canonical = ''^1'', sr_parsed = 1\<rparr>, pm_entrypoint = Entry_WasmComponent (PackageRelativePath ''p.wasm''),
      pm_required = [ServiceContractId \<lparr>vi_canonical = ''a.b/v1'', vi_name = ''a.b'', vi_major = 1\<rparr>], pm_provided = [],
      pm_requested = [CapabilityRequest (CapabilityId \<lparr>vi_canonical = ''h.t/v2'', vi_name = ''h.t'', vi_major = 2\<rparr>)]\<rparr>"

lemma demo_utf8: "from_utf8 ''doc'' = Inr ''doc''"
  by code_simp

lemma demo_names: "validate_qualified_name ''a.b'' kind = Inr ()" "validate_qualified_name ''h.t'' kind = Inr ()"
  by (simp_all add: validate_qualified_name_def MAX_QUALIFIED_ID_BYTES_def MAX_ID_SEGMENT_BYTES_def is_ascii_def
      valid_qualified_segment_def is_ascii_lowercase_def)

lemma demo_digits: "char_of (49 :: nat) = CHR ''1''" "char_of (50 :: nat) = CHR ''2''"
  by code_simp+

lemma demo_manifest_services:
  "versioned_identity_new ''a.b/v1'' kind = Inr \<lparr>vi_canonical = ''a.b/v1'', vi_name = ''a.b'', vi_major = 1\<rparr>"
  "versioned_identity_new ''h.t/v2'' kind = Inr \<lparr>vi_canonical = ''h.t/v2'', vi_name = ''h.t'', vi_major = 2\<rparr>"
  by (simp_all add: versioned_identity_new_def MAX_SERVICE_ID_BYTES_def strip_prefix_of_def demo_names parse_u32_def
      ascii_digit_def U32_MODULUS_def show_nat.simps demo_digits and_then_def map_err_def)

lemma demo_path: "package_relative_path_new ''p.wasm'' = Inr (PackageRelativePath ''p.wasm'')"
  by code_simp

lemma demo_raw: "raw_manifest (me_semver demo_manifest_env) demo_document = Inr demo_manifest"
  by (simp add: raw_manifest_def demo_document_def demo_manifest_def demo_manifest_env_def plugin_package_id_new_def demo_names
      plugin_version_new_def exact_version_new_def MAX_VERSION_BYTES_def sdk_requirement_new_def demo_path
      service_contract_id_new_def capability_id_new_def demo_manifest_services and_then_def)

lemma demo_encodes: "to_toml demo_manifest_env demo_manifest = Inr ''doc''"
  by (simp add: to_toml_def demo_manifest_env_def manifest_wire_def demo_manifest_def demo_document_def
      service_contract_text_def capability_text_def MANIFEST_SCHEMA_VERSION_def)

lemma demo_parses: "parse_toml_bytes demo_manifest_env ''doc'' = Inr demo_manifest"
proof -
  have "plugin_manifest_new demo_manifest_env demo_manifest = Inr demo_manifest"
    unfolding manifest_new_Inr by (simp add: demo_encodes) (simp add: demo_manifest_def)
  moreover have "toml_probe demo_manifest_env ''doc'' = Inr 1" "toml_decode demo_manifest_env ''doc'' = Inr demo_document"
    by (simp_all add: demo_manifest_env_def)
  ultimately show ?thesis
    by (simp add: parse_toml_bytes_def MAX_MANIFEST_BYTES_def demo_utf8 parse_bounded_toml_def MANIFEST_SCHEMA_VERSION_def
        demo_raw and_then_def map_err_def)
qed

lemma demo_toml: "toml_reads_back demo_manifest_env"
  by (simp add: toml_reads_back_def demo_manifest_env_def demo_document_def demo_utf8)

text \<open>What a valid declaration list is: at most 256 identities of the grammar, no text twice.\<close>

definition declarations_ok :: "versioned_identity list \<Rightarrow> bool" where
  "declarations_ok is \<longleftrightarrow>
     length is \<le> 256 \<and> distinct (map vi_canonical is) \<and> (\<forall>i \<in> set is. versioned_name i)"

lemma service_grammar:
  "service_contract_id_new v = Inr s \<Longrightarrow> versioned_name (service_contract_identity s)"
  "capability_id_new v = Inr c \<Longrightarrow> versioned_name (capability_identity c)"
  by (auto simp: service_contract_id_new_def capability_id_new_def and_then_Inr dest: versioned_identity_grammar(2))

lemma parsed_declarations:
  assumes "parse_bounded_toml E source = Inr m"
  shows "declarations_ok (map service_contract_identity (pm_required m))"
    and "declarations_ok (map service_contract_identity (pm_provided m))"
    and "declarations_ok (map (\<lambda>r. capability_identity (request_capability r)) (pm_requested m))"
proof -
  note v = parsed_manifest_valid [OF assms]
  have n: "plugin_manifest_new E m = Inr m"
    using assms by (auto simp: parse_bounded_toml_def and_then_Inr map_err_Inr manifest_new_Inr split: if_splits)
  have texts: "map (vi_canonical \<circ> service_contract_identity) ss = map service_contract_text ss"
    "map (vi_canonical \<circ> (\<lambda>r. capability_identity (request_capability r))) rs =
       map (\<lambda>r. capability_text (request_capability r)) rs" for ss rs
    by (simp_all add: service_contract_text_def capability_text_def)
  show "declarations_ok (map service_contract_identity (pm_required m))"
    "declarations_ok (map service_contract_identity (pm_provided m))"
    "declarations_ok (map (\<lambda>r. capability_identity (request_capability r)) (pm_requested m))"
    using v n unfolding declarations_ok_def manifest_valid_def services_valid_def manifest_new_Inr map_map texts
    by (auto dest: service_grammar)
qed

text \<open>What a valid version and a valid requirement on the SDK are.\<close>

definition versions_ok :: "('v, 'q) semver_api \<Rightarrow> ('v, 'q) plugin_manifest \<Rightarrow> bool" where
  "versions_ok sv m \<longleftrightarrow>
     (let v = pm_version m; r = pm_sdk m
      in version_parse sv (pv_canonical v) = Some (pv_parsed v) \<and> version_text sv (pv_parsed v) = pv_canonical v \<and>
         length (pv_canonical v) \<in> {1..128} \<and>
         req_parse sv (sr_canonical r) = Some (sr_parsed r) \<and> req_text sv (sr_parsed r) = sr_canonical r \<and>
         length (sr_canonical r) \<in> {1..128} \<and> req_wildcards sv (sr_parsed r) \<noteq> [] \<and>
         True \<notin> set (req_wildcards sv (sr_parsed r)))"

lemma exact_version_grammar:
  assumes "exact_version_new kind sv t = Inr v"
  shows "version_parse sv t = Some (pv_parsed v)" and "version_text sv (pv_parsed v) = t" and "length t \<in> {1..128}"
  using assms by (auto simp: exact_version_new_def MAX_VERSION_BYTES_def Suc_le_eq split: if_splits option.splits)

lemma sdk_requirement_grammar:
  assumes "sdk_requirement_new sv t = Inr r"
  shows "req_parse sv t = Some (sr_parsed r)" and "req_text sv (sr_parsed r) = t" and "length t \<in> {1..128}"
    and "req_wildcards sv (sr_parsed r) \<noteq> []" and "True \<notin> set (req_wildcards sv (sr_parsed r))"
  using assms
  by (auto simp: sdk_requirement_new_def MAX_VERSION_BYTES_def Suc_le_eq list_ex_iff split: if_splits option.splits)

lemma valid_versions:
  assumes "manifest_valid E m"
  shows "versions_ok (me_semver E) m"
proof -
  have v: "exact_version_new ''plugin version'' (me_semver E) (pv_canonical (pm_version m)) = Inr (pm_version m)"
    and r: "sdk_requirement_new (me_semver E) (sr_canonical (pm_sdk m)) = Inr (pm_sdk m)"
    using assms by (simp_all add: manifest_valid_def plugin_version_new_def)
  show ?thesis
    unfolding versions_ok_def Let_def using exact_version_grammar [OF v] sdk_requirement_grammar [OF r] by blast
qed

text \<open>The manifest says what its text says.\<close>

definition same_texts :: "toml_document \<Rightarrow> ('v, 'q) plugin_manifest \<Rightarrow> bool" where
  "same_texts d m \<longleftrightarrow>
     package_id_text (pm_package_id m) = td_id d \<and> pv_canonical (pm_version m) = td_version d \<and>
     sr_canonical (pm_sdk m) = td_sdk d \<and>
     map (\<lambda>s. vi_canonical (service_contract_identity s)) (pm_required m) = td_required d \<and>
     map (\<lambda>s. vi_canonical (service_contract_identity s)) (pm_provided m) = td_provided d \<and>
     map (\<lambda>r. vi_canonical (capability_identity (request_capability r))) (pm_requested m) = td_requested d \<and>
     (case td_entrypoint d of
        Toml_BuiltinRust \<Rightarrow> pm_entrypoint m = Entry_BuiltinRust
      | Toml_WasmComponent p \<Rightarrow> pm_entrypoint m = Entry_WasmComponent (PackageRelativePath p)
      | Toml_NodeProcess p \<Rightarrow> pm_entrypoint m = Entry_NodeProcess (PackageRelativePath p)
      | Toml_PythonProcess p \<Rightarrow> pm_entrypoint m = Entry_PythonProcess (PackageRelativePath p))"

lemma decode_list_texts:
  "decode_list f xs = Inr ys \<Longrightarrow> (\<And>x y. f x = Inr y \<Longrightarrow> text_of y = x) \<Longrightarrow> map text_of ys = xs"
  by (auto simp: decode_list_Inr list_all2_conv_all_nth intro!: nth_equalityI)

lemma raw_manifest_texts:
  assumes "raw_manifest sv d = Inr m"
  shows "same_texts d m"
proof -
  note r = raw_manifest_Inr [OF assms]
  obtain cs where cs: "decode_list capability_id_new (td_requested d) = Inr cs" "pm_requested m = map CapabilityRequest cs"
    using r(7) by blast
  have path: "package_relative_path_new p = Inr q \<Longrightarrow> q = PackageRelativePath p" for p q
    using identity_reads_back(6) [of p q] by (cases q) simp
  have "case td_entrypoint d of
        Toml_BuiltinRust \<Rightarrow> pm_entrypoint m = Entry_BuiltinRust
      | Toml_WasmComponent p \<Rightarrow> pm_entrypoint m = Entry_WasmComponent (PackageRelativePath p)
      | Toml_NodeProcess p \<Rightarrow> pm_entrypoint m = Entry_NodeProcess (PackageRelativePath p)
      | Toml_PythonProcess p \<Rightarrow> pm_entrypoint m = Entry_PythonProcess (PackageRelativePath p)"
    using r(4) by (cases "td_entrypoint d") (auto simp: and_then_Inr dest: path)
  with identity_reads_back(1) [OF r(1)] identity_reads_back(4) [OF r(2)] identity_reads_back(5) [OF r(3)]
    decode_list_texts [OF r(5) identity_reads_back(2)] decode_list_texts [OF r(6) identity_reads_back(2)]
    decode_list_texts [OF cs(1) identity_reads_back(3)] cs(2)
  show ?thesis by (simp add: same_texts_def service_contract_text_def capability_text_def comp_def)
qed

text \<open>
  C24. Whatever is parsed is a valid manifest that says what its text says: the package identity is a qualified
  name; required services, provided services and requested capabilities are at most 256 each, none of them
  twice, and each is a qualified name with a positive 32-bit major; the version and the SDK requirement are in
  canonical form, the requirement without wildcards; the entrypoint's path, walked from any directory, stays
  inside it and cannot be read as an option; the source is at most 64 KiB of well-formed UTF-8 of schema
  version 1. Every field is the one its text names.
\<close>

theorem parsed_manifests_are_valid:
  assumes "parse_toml_bytes E input = Inr m"
  shows "qualified_name (package_id_text (pm_package_id m)) \<and>
    declarations_ok (map service_contract_identity (pm_required m)) \<and>
    declarations_ok (map service_contract_identity (pm_provided m)) \<and>
    declarations_ok (map (\<lambda>r. capability_identity (request_capability r)) (pm_requested m)) \<and>
    versions_ok (me_semver E) m \<and>
    (\<forall>p. entrypoint_path (pm_entrypoint m) = Some p \<longrightarrow> path_inside (package_path_text p)) \<and>
    length input \<le> 65536 \<and> utf8_scan 0 input = None \<and> toml_probe E input = Inr 1 \<and>
    (\<exists>d. toml_decode E input = Inr d \<and> same_texts d m)"
proof -
  have p: "parse_bounded_toml E input = Inr m" "length input \<le> 65536" "utf8_scan 0 input = None"
    using assms by (auto simp: parse_toml_bytes_def and_then_Inr map_err_Inr from_utf8_def MAX_MANIFEST_BYTES_def
        split: if_splits option.splits)
  from p(1) obtain d where d: "toml_probe E input = Inr 1" "toml_decode E input = Inr d"
    "raw_manifest (me_semver E) d = Inr m"
    by (auto simp: parse_bounded_toml_def and_then_Inr map_err_Inr manifest_new_Inr MANIFEST_SCHEMA_VERSION_def
        split: if_splits)
  note v = parsed_manifest_valid [OF p(1)]
  have "path_inside (package_path_text q)" if "entrypoint_path (pm_entrypoint m) = Some q" for q
    using v that package_path_inside(2) [of "package_path_text q" q] by (auto simp: manifest_valid_def)
  moreover have "qualified_name (package_id_text (pm_package_id m))"
    using v by (auto simp: manifest_valid_def plugin_package_id_new_def and_then_Inr validate_name_iff)
  ultimately show ?thesis
    using p d parsed_declarations [OF p(1)] valid_versions [OF v] raw_manifest_texts [OF d(3)] by blast
qed

theorem parsed_manifests_are_valid_witness:
  "declarations_ok (map service_contract_identity (pm_required demo_manifest)) \<and> path_inside ''p.wasm''"
  using parsed_manifests_are_valid [OF demo_parses] by (simp add: demo_manifest_def)

text \<open>
  C25. A manifest survives its text: what was parsed from any source can be serialised, and parsing the serialised
  text gives the manifest again.
\<close>

theorem manifests_survive_their_text:
  assumes "toml_reads_back E" and "parse_toml_bytes E input = Inr m"
  shows "\<exists>s. to_toml E m = Inr s \<and> parse_toml E s = Inr m"
proof -
  have "parse_bounded_toml E input = Inr m"
    using assms(2) by (auto simp: parse_toml_bytes_def and_then_Inr map_err_Inr from_utf8_def split: if_splits option.splits)
  note v = parsed_manifest_valid [OF this] and this
  then have n: "plugin_manifest_new E m = Inr m"
    by (auto simp: parse_bounded_toml_def and_then_Inr map_err_Inr manifest_new_Inr split: if_splits)
  from v obtain s where s: "to_toml E m = Inr s" "length s \<le> 65536" by (auto simp: manifest_valid_def)
  have "from_utf8 s = Inr s" "toml_probe E s = Inr MANIFEST_SCHEMA_VERSION" "toml_decode E s = Inr (manifest_wire m)"
    using assms(1) s(1) by (auto simp: toml_reads_back_def to_toml_def manifest_wire_def)
  with s n raw_manifest_wire [OF v] have "parse_toml E s = Inr m"
    by (simp add: parse_toml_def parse_toml_bytes_def parse_bounded_toml_def and_then_def map_err_def MAX_MANIFEST_BYTES_def)
  with s(1) show ?thesis by blast
qed

theorem manifests_survive_their_text_witness:
  "\<exists>s. to_toml demo_manifest_env demo_manifest = Inr s \<and> parse_toml demo_manifest_env s = Inr demo_manifest"
  by (rule manifests_survive_their_text [OF demo_toml demo_parses])

end
