(* ===== verification/Compose_Scope.thy ===== *)
theory Compose_Scope
  imports Yah_Prelude
begin

text \<open>
  Composition scopes (\<open>yah-compose/src/scope.rs\<close>, \<open>id.rs\<close>): immutable lineages that decide which
  services a consumer may see. A \<open>ScopeNode\<close> lives behind an \<open>Arc\<close>; its address is its identity,
  so a node carries the address it was allocated at, \<open>Arc::ptr_eq\<close> compares addresses, and the
  constructors take the next free address of the heap and return the one after.
\<close>

section \<open>Identities\<close>

text \<open>The \<open>string_id!\<close> newtypes: each identity is a type of its own around a string.\<close>

datatype component_id = ComponentId string
datatype component_revision_id = ComponentRevisionId string
datatype component_instance_id = ComponentInstanceId string
datatype scope_id = ScopeId string
datatype service_id = ServiceId string

section \<open>Scopes\<close>

type_synonym address = nat

datatype scope_node =
  ScopeNode (node_address: address) (node_parent: "scope_node option") (node_realm: address)

record scope =
  scope_id_of :: scope_id
  scope_parent_id :: "scope_id option"
  scope_node_of :: scope_node

datatype scope_error = SelfParent scope_id

definition ptr_eq :: "address \<Rightarrow> address \<Rightarrow> bool" where
  "ptr_eq a b \<longleftrightarrow> a = b"

definition scope_eq :: "scope \<Rightarrow> scope \<Rightarrow> bool" where
  "scope_eq a b \<longleftrightarrow>
     scope_id_of a = scope_id_of b \<and> scope_parent_id a = scope_parent_id b \<and>
     ptr_eq (node_address (scope_node_of a)) (node_address (scope_node_of b))"

definition scope_root :: "scope_id \<Rightarrow> address \<Rightarrow> scope \<times> address" where
  "scope_root sid heap =
     (\<lparr>scope_id_of = sid, scope_parent_id = None,
       scope_node_of = ScopeNode (heap + 1) None heap\<rparr>, heap + 2)"

definition scope_child :: "scope_id \<Rightarrow> scope \<Rightarrow> address \<Rightarrow> (scope_error + scope) \<times> address" where
  "scope_child sid parent heap =
     (if sid = scope_id_of parent then (Inl (SelfParent sid), heap)
      else (Inr \<lparr>scope_id_of = sid, scope_parent_id = Some (scope_id_of parent),
                 scope_node_of = ScopeNode heap (Some (scope_node_of parent))
                                   (node_realm (scope_node_of parent))\<rparr>, heap + 1))"

definition is_root :: "scope \<Rightarrow> bool" where
  "is_root s \<longleftrightarrow> scope_parent_id s = None"

text \<open>The \<open>while let\<close> walk from the consumer's node towards its root.\<close>

fun walk_finds :: "address \<Rightarrow> scope_node \<Rightarrow> bool" where
  "walk_finds target (ScopeNode a parent realm) =
     (if ptr_eq a target then True
      else case parent of None \<Rightarrow> False | Some p \<Rightarrow> walk_finds target p)"

definition is_visible_from :: "scope \<Rightarrow> scope \<Rightarrow> bool" where
  "is_visible_from self consumer =
     (if \<not> ptr_eq (node_realm (scope_node_of self)) (node_realm (scope_node_of consumer)) then False
      else walk_finds (node_address (scope_node_of self)) (scope_node_of consumer))"

section \<open>Lineages\<close>

fun lineage :: "scope_node \<Rightarrow> scope_node list" where
  "lineage (ScopeNode a parent realm) =
     ScopeNode a parent realm # (case parent of None \<Rightarrow> [] | Some p \<Rightarrow> lineage p)"

lemma lineage_self [simp]: "n \<in> set (lineage n)"
  by (cases n) simp

lemma lineage_child [simp]: "lineage (ScopeNode a (Some p) r) = ScopeNode a (Some p) r # lineage p"
  by simp

lemma lineage_trans: "m \<in> set (lineage n) \<Longrightarrow> set (lineage m) \<subseteq> set (lineage n)"
proof (induction n)
  case (ScopeNode a parent r)
  then show ?case by (cases parent) (auto split: option.splits)
qed

definition root_of :: "scope_node \<Rightarrow> scope_node" where
  "root_of n = last (lineage n)"

lemma lineage_nonempty [simp]: "lineage n \<noteq> []"
  by (cases n) simp

lemma root_of_lineage: "m \<in> set (lineage n) \<Longrightarrow> root_of m = root_of n"
proof (induction n)
  case (ScopeNode a parent r)
  then show ?case by (cases parent) (auto simp: root_of_def)
qed

lemma walk_finds_lineage: "walk_finds a n \<longleftrightarrow> (\<exists>m \<in> set (lineage n). node_address m = a)"
proof (induction n)
  case (ScopeNode b parent r)
  then show ?case by (cases parent) (auto simp: ptr_eq_def)
qed

section \<open>Every way to build scopes\<close>

datatype scope_op = Op_root scope_id | Op_child scope_id nat

record scope_world =
  scopes :: "scope list"
  next_address :: address

definition empty_world :: scope_world where
  "empty_world = \<lparr>scopes = [], next_address = 0\<rparr>"

fun scope_step :: "scope_op \<Rightarrow> scope_world \<Rightarrow> scope_world" where
  "scope_step (Op_root sid) w =
     (let (s, heap) = scope_root sid (next_address w)
      in \<lparr>scopes = scopes w @ [s], next_address = heap\<rparr>)"
| "scope_step (Op_child sid i) w =
     (if i < length (scopes w)
      then case scope_child sid (scopes w ! i) (next_address w) of
             (Inl e, heap) \<Rightarrow> w\<lparr>next_address := heap\<rparr>
           | (Inr s, heap) \<Rightarrow> \<lparr>scopes = scopes w @ [s], next_address = heap\<rparr>
      else w)"

definition world_nodes :: "scope_world \<Rightarrow> scope_node set" where
  "world_nodes w = scope_node_of ` set (scopes w)"

text \<open>
  Nodes are where they say: distinct nodes have distinct addresses below the heap's top, the nodes
  are closed under parents, a lineage stays in one realm, and each root has a realm of its own.
\<close>

definition world_ok :: "scope_world \<Rightarrow> bool" where
  "world_ok w \<longleftrightarrow>
     inj_on node_address (world_nodes w) \<and>
     (\<forall>n \<in> world_nodes w. node_address n < next_address w \<and> node_realm n < next_address w) \<and>
     (\<forall>n \<in> world_nodes w. \<forall>m \<in> set (lineage n). m \<in> world_nodes w \<and> node_realm m = node_realm n) \<and>
     (\<forall>m \<in> world_nodes w. \<forall>n \<in> world_nodes w. node_realm m = node_realm n \<longrightarrow> root_of m = root_of n)"

lemma empty_world_ok: "world_ok empty_world"
  by (simp add: world_ok_def world_nodes_def empty_world_def)

lemma world_okD:
  assumes "world_ok w" and "n \<in> world_nodes w"
  shows "node_address n < next_address w" and "node_realm n < next_address w"
    and "m \<in> set (lineage n) \<Longrightarrow> m \<in> world_nodes w" and "m \<in> set (lineage n) \<Longrightarrow> node_realm m = node_realm n"
    and "m \<in> world_nodes w \<Longrightarrow> node_realm m = node_realm n \<Longrightarrow> root_of m = root_of n"
    and "m \<in> world_nodes w \<Longrightarrow> node_address m = node_address n \<Longrightarrow> m = n"
  using assms unfolding world_ok_def inj_on_def by blast+

lemma world_ok_insert:
  assumes "world_ok w" and "scope_node_of s = n" and "next_address w \<le> node_address n"
    and "node_address n < heap" and "node_realm n < heap" and "next_address w \<le> heap"
    and "\<And>m. m \<in> set (lineage n) \<Longrightarrow> m = n \<or> m \<in> world_nodes w"
    and "\<And>m. m \<in> set (lineage n) \<Longrightarrow> node_realm m = node_realm n"
    and "\<And>m. m \<in> world_nodes w \<Longrightarrow> node_realm m = node_realm n \<Longrightarrow> root_of m = root_of n"
  shows "world_ok \<lparr>scopes = scopes w @ [s], next_address = heap\<rparr>"
proof -
  have nodes: "world_nodes \<lparr>scopes = scopes w @ [s], next_address = heap\<rparr> = insert n (world_nodes w)"
    using assms(2) by (auto simp: world_nodes_def)
  have fresh: "node_address m < node_address n" if "m \<in> world_nodes w" for m
    using world_okD(1) [OF assms(1) that] assms(3) by simp
  then have "node_address n \<notin> node_address ` (world_nodes w - {n})"
    by (metis DiffD1 imageE less_irrefl)
  then have "inj_on node_address (insert n (world_nodes w))"
    using assms(1) unfolding world_ok_def inj_on_insert by blast
  moreover have "\<forall>m \<in> insert n (world_nodes w). node_address m < heap \<and> node_realm m < heap"
    using world_okD(1,2) [OF assms(1)] assms(4,5,6) by (auto intro: less_le_trans)
  moreover have "\<forall>k \<in> insert n (world_nodes w). \<forall>m \<in> set (lineage k).
      m \<in> insert n (world_nodes w) \<and> node_realm m = node_realm k"
    using world_okD(3,4) [OF assms(1)] assms(7,8) by blast
  moreover have "\<forall>m \<in> insert n (world_nodes w). \<forall>k \<in> insert n (world_nodes w).
      node_realm m = node_realm k \<longrightarrow> root_of m = root_of k"
  proof (intro ballI impI)
    fix m k
    assume "m \<in> insert n (world_nodes w)" "k \<in> insert n (world_nodes w)" "node_realm m = node_realm k"
    then consider "m = k" | "m = n" "k \<in> world_nodes w" | "k = n" "m \<in> world_nodes w"
      | "m \<in> world_nodes w" "k \<in> world_nodes w" by blast
    then show "root_of m = root_of k"
    proof cases
      case 2
      with \<open>node_realm m = node_realm k\<close> assms(9) [of k] show ?thesis by metis
    next
      case 3
      with \<open>node_realm m = node_realm k\<close> assms(9) [of m] show ?thesis by metis
    next
      case 4
      with \<open>node_realm m = node_realm k\<close> world_okD(5) [OF assms(1)] show ?thesis by blast
    qed simp
  qed
  ultimately show ?thesis unfolding world_ok_def nodes scope_world.select_convs by blast
qed

lemma scope_step_ok:
  assumes "world_ok w"
  shows "world_ok (scope_step op w)"
proof (cases op)
  case (Op_root sid)
  let ?n = "ScopeNode (next_address w + 1) None (next_address w)"
  have "world_ok \<lparr>scopes = scopes w @ [fst (scope_root sid (next_address w))],
      next_address = next_address w + 2\<rparr>"
    using assms
  proof (rule world_ok_insert [where n = ?n])
    show "root_of m = root_of ?n" if "m \<in> world_nodes w" "node_realm m = node_realm ?n" for m
      using world_okD(2) [OF assms that(1)] that(2) by simp
  qed (simp_all add: scope_root_def)
  with Op_root show ?thesis by (simp add: scope_root_def)
next
  case (Op_child sid i)
  show ?thesis
  proof (cases "i < length (scopes w) \<and> sid \<noteq> scope_id_of (scopes w ! i)")
    case True
    let ?p = "scope_node_of (scopes w ! i)"
    let ?n = "ScopeNode (next_address w) (Some ?p) (node_realm ?p)"
    have p: "?p \<in> world_nodes w" using True by (auto simp: world_nodes_def)
    have "world_ok \<lparr>scopes = scopes w @ [\<lparr>scope_id_of = sid,
        scope_parent_id = Some (scope_id_of (scopes w ! i)), scope_node_of = ?n\<rparr>],
        next_address = next_address w + 1\<rparr>"
      using assms
    proof (rule world_ok_insert [where n = ?n])
      show "root_of m = root_of ?n" if "m \<in> world_nodes w" "node_realm m = node_realm ?n" for m
        using world_okD(5) [OF assms p that(1)] that(2) by (simp add: root_of_def)
      show "m = ?n \<or> m \<in> world_nodes w" if "m \<in> set (lineage ?n)" for m
        using that by (auto dest: world_okD(3) [OF assms p])
      show "node_realm m = node_realm ?n" if "m \<in> set (lineage ?n)" for m
        using that by (auto dest: world_okD(4) [OF assms p])
    qed (simp_all add: world_okD(2) [OF assms p] less_SucI)
    with Op_child True show ?thesis by (simp add: scope_child_def)
  next
    case False
    with Op_child assms show ?thesis by (auto simp: scope_child_def)
  qed
qed

interpretation sw: invariant_machine scope_step world_ok
  by unfold_locales (rule scope_step_ok)

lemma visible_in_world:
  assumes "world_ok w" and "scope_node_of p \<in> world_nodes w" and "scope_node_of c \<in> world_nodes w"
  shows "is_visible_from p c \<longleftrightarrow> scope_node_of p \<in> set (lineage (scope_node_of c))"
proof -
  note ok = world_okD [OF assms(1)]
  have "m = scope_node_of p" if "m \<in> set (lineage (scope_node_of c))"
    "node_address m = node_address (scope_node_of p)" for m
    using ok(3) [OF assms(3) that(1)] ok(6) [OF assms(2)] that(2) by blast
  moreover have "scope_node_of p \<in> set (lineage (scope_node_of c)) \<Longrightarrow>
      node_realm (scope_node_of p) = node_realm (scope_node_of c)"
    by (rule ok(4) [OF assms(3)])
  ultimately show ?thesis
    by (auto simp: is_visible_from_def walk_finds_lineage ptr_eq_def)
qed

lemma run_world_ok: "world_ok (fold scope_step ops empty_world)"
  by (rule sw.run_invariant [OF empty_world_ok])

section \<open>Properties\<close>

text \<open>
  Visibility is ancestry: among the scopes of a process, a provider's scope is visible from a
  consumer's exactly when the provider's node is the consumer's node or one of its ancestors. The
  realm comparison that precedes the walk never hides an ancestor, and labels grant nothing.
\<close>

theorem visible_iff_ancestor:
  assumes "w = fold scope_step ops empty_world" and "p \<in> set (scopes w)" and "c \<in> set (scopes w)"
  shows "is_visible_from p c \<longleftrightarrow> scope_node_of p \<in> set (lineage (scope_node_of c))"
  using visible_in_world [OF run_world_ok, of p ops c] assms by (simp add: world_nodes_def)

definition demo_scopes :: "scope_op list" where
  "demo_scopes = [Op_root (ScopeId ''root''), Op_child (ScopeId ''a'') 0, Op_child (ScopeId ''b'') 1,
                  Op_root (ScopeId ''root''), Op_child (ScopeId ''a'') 3]"

lemma demo_scopes_length: "length (scopes (fold scope_step demo_scopes empty_world)) = 5"
  by (simp add: demo_scopes_def empty_world_def scope_root_def scope_child_def)

theorem visible_iff_ancestor_witness:
  "is_visible_from (scopes (fold scope_step demo_scopes empty_world) ! 0)
     (scopes (fold scope_step demo_scopes empty_world) ! 2)"
proof -
  let ?w = "fold scope_step demo_scopes empty_world"
  have "scopes ?w ! 0 \<in> set (scopes ?w)" "scopes ?w ! 2 \<in> set (scopes ?w)"
    using demo_scopes_length by (simp_all add: nth_mem del: fold_simps)
  from visible_iff_ancestor [OF refl this] show ?thesis
    by (simp add: demo_scopes_def empty_world_def scope_root_def scope_child_def)
qed

text \<open>
  Roots are isolated: a scope is never visible from a scope of another root, whatever the two
  are called; visibility is transitive, and every scope sees its own root.
\<close>

theorem roots_are_isolated:
  assumes "w = fold scope_step ops empty_world" and "p \<in> set (scopes w)" and "c \<in> set (scopes w)"
    and "d \<in> set (scopes w)"
  shows "(is_visible_from p c \<longrightarrow> root_of (scope_node_of p) = root_of (scope_node_of c)) \<and>
    (is_visible_from p c \<and> is_visible_from c d \<longrightarrow> is_visible_from p d) \<and> is_visible_from p p"
proof -
  have vis: "is_visible_from x y \<longleftrightarrow> scope_node_of x \<in> set (lineage (scope_node_of y))"
    if "x \<in> set (scopes w)" "y \<in> set (scopes w)" for x y
    using visible_in_world [OF run_world_ok, of x ops y] assms(1) that by (simp add: world_nodes_def)
  have "is_visible_from p c \<Longrightarrow> root_of (scope_node_of p) = root_of (scope_node_of c)"
    using vis assms(2,3) root_of_lineage by blast
  moreover have "is_visible_from p c \<Longrightarrow> is_visible_from c d \<Longrightarrow> is_visible_from p d"
    using vis assms(2-4) lineage_trans by blast
  moreover have "is_visible_from p p" using vis assms(2) by simp
  ultimately show ?thesis by blast
qed

theorem roots_are_isolated_witness:
  "\<not> is_visible_from (scopes (fold scope_step demo_scopes empty_world) ! 0)
       (scopes (fold scope_step demo_scopes empty_world) ! 4)"
proof -
  let ?w = "fold scope_step demo_scopes empty_world"
  have "scopes ?w ! 0 \<in> set (scopes ?w)" "scopes ?w ! 4 \<in> set (scopes ?w)"
    using demo_scopes_length by (simp_all add: nth_mem del: fold_simps)
  moreover have "root_of (scope_node_of (scopes ?w ! 0)) \<noteq> root_of (scope_node_of (scopes ?w ! 4))"
    by (simp add: demo_scopes_def empty_world_def scope_root_def scope_child_def root_of_def)
  ultimately show ?thesis using roots_are_isolated [OF refl, of "scopes ?w ! 0" demo_scopes "scopes ?w ! 4"
      "scopes ?w ! 4"] by blast
qed

end
