(* ===== verification/Compose_Lifecycle.thy ===== *)
theory Compose_Lifecycle
  imports Compose_Scope
begin

text \<open>
  The epoch-fenced lifecycle of a component instance (\<open>yah-compose/src/lifecycle.rs\<close> and
  \<open>component.rs\<close>). An operation returns its \<open>Result\<close> together with the instance it leaves. The
  process-wide counter \<open>NEXT_INSTANCE_INCARNATION\<close> is an argument of \<open>new_instance\<close>.
\<close>

section \<open>Vocabulary\<close>

datatype activation_epoch = ActivationEpoch (epoch_incarnation: u64) (epoch_sequence: u64)

instantiation activation_epoch :: linorder
begin
definition less_eq_activation_epoch :: "activation_epoch \<Rightarrow> activation_epoch \<Rightarrow> bool" where
  "less_eq_activation_epoch a b \<longleftrightarrow>
     epoch_incarnation a < epoch_incarnation b \<or>
     epoch_incarnation a = epoch_incarnation b \<and> epoch_sequence a \<le> epoch_sequence b"
definition less_activation_epoch :: "activation_epoch \<Rightarrow> activation_epoch \<Rightarrow> bool" where
  "less_activation_epoch a b \<longleftrightarrow>
     epoch_incarnation a < epoch_incarnation b \<or>
     epoch_incarnation a = epoch_incarnation b \<and> epoch_sequence a < epoch_sequence b"
instance
  by standard
    (auto simp: less_eq_activation_epoch_def less_activation_epoch_def activation_epoch.expand)
end

datatype stop_target = Target_Pending | Target_Removed

datatype failure_phase = Phase_Starting | Phase_Active

record component_failure =
  failure_phase_of :: failure_phase
  failure_summary :: string

datatype component_state =
    Pending
  | Starting activation_epoch
  | State_Active activation_epoch
  | Failed activation_epoch component_failure
  | Stopping activation_epoch stop_target "component_failure option"
  | Removed

datatype component_state_kind =
  K_Pending | K_Starting | K_Active | K_Failed | K_Stopping | K_Removed

datatype lifecycle_action =
  BeginStart | CompleteStart | MarkFailed | BeginStop | CompleteStop | RemovePending

datatype lifecycle_error =
    InvalidTransition component_state_kind lifecycle_action
  | StaleActivation activation_epoch activation_epoch
  | InstanceIncarnationExhausted
  | ActivationEpochExhausted

fun state_kind :: "component_state \<Rightarrow> component_state_kind" where
  "state_kind Pending = K_Pending"
| "state_kind (Starting _) = K_Starting"
| "state_kind (State_Active _) = K_Active"
| "state_kind (Failed _ _) = K_Failed"
| "state_kind (Stopping _ _ _) = K_Stopping"
| "state_kind Removed = K_Removed"

fun state_activation :: "component_state \<Rightarrow> activation_epoch option" where
  "state_activation Pending = None"
| "state_activation Removed = None"
| "state_activation (Starting a) = Some a"
| "state_activation (State_Active a) = Some a"
| "state_activation (Failed a _) = Some a"
| "state_activation (Stopping a _ _) = Some a"

definition invalid :: "component_state \<Rightarrow> lifecycle_action \<Rightarrow> lifecycle_error" where
  "invalid s action = InvalidTransition (state_kind s) action"

fun require_action :: "component_state \<Rightarrow> lifecycle_action \<Rightarrow> lifecycle_error + unit" where
  "require_action Pending BeginStart = Inr ()"
| "require_action s action = Inl (invalid s action)"

definition require_activation ::
  "component_state \<Rightarrow> lifecycle_action \<Rightarrow> activation_epoch \<Rightarrow> lifecycle_error + unit" where
  "require_activation s action received =
     (case state_activation s of
        None \<Rightarrow> Inl (invalid s action)
      | Some expected \<Rightarrow>
          if expected \<noteq> received then Inl (StaleActivation expected received) else Inr ())"

fun kind_text :: "component_state_kind \<Rightarrow> string" where
  "kind_text K_Pending = ''pending''"
| "kind_text K_Starting = ''starting''"
| "kind_text K_Active = ''active''"
| "kind_text K_Failed = ''failed''"
| "kind_text K_Stopping = ''stopping''"
| "kind_text K_Removed = ''removed''"

fun action_text :: "lifecycle_action \<Rightarrow> string" where
  "action_text BeginStart = ''begin_start''"
| "action_text CompleteStart = ''complete_start''"
| "action_text MarkFailed = ''mark_failed''"
| "action_text BeginStop = ''begin_stop''"
| "action_text CompleteStop = ''complete_stop''"
| "action_text RemovePending = ''remove_pending''"

definition epoch_text :: "activation_epoch \<Rightarrow> string" where
  "epoch_text a = show_nat (epoch_incarnation a) @ '':'' @ show_nat (epoch_sequence a)"

fun lifecycle_error_text :: "lifecycle_error \<Rightarrow> string" where
  "lifecycle_error_text (InvalidTransition from_kind action) =
     ''cannot '' @ action_text action @ '' while component is '' @ kind_text from_kind"
| "lifecycle_error_text (StaleActivation expected received) =
     ''stale activation epoch '' @ epoch_text received @ ''; current epoch is '' @ epoch_text expected"
| "lifecycle_error_text InstanceIncarnationExhausted = ''component instance incarnation space exhausted''"
| "lifecycle_error_text ActivationEpochExhausted = ''activation epoch exhausted''"

section \<open>Definitions and instances\<close>

text \<open>\<open>ContractType\<close>: Rust's \<open>TypeId\<close> (an opaque number) and the type's name.\<close>

record contract_type =
  contract_type_id :: nat
  contract_type_name :: string

record required_service =
  required_service_id :: service_id
  required_contract :: contract_type

record component_definition =
  definition_component_id :: component_id
  requirements :: "required_service list"

datatype component_definition_error = DuplicateRequirement component_id service_id

definition new_definition :: "component_id \<Rightarrow> component_definition" where
  "new_definition cid = \<lparr>definition_component_id = cid, requirements = []\<rparr>"

definition require_service :: "required_service \<Rightarrow> component_definition \<Rightarrow>
    (component_definition_error + unit) \<times> component_definition" where
  "require_service r d =
     (if list_ex (\<lambda>declared. required_service_id declared = required_service_id r) (requirements d)
      then (Inl (DuplicateRequirement (definition_component_id d) (required_service_id r)), d)
      else (Inr (), d\<lparr>requirements := requirements d @ [r]\<rparr>))"

record component_instance =
  instance_id :: component_instance_id
  definition_id :: component_id
  instance_scope_id :: scope_id
  instance_scope :: scope
  inst_state :: component_state
  incarnation :: u64
  last_activation :: u64
  last_failure :: "component_failure option"

definition u64_checked_succ :: "u64 \<Rightarrow> u64 option" where
  "u64_checked_succ n = (if n + 1 < U64_MODULUS then Some (n + 1) else None)"

definition new_instance :: "component_instance_id \<Rightarrow> component_definition \<Rightarrow> scope \<Rightarrow> u64 \<Rightarrow>
    (lifecycle_error + component_instance) \<times> u64" where
  "new_instance iid d s counter =
     (case u64_checked_succ counter of
        None \<Rightarrow> (Inl InstanceIncarnationExhausted, counter)
      | Some counter' \<Rightarrow>
          (Inr \<lparr>instance_id = iid, definition_id = definition_component_id d,
                instance_scope_id = scope_id_of s, instance_scope = s, inst_state = Pending,
                incarnation = counter, last_activation = 0, last_failure = None\<rparr>, counter'))"

section \<open>Transitions\<close>

type_synonym 'a lifecycle_result = "(lifecycle_error + 'a) \<times> component_instance"

definition begin_start :: "component_instance \<Rightarrow> activation_epoch lifecycle_result" where
  "begin_start i =
     (case require_action (inst_state i) BeginStart of
        Inl e \<Rightarrow> (Inl e, i)
      | Inr _ \<Rightarrow>
          (case u64_checked_succ (last_activation i) of
             None \<Rightarrow> (Inl ActivationEpochExhausted, i)
           | Some n \<Rightarrow>
               (let activation = ActivationEpoch (incarnation i) n
                in (Inr activation, i\<lparr>last_activation := n, inst_state := Starting activation\<rparr>))))"

definition complete_start :: "activation_epoch \<Rightarrow> component_instance \<Rightarrow> unit lifecycle_result" where
  "complete_start activation i =
     (case require_activation (inst_state i) CompleteStart activation of
        Inl e \<Rightarrow> (Inl e, i)
      | Inr _ \<Rightarrow>
          (case inst_state i of
             Starting _ \<Rightarrow> (Inr (), i\<lparr>inst_state := State_Active activation\<rparr>)
           | s \<Rightarrow> (Inl (invalid s CompleteStart), i)))"

definition record_failure ::
  "activation_epoch \<Rightarrow> failure_phase \<Rightarrow> string \<Rightarrow> component_instance \<Rightarrow> component_instance" where
  "record_failure activation ph summary i =
     (let failure = \<lparr>failure_phase_of = ph, failure_summary = summary\<rparr>
      in i\<lparr>last_failure := Some failure, inst_state := Failed activation failure\<rparr>)"

definition mark_failed :: "activation_epoch \<Rightarrow> string \<Rightarrow> component_instance \<Rightarrow> unit lifecycle_result"
  where
  "mark_failed activation summary i =
     (case require_activation (inst_state i) MarkFailed activation of
        Inl e \<Rightarrow> (Inl e, i)
      | Inr _ \<Rightarrow>
          (case inst_state i of
             Starting _ \<Rightarrow> (Inr (), record_failure activation Phase_Starting summary i)
           | State_Active _ \<Rightarrow> (Inr (), record_failure activation Phase_Active summary i)
           | s \<Rightarrow> (Inl (invalid s MarkFailed), i)))"

definition begin_stop :: "activation_epoch \<Rightarrow> stop_target \<Rightarrow> component_instance \<Rightarrow> unit lifecycle_result"
  where
  "begin_stop activation target i =
     (case require_activation (inst_state i) BeginStop activation of
        Inl e \<Rightarrow> (Inl e, i)
      | Inr _ \<Rightarrow>
          (case inst_state i of
             Failed _ failure \<Rightarrow>
               (Inr (), i\<lparr>inst_state := Stopping activation target (Some failure)\<rparr>)
           | Starting _ \<Rightarrow> (Inr (), i\<lparr>inst_state := Stopping activation target None\<rparr>)
           | State_Active _ \<Rightarrow> (Inr (), i\<lparr>inst_state := Stopping activation target None\<rparr>)
           | s \<Rightarrow> (Inl (invalid s BeginStop), i)))"

definition complete_stop :: "activation_epoch \<Rightarrow> component_instance \<Rightarrow> unit lifecycle_result" where
  "complete_stop activation i =
     (case require_activation (inst_state i) CompleteStop activation of
        Inl e \<Rightarrow> (Inl e, i)
      | Inr _ \<Rightarrow>
          (case inst_state i of
             Stopping _ target _ \<Rightarrow>
               (Inr (), i\<lparr>inst_state :=
                  (case target of Target_Pending \<Rightarrow> Pending | Target_Removed \<Rightarrow> Removed)\<rparr>)
           | s \<Rightarrow> (Inl (invalid s CompleteStop), i)))"

definition remove_pending :: "component_instance \<Rightarrow> unit lifecycle_result" where
  "remove_pending i =
     (case inst_state i of
        Pending \<Rightarrow> (Inr (), i\<lparr>inst_state := Removed\<rparr>)
      | s \<Rightarrow> (Inl (invalid s RemovePending), i))"

section \<open>Every way to drive an instance\<close>

datatype lifecycle_op =
    Op_begin_start
  | Op_complete_start activation_epoch
  | Op_mark_failed activation_epoch string
  | Op_begin_stop activation_epoch stop_target
  | Op_complete_stop activation_epoch
  | Op_remove_pending

fun op_action :: "lifecycle_op \<Rightarrow> lifecycle_action" where
  "op_action Op_begin_start = BeginStart"
| "op_action (Op_complete_start _) = CompleteStart"
| "op_action (Op_mark_failed _ _) = MarkFailed"
| "op_action (Op_begin_stop _ _) = BeginStop"
| "op_action (Op_complete_stop _) = CompleteStop"
| "op_action Op_remove_pending = RemovePending"

fun op_epoch :: "lifecycle_op \<Rightarrow> activation_epoch option" where
  "op_epoch Op_begin_start = None"
| "op_epoch (Op_complete_start a) = Some a"
| "op_epoch (Op_mark_failed a _) = Some a"
| "op_epoch (Op_begin_stop a _) = Some a"
| "op_epoch (Op_complete_stop a) = Some a"
| "op_epoch Op_remove_pending = None"

definition drop_value :: "'a lifecycle_result \<Rightarrow> unit lifecycle_result" where
  "drop_value r = (map_sum id (\<lambda>_. ()) (fst r), snd r)"

fun lifecycle_step :: "lifecycle_op \<Rightarrow> component_instance \<Rightarrow> unit lifecycle_result" where
  "lifecycle_step Op_begin_start i = drop_value (begin_start i)"
| "lifecycle_step (Op_complete_start a) i = complete_start a i"
| "lifecycle_step (Op_mark_failed a summary) i = mark_failed a summary i"
| "lifecycle_step (Op_begin_stop a target) i = begin_stop a target i"
| "lifecycle_step (Op_complete_stop a) i = complete_stop a i"
| "lifecycle_step Op_remove_pending i = remove_pending i"

lemmas transition_defs =
  begin_start_def complete_start_def mark_failed_def begin_stop_def complete_stop_def
  remove_pending_def require_activation_def drop_value_def record_failure_def Let_def

section \<open>The transition diagram\<close>

text \<open>The documented lifecycle, state name to state name.\<close>

inductive permitted :: "component_state_kind \<Rightarrow> lifecycle_action \<Rightarrow> component_state_kind \<Rightarrow> bool" where
  p_start: "permitted K_Pending BeginStart K_Starting"
| p_started: "permitted K_Starting CompleteStart K_Active"
| p_fail_starting: "permitted K_Starting MarkFailed K_Failed"
| p_fail_active: "permitted K_Active MarkFailed K_Failed"
| p_stop_starting: "permitted K_Starting BeginStop K_Stopping"
| p_stop_active: "permitted K_Active BeginStop K_Stopping"
| p_stop_failed: "permitted K_Failed BeginStop K_Stopping"
| p_stopped: "permitted K_Stopping CompleteStop K_Pending"
| p_gone: "permitted K_Stopping CompleteStop K_Removed"
| p_remove: "permitted K_Pending RemovePending K_Removed"

inductive_simps permitted_from [simp]:
  "permitted K_Pending a k" "permitted K_Starting a k" "permitted K_Active a k"
  "permitted K_Failed a k" "permitted K_Stopping a k" "permitted K_Removed a k"

text \<open>What every reachable instance satisfies: its epoch is the last one it issued.\<close>

definition instance_ok :: "component_instance \<Rightarrow> bool" where
  "instance_ok i \<longleftrightarrow>
     last_activation i < U64_MODULUS \<and>
     (\<forall>a. state_activation (inst_state i) = Some a \<longrightarrow>
        a = ActivationEpoch (incarnation i) (last_activation i)) \<and>
     (case inst_state i of
        Failed _ f \<Rightarrow> last_failure i = Some f
      | Stopping _ _ (Some f) \<Rightarrow> last_failure i = Some f
      | _ \<Rightarrow> True)"

lemma step_cases:
  "lifecycle_step op i = (r, j) \<Longrightarrow>
     (\<exists>e. r = Inl e \<and> j = i) \<or>
     (r = Inr () \<and> permitted (state_kind (inst_state i)) (op_action op) (state_kind (inst_state j)) \<and>
      (op_epoch op \<noteq> None \<longrightarrow> op_epoch op = state_activation (inst_state i)))"
  by (cases op; cases "inst_state i")
    (auto simp: transition_defs split: option.splits if_splits stop_target.splits)

lemma instance_step_ok:
  assumes "instance_ok i"
  shows "instance_ok (snd (lifecycle_step op i))"
  using assms
  by (cases op; cases "inst_state i")
    (auto simp: transition_defs instance_ok_def u64_checked_succ_def
      split: option.splits if_splits stop_target.splits)

interpretation li: invariant_machine "\<lambda>op i. snd (lifecycle_step op i)" instance_ok
  by unfold_locales (rule instance_step_ok)

section \<open>A process full of instances\<close>

text \<open>
  The instances of a process share the incarnation counter. \<open>issued\<close> records every epoch that
  \<open>begin_start\<close> has ever returned.
\<close>

record fleet =
  members :: "component_instance list"
  next_incarnation :: u64
  issued :: "activation_epoch list"

datatype fleet_op =
    New_instance component_instance_id component_definition scope
  | On_instance nat lifecycle_op

definition empty_fleet :: fleet where
  "empty_fleet = \<lparr>members = [], next_incarnation = 1, issued = []\<rparr>"

fun epochs_returned :: "lifecycle_op \<Rightarrow> component_instance \<Rightarrow> activation_epoch list" where
  "epochs_returned Op_begin_start i = (case fst (begin_start i) of Inl _ \<Rightarrow> [] | Inr a \<Rightarrow> [a])"
| "epochs_returned _ i = []"

fun fleet_step :: "fleet_op \<Rightarrow> fleet \<Rightarrow> fleet" where
  "fleet_step (New_instance iid d s) f =
     (case new_instance iid d s (next_incarnation f) of
        (Inl e, c) \<Rightarrow> f\<lparr>next_incarnation := c\<rparr>
      | (Inr i, c) \<Rightarrow> f\<lparr>members := members f @ [i], next_incarnation := c\<rparr>)"
| "fleet_step (On_instance n op) f =
     (if n < length (members f)
      then f\<lparr>members := (members f)[n := snd (lifecycle_step op (members f ! n))],
             issued := issued f @ epochs_returned op (members f ! n)\<rparr>
      else f)"

text \<open>An epoch is known to the member of its incarnation, which has issued it.\<close>

definition fleet_ok :: "fleet \<Rightarrow> bool" where
  "fleet_ok f \<longleftrightarrow>
     distinct (map incarnation (members f)) \<and>
     (\<forall>i \<in> set (members f). instance_ok i \<and> incarnation i < next_incarnation f) \<and>
     distinct (issued f) \<and>
     (\<forall>a \<in> set (issued f). \<exists>i \<in> set (members f).
        incarnation i = epoch_incarnation a \<and> epoch_sequence a \<le> last_activation i)"

lemma fleet_okD:
  assumes "fleet_ok f"
  shows "i \<in> set (members f) \<Longrightarrow> instance_ok i"
    and "i \<in> set (members f) \<Longrightarrow> incarnation i < next_incarnation f"
    and "distinct (issued f)" and "distinct (map incarnation (members f))"
    and "a \<in> set (issued f) \<Longrightarrow> \<exists>i \<in> set (members f).
      incarnation i = epoch_incarnation a \<and> epoch_sequence a \<le> last_activation i"
  using assms by (simp_all add: fleet_ok_def)

lemma step_keeps_incarnation: "incarnation (snd (lifecycle_step op i)) = incarnation i"
  by (cases op; cases "inst_state i")
    (auto simp: transition_defs split: option.splits if_splits stop_target.splits)

lemma step_last_activation: "last_activation i \<le> last_activation (snd (lifecycle_step op i))"
  by (cases op; cases "inst_state i")
    (auto simp: transition_defs u64_checked_succ_def split: option.splits if_splits stop_target.splits)

lemma epochs_returned_fresh:
  assumes "a \<in> set (epochs_returned op i)"
  shows "epochs_returned op i = [a]" and "epoch_incarnation a = incarnation i"
    and "last_activation i < epoch_sequence a"
    and "epoch_sequence a = last_activation (snd (lifecycle_step op i))"
  using assms
  by (cases op; cases "inst_state i"; auto simp: transition_defs u64_checked_succ_def
      split: option.splits if_splits)+

lemma fleet_new_ok:
  assumes "fleet_ok f" and "new_instance iid d s (next_incarnation f) = (Inr i, c)"
  shows "fleet_ok (f\<lparr>members := members f @ [i], next_incarnation := c\<rparr>)"
proof -
  have i: "incarnation i = next_incarnation f" "c = next_incarnation f + 1" "instance_ok i"
    using assms(2) by (auto simp: new_instance_def instance_ok_def u64_checked_succ_def
        split: option.splits if_splits)
  have "incarnation i \<notin> incarnation ` set (members f)"
    using fleet_okD(2) [OF assms(1)] i(1) by (metis imageE less_irrefl)
  then show ?thesis
    using assms(1) i unfolding fleet_ok_def by (auto intro: less_SucI)
qed

lemma same_incarnation:
  assumes "fleet_ok f" and "i \<in> set (members f)" and "j \<in> set (members f)"
    and "incarnation i = incarnation j"
  shows "i = j"
  using fleet_okD(4) [OF assms(1)] assms(2-4) unfolding distinct_map inj_on_def by blast

lemma fleet_on_ok:
  assumes "fleet_ok f" and "n < length (members f)"
  shows "fleet_ok (f\<lparr>members := (members f)[n := snd (lifecycle_step op (members f ! n))],
                     issued := issued f @ epochs_returned op (members f ! n)\<rparr>)"
proof -
  let ?i = "members f ! n" and ?new = "epochs_returned op (members f ! n)"
  let ?j = "snd (lifecycle_step op ?i)"
  let ?ms = "(members f)[n := ?j]"
  have mem: "?i \<in> set (members f)" using assms(2) by simp
  have ok_i: "instance_ok ?i" "incarnation ?i < next_incarnation f"
    by (rule fleet_okD(1,2) [OF assms(1) mem])+
  have j: "?j \<in> set ?ms" using assms(2) by (simp add: set_update_memI)
  have inc: "map incarnation ?ms = map incarnation (members f)"
    using assms(2) by (simp add: map_update step_keeps_incarnation list_update_same_conv)
  have "\<forall>k \<in> set ?ms. instance_ok k \<and> incarnation k < next_incarnation f"
  proof
    fix k
    assume "k \<in> set ?ms"
    then have "k = ?j \<or> k \<in> set (members f)" using set_update_subset_insert by fastforce
    then show "instance_ok k \<and> incarnation k < next_incarnation f"
      using fleet_okD(1,2) [OF assms(1)] ok_i(2) instance_step_ok [OF ok_i(1)]
        step_keeps_incarnation [of op ?i] by auto
  qed
  moreover have old: "\<exists>k \<in> set ?ms. incarnation k = epoch_incarnation a \<and> epoch_sequence a \<le> last_activation k"
    if a: "a \<in> set (issued f)" for a
  proof -
    obtain k where k: "k \<in> set (members f)" "incarnation k = epoch_incarnation a"
        "epoch_sequence a \<le> last_activation k"
      using fleet_okD(5) [OF assms(1) a] by blast
    show ?thesis
    proof (cases "k = ?i")
      case True
      with k j step_last_activation [of ?i op] step_keeps_incarnation [of op ?i] show ?thesis
        by (metis le_trans)
    next
      case False
      with k(1) have "k \<in> set ?ms" using assms(2)
        by (metis in_set_conv_nth length_list_update nth_list_update_neq)
      with k show ?thesis by blast
    qed
  qed
  moreover have "\<exists>k \<in> set ?ms. incarnation k = epoch_incarnation a \<and> epoch_sequence a \<le> last_activation k"
    if "a \<in> set ?new" for a
    using epochs_returned_fresh [OF that] j step_keeps_incarnation [of op ?i] by (metis order_refl)
  moreover have "distinct (issued f @ ?new)"
  proof -
    have "a \<notin> set (issued f)" if a: "a \<in> set ?new" for a
    proof
      assume "a \<in> set (issued f)"
      then obtain k where "k \<in> set (members f)" "incarnation k = epoch_incarnation a"
          "epoch_sequence a \<le> last_activation k"
        using fleet_okD(5) [OF assms(1)] by blast
      with same_incarnation [OF assms(1) _ mem] epochs_returned_fresh(2,3) [OF a] show False
        by (metis leD)
    qed
    moreover have "distinct ?new" by (cases op) (auto split: sum.splits)
    ultimately show ?thesis using fleet_okD(3) [OF assms(1)] by auto
  qed
  ultimately show ?thesis
    using fleet_okD(4) [OF assms(1)] inc unfolding fleet_ok_def by simp blast
qed

lemma fleet_step_ok:
  assumes "fleet_ok f"
  shows "fleet_ok (fleet_step op f)"
proof (cases op)
  case (New_instance iid d s)
  obtain r c where r: "new_instance iid d s (next_incarnation f) = (r, c)" by fastforce
  show ?thesis
  proof (cases r)
    case (Inl e)
    with r have "c = next_incarnation f" by (auto simp: new_instance_def split: option.splits)
    with New_instance r Inl assms show ?thesis by (simp add: fleet_ok_def)
  next
    case (Inr i)
    with New_instance r fleet_new_ok [OF assms] show ?thesis by simp
  qed
next
  case (On_instance n op')
  with assms fleet_on_ok [OF assms] show ?thesis by simp
qed

interpretation fl: invariant_machine fleet_step fleet_ok
  by unfold_locales (rule fleet_step_ok)

lemma run_fleet_ok: "fleet_ok (fold fleet_step ops empty_fleet)"
  by (rule fl.run_invariant) (simp add: fleet_ok_def empty_fleet_def)

section \<open>Properties\<close>

text \<open>
  The lifecycle is exactly the documented diagram: an operation succeeds only along an edge of
  the diagram from the instance's state, presenting the instance's own epoch where it takes one;
  and where the diagram has an edge and the epoch is the current one, the operation succeeds,
  unless a start would exhaust the 64-bit sequence.
\<close>

theorem lifecycle_follows_diagram:
  "(\<forall>j. lifecycle_step op i = (Inr (), j) \<longrightarrow>
      permitted (state_kind (inst_state i)) (op_action op) (state_kind (inst_state j)) \<and>
      (op_epoch op \<noteq> None \<longrightarrow> op_epoch op = state_activation (inst_state i))) \<and>
   ((\<exists>k. permitted (state_kind (inst_state i)) (op_action op) k) \<and>
      (op_epoch op \<noteq> None \<longrightarrow> op_epoch op = state_activation (inst_state i)) \<and>
      (op = Op_begin_start \<longrightarrow> last_activation i + 1 < U64_MODULUS) \<longrightarrow>
      fst (lifecycle_step op i) = Inr ())"
proof
  show "\<forall>j. lifecycle_step op i = (Inr (), j) \<longrightarrow>
      permitted (state_kind (inst_state i)) (op_action op) (state_kind (inst_state j)) \<and>
      (op_epoch op \<noteq> None \<longrightarrow> op_epoch op = state_activation (inst_state i))"
    using step_cases by blast
  show "(\<exists>k. permitted (state_kind (inst_state i)) (op_action op) k) \<and>
      (op_epoch op \<noteq> None \<longrightarrow> op_epoch op = state_activation (inst_state i)) \<and>
      (op = Op_begin_start \<longrightarrow> last_activation i + 1 < U64_MODULUS) \<longrightarrow>
      fst (lifecycle_step op i) = Inr ()"
    by (cases op; cases "inst_state i")
      (simp_all add: transition_defs u64_checked_succ_def)
qed

definition demo_definition :: component_definition where
  "demo_definition = new_definition (ComponentId ''c'')"

definition demo_scope :: scope where
  "demo_scope = fst (scope_root (ScopeId ''root'') 0)"

definition demo_instance :: component_instance where
  "demo_instance = \<lparr>instance_id = ComponentInstanceId ''i'', definition_id = ComponentId ''c'',
     instance_scope_id = ScopeId ''root'', instance_scope = demo_scope,
     inst_state = Starting (ActivationEpoch 1 2), incarnation = 1, last_activation = 2,
     last_failure = None\<rparr>"

theorem lifecycle_follows_diagram_witness:
  "fst (lifecycle_step (Op_complete_start (ActivationEpoch 1 2)) demo_instance) = Inr ()"
  using lifecycle_follows_diagram [of "Op_complete_start (ActivationEpoch 1 2)" demo_instance]
  by (simp add: demo_instance_def)

text \<open>
  Late work is fenced off: an operation that presents an epoch other than the instance's current
  one changes nothing; while the instance has an activation the caller is told that its epoch is
  stale, and otherwise that the transition is invalid in the instance's state.
\<close>

theorem stale_epoch_is_fenced:
  assumes "op_epoch op = Some a" and "state_activation (inst_state i) \<noteq> Some a"
  shows "snd (lifecycle_step op i) = i \<and>
    fst (lifecycle_step op i) =
      Inl (case state_activation (inst_state i) of
             None \<Rightarrow> InvalidTransition (state_kind (inst_state i)) (op_action op)
           | Some b \<Rightarrow> StaleActivation b a)"
  using assms
  by (cases op; cases "inst_state i") (auto simp: transition_defs invalid_def)

theorem stale_epoch_is_fenced_witness:
  "lifecycle_step (Op_complete_start (ActivationEpoch 1 1)) demo_instance =
     (Inl (StaleActivation (ActivationEpoch 1 2) (ActivationEpoch 1 1)), demo_instance)"
  using stale_epoch_is_fenced [of "Op_complete_start (ActivationEpoch 1 1)" "ActivationEpoch 1 1" demo_instance]
  by (simp add: demo_instance_def prod_eq_iff)

text \<open>
  An activation epoch is never reused in a process: whatever instances are created and however
  they are driven, all epochs ever issued are distinct, and two instances never hold the same
  activation.
\<close>

theorem epochs_are_unique:
  "distinct (issued (fold fleet_step ops empty_fleet)) \<and>
   (\<forall>i \<in> set (members (fold fleet_step ops empty_fleet)).
    \<forall>j \<in> set (members (fold fleet_step ops empty_fleet)).
      state_activation (inst_state i) \<noteq> None \<and>
      state_activation (inst_state i) = state_activation (inst_state j) \<longrightarrow> i = j)"
proof -
  let ?f = "fold fleet_step ops empty_fleet"
  note ok = fleet_okD [OF run_fleet_ok [of ops]]
  have "i = j" if "i \<in> set (members ?f)" "j \<in> set (members ?f)" "state_activation (inst_state i) = Some a"
    "state_activation (inst_state j) = Some a" for i j a
  proof -
    have "a = ActivationEpoch (incarnation i) (last_activation i)"
      "a = ActivationEpoch (incarnation j) (last_activation j)"
      using ok(1) [OF that(1)] ok(1) [OF that(2)] that(3,4) by (simp_all add: instance_ok_def)
    then show ?thesis using same_incarnation [OF run_fleet_ok that(1,2)] by simp
  qed
  with ok(3) show ?thesis by (metis not_None_eq)
qed

definition demo_fleet :: "fleet_op list" where
  "demo_fleet = [New_instance (ComponentInstanceId ''i'') demo_definition demo_scope,
     New_instance (ComponentInstanceId ''i'') demo_definition demo_scope,
     On_instance 0 Op_begin_start, On_instance 1 Op_begin_start,
     On_instance 0 (Op_begin_stop (ActivationEpoch 1 1) Target_Pending),
     On_instance 0 (Op_complete_stop (ActivationEpoch 1 1)), On_instance 0 Op_begin_start]"

theorem epochs_are_unique_witness:
  "issued (fold fleet_step demo_fleet empty_fleet) =
     [ActivationEpoch 1 1, ActivationEpoch 2 1, ActivationEpoch 1 2] \<and>
   distinct (issued (fold fleet_step demo_fleet empty_fleet))"
proof -
  have "issued (fold fleet_step demo_fleet empty_fleet) =
      [ActivationEpoch 1 1, ActivationEpoch 2 1, ActivationEpoch 1 2]"
    by (simp add: demo_fleet_def empty_fleet_def new_instance_def u64_checked_succ_def transition_defs)
  with epochs_are_unique [of demo_fleet] show ?thesis by simp
qed

text \<open>
  A failure outlives the teardown that follows it: after a start or a running component is marked
  failed, stopping it in either direction reaches the requested stable state with the failure, its
  phase and its summary still recorded.
\<close>

theorem failure_survives_teardown:
  assumes "mark_failed a summary i = (Inr (), j)"
    and "k = snd (complete_stop a (snd (begin_stop a target j)))"
  shows "last_failure k = Some \<lparr>failure_phase_of =
      (if state_kind (inst_state i) = K_Starting then Phase_Starting else Phase_Active),
      failure_summary = summary\<rparr> \<and>
    inst_state k = (case target of Target_Pending \<Rightarrow> Pending | Target_Removed \<Rightarrow> Removed)"
  using assms
  by (cases "inst_state i") (auto simp: transition_defs split: option.splits if_splits)

theorem failure_survives_teardown_witness:
  "fst (mark_failed (ActivationEpoch 1 2) ''boom'' demo_instance) = Inr () \<and>
   last_failure (snd (complete_stop (ActivationEpoch 1 2) (snd (begin_stop (ActivationEpoch 1 2)
     Target_Removed (snd (mark_failed (ActivationEpoch 1 2) ''boom'' demo_instance))))))
     = Some \<lparr>failure_phase_of = Phase_Starting, failure_summary = ''boom''\<rparr>"
proof -
  have f: "fst (mark_failed (ActivationEpoch 1 2) ''boom'' demo_instance) = Inr ()"
    and k: "state_kind (inst_state demo_instance) = K_Starting"
    by (simp_all add: demo_instance_def transition_defs)
  then have "mark_failed (ActivationEpoch 1 2) ''boom'' demo_instance =
      (Inr (), snd (mark_failed (ActivationEpoch 1 2) ''boom'' demo_instance))"
    by (simp add: prod_eq_iff)
  from failure_survives_teardown [OF this refl, of Target_Removed] f k show ?thesis by simp
qed

text \<open>
  A component declares each service at most once: whatever declarations are attempted on a new
  definition, the accepted requirements have distinct service ids, and every service id attempted is
  among them.
\<close>

theorem requirements_stay_distinct:
  "distinct (map required_service_id
     (requirements (fold (\<lambda>r d. snd (require_service r d)) rs (new_definition cid)))) \<and>
   required_service_id ` set (requirements (fold (\<lambda>r d. snd (require_service r d)) rs (new_definition cid)))
     = required_service_id ` set rs"
proof -
  have "distinct (map required_service_id (requirements (fold (\<lambda>r d. snd (require_service r d)) rs d))) \<and>
      required_service_id ` set (requirements (fold (\<lambda>r d. snd (require_service r d)) rs d))
        = required_service_id ` set (requirements d) \<union> required_service_id ` set rs"
    if "distinct (map required_service_id (requirements d))" for d
    using that
  proof (induction rs arbitrary: d)
    case (Cons r rs)
    have "distinct (map required_service_id (requirements (snd (require_service r d))))"
      using Cons.prems by (auto simp: require_service_def list_ex_iff)
    moreover have "required_service_id ` set (requirements (snd (require_service r d)))
        = insert (required_service_id r) (required_service_id ` set (requirements d))"
      by (auto simp: require_service_def list_ex_iff intro: rev_image_eqI)
    ultimately show ?case using Cons.IH [of "snd (require_service r d)"] by auto
  qed simp
  from this [of "new_definition cid"] show ?thesis by (simp add: new_definition_def)
qed

end
