(* ===== verification/Compose_Activity.thy ===== *)
theory Compose_Activity
  imports Compose_Lifecycle
begin

unbundle bit_operations_syntax

text \<open>
  The admission fence of an activation (\<open>yah-compose/src/effect_scope/activity.rs\<close>). A gate is one
  atomic word, whose top bit says revoked and whose other bits count the admitted calls, and a latch
  that is set when a revoked gate has drained. The first part is the code as a caller sees it; the
  second interleaves the atomic operations of any number of threads on one gate.
\<close>

section \<open>The word\<close>

definition REVOKED :: usize where "REVOKED = 2 ^ 63"
definition ACTIVE_CALLS :: usize where "ACTIVE_CALLS = REVOKED - 1"

definition is_revoked :: "usize \<Rightarrow> bool" where
  "is_revoked word \<longleftrightarrow> word AND REVOKED \<noteq> 0"

definition active_calls :: "usize \<Rightarrow> usize" where
  "active_calls word = word AND ACTIVE_CALLS"

lemma active_calls_mod: "active_calls word = word mod 2 ^ 63"
proof -
  have eq: "ACTIVE_CALLS = mask 63" by (simp add: ACTIVE_CALLS_def REVOKED_def mask_eq_exp_minus_1)
  show ?thesis
    unfolding active_calls_def eq by (simp only: take_bit_eq_mask [symmetric] take_bit_eq_mod)
qed

lemma is_revoked_bit: "is_revoked word \<longleftrightarrow> bit word 63"
  unfolding is_revoked_def REVOKED_def by (metis bit_iff_and_push_bit_not_eq_0 push_bit_of_1)

lemma bit_63_iff: "word < 2 ^ 64 \<Longrightarrow> bit (word :: nat) 63 \<longleftrightarrow> 2 ^ 63 \<le> word"
proof (cases "word < 2 ^ 63")
  case False
  assume "word < 2 ^ 64"
  with False have "word div 2 ^ 63 = 1" by (intro div_nat_eqI) simp_all
  with False show ?thesis by (simp only: bit_iff_odd not_less) simp
qed (simp only: bit_iff_odd div_less, simp)

lemma revoked_iff: "word < U64_MODULUS \<Longrightarrow> is_revoked word \<longleftrightarrow> 2 ^ 63 \<le> word"
  using bit_63_iff [of word] by (simp add: is_revoked_bit)

lemma word_split:
  assumes "word < U64_MODULUS"
  shows "word = (if is_revoked word then REVOKED else 0) + active_calls word"
  using assms
  by (cases "word < 2 ^ 63") (simp_all add: revoked_iff active_calls_mod REVOKED_def le_mod_geq)

lemma or_revoked:
  assumes "word < U64_MODULUS"
  shows "word OR REVOKED = REVOKED + active_calls word"
proof -
  have "word OR REVOKED = set_bit 63 word"
    by (simp add: set_bit_eq_or REVOKED_def push_bit_of_1)
  also have "\<dots> = (if is_revoked word then word else word + REVOKED)"
    by (simp add: set_bit_eq is_revoked_bit REVOKED_def)
  also have "\<dots> = REVOKED + active_calls word"
    using word_split [OF assms] by (cases "is_revoked word") simp_all
  finally show ?thesis .
qed

lemma word_join:
  assumes "n < 2 ^ 63"
  shows "is_revoked ((if b then REVOKED else 0) + n) \<longleftrightarrow> b"
    and "active_calls ((if b then REVOKED else 0) + n) = n"
    and "(if b then REVOKED else 0) + n < U64_MODULUS"
  using assms by (cases b; simp add: revoked_iff active_calls_mod REVOKED_def)+

lemma active_calls_less: "active_calls word < 2 ^ 63"
  by (simp add: active_calls_mod)

section \<open>One gate\<close>

datatype admission_error = Adm_Revoked | Adm_Exhausted

text \<open>\<open>admit_local\<close>, as the successful compare-and-exchange commits it.\<close>

definition admit_local :: "usize \<Rightarrow> admission_error + usize" where
  "admit_local word =
     (if is_revoked word then Inl Adm_Revoked
      else if active_calls word = ACTIVE_CALLS then Inl Adm_Exhausted
      else Inr (word + 1))"

lemma admit_local_ok:
  "(\<exists>w. admit_local word = Inr w) \<longleftrightarrow> \<not> is_revoked word \<and> active_calls word \<noteq> ACTIVE_CALLS"
  by (simp add: admit_local_def)

text \<open>\<open>fetch_sub(1)\<close>, and whether the guard's drop signals the drain.\<close>

definition release_word :: "usize \<Rightarrow> usize" where
  "release_word word = wrap64 (word + (U64_MODULUS - 1))"

definition release_signals :: "usize \<Rightarrow> bool" where
  "release_signals previous \<longleftrightarrow> is_revoked previous \<and> active_calls previous = 1"

definition revoke_word :: "usize \<Rightarrow> usize" where
  "revoke_word word = word OR REVOKED"

definition revoke_signals :: "usize \<Rightarrow> bool" where
  "revoke_signals previous \<longleftrightarrow> active_calls previous = 0"

section \<open>The tree of gates\<close>

datatype gate_node = GateNode (gate_address: address) (gate_parent: "gate_node option")

record gate_heap =
  gate_word :: "address \<Rightarrow> usize"
  gate_drained :: "address \<Rightarrow> bool"

fun gate_lineage :: "gate_node \<Rightarrow> address list" where
  "gate_lineage (GateNode a parent) =
     a # (case parent of None \<Rightarrow> [] | Some p \<Rightarrow> gate_lineage p)"

definition gate_root :: "address \<Rightarrow> gate_heap \<Rightarrow> gate_node \<times> gate_heap" where
  "gate_root a h =
     (GateNode a None, h\<lparr>gate_word := (gate_word h)(a := 0), gate_drained := (gate_drained h)(a := False)\<rparr>)"

definition gate_child :: "address \<Rightarrow> gate_node \<Rightarrow> gate_heap \<Rightarrow> gate_node \<times> gate_heap" where
  "gate_child a parent h =
     (GateNode a (Some parent),
      h\<lparr>gate_word := (gate_word h)(a := 0), gate_drained := (gate_drained h)(a := False)\<rparr>)"

definition drop_guard :: "address \<Rightarrow> gate_heap \<Rightarrow> gate_heap" where
  "drop_guard a h =
     (let previous = gate_word h a
      in h\<lparr>gate_word := (gate_word h)(a := release_word previous),
           gate_drained := (gate_drained h)(a := gate_drained h a \<or> release_signals previous)\<rparr>)"

fun admit_each :: "address list \<Rightarrow> address list \<Rightarrow> gate_heap \<Rightarrow>
    (admission_error + address list) \<times> gate_heap" where
  "admit_each [] guards h = (Inr guards, h)"
| "admit_each (a # as) guards h =
     (case admit_local (gate_word h a) of
        Inl e \<Rightarrow> (Inl e, fold drop_guard guards h)
      | Inr word \<Rightarrow> admit_each as (guards @ [a]) (h\<lparr>gate_word := (gate_word h)(a := word)\<rparr>))"

definition admit :: "gate_node \<Rightarrow> gate_heap \<Rightarrow> (admission_error + address list) \<times> gate_heap" where
  "admit g h = admit_each (rev (gate_lineage g)) [] h"

fun is_open :: "gate_node \<Rightarrow> gate_heap \<Rightarrow> bool" where
  "is_open (GateNode a parent) h =
     (if is_revoked (gate_word h a) then False
      else case parent of None \<Rightarrow> True | Some p \<Rightarrow> is_open p h)"

definition gate_revoke :: "gate_node \<Rightarrow> gate_heap \<Rightarrow> gate_heap" where
  "gate_revoke g h =
     (let a = gate_address g; previous = gate_word h a
      in h\<lparr>gate_word := (gate_word h)(a := revoke_word previous),
           gate_drained := (gate_drained h)(a := gate_drained h a \<or> revoke_signals previous)\<rparr>)"

datatype scope_activity_error = Activity_Revoked | Activity_Exhausted

fun from_admission_error :: "admission_error \<Rightarrow> scope_activity_error" where
  "from_admission_error Adm_Revoked = Activity_Revoked"
| "from_admission_error Adm_Exhausted = Activity_Exhausted"

text \<open>\<open>ScopeActivity::try_with\<close>, the operation being a function on the heap.\<close>

definition activity_try_with ::
  "gate_node \<Rightarrow> (gate_heap \<Rightarrow> 'r \<times> gate_heap) \<Rightarrow> gate_heap \<Rightarrow> (scope_activity_error + 'r) \<times> gate_heap" where
  "activity_try_with g operation h =
     (case admit g h of
        (Inl e, h) \<Rightarrow> (Inl (from_admission_error e), h)
      | (Inr guards, h) \<Rightarrow>
          (let (r, h) = operation h in (Inr r, fold drop_guard guards h)))"

section \<open>Admission is all or nothing\<close>

lemma is_open_lineage: "is_open g h \<longleftrightarrow> (\<forall>a \<in> set (gate_lineage g). \<not> is_revoked (gate_word h a))"
proof (induction g)
  case (GateNode a parent)
  then show ?case by (cases parent) auto
qed

lemma admit_local_Inr:
  assumes "word < U64_MODULUS" and "admit_local word = Inr word'"
  shows "word' = word + 1" and "word' < U64_MODULUS" and "release_word word' = word"
    and "\<not> release_signals word'"
proof -
  have w: "\<not> is_revoked word" "active_calls word \<noteq> ACTIVE_CALLS" "word' = word + 1"
    using assms(2) by (auto simp: admit_local_def split: if_splits)
  have "word < 2 ^ 63" using w(1) revoked_iff [OF assms(1)] by simp
  moreover have "word \<noteq> 2 ^ 63 - 1"
    using w(2) by (auto simp: active_calls_mod ACTIVE_CALLS_def REVOKED_def)
  ultimately have small: "word' < 2 ^ 63" using w(3) by simp
  then show "word' = word + 1" "word' < U64_MODULUS" "release_word word' = word"
    "\<not> release_signals word'"
    using w(3) revoked_iff [of word'] by (simp_all add: release_word_def wrap64_def release_signals_def)
qed

lemma heap_eqI: "gate_word h = gate_word k \<Longrightarrow> gate_drained h = gate_drained k \<Longrightarrow> (h :: gate_heap) = k"
  by simp

lemma drop_after_admit:
  assumes "gate_word h a < U64_MODULUS" and "admit_local (gate_word h a) = Inr word"
  shows "drop_guard a (h\<lparr>gate_word := (gate_word h)(a := word)\<rparr>) = h"
  using admit_local_Inr [OF assms] by (intro heap_eqI) (auto simp: drop_guard_def Let_def)

lemma drop_commutes:
  assumes "a \<noteq> b"
  shows "drop_guard a (h\<lparr>gate_word := (gate_word h)(b := word)\<rparr>) =
    (drop_guard a h)\<lparr>gate_word := (gate_word (drop_guard a h))(b := word)\<rparr>"
  using assms by (intro heap_eqI) (auto simp: drop_guard_def Let_def)

lemma drops_commute:
  assumes "b \<notin> set as"
  shows "fold drop_guard as (h\<lparr>gate_word := (gate_word h)(b := word)\<rparr>) =
    (fold drop_guard as h)\<lparr>gate_word := (gate_word (fold drop_guard as h))(b := word)\<rparr>"
  using assms
proof (induction as arbitrary: h)
  case (Cons a as)
  then have ab: "a \<noteq> b" and b: "b \<notin> set as" by auto
  show ?case by (simp only: fold_simps drop_commutes [OF ab] Cons.IH [OF b])
qed simp

lemma drops_word:
  assumes "b \<notin> set as"
  shows "gate_word (fold drop_guard as h) b = gate_word h b"
  using assms by (induction as arbitrary: h) (auto simp: drop_guard_def Let_def)

lemma admit_each_atomic:
  assumes "distinct (guards @ as)" and "\<And>a. gate_word h a < U64_MODULUS"
    and "admit_each as guards h = (r, h')"
  shows "(case r of
            Inl e \<Rightarrow> h' = fold drop_guard guards h \<and> (\<exists>a \<in> set as. admit_local (gate_word h a) = Inl e)
          | Inr gs \<Rightarrow> gs = guards @ as \<and> (\<forall>a \<in> set as. \<exists>w. admit_local (gate_word h a) = Inr w) \<and>
              fold drop_guard gs h' = fold drop_guard guards h \<and>
              (\<forall>a. gate_word h' a = gate_word h a + (if a \<in> set as then 1 else 0)))"
  using assms
proof (induction as guards h rule: admit_each.induct)
  case (1 guards h)
  then show ?case by auto
next
  case (2 a as guards h)
  show ?case
  proof (cases "admit_local (gate_word h a)")
    case (Inl e)
    with 2 show ?thesis by auto
  next
    case (Inr w)
    let ?h = "h\<lparr>gate_word := (gate_word h)(a := w)\<rparr>"
    note adm = admit_local_Inr [OF 2(3) Inr]
    have undone: "fold drop_guard (guards @ [a]) ?h = fold drop_guard guards h"
    proof -
      let ?k = "fold drop_guard guards h"
      have "a \<notin> set guards" using 2(2) by auto
      then have "fold drop_guard guards ?h = ?k\<lparr>gate_word := (gate_word ?k)(a := w)\<rparr>"
        and "gate_word ?k a = gate_word h a"
        using drops_commute drops_word by blast+
      with drop_after_admit [of ?k a w] 2(3) Inr show ?thesis by simp
    qed
    have ih: "case r of
        Inl e \<Rightarrow> h' = fold drop_guard (guards @ [a]) ?h \<and> (\<exists>b \<in> set as. admit_local (gate_word ?h b) = Inl e)
      | Inr gs \<Rightarrow> gs = (guards @ [a]) @ as \<and> (\<forall>b \<in> set as. \<exists>w. admit_local (gate_word ?h b) = Inr w) \<and>
          fold drop_guard gs h' = fold drop_guard (guards @ [a]) ?h \<and>
          (\<forall>b. gate_word h' b = gate_word ?h b + (if b \<in> set as then 1 else 0))"
      using 2(2,3,4) Inr adm(2) by (intro 2(1)) (auto split: if_splits)
    have same: "gate_word ?h b = gate_word h b" if "b \<in> set as" for b
      using that 2(2) by auto
    show ?thesis
    proof (cases r)
      case (Inl e)
      with ih undone same show ?thesis by auto
    next
      case Inr_r: (Inr gs)
      have "gate_word h' b = gate_word h b + (if b \<in> set (a # as) then 1 else 0)" for b
        using ih Inr_r adm(1) 2(2) by auto
      with ih Inr_r undone same Inr show ?thesis by auto
    qed
  qed
qed

text \<open>A bracketed operation that leaves the gates alone leaves no trace in them.\<close>

lemma try_with_restores:
  assumes "distinct (gate_lineage g)" and "\<And>a. gate_word h a < U64_MODULUS"
    and "\<And>h. snd (operation h) = h"
  shows "snd (activity_try_with g operation h) = h"
proof (cases "admit g h")
  case (Pair r h')
  have "distinct ([] @ rev (gate_lineage g))" using assms(1) by simp
  from admit_each_atomic [OF this assms(2) Pair [unfolded admit_def]] Pair assms(3) [of h'] show ?thesis
    by (cases r) (auto simp: activity_try_with_def split: prod.splits)
qed

text \<open>
  Admission to an activation subtree is all or nothing: on a lineage of distinct gates it
  succeeds exactly when no gate of the lineage is revoked or full, and then counts one more call at
  each of them and at no other; otherwise every gate is as it was. Dropping the admission restores
  the gates in either case.
\<close>

theorem admission_is_all_or_nothing:
  assumes "distinct (gate_lineage g)" and "\<And>a. gate_word h a < U64_MODULUS" and "admit g h = (r, h')"
  shows "((\<exists>guards. r = Inr guards) \<longleftrightarrow>
      is_open g h \<and> (\<forall>a \<in> set (gate_lineage g). active_calls (gate_word h a) \<noteq> ACTIVE_CALLS)) \<and>
    (\<forall>e. r = Inl e \<longrightarrow> h' = h) \<and>
    (\<forall>guards. r = Inr guards \<longrightarrow> fold drop_guard guards h' = h \<and>
       (\<forall>a. gate_word h' a = gate_word h a + (if a \<in> set (gate_lineage g) then 1 else 0)))"
proof -
  have "distinct ([] @ rev (gate_lineage g))" using assms(1) by simp
  note res = admit_each_atomic [OF this assms(2) assms(3) [unfolded admit_def]]
  show ?thesis
  proof (cases r)
    case (Inl e)
    with res obtain a where a: "a \<in> set (gate_lineage g)" "admit_local (gate_word h a) = Inl e" "h' = h"
      by auto
    then have "\<not> (is_open g h \<and> (\<forall>a \<in> set (gate_lineage g). active_calls (gate_word h a) \<noteq> ACTIVE_CALLS))"
      by (auto simp: is_open_lineage admit_local_def split: if_splits)
    with Inl a(3) show ?thesis by simp
  next
    case (Inr guards)
    have each: "\<exists>w. admit_local (gate_word h a) = Inr w" if "a \<in> set (gate_lineage g)" for a
      using res Inr that by auto
    have "is_open g h \<and> (\<forall>a \<in> set (gate_lineage g). active_calls (gate_word h a) \<noteq> ACTIVE_CALLS)"
      using each unfolding is_open_lineage admit_local_ok by blast
    with Inr res show ?thesis by auto
  qed
qed

theorem admission_is_all_or_nothing_witness:
  "fst (admit (GateNode 1 (Some (GateNode 0 None))) \<lparr>gate_word = (\<lambda>_. 0), gate_drained = (\<lambda>_. False)\<rparr>)
     = Inr [0, 1] \<and>
   fold drop_guard [0, 1] (snd (admit (GateNode 1 (Some (GateNode 0 None)))
       \<lparr>gate_word = (\<lambda>_. 0), gate_drained = (\<lambda>_. False)\<rparr>))
     = \<lparr>gate_word = (\<lambda>_. 0), gate_drained = (\<lambda>_. False)\<rparr>"
proof -
  let ?g = "GateNode 1 (Some (GateNode 0 None))"
  let ?h = "\<lparr>gate_word = (\<lambda>_. 0), gate_drained = (\<lambda>_. False)\<rparr>"
  have f: "fst (admit ?g ?h) = Inr [0, 1]"
    by (simp add: admit_def admit_local_def is_revoked_def active_calls_def ACTIVE_CALLS_def REVOKED_def)
  then have "admit ?g ?h = (Inr [0, 1], snd (admit ?g ?h))" by (simp add: prod_eq_iff)
  from admission_is_all_or_nothing [OF _ _ this] f show ?thesis by simp
qed

section \<open>Threads\<close>

text \<open>
  The atomic operations of many threads on one gate. \<open>Trying\<close> holds the value a thread last observed
  in its compare-and-exchange loop, \<open>Holding\<close> is an admitted call, \<open>Signalling\<close> is between the
  atomic update and the \<open>drained.cancel()\<close> that follows it.
\<close>

datatype pc = Idle | Trying usize | Holding | Signalling

record gate_system =
  word :: usize
  drained :: bool
  threads :: "pc list"

definition new_gate :: "nat \<Rightarrow> gate_system" where
  "new_gate n = \<lparr>word = 0, drained = False, threads = replicate n Idle\<rparr>"

inductive gate_step :: "gate_system \<Rightarrow> gate_system \<Rightarrow> bool" where
  load: "i < length (threads s) \<Longrightarrow> threads s ! i = Idle \<Longrightarrow>
     gate_step s (s\<lparr>threads := (threads s)[i := Trying (word s)]\<rparr>)"
| reject: "i < length (threads s) \<Longrightarrow> threads s ! i = Trying current \<Longrightarrow> admit_local current = Inl e \<Longrightarrow>
     gate_step s (s\<lparr>threads := (threads s)[i := Idle]\<rparr>)"
| cas_fails: "i < length (threads s) \<Longrightarrow> threads s ! i = Trying current \<Longrightarrow> admit_local current = Inr w \<Longrightarrow>
     gate_step s (s\<lparr>threads := (threads s)[i := Trying (word s)]\<rparr>)"
| cas_succeeds: "i < length (threads s) \<Longrightarrow> threads s ! i = Trying current \<Longrightarrow> admit_local current = Inr w \<Longrightarrow>
     word s = current \<Longrightarrow> gate_step s (s\<lparr>word := w, threads := (threads s)[i := Holding]\<rparr>)"
| release: "i < length (threads s) \<Longrightarrow> threads s ! i = Holding \<Longrightarrow>
     gate_step s (s\<lparr>word := release_word (word s),
       threads := (threads s)[i := if release_signals (word s) then Signalling else Idle]\<rparr>)"
| revoke: "i < length (threads s) \<Longrightarrow> threads s ! i = Idle \<Longrightarrow>
     gate_step s (s\<lparr>word := revoke_word (word s),
       threads := (threads s)[i := if revoke_signals (word s) then Signalling else Idle]\<rparr>)"
| signal: "i < length (threads s) \<Longrightarrow> threads s ! i = Signalling \<Longrightarrow>
     gate_step s (s\<lparr>drained := True, threads := (threads s)[i := Idle]\<rparr>)"

definition holders :: "gate_system \<Rightarrow> nat" where
  "holders s = length (filter (\<lambda>p. p = Holding) (threads s))"

definition signalling :: "gate_system \<Rightarrow> bool" where
  "signalling s \<longleftrightarrow> Signalling \<in> set (threads s)"

definition gate_ok :: "gate_system \<Rightarrow> bool" where
  "gate_ok s \<longleftrightarrow>
     word s < U64_MODULUS \<and> active_calls (word s) = holders s \<and>
     (drained s \<or> signalling s \<longleftrightarrow> is_revoked (word s) \<and> holders s = 0)"

lemma filter_update:
  "i < length xs \<Longrightarrow>
     length (filter P (xs[i := y])) + (if P (xs ! i) then 1 else 0) =
     length (filter P xs) + (if P y then 1 else 0)"
proof (induction xs arbitrary: i)
  case (Cons x xs)
  show ?case
  proof (cases i)
    case (Suc j)
    with Cons.IH [of j] Cons.prems show ?thesis by simp
  qed simp
qed simp

lemma signalling_update:
  assumes "i < length ps" and "ps ! i \<noteq> Signalling"
  shows "Signalling \<in> set (ps[i := p]) \<longleftrightarrow> p = Signalling \<or> Signalling \<in> set ps"
proof -
  have "ps[i := p] ! i = p" using assms(1) by simp
  then show ?thesis
    using assms by (metis in_set_conv_nth length_list_update nth_list_update)
qed

lemma word_admit:
  assumes "x < U64_MODULUS" and "admit_local x = Inr w"
  shows "w < U64_MODULUS" and "\<not> is_revoked w" and "active_calls w = active_calls x + 1"
    and "\<not> is_revoked x"
proof -
  have r: "\<not> is_revoked x" "active_calls x \<noteq> ACTIVE_CALLS" "w = x + 1"
    using assms(2) by (auto simp: admit_local_def split: if_splits)
  have x: "x = active_calls x" using word_split [OF assms(1)] r(1) by simp
  have "active_calls x + 1 < 2 ^ 63"
    using active_calls_less [of x] r(2) by (simp add: ACTIVE_CALLS_def REVOKED_def)
  from word_join [OF this, of False] x r(1,3)
  show "w < U64_MODULUS" "\<not> is_revoked w" "active_calls w = active_calls x + 1" "\<not> is_revoked x"
    by simp_all
qed

lemma release_word_Suc: "Suc y < U64_MODULUS \<Longrightarrow> release_word (Suc y) = y"
  by (simp add: release_word_def wrap64_def)

lemma word_release:
  assumes "x < U64_MODULUS" and "active_calls x = Suc n"
  shows "release_word x < U64_MODULUS" and "is_revoked (release_word x) \<longleftrightarrow> is_revoked x"
    and "active_calls (release_word x) = n"
proof -
  have x: "x = (if is_revoked x then REVOKED else 0) + Suc n" using word_split [OF assms(1)] assms(2) by simp
  then have "release_word x = (if is_revoked x then REVOKED else 0) + n"
    using assms(1) by (metis release_word_Suc add_Suc_right)
  moreover have "n < 2 ^ 63" using active_calls_less [of x] assms(2) by simp
  ultimately show "release_word x < U64_MODULUS" "is_revoked (release_word x) \<longleftrightarrow> is_revoked x"
    "active_calls (release_word x) = n"
    using word_join [of n "is_revoked x"] by simp_all
qed

lemma word_revoke:
  assumes "x < U64_MODULUS"
  shows "revoke_word x < U64_MODULUS" and "is_revoked (revoke_word x)"
    and "active_calls (revoke_word x) = active_calls x"
  using word_join [OF active_calls_less, of True x] or_revoked [OF assms] by (simp_all add: revoke_word_def)

lemma thread_counts:
  assumes "i < length (threads s)"
  shows "holders (s\<lparr>word := w, drained := d, threads := (threads s)[i := p]\<rparr>) +
      (if threads s ! i = Holding then 1 else 0) = holders s + (if p = Holding then 1 else 0)"
    and "threads s ! i \<noteq> Signalling \<Longrightarrow>
      signalling (s\<lparr>word := w, drained := d, threads := (threads s)[i := p]\<rparr>) \<longleftrightarrow>
        p = Signalling \<or> signalling s"
  using filter_update [OF assms, of "\<lambda>p. p = Holding" p] signalling_update [OF assms, of p]
  by (simp_all add: holders_def signalling_def)

lemma gate_ok_update:
  assumes "gate_ok s" and "i < length (threads s)" and "threads s ! i \<noteq> Signalling"
    and "w < U64_MODULUS"
    and "active_calls w + (if threads s ! i = Holding then 1 else 0) =
           active_calls (word s) + (if p = Holding then 1 else 0)"
    and "drained s \<or> p = Signalling \<or> signalling s \<longleftrightarrow> is_revoked w \<and> active_calls w = 0"
  shows "gate_ok (s\<lparr>word := w, threads := (threads s)[i := p]\<rparr>)"
  using thread_counts [OF assms(2), where w = w and d = "drained s" and p = p] assms
  by (auto simp: gate_ok_def split: if_splits)

lemma gate_step_ok:
  assumes "gate_step s t" and "gate_ok s"
  shows "gate_ok t"
  using assms
proof (induction rule: gate_step.induct)
  case (load i s)
  from gate_ok_update [OF load(3,1), where w = "word s" and p = "Trying (word s)"] load show ?case
    by (simp add: gate_ok_def)
next
  case (reject i s current e)
  from gate_ok_update [OF reject(4,1), where w = "word s" and p = Idle] reject show ?case
    by (simp add: gate_ok_def)
next
  case (cas_fails i s current w)
  from gate_ok_update [OF cas_fails(4,1), where w = "word s" and p = "Trying (word s)"] cas_fails
  show ?case by (simp add: gate_ok_def)
next
  case (cas_succeeds i s current w)
  have "word s < U64_MODULUS" using cas_succeeds(5) by (simp add: gate_ok_def)
  note w = word_admit [OF this, of w]
  from gate_ok_update [OF cas_succeeds(5,1), where w = w and p = Holding] w cas_succeeds show ?case
    by (simp add: gate_ok_def)
next
  case (release i s)
  have ok: "word s < U64_MODULUS" "active_calls (word s) = holders s"
    using release(3) by (simp_all add: gate_ok_def)
  have "holders s \<noteq> 0"
    using release(1,2) by (auto simp: holders_def filter_empty_conv) (metis nth_mem)
  then obtain n where n: "holders s = Suc n" by (cases "holders s") auto
  note w = word_release [OF ok(1), of n]
  from gate_ok_update [OF release(3,1), where w = "release_word (word s)"
      and p = "if release_signals (word s) then Signalling else Idle"] w release ok n show ?case
    by (auto simp: gate_ok_def release_signals_def split: if_splits)
next
  case (revoke i s)
  have ok: "word s < U64_MODULUS" "active_calls (word s) = holders s"
    using revoke(3) by (simp_all add: gate_ok_def)
  from gate_ok_update [OF revoke(3,1), where w = "revoke_word (word s)"
      and p = "if revoke_signals (word s) then Signalling else Idle"] word_revoke [OF ok(1)] revoke ok show ?case
    by (auto simp: gate_ok_def revoke_signals_def split: if_splits)
next
  case (signal i s)
  have "Signalling \<in> set (threads s)" using signal(1,2) by (metis nth_mem)
  then have "is_revoked (word s) \<and> holders s = 0" using signal(3) by (auto simp: gate_ok_def signalling_def)
  with thread_counts(1) [OF signal(1), where w = "word s" and d = True and p = Idle] signal show ?case
    by (auto simp: gate_ok_def)
qed

lemma gate_steps_ok: "rtranclp gate_step s t \<Longrightarrow> gate_ok s \<Longrightarrow> gate_ok t"
  by (induction rule: rtranclp_induct) (auto intro: gate_step_ok)

lemma new_gate_ok: "gate_ok (new_gate n)"
  by (simp add: gate_ok_def new_gate_def holders_def signalling_def is_revoked_def active_calls_def)

lemma drained_stays: "gate_step s t \<Longrightarrow> drained s \<Longrightarrow> drained t"
  by (induction rule: gate_step.induct) simp_all

lemma drained_stays_forever: "rtranclp gate_step s t \<Longrightarrow> drained s \<Longrightarrow> drained t"
  by (induction rule: rtranclp_induct) (auto intro: drained_stays)

text \<open>
  C39. The drain latch is exact under every interleaving: of any number of threads that admit, release
  and revoke through atomic operations, if the latch is set then the gate is revoked and no call is
  admitted, now or in any later state, so cleanup never runs beside an admitted call; and if the
  gate is revoked with no admitted call, the latch is set or some thread is about to set it, so the
  drain is never missed.
\<close>

theorem drain_latch_is_exact:
  assumes "rtranclp gate_step (new_gate n) s" and "rtranclp gate_step s t"
  shows "(drained s \<longrightarrow> is_revoked (word t) \<and> holders t = 0) \<and>
    (is_revoked (word s) \<and> holders s = 0 \<longrightarrow> drained s \<or> signalling s)"
proof -
  have s: "gate_ok s" and t: "gate_ok t"
    using gate_steps_ok [OF assms(1) new_gate_ok] gate_steps_ok [OF assms(2)] by blast+
  have "drained s \<Longrightarrow> drained t" by (rule drained_stays_forever [OF assms(2)])
  with s t show ?thesis by (auto simp: gate_ok_def)
qed

lemma demo_gate_run:
  "rtranclp gate_step (new_gate 1)
     \<lparr>word = REVOKED, drained = True, threads = [Idle]\<rparr>"
proof -
  have w: "revoke_word 0 = REVOKED" "revoke_signals 0" by (simp_all add: revoke_word_def revoke_signals_def active_calls_def)
  have "gate_step (new_gate 1) \<lparr>word = REVOKED, drained = False, threads = [Signalling]\<rparr>"
    using revoke [of 0 "new_gate 1"] w by (simp add: new_gate_def)
  moreover have "gate_step \<lparr>word = REVOKED, drained = False, threads = [Signalling]\<rparr>
      \<lparr>word = REVOKED, drained = True, threads = [Idle]\<rparr>"
    using signal [of 0 "\<lparr>word = REVOKED, drained = False, threads = [Signalling]\<rparr>"] by simp
  ultimately show ?thesis by (meson converse_rtranclp_into_rtranclp r_into_rtranclp)
qed

theorem drain_latch_is_exact_witness:
  "drained \<lparr>word = REVOKED, drained = True, threads = [Idle]\<rparr> \<and>
   holders \<lparr>word = REVOKED, drained = True, threads = [Idle]\<rparr> = 0"
  using drain_latch_is_exact [OF demo_gate_run rtranclp.rtrancl_refl] by simp

end
