(* ===== verification/Compose_Report.thy ===== *)
theory Compose_Report
  imports Compose_Activity
begin

text \<open>
  The vocabulary of effect scopes and the reports of their teardown
  (\<open>yah-compose/src/effect_scope/report.rs\<close>): identities, cleanup failures, the tree-shaped close
  report and its counts, and the errors of the scope boundary.
\<close>

section \<open>Identities\<close>

datatype effect_scope_id =
  EffectScopeId (scope_activation: activation_epoch) (scope_incarnation: u64)

datatype effect_registration_id =
  EffectRegistrationId (registration_scope: effect_scope_id) (registration_sequence: u64)

instantiation effect_scope_id :: linorder
begin
definition less_eq_effect_scope_id :: "effect_scope_id \<Rightarrow> effect_scope_id \<Rightarrow> bool" where
  "less_eq_effect_scope_id a b \<longleftrightarrow>
     scope_activation a < scope_activation b \<or>
     scope_activation a = scope_activation b \<and> scope_incarnation a \<le> scope_incarnation b"
definition less_effect_scope_id :: "effect_scope_id \<Rightarrow> effect_scope_id \<Rightarrow> bool" where
  "less_effect_scope_id a b \<longleftrightarrow>
     scope_activation a < scope_activation b \<or>
     scope_activation a = scope_activation b \<and> scope_incarnation a < scope_incarnation b"
instance
  by standard
    (auto simp: less_eq_effect_scope_id_def less_effect_scope_id_def effect_scope_id.expand)
end

instantiation effect_registration_id :: linorder
begin
definition less_eq_effect_registration_id ::
  "effect_registration_id \<Rightarrow> effect_registration_id \<Rightarrow> bool" where
  "less_eq_effect_registration_id a b \<longleftrightarrow>
     registration_scope a < registration_scope b \<or>
     registration_scope a = registration_scope b \<and> registration_sequence a \<le> registration_sequence b"
definition less_effect_registration_id ::
  "effect_registration_id \<Rightarrow> effect_registration_id \<Rightarrow> bool" where
  "less_effect_registration_id a b \<longleftrightarrow>
     registration_scope a < registration_scope b \<or>
     registration_scope a = registration_scope b \<and> registration_sequence a < registration_sequence b"
instance
  by standard
    (auto simp: less_eq_effect_registration_id_def less_effect_registration_id_def
      effect_registration_id.expand)
end

definition registration_activation :: "effect_registration_id \<Rightarrow> activation_epoch" where
  "registration_activation r = scope_activation (registration_scope r)"

definition effect_scope_id_text :: "effect_scope_id \<Rightarrow> string" where
  "effect_scope_id_text i =
     epoch_text (scope_activation i) @ ''/scope:'' @ show_nat (scope_incarnation i)"

section \<open>Failures\<close>

datatype cleanup_error = CleanupError (cleanup_error_summary: string)

type_synonym cleanup_result = "cleanup_error + unit"

datatype cleanup_failure_kind = ReturnedError | Panicked

record cleanup_failure =
  cleanup_failure_kind_of :: cleanup_failure_kind
  cleanup_failure_summary :: string

text \<open>
  A panic payload is user data: its message when it is a string, and the payload with which its
  destructor panics when it does.
\<close>

datatype panic_payload =
  Payload (payload_message: "string option") (payload_drop: "panic_payload option")

definition panic_summary :: "panic_payload \<Rightarrow> string" where
  "panic_summary p =
     (case payload_message p of
        Some message \<Rightarrow> message
      | None \<Rightarrow> ''cleanup panicked with a non-string payload'')"

definition consume_panic_payload :: "panic_payload \<Rightarrow> string" where
  "consume_panic_payload p =
     (case payload_drop p of
        None \<Rightarrow> panic_summary p
      | Some q \<Rightarrow> panic_summary p @ ''; panic payload destructor panicked: '' @ panic_summary q)"

definition failure_returned :: "cleanup_error \<Rightarrow> cleanup_failure" where
  "failure_returned e =
     \<lparr>cleanup_failure_kind_of = ReturnedError, cleanup_failure_summary = cleanup_error_summary e\<rparr>"

definition failure_panicked :: "panic_payload \<Rightarrow> cleanup_failure" where
  "failure_panicked p =
     \<lparr>cleanup_failure_kind_of = Panicked, cleanup_failure_summary = consume_panic_payload p\<rparr>"

section \<open>Outcomes and reports\<close>

datatype cleanup_outcome = Cleanup_Succeeded | Cleanup_Failed cleanup_failure

fun outcome_failure :: "cleanup_outcome \<Rightarrow> cleanup_failure option" where
  "outcome_failure Cleanup_Succeeded = None"
| "outcome_failure (Cleanup_Failed f) = Some f"

definition with_future_drop_panic :: "panic_payload \<Rightarrow> cleanup_outcome \<Rightarrow> cleanup_outcome" where
  "with_future_drop_panic p outcome =
     (let drop_summary = consume_panic_payload p;
          summary = (case outcome of
             Cleanup_Succeeded \<Rightarrow> ''cleanup future destructor panicked: '' @ drop_summary
           | Cleanup_Failed f \<Rightarrow>
               ''cleanup failed before its future destructor panicked: '' @ cleanup_failure_summary f
               @ ''; destructor panic: '' @ drop_summary)
      in Cleanup_Failed \<lparr>cleanup_failure_kind_of = Panicked, cleanup_failure_summary = summary\<rparr>)"

record cleanup_record =
  record_registration :: effect_registration_id
  record_label :: string
  record_outcome :: cleanup_outcome

datatype close_step =
    Step_Cleanup cleanup_record
  | Step_Child close_report bool
and close_report =
  CloseReport (report_scope_id: effect_scope_id) (report_scope_label: string)
    (report_steps: "close_step list")

fun cleanup_count :: "close_report \<Rightarrow> usize" and step_cleanups :: "close_step \<Rightarrow> usize" where
  "cleanup_count (CloseReport i l steps) = sum_list (map step_cleanups steps)"
| "step_cleanups (Step_Cleanup _) = 1"
| "step_cleanups (Step_Child report _) = cleanup_count report"

fun failure_count :: "close_report \<Rightarrow> usize" and step_failures :: "close_step \<Rightarrow> usize" where
  "failure_count (CloseReport i l steps) = sum_list (map step_failures steps)"
| "step_failures (Step_Cleanup r) = (if outcome_failure (record_outcome r) \<noteq> None then 1 else 0)"
| "step_failures (Step_Child report _) = failure_count report"

definition is_clean :: "close_report \<Rightarrow> bool" where
  "is_clean report \<longleftrightarrow> failure_count report = 0"

section \<open>The scope boundary\<close>

datatype effect_scope_state = Scope_Is_Open | Scope_Is_Closing | Scope_Is_Closed

fun scope_state_text :: "effect_scope_state \<Rightarrow> string" where
  "scope_state_text Scope_Is_Open = ''open''"
| "scope_state_text Scope_Is_Closing = ''closing''"
| "scope_state_text Scope_Is_Closed = ''closed''"

datatype effect_scope_error =
    ScopeIncarnationExhausted
  | NotOpen effect_scope_id effect_scope_state
  | RegistrationIdExhausted effect_scope_id
  | WrongActivation activation_epoch activation_epoch
  | UnknownScope effect_scope_id

fun effect_scope_error_text :: "effect_scope_error \<Rightarrow> string" where
  "effect_scope_error_text ScopeIncarnationExhausted = ''effect scope incarnation space exhausted''"
| "effect_scope_error_text (NotOpen i s) =
     ''effect scope '' @ effect_scope_id_text i @ '' is '' @ scope_state_text s"
| "effect_scope_error_text (RegistrationIdExhausted i) =
     ''effect scope '' @ effect_scope_id_text i @ '' exhausted registration identities''"
| "effect_scope_error_text (WrongActivation expected received) =
     ''effect scope activation mismatch: expected '' @ epoch_text expected @ '', received ''
     @ epoch_text received"
| "effect_scope_error_text (UnknownScope i) =
     ''effect scope '' @ effect_scope_id_text i @ '' is not in this subtree''"

section \<open>Reports flattened\<close>

text \<open>All cleanup records of a report in the order in which they ran.\<close>

fun report_records :: "close_report \<Rightarrow> cleanup_record list"
  and step_records :: "close_step \<Rightarrow> cleanup_record list" where
  "report_records (CloseReport i l steps) = concat (map step_records steps)"
| "step_records (Step_Cleanup r) = [r]"
| "step_records (Step_Child report _) = report_records report"

lemma cleanup_count_records:
  shows "cleanup_count report = length (report_records report)"
    and "step_cleanups step = length (step_records step)"
proof (induction report and step rule: cleanup_count_step_cleanups.induct)
  case (1 i l steps)
  then have "map step_cleanups steps = map (length \<circ> step_records) steps" by simp
  then show ?case by (simp only: cleanup_count.simps report_records.simps length_concat map_map)
qed simp_all

lemma failure_count_records:
  shows "failure_count report =
      length (filter (\<lambda>r. record_outcome r \<noteq> Cleanup_Succeeded) (report_records report))"
    and "step_failures step =
      length (filter (\<lambda>r. record_outcome r \<noteq> Cleanup_Succeeded) (step_records step))"
proof (induction report and step rule: failure_count_step_failures.induct)
  case (1 i l steps)
  then have "map step_failures steps =
      map (length \<circ> filter (\<lambda>r. record_outcome r \<noteq> Cleanup_Succeeded) \<circ> step_records) steps" by simp
  then show ?case
    by (simp only: failure_count.simps report_records.simps filter_concat length_concat map_map comp_assoc)
next
  case (2 r)
  then show ?case by (cases "record_outcome r") simp_all
qed simp_all

lemma is_clean_records:
  "is_clean report \<longleftrightarrow> (\<forall>r \<in> set (report_records report). record_outcome r = Cleanup_Succeeded)"
  by (auto simp: is_clean_def failure_count_records(1) filter_empty_conv)

end
