(* ===== verification/Compose_Effect.thy ===== *)
theory Compose_Effect
  imports Compose_Report
begin

text \<open>
  Activation-owned effect scopes (\<open>yah-compose/src/effect_scope.rs\<close> and
  \<open>effect_scope/cancellation.rs\<close>): a tree of deferred cleanups, its registration, its sealing, and
  the resumable teardown that a poll of the close future drives.

  Code outside the repository is a parameter. \<open>cancellation_api\<close> is tokio's \<open>CancellationToken\<close> over a
  store of tokens; \<open>callback_api\<close> is the user's cleanup code: calling a synchronous or asynchronous
  callback, polling a future and dropping it, each of which may panic and may change the world. The
  futures and callbacks themselves are values of the type parameters \<open>'f\<close> and \<open>'c\<close>.
\<close>

section \<open>The world of a scope\<close>

record ('t, 'k) cancellation_api =
  new_token :: "'k \<Rightarrow> 't \<times> 'k"
  child_token :: "'t \<Rightarrow> 'k \<Rightarrow> 't \<times> 'k"
  cancel_token :: "'t \<Rightarrow> 'k \<Rightarrow> 'k"
  token_cancelled :: "'t \<Rightarrow> 'k \<Rightarrow> bool"

text \<open>
  The process state a scope reads or writes: the activity gates, the tokens, the counter
  \<open>NEXT_SCOPE_INCARNATION\<close>, the next free address, and whatever else user code may touch.
\<close>

record ('k, 'x) world =
  gates :: gate_heap
  tokens :: 'k
  next_scope_incarnation :: u64
  next_address :: address
  outside :: 'x

text \<open>The result of code under \<open>catch_unwind\<close>: a panic, or a value.\<close>

type_synonym 'a caught = "panic_payload + 'a"

record ('c, 'f, 'k, 'x) callback_api =
  call_sync :: "'c \<Rightarrow> ('k, 'x) world \<Rightarrow> cleanup_result caught \<times> ('k, 'x) world"
  call_async :: "'c \<Rightarrow> ('k, 'x) world \<Rightarrow> 'f caught \<times> ('k, 'x) world"
  poll_future :: "'f \<Rightarrow> ('k, 'x) world \<Rightarrow> cleanup_result option caught \<times> 'f \<times> ('k, 'x) world"
  drop_future :: "'f \<Rightarrow> ('k, 'x) world \<Rightarrow> unit caught \<times> ('k, 'x) world"

section \<open>Scopes\<close>

datatype ('c, 'f, 't) effect_scope =
  EffectScope
    (es_id: effect_scope_id)
    (es_label: string)
    (es_cancellation: 't)
    (es_activity: gate_node)
    (es_next_registration: u64)
    (es_storage: "('c, 'f, 't) scope_storage")
and ('c, 'f, 't) scope_storage =
    Scope_Open "('c, 'f, 't) effect_entry list"
  | Scope_Closing bool "('c, 'f, 't) effect_entry list" "('c, 'f, 't) current_cleanup option"
      "close_step list"
  | Scope_Closed close_report
and ('c, 'f, 't) effect_entry =
    Entry_Sync effect_registration_id string 'c
  | Entry_Async effect_registration_id string 'c
  | Entry_Child "('c, 'f, 't) effect_scope"
and ('c, 'f, 't) current_cleanup =
    Current_Async effect_registration_id string 'f
  | Current_Child "('c, 'f, 't) effect_scope" bool

definition es_activation :: "('c, 'f, 't) effect_scope \<Rightarrow> activation_epoch" where
  "es_activation sc = scope_activation (es_id sc)"

definition es_state :: "('c, 'f, 't) effect_scope \<Rightarrow> effect_scope_state" where
  "es_state sc =
     (case es_storage sc of
        Scope_Open _ \<Rightarrow> Scope_Is_Open
      | Scope_Closing _ _ _ _ \<Rightarrow> Scope_Is_Closing
      | Scope_Closed _ \<Rightarrow> Scope_Is_Closed)"

definition closed_report :: "('c, 'f, 't) effect_scope \<Rightarrow> close_report option" where
  "closed_report sc =
     (case es_storage sc of
        Scope_Closed report \<Rightarrow> Some report
      | Scope_Open _ \<Rightarrow> None
      | Scope_Closing _ _ _ _ \<Rightarrow> None)"

fun with_storage :: "('c, 'f, 't) scope_storage \<Rightarrow> ('c, 'f, 't) effect_scope \<Rightarrow> ('c, 'f, 't) effect_scope"
  where "with_storage st (EffectScope i l t g n _) = EffectScope i l t g n st"

fun with_next_registration :: "u64 \<Rightarrow> ('c, 'f, 't) effect_scope \<Rightarrow> ('c, 'f, 't) effect_scope"
  where "with_next_registration n (EffectScope i l t g _ st) = EffectScope i l t g n st"

section \<open>Creation and registration\<close>

definition allocate_scope_id ::
  "activation_epoch \<Rightarrow> ('k, 'x) world \<Rightarrow> (effect_scope_error + effect_scope_id) \<times> ('k, 'x) world" where
  "allocate_scope_id activation w =
     (case u64_checked_succ (next_scope_incarnation w) of
        None \<Rightarrow> (Inl ScopeIncarnationExhausted, w)
      | Some next \<Rightarrow>
          (Inr (EffectScopeId activation (next_scope_incarnation w)),
           w\<lparr>next_scope_incarnation := next\<rparr>))"

definition new_scope ::
  "('t, 'k) cancellation_api \<Rightarrow> string \<Rightarrow> activation_epoch \<Rightarrow> ('k, 'x) world \<Rightarrow>
     (effect_scope_error + ('c, 'f, 't) effect_scope) \<times> ('k, 'x) world" where
  "new_scope tk label activation w =
     (case allocate_scope_id activation w of
        (Inl e, w) \<Rightarrow> (Inl e, w)
      | (Inr i, w) \<Rightarrow>
          (let (t, ts) = new_token tk (tokens w);
               (g, gs) = gate_root (next_address w) (gates w)
           in (Inr (EffectScope i label t g 1 (Scope_Open [])),
               w\<lparr>tokens := ts, gates := gs, next_address := next_address w + 1\<rparr>)))"

definition require_open :: "('c, 'f, 't) effect_scope \<Rightarrow> effect_scope_error + unit" where
  "require_open sc =
     (if es_state sc = Scope_Is_Open then Inr () else Inl (NotOpen (es_id sc) (es_state sc)))"

definition push_entry ::
  "('c, 'f, 't) effect_entry \<Rightarrow> ('c, 'f, 't) effect_scope \<Rightarrow> ('c, 'f, 't) effect_scope" where
  "push_entry e sc =
     (case es_storage sc of
        Scope_Open entries \<Rightarrow> with_storage (Scope_Open (entries @ [e])) sc
      | _ \<Rightarrow> sc)"

text \<open>\<open>child\<close> returns a borrow of the new child; here it returns the child's identity.\<close>

definition new_child ::
  "('t, 'k) cancellation_api \<Rightarrow> string \<Rightarrow> ('c, 'f, 't) effect_scope \<Rightarrow> ('k, 'x) world \<Rightarrow>
     (effect_scope_error + effect_scope_id) \<times> ('c, 'f, 't) effect_scope \<times> ('k, 'x) world" where
  "new_child tk label sc w =
     (case require_open sc of
        Inl e \<Rightarrow> (Inl e, sc, w)
      | Inr _ \<Rightarrow>
          (case allocate_scope_id (es_activation sc) w of
             (Inl e, w) \<Rightarrow> (Inl e, sc, w)
           | (Inr i, w) \<Rightarrow>
               (let (t, ts) = child_token tk (es_cancellation sc) (tokens w);
                    (g, gs) = gate_child (next_address w) (es_activity sc) (gates w)
                in (Inr i, push_entry (Entry_Child (EffectScope i label t g 1 (Scope_Open []))) sc,
                    w\<lparr>tokens := ts, gates := gs, next_address := next_address w + 1\<rparr>))))"

definition allocate_registration ::
  "('c, 'f, 't) effect_scope \<Rightarrow>
     (effect_scope_error + effect_registration_id) \<times> ('c, 'f, 't) effect_scope" where
  "allocate_registration sc =
     (case require_open sc of
        Inl e \<Rightarrow> (Inl e, sc)
      | Inr _ \<Rightarrow>
          (let sequence = es_next_registration sc
           in case u64_checked_succ sequence of
                None \<Rightarrow> (Inl (RegistrationIdExhausted (es_id sc)), sc)
              | Some next \<Rightarrow>
                  (Inr (EffectRegistrationId (es_id sc) sequence), with_next_registration next sc)))"

definition defer_sync ::
  "string \<Rightarrow> 'c \<Rightarrow> ('c, 'f, 't) effect_scope \<Rightarrow>
     (effect_scope_error + effect_registration_id) \<times> ('c, 'f, 't) effect_scope" where
  "defer_sync label cleanup sc =
     (case allocate_registration sc of
        (Inl e, sc) \<Rightarrow> (Inl e, sc)
      | (Inr r, sc) \<Rightarrow> (Inr r, push_entry (Entry_Sync r label cleanup) sc))"

definition defer_async ::
  "string \<Rightarrow> 'c \<Rightarrow> ('c, 'f, 't) effect_scope \<Rightarrow>
     (effect_scope_error + effect_registration_id) \<times> ('c, 'f, 't) effect_scope" where
  "defer_async label cleanup sc =
     (case allocate_registration sc of
        (Inl e, sc) \<Rightarrow> (Inl e, sc)
      | (Inr r, sc) \<Rightarrow> (Inr r, push_entry (Entry_Async r label cleanup) sc))"

section \<open>Lookup\<close>

text \<open>
  \<open>find_scope_mut\<close> returns a mutable borrow of the scope it finds. The update made through such a
  borrow is the function argument \<open>f\<close>: the result is the tree after it, and what it returned.
\<close>

fun update_scope ::
    "effect_scope_id \<Rightarrow> (('c, 'f, 't) effect_scope \<Rightarrow> 'r \<times> ('c, 'f, 't) effect_scope) \<Rightarrow>
       ('c, 'f, 't) effect_scope \<Rightarrow> ('r \<times> ('c, 'f, 't) effect_scope) option"
  and update_in_entries ::
    "effect_scope_id \<Rightarrow> (('c, 'f, 't) effect_scope \<Rightarrow> 'r \<times> ('c, 'f, 't) effect_scope) \<Rightarrow>
       ('c, 'f, 't) effect_entry list \<Rightarrow> ('r \<times> ('c, 'f, 't) effect_entry list) option"
  where
  "update_scope i f (EffectScope j l t g n st) =
     (if j = i then Some (f (EffectScope j l t g n st))
      else case st of
             Scope_Open entries \<Rightarrow>
               map_option (\<lambda>(r, es). (r, EffectScope j l t g n (Scope_Open es)))
                 (update_in_entries i f entries)
           | _ \<Rightarrow> None)"
| "update_in_entries i f [] = None"
| "update_in_entries i f (Entry_Child sc # es) =
     (case update_scope i f sc of
        Some (r, sc) \<Rightarrow> Some (r, Entry_Child sc # es)
      | None \<Rightarrow> map_option (\<lambda>(r, es). (r, Entry_Child sc # es)) (update_in_entries i f es))"
| "update_in_entries i f (e # es) =
     map_option (\<lambda>(r, es). (r, e # es)) (update_in_entries i f es)"

definition scope_mut ::
  "effect_scope_id \<Rightarrow> (('c, 'f, 't) effect_scope \<Rightarrow> 'r \<times> ('c, 'f, 't) effect_scope) \<Rightarrow>
     ('c, 'f, 't) effect_scope \<Rightarrow> (effect_scope_error + 'r) \<times> ('c, 'f, 't) effect_scope" where
  "scope_mut i f sc =
     (if scope_activation i \<noteq> es_activation sc
      then (Inl (WrongActivation (es_activation sc) (scope_activation i)), sc)
      else case require_open sc of
             Inl e \<Rightarrow> (Inl e, sc)
           | Inr _ \<Rightarrow>
               (case update_scope i f sc of
                  None \<Rightarrow> (Inl (UnknownScope i), sc)
                | Some (r, sc) \<Rightarrow> (Inr r, sc)))"

end
