(* ===== verification/Compose_Close.thy ===== *)
theory Compose_Close
  imports Compose_Effect
begin

text \<open>
  The teardown of an effect scope (\<open>close\<close>, \<open>poll_close\<close> and what they call, of
  \<open>yah-compose/src/effect_scope.rs\<close>). A poll returns \<open>None\<close> while the close future is pending. The
  future holds nothing but a borrow of the scope, so dropping it and calling \<open>close\<close> again is the next
  poll of the same scope.
\<close>

section \<open>Sealing\<close>

definition request_stop_of ::
  "('t, 'k) cancellation_api \<Rightarrow> ('c, 'f, 't) effect_scope \<Rightarrow> ('k, 'x) world \<Rightarrow> ('k, 'x) world" where
  "request_stop_of tk sc w =
     w\<lparr>gates := gate_revoke (es_activity sc) (gates w),
       tokens := cancel_token tk (es_cancellation sc) (tokens w)\<rparr>"

definition begin_close ::
  "('t, 'k) cancellation_api \<Rightarrow> ('c, 'f, 't) effect_scope \<Rightarrow> ('k, 'x) world \<Rightarrow>
     ('c, 'f, 't) effect_scope \<times> ('k, 'x) world" where
  "begin_close tk sc w =
     (case es_storage sc of
        Scope_Open entries \<Rightarrow>
          (with_storage (Scope_Closing True entries None []) sc, request_stop_of tk sc w)
      | _ \<Rightarrow> (sc, w))"

text \<open>\<open>Drop for EffectScope\<close>.\<close>

definition drop_scope ::
  "('t, 'k) cancellation_api \<Rightarrow> ('c, 'f, 't) effect_scope \<Rightarrow> ('k, 'x) world \<Rightarrow> ('k, 'x) world" where
  "drop_scope tk sc w = request_stop_of tk sc w"

section \<open>Outcomes\<close>

fun outcome_from_result :: "cleanup_result \<Rightarrow> cleanup_outcome" where
  "outcome_from_result (Inr _) = Cleanup_Succeeded"
| "outcome_from_result (Inl e) = Cleanup_Failed (failure_returned e)"

fun outcome_from_invocation :: "cleanup_result caught \<Rightarrow> cleanup_outcome" where
  "outcome_from_invocation (Inr result) = outcome_from_result result"
| "outcome_from_invocation (Inl payload) = Cleanup_Failed (failure_panicked payload)"

definition outcome_after_future_drop ::
  "('c, 'f, 'k, 'x) callback_api \<Rightarrow> cleanup_outcome \<Rightarrow> 'f \<Rightarrow> ('k, 'x) world \<Rightarrow>
     cleanup_outcome \<times> ('k, 'x) world" where
  "outcome_after_future_drop cb outcome future w =
     (case drop_future cb future w of
        (Inr _, w) \<Rightarrow> (outcome, w)
      | (Inl payload, w) \<Rightarrow> (with_future_drop_panic payload outcome, w))"

definition cleanup_step :: "effect_registration_id \<Rightarrow> string \<Rightarrow> cleanup_outcome \<Rightarrow> close_step" where
  "cleanup_step r label outcome =
     Step_Cleanup \<lparr>record_registration = r, record_label = label, record_outcome = outcome\<rparr>"

definition poll_quiescence :: "bool \<Rightarrow> gate_node \<Rightarrow> ('k, 'x) world \<Rightarrow> bool" where
  "poll_quiescence waiting g w \<longleftrightarrow> \<not> waiting \<or> gate_drained (gates w) (gate_address g)"

section \<open>How much is left\<close>

text \<open>The measure of a teardown: what is queued weighs more than what is under way.\<close>

fun scope_work :: "('c, 'f, 't) effect_scope \<Rightarrow> nat"
  and entry_work :: "('c, 'f, 't) effect_entry \<Rightarrow> nat"
  and current_work :: "('c, 'f, 't) current_cleanup \<Rightarrow> nat"
  where
  "scope_work (EffectScope i l t g n st) =
     2 + (case st of
            Scope_Open es \<Rightarrow> sum_list (map entry_work es)
          | Scope_Closing q es c steps \<Rightarrow>
              sum_list (map entry_work es) + (case c of None \<Rightarrow> 0 | Some c \<Rightarrow> current_work c)
          | Scope_Closed report \<Rightarrow> 0)"
| "entry_work (Entry_Sync r l c) = 4"
| "entry_work (Entry_Async r l c) = 4"
| "entry_work (Entry_Child sc) = 4 + scope_work sc"
| "current_work (Current_Async r l f) = 2"
| "current_work (Current_Child sc already) = 2 + scope_work sc"

definition option_work :: "('c, 'f, 't) current_cleanup option \<Rightarrow> nat" where
  "option_work c = (case c of None \<Rightarrow> 0 | Some c \<Rightarrow> current_work c)"

lemma begin_close_work: "(sc', w') = begin_close tk sc w \<Longrightarrow> scope_work sc' = scope_work sc"
  by (cases sc) (auto simp: begin_close_def split: scope_storage.splits)

lemma closing_work:
  "es_storage sc = Scope_Closing q es c steps \<Longrightarrow>
     Suc (sum_list (map entry_work es) + option_work c) < scope_work sc"
  by (cases sc) (simp add: option_work_def)

lemma begin_closing_work:
  "(sc', w') = begin_close tk sc w \<Longrightarrow> es_storage sc' = Scope_Closing q es c steps \<Longrightarrow>
     Suc (sum_list (map entry_work es) + option_work c) < scope_work sc"
  using begin_close_work closing_work by metis

lemma current_work_pos: "0 < current_work c"
  by (cases c) simp_all

lemma work_butlast:
  "es \<noteq> [] \<Longrightarrow> sum_list (map entry_work es) = sum_list (map entry_work (butlast es)) + entry_work (last es)"
  by (cases es rule: rev_cases) simp_all

section \<open>The poll\<close>

text \<open>
  \<open>poll_loop\<close> is the loop of \<open>poll_close\<close> on a scope that is closing: \<open>q\<close> says that the activity drain is
  still awaited. \<open>poll_current\<close> returns the cleanup that is still under way, or the step it became.
\<close>

function (sequential)
    poll_close ::
      "('t, 'k) cancellation_api \<Rightarrow> ('c, 'f, 'k, 'x) callback_api \<Rightarrow> ('c, 'f, 't) effect_scope \<Rightarrow>
         ('k, 'x) world \<Rightarrow> close_report option \<times> ('c, 'f, 't) effect_scope \<times> ('k, 'x) world"
  and poll_loop ::
      "('t, 'k) cancellation_api \<Rightarrow> ('c, 'f, 'k, 'x) callback_api \<Rightarrow> ('c, 'f, 't) effect_scope \<Rightarrow> bool \<Rightarrow>
         ('c, 'f, 't) effect_entry list \<Rightarrow> ('c, 'f, 't) current_cleanup option \<Rightarrow> close_step list \<Rightarrow>
         ('k, 'x) world \<Rightarrow> close_report option \<times> ('c, 'f, 't) scope_storage \<times> ('k, 'x) world"
  and poll_current ::
      "('t, 'k) cancellation_api \<Rightarrow> ('c, 'f, 'k, 'x) callback_api \<Rightarrow> ('c, 'f, 't) current_cleanup \<Rightarrow>
         ('k, 'x) world \<Rightarrow> (('c, 'f, 't) current_cleanup + close_step) \<times> ('k, 'x) world"
  where
  "poll_close tk cb sc w =
     (let (sc, w) = begin_close tk sc w
      in case es_storage sc of
           Scope_Closed report \<Rightarrow> (Some report, sc, w)
         | Scope_Closing q remaining current steps \<Rightarrow>
             (let (r, st, w) = poll_loop tk cb sc q remaining current steps w
              in (r, with_storage st sc, w))
         | Scope_Open _ \<Rightarrow> (None, sc, w))"
| "poll_loop tk cb sc q remaining current steps w =
     (if \<not> poll_quiescence q (es_activity sc) w
      then (None, Scope_Closing q remaining current steps, w)
      else case current of
        Some c \<Rightarrow>
          (case poll_current tk cb c w of
             (Inl c, w) \<Rightarrow> (None, Scope_Closing False remaining (Some c) steps, w)
           | (Inr step, w) \<Rightarrow> poll_loop tk cb sc False remaining None (steps @ [step]) w)
      | None \<Rightarrow>
          if remaining = [] then
            (let report = CloseReport (es_id sc) (es_label sc) steps
             in (Some report, Scope_Closed report, w))
          else
            (case last remaining of
               Entry_Sync r label cleanup \<Rightarrow>
                 (let (result, w) = call_sync cb cleanup w
                  in poll_loop tk cb sc False (butlast remaining) None
                       (steps @ [cleanup_step r label (outcome_from_invocation result)]) w)
             | Entry_Async r label cleanup \<Rightarrow>
                 (case call_async cb cleanup w of
                    (Inr future, w) \<Rightarrow>
                      poll_loop tk cb sc False (butlast remaining)
                        (Some (Current_Async r label future)) steps w
                  | (Inl payload, w) \<Rightarrow>
                      poll_loop tk cb sc False (butlast remaining) None
                        (steps @ [cleanup_step r label (Cleanup_Failed (failure_panicked payload))]) w)
             | Entry_Child child \<Rightarrow>
                 (let already_closed = (es_state child = Scope_Is_Closed);
                      (child, w) = begin_close tk child w
                  in poll_loop tk cb sc False (butlast remaining)
                       (Some (Current_Child child already_closed)) steps w)))"
| "poll_current tk cb (Current_Async r label future) w =
     (case poll_future cb future w of
        (Inr None, future, w) \<Rightarrow> (Inl (Current_Async r label future), w)
      | (Inr (Some result), future, w) \<Rightarrow>
          (let (outcome, w) = outcome_after_future_drop cb (outcome_from_result result) future w
           in (Inr (cleanup_step r label outcome), w))
      | (Inl payload, future, w) \<Rightarrow>
          (let (outcome, w) =
             outcome_after_future_drop cb (Cleanup_Failed (failure_panicked payload)) future w
           in (Inr (cleanup_step r label outcome), w)))"
| "poll_current tk cb (Current_Child child already_closed) w =
     (case poll_close tk cb child w of
        (None, child, w) \<Rightarrow> (Inl (Current_Child child already_closed), w)
      | (Some report, child, w) \<Rightarrow> (Inr (Step_Child report already_closed), drop_scope tk child w))"
  by pat_completeness auto

text \<open>A poll of the close future always returns: there is less left after every turn of the loop.\<close>

definition poll_measure where
  "poll_measure x =
     (case x of
        Inl (tk, cb, sc, w) \<Rightarrow> scope_work sc
      | Inr (Inl (tk, cb, sc, q, remaining, current, steps, w)) \<Rightarrow>
          1 + sum_list (map entry_work remaining) + option_work current
      | Inr (Inr (tk, cb, c, w)) \<Rightarrow> current_work c)"

termination poll_close
proof (relation "measure poll_measure")
qed (auto simp: poll_measure_def option_work_def work_butlast current_work_pos
    dest: begin_close_work begin_closing_work [unfolded option_work_def])

declare poll_close.simps [simp del] poll_loop.simps [simp del]

text \<open>The eight ways a turn of the loop can go.\<close>

lemma loop_cases:
  obtains (waiting) "\<not> poll_quiescence q (es_activity sc) w"
      "poll_loop tk cb sc q es c steps w = (None, Scope_Closing q es c steps, w)"
  | (pending) d d' w1 where "\<not> \<not> poll_quiescence q (es_activity sc) w" "c = Some d"
      "poll_current tk cb d w = (Inl d', w1)"
      "poll_loop tk cb sc q es c steps w = (None, Scope_Closing False es (Some d') steps, w1)"
  | (settled) d step w1 where "\<not> \<not> poll_quiescence q (es_activity sc) w" "c = Some d"
      "poll_current tk cb d w = (Inr step, w1)"
      "poll_loop tk cb sc q es c steps w = poll_loop tk cb sc False es None (steps @ [step]) w1"
  | (finished) "\<not> \<not> poll_quiescence q (es_activity sc) w" "c = None" "es = []"
      "poll_loop tk cb sc q es c steps w =
         (Some (CloseReport (es_id sc) (es_label sc) steps),
          Scope_Closed (CloseReport (es_id sc) (es_label sc) steps), w)"
  | (sync) r label k res w1 where "\<not> \<not> poll_quiescence q (es_activity sc) w" "c = None" "es \<noteq> []"
      "last es = Entry_Sync r label k" "call_sync cb k w = (res, w1)"
      "poll_loop tk cb sc q es c steps w = poll_loop tk cb sc False (butlast es) None
         (steps @ [cleanup_step r label (outcome_from_invocation res)]) w1"
  | (async) r label k f w1 where "\<not> \<not> poll_quiescence q (es_activity sc) w" "c = None" "es \<noteq> []"
      "last es = Entry_Async r label k" "call_async cb k w = (Inr f, w1)"
      "poll_loop tk cb sc q es c steps w =
         poll_loop tk cb sc False (butlast es) (Some (Current_Async r label f)) steps w1"
  | (async_panics) r label k p w1 where "\<not> \<not> poll_quiescence q (es_activity sc) w" "c = None" "es \<noteq> []"
      "last es = Entry_Async r label k" "call_async cb k w = (Inl p, w1)"
      "poll_loop tk cb sc q es c steps w = poll_loop tk cb sc False (butlast es) None
         (steps @ [cleanup_step r label (Cleanup_Failed (failure_panicked p))]) w1"
  | (child) ch ch' w1 where "\<not> \<not> poll_quiescence q (es_activity sc) w" "c = None" "es \<noteq> []"
      "last es = Entry_Child ch" "begin_close tk ch w = (ch', w1)"
      "poll_loop tk cb sc q es c steps w = poll_loop tk cb sc False (butlast es)
         (Some (Current_Child ch' (es_state ch = Scope_Is_Closed))) steps w1"
proof (cases "poll_quiescence q (es_activity sc) w")
  case False
  then show thesis by (intro waiting) (simp_all add: poll_loop.simps)
next
  case ready: True
  show thesis
  proof (cases c)
    case (Some d)
    show thesis
    proof (cases "poll_current tk cb d w")
      case (Pair x w1)
      note turn = Some ready Pair poll_loop.simps [of tk cb sc q es c]
      show thesis
      proof (cases x)
        case (Inl d')
        with turn show thesis by (intro pending [of d d' w1]) simp_all
      next
        case (Inr step)
        with turn show thesis by (intro settled [of d step w1]) simp_all
      qed
    qed
  next
    case none: None
    show thesis
    proof (cases "es = []")
      case True
      with none ready show thesis by (intro finished) (simp_all add: poll_loop.simps Let_def)
    next
      case more: False
      note turn = poll_loop.simps [of tk cb sc q es None]
      show thesis
      proof (cases "last es")
        case (Entry_Sync r l k)
        with none ready more show thesis
          by (cases "call_sync cb k w") (rule sync [of r l k], simp_all add: turn)
      next
        case (Entry_Async r l k)
        show thesis
        proof (cases "call_async cb k w")
          case (Pair x w1)
          show thesis
          proof (cases x)
            case (Inl p)
            with Pair Entry_Async none ready more show thesis
              by (intro async_panics [of r l k p w1]) (simp_all add: turn)
          next
            case (Inr f)
            with Pair Entry_Async none ready more show thesis
              by (intro async [of r l k f w1]) (simp_all add: turn)
          qed
        qed
      next
        case (Entry_Child ch)
        with none ready more show thesis
          by (cases "begin_close tk ch w") (rule child [of ch], simp_all add: turn)
      qed
    qed
  qed
qed

section \<open>The plan of a teardown\<close>

text \<open>
  What a scope owes: its cleanups and children in the order in which they are to be undone, the last
  registered first, each child as a block at the place of its creation.
\<close>

datatype plan_step =
    Plan_Cleanup effect_registration_id string
  | Plan_Child close_plan
and close_plan = ClosePlan effect_scope_id string "plan_step list"

fun plan_of_report :: "close_report \<Rightarrow> close_plan" and plan_of_step :: "close_step \<Rightarrow> plan_step" where
  "plan_of_report (CloseReport i l steps) = ClosePlan i l (map plan_of_step steps)"
| "plan_of_step (Step_Cleanup r) = Plan_Cleanup (record_registration r) (record_label r)"
| "plan_of_step (Step_Child report already) = Plan_Child (plan_of_report report)"

fun plan_of_scope :: "('c, 'f, 't) effect_scope \<Rightarrow> close_plan"
  and plan_of_entry :: "('c, 'f, 't) effect_entry \<Rightarrow> plan_step"
  and plan_of_current :: "('c, 'f, 't) current_cleanup \<Rightarrow> plan_step"
  where
  "plan_of_scope (EffectScope i l t g n st) =
     (case st of
        Scope_Open es \<Rightarrow> ClosePlan i l (rev (map plan_of_entry es))
      | Scope_Closing q es c steps \<Rightarrow>
          ClosePlan i l (map plan_of_step steps
            @ (case c of None \<Rightarrow> [] | Some c \<Rightarrow> [plan_of_current c]) @ rev (map plan_of_entry es))
      | Scope_Closed report \<Rightarrow> plan_of_report report)"
| "plan_of_entry (Entry_Sync r l c) = Plan_Cleanup r l"
| "plan_of_entry (Entry_Async r l c) = Plan_Cleanup r l"
| "plan_of_entry (Entry_Child sc) = Plan_Child (plan_of_scope sc)"
| "plan_of_current (Current_Async r l f) = Plan_Cleanup r l"
| "plan_of_current (Current_Child sc already) = Plan_Child (plan_of_scope sc)"

definition plan_of_storage :: "effect_scope_id \<Rightarrow> string \<Rightarrow> ('c, 'f, 't) scope_storage \<Rightarrow> close_plan" where
  "plan_of_storage i l st =
     (case st of
        Scope_Open es \<Rightarrow> ClosePlan i l (rev (map plan_of_entry es))
      | Scope_Closing q es c steps \<Rightarrow>
          ClosePlan i l (map plan_of_step steps
            @ (case c of None \<Rightarrow> [] | Some c \<Rightarrow> [plan_of_current c]) @ rev (map plan_of_entry es))
      | Scope_Closed report \<Rightarrow> plan_of_report report)"

lemma plan_of_scope_storage: "plan_of_scope sc = plan_of_storage (es_id sc) (es_label sc) (es_storage sc)"
  by (cases sc) (simp add: plan_of_storage_def)

lemma closed_plan: "es_storage sc = Scope_Closed report \<Longrightarrow> plan_of_scope sc = plan_of_report report"
  by (simp add: plan_of_scope_storage plan_of_storage_def)

lemma with_storage_sel [simp]:
  "es_id (with_storage st sc) = es_id sc" "es_label (with_storage st sc) = es_label sc"
  "es_storage (with_storage st sc) = st" "es_activity (with_storage st sc) = es_activity sc"
  "es_cancellation (with_storage st sc) = es_cancellation sc"
  "es_next_registration (with_storage st sc) = es_next_registration sc"
  by (cases sc; simp)+

lemma begin_close_sel:
  assumes "begin_close tk sc w = (sc', w')"
  shows "es_id sc' = es_id sc" and "es_label sc' = es_label sc" and "es_activity sc' = es_activity sc"
    and "es_cancellation sc' = es_cancellation sc" and "es_state sc' \<noteq> Scope_Is_Open"
    and "plan_of_scope sc' = plan_of_scope sc"
  using assms
  by (auto simp: begin_close_def es_state_def plan_of_scope_storage plan_of_storage_def
      split: scope_storage.splits)

lemma plan_of_cleanup_step [simp]: "plan_of_step (cleanup_step r l out) = Plan_Cleanup r l"
  by (simp add: cleanup_step_def)

lemma last_entry:
  "es \<noteq> [] \<Longrightarrow> rev (map plan_of_entry es) = plan_of_entry (last es) # rev (map plan_of_entry (butlast es))"
  by (cases es rule: rev_cases) simp_all

text \<open>A poll moves along the plan and never leaves it; a finished poll has a report of the whole plan.\<close>

lemma poll_keeps_plan:
  fixes tk :: "('t, 'k) cancellation_api" and cb :: "('c, 'f, 'k, 'x) callback_api"
  shows "poll_close tk cb sc w = (r, sc', w') \<Longrightarrow>
      plan_of_scope sc' = plan_of_scope sc \<and> es_id sc' = es_id sc \<and> es_label sc' = es_label sc \<and>
      (\<forall>report. r = Some report \<longrightarrow> es_storage sc' = Scope_Closed report)"
    and "poll_loop tk cb sc q es c steps w = (r, st, w') \<Longrightarrow>
      plan_of_storage (es_id sc) (es_label sc) st
        = plan_of_storage (es_id sc) (es_label sc) (Scope_Closing q es c steps) \<and>
      (\<forall>report. r = Some report \<longrightarrow> st = Scope_Closed report)"
    and "poll_current tk cb d w = (x, w') \<Longrightarrow>
      (case x of Inl d' \<Rightarrow> plan_of_current d' | Inr step \<Rightarrow> plan_of_step step) = plan_of_current d"
proof (induction tk cb sc w and tk cb sc q es c steps w and tk cb d w arbitrary: r sc' w' and r st w' and x w'
    rule: poll_close_poll_loop_poll_current.induct)
  case (1 tk cb sc w)
  obtain sc1 w1 where b: "begin_close tk sc w = (sc1, w1)" by fastforce
  note keep = begin_close_sel [OF b]
  show ?case
  proof (cases "es_storage sc1")
    case (Scope_Closing q es c steps)
    with 1(2) b obtain st where st: "poll_loop tk cb sc1 q es c steps w1 = (r, st, w')" "sc' = with_storage st sc1"
      by (auto simp: poll_close.simps split: prod.splits)
    from 1(1) [OF b [symmetric] refl Scope_Closing st(1)] st(2) keep Scope_Closing show ?thesis
      by (simp add: plan_of_scope_storage)
  qed (use 1(2) b keep in \<open>auto simp: poll_close.simps es_state_def\<close>)
next
  case (2 tk cb sc q es c steps w)
  note [simp] = plan_of_storage_def last_entry
  show ?case
  proof (cases rule: loop_cases [where tk = tk and cb = cb and sc = sc and q = q and es = es and c = c
        and steps = steps and w = w])
    case waiting
    with "2.prems" show ?thesis by auto
  next
    case (pending d d' w1)
    with "2.prems" "2.IH"(5) [OF pending(1,2,3)] show ?thesis by auto
  next
    case (settled d step w1)
    from "2.IH"(6) [OF settled(1,2) settled(3) [symmetric] refl trans [OF settled(4) [symmetric] "2.prems"]]
      "2.IH"(5) [OF settled(1-3)] settled(2)
    show ?thesis by simp
  next
    case finished
    with "2.prems" show ?thesis by auto
  next
    case (sync r label k res w1)
    from "2.IH"(1) [OF sync(1-4) refl sync(5) [symmetric] trans [OF sync(6) [symmetric] "2.prems"]] sync(2-4)
    show ?thesis by simp
  next
    case (async r label k f w1)
    from "2.IH"(3) [OF async(1-4) async(5) [symmetric] refl trans [OF async(6) [symmetric] "2.prems"]]
      async(2-4)
    show ?thesis by simp
  next
    case (async_panics r label k p w1)
    from "2.IH"(2) [OF async_panics(1-4) async_panics(5) [symmetric] refl
        trans [OF async_panics(6) [symmetric] "2.prems"]] async_panics(2-4)
    show ?thesis by simp
  next
    case (child ch ch' w1)
    from "2.IH"(4) [OF child(1-4) refl refl child(5) [symmetric] trans [OF child(6) [symmetric] "2.prems"]]
      begin_close_sel(6) [OF child(5)] child(2-4)
    show ?thesis by simp
  qed
next
  case (3 tk cb r label future w)
  then show ?case
    by (auto simp: Let_def split: prod.splits sum.splits option.splits)
next
  case (4 tk cb child already_closed w)
  show ?case
  proof (cases "poll_close tk cb child w")
    case (fields r sc1 w1)
    with 4 closed_plan [of sc1] show ?thesis by (cases r) auto
  qed
qed

section \<open>Waiting for admitted calls\<close>

lemma revoke_keeps_calls: "active_calls (revoke_word v) = active_calls v"
proof (rule bit_eqI)
  fix n
  have eq: "ACTIVE_CALLS = mask 63" by (simp add: ACTIVE_CALLS_def REVOKED_def mask_eq_exp_minus_1)
  have "bit ACTIVE_CALLS n \<longleftrightarrow> n < 63" unfolding eq bit_mask_iff by simp
  moreover have "bit REVOKED n \<longleftrightarrow> n = 63" by (simp only: REVOKED_def bit_exp_iff) auto
  ultimately show "bit (active_calls (revoke_word v)) n \<longleftrightarrow> bit (active_calls v) n"
    by (auto simp: active_calls_def revoke_word_def bit_and_iff bit_or_iff)
qed

lemma poll_close_closed: "es_storage sc = Scope_Closed report \<Longrightarrow> poll_close tk cb sc w = (Some report, sc, w)"
  by (simp add: poll_close.simps begin_close_def)

lemma poll_close_open_waits:
  assumes "es_storage sc = Scope_Open entries"
    and "\<not> gate_drained (gates (request_stop_of tk sc w)) (gate_address (es_activity sc))"
  shows "poll_close tk cb sc w =
    (None, with_storage (Scope_Closing True entries None []) sc, request_stop_of tk sc w)"
  using assms
  by (cases sc) (simp add: poll_close.simps begin_close_def poll_loop.simps poll_quiescence_def)

lemma poll_close_waits:
  assumes "es_storage sc = Scope_Closing True entries c steps"
    and "\<not> gate_drained (gates w) (gate_address (es_activity sc))"
  shows "poll_close tk cb sc w = (None, sc, w)"
  using assms
  by (cases sc) (simp add: poll_close.simps begin_close_def poll_loop.simps poll_quiescence_def)

lemma revoke_drains:
  "gate_drained (gate_revoke g h) a \<longleftrightarrow>
     gate_drained h a \<or> a = gate_address g \<and> active_calls (gate_word h a) = 0"
  by (auto simp: gate_revoke_def Let_def revoke_signals_def)

section \<open>Completion\<close>

text \<open>
  \<open>calmer h k\<close>: no gate gained or lost a call and no latch was reset. A \<open>quiet\<close> scope is one whose whole
  tree has no call left to wait for.
\<close>

definition calmer :: "gate_heap \<Rightarrow> gate_heap \<Rightarrow> bool" where
  "calmer h k \<longleftrightarrow>
     (\<forall>a. active_calls (gate_word k a) = active_calls (gate_word h a) \<and> (gate_drained h a \<longrightarrow> gate_drained k a))"

lemma calmer_refl [simp]: "calmer h h"
  by (simp add: calmer_def)

lemma calmer_trans: "calmer h k \<Longrightarrow> calmer k l \<Longrightarrow> calmer h l"
  by (simp add: calmer_def)

lemma calmer_revoke: "calmer h (gate_revoke g h)"
  by (auto simp: calmer_def gate_revoke_def Let_def revoke_keeps_calls)

lemma calmer_request_stop: "calmer (gates w) (gates (request_stop_of tk sc w))"
  by (simp add: request_stop_of_def calmer_revoke)

lemma calmer_begin_close: "begin_close tk sc w = (sc', w') \<Longrightarrow> calmer (gates w) (gates w')"
  by (auto simp: begin_close_def calmer_request_stop split: scope_storage.splits)

fun quiet :: "gate_heap \<Rightarrow> ('c, 'f, 't) effect_scope \<Rightarrow> bool"
  and quiet_entry :: "gate_heap \<Rightarrow> ('c, 'f, 't) effect_entry \<Rightarrow> bool"
  and quiet_current :: "gate_heap \<Rightarrow> ('c, 'f, 't) current_cleanup \<Rightarrow> bool"
  where
  "quiet h (EffectScope i l t g n st) \<longleftrightarrow>
     (case st of
        Scope_Open es \<Rightarrow> active_calls (gate_word h (gate_address g)) = 0 \<and> (\<forall>e \<in> set es. quiet_entry h e)
      | Scope_Closing q es c steps \<Rightarrow>
          (q \<longrightarrow> gate_drained h (gate_address g)) \<and> (\<forall>e \<in> set es. quiet_entry h e) \<and>
          (case c of None \<Rightarrow> True | Some c \<Rightarrow> quiet_current h c)
      | Scope_Closed report \<Rightarrow> True)"
| "quiet_entry h (Entry_Sync r l c) \<longleftrightarrow> True"
| "quiet_entry h (Entry_Async r l c) \<longleftrightarrow> True"
| "quiet_entry h (Entry_Child sc) \<longleftrightarrow> quiet h sc"
| "quiet_current h (Current_Async r l f) \<longleftrightarrow> True"
| "quiet_current h (Current_Child sc already) \<longleftrightarrow> quiet h sc"

lemma quiet_calmer:
  fixes sc :: "('c, 'f, 't) effect_scope" and e :: "('c, 'f, 't) effect_entry"
    and c :: "('c, 'f, 't) current_cleanup"
  assumes "calmer h k"
  shows "quiet h sc \<Longrightarrow> quiet k sc" and "quiet_entry h e \<Longrightarrow> quiet_entry k e"
    and "quiet_current h c \<Longrightarrow> quiet_current k c"
  using assms
proof (induction h sc and h e and h c rule: quiet_quiet_entry_quiet_current.induct)
  case (1 h i l t g n st)
  then show ?case
    by (cases st) (auto simp: calmer_def split: option.splits)
qed simp_all

lemma quiet_begin_close:
  fixes sc :: "('a, 'b, 'c) effect_scope"
  assumes "begin_close tk sc w = (sc', w')" and "quiet (gates w) sc"
  shows "quiet (gates w') sc'"
proof (cases sc)
  case (EffectScope i l t g n st)
  show ?thesis
  proof (cases st)
    case (Scope_Open es)
    have "quiet_entry (gate_revoke g (gates w)) e" if "quiet_entry (gates w) e" for e :: "('a, 'b, 'c) effect_entry"
      using quiet_calmer(2) [OF calmer_revoke that] .
    with Scope_Open EffectScope assms show ?thesis
      by (auto simp: begin_close_def request_stop_of_def revoke_drains)
  qed (use assms EffectScope in \<open>auto simp: begin_close_def\<close>)
qed

text \<open>User code that finishes: no future is pending, and no callback leaves a call behind.\<close>

definition prompt :: "('c, 'f, 'k, 'x) callback_api \<Rightarrow> bool" where
  "prompt cb \<longleftrightarrow>
     (\<forall>c w. calmer (gates w) (gates (snd (call_sync cb c w)))) \<and>
     (\<forall>c w. calmer (gates w) (gates (snd (call_async cb c w)))) \<and>
     (\<forall>f w. calmer (gates w) (gates (snd (snd (poll_future cb f w)))) \<and> fst (poll_future cb f w) \<noteq> Inr None) \<and>
     (\<forall>f w. calmer (gates w) (gates (snd (drop_future cb f w))))"

lemma promptD:
  assumes "prompt cb"
  shows "call_sync cb c w = (r, w') \<Longrightarrow> calmer (gates w) (gates w')"
    and "call_async cb c w = (r', w') \<Longrightarrow> calmer (gates w) (gates w')"
    and "poll_future cb f w = (x, f', w') \<Longrightarrow> calmer (gates w) (gates w') \<and> x \<noteq> Inr None"
    and "drop_future cb f w = (y, w') \<Longrightarrow> calmer (gates w) (gates w')"
  using assms unfolding prompt_def by (metis fst_conv snd_conv)+

lemma outcome_calmer:
  assumes "prompt cb" and "outcome_after_future_drop cb out f w = (out', w')"
  shows "calmer (gates w) (gates w')"
  using assms promptD(4) [OF assms(1)]
  by (auto simp: outcome_after_future_drop_def split: prod.splits sum.splits)

lemma poll_completes:
  fixes tk :: "('t, 'k) cancellation_api" and cb :: "('c, 'f, 'k, 'x) callback_api"
  assumes prompt: "prompt cb"
  shows "quiet (gates w) sc \<Longrightarrow> \<exists>report sc' w'. poll_close tk cb sc w = (Some report, sc', w') \<and> calmer (gates w) (gates w')"
    and "poll_quiescence q (es_activity s) w \<Longrightarrow> \<forall>e \<in> set es. quiet_entry (gates w) e \<Longrightarrow>
      (case c of None \<Rightarrow> True | Some c \<Rightarrow> quiet_current (gates w) c) \<Longrightarrow>
      \<exists>report st w'. poll_loop tk cb s q es c steps w = (Some report, st, w') \<and> calmer (gates w) (gates w')"
    and "quiet_current (gates w) d \<Longrightarrow>
      \<exists>step w'. poll_current tk cb d w = (Inr step, w') \<and> calmer (gates w) (gates w')"
  using prompt
proof (induction tk cb sc w and tk cb s q es c steps w and tk cb d w
    rule: poll_close_poll_loop_poll_current.induct)
  case (1 tk cb sc w)
  obtain sc1 w1 where b: "begin_close tk sc w = (sc1, w1)" by fastforce
  note calm = calmer_begin_close [OF b] and q1 = quiet_begin_close [OF b "1.prems"(1)]
  show ?case
  proof (cases "es_storage sc1")
    case (Scope_Closing q es c steps)
    with q1 have "poll_quiescence q (es_activity sc1) w1" "\<forall>e \<in> set es. quiet_entry (gates w1) e"
        "case c of None \<Rightarrow> True | Some c \<Rightarrow> quiet_current (gates w1) c"
      by (cases sc1; auto simp: poll_quiescence_def)+
    from "1.IH" [OF b [symmetric] refl Scope_Closing this "1.prems"(2)] b Scope_Closing calm show ?thesis
      by (auto simp: poll_close.simps intro: calmer_trans)
  qed (use b calm begin_close_sel(5) [OF b] in \<open>auto simp: poll_close.simps es_state_def\<close>)
next
  case (2 tk cb sc q es c steps w)
  have rest: "\<forall>e \<in> set (butlast es). quiet_entry (gates w') e" if "calmer (gates w) (gates w')" for w' :: "('k, 'x) world"
    using "2.prems"(2) quiet_calmer(2) [OF that] by (auto dest: in_set_butlastD)
  have free: "poll_quiescence False (es_activity sc) w'" for w' :: "('k, 'x) world"
    by (simp add: poll_quiescence_def)
  note pr = promptD [OF "2.prems"(4)]
  show ?case
  proof (cases rule: loop_cases [where tk = tk and cb = cb and sc = sc and q = q and es = es and c = c
        and steps = steps and w = w])
    case waiting
    with "2.prems"(1) show ?thesis by simp
  next
    case (pending d d' w1)
    with "2.IH"(5) [OF pending(1,2)] "2.prems" show ?thesis by auto
  next
    case (settled d step w1)
    with "2.IH"(5) [OF settled(1,2)] "2.prems" have calm: "calmer (gates w) (gates w1)" by auto
    then have "\<forall>e \<in> set es. quiet_entry (gates w1) e" using "2.prems"(2) quiet_calmer(2) by blast
    from "2.IH"(6) [OF settled(1,2) settled(3) [symmetric] refl free this _ "2.prems"(4)] settled(4) calm
    show ?thesis by (auto intro: calmer_trans)
  next
    case finished
    then show ?thesis by simp
  next
    case (sync r label k res w1)
    note calm = pr(1) [OF sync(5)]
    from "2.IH"(1) [OF sync(1-4) refl sync(5) [symmetric] free rest [OF calm] _ "2.prems"(4)] sync(6) calm
    show ?thesis by (auto intro: calmer_trans)
  next
    case (async r label k f w1)
    note calm = pr(2) [OF async(5)]
    from "2.IH"(3) [OF async(1-4) async(5) [symmetric] refl free rest [OF calm] _ "2.prems"(4)] async(6) calm
    show ?thesis by (auto intro: calmer_trans)
  next
    case (async_panics r label k p w1)
    note calm = pr(2) [OF async_panics(5)]
    from "2.IH"(2) [OF async_panics(1-4) async_panics(5) [symmetric] refl free rest [OF calm] _ "2.prems"(4)]
      async_panics(6) calm
    show ?thesis by (auto intro: calmer_trans)
  next
    case (child ch ch' w1)
    note calm = calmer_begin_close [OF child(5)]
    have "quiet (gates w) ch" using "2.prems"(2) child(3,4) by (metis last_in_set quiet_entry.simps(3))
    from quiet_begin_close [OF child(5) this]
      "2.IH"(4) [OF child(1-4) refl refl child(5) [symmetric] free rest [OF calm] _ "2.prems"(4)] child(6) calm
    show ?thesis by (auto intro: calmer_trans)
  qed
next
  case (3 tk cb r label f w)
  obtain x f' w1 where p: "poll_future cb f w = (x, f', w1)" by (cases "poll_future cb f w")
  obtain o1 w2 where o: "outcome_after_future_drop cb
      (case x of Inl payload \<Rightarrow> Cleanup_Failed (failure_panicked payload)
       | Inr res \<Rightarrow> outcome_from_result (the res)) f' w1 = (o1, w2)" by fastforce
  from p promptD(3) [OF "3.prems"(2) p] o outcome_calmer [OF "3.prems"(2) o] show ?case
    by (cases x) (auto intro: calmer_trans)
next
  case (4 tk cb child already w)
  from "4.IH" "4.prems" obtain report sc' w' where
    "poll_close tk cb child w = (Some report, sc', w')" "calmer (gates w) (gates w')" by auto
  then show ?case
    by (auto simp: drop_scope_def intro: calmer_trans calmer_request_stop)
qed

section \<open>A concrete runtime\<close>

text \<open>
  Tokens as paths to the root, with the set of cancelled ones; callbacks that log themselves and
  succeed, with futures that are ready at the first poll. The runtime shows that the hypotheses of the
  properties can hold.
\<close>

definition demo_tokens :: "(nat list, nat \<times> nat list) cancellation_api" where
  "demo_tokens =
     \<lparr>new_token = (\<lambda>(n, cs). ([n], (n + 1, cs))),
      child_token = (\<lambda>t (n, cs). (n # t, (n + 1, cs))),
      cancel_token = (\<lambda>t (n, cs). (n, hd t # cs)),
      token_cancelled = (\<lambda>t (n, cs). list_ex (\<lambda>x. List.member cs x) t)\<rparr>"

definition demo_callbacks :: "(nat, nat, 'k, nat list) callback_api" where
  "demo_callbacks =
     \<lparr>call_sync = (\<lambda>c w. (if c = 0 then Inr (Inl (CleanupError ''refused'')) else Inr (Inr ()),
                          w\<lparr>outside := outside w @ [c]\<rparr>)),
      call_async = (\<lambda>c w. (Inr c, w)),
      poll_future = (\<lambda>f w. (Inr (Some (Inr ())), f, w\<lparr>outside := outside w @ [f]\<rparr>)),
      drop_future = (\<lambda>f w. (Inr (), w))\<rparr>"

definition demo_world :: "(nat \<times> nat list, nat list) world" where
  "demo_world =
     \<lparr>gates = \<lparr>gate_word = (\<lambda>_. 0), gate_drained = (\<lambda>_. False)\<rparr>, tokens = (0, []),
      next_scope_incarnation = 1, next_address = 0, outside = []\<rparr>"

definition demo_effect_id :: effect_scope_id where
  "demo_effect_id = EffectScopeId (ActivationEpoch 1 1) 1"

text \<open>A synchronous cleanup, a child with one asynchronous cleanup, and another synchronous one.\<close>

definition demo_effects :: "(nat, nat, nat list) effect_scope" where
  "demo_effects =
     EffectScope demo_effect_id ''root'' [0] (GateNode 0 None) 3
       (Scope_Open
          [Entry_Sync (EffectRegistrationId demo_effect_id 1) ''first'' 7,
           Entry_Child (EffectScope (EffectScopeId (ActivationEpoch 1 1) 2) ''child'' [1, 0]
             (GateNode 1 (Some (GateNode 0 None))) 2
             (Scope_Open [Entry_Async (EffectRegistrationId (EffectScopeId (ActivationEpoch 1 1) 2) 1) ''task'' 8])),
           Entry_Sync (EffectRegistrationId demo_effect_id 2) ''second'' 9])"

lemma demo_callbacks_prompt: "prompt demo_callbacks"
  by (simp add: prompt_def demo_callbacks_def)

lemma demo_effects_quiet: "quiet (gates demo_world) demo_effects"
  by (simp add: demo_effects_def demo_world_def active_calls_def)

section \<open>Properties\<close>

text \<open>
  Polls of one close future, or of several one after the other, between which the rest of the program
  changes the world. The drive stops at the first poll that is ready.
\<close>

fun drive ::
  "('t, 'k) cancellation_api \<Rightarrow> ('c, 'f, 'k, 'x) callback_api \<Rightarrow> (('k, 'x) world \<Rightarrow> ('k, 'x) world) list \<Rightarrow>
     ('c, 'f, 't) effect_scope \<Rightarrow> ('k, 'x) world \<Rightarrow>
     close_report option \<times> ('c, 'f, 't) effect_scope \<times> ('k, 'x) world" where
  "drive tk cb [] sc w = (None, sc, w)"
| "drive tk cb (change # changes) sc w =
     (case poll_close tk cb sc (change w) of
        (Some report, sc, w) \<Rightarrow> (Some report, sc, w)
      | (None, sc, w) \<Rightarrow> drive tk cb changes sc w)"

lemma drive_keeps_plan:
  "drive tk cb changes sc w = (r, sc', w') \<Longrightarrow>
     plan_of_scope sc' = plan_of_scope sc \<and> (\<forall>report. r = Some report \<longrightarrow> es_storage sc' = Scope_Closed report)"
proof (induction changes arbitrary: sc w)
  case (Cons change changes)
  obtain r1 sc1 w1 where p: "poll_close tk cb sc (change w) = (r1, sc1, w1)" by (cases "poll_close tk cb sc (change w)")
  with Cons poll_keeps_plan(1) [OF p] show ?case by (cases r1) auto
qed simp

text \<open>
  C29. Teardown undoes everything once, last registered first: however often the close future is
  polled, dropped and taken up again, and whatever the program does in between, the report that
  finally comes out lists exactly the cleanups and children the scope owned when it was closed, in
  reverse order of their registration with every child in its place; the report is kept, and a later
  close returns it without running anything.
\<close>

theorem teardown_follows_plan:
  assumes "drive tk cb changes sc w = (Some report, sc', w')"
  shows "plan_of_report report = plan_of_scope sc \<and> closed_report sc' = Some report \<and>
    poll_close tk cb sc' v = (Some report, sc', v)"
  using drive_keeps_plan [OF assms] closed_plan [of sc' report] poll_close_closed [of sc' report]
  by (simp add: closed_report_def)

lemma demo_drive:
  "drive demo_tokens demo_callbacks [id] demo_effects demo_world =
     (Some (the (fst (drive demo_tokens demo_callbacks [id] demo_effects demo_world))),
      snd (drive demo_tokens demo_callbacks [id] demo_effects demo_world))"
proof -
  obtain report sc' w' where "poll_close demo_tokens demo_callbacks demo_effects demo_world = (Some report, sc', w')"
    using poll_completes(1) [OF demo_callbacks_prompt demo_effects_quiet] by blast
  then show ?thesis by simp
qed

theorem teardown_follows_plan_witness:
  "\<exists>report. fst (drive demo_tokens demo_callbacks [id] demo_effects demo_world) = Some report \<and>
     plan_of_report report = ClosePlan demo_effect_id ''root''
       [Plan_Cleanup (EffectRegistrationId demo_effect_id 2) ''second'',
        Plan_Child (ClosePlan (EffectScopeId (ActivationEpoch 1 1) 2) ''child''
          [Plan_Cleanup (EffectRegistrationId (EffectScopeId (ActivationEpoch 1 1) 2) 1) ''task'']),
        Plan_Cleanup (EffectRegistrationId demo_effect_id 1) ''first'']"
proof -
  obtain report sc' w' where d: "drive demo_tokens demo_callbacks [id] demo_effects demo_world = (Some report, sc', w')"
    using demo_drive by (metis prod.collapse)
  from teardown_follows_plan [OF d, of demo_world] d show ?thesis by (simp add: demo_effects_def)
qed

text \<open>
  Cleanup waits for admitted calls: while the activity latch of a closing scope is not set, a poll
  of its close runs no callback and changes nothing; the first poll of an open scope with a call
  still admitted seals it, revokes its gate and cancels its token, and nothing more.
\<close>

theorem cleanup_waits_for_calls:
  assumes "\<not> gate_drained (gates w) (gate_address (es_activity sc))"
  shows "(es_storage sc = Scope_Open entries \<and>
      active_calls (gate_word (gates w) (gate_address (es_activity sc))) \<noteq> 0 \<longrightarrow>
        poll_close tk cb sc w =
          (None, with_storage (Scope_Closing True entries None []) sc, request_stop_of tk sc w)) \<and>
    (es_storage sc = Scope_Closing True entries c steps \<longrightarrow> poll_close tk cb sc w = (None, sc, w))"
  using assms poll_close_open_waits [of sc entries tk w cb] poll_close_waits [of sc entries c steps w tk cb]
  by (simp add: request_stop_of_def revoke_drains)

theorem cleanup_waits_for_calls_witness:
  "poll_close demo_tokens demo_callbacks demo_effects
      (demo_world\<lparr>gates := \<lparr>gate_word = (\<lambda>_. 1), gate_drained = (\<lambda>_. False)\<rparr>\<rparr>) =
    (None, fst (begin_close demo_tokens demo_effects demo_world),
     request_stop_of demo_tokens demo_effects
       (demo_world\<lparr>gates := \<lparr>gate_word = (\<lambda>_. 1), gate_drained = (\<lambda>_. False)\<rparr>\<rparr>))"
  using cleanup_waits_for_calls [of "demo_world\<lparr>gates := \<lparr>gate_word = (\<lambda>_. 1), gate_drained = (\<lambda>_. False)\<rparr>\<rparr>"
      demo_effects _ demo_tokens demo_callbacks]
  by (simp add: demo_effects_def begin_close_def active_calls_def ACTIVE_CALLS_def REVOKED_def and_nat_numerals)

text \<open>
  C30. Teardown ends: when no call is admitted anywhere in the tree and the cleanups do not stay
  pending, one poll runs everything and returns the report, whatever the cleanups return and even if
  they panic.
\<close>

theorem close_completes:
  assumes "prompt cb" and "quiet (gates w) sc"
  shows "\<exists>report sc' w'. poll_close tk cb sc w = (Some report, sc', w') \<and> plan_of_report report = plan_of_scope sc"
proof -
  obtain report sc' w' where p: "poll_close tk cb sc w = (Some report, sc', w')"
    using poll_completes(1) [OF assms] by blast
  with poll_keeps_plan(1) [OF p] closed_plan [of sc' report] show ?thesis by auto
qed

theorem close_completes_witness:
  "\<exists>report sc' w'. poll_close demo_tokens demo_callbacks demo_effects demo_world = (Some report, sc', w') \<and>
     plan_of_report report = plan_of_scope demo_effects"
  by (rule close_completes [OF demo_callbacks_prompt demo_effects_quiet])

end
