(* ===== verification/Compose_Service.thy ===== *)
theory Compose_Service
  imports Compose_Close
begin

text \<open>
  Typed live services (\<open>yah-compose/src/service/\<close>): providers published into a registry by an active
  component, found by scope, bound by a starting one, and called through revocable handles.

  A registry core, a provider's revocation flag, its marker and the shared provider value live on the
  heap and are addresses here. A Rust type parameter \<open>T\<close> is its \<open>ContractType\<close>; \<open>downcast_ref::<Arc<T>>\<close>
  compares the stored \<open>TypeId\<close>. An \<open>Arc\<close> of a provider value is a strong count, a \<open>Weak\<close> its address.
\<close>

section \<open>Fallible operations that may panic\<close>

text \<open>\<open>Ok\<close>, \<open>Err\<close>, and a failed \<open>expect\<close>, \<open>assert\<close> or \<open>unreachable\<close>.\<close>

datatype ('e, 'a) attempt = Accepted 'a | Rejected 'e | Panic string

fun map_rejected :: "('e \<Rightarrow> 'g) \<Rightarrow> ('e, 'a) attempt \<Rightarrow> ('g, 'a) attempt" where
  "map_rejected f (Accepted x) = Accepted x"
| "map_rejected f (Rejected e) = Rejected (f e)"
| "map_rejected f (Panic m) = Panic m"

fun is_panic :: "('e, 'a) attempt \<Rightarrow> bool" where
  "is_panic (Panic m) = True"
| "is_panic _ = False"

section \<open>Identities and errors\<close>

datatype provider_registration_id =
  ProviderRegistrationId (cleanup_registration_id: effect_registration_id)

instantiation provider_registration_id :: linorder
begin
definition less_eq_provider_registration_id ::
  "provider_registration_id \<Rightarrow> provider_registration_id \<Rightarrow> bool" where
  "less_eq_provider_registration_id a b \<longleftrightarrow> cleanup_registration_id a \<le> cleanup_registration_id b"
definition less_provider_registration_id ::
  "provider_registration_id \<Rightarrow> provider_registration_id \<Rightarrow> bool" where
  "less_provider_registration_id a b \<longleftrightarrow> cleanup_registration_id a < cleanup_registration_id b"
instance
  by standard
    (auto simp: less_eq_provider_registration_id_def less_provider_registration_id_def
      provider_registration_id.expand)
end

definition provider_activation :: "provider_registration_id \<Rightarrow> activation_epoch" where
  "provider_activation p = registration_activation (cleanup_registration_id p)"

definition provider_effect_scope :: "provider_registration_id \<Rightarrow> effect_scope_id" where
  "provider_effect_scope p = registration_scope (cleanup_registration_id p)"

definition provider_id_text :: "provider_registration_id \<Rightarrow> string" where
  "provider_id_text p =
     effect_scope_id_text (provider_effect_scope p) @ ''/provider:''
     @ show_nat (registration_sequence (cleanup_registration_id p))"

record provider_candidate =
  candidate_id :: provider_registration_id
  candidate_service :: service_id
  candidate_owner :: component_instance_id
  candidate_owner_scope :: scope_id
  candidate_contract_name :: string

record requirement_candidates =
  group_requirement :: required_service
  group_candidates :: "provider_candidate list"

datatype requirement_status = Requirements_Ready | Requirements_Missing "service_id list"

datatype service_registry_error =
    ContractTypeMismatch service_id string string
  | ProviderOwnerNotActive component_instance_id component_state_kind
  | ConsumerNotStarting component_instance_id component_state_kind
  | ActivationMismatch component_instance_id activation_epoch activation_epoch
  | ConsumerScopeNotOpen effect_scope_id effect_scope_state
  | UnknownProvider provider_registration_id
  | ProviderDoesNotSatisfy provider_registration_id service_id service_id
  | ProviderUnavailable provider_registration_id
  | ProviderValueTypeMismatch provider_registration_id string string
  | Registry_EffectScope effect_scope_error

fun service_id_text :: "service_id \<Rightarrow> string" where "service_id_text (ServiceId s) = s"
fun instance_id_text :: "component_instance_id \<Rightarrow> string" where
  "instance_id_text (ComponentInstanceId s) = s"

fun registry_error_text :: "service_registry_error \<Rightarrow> string" where
  "registry_error_text (ContractTypeMismatch s expected received) =
     ''service '' @ service_id_text s @ '' uses Rust contract '' @ expected @ '', not '' @ received"
| "registry_error_text (ProviderOwnerNotActive i k) =
     ''component '' @ instance_id_text i @ '' cannot publish a provider while '' @ kind_text k"
| "registry_error_text (ConsumerNotStarting i k) =
     ''component '' @ instance_id_text i @ '' cannot bind required services while '' @ kind_text k"
| "registry_error_text (ActivationMismatch i a b) =
     ''component '' @ instance_id_text i @ '' activation '' @ epoch_text a
     @ '' does not own effect activation '' @ epoch_text b"
| "registry_error_text (ConsumerScopeNotOpen i s) =
     ''consumer effect scope '' @ effect_scope_id_text i @ '' is '' @ scope_state_text s"
| "registry_error_text (UnknownProvider p) =
     ''provider registration '' @ provider_id_text p @ '' is unknown''"
| "registry_error_text (ProviderDoesNotSatisfy p required provided) =
     ''provider '' @ provider_id_text p @ '' publishes '' @ service_id_text provided
     @ '', not required service '' @ service_id_text required"
| "registry_error_text (ProviderUnavailable p) =
     ''provider registration '' @ provider_id_text p @ '' is unavailable''"
| "registry_error_text (ProviderValueTypeMismatch p expected stored) =
     ''provider '' @ provider_id_text p @ '' stores Rust contract '' @ stored @ '', not '' @ expected"
| "registry_error_text (Registry_EffectScope e) =
     ''provider cleanup admission failed: '' @ effect_scope_error_text e"

section \<open>The heap of services\<close>

text \<open>\<open>ProviderGate\<close>: the address of its flag, and the provider scope's cancellation token.\<close>

datatype 't provider_gate = ProviderGate (pg_flag: address) (pg_cancellation: 't)

record 't provider_entry =
  pe_candidate :: provider_candidate
  pe_contract :: contract_type
  pe_marker :: address
  pe_gate :: "'t provider_gate"
  pe_activity :: gate_node
  pe_owner_scope :: scope
  pe_value_type :: nat
  pe_value :: address

record 't registry_state =
  contracts :: "service_id \<rightharpoonup> contract_type"
  providers :: "(provider_registration_id, 't provider_entry) btree"

record ('t, 'y) service_heap =
  registries :: "address \<Rightarrow> 't registry_state option"
  revoked_flags :: "address \<Rightarrow> bool"
  strong_counts :: "address \<Rightarrow> nat"
  user_state :: 'y

type_synonym ('t, 'k, 'y) swld = "('k, ('t, 'y) service_heap) world"

abbreviation on_services ::
  "(('t, 'y) service_heap \<Rightarrow> ('t, 'y) service_heap) \<Rightarrow> ('t, 'k, 'y) swld \<Rightarrow> ('t, 'k, 'y) swld" where
  "on_services f w \<equiv> w\<lparr>outside := f (outside w)\<rparr>"

definition set_registry :: "address \<Rightarrow> 't registry_state option \<Rightarrow> ('t, 'k, 'y) swld \<Rightarrow> ('t, 'k, 'y) swld" where
  "set_registry core st w = on_services (registries_update (\<lambda>m. m(core := st))) w"

definition revoke_flag :: "address \<Rightarrow> ('t, 'k, 'y) swld \<Rightarrow> ('t, 'k, 'y) swld" where
  "revoke_flag a w = on_services (revoked_flags_update (\<lambda>m. m(a := True))) w"

definition take_strong :: "address \<Rightarrow> ('t, 'k, 'y) swld \<Rightarrow> ('t, 'k, 'y) swld" where
  "take_strong a w = on_services (strong_counts_update (\<lambda>m. m(a := m a + 1))) w"

definition drop_strong :: "address \<Rightarrow> ('t, 'k, 'y) swld \<Rightarrow> ('t, 'k, 'y) swld" where
  "drop_strong a w = on_services (strong_counts_update (\<lambda>m. m(a := m a - 1))) w"

definition registry_of :: "address \<Rightarrow> ('t, 'k, 'y) swld \<Rightarrow> 't registry_state" where
  "registry_of core w =
     (case registries (outside w) core of
        Some st \<Rightarrow> st
      | None \<Rightarrow> \<lparr>contracts = Map.empty, providers = []\<rparr>)"

definition new_registry :: "('t, 'k, 'y) swld \<Rightarrow> address \<times> ('t, 'k, 'y) swld" where
  "new_registry w =
     (next_address w,
      set_registry (next_address w) (Some \<lparr>contracts = Map.empty, providers = []\<rparr>)
        (w\<lparr>next_address := next_address w + 1\<rparr>))"

section \<open>Contracts\<close>

definition check_contract ::
  "'t registry_state \<Rightarrow> service_id \<Rightarrow> contract_type \<Rightarrow> service_registry_error + unit" where
  "check_contract st s received =
     (case contracts st s of
        None \<Rightarrow> Inr ()
      | Some expected \<Rightarrow>
          if contract_type_id expected = contract_type_id received then Inr ()
          else Inl (ContractTypeMismatch s (contract_type_name expected) (contract_type_name received)))"

definition or_insert_contract :: "service_id \<Rightarrow> contract_type \<Rightarrow> 't registry_state \<Rightarrow> 't registry_state" where
  "or_insert_contract s c st =
     (case contracts st s of
        None \<Rightarrow> st\<lparr>contracts := (contracts st)(s \<mapsto> c)\<rparr>
      | Some _ \<Rightarrow> st)"

definition ensure_contract ::
  "service_id \<Rightarrow> contract_type \<Rightarrow> 't registry_state \<Rightarrow>
     (service_registry_error + unit) \<times> 't registry_state" where
  "ensure_contract s c st =
     (case check_contract st s c of
        Inl e \<Rightarrow> (Inl e, st)
      | Inr _ \<Rightarrow> (Inr (), or_insert_contract s c st))"

fun ensure_contracts ::
  "required_service list \<Rightarrow> 't registry_state \<Rightarrow> (service_registry_error + unit) \<times> 't registry_state" where
  "ensure_contracts [] st = (Inr (), st)"
| "ensure_contracts (r # rs) st =
     (case ensure_contract (required_service_id r) (required_contract r) st of
        (Inl e, st) \<Rightarrow> (Inl e, st)
      | (Inr _, st) \<Rightarrow> ensure_contracts rs st)"

section \<open>Discovery\<close>

definition gate_available ::
  "('t, 'k) cancellation_api \<Rightarrow> 't provider_gate \<Rightarrow> ('t, 'k, 'y) swld \<Rightarrow> bool" where
  "gate_available tk g w \<longleftrightarrow>
     \<not> token_cancelled tk (pg_cancellation g) (tokens w) \<and> \<not> revoked_flags (outside w) (pg_flag g)"

definition entry_live ::
  "('t, 'k) cancellation_api \<Rightarrow> ('t, 'k, 'y) swld \<Rightarrow> 't provider_entry \<Rightarrow> bool" where
  "entry_live tk w e \<longleftrightarrow> gate_available tk (pe_gate e) w \<and> is_open (pe_activity e) (gates w)"

definition registry_candidates ::
  "('t, 'k) cancellation_api \<Rightarrow> address \<Rightarrow> required_service \<Rightarrow> scope \<Rightarrow> ('t, 'k, 'y) swld \<Rightarrow>
     (service_registry_error + provider_candidate list) \<times> ('t, 'k, 'y) swld" where
  "registry_candidates tk core requirement consumer w =
     (case ensure_contract (required_service_id requirement) (required_contract requirement) (registry_of core w) of
        (Inl e, st) \<Rightarrow> (Inl e, set_registry core (Some st) w)
      | (Inr _, st) \<Rightarrow>
          (Inr (map pe_candidate (filter (\<lambda>e.
                  candidate_service (pe_candidate e) = required_service_id requirement
                  \<and> entry_live tk w e \<and> is_visible_from (pe_owner_scope e) consumer)
                (map snd (providers st)))),
           set_registry core (Some st) w))"

definition requirement_group ::
  "('t, 'k) cancellation_api \<Rightarrow> ('t, 'k, 'y) swld \<Rightarrow> 't registry_state \<Rightarrow> scope \<Rightarrow> required_service \<Rightarrow>
     requirement_candidates" where
  "requirement_group tk w st consumer requirement =
     \<lparr>group_requirement = requirement,
      group_candidates = map pe_candidate (filter (\<lambda>e.
          candidate_service (pe_candidate e) = required_service_id requirement
          \<and> pe_contract e = required_contract requirement
          \<and> entry_live tk w e \<and> is_visible_from (pe_owner_scope e) consumer)
        (map snd (providers st)))\<rparr>"

definition registry_inventory ::
  "('t, 'k) cancellation_api \<Rightarrow> address \<Rightarrow> required_service list \<Rightarrow> scope \<Rightarrow> ('t, 'k, 'y) swld \<Rightarrow>
     (service_registry_error + requirement_candidates list) \<times> ('t, 'k, 'y) swld" where
  "registry_inventory tk core reqs consumer w =
     (case ensure_contracts reqs (registry_of core w) of
        (Inl e, st) \<Rightarrow> (Inl e, set_registry core (Some st) w)
      | (Inr _, st) \<Rightarrow>
          (Inr (map (requirement_group tk w st consumer) reqs), set_registry core (Some st) w))"

definition registry_requirement_status ::
  "('t, 'k) cancellation_api \<Rightarrow> address \<Rightarrow> component_definition \<Rightarrow> scope \<Rightarrow> ('t, 'k, 'y) swld \<Rightarrow>
     (service_registry_error + requirement_status) \<times> ('t, 'k, 'y) swld" where
  "registry_requirement_status tk core d consumer w =
     (case registry_inventory tk core (requirements d) consumer w of
        (Inl e, w) \<Rightarrow> (Inl e, w)
      | (Inr inventory, w) \<Rightarrow>
          (let missing = map (\<lambda>g. required_service_id (group_requirement g))
                           (filter (\<lambda>g. group_candidates g = []) inventory)
           in (Inr (if missing = [] then Requirements_Ready else Requirements_Missing missing), w)))"

section \<open>Withdrawal\<close>

definition withdraw :: "address \<Rightarrow> address \<Rightarrow> ('t, 'k, 'y) swld \<Rightarrow> ('t, 'k, 'y) swld" where
  "withdraw core marker w =
     (let st = registry_of core w
      in case find (\<lambda>(p, e). pe_marker e = marker) (providers st) of
           None \<Rightarrow> w
         | Some (p, e) \<Rightarrow>
             drop_strong (pe_value e)
               (revoke_flag (pg_flag (pe_gate e))
                 (set_registry core (Some (st\<lparr>providers := bt_remove p (providers st)\<rparr>)) w)))"

definition revoke_entry :: "'t provider_entry \<Rightarrow> ('t, 'k, 'y) swld \<Rightarrow> ('t, 'k, 'y) swld" where
  "revoke_entry e w = revoke_flag (pg_flag (pe_gate e)) w"

text \<open>\<open>Drop for ServiceRegistry\<close>: every provider is revoked and released, and the core is gone.\<close>

definition drop_registry :: "address \<Rightarrow> ('t, 'k, 'y) swld \<Rightarrow> ('t, 'k, 'y) swld" where
  "drop_registry core w =
     (let entries = map snd (providers (registry_of core w));
          w = fold revoke_entry entries w;
          w = fold (\<lambda>e. drop_strong (pe_value e)) entries w
      in set_registry core None w)"

text \<open>
  A deferred cleanup is the withdrawal closure of a provider (its core, held weakly, its marker and its
  own share of the value) or a closure of the user.
\<close>

datatype 'u cleanup = Withdraw_Provider address address address | User_Cleanup 'u

definition run_withdrawal :: "address \<Rightarrow> address \<Rightarrow> address \<Rightarrow> ('t, 'k, 'y) swld \<Rightarrow> ('t, 'k, 'y) swld" where
  "run_withdrawal core marker val w =
     drop_strong val (if registries (outside w) core \<noteq> None then withdraw core marker w else w)"

definition service_callbacks ::
  "('u, 'f, 'k, ('t, 'y) service_heap) callback_api \<Rightarrow> ('u cleanup, 'f, 'k, ('t, 'y) service_heap) callback_api" where
  "service_callbacks ub =
     \<lparr>call_sync = (\<lambda>c w. case c of
          Withdraw_Provider core marker val \<Rightarrow> (Inr (Inr ()), run_withdrawal core marker val w)
        | User_Cleanup u \<Rightarrow> call_sync ub u w),
      call_async = (\<lambda>c w. case c of
          Withdraw_Provider core marker val \<Rightarrow> (Inl (Payload None None), w)
        | User_Cleanup u \<Rightarrow> call_async ub u w),
      poll_future = poll_future ub,
      drop_future = drop_future ub\<rparr>"

section \<open>Publication\<close>

text \<open>\<open>ServiceProvider<T>\<close>: the service, the contract of \<open>T\<close>, and the shared value it owns one share of.\<close>

record service_provider =
  sp_service :: service_id
  sp_contract :: contract_type
  sp_value :: address

text \<open>\<open>publish\<close> asserts that the identity is new.\<close>

definition publish ::
  "address \<Rightarrow> service_id \<Rightarrow> contract_type \<Rightarrow> 't provider_entry \<Rightarrow> ('t, 'k, 'y) swld \<Rightarrow>
     ('e, unit) attempt \<times> ('t, 'k, 'y) swld" where
  "publish core s c e w =
     (let st = or_insert_contract s c (registry_of core w);
          p = candidate_id (pe_candidate e);
          fresh = \<not> bt_contains (providers st) p;
          st = st\<lparr>providers := bt_insert p e (providers st)\<rparr>
      in (if fresh then Accepted () else Panic ''effect registration identities are process-unique'',
          set_registry core (Some st) w))"

definition provide ::
  "address \<Rightarrow> component_instance \<Rightarrow> service_provider \<Rightarrow> ('u cleanup, 'f, 't) effect_scope \<Rightarrow>
     ('t, 'k, 'y) swld \<Rightarrow> (service_registry_error, provider_candidate) attempt
       \<times> ('u cleanup, 'f, 't) effect_scope \<times> ('t, 'k, 'y) swld" where
  "provide core owner provider effects w =
     (case inst_state owner of
        State_Active activation \<Rightarrow>
          if es_activation effects \<noteq> activation
          then (Rejected (ActivationMismatch (instance_id owner) activation (es_activation effects)),
                effects, drop_strong (sp_value provider) w)
          else
            (case check_contract (registry_of core w) (sp_service provider) (sp_contract provider) of
               Inl e \<Rightarrow> (Rejected e, effects, drop_strong (sp_value provider) w)
             | Inr _ \<Rightarrow>
                 (let marker = next_address w; flag = next_address w + 1;
                      w = on_services (revoked_flags_update (\<lambda>m. m(flag := False)))
                            (w\<lparr>next_address := next_address w + 2\<rparr>);
                      label = ''withdraw service '' @ service_id_text (sp_service provider) @ '' from ''
                                @ instance_id_text (instance_id owner)
                  in case defer_sync label (Withdraw_Provider core marker (sp_value provider)) effects of
                       (Inl e, effects) \<Rightarrow>
                         (Rejected (Registry_EffectScope e), effects, drop_strong (sp_value provider) w)
                     | (Inr r, effects) \<Rightarrow>
                         (let candidate =
                            \<lparr>candidate_id = ProviderRegistrationId r, candidate_service = sp_service provider,
                             candidate_owner = instance_id owner,
                             candidate_owner_scope = instance_scope_id owner,
                             candidate_contract_name = contract_type_name (sp_contract provider)\<rparr>;
                            entry = \<lparr>pe_candidate = candidate, pe_contract = sp_contract provider,
                             pe_marker = marker, pe_gate = ProviderGate flag (es_cancellation effects),
                             pe_activity = es_activity effects, pe_owner_scope = instance_scope owner,
                             pe_value_type = contract_type_id (sp_contract provider),
                             pe_value = sp_value provider\<rparr>;
                            w = take_strong (sp_value provider) w
                          in case publish core (sp_service provider) (sp_contract provider) entry w of
                               (Accepted _, w) \<Rightarrow> (Accepted candidate, effects, w)
                             | (Rejected e, w) \<Rightarrow> (Rejected e, effects, w)
                             | (Panic m, w) \<Rightarrow> (Panic m, effects, w))))
      | state \<Rightarrow> (Rejected (ProviderOwnerNotActive (instance_id owner) (state_kind state)),
                   effects, drop_strong (sp_value provider) w))"

section \<open>Binding\<close>

record 't service_handle =
  sh_value :: address
  sh_gate :: "'t provider_gate"
  sh_provider_activity :: gate_node
  sh_candidate :: provider_candidate
  sh_consumer :: component_instance_id
  sh_consumer_scope :: scope_id
  sh_consumer_activation :: activation_epoch
  sh_consumer_cancellation :: 't
  sh_consumer_activity :: gate_node

definition binding ::
  "('t, 'k) cancellation_api \<Rightarrow> address \<Rightarrow> required_service \<Rightarrow> provider_registration_id \<Rightarrow> scope \<Rightarrow>
     ('t, 'k, 'y) swld \<Rightarrow> (service_registry_error + 't provider_entry) \<times> ('t, 'k, 'y) swld" where
  "binding tk core requirement p consumer w =
     (let st = registry_of core w in
      case bt_get (providers st) p of
        None \<Rightarrow> (Inl (UnknownProvider p), w)
      | Some entry \<Rightarrow>
          if \<not> is_visible_from (pe_owner_scope entry) consumer then (Inl (ProviderUnavailable p), w)
          else
            (case ensure_contract (required_service_id requirement) (required_contract requirement) st of
               (Inl e, st) \<Rightarrow> (Inl e, set_registry core (Some st) w)
             | (Inr _, st) \<Rightarrow>
                 (let w = set_registry core (Some st) w in
                  if candidate_service (pe_candidate entry) \<noteq> required_service_id requirement
                  then (Inl (ProviderDoesNotSatisfy p (required_service_id requirement)
                               (candidate_service (pe_candidate entry))), w)
                  else if \<not> gate_available tk (pe_gate entry) w \<or> \<not> is_open (pe_activity entry) (gates w)
                  then (Inl (ProviderUnavailable p), w)
                  else if pe_value_type entry \<noteq> contract_type_id (required_contract requirement)
                  then (Inl (ProviderValueTypeMismatch p (contract_type_name (required_contract requirement))
                               (contract_type_name (pe_contract entry))), w)
                  else (Inr entry, w))))"

definition bind_service ::
  "('t, 'k) cancellation_api \<Rightarrow> address \<Rightarrow> component_instance \<Rightarrow> ('c, 'f, 't) effect_scope \<Rightarrow>
     required_service \<Rightarrow> provider_registration_id \<Rightarrow> ('t, 'k, 'y) swld \<Rightarrow>
     (service_registry_error + 't service_handle) \<times> ('t, 'k, 'y) swld" where
  "bind_service tk core consumer effects requirement p w =
     (case inst_state consumer of
        Starting activation \<Rightarrow>
          if es_activation effects \<noteq> activation
          then (Inl (ActivationMismatch (instance_id consumer) activation (es_activation effects)), w)
          else if es_state effects \<noteq> Scope_Is_Open
          then (Inl (ConsumerScopeNotOpen (es_id effects) (es_state effects)), w)
          else
            (case binding tk core requirement p (instance_scope consumer) w of
               (Inl e, w) \<Rightarrow> (Inl e, w)
             | (Inr entry, w) \<Rightarrow>
                 if \<not> (gate_available tk (pe_gate entry) w \<and> is_open (pe_activity entry) (gates w))
                 then (Inl (ProviderUnavailable p), w)
                 else
                   (Inr \<lparr>sh_value = pe_value entry, sh_gate = pe_gate entry,
                         sh_provider_activity = pe_activity entry, sh_candidate = pe_candidate entry,
                         sh_consumer = instance_id consumer,
                         sh_consumer_scope = instance_scope_id consumer,
                         sh_consumer_activation = activation,
                         sh_consumer_cancellation = es_cancellation effects,
                         sh_consumer_activity = es_activity effects\<rparr>, w))
      | state \<Rightarrow> (Inl (ConsumerNotStarting (instance_id consumer) (state_kind state)), w))"

section \<open>Calls\<close>

datatype service_handle_error =
    Handle_Revoked provider_registration_id activation_epoch
  | Handle_AdmissionExhausted provider_registration_id

definition handle_revoked :: "'t service_handle \<Rightarrow> service_handle_error" where
  "handle_revoked h = Handle_Revoked (candidate_id (sh_candidate h)) (sh_consumer_activation h)"

fun handle_admission_error :: "'t service_handle \<Rightarrow> admission_error \<Rightarrow> service_handle_error" where
  "handle_admission_error h Adm_Revoked = handle_revoked h"
| "handle_admission_error h Adm_Exhausted = Handle_AdmissionExhausted (candidate_id (sh_candidate h))"

definition handle_live ::
  "('t, 'k) cancellation_api \<Rightarrow> 't service_handle \<Rightarrow> ('t, 'k, 'y) swld \<Rightarrow> bool" where
  "handle_live tk h w \<longleftrightarrow>
     \<not> token_cancelled tk (sh_consumer_cancellation h) (tokens w) \<and> gate_available tk (sh_gate h) w
     \<and> is_open (sh_provider_activity h) (gates w) \<and> is_open (sh_consumer_activity h) (gates w)"

definition drop_guards :: "address list \<Rightarrow> ('t, 'k, 'y) swld \<Rightarrow> ('t, 'k, 'y) swld" where
  "drop_guards guards w = w\<lparr>gates := fold drop_guard guards (gates w)\<rparr>"

definition handle_try_with ::
  "('t, 'k) cancellation_api \<Rightarrow> 't service_handle \<Rightarrow> (('t, 'k, 'y) swld \<Rightarrow> 'r \<times> ('t, 'k, 'y) swld) \<Rightarrow>
     ('t, 'k, 'y) swld \<Rightarrow> (service_handle_error + 'r) \<times> ('t, 'k, 'y) swld" where
  "handle_try_with tk h operation w =
     (if \<not> handle_live tk h w then (Inl (handle_revoked h), w)
      else
        case admit (sh_provider_activity h) (gates w) of
          (Inl e, gs) \<Rightarrow> (Inl (handle_admission_error h e), w\<lparr>gates := gs\<rparr>)
        | (Inr provider_guards, gs) \<Rightarrow>
            (let w = w\<lparr>gates := gs\<rparr> in
             case admit (sh_consumer_activity h) (gates w) of
               (Inl e, gs) \<Rightarrow>
                 (Inl (handle_admission_error h e), drop_guards provider_guards (w\<lparr>gates := gs\<rparr>))
             | (Inr consumer_guards, gs) \<Rightarrow>
                 (let w = w\<lparr>gates := gs\<rparr> in
                  if strong_counts (outside w) (sh_value h) = 0
                  then (Inl (handle_revoked h), drop_guards provider_guards (drop_guards consumer_guards w))
                  else
                    let w = take_strong (sh_value h) w;
                        release = (\<lambda>w. drop_guards provider_guards
                                     (drop_guards consumer_guards (drop_strong (sh_value h) w)))
                    in if \<not> handle_live tk h w then (Inl (handle_revoked h), release w)
                       else (let (r, w) = operation w in (Inr r, release w)))))"

end
