(* ===== verification/Compose_Registry.thy ===== *)
theory Compose_Registry
  imports Compose_Service
begin

text \<open>
  What the service registry guarantees: its invariant, that publication never meets a used identity,
  that a contract once fixed for a service stays, that binding and discovery agree, that sealing an
  activation hides its providers and revokes their handles, and that a call leaves no trace in the gates.
\<close>

section \<open>The heap of services\<close>

lemma registry_of_set_registry [simp]: "registry_of core (set_registry core (Some st) w) = st"
  by (simp add: registry_of_def set_registry_def)

lemma services_other [simp]:
  "gates (set_registry core r w) = gates w" "tokens (set_registry core r w) = tokens w"
  "next_scope_incarnation (set_registry core r w) = next_scope_incarnation w"
  "revoked_flags (outside (set_registry core r w)) = revoked_flags (outside w)"
  "strong_counts (outside (set_registry core r w)) = strong_counts (outside w)"
  "gates (revoke_flag a w) = gates w" "tokens (revoke_flag a w) = tokens w"
  "next_scope_incarnation (revoke_flag a w) = next_scope_incarnation w"
  "registries (outside (revoke_flag a w)) = registries (outside w)"
  "strong_counts (outside (revoke_flag a w)) = strong_counts (outside w)"
  "gates (take_strong a w) = gates w" "tokens (take_strong a w) = tokens w"
  "next_scope_incarnation (take_strong a w) = next_scope_incarnation w"
  "registries (outside (take_strong a w)) = registries (outside w)"
  "revoked_flags (outside (take_strong a w)) = revoked_flags (outside w)"
  "gates (drop_strong a w) = gates w" "tokens (drop_strong a w) = tokens w"
  "next_scope_incarnation (drop_strong a w) = next_scope_incarnation w"
  "registries (outside (drop_strong a w)) = registries (outside w)"
  "revoked_flags (outside (drop_strong a w)) = revoked_flags (outside w)"
  by (simp_all add: set_registry_def revoke_flag_def take_strong_def drop_strong_def)

lemma services_address [simp]:
  "next_address (set_registry core r w) = next_address w" "next_address (revoke_flag a w) = next_address w"
  "next_address (take_strong a w) = next_address w" "next_address (drop_strong a w) = next_address w"
  by (simp_all add: set_registry_def revoke_flag_def take_strong_def drop_strong_def)

lemma registry_of_other [simp]:
  "registry_of core (revoke_flag a w) = registry_of core w"
  "registry_of core (take_strong a w) = registry_of core w"
  "registry_of core (drop_strong a w) = registry_of core w"
  by (simp_all add: registry_of_def)

lemma entry_live_set_registry [simp]: "entry_live tk (set_registry core r w) e = entry_live tk w e"
  by (simp add: entry_live_def gate_available_def)

section \<open>The invariant\<close>

text \<open>
  Providers are ordered by identity and filed under their own; the contract of a published service is
  on record, and it is the contract the provider was published with and its value has.
\<close>

definition entry_ok :: "'t registry_state \<Rightarrow> provider_registration_id \<Rightarrow> 't provider_entry \<Rightarrow> bool" where
  "entry_ok st p e \<longleftrightarrow>
     candidate_id (pe_candidate e) = p \<and> pe_value_type e = contract_type_id (pe_contract e) \<and>
     map_option contract_type_id (contracts st (candidate_service (pe_candidate e))) =
       Some (contract_type_id (pe_contract e))"

definition registry_ok :: "'t registry_state \<Rightarrow> bool" where
  "registry_ok st \<longleftrightarrow> bt_wf (providers st) \<and> (\<forall>(p, e) \<in> set (providers st). entry_ok st p e)"

lemma empty_registry_ok [simp]: "registry_ok \<lparr>contracts = Map.empty, providers = []\<rparr>"
  by (simp add: registry_ok_def)

text \<open>A registry that only learnt contracts.\<close>

definition learns :: "'t registry_state \<Rightarrow> 't registry_state \<Rightarrow> bool" where
  "learns st st' \<longleftrightarrow> providers st' = providers st \<and> contracts st \<subseteq>\<^sub>m contracts st'"

lemma learns_refl [simp]: "learns st st"
  by (simp add: learns_def)

lemma learns_trans: "learns st st' \<Longrightarrow> learns st' st'' \<Longrightarrow> learns st st''"
  by (auto simp: learns_def intro: map_le_trans)

lemma or_insert_learns: "learns st (or_insert_contract s c st)"
  by (auto simp: learns_def or_insert_contract_def map_le_def split: option.splits)

lemma ensure_contract_learns: "ensure_contract s c st = (r, st') \<Longrightarrow> learns st st'"
  by (auto simp: ensure_contract_def or_insert_learns split: sum.splits)

lemma ensure_contracts_learns: "ensure_contracts rs st = (r, st') \<Longrightarrow> learns st st'"
proof (induction rs arbitrary: st)
  case (Cons q rs)
  obtain x st1 where e: "ensure_contract (required_service_id q) (required_contract q) st = (x, st1)"
    by fastforce
  have "learns st st1" using ensure_contract_learns [OF e] .
  moreover have "learns st1 st'"
    using Cons e by (cases x) auto
  ultimately show ?case by (rule learns_trans)
qed auto

lemma ensure_contract_ok:
  assumes "ensure_contract s c st = (Inr u, st')"
  shows "map_option contract_type_id (contracts st' s) = Some (contract_type_id c)"
  using assms
  by (auto simp: ensure_contract_def check_contract_def or_insert_contract_def
      split: sum.splits option.splits if_splits)

lemma learns_entry_ok:
  assumes "learns st st'" and "entry_ok st p e"
  shows "entry_ok st' p e"
  using assms unfolding learns_def entry_ok_def map_le_def by (auto simp: dom_def)

lemma learns_ok:
  assumes "learns st st'" and "registry_ok st"
  shows "registry_ok st'"
proof -
  have "providers st' = providers st" using assms(1) by (simp add: learns_def)
  with assms(2) learns_entry_ok [OF assms(1)] show ?thesis unfolding registry_ok_def by auto
qed

section \<open>Every operation keeps it\<close>

lemma candidates_learns:
  "registry_candidates tk core q c w = (r, w') \<Longrightarrow> learns (registry_of core w) (registry_of core w')"
  by (auto simp: registry_candidates_def dest: ensure_contract_learns split: prod.splits sum.splits)

lemma inventory_learns:
  "registry_inventory tk core qs c w = (r, w') \<Longrightarrow> learns (registry_of core w) (registry_of core w')"
  by (auto simp: registry_inventory_def dest: ensure_contracts_learns split: prod.splits sum.splits)

lemma status_learns:
  "registry_requirement_status tk core d c w = (r, w') \<Longrightarrow> learns (registry_of core w) (registry_of core w')"
  by (auto simp: registry_requirement_status_def Let_def dest: inventory_learns
      split: prod.splits sum.splits)

lemma binding_learns:
  "binding tk core q p c w = (r, w') \<Longrightarrow> learns (registry_of core w) (registry_of core w')"
  by (auto simp: binding_def Let_def dest: ensure_contract_learns
      split: prod.splits sum.splits option.splits if_splits)

lemma bind_learns:
  "bind_service tk core i sc q p w = (r, w') \<Longrightarrow> learns (registry_of core w) (registry_of core w')"
  by (auto simp: bind_service_def dest: binding_learns
      split: component_state.splits prod.splits sum.splits if_splits)

lemmas discovery_learns =
  candidates_learns [OF prod.collapse [symmetric]] inventory_learns [OF prod.collapse [symmetric]]
  status_learns [OF prod.collapse [symmetric]] bind_learns [OF prod.collapse [symmetric]]

lemma withdraw_providers:
  "providers (registry_of core (withdraw core marker w)) =
     (case find (\<lambda>(p, e). pe_marker e = marker) (providers (registry_of core w)) of
        None \<Rightarrow> providers (registry_of core w)
      | Some (p, e) \<Rightarrow> bt_remove p (providers (registry_of core w)))"
  "contracts (registry_of core (withdraw core marker w)) = contracts (registry_of core w)"
  by (auto simp: withdraw_def Let_def split: option.splits)

lemma fewer_providers_ok:
  assumes "registry_ok st" and "contracts st' = contracts st"
    and "providers st' = providers st \<or> (\<exists>p. providers st' = bt_remove p (providers st))"
  shows "registry_ok st'"
  using assms bt_wf_remove
  by (auto simp: registry_ok_def entry_ok_def bt_remove_def)

lemma withdraw_ok: "registry_ok (registry_of core w) \<Longrightarrow> registry_ok (registry_of core (withdraw core marker w))"
  by (erule fewer_providers_ok) (auto simp: withdraw_providers split: option.splits)

lemma publish_ok:
  assumes "registry_ok (registry_of core w)" and "check_contract (registry_of core w) s c = Inr ()"
    and "candidate_service (pe_candidate e) = s" and "pe_contract e = c"
    and "pe_value_type e = contract_type_id c"
  shows "registry_ok (registry_of core (snd (publish core s c e w)))"
proof -
  let ?st = "or_insert_contract s c (registry_of core w)"
  let ?p = "candidate_id (pe_candidate e)"
  have st: "registry_of core (snd (publish core s c e w)) = ?st\<lparr>providers := bt_insert ?p e (providers ?st)\<rparr>"
    by (simp add: publish_def Let_def)
  have ok: "registry_ok ?st" using learns_ok [OF or_insert_learns assms(1)] .
  have "map_option contract_type_id (contracts ?st s) = Some (contract_type_id c)"
    using assms(2) by (intro ensure_contract_ok [where st = "registry_of core w" and u = "()"]) (simp add: ensure_contract_def)
  with assms(3,4,5) have "entry_ok ?st ?p e" by (simp add: entry_ok_def)
  with ok show ?thesis
    unfolding st registry_ok_def by (auto simp: bt_wf_insert entry_ok_def dest!: bt_insert_set [THEN subsetD])
qed

section \<open>A process that publishes, discovers, binds and withdraws\<close>

record ('u, 'f, 't, 'k, 'y) service_system =
  sys_world :: "('t, 'k, 'y) swld"
  sys_scopes :: "('u cleanup, 'f, 't) effect_scope list"

text \<open>
  The operations on one registry and on the root effect scopes of a process. A withdrawal may run for
  any marker at any moment, so that every order in which teardowns run their closures is covered.
\<close>

datatype service_op =
    SO_scope string activation_epoch
  | SO_seal nat
  | SO_provide nat component_instance service_provider
  | SO_candidates required_service scope
  | SO_inventory "required_service list" scope
  | SO_status component_definition scope
  | SO_bind nat component_instance required_service provider_registration_id
  | SO_withdraw address address

fun service_step ::
  "('t, 'k) cancellation_api \<Rightarrow> address \<Rightarrow> service_op \<Rightarrow> ('u, 'f, 't, 'k, 'y) service_system \<Rightarrow>
     ('u, 'f, 't, 'k, 'y) service_system" where
  "service_step tk core (SO_scope label activation) s =
     (case new_scope tk label activation (sys_world s) of
        (Inl e, w) \<Rightarrow> s\<lparr>sys_world := w\<rparr>
      | (Inr sc, w) \<Rightarrow> \<lparr>sys_world = w, sys_scopes = sys_scopes s @ [sc]\<rparr>)"
| "service_step tk core (SO_seal i) s =
     (if i < length (sys_scopes s)
      then let (sc, w) = begin_close tk (sys_scopes s ! i) (sys_world s)
           in \<lparr>sys_world = w, sys_scopes = (sys_scopes s)[i := sc]\<rparr>
      else s)"
| "service_step tk core (SO_provide i owner provider) s =
     (if i < length (sys_scopes s)
      then let (r, sc, w) = provide core owner provider (sys_scopes s ! i) (sys_world s)
           in \<lparr>sys_world = w, sys_scopes = (sys_scopes s)[i := sc]\<rparr>
      else s)"
| "service_step tk core (SO_candidates q c) s =
     s\<lparr>sys_world := snd (registry_candidates tk core q c (sys_world s))\<rparr>"
| "service_step tk core (SO_inventory qs c) s =
     s\<lparr>sys_world := snd (registry_inventory tk core qs c (sys_world s))\<rparr>"
| "service_step tk core (SO_status d c) s =
     s\<lparr>sys_world := snd (registry_requirement_status tk core d c (sys_world s))\<rparr>"
| "service_step tk core (SO_bind i consumer q p) s =
     (if i < length (sys_scopes s)
      then s\<lparr>sys_world := snd (bind_service tk core consumer (sys_scopes s ! i) q p (sys_world s))\<rparr>
      else s)"
| "service_step tk core (SO_withdraw marker val) s =
     s\<lparr>sys_world := run_withdrawal core marker val (sys_world s)\<rparr>"

text \<open>
  Scopes have identities of their own, below the process counter; so have the scopes that published,
  and a scope's next registration is above everything it published.
\<close>

definition published_below :: "('u cleanup, 'f, 't) effect_scope \<Rightarrow> 't registry_state \<Rightarrow> bool" where
  "published_below sc st \<longleftrightarrow>
     (\<forall>p \<in> bt_dom (providers st). provider_effect_scope p = es_id sc \<longrightarrow>
        registration_sequence (cleanup_registration_id p) < es_next_registration sc)"

definition incarnations_below :: "u64 \<Rightarrow> ('u cleanup, 'f, 't) effect_scope list \<Rightarrow> 't registry_state \<Rightarrow> bool"
  where
  "incarnations_below n scs st \<longleftrightarrow>
     (\<forall>sc \<in> set scs. scope_incarnation (es_id sc) < n) \<and>
     (\<forall>p \<in> bt_dom (providers st). scope_incarnation (provider_effect_scope p) < n)"

definition services_ok :: "address \<Rightarrow> ('u, 'f, 't, 'k, 'y) service_system \<Rightarrow> bool" where
  "services_ok core s \<longleftrightarrow>
     registry_ok (registry_of core (sys_world s)) \<and> distinct (map es_id (sys_scopes s)) \<and>
     incarnations_below (next_scope_incarnation (sys_world s)) (sys_scopes s) (registry_of core (sys_world s)) \<and>
     (\<forall>sc \<in> set (sys_scopes s). published_below sc (registry_of core (sys_world s)))"

lemma with_next_registration_sel [simp]:
  "es_id (with_next_registration n sc) = es_id sc"
  "es_activity (with_next_registration n sc) = es_activity sc"
  "es_cancellation (with_next_registration n sc) = es_cancellation sc"
  "es_next_registration (with_next_registration n sc) = n"
  by (cases sc; simp)+

lemma push_entry_sel [simp]:
  "es_id (push_entry e sc) = es_id sc" "es_activity (push_entry e sc) = es_activity sc"
  "es_cancellation (push_entry e sc) = es_cancellation sc"
  "es_next_registration (push_entry e sc) = es_next_registration sc"
  by (cases sc; simp add: push_entry_def split: scope_storage.splits)+

lemma defer_sync_cases:
  assumes "defer_sync label c sc = (r, sc')"
  shows "es_id sc' = es_id sc \<and>
    (case r of
       Inl e \<Rightarrow> sc' = sc
     | Inr i \<Rightarrow> i = EffectRegistrationId (es_id sc) (es_next_registration sc) \<and>
         es_next_registration sc' = Suc (es_next_registration sc))"
  using assms
  by (auto simp: defer_sync_def allocate_registration_def require_open_def Let_def u64_checked_succ_def
      split: if_splits sum.splits)

text \<open>What a publication does to the registry and to its scope.\<close>

definition provided_entry ::
  "component_instance \<Rightarrow> service_provider \<Rightarrow> ('u cleanup, 'f, 't) effect_scope \<Rightarrow> address \<Rightarrow> 't provider_entry" where
  "provided_entry owner provider sc marker =
     \<lparr>pe_candidate =
        \<lparr>candidate_id = ProviderRegistrationId (EffectRegistrationId (es_id sc) (es_next_registration sc)),
         candidate_service = sp_service provider, candidate_owner = instance_id owner,
         candidate_owner_scope = instance_scope_id owner,
         candidate_contract_name = contract_type_name (sp_contract provider)\<rparr>,
      pe_contract = sp_contract provider, pe_marker = marker,
      pe_gate = ProviderGate (marker + 1) (es_cancellation sc), pe_activity = es_activity sc,
      pe_owner_scope = instance_scope owner,
      pe_value_type = contract_type_id (sp_contract provider), pe_value = sp_value provider\<rparr>"

lemma defer_sync_sel:
  assumes "defer_sync label c sc = (r, sc')"
  shows "es_activity sc' = es_activity sc" and "es_cancellation sc' = es_cancellation sc"
  using assms
  by (auto simp: defer_sync_def allocate_registration_def Let_def split: sum.splits option.splits)

lemma provide_cases:
  assumes "provide core owner provider sc w = (r, sc', w')"
  obtains
    (rejected) e where "r = Rejected e" "sc' = sc" "registry_of core w' = registry_of core w"
      "next_scope_incarnation w' = next_scope_incarnation w"
  | (published) w1 where
      "check_contract (registry_of core w1) (sp_service provider) (sp_contract provider) = Inr ()"
      "registry_of core w1 = registry_of core w" "next_scope_incarnation w1 = next_scope_incarnation w"
      "es_id sc' = es_id sc" "es_next_registration sc' = Suc (es_next_registration sc)"
      "w' = snd (publish core (sp_service provider) (sp_contract provider)
              (provided_entry owner provider sc (next_address w)) w1
              :: (service_registry_error, unit) attempt \<times> _)"
      "r = (if bt_contains (providers (registry_of core w))
                 (ProviderRegistrationId (EffectRegistrationId (es_id sc) (es_next_registration sc)))
            then Panic ''effect registration identities are process-unique''
            else Accepted (pe_candidate (provided_entry owner provider sc (next_address w))))"
proof -
  consider (early) e where "r = Rejected e" "sc' = sc" "w' = drop_strong (sp_value provider) w"
    | (live) activation where "inst_state owner = State_Active activation" "es_activation sc = activation"
        "check_contract (registry_of core w) (sp_service provider) (sp_contract provider) = Inr ()"
    using assms by (auto simp: provide_def split: component_state.splits if_splits sum.splits)
  then show ?thesis
  proof cases
    case early
    then show ?thesis by (intro rejected) auto
  next
    case live
    define w0 where "w0 = on_services (revoked_flags_update (\<lambda>m. m(next_address w + 1 := False)))
      (w\<lparr>next_address := next_address w + 2\<rparr>)"
    have w0: "registry_of core w0 = registry_of core w" "next_scope_incarnation w0 = next_scope_incarnation w"
      by (simp_all add: w0_def registry_of_def)
    obtain x sc1 where d: "defer_sync (''withdraw service '' @ service_id_text (sp_service provider) @ '' from ''
        @ instance_id_text (instance_id owner))
        (Withdraw_Provider core (next_address w) (sp_value provider)) sc = (x, sc1)" by fastforce
    note dc = defer_sync_cases [OF d]
    show ?thesis
    proof (cases x)
      case (Inl e)
      with assms live d dc show ?thesis
        by (intro rejected [of "Registry_EffectScope e"]) (auto simp: provide_def Let_def registry_of_def)
    next
      case (Inr i)
      let ?e = "provided_entry owner provider sc (next_address w)"
      let ?w = "take_strong (sp_value provider) w0"
      have i: "i = EffectRegistrationId (es_id sc) (es_next_registration sc)" using dc Inr by simp
      have eq: "(case publish core (sp_service provider) (sp_contract provider) ?e ?w of
           (Accepted _, w) \<Rightarrow> (Accepted (pe_candidate ?e), sc1, w)
         | (Rejected e, w) \<Rightarrow> (Rejected e, sc1, w)
         | (Panic m, w) \<Rightarrow> (Panic m, sc1, w)) = (r, sc', w')"
        using assms live d Inr i defer_sync_sel [OF d]
        by (simp add: provide_def Let_def w0_def provided_entry_def cong: prod.case_cong attempt.case_cong)
      have same: "providers (or_insert_contract (sp_service provider) (sp_contract provider) (registry_of core ?w))
          = providers (registry_of core w)"
        using or_insert_learns [of "registry_of core ?w"] w0 by (simp add: learns_def)
      show ?thesis
        using eq live(3) w0 dc Inr same
        by (intro published [of ?w])
          (auto simp: publish_def Let_def provided_entry_def split: if_splits)
    qed
  qed
qed

lemma discovery_incarnation [simp]:
  "next_scope_incarnation (snd (registry_candidates tk core q c w)) = next_scope_incarnation w"
  "next_scope_incarnation (snd (registry_inventory tk core qs c w)) = next_scope_incarnation w"
  "next_scope_incarnation (snd (registry_requirement_status tk core d c w)) = next_scope_incarnation w"
  "next_scope_incarnation (snd (binding tk core q p c w)) = next_scope_incarnation w"
  "next_scope_incarnation (snd (bind_service tk core i sc q p w)) = next_scope_incarnation w"
  "next_scope_incarnation (withdraw core marker w) = next_scope_incarnation w"
  "next_scope_incarnation (run_withdrawal core marker val w) = next_scope_incarnation w"
  by (auto simp: registry_candidates_def registry_inventory_def registry_requirement_status_def binding_def
      bind_service_def withdraw_def run_withdrawal_def Let_def
      split: prod.splits sum.splits option.splits component_state.splits)

lemma below_mono:
  assumes "bt_dom (providers st') \<subseteq> bt_dom (providers st)"
  shows "incarnations_below n scs st \<Longrightarrow> incarnations_below n scs st'"
    and "published_below sc st \<Longrightarrow> published_below sc st'"
  using assms unfolding incarnations_below_def published_below_def by blast+

lemma services_ok_providers:
  assumes "services_ok core s" and "registry_ok (registry_of core w)"
    and "bt_dom (providers (registry_of core w)) \<subseteq> bt_dom (providers (registry_of core (sys_world s)))"
    and "next_scope_incarnation w = next_scope_incarnation (sys_world s)"
  shows "services_ok core (s\<lparr>sys_world := w\<rparr>)"
  using assms by (auto simp: services_ok_def intro: below_mono [OF assms(3)])

lemma services_ok_learns:
  assumes "services_ok core s" and "learns (registry_of core (sys_world s)) (registry_of core w)"
    and "next_scope_incarnation w = next_scope_incarnation (sys_world s)"
  shows "services_ok core (s\<lparr>sys_world := w\<rparr>)"
  using assms(1,3) learns_ok [OF assms(2)] assms(2)
  by (intro services_ok_providers) (auto simp: services_ok_def learns_def)

lemma services_ok_scope:
  assumes "services_ok core s" and "i < length (sys_scopes s)" and "es_id sc = es_id (sys_scopes s ! i)"
    and "registry_ok (registry_of core w)"
    and "next_scope_incarnation w = next_scope_incarnation (sys_world s)"
    and "\<And>p. p \<in> bt_dom (providers (registry_of core w)) \<Longrightarrow>
       p \<in> bt_dom (providers (registry_of core (sys_world s))) \<or> provider_effect_scope p = es_id sc"
    and "published_below sc (registry_of core w)"
  shows "services_ok core \<lparr>sys_world = w, sys_scopes = (sys_scopes s)[i := sc]\<rparr>"
proof -
  let ?scs = "(sys_scopes s)[i := sc]"
  have ids: "map es_id ?scs = map es_id (sys_scopes s)"
    using assms(2,3) by (metis list_update_id map_update nth_map)
  have mem: "x \<in> set ?scs \<Longrightarrow> x = sc \<or> x \<in> set (sys_scopes s) \<and> es_id x \<noteq> es_id sc" for x
  proof -
    assume "x \<in> set ?scs"
    then obtain j where j: "j < length (sys_scopes s)" "x = ?scs ! j" by (auto simp: in_set_conv_nth)
    show ?thesis
    proof (cases "j = i")
      case False
      have "distinct (map es_id (sys_scopes s))" using assms(1) by (simp add: services_ok_def)
      with False j assms(2,3) have "es_id (sys_scopes s ! j) \<noteq> es_id (sys_scopes s ! i)"
        by (simp add: distinct_conv_nth)
      with False j assms(3) show ?thesis by simp
    qed (use j in simp)
  qed
  have inc: "scope_incarnation (es_id x) < next_scope_incarnation (sys_world s)" if "x \<in> set (sys_scopes s)" for x
    using assms(1) that by (simp add: services_ok_def incarnations_below_def)
  have sc: "scope_incarnation (es_id sc) < next_scope_incarnation (sys_world s)"
    using inc [of "sys_scopes s ! i"] assms(2,3) by simp
  have "incarnations_below (next_scope_incarnation w) ?scs (registry_of core w)"
    using mem inc sc assms(1,5,6) unfolding services_ok_def incarnations_below_def by metis
  moreover have "published_below x (registry_of core w)" if "x \<in> set ?scs" for x
    using mem [OF that] assms(1,6,7) unfolding services_ok_def published_below_def by metis
  moreover have "distinct (map es_id ?scs)" using ids assms(1) by (simp add: services_ok_def)
  ultimately show ?thesis using assms(4) unfolding services_ok_def by simp
qed

lemma begin_close_world:
  assumes "begin_close tk sc w = (sc', w')"
  shows "es_id sc' = es_id sc" and "es_next_registration sc' = es_next_registration sc"
    and "outside w' = outside w" and "next_scope_incarnation w' = next_scope_incarnation w"
  using assms
  by (cases sc; auto simp: begin_close_def request_stop_of_def split: scope_storage.splits)+

lemma new_scope_world:
  assumes "new_scope tk label a w = (r, w')"
  shows "outside w' = outside w"
    and "r = Inl e \<Longrightarrow> w' = w"
    and "r = Inr sc \<Longrightarrow> scope_incarnation (es_id sc) = next_scope_incarnation w \<and>
          next_scope_incarnation w' = Suc (next_scope_incarnation w)"
  using assms
  by (auto simp: new_scope_def allocate_scope_id_def u64_checked_succ_def
      split: prod.splits if_splits)

lemma provide_services_ok:
  assumes "services_ok core s" and "i < length (sys_scopes s)"
    and "provide core owner provider (sys_scopes s ! i) (sys_world s) = (r, sc, w)"
  shows "services_ok core \<lparr>sys_world = w, sys_scopes = (sys_scopes s)[i := sc]\<rparr>" and "\<not> is_panic r"
proof -
  let ?sc = "sys_scopes s ! i" and ?st = "registry_of core (sys_world s)"
  let ?p = "ProviderRegistrationId (EffectRegistrationId (es_id ?sc) (es_next_registration ?sc))"
  have ok: "registry_ok ?st" and below: "published_below ?sc ?st"
    using assms(1,2) by (simp_all add: services_ok_def)
  have fresh: "?p \<notin> bt_dom (providers ?st)"
    using below unfolding published_below_def provider_effect_scope_def by fastforce
  have "services_ok core \<lparr>sys_world = w, sys_scopes = (sys_scopes s)[i := sc]\<rparr> \<and> \<not> is_panic r"
    using assms(3)
  proof (cases rule: provide_cases)
    case rejected
    with ok below show ?thesis
      using services_ok_scope [OF assms(1,2), of sc w] by simp
  next
    case (published w1)
    let ?e = "provided_entry owner provider ?sc (next_address (sys_world s))"
    have p: "candidate_id (pe_candidate ?e) = ?p" by (simp add: provided_entry_def)
    have dom: "bt_dom (providers (registry_of core w)) = insert ?p (bt_dom (providers ?st))"
      using or_insert_learns [of "registry_of core w1"] published(2,6) p
      by (simp add: publish_def Let_def learns_def)
    have "registry_ok (registry_of core w)"
      using ok published(1,2) unfolding published(6)
      by (intro publish_ok) (simp_all add: provided_entry_def)
    moreover have "published_below sc (registry_of core w)"
      using below published(4,5) dom
      by (auto simp: published_below_def provider_effect_scope_def less_Suc_eq)
    moreover have "next_scope_incarnation w = next_scope_incarnation (sys_world s)"
      using published(3,6) by (simp add: publish_def Let_def)
    moreover have "p \<in> bt_dom (providers ?st) \<or> provider_effect_scope p = es_id sc"
      if "p \<in> bt_dom (providers (registry_of core w))" for p
      using that published(4) by (auto simp: dom provider_effect_scope_def)
    ultimately have "services_ok core \<lparr>sys_world = w, sys_scopes = (sys_scopes s)[i := sc]\<rparr>"
      by (intro services_ok_scope [OF assms(1,2) published(4)])
    with fresh published(7) show ?thesis by (simp add: bt_contains_iff)
  qed
  then show "services_ok core \<lparr>sys_world = w, sys_scopes = (sys_scopes s)[i := sc]\<rparr>" "\<not> is_panic r"
    by simp_all
qed

subsection \<open>Sealed scopes\<close>

text \<open>
  A scope that is not open has a revoked gate, every provider it published carries that gate, and no
  gate in use is above the heap's top.
\<close>

definition seal_ok :: "address \<Rightarrow> ('t, 'k, 'y) swld \<Rightarrow> ('u cleanup, 'f, 't) effect_scope \<Rightarrow> bool" where
  "seal_ok core w sc \<longleftrightarrow>
     gate_address (es_activity sc) < next_address w \<and>
     (es_state sc \<noteq> Scope_Is_Open \<longrightarrow> is_revoked (gate_word (gates w) (gate_address (es_activity sc)))) \<and>
     (\<forall>(p, e) \<in> set (providers (registry_of core w)).
        provider_effect_scope p = es_id sc \<longrightarrow> pe_activity e = es_activity sc)"

definition seals_ok :: "address \<Rightarrow> ('u, 'f, 't, 'k, 'y) service_system \<Rightarrow> bool" where
  "seals_ok core s \<longleftrightarrow> (\<forall>sc \<in> set (sys_scopes s). seal_ok core (sys_world s) sc)"

lemma revoke_revokes: "is_revoked (revoke_word v)"
  by (simp add: is_revoked_bit revoke_word_def REVOKED_def bit_or_iff bit_exp_iff bit_0)

lemma withdraw_frame [simp]:
  "gates (withdraw core marker w) = gates w" "next_address (withdraw core marker w) = next_address w"
  "gates (run_withdrawal core marker val w) = gates w"
  "next_address (run_withdrawal core marker val w) = next_address w"
  by (auto simp: withdraw_def run_withdrawal_def Let_def set_registry_def drop_strong_def revoke_flag_def
      split: option.splits)

lemma discovery_frame [simp]:
  "gates (snd (registry_candidates tk core q c w)) = gates w"
  "gates (snd (registry_inventory tk core qs c w)) = gates w"
  "gates (snd (registry_requirement_status tk core d c w)) = gates w"
  "gates (snd (bind_service tk core i sc q p w)) = gates w"
  "next_address (snd (registry_candidates tk core q c w)) = next_address w"
  "next_address (snd (registry_inventory tk core qs c w)) = next_address w"
  "next_address (snd (registry_requirement_status tk core d c w)) = next_address w"
  "next_address (snd (bind_service tk core i sc q p w)) = next_address w"
  by (auto simp: registry_candidates_def registry_inventory_def registry_requirement_status_def binding_def
      bind_service_def set_registry_def Let_def
      split: prod.splits sum.splits option.splits component_state.splits)

lemma seals_ok_providers:
  assumes "seals_ok core s" and "gates w = gates (sys_world s)" and "next_address w = next_address (sys_world s)"
    and "set (providers (registry_of core w)) \<subseteq> set (providers (registry_of core (sys_world s)))"
  shows "seals_ok core (s\<lparr>sys_world := w\<rparr>)"
  using assms unfolding seals_ok_def seal_ok_def by fastforce

lemma seals_ok_learns:
  assumes "seals_ok core s" and "learns (registry_of core (sys_world s)) (registry_of core w)"
    and "gates w = gates (sys_world s)" and "next_address w = next_address (sys_world s)"
  shows "seals_ok core (s\<lparr>sys_world := w\<rparr>)"
  using assms(2) by (intro seals_ok_providers [OF assms(1,3,4)]) (simp add: learns_def)

lemma withdrawal_subset:
  "set (providers (registry_of core (run_withdrawal core marker val w))) \<subseteq> set (providers (registry_of core w))"
  by (auto simp: run_withdrawal_def withdraw_providers bt_remove_def split: option.splits)

lemma run_withdrawal_ok:
  "registry_ok (registry_of core w) \<Longrightarrow> registry_ok (registry_of core (run_withdrawal core marker val w))"
  by (simp add: run_withdrawal_def withdraw_ok)

lemma run_withdrawal_contracts [simp]:
  "contracts (registry_of core (run_withdrawal core marker val w)) = contracts (registry_of core w)"
  by (simp add: run_withdrawal_def withdraw_providers)

lemma seals_ok_scope:
  assumes "seals_ok core s" and "seal_ok core w sc"
    and "\<And>x. x \<in> set (sys_scopes s) \<Longrightarrow> seal_ok core (sys_world s) x \<Longrightarrow> seal_ok core w x"
  shows "seals_ok core \<lparr>sys_world = w, sys_scopes = (sys_scopes s)[i := sc]\<rparr>"
    and "seals_ok core \<lparr>sys_world = w, sys_scopes = sys_scopes s @ [sc]\<rparr>"
  using assms set_update_subset_insert [of "sys_scopes s" i sc] by (auto simp: seals_ok_def)

lemma request_stop_frame [simp]:
  "outside (request_stop_of tk sc w) = outside w" "next_address (request_stop_of tk sc w) = next_address w"
  "registry_of core (request_stop_of tk sc w) = registry_of core w"
  "is_revoked (gate_word (gates (request_stop_of tk sc w)) a) \<longleftrightarrow>
     a = gate_address (es_activity sc) \<or> is_revoked (gate_word (gates w) a)"
  by (simp_all add: request_stop_of_def registry_of_def gate_revoke_def Let_def revoke_revokes)

lemma begin_close_seal:
  assumes "begin_close tk sc w = (sc', w')" and "seal_ok core w sc"
  shows "seal_ok core w' sc'" and "seal_ok core w x \<Longrightarrow> seal_ok core w' x"
proof -
  consider "sc' = sc" "w' = w"
    | es where "sc' = with_storage (Scope_Closing True es None []) sc" "w' = request_stop_of tk sc w"
    using assms(1) by (auto simp: begin_close_def split: scope_storage.splits)
  then show "seal_ok core w' sc'" "seal_ok core w x \<Longrightarrow> seal_ok core w' x"
    using assms(2) by (cases; simp add: seal_ok_def)+
qed

lemma new_scope_seal:
  assumes "new_scope tk label a w = (Inr sc, w')" and "registry_of core w' = registry_of core w"
    and "\<And>p e. (p, e) \<in> set (providers (registry_of core w)) \<Longrightarrow> provider_effect_scope p \<noteq> es_id sc"
  shows "seal_ok core w' sc" and "seal_ok core w x \<Longrightarrow> seal_ok core w' x"
  using assms
  by (auto simp: new_scope_def seal_ok_def allocate_scope_id_def es_state_def gate_root_def
      split: prod.splits option.splits)

lemma defer_sync_state:
  assumes "defer_sync label c sc = (r, sc')"
  shows "es_state sc' = es_state sc"
  using assms
  by (cases sc) (auto simp: defer_sync_def allocate_registration_def require_open_def push_entry_def es_state_def
      Let_def split: sum.splits option.splits if_splits scope_storage.splits)

lemma provide_frame:
  assumes "provide core owner provider sc w = (r, sc', w')"
  shows "gates w' = gates w" and "next_address w \<le> next_address w'" and "es_state sc' = es_state sc"
    and "es_activity sc' = es_activity sc" and "es_id sc' = es_id sc"
proof -
  have "gates w' = gates w \<and> next_address w \<le> next_address w' \<and> es_state sc' = es_state sc \<and>
      es_activity sc' = es_activity sc \<and> es_id sc' = es_id sc"
  proof (cases "\<exists>a. inst_state owner = State_Active a \<and> es_activation sc = a \<and>
      check_contract (registry_of core w) (sp_service provider) (sp_contract provider) = Inr ()")
    case True
    obtain x sc1 where d: "defer_sync (''withdraw service '' @ service_id_text (sp_service provider) @ '' from ''
        @ instance_id_text (instance_id owner))
        (Withdraw_Provider core (next_address w) (sp_value provider)) sc = (x, sc1)" by fastforce
    note keep = defer_sync_state [OF d] defer_sync_sel [OF d] conjunct1 [OF defer_sync_cases [OF d]]
    from True assms d keep show ?thesis
      by (cases x) (auto simp: provide_def publish_def Let_def split: if_splits)
  next
    case False
    with assms show ?thesis
      by (auto simp: provide_def split: component_state.splits if_splits sum.splits)
  qed
  then show "gates w' = gates w" "next_address w \<le> next_address w'" "es_state sc' = es_state sc"
    "es_activity sc' = es_activity sc" "es_id sc' = es_id sc" by simp_all
qed

lemma provide_seal:
  fixes x sc :: "('u cleanup, 'f, 't) effect_scope"
  assumes "provide core owner provider sc w = (r, sc', w')" and "seal_ok core w sc"
    and "seal_ok core w x" and "es_id x = es_id sc \<Longrightarrow> es_activity x = es_activity sc"
  shows "seal_ok core w' sc' \<and> seal_ok core w' x"
proof -
  note keep = provide_frame [OF assms(1)]
  have "pe_activity e = es_activity y"
    if "(p, e) \<in> set (providers (registry_of core w'))" "provider_effect_scope p = es_id y"
      "y = sc \<or> y = x" for p e y
    using assms(1)
  proof (cases rule: provide_cases)
    case rejected
    with that assms(2,3) show ?thesis by (auto simp: seal_ok_def)
  next
    case (published w1)
    let ?e = "provided_entry owner provider sc (next_address w)"
    have "(p, e) = (candidate_id (pe_candidate ?e), ?e) \<or> (p, e) \<in> set (providers (registry_of core w))"
      using that(1) or_insert_learns [of "registry_of core w1"] published(2)
      unfolding published(6) by (auto simp: publish_def Let_def learns_def dest!: bt_insert_set [THEN subsetD])
    then show ?thesis
    proof
      assume "(p, e) = (candidate_id (pe_candidate ?e), ?e)"
      with that(2,3) assms(4) show ?thesis
        by (auto simp: provided_entry_def provider_effect_scope_def)
    qed (use that assms(2,3) in \<open>auto simp: seal_ok_def\<close>)
  qed
  then show ?thesis
    using assms(2,3) keep unfolding seal_ok_def by (auto simp: less_le_trans)
qed

lemma services_step_ok:
  fixes s :: "('u, 'f, 't, 'k, 'y) service_system"
  assumes "services_ok core s" and "seals_ok core s"
  shows "services_ok core (service_step tk core op s) \<and> seals_ok core (service_step tk core op s)"
proof (cases op)
  case (SO_scope label a)
  obtain r w where n: "new_scope tk label a (sys_world s)
      = (r :: effect_scope_error + ('u cleanup, 'f, 't) effect_scope, w)" by fastforce
  have same: "registry_of core w = registry_of core (sys_world s)"
    using new_scope_world(1) [OF n] by (simp add: registry_of_def)
  show ?thesis
  proof (cases r)
    case (Inl e)
    with SO_scope n new_scope_world(2) [OF n Inl] assms show ?thesis by simp
  next
    case (Inr sc)
    note i = new_scope_world(3) [OF n Inr]
    have other: "es_id sc \<notin> es_id ` set (sys_scopes s)"
      using assms(1) i unfolding services_ok_def incarnations_below_def by fastforce
    have fresh: "provider_effect_scope p \<noteq> es_id sc"
      if "(p, e) \<in> set (providers (registry_of core (sys_world s)))" for p e
      using assms(1) that i unfolding services_ok_def incarnations_below_def by fastforce
    then have "published_below sc (registry_of core (sys_world s))"
      by (auto simp: published_below_def)
    moreover have "incarnations_below (next_scope_incarnation w) (sys_scopes s @ [sc]) (registry_of core (sys_world s))"
      using assms(1) i by (auto simp: services_ok_def incarnations_below_def less_Suc_eq)
    ultimately have "services_ok core (service_step tk core op s)"
      using SO_scope n Inr same assms(1) other by (auto simp: services_ok_def)
    moreover have "seals_ok core \<lparr>sys_world = w, sys_scopes = sys_scopes s @ [sc]\<rparr>"
      by (intro seals_ok_scope(2) [OF assms(2)] new_scope_seal [OF n [unfolded Inr] same]) (auto dest: fresh)
    then have "seals_ok core (service_step tk core op s)" using SO_scope n Inr by simp
    ultimately show ?thesis by simp
  qed
next
  case (SO_seal i)
  show ?thesis
  proof (cases "i < length (sys_scopes s)")
    case True
    obtain sc w where b: "begin_close tk (sys_scopes s ! i) (sys_world s) = (sc, w)" by fastforce
    note keep = begin_close_world [OF b]
    have same: "registry_of core w = registry_of core (sys_world s)"
      using keep(3) by (simp add: registry_of_def)
    have "seal_ok core (sys_world s) (sys_scopes s ! i)" using assms(2) True by (simp add: seals_ok_def)
    note seal = begin_close_seal [OF b this]
    have "published_below sc (registry_of core w)"
      using assms(1) True same keep by (auto simp: services_ok_def published_below_def)
    then have "services_ok core \<lparr>sys_world = w, sys_scopes = (sys_scopes s)[i := sc]\<rparr>"
      using assms(1) same keep by (intro services_ok_scope [OF assms(1) True]) (auto simp: services_ok_def)
    with SO_seal True b seals_ok_scope(1) [OF assms(2) seal] show ?thesis by simp
  qed (use SO_seal assms in simp)
next
  case (SO_provide i owner provider)
  show ?thesis
  proof (cases "i < length (sys_scopes s)")
    case True
    obtain r sc w where p: "provide core owner provider (sys_scopes s ! i) (sys_world s) = (r, sc, w)"
      by (metis prod_cases3)
    have own: "es_activity x = es_activity (sys_scopes s ! i)"
      if "x \<in> set (sys_scopes s)" "es_id x = es_id (sys_scopes s ! i)" for x
    proof -
      have "inj_on es_id (set (sys_scopes s))"
        using assms(1) by (simp add: services_ok_def distinct_map)
      with that True show ?thesis by (metis inj_onD nth_mem)
    qed
    have seal: "seal_ok core (sys_world s) x" if "x \<in> set (sys_scopes s)" for x
      using assms(2) that by (simp add: seals_ok_def)
    have sealed: "seal_ok core w sc \<and> seal_ok core w x" if "x \<in> set (sys_scopes s)" for x
      using provide_seal [OF p] seal own that True by (metis nth_mem)
    with True have "seals_ok core \<lparr>sys_world = w, sys_scopes = (sys_scopes s)[i := sc]\<rparr>"
      by (intro seals_ok_scope(1) [OF assms(2)]) (metis nth_mem)+
    with SO_provide True p provide_services_ok [OF assms(1) True p] show ?thesis by simp
  qed (use SO_provide assms in simp)
next
  case (SO_candidates q c)
  with assms show ?thesis by (simp add: services_ok_learns seals_ok_learns discovery_learns)
next
  case (SO_inventory qs c)
  with assms show ?thesis by (simp add: services_ok_learns seals_ok_learns discovery_learns)
next
  case (SO_status d c)
  with assms show ?thesis by (simp add: services_ok_learns seals_ok_learns discovery_learns)
next
  case (SO_bind i consumer q p)
  with assms show ?thesis by (simp add: services_ok_learns seals_ok_learns discovery_learns)
next
  case (SO_withdraw marker val)
  have sub: "set (providers (registry_of core (run_withdrawal core marker val (sys_world s))))
      \<subseteq> set (providers (registry_of core (sys_world s)))"
    by (rule withdrawal_subset)
  have "registry_ok (registry_of core (run_withdrawal core marker val (sys_world s)))"
    using assms(1) by (simp add: services_ok_def run_withdrawal_ok)
  with SO_withdraw sub assms show ?thesis
    by (simp add: services_ok_providers seals_ok_providers image_mono)
qed

interpretation sv: invariant_machine "service_step tk core" "\<lambda>s. services_ok core s \<and> seals_ok core s"
  for tk core
  by unfold_locales (use services_step_ok in blast)

lemma provide_contracts:
  assumes "provide core owner provider sc w = (r, sc', w')"
  shows "contracts (registry_of core w) \<subseteq>\<^sub>m contracts (registry_of core w')"
  using assms
proof (cases rule: provide_cases)
  case (published w1)
  have "contracts (registry_of core w1) \<subseteq>\<^sub>m
      contracts (or_insert_contract (sp_service provider) (sp_contract provider) (registry_of core w1))"
    using or_insert_learns [of "registry_of core w1"] by (simp add: learns_def)
  with published(2) show ?thesis unfolding published(6) by (simp add: publish_def Let_def)
qed simp

lemma service_step_contracts:
  fixes s :: "('u, 'f, 't, 'k, 'y) service_system"
  shows "contracts (registry_of core (sys_world s)) \<subseteq>\<^sub>m contracts (registry_of core (sys_world (service_step tk core op s)))"
proof (cases op)
  case (SO_scope label a)
  obtain r w where n: "new_scope tk label a (sys_world s)
      = (r :: effect_scope_error + ('u cleanup, 'f, 't) effect_scope, w)" by fastforce
  have "registry_of core w = registry_of core (sys_world s)"
    using new_scope_world(1) [OF n] by (simp add: registry_of_def)
  with SO_scope n show ?thesis by (cases r) simp_all
next
  case (SO_seal i)
  obtain sc w where b: "begin_close tk (sys_scopes s ! i) (sys_world s) = (sc, w)" by fastforce
  have "registry_of core w = registry_of core (sys_world s)"
    using begin_close_world(3) [OF b] by (simp add: registry_of_def)
  with SO_seal b show ?thesis by simp
next
  case (SO_provide i owner provider)
  then show ?thesis
    using provide_contracts by (auto split: prod.splits)
next
  case (SO_candidates q c)
  then show ?thesis by (simp add: discovery_learns [unfolded learns_def])
next
  case (SO_inventory qs c)
  then show ?thesis by (simp add: discovery_learns [unfolded learns_def])
next
  case (SO_status d c)
  then show ?thesis by (simp add: discovery_learns [unfolded learns_def])
next
  case (SO_bind i consumer q p)
  then show ?thesis by (simp add: discovery_learns [unfolded learns_def])
qed simp

lemma services_run_contracts:
  "contracts (registry_of core (sys_world s)) \<subseteq>\<^sub>m
     contracts (registry_of core (sys_world (fold (service_step tk core) ops s)))"
proof (induction ops arbitrary: s)
  case (Cons op ops)
  from map_le_trans [OF service_step_contracts Cons.IH] show ?case by simp
qed simp

definition start_services :: "('t, 'k, 'y) swld \<Rightarrow> ('u, 'f, 't, 'k, 'y) service_system" where
  "start_services w = \<lparr>sys_world = snd (new_registry w), sys_scopes = []\<rparr>"

lemma start_services_ok:
  "services_ok (fst (new_registry w)) (start_services w) \<and> seals_ok (fst (new_registry w)) (start_services w)"
  by (simp add: start_services_def new_registry_def services_ok_def seals_ok_def incarnations_below_def)

lemmas services_run_ok = sv.run_invariant [OF start_services_ok]

section \<open>Publication\<close>

text \<open>
  C31. However a process interleaves creating activation scopes, publishing, discovering, binding,
  sealing and withdrawing, starting from a new registry: publication never fails its assertion that an
  identity is new; every listed provider stores a value of the contract on record for its service; and
  the Rust contract of a service, once on record, never changes.
\<close>

theorem publication_is_safe:
  assumes "core = fst (new_registry w)" and "s = fold (service_step tk core) ops (start_services w)"
  shows "(\<forall>i < length (sys_scopes s).
        \<not> is_panic (fst (provide core owner provider (sys_scopes s ! i) (sys_world s)))) \<and>
    registry_ok (registry_of core (sys_world s)) \<and>
    contracts (registry_of core (sys_world s)) \<subseteq>\<^sub>m
      contracts (registry_of core (sys_world (fold (service_step tk core) later s)))"
proof -
  have ok: "services_ok core s" using services_run_ok assms by blast
  have "\<not> is_panic (fst (provide core owner provider (sys_scopes s ! i) (sys_world s)))"
    if "i < length (sys_scopes s)" for i
    using provide_services_ok(2) [OF ok that, of owner provider] by (metis prod.collapse)
  with ok services_run_contracts show ?thesis by (simp add: services_ok_def)
qed

definition demo_services :: "(nat list, nat \<times> nat list, unit) swld" where
  "demo_services =
     \<lparr>gates = \<lparr>gate_word = (\<lambda>_. 0), gate_drained = (\<lambda>_. False)\<rparr>, tokens = (0, []),
      next_scope_incarnation = 1, next_address = 10,
      outside = \<lparr>registries = (\<lambda>_. None), revoked_flags = (\<lambda>_. False), strong_counts = (\<lambda>_. 1),
        user_state = ()\<rparr>\<rparr>"

definition demo_owner :: component_instance where
  "demo_owner = demo_instance\<lparr>inst_state := State_Active (ActivationEpoch 1 2)\<rparr>"

definition demo_provider :: service_provider where
  "demo_provider = \<lparr>sp_service = ServiceId ''db'',
     sp_contract = \<lparr>contract_type_id = 5, contract_type_name = ''Db''\<rparr>, sp_value = 3\<rparr>"

definition demo_requirement :: required_service where
  "demo_requirement = \<lparr>required_service_id = ServiceId ''db'',
     required_contract = \<lparr>contract_type_id = 5, contract_type_name = ''Db''\<rparr>\<rparr>"

definition demo_provider_id :: provider_registration_id where
  "demo_provider_id = ProviderRegistrationId (EffectRegistrationId (EffectScopeId (ActivationEpoch 1 2) 1) 1)"

text \<open>The scope of a running component, and its one publication.\<close>

definition demo_service_ops :: "service_op list" where
  "demo_service_ops = [SO_scope ''owner'' (ActivationEpoch 1 2), SO_provide 0 demo_owner demo_provider]"

type_synonym demo_system = "(nat, nat, nat list, nat \<times> nat list, unit) service_system"

definition demo_published :: demo_system where
  "demo_published = fold (service_step demo_tokens 10) demo_service_ops (start_services demo_services)"

lemmas demo_service_defs =
  demo_published_def demo_service_ops_def demo_services_def demo_owner_def demo_provider_def demo_requirement_def
  demo_provider_id_def demo_instance_def start_services_def new_registry_def new_scope_def allocate_scope_id_def
  u64_checked_succ_def provide_def publish_def check_contract_def defer_sync_def allocate_registration_def
  require_open_def es_state_def es_activation_def gate_root_def push_entry_def or_insert_contract_def
  registry_of_def set_registry_def take_strong_def drop_strong_def demo_tokens_def Let_def

lemma demo_core: "fst (new_registry demo_services) = 10"
  by (simp add: new_registry_def demo_services_def)

lemma demo_published_scopes: "length (sys_scopes demo_published) = 1"
  by (simp add: demo_service_defs)

theorem publication_is_safe_witness:
  "registry_ok (registry_of 10 (sys_world demo_published)) \<and>
   \<not> is_panic (fst (provide 10 demo_owner demo_provider (sys_scopes demo_published ! 0) (sys_world demo_published)))"
  using publication_is_safe [OF demo_core [symmetric] demo_published_def, of demo_owner demo_provider]
    demo_published_scopes by simp

section \<open>Binding and discovery\<close>

lemma filter_listed:
  assumes "registry_ok st"
  shows "p \<in> candidate_id ` pe_candidate ` set (filter P (map snd (providers st))) \<longleftrightarrow>
    (\<exists>e. bt_get (providers st) p = Some e \<and> P e)"
proof -
  have d: "distinct (map fst (providers st))" using assms by (simp add: registry_ok_def bt_wf_distinct)
  have "candidate_id (pe_candidate e) = q" if "(q, e) \<in> set (providers st)" for q e
    using assms that by (auto simp: registry_ok_def entry_ok_def)
  then have "p \<in> candidate_id ` pe_candidate ` set (filter P (map snd (providers st))) \<longleftrightarrow>
      (\<exists>e. (p, e) \<in> set (providers st) \<and> P e)"
    by (force simp: image_iff)
  with d show ?thesis by (simp add: bt_get_def map_of_eq_Some_iff)
qed

text \<open>The contract check of a binding is that of a discovery.\<close>

lemma binding_value_type:
  assumes "registry_ok st" and "ensure_contract (required_service_id q) (required_contract q) st = (Inr u, st')"
    and "bt_get (providers st) p = Some e" and "candidate_service (pe_candidate e) = required_service_id q"
  shows "pe_value_type e = contract_type_id (required_contract q)"
proof -
  have "(p, e) \<in> set (providers st)" using assms(3) by (simp add: bt_get_def map_of_SomeD)
  moreover have "learns st st'" using ensure_contract_learns [OF assms(2)] .
  ultimately have "entry_ok st' p e"
    using assms(1) learns_entry_ok unfolding registry_ok_def by fastforce
  with ensure_contract_ok [OF assms(2)] assms(4) show ?thesis by (auto simp: entry_ok_def)
qed

lemma binding_listed:
  assumes "registry_ok (registry_of core w)" and "binding tk core q p c w = (r, w')"
  shows "(\<exists>e. r = Inr e) \<longleftrightarrow>
      (\<exists>cs. fst (registry_candidates tk core q c w) = Inr cs \<and> p \<in> candidate_id ` set cs)"
    and "r = Inr e \<Longrightarrow> bt_get (providers (registry_of core w)) p = Some e \<and> entry_live tk w e \<and> w' = snd (registry_candidates tk core q c w)"
    and "r \<noteq> Inl (ProviderValueTypeMismatch p n m)"
proof -
  let ?st = "registry_of core w"
  obtain x st1 where ec: "ensure_contract (required_service_id q) (required_contract q) ?st = (x, st1)"
    by fastforce
  have same: "providers st1 = providers ?st" using ensure_contract_learns [OF ec] by (simp add: learns_def)
  have vt: "pe_value_type e = contract_type_id (required_contract q)"
    if "x = Inr u" "bt_get (providers ?st) p = Some e" "candidate_service (pe_candidate e) = required_service_id q"
    for u e
    using binding_value_type [OF assms(1)] ec that by blast
  let ?P = "\<lambda>e. candidate_service (pe_candidate e) = required_service_id q \<and> entry_live tk w e \<and>
      is_visible_from (pe_owner_scope e) c"
  have listed: "(\<exists>cs. fst (registry_candidates tk core q c w) = Inr cs \<and> p \<in> candidate_id ` set cs) \<longleftrightarrow>
      (\<exists>u. x = Inr u) \<and> (\<exists>e. bt_get (providers ?st) p = Some e \<and> ?P e)"
    using filter_listed [OF assms(1), of p ?P] ec same
    by (cases x) (simp_all add: registry_candidates_def)
  have live: "gate_available tk (pe_gate e) (set_registry core (Some st1) w) = gate_available tk (pe_gate e) w" for e
    by (simp add: gate_available_def)
  have world: "x = Inr u \<Longrightarrow> snd (registry_candidates tk core q c w) = set_registry core (Some st1) w" for u
    using ec by (simp add: registry_candidates_def)
  show "(\<exists>e. r = Inr e) \<longleftrightarrow>
      (\<exists>cs. fst (registry_candidates tk core q c w) = Inr cs \<and> p \<in> candidate_id ` set cs)"
    unfolding listed using assms(2) ec vt
    by (cases x) (auto simp: binding_def Let_def live entry_live_def split: option.splits if_splits)
  show "bt_get (providers (registry_of core w)) p = Some e \<and> entry_live tk w e \<and> w' = snd (registry_candidates tk core q c w)"
    if "r = Inr e"
    using assms(2) ec that world
    by (cases x) (auto simp: binding_def Let_def live entry_live_def split: option.splits if_splits)
  have "x \<noteq> Inl (ProviderValueTypeMismatch p n m)" for n m
    using ec by (auto simp: ensure_contract_def check_contract_def split: sum.splits option.splits if_splits)
  with assms(2) ec vt show "r \<noteq> Inl (ProviderValueTypeMismatch p n m)" for n m
    by (cases x) (auto simp: binding_def Let_def live split: option.splits if_splits)
qed

lemma bind_service_live:
  assumes "inst_state consumer = Starting (es_activation sc)" and "es_state sc = Scope_Is_Open"
    and "registry_ok (registry_of core w)"
  shows "bind_service tk core consumer sc q p w =
    (case binding tk core q p (instance_scope consumer) w of
       (Inl e, w') \<Rightarrow> (Inl e, w')
     | (Inr e, w') \<Rightarrow>
         (Inr \<lparr>sh_value = pe_value e, sh_gate = pe_gate e, sh_provider_activity = pe_activity e,
               sh_candidate = pe_candidate e, sh_consumer = instance_id consumer,
               sh_consumer_scope = instance_scope_id consumer, sh_consumer_activation = es_activation sc,
               sh_consumer_cancellation = es_cancellation sc, sh_consumer_activity = es_activity sc\<rparr>, w'))"
proof -
  obtain r w' where b: "binding tk core q p (instance_scope consumer) w = (r, w')" by fastforce
  have frame: "tokens (snd (registry_candidates tk core q c w)) = tokens w"
    "revoked_flags (outside (snd (registry_candidates tk core q c w))) = revoked_flags (outside w)" for c
    by (auto simp: registry_candidates_def split: prod.splits sum.splits)
  have "gate_available tk (pe_gate e) w' \<and> is_open (pe_activity e) (gates w')" if "r = Inr e" for e
    using binding_listed(2) [OF assms(3) b that] frame by (auto simp: entry_live_def gate_available_def)
  with assms(1,2) b show ?thesis by (cases r) (simp_all add: bind_service_def)
qed

text \<open>
  Binding and discovery agree: a starting component whose open effect scope is its own can bind a
  provider for a requirement exactly when discovery from its scope lists that provider; the handle is
  then for that listed candidate, binding records the same contract that discovery does, and the
  provider's value never turns out to be of another type.
\<close>

theorem binding_agrees_with_discovery:
  assumes "registry_ok (registry_of core w)" and "inst_state consumer = Starting (es_activation effects)"
    and "es_state effects = Scope_Is_Open"
    and "bind_service tk core consumer effects q p w = (r, w')"
    and "registry_candidates tk core q (instance_scope consumer) w = (found, w'')"
  shows "((\<exists>h. r = Inr h) \<longleftrightarrow> (\<exists>cs. found = Inr cs \<and> p \<in> candidate_id ` set cs)) \<and>
    (\<forall>h. r = Inr h \<longrightarrow> candidate_id (sh_candidate h) = p \<and> w' = w'') \<and>
    r \<noteq> Inl (ProviderValueTypeMismatch p n m)"
proof -
  obtain x v where b: "binding tk core q p (instance_scope consumer) w = (x, v)" by fastforce
  note listed = binding_listed [OF assms(1) b]
  note bound = bind_service_live [OF assms(2,3,1), of tk q p, unfolded b assms(4)]
  have "candidate_id (pe_candidate e) = p" if "x = Inr e" for e
    using listed(2) [OF that] assms(1) by (auto simp: bt_get_def registry_ok_def entry_ok_def dest!: map_of_SomeD)
  with bound listed assms(5) show ?thesis by (cases x) auto
qed

definition demo_consumer :: component_instance where
  "demo_consumer = demo_instance\<lparr>instance_id := ComponentInstanceId ''consumer'',
     inst_state := Starting (ActivationEpoch 2 1)\<rparr>"

definition demo_consumer_effects :: "(nat cleanup, nat, nat list) effect_scope" where
  "demo_consumer_effects =
     EffectScope (EffectScopeId (ActivationEpoch 2 1) 9) ''consumer'' [7] (GateNode 2 None) 1 (Scope_Open [])"

lemma demo_listed:
  "fst (registry_candidates demo_tokens 10 demo_requirement (instance_scope demo_consumer) (sys_world demo_published))
     = Inr [\<lparr>candidate_id = demo_provider_id, candidate_service = ServiceId ''db'',
             candidate_owner = ComponentInstanceId ''i'', candidate_owner_scope = ScopeId ''root'',
             candidate_contract_name = ''Db''\<rparr>]"
  by (simp add: demo_service_defs registry_candidates_def ensure_contract_def demo_consumer_def entry_live_def
      gate_available_def is_revoked_def is_visible_from_def demo_scope_def scope_root_def ptr_eq_def)

theorem binding_agrees_with_discovery_witness:
  "\<exists>h. fst (bind_service demo_tokens 10 demo_consumer demo_consumer_effects demo_requirement demo_provider_id
              (sys_world demo_published)) = Inr h \<and> candidate_id (sh_candidate h) = demo_provider_id"
proof -
  let ?w = "sys_world demo_published"
  have "services_ok 10 demo_published"
    unfolding demo_published_def by (rule services_run_ok [of demo_services, unfolded demo_core, THEN conjunct1])
  then have ok: "registry_ok (registry_of 10 ?w)" by (simp add: services_ok_def)
  have st: "inst_state demo_consumer = Starting (es_activation demo_consumer_effects)"
    "es_state demo_consumer_effects = Scope_Is_Open"
    by (simp_all add: demo_consumer_def demo_consumer_effects_def es_activation_def es_state_def)
  from binding_agrees_with_discovery [OF ok st prod.collapse [symmetric] prod.collapse [symmetric],
      where tk = demo_tokens and q = demo_requirement and p = demo_provider_id and n = "[]" and m = "[]"]
    demo_listed
  show ?thesis by auto
qed

section \<open>Sealing\<close>

lemma sealed_not_live:
  assumes "seals_ok core s" and "i < length (sys_scopes s)" and "es_state (sys_scopes s ! i) \<noteq> Scope_Is_Open"
    and "(p, e) \<in> set (providers (registry_of core (sys_world s)))"
    and "provider_effect_scope p = es_id (sys_scopes s ! i)"
  shows "\<not> is_open (pe_activity e) (gates (sys_world s))"
proof -
  have "seal_ok core (sys_world s) (sys_scopes s ! i)" using assms(1,2) by (simp add: seals_ok_def)
  with assms(3,4,5) have
    "is_revoked (gate_word (gates (sys_world s)) (gate_address (pe_activity e)))"
    by (auto simp: seal_ok_def)
  then show ?thesis by (cases "pe_activity e") simp
qed

text \<open>
  C32. A sealed activation serves nobody: in every reachable process, once the effect scope of an
  activation is no longer open, no discovery lists a provider that it published, no binding to one
  succeeds, and every call through a handle to one is refused as revoked and changes nothing.
\<close>

theorem sealed_providers_are_hidden:
  assumes "core = fst (new_registry w0)" and "s = fold (service_step tk core) ops (start_services w0)"
    and "i < length (sys_scopes s)" and "es_state (sys_scopes s ! i) \<noteq> Scope_Is_Open"
    and "provider_effect_scope p = es_id (sys_scopes s ! i)"
  shows "(\<forall>cs. fst (registry_candidates tk core q c (sys_world s)) = Inr cs \<longrightarrow> p \<notin> candidate_id ` set cs) \<and>
    (\<forall>h. fst (bind_service tk core consumer effects q p (sys_world s)) \<noteq> Inr h) \<and>
    (sh_provider_activity handle = es_activity (sys_scopes s ! i) \<longrightarrow>
       handle_try_with tk handle operation (sys_world s) = (Inl (handle_revoked handle), sys_world s))"
proof -
  have ok: "services_ok core s" "seals_ok core s" using services_run_ok assms(1,2) by blast+
  have reg: "registry_ok (registry_of core (sys_world s))" using ok(1) by (simp add: services_ok_def)
  have dead: "\<not> entry_live tk (sys_world s) e" if "bt_get (providers (registry_of core (sys_world s))) p = Some e" for e
    using sealed_not_live [OF ok(2) assms(3,4) _ assms(5)] that
    by (auto simp: entry_live_def bt_get_def dest: map_of_SomeD)
  have "\<nexists>cs. fst (registry_candidates tk core q c (sys_world s)) = Inr cs \<and> p \<in> candidate_id ` set cs" for c
    using binding_listed(1,2) [OF reg prod.collapse [symmetric], of tk q p c] dead by metis
  moreover have "binding tk core q p c (sys_world s) \<noteq> (Inr e, v)" for c e v
    using binding_listed(2) [OF reg] dead by blast
  then have "\<forall>h. fst (bind_service tk core consumer effects q p (sys_world s)) \<noteq> Inr h"
    by (auto simp: bind_service_def split: component_state.splits prod.splits sum.splits)
  moreover have "seal_ok core (sys_world s) (sys_scopes s ! i)" using ok(2) assms(3) by (simp add: seals_ok_def)
  then have "\<not> is_open (es_activity (sys_scopes s ! i)) (gates (sys_world s))"
    using assms(4) by (cases "es_activity (sys_scopes s ! i)") (simp add: seal_ok_def)
  ultimately show ?thesis by (auto simp: handle_try_with_def handle_live_def)
qed

definition demo_sealed :: demo_system where
  "demo_sealed = fold (service_step demo_tokens 10) (demo_service_ops @ [SO_seal 0]) (start_services demo_services)"

theorem sealed_providers_are_hidden_witness:
  "fst (registry_candidates demo_tokens 10 demo_requirement (instance_scope demo_consumer) (sys_world demo_sealed))
     = Inr [] \<and>
   fst (bind_service demo_tokens 10 demo_consumer demo_consumer_effects demo_requirement demo_provider_id
          (sys_world demo_sealed)) \<notin> range Inr"
proof -
  have step: "demo_sealed = service_step demo_tokens 10 (SO_seal 0) demo_published"
    by (simp add: demo_sealed_def demo_published_def)
  have sc: "length (sys_scopes demo_sealed) = 1" "es_state (sys_scopes demo_sealed ! 0) = Scope_Is_Closing"
    "es_id (sys_scopes demo_sealed ! 0) = provider_effect_scope demo_provider_id"
    by (simp_all add: step demo_service_defs begin_close_def request_stop_of_def provider_effect_scope_def)
  have only: "map fst (providers (registry_of 10 (sys_world demo_sealed))) = [demo_provider_id]"
    by (simp add: step demo_service_defs begin_close_def request_stop_of_def)
  have "0 < length (sys_scopes demo_sealed)" "es_state (sys_scopes demo_sealed ! 0) \<noteq> Scope_Is_Open"
    using sc by simp_all
  note hidden = sealed_providers_are_hidden [OF demo_core [symmetric] demo_sealed_def this sc(3) [symmetric]]
  have found: "\<exists>cs. fst (registry_candidates demo_tokens 10 demo_requirement (instance_scope demo_consumer)
      (sys_world demo_sealed)) = Inr cs \<and> length cs \<le> 1 \<and> candidate_id ` set cs \<subseteq> {demo_provider_id}"
    by (simp add: step demo_service_defs begin_close_def request_stop_of_def registry_candidates_def
        ensure_contract_def)
  from found obtain cs where cs: "fst (registry_candidates demo_tokens 10 demo_requirement
      (instance_scope demo_consumer) (sys_world demo_sealed)) = Inr cs" "candidate_id ` set cs \<subseteq> {demo_provider_id}"
    by blast
  have "demo_provider_id \<notin> candidate_id ` set cs" by (rule hidden [THEN conjunct1, rule_format, OF cs(1)])
  with cs(2) have "cs = []" by (cases cs) auto
  with cs(1) hidden [THEN conjunct2, THEN conjunct1] show ?thesis by (simp add: image_iff)
qed

section \<open>Calls\<close>

definition gates_full :: "gate_node \<Rightarrow> gate_heap \<Rightarrow> bool" where
  "gates_full g h \<longleftrightarrow> (\<exists>a \<in> set (gate_lineage g). active_calls (gate_word h a) = ACTIVE_CALLS)"

text \<open>Admission through one gate lineage, for a heap of machine words.\<close>

lemma admit_outcome:
  assumes "distinct (gate_lineage g)" and "\<And>a. gate_word h a < U64_MODULUS" and "is_open g h"
    and "admit g h = (r, h')"
  shows "case r of
      Inl e \<Rightarrow> e = Adm_Exhausted \<and> h' = h \<and> gates_full g h
    | Inr guards \<Rightarrow> \<not> gates_full g h \<and> fold drop_guard guards h' = h \<and>
        (\<forall>a. gate_word h' a = gate_word h a + (if a \<in> set (gate_lineage g) then 1 else 0)) \<and>
        (\<forall>a. gate_word h' a < U64_MODULUS)"
proof -
  have "distinct ([] @ rev (gate_lineage g))" using assms(1) by simp
  note res = admit_each_atomic [OF this assms(2) assms(4) [unfolded admit_def]]
  have each: "\<not> is_revoked (gate_word h a)" if "a \<in> set (gate_lineage g)" for a
    using assms(3) that by (simp add: is_open_lineage)
  show ?thesis
  proof (cases r)
    case (Inl e)
    with res obtain a where "a \<in> set (gate_lineage g)" "admit_local (gate_word h a) = Inl e" "h' = h" by auto
    with Inl each [of a] show ?thesis by (auto simp: admit_local_def gates_full_def split: if_splits)
  next
    case (Inr guards)
    have ok: "\<exists>w. admit_local (gate_word h a) = Inr w" if "a \<in> set (gate_lineage g)" for a
      using res Inr that by auto
    then have "\<not> gates_full g h" unfolding admit_local_ok gates_full_def by blast
    moreover have "gate_word h' a < U64_MODULUS" for a
      using res Inr ok [of a] admit_local_Inr(1,2) [OF assms(2) [of a]] assms(2) [of a] by fastforce
    ultimately show ?thesis using res Inr by auto
  qed
qed

lemma is_open_raise:
  assumes "\<And>a. gate_word h' a = gate_word h a + (if a \<in> L then 1 else 0)"
    and "set (gate_lineage g) \<inter> L = {}"
  shows "is_open g h' = is_open g h" and "gates_full g h' = gates_full g h"
proof -
  have "gate_word h' a = gate_word h a" if "a \<in> set (gate_lineage g)" for a
    using assms that by auto
  then show "is_open g h' = is_open g h" "gates_full g h' = gates_full g h"
    by (simp_all add: is_open_lineage gates_full_def)
qed

text \<open>An admitted lineage is still open: the count it gained does not reach the revoked bit.\<close>

lemma is_open_admitted:
  assumes "admit g h = (Inr guards, h')" and "distinct (gate_lineage g)" and "\<And>a. gate_word h a < U64_MODULUS"
    and "is_open g h"
  shows "is_open g h'"
proof -
  have "distinct ([] @ rev (gate_lineage g))" using assms(2) by simp
  note res = admit_each_atomic [OF this assms(3) assms(1) [unfolded admit_def]]
  have "\<not> is_revoked (gate_word h' a)" if a: "a \<in> set (gate_lineage g)" for a
  proof -
    obtain w where w: "admit_local (gate_word h a) = Inr w" using res a by auto
    with word_admit(2) [OF assms(3) w] admit_local_Inr(1) [OF assms(3) w] res a show ?thesis by auto
  qed
  then show ?thesis by (simp add: is_open_lineage)
qed

definition call_admitted ::
  "('t, 'k) cancellation_api \<Rightarrow> 't service_handle \<Rightarrow> ('t, 'k, 'y) swld \<Rightarrow> bool" where
  "call_admitted tk h w \<longleftrightarrow>
     handle_live tk h w \<and> \<not> gates_full (sh_provider_activity h) (gates w)
     \<and> \<not> gates_full (sh_consumer_activity h) (gates w)"

text \<open>The two admissions of a call, and the world it then runs in.\<close>

lemma call_admissions:
  assumes "distinct (gate_lineage (sh_provider_activity h) @ gate_lineage (sh_consumer_activity h))"
    and "\<And>a. gate_word (gates w) a < U64_MODULUS" and "handle_live tk h w"
  shows "if call_admitted tk h w
    then \<exists>pg cg gs gs2. admit (sh_provider_activity h) (gates w) = (Inr pg, gs) \<and>
        admit (sh_consumer_activity h) gs = (Inr cg, gs2) \<and>
        fold drop_guard pg (fold drop_guard cg gs2) = gates w \<and>
        is_open (sh_provider_activity h) gs2 \<and> is_open (sh_consumer_activity h) gs2 \<and>
        (\<forall>a. gate_word gs2 a = gate_word (gates w) a +
           (if a \<in> set (gate_lineage (sh_provider_activity h) @ gate_lineage (sh_consumer_activity h)) then 1 else 0))
    else admit (sh_provider_activity h) (gates w) = (Inl Adm_Exhausted, gates w) \<or>
      (\<exists>pg gs. admit (sh_provider_activity h) (gates w) = (Inr pg, gs) \<and>
         admit (sh_consumer_activity h) gs = (Inl Adm_Exhausted, gs) \<and> fold drop_guard pg gs = gates w)"
proof -
  let ?p = "sh_provider_activity h" and ?c = "sh_consumer_activity h"
  have d: "distinct (gate_lineage ?p)" "distinct (gate_lineage ?c)"
    "set (gate_lineage ?c) \<inter> set (gate_lineage ?p) = {}" "set (gate_lineage ?p) \<inter> set (gate_lineage ?c) = {}"
    using assms(1) by auto
  have open_gates: "is_open ?p (gates w)" "is_open ?c (gates w)" using assms(3) by (simp_all add: handle_live_def)
  obtain r1 gs where a1: "admit ?p (gates w) = (r1, gs)" by fastforce
  note o1 = admit_outcome [OF d(1) assms(2) open_gates(1) a1]
  show ?thesis
  proof (cases r1)
    case (Inl e)
    with o1 a1 show ?thesis by (auto simp: call_admitted_def)
  next
    case (Inr pg)
    have words: "\<And>a. gate_word gs a = gate_word (gates w) a + (if a \<in> set (gate_lineage ?p) then 1 else 0)"
      "\<And>a. gate_word gs a < U64_MODULUS"
      and undone: "fold drop_guard pg gs = gates w" and np: "\<not> gates_full ?p (gates w)"
      using o1 unfolding Inr sum.case by blast+
    note same = is_open_raise [OF words(1) d(3)]
    have c_open: "is_open ?c gs" using open_gates(2) same(1) by simp
    obtain r2 gs2 where a2: "admit ?c gs = (r2, gs2)" by fastforce
    note o2 = admit_outcome [OF d(2) words(2) c_open a2]
    show ?thesis
    proof (cases r2)
      case (Inl e)
      with o2 a1 a2 Inr undone same(2) show ?thesis by (auto simp: call_admitted_def)
    next
      case r2: (Inr cg)
      have words2: "\<And>a. gate_word gs2 a = gate_word gs a + (if a \<in> set (gate_lineage ?c) then 1 else 0)"
        using o2 r2 by auto
      have "is_open ?p gs" using is_open_admitted [OF a1 [unfolded Inr] d(1) assms(2) open_gates(1)] .
      then have "is_open ?p gs2" using is_open_raise(1) [OF words2 d(4)] by simp
      moreover have "is_open ?c gs2" using is_open_admitted [OF a2 [unfolded r2] d(2) words(2) c_open] .
      moreover have "call_admitted tk h w" using o2 r2 np same(2) assms(3) by (simp add: call_admitted_def)
      moreover have "gate_word gs2 a = gate_word (gates w) a +
          (if a \<in> set (gate_lineage ?p @ gate_lineage ?c) then 1 else 0)" for a
        using words(1) words2 d(3) by auto
      ultimately show ?thesis using a1 a2 Inr r2 o2 undone by auto
    qed
  qed
qed

text \<open>
  A service call is bracketed by its admissions: it runs exactly when the handle is live, the
  provider's value still exists and no gate of either activation is full, and then while each gate of
  both lineages counts it, so that neither side can start its cleanups; when it ends, gates and
  reference counts are what they were. A refused call leaves no trace at all, and says exhausted
  exactly when a gate of a live handle was full.
\<close>

theorem calls_are_bracketed:
  assumes "distinct (gate_lineage (sh_provider_activity h) @ gate_lineage (sh_consumer_activity h))"
    and "\<And>a. gate_word (gates w) a < U64_MODULUS"
    and "\<And>v. gates (snd (operation v)) = gates v \<and>
           strong_counts (outside (snd (operation v))) = strong_counts (outside v)"
    and "handle_try_with tk h operation w = (r, w')"
  shows "((\<exists>x. r = Inr x) \<longleftrightarrow> call_admitted tk h w \<and> strong_counts (outside w) (sh_value h) \<noteq> 0) \<and>
    gates w' = gates w \<and> strong_counts (outside w') = strong_counts (outside w) \<and>
    (case r of
       Inl e \<Rightarrow> w' = w \<and>
         e = (if handle_live tk h w \<and> \<not> call_admitted tk h w
              then Handle_AdmissionExhausted (candidate_id (sh_candidate h)) else handle_revoked h)
     | Inr x \<Rightarrow> \<exists>v. x = fst (operation v) \<and>
         (\<forall>a \<in> set (gate_lineage (sh_provider_activity h) @ gate_lineage (sh_consumer_activity h)).
            gate_word (gates v) a = gate_word (gates w) a + 1))"
proof (cases "handle_live tk h w")
  case False
  with assms(4) show ?thesis by (auto simp: handle_try_with_def call_admitted_def)
next
  case True
  note adm = call_admissions [OF assms(1,2) True]
  show ?thesis
  proof (cases "call_admitted tk h w")
    case False
    with adm assms(4) True show ?thesis
      by (auto simp: handle_try_with_def Let_def drop_guards_def handle_revoked_def)
  next
    case adm_ok: True
    with adm obtain pg cg gs gs2 where a: "admit (sh_provider_activity h) (gates w) = (Inr pg, gs)"
      "admit (sh_consumer_activity h) gs = (Inr cg, gs2)" "fold drop_guard pg (fold drop_guard cg gs2) = gates w"
      "is_open (sh_provider_activity h) gs2" "is_open (sh_consumer_activity h) gs2"
      "\<forall>a. gate_word gs2 a = gate_word (gates w) a +
         (if a \<in> set (gate_lineage (sh_provider_activity h) @ gate_lineage (sh_consumer_activity h)) then 1 else 0)"
      by auto
    define v where "v = take_strong (sh_value h) (w\<lparr>gates := gs2\<rparr>)"
    show ?thesis
    proof (cases "strong_counts (outside w) (sh_value h) = 0")
      case none: True
      with a assms(4) True adm_ok show ?thesis
        by (auto simp: handle_try_with_def Let_def drop_guards_def)
    next
      case some: False
      obtain x u where ou: "operation v = (x, u)" by fastforce
      have live: "handle_live tk h v"
        using True a(4,5) by (simp add: v_def handle_live_def gate_available_def)
      have u: "gates u = gs2" "strong_counts (outside u) = (strong_counts (outside w))
          (sh_value h := strong_counts (outside w) (sh_value h) + 1)"
        using assms(3) [of v] ou by (simp_all add: v_def take_strong_def)
      have "r = Inr x \<and> w' = drop_guards pg (drop_guards cg (drop_strong (sh_value h) u))"
        using a(1,2) assms(4) True some live ou
        by (simp add: handle_try_with_def Let_def v_def)
      moreover have "gates v = gs2" by (simp add: v_def)
      then have "x = fst (operation v) \<and>
          (\<forall>a \<in> set (gate_lineage (sh_provider_activity h) @ gate_lineage (sh_consumer_activity h)).
            gate_word (gates v) a = gate_word (gates w) a + 1)"
        using a(6) ou by simp
      ultimately show ?thesis
        using a(3) u adm_ok some by (auto simp: drop_guards_def drop_strong_def)
    qed
  qed
qed

definition demo_handle :: "nat list service_handle" where
  "demo_handle =
     \<lparr>sh_value = 3, sh_gate = ProviderGate 0 [1], sh_provider_activity = GateNode 1 None,
      sh_candidate = \<lparr>candidate_id = demo_provider_id, candidate_service = ServiceId ''db'',
        candidate_owner = ComponentInstanceId ''i'', candidate_owner_scope = ScopeId ''root'',
        candidate_contract_name = ''Db''\<rparr>,
      sh_consumer = ComponentInstanceId ''consumer'', sh_consumer_scope = ScopeId ''root'',
      sh_consumer_activation = ActivationEpoch 2 1, sh_consumer_cancellation = [2],
      sh_consumer_activity = GateNode 2 None\<rparr>"

theorem calls_are_bracketed_witness:
  "fst (handle_try_with demo_tokens demo_handle (\<lambda>w. (gate_word (gates w) 1, w)) demo_services) = Inr 1 \<and>
     gates (snd (handle_try_with demo_tokens demo_handle (\<lambda>w. (gate_word (gates w) 1, w)) demo_services))
       = gates demo_services"
proof -
  have live: "call_admitted demo_tokens demo_handle demo_services"
    by (simp add: call_admitted_def handle_live_def gate_available_def gates_full_def demo_handle_def
        demo_services_def demo_tokens_def is_revoked_def active_calls_def ACTIVE_CALLS_def REVOKED_def)
  let ?op = "\<lambda>w. (gate_word (gates w) 1, w)"
  have d: "distinct (gate_lineage (sh_provider_activity demo_handle) @ gate_lineage (sh_consumer_activity demo_handle))"
    and w: "\<And>a. gate_word (gates demo_services) a < U64_MODULUS"
    and n: "strong_counts (outside demo_services) (sh_value demo_handle) \<noteq> 0"
    and m: "1 \<in> set (gate_lineage (sh_provider_activity demo_handle) @ gate_lineage (sh_consumer_activity demo_handle))"
    and z: "gate_word (gates demo_services) 1 = 0"
    by (simp_all add: demo_handle_def demo_services_def)
  have op: "\<And>v :: (nat list, nat \<times> nat list, unit) swld. gates (snd (?op v)) = gates v \<and>
      strong_counts (outside (snd (?op v))) = strong_counts (outside v)" by simp
  note call = calls_are_bracketed [OF d w op prod.collapse [symmetric], of demo_tokens, simplified fst_conv snd_conv]
  from call live n obtain x where x: "fst (handle_try_with demo_tokens demo_handle ?op demo_services) = Inr x" by blast
  have "\<exists>v :: (nat list, nat \<times> nat list, unit) swld. x = gate_word (gates v) 1 \<and>
    (\<forall>a \<in> set (gate_lineage (sh_provider_activity demo_handle) @ gate_lineage (sh_consumer_activity demo_handle)).
       gate_word (gates v) a = gate_word (gates demo_services) a + 1)"
    using conjunct2 [OF conjunct2 [OF conjunct2 [OF call]]] unfolding x sum.case by blast
  then have "x = gate_word (gates demo_services) 1 + 1" using m by metis
  with x z conjunct1 [OF conjunct2 [OF call]] show ?thesis by simp
qed

end
