(* ===== verification/Compose_Reconcile.thy ===== *)
theory Compose_Reconcile
  imports Compose_Registry "HOL-Library.Char_ord" "HOL-Library.List_Lexorder"
begin

text \<open>
  Provider-selection epochs and level-triggered reconciliation (\<open>yah-compose/src/reconcile/\<close>). A
  reconciled component owns its definition, its instance, and, while activated, one immutable provider
  selection with the effect scope of that activation. Every \<open>expect\<close>, \<open>unreachable\<close> and
  \<open>debug_assert\<close> of the source is a branch that panics. The close future inside \<open>finish_stop\<close> holds only
  a borrow of the component, so a poll of \<open>finish_stop\<close> is a poll of the close with the guards in front.
\<close>

section \<open>Selections\<close>

instantiation service_id :: linorder
begin
definition less_eq_service_id :: "service_id \<Rightarrow> service_id \<Rightarrow> bool" where
  "less_eq_service_id a b \<longleftrightarrow> service_id_text a \<le> service_id_text b"
definition less_service_id :: "service_id \<Rightarrow> service_id \<Rightarrow> bool" where
  "less_service_id a b \<longleftrightarrow> service_id_text a < service_id_text b"
instance
proof
  fix x y :: service_id
  show "x \<le> y \<Longrightarrow> y \<le> x \<Longrightarrow> x = y"
    by (cases x; cases y) (simp add: less_eq_service_id_def)
qed (auto simp: less_eq_service_id_def less_service_id_def)
end

datatype provider_selection_epoch = ProviderSelectionEpoch (selection_activation: activation_epoch)

definition selection_epoch_text :: "provider_selection_epoch \<Rightarrow> string" where
  "selection_epoch_text e = ''selection:'' @ epoch_text (selection_activation e)"

record provider_assignments =
  assigned_providers :: "(service_id, provider_registration_id) btree"

definition new_assignments :: provider_assignments where
  "new_assignments = \<lparr>assigned_providers = []\<rparr>"

definition assign_provider ::
  "provider_candidate \<Rightarrow> provider_assignments \<Rightarrow> provider_registration_id option \<times> provider_assignments" where
  "assign_provider candidate a =
     (bt_get (assigned_providers a) (candidate_service candidate),
      a\<lparr>assigned_providers :=
          bt_insert (candidate_service candidate) (candidate_id candidate) (assigned_providers a)\<rparr>)"

definition remove_assignment ::
  "service_id \<Rightarrow> provider_assignments \<Rightarrow> provider_registration_id option \<times> provider_assignments" where
  "remove_assignment s a =
     (bt_get (assigned_providers a) s, a\<lparr>assigned_providers := bt_remove s (assigned_providers a)\<rparr>)"

definition assignment_for :: "provider_assignments \<Rightarrow> service_id \<Rightarrow> provider_registration_id option" where
  "assignment_for a s = bt_get (assigned_providers a) s"

record provider_selection =
  sel_consumer :: component_instance_id
  sel_epoch :: provider_selection_epoch
  sel_assignments :: provider_assignments
  sel_providers :: "provider_candidate list"

definition new_selection ::
  "component_instance_id \<Rightarrow> activation_epoch \<Rightarrow> provider_assignments \<Rightarrow> provider_candidate list \<Rightarrow>
     provider_selection" where
  "new_selection consumer activation a ps =
     \<lparr>sel_consumer = consumer, sel_epoch = ProviderSelectionEpoch activation, sel_assignments = a,
      sel_providers = ps\<rparr>"

definition selected_provider :: "provider_selection \<Rightarrow> service_id \<Rightarrow> provider_candidate option" where
  "selected_provider sel s = find (\<lambda>p. candidate_service p = s) (sel_providers sel)"

section \<open>Observations\<close>

datatype dependency_issue =
    MissingProvider service_id
  | Unassigned service_id provider_registration_id
  | Ambiguous service_id "provider_registration_id list"
  | AssignedProviderUnavailable service_id provider_registration_id "provider_registration_id list"

fun issue_service :: "dependency_issue \<Rightarrow> service_id" where
  "issue_service (MissingProvider s) = s"
| "issue_service (Unassigned s _) = s"
| "issue_service (Ambiguous s _) = s"
| "issue_service (AssignedProviderUnavailable s _ _) = s"

datatype dependency_readiness = Dependencies_Ready | Dependencies_Pending "dependency_issue list"

fun readiness_issues :: "dependency_readiness \<Rightarrow> dependency_issue list" where
  "readiness_issues Dependencies_Ready = []"
| "readiness_issues (Dependencies_Pending issues) = issues"

record provider_change =
  change_service :: service_id
  change_previous :: "provider_registration_id option"
  change_next :: "provider_registration_id option"

datatype dependency_stop_reason =
    AssignmentChanged "provider_change list"
  | Provider_Unavailable "dependency_issue list"

datatype desired_stop_reason =
    Reason_Disabled
  | Reason_Removed
  | RevisionChanged component_revision_id component_revision_id

datatype component_stop_reason =
    Stop_Dependency dependency_stop_reason
  | Stop_Desired desired_stop_reason
  | Stop_ActivationFailed component_failure

datatype reconcile_outcome =
    Outcome_Pending dependency_readiness
  | Outcome_StartBegun provider_selection
  | Outcome_AwaitingStart provider_selection_epoch
  | Outcome_Active provider_selection_epoch
  | Outcome_StopBegun provider_selection_epoch stop_target component_stop_reason
  | Outcome_Stopping provider_selection_epoch stop_target component_stop_reason bool
  | Outcome_Removed

datatype stop_completion =
    Stop_Completed provider_selection_epoch stop_target component_stop_reason close_report
  | Stop_Blocked provider_selection_epoch stop_target component_stop_reason close_report
  | Stop_Abandoned provider_selection_epoch stop_target component_stop_reason close_report

fun completion_report :: "stop_completion \<Rightarrow> close_report" where
  "completion_report (Stop_Completed _ _ _ r) = r"
| "completion_report (Stop_Blocked _ _ _ r) = r"
| "completion_report (Stop_Abandoned _ _ _ r) = r"

fun completion_target :: "stop_completion \<Rightarrow> stop_target" where
  "completion_target (Stop_Completed _ t _ _) = t"
| "completion_target (Stop_Blocked _ t _ _) = t"
| "completion_target (Stop_Abandoned _ t _ _) = t"

fun completion_reason :: "stop_completion \<Rightarrow> component_stop_reason" where
  "completion_reason (Stop_Completed _ _ r _) = r"
| "completion_reason (Stop_Blocked _ _ r _) = r"
| "completion_reason (Stop_Abandoned _ _ r _) = r"

fun is_completed :: "stop_completion \<Rightarrow> bool" where
  "is_completed (Stop_Completed _ _ _ _) = True"
| "is_completed (Stop_Blocked _ _ _ _) = False"
| "is_completed (Stop_Abandoned _ _ _ _) = True"

fun was_abandoned :: "stop_completion \<Rightarrow> bool" where
  "was_abandoned (Stop_Abandoned _ _ _ _) = True"
| "was_abandoned _ = False"

datatype reconcile_error =
    UndeclaredAssignment service_id
  | UndeclaredRequirement service_id
  | RequirementContractMismatch service_id string string
  | NoCurrentSelection provider_selection_epoch
  | StaleSelection provider_selection_epoch provider_selection_epoch
  | InvalidState string component_state_kind
  | CleanupNotBlocked
  | RE_Lifecycle lifecycle_error
  | RE_EffectScope effect_scope_error
  | RE_Registry service_registry_error

fun reconcile_error_text :: "reconcile_error \<Rightarrow> string" where
  "reconcile_error_text (UndeclaredAssignment s) =
     ''provider assignment for undeclared service '' @ service_id_text s"
| "reconcile_error_text (UndeclaredRequirement s) =
     ''component does not require service '' @ service_id_text s"
| "reconcile_error_text (RequirementContractMismatch s expected received) =
     ''required service '' @ service_id_text s @ '' uses Rust contract '' @ expected @ '', not '' @ received"
| "reconcile_error_text (NoCurrentSelection received) =
     ''selection epoch '' @ selection_epoch_text received @ '' has no current activation''"
| "reconcile_error_text (StaleSelection expected received) =
     ''stale provider selection epoch '' @ selection_epoch_text received @ ''; current epoch is ''
     @ selection_epoch_text expected"
| "reconcile_error_text (InvalidState operation state) =
     ''cannot '' @ operation @ '' while reconciled component is '' @ kind_text state"
| "reconcile_error_text CleanupNotBlocked =
     ''cleanup abandonment requires a terminal non-clean close report''"
| "reconcile_error_text (RE_Lifecycle e) = lifecycle_error_text e"
| "reconcile_error_text (RE_EffectScope e) = effect_scope_error_text e"
| "reconcile_error_text (RE_Registry e) = registry_error_text e"

section \<open>The component\<close>

record ('u, 'f, 't) activation_resources =
  ar_selection :: provider_selection
  ar_effects :: "('u cleanup, 'f, 't) effect_scope"
  ar_stop_reason :: "component_stop_reason option"
  ar_close_report :: "close_report option"

record ('u, 'f, 't) reconciled_component =
  rc_definition :: component_definition
  rc_instance :: component_instance
  rc_activation :: "('u, 'f, 't) activation_resources option"
  rc_last_close_report :: "close_report option"

type_synonym ('u, 'f, 't, 'k, 'y, 'a) reconciling =
  "(reconcile_error, 'a) attempt \<times> ('u, 'f, 't) reconciled_component \<times> ('t, 'k, 'y) swld"

definition mount_component ::
  "component_instance_id \<Rightarrow> component_definition \<Rightarrow> scope \<Rightarrow> u64 \<Rightarrow>
     (reconcile_error, ('u, 'f, 't) reconciled_component) attempt \<times> u64" where
  "mount_component iid d s counter =
     (case new_instance iid d s counter of
        (Inl e, counter) \<Rightarrow> (Rejected (RE_Lifecycle e), counter)
      | (Inr i, counter) \<Rightarrow>
          (Accepted \<lparr>rc_definition = d, rc_instance = i, rc_activation = None,
                     rc_last_close_report = None\<rparr>, counter))"

abbreviation rc_kind :: "('u, 'f, 't) reconciled_component \<Rightarrow> component_state_kind" where
  "rc_kind c \<equiv> state_kind (inst_state (rc_instance c))"

definition rc_selection :: "('u, 'f, 't) reconciled_component \<Rightarrow> provider_selection option" where
  "rc_selection c = map_option ar_selection (rc_activation c)"

section \<open>Resolution\<close>

fun validate_assignment_keys ::
  "component_definition \<Rightarrow> (service_id \<times> provider_registration_id) list \<Rightarrow> reconcile_error + unit" where
  "validate_assignment_keys d [] = Inr ()"
| "validate_assignment_keys d ((s, p) # ps) =
     (if list_ex (\<lambda>r. required_service_id r = s) (requirements d) then validate_assignment_keys d ps
      else Inl (UndeclaredAssignment s))"

definition assignment_changes ::
  "component_definition \<Rightarrow> provider_assignments \<Rightarrow> provider_assignments \<Rightarrow> provider_change list" where
  "assignment_changes d previous next =
     List.map_filter (\<lambda>r.
       let s = required_service_id r in
       if assignment_for previous s \<noteq> assignment_for next s
       then Some \<lparr>change_service = s, change_previous = assignment_for previous s,
                  change_next = assignment_for next s\<rparr>
       else None) (requirements d)"

datatype assignment_resolution =
  Resolution_Ready "provider_candidate list" | Resolution_Pending "dependency_issue list"

definition resolve_group ::
  "provider_assignments \<Rightarrow> requirement_candidates \<Rightarrow> dependency_issue + provider_candidate" where
  "resolve_group assignments grp =
     (let s = required_service_id (group_requirement grp); candidates = group_candidates grp
      in case assignment_for assignments s of
           Some assigned \<Rightarrow>
             (case find (\<lambda>c. candidate_id c = assigned) candidates of
                Some candidate \<Rightarrow> Inr candidate
              | None \<Rightarrow> Inl (AssignedProviderUnavailable s assigned (map candidate_id candidates)))
         | None \<Rightarrow>
             (case candidates of
                [] \<Rightarrow> Inl (MissingProvider s)
              | [candidate] \<Rightarrow> Inl (Unassigned s (candidate_id candidate))
              | _ \<Rightarrow> Inl (Ambiguous s (map candidate_id candidates))))"

fun resolve_groups ::
  "provider_assignments \<Rightarrow> requirement_candidates list \<Rightarrow> provider_candidate list \<Rightarrow> dependency_issue list \<Rightarrow>
     assignment_resolution" where
  "resolve_groups a [] ps issues =
     (if issues = [] then Resolution_Ready ps else Resolution_Pending issues)"
| "resolve_groups a (g # gs) ps issues =
     (case resolve_group a g of
        Inr candidate \<Rightarrow> resolve_groups a gs (ps @ [candidate]) issues
      | Inl issue \<Rightarrow> resolve_groups a gs ps (issues @ [issue]))"

definition resolve_assignments ::
  "('t, 'k) cancellation_api \<Rightarrow> address \<Rightarrow> provider_assignments \<Rightarrow> ('u, 'f, 't) reconciled_component \<Rightarrow>
     ('t, 'k, 'y) swld \<Rightarrow> (reconcile_error + assignment_resolution) \<times> ('t, 'k, 'y) swld" where
  "resolve_assignments tk core a c w =
     (case registry_inventory tk core (requirements (rc_definition c)) (instance_scope (rc_instance c)) w of
        (Inl e, w) \<Rightarrow> (Inl (RE_Registry e), w)
      | (Inr inventory, w) \<Rightarrow> (Inr (resolve_groups a inventory [] []), w))"

definition component_readiness ::
  "('t, 'k) cancellation_api \<Rightarrow> address \<Rightarrow> provider_assignments \<Rightarrow> ('u, 'f, 't) reconciled_component \<Rightarrow>
     ('t, 'k, 'y) swld \<Rightarrow> (reconcile_error + dependency_readiness) \<times> ('t, 'k, 'y) swld" where
  "component_readiness tk core desired c w =
     (case validate_assignment_keys (rc_definition c) (assigned_providers desired) of
        Inl e \<Rightarrow> (Inl e, w)
      | Inr _ \<Rightarrow>
          (case resolve_assignments tk core desired c w of
             (Inl e, w) \<Rightarrow> (Inl e, w)
           | (Inr (Resolution_Ready _), w) \<Rightarrow> (Inr Dependencies_Ready, w)
           | (Inr (Resolution_Pending issues), w) \<Rightarrow> (Inr (Dependencies_Pending issues), w)))"

definition require_epoch ::
  "provider_selection_epoch \<Rightarrow> ('u, 'f, 't) reconciled_component \<Rightarrow> reconcile_error + unit" where
  "require_epoch received c =
     (case rc_activation c of
        None \<Rightarrow> Inl (NoCurrentSelection received)
      | Some resources \<Rightarrow>
          let expected = sel_epoch (ar_selection resources)
          in if received \<noteq> expected then Inl (StaleSelection expected received) else Inr ())"

definition require_effect_admission ::
  "provider_selection_epoch \<Rightarrow> ('u, 'f, 't) reconciled_component \<Rightarrow> reconcile_error + unit" where
  "require_effect_admission received c =
     (if rc_kind c = K_Starting \<or> rc_kind c = K_Active then require_epoch received c
      else Inl (InvalidState ''register an activation effect'' (rc_kind c)))"

section \<open>Stopping\<close>

text \<open>Dropping the close future at once seals the scope: its first statement runs when \<open>close\<close> is called.\<close>

definition component_begin_stop ::
  "('t, 'k) cancellation_api \<Rightarrow> component_stop_reason \<Rightarrow> stop_target \<Rightarrow> ('u, 'f, 't) reconciled_component \<Rightarrow>
     ('t, 'k, 'y) swld \<Rightarrow> ('u, 'f, 't, 'k, 'y, reconcile_outcome) reconciling" where
  "component_begin_stop tk reason target c w =
     (case rc_activation c of
        None \<Rightarrow> (Panic ''reconciled stop requires activation resources'', c, w)
      | Some resources \<Rightarrow>
          (let epoch = sel_epoch (ar_selection resources)
           in case begin_stop (selection_activation epoch) target (rc_instance c) of
                (Inl e, i) \<Rightarrow> (Rejected (RE_Lifecycle e), c\<lparr>rc_instance := i\<rparr>, w)
              | (Inr _, i) \<Rightarrow>
                  (let (effects, w) = begin_close tk (ar_effects resources) w
                   in (Accepted (Outcome_StopBegun epoch target reason),
                       c\<lparr>rc_instance := i,
                         rc_activation := Some (resources\<lparr>ar_stop_reason := Some reason, ar_effects := effects\<rparr>)\<rparr>,
                       w))))"

definition stopping_outcome ::
  "stop_target \<Rightarrow> ('u, 'f, 't) reconciled_component \<Rightarrow> (reconcile_error, reconcile_outcome) attempt" where
  "stopping_outcome target c =
     (case rc_activation c of
        None \<Rightarrow> Panic ''reconciled stopping state owns activation resources''
      | Some resources \<Rightarrow>
          (case ar_stop_reason resources of
             None \<Rightarrow> Panic ''reconciled stopping state records a reason''
           | Some reason \<Rightarrow>
               Accepted (Outcome_Stopping (sel_epoch (ar_selection resources)) target reason
                 (case ar_close_report resources of None \<Rightarrow> False | Some report \<Rightarrow> \<not> is_clean report))))"

section \<open>Reconciliation\<close>

definition reconcile_pending ::
  "('t, 'k) cancellation_api \<Rightarrow> address \<Rightarrow> provider_assignments \<Rightarrow> ('u, 'f, 't) reconciled_component \<Rightarrow>
     ('t, 'k, 'y) swld \<Rightarrow> ('u, 'f, 't, 'k, 'y, reconcile_outcome) reconciling" where
  "reconcile_pending tk core desired c w =
     (if rc_activation c \<noteq> None then (Panic ''assertion failed: self.activation.is_none()'', c, w)
      else case resolve_assignments tk core desired c w of
        (Inl e, w) \<Rightarrow> (Rejected e, c, w)
      | (Inr (Resolution_Pending issues), w) \<Rightarrow>
          (Accepted (Outcome_Pending (Dependencies_Pending issues)), c, w)
      | (Inr (Resolution_Ready ps), w) \<Rightarrow>
          (case begin_start (rc_instance c) of
             (Inl e, i) \<Rightarrow> (Rejected (RE_Lifecycle e), c\<lparr>rc_instance := i\<rparr>, w)
           | (Inr activation, i) \<Rightarrow>
               (case new_scope tk (instance_id_text (instance_id i) @ '' activation '' @ epoch_text activation)
                       activation w of
                  (Inl error, w) \<Rightarrow>
                    (case begin_stop activation Target_Pending i of
                       (Inl e, i) \<Rightarrow> (Rejected (RE_Lifecycle e), c\<lparr>rc_instance := i\<rparr>, w)
                     | (Inr _, i) \<Rightarrow>
                         (case complete_stop activation i of
                            (Inl e, i) \<Rightarrow> (Rejected (RE_Lifecycle e), c\<lparr>rc_instance := i\<rparr>, w)
                          | (Inr _, i) \<Rightarrow> (Rejected (RE_EffectScope error), c\<lparr>rc_instance := i\<rparr>, w)))
                | (Inr effects, w) \<Rightarrow>
                    (let selection = new_selection (instance_id i) activation desired ps
                     in (Accepted (Outcome_StartBegun selection),
                         c\<lparr>rc_instance := i,
                           rc_activation := Some \<lparr>ar_selection = selection, ar_effects = effects,
                             ar_stop_reason = None, ar_close_report = None\<rparr>\<rparr>, w)))))"

definition reconcile_live ::
  "('t, 'k) cancellation_api \<Rightarrow> address \<Rightarrow> provider_assignments \<Rightarrow> component_state_kind \<Rightarrow>
     ('u, 'f, 't) reconciled_component \<Rightarrow> ('t, 'k, 'y) swld \<Rightarrow>
     ('u, 'f, 't, 'k, 'y, reconcile_outcome) reconciling" where
  "reconcile_live tk core desired state c w =
     (case rc_activation c of
        None \<Rightarrow> (Panic ''a live reconciled component owns activation resources'', c, w)
      | Some resources \<Rightarrow>
          (let epoch = sel_epoch (ar_selection resources);
               committed = sel_assignments (ar_selection resources)
           in if desired \<noteq> committed
              then component_begin_stop tk
                     (Stop_Dependency (AssignmentChanged
                        (assignment_changes (rc_definition c) committed desired))) Target_Pending c w
              else case resolve_assignments tk core committed c w of
                (Inl e, w) \<Rightarrow> (Rejected e, c, w)
              | (Inr (Resolution_Pending issues), w) \<Rightarrow>
                  component_begin_stop tk (Stop_Dependency (Provider_Unavailable issues)) Target_Pending c w
              | (Inr (Resolution_Ready _), w) \<Rightarrow>
                  (case state of
                     K_Starting \<Rightarrow> (Accepted (Outcome_AwaitingStart epoch), c, w)
                   | K_Active \<Rightarrow> (Accepted (Outcome_Active epoch), c, w)
                   | _ \<Rightarrow> (Panic ''only starting and active states call reconcile_live'', c, w))))"

definition reconcile ::
  "('t, 'k) cancellation_api \<Rightarrow> address \<Rightarrow> provider_assignments \<Rightarrow> ('u, 'f, 't) reconciled_component \<Rightarrow>
     ('t, 'k, 'y) swld \<Rightarrow> ('u, 'f, 't, 'k, 'y, reconcile_outcome) reconciling" where
  "reconcile tk core desired c w =
     (let valid = validate_assignment_keys (rc_definition c) (assigned_providers desired)
      in case inst_state (rc_instance c) of
        Pending \<Rightarrow>
          (case valid of Inl e \<Rightarrow> (Rejected e, c, w) | Inr _ \<Rightarrow> reconcile_pending tk core desired c w)
      | Starting _ \<Rightarrow>
          (case valid of Inl e \<Rightarrow> (Rejected e, c, w)
           | Inr _ \<Rightarrow> reconcile_live tk core desired K_Starting c w)
      | State_Active _ \<Rightarrow>
          (case valid of Inl e \<Rightarrow> (Rejected e, c, w)
           | Inr _ \<Rightarrow> reconcile_live tk core desired K_Active c w)
      | Failed _ _ \<Rightarrow> (Rejected (InvalidState ''reconcile dependencies'' K_Failed), c, w)
      | Stopping _ target _ \<Rightarrow> (stopping_outcome target c, c, w)
      | Removed \<Rightarrow> (Accepted Outcome_Removed, c, w))"

section \<open>Using an activation\<close>

definition component_bind ::
  "('t, 'k) cancellation_api \<Rightarrow> address \<Rightarrow> provider_selection_epoch \<Rightarrow> required_service \<Rightarrow>
     ('u, 'f, 't) reconciled_component \<Rightarrow> ('t, 'k, 'y) swld \<Rightarrow>
     (reconcile_error, 't service_handle) attempt \<times> ('t, 'k, 'y) swld" where
  "component_bind tk core epoch requirement c w =
     (if rc_kind c \<noteq> K_Starting then (Rejected (InvalidState ''bind dependencies'' (rc_kind c)), w)
      else case require_epoch epoch c of
        Inl e \<Rightarrow> (Rejected e, w)
      | Inr _ \<Rightarrow>
          (case rc_activation c of
             None \<Rightarrow> (Panic ''selection epoch validation requires activation resources'', w)
           | Some resources \<Rightarrow>
               (case find (\<lambda>d. required_service_id d = required_service_id requirement)
                       (requirements (rc_definition c)) of
                  None \<Rightarrow> (Rejected (UndeclaredRequirement (required_service_id requirement)), w)
                | Some declared \<Rightarrow>
                    if required_contract declared \<noteq> required_contract requirement
                    then (Rejected (RequirementContractMismatch (required_service_id requirement)
                            (contract_type_name (required_contract declared))
                            (contract_type_name (required_contract requirement))), w)
                    else case assignment_for (sel_assignments (ar_selection resources))
                                (required_service_id requirement) of
                      None \<Rightarrow> (Panic ''a committed selection covers every frozen requirement'', w)
                    | Some p \<Rightarrow>
                        (case bind_service tk core (rc_instance c) (ar_effects resources) requirement p w of
                           (Inl e, w) \<Rightarrow> (Rejected (RE_Registry e), w)
                         | (Inr h, w) \<Rightarrow> (Accepted h, w)))))"

definition with_effects ::
  "('u cleanup, 'f, 't) effect_scope \<Rightarrow> ('u, 'f, 't) reconciled_component \<Rightarrow> ('u, 'f, 't) reconciled_component" where
  "with_effects effects c = c\<lparr>rc_activation := map_option (ar_effects_update (\<lambda>_. effects)) (rc_activation c)\<rparr>"

definition component_provide ::
  "address \<Rightarrow> provider_selection_epoch \<Rightarrow> service_provider \<Rightarrow> ('u, 'f, 't) reconciled_component \<Rightarrow>
     ('t, 'k, 'y) swld \<Rightarrow> ('u, 'f, 't, 'k, 'y, provider_candidate) reconciling" where
  "component_provide core epoch provider c w =
     (if rc_kind c \<noteq> K_Active
      then (Rejected (InvalidState ''publish a service'' (rc_kind c)), c, drop_strong (sp_value provider) w)
      else case require_epoch epoch c of
        Inl e \<Rightarrow> (Rejected e, c, drop_strong (sp_value provider) w)
      | Inr _ \<Rightarrow>
          (case rc_activation c of
             None \<Rightarrow> (Panic ''an active reconciled component owns activation resources'', c, w)
           | Some resources \<Rightarrow>
               (let (r, effects, w) = provide core (rc_instance c) provider (ar_effects resources) w
                in (map_rejected RE_Registry r, with_effects effects c, w))))"

definition component_defer ::
  "(('u cleanup, 'f, 't) effect_scope \<Rightarrow>
      (effect_scope_error + effect_registration_id) \<times> ('u cleanup, 'f, 't) effect_scope) \<Rightarrow>
     provider_selection_epoch \<Rightarrow> ('u, 'f, 't) reconciled_component \<Rightarrow>
     (reconcile_error, effect_registration_id) attempt \<times> ('u, 'f, 't) reconciled_component" where
  "component_defer defer epoch c =
     (case require_effect_admission epoch c of
        Inl e \<Rightarrow> (Rejected e, c)
      | Inr _ \<Rightarrow>
          (case rc_activation c of
             None \<Rightarrow> (Panic ''a live reconciled activation owns effects'', c)
           | Some resources \<Rightarrow>
               (case defer (ar_effects resources) of
                  (Inl e, effects) \<Rightarrow> (Rejected (RE_EffectScope e), with_effects effects c)
                | (Inr r, effects) \<Rightarrow> (Accepted r, with_effects effects c))))"

definition component_defer_sync where
  "component_defer_sync epoch label cleanup c = component_defer (defer_sync label (User_Cleanup cleanup)) epoch c"

definition component_defer_async where
  "component_defer_async epoch label cleanup c = component_defer (defer_async label (User_Cleanup cleanup)) epoch c"

text \<open>\<open>resources\<close>, and the observers \<open>activity\<close> and \<open>cancellation\<close> that use it.\<close>

definition component_resources ::
  "provider_selection_epoch \<Rightarrow> ('u, 'f, 't) reconciled_component \<Rightarrow>
     (reconcile_error, ('u, 'f, 't) activation_resources) attempt" where
  "component_resources epoch c =
     (case require_epoch epoch c of
        Inl e \<Rightarrow> Rejected e
      | Inr _ \<Rightarrow>
          (case rc_activation c of
             None \<Rightarrow> Panic ''selection epoch validation requires activation resources''
           | Some resources \<Rightarrow> Accepted resources))"

definition fail_activation ::
  "('t, 'k) cancellation_api \<Rightarrow> provider_selection_epoch \<Rightarrow> string \<Rightarrow> ('u, 'f, 't) reconciled_component \<Rightarrow>
     ('t, 'k, 'y) swld \<Rightarrow> ('u, 'f, 't, 'k, 'y, reconcile_outcome) reconciling" where
  "fail_activation tk epoch summary c w =
     (case require_epoch epoch c of
        Inl e \<Rightarrow> (Rejected e, c, w)
      | Inr _ \<Rightarrow>
          (case mark_failed (selection_activation epoch) summary (rc_instance c) of
             (Inl e, i) \<Rightarrow> (Rejected (RE_Lifecycle e), c\<lparr>rc_instance := i\<rparr>, w)
           | (Inr _, i) \<Rightarrow>
               (let c = c\<lparr>rc_instance := i\<rparr> in
                case last_failure i of
                  None \<Rightarrow> (Panic ''a successful failure transition retains diagnostics'', c, w)
                | Some failure \<Rightarrow> component_begin_stop tk (Stop_ActivationFailed failure) Target_Pending c w)))"

definition component_complete_start ::
  "('t, 'k) cancellation_api \<Rightarrow> address \<Rightarrow> provider_selection_epoch \<Rightarrow> provider_assignments \<Rightarrow>
     ('u, 'f, 't) reconciled_component \<Rightarrow> ('t, 'k, 'y) swld \<Rightarrow>
     ('u, 'f, 't, 'k, 'y, reconcile_outcome) reconciling" where
  "component_complete_start tk core epoch desired c w =
     (case validate_assignment_keys (rc_definition c) (assigned_providers desired) of
        Inl e \<Rightarrow> (Rejected e, c, w)
      | Inr _ \<Rightarrow>
        if rc_kind c \<noteq> K_Starting then (Rejected (InvalidState ''complete start'' (rc_kind c)), c, w)
        else case require_epoch epoch c of
          Inl e \<Rightarrow> (Rejected e, c, w)
        | Inr _ \<Rightarrow>
          (case rc_selection c of
             None \<Rightarrow> (Panic ''a starting reconciled component owns a selection'', c, w)
           | Some selection \<Rightarrow>
               (let committed = sel_assignments selection
                in if desired \<noteq> committed
                   then component_begin_stop tk
                          (Stop_Dependency (AssignmentChanged
                             (assignment_changes (rc_definition c) committed desired))) Target_Pending c w
                   else case resolve_assignments tk core committed c w of
                     (Inl e, w) \<Rightarrow> (Rejected e, c, w)
                   | (Inr (Resolution_Ready _), w) \<Rightarrow>
                       (case complete_start (selection_activation epoch) (rc_instance c) of
                          (Inl e, i) \<Rightarrow> (Rejected (RE_Lifecycle e), c\<lparr>rc_instance := i\<rparr>, w)
                        | (Inr _, i) \<Rightarrow> (Accepted (Outcome_Active epoch), c\<lparr>rc_instance := i\<rparr>, w))
                   | (Inr (Resolution_Pending issues), w) \<Rightarrow>
                       component_begin_stop tk (Stop_Dependency (Provider_Unavailable issues))
                         Target_Pending c w)))"

section \<open>Finishing a stop\<close>

text \<open>Clearing the activation drops its resources, and with them the effect scope.\<close>

definition finish_completed ::
  "('t, 'k) cancellation_api \<Rightarrow> provider_selection_epoch \<Rightarrow> stop_completion \<Rightarrow> ('u, 'f, 't) activation_resources \<Rightarrow>
     ('u, 'f, 't) reconciled_component \<Rightarrow> ('t, 'k, 'y) swld \<Rightarrow>
     ('u, 'f, 't, 'k, 'y, stop_completion) reconciling" where
  "finish_completed tk epoch completion resources c w =
     (case complete_stop (selection_activation epoch) (rc_instance c) of
        (Inl e, i) \<Rightarrow> (Rejected (RE_Lifecycle e), c\<lparr>rc_instance := i\<rparr>, w)
      | (Inr _, i) \<Rightarrow>
          (Accepted completion, c\<lparr>rc_instance := i, rc_activation := None\<rparr>,
           drop_scope tk (ar_effects resources) w))"

text \<open>One poll of \<open>finish_stop\<close>: \<open>None\<close> while the close is pending.\<close>

definition poll_finish_stop ::
  "('t, 'k) cancellation_api \<Rightarrow> ('u, 'f, 'k, ('t, 'y) service_heap) callback_api \<Rightarrow> provider_selection_epoch \<Rightarrow>
     ('u, 'f, 't) reconciled_component \<Rightarrow> ('t, 'k, 'y) swld \<Rightarrow>
     (reconcile_error, stop_completion) attempt option \<times> ('u, 'f, 't) reconciled_component \<times> ('t, 'k, 'y) swld" where
  "poll_finish_stop tk ub epoch c w =
     (if rc_kind c \<noteq> K_Stopping
      then (Some (Rejected (InvalidState ''finish stop'' (rc_kind c))), c, w)
      else case require_epoch epoch c of
        Inl e \<Rightarrow> (Some (Rejected e), c, w)
      | Inr _ \<Rightarrow>
          (case inst_state (rc_instance c) of
             Stopping _ target _ \<Rightarrow>
               (case rc_activation c of
                  None \<Rightarrow> (Some (Panic ''a stopping reconciled component records its reason''), c, w)
                | Some resources \<Rightarrow>
                    (case ar_stop_reason resources of
                       None \<Rightarrow> (Some (Panic ''a stopping reconciled component records its reason''), c, w)
                     | Some reason \<Rightarrow>
                         (case poll_close tk (service_callbacks ub) (ar_effects resources) w of
                            (None, effects, w) \<Rightarrow> (None, with_effects effects c, w)
                          | (Some report, effects, w) \<Rightarrow>
                              (let resources = resources\<lparr>ar_effects := effects, ar_close_report := Some report\<rparr>;
                                   c = c\<lparr>rc_last_close_report := Some report, rc_activation := Some resources\<rparr>
                               in if \<not> is_clean report
                                  then (Some (Accepted (Stop_Blocked epoch target reason report)), c, w)
                                  else let (r, c, w) = finish_completed tk epoch
                                             (Stop_Completed epoch target reason report) resources c w
                                       in (Some r, c, w)))))
           | _ \<Rightarrow> (Some (Panic ''finish_stop validates the stopping state''), c, w)))"

definition request_component_stop ::
  "('t, 'k) cancellation_api \<Rightarrow> desired_stop_reason \<Rightarrow> stop_target \<Rightarrow> ('u, 'f, 't) reconciled_component \<Rightarrow>
     ('t, 'k, 'y) swld \<Rightarrow> ('u, 'f, 't, 'k, 'y, reconcile_outcome) reconciling" where
  "request_component_stop tk reason target c w =
     (case inst_state (rc_instance c) of
        Pending \<Rightarrow>
          if target \<noteq> Target_Removed
          then (Rejected (InvalidState ''stop a pending component without removing it'' K_Pending), c, w)
          else (case remove_pending (rc_instance c) of
                  (Inl e, i) \<Rightarrow> (Rejected (RE_Lifecycle e), c\<lparr>rc_instance := i\<rparr>, w)
                | (Inr _, i) \<Rightarrow> (Accepted Outcome_Removed, c\<lparr>rc_instance := i\<rparr>, w))
      | Starting _ \<Rightarrow> component_begin_stop tk (Stop_Desired reason) target c w
      | State_Active _ \<Rightarrow> component_begin_stop tk (Stop_Desired reason) target c w
      | Failed _ _ \<Rightarrow> component_begin_stop tk (Stop_Desired reason) target c w
      | Stopping _ target _ \<Rightarrow> (stopping_outcome target c, c, w)
      | Removed \<Rightarrow> (Accepted Outcome_Removed, c, w))"

definition abandon_failed_cleanup ::
  "('t, 'k) cancellation_api \<Rightarrow> provider_selection_epoch \<Rightarrow> ('u, 'f, 't) reconciled_component \<Rightarrow>
     ('t, 'k, 'y) swld \<Rightarrow> ('u, 'f, 't, 'k, 'y, stop_completion) reconciling" where
  "abandon_failed_cleanup tk epoch c w =
     (if rc_kind c \<noteq> K_Stopping
      then (Rejected (InvalidState ''abandon failed cleanup'' (rc_kind c)), c, w)
      else case require_epoch epoch c of
        Inl e \<Rightarrow> (Rejected e, c, w)
      | Inr _ \<Rightarrow>
          (case (inst_state (rc_instance c), rc_activation c) of
             (Stopping _ target _, Some resources) \<Rightarrow>
               (case ar_close_report resources of
                  None \<Rightarrow> (Rejected CleanupNotBlocked, c, w)
                | Some report \<Rightarrow>
                    if is_clean report then (Rejected CleanupNotBlocked, c, w)
                    else (case ar_stop_reason resources of
                            None \<Rightarrow> (Panic ''a blocked reconciled component records its stop reason'', c, w)
                          | Some reason \<Rightarrow>
                              finish_completed tk epoch (Stop_Abandoned epoch target reason report) resources c w))
           | (Stopping _ target _, None) \<Rightarrow> (Rejected CleanupNotBlocked, c, w)
           | _ \<Rightarrow> (Panic ''cleanup abandonment validates the stopping state'', c, w)))"

section \<open>Resolution, declaratively\<close>

text \<open>An assignment is ready for an inventory when it names a listed candidate for every requirement.\<close>

definition group_ready :: "provider_assignments \<Rightarrow> requirement_candidates \<Rightarrow> bool" where
  "group_ready a g \<longleftrightarrow>
     (\<exists>c \<in> set (group_candidates g).
        assignment_for a (required_service_id (group_requirement g)) = Some (candidate_id c))"

lemma resolve_group_ready: "(\<exists>c. resolve_group a g = Inr c) \<longleftrightarrow> group_ready a g"
proof (cases "assignment_for a (required_service_id (group_requirement g))")
  case None
  then show ?thesis
    by (auto simp: resolve_group_def group_ready_def Let_def split: list.splits)
next
  case (Some p)
  then show ?thesis
    by (auto simp: resolve_group_def group_ready_def Let_def find_None_iff find_Some_iff split: option.splits)
qed

lemma resolve_group_Inr:
  "resolve_group a g = Inr c \<Longrightarrow>
     c \<in> set (group_candidates g) \<and>
     assignment_for a (required_service_id (group_requirement g)) = Some (candidate_id c)"
  by (auto simp: resolve_group_def Let_def find_Some_iff split: option.splits list.splits)

lemma resolve_group_Inl:
  "resolve_group a g = Inl i \<Longrightarrow> issue_service i = required_service_id (group_requirement g)"
  by (auto simp: resolve_group_def Let_def split: option.splits list.splits)

lemma resolve_groups_cases:
  "resolve_groups a gs ps issues =
     (if issues = [] \<and> list_all (group_ready a) gs
      then Resolution_Ready (ps @ map (\<lambda>g. projr (resolve_group a g)) gs)
      else Resolution_Pending (issues @ List.map_filter
             (\<lambda>g. case resolve_group a g of Inl i \<Rightarrow> Some i | Inr _ \<Rightarrow> None) gs))"
proof (induction gs arbitrary: ps issues)
  case Nil
  then show ?case by (simp add: map_filter_simps)
next
  case (Cons g gs)
  show ?case
  proof (cases "resolve_group a g")
    case (Inl i)
    then have "\<not> group_ready a g" using resolve_group_ready [of a g] by simp
    with Inl Cons show ?thesis by (simp add: map_filter_simps)
  next
    case (Inr c)
    then have "group_ready a g" using resolve_group_ready [of a g] by blast
    with Inr Cons show ?thesis by (simp add: map_filter_simps)
  qed
qed

text \<open>What a resolution of a component's requirements reads: the inventory of the registry.\<close>

definition inventory_of ::
  "('t, 'k) cancellation_api \<Rightarrow> address \<Rightarrow> ('u, 'f, 't) reconciled_component \<Rightarrow> ('t, 'k, 'y) swld \<Rightarrow>
     service_registry_error + requirement_candidates list" where
  "inventory_of tk core c w =
     fst (registry_inventory tk core (requirements (rc_definition c)) (instance_scope (rc_instance c)) w)"

definition satisfied ::
  "('t, 'k) cancellation_api \<Rightarrow> address \<Rightarrow> provider_assignments \<Rightarrow> ('u, 'f, 't) reconciled_component \<Rightarrow>
     ('t, 'k, 'y) swld \<Rightarrow> bool" where
  "satisfied tk core a c w \<longleftrightarrow>
     (case inventory_of tk core c w of Inl _ \<Rightarrow> False | Inr gs \<Rightarrow> list_all (group_ready a) gs)"

lemma inventory_groups:
  "inventory_of tk core c w = Inr gs \<Longrightarrow> map group_requirement gs = requirements (rc_definition c)"
  by (auto simp: inventory_of_def registry_inventory_def requirement_group_def comp_def
      split: prod.splits sum.splits)

lemma resolve_ready:
  assumes "resolve_assignments tk core a c w = (Inr (Resolution_Ready ps), w')"
  shows "satisfied tk core a c w"
    and "map candidate_id ps =
      map (\<lambda>r. the (assignment_for a (required_service_id r))) (requirements (rc_definition c))"
    and "\<forall>r \<in> set (requirements (rc_definition c)). assignment_for a (required_service_id r) \<noteq> None"
proof -
  obtain gs where gs: "inventory_of tk core c w = Inr gs" "resolve_groups a gs [] [] = Resolution_Ready ps"
    using assms by (auto simp: resolve_assignments_def inventory_of_def split: prod.splits sum.splits)
  then have ready: "list_all (group_ready a) gs" "ps = map (\<lambda>g. projr (resolve_group a g)) gs"
    by (auto simp: resolve_groups_cases split: if_splits)
  then show "satisfied tk core a c w" using gs(1) by (simp add: satisfied_def)
  have each: "assignment_for a (required_service_id (group_requirement g))
      = Some (candidate_id (projr (resolve_group a g)))" if "g \<in> set gs" for g
  proof -
    have "group_ready a g" using ready(1) that by (simp add: list_all_iff)
    then obtain k where "resolve_group a g = Inr k" using resolve_group_ready by blast
    with resolve_group_Inr [OF this] show ?thesis by simp
  qed
  have reqs: "requirements (rc_definition c) = map group_requirement gs" using inventory_groups [OF gs(1)] by simp
  from each show "map candidate_id ps =
      map (\<lambda>r. the (assignment_for a (required_service_id r))) (requirements (rc_definition c))"
    unfolding reqs ready(2) by simp
  from each show "\<forall>r \<in> set (requirements (rc_definition c)). assignment_for a (required_service_id r) \<noteq> None"
    unfolding reqs by simp
qed

lemma resolve_pending:
  assumes "resolve_assignments tk core a c w = (Inr (Resolution_Pending issues), w')"
  shows "\<not> satisfied tk core a c w" and "issues \<noteq> []"
proof -
  obtain gs where gs: "inventory_of tk core c w = Inr gs" "resolve_groups a gs [] [] = Resolution_Pending issues"
    using assms by (auto simp: resolve_assignments_def inventory_of_def split: prod.splits sum.splits)
  then have p: "\<not> list_all (group_ready a) gs" and i: "issues = List.map_filter
      (\<lambda>g. case resolve_group a g of Inl i \<Rightarrow> Some i | Inr _ \<Rightarrow> None) gs"
    by (auto simp: resolve_groups_cases split: if_splits)
  then show "\<not> satisfied tk core a c w" using gs(1) by (simp add: satisfied_def)
  obtain g where g: "g \<in> set gs" "\<not> group_ready a g" using p by (auto simp: list_all_iff)
  then obtain x where "resolve_group a g = Inl x" using resolve_group_ready [of a g] by (cases "resolve_group a g") auto
  with g(1) show "issues \<noteq> []" unfolding i by (force simp: map_filter_def filter_empty_conv)
qed

lemma resolve_error:
  "resolve_assignments tk core a c w = (Inl e, w') \<Longrightarrow> \<not> satisfied tk core a c w"
  by (auto simp: resolve_assignments_def satisfied_def inventory_of_def split: prod.splits sum.splits)

end
