(* ===== verification/Compose_Convergence.thy ===== *)
theory Compose_Convergence
  imports Compose_Reconcile
begin

text \<open>
  What reconciliation guarantees: the invariant of a reconciled component and that no \<open>expect\<close> of the
  source can fail, the fencing of stale selection epochs, when an activation stays up, that an
  activation never starts before its predecessor's teardown is over, and how a teardown is completed,
  blocked or abandoned.
\<close>

section \<open>The invariant\<close>

definition covers :: "component_definition \<Rightarrow> provider_assignments \<Rightarrow> bool" where
  "covers d a \<longleftrightarrow> (\<forall>r \<in> set (requirements d). assignment_for a (required_service_id r) \<noteq> None)"

definition resources_for ::
  "component_definition \<Rightarrow> activation_epoch \<Rightarrow> ('u, 'f, 't) activation_resources \<Rightarrow> bool" where
  "resources_for d a r \<longleftrightarrow>
     sel_epoch (ar_selection r) = ProviderSelectionEpoch a \<and> es_activation (ar_effects r) = a \<and>
     covers d (sel_assignments (ar_selection r))"

text \<open>Resources of an activation that runs, and of one that is being torn down.\<close>

definition live_resources ::
  "component_definition \<Rightarrow> activation_epoch \<Rightarrow> ('u, 'f, 't) activation_resources \<Rightarrow> bool" where
  "live_resources d a r \<longleftrightarrow>
     resources_for d a r \<and> es_state (ar_effects r) = Scope_Is_Open \<and> ar_stop_reason r = None \<and>
     ar_close_report r = None"

definition stopping_resources ::
  "component_definition \<Rightarrow> activation_epoch \<Rightarrow> ('u, 'f, 't) activation_resources \<Rightarrow> bool" where
  "stopping_resources d a r \<longleftrightarrow>
     resources_for d a r \<and> es_state (ar_effects r) \<noteq> Scope_Is_Open \<and> ar_stop_reason r \<noteq> None \<and>
     closed_report (ar_effects r) = ar_close_report r \<and>
     (\<forall>report. ar_close_report r = Some report \<longrightarrow> \<not> is_clean report)"

definition component_ok :: "('u, 'f, 't) reconciled_component \<Rightarrow> bool" where
  "component_ok c \<longleftrightarrow>
     instance_ok (rc_instance c) \<and>
     (case inst_state (rc_instance c) of
        Pending \<Rightarrow> rc_activation c = None
      | Removed \<Rightarrow> rc_activation c = None
      | Failed _ _ \<Rightarrow> False
      | Starting a \<Rightarrow> (\<exists>r. rc_activation c = Some r \<and> live_resources (rc_definition c) a r)
      | State_Active a \<Rightarrow> (\<exists>r. rc_activation c = Some r \<and> live_resources (rc_definition c) a r)
      | Stopping a _ _ \<Rightarrow> (\<exists>r. rc_activation c = Some r \<and> stopping_resources (rc_definition c) a r))"

lemma mount_ok:
  "mount_component iid d s n = (Accepted c, n') \<Longrightarrow> component_ok c"
  by (auto simp: mount_component_def new_instance_def component_ok_def instance_ok_def u64_checked_succ_def
      split: prod.splits sum.splits option.splits if_splits)

text \<open>The states in which an activation is owned, and what is owned then.\<close>

lemma component_ok_activation:
  assumes "component_ok c" and "rc_activation c = Some r"
  obtains (live) a where "inst_state (rc_instance c) = Starting a \<or> inst_state (rc_instance c) = State_Active a"
      "live_resources (rc_definition c) a r"
  | (stopping) a target f where "inst_state (rc_instance c) = Stopping a target f"
      "stopping_resources (rc_definition c) a r"
  using assms by (cases "inst_state (rc_instance c)") (auto simp: component_ok_def)

lemma activation_epoch_ok:
  assumes "component_ok c" and "rc_activation c = Some r"
  shows "state_activation (inst_state (rc_instance c)) = Some (selection_activation (sel_epoch (ar_selection r)))"
  using assms
  by (cases rule: component_ok_activation)
    (auto simp: live_resources_def stopping_resources_def resources_for_def)

lemma require_epoch_Inr:
  "require_epoch e c = Inr u \<longleftrightarrow> (\<exists>r. rc_activation c = Some r \<and> e = sel_epoch (ar_selection r))"
  by (auto simp: require_epoch_def Let_def split: option.splits)

section \<open>Each operation keeps it\<close>

lemma begin_close_open:
  assumes "es_state sc = Scope_Is_Open" and "begin_close tk sc w = (sc', w')"
  shows "es_id sc' = es_id sc" and "es_state sc' = Scope_Is_Closing" and "closed_report sc' = None"
    and "w' = request_stop_of tk sc w"
  using assms
  by (cases sc; auto simp: begin_close_def es_state_def closed_report_def split: scope_storage.splits)+

lemma begin_stop_live:
  assumes "inst_state i = Starting a \<or> inst_state i = State_Active a \<or> (\<exists>f. inst_state i = Failed a f)"
  shows "\<exists>f. begin_stop a target i = (Inr (), i\<lparr>inst_state := Stopping a target f\<rparr>) \<and>
    (instance_ok i \<longrightarrow> instance_ok (i\<lparr>inst_state := Stopping a target f\<rparr>))"
  using assms by (auto simp: begin_stop_def require_activation_def instance_ok_def)

lemma component_begin_stop_spec:
  assumes "inst_state (rc_instance c) = Starting a \<or> inst_state (rc_instance c) = State_Active a \<or>
      (\<exists>f. inst_state (rc_instance c) = Failed a f)"
    and "rc_activation c = Some r" and "live_resources (rc_definition c) a r" and "instance_ok (rc_instance c)"
    and "component_begin_stop tk reason target c w = (res, c', w')"
  shows "res = Accepted (Outcome_StopBegun (ProviderSelectionEpoch a) target reason)"
    and "component_ok c'" and "w' = request_stop_of tk (ar_effects r) w"
    and "\<exists>f. inst_state (rc_instance c') = Stopping a target f"
    and "rc_definition c' = rc_definition c" and "\<exists>r'. rc_activation c' = Some r' \<and>
      ar_selection r' = ar_selection r \<and> ar_stop_reason r' = Some reason \<and> es_state (ar_effects r') = Scope_Is_Closing"
    and "last_failure (rc_instance c') = last_failure (rc_instance c)"
proof -
  obtain f where f: "begin_stop a target (rc_instance c) = (Inr (), (rc_instance c)\<lparr>inst_state := Stopping a target f\<rparr>)"
    "instance_ok ((rc_instance c)\<lparr>inst_state := Stopping a target f\<rparr>)"
    using begin_stop_live [OF assms(1)] assms(4) by blast
  have e: "sel_epoch (ar_selection r) = ProviderSelectionEpoch a" "es_state (ar_effects r) = Scope_Is_Open"
    using assms(3) by (auto simp: live_resources_def resources_for_def)
  obtain sc w1 where b: "begin_close tk (ar_effects r) w = (sc, w1)" by fastforce
  note sealed = begin_close_open [OF e(2) b]
  have eq: "res = Accepted (Outcome_StopBegun (ProviderSelectionEpoch a) target reason)"
    "c' = c\<lparr>rc_instance := (rc_instance c)\<lparr>inst_state := Stopping a target f\<rparr>,
       rc_activation := Some (r\<lparr>ar_stop_reason := Some reason, ar_effects := sc\<rparr>)\<rparr>" "w' = w1"
    using assms(2,5) f(1) e(1) b by (simp_all add: component_begin_stop_def)
  have "stopping_resources (rc_definition c) a (r\<lparr>ar_stop_reason := Some reason, ar_effects := sc\<rparr>)"
    using assms(3) sealed
    by (auto simp: live_resources_def stopping_resources_def resources_for_def es_activation_def)
  with eq f(2) show "component_ok c'" by (simp add: component_ok_def)
  show "res = Accepted (Outcome_StopBegun (ProviderSelectionEpoch a) target reason)" by (rule eq(1))
  show "w' = request_stop_of tk (ar_effects r) w" using eq(3) sealed(4) by simp
  show "\<exists>f. inst_state (rc_instance c') = Stopping a target f" "rc_definition c' = rc_definition c"
    "last_failure (rc_instance c') = last_failure (rc_instance c)"
    "\<exists>r'. rc_activation c' = Some r' \<and> ar_selection r' = ar_selection r \<and>
      ar_stop_reason r' = Some reason \<and> es_state (ar_effects r') = Scope_Is_Closing"
    using eq(2) sealed(2) by simp_all
qed

lemma stopping_outcome_ok:
  assumes "component_ok c" and "inst_state (rc_instance c) = Stopping a target f"
  shows "\<exists>r reason. rc_activation c = Some r \<and> ar_stop_reason r = Some reason \<and>
    stopping_outcome target c =
      Accepted (Outcome_Stopping (ProviderSelectionEpoch a) target reason (ar_close_report r \<noteq> None))"
  using assms
  by (auto simp: component_ok_def stopping_outcome_def stopping_resources_def resources_for_def
      split: option.splits)

lemma new_scope_open:
  "new_scope tk l a w = (Inr sc, w') \<Longrightarrow> es_activation sc = a \<and> es_state sc = Scope_Is_Open"
  by (auto simp: new_scope_def allocate_scope_id_def es_activation_def es_state_def
      split: prod.splits option.splits)

lemma begin_start_pending:
  assumes "inst_state i = Pending" and "instance_ok i" and "begin_start i = (x, i')"
  shows "case x of Inl e \<Rightarrow> i' = i
    | Inr a \<Rightarrow> inst_state i' = Starting a \<and> instance_ok i' \<and>
        a = ActivationEpoch (incarnation i) (last_activation i + 1) \<and>
        complete_stop a (snd (begin_stop a Target_Pending i')) = (Inr (), i'\<lparr>inst_state := Pending\<rparr>) \<and>
        fst (begin_stop a Target_Pending i') = Inr () \<and> instance_ok (i'\<lparr>inst_state := Pending\<rparr>)"
  using assms
  by (auto simp: begin_start_def begin_stop_def complete_stop_def require_activation_def instance_ok_def Let_def
      u64_checked_succ_def split: if_splits)

lemma reconcile_pending_spec:
  assumes "component_ok c" and "inst_state (rc_instance c) = Pending"
    and "reconcile_pending tk core desired c w = (res, c', w')"
  shows "component_ok c' \<and> rc_definition c' = rc_definition c \<and>
    (case res of
       Panic m \<Rightarrow> False
     | Rejected e \<Rightarrow> rc_activation c' = None \<and> inst_state (rc_instance c') = Pending
     | Accepted out \<Rightarrow>
         (\<exists>issues. out = Outcome_Pending (Dependencies_Pending issues) \<and> c' = c \<and> issues \<noteq> [] \<and>
            \<not> satisfied tk core desired c w) \<or>
         (\<exists>a r. out = Outcome_StartBegun (ar_selection r) \<and> satisfied tk core desired c w \<and>
            inst_state (rc_instance c') = Starting a \<and> rc_activation c' = Some r \<and>
            a = ActivationEpoch (incarnation (rc_instance c)) (last_activation (rc_instance c) + 1) \<and>
            sel_assignments (ar_selection r) = desired \<and>
            map candidate_id (sel_providers (ar_selection r)) =
              map (\<lambda>r. the (assignment_for desired (required_service_id r))) (requirements (rc_definition c))))"
proof -
  have none: "rc_activation c = None" and ok: "instance_ok (rc_instance c)"
    using assms(1,2) by (simp_all add: component_ok_def)
  obtain x v where ra: "resolve_assignments tk core desired c w = (x, v)" by fastforce
  show ?thesis
  proof (cases x)
    case (Inl e)
    with assms none ra show ?thesis by (auto simp: reconcile_pending_def)
  next
    case (Inr res1)
    show ?thesis
    proof (cases res1)
      case (Resolution_Pending issues)
      with assms(1,3) none ra Inr resolve_pending [of tk core desired c w issues v] show ?thesis
        by (auto simp: reconcile_pending_def)
    next
      case (Resolution_Ready ps)
      note ready = resolve_ready [OF ra [unfolded Inr Resolution_Ready]]
      obtain y i where bs: "begin_start (rc_instance c) = (y, i)" by fastforce
      note start = begin_start_pending [OF assms(2) ok bs]
      show ?thesis
      proof (cases y)
        case (Inl e)
        with start assms none ra Inr Resolution_Ready bs show ?thesis
          by (auto simp: reconcile_pending_def)
      next
        case y: (Inr a)
        obtain z v2 where ns: "new_scope tk (instance_id_text (instance_id i) @ '' activation '' @ epoch_text a) a v
          = (z :: effect_scope_error + ('a cleanup, 'b, 'c) effect_scope, v2)" by fastforce
        show ?thesis
        proof (cases z)
          case (Inl e)
          with start assms none ra Inr Resolution_Ready bs y ns show ?thesis
            by (auto simp: reconcile_pending_def component_ok_def split: prod.splits)
        next
          case z: (Inr sc)
          have "es_activation sc = a" "es_state sc = Scope_Is_Open"
            using new_scope_open [OF ns [unfolded z]] by auto
          with start assms(2,3) none ra Inr Resolution_Ready bs y ns z ready show ?thesis
            by (auto simp: reconcile_pending_def component_ok_def live_resources_def resources_for_def Let_def
                new_selection_def covers_def)
        qed
      qed
    qed
  qed
qed

text \<open>A resolution reads the inventory and changes nothing but the registry's contract table.\<close>

lemma resolve_reads:
  assumes "resolve_assignments tk core a c w = (x, w')"
  shows "gates w' = gates w \<and> tokens w' = tokens w \<and>
    (case x of Inl e \<Rightarrow> \<exists>y. inventory_of tk core c w = Inl y \<and> e = RE_Registry y
     | Inr _ \<Rightarrow> \<exists>gs. inventory_of tk core c w = Inr gs)"
  using assms
  by (auto simp: resolve_assignments_def inventory_of_def registry_inventory_def split: prod.splits sum.splits)

lemma reconcile_live_spec:
  assumes "component_ok c" and "inst_state (rc_instance c) = Starting a \<and> state = K_Starting \<or>
      inst_state (rc_instance c) = State_Active a \<and> state = K_Active"
    and "reconcile_live tk core desired state c w = (res, c', w')"
  obtains r where "rc_activation c = Some r" "live_resources (rc_definition c) a r" "component_ok c'"
    "rc_definition c' = rc_definition c"
    "case res of
       Panic m \<Rightarrow> False
     | Rejected e \<Rightarrow> c' = c \<and> desired = sel_assignments (ar_selection r) \<and> gates w' = gates w \<and> tokens w' = tokens w \<and>
         (\<exists>x. inventory_of tk core c w = Inl x \<and> e = RE_Registry x)
     | Accepted out \<Rightarrow>
         (desired = sel_assignments (ar_selection r) \<longrightarrow> (\<exists>gs. inventory_of tk core c w = Inr gs)) \<and>
         (if desired = sel_assignments (ar_selection r) \<and> satisfied tk core desired c w
         then c' = c \<and> gates w' = gates w \<and> tokens w' = tokens w \<and> out = (if state = K_Starting then Outcome_AwaitingStart else Outcome_Active) (ProviderSelectionEpoch a)
         else (\<exists>why f. out = Outcome_StopBegun (ProviderSelectionEpoch a) Target_Pending (Stop_Dependency why) \<and>
           (case why of
              AssignmentChanged changes \<Rightarrow> desired \<noteq> sel_assignments (ar_selection r) \<and>
                changes = assignment_changes (rc_definition c) (sel_assignments (ar_selection r)) desired
            | Provider_Unavailable issues \<Rightarrow> desired = sel_assignments (ar_selection r) \<and> issues \<noteq> []) \<and>
           inst_state (rc_instance c') = Stopping a Target_Pending f \<and>
           is_revoked (gate_word (gates w') (gate_address (es_activity (ar_effects r))))))"
proof -
  obtain r where r: "rc_activation c = Some r" "live_resources (rc_definition c) a r" "instance_ok (rc_instance c)"
    using assms(1,2) by (auto simp: component_ok_def)
  have e: "sel_epoch (ar_selection r) = ProviderSelectionEpoch a"
    using r(2) by (simp add: live_resources_def resources_for_def)
  have st: "inst_state (rc_instance c) = Starting a \<or> inst_state (rc_instance c) = State_Active a \<or>
      (\<exists>f. inst_state (rc_instance c) = Failed a f)" using assms(2) by blast
  note stop = component_begin_stop_spec [OF st r]
  show thesis
  proof (cases "desired = sel_assignments (ar_selection r)")
    case False
    then have "component_begin_stop tk (Stop_Dependency (AssignmentChanged
        (assignment_changes (rc_definition c) (sel_assignments (ar_selection r)) desired))) Target_Pending c w
        = (res, c', w')"
      using assms(3) r(1) by (simp add: reconcile_live_def)
    from stop [OF this] False r(1,2) show thesis by (intro that [OF r(1,2)]) auto
  next
    case True
    obtain x v where ra: "resolve_assignments tk core desired c w = (x, v)" by fastforce
    note reads = resolve_reads [OF ra]
    show thesis
    proof (cases x)
      case (Inl e)
      with True assms(1,3) r(1) ra reads show thesis by (intro that [OF r(1,2)]) (auto simp: reconcile_live_def)
    next
      case (Inr res1)
      show thesis
      proof (cases res1)
        case (Resolution_Pending issues)
        note pend = resolve_pending [OF ra [unfolded Inr Resolution_Pending]]
        have "component_begin_stop tk (Stop_Dependency (Provider_Unavailable issues)) Target_Pending c v
            = (res, c', w')"
          using assms(3) r(1) True ra Inr Resolution_Pending by (simp add: reconcile_live_def)
        from stop [OF this] True r(1,2) pend reads Inr show thesis by (intro that [OF r(1,2)]) auto
      next
        case (Resolution_Ready ps)
        with resolve_ready(1) [OF ra [unfolded Inr Resolution_Ready]] True assms r(1) ra Inr e reads show thesis
          by (intro that [OF r(1,2)]) (auto simp: reconcile_live_def)
      qed
    qed
  qed
qed

lemma reconcile_cases:
  assumes "reconcile tk core desired c w = (res, c', w')"
  obtains (refused) e where "res = Rejected e" "c' = c" "w' = w"
  | (pending) "inst_state (rc_instance c) = Pending" "reconcile_pending tk core desired c w = (res, c', w')"
  | (live) a state where "inst_state (rc_instance c) = Starting a \<and> state = K_Starting \<or>
        inst_state (rc_instance c) = State_Active a \<and> state = K_Active"
      "reconcile_live tk core desired state c w = (res, c', w')"
  | (stopping) a target f where "inst_state (rc_instance c) = Stopping a target f"
      "res = stopping_outcome target c" "c' = c" "w' = w"
  | (removed) "inst_state (rc_instance c) = Removed" "res = Accepted Outcome_Removed" "c' = c" "w' = w"
proof (cases "inst_state (rc_instance c)")
  case (Failed a f)
  with assms show thesis by (intro refused) (auto simp: reconcile_def)
next
  case (Stopping a target f)
  with assms show thesis by (intro stopping) (auto simp: reconcile_def)
next
  case Removed
  with assms show thesis by (intro removed) (auto simp: reconcile_def)
next
  case Pending
  with assms show thesis
    by (cases "validate_assignment_keys (rc_definition c) (assigned_providers desired)")
      (auto simp: reconcile_def intro: refused pending)
next
  case (Starting a)
  with assms show thesis
    by (cases "validate_assignment_keys (rc_definition c) (assigned_providers desired)")
      (auto simp: reconcile_def intro: refused live [of a K_Starting])
next
  case (State_Active a)
  with assms show thesis
    by (cases "validate_assignment_keys (rc_definition c) (assigned_providers desired)")
      (auto simp: reconcile_def intro: refused live [of a K_Active])
qed

lemma reconcile_ok:
  assumes "component_ok c" and "reconcile tk core desired c w = (res, c', w')"
  shows "component_ok c' \<and> \<not> is_panic res \<and> rc_definition c' = rc_definition c"
  using assms(2)
proof (cases rule: reconcile_cases)
  case pending
  from reconcile_pending_spec [OF assms(1) pending] show ?thesis by (cases res) auto
next
  case (live a state)
  show ?thesis by (rule reconcile_live_spec [OF assms(1) live]) (cases res; auto)
next
  case (stopping a target f)
  with stopping_outcome_ok [OF assms(1) stopping(1)] assms(1) show ?thesis by auto
qed (use assms(1) in simp_all)

lemma component_bind_ok:
  assumes "component_ok c" and "component_bind tk core epoch requirement c w = (res, w')"
  shows "\<not> is_panic res"
proof -
  have covered: "assignment_for (sel_assignments (ar_selection r)) (required_service_id requirement) \<noteq> None"
    if "rc_activation c = Some r"
      "find (\<lambda>d. required_service_id d = required_service_id requirement) (requirements (rc_definition c)) = Some d"
    for r d
  proof -
    have "d \<in> set (requirements (rc_definition c))" "required_service_id d = required_service_id requirement"
      using that(2) by (auto simp: find_Some_iff)
    moreover have "covers (rc_definition c) (sel_assignments (ar_selection r))"
      using assms(1) that(1)
      by (cases rule: component_ok_activation)
        (auto simp: live_resources_def stopping_resources_def resources_for_def)
    ultimately show ?thesis unfolding covers_def by metis
  qed
  from assms(2) show ?thesis
    by (auto simp: component_bind_def require_epoch_Inr dest: covered
        split: if_splits sum.splits option.splits prod.splits)
qed

lemma with_effects_live:
  assumes "component_ok c" and "rc_kind c = K_Starting \<or> rc_kind c = K_Active"
    and "rc_activation c = Some r" and "es_id sc = es_id (ar_effects r)" and "es_state sc = es_state (ar_effects r)"
  shows "component_ok (with_effects sc c)"
  using assms
  by (cases "inst_state (rc_instance c)")
    (auto simp: component_ok_def with_effects_def live_resources_def resources_for_def es_activation_def)

lemma with_effects_sel [simp]:
  "rc_instance (with_effects sc c) = rc_instance c" "rc_definition (with_effects sc c) = rc_definition c"
  "rc_activation (with_effects sc c) = None \<longleftrightarrow> rc_activation c = None"
  "(\<exists>r. rc_activation (with_effects sc c) = Some r) \<longleftrightarrow> (\<exists>r. rc_activation c = Some r)"
  by (simp_all add: with_effects_def)

lemma component_provide_ok:
  assumes "component_ok c" and "component_provide core epoch provider c w = (res, c', w')"
  shows "component_ok c'"
    and "(\<And>r. rc_activation c = Some r \<Longrightarrow> published_below (ar_effects r) (registry_of core w)) \<Longrightarrow> \<not> is_panic res"
    and "rc_definition c' = rc_definition c" and "rc_activation c' = None \<longleftrightarrow> rc_activation c = None"
proof -
  have *: "component_ok c' \<and> rc_definition c' = rc_definition c \<and> (rc_activation c' = None \<longleftrightarrow> rc_activation c = None) \<and>
      ((\<forall>r. rc_activation c = Some r \<longrightarrow> published_below (ar_effects r) (registry_of core w)) \<longrightarrow> \<not> is_panic res)"
  proof (cases "rc_kind c = K_Active \<and> require_epoch epoch c = Inr ()")
    case False
    with assms show ?thesis
      by (auto simp: component_provide_def split: if_splits sum.splits)
  next
    case True
    then obtain r where r: "rc_activation c = Some r" by (auto simp: require_epoch_Inr)
    obtain x sc v where p: "provide core (rc_instance c) provider (ar_effects r) w = (x, sc, v)" by (metis prod_cases3)
    have eq: "res = map_rejected RE_Registry x" "c' = with_effects sc c"
      using assms(2) True r p by (simp_all add: component_provide_def)
    have "component_ok c'"
      using with_effects_live [OF assms(1) _ r] True provide_frame [OF p] eq(2) by simp
    moreover have "\<not> is_panic res" if "published_below (ar_effects r) (registry_of core w)"
      using p
    proof (cases rule: provide_cases)
      case (published w1)
      have "ProviderRegistrationId (EffectRegistrationId (es_id (ar_effects r)) (es_next_registration (ar_effects r)))
          \<notin> bt_dom (providers (registry_of core w))"
        using that unfolding published_below_def provider_effect_scope_def by fastforce
      with published(7) eq(1) show ?thesis by (simp add: bt_contains_iff)
    qed (simp add: eq(1))
    ultimately show ?thesis using r eq(2) by simp
  qed
  then show "component_ok c'" "rc_definition c' = rc_definition c"
    "rc_activation c' = None \<longleftrightarrow> rc_activation c = None"
    "(\<And>r. rc_activation c = Some r \<Longrightarrow> published_below (ar_effects r) (registry_of core w)) \<Longrightarrow> \<not> is_panic res"
    by blast+
qed

lemma component_defer_ok:
  assumes "component_ok c" and "component_defer defer epoch c = (res, c')"
    and "\<And>sc x sc'. defer sc = (x, sc') \<Longrightarrow> es_id sc' = es_id sc \<and> es_state sc' = es_state sc"
  shows "component_ok c' \<and> \<not> is_panic res \<and> rc_definition c' = rc_definition c \<and>
    (rc_activation c' = None \<longleftrightarrow> rc_activation c = None)"
proof (cases "require_effect_admission epoch c")
  case (Inl e)
  with assms show ?thesis by (auto simp: component_defer_def)
next
  case (Inr u)
  then have k: "rc_kind c = K_Starting \<or> rc_kind c = K_Active" and "require_epoch epoch c = Inr u"
    by (auto simp: require_effect_admission_def split: if_splits)
  then obtain r where r: "rc_activation c = Some r" by (auto simp: require_epoch_Inr)
  obtain x sc where d: "defer (ar_effects r) = (x, sc)" by fastforce
  have "component_ok (with_effects sc c)" using with_effects_live [OF assms(1) k r] assms(3) [OF d] by simp
  with assms(2) Inr r d show ?thesis by (cases x) (auto simp: component_defer_def)
qed

lemma defer_async_keeps:
  "defer_async l cl sc = (x, sc') \<Longrightarrow> es_id sc' = es_id sc \<and> es_state sc' = es_state sc"
  by (cases sc) (auto simp: defer_async_def allocate_registration_def require_open_def push_entry_def es_state_def
      Let_def split: sum.splits option.splits if_splits scope_storage.splits)

lemma defer_sync_keeps:
  "defer_sync l cl sc = (x, sc') \<Longrightarrow> es_id sc' = es_id sc \<and> es_state sc' = es_state sc"
  by (simp add: defer_sync_state defer_sync_cases [THEN conjunct1])

lemma fail_activation_ok:
  assumes "component_ok c" and "fail_activation tk epoch summary c w = (res, c', w')"
  shows "component_ok c' \<and> \<not> is_panic res \<and> rc_definition c' = rc_definition c \<and>
    (rc_activation c' = None \<longleftrightarrow> rc_activation c = None) \<and>
    (\<forall>out. res = Accepted out \<longrightarrow>
       (\<exists>failure f. out = Outcome_StopBegun epoch Target_Pending (Stop_ActivationFailed failure) \<and>
          failure_summary failure = summary \<and> last_failure (rc_instance c') = Some failure \<and>
          inst_state (rc_instance c') = Stopping (selection_activation epoch) Target_Pending f))"
proof (cases "require_epoch epoch c")
  case (Inl e)
  with assms show ?thesis by (auto simp: fail_activation_def)
next
  case (Inr u)
  then obtain r where r: "rc_activation c = Some r" "epoch = sel_epoch (ar_selection r)"
    by (auto simp: require_epoch_Inr)
  from assms(1) r(1) show ?thesis
  proof (cases rule: component_ok_activation)
    case (live a)
    have e: "epoch = ProviderSelectionEpoch a" using live(2) r(2) by (simp add: live_resources_def resources_for_def)
    define i where "i = snd (mark_failed a summary (rc_instance c))"
    have ok: "instance_ok (rc_instance c)" using assms(1) by (simp add: component_ok_def)
    obtain f where f: "mark_failed a summary (rc_instance c) = (Inr (), i)" "inst_state i = Failed a f"
      "last_failure i = Some f" "failure_summary f = summary" "instance_ok i"
      using live(1) ok by (auto simp: i_def mark_failed_def require_activation_def record_failure_def instance_ok_def Let_def)
    define c1 where "c1 = c\<lparr>rc_instance := i\<rparr>"
    have stop: "component_begin_stop tk (Stop_ActivationFailed f) Target_Pending c1 w = (res, c', w')"
      using assms(2) Inr f e by (simp add: fail_activation_def c1_def)
    have pre: "inst_state (rc_instance c1) = Starting a \<or> inst_state (rc_instance c1) = State_Active a \<or>
        (\<exists>f. inst_state (rc_instance c1) = Failed a f)" "rc_activation c1 = Some r"
      "live_resources (rc_definition c1) a r" "instance_ok (rc_instance c1)"
      using f r live(2) by (simp_all add: c1_def)
    note spec = component_begin_stop_spec [OF pre stop]
    have "last_failure (rc_instance c') = Some f"
      using spec(7) f(3) by (simp add: c1_def)
    with spec e f(4) r(1) show ?thesis by (auto simp: c1_def)
  next
    case (stopping a target f)
    with assms Inr r(2) show ?thesis
      by (auto simp: fail_activation_def mark_failed_def require_activation_def stopping_resources_def
          resources_for_def)
  qed
qed

text \<open>A poll of the loop leaves a closing scope while it is pending and a closed one when it is ready.\<close>

lemma poll_loop_storage:
  "poll_loop tk cb sc q es c steps w = (r, st, w') \<Longrightarrow>
     (case r of None \<Rightarrow> (\<exists>q es c steps. st = Scope_Closing q es c steps) | Some report \<Rightarrow> st = Scope_Closed report)"
proof (induction "2 * length es + (if c = None then 0 else 1)" arbitrary: q es c steps w rule: less_induct)
  case less
  show ?case
  proof (cases rule: loop_cases [where tk = tk and cb = cb and sc = sc and q = q and es = es and c = c
        and steps = steps and w = w])
    case (settled d step w1)
    show ?thesis by (rule less.hyps [OF _ trans [OF settled(4) [symmetric] less.prems]]) (simp add: settled(2))
  next
    case (sync r label k res w1)
    show ?thesis by (rule less.hyps [OF _ trans [OF sync(6) [symmetric] less.prems]]) (use sync(2,3) in \<open>cases es; simp\<close>)
  next
    case (async r label k f w1)
    show ?thesis by (rule less.hyps [OF _ trans [OF async(6) [symmetric] less.prems]]) (use async(2,3) in \<open>cases es; simp\<close>)
  next
    case (async_panics r label k p w1)
    show ?thesis
      by (rule less.hyps [OF _ trans [OF async_panics(6) [symmetric] less.prems]])
        (use async_panics(2,3) in \<open>cases es; simp\<close>)
  next
    case (child ch ch' w1)
    show ?thesis by (rule less.hyps [OF _ trans [OF child(6) [symmetric] less.prems]]) (use child(2,3) in \<open>cases es; simp\<close>)
  qed (use less.prems in auto)
qed

lemma poll_close_state:
  assumes "poll_close tk cb sc w = (r, sc', w')"
  shows "es_id sc' = es_id sc" and "es_state sc' \<noteq> Scope_Is_Open" and "closed_report sc' = r"
proof -
  show "es_id sc' = es_id sc" using poll_keeps_plan(1) [OF assms] by simp
  obtain sc1 w1 where b: "begin_close tk sc w = (sc1, w1)" by fastforce
  have "es_state sc' \<noteq> Scope_Is_Open \<and> closed_report sc' = r"
  proof (cases "es_storage sc1")
    case (Scope_Closing q es c steps)
    with assms b obtain st where st: "poll_loop tk cb sc1 q es c steps w1 = (r, st, w')" "sc' = with_storage st sc1"
      by (auto simp: poll_close.simps split: prod.splits)
    from poll_loop_storage [OF st(1)] st(2) show ?thesis
      by (cases r) (auto simp: es_state_def closed_report_def)
  next
    case (Scope_Open es)
    with b show ?thesis by (cases sc) (auto simp: begin_close_def split: scope_storage.splits)
  next
    case (Scope_Closed report)
    with assms b show ?thesis by (auto simp: poll_close.simps es_state_def closed_report_def)
  qed
  then show "es_state sc' \<noteq> Scope_Is_Open" "closed_report sc' = r" by simp_all
qed

lemma complete_stop_stopping:
  assumes "inst_state i = Stopping a target f" and "instance_ok i"
  shows "complete_stop a i =
      (Inr (), i\<lparr>inst_state := (case target of Target_Pending \<Rightarrow> Pending | Target_Removed \<Rightarrow> Removed)\<rparr>)"
    and "instance_ok (i\<lparr>inst_state := (case target of Target_Pending \<Rightarrow> Pending | Target_Removed \<Rightarrow> Removed)\<rparr>)"
  using assms
  by (auto simp: complete_stop_def require_activation_def instance_ok_def split: stop_target.splits)

text \<open>The state a stop ends in.\<close>

fun target_state :: "stop_target \<Rightarrow> component_state" where
  "target_state Target_Pending = Pending"
| "target_state Target_Removed = Removed"

lemma target_state_activation [simp]: "state_activation (target_state t) = None"
  by (cases t) simp_all

lemma finish_completed_spec:
  assumes "inst_state (rc_instance c) = Stopping a target f" and "instance_ok (rc_instance c)"
    and "finish_completed tk (ProviderSelectionEpoch a) completion resources c w = (res, c', w')"
  shows "res = Accepted completion" and "component_ok c'" and "inst_state (rc_instance c') = target_state target"
    and "rc_activation c' = None" and "rc_definition c' = rc_definition c"
    and "rc_last_close_report c' = rc_last_close_report c"
  using assms complete_stop_stopping [OF assms(1,2)]
  by (auto simp: finish_completed_def component_ok_def split: stop_target.splits)

lemma poll_finish_stop_spec:
  assumes "component_ok c" and "poll_finish_stop tk ub epoch c w = (res, c', w')"
  shows "component_ok c' \<and> rc_definition c' = rc_definition c \<and>
    (case res of
       None \<Rightarrow> rc_activation c' \<noteq> None \<and> inst_state (rc_instance c') = inst_state (rc_instance c)
     | Some (Panic m) \<Rightarrow> False
     | Some (Rejected e) \<Rightarrow> c' = c \<and> w' = w
     | Some (Accepted done) \<Rightarrow>
         rc_last_close_report c' = Some (completion_report done) \<and> \<not> was_abandoned done \<and>
         (is_completed done \<longleftrightarrow> is_clean (completion_report done)) \<and>
         (if is_completed done
          then rc_activation c' = None \<and> inst_state (rc_instance c') = target_state (completion_target done)
          else inst_state (rc_instance c') = inst_state (rc_instance c) \<and>
            (\<exists>r. rc_activation c' = Some r \<and> ar_close_report r = Some (completion_report done))))"
proof (cases "rc_kind c = K_Stopping \<and> require_epoch epoch c = Inr ()")
  case False
  with assms show ?thesis by (auto simp: poll_finish_stop_def split: if_splits sum.splits)
next
  case True
  then obtain a target f where st: "inst_state (rc_instance c) = Stopping a target f"
    by (cases "inst_state (rc_instance c)") auto
  obtain r where r: "rc_activation c = Some r" "stopping_resources (rc_definition c) a r" "instance_ok (rc_instance c)"
    using assms(1) st by (auto simp: component_ok_def)
  have e: "epoch = ProviderSelectionEpoch a"
    using True r by (auto simp: require_epoch_Inr stopping_resources_def resources_for_def)
  obtain reason where reason: "ar_stop_reason r = Some reason" using r(2) by (auto simp: stopping_resources_def)
  obtain rep sc v where p: "poll_close tk (service_callbacks ub) (ar_effects r) w = (rep, sc, v)" by (metis prod_cases3)
  note ps = poll_close_state [OF p]
  have keep: "stopping_resources (rc_definition c) a (r\<lparr>ar_effects := sc, ar_close_report := rep\<rparr>)"
    if "\<And>report. rep = Some report \<Longrightarrow> \<not> is_clean report"
    using r(2) ps that by (auto simp: stopping_resources_def resources_for_def es_activation_def)
  show ?thesis
  proof (cases rep)
    case None
    have "ar_close_report r = None"
    proof (rule ccontr)
      assume "ar_close_report r \<noteq> None"
      then obtain report where "closed_report (ar_effects r) = Some report" using r(2) by (auto simp: stopping_resources_def)
      then have "es_storage (ar_effects r) = Scope_Closed report" by (auto simp: closed_report_def split: scope_storage.splits)
      with poll_close_closed [OF this, of tk "service_callbacks ub" w] p None show False by simp
    qed
    with keep None have "stopping_resources (rc_definition c) a (r\<lparr>ar_effects := sc\<rparr>)"
      by (simp add: stopping_resources_def resources_for_def)
    with True assms(2) st r reason p None show ?thesis
      by (auto simp: poll_finish_stop_def with_effects_def component_ok_def)
  next
    case (Some report)
    define c1 where "c1 = c\<lparr>rc_last_close_report := Some report,
      rc_activation := Some (r\<lparr>ar_effects := sc, ar_close_report := Some report\<rparr>)\<rparr>"
    show ?thesis
    proof (cases "is_clean report")
      case False
      with keep Some have "component_ok c1" using st r(3) by (simp add: component_ok_def c1_def)
      with True assms(2) st r reason p Some False show ?thesis
        by (auto simp: poll_finish_stop_def c1_def Let_def)
    next
      case clean: True
      obtain res1 where fc: "finish_completed tk epoch (Stop_Completed epoch target reason report)
          (r\<lparr>ar_effects := sc, ar_close_report := Some report\<rparr>) c1 v = (res1, c', w')" "res = Some res1"
        using True assms(2) st r(1) reason p Some clean
        by (auto simp: poll_finish_stop_def c1_def Let_def split: prod.splits)
      have st1: "inst_state (rc_instance c1) = Stopping a target f" "instance_ok (rc_instance c1)"
        using st r(3) by (simp_all add: c1_def)
      from finish_completed_spec [OF st1 fc(1) [unfolded e]] fc(2) clean show ?thesis by (simp add: c1_def)
    qed
  qed
qed

lemma component_complete_start_spec:
  assumes "component_ok c" and "component_complete_start tk core epoch desired c w = (res, c', w')"
  shows "component_ok c' \<and> rc_definition c' = rc_definition c \<and>
    (rc_activation c' = None \<longleftrightarrow> rc_activation c = None) \<and>
    (case res of
       Panic m \<Rightarrow> False
     | Rejected e \<Rightarrow> c' = c
     | Accepted out \<Rightarrow>
         \<exists>r. rc_activation c = Some r \<and> epoch = sel_epoch (ar_selection r) \<and>
         (if desired = sel_assignments (ar_selection r) \<and> satisfied tk core desired c w
          then out = Outcome_Active epoch \<and> inst_state (rc_instance c') = State_Active (selection_activation epoch)
          else (\<exists>why f. out = Outcome_StopBegun epoch Target_Pending (Stop_Dependency why) \<and>
            inst_state (rc_instance c') = Stopping (selection_activation epoch) Target_Pending f)))"
proof (cases "validate_assignment_keys (rc_definition c) (assigned_providers desired) = Inr () \<and>
    rc_kind c = K_Starting \<and> require_epoch epoch c = Inr ()")
  case False
  with assms show ?thesis by (auto simp: component_complete_start_def split: if_splits sum.splits)
next
  case True
  then obtain a where st: "inst_state (rc_instance c) = Starting a" by (cases "inst_state (rc_instance c)") auto
  obtain r where r: "rc_activation c = Some r" "live_resources (rc_definition c) a r" "instance_ok (rc_instance c)"
    using assms(1) st by (auto simp: component_ok_def)
  have e: "epoch = ProviderSelectionEpoch a" "sel_epoch (ar_selection r) = ProviderSelectionEpoch a"
    using True r by (auto simp: require_epoch_Inr live_resources_def resources_for_def)
  note stop = component_begin_stop_spec [OF _ r]
  show ?thesis
  proof (cases "desired = sel_assignments (ar_selection r)")
    case False
    then have "component_begin_stop tk (Stop_Dependency (AssignmentChanged
        (assignment_changes (rc_definition c) (sel_assignments (ar_selection r)) desired))) Target_Pending c w
        = (res, c', w')"
      using assms(2) r(1) True by (simp add: component_complete_start_def rc_selection_def)
    from stop [OF _ this] False r(1) st e show ?thesis by auto
  next
    case eq: True
    obtain x v where ra: "resolve_assignments tk core desired c w = (x, v)" by fastforce
    note run = assms(2) True r(1) eq ra
    show ?thesis
    proof (cases x)
      case (Inl e)
      with run assms(1) show ?thesis by (auto simp: component_complete_start_def rc_selection_def)
    next
      case (Inr res1)
      show ?thesis
      proof (cases res1)
        case (Resolution_Pending issues)
        note pend = resolve_pending [OF ra [unfolded Inr Resolution_Pending]]
        have "component_begin_stop tk (Stop_Dependency (Provider_Unavailable issues)) Target_Pending c v
            = (res, c', w')"
          using run Inr Resolution_Pending by (simp add: component_complete_start_def rc_selection_def)
        from stop [OF _ this] st r(1) pend(1) e eq show ?thesis by auto
      next
        case (Resolution_Ready ps)
        have cs: "complete_start a (rc_instance c) = (Inr (), (rc_instance c)\<lparr>inst_state := State_Active a\<rparr>)"
          "instance_ok ((rc_instance c)\<lparr>inst_state := State_Active a\<rparr>)"
          using st r(3) by (simp_all add: complete_start_def require_activation_def instance_ok_def)
        with run Inr Resolution_Ready resolve_ready(1) [OF ra [unfolded Inr Resolution_Ready]] e r(2) show ?thesis
          by (auto simp: component_complete_start_def rc_selection_def component_ok_def intro!: exI [of _ r])
      qed
    qed
  qed
qed

lemma request_component_stop_spec:
  assumes "component_ok c" and "request_component_stop tk reason target c w = (res, c', w')"
  shows "component_ok c' \<and> rc_definition c' = rc_definition c \<and>
    (rc_activation c' = None \<longleftrightarrow> rc_activation c = None) \<and>
    (case res of
       Panic m \<Rightarrow> False
     | Rejected e \<Rightarrow> c' = c \<and> inst_state (rc_instance c) = Pending \<and> target = Target_Pending
     | Accepted out \<Rightarrow>
         (case inst_state (rc_instance c) of
            Pending \<Rightarrow> out = Outcome_Removed \<and> inst_state (rc_instance c') = Removed
          | Removed \<Rightarrow> out = Outcome_Removed \<and> c' = c
          | Stopping a t f \<Rightarrow> c' = c \<and> (\<exists>why b. out = Outcome_Stopping (ProviderSelectionEpoch a) t why b)
          | s \<Rightarrow> \<exists>a f. state_activation s = Some a \<and>
              out = Outcome_StopBegun (ProviderSelectionEpoch a) target (Stop_Desired reason) \<and>
              inst_state (rc_instance c') = Stopping a target f))"
proof (cases "inst_state (rc_instance c)")
  case Pending
  with assms show ?thesis
    by (cases target) (auto simp: request_component_stop_def remove_pending_def component_ok_def instance_ok_def)
next
  case (Stopping a t f)
  with stopping_outcome_ok [OF assms(1) this] assms show ?thesis by (auto simp: request_component_stop_def)
next
  case (Starting a)
  then obtain r where r: "rc_activation c = Some r" "live_resources (rc_definition c) a r" "instance_ok (rc_instance c)"
    using assms(1) by (auto simp: component_ok_def)
  from component_begin_stop_spec [OF _ r, of tk "Stop_Desired reason" target w res c' w'] Starting assms(2) r(1)
  show ?thesis by (auto simp: request_component_stop_def)
next
  case (State_Active a)
  then obtain r where r: "rc_activation c = Some r" "live_resources (rc_definition c) a r" "instance_ok (rc_instance c)"
    using assms(1) by (auto simp: component_ok_def)
  from component_begin_stop_spec [OF _ r, of tk "Stop_Desired reason" target w res c' w'] State_Active assms(2) r(1)
  show ?thesis by (auto simp: request_component_stop_def)
qed (use assms in \<open>auto simp: request_component_stop_def component_ok_def\<close>)

lemma abandon_spec:
  assumes "component_ok c" and "abandon_failed_cleanup tk epoch c w = (res, c', w')"
  shows "component_ok c' \<and> rc_definition c' = rc_definition c \<and>
    (case res of
       Panic m \<Rightarrow> False
     | Rejected e \<Rightarrow> c' = c \<and> w' = w
     | Accepted done \<Rightarrow> was_abandoned done \<and> rc_activation c' = None \<and>
         inst_state (rc_instance c') = target_state (completion_target done) \<and>
         (\<exists>r. rc_activation c = Some r \<and> ar_close_report r = Some (completion_report done)) \<and>
         \<not> is_clean (completion_report done))"
proof (cases "rc_kind c = K_Stopping \<and> require_epoch epoch c = Inr ()")
  case False
  with assms show ?thesis by (auto simp: abandon_failed_cleanup_def split: if_splits sum.splits)
next
  case True
  then obtain a target f where st: "inst_state (rc_instance c) = Stopping a target f"
    by (cases "inst_state (rc_instance c)") auto
  obtain r where r: "rc_activation c = Some r" "stopping_resources (rc_definition c) a r" "instance_ok (rc_instance c)"
    using assms(1) st by (auto simp: component_ok_def)
  have e: "epoch = ProviderSelectionEpoch a"
    using True r by (auto simp: require_epoch_Inr stopping_resources_def resources_for_def)
  obtain reason where reason: "ar_stop_reason r = Some reason" using r(2) by (auto simp: stopping_resources_def)
  show ?thesis
  proof (cases "ar_close_report r")
    case None
    with True assms st r(1) show ?thesis by (auto simp: abandon_failed_cleanup_def)
  next
    case (Some report)
    then have dirty: "\<not> is_clean report" using r(2) by (auto simp: stopping_resources_def)
    have "finish_completed tk epoch (Stop_Abandoned epoch target reason report) r c w = (res, c', w')"
      using True assms(2) st r(1) reason Some dirty by (simp add: abandon_failed_cleanup_def)
    from finish_completed_spec [OF st r(3) this [unfolded e]] Some dirty r(1) show ?thesis by simp
  qed
qed

section \<open>Every way to drive a component\<close>

datatype ('u, 't, 'k, 'y) component_op =
    CO_reconcile provider_assignments
  | CO_bind provider_selection_epoch required_service
  | CO_provide provider_selection_epoch service_provider
  | CO_defer_sync provider_selection_epoch string 'u
  | CO_defer_async provider_selection_epoch string 'u
  | CO_fail provider_selection_epoch string
  | CO_complete_start provider_selection_epoch provider_assignments
  | CO_finish_stop provider_selection_epoch
  | CO_request_stop desired_stop_reason stop_target
  | CO_abandon provider_selection_epoch
  | CO_environment "('t, 'k, 'y) swld \<Rightarrow> ('t, 'k, 'y) swld"

datatype component_event = Quiet | Started provider_selection_epoch | Ended stop_completion

fun outcome_event :: "(reconcile_error, reconcile_outcome) attempt \<Rightarrow> component_event" where
  "outcome_event (Accepted (Outcome_StartBegun selection)) = Started (sel_epoch selection)"
| "outcome_event _ = Quiet"

fun stop_event :: "(reconcile_error, stop_completion) attempt option \<Rightarrow> component_event" where
  "stop_event (Some (Accepted completion)) = (if is_completed completion then Ended completion else Quiet)"
| "stop_event _ = Quiet"

text \<open>The result of an operation: whether it panicked, the event it is, and the new state.\<close>

type_synonym ('u, 'f, 't, 'k, 'y) component_result =
  "bool \<times> component_event \<times> ('u, 'f, 't) reconciled_component \<times> ('t, 'k, 'y) swld"

fun component_step ::
  "('t, 'k) cancellation_api \<Rightarrow> address \<Rightarrow> ('u, 'f, 'k, ('t, 'y) service_heap) callback_api \<Rightarrow>
     ('u, 't, 'k, 'y) component_op \<Rightarrow> ('u, 'f, 't) reconciled_component \<Rightarrow> ('t, 'k, 'y) swld \<Rightarrow>
     ('u, 'f, 't, 'k, 'y) component_result" where
  "component_step tk core ub (CO_reconcile desired) c w =
     (let (r, c, w) = reconcile tk core desired c w in (is_panic r, outcome_event r, c, w))"
| "component_step tk core ub (CO_bind epoch q) c w =
     (let (r, w) = component_bind tk core epoch q c w in (is_panic r, Quiet, c, w))"
| "component_step tk core ub (CO_provide epoch provider) c w =
     (let (r, c, w) = component_provide core epoch provider c w in (is_panic r, Quiet, c, w))"
| "component_step tk core ub (CO_defer_sync epoch label cl) c w =
     (let (r, c) = component_defer_sync epoch label cl c in (is_panic r, Quiet, c, w))"
| "component_step tk core ub (CO_defer_async epoch label cl) c w =
     (let (r, c) = component_defer_async epoch label cl c in (is_panic r, Quiet, c, w))"
| "component_step tk core ub (CO_fail epoch summary) c w =
     (let (r, c, w) = fail_activation tk epoch summary c w in (is_panic r, outcome_event r, c, w))"
| "component_step tk core ub (CO_complete_start epoch desired) c w =
     (let (r, c, w) = component_complete_start tk core epoch desired c w in (is_panic r, outcome_event r, c, w))"
| "component_step tk core ub (CO_finish_stop epoch) c w =
     (let (r, c, w) = poll_finish_stop tk ub epoch c w
      in ((case r of None \<Rightarrow> False | Some r \<Rightarrow> is_panic r), stop_event r, c, w))"
| "component_step tk core ub (CO_request_stop reason target) c w =
     (let (r, c, w) = request_component_stop tk reason target c w in (is_panic r, outcome_event r, c, w))"
| "component_step tk core ub (CO_abandon epoch) c w =
     (let (r, c, w) = abandon_failed_cleanup tk epoch c w in (is_panic r, stop_event (Some r), c, w))"
| "component_step tk core ub (CO_environment change) c w = (False, Quiet, c, change w)"

text \<open>
  The one panic that needs the registry to be ruled out: a publication whose identity is taken. It is
  impossible when the scope's next registration is above everything it published.
\<close>

fun publication_fresh ::
  "address \<Rightarrow> ('u, 't, 'k, 'y) component_op \<Rightarrow> ('u, 'f, 't) reconciled_component \<Rightarrow> ('t, 'k, 'y) swld \<Rightarrow> bool" where
  "publication_fresh core (CO_provide epoch provider) c w =
     (case rc_activation c of None \<Rightarrow> True | Some r \<Rightarrow> published_below (ar_effects r) (registry_of core w))"
| "publication_fresh core _ c w = True"

definition current_epoch :: "('u, 'f, 't) reconciled_component \<Rightarrow> provider_selection_epoch option" where
  "current_epoch c = map_option (\<lambda>r. sel_epoch (ar_selection r)) (rc_activation c)"

fun completion_epoch :: "stop_completion \<Rightarrow> provider_selection_epoch" where
  "completion_epoch (Stop_Completed e _ _ _) = e"
| "completion_epoch (Stop_Blocked e _ _ _) = e"
| "completion_epoch (Stop_Abandoned e _ _ _) = e"

text \<open>How one operation may change which activation is current.\<close>

definition event_ok ::
  "component_event \<Rightarrow> provider_selection_epoch option \<Rightarrow> provider_selection_epoch option \<Rightarrow> bool" where
  "event_ok ev before after \<longleftrightarrow>
     (case ev of
        Quiet \<Rightarrow> after = before
      | Started e \<Rightarrow> before = None \<and> after = Some e
      | Ended d \<Rightarrow> before = Some (completion_epoch d) \<and> after = None \<and>
          (is_clean (completion_report d) \<or> was_abandoned d))"

lemma current_epoch_state:
  assumes "component_ok c"
  shows "current_epoch c = map_option ProviderSelectionEpoch (state_activation (inst_state (rc_instance c)))"
  using assms
  by (cases "inst_state (rc_instance c)")
    (auto simp: component_ok_def current_epoch_def live_resources_def stopping_resources_def resources_for_def)

lemma quiet_event:
  assumes "component_ok c" and "component_ok c'"
    and "state_activation (inst_state (rc_instance c')) = state_activation (inst_state (rc_instance c))"
  shows "event_ok Quiet (current_epoch c) (current_epoch c')"
  using assms by (simp add: event_ok_def current_epoch_state)

lemma reconcile_event:
  assumes "component_ok c" and "reconcile tk core desired c w = (res, c', w')"
  shows "event_ok (outcome_event res) (current_epoch c) (current_epoch c')"
proof -
  have ok: "component_ok c'" using reconcile_ok [OF assms] by simp
  note epochs = current_epoch_state [OF assms(1)] current_epoch_state [OF ok]
  show ?thesis
    using assms(2)
  proof (cases rule: reconcile_cases)
    case pending
    from reconcile_pending_spec [OF assms(1) pending] epochs pending(1) show ?thesis
      by (cases res) (auto simp: event_ok_def current_epoch_def)
  next
    case (live a state)
    show ?thesis
      by (rule reconcile_live_spec [OF assms(1) live])
        (use epochs live(1) in \<open>cases res; auto simp: event_ok_def split: if_splits\<close>)
  next
    case (stopping a target f)
    with stopping_outcome_ok [OF assms(1) stopping(1)] show ?thesis by (auto simp: event_ok_def)
  qed (simp_all add: event_ok_def)
qed

lemma component_provide_instance:
  "component_provide core epoch provider c w = (res, c', w') \<Longrightarrow> rc_instance c' = rc_instance c"
  by (auto simp: component_provide_def split: if_splits sum.splits option.splits prod.splits)

lemma component_defer_instance:
  "component_defer d epoch c = (res, c') \<Longrightarrow> rc_instance c' = rc_instance c"
  by (auto simp: component_defer_def split: if_splits sum.splits option.splits prod.splits)

lemma outcome_quiet:
  "(\<And>sel. res \<noteq> Accepted (Outcome_StartBegun sel)) \<Longrightarrow> outcome_event res = Quiet"
  by (cases res rule: outcome_event.cases) auto

lemma fail_activation_event:
  assumes "component_ok c" and "fail_activation tk epoch summary c w = (res, c', w')"
  shows "event_ok (outcome_event res) (current_epoch c) (current_epoch c')"
proof (cases "\<exists>out. res = Accepted out")
  case True
  note spec = fail_activation_ok [OF assms]
  have "require_epoch epoch c = Inr ()"
    using True assms(2) by (auto simp: fail_activation_def split: sum.splits)
  then have "current_epoch c = Some epoch" by (auto simp: require_epoch_Inr current_epoch_def)
  with spec True current_epoch_state [of c'] show ?thesis by (auto simp: event_ok_def)
next
  case False
  then have "outcome_event res = Quiet" by (intro outcome_quiet) auto
  moreover have "rc_activation c' = rc_activation c"
    using False assms fail_activation_ok [OF assms]
    by (auto simp: fail_activation_def component_begin_stop_def Let_def
        split: sum.splits prod.splits option.splits)
  ultimately show ?thesis by (simp add: event_ok_def current_epoch_def)
qed

lemma complete_start_event:
  assumes "component_ok c" and "component_complete_start tk core epoch desired c w = (res, c', w')"
  shows "event_ok (outcome_event res) (current_epoch c) (current_epoch c')"
  using component_complete_start_spec [OF assms] current_epoch_state [OF assms(1)] current_epoch_state [of c']
  by (cases res) (auto simp: event_ok_def current_epoch_def split: if_splits)

lemma request_stop_event:
  assumes "component_ok c" and "request_component_stop tk reason target c w = (res, c', w')"
  shows "event_ok (outcome_event res) (current_epoch c) (current_epoch c')"
  using request_component_stop_spec [OF assms] current_epoch_state [OF assms(1)] current_epoch_state [of c']
  by (cases res; cases "inst_state (rc_instance c)") (auto simp: event_ok_def split: if_splits)

lemma finish_stop_epoch:
  assumes "poll_finish_stop tk ub epoch c w = (Some (Accepted d), c', w')"
  shows "current_epoch c = Some epoch" and "completion_epoch d = epoch"
  using assms
  by (auto simp: poll_finish_stop_def current_epoch_def require_epoch_Inr finish_completed_def Let_def
      split: if_splits sum.splits option.splits prod.splits component_state.splits)

lemma finish_stop_event:
  assumes "component_ok c" and "poll_finish_stop tk ub epoch c w = (res, c', w')"
  shows "event_ok (stop_event res) (current_epoch c) (current_epoch c')"
proof (cases res rule: stop_event.cases)
  case (1 d)
  with poll_finish_stop_spec [OF assms] finish_stop_epoch [of tk ub epoch c w d c' w'] assms(2)
    current_epoch_state [OF assms(1)] current_epoch_state [of c'] show ?thesis
    by (auto simp: event_ok_def split: if_splits)
qed (use poll_finish_stop_spec [OF assms] current_epoch_state [OF assms(1)] current_epoch_state [of c'] in
    \<open>auto simp: event_ok_def\<close>)

lemma abandon_event:
  assumes "component_ok c" and "abandon_failed_cleanup tk epoch c w = (res, c', w')"
  shows "event_ok (stop_event (Some res)) (current_epoch c) (current_epoch c')"
proof (cases res)
  case (Accepted d)
  have "current_epoch c = Some epoch \<and> completion_epoch d = epoch"
    using assms(2) Accepted
    by (auto simp: abandon_failed_cleanup_def current_epoch_def require_epoch_Inr finish_completed_def
        split: if_splits sum.splits option.splits prod.splits component_state.splits)
  with Accepted abandon_spec [OF assms] show ?thesis by (cases d) (auto simp: event_ok_def current_epoch_def)
qed (use abandon_spec [OF assms] in \<open>auto simp: event_ok_def\<close>)

lemma component_step_ok:
  assumes "component_ok c" and "component_step tk core ub op c w = (panics, ev, c', w')"
  shows "component_ok c' \<and> (publication_fresh core op c w \<longrightarrow> \<not> panics) \<and>
    event_ok ev (current_epoch c) (current_epoch c')"
proof (cases op)
  case (CO_reconcile desired)
  then obtain r where p: "reconcile tk core desired c w = (r, c', w')" "panics = is_panic r" "ev = outcome_event r"
    using assms(2) by (auto split: prod.splits)
  from reconcile_ok [OF assms(1) p(1)] reconcile_event [OF assms(1) p(1)] p(2,3) show ?thesis by simp
next
  case (CO_bind e q)
  then obtain r where p: "component_bind tk core e q c w = (r, w')" "panics = is_panic r" "ev = Quiet" "c' = c"
    using assms(2) by (auto split: prod.splits)
  from component_bind_ok [OF assms(1) p(1)] assms(1) p(2-4) show ?thesis by (simp add: event_ok_def)
next
  case (CO_provide e provider)
  then obtain r where p: "component_provide core e provider c w = (r, c', w')" "panics = is_panic r" "ev = Quiet"
    using assms(2) by (auto split: prod.splits)
  note ok = component_provide_ok [OF assms(1) p(1)]
  have "publication_fresh core op c w \<longrightarrow> \<not> panics"
    using ok(2) CO_provide p(2) by (cases "rc_activation c") auto
  moreover have "event_ok Quiet (current_epoch c) (current_epoch c')"
    using quiet_event [OF assms(1) ok(1)] component_provide_instance [OF p(1)] by simp
  ultimately show ?thesis using ok(1) p(3) by simp
next
  case (CO_defer_sync e l cl)
  then obtain r where p: "component_defer (defer_sync l (User_Cleanup cl)) e c = (r, c')" "panics = is_panic r" "ev = Quiet"
    using assms(2) by (auto simp: component_defer_sync_def split: prod.splits)
  from component_defer_ok [OF assms(1) p(1)] defer_sync_keeps p quiet_event [OF assms(1), of c']
    component_defer_instance [OF p(1)] show ?thesis by fastforce
next
  case (CO_defer_async e l cl)
  then obtain r where p: "component_defer (defer_async l (User_Cleanup cl)) e c = (r, c')" "panics = is_panic r" "ev = Quiet"
    using assms(2) by (auto simp: component_defer_async_def split: prod.splits)
  from component_defer_ok [OF assms(1) p(1)] defer_async_keeps p quiet_event [OF assms(1), of c']
    component_defer_instance [OF p(1)] show ?thesis by fastforce
next
  case (CO_fail e summary)
  then obtain r where p: "fail_activation tk e summary c w = (r, c', w')" "panics = is_panic r" "ev = outcome_event r"
    using assms(2) by (auto split: prod.splits)
  from fail_activation_ok [OF assms(1) p(1)] fail_activation_event [OF assms(1) p(1)] p(2,3) show ?thesis by simp
next
  case (CO_complete_start e desired)
  then obtain r where p: "component_complete_start tk core e desired c w = (r, c', w')" "panics = is_panic r"
    "ev = outcome_event r" using assms(2) by (auto split: prod.splits)
  from component_complete_start_spec [OF assms(1) p(1)] complete_start_event [OF assms(1) p(1)] p(2,3) show ?thesis
    by (cases r) auto
next
  case (CO_finish_stop e)
  then obtain r where p: "poll_finish_stop tk ub e c w = (r, c', w')"
    "panics = (case r of None \<Rightarrow> False | Some r \<Rightarrow> is_panic r)" "ev = stop_event r"
    using assms(2) by (auto split: prod.splits)
  from poll_finish_stop_spec [OF assms(1) p(1)] finish_stop_event [OF assms(1) p(1)] p(2,3) show ?thesis
    by (auto split: option.splits attempt.splits elim!: is_panic.elims)
next
  case (CO_request_stop reason target)
  then obtain r where p: "request_component_stop tk reason target c w = (r, c', w')" "panics = is_panic r"
    "ev = outcome_event r" using assms(2) by (auto split: prod.splits)
  from request_component_stop_spec [OF assms(1) p(1)] request_stop_event [OF assms(1) p(1)] p(2,3) show ?thesis
    by (cases r) auto
next
  case (CO_abandon e)
  then obtain r where p: "abandon_failed_cleanup tk e c w = (r, c', w')" "panics = is_panic r"
    "ev = stop_event (Some r)" using assms(2) by (auto split: prod.splits)
  from abandon_spec [OF assms(1) p(1)] abandon_event [OF assms(1) p(1)] p(2,3) show ?thesis by (cases r) auto
next
  case (CO_environment change)
  with assms show ?thesis by (auto simp: event_ok_def)
qed

fun component_run ::
  "('t, 'k) cancellation_api \<Rightarrow> address \<Rightarrow> ('u, 'f, 'k, ('t, 'y) service_heap) callback_api \<Rightarrow>
     ('u, 't, 'k, 'y) component_op list \<Rightarrow> ('u, 'f, 't) reconciled_component \<Rightarrow> ('t, 'k, 'y) swld \<Rightarrow>
     component_event list \<times> ('u, 'f, 't) reconciled_component \<times> ('t, 'k, 'y) swld" where
  "component_run tk core ub [] c w = ([], c, w)"
| "component_run tk core ub (op # ops) c w =
     (let (panics, ev, c, w) = component_step tk core ub op c w;
          (evs, c, w) = component_run tk core ub ops c w
      in (if ev = Quiet then evs else ev # evs, c, w))"

inductive activation_log ::
  "provider_selection_epoch option \<Rightarrow> component_event list \<Rightarrow> provider_selection_epoch option \<Rightarrow> bool" where
  log_empty: "activation_log e [] e"
| log_event: "event_ok ev before mid \<Longrightarrow> ev \<noteq> Quiet \<Longrightarrow> activation_log mid evs after \<Longrightarrow>
    activation_log before (ev # evs) after"

inductive_simps activation_log_simps [simp]: "activation_log e [] e'" "activation_log e (ev # evs) e'"

lemma component_run_ok:
  assumes "component_ok c" and "component_run tk core ub ops c w = (evs, c', w')"
  shows "component_ok c' \<and> activation_log (current_epoch c) evs (current_epoch c')"
  using assms
proof (induction ops arbitrary: c w evs)
  case (Cons op ops)
  obtain p ev c1 w1 where st: "component_step tk core ub op c w = (p, ev, c1, w1)" by (metis prod_cases4)
  obtain evs1 where run: "component_run tk core ub ops c1 w1 = (evs1, c', w')"
    "evs = (if ev = Quiet then evs1 else ev # evs1)"
    using Cons.prems(2) st by (auto split: prod.splits)
  from component_step_ok [OF Cons.prems(1) st] Cons.IH [OF _ run(1)] run(2) show ?case
    by (auto simp: event_ok_def)
qed simp

lemma log_alternates:
  "activation_log e evs e' \<Longrightarrow> Suc i < length evs \<Longrightarrow>
     (case evs ! i of
        Started e \<Rightarrow> \<exists>d. evs ! Suc i = Ended d \<and> completion_epoch d = e \<and>
          (is_clean (completion_report d) \<or> was_abandoned d)
      | Ended d \<Rightarrow> \<exists>e. evs ! Suc i = Started e
      | Quiet \<Rightarrow> False)"
proof (induction e evs e' arbitrary: i rule: activation_log.induct)
  case (log_event ev before mid evs after)
  show ?case
  proof (cases i)
    case 0
    with log_event.prems obtain ev2 evs2 where "evs = ev2 # evs2" by (cases evs) auto
    with 0 log_event.hyps show ?thesis
      by (auto simp: event_ok_def split: component_event.splits)
  next
    case (Suc j)
    with log_event.IH [of j] log_event.prems show ?thesis by (simp cong: component_event.case_cong)
  qed
qed simp

section \<open>Properties\<close>

subsection \<open>No operation panics\<close>

text \<open>
  C34. No \<open>expect\<close>, \<open>unreachable\<close> or assertion of the reconciler can fail: whatever a mounted component
  went through, in any order and with anything else happening to the process in between, it satisfies
  its invariant, and no operation on it panics (a publication, provided the identities of its scope are
  above those in the registry, which every reachable registry guarantees).
\<close>

theorem reconciler_never_panics:
  assumes "mount_component iid d s n = (Accepted c0, n')"
    and "component_run tk core ub ops c0 w0 = (evs, c, w)"
    and "publication_fresh core op c w"
  shows "component_ok c \<and> \<not> fst (component_step tk core ub op c w)"
proof -
  have ok: "component_ok c" using component_run_ok [OF mount_ok [OF assms(1)] assms(2)] by simp
  from component_step_ok [OF ok, of tk core ub op w] assms(3) ok show ?thesis
    by (metis prod.collapse)
qed

subsection \<open>Activations do not overlap\<close>

text \<open>
  C33. An activation never starts before its predecessor is torn down: in the history of a mounted
  component starts and completed stops alternate, and the stop after a start is of that very selection
  epoch, with a report that is clean or was explicitly abandoned.
\<close>

theorem activations_do_not_overlap:
  assumes "mount_component iid d s n = (Accepted c0, n')"
    and "component_run tk core ub ops c0 w0 = (evs, c, w)" and "Suc i < length evs"
  shows "case evs ! i of
      Started e \<Rightarrow> \<exists>done. evs ! Suc i = Ended done \<and> completion_epoch done = e \<and>
        (is_clean (completion_report done) \<or> was_abandoned done)
    | Ended done \<Rightarrow> \<exists>e. evs ! Suc i = Started e
    | Quiet \<Rightarrow> False"
  using component_run_ok [OF mount_ok [OF assms(1)] assms(2)] log_alternates assms(3) by blast

subsection \<open>What keeps an activation up\<close>

definition names_undeclared :: "component_definition \<Rightarrow> provider_assignments \<Rightarrow> bool" where
  "names_undeclared d a \<longleftrightarrow>
     (\<exists>s \<in> fst ` set (assigned_providers a). s \<notin> required_service_id ` set (requirements d))"

lemma validate_keys_Inl:
  "validate_assignment_keys d ps = Inl e \<Longrightarrow>
     \<exists>s \<in> fst ` set ps. s \<notin> required_service_id ` set (requirements d) \<and> e = UndeclaredAssignment s"
  by (induction d ps rule: validate_assignment_keys.induct) (force simp: list_ex_iff split: if_splits)+

lemma validate_keys_Inr:
  "validate_assignment_keys d ps = Inr u \<Longrightarrow> fst ` set ps \<subseteq> required_service_id ` set (requirements d)"
  by (induction d ps rule: validate_assignment_keys.induct) (force simp: list_ex_iff split: if_splits)+

text \<open>
  C35. What one reconciliation pass does to an activation that is starting or active. A pass that names an
  assignment for a service the component does not require, or whose unchanged assignment meets a registry
  that refuses the inventory, is refused with that error, and the activation stays up untouched. Every
  other pass is accepted: the activation stays up exactly when its own assignment is still the desired one
  and the registry still lists every assigned provider for its requirement; otherwise the pass puts the
  component into a stop toward pending, names the changed or unavailable dependencies, and has revoked the
  activation's gate before it returns.
\<close>

theorem activation_stays_up_iff:
  assumes "component_ok c" and "inst_state (rc_instance c) = Starting a \<or> inst_state (rc_instance c) = State_Active a"
    and "rc_activation c = Some r" and "reconcile tk core desired c w = (res, c', w')"
  shows "if names_undeclared (rc_definition c) desired
    then c' = c \<and> w' = w \<and> (\<exists>s \<in> fst ` set (assigned_providers desired).
      s \<notin> required_service_id ` set (requirements (rc_definition c)) \<and> res = Rejected (UndeclaredAssignment s))
    else if desired = sel_assignments (ar_selection r) \<and> (\<exists>e. inventory_of tk core c w = Inl e)
    then c' = c \<and> gates w' = gates w \<and> tokens w' = tokens w \<and>
      (\<exists>e. inventory_of tk core c w = Inl e \<and> res = Rejected (RE_Registry e))
    else if desired = sel_assignments (ar_selection r) \<and> satisfied tk core desired c w
    then c' = c \<and> gates w' = gates w \<and> tokens w' = tokens w \<and>
      res = Accepted ((if inst_state (rc_instance c) = Starting a then Outcome_AwaitingStart else Outcome_Active)
        (ProviderSelectionEpoch a))
    else \<exists>why f. res = Accepted (Outcome_StopBegun (ProviderSelectionEpoch a) Target_Pending (Stop_Dependency why)) \<and>
      (case why of
         AssignmentChanged changes \<Rightarrow> desired \<noteq> sel_assignments (ar_selection r) \<and>
           changes = assignment_changes (rc_definition c) (sel_assignments (ar_selection r)) desired
       | Provider_Unavailable issues \<Rightarrow> desired = sel_assignments (ar_selection r) \<and> issues \<noteq> []) \<and>
      inst_state (rc_instance c') = Stopping a Target_Pending f \<and>
      is_revoked (gate_word (gates w') (gate_address (es_activity (ar_effects r))))"
proof (cases "validate_assignment_keys (rc_definition c) (assigned_providers desired)")
  case (Inl e)
  from validate_keys_Inl [OF this] have "names_undeclared (rc_definition c) desired" by (auto simp: names_undeclared_def)
  moreover have "res = Rejected e" "c' = c" "w' = w" using Inl assms(2,4) by (auto simp: reconcile_def)
  ultimately show ?thesis using validate_keys_Inl [OF Inl] by auto
next
  case (Inr u)
  from validate_keys_Inr [OF this] have named: "\<not> names_undeclared (rc_definition c) desired"
    by (auto simp: names_undeclared_def)
  obtain state where st: "inst_state (rc_instance c) = Starting a \<and> state = K_Starting \<or>
      inst_state (rc_instance c) = State_Active a \<and> state = K_Active" using assms(2) by blast
  have rl: "reconcile_live tk core desired state c w = (res, c', w')"
    using assms(4) st Inr by (auto simp: reconcile_def)
  show ?thesis
    by (rule reconcile_live_spec [OF assms(1) st rl])
      (use assms(3) st named in \<open>cases res; auto split: if_splits\<close>)
qed

text \<open>
  A pending component starts exactly when the desired assignment names, for every declared
  requirement, a provider the registry lists for it: the selection it commits to then holds those very
  providers, in the order of the declarations, under the next activation epoch of the instance, and the
  new activation's scope is open. Otherwise it stays as it was and reports what is missing.
\<close>

theorem start_iff_satisfied:
  assumes "component_ok c" and "inst_state (rc_instance c) = Pending"
    and "reconcile tk core desired c w = (Accepted out, c', w')"
  shows "((\<exists>sel. out = Outcome_StartBegun sel) \<longleftrightarrow> satisfied tk core desired c w) \<and>
    (\<forall>sel. out = Outcome_StartBegun sel \<longrightarrow>
       sel_epoch sel = ProviderSelectionEpoch
         (ActivationEpoch (incarnation (rc_instance c)) (last_activation (rc_instance c) + 1)) \<and>
       sel_assignments sel = desired \<and>
       map candidate_id (sel_providers sel) =
         map (\<lambda>r. the (assignment_for desired (required_service_id r))) (requirements (rc_definition c)) \<and>
       (\<exists>r. rc_activation c' = Some r \<and> ar_selection r = sel \<and> es_state (ar_effects r) = Scope_Is_Open)) \<and>
    (\<not> satisfied tk core desired c w \<longrightarrow>
       (\<exists>issues. out = Outcome_Pending (Dependencies_Pending issues) \<and> issues \<noteq> [] \<and> c' = c))"
proof -
  have rp: "reconcile_pending tk core desired c w = (Accepted out, c', w')"
    using assms(2,3) by (auto simp: reconcile_def split: sum.splits)
  note spec = reconcile_pending_spec [OF assms(1,2) rp, simplified]
  then have ok: "component_ok c'" by simp
  from spec consider
      (pend) issues where "out = Outcome_Pending (Dependencies_Pending issues)" "c' = c" "issues \<noteq> []"
        "\<not> satisfied tk core desired c w"
    | (start) a r where "out = Outcome_StartBegun (ar_selection r)" "satisfied tk core desired c w"
        "inst_state (rc_instance c') = Starting a" "rc_activation c' = Some r"
        "a = ActivationEpoch (incarnation (rc_instance c)) (Suc (last_activation (rc_instance c)))"
        "sel_assignments (ar_selection r) = desired"
        "map candidate_id (sel_providers (ar_selection r)) =
          map (\<lambda>r. the (assignment_for desired (required_service_id r))) (requirements (rc_definition c))"
    by blast
  then show ?thesis
  proof cases
    case (start a r)
    then have "live_resources (rc_definition c') a r" using ok by (simp add: component_ok_def)
    with start show ?thesis by (simp add: live_resources_def resources_for_def)
  qed simp
qed

subsection \<open>Fencing\<close>

lemma stale_epoch_rejected: "current_epoch c \<noteq> Some e \<Longrightarrow> \<exists>x. require_epoch e c = Inl x"
  by (auto simp: require_epoch_def current_epoch_def Let_def split: option.splits)

text \<open>The error that names a selection epoch which is not the current one.\<close>

definition stale_error :: "provider_selection_epoch \<Rightarrow> ('u, 'f, 't) reconciled_component \<Rightarrow> reconcile_error" where
  "stale_error e c =
     (case current_epoch c of None \<Rightarrow> NoCurrentSelection e | Some current \<Rightarrow> StaleSelection current e)"

lemma require_epoch_stale: "current_epoch c \<noteq> Some e \<Longrightarrow> require_epoch e c = Inl (stale_error e c)"
  by (auto simp: require_epoch_def current_epoch_def stale_error_def Let_def split: option.splits)

text \<open>
  C36. A selection epoch that is not the current one buys nothing. Whatever operation carries it, binding,
  publishing, deferring a cleanup, failing the activation, completing its start, finishing or abandoning its
  stop, or reading its resources, the answer is a rejection, and the component, the gates, the tokens and the
  registry stay as they were. In the state the operation is meant for, the rejection names the current and
  the presented epoch (or that nothing is active); in any other state it names the operation and the state;
  only a start completion that first meets an undeclared assignment reports that instead.
\<close>

theorem stale_selection_is_fenced:
  assumes "current_epoch c \<noteq> Some e"
  shows "component_bind tk core e q c w =
      (Rejected (if rc_kind c = K_Starting then stale_error e c else InvalidState ''bind dependencies'' (rc_kind c)), w) \<and>
    (\<exists>w'. component_provide core e provider c w =
        (Rejected (if rc_kind c = K_Active then stale_error e c else InvalidState ''publish a service'' (rc_kind c)), c, w') \<and>
      gates w' = gates w \<and> tokens w' = tokens w \<and> registry_of core w' = registry_of core w) \<and>
    (let defer_error = if rc_kind c \<in> {K_Starting, K_Active} then stale_error e c
         else InvalidState ''register an activation effect'' (rc_kind c)
     in component_defer_sync e label cl c = (Rejected defer_error, c) \<and>
        component_defer_async e label cl c = (Rejected defer_error, c)) \<and>
    fail_activation tk e summary c w = (Rejected (stale_error e c), c, w) \<and>
    (\<exists>x. component_complete_start tk core e desired c w = (Rejected x, c, w) \<and>
      (if names_undeclared (rc_definition c) desired
       then \<exists>s. x = UndeclaredAssignment s
       else x = (if rc_kind c = K_Starting then stale_error e c else InvalidState ''complete start'' (rc_kind c)))) \<and>
    poll_finish_stop tk ub e c w =
      (Some (Rejected (if rc_kind c = K_Stopping then stale_error e c else InvalidState ''finish stop'' (rc_kind c))), c, w) \<and>
    abandon_failed_cleanup tk e c w =
      (Rejected (if rc_kind c = K_Stopping then stale_error e c
         else InvalidState ''abandon failed cleanup'' (rc_kind c)), c, w) \<and>
    component_resources e c = Rejected (stale_error e c)"
proof -
  note stale = require_epoch_stale [OF assms]
  have start: "\<exists>x. component_complete_start tk core e desired c w = (Rejected x, c, w) \<and>
      (if names_undeclared (rc_definition c) desired
       then \<exists>s. x = UndeclaredAssignment s
       else x = (if rc_kind c = K_Starting then stale_error e c else InvalidState ''complete start'' (rc_kind c)))"
  proof (cases "validate_assignment_keys (rc_definition c) (assigned_providers desired)")
    case (Inl x)
    with validate_keys_Inl [OF Inl] show ?thesis by (auto simp: component_complete_start_def names_undeclared_def)
  next
    case (Inr u)
    with validate_keys_Inr [OF Inr] stale show ?thesis
      by (auto simp: component_complete_start_def names_undeclared_def)
  qed
  show ?thesis
    using stale start
    by (simp add: component_bind_def component_provide_def component_defer_sync_def component_defer_async_def
        component_defer_def require_effect_admission_def fail_activation_def poll_finish_stop_def
        abandon_failed_cleanup_def component_resources_def Let_def)
qed

subsection \<open>Blocked teardowns\<close>

definition blocked_with :: "close_report \<Rightarrow> ('u, 'f, 't) reconciled_component \<Rightarrow> bool" where
  "blocked_with report c \<longleftrightarrow>
     rc_kind c = K_Stopping \<and> (\<exists>r. rc_activation c = Some r \<and> ar_close_report r = Some report)"

lemma blocked_cases:
  assumes "component_ok c" and "blocked_with report c"
  obtains a target f r reason where "inst_state (rc_instance c) = Stopping a target f" "rc_activation c = Some r"
    "ar_close_report r = Some report" "ar_stop_reason r = Some reason" "es_storage (ar_effects r) = Scope_Closed report"
    "sel_epoch (ar_selection r) = ProviderSelectionEpoch a" "\<not> is_clean report" "instance_ok (rc_instance c)"
proof -
  obtain r where r: "rc_activation c = Some r" "ar_close_report r = Some report" "rc_kind c = K_Stopping"
    using assms(2) by (auto simp: blocked_with_def)
  then obtain a target f where st: "inst_state (rc_instance c) = Stopping a target f"
    by (cases "inst_state (rc_instance c)") auto
  then have res: "stopping_resources (rc_definition c) a r" using assms(1) r(1) by (simp add: component_ok_def)
  then have "closed_report (ar_effects r) = Some report" "\<not> is_clean report" using r(2) by (auto simp: stopping_resources_def)
  then have "es_storage (ar_effects r) = Scope_Closed report"
    by (auto simp: closed_report_def split: scope_storage.splits)
  with that [OF st r(1,2)] res \<open>\<not> is_clean report\<close> assms(1) show thesis
    by (auto simp: stopping_resources_def resources_for_def component_ok_def)
qed

lemma blocked_poll:
  assumes "component_ok c" and "blocked_with report c" and "poll_finish_stop tk ub e c w = (res, c', w')"
  shows "blocked_with report c' \<and> w' = w \<and> stop_event res = Quiet \<and> \<not> (case res of None \<Rightarrow> True | Some r \<Rightarrow> is_panic r)"
proof -
  obtain a target f r reason where b: "inst_state (rc_instance c) = Stopping a target f" "rc_activation c = Some r"
    "ar_close_report r = Some report" "ar_stop_reason r = Some reason" "es_storage (ar_effects r) = Scope_Closed report"
    "\<not> is_clean report"
    using blocked_cases [OF assms(1,2)] by metis
  have p: "poll_close tk (service_callbacks ub) (ar_effects r) w = (Some report, ar_effects r, w)"
    by (rule poll_close_closed [OF b(5)])
  show ?thesis
  proof (cases "require_epoch e c")
    case (Inl x)
    with assms(2,3) b(1) show ?thesis by (auto simp: poll_finish_stop_def)
  next
    case (Inr u)
    with assms(3) b p show ?thesis by (auto simp: poll_finish_stop_def blocked_with_def Let_def)
  qed
qed

text \<open>
  A teardown that was not clean holds the component: once its report is known, no operation at all
  moves the component on, runs a cleanup again or starts anything, except the explicit abandonment under
  the current epoch, which completes the stop toward its frozen target and returns that report as
  abandoned.
\<close>

theorem blocked_stop_needs_abandonment:
  assumes "component_ok c" and "blocked_with report c"
    and "component_step tk core ub op c w = (panics, ev, c', w')"
  shows "if \<exists>e. op = CO_abandon e \<and> current_epoch c = Some e
    then \<exists>target reason. ev = Ended (Stop_Abandoned (the (current_epoch c)) target reason report) \<and>
      inst_state (rc_instance c') = target_state target \<and> rc_activation c' = None
    else blocked_with report c' \<and> ev = Quiet \<and>
      ((\<forall>change. op \<noteq> CO_environment change) \<longrightarrow> gates w' = gates w \<and> registry_of core w' = registry_of core w)"
proof -
  obtain a target f r reason where b: "inst_state (rc_instance c) = Stopping a target f" "rc_activation c = Some r"
    "ar_close_report r = Some report" "ar_stop_reason r = Some reason" "es_storage (ar_effects r) = Scope_Closed report"
    "sel_epoch (ar_selection r) = ProviderSelectionEpoch a" "\<not> is_clean report" "instance_ok (rc_instance c)"
    using blocked_cases [OF assms(1,2)] by metis
  have cur: "current_epoch c = Some (ProviderSelectionEpoch a)" using b(2,6) by (simp add: current_epoch_def)
  have quiet: "outcome_event (stopping_outcome target c) = Quiet"
    using stopping_outcome_ok [OF assms(1) b(1)] by auto
  show ?thesis
  proof (cases op)
    case (CO_finish_stop e)
    with assms(3) show ?thesis by (auto dest!: blocked_poll [OF assms(1,2)] split: prod.splits)
  next
    case (CO_abandon e)
    show ?thesis
    proof (cases "e = ProviderSelectionEpoch a")
      case True
      obtain res where p: "finish_completed tk e (Stop_Abandoned e target reason report) r c w = (res, c', w')"
        "ev = stop_event (Some res)"
        using CO_abandon True assms(3) b
        by (auto simp: abandon_failed_cleanup_def require_epoch_def split: prod.splits)
      from finish_completed_spec [OF b(1,8) p(1) [unfolded True]] p(2) CO_abandon True cur show ?thesis by auto
    next
      case False
      with CO_abandon cur stale_epoch_rejected [of c e] assms(2,3) b(1) show ?thesis
        by (auto simp: abandon_failed_cleanup_def)
    qed
  next
    case (CO_fail e s)
    with assms(2,3) b show ?thesis
      by (auto simp: fail_activation_def mark_failed_def require_activation_def require_epoch_def Let_def
          split: if_splits sum.splits)
  next
    case (CO_reconcile desired)
    with assms(2,3) b(1) quiet show ?thesis by (auto simp: reconcile_def)
  next
    case (CO_request_stop reason t)
    with assms(2,3) b(1) quiet show ?thesis by (auto simp: request_component_stop_def)
  next
    case (CO_complete_start e desired)
    with assms(2,3) b(1) show ?thesis
      by (auto simp: component_complete_start_def split: sum.splits)
  next
    case (CO_environment change)
    with assms(2,3) show ?thesis by auto
  qed (use assms(2,3) b(1) in \<open>auto simp: component_bind_def component_provide_def component_defer_sync_def
      component_defer_async_def component_defer_def require_effect_admission_def\<close>)
qed

section \<open>A component\<close>

text \<open>
  A component without requirements that starts, fails one cleanup when it is stopped, is blocked by it,
  is abandoned, and starts again.
\<close>

definition demo_user :: "(nat, nat, 'k, 'x) callback_api" where
  "demo_user =
     \<lparr>call_sync = (\<lambda>c w. (if c = 0 then Inr (Inl (CleanupError ''refused'')) else Inr (Inr ()), w)),
      call_async = (\<lambda>c w. (Inr c, w)),
      poll_future = (\<lambda>f w. (Inr (Some (Inr ())), f, w)),
      drop_future = (\<lambda>f w. (Inr (), w))\<rparr>"

definition demo_component :: "(nat, nat, nat list) reconciled_component" where
  "demo_component =
     \<lparr>rc_definition = demo_definition,
      rc_instance = demo_instance\<lparr>inst_state := Pending, last_activation := 0\<rparr>,
      rc_activation = None, rc_last_close_report = None\<rparr>"

abbreviation demo_epoch :: provider_selection_epoch where
  "demo_epoch \<equiv> ProviderSelectionEpoch (ActivationEpoch 1 1)"

type_synonym demo_component_op = "(nat, nat list, nat \<times> nat list, unit) component_op"

definition demo_stop_ops :: "demo_component_op list" where
  "demo_stop_ops = [CO_reconcile new_assignments, CO_defer_sync demo_epoch ''flush'' 0,
     CO_complete_start demo_epoch new_assignments, CO_request_stop Reason_Disabled Target_Pending,
     CO_finish_stop demo_epoch]"

definition demo_heap :: "(nat list, nat \<times> nat list, unit) swld" where
  "demo_heap = snd (new_registry demo_services)"

lemmas demo_run_defs =
  demo_stop_ops_def demo_heap_def demo_component_def demo_user_def demo_definition_def new_definition_def
  demo_instance_def demo_services_def new_assignments_def new_registry_def set_registry_def demo_tokens_def
  reconcile_def reconcile_pending_def resolve_assignments_def registry_inventory_def registry_of_def
  begin_start_def u64_checked_succ_def new_scope_def allocate_scope_id_def gate_root_def new_selection_def
  component_defer_sync_def component_defer_def require_effect_admission_def require_epoch_def defer_sync_def
  allocate_registration_def require_open_def es_state_def es_activation_def push_entry_def with_effects_def
  component_complete_start_def rc_selection_def complete_start_def require_activation_def
  request_component_stop_def component_begin_stop_def begin_stop_def begin_close_def request_stop_of_def
  gate_revoke_def poll_finish_stop_def poll_close.simps poll_loop.simps poll_quiescence_def service_callbacks_def
  cleanup_step_def failure_returned_def revoke_signals_def active_calls_def revoke_word_def
  is_clean_def Let_def

lemma demo_mounted:
  "mount_component (ComponentInstanceId ''i'') demo_definition demo_scope 1 = (Accepted demo_component, 2)"
  by (simp add: mount_component_def new_instance_def u64_checked_succ_def demo_component_def demo_definition_def
      new_definition_def demo_instance_def demo_scope_def scope_root_def)

lemma demo_stopped:
  "fst (component_run demo_tokens 10 demo_user demo_stop_ops demo_component demo_heap) = [Started demo_epoch] \<and>
   rc_kind (fst (snd (component_run demo_tokens 10 demo_user demo_stop_ops demo_component demo_heap))) = K_Stopping"
  by (simp add: demo_run_defs)

definition demo_again_ops :: "demo_component_op list" where
  "demo_again_ops = demo_stop_ops @ [CO_abandon demo_epoch, CO_reconcile new_assignments]"

lemma demo_again:
  "length (fst (component_run demo_tokens 10 demo_user demo_again_ops demo_component demo_heap)) = 3 \<and>
   fst (component_run demo_tokens 10 demo_user demo_again_ops demo_component demo_heap) ! 0 = Started demo_epoch"
  by (simp add: demo_again_ops_def demo_run_defs abandon_failed_cleanup_def finish_completed_def complete_stop_def
      drop_scope_def)

definition demo_blocked :: "(nat, nat, nat list) reconciled_component" where
  "demo_blocked = fst (snd (component_run demo_tokens 10 demo_user demo_stop_ops demo_component demo_heap))"

definition demo_blocked_report :: close_report where
  "demo_blocked_report = the (rc_last_close_report demo_blocked)"

lemma demo_blocked_with: "blocked_with demo_blocked_report demo_blocked"
  by (simp add: blocked_with_def demo_blocked_report_def demo_blocked_def demo_run_defs)

lemma demo_blocked_run:
  "component_run demo_tokens 10 demo_user demo_stop_ops demo_component demo_heap =
     (fst (component_run demo_tokens 10 demo_user demo_stop_ops demo_component demo_heap), demo_blocked,
      snd (snd (component_run demo_tokens 10 demo_user demo_stop_ops demo_component demo_heap)))"
  by (simp add: demo_blocked_def)

lemma demo_component_ok: "component_ok demo_component"
  by (rule mount_ok [OF demo_mounted])

lemma demo_blocked_ok: "component_ok demo_blocked"
  using component_run_ok [OF demo_component_ok demo_blocked_run] by simp

theorem reconciler_never_panics_witness:
  "\<not> fst (component_step demo_tokens 10 demo_user (CO_abandon demo_epoch) demo_blocked
     (snd (snd (component_run demo_tokens 10 demo_user demo_stop_ops demo_component demo_heap))))"
  using reconciler_never_panics [OF demo_mounted demo_blocked_run, of "CO_abandon demo_epoch"] by simp

theorem activations_do_not_overlap_witness:
  "\<exists>done. fst (component_run demo_tokens 10 demo_user demo_again_ops demo_component demo_heap) ! 1 = Ended done \<and>
     completion_epoch done = demo_epoch \<and> (is_clean (completion_report done) \<or> was_abandoned done)"
  using activations_do_not_overlap [OF demo_mounted, of demo_tokens 10 demo_user demo_again_ops demo_heap _ _ _ 0]
    demo_again by (cases "component_run demo_tokens 10 demo_user demo_again_ops demo_component demo_heap") auto

definition demo_started :: "(nat, nat, nat list) reconciled_component" where
  "demo_started = fst (snd (reconcile demo_tokens 10 new_assignments demo_component demo_heap))"

lemma demo_started_ok: "component_ok demo_started"
  unfolding demo_started_def using reconcile_ok [OF demo_component_ok] by (metis prod.collapse)

theorem activation_stays_up_iff_witness:
  "fst (reconcile demo_tokens 10 new_assignments demo_started demo_heap) = Accepted (Outcome_AwaitingStart demo_epoch) \<and>
   fst (snd (reconcile demo_tokens 10 new_assignments demo_started demo_heap)) = demo_started"
proof -
  have out: "fst (reconcile demo_tokens 10 new_assignments demo_started demo_heap)
      = Accepted (Outcome_AwaitingStart demo_epoch)"
    by (simp add: demo_started_def demo_run_defs reconcile_live_def)
  have st: "inst_state (rc_instance demo_started) = Starting (ActivationEpoch 1 1) \<or>
      inst_state (rc_instance demo_started) = State_Active (ActivationEpoch 1 1)"
    and r: "rc_activation demo_started = Some (the (rc_activation demo_started))"
    by (simp_all add: demo_started_def demo_run_defs)
  obtain c' w' where eq: "reconcile demo_tokens 10 new_assignments demo_started demo_heap =
      (Accepted (Outcome_AwaitingStart demo_epoch), c', w')" using out by (metis prod.collapse)
  have named: "\<not> names_undeclared (rc_definition demo_started) new_assignments"
    by (simp add: names_undeclared_def new_assignments_def)
  from activation_stays_up_iff [OF demo_started_ok st r eq] eq named show ?thesis by (auto split: if_splits)
qed

theorem start_iff_satisfied_witness:
  "\<exists>sel. fst (reconcile demo_tokens 10 new_assignments demo_component demo_heap) = Accepted (Outcome_StartBegun sel) \<and>
     sel_epoch sel = demo_epoch"
proof -
  obtain sel where out: "fst (reconcile demo_tokens 10 new_assignments demo_component demo_heap) =
      Accepted (Outcome_StartBegun sel)"
    by (simp add: demo_run_defs)
  have st: "inst_state (rc_instance demo_component) = Pending" by (simp add: demo_component_def)
  obtain c' w' where eq: "reconcile demo_tokens 10 new_assignments demo_component demo_heap =
      (Accepted (Outcome_StartBegun sel), c', w')" using out by (metis prod.collapse)
  from start_iff_satisfied [OF demo_component_ok st eq] eq show ?thesis
    by (simp add: demo_component_def demo_instance_def)
qed

theorem stale_selection_is_fenced_witness:
  "fail_activation demo_tokens (ProviderSelectionEpoch (ActivationEpoch 1 7)) ''late'' demo_started demo_heap =
     (Rejected (StaleSelection demo_epoch (ProviderSelectionEpoch (ActivationEpoch 1 7))), demo_started, demo_heap)"
proof -
  have cur: "current_epoch demo_started = Some demo_epoch"
    by (simp add: current_epoch_def demo_started_def demo_run_defs)
  then have "current_epoch demo_started \<noteq> Some (ProviderSelectionEpoch (ActivationEpoch 1 7))" by simp
  from stale_selection_is_fenced [OF this, where tk = demo_tokens and w = demo_heap and summary = "''late''"] cur
  show ?thesis by (simp add: stale_error_def)
qed

theorem blocked_stop_needs_abandonment_witness:
  "blocked_with demo_blocked_report (fst (snd (snd (component_step demo_tokens 10 demo_user
     (CO_reconcile new_assignments) demo_blocked demo_heap))))"
proof -
  obtain p ev c' w' where st: "component_step demo_tokens 10 demo_user (CO_reconcile new_assignments) demo_blocked demo_heap
    = (p, ev, c', w')" by (metis prod_cases4)
  from blocked_stop_needs_abandonment [OF demo_blocked_ok demo_blocked_with st] st show ?thesis by simp
qed

end
