(* ===== verification/Compose_Slot.thy ===== *)
theory Compose_Slot
  imports Compose_Convergence
begin

text \<open>
  Desired state (\<open>yah-compose/src/desired_state/\<close>): a slot owns the latest accepted desired snapshot and
  at most one mounted component revision, and converges the second toward the first. The process-wide
  instance counter that a mount draws from is threaded through.
\<close>

section \<open>Generations and revisions\<close>

datatype desired_generation =
  DesiredGeneration (generation_slot: u64) (generation_sequence: u64)

instantiation desired_generation :: linorder
begin
definition less_eq_desired_generation :: "desired_generation \<Rightarrow> desired_generation \<Rightarrow> bool" where
  "less_eq_desired_generation a b \<longleftrightarrow>
     generation_slot a < generation_slot b \<or>
     generation_slot a = generation_slot b \<and> generation_sequence a \<le> generation_sequence b"
definition less_desired_generation :: "desired_generation \<Rightarrow> desired_generation \<Rightarrow> bool" where
  "less_desired_generation a b \<longleftrightarrow>
     generation_slot a < generation_slot b \<or>
     generation_slot a = generation_slot b \<and> generation_sequence a < generation_sequence b"
instance
  by standard
    (auto simp: less_eq_desired_generation_def less_desired_generation_def desired_generation.expand)
end

fun revision_id_text :: "component_revision_id \<Rightarrow> string" where
  "revision_id_text (ComponentRevisionId s) = s"

instantiation component_revision_id :: linorder
begin
definition less_eq_component_revision_id :: "component_revision_id \<Rightarrow> component_revision_id \<Rightarrow> bool" where
  "less_eq_component_revision_id a b \<longleftrightarrow> revision_id_text a \<le> revision_id_text b"
definition less_component_revision_id :: "component_revision_id \<Rightarrow> component_revision_id \<Rightarrow> bool" where
  "less_component_revision_id a b \<longleftrightarrow> revision_id_text a < revision_id_text b"
instance
proof
  fix x y :: component_revision_id
  show "x \<le> y \<Longrightarrow> y \<le> x \<Longrightarrow> x = y"
    by (cases x; cases y) (simp add: less_eq_component_revision_id_def)
qed (auto simp: less_eq_component_revision_id_def less_component_revision_id_def)
end

definition generation_text :: "desired_generation \<Rightarrow> string" where
  "generation_text g = show_nat (generation_slot g) @ '':'' @ show_nat (generation_sequence g)"

record component_revision =
  rev_id :: component_revision_id
  rev_definition :: component_definition
  rev_scope :: scope

text \<open>The derived equality of revisions compares scopes as \<open>Scope\<close> does, by the identity of their nodes.\<close>

definition revision_eq :: "component_revision \<Rightarrow> component_revision \<Rightarrow> bool" where
  "revision_eq a b \<longleftrightarrow>
     rev_id a = rev_id b \<and> rev_definition a = rev_definition b \<and> scope_eq (rev_scope a) (rev_scope b)"

datatype desired_component_state =
    Desired_Enabled desired_generation component_revision provider_assignments
  | Desired_Disabled desired_generation component_revision
  | Desired_Gone desired_generation

fun desired_generation_of :: "desired_component_state \<Rightarrow> desired_generation" where
  "desired_generation_of (Desired_Enabled g _ _) = g"
| "desired_generation_of (Desired_Disabled g _) = g"
| "desired_generation_of (Desired_Gone g) = g"

fun desired_revision_of :: "desired_component_state \<Rightarrow> component_revision option" where
  "desired_revision_of (Desired_Enabled _ r _) = Some r"
| "desired_revision_of (Desired_Disabled _ r) = Some r"
| "desired_revision_of (Desired_Gone _) = None"

fun desired_assignments_of :: "desired_component_state \<Rightarrow> provider_assignments option" where
  "desired_assignments_of (Desired_Enabled _ _ a) = Some a"
| "desired_assignments_of (Desired_Disabled _ _) = None"
| "desired_assignments_of (Desired_Gone _) = None"

fun desired_eq :: "desired_component_state \<Rightarrow> desired_component_state \<Rightarrow> bool" where
  "desired_eq (Desired_Enabled g r a) (Desired_Enabled g' r' a') \<longleftrightarrow> g = g' \<and> revision_eq r r' \<and> a = a'"
| "desired_eq (Desired_Disabled g r) (Desired_Disabled g' r') \<longleftrightarrow> g = g' \<and> revision_eq r r'"
| "desired_eq (Desired_Gone g) (Desired_Gone g') \<longleftrightarrow> g = g'"
| "desired_eq _ _ \<longleftrightarrow> False"

section \<open>Observations and errors\<close>

datatype component_slot_outcome =
    Slot_Removed desired_generation
  | Slot_Disabled desired_generation component_revision_id
  | Slot_Mounted desired_generation component_revision_id reconcile_outcome
  | Slot_Reconciled desired_generation component_revision_id reconcile_outcome
  | Slot_Unmounted desired_generation component_revision_id desired_stop_reason
  | Slot_StopBegun desired_generation component_revision_id provider_selection_epoch stop_target
      component_stop_reason
  | Slot_Stopping desired_generation component_revision_id provider_selection_epoch stop_target
      component_stop_reason bool
  | Slot_ConvergenceBlocked desired_generation "component_revision_id option" "component_revision_id option"
      reconcile_error

datatype stop_disposition = Disposition_Completed | Disposition_Blocked | Disposition_Abandoned

record stop_record =
  stop_applied :: component_revision_id
  stop_epoch :: provider_selection_epoch
  stop_target_of :: stop_target
  stop_reason_of :: component_stop_reason
  stop_disposition_of :: stop_disposition
  stop_report :: close_report

datatype component_slot_error =
    SlotIncarnationExhausted
  | ForeignDesiredGeneration desired_generation desired_generation
  | StaleDesired desired_generation desired_generation
  | DesiredGenerationConflict desired_generation
  | RevisionIdentityConflict component_revision_id
  | NoMountedComponent component_instance_id
  | MountedRevisionNotEnabled "component_revision_id option" component_revision_id
  | Slot_Reconcile reconcile_error

fun slot_error_text :: "component_slot_error \<Rightarrow> string" where
  "slot_error_text SlotIncarnationExhausted = ''component slot incarnation space exhausted''"
| "slot_error_text (ForeignDesiredGeneration expected received) =
     ''desired generation '' @ generation_text received @ '' belongs to another slot incarnation; expected ''
     @ generation_text expected"
| "slot_error_text (StaleDesired current received) =
     ''stale desired generation '' @ generation_text received @ ''; current generation is ''
     @ generation_text current"
| "slot_error_text (DesiredGenerationConflict g) =
     ''desired generation '' @ generation_text g @ '' was reused with different content''"
| "slot_error_text (RevisionIdentityConflict r) =
     ''component revision '' @ revision_id_text r @ '' was reused with a different definition or scope''"
| "slot_error_text (NoMountedComponent i) =
     ''component slot '' @ instance_id_text i @ '' has no mounted component''"
| "slot_error_text (MountedRevisionNotEnabled desired applied) =
     (case desired of
        Some d \<Rightarrow>
          if d = applied then ''mounted revision '' @ revision_id_text applied @ '' is currently disabled''
          else ''mounted revision '' @ revision_id_text applied
                 @ '' has been superseded by desired revision '' @ revision_id_text d
      | None \<Rightarrow> ''mounted revision '' @ revision_id_text applied @ '' is desired as removed'')"
| "slot_error_text (Slot_Reconcile e) = reconcile_error_text e"

section \<open>The slot\<close>

record ('u, 'f, 't) mounted_revision =
  mounted_id :: component_revision_id
  mounted_component :: "('u, 'f, 't) reconciled_component"

record ('u, 'f, 't) component_slot =
  slot_instance :: component_instance_id
  slot_incarnation :: u64
  slot_desired :: "desired_component_state option"
  known_revisions :: "(component_revision_id, component_revision) btree"
  slot_mounted :: "('u, 'f, 't) mounted_revision option"
  slot_last_stop :: "stop_record option"

text \<open>\<open>ComponentSlot::new\<close> draws from the process-wide slot counter.\<close>

definition new_slot ::
  "component_instance_id \<Rightarrow> u64 \<Rightarrow> (component_slot_error + ('u, 'f, 't) component_slot) \<times> u64" where
  "new_slot iid counter =
     (case u64_checked_succ counter of
        None \<Rightarrow> (Inl SlotIncarnationExhausted, counter)
      | Some next \<Rightarrow>
          (Inr \<lparr>slot_instance = iid, slot_incarnation = counter, slot_desired = None, known_revisions = [],
                slot_mounted = None, slot_last_stop = None\<rparr>, next))"

definition slot_generation :: "u64 \<Rightarrow> ('u, 'f, 't) component_slot \<Rightarrow> desired_generation" where
  "slot_generation sequence s = DesiredGeneration (slot_incarnation s) sequence"

definition slot_desired_revision :: "('u, 'f, 't) component_slot \<Rightarrow> component_revision_id option" where
  "slot_desired_revision s = map_option rev_id (Option.bind (slot_desired s) desired_revision_of)"

definition applied_revision :: "('u, 'f, 't) component_slot \<Rightarrow> component_revision_id option" where
  "applied_revision s = map_option mounted_id (slot_mounted s)"

definition revision_keys ::
  "component_revision \<Rightarrow> provider_assignments \<Rightarrow> component_slot_error + unit" where
  "revision_keys revision a =
     map_sum Slot_Reconcile id (validate_assignment_keys (rev_definition revision) (assigned_providers a))"

section \<open>Admission of a desired state\<close>

text \<open>Whether the snapshot is new to the slot, or why its generation is refused.\<close>

definition desired_changed ::
  "desired_component_state \<Rightarrow> ('u, 'f, 't) component_slot \<Rightarrow> component_slot_error + bool" where
  "desired_changed desired s =
     (case slot_desired s of
        None \<Rightarrow> Inr True
      | Some current \<Rightarrow>
          if desired_generation_of desired < desired_generation_of current
          then Inl (StaleDesired (desired_generation_of current) (desired_generation_of desired))
          else if desired_generation_of desired = desired_generation_of current
          then if desired_eq desired current then Inr False
               else Inl (DesiredGenerationConflict (desired_generation_of desired))
          else Inr True)"

definition identity_conflict :: "desired_component_state \<Rightarrow> ('u, 'f, 't) component_slot \<Rightarrow> component_revision_id option"
  where
  "identity_conflict desired s =
     (case desired_revision_of desired of
        None \<Rightarrow> None
      | Some revision \<Rightarrow>
          (case bt_get (known_revisions s) (rev_id revision) of
             None \<Rightarrow> None
           | Some known \<Rightarrow> if \<not> revision_eq known revision then Some (rev_id revision) else None))"

definition admission_keys ::
  "bool \<Rightarrow> desired_component_state \<Rightarrow> ('u, 'f, 't) component_slot \<Rightarrow> component_slot_error + unit" where
  "admission_keys changed desired s =
     (case desired of
        Desired_Enabled _ revision assignments \<Rightarrow>
          if changed \<and> (case applied_revision s of None \<Rightarrow> True | Some applied \<Rightarrow> applied = rev_id revision)
          then revision_keys revision assignments else Inr ()
      | _ \<Rightarrow> Inr ())"

definition remember_revision ::
  "component_revision \<Rightarrow> (component_revision_id, component_revision) btree \<Rightarrow>
     (component_revision_id, component_revision) btree" where
  "remember_revision revision known =
     (if bt_contains known (rev_id revision) then known else bt_insert (rev_id revision) revision known)"

definition accept_desired ::
  "desired_component_state \<Rightarrow> ('u, 'f, 't) component_slot \<Rightarrow>
     (component_slot_error + unit) \<times> ('u, 'f, 't) component_slot" where
  "accept_desired desired s =
     (if generation_slot (desired_generation_of desired) \<noteq> slot_incarnation s
      then (Inl (ForeignDesiredGeneration
                   (slot_generation (generation_sequence (desired_generation_of desired)) s)
                   (desired_generation_of desired)), s)
      else case desired_changed desired s of
        Inl e \<Rightarrow> (Inl e, s)
      | Inr changed \<Rightarrow>
          (case identity_conflict desired s of
             Some r \<Rightarrow> (Inl (RevisionIdentityConflict r), s)
           | None \<Rightarrow>
               (case admission_keys changed desired s of
                  Inl e \<Rightarrow> (Inl e, s)
                | Inr _ \<Rightarrow>
                    if \<not> changed then (Inr (), s)
                    else (Inr (), s\<lparr>known_revisions :=
                            (case desired_revision_of desired of
                               None \<Rightarrow> known_revisions s
                             | Some revision \<Rightarrow> remember_revision revision (known_revisions s)),
                            slot_desired := Some desired\<rparr>))))"

section \<open>Convergence\<close>

type_synonym ('u, 'f, 't, 'k, 'y, 'a) slotting =
  "(component_slot_error, 'a) attempt \<times> ('u, 'f, 't) component_slot \<times> ('t, 'k, 'y) swld"

text \<open>Dropping a mounted component drops the effect scope of its activation, if it has one.\<close>

definition drop_component ::
  "('t, 'k) cancellation_api \<Rightarrow> ('u, 'f, 't) reconciled_component \<Rightarrow> ('t, 'k, 'y) swld \<Rightarrow> ('t, 'k, 'y) swld" where
  "drop_component tk c w =
     (case rc_activation c of None \<Rightarrow> w | Some r \<Rightarrow> drop_scope tk (ar_effects r) w)"

definition with_component ::
  "('u, 'f, 't) reconciled_component \<Rightarrow> ('u, 'f, 't) component_slot \<Rightarrow> ('u, 'f, 't) component_slot" where
  "with_component c s = s\<lparr>slot_mounted := map_option (mounted_component_update (\<lambda>_. c)) (slot_mounted s)\<rparr>"

definition map_current ::
  "desired_generation \<Rightarrow> component_revision_id \<Rightarrow> reconcile_outcome \<Rightarrow> component_slot_outcome" where
  "map_current g applied out =
     (case out of
        Outcome_StopBegun e target reason \<Rightarrow> Slot_StopBegun g applied e target reason
      | Outcome_Stopping e target reason blocked \<Rightarrow> Slot_Stopping g applied e target reason blocked
      | out \<Rightarrow> Slot_Reconciled g applied out)"

definition map_stop ::
  "desired_generation \<Rightarrow> component_revision_id \<Rightarrow> reconcile_outcome \<Rightarrow>
     (component_slot_error, component_slot_outcome) attempt" where
  "map_stop g applied out =
     (case out of
        Outcome_StopBegun e target reason \<Rightarrow> Accepted (Slot_StopBegun g applied e target reason)
      | Outcome_Stopping e target reason blocked \<Rightarrow> Accepted (Slot_Stopping g applied e target reason blocked)
      | _ \<Rightarrow> Panic ''requested live stop returns stop or stopping'')"

text \<open>The stop of a mounted component that an accepted desired state asks for.\<close>

definition unmount ::
  "('t, 'k) cancellation_api \<Rightarrow> desired_generation \<Rightarrow> desired_stop_reason \<Rightarrow> ('u, 'f, 't) mounted_revision \<Rightarrow>
     ('u, 'f, 't) component_slot \<Rightarrow> ('t, 'k, 'y) swld \<Rightarrow>
     ('u, 'f, 't, 'k, 'y, component_slot_outcome) slotting" where
  "unmount tk g reason m s w =
     (case request_component_stop tk reason Target_Removed (mounted_component m) w of
        (Rejected e, c, w) \<Rightarrow> (Rejected (Slot_Reconcile e), with_component c s, w)
      | (Panic p, c, w) \<Rightarrow> (Panic p, with_component c s, w)
      | (Accepted out, c, w) \<Rightarrow>
          if out = Outcome_Removed
          then (Accepted (Slot_Unmounted g (mounted_id m) reason), s\<lparr>slot_mounted := None\<rparr>, drop_component tk c w)
          else (map_stop g (mounted_id m) out, with_component c s, w))"

definition mount_and_reconcile ::
  "('t, 'k) cancellation_api \<Rightarrow> address \<Rightarrow> component_revision \<Rightarrow> provider_assignments \<Rightarrow>
     ('u, 'f, 't) component_slot \<Rightarrow> u64 \<Rightarrow> ('t, 'k, 'y) swld \<Rightarrow>
     (component_slot_error, reconcile_outcome) attempt \<times> ('u, 'f, 't) component_slot \<times> u64 \<times> ('t, 'k, 'y) swld" where
  "mount_and_reconcile tk core revision assignments s n w =
     (case revision_keys revision assignments of
        Inl e \<Rightarrow> (Rejected e, s, n, w)
      | Inr _ \<Rightarrow>
          (case mount_component (slot_instance s) (rev_definition revision) (rev_scope revision) n of
             (Rejected e, n) \<Rightarrow> (Rejected (Slot_Reconcile e), s, n, w)
           | (Panic p, n) \<Rightarrow> (Panic p, s, n, w)
           | (Accepted c, n) \<Rightarrow>
               (let (r, c, w) = reconcile tk core assignments c w
                in (map_rejected Slot_Reconcile r,
                    s\<lparr>slot_mounted := Some \<lparr>mounted_id = rev_id revision, mounted_component = c\<rparr>\<rparr>, n, w))))"

definition reconcile_enabled ::
  "('t, 'k) cancellation_api \<Rightarrow> address \<Rightarrow> desired_generation \<Rightarrow> component_revision \<Rightarrow> provider_assignments \<Rightarrow>
     ('u, 'f, 't) component_slot \<Rightarrow> u64 \<Rightarrow> ('t, 'k, 'y) swld \<Rightarrow>
     (component_slot_error, component_slot_outcome) attempt \<times> ('u, 'f, 't) component_slot \<times> u64
       \<times> ('t, 'k, 'y) swld" where
  "reconcile_enabled tk core g revision assignments s n w =
     (case slot_mounted s of
        None \<Rightarrow>
          (case mount_and_reconcile tk core revision assignments s n w of
             (Accepted out, s, n, w) \<Rightarrow> (Accepted (Slot_Mounted g (rev_id revision) out), s, n, w)
           | (Rejected e, s, n, w) \<Rightarrow> (Rejected e, s, n, w)
           | (Panic p, s, n, w) \<Rightarrow> (Panic p, s, n, w))
      | Some m \<Rightarrow>
          if mounted_id m = rev_id revision
          then (case reconcile tk core assignments (mounted_component m) w of
                  (Accepted out, c, w) \<Rightarrow> (Accepted (map_current g (mounted_id m) out), with_component c s, n, w)
                | (Rejected e, c, w) \<Rightarrow> (Rejected (Slot_Reconcile e), with_component c s, n, w)
                | (Panic p, c, w) \<Rightarrow> (Panic p, with_component c s, n, w))
          else (let (r, s, w) = unmount tk g (RevisionChanged (mounted_id m) (rev_id revision)) m s w
                in (r, s, n, w)))"

definition reconcile_disabled ::
  "('t, 'k) cancellation_api \<Rightarrow> desired_generation \<Rightarrow> component_revision \<Rightarrow> ('u, 'f, 't) component_slot \<Rightarrow>
     ('t, 'k, 'y) swld \<Rightarrow> ('u, 'f, 't, 'k, 'y, component_slot_outcome) slotting" where
  "reconcile_disabled tk g revision s w =
     (case slot_mounted s of
        None \<Rightarrow> (Accepted (Slot_Disabled g (rev_id revision)), s, w)
      | Some m \<Rightarrow> unmount tk g Reason_Disabled m s w)"

definition reconcile_removed ::
  "('t, 'k) cancellation_api \<Rightarrow> desired_generation \<Rightarrow> ('u, 'f, 't) component_slot \<Rightarrow>
     ('t, 'k, 'y) swld \<Rightarrow> ('u, 'f, 't, 'k, 'y, component_slot_outcome) slotting" where
  "reconcile_removed tk g s w =
     (case slot_mounted s of
        None \<Rightarrow> (Accepted (Slot_Removed g), s, w)
      | Some m \<Rightarrow> unmount tk g Reason_Removed m s w)"

text \<open>A reconcile error after admission is an observation: the snapshot is accepted but blocked.\<close>

definition convergence_result ::
  "(component_slot_error, component_slot_outcome) attempt \<Rightarrow> ('u, 'f, 't) component_slot \<Rightarrow>
     (component_slot_error, component_slot_outcome) attempt" where
  "convergence_result r s =
     (case r of
        Rejected (Slot_Reconcile e) \<Rightarrow>
          (case slot_desired s of
             None \<Rightarrow> Panic ''reconciliation owns an accepted desired generation''
           | Some d \<Rightarrow>
               Accepted (Slot_ConvergenceBlocked (desired_generation_of d) (slot_desired_revision s)
                 (applied_revision s) e))
      | r \<Rightarrow> r)"

definition slot_reconcile ::
  "('t, 'k) cancellation_api \<Rightarrow> address \<Rightarrow> desired_component_state \<Rightarrow> ('u, 'f, 't) component_slot \<Rightarrow> u64 \<Rightarrow>
     ('t, 'k, 'y) swld \<Rightarrow>
     (component_slot_error, component_slot_outcome) attempt \<times> ('u, 'f, 't) component_slot \<times> u64
       \<times> ('t, 'k, 'y) swld" where
  "slot_reconcile tk core desired s n w =
     (case accept_desired desired s of
        (Inl e, s) \<Rightarrow> (Rejected e, s, n, w)
      | (Inr _, s) \<Rightarrow>
          (case slot_desired s of
             None \<Rightarrow> (Panic ''successful desired admission stores a snapshot'', s, n, w)
           | Some d \<Rightarrow>
               (let (r, s, n, w) =
                  (case d of
                     Desired_Enabled g revision assignments \<Rightarrow>
                       reconcile_enabled tk core g revision assignments s n w
                   | Desired_Disabled g revision \<Rightarrow>
                       (let (r, s, w) = reconcile_disabled tk g revision s w in (r, s, n, w))
                   | Desired_Gone g \<Rightarrow>
                       (let (r, s, w) = reconcile_removed tk g s w in (r, s, n, w)))
                in (convergence_result r s, s, n, w))))"

section \<open>Operations on the mounted component\<close>

definition active_assignments ::
  "('u, 'f, 't) component_slot \<Rightarrow> component_slot_error + provider_assignments" where
  "active_assignments s =
     (case slot_mounted s of
        None \<Rightarrow> Inl (NoMountedComponent (slot_instance s))
      | Some m \<Rightarrow>
          (case slot_desired s of
             Some (Desired_Enabled _ revision assignments) \<Rightarrow>
               if rev_id revision = mounted_id m then Inr assignments
               else Inl (MountedRevisionNotEnabled (slot_desired_revision s) (mounted_id m))
           | _ \<Rightarrow> Inl (MountedRevisionNotEnabled (slot_desired_revision s) (mounted_id m))))"

text \<open>An operation of the mounted component, behind \<open>require_active_revision\<close>.\<close>

definition on_mounted ::
  "(provider_assignments \<Rightarrow> ('u, 'f, 't) reconciled_component \<Rightarrow> ('t, 'k, 'y) swld \<Rightarrow>
      ('u, 'f, 't, 'k, 'y, 'a) reconciling) \<Rightarrow>
     ('u, 'f, 't) component_slot \<Rightarrow> ('t, 'k, 'y) swld \<Rightarrow> ('u, 'f, 't, 'k, 'y, 'a) slotting" where
  "on_mounted operation s w =
     (case active_assignments s of
        Inl e \<Rightarrow> (Rejected e, s, w)
      | Inr assignments \<Rightarrow>
          (case slot_mounted s of
             None \<Rightarrow> (Rejected (NoMountedComponent (slot_instance s)), s, w)
           | Some m \<Rightarrow>
               (let (r, c, w) = operation assignments (mounted_component m) w
                in (map_rejected Slot_Reconcile r, with_component c s, w))))"

definition slot_complete_start where
  "slot_complete_start tk core epoch s w =
     on_mounted (\<lambda>assignments c w. component_complete_start tk core epoch assignments c w) s w"

definition slot_bind where
  "slot_bind tk core epoch requirement s w =
     on_mounted (\<lambda>_ c w. let (r, w) = component_bind tk core epoch requirement c w in (r, c, w)) s w"

definition slot_provide where
  "slot_provide core epoch provider s w =
     (case active_assignments s of
        Inl e \<Rightarrow> (Rejected e, s, drop_strong (sp_value provider) w)
      | Inr _ \<Rightarrow> on_mounted (\<lambda>_ c w. component_provide core epoch provider c w) s w)"

definition slot_defer_sync where
  "slot_defer_sync epoch label cl s w =
     on_mounted (\<lambda>_ c w. let (r, c) = component_defer_sync epoch label cl c in (r, c, w)) s w"

definition slot_defer_async where
  "slot_defer_async epoch label cl s w =
     on_mounted (\<lambda>_ c w. let (r, c) = component_defer_async epoch label cl c in (r, c, w)) s w"

definition slot_fail_activation where
  "slot_fail_activation tk epoch summary s w =
     on_mounted (\<lambda>_ c w. fail_activation tk epoch summary c w) s w"

text \<open>\<open>cancellation\<close> and \<open>activity\<close> hand out the token and the gate of the activation's scope.\<close>

definition slot_resources where
  "slot_resources epoch s w = on_mounted (\<lambda>_ c w. (component_resources epoch c, c, w)) s w"

fun disposition :: "stop_completion \<Rightarrow> stop_disposition" where
  "disposition (Stop_Completed _ _ _ _) = Disposition_Completed"
| "disposition (Stop_Blocked _ _ _ _) = Disposition_Blocked"
| "disposition (Stop_Abandoned _ _ _ _) = Disposition_Abandoned"

definition record_completion ::
  "('t, 'k) cancellation_api \<Rightarrow> component_revision_id \<Rightarrow> stop_completion \<Rightarrow> ('u, 'f, 't) component_slot \<Rightarrow>
     ('t, 'k, 'y) swld \<Rightarrow> stop_record \<times> ('u, 'f, 't) component_slot \<times> ('t, 'k, 'y) swld" where
  "record_completion tk applied completion s w =
     (let rec = \<lparr>stop_applied = applied, stop_epoch = completion_epoch completion,
            stop_target_of = completion_target completion, stop_reason_of = completion_reason completion,
            stop_disposition_of = disposition completion, stop_report = completion_report completion\<rparr>;
          s = s\<lparr>slot_last_stop := Some rec\<rparr>
      in if completion_target completion = Target_Removed \<and> disposition completion \<noteq> Disposition_Blocked
         then (rec, s\<lparr>slot_mounted := None\<rparr>,
               case slot_mounted s of None \<Rightarrow> w | Some m \<Rightarrow> drop_component tk (mounted_component m) w)
         else (rec, s, w))"

definition slot_poll_finish_stop ::
  "('t, 'k) cancellation_api \<Rightarrow> ('u, 'f, 'k, ('t, 'y) service_heap) callback_api \<Rightarrow> provider_selection_epoch \<Rightarrow>
     ('u, 'f, 't) component_slot \<Rightarrow> ('t, 'k, 'y) swld \<Rightarrow>
     (component_slot_error, stop_record) attempt option \<times> ('u, 'f, 't) component_slot \<times> ('t, 'k, 'y) swld" where
  "slot_poll_finish_stop tk ub epoch s w =
     (case slot_mounted s of
        None \<Rightarrow> (Some (Rejected (NoMountedComponent (slot_instance s))), s, w)
      | Some m \<Rightarrow>
          (case poll_finish_stop tk ub epoch (mounted_component m) w of
             (None, c, w) \<Rightarrow> (None, with_component c s, w)
           | (Some (Rejected e), c, w) \<Rightarrow> (Some (Rejected (Slot_Reconcile e)), with_component c s, w)
           | (Some (Panic p), c, w) \<Rightarrow> (Some (Panic p), with_component c s, w)
           | (Some (Accepted completion), c, w) \<Rightarrow>
               (let (rec, s, w) = record_completion tk (mounted_id m) completion (with_component c s) w
                in (Some (Accepted rec), s, w))))"

definition slot_abandon ::
  "('t, 'k) cancellation_api \<Rightarrow> provider_selection_epoch \<Rightarrow> ('u, 'f, 't) component_slot \<Rightarrow>
     ('t, 'k, 'y) swld \<Rightarrow> ('u, 'f, 't, 'k, 'y, stop_record) slotting" where
  "slot_abandon tk epoch s w =
     (case slot_mounted s of
        None \<Rightarrow> (Rejected (NoMountedComponent (slot_instance s)), s, w)
      | Some m \<Rightarrow>
          (case abandon_failed_cleanup tk epoch (mounted_component m) w of
             (Rejected e, c, w) \<Rightarrow> (Rejected (Slot_Reconcile e), with_component c s, w)
           | (Panic p, c, w) \<Rightarrow> (Panic p, with_component c s, w)
           | (Accepted completion, c, w) \<Rightarrow>
               (let (rec, s, w) = record_completion tk (mounted_id m) completion (with_component c s) w
                in (Accepted rec, s, w))))"

end
