(* ===== verification/Compose_Desired.thy ===== *)
theory Compose_Desired
  imports Compose_Slot
begin

text \<open>
  The invariant of a slot, what the admission of a snapshot does to it, and the stop of a mounted
  component that an accepted snapshot asks for.
\<close>

section \<open>The invariant\<close>

definition mounted_ok :: "('u, 'f, 't) component_slot \<Rightarrow> ('u, 'f, 't) mounted_revision \<Rightarrow> bool" where
  "mounted_ok s m \<longleftrightarrow>
     component_ok (mounted_component m) \<and> inst_state (rc_instance (mounted_component m)) \<noteq> Removed \<and>
     (\<exists>r. bt_get (known_revisions s) (mounted_id m) = Some r \<and>
        rc_definition (mounted_component m) = rev_definition r)"

definition desired_ok :: "('u, 'f, 't) component_slot \<Rightarrow> desired_component_state \<Rightarrow> bool" where
  "desired_ok s d \<longleftrightarrow>
     generation_slot (desired_generation_of d) = slot_incarnation s \<and>
     (\<forall>r. desired_revision_of d = Some r \<longrightarrow>
        (\<exists>k. bt_get (known_revisions s) (rev_id r) = Some k \<and> revision_eq k r))"

definition slot_ok :: "('u, 'f, 't) component_slot \<Rightarrow> bool" where
  "slot_ok s \<longleftrightarrow>
     (\<forall>m. slot_mounted s = Some m \<longrightarrow> mounted_ok s m) \<and>
     (\<forall>d. slot_desired s = Some d \<longrightarrow> desired_ok s d)"

lemma new_slot_ok: "new_slot iid n = (Inr s, n') \<Longrightarrow> slot_ok s"
  by (auto simp: new_slot_def slot_ok_def u64_checked_succ_def split: option.splits if_splits)

lemma revision_eq_refl [simp]: "revision_eq r r"
  by (simp add: revision_eq_def scope_eq_def ptr_eq_def)

lemma desired_eq_refl [simp]: "desired_eq d d"
  by (cases d) simp_all

lemma bt_get_remember:
  "bt_get (remember_revision r known) k =
     (case bt_get known k of Some x \<Rightarrow> Some x | None \<Rightarrow> if k = rev_id r then Some r else None)"
  by (auto simp: remember_revision_def bt_contains_iff bt_get_insert bt_get_None_iff split: option.splits
      dest: bt_get_Some_dom)

text \<open>What admission does: nothing when it refuses or when the snapshot is the current one.\<close>

lemma accept_desired_cases:
  assumes "accept_desired d s = (x, s')"
  obtains (refused) e where "x = Inl e" "s' = s"
  | (same) "x = Inr ()" "s' = s" "\<exists>c. slot_desired s = Some c \<and> desired_eq d c"
      "identity_conflict d s = None" "generation_slot (desired_generation_of d) = slot_incarnation s"
  | (newer) "x = Inr ()" "slot_desired s' = Some d" "slot_mounted s' = slot_mounted s"
      "slot_last_stop s' = slot_last_stop s" "slot_incarnation s' = slot_incarnation s"
      "slot_instance s' = slot_instance s" "identity_conflict d s = None"
      "generation_slot (desired_generation_of d) = slot_incarnation s"
      "\<forall>c. slot_desired s = Some c \<longrightarrow> desired_generation_of c < desired_generation_of d"
      "known_revisions s' = (case desired_revision_of d of None \<Rightarrow> known_revisions s
         | Some r \<Rightarrow> remember_revision r (known_revisions s))"
      "admission_keys True d s = Inr ()"
  using assms
  by (auto simp: accept_desired_def desired_changed_def not_less
      split: if_splits sum.splits option.splits intro: le_neq_trans) metis+

lemma accept_desired_ok:
  assumes "slot_ok s" and "accept_desired d s = (x, s')"
  shows "slot_ok s'"
  using assms(2)
proof (cases rule: accept_desired_cases)
  case newer
  have keep: "bt_get (known_revisions s) k = Some r \<Longrightarrow> bt_get (known_revisions s') k = Some r" for k r
    using newer(10) by (auto simp: bt_get_remember split: option.splits)
  have m: "mounted_ok s m \<Longrightarrow> mounted_ok s' m" for m using keep by (auto simp: mounted_ok_def)
  have "\<exists>k. bt_get (known_revisions s') (rev_id r) = Some k \<and> revision_eq k r"
    if "desired_revision_of d = Some r" for r
    using newer(7,10) that by (auto simp: identity_conflict_def bt_get_remember split: option.splits if_splits)
  with newer(2,3,5,8) m assms(1) show ?thesis by (simp add: slot_ok_def desired_ok_def)
qed (use assms(1) in simp_all)

lemma with_component_sel [simp]:
  "slot_desired (with_component c s) = slot_desired s" "known_revisions (with_component c s) = known_revisions s"
  "slot_incarnation (with_component c s) = slot_incarnation s"
  "slot_mounted (with_component c s) = map_option (mounted_component_update (\<lambda>_. c)) (slot_mounted s)"
  by (simp_all add: with_component_def)

lemma with_component_ok:
  assumes "slot_ok s" and "slot_mounted s = Some m" and "component_ok c"
    and "inst_state (rc_instance c) \<noteq> Removed" and "rc_definition c = rc_definition (mounted_component m)"
  shows "slot_ok (with_component c s)"
  using assms by (auto simp: slot_ok_def mounted_ok_def desired_ok_def)

lemma unmounted_ok: "slot_ok s \<Longrightarrow> slot_ok (s\<lparr>slot_mounted := None\<rparr>)"
  by (simp add: slot_ok_def desired_ok_def)

lemma mountedD:
  assumes "slot_ok s" and "slot_mounted s = Some m"
  shows "component_ok (mounted_component m)" and "inst_state (rc_instance (mounted_component m)) \<noteq> Removed"
  using assms by (auto simp: slot_ok_def mounted_ok_def)

lemma unmount_spec:
  assumes "slot_ok s" and "slot_mounted s = Some m" and "unmount tk g reason m s w = (res, s', w')"
  shows "slot_ok s' \<and> slot_desired s' = slot_desired s \<and>
    (\<exists>out. res = Accepted out) \<and>
    (\<forall>m'. slot_mounted s' = Some m' \<longrightarrow> rc_kind (mounted_component m') = K_Stopping \<and> mounted_id m' = mounted_id m) \<and>
    (inst_state (rc_instance (mounted_component m)) = Pending \<longrightarrow> slot_mounted s' = None)"
proof -
  note m = mountedD [OF assms(1,2)]
  obtain r c v where q: "request_component_stop tk reason Target_Removed (mounted_component m) w = (r, c, v)"
    by (metis prod_cases3)
  note spec = request_component_stop_spec [OF m(1) q]
  show ?thesis
  proof (cases r)
    case (Accepted out)
    show ?thesis
    proof (cases "inst_state (rc_instance (mounted_component m))")
      case Pending
      with assms spec Accepted q show ?thesis by (auto simp: unmount_def unmounted_ok)
    next
      case (Stopping a t f)
      with assms spec Accepted q show ?thesis
        by (auto simp: unmount_def map_stop_def intro!: with_component_ok)
    next
      case Removed
      with m(2) show ?thesis by simp
    next
      case (Failed a f)
      with m(1) show ?thesis by (simp add: component_ok_def)
    next
      case (Starting a)
      with assms spec Accepted q show ?thesis
        by (auto simp: unmount_def map_stop_def intro!: with_component_ok)
    next
      case (State_Active a)
      with assms spec Accepted q show ?thesis
        by (auto simp: unmount_def map_stop_def intro!: with_component_ok)
    qed
  qed (use spec in auto)
qed

lemma reconcile_not_removed:
  assumes "component_ok c" and "inst_state (rc_instance c) \<noteq> Removed" and "reconcile tk core a c w = (r, c', w')"
  shows "inst_state (rc_instance c') \<noteq> Removed \<and> (\<forall>out. r = Accepted out \<longrightarrow> out \<noteq> Outcome_Removed)"
  using assms(3)
proof (cases rule: reconcile_cases)
  case pending
  from reconcile_pending_spec [OF assms(1) pending] pending(1) reconcile_ok [OF assms(1,3)] show ?thesis
    by (cases r) (auto simp: component_ok_def split: component_state.splits)
next
  case (live e state)
  show ?thesis
    by (rule reconcile_live_spec [OF assms(1) live]) (use live(1) in \<open>cases r; auto split: if_splits\<close>)
next
  case (stopping e target f)
  with stopping_outcome_ok [OF assms(1) stopping(1)] show ?thesis by auto
qed (use assms(2) in simp_all)

end
