(* ===== verification/Compose_Slot_Runs.thy ===== *)
theory Compose_Slot_Runs
  imports Compose_Desired
begin

text \<open>
  The properties of a slot (\<open>yah-compose/src/desired_state/component_slot.rs\<close>): what each operation does
  to its invariant and to what is mounted, and what any sequence of operations does.
\<close>

section \<open>Convergence to one snapshot\<close>

lemma mount_and_reconcile_spec:
  fixes s :: "('u, 'f, 't) component_slot"
  assumes "slot_ok s" and "slot_mounted s = None"
    and "bt_get (known_revisions s) (rev_id r) = Some k" and "rev_definition k = rev_definition r"
    and "mount_and_reconcile tk core r a s n w = (res, s', n', w')"
  shows "slot_ok s' \<and> slot_desired s' = slot_desired s \<and> \<not> is_panic res \<and>
    (\<forall>e. res = Rejected e \<longrightarrow> (\<exists>x. e = Slot_Reconcile x)) \<and>
    (\<forall>m. slot_mounted s' = Some m \<longrightarrow> mounted_id m = rev_id r)"
proof (cases "\<exists>(c :: ('u, 'f, 't) reconciled_component) n1. revision_keys r a = Inr () \<and>
    mount_component (slot_instance s) (rev_definition r) (rev_scope r) n = (Accepted c, n1)")
  case False
  show ?thesis
  proof (cases "revision_keys r a")
    case (Inl e)
    then have "\<exists>x. e = Slot_Reconcile x" by (cases "validate_assignment_keys (rev_definition r) (assigned_providers a)")
        (auto simp: revision_keys_def)
    with Inl assms show ?thesis by (auto simp: mount_and_reconcile_def)
  next
    case (Inr u)
    with False obtain e n1 where "mount_component (slot_instance s) (rev_definition r) (rev_scope r) n =
        (Rejected e :: (_, ('u, 'f, 't) reconciled_component) attempt, n1)"
      by (auto simp: mount_component_def split: sum.splits prod.splits)
    with Inr assms show ?thesis by (auto simp: mount_and_reconcile_def)
  qed
next
  case True
  then obtain c :: "('u, 'f, 't) reconciled_component" and n1 where m: "revision_keys r a = Inr ()"
    "mount_component (slot_instance s) (rev_definition r) (rev_scope r) n = (Accepted c, n1)" by blast
  have c: "component_ok c" "rc_definition c = rev_definition r" "inst_state (rc_instance c) = Pending"
    using m(2) mount_ok [OF m(2)]
    by (auto simp: mount_component_def new_instance_def split: sum.splits prod.splits option.splits if_splits)
  obtain x c1 w1 where q: "reconcile tk core a c w = (x, c1, w1)" by (metis prod_cases3)
  have "component_ok c1 \<and> \<not> is_panic x \<and> rc_definition c1 = rev_definition r"
    using reconcile_ok [OF c(1) q] c(2) by simp
  moreover have "inst_state (rc_instance c1) \<noteq> Removed"
    using reconcile_not_removed [OF c(1) _ q] c(3) by simp
  ultimately show ?thesis using assms m q
    by (cases x) (auto simp: mount_and_reconcile_def slot_ok_def mounted_ok_def desired_ok_def)
qed

text \<open>What is mounted after an attempt to converge: the enabled revision, or something that is stopping.\<close>

definition converging :: "desired_component_state \<Rightarrow> ('u, 'f, 't) component_slot \<Rightarrow> bool" where
  "converging d s \<longleftrightarrow>
     (\<forall>m. slot_mounted s = Some m \<longrightarrow>
        rc_kind (mounted_component m) = K_Stopping \<or>
        (\<exists>g r a. d = Desired_Enabled g r a \<and> mounted_id m = rev_id r))"

lemma unmount_converging:
  "\<forall>m. slot_mounted s = Some m \<longrightarrow> rc_kind (mounted_component m) = K_Stopping \<Longrightarrow> converging d s"
  by (simp add: converging_def)

lemma reconcile_enabled_spec:
  assumes "slot_ok s" and "slot_desired s = Some (Desired_Enabled g r a)"
    and "reconcile_enabled tk core g r a s n w = (res, s', n', w')"
  shows "slot_ok s' \<and> slot_desired s' = slot_desired s \<and> \<not> is_panic res \<and>
    (\<forall>e. res = Rejected e \<longrightarrow> (\<exists>x. e = Slot_Reconcile x)) \<and> converging (Desired_Enabled g r a) s'"
proof (cases "slot_mounted s")
  case None
  obtain k where k: "bt_get (known_revisions s) (rev_id r) = Some k" "rev_definition k = rev_definition r"
    using assms(1,2) by (auto simp: slot_ok_def desired_ok_def revision_eq_def)
  obtain x s1 n1 w1 where q: "mount_and_reconcile tk core r a s n w = (x, s1, n1, w1)" by (metis prod_cases4)
  from mount_and_reconcile_spec [OF assms(1) None k q] assms(3) None q show ?thesis
    by (cases x) (auto simp: reconcile_enabled_def converging_def)
next
  case (Some m)
  note ok = mountedD [OF assms(1) Some]
  show ?thesis
  proof (cases "mounted_id m = rev_id r")
    case True
    obtain x c w1 where q: "reconcile tk core a (mounted_component m) w = (x, c, w1)" by (metis prod_cases3)
    have "slot_ok (with_component c s)"
      using with_component_ok [OF assms(1) Some] reconcile_ok [OF ok(1) q] reconcile_not_removed [OF ok q] by simp
    with True Some q assms(3) reconcile_ok [OF ok(1) q] show ?thesis
      by (cases x) (auto simp: reconcile_enabled_def converging_def)
  next
    case False
    obtain x s1 w1 where q: "unmount tk g (RevisionChanged (mounted_id m) (rev_id r)) m s w = (x, s1, w1)"
      by (metis prod_cases3)
    have "res = x" "s' = s1" using False Some q assms(3) by (simp_all add: reconcile_enabled_def)
    with unmount_spec [OF assms(1) Some q] show ?thesis by (intro conjI unmount_converging) force+
  qed
qed

lemma reconcile_off_spec:
  assumes "slot_ok s" and
    "reconcile_disabled tk g r s w = (res, s', w') \<or> reconcile_removed tk g s w = (res, s', w')"
  shows "slot_ok s' \<and> slot_desired s' = slot_desired s \<and> (\<exists>out. res = Accepted out) \<and> converging d s'"
proof (cases "slot_mounted s")
  case None
  with assms show ?thesis by (auto simp: reconcile_disabled_def reconcile_removed_def converging_def)
next
  case (Some m)
  then obtain reason where "unmount tk g reason m s w = (res, s', w')"
    using assms(2) by (auto simp: reconcile_disabled_def reconcile_removed_def)
  from unmount_spec [OF assms(1) Some this] show ?thesis by (intro conjI unmount_converging) blast+
qed

lemma convergence_result_ok:
  assumes "slot_desired s = Some d" and "\<not> is_panic res" and "\<forall>e. res = Rejected e \<longrightarrow> (\<exists>x. e = Slot_Reconcile x)"
  shows "\<exists>out. convergence_result res s = Accepted out"
  using assms by (cases res) (auto simp: convergence_result_def)

text \<open>
  One reconciliation: a refused snapshot changes nothing; an accepted one is stored, or is the stored
  one again, and the slot converges to it.
\<close>

lemma slot_reconcile_cases:
  assumes "slot_ok s" and "slot_reconcile tk core d s n w = (res, s', n', w')"
  obtains (refused) e where "accept_desired d s = (Inl e, s)" "res = Rejected e" "s' = s" "n' = n" "w' = w"
  | (accepted) s1 d1 out where "accept_desired d s = (Inr (), s1)" "res = Accepted out" "slot_ok s'"
      "slot_desired s1 = Some d1" "slot_desired s' = Some d1" "desired_eq d d1" "converging d1 s'"
proof -
  obtain x s1 where acc: "accept_desired d s = (x, s1)" by fastforce
  have ok: "slot_ok s1" by (rule accept_desired_ok [OF assms(1) acc])
  show thesis
  proof (cases x)
    case (Inl e)
    with acc have "s1 = s" by (cases rule: accept_desired_cases) auto
    with Inl acc assms(2) show thesis by (intro refused) (auto simp: slot_reconcile_def)
  next
    case (Inr u)
    with acc obtain d1 where d1: "slot_desired s1 = Some d1" "desired_eq d d1"
      by (cases rule: accept_desired_cases) auto
    obtain r s2 n2 w2 where step: "(case d1 of
         Desired_Enabled g revision assignments \<Rightarrow> reconcile_enabled tk core g revision assignments s1 n w
       | Desired_Disabled g revision \<Rightarrow> (let (r, s, w) = reconcile_disabled tk g revision s1 w in (r, s, n, w))
       | Desired_Gone g \<Rightarrow> (let (r, s, w) = reconcile_removed tk g s1 w in (r, s, n, w))) = (r, s2, n2, w2)"
      by (metis prod_cases4)
    have spec: "slot_ok s2 \<and> slot_desired s2 = slot_desired s1 \<and> \<not> is_panic r \<and>
        (\<forall>e. r = Rejected e \<longrightarrow> (\<exists>x. e = Slot_Reconcile x)) \<and> converging d1 s2"
    proof (cases d1)
      case (Desired_Enabled g revision a)
      with step have "reconcile_enabled tk core g revision a s1 n w = (r, s2, n2, w2)" by simp
      from reconcile_enabled_spec [OF ok _ this] d1(1) Desired_Enabled show ?thesis by simp
    next
      case (Desired_Disabled g revision)
      with step reconcile_off_spec [OF ok, of tk g revision w r s2 w2 d1] show ?thesis
        by (auto split: prod.splits)
    next
      case (Desired_Gone g)
      with step reconcile_off_spec [OF ok, of tk g undefined w r s2 w2 d1] show ?thesis
        by (auto split: prod.splits)
    qed
    then obtain out where "convergence_result r s2 = Accepted out"
      using convergence_result_ok [of s2 d1 r] d1(1) by auto
    with spec step acc Inr d1 assms(2) show thesis
      by (intro accepted [of s1 out d1]) (simp_all add: slot_reconcile_def)
  qed
qed
section \<open>Operations on what is mounted\<close>

text \<open>An operation that leaves an activation, or leaves the component as it was, keeps the slot well formed.\<close>

lemma mounted_result_ok:
  assumes "slot_ok s" and "slot_mounted s = Some m" and "component_ok c"
    and "rc_definition c = rc_definition (mounted_component m)"
    and "rc_activation c = None \<longrightarrow> c = mounted_component m"
  shows "slot_ok (with_component c s)"
proof -
  have "inst_state (rc_instance c) \<noteq> Removed"
  proof (cases "rc_activation c")
    case None
    with assms(5) mountedD [OF assms(1,2)] show ?thesis by simp
  next
    case (Some r)
    with assms(3) show ?thesis by (auto simp: component_ok_def)
  qed
  with assms show ?thesis by (intro with_component_ok)
qed

text \<open>Behind the check of the active revision, an operation sees the mounted component or nothing happens.\<close>

lemma on_mounted_cases:
  assumes "on_mounted operation s w = (res, s', w')"
  obtains (refused) e where "active_assignments s = Inl e" "res = Rejected e" "s' = s" "w' = w"
  | (ran) a m x c where "active_assignments s = Inr a" "slot_mounted s = Some m"
      "operation a (mounted_component m) w = (x, c, w')" "res = map_rejected Slot_Reconcile x" "s' = with_component c s"
proof (cases "active_assignments s")
  case (Inl e)
  with assms show thesis by (intro refused) (auto simp: on_mounted_def)
next
  case (Inr a)
  then obtain m where m: "slot_mounted s = Some m" by (auto simp: active_assignments_def split: option.splits)
  obtain x c v where "operation a (mounted_component m) w = (x, c, v)" by (metis prod_cases3)
  with Inr m assms show thesis by (intro ran [of a m x c]) (simp_all add: on_mounted_def)
qed

lemma is_panic_map_rejected [simp]: "is_panic (map_rejected f r) = is_panic r"
  by (cases r) simp_all

lemma on_mounted_ok:
  assumes "slot_ok s" and "on_mounted operation s w = (res, s', w')"
    and "\<And>a m x c v. slot_mounted s = Some m \<Longrightarrow> component_ok (mounted_component m) \<Longrightarrow>
      operation a (mounted_component m) w = (x, c, v) \<Longrightarrow>
      component_ok c \<and> \<not> is_panic x \<and> rc_definition c = rc_definition (mounted_component m) \<and>
      (rc_activation c = None \<longrightarrow> c = mounted_component m)"
  shows "slot_ok s' \<and> slot_desired s' = slot_desired s \<and> applied_revision s' = applied_revision s \<and> \<not> is_panic res"
  using assms(2)
proof (cases rule: on_mounted_cases)
  case (refused e)
  with assms(1) show ?thesis by simp
next
  case (ran a m x c)
  from assms(3) [OF ran(2) mountedD(1) [OF assms(1) ran(2)] ran(3)] ran mounted_result_ok [OF assms(1) ran(2)]
  show ?thesis by (simp add: applied_revision_def)
qed

lemma no_activation_no_effect:
  assumes "rc_activation c = None"
  shows "component_provide core e p c w = (r, c', w') \<Longrightarrow> c' = c"
    and "component_defer d e c = (r', c') \<Longrightarrow> c' = c"
    and "fail_activation tk e summary c w = (r'', c', w') \<Longrightarrow> c' = c"
  using assms
  by (auto simp: component_provide_def component_defer_def fail_activation_def require_effect_admission_def
      require_epoch_def split: if_splits sum.splits)

lemma slot_complete_start_ok:
  assumes "slot_ok s" and "slot_complete_start tk core e s w = (res, s', w')"
  shows "slot_ok s' \<and> slot_desired s' = slot_desired s \<and> applied_revision s' = applied_revision s \<and> \<not> is_panic res"
proof (rule on_mounted_ok [OF assms(1) assms(2) [unfolded slot_complete_start_def]])
  fix a m x c v
  assume "component_ok (mounted_component m)" "component_complete_start tk core e a (mounted_component m) w = (x, c, v)"
  from component_complete_start_spec [OF this] show "component_ok c \<and> \<not> is_panic x \<and>
      rc_definition c = rc_definition (mounted_component m) \<and> (rc_activation c = None \<longrightarrow> c = mounted_component m)"
    by (cases x) auto
qed

lemma slot_bind_ok:
  assumes "slot_ok s" and "slot_bind tk core e q s w = (res, s', w')"
  shows "slot_ok s' \<and> slot_desired s' = slot_desired s \<and> applied_revision s' = applied_revision s \<and> \<not> is_panic res"
  by (rule on_mounted_ok [OF assms(1) assms(2) [unfolded slot_bind_def]])
    (auto split: prod.splits dest: component_bind_ok)

lemma slot_defer_ok:
  assumes "slot_ok s"
    and "slot_defer_sync e l cl s w = (res, s', w') \<or> slot_defer_async e l cl s w = (res, s', w')"
  shows "slot_ok s' \<and> slot_desired s' = slot_desired s \<and> applied_revision s' = applied_revision s \<and> \<not> is_panic res"
proof -
  obtain d where d: "on_mounted (\<lambda>_ c w. let (r, c) = component_defer d e c in (r, c, w)) s w = (res, s', w')"
    "d = defer_sync l (User_Cleanup cl) \<or> d = defer_async l (User_Cleanup cl)"
    using assms(2)
    by (auto simp: slot_defer_sync_def slot_defer_async_def component_defer_sync_def component_defer_async_def)
  have keeps: "d sc = (x, sc') \<Longrightarrow> es_id sc' = es_id sc \<and> es_state sc' = es_state sc" for sc x sc'
    using d(2) defer_sync_keeps defer_async_keeps by metis
  show ?thesis
  proof (rule on_mounted_ok [OF assms(1) d(1)])
    fix m x c v
    assume "component_ok (mounted_component m)"
      and "(let (r, c) = component_defer d e (mounted_component m) in (r, c, w)) = (x, c, v)"
    then have "component_defer d e (mounted_component m) = (x, c)" "component_ok (mounted_component m)"
      by (auto split: prod.splits)
    moreover have "\<And>sc x sc'. d sc = (x, sc') \<Longrightarrow> es_id sc' = es_id sc \<and> es_state sc' = es_state sc" by (rule keeps)
    ultimately show "component_ok c \<and> \<not> is_panic x \<and> rc_definition c = rc_definition (mounted_component m) \<and>
      (rc_activation c = None \<longrightarrow> c = mounted_component m)"
      using component_defer_ok [of "mounted_component m" d e x c] no_activation_no_effect(2) [of "mounted_component m" d e x c]
      by blast
  qed
qed

lemma slot_fail_ok:
  assumes "slot_ok s" and "slot_fail_activation tk e summary s w = (res, s', w')"
  shows "slot_ok s' \<and> slot_desired s' = slot_desired s \<and> applied_revision s' = applied_revision s \<and> \<not> is_panic res"
proof (rule on_mounted_ok [OF assms(1) assms(2) [unfolded slot_fail_activation_def]])
  fix m x c v
  assume q: "component_ok (mounted_component m)" "fail_activation tk e summary (mounted_component m) w = (x, c, v)"
  from fail_activation_ok [OF q] no_activation_no_effect(3) [OF _ q(2)]
  show "component_ok c \<and> \<not> is_panic x \<and> rc_definition c = rc_definition (mounted_component m) \<and>
      (rc_activation c = None \<longrightarrow> c = mounted_component m)" by metis
qed
definition slot_publication_fresh :: "address \<Rightarrow> ('u, 'f, 't) component_slot \<Rightarrow> ('t, 'k, 'y) swld \<Rightarrow> bool" where
  "slot_publication_fresh core s w \<longleftrightarrow>
     (\<forall>m r. slot_mounted s = Some m \<and> rc_activation (mounted_component m) = Some r \<longrightarrow>
        published_below (ar_effects r) (registry_of core w))"

lemma slot_provide_ok:
  assumes "slot_ok s" and "slot_provide core e p s w = (res, s', w')"
  shows "slot_ok s' \<and> slot_desired s' = slot_desired s \<and> applied_revision s' = applied_revision s \<and>
    (slot_publication_fresh core s w \<longrightarrow> \<not> is_panic res)"
proof (cases "active_assignments s")
  case (Inl x)
  with assms show ?thesis by (auto simp: slot_provide_def)
next
  case (Inr a)
  then have "on_mounted (\<lambda>_ c w. component_provide core e p c w) s w = (res, s', w')"
    using assms(2) by (simp add: slot_provide_def)
  then show ?thesis
  proof (cases rule: on_mounted_cases)
    case (ran a m x c)
    note q = component_provide_ok [OF mountedD(1) [OF assms(1) ran(2)] ran(3)]
    have "slot_ok (with_component c s)"
      using mounted_result_ok [OF assms(1) ran(2) q(1,3)] q(4) no_activation_no_effect(1) [OF _ ran(3)] by blast
    with q(2) ran show ?thesis by (auto simp: slot_publication_fresh_def applied_revision_def)
  qed (use Inr in simp)
qed

lemma record_completion_ok:
  assumes "slot_ok s" and "slot_mounted s = Some m" and "component_ok c"
    and "rc_definition c = rc_definition (mounted_component m)"
    and "completion_target d = Target_Removed \<and> disposition d \<noteq> Disposition_Blocked \<or>
      inst_state (rc_instance c) \<noteq> Removed"
    and "record_completion tk i d (with_component c s) w = (rec, s', w')"
  shows "slot_ok s' \<and> slot_desired s' = slot_desired s"
proof (cases "completion_target d = Target_Removed \<and> disposition d \<noteq> Disposition_Blocked")
  case True
  have "slot_ok (s\<lparr>slot_mounted := None\<rparr>)" by (rule unmounted_ok [OF assms(1)])
  with True assms(6) show ?thesis by (auto simp: record_completion_def Let_def slot_ok_def desired_ok_def with_component_def)
next
  case False
  then have "slot_ok (with_component c s)" using with_component_ok [OF assms(1,2,3) _ assms(4)] assms(5) by blast
  with False assms(6) show ?thesis
    by (auto simp: record_completion_def Let_def slot_ok_def desired_ok_def mounted_ok_def)
qed

lemma disposition_simps [simp]:
  "disposition d = Disposition_Completed \<longleftrightarrow> is_completed d \<and> \<not> was_abandoned d"
  "disposition d = Disposition_Abandoned \<longleftrightarrow> was_abandoned d"
  "disposition d = Disposition_Blocked \<longleftrightarrow> \<not> is_completed d"
  by (cases d; simp)+

lemma slot_finish_ok:
  assumes "slot_ok s" and "slot_poll_finish_stop tk ub e s w = (res, s', w')"
  shows "slot_ok s' \<and> slot_desired s' = slot_desired s \<and> (\<forall>p. res \<noteq> Some (Panic p))"
proof (cases "slot_mounted s")
  case None
  with assms show ?thesis by (auto simp: slot_poll_finish_stop_def)
next
  case (Some m)
  note ok = mountedD [OF assms(1) Some]
  obtain x c v where q: "poll_finish_stop tk ub e (mounted_component m) w = (x, c, v)" by (metis prod_cases3)
  note spec = poll_finish_stop_spec [OF ok(1) q]
  show ?thesis
  proof (cases "\<exists>d. x = Some (Accepted d)")
    case False
    have "slot_ok (with_component c s)"
      using spec False ok(2) by (intro with_component_ok [OF assms(1) Some]) (auto split: option.splits attempt.splits)
    with False spec Some q assms(2) show ?thesis
      by (auto simp: slot_poll_finish_stop_def split: option.splits attempt.splits)
  next
    case True
    then obtain d where d: "x = Some (Accepted d)" by blast
    obtain rec s1 v1 where r: "record_completion tk (mounted_id m) d (with_component c s) v = (rec, s1, v1)"
      by (metis prod_cases3)
    have "completion_target d = Target_Removed \<and> disposition d \<noteq> Disposition_Blocked \<or>
        inst_state (rc_instance c) \<noteq> Removed"
      using spec d ok(2) by (cases "completion_target d") (auto split: if_splits)
    then have "slot_ok s1 \<and> slot_desired s1 = slot_desired s"
      using record_completion_ok [OF assms(1) Some _ _ _ r] spec by blast
    with Some q d r assms(2) show ?thesis by (auto simp: slot_poll_finish_stop_def)
  qed
qed

lemma slot_abandon_ok:
  assumes "slot_ok s" and "slot_abandon tk e s w = (res, s', w')"
  shows "slot_ok s' \<and> slot_desired s' = slot_desired s \<and> \<not> is_panic res"
proof (cases "slot_mounted s")
  case None
  with assms show ?thesis by (auto simp: slot_abandon_def)
next
  case (Some m)
  note ok = mountedD [OF assms(1) Some]
  obtain x c v where q: "abandon_failed_cleanup tk e (mounted_component m) w = (x, c, v)" by (metis prod_cases3)
  note spec = abandon_spec [OF ok(1) q]
  show ?thesis
  proof (cases x)
    case (Accepted d)
    obtain rec s1 v1 where r: "record_completion tk (mounted_id m) d (with_component c s) v = (rec, s1, v1)"
      by (metis prod_cases3)
    have "completion_target d = Target_Removed \<and> disposition d \<noteq> Disposition_Blocked \<or>
        inst_state (rc_instance c) \<noteq> Removed"
      using spec Accepted by (cases d; cases "completion_target d") auto
    then have "slot_ok s1 \<and> slot_desired s1 = slot_desired s"
      using record_completion_ok [OF assms(1) Some _ _ _ r] spec by blast
    with Some q Accepted r assms(2) show ?thesis by (auto simp: slot_abandon_def)
  next
    case (Rejected x)
    with spec have "slot_ok (with_component c s)" using ok(2) by (intro with_component_ok [OF assms(1) Some]) auto
    with Some q Rejected assms(2) show ?thesis by (auto simp: slot_abandon_def)
  qed (use spec in simp)
qed
section \<open>Every way to drive a slot\<close>

datatype ('u, 't, 'k, 'y) slot_op =
    SL_reconcile desired_component_state
  | SL_complete_start provider_selection_epoch
  | SL_bind provider_selection_epoch required_service
  | SL_provide provider_selection_epoch service_provider
  | SL_defer_sync provider_selection_epoch string 'u
  | SL_defer_async provider_selection_epoch string 'u
  | SL_fail provider_selection_epoch string
  | SL_finish_stop provider_selection_epoch
  | SL_abandon provider_selection_epoch
  | SL_environment "('t, 'k, 'y) swld \<Rightarrow> ('t, 'k, 'y) swld"

text \<open>The slot, the process-wide instance counter, and the heap; and whether the operation panicked.\<close>

type_synonym ('u, 'f, 't, 'k, 'y) slot_system = "('u, 'f, 't) component_slot \<times> u64 \<times> ('t, 'k, 'y) swld"

fun slot_step ::
  "('t, 'k) cancellation_api \<Rightarrow> address \<Rightarrow> ('u, 'f, 'k, ('t, 'y) service_heap) callback_api \<Rightarrow>
     ('u, 't, 'k, 'y) slot_op \<Rightarrow> ('u, 'f, 't, 'k, 'y) slot_system \<Rightarrow>
     bool \<times> ('u, 'f, 't, 'k, 'y) slot_system" where
  "slot_step tk core ub (SL_reconcile d) (s, n, w) =
     (let (r, s, n, w) = slot_reconcile tk core d s n w in (is_panic r, s, n, w))"
| "slot_step tk core ub (SL_complete_start e) (s, n, w) =
     (let (r, s, w) = slot_complete_start tk core e s w in (is_panic r, s, n, w))"
| "slot_step tk core ub (SL_bind e q) (s, n, w) =
     (let (r, s, w) = slot_bind tk core e q s w in (is_panic r, s, n, w))"
| "slot_step tk core ub (SL_provide e p) (s, n, w) =
     (let (r, s, w) = slot_provide core e p s w in (is_panic r, s, n, w))"
| "slot_step tk core ub (SL_defer_sync e l cl) (s, n, w) =
     (let (r, s, w) = slot_defer_sync e l cl s w in (is_panic r, s, n, w))"
| "slot_step tk core ub (SL_defer_async e l cl) (s, n, w) =
     (let (r, s, w) = slot_defer_async e l cl s w in (is_panic r, s, n, w))"
| "slot_step tk core ub (SL_fail e summary) (s, n, w) =
     (let (r, s, w) = slot_fail_activation tk e summary s w in (is_panic r, s, n, w))"
| "slot_step tk core ub (SL_finish_stop e) (s, n, w) =
     (let (r, s, w) = slot_poll_finish_stop tk ub e s w
      in ((case r of None \<Rightarrow> False | Some r \<Rightarrow> is_panic r), s, n, w))"
| "slot_step tk core ub (SL_abandon e) (s, n, w) =
     (let (r, s, w) = slot_abandon tk e s w in (is_panic r, s, n, w))"
| "slot_step tk core ub (SL_environment change) (s, n, w) = (False, s, n, change w)"

definition newer_desired :: "desired_component_state option \<Rightarrow> desired_component_state option \<Rightarrow> bool" where
  "newer_desired old new \<longleftrightarrow>
     (\<forall>c. old = Some c \<longrightarrow> (\<exists>d. new = Some d \<and>
        (d = c \<or> desired_generation_of c < desired_generation_of d)))"

lemma newer_desired_refl [simp]: "newer_desired d d"
  by (simp add: newer_desired_def)

lemma newer_desired_trans: "newer_desired a b \<Longrightarrow> newer_desired b c \<Longrightarrow> newer_desired a c"
  by (fastforce simp: newer_desired_def intro: less_trans)

lemma accept_desired_newer:
  assumes "accept_desired d s = (x, s')"
  shows "newer_desired (slot_desired s) (slot_desired s')"
  using assms by (cases rule: accept_desired_cases) (auto simp: newer_desired_def)

lemma slot_step_ok:
  assumes "slot_ok s" and "slot_step tk core ub op (s, n, w) = (panics, s', n', w')"
  shows "slot_ok s' \<and> newer_desired (slot_desired s) (slot_desired s') \<and>
    ((\<forall>e p. op = SL_provide e p \<longrightarrow> slot_publication_fresh core s w) \<longrightarrow> \<not> panics)"
proof (cases op)
  case (SL_reconcile d)
  then obtain r where q: "slot_reconcile tk core d s n w = (r, s', n', w')" "panics = is_panic r"
    using assms(2) by (auto split: prod.splits)
  show ?thesis
    using assms(1) q(1)
  proof (cases rule: slot_reconcile_cases)
    case (accepted s1 d1 out)
    with accept_desired_newer [OF accepted(1)] q(2) show ?thesis by simp
  qed (use assms(1) q(2) SL_reconcile in simp)
next
  case (SL_complete_start e)
  with assms(2) show ?thesis by (auto split: prod.splits dest!: slot_complete_start_ok [OF assms(1)])
next
  case (SL_bind e q)
  with assms(2) show ?thesis by (auto split: prod.splits dest!: slot_bind_ok [OF assms(1)])
next
  case (SL_provide e p)
  with assms(2) show ?thesis by (auto split: prod.splits dest!: slot_provide_ok [OF assms(1)])
next
  case (SL_defer_sync e l cl)
  with assms(2) show ?thesis by (auto split: prod.splits dest!: slot_defer_ok [OF assms(1), OF disjI1])
next
  case (SL_defer_async e l cl)
  with assms(2) show ?thesis by (auto split: prod.splits dest!: slot_defer_ok [OF assms(1), OF disjI2])
next
  case (SL_fail e summary)
  with assms(2) show ?thesis by (auto split: prod.splits dest!: slot_fail_ok [OF assms(1)])
next
  case (SL_finish_stop e)
  then obtain r where q: "slot_poll_finish_stop tk ub e s w = (r, s', w')"
    "panics = (case r of None \<Rightarrow> False | Some r \<Rightarrow> is_panic r)" using assms(2) by (auto split: prod.splits)
  from slot_finish_ok [OF assms(1) q(1)] q(2) show ?thesis
    by (auto split: option.splits elim!: is_panic.elims)
next
  case (SL_abandon e)
  with assms(2) show ?thesis by (auto split: prod.splits dest!: slot_abandon_ok [OF assms(1)])
next
  case (SL_environment change)
  with assms show ?thesis by simp
qed

interpretation sl: invariant_machine "\<lambda>op st. snd (slot_step tk core ub op st)" "\<lambda>(s, n, w). slot_ok s"
  for tk :: "('t, 'k) cancellation_api" and core and ub :: "('u, 'f, 'k, ('t, 'y) service_heap) callback_api"
proof
  fix st :: "('u, 'f, 't, 'k, 'y) slot_system" and op :: "('u, 't, 'k, 'y) slot_op"
  assume "case st of (s, n, w) \<Rightarrow> slot_ok s"
  then show "case snd (slot_step tk core ub op st) of (s, n, w) \<Rightarrow> slot_ok s"
    by (cases st; cases "slot_step tk core ub op st") (auto dest: slot_step_ok)
qed

lemma slot_runs_newer:
  fixes s :: "('a, 'b, 'c) component_slot" and w :: "('c, 'd, 'e) swld"
  assumes "slot_ok s"
  shows "newer_desired (slot_desired s)
    (slot_desired (fst (fold (\<lambda>op st. snd (slot_step tk core ub op st)) ops (s, n, w))))"
proof -
  have "(\<lambda>a b. newer_desired (slot_desired (fst a)) (slot_desired (fst b))) (s, n, w)
      (fold (\<lambda>op st. snd (slot_step tk core ub op st)) ops (s, n, w))"
  proof (rule sl.run_relates)
    fix op and st :: "('a, 'b, 'c, 'd, 'e) slot_system"
    assume "case st of (s, n, w) \<Rightarrow> slot_ok s"
    then show "newer_desired (slot_desired (fst st)) (slot_desired (fst (snd (slot_step tk core ub op st))))"
      by (cases st; cases "slot_step tk core ub op st") (auto dest: slot_step_ok)
  qed (use assms newer_desired_trans in auto)
  then show ?thesis by simp
qed
section \<open>Reaching the desired state\<close>

lemma accept_again:
  assumes "slot_ok s" and "slot_desired s = Some c" and "desired_eq d c"
  shows "accept_desired d s = (Inr (), s)"
proof -
  have ok: "desired_ok s c" using assms(1,2) by (simp add: slot_ok_def)
  have gen: "desired_generation_of d = desired_generation_of c" using assms(3) by (cases d; cases c) auto
  have rev: "\<exists>r'. desired_revision_of c = Some r' \<and> revision_eq r r'" if "desired_revision_of d = Some r" for r
    using that assms(3) by (cases d; cases c) auto
  have "identity_conflict d s = None"
  proof (cases "desired_revision_of d")
    case (Some r)
    then obtain r' k where "revision_eq r r'" "bt_get (known_revisions s) (rev_id r') = Some k" "revision_eq k r'"
      using rev [OF Some] ok by (auto simp: desired_ok_def)
    then have "rev_id r = rev_id r'" "revision_eq k r" "bt_get (known_revisions s) (rev_id r') = Some k"
      by (auto simp: revision_eq_def scope_eq_def ptr_eq_def)
    with Some show ?thesis by (simp add: identity_conflict_def)
  qed (simp add: identity_conflict_def)
  moreover have "admission_keys False d s = Inr ()" by (simp add: admission_keys_def split: desired_component_state.splits)
  moreover have "desired_changed d s = Inr False" using assms(2,3) gen by (simp add: desired_changed_def)
  ultimately show ?thesis using ok gen by (simp add: accept_desired_def desired_ok_def)
qed

text \<open>Nothing is mounted, or what is mounted is pending.\<close>

definition settled :: "('u, 'f, 't) component_slot \<Rightarrow> bool" where
  "settled s \<longleftrightarrow> (\<forall>m. slot_mounted s = Some m \<longrightarrow> inst_state (rc_instance (mounted_component m)) = Pending)"

lemma settled_is_unmounted:
  assumes "slot_ok s" and "slot_desired s = Some c" and "desired_eq d c" and "desired_assignments_of d = None"
    and "settled s"
  shows "slot_mounted (fst (snd (slot_reconcile tk core d s n w))) = None"
proof (cases "slot_mounted s")
  case None
  with accept_again [OF assms(1-3)] assms(2-4) show ?thesis
    by (cases d; cases c) (auto simp: slot_reconcile_def reconcile_disabled_def reconcile_removed_def)
next
  case (Some m)
  then have gone: "slot_mounted (fst (snd (unmount tk g reason m s w))) = None" for g reason
    using unmount_spec [OF assms(1) Some, of tk g reason w] assms(5) by (metis prod.collapse settled_def)
  have "\<exists>g reason r s1 w1 n1. unmount tk g reason m s w = (r, s1, w1) \<and>
      fst (snd (slot_reconcile tk core d s n w)) = s1"
    using accept_again [OF assms(1-3)] assms(2-4) Some
    by (cases d; cases c)
      (auto simp: slot_reconcile_def reconcile_disabled_def reconcile_removed_def split: prod.splits)
  with gone show ?thesis by (metis fst_conv snd_conv)
qed

lemma poll_finish_returns:
  assumes "component_ok c" and "rc_kind c = K_Stopping" and "rc_activation c = Some r"
    and "prompt (service_callbacks ub)" and "quiet (gates w) (ar_effects r)"
  shows "\<exists>d c' w'. poll_finish_stop tk ub (sel_epoch (ar_selection r)) c w = (Some (Accepted d), c', w') \<and>
    (\<not> is_completed d \<longrightarrow> blocked_with (completion_report d) c' \<and> current_epoch c' = current_epoch c)"
proof -
  obtain report sc w1 where p: "poll_close tk (service_callbacks ub) (ar_effects r) w = (Some report, sc, w1)"
    using poll_completes(1) [OF assms(4,5)] by blast
  obtain a target f where st: "inst_state (rc_instance c) = Stopping a target f"
    using assms(2) by (cases "inst_state (rc_instance c)") auto
  then obtain reason where r: "ar_stop_reason r = Some reason" "sel_epoch (ar_selection r) = ProviderSelectionEpoch a"
    "instance_ok (rc_instance c)"
    using assms(1,3) by (auto simp: component_ok_def stopping_resources_def resources_for_def)
  define c1 where "c1 = c\<lparr>rc_last_close_report := Some report,
    rc_activation := Some (r\<lparr>ar_effects := sc, ar_close_report := Some report\<rparr>)\<rparr>"
  have ep: "require_epoch (ProviderSelectionEpoch a) c = Inr ()" using assms(3) r(2) by (simp add: require_epoch_def)
  obtain x c2 w2 where fc: "finish_completed tk (ProviderSelectionEpoch a)
      (Stop_Completed (ProviderSelectionEpoch a) target reason report)
      (r\<lparr>ar_effects := sc, ar_close_report := Some report\<rparr>) c1 w1 = (x, c2, w2)" by (metis prod_cases3)
  have "x = Accepted (Stop_Completed (ProviderSelectionEpoch a) target reason report)"
    by (rule finish_completed_spec(1) [OF _ _ fc]) (use st r(3) in \<open>auto simp: c1_def\<close>)
  with fc p st r ep assms(3) show ?thesis
    by (cases "is_clean report")
      (auto simp: poll_finish_stop_def c1_def Let_def blocked_with_def current_epoch_def)
qed

lemma blocked_can_be_abandoned:
  assumes "component_ok c" and "blocked_with report c" and "current_epoch c = Some e"
  shows "\<exists>d c' w'. abandon_failed_cleanup tk e c w = (Accepted d, c', w')"
proof -
  obtain a target f r reason where b: "inst_state (rc_instance c) = Stopping a target f" "rc_activation c = Some r"
    "ar_close_report r = Some report" "ar_stop_reason r = Some reason" "es_storage (ar_effects r) = Scope_Closed report"
    "sel_epoch (ar_selection r) = ProviderSelectionEpoch a" "\<not> is_clean report" "instance_ok (rc_instance c)"
    using blocked_cases [OF assms(1,2)] by metis
  have e: "e = ProviderSelectionEpoch a" using assms(3) b(2,6) by (simp add: current_epoch_def)
  obtain x c1 w1 where fc: "finish_completed tk e (Stop_Abandoned e target reason report) r c w = (x, c1, w1)"
    by (metis prod_cases3)
  have "x = Accepted (Stop_Abandoned e target reason report)"
    using finish_completed_spec(1) [OF b(1,8) fc [unfolded e]] e by simp
  with fc b e show ?thesis by (simp add: abandon_failed_cleanup_def require_epoch_def)
qed

lemma record_completion_settles:
  assumes "record_completion tk i d (with_component c s) w = (rec, s', w')" and "slot_mounted s = Some m"
    and "is_completed d \<or> was_abandoned d" and "inst_state (rc_instance c) = target_state (completion_target d)"
  shows "settled s'"
proof (cases "completion_target d")
  case Target_Removed
  with assms have "slot_mounted s' = None" by (cases d) (auto simp: record_completion_def Let_def)
  then show ?thesis by (simp add: settled_def)
next
  case Target_Pending
  with assms show ?thesis by (cases d) (auto simp: record_completion_def Let_def settled_def)
qed
lemma slot_finish_returns:
  assumes "slot_ok s" and "slot_mounted s = Some m" and "rc_kind (mounted_component m) = K_Stopping"
    and "rc_activation (mounted_component m) = Some r"
    and "prompt (service_callbacks ub)" and "quiet (gates w) (ar_effects r)"
  shows "\<exists>rec s' w'. slot_poll_finish_stop tk ub (sel_epoch (ar_selection r)) s w = (Some (Accepted rec), s', w') \<and>
    slot_last_stop s' = Some rec \<and>
    (if stop_disposition_of rec = Disposition_Completed then settled s'
     else \<exists>m' report. slot_mounted s' = Some m' \<and> blocked_with report (mounted_component m') \<and>
       current_epoch (mounted_component m') = Some (sel_epoch (ar_selection r)))"
proof -
  note ok = mountedD [OF assms(1,2)]
  obtain d c v where q: "poll_finish_stop tk ub (sel_epoch (ar_selection r)) (mounted_component m) w =
      (Some (Accepted d), c, v)"
    and blocked: "\<not> is_completed d \<longrightarrow> blocked_with (completion_report d) c \<and>
      current_epoch c = current_epoch (mounted_component m)"
    using poll_finish_returns [OF ok(1) assms(3-6)] by blast
  note spec = poll_finish_stop_spec [OF ok(1) q]
  obtain rec s1 v1 where rc: "record_completion tk (mounted_id m) d (with_component c s) v = (rec, s1, v1)"
    by (metis prod_cases3)
  have rec: "slot_last_stop s1 = Some rec" "stop_disposition_of rec = disposition d"
    using rc by (auto simp: record_completion_def Let_def split: if_splits)
  show ?thesis
  proof (cases "is_completed d")
    case True
    with record_completion_settles [OF rc assms(2)] spec have "settled s1" by simp
    with True q rc rec assms(2) spec show ?thesis by (simp add: slot_poll_finish_stop_def)
  next
    case False
    then have "slot_mounted s1 = Some (m\<lparr>mounted_component := c\<rparr>)"
      using rc assms(2) by (auto simp: record_completion_def Let_def)
    with False blocked q rc rec assms(2,4) show ?thesis
      by (auto simp: slot_poll_finish_stop_def current_epoch_def)
  qed
qed

lemma slot_abandon_settles:
  assumes "slot_ok s" and "slot_mounted s = Some m" and "blocked_with report (mounted_component m)"
    and "current_epoch (mounted_component m) = Some e"
  shows "\<exists>rec s' w'. slot_abandon tk e s w = (Accepted rec, s', w') \<and>
    stop_disposition_of rec = Disposition_Abandoned \<and> settled s'"
proof -
  note ok = mountedD [OF assms(1,2)]
  obtain d c v where q: "abandon_failed_cleanup tk e (mounted_component m) w = (Accepted d, c, v)"
    using blocked_can_be_abandoned [OF ok(1) assms(3,4)] by blast
  obtain rec s1 v1 where rc: "record_completion tk (mounted_id m) d (with_component c s) v = (rec, s1, v1)"
    by (metis prod_cases3)
  have "stop_disposition_of rec = disposition d"
    using rc by (auto simp: record_completion_def Let_def split: if_splits)
  moreover have "settled s1" using record_completion_settles [OF rc assms(2)] abandon_spec [OF ok(1) q] by simp
  ultimately show ?thesis using q rc assms(2) abandon_spec [OF ok(1) q] by (simp add: slot_abandon_def)
qed

section \<open>Properties\<close>

lemma validate_keys_iff:
  "validate_assignment_keys d ps = Inr () \<longleftrightarrow> fst ` set ps \<subseteq> required_service_id ` set (requirements d)"
  by (induction d ps rule: validate_assignment_keys.induct) (auto simp: list_ex_iff)

text \<open>The snapshots a slot accepts.\<close>

definition admissible :: "desired_component_state \<Rightarrow> ('u, 'f, 't) component_slot \<Rightarrow> bool" where
  "admissible d s \<longleftrightarrow>
     generation_slot (desired_generation_of d) = slot_incarnation s \<and>
     (\<forall>c. slot_desired s = Some c \<longrightarrow> desired_generation_of c < desired_generation_of d \<or> desired_eq d c) \<and>
     (\<forall>r k. desired_revision_of d = Some r \<and> bt_get (known_revisions s) (rev_id r) = Some k \<longrightarrow> revision_eq k r) \<and>
     (\<forall>g r a. d = Desired_Enabled g r a \<and> (\<forall>c. slot_desired s = Some c \<longrightarrow> \<not> desired_eq d c) \<and>
        (applied_revision s = None \<or> applied_revision s = Some (rev_id r)) \<longrightarrow>
        fst ` set (assigned_providers a) \<subseteq> required_service_id ` set (requirements (rev_definition r)))"

lemma desired_eq_generation: "desired_eq d c \<Longrightarrow> desired_generation_of d = desired_generation_of c"
  by (cases d; cases c) auto

lemma identity_conflict_None:
  "identity_conflict d s = None \<longleftrightarrow>
     (\<forall>r k. desired_revision_of d = Some r \<and> bt_get (known_revisions s) (rev_id r) = Some k \<longrightarrow> revision_eq k r)"
  by (auto simp: identity_conflict_def split: option.splits)

lemma revision_keys_Inr:
  "revision_keys r a = Inr () \<longleftrightarrow>
     fst ` set (assigned_providers a) \<subseteq> required_service_id ` set (requirements (rev_definition r))"
  unfolding validate_keys_iff [symmetric] revision_keys_def
  by (cases "validate_assignment_keys (rev_definition r) (assigned_providers a)") auto

lemma admission_keys_Inr:
  "admission_keys changed d s = Inr () \<longleftrightarrow>
     (\<forall>g r a. d = Desired_Enabled g r a \<and> changed \<and>
        (applied_revision s = None \<or> applied_revision s = Some (rev_id r)) \<longrightarrow> revision_keys r a = Inr ())"
  by (cases d) (auto simp: admission_keys_def split: option.splits)

lemma desired_changed_Inr:
  "desired_changed d s = Inr changed \<longleftrightarrow>
     (\<forall>c. slot_desired s = Some c \<longrightarrow> desired_generation_of c < desired_generation_of d \<or> desired_eq d c) \<and>
     (changed \<longleftrightarrow> (\<forall>c. slot_desired s = Some c \<longrightarrow> \<not> desired_eq d c))"
  by (cases "slot_desired s") (auto simp: desired_changed_def dest: desired_eq_generation)

lemma accept_desired_iff: "fst (accept_desired d s) = Inr () \<longleftrightarrow> admissible d s"
proof (cases "desired_changed d s")
  case (Inl e)
  then have "\<not> admissible d s"
    using desired_changed_Inr [of d s "\<forall>c. slot_desired s = Some c \<longrightarrow> \<not> desired_eq d c"] by (auto simp: admissible_def)
  with Inl show ?thesis by (simp add: accept_desired_def)
next
  case (Inr changed)
  have "fst (accept_desired d s) = Inr () \<longleftrightarrow>
      generation_slot (desired_generation_of d) = slot_incarnation s \<and> identity_conflict d s = None \<and>
      admission_keys changed d s = Inr ()"
    using Inr by (auto simp: accept_desired_def split: option.splits sum.splits)
  moreover have "admissible d s \<longleftrightarrow>
      generation_slot (desired_generation_of d) = slot_incarnation s \<and> identity_conflict d s = None \<and>
      admission_keys changed d s = Inr ()"
    using Inr unfolding desired_changed_Inr admissible_def identity_conflict_None admission_keys_Inr revision_keys_Inr
    by blast
  ultimately show ?thesis by blast
qed
text \<open>
  A slot admits a snapshot exactly when it is of this slot's own generations, newer than the stored one
  or equal to it, reuses no revision identity for another content, and, if it would be mounted or
  changed in place, assigns only declared services. A snapshot it refuses changes nothing; one it
  admits is stored, and reconciling it never ends in an error.
\<close>

theorem snapshot_admission:
  assumes "slot_ok s" and "slot_reconcile tk core d s n w = (res, s', n', w')"
  shows "if admissible d s
    then (\<exists>out. res = Accepted out) \<and> (\<exists>c. slot_desired s' = Some c \<and> desired_eq d c) \<and> slot_ok s'
    else (\<exists>e. res = Rejected e) \<and> s' = s \<and> n' = n \<and> w' = w"
  using assms
proof (cases rule: slot_reconcile_cases)
  case (refused e)
  then have "\<not> admissible d s" by (simp add: accept_desired_iff [symmetric])
  with refused show ?thesis by simp
next
  case (accepted s1 d1 out)
  then have "admissible d s" by (simp add: accept_desired_iff [symmetric])
  with accepted show ?thesis by simp
qed

fun uses_mounted :: "('u, 't, 'k, 'y) slot_op \<Rightarrow> bool" where
  "uses_mounted (SL_complete_start _) \<longleftrightarrow> True"
| "uses_mounted (SL_bind _ _) \<longleftrightarrow> True"
| "uses_mounted (SL_provide _ _) \<longleftrightarrow> True"
| "uses_mounted (SL_defer_sync _ _ _) \<longleftrightarrow> True"
| "uses_mounted (SL_defer_async _ _ _) \<longleftrightarrow> True"
| "uses_mounted (SL_fail _ _) \<longleftrightarrow> True"
| "uses_mounted _ \<longleftrightarrow> False"

text \<open>
  Once a snapshot is admitted, a mounted revision that is not the one it enables is on its way out: it
  is stopping when the pass returns, and every operation on it is refused as not enabled and leaves the
  slot, the gates, the tokens and the registry as they were.
\<close>

theorem superseded_revision_is_fenced:
  assumes "slot_ok s" and "slot_reconcile tk core d s n w = (Accepted out, s', n', w')"
    and "slot_mounted s' = Some m" and "\<And>g r a. d = Desired_Enabled g r a \<Longrightarrow> rev_id r \<noteq> mounted_id m"
  shows "rc_kind (mounted_component m) = K_Stopping \<and>
    active_assignments s' =
      Inl (MountedRevisionNotEnabled (map_option rev_id (desired_revision_of d)) (mounted_id m)) \<and>
    (uses_mounted op \<longrightarrow>
       (\<exists>v'. slot_step tk core ub op (s', k, v) = (False, s', k, v') \<and> gates v' = gates v \<and> tokens v' = tokens v \<and>
          registry_of core v' = registry_of core v))"
proof -
  obtain c where c: "slot_desired s' = Some c" "desired_eq d c" "converging c s'"
    using assms(1,2) by (cases rule: slot_reconcile_cases) auto
  have other: "rev_id r \<noteq> mounted_id m" if "c = Desired_Enabled g r a" for g r a
    using that c(2) assms(4) by (cases d) (auto simp: revision_eq_def)
  have rev: "map_option rev_id (desired_revision_of c) = map_option rev_id (desired_revision_of d)"
    using c(2) by (cases d; cases c) (auto simp: revision_eq_def)
  have stop: "rc_kind (mounted_component m) = K_Stopping" using c(3) assms(3) other by (metis converging_def)
  have act: "active_assignments s' =
      Inl (MountedRevisionNotEnabled (map_option rev_id (desired_revision_of d)) (mounted_id m))"
    using assms(3) c(1) other rev
    by (cases c) (auto simp: active_assignments_def slot_desired_revision_def)
  with act stop show ?thesis
    by (cases op)
      (auto simp: slot_complete_start_def slot_bind_def slot_provide_def slot_defer_sync_def slot_defer_async_def
        slot_fail_activation_def on_mounted_def)
qed

text \<open>
  C37. A component desired as disabled or removed goes away: the pass that admits the snapshot unmounts it or
  leaves it stopping. Once no call is admitted to its scope and its cleanups do not stay pending, one poll
  of its stop returns the stop record. If the teardown was clean, and otherwise after the explicit
  abandonment, which is then accepted, the next pass leaves nothing mounted.
\<close>

theorem removal_converges:
  assumes "slot_ok s" and "desired_assignments_of d = None"
    and "slot_reconcile tk core d s n w = (Accepted out, s1, n1, w1)" and "slot_mounted s1 = Some m"
    and "rc_activation (mounted_component m) = Some r"
    and "prompt (service_callbacks ub)" and "quiet (gates v) (ar_effects r)"
  shows "\<exists>rec s2 w2. slot_poll_finish_stop tk ub (sel_epoch (ar_selection r)) s1 v = (Some (Accepted rec), s2, w2) \<and>
    slot_last_stop s2 = Some rec \<and>
    (if stop_disposition_of rec = Disposition_Completed
     then slot_mounted (fst (snd (slot_reconcile tk core d s2 n2 v2))) = None
     else \<exists>rec' s3 w3. slot_abandon tk (sel_epoch (ar_selection r)) s2 w2 = (Accepted rec', s3, w3) \<and>
       stop_disposition_of rec' = Disposition_Abandoned \<and>
       slot_mounted (fst (snd (slot_reconcile tk core d s3 n2 v2))) = None)"
proof -
  obtain c where c: "slot_desired s1 = Some c" "desired_eq d c" "converging c s1" "slot_ok s1"
    using assms(1,3) by (cases rule: slot_reconcile_cases) auto
  have "rc_kind (mounted_component m) = K_Stopping"
    using c(2,3) assms(2,4) by (cases d) (auto simp: converging_def)
  from slot_finish_returns [OF c(4) assms(4) this assms(5-7)] obtain rec s2 w2 where
    fin: "slot_poll_finish_stop tk ub (sel_epoch (ar_selection r)) s1 v = (Some (Accepted rec), s2, w2)"
      "slot_last_stop s2 = Some rec" and
    after: "if stop_disposition_of rec = Disposition_Completed then settled s2
      else \<exists>m' report. slot_mounted s2 = Some m' \<and> blocked_with report (mounted_component m') \<and>
        current_epoch (mounted_component m') = Some (sel_epoch (ar_selection r))" by blast
  note s2 = slot_finish_ok [OF c(4) fin(1)]
  show ?thesis
  proof (cases "stop_disposition_of rec = Disposition_Completed")
    case True
    with fin after settled_is_unmounted [of s2 c d] s2 c(1,2) assms(2) show ?thesis by auto
  next
    case False
    then obtain m' report where b: "slot_mounted s2 = Some m'" "blocked_with report (mounted_component m')"
      "current_epoch (mounted_component m') = Some (sel_epoch (ar_selection r))" using after by auto
    obtain rec' s3 w3 where ab: "slot_abandon tk (sel_epoch (ar_selection r)) s2 w2 = (Accepted rec', s3, w3)"
      "stop_disposition_of rec' = Disposition_Abandoned" "settled s3"
      using slot_abandon_settles [OF _ b] s2 by blast
    have "slot_ok s3 \<and> slot_desired s3 = Some c" using slot_abandon_ok [OF _ ab(1)] s2 c(1) by simp
    with fin False ab settled_is_unmounted [of s3 c d] c(2) assms(2) show ?thesis by auto
  qed
qed
section \<open>A slot at work\<close>

text \<open>
  One revision without requirements: it is enabled, defers a cleanup that will fail, completes its start,
  and is then desired as removed.
\<close>

definition demo_revision :: component_revision where
  "demo_revision = \<lparr>rev_id = ComponentRevisionId ''r1'', rev_definition = demo_definition, rev_scope = demo_scope\<rparr>"

definition demo_slot :: "(nat, nat, nat list) component_slot" where
  "demo_slot = \<lparr>slot_instance = ComponentInstanceId ''i'', slot_incarnation = 1, slot_desired = None,
     known_revisions = [], slot_mounted = None, slot_last_stop = None\<rparr>"

definition demo_enabled :: desired_component_state where
  "demo_enabled = Desired_Enabled (DesiredGeneration 1 1) demo_revision new_assignments"

type_synonym demo_slot_op = "(nat, nat list, nat \<times> nat list, unit) slot_op"
type_synonym demo_slot_system = "(nat, nat, nat list, nat \<times> nat list, unit) slot_system"

definition demo_slot_ops :: "demo_slot_op list" where
  "demo_slot_ops = [SL_reconcile demo_enabled, SL_defer_sync demo_epoch ''flush'' 0, SL_complete_start demo_epoch]"

definition demo_up :: demo_slot_system where
  "demo_up = fold (\<lambda>op st. snd (slot_step demo_tokens 10 demo_user op st)) demo_slot_ops (demo_slot, 1, demo_heap)"

definition demo_down :: demo_slot_system where
  "demo_down = snd (slot_reconcile demo_tokens 10 (Desired_Gone (DesiredGeneration 1 2)) (fst demo_up)
     (fst (snd demo_up)) (snd (snd demo_up)))"

lemma demo_slot_new: "new_slot (ComponentInstanceId ''i'') 1 = (Inr demo_slot, 2)"
  by (simp add: new_slot_def u64_checked_succ_def demo_slot_def)

lemma demo_up_run: "(fst demo_up, fst (snd demo_up), snd (snd demo_up)) =
    fold (\<lambda>op st. snd (slot_step demo_tokens 10 demo_user op st)) demo_slot_ops (demo_slot, 1, demo_heap)"
  by (simp add: demo_up_def)

lemma demo_up_ok: "slot_ok (fst demo_up)"
proof -
  have "case fold (\<lambda>op st. snd (slot_step demo_tokens 10 demo_user op st)) demo_slot_ops (demo_slot, 1, demo_heap)
      of (s, n, w) \<Rightarrow> slot_ok s"
    by (rule sl.run_invariant) (simp add: new_slot_ok [OF demo_slot_new])
  then show ?thesis by (simp add: demo_up_def case_prod_beta)
qed

lemmas demo_slot_defs =
  less_desired_generation_def demo_down_def demo_up_def demo_slot_ops_def demo_slot_def demo_enabled_def demo_revision_def slot_reconcile_def
  accept_desired_def desired_changed_def identity_conflict_def admission_keys_def revision_keys_def
  applied_revision_def remember_revision_def slot_generation_def bt_contains_def bt_get_def
  reconcile_enabled_def mount_and_reconcile_def mount_component_def new_instance_def convergence_result_def
  slot_defer_sync_def slot_complete_start_def on_mounted_def active_assignments_def with_component_def
  reconcile_removed_def unmount_def map_stop_def demo_scope_def scope_root_def demo_run_defs

lemma demo_up_mounted:
  "slot_mounted (fst demo_up) \<noteq> None \<and> slot_desired (fst demo_up) = Some demo_enabled"
  by (simp add: demo_slot_defs)
lemma demo_down_pass:
  "\<exists>out. slot_reconcile demo_tokens 10 (Desired_Gone (DesiredGeneration 1 2)) (fst demo_up) (fst (snd demo_up))
     (snd (snd demo_up)) = (Accepted out, fst demo_down, fst (snd demo_down), snd (snd demo_down))"
proof -
  have "\<exists>out. fst (slot_reconcile demo_tokens 10 (Desired_Gone (DesiredGeneration 1 2)) (fst demo_up)
      (fst (snd demo_up)) (snd (snd demo_up))) = Accepted out"
    by (simp add: demo_slot_defs)
  then show ?thesis by (metis demo_down_def prod.collapse)
qed

lemma demo_down_mounted:
  "\<exists>m r. slot_mounted (fst demo_down) = Some m \<and> rc_activation (mounted_component m) = Some r \<and>
     quiet (gates (snd (snd demo_down))) (ar_effects r)"
  by (simp add: demo_slot_defs)

lemma demo_user_prompt: "prompt (service_callbacks demo_user)"
  by (auto simp: prompt_def service_callbacks_def demo_user_def run_withdrawal_def withdraw_def drop_strong_def
      revoke_flag_def set_registry_def Let_def split: cleanup.splits option.splits)

theorem snapshot_admission_witness:
  "(\<exists>out. fst (slot_reconcile demo_tokens 10 demo_enabled demo_slot 1 demo_heap) = Accepted out) \<and>
   slot_mounted (fst (snd (slot_reconcile demo_tokens 10 (Desired_Gone (DesiredGeneration 1 0)) (fst demo_up)
     (fst (snd demo_up)) (snd (snd demo_up))))) \<noteq> None"
proof -
  have "admissible demo_enabled demo_slot"
    by (simp add: admissible_def demo_enabled_def demo_slot_def bt_get_def new_assignments_def)
  moreover have "slot_ok demo_slot" by (rule new_slot_ok [OF demo_slot_new])
  ultimately have "\<exists>out. fst (slot_reconcile demo_tokens 10 demo_enabled demo_slot 1 demo_heap) = Accepted out"
    using snapshot_admission [of demo_slot demo_tokens 10 demo_enabled 1 demo_heap] by (metis prod.collapse)
  moreover have "\<not> admissible (Desired_Gone (DesiredGeneration 1 0)) (fst demo_up)"
    using demo_up_mounted
    by (auto simp: admissible_def demo_enabled_def less_desired_generation_def)
  then have "fst (snd (slot_reconcile demo_tokens 10 (Desired_Gone (DesiredGeneration 1 0)) (fst demo_up)
     (fst (snd demo_up)) (snd (snd demo_up)))) = fst demo_up"
    using snapshot_admission [OF demo_up_ok, of demo_tokens 10 "Desired_Gone (DesiredGeneration 1 0)"
        "fst (snd demo_up)" "snd (snd demo_up)"] by (metis prod.collapse)
  ultimately show ?thesis using demo_up_mounted by auto
qed

theorem superseded_revision_is_fenced_witness:
  "\<exists>m. slot_mounted (fst demo_down) = Some m \<and> rc_kind (mounted_component m) = K_Stopping \<and>
     fst (snd (slot_step demo_tokens 10 demo_user (SL_fail demo_epoch ''late'') demo_down)) = fst demo_down"
proof -
  obtain out where p: "slot_reconcile demo_tokens 10 (Desired_Gone (DesiredGeneration 1 2)) (fst demo_up)
      (fst (snd demo_up)) (snd (snd demo_up)) = (Accepted out, fst demo_down, fst (snd demo_down), snd (snd demo_down))"
    using demo_down_pass by blast
  obtain m where m: "slot_mounted (fst demo_down) = Some m" using demo_down_mounted by blast
  from superseded_revision_is_fenced [OF demo_up_ok p m, of "SL_fail demo_epoch ''late''" demo_user
      "fst (snd demo_down)" "snd (snd demo_down)"] m
  show ?thesis by auto
qed

theorem removal_converges_witness:
  "\<exists>m r rec s2 w2. slot_mounted (fst demo_down) = Some m \<and> rc_activation (mounted_component m) = Some r \<and>
     slot_poll_finish_stop demo_tokens demo_user (sel_epoch (ar_selection r)) (fst demo_down) (snd (snd demo_down)) =
       (Some (Accepted rec), s2, w2) \<and> slot_last_stop s2 = Some rec"
proof -
  obtain out where p: "slot_reconcile demo_tokens 10 (Desired_Gone (DesiredGeneration 1 2)) (fst demo_up)
      (fst (snd demo_up)) (snd (snd demo_up)) = (Accepted out, fst demo_down, fst (snd demo_down), snd (snd demo_down))"
    using demo_down_pass by blast
  obtain m r where m: "slot_mounted (fst demo_down) = Some m" "rc_activation (mounted_component m) = Some r"
    "quiet (gates (snd (snd demo_down))) (ar_effects r)" using demo_down_mounted by blast
  from removal_converges [OF demo_up_ok _ p m(1,2) demo_user_prompt m(3), of 1 demo_heap] m(1,2) show ?thesis by auto
qed

end
