(* ===== verification/Plugin_Broker.thy ===== *)
theory Plugin_Broker
  imports Plugin_Manifest Compose_Slot_Runs "HOL-Library.Product_Lexorder"
begin

text \<open>
  The capability broker of the plugin host (\<open>yah-plugin-host/src/capability/\<close>): typed providers registered once
  per capability, grants for one plugin revision, the start context of an activation, and weak handles through
  which a plugin calls a provider while its activation and the exact registration live.

  A broker core and a registration's gate are cells of the heap; a provider value is an address with a count
  of its \<open>Arc\<close> shares, and a \<open>Weak\<close> is the address alone. A Rust type parameter is its \<open>contract_type\<close>.
\<close>

section \<open>Identities\<close>

record 'v plugin_activation_id =
  ai_revision :: "'v plugin_revision_id"
  ai_epoch :: provider_selection_epoch

definition activation_id_text :: "'v plugin_activation_id \<Rightarrow> string" where
  "activation_id_text a = plugin_revision_id_text (ai_revision a) @ ''@'' @ selection_epoch_text (ai_epoch a)"

text \<open>The derived order of a capability identity: by its text, its name, its major.\<close>

definition capability_key :: "capability_id \<Rightarrow> string \<times> string \<times> nat" where
  "capability_key c =
     (vi_canonical (capability_identity c), vi_name (capability_identity c), vi_major (capability_identity c))"

lemma capability_key_inject: "capability_key a = capability_key b \<longleftrightarrow> a = b"
  by (cases a; cases b) (auto simp: capability_key_def)

instantiation capability_id :: linorder
begin
definition less_eq_capability_id :: "capability_id \<Rightarrow> capability_id \<Rightarrow> bool" where
  "less_eq_capability_id a b \<longleftrightarrow> capability_key a \<le> capability_key b"
definition less_capability_id :: "capability_id \<Rightarrow> capability_id \<Rightarrow> bool" where
  "less_capability_id a b \<longleftrightarrow> capability_key a < capability_key b"
instance
  by standard (auto simp: less_eq_capability_id_def less_capability_id_def capability_key_inject [symmetric]
      simp del: less_eq_prod_simp less_prod_simp)
end

datatype capability_registration_id =
  CapabilityRegistrationId (broker_incarnation: u64) (capability_sequence: u64)

instantiation capability_registration_id :: linorder
begin
definition less_eq_capability_registration_id :: "capability_registration_id \<Rightarrow> capability_registration_id \<Rightarrow> bool" where
  "less_eq_capability_registration_id a b \<longleftrightarrow>
     (broker_incarnation a, capability_sequence a) \<le> (broker_incarnation b, capability_sequence b)"
definition less_capability_registration_id :: "capability_registration_id \<Rightarrow> capability_registration_id \<Rightarrow> bool" where
  "less_capability_registration_id a b \<longleftrightarrow>
     (broker_incarnation a, capability_sequence a) < (broker_incarnation b, capability_sequence b)"
instance
  by standard (auto simp: less_eq_capability_registration_id_def less_capability_registration_id_def
      capability_registration_id.expand)
end

definition registration_id_text :: "capability_registration_id \<Rightarrow> string" where
  "registration_id_text r =
     ''capability-provider:'' @ show_nat (broker_incarnation r) @ ''/'' @ show_nat (capability_sequence r)"

record capability_definition =
  cd_id :: capability_id
  cd_contract :: contract_type

record capability_grant =
  cg_capability :: capability_id
  cg_registration :: capability_registration_id

section \<open>Grants\<close>

record 'v effective_grants =
  eg_revision :: "'v plugin_revision_id"
  eg_driver :: driver_kind
  eg_registrations :: "(capability_id, capability_registration_id) btree"

datatype capability_grant_error = Grant_NotRequested capability_id | Grant_Duplicate capability_id

fun grant_error_text :: "capability_grant_error \<Rightarrow> string" where
  "grant_error_text (Grant_NotRequested c) =
     ''capability '' @ capability_text c @ '' was not requested by the plugin manifest''"
| "grant_error_text (Grant_Duplicate c) = ''capability '' @ capability_text c @ '' was granted more than once''"

fun collect_grants ::
    "capability_id set \<Rightarrow> capability_grant list \<Rightarrow> (capability_id, capability_registration_id) btree \<Rightarrow>
     capability_grant_error + (capability_id, capability_registration_id) btree" where
  "collect_grants requested [] m = Inr m"
| "collect_grants requested (g # gs) m =
     (if cg_capability g \<notin> requested then Inl (Grant_NotRequested (cg_capability g))
      else if bt_contains m (cg_capability g) then Inl (Grant_Duplicate (cg_capability g))
      else collect_grants requested gs (bt_insert (cg_capability g) (cg_registration g) m))"

definition effective_grants_new ::
    "('v, 'q) plugin_revision \<Rightarrow> capability_grant list \<Rightarrow> capability_grant_error + 'v effective_grants" where
  "effective_grants_new revision grants =
     and_then (collect_grants (request_capability ` set (pm_requested (revision_manifest revision))) grants []) (\<lambda>m.
       Inr \<lparr>eg_revision = revision_identity revision, eg_driver = entrypoint_driver (pm_entrypoint (revision_manifest revision)),
            eg_registrations = m\<rparr>)"

section \<open>The heap of capabilities\<close>

record broker_entry =
  be_capability :: capability_id
  be_contract :: contract_type
  be_value_type :: nat
  be_provider :: address
  be_gate :: address

record broker_state =
  bs_contracts :: "(capability_id, contract_type) btree"
  bs_registrations :: "(capability_registration_id, broker_entry) btree"
  bs_active :: "(capability_id, capability_registration_id) btree"

record broker_core =
  core_incarnation :: u64
  core_state :: broker_state

record 'z plugin_heap =
  broker_cores :: "address \<Rightarrow> broker_core option"
  registration_words :: "address \<Rightarrow> usize"
  provider_shares :: "address \<Rightarrow> nat"
  next_broker_incarnation :: u64
  plugin_user :: 'z

type_synonym ('t, 'k, 'z) pwld = "('t, 'k, 'z plugin_heap) swld"

abbreviation plugins :: "('t, 'k, 'z) pwld \<Rightarrow> 'z plugin_heap" where
  "plugins w \<equiv> user_state (outside w)"

definition on_plugins :: "('z plugin_heap \<Rightarrow> 'z plugin_heap) \<Rightarrow> ('t, 'k, 'z) pwld \<Rightarrow> ('t, 'k, 'z) pwld" where
  "on_plugins f w = on_services (user_state_update f) w"

lemma plugins_on_plugins [simp]: "plugins (on_plugins f w) = f (plugins w)"
  by (simp add: on_plugins_def)

lemma on_plugins_frame [simp]:
  "gates (on_plugins f w) = gates w" "tokens (on_plugins f w) = tokens w"
  "next_address (on_plugins f w) = next_address w"
  by (simp_all add: on_plugins_def)

definition set_core :: "address \<Rightarrow> broker_core option \<Rightarrow> ('t, 'k, 'z) pwld \<Rightarrow> ('t, 'k, 'z) pwld" where
  "set_core a c w = on_plugins (broker_cores_update (\<lambda>m. m(a := c))) w"

definition set_word :: "address \<Rightarrow> usize \<Rightarrow> ('t, 'k, 'z) pwld \<Rightarrow> ('t, 'k, 'z) pwld" where
  "set_word a n w = on_plugins (registration_words_update (\<lambda>m. m(a := n))) w"

definition take_share :: "address \<Rightarrow> ('t, 'k, 'z) pwld \<Rightarrow> ('t, 'k, 'z) pwld" where
  "take_share a w = on_plugins (provider_shares_update (\<lambda>m. m(a := m a + 1))) w"

definition drop_share :: "address \<Rightarrow> ('t, 'k, 'z) pwld \<Rightarrow> ('t, 'k, 'z) pwld" where
  "drop_share a w = on_plugins (provider_shares_update (\<lambda>m. m(a := m a - 1))) w"

abbreviation registration_word :: "address \<Rightarrow> ('t, 'k, 'z) pwld \<Rightarrow> usize" where
  "registration_word a w \<equiv> registration_words (plugins w) a"

section \<open>The gate of a registration\<close>

text \<open>\<open>RegistrationGate\<close>: the high bit is the revocation, the rest counts the calls admitted.\<close>

definition gate_revoke_registration :: "address \<Rightarrow> ('t, 'k, 'z) pwld \<Rightarrow> ('t, 'k, 'z) pwld" where
  "gate_revoke_registration a w = set_word a (registration_word a w OR REVOKED) w"

definition registration_open :: "address \<Rightarrow> ('t, 'k, 'z) pwld \<Rightarrow> bool" where
  "registration_open a w \<longleftrightarrow> registration_word a w AND REVOKED = 0"

datatype registration_admission_error = Registration_Revoked | Registration_Exhausted

text \<open>\<open>RegistrationGate::admit\<close>, as the successful compare-and-exchange commits it, and the drop of an admission.\<close>

definition registration_admit ::
    "address \<Rightarrow> ('t, 'k, 'z) pwld \<Rightarrow> (registration_admission_error + unit) \<times> ('t, 'k, 'z) pwld" where
  "registration_admit a w =
     (let current = registration_word a w in
      if current AND REVOKED \<noteq> 0 then (Inl Registration_Revoked, w)
      else if current AND ACTIVE_CALLS = ACTIVE_CALLS then (Inl Registration_Exhausted, w)
      else (Inr (), set_word a (current + 1) w))"

definition drop_admission :: "address \<Rightarrow> ('t, 'k, 'z) pwld \<Rightarrow> ('t, 'k, 'z) pwld" where
  "drop_admission a w = set_word a (wrap64 (registration_word a w + (U64_MODULUS - 1))) w"

section \<open>The broker\<close>

datatype 'v capability_broker_error =
    BrokerIncarnationExhausted
  | RegistrationIdExhausted
  | DuplicateProvider capability_id capability_registration_id
  | ForeignRegistration capability_id capability_registration_id
  | Capability_ProviderUnavailable capability_id capability_registration_id
  | Capability_ContractTypeMismatch capability_id string string
  | NotGranted capability_id "'v plugin_activation_id"
  | ActivationInactive "'v plugin_activation_id"

fun broker_error_text :: "'v capability_broker_error \<Rightarrow> string" where
  "broker_error_text BrokerIncarnationExhausted = ''capability broker incarnation space is exhausted''"
| "broker_error_text RegistrationIdExhausted = ''capability registration identity space is exhausted''"
| "broker_error_text (DuplicateProvider c r) =
     ''capability '' @ capability_text c @ '' already has active registration '' @ registration_id_text r"
| "broker_error_text (ForeignRegistration c r) =
     ''capability '' @ capability_text c @ '' registration '' @ registration_id_text r @ '' belongs to another broker''"
| "broker_error_text (Capability_ProviderUnavailable c r) =
     ''capability '' @ capability_text c @ '' registration '' @ registration_id_text r @ '' is unavailable''"
| "broker_error_text (Capability_ContractTypeMismatch c expected received) =
     ''capability '' @ capability_text c @ '' uses Rust contract '' @ expected @ '', not '' @ received"
| "broker_error_text (NotGranted c a) =
     ''capability '' @ capability_text c @ '' is not granted to activation '' @ activation_id_text a"
| "broker_error_text (ActivationInactive a) = ''plugin activation '' @ activation_id_text a @ '' is inactive''"

record capability_broker =
  cb_core :: address
  cb_next_registration :: u64

record provider_registration =
  pr_id :: capability_registration_id
  pr_capability :: capability_id
  pr_provider :: "address option"
  pr_gate :: address
  pr_core :: address

definition empty_broker_state :: broker_state where
  "empty_broker_state = \<lparr>bs_contracts = [], bs_registrations = [], bs_active = []\<rparr>"

definition broker_new ::
    "('t, 'k, 'z) pwld \<Rightarrow> ('v capability_broker_error + capability_broker) \<times> ('t, 'k, 'z) pwld" where
  "broker_new w =
     (let incarnation = next_broker_incarnation (plugins w) in
      case u64_checked_succ incarnation of
        None \<Rightarrow> (Inl BrokerIncarnationExhausted, w)
      | Some next \<Rightarrow>
          (let core = next_address w;
               w = on_plugins (next_broker_incarnation_update (\<lambda>_. next)) (w\<lparr>next_address := core + 1\<rparr>)
           in (Inr \<lparr>cb_core = core, cb_next_registration = 1\<rparr>,
               set_core core (Some \<lparr>core_incarnation = incarnation, core_state = empty_broker_state\<rparr>) w)))"

definition core_of :: "address \<Rightarrow> ('t, 'k, 'z) pwld \<Rightarrow> broker_core" where
  "core_of a w =
     (case broker_cores (plugins w) a of
        Some c \<Rightarrow> c | None \<Rightarrow> \<lparr>core_incarnation = 0, core_state = empty_broker_state\<rparr>)"

definition core_register ::
    "capability_registration_id \<Rightarrow> broker_entry \<Rightarrow> broker_state \<Rightarrow> 'v capability_broker_error + broker_state" where
  "core_register i e st =
     (let c = be_capability e in
      case bt_get (bs_contracts st) c of
        Some existing \<Rightarrow>
          if contract_type_id existing \<noteq> contract_type_id (be_contract e)
          then Inl (Capability_ContractTypeMismatch c (contract_type_name existing) (contract_type_name (be_contract e)))
          else (case bt_get (bs_active st) c of
                  Some existing_id \<Rightarrow> Inl (DuplicateProvider c existing_id)
                | None \<Rightarrow> Inr \<lparr>bs_contracts = bt_insert c (be_contract e) (bs_contracts st),
                               bs_registrations = bt_insert i e (bs_registrations st),
                               bs_active = bt_insert c i (bs_active st)\<rparr>)
      | None \<Rightarrow>
          (case bt_get (bs_active st) c of
             Some existing_id \<Rightarrow> Inl (DuplicateProvider c existing_id)
           | None \<Rightarrow> Inr \<lparr>bs_contracts = bt_insert c (be_contract e) (bs_contracts st),
                          bs_registrations = bt_insert i e (bs_registrations st),
                          bs_active = bt_insert c i (bs_active st)\<rparr>))"

text \<open>The caller gives one share of the provider; a refusal drops it.\<close>

definition broker_register ::
    "capability_definition \<Rightarrow> address \<Rightarrow> capability_broker \<Rightarrow> ('t, 'k, 'z) pwld \<Rightarrow>
     ('v capability_broker_error + provider_registration) \<times> capability_broker \<times> ('t, 'k, 'z) pwld" where
  "broker_register d provider b w =
     (let core = core_of (cb_core b) w;
          i = CapabilityRegistrationId (core_incarnation core) (cb_next_registration b)
      in case u64_checked_succ (cb_next_registration b) of
           None \<Rightarrow> (Inl RegistrationIdExhausted, b, drop_share provider w)
         | Some next \<Rightarrow>
             (let gate = next_address w;
                  w = set_word gate 0 (w\<lparr>next_address := gate + 1\<rparr>);
                  entry = \<lparr>be_capability = cd_id d, be_contract = cd_contract d,
                           be_value_type = contract_type_id (cd_contract d), be_provider = provider, be_gate = gate\<rparr>
              in case core_register i entry (core_state core) of
                   Inl e \<Rightarrow> (Inl e, b, drop_share provider w)
                 | Inr st \<Rightarrow>
                     (Inr \<lparr>pr_id = i, pr_capability = cd_id d, pr_provider = Some provider, pr_gate = gate,
                           pr_core = cb_core b\<rparr>,
                      b\<lparr>cb_next_registration := next\<rparr>,
                      set_core (cb_core b) (Some (core\<lparr>core_state := st\<rparr>)) w)))"

definition core_remove :: "capability_registration_id \<Rightarrow> broker_state \<Rightarrow> broker_state" where
  "core_remove i st =
     (case bt_get (bs_registrations st) i of
        None \<Rightarrow> st
      | Some e \<Rightarrow>
          st\<lparr>bs_registrations := bt_remove i (bs_registrations st),
             bs_active := (if bt_get (bs_active st) (be_capability e) = Some i
                           then bt_remove (be_capability e) (bs_active st) else bs_active st)\<rparr>)"

definition registration_revoke :: "provider_registration \<Rightarrow> ('t, 'k, 'z) pwld \<Rightarrow> ('t, 'k, 'z) pwld" where
  "registration_revoke r w =
     (let w = gate_revoke_registration (pr_gate r) w in
      case broker_cores (plugins w) (pr_core r) of
        None \<Rightarrow> w
      | Some c \<Rightarrow> set_core (pr_core r) (Some (c\<lparr>core_state := core_remove (pr_id r) (core_state c)\<rparr>)) w)"

text \<open>
  \<open>withdraw\<close> revokes, takes the provider, which must be there, and drops the owner, which revokes again.
  Dropping an owner revokes and drops the share it still has.
\<close>

definition registration_withdraw ::
    "provider_registration \<Rightarrow> ('t, 'k, 'z) pwld \<Rightarrow> ('e, address) attempt \<times> ('t, 'k, 'z) pwld" where
  "registration_withdraw r w =
     (let w = registration_revoke r w in
      case pr_provider r of
        Some p \<Rightarrow> (Accepted p, registration_revoke r w)
      | None \<Rightarrow> (Panic ''a live registration retains its provider'', registration_revoke r w))"

definition registration_drop :: "provider_registration \<Rightarrow> ('t, 'k, 'z) pwld \<Rightarrow> ('t, 'k, 'z) pwld" where
  "registration_drop r w =
     (let w = registration_revoke r w in case pr_provider r of Some p \<Rightarrow> drop_share p w | None \<Rightarrow> w)"

definition registration_grant :: "provider_registration \<Rightarrow> capability_grant" where
  "registration_grant r = \<lparr>cg_capability = pr_capability r, cg_registration = pr_id r\<rparr>"

text \<open>Dropping the broker drops its core: every gate is revoked and the core is gone.\<close>

definition broker_drop :: "capability_broker \<Rightarrow> ('t, 'k, 'z) pwld \<Rightarrow> ('t, 'k, 'z) pwld" where
  "broker_drop b w =
     (let entries = map snd (bs_registrations (core_state (core_of (cb_core b) w)))
      in set_core (cb_core b) None (fold (\<lambda>e. gate_revoke_registration (be_gate e)) entries w))"

fun validate_grants ::
    "broker_core \<Rightarrow> (capability_id \<times> capability_registration_id) list \<Rightarrow> ('t, 'k, 'z) pwld \<Rightarrow>
     'v capability_broker_error + unit" where
  "validate_grants c [] w = Inr ()"
| "validate_grants c ((cap, i) # gs) w =
     (if broker_incarnation i \<noteq> core_incarnation c then Inl (ForeignRegistration cap i)
      else case bt_get (bs_registrations (core_state c)) i of
        None \<Rightarrow> Inl (Capability_ProviderUnavailable cap i)
      | Some e \<Rightarrow>
          if be_capability e \<noteq> cap \<or> \<not> registration_open (be_gate e) w
          then Inl (Capability_ProviderUnavailable cap i)
          else validate_grants c gs w)"

record prepared_bindings =
  pb_core :: address
  pb_registrations :: "(capability_id, capability_registration_id) btree"

definition prepare_bindings ::
    "capability_broker \<Rightarrow> 'v effective_grants \<Rightarrow> ('t, 'k, 'z) pwld \<Rightarrow> 'v capability_broker_error + prepared_bindings" where
  "prepare_bindings b g w =
     and_then (validate_grants (core_of (cb_core b) w) (eg_registrations g) w) (\<lambda>_.
       Inr \<lparr>pb_core = cb_core b, pb_registrations = eg_registrations g\<rparr>)"

section \<open>The start context\<close>

record ('t, 'v) start_context =
  sc_activation :: "'v plugin_activation_id"
  sc_cancellation :: 't
  sc_activity :: gate_node
  sc_core :: address
  sc_registrations :: "(capability_id, capability_registration_id) btree"

definition start_context_new ::
    "'v plugin_activation_id \<Rightarrow> 't \<Rightarrow> gate_node \<Rightarrow> prepared_bindings \<Rightarrow> ('t, 'v) start_context" where
  "start_context_new a c g p =
     \<lparr>sc_activation = a, sc_cancellation = c, sc_activity = g, sc_core = pb_core p, sc_registrations = pb_registrations p\<rparr>"

definition is_granted :: "('t, 'v) start_context \<Rightarrow> capability_id \<Rightarrow> bool" where
  "is_granted ctx c = bt_contains (sc_registrations ctx) c"

record ('t, 'v) capability_handle =
  ch_capability :: capability_id
  ch_registration :: capability_registration_id
  ch_activation :: "'v plugin_activation_id"
  ch_cancellation :: 't
  ch_activity :: gate_node
  ch_provider :: address
  ch_gate :: address

text \<open>\<open>downcast_ref::<Weak<T>>\<close> compares the stored \<open>TypeId\<close>.\<close>

definition core_binding ::
    "broker_core \<Rightarrow> capability_registration_id \<Rightarrow> capability_definition \<Rightarrow> ('t, 'k, 'z) pwld \<Rightarrow>
     'v capability_broker_error + address \<times> address" where
  "core_binding c i d w =
     (case bt_get (bs_registrations (core_state c)) i of
        None \<Rightarrow> Inl (Capability_ProviderUnavailable (cd_id d) i)
      | Some e \<Rightarrow>
          if be_capability e \<noteq> cd_id d \<or> \<not> registration_open (be_gate e) w
          then Inl (Capability_ProviderUnavailable (cd_id d) i)
          else if contract_type_id (be_contract e) \<noteq> contract_type_id (cd_contract d)
          then Inl (Capability_ContractTypeMismatch (cd_id d) (contract_type_name (be_contract e))
                      (contract_type_name (cd_contract d)))
          else if be_value_type e \<noteq> contract_type_id (cd_contract d)
          then Inl (Capability_ContractTypeMismatch (cd_id d) (contract_type_name (be_contract e))
                      (contract_type_name (cd_contract d)))
          else Inr (be_provider e, be_gate e))"

definition context_handle ::
    "('t, 'k) cancellation_api \<Rightarrow> capability_definition \<Rightarrow> ('t, 'v) start_context \<Rightarrow> ('t, 'k, 'z) pwld \<Rightarrow>
     'v capability_broker_error + ('t, 'v) capability_handle" where
  "context_handle tk d ctx w =
     (if token_cancelled tk (sc_cancellation ctx) (tokens w) \<or> \<not> is_open (sc_activity ctx) (gates w)
      then Inl (ActivationInactive (sc_activation ctx))
      else case bt_get (sc_registrations ctx) (cd_id d) of
        None \<Rightarrow> Inl (NotGranted (cd_id d) (sc_activation ctx))
      | Some i \<Rightarrow>
          (case broker_cores (plugins w) (sc_core ctx) of
             None \<Rightarrow> Inl (Capability_ProviderUnavailable (cd_id d) i)
           | Some c \<Rightarrow>
               and_then (core_binding c i d w) (\<lambda>(provider, gate).
                 Inr \<lparr>ch_capability = cd_id d, ch_registration = i, ch_activation = sc_activation ctx,
                      ch_cancellation = sc_cancellation ctx, ch_activity = sc_activity ctx,
                      ch_provider = provider, ch_gate = gate\<rparr>)))"

section \<open>Calls\<close>

datatype 'v capability_handle_error =
    Capability_Revoked capability_id capability_registration_id "'v plugin_activation_id"
  | Capability_AdmissionExhausted capability_id capability_registration_id

fun capability_handle_error_text :: "'v capability_handle_error \<Rightarrow> string" where
  "capability_handle_error_text (Capability_Revoked c r a) =
     ''capability '' @ capability_text c @ '' registration '' @ registration_id_text r @ '' is revoked for activation ''
     @ activation_id_text a"
| "capability_handle_error_text (Capability_AdmissionExhausted c r) =
     ''capability '' @ capability_text c @ '' registration '' @ registration_id_text r @ '' exhausted call admission''"

definition capability_revoked :: "('t, 'v) capability_handle \<Rightarrow> 'v capability_handle_error" where
  "capability_revoked h = Capability_Revoked (ch_capability h) (ch_registration h) (ch_activation h)"

definition capability_exhausted :: "('t, 'v) capability_handle \<Rightarrow> 'v capability_handle_error" where
  "capability_exhausted h = Capability_AdmissionExhausted (ch_capability h) (ch_registration h)"

fun capability_activity_error :: "('t, 'v) capability_handle \<Rightarrow> admission_error \<Rightarrow> 'v capability_handle_error" where
  "capability_activity_error h Adm_Revoked = capability_revoked h"
| "capability_activity_error h Adm_Exhausted = capability_exhausted h"

fun capability_admission_error ::
    "('t, 'v) capability_handle \<Rightarrow> registration_admission_error \<Rightarrow> 'v capability_handle_error" where
  "capability_admission_error h Registration_Revoked = capability_revoked h"
| "capability_admission_error h Registration_Exhausted = capability_exhausted h"

definition capability_available ::
    "('t, 'k) cancellation_api \<Rightarrow> ('t, 'v) capability_handle \<Rightarrow> ('t, 'k, 'z) pwld \<Rightarrow> bool" where
  "capability_available tk h w \<longleftrightarrow>
     \<not> (token_cancelled tk (ch_cancellation h) (tokens w) \<or> \<not> is_open (ch_activity h) (gates w)
        \<or> \<not> registration_open (ch_gate h) w)"

text \<open>
  The operation is the caller's code, which may panic and change the world. Its panic leaves through the
  same releases as a return; the result of a call during which the handle was revoked is withheld.
\<close>

definition capability_try_with ::
    "('t, 'k) cancellation_api \<Rightarrow> ('t, 'v) capability_handle \<Rightarrow> (('t, 'k, 'z) pwld \<Rightarrow> 'r caught \<times> ('t, 'k, 'z) pwld) \<Rightarrow>
     ('t, 'k, 'z) pwld \<Rightarrow> ('v capability_handle_error + 'r) caught \<times> ('t, 'k, 'z) pwld" where
  "capability_try_with tk h operation w =
     (if \<not> capability_available tk h w then (Inr (Inl (capability_revoked h)), w)
      else case registration_admit (ch_gate h) w of
        (Inl e, w) \<Rightarrow> (Inr (Inl (capability_admission_error h e)), w)
      | (Inr _, w) \<Rightarrow>
          (case admit (ch_activity h) (gates w) of
             (Inl e, gs) \<Rightarrow> (Inr (Inl (capability_activity_error h e)), drop_admission (ch_gate h) (w\<lparr>gates := gs\<rparr>))
           | (Inr guards, gs) \<Rightarrow>
               (let w = w\<lparr>gates := gs\<rparr>;
                    release = (\<lambda>w. drop_admission (ch_gate h) (drop_guards guards w))
                in if provider_shares (plugins w) (ch_provider h) = 0
                   then (Inr (Inl (capability_revoked h)), release w)
                   else
                     let w = take_share (ch_provider h) w in
                     if \<not> capability_available tk h w
                     then (Inr (Inl (capability_revoked h)), release (drop_share (ch_provider h) w))
                     else case operation w of
                            (Inl panic, w) \<Rightarrow> (Inl panic, release (drop_share (ch_provider h) w))
                          | (Inr r, w) \<Rightarrow>
                              (let w = drop_share (ch_provider h) w in
                               if \<not> capability_available tk h w
                               then (Inr (Inl (capability_revoked h)), release w)
                               else (Inr (Inr r), release w)))))"

end
