(* ===== verification/Plugin_Authority.thy ===== *)
theory Plugin_Authority
  imports Plugin_Broker
begin

text \<open>
  What the capability broker promises, under any interleaving of brokers, registrations, withdrawals, drops
  and calls: registrations stay consistent with their owners, a revoked registration is dead for ever and is
  never followed by its replacement, and a handle is exactly what the manifest requested and the host granted.
\<close>

section \<open>The words of the gates\<close>

lemma registration_open_iff: "registration_open a w \<longleftrightarrow> \<not> is_revoked (registration_word a w)"
  by (simp add: registration_open_def is_revoked_def)

lemma revoke_registration_word:
  assumes "registration_word a w < U64_MODULUS"
  shows "is_revoked (registration_word a (gate_revoke_registration a w))"
    and "registration_word a (gate_revoke_registration a w) < U64_MODULUS"
  using word_join(1,3) [of "active_calls (registration_word a w)" True] assms active_calls_less
  by (simp_all add: gate_revoke_registration_def set_word_def or_revoked)

lemma revoke_registration_other:
  "b \<noteq> a \<Longrightarrow> registration_word b (gate_revoke_registration a w) = registration_word b w"
  "broker_cores (plugins (gate_revoke_registration a w)) = broker_cores (plugins w)"
  "next_address (gate_revoke_registration a w) = next_address w"
  "next_broker_incarnation (plugins (gate_revoke_registration a w)) = next_broker_incarnation (plugins w)"
  by (simp_all add: gate_revoke_registration_def set_word_def)

lemma set_core_frame:
  "registration_words (plugins (set_core a c w)) = registration_words (plugins w)"
  "broker_cores (plugins (set_core a c w)) = (broker_cores (plugins w))(a := c)"
  "next_address (set_core a c w) = next_address w"
  "next_broker_incarnation (plugins (set_core a c w)) = next_broker_incarnation (plugins w)"
  by (simp_all add: set_core_def)

lemma share_frame:
  "registration_words (plugins (drop_share a w)) = registration_words (plugins w)"
  "broker_cores (plugins (drop_share a w)) = broker_cores (plugins w)"
  "next_address (drop_share a w) = next_address w"
  "next_broker_incarnation (plugins (drop_share a w)) = next_broker_incarnation (plugins w)"
  by (simp_all add: drop_share_def)

lemmas frame_simps = revoke_registration_other set_core_frame share_frame

lemma admit_registration_word:
  assumes "registration_admit a w = (Inr u, w')" and "registration_word a w < U64_MODULUS"
  shows "w' = set_word a (registration_word a w + 1) w" and "\<not> is_revoked (registration_word a w)"
    and "\<not> is_revoked (registration_word a w + 1)" and "registration_word a w + 1 < U64_MODULUS"
    and "wrap64 (registration_word a w + 1 + (U64_MODULUS - 1)) = registration_word a w"
proof -
  let ?n = "registration_word a w"
  have n: "w' = set_word a (?n + 1) w" "\<not> is_revoked ?n" "active_calls ?n \<noteq> ACTIVE_CALLS"
    using assms(1) by (auto simp: registration_admit_def Let_def is_revoked_def active_calls_def split: if_splits)
  have a: "admit_local ?n = Inr (?n + 1)" using n by (simp add: admit_local_def)
  note succ = admit_local_Inr [OF assms(2) a]
  show "w' = set_word a (?n + 1) w" "\<not> is_revoked ?n" using n by simp_all
  show "?n + 1 < U64_MODULUS" "wrap64 (?n + 1 + (U64_MODULUS - 1)) = ?n" using succ by (simp_all add: release_word_def)
  have "?n < 2 ^ 63" using n(2) revoked_iff [OF assms(2)] by simp
  moreover have "?n \<noteq> 2 ^ 63 - 1" using n(3) by (auto simp: active_calls_mod ACTIVE_CALLS_def REVOKED_def)
  ultimately show "\<not> is_revoked (?n + 1)" using succ(2) by (simp add: revoked_iff)
qed

lemma drop_admission_word:
  assumes "active_calls (registration_word a w) \<noteq> 0" and "registration_word a w < U64_MODULUS"
  shows "is_revoked (registration_word a (drop_admission a w)) \<longleftrightarrow> is_revoked (registration_word a w)"
    and "registration_word a (drop_admission a w) < U64_MODULUS"
proof -
  let ?n = "registration_word a w"
  have split: "?n = (if is_revoked ?n then REVOKED else 0) + active_calls ?n" using word_split [OF assms(2)] .
  have "?n \<noteq> 0" using assms(1) by (auto simp: active_calls_mod)
  then obtain m where m: "?n = Suc m" by (cases ?n) auto
  have "registration_word a (drop_admission a w) = release_word ?n" by (simp add: drop_admission_def set_word_def release_word_def)
  also have "\<dots> = ?n - 1" using release_word_Suc [of m] assms(2) by (simp add: m)
  also have "\<dots> = (if is_revoked ?n then REVOKED else 0) + (active_calls ?n - 1)" using split assms(1) by simp
  finally show "is_revoked (registration_word a (drop_admission a w)) \<longleftrightarrow> is_revoked ?n"
    "registration_word a (drop_admission a w) < U64_MODULUS"
    using word_join [of "active_calls ?n - 1" "is_revoked ?n"] active_calls_less [of ?n] by simp_all
qed

section \<open>Brokers and registrations together\<close>

text \<open>
  The state of a host: the world, the brokers that live and the registrations that are owned. Other code may
  change gates, tokens and shares of providers at will, take fresh addresses, and hold calls admitted to any
  registration. A call is two steps, its admission and its release.
\<close>

record ('t, 'k, 'z) broker_host =
  host_world :: "('t, 'k, 'z) pwld"
  host_brokers :: "capability_broker list"
  host_owned :: "provider_registration list"

datatype 'k broker_op =
    BO_new
  | BO_register nat capability_definition address
  | BO_withdraw nat
  | BO_drop nat
  | BO_drop_broker nat
  | BO_admit address
  | BO_release address
  | BO_other gate_heap 'k "address \<Rightarrow> nat" nat

definition without :: "nat \<Rightarrow> 'a list \<Rightarrow> 'a list" where
  "without i xs = take i xs @ drop (Suc i) xs"

fun broker_step :: "'k broker_op \<Rightarrow> ('t, 'k, 'z) broker_host \<Rightarrow> ('t, 'k, 'z) broker_host" where
  "broker_step BO_new s =
     (case broker_new (host_world s) :: (unit capability_broker_error + capability_broker) \<times> _ of
        (Inl _, w) \<Rightarrow> s\<lparr>host_world := w\<rparr>
      | (Inr b, w) \<Rightarrow> s\<lparr>host_world := w, host_brokers := host_brokers s @ [b]\<rparr>)"
| "broker_step (BO_register i d p) s =
     (if i < length (host_brokers s) then
        (case broker_register d p (host_brokers s ! i) (host_world s)
           :: (unit capability_broker_error + provider_registration) \<times> _ of
           (Inl _, b, w) \<Rightarrow> s\<lparr>host_world := w\<rparr>
         | (Inr r, b, w) \<Rightarrow>
             s\<lparr>host_world := w, host_brokers := (host_brokers s)[i := b], host_owned := host_owned s @ [r]\<rparr>)
      else s)"
| "broker_step (BO_withdraw j) s =
     (if j < length (host_owned s) then
        s\<lparr>host_owned := without j (host_owned s),
          host_world := snd (registration_withdraw (host_owned s ! j) (host_world s) :: (unit, address) attempt \<times> _)\<rparr>
      else s)"
| "broker_step (BO_drop j) s =
     (if j < length (host_owned s) then
        s\<lparr>host_owned := without j (host_owned s), host_world := registration_drop (host_owned s ! j) (host_world s)\<rparr>
      else s)"
| "broker_step (BO_drop_broker i) s =
     (if i < length (host_brokers s) then
        s\<lparr>host_brokers := without i (host_brokers s), host_world := broker_drop (host_brokers s ! i) (host_world s)\<rparr>
      else s)"
| "broker_step (BO_admit a) s = s\<lparr>host_world := snd (registration_admit a (host_world s))\<rparr>"
| "broker_step (BO_release a) s =
     (if active_calls (registration_word a (host_world s)) = 0 then s
      else s\<lparr>host_world := drop_admission a (host_world s)\<rparr>)"
| "broker_step (BO_other gs ks shares n) s =
     (let w = host_world s
      in s\<lparr>host_world := on_plugins (provider_shares_update (\<lambda>_. shares))
              (w\<lparr>gates := gs, tokens := ks, next_address := next_address w + n\<rparr>)\<rparr>)"

text \<open>
  An entry of a core and its owner: the same registration, gate and capability, and the type of the stored
  value is that of the contract on record.
\<close>

definition entry_of :: "('t, 'k, 'z) pwld \<Rightarrow> address \<Rightarrow> capability_registration_id \<Rightarrow> broker_entry option" where
  "entry_of w a i = Option.bind (broker_cores (plugins w) a) (\<lambda>c. bt_get (bs_registrations (core_state c)) i)"

definition core_ok :: "u64 \<Rightarrow> broker_core \<Rightarrow> bool" where
  "core_ok next c \<longleftrightarrow>
     bt_wf (bs_registrations (core_state c)) \<and>
     (\<forall>i e. bt_get (bs_registrations (core_state c)) i = Some e \<longrightarrow>
        broker_incarnation i = core_incarnation c \<and> capability_sequence i < next \<and>
        bt_get (bs_active (core_state c)) (be_capability e) = Some i \<and>
        be_value_type e = contract_type_id (be_contract e) \<and>
        (\<exists>k. bt_get (bs_contracts (core_state c)) (be_capability e) = Some k \<and>
             contract_type_id k = contract_type_id (be_contract e))) \<and>
     (\<forall>cap i. bt_get (bs_active (core_state c)) cap = Some i \<longrightarrow>
        (\<exists>e. bt_get (bs_registrations (core_state c)) i = Some e \<and> be_capability e = cap))"

definition owner_ok :: "('t, 'k, 'z) pwld \<Rightarrow> provider_registration \<Rightarrow> bool" where
  "owner_ok w r \<longleftrightarrow>
     pr_gate r < next_address w \<and> pr_core r < next_address w \<and> pr_provider r \<noteq> None \<and>
     (if broker_cores (plugins w) (pr_core r) = None then is_revoked (registration_word (pr_gate r) w)
      else \<not> is_revoked (registration_word (pr_gate r) w) \<and>
        (\<exists>e. entry_of w (pr_core r) (pr_id r) = Some e \<and> be_gate e = pr_gate r \<and>
             be_capability e = pr_capability r \<and> pr_provider r = Some (be_provider e)))"

definition brokers_ok :: "('t, 'k, 'z) broker_host \<Rightarrow> bool" where
  "brokers_ok s \<longleftrightarrow>
     (let w = host_world s in
      (\<forall>a. registration_word a w < U64_MODULUS) \<and>
      distinct (map cb_core (host_brokers s)) \<and>
      (\<forall>a. broker_cores (plugins w) a \<noteq> None \<longleftrightarrow> a \<in> cb_core ` set (host_brokers s)) \<and>
      (\<forall>b \<in> set (host_brokers s). cb_core b < next_address w \<and>
         core_incarnation (core_of (cb_core b) w) < next_broker_incarnation (plugins w) \<and>
         core_ok (cb_next_registration b) (core_of (cb_core b) w)) \<and>
      distinct (map pr_gate (host_owned s)) \<and>
      (\<forall>r \<in> set (host_owned s). owner_ok w r) \<and>
      (\<forall>a i e. entry_of w a i = Some e \<longrightarrow>
         (\<exists>r \<in> set (host_owned s). pr_core r = a \<and> pr_id r = i \<and> pr_gate r = be_gate e)))"

section \<open>Every step keeps the invariant\<close>

lemma brokers_okD:
  assumes "brokers_ok s"
  shows "registration_word a (host_world s) < U64_MODULUS"
    and "distinct (map cb_core (host_brokers s))"
    and "broker_cores (plugins (host_world s)) a \<noteq> None \<longleftrightarrow> a \<in> cb_core ` set (host_brokers s)"
    and "b \<in> set (host_brokers s) \<Longrightarrow> cb_core b < next_address (host_world s)"
    and "b \<in> set (host_brokers s) \<Longrightarrow>
      core_incarnation (core_of (cb_core b) (host_world s)) < next_broker_incarnation (plugins (host_world s))"
    and "b \<in> set (host_brokers s) \<Longrightarrow> core_ok (cb_next_registration b) (core_of (cb_core b) (host_world s))"
    and "distinct (map pr_gate (host_owned s))"
    and "r \<in> set (host_owned s) \<Longrightarrow> owner_ok (host_world s) r"
    and "entry_of (host_world s) a i = Some e \<Longrightarrow>
      \<exists>r \<in> set (host_owned s). pr_core r = a \<and> pr_id r = i \<and> pr_gate r = be_gate e"
  using assms by (simp_all add: brokers_ok_def Let_def)

text \<open>A step that changes no core and no word below the free addresses changes nothing the invariant reads.\<close>

lemma brokers_ok_frame:
  assumes "brokers_ok s" and "broker_cores (plugins w) = broker_cores (plugins (host_world s))"
    and "\<And>a. registration_word a w < U64_MODULUS"
    and "\<And>r. r \<in> set (host_owned s) \<Longrightarrow>
      is_revoked (registration_word (pr_gate r) w) \<longleftrightarrow> is_revoked (registration_word (pr_gate r) (host_world s))"
    and "next_address (host_world s) \<le> next_address w"
    and "next_broker_incarnation (plugins w) = next_broker_incarnation (plugins (host_world s))"
  shows "brokers_ok (s\<lparr>host_world := w\<rparr>)"
proof -
  have core: "core_of a w = core_of a (host_world s)" for a by (simp add: core_of_def assms(2))
  have entry: "entry_of w a i = entry_of (host_world s) a i" for a i by (simp add: entry_of_def assms(2))
  have owner: "owner_ok w r" if "r \<in> set (host_owned s)" for r
    using brokers_okD(8) [OF assms(1) that] assms(4) [OF that] assms(5) by (auto simp: owner_ok_def assms(2) entry)
  have below: "cb_core b < next_address w" if "b \<in> set (host_brokers s)" for b
    using brokers_okD(4) [OF assms(1) that] assms(5) by simp
  show ?thesis
    unfolding brokers_ok_def Let_def
    using brokers_okD(2,3,5,6,7,9) [OF assms(1)] assms(3) owner below by (simp add: core entry assms(2,6))
qed

lemma without_set: "set (without i xs) \<subseteq> set xs"
  by (auto simp: without_def dest: in_set_takeD in_set_dropD)

lemma without_split:
  assumes "i < length xs"
  obtains ys zs where "xs = ys @ xs ! i # zs" and "without i xs = ys @ zs"
  using assms that [of "take i xs" "drop (Suc i) xs"] by (simp add: without_def id_take_nth_drop)

lemma distinct_without:
  assumes "distinct (map f xs)" and "i < length xs"
  shows "distinct (map f (without i xs))" and "f (xs ! i) \<notin> f ` set (without i xs)"
    and "set xs = insert (xs ! i) (set (without i xs))"
proof -
  obtain ys zs where s: "xs = ys @ xs ! i # zs" "without i xs = ys @ zs" using without_split [OF assms(2)] .
  have "distinct (map f (ys @ xs ! i # zs))" using assms(1) s(1) by simp
  then show "distinct (map f (without i xs))" "f (xs ! i) \<notin> f ` set (without i xs)" unfolding s(2) by auto
  show "set xs = insert (xs ! i) (set (without i xs))" unfolding s(2) by (subst s(1)) auto
qed

lemma core_ok_remove:
  assumes "core_ok n c"
  shows "core_ok n (c\<lparr>core_state := core_remove i (core_state c)\<rparr>)"
proof (cases "bt_get (bs_registrations (core_state c)) i")
  case None
  then show ?thesis using assms by (simp add: core_remove_def)
next
  case (Some e)
  then have act: "bt_get (bs_active (core_state c)) (be_capability e) = Some i" using assms by (simp add: core_ok_def)
  have inj: "j = i" if "bt_get (bs_registrations (core_state c)) j = Some f" "be_capability f = be_capability e" for j f
  proof -
    have "bt_get (bs_active (core_state c)) (be_capability f) = Some j" using assms that(1) unfolding core_ok_def by blast
    with act that(2) show ?thesis by simp
  qed
  let ?s = "core_state c"
  have gone: "bt_get (bs_registrations (core_remove i ?s)) j = (if j = i then None else bt_get (bs_registrations ?s) j)"
    "bt_get (bs_active (core_remove i ?s)) k = (if k = be_capability e then None else bt_get (bs_active ?s) k)"
    "bs_contracts (core_remove i ?s) = bs_contracts ?s" for j k
    using Some act by (simp_all add: core_remove_def table_simps)
  show ?thesis
    unfolding core_ok_def
  proof (intro conjI allI impI)
    show "bt_wf (bs_registrations (core_state (c\<lparr>core_state := core_remove i ?s\<rparr>)))"
      using assms Some by (simp add: core_ok_def core_remove_def bt_wf_remove)
    fix j f
    assume "bt_get (bs_registrations (core_state (c\<lparr>core_state := core_remove i ?s\<rparr>))) j = Some f"
    then have j: "j \<noteq> i" "bt_get (bs_registrations ?s) j = Some f" by (simp_all add: gone split: if_splits)
    then have f: "broker_incarnation j = core_incarnation c" "capability_sequence j < n" "be_capability f \<noteq> be_capability e"
      "bt_get (bs_active ?s) (be_capability f) = Some j" "be_value_type f = contract_type_id (be_contract f)"
      "\<exists>k. bt_get (bs_contracts ?s) (be_capability f) = Some k \<and> contract_type_id k = contract_type_id (be_contract f)"
      using assms inj unfolding core_ok_def by blast+
    then show "broker_incarnation j = core_incarnation (c\<lparr>core_state := core_remove i ?s\<rparr>)" "capability_sequence j < n"
      "bt_get (bs_active (core_state (c\<lparr>core_state := core_remove i ?s\<rparr>))) (be_capability f) = Some j"
      "be_value_type f = contract_type_id (be_contract f)"
      "\<exists>k. bt_get (bs_contracts (core_state (c\<lparr>core_state := core_remove i ?s\<rparr>))) (be_capability f) = Some k \<and>
         contract_type_id k = contract_type_id (be_contract f)"
      by (simp_all add: gone)
  next
    fix k j
    assume "bt_get (bs_active (core_state (c\<lparr>core_state := core_remove i ?s\<rparr>))) k = Some j"
    then have k: "k \<noteq> be_capability e" "bt_get (bs_active ?s) k = Some j" by (simp_all add: gone split: if_splits)
    then obtain f where f: "bt_get (bs_registrations ?s) j = Some f" "be_capability f = k" using assms unfolding core_ok_def by blast
    with k Some have "j \<noteq> i" by auto
    with f show "\<exists>f. bt_get (bs_registrations (core_state (c\<lparr>core_state := core_remove i ?s\<rparr>))) j = Some f \<and> be_capability f = k"
      by (simp add: gone)
  qed
qed

text \<open>Revoking a registration: its gate is revoked, its entry is gone, and nothing else changes.\<close>

lemma revoke_effect:
  assumes "registration_word (pr_gate r) w < U64_MODULUS"
  shows "is_revoked (registration_word (pr_gate r) (registration_revoke r w))"
    and "registration_word (pr_gate r) (registration_revoke r w) < U64_MODULUS"
    and "b \<noteq> pr_gate r \<Longrightarrow> registration_word b (registration_revoke r w) = registration_word b w"
    and "next_address (registration_revoke r w) = next_address w"
    and "next_broker_incarnation (plugins (registration_revoke r w)) = next_broker_incarnation (plugins w)"
    and "broker_cores (plugins (registration_revoke r w)) =
      (broker_cores (plugins w))(pr_core r :=
         map_option (\<lambda>c. c\<lparr>core_state := core_remove (pr_id r) (core_state c)\<rparr>) (broker_cores (plugins w) (pr_core r)))"
  using revoke_registration_word [OF assms]
  by (auto simp: registration_revoke_def Let_def frame_simps fun_upd_idem split: option.splits)

lemma entry_remove:
  assumes "bt_get (bs_registrations (core_state c)) i = Some e"
  shows "bt_get (bs_registrations (core_remove i (core_state c))) j =
    (if j = i then None else bt_get (bs_registrations (core_state c)) j)"
  using assms by (simp add: core_remove_def table_simps)

lemma core_remove_absent: "bt_get (bs_registrations st) i = None \<Longrightarrow> core_remove i st = st"
  by (simp add: core_remove_def)

lemma revoke_owned_ok:
  assumes ok: "brokers_ok s" and j: "j < length (host_owned s)" and r: "r = host_owned s ! j"
  defines "t \<equiv> s\<lparr>host_owned := without j (host_owned s), host_world := registration_revoke r (host_world s)\<rparr>"
  shows "brokers_ok t" and "pr_gate r \<notin> pr_gate ` set (host_owned t)" and "entry_of (host_world t) (pr_core r) (pr_id r) = None"
proof -
  let ?w = "host_world s" and ?v = "registration_revoke r (host_world s)" and ?o = "without j (host_owned s)"
  note w = revoke_effect [OF brokers_okD(1) [OF ok, of "pr_gate r"]]
  have rin: "r \<in> set (host_owned s)" using j r by simp
  note wo = distinct_without [OF brokers_okD(7) [OF ok] j]
  have gate: "pr_gate q \<noteq> pr_gate r" if "q \<in> set ?o" for q using wo(2) that r by (metis imageI)
  have own: "owner_ok ?w q" if "q \<in> set ?o" for q
    using brokers_okD(8) [OF ok, of q] that without_set [of j "host_owned s"] by auto
  have entry: "entry_of ?v a i = (if a = pr_core r \<and> i = pr_id r then None else entry_of ?w a i)" for a i
  proof (cases "broker_cores (plugins ?w) (pr_core r)")
    case None
    then show ?thesis by (auto simp: entry_of_def w(6))
  next
    case (Some c)
    then obtain e where "bt_get (bs_registrations (core_state c)) (pr_id r) = Some e"
      using brokers_okD(8) [OF ok rin] by (auto simp: owner_ok_def entry_of_def)
    from entry_remove [OF this] Some show ?thesis by (auto simp: entry_of_def w(6))
  qed
  have dead: "broker_cores (plugins ?v) a = None \<longleftrightarrow> broker_cores (plugins ?w) a = None" for a by (simp add: w(6))
  have core: "core_of a ?v = (if a = pr_core r \<and> broker_cores (plugins ?w) a \<noteq> None
      then (core_of a ?w)\<lparr>core_state := core_remove (pr_id r) (core_state (core_of a ?w))\<rparr> else core_of a ?w)" for a
    by (auto simp: core_of_def w(6) split: option.splits)
  have owners: "owner_ok ?v q" if q: "q \<in> set ?o" for q
  proof -
    have "entry_of ?v (pr_core q) (pr_id q) = entry_of ?w (pr_core q) (pr_id q)" if "broker_cores (plugins ?w) (pr_core q) \<noteq> None"
      using own [OF q] brokers_okD(8) [OF ok rin] gate [OF q] that by (auto simp: owner_ok_def entry)
    then show ?thesis using own [OF q] w(3) [OF gate [OF q]] by (simp add: owner_ok_def dead w(4))
  qed
  show "brokers_ok t"
    unfolding brokers_ok_def Let_def t_def
  proof (simp, intro conjI allI ballI impI)
    show "registration_word a ?v < 18446744073709551616" for a
      using w(2,3) brokers_okD(1) [OF ok, of a] by (cases "a = pr_gate r") simp_all
    show "distinct (map cb_core (host_brokers s))" using brokers_okD(2) [OF ok] .
    show "(\<exists>y. broker_cores (plugins ?v) a = Some y) = (a \<in> cb_core ` set (host_brokers s))" for a
      using brokers_okD(3) [OF ok, of a] dead [of a] by auto
    fix b
    assume b: "b \<in> set (host_brokers s)"
    show "cb_core b < next_address ?v" using brokers_okD(4) [OF ok b] w(4) by simp
    show "core_incarnation (core_of (cb_core b) ?v) < next_broker_incarnation (plugins ?v)"
      using brokers_okD(5) [OF ok b] by (auto simp: core w(5))
    show "core_ok (cb_next_registration b) (core_of (cb_core b) ?v)"
      using brokers_okD(6) [OF ok b] by (auto simp: core intro: core_ok_remove)
  next
    show "distinct (map pr_gate ?o)" using wo(1) .
    show "owner_ok ?v q" if "q \<in> set ?o" for q using owners that .
    fix a i e
    assume "entry_of ?v a i = Some e"
    then have ne: "\<not> (a = pr_core r \<and> i = pr_id r)" and "entry_of ?w a i = Some e" by (auto simp: entry split: if_splits)
    from brokers_okD(9) [OF ok this(2)] obtain q where q: "q \<in> set (host_owned s)" "pr_core q = a" "pr_id q = i" "pr_gate q = be_gate e" by blast
    with ne wo(3) r have "q \<in> set ?o" by auto
    with q show "\<exists>q \<in> set ?o. pr_core q = a \<and> pr_id q = i \<and> pr_gate q = be_gate e" by blast
  qed
  show "pr_gate r \<notin> pr_gate ` set (host_owned t)" using wo(2) r by (simp add: t_def)
  show "entry_of (host_world t) (pr_core r) (pr_id r) = None" by (simp add: t_def entry)
qed

lemma revoke_again_ok:
  assumes ok: "brokers_ok s" and "pr_gate r \<notin> pr_gate ` set (host_owned s)" and "entry_of (host_world s) (pr_core r) (pr_id r) = None"
  shows "brokers_ok (s\<lparr>host_world := registration_revoke r (host_world s)\<rparr>)"
proof (rule brokers_ok_frame [OF ok])
  note w = revoke_effect [OF brokers_okD(1) [OF ok, of "pr_gate r"]]
  show "broker_cores (plugins (registration_revoke r (host_world s))) = broker_cores (plugins (host_world s))"
    using assms(3) by (auto simp: w(6) fun_eq_iff entry_of_def core_remove_absent map_option_case split: option.splits)
  show "registration_word a (registration_revoke r (host_world s)) < U64_MODULUS" for a
    using w(2,3) brokers_okD(1) [OF ok, of a] by (cases "a = pr_gate r") simp_all
  show "is_revoked (registration_word (pr_gate q) (registration_revoke r (host_world s))) \<longleftrightarrow>
      is_revoked (registration_word (pr_gate q) (host_world s))" if "q \<in> set (host_owned s)" for q
    using w(3) [of "pr_gate q"] assms(2) that by (metis imageI)
qed (simp_all add: revoke_effect [OF brokers_okD(1) [OF ok]])

lemma withdraw_step_ok:
  assumes "brokers_ok s" and "j < length (host_owned s)"
  shows "brokers_ok (broker_step (BO_withdraw j) s)" and "brokers_ok (broker_step (BO_drop j) s)"
proof -
  let ?r = "host_owned s ! j"
  note r1 = revoke_owned_ok [OF assms refl]
  have "owner_ok (host_world s) ?r" using brokers_okD(8) [OF assms(1)] assms(2) by simp
  then obtain p where p: "pr_provider ?r = Some p" by (auto simp: owner_ok_def)
  from revoke_again_ok [OF r1] assms(2) p show "brokers_ok (broker_step (BO_withdraw j) s)"
    by (simp add: registration_withdraw_def)
  show "brokers_ok (broker_step (BO_drop j) s)"
    using brokers_ok_frame [OF r1(1), of "drop_share p (registration_revoke ?r (host_world s))"] brokers_okD(1) [OF r1(1)] assms(2) p
    by (simp add: registration_drop_def share_frame)
qed

lemma new_ok:
  assumes ok: "brokers_ok s"
  shows "brokers_ok (broker_step BO_new s)"
proof (cases "u64_checked_succ (next_broker_incarnation (plugins (host_world s)))")
  case None
  then show ?thesis using ok by (simp add: broker_new_def)
next
  case (Some n)
  let ?w = "host_world s" and ?a = "next_address (host_world s)"
  let ?c = "\<lparr>core_incarnation = next_broker_incarnation (plugins ?w), core_state = empty_broker_state\<rparr>"
  obtain b v where v: "(broker_new ?w :: (unit capability_broker_error + capability_broker) \<times> _) = (Inr b, v)"
    and b: "b = \<lparr>cb_core = ?a, cb_next_registration = 1\<rparr>"
    and cores: "broker_cores (plugins v) = (broker_cores (plugins ?w))(?a \<mapsto> ?c)"
    and rest: "next_address v = ?a + 1" "registration_words (plugins v) = registration_words (plugins ?w)"
      "next_broker_incarnation (plugins v) = n"
    using Some by (simp add: broker_new_def Let_def frame_simps on_plugins_def set_core_def)
  have n: "next_broker_incarnation (plugins ?w) < n" using Some by (auto simp: u64_checked_succ_def split: if_splits)
  have empty: "bt_get (bs_registrations empty_broker_state) i = None" "bt_get (bs_active empty_broker_state) k = None" for i k
    by (simp_all add: empty_broker_state_def)
  have fresh: "?a \<notin> cb_core ` set (host_brokers s)" using brokers_okD(4) [OF ok] by fastforce
  then have dead: "broker_cores (plugins ?w) ?a = None" using brokers_okD(3) [OF ok, of ?a] by blast
  have entry: "entry_of v a i = entry_of ?w a i" for a i by (simp add: entry_of_def cores empty dead)
  have core: "core_of a v = (if a = ?a then ?c else core_of a ?w)" for a by (simp add: core_of_def cores)
  have owners: "owner_ok v r" if "r \<in> set (host_owned s)" for r
    using brokers_okD(8) [OF ok that] by (auto simp: owner_ok_def rest entry cores)
  have "brokers_ok (s\<lparr>host_world := v, host_brokers := host_brokers s @ [b]\<rparr>)"
    unfolding brokers_ok_def Let_def
  proof (simp, intro conjI allI ballI impI)
    show "registration_word a v < 18446744073709551616" for a using brokers_okD(1) [OF ok, of a] by (simp add: rest)
    show "distinct (map cb_core (host_brokers s))" using brokers_okD(2) [OF ok] .
    show "cb_core b \<notin> cb_core ` set (host_brokers s)" using fresh b by simp
    show "(\<exists>y. broker_cores (plugins v) a = Some y) = (a = cb_core b \<or> a \<in> cb_core ` set (host_brokers s))" for a
      using brokers_okD(3) [OF ok, of a] by (auto simp: cores b)
    show "cb_core b < next_address v" "core_incarnation (core_of (cb_core b) v) < next_broker_incarnation (plugins v)"
      "core_ok (cb_next_registration b) (core_of (cb_core b) v)"
      using n by (simp_all add: b rest core core_ok_def empty) (simp add: empty_broker_state_def)
    fix d
    assume d: "d \<in> set (host_brokers s)"
    then have "cb_core d \<noteq> ?a" using fresh by (metis imageI)
    then show "cb_core d < next_address v" "core_incarnation (core_of (cb_core d) v) < next_broker_incarnation (plugins v)"
      "core_ok (cb_next_registration d) (core_of (cb_core d) v)"
      using brokers_okD(4-6) [OF ok d] n by (simp_all add: rest core)
  next
    show "distinct (map pr_gate (host_owned s))" using brokers_okD(7) [OF ok] .
    show "owner_ok v r" if "r \<in> set (host_owned s)" for r using owners that .
    show "\<exists>r \<in> set (host_owned s). pr_core r = a \<and> pr_id r = i \<and> pr_gate r = be_gate e" if "entry_of v a i = Some e" for a i e
      using brokers_okD(9) [OF ok] that by (simp add: entry)
  qed
  then show ?thesis by (simp add: v)
qed

text \<open>A successful registration: the core gains one entry, under an identity and a gate that are new.\<close>

lemma core_register_Inr:
  assumes "core_register i e st = Inr st'"
  shows "bt_get (bs_active st) (be_capability e) = None"
    and "\<forall>k. bt_get (bs_contracts st) (be_capability e) = Some k \<longrightarrow> contract_type_id k = contract_type_id (be_contract e)"
    and "st' = \<lparr>bs_contracts = bt_insert (be_capability e) (be_contract e) (bs_contracts st),
      bs_registrations = bt_insert i e (bs_registrations st), bs_active = bt_insert (be_capability e) i (bs_active st)\<rparr>"
  using assms by (auto simp: core_register_def Let_def split: option.splits if_splits)

lemma core_ok_fresh: "core_ok n c \<Longrightarrow> bt_get (bs_registrations (core_state c)) (CapabilityRegistrationId k n) = None"
proof -
  assume "core_ok n c"
  then have "capability_sequence j < n" if "bt_get (bs_registrations (core_state c)) j = Some e" for j e
    using that unfolding core_ok_def by blast
  from this [of "CapabilityRegistrationId k n"] show ?thesis by fastforce
qed

lemma core_ok_register:
  assumes ok: "core_ok n c" and reg: "core_register (CapabilityRegistrationId (core_incarnation c) n) e (core_state c) = Inr st"
    and typed: "be_value_type e = contract_type_id (be_contract e)"
  shows "core_ok (Suc n) (c\<lparr>core_state := st\<rparr>)"
proof -
  let ?i = "CapabilityRegistrationId (core_incarnation c) n" and ?s = "core_state c"
  note r = core_register_Inr [OF reg]
  have new: "bt_get (bs_registrations st) j = (if j = ?i then Some e else bt_get (bs_registrations ?s) j)"
    "bt_get (bs_active st) k = (if k = be_capability e then Some ?i else bt_get (bs_active ?s) k)"
    "bt_get (bs_contracts st) k = (if k = be_capability e then Some (be_contract e) else bt_get (bs_contracts ?s) k)" for j k
    by (simp_all add: r(3) table_simps)
  have old: "broker_incarnation j = core_incarnation c" "capability_sequence j < n" "be_capability f \<noteq> be_capability e"
      "bt_get (bs_active ?s) (be_capability f) = Some j" "be_value_type f = contract_type_id (be_contract f)"
      "\<exists>k. bt_get (bs_contracts ?s) (be_capability f) = Some k \<and> contract_type_id k = contract_type_id (be_contract f)"
    if "bt_get (bs_registrations ?s) j = Some f" for j f
    using ok that r(1) unfolding core_ok_def by fastforce+
  have act: "\<exists>f. bt_get (bs_registrations ?s) j = Some f \<and> be_capability f = k" if "bt_get (bs_active ?s) k = Some j" for k j
    using ok that unfolding core_ok_def by blast
  note fresh = core_ok_fresh [OF ok, of "core_incarnation c"]
  have act_fresh: "bt_get (bs_active ?s) k \<noteq> Some ?i" for k using act [of k ?i] fresh by auto
  have wf: "bt_wf (bs_registrations st)" using ok by (simp add: r(3) core_ok_def bt_wf_insert)
  show ?thesis
    unfolding core_ok_def
    using old act fresh typed act_fresh wf by (auto simp: new less_Suc_eq split: if_splits)
qed

lemma register_ok:
  assumes ok: "brokers_ok s" and i: "i < length (host_brokers s)"
    and reg: "(broker_register d p (host_brokers s ! i) (host_world s)
      :: ('v capability_broker_error + provider_registration) \<times> _) = (Inr r, b', v)"
  shows "brokers_ok (s\<lparr>host_world := v, host_brokers := (host_brokers s)[i := b'], host_owned := host_owned s @ [r]\<rparr>)"
proof -
  let ?w = "host_world s" and ?b = "host_brokers s ! i" and ?g = "next_address (host_world s)"
  let ?a = "cb_core ?b" and ?n = "cb_next_registration ?b"
  define c where "c = core_of ?a ?w"
  define e where "e = \<lparr>be_capability = cd_id d, be_contract = cd_contract d,
    be_value_type = contract_type_id (cd_contract d), be_provider = p, be_gate = ?g\<rparr>"
  let ?i = "CapabilityRegistrationId (core_incarnation c) ?n"
  have b: "?b \<in> set (host_brokers s)" using i by simp
  obtain st where st: "(core_register ?i e (core_state c) :: 'v capability_broker_error + _) = Inr st"
    and r: "r = \<lparr>pr_id = ?i, pr_capability = cd_id d, pr_provider = Some p, pr_gate = ?g, pr_core = ?a\<rparr>"
    and b': "b' = ?b\<lparr>cb_next_registration := Suc ?n\<rparr>"
    and v: "v = set_core ?a (Some (c\<lparr>core_state := st\<rparr>)) (set_word ?g 0 (?w\<lparr>next_address := ?g + 1\<rparr>))"
    using reg by (auto simp: broker_register_def Let_def c_def e_def u64_checked_succ_def split: option.splits sum.splits if_splits)
  have cores: "broker_cores (plugins v) = (broker_cores (plugins ?w))(?a \<mapsto> c\<lparr>core_state := st\<rparr>)"
    and rest: "registration_word a v = (if a = ?g then 0 else registration_word a ?w)" "next_address v = ?g + 1"
      "next_broker_incarnation (plugins v) = next_broker_incarnation (plugins ?w)" for a
    by (simp_all add: v set_core_def set_word_def on_plugins_def)
  have live: "broker_cores (plugins ?w) ?a = Some c"
    using brokers_okD(3) [OF ok, of ?a] b by (auto simp: c_def core_of_def split: option.splits)
  note cok = brokers_okD(6) [OF ok b, folded c_def]
  have fresh: "entry_of ?w ?a ?i = None" using core_ok_fresh [OF cok] by (simp add: entry_of_def live)
  have entry: "entry_of v a j = (if a = ?a \<and> j = ?i then Some e else entry_of ?w a j)" for a j
    by (auto simp: entry_of_def cores live core_register_Inr(3) [OF st] table_simps)
  have core: "core_of a v = (if a = ?a then c\<lparr>core_state := st\<rparr> else core_of a ?w)" for a by (simp add: core_of_def cores)
  have gates: "pr_gate q \<noteq> ?g" if "q \<in> set (host_owned s)" for q using brokers_okD(8) [OF ok that] by (auto simp: owner_ok_def)
  have owners: "owner_ok v q" if "q \<in> set (host_owned s)" for q
    using brokers_okD(8) [OF ok that] gates [OF that] fresh live by (auto simp: owner_ok_def rest cores entry)
  have new: "owner_ok v r"
    using brokers_okD(4) [OF ok b] by (auto simp: owner_ok_def r rest cores entry e_def is_revoked_def)
  have map_core: "map cb_core ((host_brokers s)[i := b']) = map cb_core (host_brokers s)"
    by (simp add: map_update b' list_update_same_conv i)
  then have set_core: "cb_core ` set ((host_brokers s)[i := b']) = cb_core ` set (host_brokers s)"
    by (metis set_map)
  have other: "cb_core q \<noteq> ?a" if "k < length (host_brokers s)" "k \<noteq> i" "q = host_brokers s ! k" for k q
    using brokers_okD(2) [OF ok] that i by (auto simp: distinct_conv_nth)
  have cok': "core_ok (Suc ?n) (c\<lparr>core_state := st\<rparr>)" by (rule core_ok_register [OF cok st]) (simp add: e_def)
  have brokers: "cb_core q < next_address v \<and> core_incarnation (core_of (cb_core q) v) < next_broker_incarnation (plugins v) \<and>
      core_ok (cb_next_registration q) (core_of (cb_core q) v)" if "q \<in> set ((host_brokers s)[i := b'])" for q
  proof -
    from that obtain k where k: "k < length (host_brokers s)" "q = (host_brokers s)[i := b'] ! k" by (auto simp: in_set_conv_nth)
    show ?thesis
    proof (cases "k = i")
      case True
      with k i cok' brokers_okD(4,5) [OF ok b] show ?thesis by (simp add: b' core rest c_def)
    next
      case False
      then have q: "q = host_brokers s ! k" "q \<in> set (host_brokers s)" using k by simp_all
      with brokers_okD(4-6) [OF ok q(2)] other [OF k(1) False q(1)] show ?thesis by (simp add: core rest)
    qed
  qed
  show ?thesis
    unfolding brokers_ok_def Let_def
  proof (simp add: map_core set_core brokers owners new, intro conjI allI impI)
    show "registration_word a v < 18446744073709551616" for a using brokers_okD(1) [OF ok, of a] by (simp add: rest)
    show "distinct (map cb_core (host_brokers s))" using brokers_okD(2) [OF ok] .
    show "(\<exists>y. broker_cores (plugins v) a = Some y) = (a \<in> cb_core ` set (host_brokers s))" for a
      using brokers_okD(3) [OF ok, of a] b by (auto simp: cores)
    show "distinct (map pr_gate (host_owned s))" using brokers_okD(7) [OF ok] .
    show "pr_gate r \<notin> pr_gate ` set (host_owned s)" using gates unfolding r by fastforce
    fix a j f
    assume "entry_of v a j = Some f"
    then show "(pr_core r = a \<and> pr_id r = j \<and> pr_gate r = be_gate f) \<or>
        (\<exists>q \<in> set (host_owned s). pr_core q = a \<and> pr_id q = j \<and> pr_gate q = be_gate f)"
      using brokers_okD(9) [OF ok, of a j f] by (auto simp: entry r e_def split: if_splits)
  qed
qed

lemma register_refused_ok:
  assumes ok: "brokers_ok s"
    and reg: "(broker_register d p b (host_world s) :: ('v capability_broker_error + provider_registration) \<times> _) = (Inl e, b', v)"
  shows "brokers_ok (s\<lparr>host_world := v\<rparr>)"
proof (rule brokers_ok_frame [OF ok])
  let ?w = "host_world s" and ?g = "next_address (host_world s)"
  have v: "v = drop_share p ?w \<or> v = drop_share p (set_word ?g 0 (?w\<lparr>next_address := ?g + 1\<rparr>))"
    using reg by (auto simp: broker_register_def Let_def split: option.splits sum.splits)
  then show "broker_cores (plugins v) = broker_cores (plugins ?w)" "next_address ?w \<le> next_address v"
    "next_broker_incarnation (plugins v) = next_broker_incarnation (plugins ?w)"
    by (auto simp: share_frame set_word_def on_plugins_def)
  show "registration_word a v < U64_MODULUS" for a
    using v brokers_okD(1) [OF ok, of a] by (auto simp: share_frame set_word_def on_plugins_def)
  show "is_revoked (registration_word (pr_gate q) v) \<longleftrightarrow> is_revoked (registration_word (pr_gate q) ?w)"
    if "q \<in> set (host_owned s)" for q
    using v brokers_okD(8) [OF ok that] by (auto simp: share_frame set_word_def on_plugins_def owner_ok_def)
qed

lemma revoke_all_words:
  assumes "\<And>a. registration_word a w < U64_MODULUS"
  shows "registration_word a (fold (\<lambda>e. gate_revoke_registration (be_gate e)) es w) < U64_MODULUS"
    and "is_revoked (registration_word a (fold (\<lambda>e. gate_revoke_registration (be_gate e)) es w)) \<longleftrightarrow>
      is_revoked (registration_word a w) \<or> a \<in> be_gate ` set es"
    and "broker_cores (plugins (fold (\<lambda>e. gate_revoke_registration (be_gate e)) es w)) = broker_cores (plugins w)"
    and "next_address (fold (\<lambda>e. gate_revoke_registration (be_gate e)) es w) = next_address w"
    and "next_broker_incarnation (plugins (fold (\<lambda>e. gate_revoke_registration (be_gate e)) es w)) =
      next_broker_incarnation (plugins w)"
proof -
  have "(\<forall>a. registration_word a w < U64_MODULUS) \<longrightarrow>
      (\<forall>a. registration_word a (fold (\<lambda>e. gate_revoke_registration (be_gate e)) es w) < U64_MODULUS \<and>
        (is_revoked (registration_word a (fold (\<lambda>e. gate_revoke_registration (be_gate e)) es w)) \<longleftrightarrow>
          is_revoked (registration_word a w) \<or> a \<in> be_gate ` set es))"
  proof (induction es arbitrary: w)
    case (Cons e es)
    have step: "registration_word a (gate_revoke_registration (be_gate e) w) < U64_MODULUS \<and>
        (is_revoked (registration_word a (gate_revoke_registration (be_gate e) w)) \<longleftrightarrow>
          is_revoked (registration_word a w) \<or> a = be_gate e)" if "\<forall>a. registration_word a w < U64_MODULUS" for a
      using revoke_registration_word [where a = "be_gate e" and w = w] that by (cases "a = be_gate e") (simp_all add: frame_simps)
    show ?case
    proof (intro impI)
      assume w: "\<forall>a. registration_word a w < U64_MODULUS"
      then have "\<forall>a. registration_word a (gate_revoke_registration (be_gate e) w) < U64_MODULUS" using step by blast
      with Cons.IH step [OF w] show "\<forall>a. registration_word a (fold (\<lambda>e. gate_revoke_registration (be_gate e)) (e # es) w) < U64_MODULUS \<and>
        (is_revoked (registration_word a (fold (\<lambda>e. gate_revoke_registration (be_gate e)) (e # es) w)) \<longleftrightarrow>
          is_revoked (registration_word a w) \<or> a \<in> be_gate ` set (e # es))" by auto
    qed
  qed simp
  with assms show "registration_word a (fold (\<lambda>e. gate_revoke_registration (be_gate e)) es w) < U64_MODULUS"
    "is_revoked (registration_word a (fold (\<lambda>e. gate_revoke_registration (be_gate e)) es w)) \<longleftrightarrow>
      is_revoked (registration_word a w) \<or> a \<in> be_gate ` set es" by blast+
  show "broker_cores (plugins (fold (\<lambda>e. gate_revoke_registration (be_gate e)) es w)) = broker_cores (plugins w)"
    "next_address (fold (\<lambda>e. gate_revoke_registration (be_gate e)) es w) = next_address w"
    "next_broker_incarnation (plugins (fold (\<lambda>e. gate_revoke_registration (be_gate e)) es w)) = next_broker_incarnation (plugins w)"
    by (induction es arbitrary: w) (simp_all add: frame_simps)
qed

lemma drop_broker_ok:
  assumes ok: "brokers_ok s" and i: "i < length (host_brokers s)"
  shows "brokers_ok (broker_step (BO_drop_broker i) s)"
proof -
  let ?w = "host_world s" and ?b = "host_brokers s ! i" and ?o = "without i (host_brokers s)"
  let ?a = "cb_core ?b"
  let ?es = "map snd (bs_registrations (core_state (core_of ?a ?w)))"
  define v where "v = broker_drop ?b ?w"
  note all = revoke_all_words [of ?w, OF brokers_okD(1) [OF ok]]
  have b: "?b \<in> set (host_brokers s)" using i by simp
  obtain c where live: "broker_cores (plugins ?w) ?a = Some c" using brokers_okD(3) [OF ok, of ?a] b by blast
  then have c: "core_of ?a ?w = c" by (simp add: core_of_def)
  have cores: "broker_cores (plugins v) = (broker_cores (plugins ?w))(?a := None)"
    and words: "registration_word a v < U64_MODULUS"
      "is_revoked (registration_word a v) \<longleftrightarrow> is_revoked (registration_word a ?w) \<or> a \<in> be_gate ` set ?es"
    and rest: "next_address v = next_address ?w" "next_broker_incarnation (plugins v) = next_broker_incarnation (plugins ?w)" for a
    using all [where es = ?es] by (simp_all add: v_def broker_drop_def Let_def frame_simps)
  have entry: "entry_of v a j = (if a = ?a then None else entry_of ?w a j)" for a j by (simp add: entry_of_def cores)
  have core: "core_of a v = core_of a ?w" if "a \<noteq> ?a" for a using that by (simp add: core_of_def cores)
  note wo = distinct_without [OF brokers_okD(2) [OF ok] i]
  have others: "cb_core q \<noteq> ?a" "q \<in> set (host_brokers s)" if "q \<in> set ?o" for q
    using wo(2,3) that by (auto simp: image_iff)
  have gates: "pr_gate q \<in> be_gate ` set ?es \<longleftrightarrow> pr_core q = ?a" if q: "q \<in> set (host_owned s)" for q
  proof
    assume "pr_core q = ?a"
    with brokers_okD(8) [OF ok q] live obtain e where "bt_get (bs_registrations (core_state c)) (pr_id q) = Some e" "be_gate e = pr_gate q"
      by (auto simp: owner_ok_def entry_of_def)
    then show "pr_gate q \<in> be_gate ` set ?es" using map_of_SomeD [of "bs_registrations (core_state c)"]
      by (auto simp: c bt_get_def image_iff) force
  next
    assume "pr_gate q \<in> be_gate ` set ?es"
    then obtain j e where e: "(j, e) \<in> set (bs_registrations (core_state c))" "be_gate e = pr_gate q" by (auto simp: c)
    have "bt_wf (bs_registrations (core_state c))" using brokers_okD(6) [OF ok b] by (simp add: c core_ok_def)
    then have "entry_of ?w ?a j = Some e" using e(1) by (simp add: entry_of_def live bt_get_def bt_wf_distinct)
    from brokers_okD(9) [OF ok this] obtain r where r: "r \<in> set (host_owned s)" "pr_core r = ?a" "pr_gate r = pr_gate q"
      using e(2) by auto
    then have "r = q" using brokers_okD(7) [OF ok] q by (auto simp: distinct_map dest: inj_onD)
    with r show "pr_core q = ?a" by simp
  qed
  have owners: "owner_ok v q" if q: "q \<in> set (host_owned s)" for q
    using brokers_okD(8) [OF ok q] gates [OF q] live
    by (cases "pr_core q = ?a") (auto simp: owner_ok_def cores words(2) rest entry)
  have "brokers_ok (s\<lparr>host_brokers := ?o, host_world := v\<rparr>)"
    unfolding brokers_ok_def Let_def
  proof (simp add: owners, intro conjI allI ballI impI)
    show "registration_word a v < 18446744073709551616" for a using words(1) [of a] by simp
    show "distinct (map cb_core ?o)" using wo(1) .
    show "(\<exists>y. broker_cores (plugins v) a = Some y) = (a \<in> cb_core ` set ?o)" for a
      using brokers_okD(3) [OF ok, of a] wo(2) unfolding wo(3) by (auto simp: cores)
    show "cb_core q < next_address v" "core_incarnation (core_of (cb_core q) v) < next_broker_incarnation (plugins v)"
      "core_ok (cb_next_registration q) (core_of (cb_core q) v)" if "q \<in> set ?o" for q
      using others [OF that] brokers_okD(4-6) [OF ok, of q] by (simp_all add: rest core)
    show "distinct (map pr_gate (host_owned s))" using brokers_okD(7) [OF ok] .
    show "\<exists>r \<in> set (host_owned s). pr_core r = a \<and> pr_id r = j \<and> pr_gate r = be_gate e" if "entry_of v a j = Some e" for a j e
      using that brokers_okD(9) [OF ok, of a j e] by (simp add: entry split: if_splits)
  qed
  with i show ?thesis by (simp add: v_def)
qed

lemma broker_step_ok: "brokers_ok s \<Longrightarrow> brokers_ok (broker_step op s)"
proof (cases op)
  case BO_new
  then show "brokers_ok s \<Longrightarrow> ?thesis" by (simp only: new_ok)
next
  case (BO_register i d p)
  then show "brokers_ok s \<Longrightarrow> ?thesis"
    using register_ok [of s i d p] register_refused_ok [of s d p "host_brokers s ! i"] by (auto split: prod.splits sum.splits)
next
  case (BO_withdraw j)
  then show "brokers_ok s \<Longrightarrow> ?thesis" using withdraw_step_ok(1) [of s j] by (cases "j < length (host_owned s)") auto
next
  case (BO_drop j)
  then show "brokers_ok s \<Longrightarrow> ?thesis" using withdraw_step_ok(2) [of s j] by (cases "j < length (host_owned s)") auto
next
  case (BO_drop_broker i)
  then show "brokers_ok s \<Longrightarrow> ?thesis" using drop_broker_ok [of s i] by (cases "i < length (host_brokers s)") auto
next
  case (BO_admit a)
  assume ok: "brokers_ok s"
  let ?w = "host_world s"
  show ?thesis
  proof (cases "registration_admit a ?w")
    case (Pair r v)
    show ?thesis
    proof (cases r)
      case (Inl e)
      with Pair have "v = ?w" by (auto simp: registration_admit_def Let_def split: if_splits)
      with Pair ok BO_admit show ?thesis by simp
    next
      case (Inr u)
      note w = admit_registration_word [OF Pair [unfolded Inr] brokers_okD(1) [OF ok]]
      have "brokers_ok (s\<lparr>host_world := v\<rparr>)"
        using w(2-4) brokers_okD(1) [OF ok] by (intro brokers_ok_frame [OF ok]) (auto simp: w(1) set_word_def)
      with Pair BO_admit show ?thesis by simp
    qed
  qed
next
  case (BO_release a)
  assume ok: "brokers_ok s"
  let ?w = "host_world s"
  show ?thesis
  proof (cases "active_calls (registration_word a ?w) = 0")
    case False
    note w = drop_admission_word [OF False brokers_okD(1) [OF ok]]
    have other: "registration_word b (drop_admission a ?w) = registration_word b ?w" if "b \<noteq> a" for b
      using that by (simp add: drop_admission_def set_word_def)
    have "brokers_ok (s\<lparr>host_world := drop_admission a ?w\<rparr>)"
    proof (rule brokers_ok_frame [OF ok])
      show "registration_word b (drop_admission a ?w) < U64_MODULUS" for b
        using w(2) brokers_okD(1) [OF ok, of b] other [of b] by (cases "b = a") simp_all
      show "is_revoked (registration_word (pr_gate q) (drop_admission a ?w)) = is_revoked (registration_word (pr_gate q) ?w)" for q
        using w(1) other [of "pr_gate q"] by (cases "pr_gate q = a") simp_all
    qed (simp_all add: drop_admission_def set_word_def)
    with False BO_release show ?thesis by simp
  qed (use ok BO_release in simp)
next
  case (BO_other gs ks shares n)
  assume ok: "brokers_ok s"
  show ?thesis
    unfolding BO_other broker_step.simps Let_def
    using brokers_okD(1) [OF ok] by (intro brokers_ok_frame [OF ok]) (simp_all add: on_plugins_def)
qed

interpretation broker_machine: invariant_machine broker_step brokers_ok
  by unfold_locales (rule broker_step_ok)

section \<open>Revocation is for ever\<close>

definition keeps_revoked :: "('t, 'k, 'z) broker_host \<Rightarrow> ('t, 'k, 'z) broker_host \<Rightarrow> bool" where
  "keeps_revoked s t \<longleftrightarrow>
     next_address (host_world s) \<le> next_address (host_world t) \<and>
     (\<forall>a < next_address (host_world s).
        is_revoked (registration_word a (host_world s)) \<longrightarrow> is_revoked (registration_word a (host_world t)))"

lemma revoke_keeps:
  assumes "\<And>a. registration_word a w < U64_MODULUS" and "is_revoked (registration_word a w)"
  shows "is_revoked (registration_word a (registration_revoke r w))"
  using revoke_effect(1,3) [where r = r and w = w] assms by (cases "a = pr_gate r") auto

lemma revoke_word_less:
  assumes "\<And>a. registration_word a w < U64_MODULUS"
  shows "registration_word a (registration_revoke r w) < U64_MODULUS"
  using revoke_effect(2,3) [where r = r and w = w] assms by (cases "a = pr_gate r") auto

lemma withdrawn_words:
  assumes "\<And>a. registration_word a w < U64_MODULUS" and "is_revoked (registration_word a (registration_revoke r w))"
  shows "is_revoked (registration_word a (snd (registration_withdraw r w :: ('e, address) attempt \<times> _)))"
    and "is_revoked (registration_word a (registration_drop r w))"
  using revoke_keeps [OF revoke_word_less [OF assms(1)] assms(2)] assms(2)
  by (auto simp: registration_withdraw_def registration_drop_def Let_def share_frame split: option.splits)

lemma withdrawn_address:
  assumes "\<And>a. registration_word a w < U64_MODULUS"
  shows "next_address (snd (registration_withdraw r w :: ('e, address) attempt \<times> _)) = next_address w"
    and "next_address (registration_drop r w) = next_address w"
  using revoke_effect(4) [OF assms] revoke_effect(4) [OF revoke_word_less [OF assms]]
  by (auto simp: registration_withdraw_def registration_drop_def Let_def share_frame split: option.splits)

lemma step_keeps_revoked:
  assumes ok: "brokers_ok s"
  shows "keeps_revoked s (broker_step op s)"
proof -
  let ?w = "host_world s"
  note small = brokers_okD(1) [OF ok]
  have registered: "next_address ?w \<le> next_address v \<and>
      (\<forall>a < next_address ?w. registration_word a v = registration_word a ?w)"
    if "(broker_register d p b ?w :: (unit capability_broker_error + provider_registration) \<times> _) = (x, b', v)" for d p b x b' v
    using that by (auto simp: broker_register_def Let_def share_frame set_core_def set_word_def on_plugins_def
        split: option.splits sum.splits)
  show ?thesis
  proof (cases op)
    case BO_new
    then show ?thesis
      by (auto simp: keeps_revoked_def broker_new_def Let_def set_core_def on_plugins_def split: option.splits)
  next
    case (BO_register i d p)
    then show ?thesis using registered by (auto simp: keeps_revoked_def split: prod.splits sum.splits)
  next
    case (BO_withdraw j)
    then show ?thesis using withdrawn_words(1) [where 'e = unit, OF small revoke_keeps [OF small]]
      withdrawn_words(2) [OF small revoke_keeps [OF small]] withdrawn_address(1) [where 'e = unit, OF small]
      withdrawn_address(2) [OF small]
      by (auto simp: keeps_revoked_def)
  next
    case (BO_drop j)
    then show ?thesis using withdrawn_words(1) [where 'e = unit, OF small revoke_keeps [OF small]]
      withdrawn_words(2) [OF small revoke_keeps [OF small]] withdrawn_address(1) [where 'e = unit, OF small]
      withdrawn_address(2) [OF small]
      by (auto simp: keeps_revoked_def)
  next
    case (BO_drop_broker i)
    let ?es = "map snd (bs_registrations (core_state (core_of (cb_core (host_brokers s ! i)) ?w)))"
    from BO_drop_broker show ?thesis using revoke_all_words(2,4) [where w = ?w and es = ?es, OF small]
      by (simp add: keeps_revoked_def broker_drop_def Let_def frame_simps)
  next
    case (BO_admit a)
    obtain r v where v: "registration_admit a ?w = (r, v)" by fastforce
    have "v = ?w" if "r = Inl e" for e using v that by (auto simp: registration_admit_def Let_def split: if_splits)
    moreover have "v = set_word a (registration_word a ?w + 1) ?w \<and> \<not> is_revoked (registration_word a ?w)" if "r = Inr u" for u
      using admit_registration_word(1,2) [OF v [unfolded that] small] by simp
    ultimately show ?thesis using v BO_admit by (cases r) (auto simp: keeps_revoked_def set_word_def)
  next
    case (BO_release a)
    then show ?thesis using drop_admission_word(1) [OF _ small]
      by (auto simp: keeps_revoked_def drop_admission_def set_word_def)
  next
    case (BO_other gs ks shares n)
    then show ?thesis by (simp add: keeps_revoked_def on_plugins_def Let_def)
  qed
qed

lemma run_keeps_revoked: "brokers_ok s \<Longrightarrow> keeps_revoked s (fold broker_step ops s)"
  by (rule broker_machine.run_relates [where R = keeps_revoked]) (auto simp: keeps_revoked_def intro: step_keeps_revoked
      [unfolded keeps_revoked_def, THEN conjunct1] step_keeps_revoked [unfolded keeps_revoked_def, THEN conjunct2, rule_format])

text \<open>Once its owner or its broker is gone, the gate of a registration is revoked.\<close>

lemma removed_is_revoked:
  assumes ok: "brokers_ok s" and r: "r \<in> set (host_owned s)"
    and gone: "r \<notin> set (host_owned (broker_step op s)) \<or> pr_core r \<notin> cb_core ` set (host_brokers (broker_step op s))"
  shows "is_revoked (registration_word (pr_gate r) (host_world (broker_step op s)))"
proof (cases "r \<in> set (host_owned (broker_step op s))")
  case True
  note ok' = broker_step_ok [OF ok, of op]
  have "broker_cores (plugins (host_world (broker_step op s))) (pr_core r) = None"
    using brokers_okD(3) [OF ok', of "pr_core r"] gone True by blast
  with brokers_okD(8) [OF ok' True] show ?thesis by (simp add: owner_ok_def)
next
  case False
  have drop: "r = host_owned s ! j" if "r \<notin> set (without j (host_owned s))" "j < length (host_owned s)" for j
    using distinct_without(3) [OF brokers_okD(7) [OF ok] that(2)] that(1) r by auto
  note w = withdrawn_words(1) [where 'e = unit, OF brokers_okD(1) [OF ok] revoke_effect(1) [OF brokers_okD(1) [OF ok]], of r]
    withdrawn_words(2) [OF brokers_okD(1) [OF ok] revoke_effect(1) [OF brokers_okD(1) [OF ok]], of r]
  show ?thesis
  proof (cases op)
    case (BO_register i d p)
    with False r show ?thesis by (auto split: if_splits prod.splits sum.splits)
  next
    case (BO_withdraw j)
    with False r drop [of j] w show ?thesis by (auto split: if_splits)
  next
    case (BO_drop j)
    with False r drop [of j] w show ?thesis by (auto split: if_splits)
  qed (use False r in \<open>auto simp: Let_def split: if_splits prod.splits sum.splits\<close>)
qed

lemma revoked_call: "is_revoked (registration_word (ch_gate h) w) \<Longrightarrow>
    capability_try_with tk h operation w = (Inr (Inl (capability_revoked h)), w)"
  by (simp add: capability_try_with_def capability_available_def registration_open_iff)

section \<open>Properties\<close>

text \<open>A host with one broker and one registration, and the tokens of \<open>Compose_Close\<close>.\<close>

definition demo_capability :: capability_definition where
  "demo_capability = \<lparr>cd_id = CapabilityId \<lparr>vi_canonical = ''h.t/v2'', vi_name = ''h.t'', vi_major = 2\<rparr>,
     cd_contract = \<lparr>contract_type_id = 7, contract_type_name = ''Clock''\<rparr>\<rparr>"

definition demo_plugin_heap :: "unit plugin_heap" where
  "demo_plugin_heap = \<lparr>broker_cores = Map.empty, registration_words = (\<lambda>_. 0), provider_shares = (\<lambda>_. 1),
     next_broker_incarnation = 1, plugin_user = ()\<rparr>"

definition demo_host :: "(nat list, nat \<times> nat list, unit) broker_host" where
  "demo_host = \<lparr>host_world = \<lparr>gates = \<lparr>gate_word = (\<lambda>_. 0), gate_drained = (\<lambda>_. False)\<rparr>, tokens = (0, []),
     next_scope_incarnation = 1, next_address = 5,
     outside = \<lparr>registries = Map.empty, revoked_flags = (\<lambda>_. False), strong_counts = (\<lambda>_. 0), user_state = demo_plugin_heap\<rparr>\<rparr>,
     host_brokers = [], host_owned = []\<rparr>"

definition demo_served :: "(nat list, nat \<times> nat list, unit) broker_host" where
  "demo_served = fold broker_step [BO_new, BO_register 0 demo_capability 3] demo_host"

definition demo_registration :: provider_registration where
  "demo_registration = \<lparr>pr_id = CapabilityRegistrationId 1 1, pr_capability = cd_id demo_capability, pr_provider = Some 3,
     pr_gate = 6, pr_core = 5\<rparr>"

lemmas demo_host_defs = demo_host_def demo_plugin_heap_def demo_capability_def demo_registration_def empty_broker_state_def

lemma demo_host_ok: "brokers_ok demo_host"
  by (simp add: brokers_ok_def demo_host_defs entry_of_def)

lemma demo_served_ok: "brokers_ok demo_served"
  unfolding demo_served_def by (rule broker_machine.run_invariant [OF demo_host_ok])

lemma demo_served_owned: "host_owned demo_served = [demo_registration]" "map cb_core (host_brokers demo_served) = [5]"
  by (simp_all add: demo_served_def demo_host_defs broker_new_def broker_register_def core_register_def core_of_def Let_def
      u64_checked_succ_def set_core_def set_word_def on_plugins_def)

text \<open>
  C16. A revoked capability is dead for ever: once the owner of a registration withdrew or dropped it, or its broker
  was dropped, every call through every handle to it is refused as revoked, without running the operation and
  without effect, in every later state, whatever is registered, withdrawn or called in between.
\<close>

theorem revoked_capability_stays_dead:
  assumes "brokers_ok s" and "r \<in> set (host_owned s)" and "s1 = broker_step op s"
    and "r \<notin> set (host_owned s1) \<or> pr_core r \<notin> cb_core ` set (host_brokers s1)"
    and "s2 = fold broker_step ops s1" and "ch_gate h = pr_gate r"
  shows "capability_try_with tk h operation (host_world s2) = (Inr (Inl (capability_revoked h)), host_world s2)"
proof (rule revoked_call)
  have "is_revoked (registration_word (pr_gate r) (host_world s1))"
    using removed_is_revoked [OF assms(1,2)] assms(3,4) by blast
  moreover have "pr_gate r < next_address (host_world s1)"
    using brokers_okD(8) [OF assms(1,2)] step_keeps_revoked [OF assms(1), of op]
    by (auto simp: owner_ok_def keeps_revoked_def assms(3))
  moreover have "keeps_revoked s1 s2" unfolding assms(5) assms(3) by (rule run_keeps_revoked [OF broker_step_ok [OF assms(1)]])
  ultimately show "is_revoked (registration_word (ch_gate h) (host_world s2))" by (simp add: keeps_revoked_def assms(6))
qed

definition demo_capability_handle :: "(nat list, nat) capability_handle" where
  "demo_capability_handle =
     \<lparr>ch_capability = cd_id demo_capability, ch_registration = CapabilityRegistrationId 1 1,
      ch_activation = \<lparr>ai_revision = \<lparr>ri_package_id = PluginPackageId ''a.b'', ri_version = \<lparr>pv_canonical = ''1.0.0'', pv_parsed = 1\<rparr>,
        ri_digest = PackageDigest ''d''\<rparr>, ai_epoch = ProviderSelectionEpoch (ActivationEpoch 1 1)\<rparr>,
      ch_cancellation = [], ch_activity = GateNode 0 None, ch_provider = 3, ch_gate = 6\<rparr>"

theorem revoked_capability_stays_dead_witness:
  "\<exists>s. s = fold broker_step [BO_register 0 demo_capability 4] (broker_step (BO_withdraw 0) demo_served) \<and>
     capability_try_with demo_tokens demo_capability_handle (\<lambda>w. (Inr (1 :: nat), w)) (host_world s) =
       (Inr (Inl (capability_revoked demo_capability_handle)), host_world s)"
proof (rule exI, rule conjI [OF refl])
  have r: "demo_registration \<in> set (host_owned demo_served)" by (simp add: demo_served_owned)
  have gone: "demo_registration \<notin> set (host_owned (broker_step (BO_withdraw 0) demo_served))" by (simp add: demo_served_owned without_def)
  have gate: "ch_gate demo_capability_handle = pr_gate demo_registration"
    by (simp add: demo_capability_handle_def demo_registration_def)
  show "capability_try_with demo_tokens demo_capability_handle (\<lambda>w. (Inr (1 :: nat), w))
      (host_world (fold broker_step [BO_register 0 demo_capability 4] (broker_step (BO_withdraw 0) demo_served))) =
    (Inr (Inl (capability_revoked demo_capability_handle)),
     host_world (fold broker_step [BO_register 0 demo_capability 4] (broker_step (BO_withdraw 0) demo_served)))"
    by (rule revoked_capability_stays_dead [OF demo_served_ok r refl disjI1 [OF gone] refl gate])
qed

text \<open>What a collection of grants holds.\<close>

lemma collect_grants_Inr:
  assumes "collect_grants requested gs m = Inr m'"
  shows "bt_get m' c = Some i \<longrightarrow> bt_get m c = Some i \<or>
    c \<in> requested \<and> (\<exists>g \<in> set gs. cg_capability g = c \<and> cg_registration g = i)"
  using assms
proof (induction gs arbitrary: m)
  case (Cons g gs)
  then show ?case by (fastforce simp: table_simps split: if_splits)
qed simp

lemma core_binding_Inr:
  assumes "core_binding c i d w = Inr (p, g)"
  obtains e where "bt_get (bs_registrations (core_state c)) i = Some e" and "be_capability e = cd_id d"
    and "registration_open (be_gate e) w" and "be_value_type e = contract_type_id (cd_contract d)"
    and "be_provider e = p" and "be_gate e = g"
  using assms by (auto simp: core_binding_def split: option.splits if_splits)

text \<open>
  C17. A handle is what was requested and granted: when the start context of an activation resolves a capability,
  the manifest of the revision requested it, one of the host's grants names it with exactly the registration
  of the handle, the registration is live in that broker and its provider is of the type asked for; the handle
  belongs to the activation of the context and is available.
\<close>

theorem handles_are_requested_and_granted:
  fixes revision :: "('v, 'q) plugin_revision" and a :: "'v plugin_activation_id"
  assumes "effective_grants_new revision gs = Inr eg" and "prepare_bindings b eg w0 = Inr pb"
    and "context_handle tk d (start_context_new a c g pb) w = Inr h"
  shows "cd_id d \<in> request_capability ` set (pm_requested (revision_manifest revision)) \<and>
    (\<exists>gr \<in> set gs. cg_capability gr = cd_id d \<and> cg_registration gr = ch_registration h) \<and>
    (\<exists>e. entry_of w (cb_core b) (ch_registration h) = Some e \<and> be_capability e = cd_id d \<and>
       be_value_type e = contract_type_id (cd_contract d) \<and> be_provider e = ch_provider h \<and> be_gate e = ch_gate h) \<and>
    ch_capability h = cd_id d \<and> ch_activation h = a \<and> capability_available tk h w"
proof -
  obtain m where m: "collect_grants (request_capability ` set (pm_requested (revision_manifest revision))) gs [] = Inr m"
    and eg: "eg_registrations eg = m" using assms(1) by (auto simp: effective_grants_new_def and_then_Inr)
  have pb: "pb_core pb = cb_core b" "pb_registrations pb = m"
    using assms(2) eg by (auto simp: prepare_bindings_def and_then_Inr)
  from assms(3) obtain i k p gate where live: "\<not> token_cancelled tk c (tokens w)" "is_open g (gates w)"
    and i: "bt_get m (cd_id d) = Some i" and k: "broker_cores (plugins w) (cb_core b) = Some k"
    and bind: "(core_binding k i d w :: 'v capability_broker_error + _) = Inr (p, gate)"
    and h: "h = \<lparr>ch_capability = cd_id d, ch_registration = i, ch_activation = a, ch_cancellation = c,
      ch_activity = g, ch_provider = p, ch_gate = gate\<rparr>"
    by (auto simp: context_handle_def start_context_new_def pb and_then_Inr split: if_splits option.splits)
  obtain e where e: "bt_get (bs_registrations (core_state k)) i = Some e" "be_capability e = cd_id d"
    "registration_open (be_gate e) w" "be_value_type e = contract_type_id (cd_contract d)" "be_provider e = p" "be_gate e = gate"
    using core_binding_Inr [OF bind] .
  have "entry_of w (cb_core b) i = Some e" using k e(1) by (simp add: entry_of_def)
  moreover have "capability_available tk h w" using live e(3,6) by (simp add: capability_available_def h)
  ultimately show ?thesis using collect_grants_Inr [OF m, of "cd_id d" i] i e by (auto simp: h)
qed

definition demo_plugin_revision :: "(nat, nat) plugin_revision" where
  "demo_plugin_revision = plugin_revision_new demo_manifest (PackageDigest ''d'')"

definition demo_activation :: "nat plugin_activation_id" where
  "demo_activation = \<lparr>ai_revision = revision_identity demo_plugin_revision, ai_epoch = ProviderSelectionEpoch (ActivationEpoch 1 1)\<rparr>"

definition demo_grants :: "nat effective_grants" where
  "demo_grants = \<lparr>eg_revision = revision_identity demo_plugin_revision, eg_driver = WasmComponent,
     eg_registrations = [(cd_id demo_capability, CapabilityRegistrationId 1 1)]\<rparr>"

lemma demo_granted:
  "effective_grants_new demo_plugin_revision [registration_grant demo_registration] = Inr demo_grants"
  by (simp add: effective_grants_new_def demo_plugin_revision_def plugin_revision_new_def demo_manifest_def registration_grant_def
      demo_registration_def demo_capability_def demo_grants_def)

lemma demo_bound:
  "prepare_bindings (host_brokers demo_served ! 0) demo_grants (host_world demo_served) =
     Inr \<lparr>pb_core = 5, pb_registrations = eg_registrations demo_grants\<rparr>"
  by (simp add: prepare_bindings_def demo_served_def demo_host_defs broker_new_def broker_register_def core_register_def
      core_of_def Let_def u64_checked_succ_def set_core_def set_word_def on_plugins_def demo_grants_def registration_open_def
      bt_get_def)

lemma demo_resolves:
  "context_handle demo_tokens demo_capability
     (start_context_new demo_activation [] (GateNode 0 None) \<lparr>pb_core = 5, pb_registrations = eg_registrations demo_grants\<rparr>)
     (host_world demo_served) =
   Inr \<lparr>ch_capability = cd_id demo_capability, ch_registration = CapabilityRegistrationId 1 1, ch_activation = demo_activation,
        ch_cancellation = [], ch_activity = GateNode 0 None, ch_provider = 3, ch_gate = 6\<rparr>"
  by (simp add: context_handle_def start_context_new_def demo_served_def demo_host_defs broker_new_def broker_register_def
      core_register_def core_of_def core_binding_def Let_def u64_checked_succ_def set_core_def set_word_def on_plugins_def
      demo_grants_def registration_open_def bt_get_def demo_tokens_def is_revoked_def)

theorem handles_are_requested_and_granted_witness:
  "cd_id demo_capability \<in> request_capability ` set (pm_requested demo_manifest) \<and>
   (\<exists>e. entry_of (host_world demo_served) (cb_core (host_brokers demo_served ! 0)) (CapabilityRegistrationId 1 1) = Some e \<and>
      be_value_type e = 7)"
  using handles_are_requested_and_granted [OF demo_granted demo_bound demo_resolves]
  by (auto simp: demo_plugin_revision_def plugin_revision_new_def demo_capability_def)

section \<open>Calls\<close>

lemma world_eqI:
  fixes w :: "('t, 'k, 'z) pwld"
  assumes "gates v = gates w" and "tokens v = tokens w" and "next_scope_incarnation v = next_scope_incarnation w"
    and "next_address v = next_address w" and "outside v = outside w"
  shows "v = w"
  using assms by (cases v; cases w) simp

definition call_left :: "('t, 'v) capability_handle \<Rightarrow> ('t, 'k, 'z) pwld \<Rightarrow> ('t, 'k, 'z) pwld" where
  "call_left h w =
     drop_admission (ch_gate h) (drop_guards (rev (gate_lineage (ch_activity h))) (drop_share (ch_provider h) w))"

definition call_entered :: "('t, 'v) capability_handle \<Rightarrow> ('t, 'k, 'z) pwld \<Rightarrow> ('t, 'k, 'z) pwld \<Rightarrow> bool" where
  "call_entered h w v \<longleftrightarrow>
     (\<forall>a. registration_word a v = registration_word a w + (if a = ch_gate h then 1 else 0)) \<and>
     (\<forall>a. gate_word (gates v) a = gate_word (gates w) a + (if a \<in> set (gate_lineage (ch_activity h)) then 1 else 0)) \<and>
     provider_shares (plugins v) (ch_provider h) = provider_shares (plugins w) (ch_provider h) + 1 \<and> tokens v = tokens w"

definition call_runs :: "('t, 'k) cancellation_api \<Rightarrow> ('t, 'v) capability_handle \<Rightarrow> ('t, 'k, 'z) pwld \<Rightarrow> bool" where
  "call_runs tk h w \<longleftrightarrow>
     capability_available tk h w \<and> active_calls (registration_word (ch_gate h) w) \<noteq> ACTIVE_CALLS \<and>
     (\<forall>a \<in> set (gate_lineage (ch_activity h)). active_calls (gate_word (gates w) a) \<noteq> ACTIVE_CALLS) \<and>
     0 < provider_shares (plugins w) (ch_provider h)"

lemma admit_local_open:
  assumes "n < U64_MODULUS" and "\<not> is_revoked n" and "active_calls n \<noteq> ACTIVE_CALLS"
  shows "\<not> is_revoked (n + 1)"
proof -
  have "n < 2 ^ 63" using assms(1,2) revoked_iff by simp
  moreover have "n \<noteq> 2 ^ 63 - 1" using assms(3) by (auto simp: active_calls_mod ACTIVE_CALLS_def REVOKED_def)
  ultimately show ?thesis by (simp add: revoked_iff)
qed

lemma drop_admission_restores:
  assumes "n < U64_MODULUS" and "registration_word a w = n"
  shows "drop_admission a (set_word a (n + 1) w) = w"
  using assms by (intro world_eqI) (simp_all add: drop_admission_def set_word_def on_plugins_def wrap64_def fun_upd_idem)

text \<open>
  C18. A call through a handle is bracketed: it runs the operation exactly when the handle is available, neither the
  gate of the registration nor a gate of the activation's lineage is full, and the provider exists.
  While it runs each of these gates counts it and it holds a share of the provider; afterwards, be it a return
  or a panic, all are released, and a result that came after a revocation is withheld. A call that does not
  run is an error and leaves everything as it was.
\<close>

theorem capability_calls_are_bracketed:
  fixes w :: "('t, 'k, 'z) pwld"
  assumes "\<And>a. gate_word (gates w) a < U64_MODULUS" and "registration_word (ch_gate h) w < U64_MODULUS"
    and "distinct (gate_lineage (ch_activity h))"
  shows "if call_runs tk h w
    then \<exists>v. call_entered h w v \<and> call_left h v = w \<and>
      capability_try_with tk h operation w =
        (case operation v of
           (Inl panic, v) \<Rightarrow> (Inl panic, call_left h v)
         | (Inr r, v) \<Rightarrow>
             (Inr (if capability_available tk h (drop_share (ch_provider h) v) then Inr r else Inl (capability_revoked h)),
              call_left h v))
    else \<exists>e. capability_try_with tk h operation w = (Inr (Inl e), w)"
proof -
  let ?g = "ch_gate h" and ?act = "ch_activity h" and ?p = "ch_provider h"
  let ?n = "registration_word ?g w"
  define w1 where "w1 = set_word ?g (?n + 1) w"
  obtain adm gs where adm: "admit ?act (gates w) = (adm, gs)" by fastforce
  have d: "distinct ([] @ rev (gate_lineage ?act))" using assms(3) by simp
  note atomic = admit_each_atomic [OF d assms(1) adm [unfolded admit_def]]
  have gates1: "gates w1 = gates w" by (simp add: w1_def set_word_def)
  have restored: "drop_admission ?g (w1\<lparr>gates := gates w\<rparr>) = w"
    using drop_admission_restores [OF assms(2) refl] by (simp add: w1_def set_word_def on_plugins_def)
  have enter: "registration_admit ?g w = (if is_revoked ?n then (Inl Registration_Revoked, w)
      else if active_calls ?n = ACTIVE_CALLS then (Inl Registration_Exhausted, w) else (Inr (), w1))"
    by (simp add: registration_admit_def Let_def is_revoked_def active_calls_def w1_def)
  show ?thesis
  proof (cases "capability_available tk h w \<and> active_calls ?n \<noteq> ACTIVE_CALLS")
    case False
    then show ?thesis
      by (auto simp: call_runs_def capability_try_with_def enter capability_available_def registration_open_iff)
  next
    case True
    then have open_n: "\<not> is_revoked ?n" and avail: "capability_available tk h w"
      by (simp_all add: capability_available_def registration_open_iff)
    have try1: "capability_try_with tk h operation w =
        (case adm of Inl e \<Rightarrow> (Inr (Inl (capability_activity_error h e)), drop_admission ?g (w1\<lparr>gates := gs\<rparr>))
         | Inr guards \<Rightarrow>
           (let w = w1\<lparr>gates := gs\<rparr>; release = (\<lambda>w. drop_admission ?g (drop_guards guards w))
            in if provider_shares (plugins w) ?p = 0 then (Inr (Inl (capability_revoked h)), release w)
               else let w = take_share ?p w in
                 if \<not> capability_available tk h w then (Inr (Inl (capability_revoked h)), release (drop_share ?p w))
                 else case operation w of
                   (Inl panic, w) \<Rightarrow> (Inl panic, release (drop_share ?p w))
                 | (Inr r, w) \<Rightarrow> (let w = drop_share ?p w in
                     if \<not> capability_available tk h w then (Inr (Inl (capability_revoked h)), release w)
                     else (Inr (Inr r), release w))))"
      using True open_n by (simp add: capability_try_with_def enter gates1 adm)
    show ?thesis
    proof (cases adm)
      case (Inl e)
      with atomic have gs: "gs = gates w" and full: "\<exists>a \<in> set (gate_lineage ?act). admit_local (gate_word (gates w) a) = Inl e" by auto
      have "is_open ?act (gates w)" using avail by (simp add: capability_available_def)
      with full have "\<not> call_runs tk h w" by (auto simp: call_runs_def is_open_lineage admit_local_def split: if_splits)
      then show ?thesis using try1 restored by (simp add: Inl gs)
    next
      case (Inr guards)
      with atomic have guards: "guards = rev (gate_lineage ?act)"
        and each: "\<And>a. a \<in> set (gate_lineage ?act) \<Longrightarrow> \<exists>m. admit_local (gate_word (gates w) a) = Inr m"
        and undo: "fold drop_guard guards gs = gates w"
        and words: "\<And>a. gate_word gs a = gate_word (gates w) a + (if a \<in> set (gate_lineage ?act) then 1 else 0)" by auto
      define w2 where "w2 = w1\<lparr>gates := gs\<rparr>"
      define v where "v = take_share ?p w2"
      have release2: "drop_admission ?g (drop_guards guards w2) = w" using restored by (simp add: w2_def drop_guards_def undo)
      have share: "drop_share ?p v = w2"
        by (rule world_eqI) (simp_all add: v_def take_share_def drop_share_def on_plugins_def fun_upd_idem)
      have shares2: "provider_shares (plugins w2) ?p = provider_shares (plugins w) ?p"
        by (simp add: w2_def w1_def set_word_def on_plugins_def)
      have notfull: "\<not> is_revoked (gate_word (gates w) a)" "active_calls (gate_word (gates w) a) \<noteq> ACTIVE_CALLS"
        if "a \<in> set (gate_lineage ?act)" for a using each [OF that] by (auto simp: admit_local_def split: if_splits)
      have openv: "capability_available tk h v"
        using avail admit_local_open [OF assms(1) notfull] admit_local_open [OF assms(2) open_n] True words
        by (auto simp: capability_available_def registration_open_iff is_open_lineage v_def w2_def w1_def take_share_def set_word_def
            on_plugins_def)
      have entered: "call_entered h w v"
        using words by (auto simp: call_entered_def v_def w2_def w1_def take_share_def set_word_def on_plugins_def)
      have left: "call_left h u = drop_admission ?g (drop_guards guards (drop_share ?p u))" for u :: "('t, 'k, 'z) pwld"
        by (simp add: call_left_def guards)
      have runs: "call_runs tk h w \<longleftrightarrow> provider_shares (plugins w) ?p \<noteq> 0"
        using avail True notfull by (auto simp: call_runs_def)
      have try2: "capability_try_with tk h operation w =
          (if provider_shares (plugins w) ?p = 0 then (Inr (Inl (capability_revoked h)), w)
           else case operation v of
             (Inl panic, v) \<Rightarrow> (Inl panic, call_left h v)
           | (Inr r, v) \<Rightarrow> (Inr (if capability_available tk h (drop_share ?p v) then Inr r else Inl (capability_revoked h)),
               call_left h v))"
        unfolding try1 Inr sum.case Let_def w2_def [symmetric] shares2 v_def [symmetric]
        using openv release2 by (auto simp: left split: prod.splits sum.splits)
      show ?thesis using try2 runs entered left [of v] share release2 by (auto split: if_splits)
    qed
  qed
qed

theorem capability_calls_are_bracketed_witness:
  "\<exists>v. call_entered demo_capability_handle (host_world demo_served) v \<and>
     call_left demo_capability_handle v = host_world demo_served"
proof -
  let ?w = "host_world demo_served"
  have w: "gates ?w = gates (host_world demo_host)" "tokens ?w = (0, [])" "registration_word 6 ?w = 0"
    "provider_shares (plugins ?w) 3 = 1"
    by (simp_all add: demo_served_def demo_host_defs broker_new_def broker_register_def core_register_def core_of_def Let_def
        u64_checked_succ_def set_core_def set_word_def on_plugins_def)
  then have runs: "call_runs demo_tokens demo_capability_handle ?w"
    by (simp add: call_runs_def capability_available_def registration_open_def demo_capability_handle_def demo_tokens_def
        demo_host_def is_revoked_def active_calls_def ACTIVE_CALLS_def REVOKED_def)
  have "\<And>a. gate_word (gates ?w) a < U64_MODULUS" "registration_word (ch_gate demo_capability_handle) ?w < U64_MODULUS"
    "distinct (gate_lineage (ch_activity demo_capability_handle))"
    using w by (simp_all add: demo_host_def demo_capability_handle_def)
  from capability_calls_are_bracketed [OF this, of demo_tokens "\<lambda>w. (Inr (), w)"] runs show ?thesis by auto
qed

end
