(* ===== verification/Plugin_Driver.thy ===== *)
theory Plugin_Driver
  imports Plugin_Authority
begin

text \<open>
  Plugin activations (\<open>yah-plugin-host/src/driver/\<close>): the host prepares a driver for a starting component,
  defers its deactivation into the component's effect scope, polls the driver's start future, and completes or
  seals the start of the component.

  Drivers are the caller's code and are a parameter, \<open>driver_api\<close>: every call may panic, under
  \<open>catch_unwind\<close>, and may change the world. Start and deactivation futures are values of the types \<open>'s\<close> and \<open>'e\<close>.
  A \<open>PreparedControl\<close> is a cell of the heap, shared by the guard and the deferred cleanup; a control whose last
  share is gone has no objects left, which is what its observers see of it.
\<close>

section \<open>Drivers\<close>

record ('d, 'p) prepared_objects =
  po_prepared :: "'p option"
  po_driver :: "'d option"

record ('d, 'p, 'y) driver_heap =
  controls :: "address \<Rightarrow> ('d, 'p) prepared_objects"
  driver_user :: 'y

type_synonym ('d, 'p, 't, 'k, 'y) dwld = "('t, 'k, ('d, 'p, 'y) driver_heap) pwld"

datatype driver_activation_error_kind = Activation_Cancelled | Activation_Failed | Activation_Panicked

record driver_activation_error =
  dae_kind :: driver_activation_error_kind
  dae_summary :: string

fun activation_error_kind_debug :: "driver_activation_error_kind \<Rightarrow> string" where
  "activation_error_kind_debug Activation_Cancelled = ''Cancelled''"
| "activation_error_kind_debug Activation_Failed = ''Failed''"
| "activation_error_kind_debug Activation_Panicked = ''Panicked''"

definition activation_error_text :: "driver_activation_error \<Rightarrow> string" where
  "activation_error_text e = ''plugin activation '' @ activation_error_kind_debug (dae_kind e) @ '': '' @ dae_summary e"

definition activation_cancelled :: "string \<Rightarrow> driver_activation_error" where
  "activation_cancelled summary = \<lparr>dae_kind = Activation_Cancelled, dae_summary = summary\<rparr>"

definition activation_failed :: "string \<Rightarrow> driver_activation_error" where
  "activation_failed summary = \<lparr>dae_kind = Activation_Failed, dae_summary = summary\<rparr>"

definition activation_panicked :: "string \<Rightarrow> driver_activation_error" where
  "activation_panicked summary = \<lparr>dae_kind = Activation_Panicked, dae_summary = summary\<rparr>"

definition with_start_drop_panic :: "string \<Rightarrow> driver_activation_error \<Rightarrow> driver_activation_error" where
  "with_start_drop_panic summary e =
     activation_panicked (''activation failed before its future destructor panicked: '' @ dae_summary e
       @ ''; destructor panic: '' @ summary)"

datatype plugin_health = Healthy | Degraded string | Unhealthy string

record ('t, 'v) activation_request =
  rq_id :: "'v plugin_activation_id"
  rq_cancellation :: 't

record ('t, 'v) start_permit =
  sp_id :: "'v plugin_activation_id"
  sp_context :: "('t, 'v) start_context"

text \<open>The error of \<open>prepare\<close>, \<open>deactivate\<close> and \<open>health\<close> is a summary.\<close>

record ('d, 'p, 's, 'e, 'v, 't, 'k, 'y) driver_api =
  driver_metadata :: "'d \<Rightarrow> ('d, 'p, 't, 'k, 'y) dwld \<Rightarrow>
    (driver_kind \<times> 'v plugin_revision_id) caught \<times> ('d, 'p, 't, 'k, 'y) dwld"
  driver_prepare :: "'d \<Rightarrow> ('t, 'v) activation_request \<Rightarrow> ('d, 'p, 't, 'k, 'y) dwld \<Rightarrow>
    (string + 'p) caught \<times> ('d, 'p, 't, 'k, 'y) dwld"
  prepared_id :: "'p \<Rightarrow> ('d, 'p, 't, 'k, 'y) dwld \<Rightarrow> 'v plugin_activation_id caught \<times> ('d, 'p, 't, 'k, 'y) dwld"
  prepared_start :: "'p \<Rightarrow> ('t, 'v) start_permit \<Rightarrow> ('d, 'p, 't, 'k, 'y) dwld \<Rightarrow> 's caught \<times> ('d, 'p, 't, 'k, 'y) dwld"
  poll_start :: "'s \<Rightarrow> ('d, 'p, 't, 'k, 'y) dwld \<Rightarrow>
    (driver_activation_error + unit) option caught \<times> 's \<times> ('d, 'p, 't, 'k, 'y) dwld"
  drop_start :: "'s \<Rightarrow> ('d, 'p, 't, 'k, 'y) dwld \<Rightarrow> unit caught \<times> ('d, 'p, 't, 'k, 'y) dwld"
  prepared_health :: "'p \<Rightarrow> ('d, 'p, 't, 'k, 'y) dwld \<Rightarrow> (string + plugin_health) caught \<times> ('d, 'p, 't, 'k, 'y) dwld"
  prepared_deactivate :: "'p \<Rightarrow> 'v plugin_activation_id \<Rightarrow> ('d, 'p, 't, 'k, 'y) dwld \<Rightarrow> 'e caught \<times> ('d, 'p, 't, 'k, 'y) dwld"
  poll_deactivate :: "'e \<Rightarrow> ('d, 'p, 't, 'k, 'y) dwld \<Rightarrow>
    (string + unit) option caught \<times> 'e \<times> ('d, 'p, 't, 'k, 'y) dwld"
  drop_deactivate :: "'e \<Rightarrow> ('d, 'p, 't, 'k, 'y) dwld \<Rightarrow> unit caught \<times> ('d, 'p, 't, 'k, 'y) dwld"
  drop_prepared :: "'p \<Rightarrow> ('d, 'p, 't, 'k, 'y) dwld \<Rightarrow> unit caught \<times> ('d, 'p, 't, 'k, 'y) dwld"
  drop_driver :: "'d \<Rightarrow> ('d, 'p, 't, 'k, 'y) dwld \<Rightarrow> unit caught \<times> ('d, 'p, 't, 'k, 'y) dwld"

definition driver_panic_summary :: "panic_payload \<Rightarrow> string" where
  "driver_panic_summary p =
     (case payload_message p of Some m \<Rightarrow> m | None \<Rightarrow> ''driver panicked with a non-string payload'')"

definition consume_driver_panic :: "panic_payload \<Rightarrow> string" where
  "consume_driver_panic p =
     (case payload_drop p of
        None \<Rightarrow> driver_panic_summary p
      | Some q \<Rightarrow> driver_panic_summary p @ ''; panic payload destructor panicked: '' @ driver_panic_summary q)"

definition dropped :: "unit caught \<Rightarrow> string option" where
  "dropped r = (case r of Inl p \<Rightarrow> Some (consume_driver_panic p) | Inr _ \<Rightarrow> None)"

section \<open>The control of a prepared activation\<close>

definition control_of :: "address \<Rightarrow> ('d, 'p, 't, 'k, 'y) dwld \<Rightarrow> ('d, 'p) prepared_objects" where
  "control_of a w = controls (plugin_user (plugins w)) a"

definition set_control ::
    "address \<Rightarrow> ('d, 'p) prepared_objects \<Rightarrow> ('d, 'p, 't, 'k, 'y) dwld \<Rightarrow> ('d, 'p, 't, 'k, 'y) dwld" where
  "set_control a c w = on_plugins (plugin_user_update (controls_update (\<lambda>m. m(a := c)))) w"

definition control_new :: "'d \<Rightarrow> ('d, 'p, 't, 'k, 'y) dwld \<Rightarrow> address \<times> ('d, 'p, 't, 'k, 'y) dwld" where
  "control_new d w =
     (next_address w, set_control (next_address w) \<lparr>po_prepared = None, po_driver = Some d\<rparr> (w\<lparr>next_address := next_address w + 1\<rparr>))"

text \<open>
  The objects are under a mutex. While an operation runs on one of them the lock is held, so that nothing else can
  change them: they are afterwards what they were. An operation that asks for the same control again does not
  return, which is not modelled.
\<close>

definition with_object ::
    "(('d, 'p) prepared_objects \<Rightarrow> 'o option) \<Rightarrow> address \<Rightarrow>
     ('o \<Rightarrow> ('d, 'p, 't, 'k, 'y) dwld \<Rightarrow> 'a caught \<times> ('d, 'p, 't, 'k, 'y) dwld) \<Rightarrow> ('d, 'p, 't, 'k, 'y) dwld \<Rightarrow>
     'a option caught \<times> ('d, 'p, 't, 'k, 'y) dwld" where
  "with_object field a operation w =
     (case field (control_of a w) of
        None \<Rightarrow> (Inr None, w)
      | Some x \<Rightarrow> (let (r, v) = operation x w in (map_sum id Some r, set_control a (control_of a w) v)))"

definition with_driver where "with_driver a operation w = with_object po_driver a operation w"
definition with_prepared where "with_prepared a operation w = with_object po_prepared a operation w"

text \<open>\<open>install_prepared\<close> asserts that nothing was installed before.\<close>

definition install_prepared ::
    "address \<Rightarrow> 'p \<Rightarrow> ('d, 'p, 't, 'k, 'y) dwld \<Rightarrow> bool \<times> ('d, 'p, 't, 'k, 'y) dwld" where
  "install_prepared a p w =
     (po_prepared (control_of a w) = None, set_control a ((control_of a w)\<lparr>po_prepared := Some p\<rparr>) w)"

definition join_failures :: "string list \<Rightarrow> string" where
  "join_failures fs = (case fs of [] \<Rightarrow> [] | f # rest \<Rightarrow> concat (f # map (\<lambda>m. ''; '' @ m) rest))"

definition dispose_objects ::
    "('d, 'p, 's, 'e, 'v, 't, 'k, 'y) driver_api \<Rightarrow> ('d, 'p) prepared_objects \<Rightarrow> ('d, 'p, 't, 'k, 'y) dwld \<Rightarrow>
     string option \<times> ('d, 'p, 't, 'k, 'y) dwld" where
  "dispose_objects D objects w =
     (let (f1, w) = (case po_prepared objects of
            None \<Rightarrow> ([], w)
          | Some p \<Rightarrow> (let (r, w) = drop_prepared D p w in
              (case dropped r of None \<Rightarrow> [] | Some m \<Rightarrow> [''prepared activation: '' @ m], w)));
          (f2, w) = (case po_driver objects of
            None \<Rightarrow> ([], w)
          | Some d \<Rightarrow> (let (r, w) = drop_driver D d w in
              (case dropped r of None \<Rightarrow> [] | Some m \<Rightarrow> [''plugin driver: '' @ m], w)));
          failures = f1 @ f2
      in (if failures = [] then None else Some (join_failures failures), w))"

definition control_dispose ::
    "('d, 'p, 's, 'e, 'v, 't, 'k, 'y) driver_api \<Rightarrow> address \<Rightarrow> ('d, 'p, 't, 'k, 'y) dwld \<Rightarrow>
     string option \<times> ('d, 'p, 't, 'k, 'y) dwld" where
  "control_dispose D a w =
     dispose_objects D (control_of a w) (set_control a \<lparr>po_prepared = None, po_driver = None\<rparr> w)"

section \<open>Deactivation\<close>

datatype ('e, 'v) deactivation_state =
    Deactivation_Prepared "'v plugin_activation_id option"
  | Deactivation_Running 'e
  | Deactivation_Complete
  | Deactivation_Transitioning

definition finish_deactivation ::
    "('d, 'p, 's, 'e, 'v, 't, 'k, 'y) driver_api \<Rightarrow> address \<Rightarrow> string list \<Rightarrow> ('d, 'p, 't, 'k, 'y) dwld \<Rightarrow>
     cleanup_result option caught \<times> ('e, 'v) deactivation_state \<times> ('d, 'p, 't, 'k, 'y) dwld" where
  "finish_deactivation D control failures w =
     (let (summary, w) = control_dispose D control w;
          failures = failures @ (case summary of None \<Rightarrow> [] | Some m \<Rightarrow> [''plugin activation control destructor panicked: '' @ m])
      in (Inr (Some (if failures = [] then Inr () else Inl (CleanupError (join_failures failures)))), Deactivation_Complete, w))"

text \<open>One poll of the running driver future.\<close>

definition poll_running_deactivation ::
    "('d, 'p, 's, 'e, 'v, 't, 'k, 'y) driver_api \<Rightarrow> address \<Rightarrow> 'e \<Rightarrow> ('d, 'p, 't, 'k, 'y) dwld \<Rightarrow>
     cleanup_result option caught \<times> ('e, 'v) deactivation_state \<times> ('d, 'p, 't, 'k, 'y) dwld" where
  "poll_running_deactivation D control future w =
     (case poll_deactivate D future w of
        (Inr None, future, w) \<Rightarrow> (Inr None, Deactivation_Running future, w)
      | (polled, future, w) \<Rightarrow>
          (let failures = (case polled of
                 Inl payload \<Rightarrow> [''driver panicked while polling deactivation: '' @ consume_driver_panic payload]
               | Inr (Some (Inl e)) \<Rightarrow> [e]
               | _ \<Rightarrow> []);
               (r, w) = drop_deactivate D future w;
               failures = failures @ (case dropped r of None \<Rightarrow> []
                                      | Some m \<Rightarrow> [''deactivation future destructor panicked: '' @ m])
           in finish_deactivation D control failures w))"

text \<open>\<open>DriverDeactivation::poll\<close>: constructing the driver's future is followed by its first poll.\<close>

definition deactivation_poll ::
    "('d, 'p, 's, 'e, 'v, 't, 'k, 'y) driver_api \<Rightarrow> address \<Rightarrow> ('e, 'v) deactivation_state \<Rightarrow> ('d, 'p, 't, 'k, 'y) dwld \<Rightarrow>
     cleanup_result option caught \<times> ('e, 'v) deactivation_state \<times> ('d, 'p, 't, 'k, 'y) dwld" where
  "deactivation_poll D control st w =
     (case st of
        Deactivation_Prepared None \<Rightarrow>
          (Inl (Payload (Some ''prepared deactivation owns one identity'') None), Deactivation_Transitioning, w)
      | Deactivation_Prepared (Some i) \<Rightarrow>
          (case with_prepared control (\<lambda>p. prepared_deactivate D p i) w of
             (Inr None, w) \<Rightarrow> finish_deactivation D control [''prepared plugin control was already released''] w
           | (Inl payload, w) \<Rightarrow>
               finish_deactivation D control
                 [''driver panicked while constructing deactivation: '' @ consume_driver_panic payload] w
           | (Inr (Some future), w) \<Rightarrow> poll_running_deactivation D control future w)
      | Deactivation_Running future \<Rightarrow> poll_running_deactivation D control future w
      | Deactivation_Complete \<Rightarrow>
          (Inl (Payload (Some ''completed deactivation was polled again'') None), Deactivation_Transitioning, w)
      | Deactivation_Transitioning \<Rightarrow>
          (Inl (Payload (Some ''deactivation state transitions are not reentrant'') None), Deactivation_Transitioning, w))"

definition deactivation_drop ::
    "('d, 'p, 's, 'e, 'v, 't, 'k, 'y) driver_api \<Rightarrow> address \<Rightarrow> ('e, 'v) deactivation_state \<Rightarrow> ('d, 'p, 't, 'k, 'y) dwld \<Rightarrow>
     unit caught \<times> ('d, 'p, 't, 'k, 'y) dwld" where
  "deactivation_drop D control st w =
     (let w = (case st of Deactivation_Running future \<Rightarrow> snd (drop_deactivate D future w) | _ \<Rightarrow> w)
      in (Inr (), snd (control_dispose D control w)))"

text \<open>The cleanups of a component with plugins: the deactivation of a control, or any other.\<close>

datatype ('v, 'u) plugin_cleanup = Deactivate_Plugin address "'v plugin_activation_id" | Other_Cleanup 'u
datatype ('e, 'v, 'f) plugin_future = Deactivation_Future address "('e, 'v) deactivation_state" | Other_Future 'f

type_synonym ('d, 'p, 't, 'y) dheap = "('t, ('d, 'p, 'y) driver_heap plugin_heap) service_heap"

definition plugin_callbacks ::
    "('d, 'p, 's, 'e, 'v, 't, 'k, 'y) driver_api \<Rightarrow> ('u, 'f, 'k, ('d, 'p, 't, 'y) dheap) callback_api \<Rightarrow>
     (('v, 'u) plugin_cleanup, ('e, 'v, 'f) plugin_future, 'k, ('d, 'p, 't, 'y) dheap) callback_api" where
  "plugin_callbacks D ub =
     \<lparr>call_sync = (\<lambda>c w. case c of
          Deactivate_Plugin a i \<Rightarrow> (Inl (Payload None None), w)
        | Other_Cleanup u \<Rightarrow> call_sync ub u w),
      call_async = (\<lambda>c w. case c of
          Deactivate_Plugin a i \<Rightarrow> (Inr (Deactivation_Future a (Deactivation_Prepared (Some i))), w)
        | Other_Cleanup u \<Rightarrow> (let (r, w) = call_async ub u w in (map_sum id Other_Future r, w))),
      poll_future = (\<lambda>f w. case f of
          Deactivation_Future a st \<Rightarrow>
            (let (r, st, w) = deactivation_poll D a st w in (r, Deactivation_Future a st, w))
        | Other_Future g \<Rightarrow> (let (r, g, w) = poll_future ub g w in (r, Other_Future g, w))),
      drop_future = (\<lambda>f w. case f of
          Deactivation_Future a st \<Rightarrow> deactivation_drop D a st w
        | Other_Future g \<Rightarrow> drop_future ub g w)\<rparr>"

end
