(* ===== verification/Plugin_Activation.thy ===== *)
theory Plugin_Activation
  imports Plugin_Driver
begin

text \<open>
  The guard of one plugin activation (\<open>yah-plugin-host/src/driver/activation.rs\<close>, \<open>health.rs\<close>). \<open>guard_prepare\<close> builds it
  for a starting component; it owns the component's slot until it is released or dropped. A poll of \<open>activate\<close>
  is one call of \<open>guard_poll_activate\<close>; the other operations are those of the slot, with the driver's start future
  destroyed once the activation is sealed.

  What the operations return is an \<open>attempt\<close>: \<open>Panic\<close> stands for a failed \<open>expect\<close>, assertion or
  \<open>unreachable\<close>.
\<close>

section \<open>Errors\<close>

fun driver_kind_debug :: "driver_kind \<Rightarrow> string" where
  "driver_kind_debug BuiltinRust = ''BuiltinRust''"
| "driver_kind_debug WasmComponent = ''WasmComponent''"
| "driver_kind_debug NodeProcess = ''NodeProcess''"
| "driver_kind_debug PythonProcess = ''PythonProcess''"

datatype 'v host_activation_error =
    Host_Composition component_slot_error
  | Host_Capability "'v capability_broker_error"
  | Host_Driver string
  | Host_DriverPanicked string
  | PreparedIdentityMismatch "'v plugin_activation_id" "'v plugin_activation_id"
  | DriverRevisionMismatch "'v plugin_revision_id" "'v plugin_revision_id"
  | DriverKindMismatch driver_kind driver_kind
  | DriverControlDropPanicked string

fun host_activation_error_text :: "'v host_activation_error \<Rightarrow> string" where
  "host_activation_error_text (Host_Composition e) = slot_error_text e"
| "host_activation_error_text (Host_Capability e) = ''capability grants were rejected: '' @ broker_error_text e"
| "host_activation_error_text (Host_Driver e) = ''driver rejected activation preparation: '' @ e"
| "host_activation_error_text (Host_DriverPanicked summary) =
     ''driver panicked while preparing activation: '' @ summary"
| "host_activation_error_text (PreparedIdentityMismatch expected received) =
     ''prepared activation identity '' @ activation_id_text received @ '' does not match requested ''
       @ activation_id_text expected"
| "host_activation_error_text (DriverRevisionMismatch expected received) =
     ''driver revision '' @ plugin_revision_id_text received @ '' does not match host-selected revision ''
       @ plugin_revision_id_text expected"
| "host_activation_error_text (DriverKindMismatch expected received) =
     ''driver lane '' @ driver_kind_debug received @ '' does not match host-selected lane '' @ driver_kind_debug expected"
| "host_activation_error_text (DriverControlDropPanicked summary) =
     ''rejected plugin driver control panicked while dropping: '' @ summary"

type_synonym stop_result = "component_slot_error + reconcile_outcome"

datatype 'v plugin_start_error =
    Start_Driver "'v plugin_activation_id" driver_activation_error stop_result
  | Start_Superseded "'v plugin_activation_id" "reconcile_outcome option"
  | Start_Composition "'v plugin_activation_id" component_slot_error "stop_result option"

fun start_error_text :: "'v plugin_start_error \<Rightarrow> string" where
  "start_error_text (Start_Driver i failure _) =
     ''plugin activation '' @ activation_id_text i @ '' failed: '' @ activation_error_text failure"
| "start_error_text (Start_Superseded i _) =
     ''plugin activation '' @ activation_id_text i @ '' was superseded before readiness''"
| "start_error_text (Start_Composition i e _) =
     ''composition rejected plugin activation '' @ activation_id_text i @ '': '' @ slot_error_text e"

datatype 'v plugin_health_error =
    Health_Inactive "'v plugin_activation_id"
  | Health_Driver "'v plugin_activation_id" string
  | Health_DriverPanicked "'v plugin_activation_id" string

fun health_error_text :: "'v plugin_health_error \<Rightarrow> string" where
  "health_error_text (Health_Inactive i) = ''plugin activation '' @ activation_id_text i @ '' is no longer active''"
| "health_error_text (Health_Driver i e) =
     ''plugin activation '' @ activation_id_text i @ '' health is unknown: '' @ e"
| "health_error_text (Health_DriverPanicked i summary) =
     ''plugin activation '' @ activation_id_text i @ '' health probe panicked: '' @ summary"

section \<open>Handles and health\<close>

record ('t, 'v) activation_handle =
  ah_id :: "'v plugin_activation_id"
  ah_kind :: driver_kind
  ah_cancellation :: 't
  ah_control :: address

text \<open>A control that was freed has no objects, so that a failed \<open>upgrade\<close> and an empty control read alike.\<close>

definition activation_health where
  "activation_health tk D h w =
     (if token_cancelled tk (ah_cancellation h) (tokens w) then (Inl (Health_Inactive (ah_id h)), w)
      else let (observed, w) = with_prepared (ah_control h) (prepared_health D) w;
               result = (case observed of
                   Inr (Some (Inr health)) \<Rightarrow> Inr health
                 | Inr (Some (Inl e)) \<Rightarrow> Inl (Health_Driver (ah_id h) e)
                 | Inr None \<Rightarrow> Inl (Health_Inactive (ah_id h))
                 | Inl payload \<Rightarrow> Inl (Health_DriverPanicked (ah_id h) (consume_driver_panic payload)))
           in (if token_cancelled tk (ah_cancellation h) (tokens w) then Inl (Health_Inactive (ah_id h)) else result, w))"

section \<open>The guard\<close>

datatype ('s, 'v, 't) start_state =
    Start_Prepared "('t, 'v) start_permit option"
  | Start_Running 's
  | Start_Complete "'v plugin_start_error + ('t, 'v) activation_handle"
  | Start_Transitioning

type_synonym ('u, 'f, 'e, 'v, 't) plugin_slot =
  "(('v, 'u) plugin_cleanup, ('e, 'v, 'f) plugin_future, 't) component_slot"

record ('u, 'f, 's, 'e, 'v, 't) activation_guard =
  hg_slot :: "('u, 'f, 'e, 'v, 't) plugin_slot option"
  hg_id :: "'v plugin_activation_id"
  hg_kind :: driver_kind
  hg_cancellation :: 't
  hg_control :: address
  hg_start :: "('s, 'v, 't) start_state"

definition live_kind :: "('u, 'f, 't) component_slot \<Rightarrow> component_state_kind" where
  "live_kind s = (case slot_mounted s of None \<Rightarrow> K_Removed | Some m \<Rightarrow> rc_kind (mounted_component m))"

definition reject_control where
  "reject_control D control e w =
     (case control_dispose D control w of
        (None, w) \<Rightarrow> (e, w)
      | (Some summary, w) \<Rightarrow>
          (DriverControlDropPanicked (host_activation_error_text e @ ''; control destructor panic: '' @ summary), w))"

definition rejecting where
  "rejecting D control e s w = (let (e, w) = reject_control D control e w in (Rejected e, s, w))"

definition released_driver :: "'v host_activation_error" where
  "released_driver = Host_DriverPanicked ''plugin driver control was already released''"

text \<open>\<open>prepare\<close> from the admission of the deactivation on.\<close>

definition prepare_admitted where
  "prepare_admitted D epoch i kind cancellation activity bindings control s w =
     (case slot_defer_async epoch (''deactivate plugin '' @ activation_id_text i) (Deactivate_Plugin control i) s w of
        (Rejected e, s, w) \<Rightarrow> rejecting D control (Host_Composition e) s w
      | (Panic p, s, w) \<Rightarrow> (Panic p, s, w)
      | (Accepted _, s, w) \<Rightarrow>
          (Accepted \<lparr>hg_slot = Some s, hg_id = i, hg_kind = kind, hg_cancellation = cancellation, hg_control = control,
             hg_start = Start_Prepared (Some \<lparr>sp_id = i, sp_context = start_context_new i cancellation activity bindings\<rparr>)\<rparr>,
           s, w))"

text \<open>\<open>prepare\<close> from the driver's own preparation on.\<close>

definition prepare_driver where
  "prepare_driver D epoch kind revision cancellation activity bindings control s w =
     (let i = \<lparr>ai_revision = revision, ai_epoch = epoch\<rparr> in
      case with_driver control (\<lambda>d. driver_prepare D d \<lparr>rq_id = i, rq_cancellation = cancellation\<rparr>) w of
        (Inl payload, w) \<Rightarrow> rejecting D control (Host_DriverPanicked (consume_driver_panic payload)) s w
      | (Inr None, w) \<Rightarrow> rejecting D control released_driver s w
      | (Inr (Some (Inl e)), w) \<Rightarrow> rejecting D control (Host_Driver e) s w
      | (Inr (Some (Inr p)), w) \<Rightarrow>
          (let (fresh, w) = install_prepared control p w in
           if \<not> fresh then (Panic ''assertion failed: objects.prepared.replace(prepared).is_none()'', s, w)
           else case with_prepared control (prepared_id D) w of
             (Inl payload, w) \<Rightarrow> rejecting D control (Host_DriverPanicked (consume_driver_panic payload)) s w
           | (Inr None, w) \<Rightarrow>
               rejecting D control (Host_DriverPanicked ''prepared plugin control was already released'') s w
           | (Inr (Some received), w) \<Rightarrow>
               if received \<noteq> i then rejecting D control (PreparedIdentityMismatch i received) s w
               else prepare_admitted D epoch i kind cancellation activity bindings control s w))"

text \<open>
  \<open>HostPluginActivation::prepare\<close>. The observers \<open>cancellation\<close> and \<open>activity\<close> of the slot read the same resources and
  refuse alike.
\<close>

definition guard_prepare ::
    "('d, 'p, 's, 'e, 'v, 't, 'k, 'y) driver_api \<Rightarrow> provider_selection_epoch \<Rightarrow> capability_broker \<Rightarrow>
     'v effective_grants \<Rightarrow> 'd \<Rightarrow> ('u, 'f, 'e, 'v, 't) plugin_slot \<Rightarrow> ('d, 'p, 't, 'k, 'y) dwld \<Rightarrow>
     ('v host_activation_error, ('u, 'f, 's, 'e, 'v, 't) activation_guard) attempt \<times> ('u, 'f, 'e, 'v, 't) plugin_slot
       \<times> ('d, 'p, 't, 'k, 'y) dwld" where
  "guard_prepare D epoch broker grants driver s w =
     (let (control, w) = control_new driver w in
      if live_kind s \<noteq> K_Starting
      then rejecting D control
             (Host_Composition (Slot_Reconcile (InvalidState ''prepare a plugin activation'' (live_kind s)))) s w
      else case slot_resources epoch s w of
        (Rejected e, s, w) \<Rightarrow> rejecting D control (Host_Composition e) s w
      | (Panic p, s, w) \<Rightarrow> (Panic p, s, w)
      | (Accepted r, s, w) \<Rightarrow>
          (case with_driver control (driver_metadata D) w of
             (Inl payload, w) \<Rightarrow> rejecting D control (Host_DriverPanicked (consume_driver_panic payload)) s w
           | (Inr None, w) \<Rightarrow> rejecting D control released_driver s w
           | (Inr (Some (kind, revision)), w) \<Rightarrow>
               if revision \<noteq> eg_revision grants
               then rejecting D control (DriverRevisionMismatch (eg_revision grants) revision) s w
               else if kind \<noteq> eg_driver grants
               then rejecting D control (DriverKindMismatch (eg_driver grants) kind) s w
               else case prepare_bindings broker grants w of
                 Inl e \<Rightarrow> rejecting D control (Host_Capability e) s w
               | Inr bindings \<Rightarrow>
                   prepare_driver D epoch kind revision (es_cancellation (ar_effects r)) (es_activity (ar_effects r))
                     bindings control s w))"

section \<open>Sealing\<close>

definition hg_epoch where "hg_epoch g = ai_epoch (hg_id g)"

definition guard_cancelled where
  "guard_cancelled tk g w \<longleftrightarrow> token_cancelled tk (hg_cancellation g) (tokens w)"

text \<open>\<open>slot_mut\<close> and the operation on the slot it gives out.\<close>

definition with_slot where
  "with_slot operation g w =
     (case hg_slot g of
        None \<Rightarrow> (Panic ''an unreleased activation guard owns its component slot'', g, w)
      | Some s \<Rightarrow> (let (r, s, w) = operation s w in (r, g\<lparr>hg_slot := Some s\<rparr>, w)))"

definition guard_state_error where
  "guard_state_error operation g =
     Slot_Reconcile (InvalidState operation (case hg_slot g of None \<Rightarrow> K_Removed | Some s \<Rightarrow> live_kind s))"

definition already_stopping_error where
  "already_stopping_error g = guard_state_error ''fail an already cancelled plugin activation'' g"

definition release_before_completion_error where
  "release_before_completion_error g = guard_state_error ''release an unsettled plugin activation'' g"

definition destructor_panicked :: "string \<Rightarrow> driver_activation_error" where
  "destructor_panicked summary = activation_panicked (''cancelled activation future destructor panicked: '' @ summary)"

definition drop_start_future where
  "drop_start_future D f w = (let (r, w) = drop_start D f w in (dropped r, w))"

type_synonym ('u, 'f, 's, 'e, 'v, 'd, 'p, 't, 'k, 'y, 'x, 'a) guarding =
  "('x, 'a) attempt \<times> ('u, 'f, 's, 'e, 'v, 't) activation_guard \<times> ('d, 'p, 't, 'k, 'y) dwld"

definition discard_after_seal ::
    "('d, 'p, 's, 'e, 'v, 't, 'k, 'y) driver_api \<Rightarrow> ('u, 'f, 's, 'e, 'v, 't) activation_guard \<Rightarrow>
     ('d, 'p, 't, 'k, 'y) dwld \<Rightarrow> ('u, 'f, 's, 'e, 'v, 'd, 'p, 't, 'k, 'y, unit, unit) guarding" where
  "discard_after_seal D g w =
     (case hg_start g of
        Start_Prepared _ \<Rightarrow> (Accepted (), g\<lparr>hg_start := Start_Complete (Inl (Start_Superseded (hg_id g) None))\<rparr>, w)
      | Start_Running f \<Rightarrow>
          (case drop_start_future D f w of
             (Some summary, w) \<Rightarrow>
               (Accepted (), g\<lparr>hg_start := Start_Complete (Inl (Start_Driver (hg_id g) (destructor_panicked summary)
                  (Inl (already_stopping_error g))))\<rparr>, w)
           | (None, w) \<Rightarrow> (Accepted (), g\<lparr>hg_start := Start_Complete (Inl (Start_Superseded (hg_id g) None))\<rparr>, w))
      | Start_Complete (Inr _) \<Rightarrow>
          (Accepted (), g\<lparr>hg_start := Start_Complete (Inl (Start_Superseded (hg_id g) None))\<rparr>, w)
      | Start_Complete (Inl e) \<Rightarrow> (Accepted (), g, w)
      | Start_Transitioning \<Rightarrow> (Panic ''activation state transitions are not reentrant'', g, w))"

section \<open>The poll of an activation\<close>

text \<open>A settled start is kept in the guard and returned. A poll is ready or pending, so that it is never \<open>Rejected\<close>.\<close>

definition settle_start ::
    "'v plugin_start_error + ('t, 'v) activation_handle \<Rightarrow> ('u, 'f, 's, 'e, 'v, 't) activation_guard \<Rightarrow>
     ('d, 'p, 't, 'k, 'y) dwld \<Rightarrow>
     ('u, 'f, 's, 'e, 'v, 'd, 'p, 't, 'k, 'y, unit, ('v plugin_start_error + ('t, 'v) activation_handle) option) guarding" where
  "settle_start result g w = (Accepted (Some result), g\<lparr>hg_start := Start_Complete result\<rparr>, w)"

definition seal_driver_failure where
  "seal_driver_failure tk failure g w =
     with_slot (slot_fail_activation tk (hg_epoch g) (activation_error_text failure)) g w"

text \<open>\<open>complete_driver_failure\<close>: the slot is sealed, then the future is destroyed, then the failure is stored.\<close>

definition complete_driver_failure where
  "complete_driver_failure tk D failure future g w =
     (case seal_driver_failure tk failure g w of
        (Panic p, g, w) \<Rightarrow> (Panic p, g\<lparr>hg_start := Start_Transitioning\<rparr>, w)
      | (stop, g, w) \<Rightarrow>
          (let (drop_panic, w) = (case future of None \<Rightarrow> (None, w) | Some f \<Rightarrow> drop_start_future D f w);
               failure = (case drop_panic of None \<Rightarrow> failure | Some summary \<Rightarrow> with_start_drop_panic summary failure);
               stop = (case stop of Accepted out \<Rightarrow> Inr out | Rejected e \<Rightarrow> Inl e)
           in settle_start (Inl (Start_Driver (hg_id g) failure stop)) g w))"

definition complete_ready where
  "complete_ready tk core g w =
     (case with_slot (slot_complete_start tk core (hg_epoch g)) g w of
        (Panic p, g, w) \<Rightarrow> (Panic p, g\<lparr>hg_start := Start_Transitioning\<rparr>, w)
      | (Accepted (Outcome_Active _), g, w) \<Rightarrow>
          settle_start (Inr \<lparr>ah_id = hg_id g, ah_kind = hg_kind g, ah_cancellation = hg_cancellation g,
            ah_control = hg_control g\<rparr>) g w
      | (Accepted stop, g, w) \<Rightarrow> settle_start (Inl (Start_Superseded (hg_id g) (Some stop))) g w
      | (Rejected e, g, w) \<Rightarrow>
          (case with_slot (slot_fail_activation tk (hg_epoch g)
                 (''composition rejected driver readiness: '' @ slot_error_text e)) g w of
             (Panic p, g, w) \<Rightarrow> (Panic p, g\<lparr>hg_start := Start_Transitioning\<rparr>, w)
           | (Accepted stop, g, w) \<Rightarrow> settle_start (Inl (Start_Composition (hg_id g) e (Some (Inr stop)))) g w
           | (Rejected f, g, w) \<Rightarrow> settle_start (Inl (Start_Composition (hg_id g) e (Some (Inl f)))) g w))"

text \<open>The loop body on a running future.\<close>

definition poll_running_start where
  "poll_running_start tk D core f g w =
     (if guard_cancelled tk g w
      then case drop_start_future D f w of
        (drop_panic, w) \<Rightarrow>
          settle_start (Inl (Start_Driver (hg_id g)
            (case drop_panic of None \<Rightarrow> activation_cancelled ''activation was superseded''
             | Some summary \<Rightarrow> destructor_panicked summary)
            (Inl (already_stopping_error g)))) g w
      else case poll_start D f w of
        (Inr None, f, w) \<Rightarrow> (Accepted None, g\<lparr>hg_start := Start_Running f\<rparr>, w)
      | (Inr (Some (Inr _)), f, w) \<Rightarrow>
          (case drop_start_future D f w of
             (Some summary, w) \<Rightarrow>
               complete_driver_failure tk D
                 (activation_panicked (''activation future destructor panicked: '' @ summary)) None g w
           | (None, w) \<Rightarrow> complete_ready tk core g w)
      | (Inr (Some (Inl failure)), f, w) \<Rightarrow> complete_driver_failure tk D failure (Some f) g w
      | (Inl payload, f, w) \<Rightarrow>
          complete_driver_failure tk D (activation_panicked (consume_driver_panic payload)) (Some f) g w)"

text \<open>\<open>poll_activate\<close>: constructing the driver's future is followed by its first poll.\<close>

definition guard_poll_activate where
  "guard_poll_activate tk D core g w =
     (case hg_start g of
        Start_Prepared permit \<Rightarrow>
          if guard_cancelled tk g w then settle_start (Inl (Start_Superseded (hg_id g) None)) g w
          else (case permit of
             None \<Rightarrow> (Panic ''prepared activation owns one start permit'', g\<lparr>hg_start := Start_Transitioning\<rparr>, w)
           | Some permit \<Rightarrow>
               (case with_prepared (hg_control g) (\<lambda>p. prepared_start D p permit) w of
                  (Inr (Some f), w) \<Rightarrow> poll_running_start tk D core f g w
                | (Inr None, w) \<Rightarrow>
                    complete_driver_failure tk D
                      (activation_failed ''prepared plugin control was released before activation'') None g w
                | (Inl payload, w) \<Rightarrow>
                    complete_driver_failure tk D (activation_panicked (consume_driver_panic payload)) None g w))
      | Start_Running f \<Rightarrow> poll_running_start tk D core f g w
      | Start_Complete result \<Rightarrow> (Accepted (Some result), g, w)
      | Start_Transitioning \<Rightarrow> (Panic ''activation state transitions are not reentrant'', g, w))"

section \<open>The operations of the slot, through the guard\<close>

text \<open>Returns what \<open>r\<close> returned, once the start was discarded.\<close>

definition then_discard where
  "then_discard D r g w =
     (case discard_after_seal D g w of
        (Panic p, g, w) \<Rightarrow> (Panic p, g, w)
      | (_, g, w) \<Rightarrow> (r, g, w))"

definition guard_reconcile where
  "guard_reconcile tk D core desired g n w =
     (case hg_slot g of
        None \<Rightarrow> (Panic ''an unreleased activation guard owns its component slot'', g, n, w)
      | Some s \<Rightarrow>
          (let (r, s, n, w) = slot_reconcile tk core desired s n w;
               g = g\<lparr>hg_slot := Some s\<rparr>
           in case r of
                Accepted _ \<Rightarrow>
                  (if guard_cancelled tk g w then (case then_discard D r g w of (x, g, w) \<Rightarrow> (x, g, n, w))
                   else (r, g, n, w))
              | _ \<Rightarrow> (r, g, n, w)))"

definition guard_fail_activation where
  "guard_fail_activation tk D summary g w =
     (case with_slot (slot_fail_activation tk (hg_epoch g) summary) g w of
        (Accepted out, g, w) \<Rightarrow> then_discard D (Accepted out) g w
      | (r, g, w) \<Rightarrow> (r, g, w))"

text \<open>
  One poll of \<open>finish_stop\<close>. The first poll of the future looks at the token and discards the start; a later
  poll of the same future resumes the poll of the slot.
\<close>

definition guard_poll_finish_stop where
  "guard_poll_finish_stop tk D ub resumed g w =
     (let (start, g, w) = (if \<not> resumed \<and> guard_cancelled tk g w then discard_after_seal D g w else (Accepted (), g, w))
      in case start of
           Panic p \<Rightarrow> (Some (Panic p), g, w)
         | _ \<Rightarrow>
             (case hg_slot g of
                None \<Rightarrow> (Some (Panic ''an unreleased activation guard owns its component slot''), g, w)
              | Some s \<Rightarrow>
                  (let (r, s, w) = slot_poll_finish_stop tk (plugin_callbacks D ub) (hg_epoch g) s w
                   in (r, g\<lparr>hg_slot := Some s\<rparr>, w))))"

definition guard_abandon where
  "guard_abandon tk g w = with_slot (slot_abandon tk (hg_epoch g)) g w"

section \<open>Release and drop\<close>

text \<open>
  \<open>Drop\<close> of a guard that still owns its slot: the failure is recorded under \<open>catch_unwind\<close>, so that a panic of the
  slot would be swallowed, and the start is discarded.
\<close>

definition guard_drop where
  "guard_drop tk D g w =
     (if hg_slot g = None then (Accepted (), g, w)
      else let (g, w) = (if guard_cancelled tk g w then (g, w)
             else snd (with_slot (slot_fail_activation tk (hg_epoch g)
                    ''plugin activation owner dropped before controlled release'') g w))
           in discard_after_seal D g w)"

text \<open>
  \<open>release_active\<close> consumes the guard. With a completed start the slot and the handle are returned; otherwise the guard
  is dropped on the way out. The guard returned shows the slot its lender regains.
\<close>

definition release_active where
  "release_active tk D g w =
     (let result = (case hg_start g of
            Start_Complete result \<Rightarrow> result
          | _ \<Rightarrow> Inl (Start_Composition (hg_id g) (release_before_completion_error g) None))
      in case result of
           Inr handle \<Rightarrow>
             (if hg_slot g = None then (Panic ''an unreleased activation guard owns its component slot'', g, w)
              else (Accepted handle, g, w))
         | Inl e \<Rightarrow>
             (case guard_drop tk D g w of
                (Panic p, g, w) \<Rightarrow> (Panic p, g, w)
              | (_, g, w) \<Rightarrow> (Rejected e, g, w)))"

end
