(* ===== verification/Plugin_Guard.thy ===== *)
theory Plugin_Guard
  imports Plugin_Activation
begin

text \<open>
  What the guard of a plugin activation promises: preparation defers the deactivation before anything can start
  and leaves the slot alone when it fails; no operation of the guard panics, whatever the driver does; a start
  that does not become ready, and a guard that is dropped, leave no live activation behind.
\<close>

section \<open>The slot behind a guard\<close>

text \<open>An activation is live while it is starting or active.\<close>

definition live :: "('u, 'f, 't) component_slot \<Rightarrow> bool" where
  "live s \<longleftrightarrow> live_kind s = K_Starting \<or> live_kind s = K_Active"

definition live_at :: "provider_selection_epoch \<Rightarrow> ('u, 'f, 't) component_slot \<Rightarrow> bool" where
  "live_at e s \<longleftrightarrow> live s \<and> (\<exists>m. slot_mounted s = Some m \<and> current_epoch (mounted_component m) = Some e)"

text \<open>A live component is of the enabled revision, so that the slot lets its owner fail it.\<close>

definition hosted :: "('u, 'f, 't) component_slot \<Rightarrow> bool" where
  "hosted s \<longleftrightarrow> (live s \<longrightarrow> (\<exists>a. active_assignments s = Inr a))"

lemma live_needs_mounted: "live s \<Longrightarrow> slot_mounted s \<noteq> None"
  by (cases "slot_mounted s") (simp_all add: live_def live_kind_def)

lemma active_with_component:
  "slot_mounted s = Some m \<Longrightarrow> active_assignments (with_component c s) = active_assignments s"
  by (auto simp: active_assignments_def with_component_def slot_desired_revision_def
      split: option.splits desired_component_state.splits)

lemma live_with_component:
  "slot_mounted s = Some m \<Longrightarrow> live (with_component c s) \<longleftrightarrow> rc_kind c = K_Starting \<or> rc_kind c = K_Active"
  by (simp add: live_def live_kind_def with_component_def)

lemma with_same_component: "slot_mounted s = Some m \<Longrightarrow> with_component (mounted_component m) s = s"
  by (cases s; cases m) (simp add: with_component_def)

lemma live_mounted: "slot_mounted s = Some m \<Longrightarrow>
    live s \<longleftrightarrow> rc_kind (mounted_component m) = K_Starting \<or> rc_kind (mounted_component m) = K_Active"
  by (simp add: live_def live_kind_def)

lemma on_mounted_hosted:
  assumes "hosted s" and "on_mounted operation s w = (res, s', w')"
  shows "hosted s'"
  using assms(2)
proof (cases rule: on_mounted_cases)
  case refused
  with assms(1) show ?thesis by simp
next
  case ran
  then show ?thesis by (auto simp: hosted_def active_with_component)
qed

lemma reconcile_hosted:
  assumes "slot_ok s" and "hosted s" and "slot_reconcile tk core d s n w = (res, s', n', w')"
  shows "hosted s'"
  using assms(1,3)
proof (cases rule: slot_reconcile_cases)
  case refused
  with assms(2) show ?thesis by simp
next
  case (accepted s1 d1 out)
  have "\<exists>a. active_assignments s' = Inr a" if l: "live s'"
  proof -
    obtain m where m: "slot_mounted s' = Some m" using live_needs_mounted [OF l] by auto
    moreover from l have "rc_kind (mounted_component m) \<noteq> K_Stopping" by (auto simp: live_mounted [OF m])
    ultimately obtain g r a where "d1 = Desired_Enabled g r a" "mounted_id m = rev_id r"
      using accepted(7) by (auto simp: converging_def)
    with accepted(5) m show ?thesis by (simp add: active_assignments_def)
  qed
  then show ?thesis by (simp add: hosted_def)
qed

lemma slot_reconcile_ok:
  assumes "slot_ok s" and "slot_reconcile tk core d s n w = (res, s', n', w')"
  shows "slot_ok s'" and "\<not> is_panic res"
  using assms by (cases rule: slot_reconcile_cases; simp)+

text \<open>Stopping never makes a component live.\<close>

lemma target_not_live: "state_kind (target_state t) \<noteq> K_Starting" "state_kind (target_state t) \<noteq> K_Active"
  by (cases t; simp)+

lemma record_completion_frame:
  assumes "record_completion tk i d s w = (rec, s', w')" and "live s'"
  shows "live s" and "active_assignments s' = active_assignments s"
proof -
  have "(slot_mounted s' = slot_mounted s \<or> slot_mounted s' = None) \<and> slot_desired s' = slot_desired s"
    using assms(1) by (auto simp: record_completion_def Let_def split: if_splits)
  moreover note live_needs_mounted [OF assms(2)]
  ultimately have f: "slot_mounted s' = slot_mounted s" "slot_desired s' = slot_desired s" "slot_mounted s \<noteq> None" by auto
  with assms(2) show "live s" by (simp add: live_def live_kind_def)
  from f show "active_assignments s' = active_assignments s"
    by (auto simp: active_assignments_def slot_desired_revision_def split: option.splits desired_component_state.splits)
qed

lemma stopped_not_hosted:
  assumes "slot_mounted s = Some m" and "live (with_component c s) \<Longrightarrow> live s" and "hosted s"
  shows "hosted (with_component c s)"
    and "record_completion tk i d (with_component c s) w = (rec, s', w') \<Longrightarrow> hosted s'"
proof -
  show "hosted (with_component c s)" using assms by (simp add: hosted_def active_with_component)
  then show "record_completion tk i d (with_component c s) w = (rec, s', w') \<Longrightarrow> hosted s'"
    using record_completion_frame [of tk i d "with_component c s" w rec s' w'] by (auto simp: hosted_def)
qed

lemma finish_hosted:
  assumes "slot_ok s" and "hosted s" and "slot_poll_finish_stop tk ub e s w = (res, s', w')"
  shows "hosted s'"
proof (cases "slot_mounted s")
  case None
  with assms show ?thesis by (auto simp: slot_poll_finish_stop_def)
next
  case (Some m)
  obtain x c v where q: "poll_finish_stop tk ub e (mounted_component m) w = (x, c, v)" by (metis prod_cases3)
  have "live (with_component c s) \<Longrightarrow> live s"
    using poll_finish_stop_spec [OF mountedD(1) [OF assms(1) Some] q]
    by (auto simp: live_with_component [OF Some] live_mounted [OF Some] target_not_live split: option.splits attempt.splits if_splits)
  note h = stopped_not_hosted [OF Some this assms(2)]
  from assms(3) Some q show ?thesis
    by (auto simp: slot_poll_finish_stop_def intro: h split: option.splits attempt.splits prod.splits)
qed

lemma abandon_hosted:
  assumes "slot_ok s" and "hosted s" and "slot_abandon tk e s w = (res, s', w')"
  shows "hosted s'"
proof (cases "slot_mounted s")
  case None
  with assms show ?thesis by (auto simp: slot_abandon_def)
next
  case (Some m)
  obtain x c v where q: "abandon_failed_cleanup tk e (mounted_component m) w = (x, c, v)" by (metis prod_cases3)
  have "live (with_component c s) \<Longrightarrow> live s"
    using abandon_spec [OF mountedD(1) [OF assms(1) Some] q]
    by (auto simp: live_with_component [OF Some] live_mounted [OF Some] target_not_live split: attempt.splits)
  note h = stopped_not_hosted [OF Some this assms(2)]
  from assms(3) Some q show ?thesis
    by (auto simp: slot_abandon_def intro: h split: attempt.splits prod.splits)
qed

text \<open>Failing the activation of an epoch leaves none live under it.\<close>

lemma fail_live:
  assumes "component_ok c" and "rc_kind c = K_Starting \<or> rc_kind c = K_Active" and "current_epoch c = Some e"
    and "fail_activation tk e summary c w = (res, c', w')"
  shows "rc_kind c' = K_Stopping"
proof -
  obtain r where r: "rc_activation c = Some r" "e = sel_epoch (ar_selection r)"
    using assms(3) by (auto simp: current_epoch_def)
  obtain a where a: "inst_state (rc_instance c) = Starting a \<or> inst_state (rc_instance c) = State_Active a"
    "live_resources (rc_definition c) a r"
    using assms(1,2) r(1) by (cases "inst_state (rc_instance c)") (auto simp: component_ok_def)
  have e: "e = ProviderSelectionEpoch a" using a(2) r(2) by (simp add: live_resources_def resources_for_def)
  define i where "i = snd (mark_failed a summary (rc_instance c))"
  have ok: "instance_ok (rc_instance c)" using assms(1) by (simp add: component_ok_def)
  obtain f where f: "mark_failed a summary (rc_instance c) = (Inr (), i)" "inst_state i = Failed a f"
    "last_failure i = Some f" "instance_ok i"
    using a(1) ok by (auto simp: i_def mark_failed_def require_activation_def record_failure_def instance_ok_def Let_def)
  have "component_begin_stop tk (Stop_ActivationFailed f) Target_Pending (c\<lparr>rc_instance := i\<rparr>) w = (res, c', w')"
    using assms(4) f e r by (simp add: fail_activation_def require_epoch_def)
  from component_begin_stop_spec(4) [OF _ _ _ _ this, of a r] show ?thesis using f r a(2) by auto
qed

lemma fail_activation_not_live:
  assumes "component_ok c" and "fail_activation tk e summary c w = (res, c', w')" and "current_epoch c' = Some e"
  shows "rc_kind c' \<noteq> K_Starting" and "rc_kind c' \<noteq> K_Active"
proof -
  have "rc_kind c' \<noteq> K_Starting \<and> rc_kind c' \<noteq> K_Active"
  proof (cases "(rc_kind c = K_Starting \<or> rc_kind c = K_Active) \<and> current_epoch c = Some e")
    case True
    with fail_live [OF assms(1) _ _ assms(2)] show ?thesis by auto
  next
    case False
    have "c' = c \<and> \<not> (rc_kind c = K_Starting \<or> rc_kind c = K_Active)"
    proof (cases "require_epoch e c")
      case (Inl x)
      with assms(2,3) False show ?thesis by (auto simp: fail_activation_def)
    next
      case (Inr u)
      then have k: "\<not> (rc_kind c = K_Starting \<or> rc_kind c = K_Active)" "rc_activation c \<noteq> None"
        using False by (auto simp: require_epoch_Inr current_epoch_def)
      then have "\<exists>x. mark_failed (selection_activation e) summary (rc_instance c) = (Inl x, rc_instance c)"
        by (auto simp: mark_failed_def split: sum.splits component_state.splits)
      with k assms(2) Inr show ?thesis by (auto simp: fail_activation_def)
    qed
    then show ?thesis by simp
  qed
  then show "rc_kind c' \<noteq> K_Starting" "rc_kind c' \<noteq> K_Active" by simp_all
qed

lemma fail_seals:
  assumes "slot_ok s" and "hosted s" and "slot_fail_activation tk e summary s w = (res, s', w')"
  shows "\<not> live_at e s'"
  using assms(3) [unfolded slot_fail_activation_def]
proof (cases rule: on_mounted_cases)
  case refused
  with assms(2) show ?thesis by (auto simp: hosted_def live_at_def)
next
  case (ran a m x c)
  with fail_activation_not_live [OF mountedD(1) [OF assms(1) ran(2)] ran(3)] show ?thesis
    by (auto simp: live_at_def live_mounted with_component_def)
qed

section \<open>Preparation\<close>

lemma control_of_set [simp]: "control_of a (set_control a c w) = c"
  by (simp add: control_of_def set_control_def on_plugins_def)

lemma with_object_control:
  "with_object field a operation w = (r, w') \<Longrightarrow> control_of a w' = control_of a w"
  by (auto simp: with_object_def split: option.splits prod.splits)

lemma resources_frame:
  assumes "slot_ok s" and "slot_resources e s w = (res, s', w')"
  shows "s' = s \<and> w' = w \<and> \<not> is_panic res \<and>
    (\<forall>r. res = Accepted r \<longrightarrow> (\<exists>m. slot_mounted s = Some m \<and> rc_activation (mounted_component m) = Some r \<and>
       e = sel_epoch (ar_selection r)))"
  using assms(2) [unfolded slot_resources_def]
proof (cases rule: on_mounted_cases)
  case (ran a m x c)
  then show ?thesis
    by (auto simp: component_resources_def require_epoch_Inr with_same_component split: sum.splits option.splits)
qed simp

lemma defer_async_open:
  assumes "es_storage sc = Scope_Open entries" and "defer_async l cl sc = (x, sc')"
  shows "case x of Inl e \<Rightarrow> sc' = sc
    | Inr k \<Rightarrow> es_storage sc' = Scope_Open (entries @ [Entry_Async k l cl]) \<and> es_cancellation sc' = es_cancellation sc"
  using assms
  by (cases sc) (auto simp: defer_async_def allocate_registration_def require_open_def es_state_def push_entry_def Let_def
      split: option.splits)

text \<open>Deferring a cleanup: refused, or the last effect of the activation's open scope.\<close>

lemma defer_async_cases:
  assumes "slot_ok s" and "live s" and "slot_mounted s = Some m" and "rc_activation (mounted_component m) = Some r"
    and "slot_defer_async e l cl s w = (res, s', w')"
  shows "w' = w \<and> (case res of
      Panic p \<Rightarrow> False
    | Rejected x \<Rightarrow> s' = s
    | Accepted k \<Rightarrow> \<exists>entries sc. es_storage (ar_effects r) = Scope_Open entries \<and>
        es_storage sc = Scope_Open (entries @ [Entry_Async k l (User_Cleanup cl)]) \<and>
        es_cancellation sc = es_cancellation (ar_effects r) \<and>
        s' = with_component (with_effects sc (mounted_component m)) s)"
  using assms(5) [unfolded slot_defer_async_def]
proof (cases rule: on_mounted_cases)
  case refused
  then show ?thesis by simp
next
  case (ran a m' x c)
  have m: "m' = m" using ran(2) assms(3) by simp
  obtain entries where o: "es_storage (ar_effects r) = Scope_Open entries"
    using mountedD(1) [OF assms(1,3)] assms(2,4) live_mounted [OF assms(3)]
    by (cases "inst_state (rc_instance (mounted_component m))")
      (auto simp: component_ok_def live_resources_def es_state_def split: scope_storage.splits)
  have same: "with_effects (ar_effects r) (mounted_component m) = mounted_component m"
    using assms(4) by (cases "mounted_component m"; cases r) (simp add: with_effects_def)
  obtain y sc where d: "defer_async l (User_Cleanup cl) (ar_effects r) = (y, sc)" by fastforce
  from ran assms(3,4) m d defer_async_open [OF o d] o show ?thesis
    by (auto simp: component_defer_async_def component_defer_def same with_same_component
        split: sum.splits prod.splits)
qed

lemma defer_accepted_hosted:
  assumes "slot_defer_async e l cl s w = (Accepted k, s', w')"
  shows "hosted s'"
  using assms [unfolded slot_defer_async_def]
  by (cases rule: on_mounted_cases) (auto simp: hosted_def active_with_component)

text \<open>
  A prepared activation: the guard owns the slot, whose starting component has the deactivation as the last
  effect of its open scope, and holds the one start permit, with the authority the host granted.
\<close>

definition activation_prepared where
  "activation_prepared e grants s s' g \<longleftrightarrow>
     hg_slot g = Some s' \<and> hg_id g = \<lparr>ai_revision = eg_revision grants, ai_epoch = e\<rparr> \<and> hg_kind g = eg_driver grants \<and>
     (\<exists>m r entries k sc permit. slot_mounted s = Some m \<and> rc_activation (mounted_component m) = Some r \<and>
        e = sel_epoch (ar_selection r) \<and> rc_kind (mounted_component m) = K_Starting \<and>
        es_storage (ar_effects r) = Scope_Open entries \<and>
        es_storage sc = Scope_Open (entries @
          [Entry_Async k (''deactivate plugin '' @ activation_id_text (hg_id g))
             (User_Cleanup (Deactivate_Plugin (hg_control g) (hg_id g)))]) \<and>
        es_cancellation sc = es_cancellation (ar_effects r) \<and>
        s' = with_component (with_effects sc (mounted_component m)) s \<and>
        hg_cancellation g = es_cancellation (ar_effects r) \<and>
        hg_start g = Start_Prepared (Some permit) \<and> sp_id permit = hg_id g \<and>
        sp_context permit = \<lparr>sc_activation = hg_id g, sc_cancellation = hg_cancellation g,
          sc_activity = es_activity (ar_effects r), sc_core = sc_core (sp_context permit),
          sc_registrations = eg_registrations grants\<rparr>)"

definition prepare_outcome where
  "prepare_outcome e grants s res s' \<longleftrightarrow>
     (case res of Panic _ \<Rightarrow> False | Rejected _ \<Rightarrow> s' = s | Accepted g \<Rightarrow> activation_prepared e grants s s' g \<and> slot_ok s' \<and> hosted s')"

lemma rejecting_outcome:
  assumes "rejecting D control x s w = (res, s', w')"
  shows "prepare_outcome e grants s res s'"
proof -
  obtain y v where "reject_control D control x w = (y, v)" by fastforce
  with assms show ?thesis by (auto simp: rejecting_def prepare_outcome_def)
qed

lemma prepare_admitted_outcome:
  assumes "slot_ok s" and "live_kind s = K_Starting" and "slot_mounted s = Some m"
    and "rc_activation (mounted_component m) = Some r" and "e = sel_epoch (ar_selection r)"
    and "pb_registrations bindings = eg_registrations grants"
    and "prepare_admitted D e \<lparr>ai_revision = eg_revision grants, ai_epoch = e\<rparr> (eg_driver grants)
      (es_cancellation (ar_effects r)) (es_activity (ar_effects r)) bindings control s w = (res, s', w')"
  shows "prepare_outcome e grants s res s'"
proof -
  let ?i = "\<lparr>ai_revision = eg_revision grants, ai_epoch = e\<rparr>"
  obtain x s1 w1 where d: "slot_defer_async e (''deactivate plugin '' @ activation_id_text ?i) (Deactivate_Plugin control ?i) s w
      = (x, s1, w1)" by (metis prod_cases3)
  have live: "live s" using assms(2) by (simp add: live_def)
  note c = defer_async_cases [OF assms(1) live assms(3,4) d]
  show ?thesis
  proof (cases x)
    case (Accepted k)
    then have "res = Accepted \<lparr>hg_slot = Some s1, hg_id = ?i, hg_kind = eg_driver grants,
        hg_cancellation = es_cancellation (ar_effects r), hg_control = control, hg_start = Start_Prepared (Some
          \<lparr>sp_id = ?i, sp_context = start_context_new ?i (es_cancellation (ar_effects r)) (es_activity (ar_effects r)) bindings\<rparr>)\<rparr>"
      "s' = s1"
      using assms(7) d by (auto simp: prepare_admitted_def)
    moreover have "rc_kind (mounted_component m) = K_Starting" using assms(2,3) by (simp add: live_kind_def)
    moreover have "slot_ok s1 \<and> hosted s1"
      using slot_defer_ok [OF assms(1), of e _ _ w x s1 w1] d defer_accepted_hosted [OF d [unfolded Accepted]] by blast
    ultimately show ?thesis using c Accepted assms(3-6)
      by (auto simp: prepare_outcome_def activation_prepared_def start_context_new_def)
  next
    case (Rejected y)
    with assms(7) d c show ?thesis by (auto simp: prepare_admitted_def intro: rejecting_outcome)
  next
    case (Panic p)
    with c show ?thesis by simp
  qed
qed

lemma prepare_driver_outcome:
  assumes "slot_ok s" and "live_kind s = K_Starting" and "slot_mounted s = Some m"
    and "rc_activation (mounted_component m) = Some r" and "e = sel_epoch (ar_selection r)"
    and "pb_registrations bindings = eg_registrations grants" and "po_prepared (control_of control w) = None"
    and "prepare_driver D e (eg_driver grants) (eg_revision grants)
      (es_cancellation (ar_effects r)) (es_activity (ar_effects r)) bindings control s w = (res, s', w')"
  shows "prepare_outcome e grants s res s'"
proof -
  let ?i = "\<lparr>ai_revision = eg_revision grants, ai_epoch = e\<rparr>"
  obtain x w1 where d: "with_driver control (\<lambda>d. driver_prepare D d
      \<lparr>rq_id = ?i, rq_cancellation = es_cancellation (ar_effects r)\<rparr>) w = (x, w1)" by fastforce
  have none: "po_prepared (control_of control w1) = None"
    using with_object_control [OF d [unfolded with_driver_def]] assms(7) by simp
  note adm = prepare_admitted_outcome [OF assms(1-6)]
  from assms(8) d none show ?thesis
    by (auto simp: prepare_driver_def Let_def install_prepared_def split: sum.splits option.splits prod.splits if_splits
        intro: rejecting_outcome adm)
qed

lemma guard_prepare_outcome:
  assumes "slot_ok s" and "guard_prepare D e broker grants driver s w = (res, s', w')"
  shows "prepare_outcome e grants s res s'"
proof -
  obtain control w0 where n: "control_new driver w = (control, w0)" by fastforce
  then have c0: "po_prepared (control_of control w0) = None" by (auto simp: control_new_def)
  obtain x s1 w1 where q: "slot_resources e s w0 = (x, s1, w1)" by (metis prod_cases3)
  note rs = resources_frame [OF assms(1) q]
  obtain y w2 where d: "with_driver control (driver_metadata D) w1 = (y, w2)" by fastforce
  have c2: "po_prepared (control_of control w2) = None"
    using with_object_control [OF d [unfolded with_driver_def]] c0 rs by simp
  have pb: "prepare_bindings broker grants w2 = Inr bindings \<Longrightarrow> pb_registrations bindings = eg_registrations grants" for bindings
    by (auto simp: prepare_bindings_def and_then_Inr)
  show ?thesis
  proof (cases "live_kind s = K_Starting \<and> (\<exists>r. x = Accepted r)")
    case False
    with assms(2) n q rs show ?thesis
      by (cases x) (auto simp: guard_prepare_def intro: rejecting_outcome split: if_splits)
  next
    case True
    then obtain r where x: "x = Accepted r" by blast
    then obtain m where m: "slot_mounted s = Some m" "rc_activation (mounted_component m) = Some r"
      "e = sel_epoch (ar_selection r)" using rs by auto
    note dr = prepare_driver_outcome [OF assms(1) conjunct1 [OF True] m]
    have "s1 = s" "w1 = w0" using rs by simp_all
    with assms(2) n q x True d c2 show ?thesis
      by (auto simp: guard_prepare_def intro: rejecting_outcome dr pb split: sum.splits option.splits prod.splits if_splits)
  qed
qed

text \<open>
  C19. Preparation defers the deactivation first: it never panics; when it fails the slot is exactly as it was;
  when it succeeds, the driver is of the revision and kind the host selected, the start has not begun, and the
  deactivation of this very activation is the last effect of the component's open scope, which every
  teardown runs. Nothing it does depends on how the driver starts or stops.
\<close>

theorem prepare_defers_deactivation:
  assumes "slot_ok s" and "guard_prepare D e broker grants driver s w = (res, s', w')"
  shows "(case res of
       Panic _ \<Rightarrow> False
     | Rejected _ \<Rightarrow> s' = s
     | Accepted g \<Rightarrow> activation_prepared e grants s s' g) \<and>
    guard_prepare (D\<lparr>prepared_start := start, prepared_deactivate := deactivate\<rparr>) e broker grants driver s w = (res, s', w')"
proof -
  let ?D = "D\<lparr>prepared_start := start, prepared_deactivate := deactivate\<rparr>"
  have same: "driver_metadata ?D = driver_metadata D" "driver_prepare ?D = driver_prepare D"
    "prepared_id ?D = prepared_id D" "drop_prepared ?D = drop_prepared D" "drop_driver ?D = drop_driver D" by simp_all
  have "guard_prepare ?D e broker grants driver s w = guard_prepare D e broker grants driver s w"
    unfolding guard_prepare_def prepare_driver_def prepare_admitted_def rejecting_def reject_control_def
      control_dispose_def dispose_objects_def same by (rule refl)
  with guard_prepare_outcome [OF assms] assms(2) show ?thesis by (auto simp: prepare_outcome_def split: attempt.splits)
qed

section \<open>The invariant of a guard\<close>

definition handle_matches where
  "handle_matches g h \<longleftrightarrow> ah_id h = hg_id g \<and> ah_kind h = hg_kind g \<and> ah_cancellation h = hg_cancellation g \<and>
     ah_control h = hg_control g"

definition guard_ok :: "('u, 'f, 's, 'e, 'v, 't) activation_guard \<Rightarrow> bool" where
  "guard_ok g \<longleftrightarrow>
     (\<exists>s. hg_slot g = Some s \<and> slot_ok s \<and> hosted s) \<and>
     hg_start g \<noteq> Start_Transitioning \<and> hg_start g \<noteq> Start_Prepared None \<and>
     (\<forall>h. hg_start g = Start_Complete (Inr h) \<longrightarrow> handle_matches g h)"

definition same_activation where
  "same_activation g g' \<longleftrightarrow> hg_id g' = hg_id g \<and> hg_kind g' = hg_kind g \<and> hg_cancellation g' = hg_cancellation g \<and>
     hg_control g' = hg_control g"

lemma same_activation_refl [simp]: "same_activation g g"
  by (simp add: same_activation_def)

lemma same_activation_trans: "same_activation a b \<Longrightarrow> same_activation b c \<Longrightarrow> same_activation a c"
  by (simp add: same_activation_def)

lemma same_activation_epoch: "same_activation g g' \<Longrightarrow> hg_epoch g' = hg_epoch g"
  by (simp add: same_activation_def hg_epoch_def)

lemma prepared_guard_ok:
  assumes "slot_ok s" and "guard_prepare D e broker grants driver s w = (Accepted g, s', w')"
  shows "guard_ok g" and "hg_epoch g = e"
  using guard_prepare_outcome [OF assms]
  by (auto simp: prepare_outcome_def activation_prepared_def guard_ok_def hg_epoch_def)

text \<open>An operation of the slot that keeps its invariant keeps that of the guard.\<close>

definition slot_keeps where
  "slot_keeps operation w \<longleftrightarrow> (\<forall>s res s' w'. slot_ok s \<and> hosted s \<and> operation s w = (res, s', w') \<longrightarrow>
     slot_ok s' \<and> hosted s' \<and> \<not> is_panic res)"

lemma slot_keepsI:
  assumes "\<And>s res s' w'. slot_ok s \<Longrightarrow> hosted s \<Longrightarrow> operation s w = (res, s', w') \<Longrightarrow>
    slot_ok s' \<and> hosted s' \<and> \<not> is_panic res"
  shows "slot_keeps operation w"
  unfolding slot_keeps_def using assms by blast

lemma slot_keepsD:
  assumes "slot_keeps operation w" and "slot_ok s" and "hosted s" and "operation s w = (res, s', w')"
  shows "slot_ok s'" and "hosted s'" and "\<not> is_panic res"
  using assms(1) [unfolded slot_keeps_def, rule_format, of s res s' w'] assms(2-4) by simp_all

lemma slot_complete_start_keeps: "slot_keeps (slot_complete_start tk core e) w"
proof (rule slot_keepsI)
  fix s res s' w'
  assume s: "slot_ok s" "hosted s" and q: "slot_complete_start tk core e s w = (res, s', w')"
  show "slot_ok s' \<and> hosted s' \<and> \<not> is_panic res"
    using slot_complete_start_ok [OF s(1) q] on_mounted_hosted [OF s(2) q [unfolded slot_complete_start_def]] by simp
qed

lemma slot_fail_keeps: "slot_keeps (slot_fail_activation tk e summary) w"
proof (rule slot_keepsI)
  fix s res s' w'
  assume s: "slot_ok s" "hosted s" and q: "slot_fail_activation tk e summary s w = (res, s', w')"
  show "slot_ok s' \<and> hosted s' \<and> \<not> is_panic res"
    using slot_fail_ok [OF s(1) q] on_mounted_hosted [OF s(2) q [unfolded slot_fail_activation_def]] by simp
qed

lemma slot_abandon_keeps: "slot_keeps (slot_abandon tk e) w"
proof (rule slot_keepsI)
  fix s res s' w'
  assume s: "slot_ok s" "hosted s" and q: "slot_abandon tk e s w = (res, s', w')"
  show "slot_ok s' \<and> hosted s' \<and> \<not> is_panic res"
    using slot_abandon_ok [OF s(1) q] abandon_hosted [OF s q] by simp
qed

lemma with_slot_ok:
  assumes "guard_ok g" and "with_slot operation g w = (res, g', w')" and "slot_keeps operation w"
  obtains s s' where "hg_slot g = Some s" and "slot_ok s" and "hosted s" and "operation s w = (res, s', w')"
    and "g' = g\<lparr>hg_slot := Some s'\<rparr>" and "slot_ok s'" and "hosted s'" and "\<not> is_panic res"
    and "guard_ok g'" and "same_activation g g'"
proof -
  obtain s where s: "hg_slot g = Some s" "slot_ok s" "hosted s" using assms(1) by (auto simp: guard_ok_def)
  obtain r s1 w1 where q: "operation s w = (r, s1, w1)" by (metis prod_cases3)
  with assms(2) s(1) have e: "res = r" "g' = g\<lparr>hg_slot := Some s1\<rparr>" "w' = w1" by (auto simp: with_slot_def)
  have k: "slot_ok s1" "hosted s1" "\<not> is_panic r" using slot_keepsD [OF assms(3) s(2,3) q] by simp_all
  have "guard_ok g'" using assms(1) e(2) k by (auto simp: guard_ok_def handle_matches_def)
  moreover have "same_activation g g'" using e(2) by (simp add: same_activation_def)
  ultimately show thesis using that [OF s] q e k by simp
qed

lemma discard_ok:
  assumes "guard_ok g" and "discard_after_seal D g w = (res, g', w')"
  shows "res = Accepted () \<and> guard_ok g' \<and> same_activation g g' \<and> hg_slot g' = hg_slot g \<and>
    (\<exists>e. hg_start g' = Start_Complete (Inl e))"
  using assms
  by (auto simp: discard_after_seal_def guard_ok_def same_activation_def split: start_state.splits sum.splits prod.splits option.splits)

lemma settle_ok:
  assumes "guard_ok g" and "settle_start result g w = (res, g', w')" and "\<forall>h. result = Inr h \<longrightarrow> handle_matches g h"
  shows "res = Accepted (Some result) \<and> hg_start g' = Start_Complete result \<and> hg_slot g' = hg_slot g \<and>
    guard_ok g' \<and> same_activation g g'"
  using assms by (auto simp: settle_start_def guard_ok_def same_activation_def handle_matches_def)

section \<open>The poll of an activation\<close>

definition guard_live where
  "guard_live g \<longleftrightarrow> (\<exists>s. hg_slot g = Some s \<and> live_at (hg_epoch g) s)"

lemma guard_live_cong: "same_activation g g' \<Longrightarrow> hg_slot g' = hg_slot g \<Longrightarrow> guard_live g' \<longleftrightarrow> guard_live g"
  by (simp add: guard_live_def same_activation_epoch)

lemma with_slot_fail:
  assumes "guard_ok g" and "with_slot (slot_fail_activation tk (hg_epoch g) summary) g w = (res, g', w')"
  shows "guard_ok g' \<and> same_activation g g' \<and> \<not> is_panic res \<and> \<not> guard_live g' \<and> hg_start g' = hg_start g"
proof -
  obtain s s' where s: "slot_ok s" "hosted s" "slot_fail_activation tk (hg_epoch g) summary s w = (res, s', w')"
    "g' = g\<lparr>hg_slot := Some s'\<rparr>" "\<not> is_panic res" "guard_ok g'" "same_activation g g'"
    using with_slot_ok [OF assms slot_fail_keeps] by metis
  with fail_seals [OF s(1-3)] show ?thesis by (simp add: guard_live_def hg_epoch_def)
qed

text \<open>How a poll may end: a start that settles with an error leaves no live activation.\<close>

definition poll_settled where
  "poll_settled g res g' \<longleftrightarrow>
     guard_ok g' \<and> same_activation g g' \<and>
     (\<exists>result. res = Accepted (Some result) \<and> hg_start g' = Start_Complete result \<and>
        (case result of
           Inl _ \<Rightarrow> \<not> guard_live g'
         | Inr h \<Rightarrow> handle_matches g h \<and> guard_live g' \<and> live_kind (the (hg_slot g')) = K_Active))"

lemma settle_settled:
  assumes "guard_ok g1" and "same_activation g g1" and "settle_start result g1 w = (res, g', w')"
    and "case result of Inl _ \<Rightarrow> \<not> guard_live g1
      | Inr h \<Rightarrow> handle_matches g h \<and> guard_live g1 \<and> live_kind (the (hg_slot g1)) = K_Active"
  shows "poll_settled g res g'" and "hg_start g' = Start_Complete result"
proof -
  have "\<forall>h. result = Inr h \<longrightarrow> handle_matches g1 h" using assms(2,4) by (auto simp: handle_matches_def same_activation_def)
  note st = settle_ok [OF assms(1,3) this]
  then have l: "guard_live g' \<longleftrightarrow> guard_live g1" by (intro guard_live_cong) simp_all
  have same: "same_activation g g'" by (rule same_activation_trans [OF assms(2)]) (use st in simp)
  show "hg_start g' = Start_Complete result" using st by simp
  show "poll_settled g res g'" unfolding poll_settled_def
    using st l same assms(4) by (cases result) simp_all
qed

lemma driver_failure_settles:
  assumes "guard_ok g" and "complete_driver_failure tk D failure future g w = (res, g', w')"
  shows "poll_settled g res g' \<and> (\<exists>x. hg_start g' = Start_Complete (Inl x))"
proof -
  obtain r g1 w1 where q: "seal_driver_failure tk failure g w = (r, g1, w1)" by (metis prod_cases3)
  note f = with_slot_fail [OF assms(1) q [unfolded seal_driver_failure_def]]
  from f assms(2) q obtain x w2 where st: "settle_start (Inl x) g1 w2 = (res, g', w')"
    by (cases r) (auto simp: complete_driver_failure_def Let_def split: prod.splits)
  have g1: "guard_ok g1" "same_activation g g1" "\<not> guard_live g1" using f by simp_all
  from settle_settled [OF g1(1,2) st] g1(3) show ?thesis by auto
qed

lemma complete_start_outcome:
  assumes "slot_ok s" and "slot_complete_start tk core e s w = (Accepted out, s', w')"
  shows "if out = Outcome_Active e then live_at e s' \<and> live_kind s' = K_Active
    else (\<forall>x. out \<noteq> Outcome_Active x) \<and> \<not> live s'"
  using assms(2) [unfolded slot_complete_start_def]
proof (cases rule: on_mounted_cases)
  case (ran a m x c)
  note ok = mountedD(1) [OF assms(1) ran(2)]
  have x: "x = Accepted out" using ran(4) by (cases x) simp_all
  note spec = component_complete_start_spec [OF ok ran(3) [unfolded x]]
  show ?thesis
  proof (cases "\<exists>y. out = Outcome_Active y")
    case True
    with spec have s: "out = Outcome_Active e" "inst_state (rc_instance c) = State_Active (selection_activation e)"
      "component_ok c" by (auto split: if_splits)
    then obtain r where r: "rc_activation c = Some r" "live_resources (rc_definition c) (selection_activation e) r"
      by (auto simp: component_ok_def)
    have "current_epoch c = Some e"
      using r by (cases e) (simp add: current_epoch_def live_resources_def resources_for_def)
    with s ran(2,5) show ?thesis
      by (simp add: live_at_def live_mounted live_kind_def with_component_def)
  next
    case False
    with spec ran(2,5) show ?thesis by (auto simp: live_with_component [OF ran(2)] split: if_splits)
  qed
qed simp

lemma ready_settles:
  assumes "guard_ok g" and "complete_ready tk core g w = (res, g', w')"
  shows "poll_settled g res g'"
proof -
  obtain r g1 w1 where q: "with_slot (slot_complete_start tk core (hg_epoch g)) g w = (r, g1, w1)" by (metis prod_cases3)
  obtain s s1 where s: "slot_ok s" "slot_complete_start tk core (hg_epoch g) s w = (r, s1, w1)"
    "g1 = g\<lparr>hg_slot := Some s1\<rparr>" "\<not> is_panic r" "guard_ok g1" "same_activation g g1"
    using with_slot_ok [OF assms(1) q slot_complete_start_keeps] by metis
  note finish = settle_settled(1) [OF s(5,6)]
  show ?thesis
  proof (cases r)
    case (Accepted out)
    note o = complete_start_outcome [OF s(1) s(2) [unfolded Accepted]]
    show ?thesis
    proof (cases "out = Outcome_Active (hg_epoch g)")
      case True
      with assms(2) q Accepted have st: "settle_start (Inr \<lparr>ah_id = hg_id g1, ah_kind = hg_kind g1,
          ah_cancellation = hg_cancellation g1, ah_control = hg_control g1\<rparr>) g1 w1 = (res, g', w')"
        by (simp add: complete_ready_def)
      show ?thesis by (rule finish [OF st]) (use True o s(3) in \<open>simp add: handle_matches_def guard_live_def hg_epoch_def\<close>)
    next
      case False
      with o assms(2) q Accepted have st: "settle_start (Inl (Start_Superseded (hg_id g1) (Some out))) g1 w1 = (res, g', w')"
        by (cases out) (simp_all add: complete_ready_def)
      show ?thesis by (rule finish [OF st]) (use False o s(3) in \<open>simp add: guard_live_def live_at_def\<close>)
    qed
  next
    case (Rejected e)
    obtain r2 g2 w2 where q2: "with_slot (slot_fail_activation tk (hg_epoch g1)
        (''composition rejected driver readiness: '' @ slot_error_text e)) g1 w1 = (r2, g2, w2)" by (metis prod_cases3)
    note f = with_slot_fail [OF s(5) q2]
    from f assms(2) q Rejected q2 obtain x where st: "settle_start (Inl x) g2 w2 = (res, g', w')"
      by (cases r2) (auto simp: complete_ready_def)
    have "same_activation g g2" by (rule same_activation_trans [OF s(6)]) (use f in simp)
    then show ?thesis using settle_settled(1) [OF _ _ st] f by simp
  next
    case (Panic p)
    with s(4) show ?thesis by simp
  qed
qed

text \<open>One poll in any state: ready or pending, and the guard stays consistent.\<close>

definition poll_ok where
  "poll_ok g res g' \<longleftrightarrow>
     guard_ok g' \<and> same_activation g g' \<and>
     (\<exists>x. res = Accepted x \<and>
        (case x of None \<Rightarrow> \<exists>f. hg_start g' = Start_Running f | Some result \<Rightarrow> hg_start g' = Start_Complete result))"

lemma settled_poll_ok: "poll_settled g res g' \<Longrightarrow> poll_ok g res g'"
  by (auto simp: poll_settled_def poll_ok_def)

lemma settle_error_poll_ok:
  assumes "guard_ok g" and "settle_start (Inl x) g w = (res, g', w')"
  shows "poll_ok g res g'"
  using settle_ok [OF assms] by (auto simp: poll_ok_def)

lemma running_guard_ok: "guard_ok g \<Longrightarrow> guard_ok (g\<lparr>hg_start := Start_Running f\<rparr>)"
  by (auto simp: guard_ok_def)

lemma poll_running_settles:
  assumes "guard_ok g" and "\<not> guard_cancelled tk g w" and "poll_running_start tk D core f g w = (res, g', w')"
  shows "(\<exists>f1 w1. poll_start D f w = (Inr None, f1, w1) \<and> res = Accepted None \<and>
      g' = g\<lparr>hg_start := Start_Running f1\<rparr> \<and> w' = w1) \<or>
    (poll_settled g res g' \<and> fst (poll_start D f w) \<noteq> Inr None \<and>
     (\<forall>h. res = Accepted (Some (Inr h)) \<longrightarrow>
        (\<exists>f1 w1. poll_start D f w = (Inr (Some (Inr ())), f1, w1) \<and> dropped (fst (drop_start D f1 w1)) = None)))"
proof -
  obtain polled f1 w1 where q: "poll_start D f w = (polled, f1, w1)" by (metis prod_cases3)
  note fails = driver_failure_settles [OF assms(1)]
  have failing: ?thesis if "complete_driver_failure tk D failure future g v = (res, g', w')" "polled \<noteq> Inr None"
    for failure future v
    using fails [OF that(1)] that(2) q by (auto simp: poll_settled_def)
  consider (pending) "polled = Inr None" | (ready) "polled = Inr (Some (Inr ()))"
    | (failed) failure where "polled = Inr (Some (Inl failure))" | (panicked) payload where "polled = Inl payload"
    by (cases polled; cases "projr polled"; cases "the (projr polled)") auto
  then show ?thesis
  proof cases
    case pending
    with assms(2,3) q show ?thesis by (auto simp: poll_running_start_def)
  next
    case ready
    obtain d w2 where d: "drop_start_future D f1 w1 = (d, w2)" by fastforce
    show ?thesis
    proof (cases d)
      case None
      with assms(2,3) q ready d have "complete_ready tk core g w2 = (res, g', w')" by (simp add: poll_running_start_def)
      moreover have "dropped (fst (drop_start D f1 w1)) = None"
        using d None by (auto simp: drop_start_future_def split: prod.splits)
      ultimately show ?thesis using ready_settles [OF assms(1)] q ready by auto
    next
      case (Some summary)
      with assms(2,3) q ready d show ?thesis by (intro failing) (auto simp: poll_running_start_def)
    qed
  next
    case failed
    with assms(2,3) q show ?thesis by (intro failing) (auto simp: poll_running_start_def)
  next
    case panicked
    with assms(2,3) q show ?thesis by (intro failing) (auto simp: poll_running_start_def)
  qed
qed

lemma poll_running_ok:
  assumes "guard_ok g" and "poll_running_start tk D core f g w = (res, g', w')"
  shows "poll_ok g res g'"
proof (cases "guard_cancelled tk g w")
  case True
  with assms show ?thesis
    by (auto simp: poll_running_start_def split: prod.splits intro: settle_error_poll_ok)
next
  case False
  from poll_running_settles [OF assms(1) False assms(2)] show ?thesis
    using running_guard_ok [OF assms(1)] by (auto simp: poll_ok_def poll_settled_def same_activation_def)
qed

lemma poll_activate_ok:
  assumes "guard_ok g" and "guard_poll_activate tk D core g w = (res, g', w')"
  shows "poll_ok g res g'"
proof (cases "hg_start g")
  case (Start_Prepared permit)
  then obtain p where p: "permit = Some p" using assms(1) by (auto simp: guard_ok_def)
  obtain x w1 where q: "with_prepared (hg_control g) (\<lambda>a. prepared_start D a p) w = (x, w1)" by fastforce
  show ?thesis
  proof (cases "guard_cancelled tk g w")
    case True
    with assms Start_Prepared show ?thesis by (auto simp: guard_poll_activate_def intro: settle_error_poll_ok)
  next
    case False
    from assms(2) Start_Prepared p q False show ?thesis
      by (auto simp: guard_poll_activate_def split: sum.splits option.splits
          intro: poll_running_ok [OF assms(1)] settled_poll_ok [OF conjunct1 [OF driver_failure_settles [OF assms(1)]]])
  qed
next
  case (Start_Running f)
  with assms show ?thesis by (auto simp: guard_poll_activate_def intro: poll_running_ok)
next
  case (Start_Complete result)
  with assms show ?thesis by (auto simp: guard_poll_activate_def poll_ok_def)
next
  case Start_Transitioning
  with assms(1) show ?thesis by (simp add: guard_ok_def)
qed

section \<open>Every way to drive a guard\<close>

datatype ('t, 'k, 'z) guard_op =
    GO_activate address
  | GO_reconcile address desired_component_state
  | GO_fail string
  | GO_finish_stop bool
  | GO_abandon
  | GO_environment "('t, 'k, 'z) pwld \<Rightarrow> ('t, 'k, 'z) pwld"

type_synonym ('d, 'p, 's, 'e, 'v, 'u, 'f, 't, 'k, 'y) guard_system =
  "('u, 'f, 's, 'e, 'v, 't) activation_guard \<times> u64 \<times> ('d, 'p, 't, 'k, 'y) dwld"

fun guard_step ::
    "('t, 'k) cancellation_api \<Rightarrow> ('d, 'p, 's, 'e, 'v, 't, 'k, 'y) driver_api \<Rightarrow>
     ('u, 'f, 'k, ('d, 'p, 't, 'y) dheap) callback_api \<Rightarrow> ('t, 'k, ('d, 'p, 'y) driver_heap) guard_op \<Rightarrow>
     ('d, 'p, 's, 'e, 'v, 'u, 'f, 't, 'k, 'y) guard_system \<Rightarrow>
     bool \<times> ('d, 'p, 's, 'e, 'v, 'u, 'f, 't, 'k, 'y) guard_system" where
  "guard_step tk D ub (GO_activate core) (g, n, w) =
     (let (r, g, w) = guard_poll_activate tk D core g w in (is_panic r, g, n, w))"
| "guard_step tk D ub (GO_reconcile core d) (g, n, w) =
     (let (r, g, n, w) = guard_reconcile tk D core d g n w in (is_panic r, g, n, w))"
| "guard_step tk D ub (GO_fail summary) (g, n, w) =
     (let (r, g, w) = guard_fail_activation tk D summary g w in (is_panic r, g, n, w))"
| "guard_step tk D ub (GO_finish_stop resumed) (g, n, w) =
     (let (r, g, w) = guard_poll_finish_stop tk D ub resumed g w
      in ((case r of None \<Rightarrow> False | Some r \<Rightarrow> is_panic r), g, n, w))"
| "guard_step tk D ub GO_abandon (g, n, w) = (let (r, g, w) = guard_abandon tk g w in (is_panic r, g, n, w))"
| "guard_step tk D ub (GO_environment change) (g, n, w) = (False, g, n, change w)"

lemma slot_update_ok:
  assumes "guard_ok g" and "slot_ok s" and "hosted s"
  shows "guard_ok (g\<lparr>hg_slot := Some s\<rparr>)" and "same_activation g (g\<lparr>hg_slot := Some s\<rparr>)"
  using assms by (auto simp: guard_ok_def handle_matches_def same_activation_def)

lemma then_discard_ok:
  assumes "guard_ok g" and "then_discard D r g w = (res, g', w')"
  shows "res = r \<and> guard_ok g' \<and> same_activation g g'"
proof -
  obtain x g1 w1 where q: "discard_after_seal D g w = (x, g1, w1)" by (metis prod_cases3)
  with discard_ok [OF assms(1) q] assms(2) show ?thesis by (auto simp: then_discard_def)
qed

lemma guard_reconcile_ok:
  assumes "guard_ok g" and "guard_reconcile tk D core d g n w = (res, g', n', w')"
  shows "guard_ok g' \<and> same_activation g g' \<and> \<not> is_panic res"
proof -
  obtain s where s: "hg_slot g = Some s" "slot_ok s" "hosted s" using assms(1) by (auto simp: guard_ok_def)
  obtain r s1 n1 w1 where q: "slot_reconcile tk core d s n w = (r, s1, n1, w1)" by (metis prod_cases4)
  note k = slot_reconcile_ok [OF s(2) q]
  note g1 = slot_update_ok [OF assms(1) k(1) reconcile_hosted [OF s(2,3) q]]
  show ?thesis
  proof (cases "(\<exists>out. r = Accepted out) \<and> guard_cancelled tk (g\<lparr>hg_slot := Some s1\<rparr>) w1")
    case True
    then obtain w2 where "then_discard D r (g\<lparr>hg_slot := Some s1\<rparr>) w1 = (res, g', w2)"
      using assms(2) s(1) q by (auto simp: guard_reconcile_def split: prod.splits)
    from then_discard_ok [OF g1(1) this] k(2) same_activation_trans [OF g1(2)] show ?thesis by auto
  next
    case False
    with assms(2) s(1) q g1 k(2) show ?thesis by (cases r) (auto simp: guard_reconcile_def split: if_splits)
  qed
qed

lemma guard_fail_ok:
  assumes "guard_ok g" and "guard_fail_activation tk D summary g w = (res, g', w')"
  shows "guard_ok g' \<and> same_activation g g' \<and> \<not> is_panic res"
proof -
  obtain r g1 w1 where q: "with_slot (slot_fail_activation tk (hg_epoch g) summary) g w = (r, g1, w1)" by (metis prod_cases3)
  note f = with_slot_fail [OF assms(1) q]
  then have ok: "guard_ok g1" "same_activation g g1" by simp_all
  show ?thesis
  proof (cases r)
    case (Accepted out)
    with assms(2) q have "then_discard D (Accepted out) g1 w1 = (res, g', w')" by (simp add: guard_fail_activation_def)
    from then_discard_ok [OF ok(1) this] same_activation_trans [OF ok(2)] show ?thesis by auto
  qed (use assms(2) q f in \<open>auto simp: guard_fail_activation_def\<close>)
qed

lemma guard_finish_ok:
  assumes "guard_ok g" and "guard_poll_finish_stop tk D ub resumed g w = (res, g', w')"
  shows "guard_ok g' \<and> same_activation g g' \<and> (\<forall>p. res \<noteq> Some (Panic p))"
proof -
  obtain x g1 w1 where q: "(if \<not> resumed \<and> guard_cancelled tk g w then discard_after_seal D g w else (Accepted (), g, w))
      = (x, g1, w1)" by (metis prod_cases3)
  then have g1: "guard_ok g1" "same_activation g g1" "x = Accepted ()"
    using assms(1) discard_ok [OF assms(1), of D w x g1 w1] by (auto split: if_splits)
  obtain s where s: "hg_slot g1 = Some s" "slot_ok s" "hosted s" using g1(1) by (auto simp: guard_ok_def)
  obtain r s2 w2 where p: "slot_poll_finish_stop tk (plugin_callbacks D ub) (hg_epoch g1) s w1 = (r, s2, w2)"
    by (metis prod_cases3)
  have e: "res = r" "g' = g1\<lparr>hg_slot := Some s2\<rparr>"
    using assms(2) unfolding guard_poll_finish_stop_def q by (auto simp: g1(3) s(1) p)
  have "slot_ok s2" "hosted s2" "\<forall>p. r \<noteq> Some (Panic p)"
    using slot_finish_ok [OF s(2) p] finish_hosted [OF s(2,3) p] by simp_all
  with slot_update_ok [OF g1(1)] same_activation_trans [OF g1(2)] e show ?thesis by auto
qed

lemma guard_step_ok:
  assumes "guard_ok g" and "guard_step tk D ub op (g, n, w) = (panics, g', n', w')"
  shows "guard_ok g' \<and> same_activation g g' \<and> \<not> panics"
proof (cases op)
  case (GO_activate core)
  then obtain r where "guard_poll_activate tk D core g w = (r, g', w')" "panics = is_panic r"
    using assms(2) by (auto split: prod.splits)
  with poll_activate_ok [OF assms(1)] show ?thesis by (fastforce simp: poll_ok_def)
next
  case (GO_reconcile core d)
  then obtain r where "guard_reconcile tk D core d g n w = (r, g', n', w')" "panics = is_panic r"
    using assms(2) by (auto split: prod.splits)
  with guard_reconcile_ok [OF assms(1)] show ?thesis by simp
next
  case (GO_fail summary)
  then obtain r where "guard_fail_activation tk D summary g w = (r, g', w')" "panics = is_panic r"
    using assms(2) by (auto split: prod.splits)
  with guard_fail_ok [OF assms(1)] show ?thesis by simp
next
  case (GO_finish_stop resumed)
  then obtain r where "guard_poll_finish_stop tk D ub resumed g w = (r, g', w')"
    "panics = (case r of None \<Rightarrow> False | Some r \<Rightarrow> is_panic r)"
    using assms(2) by (auto split: prod.splits)
  with guard_finish_ok [OF assms(1), of tk D ub resumed w r g' w'] show ?thesis
    by (auto split: option.splits) (metis is_panic.elims(2))
next
  case GO_abandon
  then obtain r where "guard_abandon tk g w = (r, g', w')" "panics = is_panic r"
    using assms(2) by (auto split: prod.splits)
  with with_slot_ok [OF assms(1) _ slot_abandon_keeps] show ?thesis unfolding guard_abandon_def by metis
next
  case (GO_environment change)
  with assms show ?thesis by simp
qed

interpretation guard_machine: invariant_machine "\<lambda>op st. snd (guard_step tk D ub op st)" "\<lambda>(g, n, w). guard_ok g"
  for tk :: "('t, 'k) cancellation_api" and D :: "('d, 'p, 's, 'e, 'v, 't, 'k, 'y) driver_api"
    and ub :: "('u, 'f, 'k, ('d, 'p, 't, 'y) dheap) callback_api"
proof
  fix st :: "('d, 'p, 's, 'e, 'v, 'u, 'f, 't, 'k, 'y) guard_system" and op
  assume "case st of (g, n, w) \<Rightarrow> guard_ok g"
  then show "case snd (guard_step tk D ub op st) of (g, n, w) \<Rightarrow> guard_ok g"
    by (cases st; cases "guard_step tk D ub op st") (auto dest: guard_step_ok)
qed

lemma guard_runs_same:
  fixes g :: "('u, 'f, 's, 'e, 'v, 't) activation_guard" and w :: "('d, 'p, 't, 'k, 'y) dwld"
  assumes "guard_ok g"
  shows "same_activation g (fst (fold (\<lambda>op st. snd (guard_step tk D ub op st)) ops (g, n, w)))"
proof -
  have "(\<lambda>a b. same_activation (fst a) (fst b)) (g, n, w)
      (fold (\<lambda>op st. snd (guard_step tk D ub op st)) ops (g, n, w))"
  proof (rule guard_machine.run_relates)
    fix op and st :: "('d, 'p, 's, 'e, 'v, 'u, 'f, 't, 'k, 'y) guard_system"
    assume "case st of (g, n, w) \<Rightarrow> guard_ok g"
    then show "same_activation (fst st) (fst (snd (guard_step tk D ub op st)))"
      by (cases st; cases "guard_step tk D ub op st") (auto dest: guard_step_ok)
  qed (use assms same_activation_trans in auto)
  then show ?thesis by simp
qed

lemma guard_drop_ok:
  assumes "guard_ok g" and "guard_drop tk D g w = (res, g', w')"
  shows "res = Accepted () \<and> same_activation g g' \<and> (\<exists>s. hg_slot g' = Some s \<and> slot_ok s) \<and>
    (\<exists>x. hg_start g' = Start_Complete (Inl x)) \<and> (\<not> guard_cancelled tk g w \<longrightarrow> \<not> guard_live g')"
proof -
  obtain g1 w1 where q: "(if guard_cancelled tk g w then (g, w) else snd (with_slot (slot_fail_activation tk (hg_epoch g)
      ''plugin activation owner dropped before controlled release'') g w)) = (g1, w1)" by fastforce
  have g1: "guard_ok g1" "same_activation g g1" "\<not> guard_cancelled tk g w \<longrightarrow> \<not> guard_live g1"
    using q assms(1) with_slot_fail [OF assms(1), of tk "''plugin activation owner dropped before controlled release''" w _ g1 w1]
    by (auto simp: snd_def split: if_splits prod.splits)
  have d: "discard_after_seal D g1 w1 = (res, g', w')"
    using assms unfolding guard_drop_def q by (auto simp: guard_ok_def)
  note k = discard_ok [OF g1(1) d]
  have "same_activation g g'" by (rule same_activation_trans [OF g1(2)]) (use k in simp)
  moreover have "guard_live g' \<longleftrightarrow> guard_live g1" by (rule guard_live_cong) (use k in simp_all)
  ultimately show ?thesis using k g1(3) by (auto simp: guard_ok_def)
qed

text \<open>
  C20. A guard never panics: whatever the driver does in its callbacks, be it that they panic, and whatever was done
  with the guard since it was prepared, with any change of the rest of the process in between, the next operation
  fails no assertion, \<open>expect\<close> or \<open>unreachable\<close>, the slot keeps its invariant, and the guard is still of the
  activation it was prepared for.
\<close>

theorem guard_never_panics:
  fixes g0 :: "('u, 'f, 's, 'e, 'v, 't) activation_guard" and w :: "('d, 'p, 't, 'k, 'y) dwld"
  assumes "slot_ok s" and "guard_prepare D e broker grants driver s w0 = (Accepted g0, s0, w1)"
    and "(g, n, w) = fold (\<lambda>op st. snd (guard_step tk D ub op st)) ops (g0, n0, w1)"
  shows "\<not> fst (guard_step tk D ub op (g, n, w)) \<and> hg_id g = \<lparr>ai_revision = eg_revision grants, ai_epoch = e\<rparr> \<and>
    hg_control g = hg_control g0 \<and> (\<exists>s'. hg_slot g = Some s' \<and> slot_ok s')"
proof -
  note ok0 = prepared_guard_ok(1) [OF assms(1,2)]
  have "case (g, n, w) of (g, n, w) \<Rightarrow> guard_ok g" unfolding assms(3) by (rule guard_machine.run_invariant) (simp add: ok0)
  then have ok: "guard_ok g" by simp
  have same: "same_activation g0 g"
    using guard_runs_same [OF ok0, of tk D ub ops n0 w1] assms(3) by (metis fst_conv)
  obtain b g' n' w' where "guard_step tk D ub op (g, n, w) = (b, g', n', w')" by (metis prod_cases4)
  with guard_step_ok [OF ok] have "\<not> fst (guard_step tk D ub op (g, n, w))" by fastforce
  moreover have "hg_id g0 = \<lparr>ai_revision = eg_revision grants, ai_epoch = e\<rparr>"
    using guard_prepare_outcome [OF assms(1,2)] by (simp add: prepare_outcome_def activation_prepared_def)
  ultimately show ?thesis using same ok by (auto simp: same_activation_def guard_ok_def)
qed

text \<open>
  C21. A guard that is dropped, or released before it is ready, leaves nothing running: the driver's start is discarded, no
  handle to the activation remains in the guard, and unless its cancellation was already requested
  the activation is sealed, so that the slot's owner regains a slot without a live activation of that epoch.
\<close>

theorem dropped_guard_is_sealed:
  fixes g0 :: "('u, 'f, 's, 'e, 'v, 't) activation_guard" and w :: "('d, 'p, 't, 'k, 'y) dwld"
  assumes "slot_ok s" and "guard_prepare D e broker grants driver s w0 = (Accepted g0, s0, w1)"
    and "(g, n, w) = fold (\<lambda>op st. snd (guard_step tk D ub op st)) ops (g0, n0, w1)"
    and "guard_drop tk D g w = (res, g', w') \<or>
      release_active tk D g w = (Rejected x, g', w')"
  shows "(\<exists>y. hg_start g' = Start_Complete (Inl y)) \<and>
    (\<exists>s'. hg_slot g' = Some s' \<and> slot_ok s' \<and> (\<not> guard_cancelled tk g w \<longrightarrow> \<not> live_at e s'))"
proof -
  note ok0 = prepared_guard_ok [OF assms(1,2)]
  have "case (g, n, w) of (g, n, w) \<Rightarrow> guard_ok g" unfolding assms(3) by (rule guard_machine.run_invariant) (simp add: ok0)
  then have ok: "guard_ok g" by simp
  have same: "same_activation g0 g"
    using guard_runs_same [OF ok0(1), of tk D ub ops n0 w1] assms(3) by (metis fst_conv)
  obtain r where "guard_drop tk D g w = (r, g', w')"
    using assms(4) by (auto simp: release_active_def Let_def split: sum.splits prod.splits attempt.splits if_splits)
  note d = guard_drop_ok [OF ok this]
  have "hg_epoch g' = e" using same d ok0(2) by (auto simp: same_activation_def hg_epoch_def)
  with d show ?thesis by (auto simp: guard_live_def)
qed

text \<open>
  C22. A poll of a running start. When the activation's cancellation was requested, the driver's future is
  not polled again: it is destroyed, the start settles with an error that says it was superseded (or that the
  destructor panicked), and the slot, whose stop is already under way, is left as it is. Otherwise the driver
  is polled once. While its future is pending the guard only keeps it. It is ready with a handle only when the
  driver reported readiness, its future was destroyed without a panic and the component became active; the
  handle is of this activation and the component is active under its epoch. Any other end, be it a driver's
  error or panic, leaves no live activation of that epoch. A start that settled, either way, stays settled:
  every later poll returns the same result and touches nothing.
\<close>

theorem activation_settles_safely:
  assumes "guard_ok g" and "hg_start g = Start_Running f"
    and "guard_poll_activate tk D core g w = (res, g', w')"
  shows "(if guard_cancelled tk g w
     then w' = snd (drop_start D f w) \<and> hg_slot g' = hg_slot g \<and>
       res = Accepted (Some (Inl (Start_Driver (hg_id g)
         (case dropped (fst (drop_start D f w)) of
            None \<Rightarrow> activation_cancelled ''activation was superseded''
          | Some summary \<Rightarrow> destructor_panicked summary)
         (Inl (already_stopping_error g)))))
     else case res of
       Accepted None \<Rightarrow> (\<exists>f1. poll_start D f w = (Inr None, f1, w') \<and> g' = g\<lparr>hg_start := Start_Running f1\<rparr>)
     | Accepted (Some (Inr h)) \<Rightarrow> handle_matches g h \<and>
         (\<exists>f1 w1. poll_start D f w = (Inr (Some (Inr ())), f1, w1) \<and> dropped (fst (drop_start D f1 w1)) = None) \<and>
         (\<exists>s. hg_slot g' = Some s \<and> live_at (hg_epoch g) s \<and> live_kind s = K_Active)
     | Accepted (Some (Inl _)) \<Rightarrow> (\<exists>s. hg_slot g' = Some s \<and> slot_ok s \<and> \<not> live_at (hg_epoch g) s)
     | _ \<Rightarrow> False) \<and>
    (res = Accepted (Some result) \<longrightarrow> guard_poll_activate tk D registry g' v = (res, g', v))"
proof (cases "guard_cancelled tk g w")
  case True
  obtain x w1 where d: "drop_start D f w = (x, w1)" by fastforce
  from True assms(2,3) d show ?thesis
    by (auto simp: guard_poll_activate_def poll_running_start_def drop_start_future_def settle_start_def)
next
  case False
  have q: "poll_running_start tk D core f g w = (res, g', w')" using assms(2,3) by (simp add: guard_poll_activate_def)
  from poll_running_settles [OF assms(1) False q] show ?thesis
  proof (elim disjE)
    assume s: "poll_settled g res g' \<and> fst (poll_start D f w) \<noteq> Inr None \<and>
      (\<forall>h. res = Accepted (Some (Inr h)) \<longrightarrow>
        (\<exists>f1 w1. poll_start D f w = (Inr (Some (Inr ())), f1, w1) \<and> dropped (fst (drop_start D f1 w1)) = None))"
    then have "hg_epoch g' = hg_epoch g" by (auto simp: poll_settled_def same_activation_epoch)
    moreover obtain y where "res = Accepted (Some y)" "hg_start g' = Start_Complete y"
      using s by (auto simp: poll_settled_def)
    ultimately show ?thesis using s False
      by (cases y) (auto simp: poll_settled_def guard_live_def guard_ok_def guard_poll_activate_def)
  qed (use False in auto)
qed

section \<open>Deactivation and health\<close>

text \<open>
  A poll of a deactivation that was not completed does not panic: it is pending with the driver's future kept, or it
  is ready, and then, whatever failed on the way, the driver's objects were taken out of the control and destroyed.
\<close>

lemma deactivation_disposes:
  assumes "deactivation_poll D a st w = (r, st', w')"
    and "(\<exists>i. st = Deactivation_Prepared (Some i)) \<or> (\<exists>f. st = Deactivation_Running f)"
  shows "(r = Inr None \<and> (\<exists>f. st' = Deactivation_Running f)) \<or>
    (\<exists>x v. r = Inr (Some x) \<and> st' = Deactivation_Complete \<and> w' = snd (control_dispose D a v))"
proof -
  define polled_ok where "polled_ok \<longleftrightarrow> (r = Inr None \<and> (\<exists>f. st' = Deactivation_Running f)) \<or>
    (\<exists>x v. r = Inr (Some x) \<and> st' = Deactivation_Complete \<and> w' = snd (control_dispose D a v))"
  have finish: polled_ok if "finish_deactivation D a failures v = (r, st', w')" for failures v
    using that unfolding polled_ok_def by (auto simp: finish_deactivation_def Let_def split: prod.splits intro: exI [of _ v])
  have running: polled_ok if q: "poll_running_deactivation D a f v = (r, st', w')" for f v
  proof (cases "fst (poll_deactivate D f v) = Inr None")
    case True
    with q show ?thesis by (cases "poll_deactivate D f v") (auto simp: poll_running_deactivation_def polled_ok_def)
  next
    case False
    obtain polled f1 v1 where p: "poll_deactivate D f v = (polled, f1, v1)" by (metis prod_cases3)
    with q False show ?thesis
      by (cases polled) (auto simp: poll_running_deactivation_def Let_def split: option.splits prod.splits intro: finish)
  qed
  have polled_ok using assms
    by (auto simp: deactivation_poll_def split: prod.splits sum.splits option.splits intro: finish running)
  then show ?thesis by (simp add: polled_ok_def)
qed

lemma map_sum_Inr_conv: "map_sum f g x = Inr y \<longleftrightarrow> (\<exists>z. x = Inr z \<and> y = g z)"
  by (cases x) auto

text \<open>A health observation is returned only for an activation that is not cancelled, before and after the probe.\<close>

lemma health_is_current:
  assumes "activation_health tk D h w = (Inr health, w')"
  shows "\<not> token_cancelled tk (ah_cancellation h) (tokens w) \<and> \<not> token_cancelled tk (ah_cancellation h) (tokens w') \<and>
    (\<exists>p v. po_prepared (control_of (ah_control h) w) = Some p \<and> prepared_health D p w = (Inr (Inr health), v))"
  using assms
  by (auto simp: activation_health_def with_prepared_def with_object_def map_sum_Inr_conv Let_def
      split: if_splits prod.splits sum.splits option.splits)

section \<open>A concrete activation\<close>

text \<open>A driver whose start future is pending at its first poll and ready at its second.\<close>

definition demo_driver_revision :: "nat plugin_revision_id" where
  "demo_driver_revision = \<lparr>ri_package_id = PluginPackageId ''a.b'', ri_version = \<lparr>pv_canonical = ''1.0.0'', pv_parsed = 1\<rparr>,
     ri_digest = PackageDigest ''d''\<rparr>"

definition demo_driver :: "(nat, nat, nat, nat, nat, nat list, nat \<times> nat list, unit) driver_api" where
  "demo_driver =
     \<lparr>driver_metadata = (\<lambda>d w. (Inr (NodeProcess, demo_driver_revision), w)),
      driver_prepare = (\<lambda>d rq w. (Inr (Inr 0), w)),
      prepared_id = (\<lambda>p w. (Inr \<lparr>ai_revision = demo_driver_revision, ai_epoch = demo_epoch\<rparr>, w)),
      prepared_start = (\<lambda>p permit w. (Inr 0, w)),
      poll_start = (\<lambda>f w. (Inr (if f = 0 then None else Some (Inr ())), 1, w)),
      drop_start = (\<lambda>f w. (Inr (), w)),
      prepared_health = (\<lambda>p w. (Inr (Inr Healthy), w)),
      prepared_deactivate = (\<lambda>p i w. (Inr 0, w)),
      poll_deactivate = (\<lambda>f w. (Inr (Some (Inr ())), f, w)),
      drop_deactivate = (\<lambda>f w. (Inr (), w)),
      drop_prepared = (\<lambda>p w. (Inr (), w)),
      drop_driver = (\<lambda>d w. (Inr (), w))\<rparr>"

definition demo_guard_world :: "(nat, nat, nat list, nat \<times> nat list, unit) dwld" where
  "demo_guard_world = snd (new_registry
     \<lparr>gates = \<lparr>gate_word = (\<lambda>_. 0), gate_drained = (\<lambda>_. False)\<rparr>, tokens = (0, []),
      next_scope_incarnation = 1, next_address = 10,
      outside = \<lparr>registries = (\<lambda>_. None), revoked_flags = (\<lambda>_. False), strong_counts = (\<lambda>_. 1),
        user_state = \<lparr>broker_cores = Map.empty, registration_words = (\<lambda>_. 0), provider_shares = (\<lambda>_. 1),
          next_broker_incarnation = 1, plugin_user = \<lparr>controls = (\<lambda>_. \<lparr>po_prepared = None, po_driver = None\<rparr>), driver_user = ()\<rparr>\<rparr>\<rparr>\<rparr>)"

type_synonym demo_guard_slot = "(nat, nat, nat, nat, nat list) plugin_slot"

definition demo_empty_slot :: demo_guard_slot where
  "demo_empty_slot = \<lparr>slot_instance = ComponentInstanceId ''i'', slot_incarnation = 1, slot_desired = None,
     known_revisions = [], slot_mounted = None, slot_last_stop = None\<rparr>"

definition demo_starting :: "(component_slot_error, component_slot_outcome) attempt \<times> demo_guard_slot \<times> u64
    \<times> (nat, nat, nat list, nat \<times> nat list, unit) dwld" where
  "demo_starting = slot_reconcile demo_tokens 10 demo_enabled demo_empty_slot 1 demo_guard_world"

definition demo_driver_grants :: "nat effective_grants" where
  "demo_driver_grants = \<lparr>eg_revision = demo_driver_revision, eg_driver = NodeProcess, eg_registrations = []\<rparr>"

definition demo_guard_prepare where
  "demo_guard_prepare = guard_prepare demo_driver demo_epoch \<lparr>cb_core = 0, cb_next_registration = 1\<rparr> demo_driver_grants 7
     (fst (snd demo_starting)) (snd (snd (snd demo_starting)))"

lemma demo_starting_ok: "slot_ok (fst (snd demo_starting))"
proof -
  have "new_slot (ComponentInstanceId ''i'') 1 = (Inr demo_empty_slot, 2)"
    by (simp add: new_slot_def u64_checked_succ_def demo_empty_slot_def)
  then have "slot_ok demo_empty_slot" by (rule new_slot_ok)
  then show ?thesis
    using slot_reconcile_ok(1) [of demo_empty_slot demo_tokens 10 demo_enabled 1 demo_guard_world "fst demo_starting"
      "fst (snd demo_starting)" "fst (snd (snd demo_starting))" "snd (snd (snd demo_starting))"]
    by (simp add: demo_starting_def)
qed

lemmas demo_guard_defs =
  demo_guard_prepare_def demo_starting_def demo_driver_grants_def demo_empty_slot_def demo_guard_world_def demo_driver_def
  demo_driver_revision_def guard_prepare_def control_new_def set_control_def on_plugins_def live_kind_def slot_resources_def
  component_resources_def with_driver_def with_prepared_def with_object_def control_of_def prepare_bindings_def and_then_def
  prepare_driver_def install_prepared_def prepare_admitted_def slot_defer_async_def component_defer_async_def defer_async_def
  demo_slot_defs

lemma demo_prepared: "\<exists>g. fst demo_guard_prepare = Accepted g"
  by (simp add: demo_guard_defs)

definition demo_guard :: "(nat, nat, nat, nat, nat, nat list) activation_guard" where
  "demo_guard = (case fst demo_guard_prepare of Accepted g \<Rightarrow> g)"

lemma demo_guard_prepared:
  "guard_prepare demo_driver demo_epoch \<lparr>cb_core = 0, cb_next_registration = 1\<rparr> demo_driver_grants 7
     (fst (snd demo_starting)) (snd (snd (snd demo_starting))) =
   (Accepted demo_guard, fst (snd demo_guard_prepare), snd (snd demo_guard_prepare))"
  unfolding demo_guard_prepare_def [symmetric] demo_guard_def using demo_prepared by (auto simp: prod_eq_iff)

theorem prepare_defers_deactivation_witness:
  "slot_ok (fst (snd demo_starting)) \<and>
   activation_prepared demo_epoch demo_driver_grants (fst (snd demo_starting)) (fst (snd demo_guard_prepare)) demo_guard"
  using prepare_defers_deactivation [OF demo_starting_ok demo_guard_prepared] demo_starting_ok by simp

text \<open>The guard after the first and after the second poll of its activation.\<close>

definition demo_guard_run where
  "demo_guard_run k = fold (\<lambda>op st. snd (guard_step demo_tokens demo_driver demo_user op st)) (replicate k (GO_activate 10))
     (demo_guard, 2, snd (snd demo_guard_prepare))"

lemma demo_guard_run_eq:
  "(fst (demo_guard_run k), fst (snd (demo_guard_run k)), snd (snd (demo_guard_run k))) =
     fold (\<lambda>op st. snd (guard_step demo_tokens demo_driver demo_user op st)) (replicate k (GO_activate 10))
       (demo_guard, 2, snd (snd demo_guard_prepare))"
  by (simp add: demo_guard_run_def)

theorem guard_never_panics_witness:
  "\<not> fst (guard_step demo_tokens demo_driver demo_user (GO_fail ''no'') (demo_guard_run 2)) \<and>
   hg_id (fst (demo_guard_run 2)) = \<lparr>ai_revision = demo_driver_revision, ai_epoch = demo_epoch\<rparr>"
  using guard_never_panics [OF demo_starting_ok demo_guard_prepared demo_guard_run_eq [of 2], of "GO_fail ''no''"]
  by (simp add: demo_driver_grants_def)

lemma demo_guard_running:
  "hg_start (fst (demo_guard_run 1)) = Start_Running 1"
  "\<not> guard_cancelled demo_tokens (fst (demo_guard_run 1)) (snd (snd (demo_guard_run 1)))"
  by (simp_all add: demo_guard_run_def demo_guard_def guard_poll_activate_def guard_cancelled_def poll_running_start_def
      demo_guard_defs)

theorem dropped_guard_is_sealed_witness:
  "\<exists>g s'. g = fst (snd (guard_drop demo_tokens demo_driver (fst (demo_guard_run 1)) (snd (snd (demo_guard_run 1))))) \<and>
     hg_slot g = Some s' \<and> \<not> live_at demo_epoch s'"
proof -
  let ?d = "guard_drop demo_tokens demo_driver (fst (demo_guard_run 1)) (snd (snd (demo_guard_run 1)))"
  have d: "?d = (fst ?d, fst (snd ?d), snd (snd ?d)) \<or>
      release_active demo_tokens demo_driver (fst (demo_guard_run 1)) (snd (snd (demo_guard_run 1))) =
      (Rejected undefined, fst (snd ?d), snd (snd ?d))" by simp
  from dropped_guard_is_sealed [OF demo_starting_ok demo_guard_prepared demo_guard_run_eq [of 1] d] demo_guard_running(2)
  show ?thesis by auto
qed

theorem activation_settles_safely_witness:
  "\<exists>h g s. guard_poll_activate demo_tokens demo_driver 10 (fst (demo_guard_run 1)) (snd (snd (demo_guard_run 1))) =
       (Accepted (Some (Inr h)), g, snd (snd (demo_guard_run 2))) \<and>
     handle_matches (fst (demo_guard_run 1)) h \<and> hg_slot g = Some s \<and> live_kind s = K_Active"
proof -
  let ?p = "guard_poll_activate demo_tokens demo_driver 10 (fst (demo_guard_run 1)) (snd (snd (demo_guard_run 1)))"
  have ok: "guard_ok (fst (demo_guard_run 1))"
    using guard_machine.run_invariant [of "(demo_guard, 2, snd (snd demo_guard_prepare))" demo_tokens demo_driver demo_user
      "replicate 1 (GO_activate 10)"] prepared_guard_ok(1) [OF demo_starting_ok demo_guard_prepared]
    by (simp add: demo_guard_run_def case_prod_beta)
  have p: "?p = (fst ?p, fst (snd ?p), snd (snd ?p))" by simp
  have "\<exists>h. fst ?p = Accepted (Some (Inr h))"
    by (simp add: demo_guard_run_def demo_guard_def guard_poll_activate_def guard_cancelled_def poll_running_start_def
        complete_ready_def drop_start_future_def dropped_def with_slot_def settle_start_def hg_epoch_def demo_guard_defs)
  then obtain h where h: "fst ?p = Accepted (Some (Inr h))" by blast
  have "snd (snd ?p) = snd (snd (demo_guard_run 2))"
    by (simp add: demo_guard_run_def numeral_2_eq_2 case_prod_beta)
  with activation_settles_safely [OF ok demo_guard_running(1) p, where result = "Inr h" and registry = 10 and v = "snd (snd ?p)"]
    demo_guard_running(2) h p show ?thesis
    by (auto simp: prod_eq_iff)
qed

end
