(* ===== verification/Compose_Slot_Safety.thy ===== *)
theory Compose_Slot_Safety
  imports Compose_Slot_Runs
begin

text \<open>
  The identities a slot publishes under stay fresh, so that the uniqueness assertion of the registry never
  fails behind a slot. The rest of the process may do anything with the registry that its interface allows:
  publish under scopes of its own, withdraw, discover and bind, and allocate scope incarnations.
\<close>

section \<open>What a teardown does to the world\<close>

text \<open>A poll of a close relates two worlds by any preorder that its callbacks and the sealing of a scope obey.\<close>

lemma poll_relates:
  fixes tk :: "('t, 'k) cancellation_api" and cb :: "('c, 'f, 'k, 'x) callback_api"
    and R :: "('k, 'x) world \<Rightarrow> ('k, 'x) world \<Rightarrow> bool"
  assumes r: "\<And>w. R w w" and t: "\<And>u v w. R u v \<Longrightarrow> R v w \<Longrightarrow> R u w"
    and stop: "\<And>sc :: ('c, 'f, 't) effect_scope. \<And>w. R w (request_stop_of tk sc w)"
    and sync: "\<And>c w. R w (snd (call_sync cb c w))" and async: "\<And>c w. R w (snd (call_async cb c w))"
    and poll: "\<And>f w. R w (snd (snd (poll_future cb f w)))" and dropf: "\<And>f w. R w (snd (drop_future cb f w))"
  shows "poll_close tk cb sc w = (x1, sc', w') \<Longrightarrow> R w w'"
    and "poll_loop tk cb s q es c steps w = (x2, st, w') \<Longrightarrow> R w w'"
    and "poll_current tk cb d w = (x3, w') \<Longrightarrow> R w w'"
  using stop sync async poll dropf
proof (induction tk cb sc w and tk cb s q es c steps w and tk cb d w arbitrary: x1 sc' w' and x2 st w' and x3 w'
    rule: poll_close_poll_loop_poll_current.induct)
  case (1 tk cb sc w)
  note rely = "1.prems"(2-6)
  obtain sc1 w1 where b: "begin_close tk sc w = (sc1, w1)" by fastforce
  have first: "R w w1" using b r rely(1) by (auto simp: begin_close_def split: scope_storage.splits)
  show ?case
  proof (cases "es_storage sc1")
    case (Scope_Closing q es c steps)
    with "1.prems"(1) b obtain st where "poll_loop tk cb sc1 q es c steps w1 = (x1, st, w')"
      by (auto simp: poll_close.simps split: prod.splits)
    from t [OF first "1.IH" [OF b [symmetric] refl Scope_Closing this rely]] show ?thesis .
  qed (use "1.prems"(1) b first in \<open>auto simp: poll_close.simps\<close>)
next
  case (2 tk cb sc q es c steps w)
  note rely = "2.prems"(2-6)
  show ?case
  proof (cases rule: loop_cases [where tk = tk and cb = cb and sc = sc and q = q and es = es and c = c
        and steps = steps and w = w])
    case (pending d d' w1)
    with "2.prems"(1) "2.IH"(5) [OF pending(1,2,3) rely] show ?thesis by simp
  next
    case (settled d step w1)
    from t [OF "2.IH"(5) [OF settled(1-3) rely]
        "2.IH"(6) [OF settled(1,2) settled(3) [symmetric] refl trans [OF settled(4) [symmetric] "2.prems"(1)] rely]]
    show ?thesis .
  next
    case (sync i label k res w1)
    from rely(2) [of w k] sync(5) have "R w w1" by simp
    from t [OF this "2.IH"(1) [OF sync(1-4) refl sync(5) [symmetric] trans [OF sync(6) [symmetric] "2.prems"(1)] rely]]
    show ?thesis .
  next
    case (async i label k f w1)
    from rely(3) [of w k] async(5) have "R w w1" by simp
    from t [OF this "2.IH"(3) [OF async(1-4) async(5) [symmetric] refl trans [OF async(6) [symmetric] "2.prems"(1)] rely]]
    show ?thesis .
  next
    case (async_panics i label k p w1)
    from rely(3) [of w k] async_panics(5) have "R w w1" by simp
    from t [OF this "2.IH"(2) [OF async_panics(1-4) async_panics(5) [symmetric] refl
        trans [OF async_panics(6) [symmetric] "2.prems"(1)] rely]]
    show ?thesis .
  next
    case (child ch ch' w1)
    have "R w w1" using child(5) r rely(1) by (auto simp: begin_close_def split: scope_storage.splits)
    from t [OF this "2.IH"(4) [OF child(1-4) refl refl child(5) [symmetric]
        trans [OF child(6) [symmetric] "2.prems"(1)] rely]]
    show ?thesis .
  qed (use "2.prems"(1) r in simp_all)
next
  case (3 tk cb i label f w)
  note rely = "3.prems"(2-6)
  have after: "R v (snd (outcome_after_future_drop cb out f v))" for out f v
    using rely(5) [of v f] by (auto simp: outcome_after_future_drop_def split: prod.splits sum.splits)
  obtain y f' w1 where p: "poll_future cb f w = (y, f', w1)" by (cases "poll_future cb f w")
  have "R w w1" using rely(4) [of w f] p by simp
  with "3.prems"(1) p t [OF \<open>R w w1\<close> after] show ?case
    by (auto simp: Let_def split: sum.splits option.splits prod.splits) (metis after snd_conv t)+
next
  case (4 tk cb ch already w)
  note rely = "4.prems"(2-6)
  obtain y ch' w1 where p: "poll_close tk cb ch w = (y, ch', w1)" by (metis prod_cases3)
  have "R w w1" by (rule "4.IH" [OF p rely])
  with "4.prems"(1) p rely(1) show ?case by (cases y) (auto simp: drop_scope_def intro: t)
qed

section \<open>Identities that were handed out\<close>

abbreviation provider_ids :: "address \<Rightarrow> ('t, 'k, 'y) swld \<Rightarrow> provider_registration_id set" where
  "provider_ids core w \<equiv> bt_dom (providers (registry_of core w))"

abbreviation provider_incarnation :: "provider_registration_id \<Rightarrow> u64" where
  "provider_incarnation p \<equiv> scope_incarnation (provider_effect_scope p)"

text \<open>Every provider in the registry was published by a scope whose incarnation was allocated before.\<close>

definition registered_below :: "address \<Rightarrow> ('t, 'k, 'y) swld \<Rightarrow> bool" where
  "registered_below core w \<longleftrightarrow> (\<forall>p \<in> provider_ids core w. provider_incarnation p < next_scope_incarnation w)"

text \<open>
  What code outside a slot may do: incarnations are only allocated, never returned, and a provider that
  appears was published by a scope with an allocated incarnation.
\<close>

definition grows :: "address \<Rightarrow> ('t, 'k, 'y) swld \<Rightarrow> ('t, 'k, 'y) swld \<Rightarrow> bool" where
  "grows core w w' \<longleftrightarrow>
     next_scope_incarnation w \<le> next_scope_incarnation w' \<and>
     (\<forall>p \<in> provider_ids core w'. p \<in> provider_ids core w \<or> provider_incarnation p < next_scope_incarnation w')"

lemma grows_refl [simp]: "grows core w w"
  by (simp add: grows_def)

lemma grows_trans: "grows core u v \<Longrightarrow> grows core v w \<Longrightarrow> grows core u w"
  unfolding grows_def by (meson le_trans less_le_trans)

lemma grows_fewer:
  "provider_ids core w' \<subseteq> provider_ids core w \<Longrightarrow> next_scope_incarnation w \<le> next_scope_incarnation w' \<Longrightarrow> grows core w w'"
  by (auto simp: grows_def)

lemma grows_registered: "grows core w w' \<Longrightarrow> registered_below core w \<Longrightarrow> registered_below core w'"
  unfolding grows_def registered_below_def by (meson less_le_trans)

lemma same_heap: "outside w' = outside w \<Longrightarrow> registry_of core w' = registry_of core w"
  by (simp add: registry_of_def)

lemma request_stop_heap [simp]:
  "outside (request_stop_of tk sc w) = outside w"
  "next_scope_incarnation (request_stop_of tk sc w) = next_scope_incarnation w"
  "registry_of core (request_stop_of tk sc w) = registry_of core w"
  by (simp_all add: request_stop_of_def registry_of_def)

lemma grows_same: "outside w' = outside w \<Longrightarrow> next_scope_incarnation w' = next_scope_incarnation w \<Longrightarrow> grows core w w'"
  by (rule grows_fewer) (simp_all add: registry_of_def)

lemma grows_withdrawal: "grows core w (run_withdrawal core' marker val w)"
proof (rule grows_fewer)
  show "provider_ids core (run_withdrawal core' marker val w) \<subseteq> provider_ids core w"
  proof (cases "core' = core")
    case True
    then show ?thesis
      by (auto simp: run_withdrawal_def withdraw_providers split: option.splits)
  next
    case False
    then have "registries (outside (withdraw core' marker w)) core = registries (outside w) core"
      by (auto simp: withdraw_def Let_def set_registry_def revoke_flag_def drop_strong_def split: option.splits)
    then show ?thesis by (simp add: run_withdrawal_def registry_of_def)
  qed
qed simp

text \<open>User callbacks that use the registry only through its interface.\<close>

definition considerate :: "address \<Rightarrow> ('u, 'f, 'k, ('t, 'y) service_heap) callback_api \<Rightarrow> bool" where
  "considerate core ub \<longleftrightarrow>
     (\<forall>c w. grows core w (snd (call_sync ub c w))) \<and> (\<forall>c w. grows core w (snd (call_async ub c w))) \<and>
     (\<forall>f w. grows core w (snd (snd (poll_future ub f w)))) \<and> (\<forall>f w. grows core w (snd (drop_future ub f w)))"

lemma poll_close_grows:
  fixes tk :: "('t, 'k) cancellation_api" and ub :: "('u, 'f, 'k, ('t, 'y) service_heap) callback_api"
  assumes "considerate core ub" and "poll_close tk (service_callbacks ub) sc w = (x, sc', w')"
  shows "grows core w w'"
  by (rule poll_relates(1) [where R = "grows core", OF _ _ _ _ _ _ _ assms(2)])
    (use assms(1) in \<open>auto simp: considerate_def service_callbacks_def grows_withdrawal intro: grows_trans grows_same
      split: cleanup.splits\<close>)

section \<open>Fresh identities\<close>

definition activation_fresh ::
  "address \<Rightarrow> ('u, 'f, 't) activation_resources option \<Rightarrow> ('t, 'k, 'y) swld \<Rightarrow> bool" where
  "activation_fresh core x w \<longleftrightarrow>
     registered_below core w \<and>
     (\<forall>r. x = Some r \<longrightarrow> scope_incarnation (es_id (ar_effects r)) < next_scope_incarnation w \<and>
        (es_state (ar_effects r) = Scope_Is_Open \<longrightarrow> published_below (ar_effects r) (registry_of core w)))"

lemma fresh_quiet:
  assumes "activation_fresh core x w" and "provider_ids core w' \<subseteq> provider_ids core w"
    and "next_scope_incarnation w' = next_scope_incarnation w"
  shows "activation_fresh core x w'"
  using assms(1,3) subsetD [OF assms(2)] unfolding activation_fresh_def registered_below_def published_below_def by metis

lemma fresh_scope:
  assumes "activation_fresh core (Some r) w" and "es_id (ar_effects r') = es_id (ar_effects r)"
    and "es_state (ar_effects r') = Scope_Is_Open \<Longrightarrow> es_state (ar_effects r) = Scope_Is_Open \<and>
      es_next_registration (ar_effects r) \<le> es_next_registration (ar_effects r')"
  shows "activation_fresh core (Some r') w"
proof -
  have "published_below (ar_effects r') (registry_of core w)" if o: "es_state (ar_effects r') = Scope_Is_Open"
  proof -
    have "published_below (ar_effects r) (registry_of core w)" using assms(1,3) o by (simp add: activation_fresh_def)
    with assms(2,3) o show ?thesis unfolding published_below_def by (metis less_le_trans)
  qed
  with assms(1,2) show ?thesis by (simp add: activation_fresh_def)
qed

lemma fresh_sealed:
  assumes "activation_fresh core (Some r) w" and "grows core w w'" and "es_id (ar_effects r') = es_id (ar_effects r)"
    and "es_state (ar_effects r') \<noteq> Scope_Is_Open"
  shows "activation_fresh core (Some r') w'"
  using assms grows_registered [OF assms(2)] unfolding activation_fresh_def grows_def by (auto intro: less_le_trans)

lemma fresh_dropped: "activation_fresh core x w \<Longrightarrow> grows core w w' \<Longrightarrow> activation_fresh core None w'"
  using grows_registered unfolding activation_fresh_def by auto

lemma resolve_world:
  assumes "resolve_assignments tk core a c w = (x, w')"
  shows "providers (registry_of core w') = providers (registry_of core w)"
    and "next_scope_incarnation w' = next_scope_incarnation w"
proof -
  obtain y where i: "registry_inventory tk core (requirements (rc_definition c)) (instance_scope (rc_instance c)) w = (y, w')"
    using assms by (auto simp: resolve_assignments_def split: prod.splits sum.splits)
  show "providers (registry_of core w') = providers (registry_of core w)"
    using inventory_learns [OF i] by (simp add: learns_def)
  show "next_scope_incarnation w' = next_scope_incarnation w"
    using discovery_incarnation(2) [of tk core "requirements (rc_definition c)" "instance_scope (rc_instance c)" w] i by simp
qed

lemma resolve_fresh:
  "activation_fresh core x w \<Longrightarrow> resolve_assignments tk core a c w = (y, w') \<Longrightarrow> activation_fresh core x w'"
  by (erule fresh_quiet) (simp_all add: resolve_world [of tk core a c w y w'])

lemma begin_stop_fresh:
  assumes "activation_fresh core (rc_activation c) w" and "component_begin_stop tk reason target c w = (res, c', w')"
  shows "activation_fresh core (rc_activation c') w'"
proof (cases "rc_activation c")
  case None
  with assms show ?thesis by (auto simp: component_begin_stop_def)
next
  case (Some r)
  obtain sc w1 where b: "begin_close tk (ar_effects r) w = (sc, w1)" by fastforce
  have sealed: "activation_fresh core (Some (r\<lparr>ar_stop_reason := Some reason, ar_effects := sc\<rparr>)) w1"
    by (rule fresh_sealed [OF assms(1) [unfolded Some]])
      (use begin_close_world [OF b] begin_close_sel [OF b] in \<open>auto intro: grows_same\<close>)
  with assms Some b show ?thesis
    by (auto simp: component_begin_stop_def Let_def split: prod.splits sum.splits)
qed

text \<open>A scope that was just created has published nothing: its incarnation is above every registered one.\<close>

lemma new_scope_fresh:
  assumes "activation_fresh core x w" and "new_scope tk label a w = (Inr sc, w')" and "ar_effects r = sc"
  shows "activation_fresh core (Some r) w'"
proof -
  note n = new_scope_world [OF assms(2)]
  have inc: "scope_incarnation (es_id sc) = next_scope_incarnation w" "next_scope_incarnation w' = Suc (next_scope_incarnation w)"
    using n(3) by simp_all
  have same: "registry_of core w' = registry_of core w" by (rule same_heap [OF n(1)])
  have below: "provider_incarnation p < next_scope_incarnation w" if "p \<in> provider_ids core w" for p
    using assms(1) that unfolding activation_fresh_def registered_below_def by blast
  then have "published_below sc (registry_of core w')"
    unfolding published_below_def same using inc(1) by fastforce
  moreover have "registered_below core w'"
    unfolding registered_below_def same inc(2) using below by (meson less_SucI)
  ultimately show ?thesis using inc assms(3) by (simp add: activation_fresh_def)
qed

lemma reconcile_pending_fresh:
  fixes c :: "('u, 'f, 't) reconciled_component"
  assumes "activation_fresh core (rc_activation c) w" and "reconcile_pending tk core desired c w = (res, c', w')"
  shows "activation_fresh core (rc_activation c') w'"
proof (cases "rc_activation c")
  case (Some r)
  with assms show ?thesis by (auto simp: reconcile_pending_def)
next
  case None
  obtain x w1 where ra: "resolve_assignments tk core desired c w = (x, w1)" by fastforce
  have f1: "activation_fresh core (rc_activation c) w1" by (rule resolve_fresh [OF assms(1) ra])
  obtain y i where bs: "begin_start (rc_instance c) = (y, i)" by fastforce
  have "activation_fresh core (rc_activation c') w'"
    if go: "x = Inr (Resolution_Ready ps)" "y = Inr act" for ps act
  proof -
    obtain z :: "effect_scope_error + ('u cleanup, 'f, 't) effect_scope" and w2 where ns: "new_scope tk (instance_id_text (instance_id i) @ '' activation '' @ epoch_text act) act w1
        = (z, w2)" by fastforce
    show ?thesis
    proof (cases z)
      case (Inl e)
      with new_scope_world(2) [OF ns] have "w2 = w1" by simp
      with None assms(2) ra bs go ns Inl f1 show ?thesis
        by (auto simp: reconcile_pending_def split: prod.splits sum.splits)
    next
      case (Inr sc)
      from new_scope_fresh [OF f1 ns [unfolded Inr]] None assms(2) ra bs go ns Inr show ?thesis
        by (auto simp: reconcile_pending_def Let_def)
    qed
  qed
  moreover have "rc_activation c' = rc_activation c \<and> w' = w1"
    if "\<nexists>ps act. x = Inr (Resolution_Ready ps) \<and> y = Inr act"
    using None assms(2) ra bs that
    by (auto simp: reconcile_pending_def split: sum.splits assignment_resolution.splits)
  ultimately show ?thesis using f1 by metis
qed

lemma reconcile_live_fresh:
  assumes "activation_fresh core (rc_activation c) w" and "reconcile_live tk core desired state c w = (res, c', w')"
  shows "activation_fresh core (rc_activation c') w'"
proof (cases "rc_activation c")
  case None
  with assms show ?thesis by (auto simp: reconcile_live_def)
next
  case (Some r)
  obtain x w1 where ra: "resolve_assignments tk core (sel_assignments (ar_selection r)) c w = (x, w1)" by fastforce
  have f1: "activation_fresh core (rc_activation c) w1" by (rule resolve_fresh [OF assms(1) ra])
  show ?thesis
    using assms Some ra f1 begin_stop_fresh [OF assms(1)] begin_stop_fresh [OF f1]
    by (auto simp: reconcile_live_def Let_def
        split: if_splits sum.splits assignment_resolution.splits component_state_kind.splits)
qed

lemma reconcile_fresh:
  assumes "activation_fresh core (rc_activation c) w" and "reconcile tk core desired c w = (res, c', w')"
  shows "activation_fresh core (rc_activation c') w'"
  using assms(2)
  by (cases rule: reconcile_cases) (use assms(1) reconcile_pending_fresh reconcile_live_fresh in auto)

lemma complete_start_fresh:
  assumes "activation_fresh core (rc_activation c) w" and "component_complete_start tk core e desired c w = (res, c', w')"
  shows "activation_fresh core (rc_activation c') w'"
proof (cases "rc_selection c")
  case None
  with assms show ?thesis by (auto simp: component_complete_start_def split: sum.splits if_splits)
next
  case (Some sel)
  obtain x w1 where ra: "resolve_assignments tk core (sel_assignments sel) c w = (x, w1)" by fastforce
  have f1: "activation_fresh core (rc_activation c) w1" by (rule resolve_fresh [OF assms(1) ra])
  show ?thesis
    using assms Some ra f1 begin_stop_fresh [OF assms(1)] begin_stop_fresh [OF f1]
    by (auto simp: component_complete_start_def Let_def
        split: if_splits sum.splits assignment_resolution.splits prod.splits)
qed

lemma fail_fresh:
  assumes "activation_fresh core (rc_activation c) w" and "fail_activation tk e summary c w = (res, c', w')"
  shows "activation_fresh core (rc_activation c') w'"
proof -
  have stop: "activation_fresh core (rc_activation d') v"
    if "component_begin_stop tk reason target (c\<lparr>rc_instance := i\<rparr>) w = (y, d', v)" for reason target i y d' v
    using begin_stop_fresh [OF _ that] assms(1) by simp
  show ?thesis
    using assms stop by (auto simp: fail_activation_def Let_def split: sum.splits prod.splits option.splits)
qed

lemma request_stop_fresh:
  assumes "activation_fresh core (rc_activation c) w" and "request_component_stop tk reason target c w = (res, c', w')"
  shows "activation_fresh core (rc_activation c') w'"
  using assms begin_stop_fresh [OF assms(1)]
  by (auto simp: request_component_stop_def split: component_state.splits if_splits prod.splits sum.splits)

lemma bind_service_fresh:
  assumes "activation_fresh core x w" and "bind_service tk core i sc q p w = (y, w')"
  shows "activation_fresh core x w'"
  by (rule fresh_quiet [OF assms(1)])
    (use bind_learns [OF assms(2)] discovery_incarnation(5) [of tk core i sc q p w] assms(2) in \<open>simp_all add: learns_def\<close>)

lemma bind_fresh:
  assumes "activation_fresh core x w" and "component_bind tk core e q c w = (res, w')"
  shows "activation_fresh core x w'"
  using assms(2) assms(1)
  by (auto simp: component_bind_def dest: bind_service_fresh [OF assms(1)]
      split: if_splits sum.splits option.splits prod.splits)

text \<open>A publication takes the next identity of its scope, and the scope moves past it.\<close>

lemma provide_fresh:
  assumes "activation_fresh core (Some r) w" and "provide core owner provider (ar_effects r) w = (res, sc, w')"
    and "es_state (ar_effects r) = Scope_Is_Open"
  shows "activation_fresh core (Some (r\<lparr>ar_effects := sc\<rparr>)) w'"
  using assms(2)
proof (cases rule: provide_cases)
  case (rejected e)
  with assms(1) show ?thesis by (simp add: fresh_quiet)
next
  case (published w1)
  let ?p = "ProviderRegistrationId (EffectRegistrationId (es_id (ar_effects r)) (es_next_registration (ar_effects r)))"
  let ?e = "provided_entry owner provider (ar_effects r) (next_address w)"
  have ids: "provider_ids core w' = insert ?p (provider_ids core w)"
    using or_insert_learns [of "registry_of core w1"] published(2,6)
    by (auto simp: publish_def Let_def learns_def provided_entry_def)
  have inc: "next_scope_incarnation w' = next_scope_incarnation w"
    using published(3,6) by (simp add: publish_def Let_def)
  have below: "published_below (ar_effects r) (registry_of core w)" "registered_below core w"
    "scope_incarnation (es_id (ar_effects r)) < next_scope_incarnation w"
    using assms(1,3) by (simp_all add: activation_fresh_def)
  have "registered_below core w'"
    using below(2,3) unfolding registered_below_def ids inc by (auto simp: provider_effect_scope_def)
  moreover have "published_below sc (registry_of core w')"
    using below(1) published(4,5) unfolding published_below_def ids
    by (auto simp: provider_effect_scope_def less_Suc_eq)
  ultimately show ?thesis using below(3) published(4) inc by (simp add: activation_fresh_def)
qed

lemma component_provide_fresh:
  assumes "component_ok c" and "activation_fresh core (rc_activation c) w"
    and "component_provide core e provider c w = (res, c', w')"
  shows "activation_fresh core (rc_activation c') w'"
proof (cases "rc_kind c = K_Active \<and> require_epoch e c = Inr ()")
  case False
  then have "c' = c" "w' = drop_strong (sp_value provider) w"
    using assms(3) by (auto simp: component_provide_def split: if_splits sum.splits)
  with assms(2) show ?thesis by (simp add: fresh_quiet)
next
  case True
  then obtain r where r: "rc_activation c = Some r" by (auto simp: require_epoch_Inr)
  with True assms(1) have "es_state (ar_effects r) = Scope_Is_Open"
    by (auto simp: component_ok_def live_resources_def split: component_state.splits)
  moreover obtain x sc v where p: "provide core (rc_instance c) provider (ar_effects r) w = (x, sc, v)" by (metis prod_cases3)
  ultimately have "activation_fresh core (Some (r\<lparr>ar_effects := sc\<rparr>)) v" using provide_fresh assms(2) r by metis
  with assms(3) True r p show ?thesis by (auto simp: component_provide_def with_effects_def)
qed

lemma defer_keeps_more:
  assumes "defer_sync l cl sc = (x, sc') \<or> defer_async l cl sc = (x, sc')"
  shows "es_id sc' = es_id sc" and "es_state sc' = es_state sc" and "es_next_registration sc \<le> es_next_registration sc'"
proof -
  show "es_id sc' = es_id sc" "es_state sc' = es_state sc"
    using assms defer_sync_keeps defer_async_keeps by metis+
  show "es_next_registration sc \<le> es_next_registration sc'"
    using assms
    by (auto simp: defer_sync_def defer_async_def allocate_registration_def u64_checked_succ_def Let_def
        split: prod.splits sum.splits option.splits if_splits)
qed

lemma component_defer_fresh:
  assumes "activation_fresh core (rc_activation c) w" and "component_defer d e c = (res, c')"
    and "d = defer_sync l cl \<or> d = defer_async l cl"
  shows "activation_fresh core (rc_activation c') w"
proof (cases "rc_activation c")
  case None
  with assms(1,2) no_activation_no_effect(2) show ?thesis by metis
next
  case (Some r)
  obtain x sc where q: "d (ar_effects r) = (x, sc)" by fastforce
  have "activation_fresh core (Some (r\<lparr>ar_effects := sc\<rparr>)) w"
    by (rule fresh_scope [OF assms(1) [unfolded Some]])
      (use q assms(3) defer_keeps_more [of l cl "ar_effects r" x sc] in auto)
  with assms(1,2) Some q show ?thesis
    by (auto simp: component_defer_def with_effects_def split: sum.splits)
qed

lemma finish_completed_fresh:
  assumes "activation_fresh core (rc_activation c) w" and "finish_completed tk e d r c w = (res, c', w')"
  shows "activation_fresh core (rc_activation c') w'"
  using assms fresh_dropped [OF assms(1), of "drop_scope tk (ar_effects r) w"]
  by (auto simp: finish_completed_def drop_scope_def grows_same split: prod.splits sum.splits)

lemma poll_finish_fresh:
  fixes c :: "('u, 'f, 't) reconciled_component"
  assumes "considerate core ub" and "activation_fresh core (rc_activation c) w"
    and "poll_finish_stop tk ub e c w = (res, c', w')"
  shows "activation_fresh core (rc_activation c') w'"
proof (cases "rc_activation c")
  case None
  with assms(2,3) show ?thesis
    by (auto simp: poll_finish_stop_def require_epoch_def split: if_splits component_state.splits)
next
  case (Some r)
  obtain x sc v where p: "poll_close tk (service_callbacks ub) (ar_effects r) w = (x, sc, v)" by (metis prod_cases3)
  have sealed: "activation_fresh core (Some r') v" if "ar_effects r' = sc" for r' :: "('u, 'f, 't) activation_resources"
    by (rule fresh_sealed [OF assms(2) [unfolded Some] poll_close_grows [OF assms(1) p]])
      (use poll_close_state [OF p] that in simp_all)
  have complete: "activation_fresh core (rc_activation d') v'"
    if "finish_completed tk e k r' (c\<lparr>rc_last_close_report := b, rc_activation := Some r'\<rparr>) v = (y, d', v')"
      "ar_effects r' = sc" for k r' b y d' v'
    using finish_completed_fresh [OF _ that(1)] sealed [OF that(2)] by simp
  show ?thesis
    using assms(2,3) Some p sealed complete
    by (auto simp: poll_finish_stop_def with_effects_def Let_def
        split: if_splits sum.splits component_state.splits option.splits prod.splits)
qed

lemma abandon_fresh:
  assumes "activation_fresh core (rc_activation c) w" and "abandon_failed_cleanup tk e c w = (res, c', w')"
  shows "activation_fresh core (rc_activation c') w'"
  using assms finish_completed_fresh [OF assms(1)]
  by (auto simp: abandon_failed_cleanup_def split: if_splits sum.splits component_state.splits option.splits prod.splits)

section \<open>Slots\<close>

definition slot_activation :: "('u, 'f, 't) component_slot \<Rightarrow> ('u, 'f, 't) activation_resources option" where
  "slot_activation s = Option.bind (slot_mounted s) (\<lambda>m. rc_activation (mounted_component m))"

definition slot_fresh :: "address \<Rightarrow> ('u, 'f, 't) component_slot \<Rightarrow> ('t, 'k, 'y) swld \<Rightarrow> bool" where
  "slot_fresh core s w \<longleftrightarrow> activation_fresh core (slot_activation s) w"

lemma slot_activation_simps [simp]:
  "slot_mounted s = None \<Longrightarrow> slot_activation s = None"
  "slot_mounted s = Some m \<Longrightarrow> slot_activation s = rc_activation (mounted_component m)"
  "slot_mounted s = Some m \<Longrightarrow> slot_activation (with_component c s) = rc_activation c"
  "slot_activation (s\<lparr>slot_mounted := None\<rparr>) = None"
  "slot_activation (s\<lparr>slot_mounted := Some m\<rparr>) = rc_activation (mounted_component m)"
  by (simp_all add: slot_activation_def with_component_def)

lemma accept_desired_activation: "accept_desired d s = (x, s') \<Longrightarrow> slot_activation s' = slot_activation s"
  by (auto simp: accept_desired_def slot_activation_def split: option.splits if_splits sum.splits)

lemma drop_component_grows: "grows core w (drop_component tk c w)"
  by (auto simp: drop_component_def drop_scope_def grows_same split: option.splits)

lemma on_mounted_fresh:
  assumes "slot_ok s" and "slot_fresh core s w" and "on_mounted operation s w = (res, s', w')"
    and "\<And>a c x c' v. component_ok c \<Longrightarrow> activation_fresh core (rc_activation c) w \<Longrightarrow>
      operation a c w = (x, c', v) \<Longrightarrow> activation_fresh core (rc_activation c') v"
  shows "slot_fresh core s' w'"
  using assms(3)
proof (cases rule: on_mounted_cases)
  case (ran a m x c)
  have "activation_fresh core (rc_activation (mounted_component m)) w" using assms(2) ran(2) by (simp add: slot_fresh_def)
  from assms(4) [OF mountedD(1) [OF assms(1) ran(2)] this ran(3)] ran(2,5) show ?thesis by (simp add: slot_fresh_def)
qed (use assms(2) in simp)

lemma unmount_fresh:
  assumes "slot_fresh core s w" and "slot_mounted s = Some m" and "unmount tk g reason m s w = (res, s', w')"
  shows "slot_fresh core s' w'"
proof -
  obtain x c v where q: "request_component_stop tk reason Target_Removed (mounted_component m) w = (x, c, v)"
    by (metis prod_cases3)
  have f: "activation_fresh core (rc_activation c) v"
    using request_stop_fresh [OF _ q] assms(1,2) by (simp add: slot_fresh_def)
  with assms(2,3) q fresh_dropped [OF f drop_component_grows, of tk c] show ?thesis
    by (auto simp: unmount_def slot_fresh_def split: attempt.splits if_splits)
qed

lemma mount_fresh:
  fixes s :: "('u, 'f, 't) component_slot"
  assumes "slot_fresh core s w" and "slot_mounted s = None"
    and "mount_and_reconcile tk core r a s n w = (res, s', n', w')"
  shows "slot_fresh core s' w'"
proof -
  have start: "activation_fresh core (rc_activation c') v"
    if "mount_component iid d sc k = (Accepted c, k')" "reconcile tk core a c w = (y, c', v)"
    for iid d sc k k' y c' v and c :: "('u, 'f, 't) reconciled_component"
    using reconcile_fresh [OF _ that(2)] that(1) assms(1,2)
    by (auto simp: mount_component_def slot_fresh_def split: sum.splits prod.splits)
  with assms show ?thesis
    by (auto simp: mount_and_reconcile_def slot_fresh_def split: sum.splits attempt.splits prod.splits)
qed

lemma reconcile_enabled_fresh:
  assumes "slot_fresh core s w" and "reconcile_enabled tk core g r a s n w = (res, s', n', w')"
  shows "slot_fresh core s' w'"
proof (cases "slot_mounted s")
  case None
  from assms(2) None obtain x where "mount_and_reconcile tk core r a s n w = (x, s', n', w')"
    by (auto simp: reconcile_enabled_def split: prod.splits attempt.splits)
  from mount_fresh [OF assms(1) None this] show ?thesis .
next
  case (Some m)
  have "slot_fresh core (with_component c s) v" if "reconcile tk core a (mounted_component m) w = (x, c, v)" for x c v
    using reconcile_fresh [OF _ that] assms(1) Some by (simp add: slot_fresh_def)
  with assms Some unmount_fresh [OF assms(1) Some] show ?thesis
    by (auto simp: reconcile_enabled_def Let_def split: prod.splits attempt.splits if_splits)
qed

lemma slot_reconcile_fresh:
  assumes "slot_fresh core s w" and "slot_reconcile tk core d s n w = (res, s', n', w')"
  shows "slot_fresh core s' w'"
proof -
  obtain x s1 where a: "accept_desired d s = (x, s1)" by fastforce
  have f1: "slot_fresh core s1 w" using assms(1) accept_desired_activation [OF a] by (simp add: slot_fresh_def)
  have off: "reconcile_disabled tk g r s1 w = (y, s2, v) \<Longrightarrow> slot_fresh core s2 v"
    "reconcile_removed tk g s1 w = (y, s2, v) \<Longrightarrow> slot_fresh core s2 v" for g r y s2 v
    using f1 unmount_fresh [OF f1]
    by (cases "slot_mounted s1"; auto simp: reconcile_disabled_def reconcile_removed_def)+
  show ?thesis
    using assms(2) a f1 off reconcile_enabled_fresh [OF f1]
    by (auto simp: slot_reconcile_def Let_def split: sum.splits option.splits desired_component_state.splits prod.splits)
qed

lemma record_completion_fresh:
  assumes "activation_fresh core (rc_activation c) w" and "slot_mounted s = Some m"
    and "record_completion tk i d (with_component c s) w = (rec, s', w')"
  shows "slot_fresh core s' w'"
proof -
  have upd: "slot_activation (t\<lparr>slot_last_stop := z\<rparr>) = slot_activation t" for t z
    by (simp add: slot_activation_def)
  have "slot_mounted (with_component c s) = Some (m\<lparr>mounted_component := c\<rparr>)"
    using assms(2) by (simp add: with_component_def)
  with assms fresh_dropped [OF assms(1) drop_component_grows] show ?thesis
    by (auto simp: record_completion_def Let_def slot_fresh_def upd split: if_splits)
qed

lemma slot_finish_fresh:
  assumes "considerate core ub" and "slot_fresh core s w" and "slot_poll_finish_stop tk ub e s w = (res, s', w')"
  shows "slot_fresh core s' w'"
proof (cases "slot_mounted s")
  case None
  with assms(2,3) show ?thesis by (auto simp: slot_poll_finish_stop_def)
next
  case (Some m)
  obtain x c v where q: "poll_finish_stop tk ub e (mounted_component m) w = (x, c, v)" by (metis prod_cases3)
  have f: "activation_fresh core (rc_activation c) v"
    using poll_finish_fresh [OF assms(1) _ q] assms(2) Some by (simp add: slot_fresh_def)
  then have "slot_fresh core (with_component c s) v" using Some by (simp add: slot_fresh_def)
  with assms(3) Some q record_completion_fresh [OF f Some] show ?thesis
    by (auto simp: slot_poll_finish_stop_def Let_def split: option.splits attempt.splits prod.splits)
qed

lemma slot_abandon_fresh:
  assumes "slot_fresh core s w" and "slot_abandon tk e s w = (res, s', w')"
  shows "slot_fresh core s' w'"
proof (cases "slot_mounted s")
  case None
  with assms show ?thesis by (auto simp: slot_abandon_def)
next
  case (Some m)
  obtain x c v where q: "abandon_failed_cleanup tk e (mounted_component m) w = (x, c, v)" by (metis prod_cases3)
  have f: "activation_fresh core (rc_activation c) v"
    using abandon_fresh [OF _ q] assms(1) Some by (simp add: slot_fresh_def)
  then have "slot_fresh core (with_component c s) v" using Some by (simp add: slot_fresh_def)
  with assms(2) Some q record_completion_fresh [OF f Some] show ?thesis
    by (auto simp: slot_abandon_def Let_def split: attempt.splits prod.splits)
qed

text \<open>
  What the rest of the process may do between two operations on a slot: anything that \<open>grows\<close> allows, but
  it cannot publish under the effect scope of the slot's activation, which the slot owns.
\<close>

definition outsider :: "address \<Rightarrow> ('u, 'f, 't) component_slot \<Rightarrow> ('t, 'k, 'y) swld \<Rightarrow> ('t, 'k, 'y) swld \<Rightarrow> bool" where
  "outsider core s w w' \<longleftrightarrow>
     grows core w w' \<and>
     (\<forall>p \<in> provider_ids core w'. p \<in> provider_ids core w \<or>
        (case slot_activation s of None \<Rightarrow> True | Some r \<Rightarrow> provider_effect_scope p \<noteq> es_id (ar_effects r)))"

lemma outsider_fresh:
  assumes "slot_fresh core s w" and "outsider core s w w'"
  shows "slot_fresh core s w'"
proof -
  have g: "grows core w w'" and reg: "registered_below core w'"
    using assms grows_registered by (auto simp: outsider_def slot_fresh_def activation_fresh_def)
  have "published_below (ar_effects r) (registry_of core w')"
    if "slot_activation s = Some r" "published_below (ar_effects r) (registry_of core w)" for r
    using that assms(2) unfolding outsider_def published_below_def by fastforce
  with assms(1) g reg show ?thesis
    by (auto simp: slot_fresh_def activation_fresh_def grows_def intro: less_le_trans)
qed

fun op_considerate :: "address \<Rightarrow> ('u, 't, 'k, 'y) slot_op \<Rightarrow> ('u, 'f, 't, 'k, 'y) slot_system \<Rightarrow> bool" where
  "op_considerate core (SL_environment change) (s, n, w) \<longleftrightarrow> outsider core s w (change w)"
| "op_considerate core _ st \<longleftrightarrow> True"

lemma slot_step_fresh:
  assumes "considerate core ub" and "slot_ok s" and "slot_fresh core s w" and "op_considerate core op (s, n, w)"
    and "slot_step tk core ub op (s, n, w) = (panics, s', n', w')"
  shows "slot_fresh core s' w'"
proof (cases op)
  case (SL_reconcile d)
  with assms(5) slot_reconcile_fresh [OF assms(3)] show ?thesis by (auto split: prod.splits)
next
  case (SL_complete_start e)
  then obtain r where q: "on_mounted (\<lambda>a c w. component_complete_start tk core e a c w) s w = (r, s', w')"
    using assms(5) by (auto simp: slot_complete_start_def split: prod.splits)
  from on_mounted_fresh [OF assms(2,3) q complete_start_fresh] show ?thesis .
next
  case (SL_bind e q)
  then obtain r where q: "on_mounted (\<lambda>_ c w. let (r, w) = component_bind tk core e q c w in (r, c, w)) s w = (r, s', w')"
    using assms(5) by (auto simp: slot_bind_def split: prod.splits)
  show ?thesis by (rule on_mounted_fresh [OF assms(2,3) q]) (auto split: prod.splits dest: bind_fresh)
next
  case (SL_provide e p)
  show ?thesis
  proof (cases "active_assignments s")
    case (Inl x)
    with SL_provide assms(3,5) show ?thesis by (auto simp: slot_provide_def slot_fresh_def fresh_quiet)
  next
    case (Inr a)
    with SL_provide obtain r where q: "on_mounted (\<lambda>_ c w. component_provide core e p c w) s w = (r, s', w')"
      using assms(5) by (auto simp: slot_provide_def split: prod.splits)
    from on_mounted_fresh [OF assms(2,3) q component_provide_fresh] show ?thesis .
  qed
next
  case (SL_defer_sync e l cl)
  then obtain r where q: "on_mounted (\<lambda>_ c w. let (r, c) = component_defer_sync e l cl c in (r, c, w)) s w = (r, s', w')"
    using assms(5) by (auto simp: slot_defer_sync_def split: prod.splits)
  show ?thesis
    by (rule on_mounted_fresh [OF assms(2,3) q])
      (auto simp: component_defer_sync_def split: prod.splits dest: component_defer_fresh)
next
  case (SL_defer_async e l cl)
  then obtain r where q: "on_mounted (\<lambda>_ c w. let (r, c) = component_defer_async e l cl c in (r, c, w)) s w = (r, s', w')"
    using assms(5) by (auto simp: slot_defer_async_def split: prod.splits)
  show ?thesis
    by (rule on_mounted_fresh [OF assms(2,3) q])
      (auto simp: component_defer_async_def split: prod.splits dest: component_defer_fresh)
next
  case (SL_fail e summary)
  then obtain r where q: "on_mounted (\<lambda>_ c w. fail_activation tk e summary c w) s w = (r, s', w')"
    using assms(5) by (auto simp: slot_fail_activation_def split: prod.splits)
  from on_mounted_fresh [OF assms(2,3) q fail_fresh] show ?thesis .
next
  case (SL_finish_stop e)
  with assms(5) slot_finish_fresh [OF assms(1,3)] show ?thesis by (auto split: prod.splits)
next
  case (SL_abandon e)
  with assms(5) slot_abandon_fresh [OF assms(3)] show ?thesis by (auto split: prod.splits)
next
  case (SL_environment change)
  with assms(4,5) outsider_fresh [OF assms(3)] show ?thesis by auto
qed

section \<open>Safety\<close>

lemma slot_provide_safe:
  assumes "slot_ok s" and "slot_fresh core s w" and "slot_provide core e p s w = (res, s', w')"
  shows "\<not> is_panic res"
proof (cases "active_assignments s")
  case (Inl x)
  with assms(3) show ?thesis by (auto simp: slot_provide_def)
next
  case (Inr a)
  then have "on_mounted (\<lambda>_ c w. component_provide core e p c w) s w = (res, s', w')"
    using assms(3) by (simp add: slot_provide_def)
  then show ?thesis
  proof (cases rule: on_mounted_cases)
    case (ran a m x c)
    note ok = mountedD(1) [OF assms(1) ran(2)]
    have "\<not> is_panic x"
    proof (cases "rc_kind (mounted_component m) = K_Active")
      case False
      with ran(3) show ?thesis by (auto simp: component_provide_def)
    next
      case True
      then have "published_below (ar_effects r) (registry_of core w)"
        if "rc_activation (mounted_component m) = Some r" for r
        using ok assms(2) ran(2) that
        by (auto simp: component_ok_def live_resources_def slot_fresh_def activation_fresh_def split: component_state.splits)
      then show ?thesis using component_provide_ok(2) [OF ok ran(3)] by blast
    qed
    with ran(4) show ?thesis by simp
  qed (use Inr in simp)
qed

fun run_considerate ::
  "('t, 'k) cancellation_api \<Rightarrow> address \<Rightarrow> ('u, 'f, 'k, ('t, 'y) service_heap) callback_api \<Rightarrow>
     ('u, 't, 'k, 'y) slot_op list \<Rightarrow> ('u, 'f, 't, 'k, 'y) slot_system \<Rightarrow> bool" where
  "run_considerate tk core ub [] st \<longleftrightarrow> True"
| "run_considerate tk core ub (op # ops) st \<longleftrightarrow>
     op_considerate core op st \<and> run_considerate tk core ub ops (snd (slot_step tk core ub op st))"

lemma slot_run_fresh:
  fixes st :: "('u, 'f, 't, 'k, 'y) slot_system"
  assumes "considerate core ub"
  shows "run_considerate tk core ub ops st \<Longrightarrow> (case st of (s, n, w) \<Rightarrow> slot_ok s \<and> slot_fresh core s w) \<Longrightarrow>
    (case fold (\<lambda>op st. snd (slot_step tk core ub op st)) ops st of (s, n, w) \<Rightarrow> slot_ok s \<and> slot_fresh core s w)"
proof (induction ops arbitrary: st)
  case (Cons op ops)
  obtain s n w where st: "st = (s, n, w)" by (cases st)
  obtain p s' n' w' where step: "slot_step tk core ub op (s, n, w) = (p, s', n', w')" by (metis prod_cases4)
  have "slot_ok s' \<and> slot_fresh core s' w'"
    using Cons.prems slot_step_ok [OF _ step] slot_step_fresh [OF assms _ _ _ step] by (simp add: st)
  with Cons.IH [of "(s', n', w')"] Cons.prems(1) show ?case by (simp add: st step)
qed simp

text \<open>
  C38. Whatever is done with a slot since it was created, in any order and interleaved with anything the
  rest of the process and the user's cleanups do through the registry, no operation on the slot panics: no
  \<open>expect\<close>, \<open>unreachable\<close> or assertion of the slot, of the component behind it, or of the registry it
  publishes to fails, its uniqueness assertion on provider identities included. The slot's invariant holds,
  and the desired state never goes back: it stays, or moves to a later generation.
\<close>

theorem slot_run_is_safe:
  assumes "new_slot iid k = (Inr s0, k')" and "registered_below core w0" and "considerate core ub"
    and "run_considerate tk core ub ops (s0, n0, w0)"
    and "(s, n, w) = fold (\<lambda>op st. snd (slot_step tk core ub op st)) ops (s0, n0, w0)"
  shows "slot_ok s \<and> \<not> fst (slot_step tk core ub op (s, n, w)) \<and>
    newer_desired (slot_desired s)
      (slot_desired (fst (fold (\<lambda>op st. snd (slot_step tk core ub op st)) later (s, n, w))))"
proof -
  have "slot_mounted s0 = None" using assms(1) by (auto simp: new_slot_def split: option.splits if_splits)
  then have "slot_fresh core s0 w0" using assms(2) by (simp add: slot_fresh_def activation_fresh_def)
  with slot_run_fresh [OF assms(3,4)] new_slot_ok [OF assms(1)] assms(5) [symmetric]
  have ok: "slot_ok s" and fresh: "slot_fresh core s w" by simp_all
  obtain p s' n' w' where step: "slot_step tk core ub op (s, n, w) = (p, s', n', w')" by (metis prod_cases4)
  have "\<not> p"
  proof (cases "\<exists>e v. op = SL_provide e v")
    case False
    with slot_step_ok [OF ok step] show ?thesis by blast
  next
    case True
    then obtain e v r where q: "slot_provide core e v s w = (r, s', w')" "p = is_panic r"
      using step by (auto split: prod.splits)
    from slot_provide_safe [OF ok fresh q(1)] q(2) show ?thesis by simp
  qed
  with ok step slot_runs_newer [OF ok] show ?thesis by simp
qed

text \<open>A slot whose component is up publishes one service, and then another.\<close>

definition demo_publish :: demo_slot_op where
  "demo_publish = SL_provide demo_epoch demo_provider"

lemma demo_user_considerate: "considerate core demo_user"
  by (simp add: considerate_def demo_user_def)

lemma demo_heap_registered: "registered_below 10 demo_heap"
  by (simp add: registered_below_def demo_heap_def demo_services_def new_registry_def set_registry_def registry_of_def)

theorem slot_run_is_safe_witness:
  "\<not> fst (slot_step demo_tokens 10 demo_user demo_publish
     (fold (\<lambda>op st. snd (slot_step demo_tokens 10 demo_user op st)) (demo_slot_ops @ [demo_publish])
        (demo_slot, 1, demo_heap)))"
proof -
  have polite: "run_considerate demo_tokens 10 demo_user (demo_slot_ops @ [demo_publish]) (demo_slot, 1, demo_heap)"
    by (simp add: demo_slot_ops_def demo_publish_def del: slot_step.simps)
  show ?thesis
    using slot_run_is_safe [OF demo_slot_new demo_heap_registered demo_user_considerate polite, of _ _ _ demo_publish "[]"]
    by (metis prod.collapse)
qed

end
