(* ===== verification/Spec2Isabelle.thy ===== *)
theory Spec2Isabelle
  imports Codec_Properties Session_Properties Exchange_Properties Kernel_Properties Plugin_Guard Compose_Slot_Safety
begin

text \<open>
  \<^bold>\<open>YAH: the worker protocol, the composition runtime, the kernel and the plugin host.\<close>

  YAH is an agent harness: a host process that composes components at run time and runs plugins
  out of process. This development covers four of its crates.

  \<^item> \<open>crates/yah-plugin-ipc\<close> is the protocol between the host and one worker process, written
    without I/O: bytes, time and application requests go in; frames for the worker and facts for the
    application come out. It is modelled completely, its schema generator apart.
  \<^item> \<open>crates/yah-compose\<close> is the composition runtime: identities, scopes, the lifecycle of a component
    instance, the effect scope that owns what an activation started, the service registry, the
    reconciler that starts and stops one component, and the slot that converges it to a desired state.
    It is modelled completely, but for the waiting of its asynchronous functions.
  \<^item> \<open>crates/yah-kernel\<close> is the kernel of the harness: identities, the frozen scopes of cancellations, the
    ledger of external effects, and the funnel through which every change of the control graph goes. The
    funnel and what it decides on is modelled completely; of the store below it, what the funnel uses.
  \<^item> \<open>crates/yah-plugin-host\<close> admits plugins and runs them: identities and manifests of packages, the broker
    that grants capabilities to activations, and the guard that drives one plugin through its activation. It is
    modelled completely, its conformance suite for drivers apart.

  \<^bold>\<open>How the parts interact.\<close>

  A transport hands bytes to \<open>HostSession::feed\<close>. The frame decoder cuts them into frames, strict JSON
  admission turns a frame into a value, the derived decoder turns the value into a \<open>WorkerMessage\<close>, and
  \<open>validate_bounds\<close> checks its fields. The first message negotiates; afterwards each message goes to
  the handler of its kind, which reads and updates the tables of calls, handles, releases and spent ids
  and appends to the outbox (frames) and to the events (facts). The application calls the same session
  from the other side: it makes calls, answers the worker's, opens and feeds streams, mints and
  releases handles, offers artifacts, ticks the clock, and drains the two queues. A violation of the
  protocol is fatal: it settles everything in flight, reclaims every handle and closes the session.

  In the composition runtime a slot holds the latest desired snapshot and at most one mounted revision.
  Reconciling it drives a reconciled component: a lifecycle instance, and while an activation lives its
  provider selection and its effect scope. The registry lists what active components provide; a handle
  to a provider is bound for one starting consumer, and each call through it is admitted to the gates
  of both activations. Stopping seals the effect scope, which revokes the gate and cancels the token;
  the close then waits for admitted calls and undoes the effects, among them the providers, in reverse.

  In the kernel a command names a project, a receipt key, a principal, an expected version and a method.
  \<open>Funnel::submit\<close> checks its address, answers a repeated command from the receipt, reads the rows the
  method needs, and validates it: authority and fence, versions, the bars of committed cancellations, and
  the rules of the method. A refusal is recorded where the rules say so. An accepted command yields a plan
  and the events to journal; plan, events and receipt are written to a transaction on a copy of the graph,
  and the address books of the store follow when the engine commits. A commit whose outcome is unknown
  latches the funnel, which then refuses everything. Cancellations freeze their scope when they are
  committed; effects are prepared, dispatched, parked and settled, each by a command of its own.

  The plugin host sits on the composition runtime. A manifest is parsed from bounded text; it declares services
  and requests capabilities. The host registers capability providers with a broker and grants some of the requested
  capabilities to a revision. For a starting component it prepares the plugin's driver: it checks that the driver is the
  selected one, that the broker owns every granted registration, lets the driver prepare, and defers the deactivation
  into the component's effect scope. Only then is there a start permit, with a context through which the plugin
  resolves handles to granted capabilities. Polling the activation starts the driver; readiness completes the start
  of the component, anything else seals it. Each call through a handle is admitted to the activation's gates and to the
  gate of the registration, which a withdrawal revokes for ever.

  \<^bold>\<open>Theories, and the code each models.\<close>

  \<^item> \<open>Yah_Prelude\<close>: machine integers as naturals with wrap-around written out, Rust strings as UTF-8 bytes,
    \<open>BTreeMap\<close> as a key-sorted association list. Locales: \<open>table\<close> (the contract of a map the session's
    accounting needs, interpreted on \<open>BTreeMap\<close>), \<open>invariant_machine\<close> (a step function with an invariant,
    interpreted on the decoder, scopes, instances, the registry, slots, the kernel's funnel, capability brokers and
    activation guards), and \<open>counted_machine\<close> (one whose
    invariant holds while a counter does not overflow, interpreted on the session).
  \<^item> \<open>Wire_Types\<close>: the bounds of \<open>lib.rs\<close> and the messages of \<open>types.rs\<close>, one record or datatype per type.
  \<^item> \<open>Frame_Codec\<close>: \<open>frame.rs\<close>, the length-prefixed framing (\<open>encode\<close>, \<open>FrameDecoder\<close>).
  \<^item> \<open>Strict_Json\<close>: \<open>strict.rs\<close>, and \<open>value_within_ijson\<close> of \<open>session/mod.rs\<close>.
  \<^item> \<open>Session_State\<close>, \<open>Session_Handles\<close>, \<open>Session_Calls\<close>, \<open>Session_Streams\<close>, \<open>Session_Machine\<close>: \<open>session/mod.rs\<close>,
    \<open>handles.rs\<close>, \<open>calls.rs\<close>, \<open>streams.rs\<close> and \<open>negotiate.rs\<close>. \<open>host_session\<close> is the struct \<open>HostSession\<close>,
    field by field; each method is a function of the same name from a session to the session it
    leaves, with its \<open>Result\<close> beside it where it has one. \<open>session_input\<close> enumerates the public methods
    that change the session, \<open>session_step\<close> applies one, and \<open>run\<close> applies a list to a new session.
  \<^item> \<open>Session_Invariant\<close>: \<open>session_inv\<close>, the consistency of the tables, counters, gauges, streams and
    budgets, and that every input keeps it.
  \<^item> \<open>Session_Protocol\<close>: the abstract machine \<open>law\<close>, with one rule per kind of protocol step, and the
    refinement: every step of the session is a sequence of lawful steps of its abstraction.
  \<^item> \<open>Session_Ledger\<close>: all frames and facts of a run, across drains, and what the law implies for them.
  \<^item> \<open>Session_Feed\<close>: the handlers do not read the decoder, so chunk boundaries do not matter.
  \<^item> \<open>Session_Effects\<close>: the exact effect of fatal faults, goodbyes, deadlines and refusals.
  \<^item> \<open>Session_Demo\<close>: a concrete instance of the code outside the repository, and concrete runs.
  \<^item> \<open>Codec_Properties\<close>, \<open>Session_Properties\<close>, \<open>Exchange_Properties\<close>: the properties of the crate.
  \<^item> \<open>Compose_Scope\<close>: \<open>id.rs\<close> and \<open>scope.rs\<close>; \<open>Arc\<close> pointers are addresses from a fresh-address counter.
  \<^item> \<open>Compose_Lifecycle\<close>: \<open>lifecycle.rs\<close> and \<open>component.rs\<close>; a \<open>fleet\<close> is the set of instances of a process
    with its global incarnation counter.
  \<^item> \<open>Compose_Activity\<close>: \<open>effect_scope/activity.rs\<close>; the gates sequentially, and one gate with its atomic
    operations interleaved by any number of threads.
  \<^item> \<open>Compose_Report\<close>, \<open>Compose_Effect\<close>: \<open>effect_scope/report.rs\<close>, and the scopes of \<open>effect_scope.rs\<close> with
    registration and lookup. \<open>world\<close> is what the scopes of a process share: gates, tokens, the scope counter
    and fresh addresses, and whatever user code may touch.
  \<^item> \<open>Compose_Close\<close>: sealing, dropping and polling a close. One poll is one call of \<open>poll_close\<close>; a close
    that is awaited is a sequence of polls with any change of the world between them (\<open>drive\<close>).
  \<^item> \<open>Compose_Service\<close>: \<open>service/\<close>. A registry is a cell of the heap under its lock; \<open>Weak\<close> and \<open>Arc\<close> shares of
    provider values are counted.
  \<^item> \<open>Compose_Registry\<close>: the registry together with any number of activation scopes (\<open>service_step\<close>, another
    instance of \<open>invariant_machine\<close>), its invariant, and the properties of publication, binding and calls.
  \<^item> \<open>Compose_Reconcile\<close>, \<open>Compose_Convergence\<close>: \<open>reconcile/\<close>; the operations of a reconciled component, and
    what any sequence of them does (\<open>component_step\<close>). A panic is a value (\<open>Panic\<close> of \<open>attempt\<close>), so that
    every \<open>expect\<close>, \<open>assert\<close> and \<open>unreachable\<close> is a branch of the model.
  \<^item> \<open>Compose_Slot\<close>, \<open>Compose_Desired\<close>, \<open>Compose_Slot_Runs\<close>: \<open>desired_state/\<close>; the slot, its invariant, and what any
    sequence of operations on it does (\<open>slot_step\<close>, again an \<open>invariant_machine\<close>). \<open>Compose_Slot_Safety\<close>: a slot
    among the rest of the process, where what it publishes is always new to the registry.
  \<^item> \<open>Kernel_Ids\<close>: \<open>ids.rs\<close> and \<open>error.rs\<close> of the kernel. \<open>Kernel_Cancel\<close>: \<open>cancel.rs\<close> and \<open>funnel/cancel_rules.rs\<close>.
    \<open>Kernel_Effect\<close>: \<open>effect/mod.rs\<close> and \<open>funnel/effect_rules.rs\<close>.
  \<^item> \<open>Kernel_Store\<close>: of \<open>store/\<close>, the values, the address books, the cursor allocator, the fence of a holder and
    the classification of a commit error. \<open>kernel_env\<close> gathers the graph engine and the serialisation.
  \<^item> \<open>Kernel_Command\<close>: \<open>funnel/command.rs\<close>, \<open>plan.rs\<close>, \<open>receipt.rs\<close>, \<open>replay.rs\<close>, \<open>wire.rs\<close>. \<open>Kernel_Validate\<close>: the
    pre-read, \<open>cancel_resolution.rs\<close>, \<open>run_rules.rs\<close> and the gates of \<open>validate.rs\<close>. \<open>Kernel_Methods\<close>: the validation of
    each method (\<open>validate.rs\<close>, \<open>effects.rs\<close>, \<open>cancel.rs\<close>). \<open>Kernel_Funnel\<close>: \<open>mod.rs\<close>, \<open>reject.rs\<close>, \<open>lifecycle.rs\<close>;
    \<open>submit\<close> is the one long function of the source, cut where it begins a new concern. \<open>funnel_step\<close> is
    a submission or a tick, \<open>fold funnel_step\<close> a run.
  \<^item> \<open>Kernel_Transition\<close>: what a submission does, once for all plans: either the funnel is as it was but for
    its counters, or a rejection was recorded, or the rows changed exactly as the plan says.
  \<^item> \<open>Kernel_Invariant\<close>, \<open>Kernel_Plans\<close>: the invariant of books and cursors, the abstract lifecycle of an effect
    (\<open>effect_step\<close>, labelled by the command that takes it and written without the code's own checks), and that validation only
    accepts lawful plans. \<open>Kernel_Journal\<close>, \<open>Kernel_Ledger\<close>, \<open>Kernel_Fence\<close>,
    \<open>Kernel_Bars\<close>: receipts and events, effects, fences, and committed cancellations along any run; \<open>unit_below\<close> and
    \<open>effect_below\<close> read from the rows what stands below a cancelled root.
  \<^item> \<open>Kernel_Demo\<close>, \<open>Kernel_Properties\<close>: a concrete engine and store, and the properties of the funnel.
  \<^item> \<open>Plugin_Identity\<close>: \<open>identity.rs\<close> of the plugin host, and the grammar of its identities. \<open>Plugin_Manifest\<close>:
    \<open>manifest.rs\<close> and \<open>revision.rs\<close>, with the UTF-8 check of the standard library.
  \<^item> \<open>Plugin_Broker\<close>: \<open>capability/\<close>; brokers are cells of the heap, \<open>Arc\<close> shares of providers are counted.
    \<open>Plugin_Authority\<close>: any number of brokers and registrations under any sequence of operations (\<open>broker_step\<close>),
    their invariant, and what handles promise.
  \<^item> \<open>Plugin_Driver\<close>, \<open>Plugin_Activation\<close>: \<open>driver/\<close>; the control of a prepared activation as a locked cell of the heap, the
    deactivation future, the guard, its operations and its drop. \<open>plugin_callbacks\<close> makes the deactivation a
    cleanup of the effect scope. \<open>Plugin_Guard\<close>: the slot behind a guard, the invariant of a guard under
    \<open>guard_step\<close>, and its properties.

  \<^bold>\<open>What the theorems show.\<close>

  The codec delivers exactly the frames encoded, whatever the chunking, measures truncation, bounds its
  memory and never resumes after a violation. Strict JSON admits exactly the documents without lossy
  integers or repeated members. Every run of a session keeps its invariant; its gauges stay within the
  negotiated ceilings and what it retains is bounded by its configuration; each host call settles
  exactly once and nothing is left unsettled at the close; each worker call is answered at most once;
  stream items come in order without gaps; faults, goodbyes and deadlines wind up exactly what they
  should; a refused operation changes nothing; a closed session is inert; handles are fresh, counted,
  and released or acknowledged once; an artifact is read back as offered. In the composition runtime,
  visibility is ancestry and roots are isolated; the lifecycle is the documented diagram, fenced by
  epochs that are never reused; admission to an activation subtree is all or nothing, and the drain
  latch is set exactly when a revoked activation has no admitted call left. Teardown runs every owned
  effect once, last registered first, only after admitted calls have drained, and it ends. Publication
  is safe under every interleaving, binding agrees with discovery, a sealed activation serves nobody, and
  a service call is counted by both activations while it runs. The reconciler never panics; its
  activations do not overlap; it starts exactly what is satisfied, stops what no longer is, and leaves alone
  what a refused pass names; every operation under a stale epoch is rejected; and an unclean teardown holds the component until it is abandoned. A slot, whatever
  the rest of the process does meanwhile, never panics and never goes back to an older desired state; it admits exactly the snapshots that are its own,
  newer and consistent; a superseded revision is stopping and fenced; and a desired removal is reached.
  In the kernel, a command is answered once and for all, completed or refused; receipts and events are never
  lost or changed; the rows stay consistent with the records in them; a holder whose epoch or stamp was
  overtaken never completes a command again, and the token of a dispatch passes; effects follow their
  lifecycle, each step earned by the command that takes it, and a terminal is written once; a committed cancellation bars admission below it for ever, and
  a prepared effect below it settles as cancelled; a run closes as a success only with every effect
  settled with a known outcome. Scopes freeze leaf first and are searched correctly; a request settles
  exactly when each member is discharged; a success rests on an observation of every declared target.
  In the plugin host, identities are exactly the texts of their grammar, a package path cannot leave its package,
  parsed manifests say what their text says, are valid and survive their text; a capability handle is what was requested and granted,
  its calls are bracketed, and a revoked one is dead for ever. Preparation defers the deactivation before
  anything starts; the guard of an activation never panics, whatever its driver does; a start whose
  cancellation was requested is destroyed and says so; any other that does not become ready, and a guard that
  is dropped, leave no live activation behind.

  \<^bold>\<open>Code outside the repository.\<close>

  \<open>tokio_util\<close>'s cancellation tokens are the record \<open>cancellation_api\<close>, and deferred cleanups and their
  futures, which are the caller's code, the record \<open>callback_api\<close>; each may panic and change the world.
  \<open>serde_json\<close>, the derived decoders, \<open>blake3\<close> and the \<open>Debug\<close> rendering of strings are fields of the
  records \<open>serde\<close> and \<open>wire_env\<close>, arguments of the functions that use them. No property assumes anything
  of them, except where its statement says so (the digest has 32 bytes; the parser reports only negative
  literals as signed). The kernel's graph engine, the serialised form of its records, the canonical form of
  JSON, \<open>blake3\<close> and the calendar are fields of \<open>kernel_env\<close>; \<open>kernel_env_ok\<close> states what is relied on: a created
  node is new and has the label and properties given, an update changes only the node it names, and a record
  that was written is read back. SemVer is the record \<open>semver_api\<close> and TOML part of \<open>manifest_env\<close>, whose
  \<open>toml_decode\<close> and \<open>toml_probe\<close> are the parser together with the field-by-field decoders that \<open>serde\<close> derives for
  \<open>RawManifest\<close> and \<open>ManifestWire\<close>; the round trip of a
  manifest assumes that a serialised document is read back (\<open>toml_reads_back\<close>). Plugin drivers are the record
  \<open>driver_api\<close>, and nothing is assumed of them: each of their callbacks may panic and change the world. Whether the engine commits a transaction is an argument of each submission.

  \<^bold>\<open>Bounds.\<close>

  No function uses fuel: the loops recurse on the bytes left in a buffer or on the entries of a table,
  and are proved terminating. The two 64-bit id counters wrap in the model as they do in the code; each
  input advances a counter by at most one, so the properties of a run ask for fewer than \<open>2\<^sup>6\<^sup>4 - 2\<close> inputs.
  \<open>usize\<close> is 64 bits wide. Properties of a session in any state ask for \<open>session_inv\<close>, which every such
  run has, and their witnesses are runs.

  \<^bold>\<open>Not modelled.\<close>

  \<^item> Of \<open>yah-kernel\<close>: the creation and recovery of a store directory and the validation of recovered rows, which
    are I/O over the graph engine; the protocol adapter and the providers; the fake effect backend.
  \<^item> Of \<open>yah-plugin-host\<close>: the conformance suite, which tests drivers. A driver that asks for its own control
    while it is called blocks for ever; in the model the lock keeps the control unchanged. The cleanups of a slot that is
    dropped without a stop are dropped unrun, and what their destructors do is not modelled: in particular an
    un-run \<open>Deactivate\<close> closure, or the last \<open>Arc\<close> of a \<open>PreparedControl\<close>, that is dropped does not dispose the
    driver's objects in the model.
  \<^item> The \<open>debug_assert\<close>s of \<open>next_handle_id\<close> and of the drops of an activity guard and a registration admission, which
    a release build omits. A panic of the operation
    that a caller hands to \<open>try_with\<close> of a service handle: the operation is a function of the world.
  \<^item> \<open>yah-plugin-proc\<close> and \<open>yah-plugin-wasm\<close> (process and WebAssembly drivers: pipes, threads, the wasmtime
    engine), \<open>exp001-harness\<close> (a benchmark) and the schema generators: I/O around these parts.
\<close>

end
